(* ===== verification/Interfaces.thy ===== *)
theory Interfaces
  imports Main
begin

text \<open>
  The interfaces between the components, as locales: what a caller relies on, without the
  component that provides it. \<open>keyed_store\<close> is the contract of the JavaScript \<open>Map\<close> behind every
  in-memory service, \<open>repository\<close> that of the stores which file a record under its own id and hand
  out copies of it, \<open>secret_sharing\<close> that of \<open>split\<close> and \<open>reconstruct\<close>, \<open>share_store\<close> that of
  the \<open>HsmBackend\<close> interface of \<open>backend/src/services/mpc/hsm.ts\<close>, and \<open>custody\<close> puts the last
  two together. Each is interpreted on the model of the code in the theory that provides it.
\<close>

subsection \<open>Keyed stores\<close>

definition entries_sat :: "('m \<Rightarrow> 'k \<Rightarrow> 'v option) \<Rightarrow> ('k \<Rightarrow> 'v \<Rightarrow> bool) \<Rightarrow> 'm \<Rightarrow> bool" where
  "entries_sat get P m \<longleftrightarrow> (\<forall>k v. get m k = Some v \<longrightarrow> P k v)"

locale keyed_store =
  fixes empty :: 'm
    and get :: "'m \<Rightarrow> 'k \<Rightarrow> 'v option"
    and put :: "'k \<Rightarrow> 'v \<Rightarrow> 'm \<Rightarrow> 'm"
    and del :: "'k \<Rightarrow> 'm \<Rightarrow> 'm"
  assumes get_empty: "get empty k = None"
    and get_put: "get (put k v m) j = (if j = k then Some v else get m j)"
    and get_del: "get (del k m) j = (if j = k then None else get m j)"
begin

lemma put_overwrites: "get (put k v (put k u m)) j = get (put k v m) j"
  by (simp add: get_put)

lemma del_put: "get (del k (put k v m)) j = get (del k m) j"
  by (simp add: get_put get_del)

lemma entries_empty: "entries_sat get P empty"
  by (simp add: entries_sat_def get_empty)

lemma entries_put: "entries_sat get P m \<Longrightarrow> P k v \<Longrightarrow> entries_sat get P (put k v m)"
  by (simp add: entries_sat_def get_put)

lemma entries_del: "entries_sat get P m \<Longrightarrow> entries_sat get P (del k m)"
  by (simp add: entries_sat_def get_del)

lemma entries_get: "entries_sat get P m \<Longrightarrow> get m k = Some v \<Longrightarrow> P k v"
  by (simp add: entries_sat_def)

lemma entries_mono:
  "entries_sat get P m \<Longrightarrow> (\<And>k v. P k v \<Longrightarrow> Q k v) \<Longrightarrow> entries_sat get Q m"
  by (simp add: entries_sat_def)

end

subsection \<open>Repositories\<close>

text \<open>
  The \<open>create\<close>, \<open>update\<close> and \<open>findById\<close> of a repository. \<open>filed\<close> says of the stored records that each
  is found under its own id and satisfies a property: a service proves its invariant as such a
  property of the records that it saves.
\<close>

definition filed :: "('k \<Rightarrow> 's \<Rightarrow> 'v option) \<Rightarrow> ('v \<Rightarrow> 'k) \<Rightarrow> ('v \<Rightarrow> bool) \<Rightarrow> 's \<Rightarrow> bool" where
  "filed fetch ident P s \<longleftrightarrow> (\<forall>k v. fetch k s = Some v \<longrightarrow> ident v = k \<and> P v)"

locale repository =
  fixes fetch :: "'k \<Rightarrow> 's \<Rightarrow> 'v option"
    and ident :: "'v \<Rightarrow> 'k"
    and save :: "'v \<Rightarrow> 's \<Rightarrow> 's"
  assumes fetch_save: "fetch k (save v s) = (if k = ident v then Some v else fetch k s)"
begin

lemma filed_get: "filed fetch ident P s \<Longrightarrow> fetch k s = Some v \<Longrightarrow> ident v = k \<and> P v"
  by (simp add: filed_def)

lemma filed_save: "filed fetch ident P s \<Longrightarrow> P v \<Longrightarrow> filed fetch ident P (save v s)"
  by (simp add: filed_def fetch_save)

lemma filed_mono: "filed fetch ident P s \<Longrightarrow> (\<And>v. P v \<Longrightarrow> Q v) \<Longrightarrow> filed fetch ident Q s"
  by (simp add: filed_def)

lemma fetch_saved: "fetch (ident v) (save v s) = Some v"
  by (simp add: fetch_save)

lemma last_save_wins: "ident v = ident u \<Longrightarrow> fetch k (save v (save u s)) = fetch k (save v s)"
  by (simp add: fetch_save)

lemma saves_commute: "ident v \<noteq> ident u \<Longrightarrow> fetch k (save v (save u s)) = fetch k (save u (save v s))"
  by (auto simp: fetch_save)

end

subsection \<open>Secret sharing\<close>

locale secret_sharing =
  fixes share_out :: "'s \<Rightarrow> int \<Rightarrow> int \<Rightarrow> 'r \<Rightarrow> 'e + 'sh list"
    and recover :: "'sh list \<Rightarrow> 'e + 's"
  assumes share_out_length: "share_out s t n r = Inr shs \<Longrightarrow> int (length shs) = n"
    and share_out_distinct: "share_out s t n r = Inr shs \<Longrightarrow> distinct shs"
    and recover_share_out:
      "share_out s t n r = Inr shs \<Longrightarrow> set sub \<subseteq> set shs \<Longrightarrow> distinct sub \<Longrightarrow>
       t \<le> int (length sub) \<Longrightarrow> recover sub = Inr s"
begin

lemma recover_all:
  assumes "share_out s t n r = Inr shs" and "t \<le> n"
  shows "recover shs = Inr s"
  using assms by (intro recover_share_out) (auto simp: share_out_length share_out_distinct)

end

subsection \<open>Share stores\<close>

text \<open>
  A share store keeps one share per key and holder: \<open>entry\<close> is what is stored, \<open>get\<close> what a client
  is given, which is nothing while the holder is unavailable. \<open>ok\<close> says for which key ids the
  store keeps the entries apart (the code joins key id and node id into one string).
\<close>

locale share_store =
  fixes put :: "'k \<Rightarrow> 'n \<Rightarrow> 'sh \<Rightarrow> 'm \<Rightarrow> 'm"
    and get :: "'m \<Rightarrow> 'k \<Rightarrow> 'n \<Rightarrow> 'sh option"
    and del :: "'k \<Rightarrow> 'n \<Rightarrow> 'm \<Rightarrow> 'm"
    and del_key :: "'k \<Rightarrow> 'm \<Rightarrow> 'm"
    and available :: "'m \<Rightarrow> 'n \<Rightarrow> bool"
    and entry :: "'m \<Rightarrow> 'k \<Rightarrow> 'n \<Rightarrow> 'sh option"
    and ok :: "'k \<Rightarrow> bool"
  assumes get_entry: "get m k n = (if available m n then entry m k n else None)"
    and available_put: "available (put k n sh m) = available m"
    and available_del: "available (del k n m) = available m"
    and available_del_key: "available (del_key k m) = available m"
    and entry_put: "ok k \<Longrightarrow> ok k' \<Longrightarrow>
      entry (put k n sh m) k' n' = (if k' = k \<and> n' = n then Some sh else entry m k' n')"
    and entry_del: "ok k \<Longrightarrow> ok k' \<Longrightarrow>
      entry (del k n m) k' n' = (if k' = k \<and> n' = n then None else entry m k' n')"
    and entry_del_key: "ok k \<Longrightarrow> ok k' \<Longrightarrow>
      entry (del_key k m) k' n' = (if k' = k then None else entry m k' n')"
begin

lemma available_put_all: "available (fold (\<lambda>(n, sh). put k n sh) ps m) = available m"
  by (induction ps arbitrary: m) (auto simp: available_put)

lemma available_del_all: "available (fold (del k) ns m) = available m"
  by (induction ns arbitrary: m) (auto simp: available_del)

lemma entry_put_all_other:
  "ok k \<Longrightarrow> ok k' \<Longrightarrow> k' \<noteq> k \<or> n' \<notin> fst ` set ps \<Longrightarrow>
   entry (fold (\<lambda>(n, sh). put k n sh) ps m) k' n' = entry m k' n'"
  by (induction ps arbitrary: m) (auto simp: entry_put)

lemma entry_put_all:
  "ok k \<Longrightarrow> distinct (map fst ps) \<Longrightarrow> (n, sh) \<in> set ps \<Longrightarrow>
   entry (fold (\<lambda>(n, sh). put k n sh) ps m) k n = Some sh"
proof (induction ps arbitrary: m)
  case (Cons p ps)
  show ?case
  proof (cases "p = (n, sh)")
    case True
    with Cons.prems have "n \<notin> fst ` set ps" by auto
    with True Cons.prems show ?thesis by (simp add: entry_put_all_other entry_put)
  next
    case False
    with Cons show ?thesis by (cases p) auto
  qed
qed simp

lemma entry_put_all_some:
  "ok k \<Longrightarrow> n \<in> fst ` set ps \<Longrightarrow>
   \<exists>sh\<in>snd ` set ps. entry (fold (\<lambda>(n, sh). put k n sh) ps m) k n = Some sh"
proof (induction ps arbitrary: m)
  case (Cons p ps)
  then show ?case
    by (cases p; cases "n \<in> fst ` set ps") (auto simp: entry_put_all_other entry_put)
qed simp

lemma entry_del_all:
  "ok k \<Longrightarrow> ok k' \<Longrightarrow>
   entry (fold (del k) ns m) k' n = (if k' = k \<and> n \<in> set ns then None else entry m k' n)"
  by (induction ns arbitrary: m) (auto simp: entry_del)

end

subsection \<open>Custody\<close>

text \<open>
  The shares of a secret \<open>s\<close> with threshold \<open>t\<close> are in custody under a key when some dealing of
  \<open>s\<close> lies in the store, share by share, at the holders \<open>ns\<close>.
\<close>

definition in_custody ::
  "('s \<Rightarrow> int \<Rightarrow> int \<Rightarrow> 'r \<Rightarrow> 'e + 'sh list) \<Rightarrow> ('m \<Rightarrow> 'k \<Rightarrow> 'n \<Rightarrow> 'sh option) \<Rightarrow>
   'm \<Rightarrow> 'k \<Rightarrow> 'n list \<Rightarrow> int \<Rightarrow> 's \<Rightarrow> bool" where
  "in_custody share_out entry m k ns t s \<longleftrightarrow> distinct ns \<and>
     (\<exists>r shs. share_out s t (int (length ns)) r = Inr shs \<and>
        list_all2 (\<lambda>n sh. entry m k n = Some sh) ns shs)"

locale custody = share_store + secret_sharing +
  constrains put :: "'k \<Rightarrow> 'n \<Rightarrow> 'sh \<Rightarrow> 'm \<Rightarrow> 'm"
    and share_out :: "'s \<Rightarrow> int \<Rightarrow> int \<Rightarrow> 'r \<Rightarrow> 'e + 'sh list"
begin

lemma deposit:
  assumes "share_out s t (int (length ns)) r = Inr shs" and "distinct ns" and "ok k"
  shows "in_custody share_out entry (fold (\<lambda>(n, sh). put k n sh) (zip ns shs) m) k ns t s"
proof -
  have len: "length shs = length ns"
    using share_out_length [OF assms(1)] by simp
  then have "list_all2 (\<lambda>n sh. entry (fold (\<lambda>(n, sh). put k n sh) (zip ns shs) m) k n = Some sh) ns shs"
    using assms(2,3) by (auto simp: list_all2_iff intro!: entry_put_all)
  with assms(1,2) show ?thesis
    unfolding in_custody_def by blast
qed

lemma custody_cong:
  assumes "in_custody share_out entry m k ns t s"
    and "\<And>n. n \<in> set ns \<Longrightarrow> entry m' k n = entry m k n"
  shows "in_custody share_out entry m' k ns t s"
proof -
  have "list_all2 (\<lambda>n sh. entry m' k n = Some sh) ns shs"
    if "list_all2 (\<lambda>n sh. entry m k n = Some sh) ns shs" for shs
    using that assms(2) by (auto simp: list_all2_conv_all_nth)
  with assms(1) show ?thesis
    unfolding in_custody_def by blast
qed

lemma custody_put_all_other:
  "in_custody share_out entry m k' ns t s \<Longrightarrow> ok k \<Longrightarrow> ok k' \<Longrightarrow> k' \<noteq> k \<Longrightarrow>
   in_custody share_out entry (fold (\<lambda>(n, sh). put k n sh) ps m) k' ns t s"
  by (erule custody_cong) (simp add: entry_put_all_other)

lemma custody_del_all_other:
  "in_custody share_out entry m k' ns t s \<Longrightarrow> ok k \<Longrightarrow> ok k' \<Longrightarrow> k' \<noteq> k \<Longrightarrow>
   in_custody share_out entry (fold (del k) xs m) k' ns t s"
  by (erule custody_cong) (simp add: entry_del_all)

lemma custody_del_key_other:
  "in_custody share_out entry m k' ns t s \<Longrightarrow> ok k \<Longrightarrow> ok k' \<Longrightarrow> k' \<noteq> k \<Longrightarrow>
   in_custody share_out entry (del_key k m) k' ns t s"
  by (erule custody_cong) (simp add: entry_del_key)

text \<open>What the available holders return are shares of one dealing, none twice.\<close>

lemma available_shares:
  assumes "in_custody share_out entry m k ns t s"
  shows "\<exists>r shs. share_out s t (int (length ns)) r = Inr shs \<and>
    set (List.map_filter (get m k) ns) \<subseteq> set shs \<and> distinct (List.map_filter (get m k) ns)"
proof -
  obtain r shs where out: "share_out s t (int (length ns)) r = Inr shs"
    and all2: "list_all2 (\<lambda>n sh. entry m k n = Some sh) ns shs"
    using assms unfolding in_custody_def by blast
  have "set (List.map_filter (get m k) ns) \<subseteq> set shs \<and> distinct (List.map_filter (get m k) ns)"
    using all2 share_out_distinct [OF out]
    by (induction ns shs rule: list_all2_induct) (auto simp: List.map_filter_simps get_entry)
  with out show ?thesis by blast
qed

lemma available_shares_length:
  assumes "in_custody share_out entry m k ns t s"
  shows "length (List.map_filter (get m k) ns) = length (filter (available m) ns)"
proof -
  obtain shs where "list_all2 (\<lambda>n sh. entry m k n = Some sh) ns shs"
    using assms unfolding in_custody_def by blast
  then show ?thesis
    by (induction ns shs rule: list_all2_induct) (auto simp: List.map_filter_simps get_entry)
qed

lemma recover_available:
  assumes "in_custody share_out entry m k ns t s"
    and "set sub \<subseteq> set (List.map_filter (get m k) ns)" and "distinct sub" and "t \<le> int (length sub)"
  shows "recover sub = Inr s"
  using available_shares [OF assms(1)] assms(2-4) by (meson recover_share_out subset_trans)

end

end
