(* ===== verification/Js.thy ===== *)
theory Js
  imports Complex_Main "HOL-Library.AList" "HOL-Library.Word" "HOL-Library.Sublist" Interfaces
begin

text \<open>
  The pieces of the JavaScript and Node runtime the services share: the insertion-ordered
  \<open>Map\<close> (an association list; \<open>set\<close> overwrites in place or appends, as \<open>AList.update\<close> does),
  \<open>trim\<close>, \<open>toLowerCase\<close> and \<open>toUpperCase\<close> on ASCII strings, hexadecimal buffers, and the shape of
  an operation that may throw: it returns an error or a value together with the state, since a
  \<open>throw\<close> keeps the mutations made before it.
\<close>

type_synonym ('k, 'v) jsmap = "('k \<times> 'v) list"

type_synonym ('s, 'e, 'a) op = "'s \<Rightarrow> ('e + 'a) \<times> 's"

abbreviation js_get :: "('k, 'v) jsmap \<Rightarrow> 'k \<Rightarrow> 'v option" where
  "js_get \<equiv> map_of"

abbreviation js_set :: "'k \<Rightarrow> 'v \<Rightarrow> ('k, 'v) jsmap \<Rightarrow> ('k, 'v) jsmap" where
  "js_set \<equiv> AList.update"

abbreviation js_del :: "'k \<Rightarrow> ('k, 'v) jsmap \<Rightarrow> ('k, 'v) jsmap" where
  "js_del \<equiv> AList.delete"

definition js_keys :: "('k, 'v) jsmap \<Rightarrow> 'k list" where
  "js_keys m = map fst m"

definition js_values :: "('k, 'v) jsmap \<Rightarrow> 'v list" where
  "js_values m = map snd m"

text \<open>A well-formed map: no key twice.\<close>

definition js_wf :: "('k, 'v) jsmap \<Rightarrow> bool" where
  "js_wf m \<longleftrightarrow> distinct (js_keys m)"

lemmas js_map_simps [simp] = update_conv' delete_conv'

interpretation js: keyed_store "[]" map_of AList.update AList.delete
  by unfold_locales auto

abbreviation js_all :: "('k \<Rightarrow> 'v \<Rightarrow> bool) \<Rightarrow> ('k, 'v) jsmap \<Rightarrow> bool" where
  "js_all \<equiv> entries_sat map_of"

lemma js_wf_empty [simp]: "js_wf []"
  by (simp add: js_wf_def js_keys_def)

lemma js_wf_set [simp]: "js_wf m \<Longrightarrow> js_wf (js_set k v m)"
  by (simp add: js_wf_def js_keys_def distinct_update)

lemma js_wf_del [simp]: "js_wf m \<Longrightarrow> js_wf (js_del k m)"
  by (simp add: js_wf_def js_keys_def distinct_delete)

lemma in_js_keys [simp]: "k \<in> set (js_keys m) \<longleftrightarrow> js_get m k \<noteq> None"
  by (auto simp: js_keys_def map_of_eq_None_iff)

lemma in_js_values: "js_wf m \<Longrightarrow> v \<in> set (js_values m) \<longleftrightarrow> (\<exists>k. js_get m k = Some v)"
  by (force simp: js_values_def js_wf_def js_keys_def map_of_eq_Some_iff)

lemma js_values_sat: "js_wf m \<Longrightarrow> js_all P m \<Longrightarrow> v \<in> set (js_values m) \<Longrightarrow> \<exists>k. P k v"
  by (auto simp: in_js_values entries_sat_def)

subsection \<open>Loops over the values of a map\<close>

text \<open>
  The sweeps of the services run over \<open>map.values()\<close> and store an entry back under its own id:
  on a map whose entries carry their key this is an update of every entry in place.
\<close>

definition js_sweep ::
  "('v \<Rightarrow> bool) \<Rightarrow> ('v \<Rightarrow> 'k) \<Rightarrow> ('v \<Rightarrow> 'v) \<Rightarrow> ('k, 'v) jsmap \<Rightarrow> ('k, 'v) jsmap" where
  "js_sweep P ident f m =
     fold (\<lambda>v m. if P v then js_set (ident v) (f v) m else m) (js_values m) m"

lemma find_SomeD: "find P xs = Some x \<Longrightarrow> x \<in> set xs \<and> P x"
  by (induction xs) (auto split: if_splits)

lemma fold_js_set_get:
  "distinct (map ident vs) \<Longrightarrow>
   js_get (fold (\<lambda>v m. if P v then js_set (ident v) (f v) m else m) vs m) k =
   (case find (\<lambda>v. ident v = k) vs of
      None \<Rightarrow> js_get m k
    | Some v \<Rightarrow> if P v then Some (f v) else js_get m k)"
proof (induction vs arbitrary: m)
  case (Cons v vs)
  have "find (\<lambda>u. ident u = k) vs = None" if "ident v = k"
    using Cons.prems that by (auto simp: find_None_iff image_iff)
  with Cons show ?case
    by (cases "ident v = k") (auto split: option.splits)
qed simp

lemma js_sweep_wf [simp]: "js_wf m \<Longrightarrow> js_wf (js_sweep P ident f m)"
proof -
  have "js_wf m \<Longrightarrow> js_wf (fold (\<lambda>v m. if P v then js_set (ident v) (f v) m else m) vs m)" for vs m
    by (induction vs arbitrary: m) auto
  then show "js_wf m \<Longrightarrow> js_wf (js_sweep P ident f m)" by (simp add: js_sweep_def)
qed

lemma js_sweep_get:
  assumes "js_wf m" and "js_all (\<lambda>k v. ident v = k) m"
  shows "js_get (js_sweep P ident f m) k = map_option (\<lambda>v. if P v then f v else v) (js_get m k)"
proof -
  have ident: "ident v = k" if "(k, v) \<in> set m" for k v
    using assms that by (auto simp: entries_sat_def js_wf_def js_keys_def map_of_eq_Some_iff)
  have keys: "map ident (js_values m) = js_keys m"
    using ident by (force simp: js_values_def js_keys_def)
  have "find (\<lambda>v. ident v = k) (js_values m) = js_get m k"
    using ident unfolding js_values_def
  proof (induction m)
    case (Cons e m)
    then show ?case by (cases e) force
  qed simp
  then show ?thesis
    unfolding js_sweep_def using assms(1)
    by (subst fold_js_set_get) (auto simp: keys js_wf_def split: option.splits)
qed

lemma js_values_ids_distinct:
  assumes "js_wf m" and "js_all (\<lambda>k v. ident v = k) m"
  shows "distinct (map ident (js_values m))"
proof -
  have "map ident (js_values m) = js_keys m"
    using assms by (force simp: js_values_def js_keys_def entries_sat_def js_wf_def map_of_eq_Some_iff)
  with assms(1) show ?thesis by (simp add: js_wf_def)
qed

lemma js_set_twice [simp]: "js_set k v (js_set k u m) = js_set k v m"
  by (induction m) auto

lemma js_set_new: "js_get m k = None \<Longrightarrow> js_set k v m = m @ [(k, v)]"
  by (induction m) auto

lemma js_values_new: "js_get m k = None \<Longrightarrow> js_values (js_set k v m) = js_values m @ [v]"
  by (simp add: js_set_new js_values_def)

text \<open>Storing under a key that is there changes the value in its place.\<close>

lemma js_set_split:
  assumes "js_get m k = Some u"
  obtains as bs where "js_values m = as @ u # bs" "\<And>v. js_values (js_set k v m) = as @ v # bs"
  using assms
proof (induction m arbitrary: thesis)
  case (Cons p m)
  show ?case
  proof (cases "fst p = k")
    case True
    then show ?thesis using Cons.prems by (cases p) (auto simp: js_values_def intro!: Cons.prems(1) [of "[]" "map snd m"])
  next
    case False
    then have "js_get m k = Some u" using Cons.prems(2) by (cases p) auto
    then obtain as bs where "js_values m = as @ u # bs" "\<And>v. js_values (js_set k v m) = as @ v # bs" using Cons.IH by blast
    then show ?thesis using False by (cases p) (auto simp: js_values_def intro!: Cons.prems(1) [of "snd p # as" bs])
  qed
qed simp

text \<open>\<open>find\<close> returns the object itself: the assignments to it change the first match in the list.\<close>

fun update_first :: "('v \<Rightarrow> bool) \<Rightarrow> ('v \<Rightarrow> 'v) \<Rightarrow> 'v list \<Rightarrow> 'v list" where
  "update_first P f [] = []"
| "update_first P f (x # xs) = (if P x then f x # xs else x # update_first P f xs)"

lemma update_first_set: "x \<in> set (update_first P f xs) \<Longrightarrow> x \<in> set xs \<or> (\<exists>y\<in>set xs. x = f y)"
  by (induction xs) (auto split: if_splits)

lemma set_update_first: "set (update_first P f xs) \<subseteq> set xs \<union> (case find P xs of None \<Rightarrow> {} | Some x \<Rightarrow> {f x})"
  by (induction xs) auto

lemma update_first_in: "find P xs = Some x \<Longrightarrow> f x \<in> set (update_first P f xs)"
  by (induction xs) (auto split: if_splits)

lemma js_sweep_all:
  assumes "js_wf m" and "js_all (\<lambda>k v. ident v = k) m" and "js_all Q m"
    and "\<And>k v. Q k v \<Longrightarrow> P v \<Longrightarrow> Q k (f v)"
  shows "js_all Q (js_sweep P ident f m)"
  using assms(3,4) unfolding entries_sat_def js_sweep_get [OF assms(1,2)] by auto

lemma sum_filter_le:
  fixes f :: "'v \<Rightarrow> 'b :: ordered_ab_group_add"
  shows "\<forall>q\<in>set qs. 0 \<le> f q \<Longrightarrow> sum_list (map f (filter P qs)) \<le> sum_list (map f qs)"
  by (induction qs) (auto simp: add_increasing)

lemma length_filter_neq: "distinct xs \<Longrightarrow> x \<in> set xs \<Longrightarrow> length (filter (\<lambda>y. y \<noteq> x) xs) = length xs - 1"
proof (induction xs)
  case (Cons y xs)
  show ?case
  proof (cases "y = x")
    case True
    with Cons.prems have "filter (\<lambda>y. y \<noteq> x) xs = xs" by (auto simp: filter_id_conv)
    with True show ?thesis by simp
  next
    case False
    with Cons have "length (filter (\<lambda>y. y \<noteq> x) xs) = length xs - 1" "xs \<noteq> []" by auto
    with False show ?thesis by (cases xs) auto
  qed
qed simp

subsection \<open>Strings\<close>

definition is_space :: "char \<Rightarrow> bool" where
  "is_space c \<longleftrightarrow> c \<in> {CHR '' '', CHR 0x09, CHR 0x0A, CHR 0x0B, CHR 0x0C, CHR 0x0D}"

definition js_trim :: "string \<Rightarrow> string" where
  "js_trim s = rev (dropWhile is_space (rev (dropWhile is_space s)))"

definition lower_char :: "char \<Rightarrow> char" where
  "lower_char c =
     (let n = (of_char c :: nat) in if 65 \<le> n \<and> n \<le> 90 then char_of (n + 32) else c)"

definition upper_char :: "char \<Rightarrow> char" where
  "upper_char c =
     (let n = (of_char c :: nat) in if 97 \<le> n \<and> n \<le> 122 then char_of (n - 32) else c)"

definition to_lower :: "string \<Rightarrow> string" where
  "to_lower = map lower_char"

definition to_upper :: "string \<Rightarrow> string" where
  "to_upper = map upper_char"

lemma lower_char_idem [simp]: "lower_char (lower_char c) = lower_char c"
  by (simp add: lower_char_def Let_def)

lemma to_lower_idem [simp]: "to_lower (to_lower s) = to_lower s"
  by (simp add: to_lower_def)

lemma length_to_lower [simp]: "length (to_lower s) = length s"
  by (simp add: to_lower_def)

lemma to_lower_Nil [simp]: "to_lower s = [] \<longleftrightarrow> s = []"
  by (simp add: to_lower_def)

lemma dropWhile_idem: "dropWhile P (dropWhile P xs) = dropWhile P xs"
  by (induction xs) auto

text \<open>A missing and an empty string are both falsy.\<close>

definition truthy :: "string option \<Rightarrow> bool" where
  "truthy x \<longleftrightarrow> x \<noteq> None \<and> x \<noteq> Some []"

text \<open>\<open>x ?? y\<close>\<close>

definition js_or :: "'a option \<Rightarrow> 'a \<Rightarrow> 'a" where
  "js_or x y = (case x of None \<Rightarrow> y | Some v \<Rightarrow> v)"

text \<open>\<open>Number(x.toFixed(2))\<close>: the nearest multiple of 1/100, ties away from zero.\<close>

definition to_fixed2 :: "rat \<Rightarrow> rat" where
  "to_fixed2 x =
     (if x < 0 then - (of_int \<lfloor>- x * 100 + 1 / 2\<rfloor> / 100) else of_int \<lfloor>x * 100 + 1 / 2\<rfloor> / 100)"

text \<open>\<open>[...xs].sort((a, b) => b.createdAt.localeCompare(a.createdAt))\<close>: stable, newest first.\<close>

definition newest_first :: "('v \<Rightarrow> int) \<Rightarrow> 'v list \<Rightarrow> 'v list" where
  "newest_first created = sort_key (\<lambda>v. - created v)"

text \<open>\<open>xs.slice(start, end)\<close>: negative positions count from the end.\<close>

definition js_slice :: "int \<Rightarrow> int \<Rightarrow> 'v list \<Rightarrow> 'v list" where
  "js_slice start end xs =
     (let n = int (length xs);
          clip = (\<lambda>p. nat (if p < 0 then max 0 (n + p) else min p n))
      in take (clip end - clip start) (drop (clip start) xs))"

subsection \<open>Hexadecimal buffers\<close>

type_synonym byte = "8 word"

definition hex_digit :: "nat \<Rightarrow> char" where
  "hex_digit n = ''0123456789abcdef'' ! n"

definition hex_value :: "char \<Rightarrow> nat option" where
  "hex_value c =
     (let n = (of_char c :: nat)
      in if 48 \<le> n \<and> n \<le> 57 then Some (n - 48)
         else if 97 \<le> n \<and> n \<le> 102 then Some (n - 87)
         else if 65 \<le> n \<and> n \<le> 70 then Some (n - 55)
         else None)"

text \<open>\<open>buffer.toString('hex')\<close>\<close>

fun to_hex :: "byte list \<Rightarrow> string" where
  "to_hex [] = []"
| "to_hex (b # bs) = hex_digit (unat b div 16) # hex_digit (unat b mod 16) # to_hex bs"

text \<open>\<open>Buffer.from(s, 'hex')\<close> stops at the first pair that is not hexadecimal.\<close>

fun from_hex :: "string \<Rightarrow> byte list" where
  "from_hex (a # b # cs) =
     (case (hex_value a, hex_value b) of
        (Some x, Some y) \<Rightarrow> of_nat (16 * x + y) # from_hex cs
      | _ \<Rightarrow> [])"
| "from_hex _ = []"

lemma hex_value_digit: "n < 16 \<Longrightarrow> hex_value (hex_digit n) = Some n"
proof -
  assume "n < 16"
  then have "n \<in> {0, 1, 2, 3, 4, 5, 6, 7, 8, 9, 10, 11, 12, 13, 14, 15}"
    by (simp only: insert_iff empty_iff) presburger
  then show ?thesis
    by (elim insertE) (simp_all add: hex_value_def hex_digit_def)
qed

lemma from_hex_to_hex [simp]: "from_hex (to_hex bs) = bs"
proof (induction bs)
  case (Cons b bs)
  have "unat b < 256"
    using unsigned_less [of b, where ?'a = nat] by simp
  then show ?case
    using Cons by (simp add: hex_value_digit)
qed simp

lemma to_hex_inject [simp]: "to_hex a = to_hex b \<longleftrightarrow> a = b"
  by (metis from_hex_to_hex)

lemma to_hex_Nil [simp]: "to_hex a = [] \<longleftrightarrow> a = []"
  by (cases a) auto

lemma lower_hex_digit: "n < 16 \<Longrightarrow> lower_char (hex_digit n) = hex_digit n"
proof -
  assume "n < 16"
  then have "n \<in> {0, 1, 2, 3, 4, 5, 6, 7, 8, 9, 10, 11, 12, 13, 14, 15}"
    by (simp only: insert_iff empty_iff) presburger
  then show ?thesis
    by (elim insertE) (simp_all add: lower_char_def hex_digit_def)
qed

lemma to_lower_to_hex [simp]: "to_lower (to_hex bs) = to_hex bs"
proof (induction bs)
  case (Cons b bs)
  have "unat b < 256"
    using unsigned_less [of b, where ?'a = nat] by simp
  then show ?case
    using Cons by (simp add: lower_hex_digit to_lower_def)
qed (simp add: to_lower_def)

lemma length_to_hex [simp]: "length (to_hex bs) = 2 * length bs"
  by (induction bs) auto

text \<open>\<open>Buffer.from(s, 'utf-8')\<close> of an ASCII string.\<close>

lemma hex_value_lower [simp]: "hex_value (lower_char c) = hex_value c"
  by (auto simp: hex_value_def lower_char_def Let_def)

lemma from_hex_to_lower [simp]: "from_hex (to_lower s) = from_hex s"
  by (induction s rule: from_hex.induct) (auto simp: to_lower_def split: option.splits)

definition ascii_bytes :: "string \<Rightarrow> byte list" where
  "ascii_bytes s = map of_char s"

end
