(* ===== verification/GF256.thy ===== *)
theory GF256
  imports Js
begin

unbundle bit_operations_syntax

text \<open>
  The arithmetic of GF(2^8) of \<open>backend/src/services/mpc/shamir.ts\<close>: the exponential and
  logarithm tables that \<open>buildTables\<close> fills when the module is loaded, and the table-driven
  \<open>mul\<close> and \<open>div\<close>. A \<open>Uint8Array\<close> entry is an \<open>8 word\<close>, so that what the typed array truncates
  is truncated here. The lemmas show that the tables are what they are meant to be and that the
  bytes with \<open>XOR\<close> and \<open>mul\<close> are a field, which is stated once as an instance of the class
  \<open>field\<close> on the type \<open>gf\<close> of bytes.
\<close>

datatype gf_error = GfDivisionByZero

subsection \<open>The tables\<close>

definition FIELD_SIZE :: nat where
  "FIELD_SIZE = 256"

text \<open>The body of the first loop of \<open>buildTables\<close>: \<open>x\<close> times three, reduced by 0x11B.\<close>

definition gf_next :: "byte \<Rightarrow> byte" where
  "gf_next x =
     (let nx = x XOR (push_bit 1 x AND 0xff);
          nx = (if x AND 0x80 \<noteq> 0 then nx XOR 0x1b else nx)
      in nx AND 0xff)"

text \<open>The first loop, from index \<open>i\<close> with the current power \<open>x\<close>.\<close>

function buildTables_loop :: "nat \<Rightarrow> byte \<Rightarrow> byte list \<Rightarrow> byte list \<Rightarrow> byte list \<times> byte list" where
  "buildTables_loop i x ex lg =
     (if i < 255 then buildTables_loop (i + 1) (gf_next x) (ex[i := x]) (lg[unat x := of_nat i])
      else (ex, lg))"
  by pat_completeness auto
termination
  by (relation "measure (\<lambda>(i, x, ex, lg). 255 - i)") auto

text \<open>The second loop, which doubles the exponential table.\<close>

function buildTables_double :: "nat \<Rightarrow> byte list \<Rightarrow> byte list" where
  "buildTables_double i ex =
     (if i < 510 then buildTables_double (i + 1) (ex[i := ex ! (i - 255)]) else ex)"
  by pat_completeness auto
termination
  by (relation "measure (\<lambda>(i, ex). 510 - i)") auto

declare buildTables_loop.simps [simp del] buildTables_double.simps [simp del]

definition buildTables :: "byte list \<times> byte list" where
  "buildTables =
     (let ex = replicate (FIELD_SIZE * 2) 0;
          lg = replicate FIELD_SIZE 0;
          (ex, lg) = buildTables_loop 0 1 ex lg;
          ex = buildTables_double 255 ex
      in (ex, lg[0 := 0]))"

definition EXP :: "byte list" where
  "EXP = fst buildTables"

definition LOG :: "byte list" where
  "LOG = snd buildTables"

subsection \<open>Multiplication and division\<close>

definition gf_mul :: "byte \<Rightarrow> byte \<Rightarrow> byte" where
  "gf_mul a b =
     (if a = 0 \<or> b = 0 then 0
      else EXP ! (unat (LOG ! unat a) + unat (LOG ! unat b)))"

definition gf_div :: "byte \<Rightarrow> byte \<Rightarrow> gf_error + byte" where
  "gf_div a b =
     (if b = 0 then Inl GfDivisionByZero
      else if a = 0 then Inr 0
      else Inr (EXP ! (unat (LOG ! unat a) + 255 - unat (LOG ! unat b))))"

subsection \<open>The powers of the generator\<close>

definition gexp :: "nat \<Rightarrow> byte" where
  "gexp i = (gf_next ^^ i) 1"

function orbit :: "nat \<Rightarrow> byte \<Rightarrow> byte list" where
  "orbit i x = (if i < 255 then x # orbit (i + 1) (gf_next x) else [])"
  by pat_completeness auto
termination
  by (relation "measure (\<lambda>(i, x). 255 - i)") auto

declare orbit.simps [simp del]

text \<open>The 255 powers, evaluated by the kernel: they are nonzero, return to 1, and not earlier.\<close>

lemma orbit_powers:
  "orbit 0 1 = [1, 3, 5, 15, 17, 51, 85, 255, 26, 46, 114, 150, 161, 248, 19, 53, 95, 225,
    56, 72, 216, 115, 149, 164, 247, 2, 6, 10, 30, 34, 102, 170, 229, 52, 92,
    228, 55, 89, 235, 38, 106, 190, 217, 112, 144, 171, 230, 49, 83, 245, 4,
    12, 20, 60, 68, 204, 79, 209, 104, 184, 211, 110, 178, 205, 76, 212, 103,
    169, 224, 59, 77, 215, 98, 166, 241, 8, 24, 40, 120, 136, 131, 158, 185,
    208, 107, 189, 220, 127, 129, 152, 179, 206, 73, 219, 118, 154, 181, 196,
    87, 249, 16, 48, 80, 240, 11, 29, 39, 105, 187, 214, 97, 163, 254, 25, 43,
    125, 135, 146, 173, 236, 47, 113, 147, 174, 233, 32, 96, 160, 251, 22, 58,
    78, 210, 109, 183, 194, 93, 231, 50, 86, 250, 21, 63, 65, 195, 94, 226,
    61, 71, 201, 64, 192, 91, 237, 44, 116, 156, 191, 218, 117, 159, 186, 213,
    100, 172, 239, 42, 126, 130, 157, 188, 223, 122, 142, 137, 128, 155, 182,
    193, 88, 232, 35, 101, 175, 234, 37, 111, 177, 200, 67, 197, 84, 252, 31,
    33, 99, 165, 244, 7, 9, 27, 45, 119, 153, 176, 203, 70, 202, 69, 207, 74,
    222, 121, 139, 134, 145, 168, 227, 62, 66, 198, 81, 243, 14, 18, 54, 90,
    238, 41, 123, 141, 140, 143, 138, 133, 148, 167, 242, 13, 23, 57, 75, 221,
    124, 132, 151, 162, 253, 28, 36, 108, 180, 199, 82, 246]"
  by (simp add: gf_next_def orbit.simps)

lemma orbit_unfold: "i \<le> 255 \<Longrightarrow> orbit i x = map (\<lambda>k. (gf_next ^^ k) x) [0..<255 - i]"
proof (induction i x rule: orbit.induct)
  case (1 i x)
  show ?case
  proof (cases "i < 255")
    case True
    then have "255 - i = Suc (255 - (i + 1))" by simp
    with True 1 show ?thesis
      by (simp add: orbit.simps [of i x] funpow_swap1 map_upt_Suc del: upt_Suc)
  next
    case False
    with 1 show ?thesis by (subst orbit.simps) simp
  qed
qed

lemma orbit_gexp: "orbit 0 1 = map gexp [0..<255]"
  by (simp add: orbit_unfold gexp_def [abs_def])

lemma gexp_0 [simp]: "gexp 0 = 1"
  by (simp add: gexp_def)

lemma gexp_Suc: "gexp (Suc i) = gf_next (gexp i)"
  by (simp add: gexp_def)

lemma gexp_in_orbit: "i < 255 \<Longrightarrow> gexp i \<in> set (orbit 0 1)"
  by (simp add: orbit_gexp)

lemma gexp_nonzero_small: "i < 255 \<Longrightarrow> gexp i \<noteq> 0"
  using gexp_in_orbit [of i] by (auto simp: orbit_powers)

lemma gexp_255: "gexp 255 = 1"
proof -
  have "gexp 254 = orbit 0 1 ! 254"
    by (simp add: orbit_gexp)
  also have "\<dots> = 246"
    by (simp add: orbit_powers)
  finally have "gexp 254 = 246" .
  then show ?thesis
    using gexp_Suc [of 254] by (simp add: gf_next_def)
qed

lemma gexp_not_one: "0 < i \<Longrightarrow> i < 255 \<Longrightarrow> gexp i \<noteq> 1"
proof -
  assume i: "0 < i" "i < 255"
  have "gexp i = tl (orbit 0 1) ! (i - 1)"
    using i by (simp add: orbit_gexp nth_tl)
  also have "\<dots> \<in> set (tl (orbit 0 1))"
    using i by (intro nth_mem) (simp add: orbit_gexp)
  finally show ?thesis
    by (auto simp: orbit_powers)
qed

lemma gexp_add_255 [simp]: "gexp (i + 255) = gexp i"
  using gexp_255 by (simp add: gexp_def funpow_add)

lemma gexp_mod: "gexp (i mod 255) = gexp i"
proof (induction i rule: less_induct)
  case (less i)
  show ?case
  proof (cases "i < 255")
    case False
    then have "gexp ((i - 255) mod 255) = gexp (i - 255)"
      by (intro less) simp
    with False gexp_add_255 [of "i - 255"] show ?thesis
      by (simp add: le_mod_geq del: gexp_add_255)
  qed simp
qed

lemma gexp_nonzero [simp]: "gexp i \<noteq> 0"
  using gexp_nonzero_small [of "i mod 255"] by (simp add: gexp_mod)

lemma gexp_shift: "gexp i = gexp j \<Longrightarrow> gexp (k + i) = gexp (k + j)"
  by (simp add: gexp_def funpow_add)

lemma gexp_inj_aux:
  assumes "i < j" "j < 255"
  shows "gexp i \<noteq> gexp j"
proof
  assume "gexp i = gexp j"
  then have "gexp ((255 - j) + i) = gexp ((255 - j) + j)"
    by (rule gexp_shift)
  with assms have "gexp (255 - j + i) = 1"
    by (simp add: gexp_255)
  moreover have "gexp (255 - j + i) \<noteq> 1"
    using assms by (intro gexp_not_one) auto
  ultimately show False by simp
qed

lemma gexp_eq_iff: "i < 255 \<Longrightarrow> j < 255 \<Longrightarrow> gexp i = gexp j \<longleftrightarrow> i = j"
  using gexp_inj_aux [of i j] gexp_inj_aux [of j i] by (cases i j rule: linorder_cases) auto

text \<open>Every nonzero byte is a power of the generator: there are 255 of each.\<close>

lemma gexp_surj:
  assumes "a \<noteq> 0"
  obtains i where "i < 255" "a = gexp i"
proof -
  have "card (gexp ` {..<255}) = 255"
    by (subst card_image) (auto simp: inj_on_def gexp_eq_iff)
  moreover have "card (UNIV - {0 :: byte}) = 255"
    by (subst card_Diff_subset) (auto simp: card_word)
  moreover have "gexp ` {..<255} \<subseteq> UNIV - {0}"
    by auto
  ultimately have "gexp ` {..<255} = UNIV - {0}"
    by (intro card_subset_eq) auto
  with assms have "a \<in> gexp ` {..<255}" by blast
  with that show thesis by auto
qed

subsection \<open>The tables hold the powers\<close>

lemma loop_log_length [simp]: "length (snd (buildTables_loop i x ex lg)) = length lg"
  by (induction i x ex lg rule: buildTables_loop.induct) (subst buildTables_loop.simps, simp)

lemma loop_exp_length [simp]: "length (fst (buildTables_loop i x ex lg)) = length ex"
  by (induction i x ex lg rule: buildTables_loop.induct) (subst buildTables_loop.simps, simp)

lemma loop_exp:
  assumes "x = gexp i" "length ex = 512" "\<And>k. k < i \<Longrightarrow> ex ! k = gexp k" "k < 255"
  shows "fst (buildTables_loop i x ex lg) ! k = gexp k"
  using assms
proof (induction i x ex lg rule: buildTables_loop.induct)
  case (1 i x ex lg)
  show ?case
  proof (cases "i < 255")
    case True
    have "fst (buildTables_loop (i + 1) (gf_next x) (ex[i := x]) (lg[unat x := of_nat i])) ! k = gexp k"
      using True 1 by (intro 1) (auto simp: gexp_Suc nth_list_update less_Suc_eq)
    with True show ?thesis by (subst buildTables_loop.simps) simp
  next
    case False
    with 1 show ?thesis by (subst buildTables_loop.simps) simp
  qed
qed

lemma loop_log:
  assumes "x = gexp i" "length lg = 256" "\<And>m. m < i \<Longrightarrow> m < 255 \<Longrightarrow> lg ! unat (gexp m) = of_nat m"
    "m < 255"
  shows "snd (buildTables_loop i x ex lg) ! unat (gexp m) = of_nat m"
  using assms
proof (induction i x ex lg rule: buildTables_loop.induct)
  case (1 i x ex lg)
  show ?case
  proof (cases "i < 255")
    case True
    have "unat (gexp n) < 256" for n
      using unsigned_less [of "gexp n", where ?'a = nat] by simp
    then have "snd (buildTables_loop (i + 1) (gf_next x) (ex[i := x]) (lg[unat x := of_nat i]))
        ! unat (gexp m) = of_nat m"
      using True 1
      by (intro 1)
        (auto simp: gexp_Suc nth_list_update less_Suc_eq gexp_eq_iff simp flip: word_unat_eq_iff)
    with True show ?thesis by (subst buildTables_loop.simps) simp
  next
    case False
    with 1 show ?thesis by (subst buildTables_loop.simps) simp
  qed
qed

lemma double_exp:
  assumes "255 \<le> i" "length ex = 512" "\<And>k. k < i \<Longrightarrow> k < 510 \<Longrightarrow> ex ! k = gexp k" "k < 510"
  shows "buildTables_double i ex ! k = gexp k"
  using assms
proof (induction i ex rule: buildTables_double.induct)
  case (1 i ex)
  show ?case
  proof (cases "i < 510")
    case True
    have "buildTables_double (i + 1) (ex[i := ex ! (i - 255)]) ! k = gexp k"
      using True 1 gexp_add_255 [of "i - 255"]
      by (intro 1) (auto simp: nth_list_update less_Suc_eq)
    with True show ?thesis by (subst buildTables_double.simps) simp
  next
    case False
    with 1 show ?thesis by (subst buildTables_double.simps) simp
  qed
qed

lemma EXP_nth: "k < 510 \<Longrightarrow> EXP ! k = gexp k"
  unfolding EXP_def buildTables_def FIELD_SIZE_def
  by (auto simp: Let_def split_def intro!: double_exp loop_exp)

lemma LOG_gexp: "m < 255 \<Longrightarrow> LOG ! unat (gexp m) = of_nat m"
proof -
  assume m: "m < 255"
  have "unat (gexp m) \<noteq> 0"
    by (simp add: unat_eq_zero)
  with m show ?thesis
    unfolding LOG_def buildTables_def FIELD_SIZE_def
    by (auto simp: Let_def split_def intro!: loop_log)
qed

lemma unat_LOG_gexp: "m < 255 \<Longrightarrow> unat (LOG ! unat (gexp m)) = m"
  by (simp add: LOG_gexp unat_of_nat)

lemma gf_mul_gexp: "gf_mul (gexp i) (gexp j) = gexp (i + j)"
proof -
  have "gf_mul (gexp (i mod 255)) (gexp (j mod 255)) = gexp (i mod 255 + j mod 255)"
    by (simp add: gf_mul_def unat_LOG_gexp EXP_nth)
  also have "\<dots> = gexp (i + j)"
    by (metis gexp_mod mod_add_eq)
  finally show ?thesis by (simp add: gexp_mod)
qed

subsection \<open>The field laws\<close>

lemma gf_next_zero [simp]: "gf_next 0 = 0"
  by (simp add: gf_next_def)

lemma gf_next_bits:
  "gf_next x = (push_bit 1 x) XOR x XOR (if bit x 7 then 0x1b else 0)"
proof -
  have "x AND 0x80 \<noteq> 0 \<longleftrightarrow> bit x 7"
    using and_exp_eq_0_iff_not_bit [of x 7] by simp
  moreover have "y AND 0xff = y" for y :: byte
    using take_bit_eq_mask [of 8 y] take_bit_length_eq [of y]
    by (simp add: mask_eq_exp_minus_1)
  ultimately show ?thesis
    by (simp add: gf_next_def Let_def ac_simps)
qed

lemma gf_next_xor: "gf_next (x XOR y) = gf_next x XOR gf_next y"
  by (simp add: gf_next_bits bit_simps push_bit_xor ac_simps)

lemma funpow_gf_next_xor: "(gf_next ^^ i) (x XOR y) = (gf_next ^^ i) x XOR (gf_next ^^ i) y"
  by (induction i) (simp_all add: gf_next_xor)

lemma funpow_gf_next_zero: "(gf_next ^^ i) 0 = 0"
  by (induction i) simp_all

lemma gf_mul_zero [simp]: "gf_mul 0 b = 0" "gf_mul a 0 = 0"
  by (simp_all add: gf_mul_def)

lemma gf_mul_funpow: "gf_mul (gexp i) b = (gf_next ^^ i) b"
proof (cases "b = 0")
  case False
  then obtain j where "b = gexp j" by (rule gexp_surj)
  then show ?thesis by (simp add: gf_mul_gexp) (simp add: gexp_def funpow_add)
qed (simp add: funpow_gf_next_zero)

lemma gf_mul_commute: "gf_mul a b = gf_mul b a"
  by (simp add: gf_mul_def add.commute)

lemma gf_mul_assoc: "gf_mul (gf_mul a b) c = gf_mul a (gf_mul b c)"
proof (cases "a = 0 \<or> b = 0 \<or> c = 0")
  case False
  then obtain i j k where "a = gexp i" "b = gexp j" "c = gexp k"
    by (metis gexp_surj)
  then show ?thesis by (simp add: gf_mul_gexp add.assoc)
qed auto

lemma gf_mul_one [simp]: "gf_mul 1 b = b"
  using gf_mul_funpow [of 0 b] by simp

lemma gf_mul_xor_right: "gf_mul a (b XOR c) = gf_mul a b XOR gf_mul a c"
proof (cases "a = 0")
  case False
  then obtain i where "a = gexp i" by (rule gexp_surj)
  then show ?thesis by (simp add: gf_mul_funpow funpow_gf_next_xor)
qed simp

lemma gf_mul_xor_left: "gf_mul (a XOR b) c = gf_mul a c XOR gf_mul b c"
  by (simp add: gf_mul_commute [of _ c] gf_mul_xor_right)

text \<open>Division in the table form is multiplication by the inverse.\<close>

definition gf_inv :: "byte \<Rightarrow> byte" where
  "gf_inv a = (case gf_div 1 a of Inl _ \<Rightarrow> 0 | Inr q \<Rightarrow> q)"

lemma gf_div_gexp: "i < 255 \<Longrightarrow> j < 255 \<Longrightarrow> gf_div (gexp i) (gexp j) = Inr (gexp (i + 255 - j))"
  by (simp add: gf_div_def unat_LOG_gexp EXP_nth)

lemma gf_div_zero [simp]: "gf_div a 0 = Inl GfDivisionByZero"
  by (simp add: gf_div_def)

lemma gf_div_mul:
  assumes "b \<noteq> 0"
  obtains q where "gf_div a b = Inr q" "gf_mul q b = a"
proof (cases "a = 0")
  case True
  with assms that [of 0] show thesis by (simp add: gf_div_def)
next
  case False
  with assms obtain i j where ij: "a = gexp i" "i < 255" "b = gexp j" "j < 255"
    by (metis gexp_surj)
  then have "gf_mul (gexp (i + 255 - j)) (gexp j) = gexp (i + 255)"
    by (simp add: gf_mul_gexp)
  with ij that [of "gexp (i + 255 - j)"] show thesis
    by (simp add: gf_div_gexp)
qed

lemma gf_inv_zero [simp]: "gf_inv 0 = 0"
  by (simp add: gf_inv_def)

lemma gf_inv_mul: "a \<noteq> 0 \<Longrightarrow> gf_mul (gf_inv a) a = 1"
  using gf_div_mul [of a 1] unfolding gf_inv_def by (metis sum.case(2))

lemma gf_div_eq_inv:
  assumes "b \<noteq> 0"
  shows "gf_div a b = Inr (gf_mul a (gf_inv b))"
proof -
  from assms obtain q where q: "gf_div a b = Inr q" "gf_mul q b = a"
    by (rule gf_div_mul)
  have "gf_mul a (gf_inv b) = gf_mul q (gf_mul (gf_inv b) b)"
    by (metis gf_mul_assoc gf_mul_commute q(2))
  also have "\<dots> = q"
    using assms by (simp add: gf_inv_mul gf_mul_commute [of q])
  finally show ?thesis
    using q by simp
qed

subsection \<open>The type of field elements\<close>

typedef gf = "UNIV :: byte set"
  morphisms byte_of gf_of
  by auto

setup_lifting type_definition_gf

instantiation gf :: field
begin
lift_definition zero_gf :: gf is "0 :: byte" .
lift_definition one_gf :: gf is "1 :: byte" .
lift_definition plus_gf :: "gf \<Rightarrow> gf \<Rightarrow> gf" is "\<lambda>a b. a XOR b" .
lift_definition minus_gf :: "gf \<Rightarrow> gf \<Rightarrow> gf" is "\<lambda>a b. a XOR b" .
lift_definition uminus_gf :: "gf \<Rightarrow> gf" is "\<lambda>a. a" .
lift_definition times_gf :: "gf \<Rightarrow> gf \<Rightarrow> gf" is gf_mul .
lift_definition inverse_gf :: "gf \<Rightarrow> gf" is gf_inv .
definition divide_gf :: "gf \<Rightarrow> gf \<Rightarrow> gf" where
  "divide_gf a b = a * inverse b"
instance
proof
  fix a b c :: gf
  show "a + b + c = a + (b + c)" and "a + b = b + a" and "0 + a = a" and "- a + a = 0"
    and "a - b = a + - b" and "(0 :: gf) \<noteq> 1"
    by (transfer; simp add: ac_simps)+
  show "a * b * c = a * (b * c)"
    by transfer (rule gf_mul_assoc)
  show "a * b = b * a"
    by transfer (rule gf_mul_commute)
  show "1 * a = a"
    by transfer simp
  show "(a + b) * c = a * c + b * c"
    by transfer (rule gf_mul_xor_left)
  show "a \<noteq> 0 \<Longrightarrow> inverse a * a = 1"
    by transfer (rule gf_inv_mul)
  show "a div b = a * inverse b"
    by (rule divide_gf_def)
  show "inverse (0 :: gf) = 0"
    by transfer simp
qed
end

lemma gf_of_inject_iff [simp]: "gf_of a = gf_of b \<longleftrightarrow> a = b"
  by (simp add: gf_of_inject)

lemma byte_of_gf_of [simp]: "byte_of (gf_of a) = a"
  by (simp add: gf_of_inverse)

lemma gf_of_byte_of [simp]: "gf_of (byte_of a) = a"
  by (rule byte_of_inverse)

text \<open>The byte operations read in the field.\<close>

named_theorems gf_sym_simps

lemma gf_of_xor [gf_sym_simps]: "gf_of (a XOR b) = gf_of a + gf_of b"
  by (metis byte_of_gf_of gf_of_byte_of plus_gf.rep_eq)

lemma gf_of_mul [gf_sym_simps]: "gf_of (gf_mul a b) = gf_of a * gf_of b"
  by (metis byte_of_gf_of gf_of_byte_of times_gf.rep_eq)

lemma gf_of_inv [gf_sym_simps]: "gf_of (gf_inv a) = inverse (gf_of a)"
  by (metis byte_of_gf_of gf_of_byte_of inverse_gf.rep_eq)

lemma gf_of_zero [gf_sym_simps]: "gf_of 0 = 0"
  by (metis gf_of_byte_of zero_gf.rep_eq)

lemma gf_of_one [gf_sym_simps]: "gf_of 1 = 1"
  by (metis gf_of_byte_of one_gf.rep_eq)

lemma gf_of_eq_0_iff [simp]: "gf_of a = 0 \<longleftrightarrow> a = 0"
  using gf_of_zero gf_of_inject_iff by metis

lemma gf_minus_eq_plus: "(a :: gf) - b = a + b"
  by transfer simp

lemma gf_add_self [simp]: "(a :: gf) + a = 0"
  by transfer simp

end
