(* ===== verification/Lagrange.thy ===== *)
theory Lagrange
  imports Complex_Main
begin

text \<open>
  Polynomial functions over a field, as far as secret sharing needs them: a function given by
  \<open>n\<close> coefficients that vanishes at \<open>n\<close> points vanishes everywhere, hence it is determined by
  its values at \<open>n\<close> points, by the Lagrange formula. The field may be finite, so everything is
  stated on functions and never on coefficients.
\<close>

definition polyfun :: "nat \<Rightarrow> ('a::comm_ring_1 \<Rightarrow> 'a) \<Rightarrow> bool" where
  "polyfun n f \<longleftrightarrow> (\<exists>c. \<forall>z. f z = (\<Sum>k<n. c k * z ^ k))"

named_theorems polyfun_intros

lemma polyfun_eqI: "(\<And>z. f z = (\<Sum>k<n. c k * z ^ k)) \<Longrightarrow> polyfun n f"
  by (auto simp: polyfun_def)

lemma polyfunI [polyfun_intros]: "polyfun n (\<lambda>z. \<Sum>k<n. c k * z ^ k)"
  by (auto simp: polyfun_def)

lemma polyfun_mono: "polyfun n f \<Longrightarrow> n \<le> m \<Longrightarrow> polyfun m f"
proof -
  assume "polyfun n f" and le: "n \<le> m"
  then obtain c where c: "\<And>z. f z = (\<Sum>k<n. c k * z ^ k)"
    by (auto simp: polyfun_def)
  have "f z = (\<Sum>k<m. (if k < n then c k else 0) * z ^ k)" for z
    unfolding c using le by (intro sum.mono_neutral_cong_left) auto
  then show ?thesis
    by (rule polyfun_eqI)
qed

lemma polyfun_zero [polyfun_intros]: "polyfun n (\<lambda>z. 0)"
  by (auto simp: polyfun_def intro: exI [of _ "\<lambda>_. 0"])

lemma polyfun_const [polyfun_intros]: "polyfun (Suc 0) (\<lambda>z. a)"
  by (auto simp: polyfun_def intro: exI [of _ "\<lambda>_. a"])

lemma polyfun_add [polyfun_intros]:
  assumes "polyfun n f" and "polyfun n g"
  shows "polyfun n (\<lambda>z. f z + g z)"
proof -
  from assms obtain c d where "\<And>z. f z = (\<Sum>k<n. c k * z ^ k)" "\<And>z. g z = (\<Sum>k<n. d k * z ^ k)"
    by (auto simp: polyfun_def)
  then have "f z + g z = (\<Sum>k<n. (c k + d k) * z ^ k)" for z
    by (simp add: sum.distrib algebra_simps)
  then show ?thesis
    by (rule polyfun_eqI)
qed

lemma polyfun_smult [polyfun_intros]:
  assumes "polyfun n f"
  shows "polyfun n (\<lambda>z. a * f z)"
proof -
  from assms obtain c where "\<And>z. f z = (\<Sum>k<n. c k * z ^ k)"
    by (auto simp: polyfun_def)
  then have "a * f z = (\<Sum>k<n. (a * c k) * z ^ k)" for z
    by (simp add: sum_distrib_left algebra_simps)
  then show ?thesis
    by (rule polyfun_eqI)
qed

lemma polyfun_times_ident:
  assumes "polyfun n f"
  shows "polyfun (Suc n) (\<lambda>z. z * f z)"
proof -
  from assms obtain c where "\<And>z. f z = (\<Sum>k<n. c k * z ^ k)"
    by (auto simp: polyfun_def)
  then have "z * f z = (\<Sum>k<Suc n. (case k of 0 \<Rightarrow> 0 | Suc j \<Rightarrow> c j) * z ^ k)" for z
    by (simp add: sum.lessThan_Suc_shift sum_distrib_left algebra_simps del: sum.lessThan_Suc)
  then show ?thesis
    by (rule polyfun_eqI)
qed

lemma polyfun_diff [polyfun_intros]:
  "polyfun n f \<Longrightarrow> polyfun n g \<Longrightarrow> polyfun n (\<lambda>z. f z - g z)"
  using polyfun_add [OF _ polyfun_smult [of n g "- 1"], of f] by simp

lemma polyfun_times_linear [polyfun_intros]:
  assumes "polyfun n f"
  shows "polyfun (Suc n) (\<lambda>z. (z - a) * f z)"
  using polyfun_diff [OF polyfun_times_ident [OF assms]
      polyfun_smult [OF polyfun_mono [OF assms, of "Suc n"], of a]]
  by (simp add: algebra_simps)

lemma polyfun_sum [polyfun_intros]:
  assumes "\<And>i. i \<in> A \<Longrightarrow> polyfun n (f i)"
  shows "polyfun n (\<lambda>z. \<Sum>i\<in>A. f i z)"
  using assms by (induction A rule: infinite_finite_induct) (auto intro: polyfun_intros)

lemma polyfun_prod:
  assumes "finite A"
  shows "polyfun (Suc (card A)) (\<lambda>z. \<Prod>a\<in>A. (z - a))"
  using assms by (induction A rule: finite_induct) (auto intro: polyfun_intros)

text \<open>A function with \<open>n\<close> coefficients and \<open>n\<close> roots is zero.\<close>

lemma polyfun_roots:
  fixes f :: "'a::field \<Rightarrow> 'a"
  assumes "polyfun n f" and "finite S" and "n \<le> card S" and "\<And>x. x \<in> S \<Longrightarrow> f x = 0"
  shows "f z = 0"
  using assms
proof (induction n arbitrary: f S z)
  case 0
  then show ?case by (simp add: polyfun_def)
next
  case (Suc n)
  from Suc.prems(3) obtain a where a: "a \<in> S" by fastforce
  from Suc.prems(1) obtain c where c: "\<And>z. f z = (\<Sum>k\<le>n. c k * z ^ k)"
    by (auto simp: polyfun_def lessThan_Suc_atMost)
  from Suc.prems(4) [OF a] have "(\<Sum>k\<le>n. c k * a ^ k) = 0"
    by (simp add: c)
  then obtain b where b: "\<And>z. (\<Sum>k\<le>n. c k * z ^ k) = (z - a) * (\<Sum>k<n. b k * z ^ k)"
    by (rule polyfun_linear_factor_root) blast
  have "(\<Sum>k<n. b k * y ^ k) = 0" for y
  proof (rule Suc.IH [OF polyfunI])
    show "finite (S - {a})" and "n \<le> card (S - {a})"
      using Suc.prems(2,3) a by auto
    fix x assume "x \<in> S - {a}"
    with Suc.prems(4) [of x] show "(\<Sum>k<n. b k * x ^ k) = 0"
      by (simp add: c b)
  qed
  then show ?case by (simp add: c b)
qed

definition lagrange_basis :: "'a::field set \<Rightarrow> 'a \<Rightarrow> 'a \<Rightarrow> 'a" where
  "lagrange_basis S a z = (\<Prod>b\<in>S - {a}. (z - b) / (a - b))"

lemma lagrange_basis_same: "lagrange_basis S a a = 1"
  unfolding lagrange_basis_def by (rule prod.neutral) auto

lemma lagrange_basis_other:
  assumes "finite S" "b \<in> S" "a \<noteq> b"
  shows "lagrange_basis S a b = 0"
  unfolding lagrange_basis_def using assms by (intro prod_zero) auto

lemma polyfun_lagrange_basis:
  assumes "finite S" "a \<in> S"
  shows "polyfun (card S) (lagrange_basis S a)"
proof -
  have "lagrange_basis S a = (\<lambda>z. (\<Prod>b\<in>S - {a}. 1 / (a - b)) * (\<Prod>b\<in>S - {a}. (z - b)))"
    by (simp add: lagrange_basis_def prod_dividef fun_eq_iff)
  moreover have "Suc (card (S - {a})) = card S"
    using assms by (metis card_Suc_Diff1)
  ultimately show ?thesis
    using polyfun_smult [OF polyfun_prod, of "S - {a}"] assms by simp
qed

theorem lagrange_interpolation:
  assumes "polyfun n f" and "finite S" and "n \<le> card S"
  shows "f z = (\<Sum>a\<in>S. f a * lagrange_basis S a z)"
proof -
  let ?g = "\<lambda>z. (\<Sum>a\<in>S. f a * lagrange_basis S a z) - f z"
  have poly: "polyfun (card S) ?g"
    using assms by (intro polyfun_intros polyfun_lagrange_basis) (auto intro: polyfun_mono)
  have root: "?g x = 0" if "x \<in> S" for x
  proof -
    have "f a * lagrange_basis S a x = (if a = x then f x else 0)" if "a \<in> S" for a
      using \<open>x \<in> S\<close> assms(2) by (simp add: lagrange_basis_same lagrange_basis_other)
    then show ?thesis
      using assms(2) that by (simp add: sum.delta cong: sum.cong)
  qed
  have "?g z = 0"
    by (rule polyfun_roots [OF poly assms(2) order_refl root])
  then show ?thesis by simp
qed

text \<open>
  A function with \<open>card S + 1\<close> coefficients that vanishes on \<open>S\<close> and has a prescribed value at a
  point outside \<open>S\<close>: what makes too few points say nothing about the value there.
\<close>

lemma polyfun_vanishing:
  fixes S :: "'a::field set"
  assumes "finite S" and "z \<notin> S"
  shows "\<exists>f. polyfun (Suc (card S)) f \<and> f z = v \<and> (\<forall>x\<in>S. f x = 0)"
proof (intro exI conjI ballI)
  let ?f = "\<lambda>y. (v / (\<Prod>b\<in>S. (z - b))) * (\<Prod>b\<in>S. (y - b))"
  show "polyfun (Suc (card S)) ?f"
    by (rule polyfun_smult [OF polyfun_prod [OF assms(1)]])
  show "?f z = v"
    using assms by auto
  show "?f x = 0" if "x \<in> S" for x
    using that assms(1) by (auto intro: prod_zero)
qed

end
