(* ===== verification/Shamir.thy ===== *)
theory Shamir
  imports GF256 Lagrange Interfaces
begin

text \<open>
  \<open>backend/src/services/mpc/shamir.ts\<close>: Shamir secret sharing of byte strings over GF(2^8).
  \<open>Buffer\<close> is a list of bytes; the bytes that \<open>randomBytes\<close> draws are the argument \<open>rnd\<close>
  (\<open>rnd b i\<close> is byte \<open>i\<close> of the draw made for byte \<open>b\<close> of the secret); a \<open>throw\<close> is an \<open>Inl\<close>.
  Proved: any \<open>threshold\<close> shares give the secret back, and fewer say nothing about it.
\<close>

subsection \<open>Model\<close>

record Share =
  share_x :: byte
  share_y :: "byte list"

datatype shamir_error =
    SecretEmpty | ThresholdBelowTwo | TotalBelowThreshold | TotalAbove254
  | NeedTwoShares | LengthMismatch | ZeroCoordinate | DuplicateCoordinate
  | FieldError gf_error

text \<open>Horner's rule, from the last coefficient down (only called with a coefficient).\<close>

definition evaluate :: "byte list \<Rightarrow> byte \<Rightarrow> byte" where
  "evaluate coeffs x =
     (let n = length coeffs
      in foldl (\<lambda>y i. gf_mul y x XOR coeffs ! i) (coeffs ! (n - 1)) (rev [0..<n - 1]))"

text \<open>The inner loop of \<open>interpolateAtZero\<close>: numerator and denominator for point \<open>i\<close>.\<close>

definition basis_terms :: "(byte \<times> byte) list \<Rightarrow> nat \<Rightarrow> byte \<times> byte" where
  "basis_terms points i =
     foldl (\<lambda>(numerator, denominator) j.
         if i = j then (numerator, denominator)
         else (gf_mul numerator (fst (points ! j)),
               gf_mul denominator (fst (points ! i) XOR fst (points ! j))))
       (1, 1) [0..<length points]"

fun interpolate_loop :: "(byte \<times> byte) list \<Rightarrow> nat list \<Rightarrow> byte \<Rightarrow> shamir_error + byte" where
  "interpolate_loop points [] result = Inr result"
| "interpolate_loop points (i # is) result =
     (let (numerator, denominator) = basis_terms points i
      in case gf_div numerator denominator of
           Inl e \<Rightarrow> Inl (FieldError e)
         | Inr q \<Rightarrow> interpolate_loop points is (result XOR gf_mul (snd (points ! i)) q))"

definition interpolateAtZero :: "(byte \<times> byte) list \<Rightarrow> shamir_error + byte" where
  "interpolateAtZero points = interpolate_loop points [0..<length points] 0"

definition coefficients :: "byte list \<Rightarrow> nat \<Rightarrow> (nat \<Rightarrow> nat \<Rightarrow> byte) \<Rightarrow> nat \<Rightarrow> byte list" where
  "coefficients secret threshold rnd byteIdx =
     (secret ! byteIdx) # map (\<lambda>i. rnd byteIdx (i - 1)) [1..<threshold]"

definition split_loop ::
  "byte list \<Rightarrow> nat \<Rightarrow> (nat \<Rightarrow> nat \<Rightarrow> byte) \<Rightarrow> nat \<Rightarrow> Share list \<Rightarrow> Share list" where
  "split_loop secret threshold rnd byteIdx shares =
     (let coeffs = coefficients secret threshold rnd byteIdx
      in map (\<lambda>share. share\<lparr>share_y :=
           (share_y share)[byteIdx := evaluate coeffs (share_x share)]\<rparr>) shares)"

definition split_secret :: "byte list \<Rightarrow> int \<Rightarrow> int \<Rightarrow> (nat \<Rightarrow> nat \<Rightarrow> byte) \<Rightarrow> shamir_error + Share list" where
  "split_secret secret threshold totalShares rnd =
     (if length secret = 0 then Inl SecretEmpty
      else if threshold < 2 then Inl ThresholdBelowTwo
      else if totalShares < threshold then Inl TotalBelowThreshold
      else if totalShares > 254 then Inl TotalAbove254
      else
        let shares = map (\<lambda>x. \<lparr>share_x = of_nat x, share_y = replicate (length secret) 0\<rparr>)
                       [1..<nat totalShares + 1]
        in Inr (fold (split_loop secret (nat threshold) rnd) [0..<length secret] shares))"

fun check_shares :: "nat \<Rightarrow> Share list \<Rightarrow> shamir_error option" where
  "check_shares secretLength [] = None"
| "check_shares secretLength (share # shares) =
     (if length (share_y share) \<noteq> secretLength then Some LengthMismatch
      else if share_x share = 0 then Some ZeroCoordinate
      else check_shares secretLength shares)"

fun reconstruct_loop :: "Share list \<Rightarrow> nat list \<Rightarrow> byte list \<Rightarrow> shamir_error + byte list" where
  "reconstruct_loop shares [] secret = Inr secret"
| "reconstruct_loop shares (byteIdx # bs) secret =
     (case interpolateAtZero (map (\<lambda>s. (share_x s, share_y s ! byteIdx)) shares) of
        Inl e \<Rightarrow> Inl e
      | Inr v \<Rightarrow> reconstruct_loop shares bs (secret[byteIdx := v]))"

definition reconstruct :: "Share list \<Rightarrow> shamir_error + byte list" where
  "reconstruct shares =
     (if length shares < 2 then Inl NeedTwoShares
      else
        let secretLength = length (share_y (shares ! 0))
        in case check_shares secretLength shares of
             Some e \<Rightarrow> Inl e
           | None \<Rightarrow>
               let xs = map share_x shares
               in if card (set xs) \<noteq> length xs then Inl DuplicateCoordinate
                  else reconstruct_loop shares [0..<secretLength] (replicate secretLength 0))"

subsection \<open>The polynomials\<close>

lemma horner_loop:
  "gf_of (foldl (\<lambda>y i. gf_mul y x XOR c i) y (rev [0..<m])) =
   gf_of y * gf_of x ^ m + (\<Sum>k<m. gf_of (c k) * gf_of x ^ k)"
  by (induction m arbitrary: y) (simp_all add: gf_sym_simps algebra_simps)

lemma evaluate_poly:
  assumes "coeffs \<noteq> []"
  shows "gf_of (evaluate coeffs x) = (\<Sum>k<length coeffs. gf_of (coeffs ! k) * gf_of x ^ k)"
proof -
  obtain m where "length coeffs = Suc m"
    using assms by (cases coeffs) auto
  then show ?thesis
    unfolding evaluate_def Let_def by (simp add: horner_loop)
qed

definition share_poly :: "byte list \<Rightarrow> nat \<Rightarrow> (nat \<Rightarrow> nat \<Rightarrow> byte) \<Rightarrow> nat \<Rightarrow> gf \<Rightarrow> gf" where
  "share_poly secret t rnd b z = gf_of (evaluate (coefficients secret t rnd b) (byte_of z))"

lemma coefficients_length: "0 < t \<Longrightarrow> length (coefficients secret t rnd b) = t"
  by (simp add: coefficients_def)

lemma coefficients_nth:
  "k < t \<Longrightarrow> coefficients secret t rnd b ! k = (if k = 0 then secret ! b else rnd b (k - 1))"
  by (cases k) (simp_all add: coefficients_def nth_map_upt del: nth_map upt_Suc)

lemma share_poly_sum:
  assumes "0 < t"
  shows "share_poly secret t rnd b z =
    (\<Sum>k<t. gf_of (if k = 0 then secret ! b else rnd b (k - 1)) * z ^ k)"
proof -
  have "coefficients secret t rnd b \<noteq> []"
    by (simp add: coefficients_def)
  then show ?thesis
    unfolding share_poly_def using assms
    by (auto simp: evaluate_poly coefficients_length coefficients_nth intro!: sum.cong)
qed

lemma share_poly_polyfun: "0 < t \<Longrightarrow> polyfun t (share_poly secret t rnd b)"
  by (rule polyfun_eqI) (rule share_poly_sum)

lemma share_poly_zero:
  assumes "0 < t"
  shows "share_poly secret t rnd b 0 = gf_of (secret ! b)"
proof -
  obtain m where "t = Suc m" using assms gr0_implies_Suc by blast
  then show ?thesis
    by (simp add: share_poly_sum sum.lessThan_Suc_shift del: sum.lessThan_Suc)
qed

subsection \<open>What \<open>split_secret\<close> returns\<close>

definition share_of :: "byte list \<Rightarrow> nat \<Rightarrow> (nat \<Rightarrow> nat \<Rightarrow> byte) \<Rightarrow> nat \<Rightarrow> Share" where
  "share_of secret t rnd x =
     \<lparr>share_x = of_nat x,
      share_y = map (\<lambda>b. byte_of (share_poly secret t rnd b (gf_of (of_nat x)))) [0..<length secret]\<rparr>"

lemma split_fold:
  "m \<le> length secret \<Longrightarrow>
   fold (split_loop secret t rnd) [0..<m]
     (map (\<lambda>x. \<lparr>share_x = of_nat x, share_y = replicate (length secret) 0\<rparr>) xs) =
   map (\<lambda>x. \<lparr>share_x = of_nat x,
     share_y = map (\<lambda>b. byte_of (share_poly secret t rnd b (gf_of (of_nat x)))) [0..<m]
       @ replicate (length secret - m) 0\<rparr>) xs"
proof (induction m)
  case (Suc m)
  then have "replicate (length secret - m) (0 :: byte) = 0 # replicate (length secret - Suc m) 0"
    by (simp flip: replicate_Suc add: Suc_diff_Suc)
  with Suc show ?case
    by (simp add: split_loop_def share_poly_def list_update_append)
qed simp

lemma split_Inr:
  "split_secret secret t n rnd = Inr shares \<longleftrightarrow>
   secret \<noteq> [] \<and> 2 \<le> t \<and> t \<le> n \<and> n \<le> 254 \<and>
   shares = map (share_of secret (nat t) rnd) [1..<nat n + 1]"
  unfolding split_secret_def Let_def
  by (auto simp: split_fold share_of_def [abs_def] simp del: upt_Suc)

lemma split_length: "split_secret secret t n rnd = Inr shares \<Longrightarrow> int (length shares) = n"
  by (auto simp: split_Inr)

lemma of_nat_byte_eq_iff: "x < 256 \<Longrightarrow> y < 256 \<Longrightarrow> (of_nat x :: byte) = of_nat y \<longleftrightarrow> x = y"
  by (auto simp: word_of_nat_eq_iff take_bit_eq_mod)

lemma of_nat_byte_nonzero: "0 < x \<Longrightarrow> x < 256 \<Longrightarrow> (of_nat x :: byte) \<noteq> 0"
  using of_nat_byte_eq_iff [of x 0] by simp

lemma split_coordinates_distinct:
  "split_secret secret t n rnd = Inr shares \<Longrightarrow> distinct (map share_x shares)"
  by (auto simp: split_Inr share_of_def distinct_map inj_on_def of_nat_byte_eq_iff
      simp del: upt_Suc)

lemma split_shares:
  assumes "split_secret secret t n rnd = Inr shares" and "s \<in> set shares"
  shows "share_x s \<noteq> 0"
    and "length (share_y s) = length secret"
    and "b < length secret \<Longrightarrow>
      gf_of (share_y s ! b) = share_poly secret (nat t) rnd b (gf_of (share_x s))"
  using assms by (auto simp: split_Inr share_of_def of_nat_byte_nonzero simp del: upt_Suc)

subsection \<open>Interpolation at zero\<close>

text \<open>The two loops of \<open>interpolateAtZero\<close> compute the Lagrange formula.\<close>

lemma basis_terms_loop:
  fixes points :: "(byte \<times> byte) list" and i :: nat
  defines "X \<equiv> \<lambda>j. gf_of (fst (points ! j))"
  assumes "(nu, de) = foldl (\<lambda>(nu, de) j. if i = j then (nu, de)
       else (gf_mul nu (fst (points ! j)), gf_mul de (fst (points ! i) XOR fst (points ! j)))) (a, d) js"
    and "distinct js"
  shows "gf_of nu = gf_of a * (\<Prod>j\<in>set js - {i}. X j)"
    and "gf_of de = gf_of d * (\<Prod>j\<in>set js - {i}. X i + X j)"
  using assms(2,3)
proof (induction js arbitrary: a d)
  case (Cons j js)
  {
    case 1
    with Cons show ?case
      by (cases "i = j") (simp_all add: insert_Diff_if gf_sym_simps X_def mult.assoc)
  next
    case 2
    with Cons show ?case
      by (cases "i = j") (simp_all add: insert_Diff_if gf_sym_simps X_def mult.assoc)
  }
qed simp_all

lemma basis_terms:
  assumes "basis_terms points i = (nu, de)"
  shows "gf_of nu = (\<Prod>j\<in>{..<length points} - {i}. gf_of (fst (points ! j)))"
    and "gf_of de = (\<Prod>j\<in>{..<length points} - {i}. gf_of (fst (points ! i)) + gf_of (fst (points ! j)))"
  using basis_terms_loop [of nu de i points 1 1 "[0..<length points]"] assms
  by (simp_all add: basis_terms_def gf_of_one lessThan_atLeast0 [symmetric])

lemma basis_terms_lagrange:
  assumes points: "distinct (map fst points)" and i: "i < length points"
    and eq: "basis_terms points i = (nu, de)"
  shows "\<exists>q. gf_div nu de = Inr q \<and>
    gf_of q = lagrange_basis (gf_of ` fst ` set points) (gf_of (fst (points ! i))) 0"
proof -
  let ?X = "\<lambda>j. gf_of (fst (points ! j))" and ?J = "{..<length points} - {i}"
  have inj: "inj_on ?X {..<length points}"
    using points by (auto simp: inj_on_def distinct_conv_nth)
  have neq: "?X i + ?X j \<noteq> 0" if "j \<in> ?J" for j
    using inj i that by (auto simp: inj_on_def simp flip: gf_minus_eq_plus)
  then have "gf_of de \<noteq> 0"
    by (simp add: basis_terms [OF eq])
  then have q: "gf_div nu de = Inr (gf_mul nu (gf_inv de))"
    by (intro gf_div_eq_inv) simp
  have "?X ` {..<length points} = gf_of ` fst ` set points"
    by (auto simp: set_conv_nth)
  then have set: "?X ` ?J = gf_of ` fst ` set points - {?X i}"
    using inj i by (simp add: inj_on_image_set_diff [where C = "{..<length points}"])
  have "gf_of (gf_mul nu (gf_inv de)) = (\<Prod>j\<in>?J. ?X j) / (\<Prod>j\<in>?J. ?X i + ?X j)"
    by (simp add: gf_sym_simps basis_terms [OF eq] divide_inverse)
  also have "\<dots> = (\<Prod>j\<in>?J. ?X j / (?X i + ?X j))"
    by (simp add: prod_dividef)
  also have "\<dots> = (\<Prod>j\<in>?J. (0 - ?X j) / (?X i - ?X j))"
    by (simp add: gf_minus_eq_plus)
  also have "\<dots> = lagrange_basis (gf_of ` fst ` set points) (?X i) 0"
    unfolding lagrange_basis_def set [symmetric]
    by (subst prod.reindex) (use inj in \<open>auto intro: inj_on_subset\<close>)
  finally show ?thesis using q by blast
qed

lemma interpolate_loop_sum:
  assumes "distinct (map fst points)" and "\<And>i. i \<in> set js \<Longrightarrow> i < length points" and "distinct js"
  shows "\<exists>v. interpolate_loop points js r = Inr v \<and>
    gf_of v = gf_of r + (\<Sum>i\<in>set js. gf_of (snd (points ! i)) *
      lagrange_basis (gf_of ` fst ` set points) (gf_of (fst (points ! i))) 0)"
  using assms(2,3)
proof (induction js arbitrary: r)
  case (Cons i js)
  obtain nu de where nd: "basis_terms points i = (nu, de)" by fastforce
  obtain q where q: "gf_div nu de = Inr q"
    "gf_of q = lagrange_basis (gf_of ` fst ` set points) (gf_of (fst (points ! i))) 0"
    using basis_terms_lagrange [OF assms(1) _ nd] Cons.prems by auto
  from Cons.IH [of "r XOR gf_mul (snd (points ! i)) q"] Cons.prems nd q show ?case
    by (auto simp: gf_sym_simps add.assoc)
qed simp

lemma interpolateAtZero_sum:
  assumes "distinct (map fst points)"
  shows "\<exists>v. interpolateAtZero points = Inr v \<and>
    gf_of v = (\<Sum>(x, y)\<leftarrow>points. gf_of y * lagrange_basis (gf_of ` fst ` set points) (gf_of x) 0)"
  using interpolate_loop_sum [OF assms, of "[0..<length points]" 0]
  by (simp add: interpolateAtZero_def gf_of_zero sum_list_sum_nth case_prod_beta lessThan_atLeast0)

lemma interpolateAtZero_poly:
  assumes "distinct (map fst points)" and "polyfun n f" and "n \<le> length points"
    and "\<And>x y. (x, y) \<in> set points \<Longrightarrow> gf_of y = f (gf_of x)"
  shows "interpolateAtZero points = Inr (byte_of (f 0))"
proof -
  let ?S = "gf_of ` fst ` set points"
  obtain v where v: "interpolateAtZero points = Inr v"
    "gf_of v = (\<Sum>(x, y)\<leftarrow>points. gf_of y * lagrange_basis ?S (gf_of x) 0)"
    using interpolateAtZero_sum [OF assms(1)] by blast
  have distinct: "distinct (map (\<lambda>p. gf_of (fst p)) points)"
    using assms(1) by (auto simp: distinct_map inj_on_def)
  have "card ?S = length points"
    using distinct_card [OF distinct] by (simp add: image_image)
  moreover have "(\<Sum>(x, y)\<leftarrow>points. gf_of y * lagrange_basis ?S (gf_of x) 0) =
    (\<Sum>a\<leftarrow>map (\<lambda>p. gf_of (fst p)) points. f a * lagrange_basis ?S a 0)"
    using assms(4) by (auto simp: comp_def case_prod_beta intro!: arg_cong [of _ _ sum_list])
  moreover have "\<dots> = (\<Sum>a\<in>?S. f a * lagrange_basis ?S a 0)"
    by (subst sum_list_distinct_conv_sum_set [OF distinct]) (simp add: image_image)
  ultimately have "gf_of v = f 0"
    using lagrange_interpolation [OF assms(2), of ?S 0] assms(3) v(2) by simp
  then show ?thesis
    using v(1) by (metis byte_of_gf_of)
qed

subsection \<open>Reconstruction\<close>

lemma check_shares_None:
  "check_shares len shares = None \<longleftrightarrow> (\<forall>s\<in>set shares. length (share_y s) = len \<and> share_x s \<noteq> 0)"
  by (induction shares) auto

lemma reconstruct_loop_Inr:
  assumes "\<And>b. b \<in> set bs \<Longrightarrow>
      interpolateAtZero (map (\<lambda>s. (share_x s, share_y s ! b)) shares) = Inr (f b)"
  shows "\<exists>out. reconstruct_loop shares bs secret = Inr out \<and> length out = length secret \<and>
    (\<forall>b<length secret. out ! b = (if b \<in> set bs then f b else secret ! b))"
  using assms
proof (induction bs arbitrary: secret)
  case (Cons b bs)
  from Cons.IH [of "secret[b := f b]"] Cons.prems show ?case
    by (auto simp: nth_list_update)
qed simp

text \<open>What \<open>reconstruct\<close> returns on shares that lie on polynomials with few coefficients.\<close>

lemma reconstruct_poly:
  assumes "2 \<le> length shares" and "distinct (map share_x shares)"
    and "\<And>s. s \<in> set shares \<Longrightarrow> share_x s \<noteq> 0 \<and> length (share_y s) = length secret"
    and "\<And>b. polyfun n (f b)" and "n \<le> length shares"
    and "\<And>s b. s \<in> set shares \<Longrightarrow> b < length secret \<Longrightarrow> gf_of (share_y s ! b) = f b (gf_of (share_x s))"
    and "\<And>b. b < length secret \<Longrightarrow> f b 0 = gf_of (secret ! b)"
  shows "reconstruct shares = Inr secret"
proof -
  let ?L = "length secret"
  have len: "length (share_y (shares ! 0)) = ?L"
    using assms(1,3) by (intro assms(3) [THEN conjunct2] nth_mem) auto
  have "interpolateAtZero (map (\<lambda>s. (share_x s, share_y s ! b)) shares) = Inr (secret ! b)"
    if "b < ?L" for b
    using interpolateAtZero_poly [of "map (\<lambda>s. (share_x s, share_y s ! b)) shares" n "f b"] assms that
    by (auto simp: comp_def)
  then have "\<exists>out. reconstruct_loop shares [0..<?L] (replicate ?L 0) = Inr out \<and> length out = ?L \<and>
      (\<forall>b<?L. out ! b = secret ! b)"
    using reconstruct_loop_Inr [of "[0..<?L]" shares "\<lambda>b. secret ! b" "replicate ?L 0"] by auto
  then have "reconstruct_loop shares [0..<?L] (replicate ?L 0) = Inr secret"
    by (metis nth_equalityI)
  moreover have "check_shares ?L shares = None"
    using assms(3) by (auto simp: check_shares_None)
  ultimately show ?thesis
    using assms(1,2) unfolding reconstruct_def Let_def len
    by (simp add: distinct_card [OF assms(2)] flip: set_map)
qed

lemma reconstruct_some_shares:
  assumes split: "split_secret secret t n rnd = Inr shares"
    and sub: "set sub \<subseteq> set shares" and "distinct sub" and "t \<le> int (length sub)"
  shows "reconstruct sub = Inr secret"
proof (rule reconstruct_poly)
  have inj: "inj_on share_x (set shares)"
    using split_coordinates_distinct [OF split] by (simp add: distinct_map)
  have t: "2 \<le> t" using split by (simp add: split_Inr)
  then show "2 \<le> length sub" using assms(4) by simp
  show "distinct (map share_x sub)"
    using assms(3) inj sub by (auto simp: distinct_map intro: inj_on_subset)
  show "share_x s \<noteq> 0 \<and> length (share_y s) = length secret" if "s \<in> set sub" for s
    using split_shares [OF split, of s] that sub by auto
  show "polyfun (nat t) (share_poly secret (nat t) rnd b)" for b
    using t by (intro share_poly_polyfun) simp
  show "nat t \<le> length sub" using assms(4) by simp
  show "gf_of (share_y s ! b) = share_poly secret (nat t) rnd b (gf_of (share_x s))"
    if "s \<in> set sub" "b < length secret" for s b
    using split_shares(3) [OF split, of s b] that sub by auto
  show "share_poly secret (nat t) rnd b 0 = gf_of (secret ! b)" for b
    using t by (intro share_poly_zero) simp
qed

text \<open>Fewer than \<open>t\<close> points can be kept while the value at zero is moved by any \<open>v\<close>.\<close>

lemma masking_polynomial:
  fixes v :: gf
  assumes "finite S" and "0 \<notin> S" and "card S < t"
  shows "\<exists>c. c 0 = v \<and> (\<forall>x\<in>S. (\<Sum>k<t. c k * x ^ k) = 0)"
proof -
  obtain f where f: "polyfun (Suc (card S)) f" "f 0 = v" "\<forall>x\<in>S. f x = 0"
    using polyfun_vanishing [OF assms(1,2), of v] by blast
  then have "polyfun t f"
    using assms(3) by (intro polyfun_mono [OF f(1)]) simp
  then obtain c where c: "\<And>z. f z = (\<Sum>k<t. c k * z ^ k)"
    by (auto simp: polyfun_def)
  obtain m where "t = Suc m"
    using assms(3) by (cases t) auto
  then have "f 0 = c 0"
    by (simp add: c sum.lessThan_Suc_shift del: sum.lessThan_Suc)
  show ?thesis
  proof (intro exI conjI ballI)
    show "c 0 = v"
      using \<open>f 0 = c 0\<close> f(2) by simp
    show "(\<Sum>k<t. c k * x ^ k) = 0" if "x \<in> S" for x
      using c [of x] f(3) that by simp
  qed
qed

lemma share_poly_masked:
  assumes "0 < t" and "c 0 = gf_of (secret ! b) + gf_of (secret' ! b)"
  shows "share_poly secret' t (\<lambda>b k. rnd b k XOR byte_of (c (Suc k))) b z =
    share_poly secret t rnd b z + (\<Sum>k<t. c k * z ^ k)"
proof -
  have "gf_of (if k = 0 then secret' ! b else rnd b (k - 1) XOR byte_of (c (Suc (k - 1)))) =
    gf_of (if k = 0 then secret ! b else rnd b (k - 1)) + c k" for k
    using assms(2) by (simp add: gf_sym_simps flip: add.assoc)
  then show ?thesis
    using assms(1) by (simp add: share_poly_sum sum.distrib distrib_right)
qed

lemma shares_independent:
  assumes split: "split_secret secret t n rnd = Inr shares" and len: "length secret' = length secret"
    and I: "I \<subseteq> {..<length shares}" and card: "int (card I) < t"
  shows "\<exists>rnd' shares'. split_secret secret' t n rnd' = Inr shares' \<and> (\<forall>i\<in>I. shares' ! i = shares ! i)"
proof -
  let ?S = "(\<lambda>i. gf_of (of_nat (Suc i))) ` I"
  have fin: "finite I" using I finite_subset by blast
  have t: "2 \<le> t" "n \<le> 254" "length shares = nat n"
    using split by (auto simp: split_Inr)
  have "card ?S < nat t"
    using card_image_le [OF fin, of "\<lambda>i. gf_of (of_nat (Suc i))"] card t(1) by linarith
  moreover have "0 \<notin> ?S"
    using I t of_nat_byte_nonzero by (auto simp del: of_nat_Suc)
  ultimately have "\<exists>c. c 0 = gf_of (secret ! b) + gf_of (secret' ! b) \<and> (\<forall>x\<in>?S. (\<Sum>k<nat t. c k * x ^ k) = 0)" for b
    using fin by (intro masking_polynomial) auto
  then obtain c where c0: "\<And>b. c b 0 = gf_of (secret ! b) + gf_of (secret' ! b)"
    and vanish: "\<And>b x. x \<in> ?S \<Longrightarrow> (\<Sum>k<nat t. c b k * x ^ k) = 0"
    by metis
  define rnd' where "rnd' = (\<lambda>b k. rnd b k XOR byte_of (c b (Suc k)))"
  have same: "share_poly secret' (nat t) rnd' b x = share_poly secret (nat t) rnd b x" if "x \<in> ?S" for b x
    using share_poly_masked [of "nat t" "c b" secret b secret' rnd x] c0 vanish [OF that, of b] t(1)
    by (simp add: rnd'_def share_poly_sum)
  obtain shares' where shares': "split_secret secret' t n rnd' = Inr shares'"
    using split len by (force simp: split_Inr simp del: upt_Suc)
  have "shares' ! i = shares ! i" if "i \<in> I" for i
    using that I t same [of "gf_of (of_nat (Suc i))"] shares' split
    by (auto simp: split_Inr share_of_def len simp del: upt_Suc of_nat_Suc)
  with shares' show ?thesis by blast
qed

interpretation shamir: secret_sharing split_secret reconstruct
proof unfold_locales
  show "int (length shs) = n" if "split_secret s t n r = Inr shs" for s t n r shs
    using that by (rule split_length)
  show "distinct shs" if "split_secret s t n r = Inr shs" for s t n r shs
    using split_coordinates_distinct [OF that] by (simp add: distinct_map)
  show "reconstruct sub = Inr s"
    if "split_secret s t n r = Inr shs" "set sub \<subseteq> set shs" "distinct sub" "t \<le> int (length sub)"
    for s t n r shs sub
    using that by (rule reconstruct_some_shares)
qed

subsection \<open>Properties\<close>

text \<open>
  C4: any \<open>threshold\<close> (or more) of the shares that \<open>split\<close> returns, in any order, give back
  exactly the secret, whatever bytes the random source drew.
\<close>

theorem shamir_roundtrip:
  assumes "split_secret secret t n rnd = Inr shares"
    and "set sub \<subseteq> set shares" and "distinct sub" and "t \<le> int (length sub)"
  shows "reconstruct sub = Inr secret"
  using assms by (rule shamir.recover_share_out)

definition demo_rnd :: "nat \<Rightarrow> nat \<Rightarrow> byte" where
  "demo_rnd b i = of_nat (7 * b + 31 * i + 5)"

lemma demo_split: "\<exists>shares. split_secret [42, 7] 2 3 demo_rnd = Inr shares \<and> length shares = 3"
  by (simp add: split_Inr)

theorem shamir_roundtrip_witness:
  "\<exists>shares. split_secret [42, 7] 2 3 demo_rnd = Inr shares \<and>
     reconstruct [shares ! 2, shares ! 0] = Inr [42, 7]"
proof -
  obtain shares where shares: "split_secret [42, 7] 2 3 demo_rnd = Inr shares" "length shares = 3"
    using demo_split by blast
  then have "distinct shares"
    by (auto dest: shamir.share_out_distinct)
  with shares(2) have "shares ! 2 \<noteq> shares ! 0"
    by (simp add: nth_eq_iff_index_eq)
  with shares show ?thesis
    using shamir_roundtrip [OF shares(1), of "[shares ! 2, shares ! 0]"] by auto
qed

text \<open>
  C5: fewer than \<open>threshold\<close> shares say nothing about the secret: for every other secret of the
  same length there is a draw of the random source under which \<open>split\<close> hands out the very same
  shares at those positions.
\<close>

theorem shamir_secrecy:
  assumes "split_secret secret t n rnd = Inr shares" and "length secret' = length secret"
    and "I \<subseteq> {..<length shares}" and "int (card I) < t"
  shows "\<exists>rnd' shares'. split_secret secret' t n rnd' = Inr shares' \<and>
    (\<forall>i\<in>I. shares' ! i = shares ! i)"
  using assms by (rule shares_independent)

theorem shamir_secrecy_witness:
  "\<exists>shares rnd' shares'. split_secret [42, 7] 2 3 demo_rnd = Inr shares \<and>
     split_secret [1, 2] 2 3 rnd' = Inr shares' \<and> shares' ! 1 = shares ! 1"
proof -
  obtain shares where shares: "split_secret [42, 7] 2 3 demo_rnd = Inr shares" "length shares = 3"
    using demo_split by blast
  then show ?thesis
    using shamir_secrecy [OF shares(1), of "[1, 2]" "{1}"] by auto
qed

text \<open>
  \<open>split\<close> fails exactly on an empty secret, a threshold below two, fewer shares than the
  threshold or more than 254 shares; otherwise it returns that many shares with distinct nonzero
  coordinates, each as long as the secret.
\<close>

theorem split_secret_outcome:
  "(case split_secret secret t n rnd of
      Inl e \<Rightarrow> secret = [] \<or> t < 2 \<or> n < t \<or> 254 < n
    | Inr shares \<Rightarrow> secret \<noteq> [] \<and> 2 \<le> t \<and> t \<le> n \<and> n \<le> 254 \<and> int (length shares) = n \<and>
        distinct (map share_x shares) \<and>
        list_all (\<lambda>s. share_x s \<noteq> 0 \<and> length (share_y s) = length secret) shares)"
proof (cases "split_secret secret t n rnd")
  case (Inl e)
  then show ?thesis
    by (auto simp: split_secret_def Let_def split: if_splits)
next
  case (Inr shares)
  then have "secret \<noteq> [] \<and> 2 \<le> t \<and> t \<le> n \<and> n \<le> 254"
    by (simp add: split_Inr)
  then show ?thesis
    using split_length [OF Inr] split_coordinates_distinct [OF Inr] split_shares(1,2) [OF Inr]
    by (simp add: Inr list_all_iff)
qed

end
