(* ===== verification/Hsm.thy ===== *)
theory Hsm
  imports Js Shamir
begin

text \<open>
  \<open>backend/src/services/mpc/hsm.ts\<close>: the in-memory custody of shares. The store is one \<open>Map\<close>
  keyed by \<open>keyId::nodeId\<close>; a node can be switched off, which hides its shares. \<open>get\<close> and \<open>put\<close>
  clone the share, so values (and not references) are what the model passes. The theory shows
  that the backend keeps the contract \<open>share_store\<close> for key ids without a colon, which is what
  the coordinator's \<open>newId\<close> produces.
\<close>

record InMemoryHsm =
  hsm_store :: "(string, Share) jsmap"
  hsm_unavailable :: "string set"

definition hsm_empty :: InMemoryHsm where
  "hsm_empty = \<lparr>hsm_store = [], hsm_unavailable = {}\<rparr>"

definition hsm_key :: "string \<Rightarrow> string \<Rightarrow> string" where
  "hsm_key keyId nodeId = keyId @ ''::'' @ nodeId"

definition hsm_put :: "string \<Rightarrow> string \<Rightarrow> Share \<Rightarrow> InMemoryHsm \<Rightarrow> InMemoryHsm" where
  "hsm_put keyId nodeId share h =
     h\<lparr>hsm_store := js_set (hsm_key keyId nodeId)
         \<lparr>share_x = share_x share, share_y = share_y share\<rparr> (hsm_store h)\<rparr>"

definition hsm_get :: "InMemoryHsm \<Rightarrow> string \<Rightarrow> string \<Rightarrow> Share option" where
  "hsm_get h keyId nodeId =
     (case js_get (hsm_store h) (hsm_key keyId nodeId) of
        None \<Rightarrow> None
      | Some hit \<Rightarrow>
          if nodeId \<in> hsm_unavailable h then None
          else Some \<lparr>share_x = share_x hit, share_y = share_y hit\<rparr>)"

definition hsm_delete :: "string \<Rightarrow> string \<Rightarrow> InMemoryHsm \<Rightarrow> InMemoryHsm" where
  "hsm_delete keyId nodeId h = h\<lparr>hsm_store := js_del (hsm_key keyId nodeId) (hsm_store h)\<rparr>"

definition hsm_deleteKey :: "string \<Rightarrow> InMemoryHsm \<Rightarrow> InMemoryHsm" where
  "hsm_deleteKey keyId h =
     h\<lparr>hsm_store := fold (\<lambda>k store. if prefix (keyId @ ''::'') k then js_del k store else store)
         (js_keys (hsm_store h)) (hsm_store h)\<rparr>"

definition hsm_listNodes :: "string \<Rightarrow> InMemoryHsm \<Rightarrow> string list" where
  "hsm_listNodes keyId h =
     (let pre = keyId @ ''::''
      in map (drop (length pre)) (filter (prefix pre) (js_keys (hsm_store h))))"

definition hsm_isAvailable :: "InMemoryHsm \<Rightarrow> string \<Rightarrow> bool" where
  "hsm_isAvailable h nodeId \<longleftrightarrow> nodeId \<notin> hsm_unavailable h"

definition hsm_setNodeAvailable :: "string \<Rightarrow> bool \<Rightarrow> InMemoryHsm \<Rightarrow> InMemoryHsm" where
  "hsm_setNodeAvailable nodeId available h =
     h\<lparr>hsm_unavailable :=
         (if available then hsm_unavailable h - {nodeId} else insert nodeId (hsm_unavailable h))\<rparr>"

definition hsm_size :: "InMemoryHsm \<Rightarrow> nat" where
  "hsm_size h = length (hsm_store h)"

subsection \<open>The contract\<close>

definition no_colon :: "string \<Rightarrow> bool" where
  "no_colon s \<longleftrightarrow> CHR '':'' \<notin> set s"

lemma no_colon_append_inj:
  "no_colon k \<Longrightarrow> no_colon k' \<Longrightarrow> k @ CHR '':'' # r = k' @ CHR '':'' # r' \<Longrightarrow> k = k' \<and> r = r'"
proof (induction k arbitrary: k')
  case Nil
  then show ?case by (cases k') (auto simp: no_colon_def)
next
  case (Cons c k)
  then show ?case by (cases k') (auto simp: no_colon_def)
qed

lemma hsm_key_inj:
  "no_colon k \<Longrightarrow> no_colon k' \<Longrightarrow> hsm_key k n = hsm_key k' n' \<longleftrightarrow> k = k' \<and> n = n'"
  using no_colon_append_inj [of k k' "CHR '':'' # n" "CHR '':'' # n'"]
  by (auto simp: hsm_key_def)

lemma prefix_hsm_key:
  assumes "no_colon k" "no_colon k'"
  shows "prefix (k @ ''::'') (hsm_key k' n) \<longleftrightarrow> k = k'"
proof
  assume "prefix (k @ ''::'') (hsm_key k' n)"
  then obtain r where "k' @ CHR '':'' # CHR '':'' # n = k @ CHR '':'' # CHR '':'' # r"
    by (auto simp: prefix_def hsm_key_def)
  with no_colon_append_inj [OF assms(2,1)] show "k = k'" by metis
qed (auto simp: hsm_key_def)

lemma fold_delete_get:
  "js_get (fold (\<lambda>k store. if P k then js_del k store else store) ks m) j =
   (if P j \<and> j \<in> set ks then None else js_get m j)"
  by (induction ks arbitrary: m) auto

lemma hsm_deleteKey_get:
  "js_get (hsm_store (hsm_deleteKey k h)) j =
   (if prefix (k @ ''::'') j then None else js_get (hsm_store h) j)"
  by (simp add: hsm_deleteKey_def fold_delete_get)

definition hsm_entry :: "InMemoryHsm \<Rightarrow> string \<Rightarrow> string \<Rightarrow> Share option" where
  "hsm_entry h keyId nodeId = js_get (hsm_store h) (hsm_key keyId nodeId)"

interpretation hsm: custody hsm_put hsm_get hsm_delete hsm_deleteKey hsm_isAvailable hsm_entry no_colon
  split_secret reconstruct
proof unfold_locales
  fix k k' n n' :: string and m :: InMemoryHsm and sh :: Share
  show "hsm_get m k n = (if hsm_isAvailable m n then hsm_entry m k n else None)"
    by (simp add: hsm_get_def hsm_entry_def hsm_isAvailable_def split: option.splits)
  show "hsm_isAvailable (hsm_put k n sh m) = hsm_isAvailable m"
    and "hsm_isAvailable (hsm_delete k n m) = hsm_isAvailable m"
    and "hsm_isAvailable (hsm_deleteKey k m) = hsm_isAvailable m"
    by (auto simp: hsm_isAvailable_def hsm_put_def hsm_delete_def hsm_deleteKey_def)
  assume ok: "no_colon k" "no_colon k'"
  then show "hsm_entry (hsm_put k n sh m) k' n' = (if k' = k \<and> n' = n then Some sh else hsm_entry m k' n')"
    by (auto simp: hsm_entry_def hsm_put_def hsm_key_inj)
  from ok show "hsm_entry (hsm_delete k n m) k' n' = (if k' = k \<and> n' = n then None else hsm_entry m k' n')"
    by (auto simp: hsm_entry_def hsm_delete_def hsm_key_inj)
  from ok show "hsm_entry (hsm_deleteKey k m) k' n' = (if k' = k then None else hsm_entry m k' n')"
    by (auto simp: hsm_entry_def hsm_deleteKey_get prefix_hsm_key)
qed

text \<open>The listing names exactly the nodes with a stored share.\<close>

lemma hsm_listNodes_iff:
  "n \<in> set (hsm_listNodes k h) \<longleftrightarrow> js_get (hsm_store h) (hsm_key k n) \<noteq> None"
proof
  assume "n \<in> set (hsm_listNodes k h)"
  then obtain j where "prefix (k @ ''::'') j" "js_get (hsm_store h) j \<noteq> None"
    "n = drop (length (k @ ''::'')) j"
    unfolding hsm_listNodes_def Let_def by auto
  then show "js_get (hsm_store h) (hsm_key k n) \<noteq> None"
    by (auto simp: prefix_def hsm_key_def)
next
  assume "js_get (hsm_store h) (hsm_key k n) \<noteq> None"
  then show "n \<in> set (hsm_listNodes k h)"
    unfolding hsm_listNodes_def Let_def
    by (auto simp: hsm_key_def intro!: image_eqI [of _ _ "k @ CHR '':'' # CHR '':'' # n"])
qed

end
