(* ===== verification/MpcNodes.thy ===== *)
theory MpcNodes
  imports Js
begin

text \<open>
  \<open>backend/src/services/mpc/nodes.ts\<close>: the registry of the participants that hold shares. The
  clock of the process (\<open>Date.now()\<close>) is the argument \<open>now\<close>.
\<close>

datatype NodeStatus = Active | Degraded | Offline | Revoked

record MpcNode =
  node_id :: string
  node_label :: "string option"
  node_status :: NodeStatus
  node_registeredAt :: int
  node_lastSeenAt :: int
  node_identityPublicKey :: string

type_synonym registry = "(string, MpcNode) jsmap"

datatype node_error = EmptyNodeId | BadIdentityKey | AlreadyRegistered string

definition registerNode ::
  "string \<Rightarrow> string \<Rightarrow> string option \<Rightarrow> int \<Rightarrow> (registry, node_error, MpcNode) op" where
  "registerNode i key label now reg =
     (if js_trim i = [] then (Inl EmptyNodeId, reg)
      else if length key \<noteq> 64 then (Inl BadIdentityKey, reg)
      else if js_get reg i \<noteq> None then (Inl (AlreadyRegistered i), reg)
      else
        let node = \<lparr>node_id = i, node_label = label, node_status = Active,
              node_registeredAt = now, node_lastSeenAt = now,
              node_identityPublicKey = to_lower key\<rparr>
        in (Inr node, js_set i node reg))"

definition unregisterNode :: "string \<Rightarrow> registry \<Rightarrow> bool \<times> registry" where
  "unregisterNode i reg = (js_get reg i \<noteq> None, js_del i reg)"

definition getNode :: "registry \<Rightarrow> string \<Rightarrow> MpcNode option" where
  "getNode reg i = js_get reg i"

definition listNodes :: "registry \<Rightarrow> MpcNode list" where
  "listNodes reg = js_values reg"

definition setNodeStatus :: "string \<Rightarrow> NodeStatus \<Rightarrow> int \<Rightarrow> registry \<Rightarrow> MpcNode option \<times> registry" where
  "setNodeStatus i status now reg =
     (case js_get reg i of
        None \<Rightarrow> (None, reg)
      | Some node \<Rightarrow>
          let node = node\<lparr>node_status := status, node_lastSeenAt := now\<rparr>
          in (Some node, js_set i node reg))"

definition heartbeat :: "string \<Rightarrow> int \<Rightarrow> registry \<Rightarrow> MpcNode option \<times> registry" where
  "heartbeat i now reg =
     (case js_get reg i of
        None \<Rightarrow> (None, reg)
      | Some node \<Rightarrow>
          let node = node\<lparr>node_lastSeenAt := now\<rparr>;
              node = (if node_status node = Offline \<or> node_status node = Degraded
                      then node\<lparr>node_status := Active\<rparr> else node)
          in (Some node, js_set i node reg))"

definition clearNodes :: "registry \<Rightarrow> registry" where
  "clearNodes reg = []"

definition countActive :: "registry \<Rightarrow> string list \<Rightarrow> nat" where
  "countActive reg ids =
     foldl (\<lambda>n i. case js_get reg i of
         Some node \<Rightarrow> if node_status node = Active then n + 1 else n
       | None \<Rightarrow> n) 0 ids"

subsection \<open>What the registry keeps\<close>

definition node_wf :: "string \<Rightarrow> MpcNode \<Rightarrow> bool" where
  "node_wf i node \<longleftrightarrow> node_id node = i \<and> js_trim i \<noteq> [] \<and>
     length (node_identityPublicKey node) = 64 \<and>
     to_lower (node_identityPublicKey node) = node_identityPublicKey node"

definition registry_wf :: "registry \<Rightarrow> bool" where
  "registry_wf reg \<longleftrightarrow> js_wf reg \<and> js_all node_wf reg"

lemmas registry_defs = registerNode_def unregisterNode_def setNodeStatus_def heartbeat_def
  clearNodes_def

lemma registry_wf_set: "registry_wf reg \<Longrightarrow> node_wf i node \<Longrightarrow> registry_wf (js_set i node reg)"
  by (simp add: registry_wf_def js.entries_put)

lemma registry_wf_get: "registry_wf reg \<Longrightarrow> js_get reg i = Some node \<Longrightarrow> node_wf i node"
  by (auto simp: registry_wf_def dest: js.entries_get)

lemma registry_wf_ops:
  assumes "registry_wf reg"
  shows "registry_wf (snd (registerNode i key label now reg))"
    and "registry_wf (snd (unregisterNode i reg))"
    and "registry_wf (snd (setNodeStatus i status now reg))"
    and "registry_wf (snd (heartbeat i now reg))"
    and "registry_wf (clearNodes reg)"
  using assms registry_wf_get [OF assms, of i]
  by (auto simp: registry_defs Let_def node_wf_def intro!: registry_wf_set split: option.splits)
     (auto simp: registry_wf_def js.entries_del js.entries_empty)

lemma countActive_eq:
  "countActive reg ids =
   length (filter (\<lambda>i. \<exists>node. js_get reg i = Some node \<and> node_status node = Active) ids)"
proof -
  have "foldl (\<lambda>n i. case js_get reg i of
         Some node \<Rightarrow> if node_status node = Active then n + 1 else n
       | None \<Rightarrow> n) c ids =
     c + length (filter (\<lambda>i. \<exists>node. js_get reg i = Some node \<and> node_status node = Active) ids)"
    for c :: nat
    by (induction ids arbitrary: c) (auto split: option.splits)
  then show ?thesis by (simp add: countActive_def)
qed

text \<open>A heartbeat never brings a revoked node back.\<close>

lemma heartbeat_status:
  assumes "js_get reg i = Some node"
  shows "\<exists>node'. js_get (snd (heartbeat i now reg)) i = Some node' \<and>
    node_status node' = (if node_status node = Revoked then Revoked else Active)"
  using assms by (cases "node_status node") (auto simp: heartbeat_def Let_def)

end
