(* ===== verification/Bft.thy ===== *)
theory Bft
  imports Js
begin

text \<open>
  \<open>backend/src/services/mpc/ed25519.ts\<close> and \<open>bft.ts\<close>. What Node's \<open>crypto\<close> module computes is the
  parameter record \<open>crypto\<close>: the SPKI blob of a PKCS#8 private key, signing and verifying over
  those blobs, and SHA-256. The wrappers, their length checks and DER prefixes, the
  byzantine-compatibility check, the approval digest and the equivocation tracker are modelled.
\<close>

subsection \<open>Ed25519 wrappers\<close>

record crypto =
  cr_spki :: "byte list \<Rightarrow> byte list"
  cr_sign :: "byte list \<Rightarrow> byte list \<Rightarrow> byte list"
  cr_verify :: "byte list \<Rightarrow> byte list \<Rightarrow> byte list \<Rightarrow> bool"
  cr_sha256 :: "byte list \<Rightarrow> byte list"

datatype ed_error = SeedLength | PublicKeyLength

definition ED25519_PKCS8_PREFIX :: "byte list" where
  "ED25519_PKCS8_PREFIX = from_hex ''302e020100300506032b657004220420''"

definition ED25519_SPKI_PREFIX :: "byte list" where
  "ED25519_SPKI_PREFIX = from_hex ''302a300506032b6570032100''"

definition SEED_BYTES :: nat where "SEED_BYTES = 32"
definition PUBLIC_KEY_BYTES :: nat where "PUBLIC_KEY_BYTES = 32"
definition SIGNATURE_BYTES :: nat where "SIGNATURE_BYTES = 64"

definition privateKeyFromSeed :: "byte list \<Rightarrow> ed_error + byte list" where
  "privateKeyFromSeed seed =
     (if length seed \<noteq> SEED_BYTES then Inl SeedLength else Inr (ED25519_PKCS8_PREFIX @ seed))"

definition publicKeyFromSeed :: "crypto \<Rightarrow> byte list \<Rightarrow> ed_error + byte list" where
  "publicKeyFromSeed c seed =
     (case privateKeyFromSeed seed of
        Inl e \<Rightarrow> Inl e
      | Inr privateKey \<Rightarrow>
          let spki = cr_spki c privateKey
          in Inr (drop (length spki - PUBLIC_KEY_BYTES) spki))"

definition publicKeyFromBytes :: "byte list \<Rightarrow> ed_error + byte list" where
  "publicKeyFromBytes pk =
     (if length pk \<noteq> PUBLIC_KEY_BYTES then Inl PublicKeyLength else Inr (ED25519_SPKI_PREFIX @ pk))"

definition ed_sign :: "crypto \<Rightarrow> byte list \<Rightarrow> byte list \<Rightarrow> ed_error + byte list" where
  "ed_sign c seed msg =
     (case privateKeyFromSeed seed of Inl e \<Rightarrow> Inl e | Inr k \<Rightarrow> Inr (cr_sign c k msg))"

definition ed_verify :: "crypto \<Rightarrow> byte list \<Rightarrow> byte list \<Rightarrow> byte list \<Rightarrow> ed_error + bool" where
  "ed_verify c pk msg sig =
     (if length sig \<noteq> SIGNATURE_BYTES then Inr False
      else case publicKeyFromBytes pk of
             Inl e \<Rightarrow> Inl e
           | Inr k \<Rightarrow> Inr (cr_verify c k msg sig))"

text \<open>
  The documented behaviour of Ed25519 the service relies on: public keys have 32 bytes,
  signatures 64, and a signature by a seed verifies under the public key of that seed.
\<close>

definition ed25519_sound :: "crypto \<Rightarrow> bool" where
  "ed25519_sound c \<longleftrightarrow> (\<forall>seed msg pk sig.
     publicKeyFromSeed c seed = Inr pk \<longrightarrow> ed_sign c seed msg = Inr sig \<longrightarrow>
     length pk = PUBLIC_KEY_BYTES \<and> ed_verify c pk msg sig = Inr True)"

lemma publicKeyFromSeed_Inr:
  "publicKeyFromSeed c seed = Inr pk \<Longrightarrow> length seed = SEED_BYTES"
  by (auto simp: publicKeyFromSeed_def privateKeyFromSeed_def split: if_splits)

lemma ed_sign_total:
  "length seed = SEED_BYTES \<Longrightarrow> \<exists>sig. ed_sign c seed msg = Inr sig"
  by (auto simp: ed_sign_def privateKeyFromSeed_def)

subsection \<open>Byzantine compatibility\<close>

datatype bft_error = ThresholdTooSmall | NodeCountBelowThreshold

record ByzantineEnvelope =
  env_threshold :: int
  env_nodeCount :: int
  env_faultTolerance :: int

definition assertByzantineCompatible :: "int \<Rightarrow> int \<Rightarrow> bft_error + ByzantineEnvelope" where
  "assertByzantineCompatible threshold nodeCount =
     (if threshold < 2 then Inl ThresholdTooSmall
      else if nodeCount < threshold then Inl NodeCountBelowThreshold
      else
        let maxFromNodes = (nodeCount - 1) div 3;
            maxFromThreshold = (threshold - 1) div 2;
            faultTolerance = max 0 (min maxFromNodes maxFromThreshold)
        in if nodeCount < 3 \<and> threshold \<noteq> nodeCount
           then Inr \<lparr>env_threshold = threshold, env_nodeCount = nodeCount, env_faultTolerance = 0\<rparr>
           else Inr \<lparr>env_threshold = threshold, env_nodeCount = nodeCount,
                  env_faultTolerance = faultTolerance\<rparr>)"

lemma assertByzantineCompatible_Inl:
  "assertByzantineCompatible t n = Inl e \<longleftrightarrow>
   t < 2 \<and> e = ThresholdTooSmall \<or> 2 \<le> t \<and> n < t \<and> e = NodeCountBelowThreshold"
  by (auto simp: assertByzantineCompatible_def Let_def)

lemma assertByzantineCompatible_Inr:
  "assertByzantineCompatible t n = Inr env \<longleftrightarrow>
   2 \<le> t \<and> t \<le> n \<and> env_threshold env = t \<and> env_nodeCount env = n \<and>
   env_faultTolerance env = min ((n - 1) div 3) ((t - 1) div 2)"
  by (auto simp: assertByzantineCompatible_def Let_def)

subsection \<open>Approvals\<close>

definition messageDigest :: "crypto \<Rightarrow> string \<Rightarrow> byte list \<Rightarrow> byte list" where
  "messageDigest c sessionId payload = cr_sha256 c (ascii_bytes sessionId @ [0] @ payload)"

type_synonym tracker = "(string, string) jsmap"

definition trackerKey :: "string \<Rightarrow> string \<Rightarrow> string" where
  "trackerKey sessionId nodeId = sessionId @ ''::'' @ nodeId"

definition createEquivocationTracker :: tracker where
  "createEquivocationTracker = []"

datatype approval = ApprovalOk | BadSignature | Equivocation

text \<open>\<open>prior &&\<close> is false for the empty string as well as for a missing entry.\<close>

definition recordApproval ::
  "crypto \<Rightarrow> string \<Rightarrow> string \<Rightarrow> byte list \<Rightarrow> byte list \<Rightarrow> string \<Rightarrow> (tracker, ed_error, approval) op" where
  "recordApproval c sessionId nodeId pk digest signatureHex tr =
     (let signature = from_hex signatureHex
      in case ed_verify c pk digest signature of
           Inl e \<Rightarrow> (Inl e, tr)
         | Inr False \<Rightarrow> (Inr BadSignature, tr)
         | Inr True \<Rightarrow>
             let key = trackerKey sessionId nodeId;
                 prior = js_get tr key
             in if (\<exists>p\<in>set_option prior. p \<noteq> [] \<and> to_lower p \<noteq> to_lower signatureHex)
                then (Inr Equivocation, tr)
                else (Inr ApprovalOk, js_set key (to_lower signatureHex) tr))"

definition bft_isExpired :: "int \<Rightarrow> int \<Rightarrow> bool" where
  "bft_isExpired expiresAt now \<longleftrightarrow> expiresAt \<le> now"

definition resetTracker :: "tracker \<Rightarrow> tracker" where
  "resetTracker tr = []"

lemma recordApproval_ok:
  assumes "recordApproval c sid nid pk digest sig tr = (Inr ApprovalOk, tr')"
  shows "ed_verify c pk digest (from_hex sig) = Inr True"
    and "js_get tr' (trackerKey sid nid) = Some (to_lower sig)"
  using assms by (auto simp: recordApproval_def Let_def split: sum.splits bool.splits if_splits)

lemma recordApproval_frame:
  "recordApproval c sid nid pk digest sig tr = (r, tr') \<Longrightarrow> key \<noteq> trackerKey sid nid \<Longrightarrow>
   js_get tr' key = js_get tr key"
  by (auto simp: recordApproval_def Let_def split: sum.splits bool.splits if_splits)

subsection \<open>Properties\<close>

text \<open>
  the fault tolerance that \<open>assertByzantineCompatible\<close> reports is the largest \<open>f\<close> with
  \<open>n \<ge> 3f + 1\<close> and \<open>threshold \<ge> 2f + 1\<close>, and it fails exactly when the threshold is below two or
  above the number of nodes.
\<close>

lemma assertByzantineCompatible_spec:
  "(case assertByzantineCompatible t n of
      Inl e \<Rightarrow> t < 2 \<or> n < t
    | Inr env \<Rightarrow> 2 \<le> t \<and> t \<le> n \<and>
        (\<forall>f. (f \<le> env_faultTolerance env) = (3 * f + 1 \<le> n \<and> 2 * f + 1 \<le> t)))"
proof (cases "assertByzantineCompatible t n")
  case (Inl e)
  then have "t < 2 \<or> n < t" by (auto simp: assertByzantineCompatible_Inl)
  with Inl show ?thesis by simp
next
  case (Inr env)
  then have env: "2 \<le> t" "t \<le> n" "env_faultTolerance env = min ((n - 1) div 3) ((t - 1) div 2)"
    by (simp_all add: assertByzantineCompatible_Inr)
  have "(f \<le> min ((n - 1) div 3) ((t - 1) div 2)) = (3 * f + 1 \<le> n \<and> 2 * f + 1 \<le> t)" for f
    by linarith
  with env Inr show ?thesis by simp
qed

text \<open>
  a node that approved a session once cannot have a different signature accepted for the same
  session: the second approval is answered with \<open>equivocation\<close> and leaves the tracker as it was.
\<close>

theorem recordApproval_equivocation:
  assumes "recordApproval c sid nid pk digest sig tr = (Inr ApprovalOk, tr')"
    and "ed_verify c pk' digest' (from_hex sig') = Inr True" and "to_lower sig' \<noteq> to_lower sig"
    and "sig \<noteq> []"
  shows "recordApproval c sid nid pk' digest' sig' tr' = (Inr Equivocation, tr')"
  using recordApproval_ok [OF assms(1)] assms(2-4)
  by (auto simp: recordApproval_def Let_def)

definition demo_crypto :: crypto where
  "demo_crypto =
     \<lparr>cr_spki = (\<lambda>der. der), cr_sign = (\<lambda>k m. replicate 64 1),
      cr_verify = (\<lambda>k m s. True), cr_sha256 = (\<lambda>m. replicate 32 9)\<rparr>"

theorem recordApproval_equivocation_witness:
  "\<exists>tr. recordApproval demo_crypto ''s1'' ''n1'' (replicate 32 0) [] (to_hex (replicate 64 1)) [] =
      (Inr ApprovalOk, tr) \<and>
    recordApproval demo_crypto ''s1'' ''n1'' (replicate 32 0) [] (to_hex (replicate 64 2)) tr =
      (Inr Equivocation, tr)"
proof -
  let ?s = "to_hex (replicate 64 1)" and ?s' = "to_hex (replicate 64 2)"
  have v: "ed_verify demo_crypto (replicate 32 0) [] (from_hex (to_hex (replicate 64 b))) = Inr True" for b
    by (simp add: ed_verify_def publicKeyFromBytes_def demo_crypto_def SIGNATURE_BYTES_def PUBLIC_KEY_BYTES_def)
  then have ok: "recordApproval demo_crypto ''s1'' ''n1'' (replicate 32 0) [] ?s [] =
      (Inr ApprovalOk, js_set (trackerKey ''s1'' ''n1'') (to_lower ?s) [])"
    by (simp add: recordApproval_def Let_def)
  have "to_lower ?s' \<noteq> to_lower ?s" and "?s \<noteq> []"
    by simp_all
  with recordApproval_equivocation [OF ok v] ok show ?thesis by auto
qed

end
