(* ===== verification/Coordinator.thy ===== *)
theory Coordinator
  imports Hsm MpcNodes Bft
begin

text \<open>
  \<open>backend/src/services/mpc/coordinator.ts\<close>: key ceremonies, threshold signing sessions, rotation
  and membership changes. The module's maps, the equivocation tracker, the node registry and the
  HSM backend are the fields of the record \<open>mpc\<close>. Fresh ids, the seed, the random bytes of
  \<open>split\<close> and the clock are arguments; one handler reads the clock once. A rejected promise or a
  \<open>throw\<close> is an \<open>Inl\<close> next to the state as it was left. With the in-memory backend an
  awaited call is a microtask that runs before the next request is taken up, so that a handler is
  one step.
\<close>

subsection \<open>State\<close>

datatype KeyStatus = KeyActive | KeyRotating | KeyRevoked

record ManagedKey =
  mk_id :: string
  mk_label :: "string option"
  mk_publicKey :: string
  mk_threshold :: int
  mk_nodes :: "string list"
  mk_status :: KeyStatus
  mk_version :: int
  mk_createdAt :: int
  mk_rotatedAt :: "int option"
  mk_ceremonyId :: string
  mk_notes :: "string option"

datatype CeremonyStatus = CerPending | CerActive | CerCompleted | CerFailed

record Ceremony =
  cer_id :: string
  cer_keyId :: string
  cer_label :: "string option"
  cer_threshold :: int
  cer_nodes :: "string list"
  cer_status :: CeremonyStatus
  cer_startedAt :: int
  cer_completedAt :: "int option"
  cer_failureReason :: "string option"
  cer_acknowledgements :: "string list"

datatype SessionStatus = SesPending | SesReady | SesSigned | SesRejected | SesExpired

record Contribution =
  con_nodeId :: string
  con_approvedAt :: int
  con_approvalSignature :: string

datatype mpc_error =
    BftError bft_error | UnknownNode string | NodeNotActive string NodeStatus | DuplicateNodes
  | EdError ed_error | ShamirError shamir_error | ShareCountMismatch
  | UnknownKey string | KeyNotActive string KeyStatus | UnknownSession string
  | SessionNotPending string SessionStatus | NotInQuorum string
  | Equivocated string string | InvalidApproval string
  | SharesUnavailable nat int | InsufficientShares nat int
  | AlreadyMember string | NotMember string | BelowThreshold nat int

datatype failure = FailTimeout | FailEquivocation | FailBadSignature | FailSigning mpc_error

record SigningSession =
  ses_id :: string
  ses_keyId :: string
  ses_payloadHex :: string
  ses_payloadDigest :: string
  ses_requestedBy :: string
  ses_createdAt :: int
  ses_expiresAt :: int
  ses_status :: SessionStatus
  ses_quorum :: "string list"
  ses_contributions :: "Contribution list"
  ses_signatureHex :: "string option"
  ses_failureReason :: "failure option"

record mpc =
  mpc_keys :: "(string, ManagedKey) jsmap"
  mpc_ceremonies :: "(string, Ceremony) jsmap"
  mpc_sessions :: "(string, SigningSession) jsmap"
  mpc_tracker :: tracker
  mpc_registry :: registry
  mpc_hsm :: InMemoryHsm

definition DEFAULT_SIGNING_TIMEOUT_MS :: int where
  "DEFAULT_SIGNING_TIMEOUT_MS = 5 * 60 * 1000"

subsection \<open>Internal helpers\<close>

fun assertAllNodesActive :: "registry \<Rightarrow> string list \<Rightarrow> mpc_error option" where
  "assertAllNodesActive reg [] = None"
| "assertAllNodesActive reg (i # ids) =
     (case getNode reg i of
        None \<Rightarrow> Some (UnknownNode i)
      | Some node \<Rightarrow>
          if node_status node \<noteq> Active then Some (NodeNotActive i (node_status node))
          else assertAllNodesActive reg ids)"

definition distributeShares ::
  "string \<Rightarrow> string list \<Rightarrow> Share list \<Rightarrow> InMemoryHsm \<Rightarrow> mpc_error + InMemoryHsm" where
  "distributeShares keyId nodes shares h =
     (if length nodes \<noteq> length shares then Inl ShareCountMismatch
      else Inr (fold (\<lambda>i h. hsm_put keyId (nodes ! i) (shares ! i) h) [0..<length nodes] h))"

fun collect_loop :: "InMemoryHsm \<Rightarrow> string \<Rightarrow> int \<Rightarrow> string list \<Rightarrow> Share list \<Rightarrow> Share list" where
  "collect_loop h keyId limit [] collected = collected"
| "collect_loop h keyId limit (n # ns) collected =
     (if int (length collected) \<ge> limit then collected
      else if \<not> hsm_isAvailable h n then collect_loop h keyId limit ns collected
      else case hsm_get h keyId n of
             None \<Rightarrow> collect_loop h keyId limit ns collected
           | Some share \<Rightarrow> collect_loop h keyId limit ns (collected @ [share]))"

definition collectShares :: "InMemoryHsm \<Rightarrow> ManagedKey \<Rightarrow> int \<Rightarrow> mpc_error + Share list" where
  "collectShares h key limit =
     (let collected = collect_loop h (mk_id key) limit (mk_nodes key) []
      in if int (length collected) < limit
         then Inl (SharesUnavailable (length collected) limit) else Inr collected)"

definition collectAllShares :: "InMemoryHsm \<Rightarrow> ManagedKey \<Rightarrow> mpc_error + Share list" where
  "collectAllShares h key =
     (let shares = List.map_filter (hsm_get h (mk_id key)) (mk_nodes key)
      in if int (length shares) < mk_threshold key
         then Inl (InsufficientShares (length shares) (mk_threshold key)) else Inr shares)"

definition signWithShares ::
  "crypto \<Rightarrow> InMemoryHsm \<Rightarrow> ManagedKey \<Rightarrow> byte list \<Rightarrow> mpc_error + byte list" where
  "signWithShares c h key payload =
     (case collectShares h key (mk_threshold key) of
        Inl e \<Rightarrow> Inl e
      | Inr shares \<Rightarrow>
          (case reconstruct shares of
             Inl e \<Rightarrow> Inl (ShamirError e)
           | Inr seed \<Rightarrow>
               (case ed_sign c seed payload of Inl e \<Rightarrow> Inl (EdError e) | Inr sig \<Rightarrow> Inr sig)))"

definition maybeExpire :: "int \<Rightarrow> SigningSession \<Rightarrow> SigningSession" where
  "maybeExpire now session =
     (if ses_status session = SesPending \<and> bft_isExpired (ses_expiresAt session) now
      then session\<lparr>ses_status := SesExpired, ses_failureReason := Some FailTimeout\<rparr>
      else session)"

definition finaliseSession ::
  "crypto \<Rightarrow> InMemoryHsm \<Rightarrow> SigningSession \<Rightarrow> ManagedKey \<Rightarrow> mpc_error + SigningSession" where
  "finaliseSession c h session key =
     (case signWithShares c h key (from_hex (ses_payloadHex session)) of
        Inl e \<Rightarrow> Inl e
      | Inr signature \<Rightarrow>
          Inr (session\<lparr>ses_signatureHex := Some (to_hex signature), ses_status := SesSigned\<rparr>))"

definition getKeyOrThrow :: "mpc \<Rightarrow> string \<Rightarrow> mpc_error + ManagedKey" where
  "getKeyOrThrow s i = (case js_get (mpc_keys s) i of None \<Rightarrow> Inl (UnknownKey i) | Some k \<Rightarrow> Inr k)"

definition getSessionOrThrow :: "mpc \<Rightarrow> string \<Rightarrow> mpc_error + SigningSession" where
  "getSessionOrThrow s i =
     (case js_get (mpc_sessions s) i of None \<Rightarrow> Inl (UnknownSession i) | Some x \<Rightarrow> Inr x)"

subsection \<open>Ceremonies\<close>

definition runCeremony ::
  "crypto \<Rightarrow> int \<Rightarrow> string list \<Rightarrow> string option \<Rightarrow> string option \<Rightarrow>
   byte list \<Rightarrow> (nat \<Rightarrow> nat \<Rightarrow> byte) \<Rightarrow> string \<Rightarrow> string \<Rightarrow> int \<Rightarrow>
   (mpc, mpc_error, ManagedKey \<times> Ceremony) op" where
  "runCeremony c threshold nodes label notes seed rnd keyId ceremonyId now s =
     (case assertByzantineCompatible threshold (int (length nodes)) of
        Inl e \<Rightarrow> (Inl (BftError e), s)
      | Inr _ \<Rightarrow>
     (case assertAllNodesActive (mpc_registry s) nodes of
        Some e \<Rightarrow> (Inl e, s)
      | None \<Rightarrow>
     (if card (set nodes) \<noteq> length nodes then (Inl DuplicateNodes, s)
      else
     (case publicKeyFromSeed c seed of
        Inl e \<Rightarrow> (Inl (EdError e), s)
      | Inr publicKey \<Rightarrow>
     (case split_secret seed threshold (int (length nodes)) rnd of
        Inl e \<Rightarrow> (Inl (ShamirError e), s)
      | Inr shares \<Rightarrow>
     (case distributeShares keyId nodes shares (mpc_hsm s) of
        Inl e \<Rightarrow> (Inl e, s)
      | Inr h \<Rightarrow>
          let key = \<lparr>mk_id = keyId, mk_label = label, mk_publicKey = to_hex publicKey,
                mk_threshold = threshold, mk_nodes = nodes, mk_status = KeyActive,
                mk_version = 1, mk_createdAt = now, mk_rotatedAt = None,
                mk_ceremonyId = ceremonyId, mk_notes = notes\<rparr>;
              ceremony = \<lparr>cer_id = ceremonyId, cer_keyId = keyId, cer_label = label,
                cer_threshold = threshold, cer_nodes = nodes, cer_status = CerCompleted,
                cer_startedAt = now, cer_completedAt = Some now, cer_failureReason = None,
                cer_acknowledgements = nodes\<rparr>
          in (Inr (key, ceremony),
              s\<lparr>mpc_hsm := h, mpc_keys := js_set keyId key (mpc_keys s),
                mpc_ceremonies := js_set ceremonyId ceremony (mpc_ceremonies s)\<rparr>)))))))"

subsection \<open>Signing sessions\<close>

definition startSigningSession ::
  "crypto \<Rightarrow> string \<Rightarrow> byte list \<Rightarrow> string \<Rightarrow> int option \<Rightarrow> string \<Rightarrow> int \<Rightarrow>
   (mpc, mpc_error, SigningSession) op" where
  "startSigningSession c keyId payload requestedBy timeoutMs i now s =
     (case getKeyOrThrow s keyId of
        Inl e \<Rightarrow> (Inl e, s)
      | Inr key \<Rightarrow>
          if mk_status key \<noteq> KeyActive then (Inl (KeyNotActive (mk_id key) (mk_status key)), s)
          else
            let session = \<lparr>ses_id = i, ses_keyId = mk_id key, ses_payloadHex = to_hex payload,
                  ses_payloadDigest = to_hex (cr_sha256 c payload), ses_requestedBy = requestedBy,
                  ses_createdAt = now,
                  ses_expiresAt = now + (case timeoutMs of Some t \<Rightarrow> t
                                         | None \<Rightarrow> DEFAULT_SIGNING_TIMEOUT_MS),
                  ses_status = SesPending, ses_quorum = mk_nodes key, ses_contributions = [],
                  ses_signatureHex = None, ses_failureReason = None\<rparr>
            in (Inr session, s\<lparr>mpc_sessions := js_set i session (mpc_sessions s)\<rparr>))"

text \<open>Storing a session object back under its id (the code mutates the object in the map).\<close>

definition put_session :: "SigningSession \<Rightarrow> mpc \<Rightarrow> mpc" where
  "put_session session s = s\<lparr>mpc_sessions := js_set (ses_id session) session (mpc_sessions s)\<rparr>"

definition add_contribution :: "string \<Rightarrow> string \<Rightarrow> int \<Rightarrow> SigningSession \<Rightarrow> SigningSession" where
  "add_contribution nodeId sigHex now session =
     (if \<exists>x\<in>set (ses_contributions session). con_nodeId x = nodeId then session
      else session\<lparr>ses_contributions := ses_contributions session @
        [\<lparr>con_nodeId = nodeId, con_approvedAt = now, con_approvalSignature = to_lower sigHex\<rparr>]\<rparr>)"

text \<open>The part of \<open>contribute\<close> after the approval was accepted.\<close>

definition contribute_accepted ::
  "crypto \<Rightarrow> int \<Rightarrow> SigningSession \<Rightarrow> (mpc, mpc_error, SigningSession \<times> bool) op" where
  "contribute_accepted c now session s =
     (case getKeyOrThrow s (ses_keyId session) of
        Inl e \<Rightarrow> (Inl e, put_session session s)
      | Inr key \<Rightarrow>
          if int (length (ses_contributions session)) \<ge> mk_threshold key
             \<and> ses_status session = SesPending
          then (case finaliseSession c (mpc_hsm s) session key of
                  Inl e \<Rightarrow>
                    (Inl e, put_session
                       (session\<lparr>ses_status := SesRejected,
                                ses_failureReason := Some (FailSigning e)\<rparr>) s)
                | Inr session \<Rightarrow>
                    (Inr (maybeExpire now session,
                          ses_status (maybeExpire now session) = SesSigned),
                     put_session (maybeExpire now session) s))
          else (Inr (maybeExpire now session, ses_status (maybeExpire now session) = SesSigned),
                put_session (maybeExpire now session) s))"

definition contribute ::
  "crypto \<Rightarrow> string \<Rightarrow> string \<Rightarrow> string \<Rightarrow> int \<Rightarrow> (mpc, mpc_error, SigningSession \<times> bool) op" where
  "contribute c sessionId nodeId sigHex now s =
     (case getSessionOrThrow s sessionId of
        Inl e \<Rightarrow> (Inl e, s)
      | Inr session0 \<Rightarrow>
          let session = maybeExpire now session0; s = put_session session s
          in if ses_status session \<noteq> SesPending
             then (Inl (SessionNotPending (ses_id session) (ses_status session)), s)
             else if nodeId \<notin> set (ses_quorum session) then (Inl (NotInQuorum nodeId), s)
             else case getNode (mpc_registry s) nodeId of
               None \<Rightarrow> (Inl (UnknownNode nodeId), s)
             | Some node \<Rightarrow>
                 let digest = messageDigest c (ses_id session) (from_hex (ses_payloadHex session));
                     (outcome, tr) = recordApproval c (ses_id session) (node_id node)
                       (from_hex (node_identityPublicKey node)) digest sigHex (mpc_tracker s);
                     s = s\<lparr>mpc_tracker := tr\<rparr>
                 in case outcome of
                      Inl e \<Rightarrow> (Inl (EdError e), s)
                    | Inr BadSignature \<Rightarrow>
                        (Inl (InvalidApproval nodeId),
                         put_session (session\<lparr>ses_status := SesRejected,
                           ses_failureReason := Some FailBadSignature\<rparr>) s)
                    | Inr Equivocation \<Rightarrow>
                        (Inl (Equivocated nodeId (ses_id session)),
                         put_session (session\<lparr>ses_status := SesRejected,
                           ses_failureReason := Some FailEquivocation\<rparr>) s)
                    | Inr ApprovalOk \<Rightarrow>
                        contribute_accepted c now (add_contribution nodeId sigHex now session) s)"

definition getSigningSession :: "string \<Rightarrow> int \<Rightarrow> mpc \<Rightarrow> SigningSession option \<times> mpc" where
  "getSigningSession i now s =
     (case js_get (mpc_sessions s) i of
        None \<Rightarrow> (None, s)
      | Some session \<Rightarrow> (Some (maybeExpire now session), put_session (maybeExpire now session) s))"

subsection \<open>Rotation and membership\<close>

definition put_key :: "ManagedKey \<Rightarrow> mpc \<Rightarrow> mpc" where
  "put_key key s = s\<lparr>mpc_keys := js_set (mk_id key) key (mpc_keys s)\<rparr>"

definition delete_shares :: "string \<Rightarrow> string list \<Rightarrow> InMemoryHsm \<Rightarrow> InMemoryHsm" where
  "delete_shares keyId nodes h = fold (hsm_delete keyId) nodes h"

definition rotateKey ::
  "crypto \<Rightarrow> string \<Rightarrow> string list option \<Rightarrow> int option \<Rightarrow> byte list \<Rightarrow> (nat \<Rightarrow> nat \<Rightarrow> byte) \<Rightarrow> int \<Rightarrow>
   (mpc, mpc_error, ManagedKey) op" where
  "rotateKey c keyId nodes threshold seed rnd now s =
     (case getKeyOrThrow s keyId of
        Inl e \<Rightarrow> (Inl e, s)
      | Inr key \<Rightarrow>
          let nextNodes = (case nodes of Some ns \<Rightarrow> ns | None \<Rightarrow> mk_nodes key);
              nextThreshold = (case threshold of Some t \<Rightarrow> t | None \<Rightarrow> mk_threshold key)
          in
     (case assertByzantineCompatible nextThreshold (int (length nextNodes)) of
        Inl e \<Rightarrow> (Inl (BftError e), s)
      | Inr _ \<Rightarrow>
     (case assertAllNodesActive (mpc_registry s) nextNodes of
        Some e \<Rightarrow> (Inl e, s)
      | None \<Rightarrow>
     (case publicKeyFromSeed c seed of
        Inl e \<Rightarrow> (Inl (EdError e), s)
      | Inr publicKey \<Rightarrow>
     (case split_secret seed nextThreshold (int (length nextNodes)) rnd of
        Inl e \<Rightarrow> (Inl (ShamirError e), s)
      | Inr shares \<Rightarrow>
          let h = delete_shares (mk_id key) (mk_nodes key) (mpc_hsm s)
          in
     (case distributeShares (mk_id key) nextNodes shares h of
        Inl e \<Rightarrow> (Inl e, s\<lparr>mpc_hsm := h\<rparr>)
      | Inr h \<Rightarrow>
          let key = key\<lparr>mk_publicKey := to_hex publicKey, mk_threshold := nextThreshold,
                mk_nodes := nextNodes, mk_version := mk_version key + 1,
                mk_rotatedAt := Some now, mk_status := KeyActive\<rparr>
          in (Inr key, put_key key (s\<lparr>mpc_hsm := h\<rparr>))))))))"

text \<open>The re-share shared by \<open>addMember\<close> and \<open>removeMember\<close>, to the node list \<open>nextNodes\<close>.\<close>

definition reshare ::
  "ManagedKey \<Rightarrow> string list \<Rightarrow> (nat \<Rightarrow> nat \<Rightarrow> byte) \<Rightarrow> int \<Rightarrow> (mpc, mpc_error, ManagedKey) op" where
  "reshare key nextNodes rnd now s =
     (case collectAllShares (mpc_hsm s) key of
        Inl e \<Rightarrow> (Inl e, s)
      | Inr oldShares \<Rightarrow>
     (case reconstruct oldShares of
        Inl e \<Rightarrow> (Inl (ShamirError e), s)
      | Inr seed \<Rightarrow>
     (case split_secret seed (mk_threshold key) (int (length nextNodes)) rnd of
        Inl e \<Rightarrow> (Inl (ShamirError e), s)
      | Inr shares \<Rightarrow>
          let h = delete_shares (mk_id key) (mk_nodes key) (mpc_hsm s)
          in
     (case distributeShares (mk_id key) nextNodes shares h of
        Inl e \<Rightarrow> (Inl e, s\<lparr>mpc_hsm := h\<rparr>)
      | Inr h \<Rightarrow>
          let key = key\<lparr>mk_nodes := nextNodes, mk_version := mk_version key + 1,
                mk_rotatedAt := Some now\<rparr>
          in (Inr key, put_key key (s\<lparr>mpc_hsm := h\<rparr>))))))"

text \<open>
  Its two halves, on either side of \<open>await Promise.all\<close> of the deletions: up to the deletion of the
  old shares, and from there on. The second half writes to the key as it is by then.
\<close>

definition reshare_collect ::
  "ManagedKey \<Rightarrow> string list \<Rightarrow> (nat \<Rightarrow> nat \<Rightarrow> byte) \<Rightarrow> (mpc, mpc_error, Share list) op" where
  "reshare_collect key nextNodes rnd s =
     (case collectAllShares (mpc_hsm s) key of
        Inl e \<Rightarrow> (Inl e, s)
      | Inr oldShares \<Rightarrow>
     (case reconstruct oldShares of
        Inl e \<Rightarrow> (Inl (ShamirError e), s)
      | Inr seed \<Rightarrow>
     (case split_secret seed (mk_threshold key) (int (length nextNodes)) rnd of
        Inl e \<Rightarrow> (Inl (ShamirError e), s)
      | Inr shares \<Rightarrow>
          (Inr shares, s\<lparr>mpc_hsm := delete_shares (mk_id key) (mk_nodes key) (mpc_hsm s)\<rparr>))))"

definition reshare_deal ::
  "ManagedKey \<Rightarrow> string list \<Rightarrow> Share list \<Rightarrow> int \<Rightarrow> (mpc, mpc_error, ManagedKey) op" where
  "reshare_deal key nextNodes shares now s =
     (case distributeShares (mk_id key) nextNodes shares (mpc_hsm s) of
        Inl e \<Rightarrow> (Inl e, s)
      | Inr h \<Rightarrow>
          let key = key\<lparr>mk_nodes := nextNodes, mk_version := mk_version key + 1,
                mk_rotatedAt := Some now\<rparr>
          in (Inr key, put_key key (s\<lparr>mpc_hsm := h\<rparr>)))"

lemma reshare_halves:
  "reshare key nextNodes rnd now s =
     (case reshare_collect key nextNodes rnd s of
        (Inl e, s') \<Rightarrow> (Inl e, s')
      | (Inr shares, s') \<Rightarrow> reshare_deal key nextNodes shares now s')"
  by (simp add: reshare_def reshare_collect_def reshare_deal_def Let_def split: sum.split)

definition addMember ::
  "string \<Rightarrow> string \<Rightarrow> (nat \<Rightarrow> nat \<Rightarrow> byte) \<Rightarrow> int \<Rightarrow> (mpc, mpc_error, ManagedKey) op" where
  "addMember keyId nodeId rnd now s =
     (case getKeyOrThrow s keyId of
        Inl e \<Rightarrow> (Inl e, s)
      | Inr key \<Rightarrow>
          if nodeId \<in> set (mk_nodes key) then (Inl (AlreadyMember nodeId), s)
          else case assertAllNodesActive (mpc_registry s) (mk_nodes key @ [nodeId]) of
                 Some e \<Rightarrow> (Inl e, s)
               | None \<Rightarrow> reshare key (mk_nodes key @ [nodeId]) rnd now s)"

definition removeMember ::
  "string \<Rightarrow> string \<Rightarrow> (nat \<Rightarrow> nat \<Rightarrow> byte) \<Rightarrow> int \<Rightarrow> (mpc, mpc_error, ManagedKey) op" where
  "removeMember keyId nodeId rnd now s =
     (case getKeyOrThrow s keyId of
        Inl e \<Rightarrow> (Inl e, s)
      | Inr key \<Rightarrow>
          if nodeId \<notin> set (mk_nodes key) then (Inl (NotMember nodeId), s)
          else
            let remaining = filter (\<lambda>n. n \<noteq> nodeId) (mk_nodes key)
            in if int (length remaining) < mk_threshold key
               then (Inl (BelowThreshold (length remaining) (mk_threshold key)), s)
               else reshare key remaining rnd now s)"

definition revokeKey :: "string \<Rightarrow> mpc \<Rightarrow> ManagedKey option \<times> mpc" where
  "revokeKey i s =
     (case js_get (mpc_keys s) i of
        None \<Rightarrow> (None, s)
      | Some key \<Rightarrow>
          let key = key\<lparr>mk_status := KeyRevoked\<rparr>
          in (Some key, s\<lparr>mpc_keys := js_set i key (mpc_keys s),
                mpc_hsm := hsm_deleteKey i (mpc_hsm s)\<rparr>))"

definition listKeys :: "mpc \<Rightarrow> ManagedKey list" where
  "listKeys s = js_values (mpc_keys s)"

definition getKey :: "string \<Rightarrow> mpc \<Rightarrow> ManagedKey option" where
  "getKey i s = js_get (mpc_keys s) i"

definition listCeremonies :: "mpc \<Rightarrow> Ceremony list" where
  "listCeremonies s = js_values (mpc_ceremonies s)"

text \<open>The \<open>hsmBackend\<close> field, the constant name of the backend, is left out.\<close>

record mpc_status =
  sta_keys :: "nat \<times> nat \<times> nat \<times> nat"
  sta_nodes :: nat
  sta_ceremonies :: nat
  sta_sessions :: "nat \<times> nat \<times> nat"

definition mpc_getStatus :: "mpc \<Rightarrow> mpc_status" where
  "mpc_getStatus s =
     (let allKeys = listKeys s;
          having = (\<lambda>st. length (filter (\<lambda>k. mk_status k = st) allKeys));
          ses = js_values (mpc_sessions s);
          in_status = (\<lambda>st. length (filter (\<lambda>x. ses_status x = st) ses))
      in \<lparr>sta_keys = (length allKeys, having KeyActive, having KeyRotating, having KeyRevoked),
          sta_nodes = length (listNodes (mpc_registry s)),
          sta_ceremonies = length (listCeremonies s),
          sta_sessions = (length ses, in_status SesPending, in_status SesSigned)\<rparr>)"

definition mpc_reset :: "mpc \<Rightarrow> mpc" where
  "mpc_reset s = s\<lparr>mpc_keys := [], mpc_ceremonies := [], mpc_sessions := [], mpc_tracker := []\<rparr>"

subsection \<open>Custody of the key\<close>

text \<open>The seed behind a managed key: in custody at the key's nodes, with the key's public half.\<close>

definition key_custody :: "crypto \<Rightarrow> InMemoryHsm \<Rightarrow> ManagedKey \<Rightarrow> byte list \<Rightarrow> bool" where
  "key_custody c h key seed \<longleftrightarrow>
     in_custody split_secret hsm_entry h (mk_id key) (mk_nodes key) (mk_threshold key) seed \<and>
     (\<exists>pk. publicKeyFromSeed c seed = Inr pk \<and> mk_publicKey key = to_hex pk)"

lemma distributeShares_eq:
  "distributeShares keyId nodes shares h =
   (if length nodes \<noteq> length shares then Inl ShareCountMismatch
    else Inr (fold (\<lambda>(n, sh). hsm_put keyId n sh) (zip nodes shares) h))"
proof -
  have "fold (\<lambda>i h. hsm_put keyId (nodes ! i) (shares ! i) h) [0..<length nodes] h =
      fold (\<lambda>(n, sh). hsm_put keyId n sh) (zip nodes shares) h"
    if len: "length nodes = length shares"
  proof -
    have "zip nodes shares = map (\<lambda>i. (nodes ! i, shares ! i)) [0..<length nodes]"
      using len by (auto intro: nth_equalityI)
    then show ?thesis by (simp add: fold_map comp_def)
  qed
  then show ?thesis by (auto simp: distributeShares_def)
qed

lemma collect_loop_eq:
  "collect_loop h k limit ns acc =
   acc @ take (nat (limit - int (length acc))) (List.map_filter (hsm_get h k) ns)"
proof (induction h k limit ns acc rule: collect_loop.induct)
  case (2 h k limit n ns acc)
  show ?case
  proof (cases "int (length acc) \<ge> limit")
    case False
    then have "nat (limit - int (length acc)) = Suc (nat (limit - int (length acc) - 1))"
      by simp
    with False 2 show ?thesis
      by (auto simp: List.map_filter_simps hsm.get_entry algebra_simps split: option.splits)
  qed simp
qed (simp add: List.map_filter_simps)

lemma in_custody_threshold:
  "in_custody split_secret entry h k ns t seed \<Longrightarrow> 2 \<le> t \<and> t \<le> int (length ns) \<and> seed \<noteq> []"
  by (auto simp: in_custody_def split_Inr)

text \<open>Whatever \<open>signWithShares\<close> returns is the signature by the seed in custody.\<close>

lemma collectShares_recover:
  assumes "in_custody split_secret hsm_entry h (mk_id key) (mk_nodes key) (mk_threshold key) seed"
    and "collectShares h key (mk_threshold key) = Inr shares"
  shows "reconstruct shares = Inr seed"
proof (rule hsm.recover_available [OF assms(1)])
  let ?all = "List.map_filter (hsm_get h (mk_id key)) (mk_nodes key)"
  have eq: "shares = take (nat (mk_threshold key)) ?all" and "mk_threshold key \<le> int (length shares)"
    using assms(2) by (auto simp: collectShares_def Let_def collect_loop_eq split: if_splits)
  then show "mk_threshold key \<le> int (length shares)" by simp
  show "set shares \<subseteq> set ?all" unfolding eq by (rule set_take_subset)
  show "distinct shares" unfolding eq using hsm.available_shares [OF assms(1)] by auto
qed

lemma collectShares_outcome:
  assumes "in_custody split_secret hsm_entry h (mk_id key) (mk_nodes key) (mk_threshold key) seed"
  shows "(\<exists>shares. collectShares h key (mk_threshold key) = Inr shares) \<longleftrightarrow>
    mk_threshold key \<le> int (length (filter (hsm_isAvailable h) (mk_nodes key)))"
  using in_custody_threshold [OF assms] hsm.available_shares_length [OF assms]
  by (auto simp: collectShares_def Let_def collect_loop_eq)

lemma signWithShares_custody:
  assumes "key_custody c h key seed"
  shows "(case signWithShares c h key payload of
      Inl e \<Rightarrow> int (length (filter (hsm_isAvailable h) (mk_nodes key))) < mk_threshold key
    | Inr sig \<Rightarrow> ed_sign c seed payload = Inr sig \<and>
        mk_threshold key \<le> int (length (filter (hsm_isAvailable h) (mk_nodes key))))"
proof -
  have cust: "in_custody split_secret hsm_entry h (mk_id key) (mk_nodes key) (mk_threshold key) seed"
    and "length seed = SEED_BYTES"
    using assms by (auto simp: key_custody_def dest: publicKeyFromSeed_Inr)
  then obtain sig where sig: "ed_sign c seed payload = Inr sig"
    using ed_sign_total by blast
  show ?thesis
  proof (cases "collectShares h key (mk_threshold key)")
    case (Inl e)
    then have "\<not> (\<exists>shares. collectShares h key (mk_threshold key) = Inr shares)" by simp
    then show ?thesis
      unfolding collectShares_outcome [OF cust] by (simp add: signWithShares_def Inl)
  next
    case (Inr shares)
    then have "\<exists>shares. collectShares h key (mk_threshold key) = Inr shares" by simp
    then show ?thesis
      using collectShares_recover [OF cust Inr] sig
      unfolding collectShares_outcome [OF cust] by (simp add: signWithShares_def Inr)
  qed
qed

lemma publicKey_verifies:
  assumes "ed25519_sound c" and "publicKeyFromSeed c seed = Inr pk" and "ed_sign c seed m = Inr sig"
  shows "ed_verify c pk m sig = Inr True"
  using assms unfolding ed25519_sound_def by blast

subsection \<open>Dealing a key\<close>

lemma dealing_custody:
  assumes "split_secret seed t (int (length nodes)) rnd = Inr shares"
    and "distributeShares k nodes shares h = Inr h'" and "distinct nodes" and "no_colon k"
  shows "in_custody split_secret hsm_entry h' k nodes t seed"
  using hsm.deposit [OF assms(1,3,4), of h] assms(2)
  by (auto simp: distributeShares_eq split: if_splits)

lemma hsm_available_deal:
  "distributeShares k nodes shares h = Inr h' \<Longrightarrow> hsm_isAvailable h' = hsm_isAvailable h"
  by (auto simp: distributeShares_eq hsm.available_put_all split: if_splits)

text \<open>
  A rotation may name a node twice. Its shares then overwrite each other and the dealing is no
  longer in custody as a whole, but every node still holds a share of one dealing, and whatever is
  reconstructed from a threshold of them is the secret.
\<close>

definition key_dealt :: "crypto \<Rightarrow> InMemoryHsm \<Rightarrow> ManagedKey \<Rightarrow> byte list \<Rightarrow> bool" where
  "key_dealt c h key seed \<longleftrightarrow>
     (\<exists>n rnd shares. split_secret seed (mk_threshold key) n rnd = Inr shares \<and>
        (\<forall>m\<in>set (mk_nodes key). \<exists>sh\<in>set shares. hsm_entry h (mk_id key) m = Some sh)) \<and>
     (\<exists>pk. publicKeyFromSeed c seed = Inr pk \<and> mk_publicKey key = to_hex pk)"

lemma key_dealtI:
  assumes "split_secret seed (mk_threshold key) n rnd = Inr shares"
    and "\<And>m. m \<in> set (mk_nodes key) \<Longrightarrow> \<exists>sh\<in>set shares. hsm_entry h (mk_id key) m = Some sh"
    and "publicKeyFromSeed c seed = Inr pk" "mk_publicKey key = to_hex pk"
  shows "key_dealt c h key seed"
  using assms unfolding key_dealt_def by blast

lemma custody_dealt: "key_custody c h key seed \<Longrightarrow> key_dealt c h key seed"
  unfolding key_custody_def key_dealt_def in_custody_def
  by (fastforce simp: list_all2_conv_all_nth in_set_conv_nth)

lemma dealing_dealt:
  assumes "distributeShares k nodes shares h = Inr h'" and "no_colon k" and "m \<in> set nodes"
  shows "\<exists>sh\<in>set shares. hsm_entry h' k m = Some sh"
proof -
  have len: "length nodes = length shares"
    and h': "h' = fold (\<lambda>(n, sh). hsm_put k n sh) (zip nodes shares) h"
    using assms(1) by (auto simp: distributeShares_eq split: if_splits)
  then have "m \<in> fst ` set (zip nodes shares)" "snd ` set (zip nodes shares) = set shares"
    using assms(3) by (simp_all flip: set_map)
  then show ?thesis
    using hsm.entry_put_all_some [OF assms(2), of m "zip nodes shares" h] h' by simp
qed

lemma reconstruct_Inr_distinct:
  assumes "reconstruct sub = Inr seed"
  shows "distinct sub"
proof -
  have "card (set (map share_x sub)) = length (map share_x sub)"
    using assms by (auto simp: reconstruct_def Let_def split: if_splits option.splits)
  then have "distinct (map share_x sub)" by (rule card_distinct)
  then show ?thesis by (simp add: distinct_map)
qed

lemma dealt_recover:
  assumes "key_dealt c h key seed" and "reconstruct sub = Inr seed'"
    and "set sub \<subseteq> set (List.map_filter (hsm_get h (mk_id key)) (mk_nodes key))"
    and "mk_threshold key \<le> int (length sub)"
  shows "seed' = seed"
proof -
  obtain n rnd shares where split: "split_secret seed (mk_threshold key) n rnd = Inr shares"
    and held: "\<forall>m\<in>set (mk_nodes key). \<exists>sh\<in>set shares. hsm_entry h (mk_id key) m = Some sh"
    using assms(1) by (auto simp: key_dealt_def)
  have "set (List.map_filter (hsm_get h (mk_id key)) ms) \<subseteq> set shares"
    if "set ms \<subseteq> set (mk_nodes key)" for ms
    using that held
    by (induction ms) (auto simp: List.map_filter_simps hsm.get_entry split: option.splits)
  from this [OF order_refl] assms(3) have "set sub \<subseteq> set shares" by blast
  from reconstruct_some_shares [OF split this reconstruct_Inr_distinct [OF assms(2)] assms(4)]
  show ?thesis using assms(2) by simp
qed

lemma signWithShares_dealt:
  assumes "key_dealt c h key seed" and "signWithShares c h key payload = Inr sig"
  shows "ed_sign c seed payload = Inr sig"
proof -
  obtain shares seed' where *: "collectShares h key (mk_threshold key) = Inr shares"
    "reconstruct shares = Inr seed'" "ed_sign c seed' payload = Inr sig"
    using assms(2) by (auto simp: signWithShares_def split: sum.splits)
  then have "mk_threshold key \<le> int (length shares)"
    "set shares \<subseteq> set (List.map_filter (hsm_get h (mk_id key)) (mk_nodes key))"
    by (auto simp: collectShares_def Let_def collect_loop_eq dest: in_set_takeD split: if_splits)
  with dealt_recover [OF assms(1) *(2)] *(3) show ?thesis by simp
qed

text \<open>What an operation on the key \<open>k\<close> leaves alone: every share of every other key.\<close>

definition hsm_frame :: "string \<Rightarrow> InMemoryHsm \<Rightarrow> InMemoryHsm \<Rightarrow> bool" where
  "hsm_frame k h h' \<longleftrightarrow>
     (\<forall>k' n. no_colon k' \<longrightarrow> k' \<noteq> k \<longrightarrow> hsm_entry h' k' n = hsm_entry h k' n)"

lemma hsm_frame_refl [simp]: "hsm_frame k h h"
  by (simp add: hsm_frame_def)

lemma hsm_frame_trans: "hsm_frame k h h' \<Longrightarrow> hsm_frame k h' h'' \<Longrightarrow> hsm_frame k h h''"
  by (simp add: hsm_frame_def)

lemma distributeShares_frame:
  "distributeShares k nodes shares h = Inr h' \<Longrightarrow> no_colon k \<Longrightarrow> hsm_frame k h h'"
  by (auto simp: distributeShares_eq hsm_frame_def hsm.entry_put_all_other split: if_splits)

lemma delete_shares_frame: "no_colon k \<Longrightarrow> hsm_frame k h (delete_shares k xs h)"
  by (simp add: hsm_frame_def delete_shares_def hsm.entry_del_all)

lemma deleteKey_frame: "no_colon k \<Longrightarrow> hsm_frame k h (hsm_deleteKey k h)"
  by (simp add: hsm_frame_def hsm.entry_del_key)

end
