(* ===== verification/MpcSafety.thy ===== *)
theory MpcSafety
  imports Coordinator
begin

text \<open>
  The service of \<open>backend/src/services/mpc\<close> as a transition system: one step per handler of
  \<open>coordinator.ts\<close>, per registry operation and per change of a node's availability. The states
  reached from an empty process keep every usable key in custody and every recorded approval
  verified, and the properties of the coordinator follow.
\<close>

subsection \<open>What the handlers do to the state\<close>

lemma runCeremony_Inr:
  assumes "runCeremony c t nodes label notes seed rnd k cid now s = (Inr (key, cer), s')"
    and "no_colon k"
  shows "key_custody c (mpc_hsm s') key seed" "mk_id key = k" "mk_status key = KeyActive"
    and "mk_threshold key = t" "mk_nodes key = nodes" "2 \<le> t"
    and "hsm_frame k (mpc_hsm s) (mpc_hsm s')" "mpc_keys s' = js_set k key (mpc_keys s)"
    and "mpc_sessions s' = mpc_sessions s" "mpc_registry s' = mpc_registry s"
    and "hsm_isAvailable (mpc_hsm s') = hsm_isAvailable (mpc_hsm s)"
    and "mpc_tracker s' = mpc_tracker s"
proof -
  from assms(1) obtain pk shares where *:
    "publicKeyFromSeed c seed = Inr pk" "card (set nodes) = length nodes"
    "split_secret seed t (int (length nodes)) rnd = Inr shares"
    "distributeShares k nodes shares (mpc_hsm s) = Inr (mpc_hsm s')"
    "mk_publicKey key = to_hex pk" "mk_id key = k" "mk_status key = KeyActive"
    "mk_threshold key = t" "mk_nodes key = nodes"
    "mpc_keys s' = js_set k key (mpc_keys s)" "mpc_sessions s' = mpc_sessions s"
    "mpc_registry s' = mpc_registry s" "mpc_tracker s' = mpc_tracker s"
    unfolding runCeremony_def
    by (auto simp: Let_def split: sum.splits option.splits if_splits)
  then show "mk_id key = k" "mk_status key = KeyActive" "mpc_keys s' = js_set k key (mpc_keys s)"
    "mpc_sessions s' = mpc_sessions s" "mk_threshold key = t" "mk_nodes key = nodes"
    "mpc_registry s' = mpc_registry s" "mpc_tracker s' = mpc_tracker s"
    by simp_all
  have "distinct nodes" using *(2) by (rule card_distinct)
  then show "key_custody c (mpc_hsm s') key seed"
    using * dealing_custody [OF *(3,4) _ assms(2)] by (simp add: key_custody_def)
  show "hsm_frame k (mpc_hsm s) (mpc_hsm s')"
    using distributeShares_frame [OF *(4) assms(2)] .
  show "2 \<le> t" using *(3) by (simp add: split_Inr)
  show "hsm_isAvailable (mpc_hsm s') = hsm_isAvailable (mpc_hsm s)"
    using *(4) by (rule hsm_available_deal)
qed

lemma runCeremony_Inl:
  "runCeremony c t nodes label notes seed rnd k cid now s = (Inl e, s') \<Longrightarrow> s' = s"
  unfolding runCeremony_def by (auto simp: Let_def split: sum.splits option.splits if_splits)

lemma rotateKey_Inr:
  assumes "rotateKey c k nodes t seed rnd now s = (Inr key', s')" and "js_get (mpc_keys s) k = Some key"
    and "mk_id key = k" and "no_colon k"
  defines "ns \<equiv> (case nodes of Some ns \<Rightarrow> ns | None \<Rightarrow> mk_nodes key)"
  shows "distinct ns \<Longrightarrow> key_custody c (mpc_hsm s') key' seed"
    and "key_dealt c (mpc_hsm s') key' seed" "mk_id key' = k" "mk_nodes key' = ns"
    and "mk_status key' = KeyActive" "mk_version key' = mk_version key + 1" "2 \<le> mk_threshold key'"
    and "hsm_frame k (mpc_hsm s) (mpc_hsm s')" "mpc_keys s' = js_set k key' (mpc_keys s)"
    and "mpc_sessions s' = mpc_sessions s" "mpc_registry s' = mpc_registry s"
proof -
  define tt where "tt = (case t of Some t \<Rightarrow> t | None \<Rightarrow> mk_threshold key)"
  from assms(1,2,3) obtain pk shares where *:
    "publicKeyFromSeed c seed = Inr pk"
    "split_secret seed tt (int (length ns)) rnd = Inr shares"
    "distributeShares k ns shares (delete_shares k (mk_nodes key) (mpc_hsm s)) = Inr (mpc_hsm s')"
    "mk_publicKey key' = to_hex pk" "mk_id key' = k" "mk_status key' = KeyActive"
    "mk_threshold key' = tt" "mk_nodes key' = ns" "mk_version key' = mk_version key + 1"
    "mpc_keys s' = js_set k key' (mpc_keys s)" "mpc_sessions s' = mpc_sessions s"
    "mpc_registry s' = mpc_registry s"
    unfolding rotateKey_def ns_def tt_def
    by (auto simp: Let_def getKeyOrThrow_def put_key_def
        split: sum.splits option.splits if_splits)
  then show "mk_id key' = k" "mk_nodes key' = ns" "mk_status key' = KeyActive"
    "mk_version key' = mk_version key + 1"
    "mpc_keys s' = js_set k key' (mpc_keys s)" "mpc_sessions s' = mpc_sessions s"
    "mpc_registry s' = mpc_registry s"
    by simp_all
  show "key_custody c (mpc_hsm s') key' seed" if "distinct ns"
    using * dealing_custody [OF *(2,3) that assms(4)] by (simp add: key_custody_def)
  show "key_dealt c (mpc_hsm s') key' seed"
    using * dealing_dealt [OF *(3) assms(4)] by (intro key_dealtI [OF *(2) [folded *(7)]]) auto
  show "hsm_frame k (mpc_hsm s) (mpc_hsm s')"
    using distributeShares_frame [OF *(3) assms(4)] delete_shares_frame [OF assms(4)]
      hsm_frame_trans by blast
  show "2 \<le> mk_threshold key'" using *(2,7) by (simp add: split_Inr)
qed

lemma rotateKey_Inl:
  "rotateKey c k nodes t seed rnd now s = (Inl e, s') \<Longrightarrow> s' = s"
  unfolding rotateKey_def
  by (auto simp: Let_def distributeShares_def split: sum.splits option.splits if_splits
      dest!: split_length)

lemma reshare_Inr:
  assumes "reshare key ns rnd now s = (Inr key', s')" and "no_colon (mk_id key)"
  shows "mk_id key' = mk_id key" "mk_nodes key' = ns" "mk_status key' = mk_status key"
    and "mk_publicKey key' = mk_publicKey key" "mk_threshold key' = mk_threshold key"
    and "mk_threshold key \<le> int (length (List.map_filter (hsm_get (mpc_hsm s) (mk_id key)) (mk_nodes key)))"
    and "hsm_frame (mk_id key) (mpc_hsm s) (mpc_hsm s')"
    and "mpc_keys s' = js_set (mk_id key) key' (mpc_keys s)"
    and "mpc_sessions s' = mpc_sessions s" "mpc_registry s' = mpc_registry s"
    and "key_dealt c (mpc_hsm s) key seed \<Longrightarrow> key_dealt c (mpc_hsm s') key' seed \<and>
      (distinct ns \<longrightarrow> key_custody c (mpc_hsm s') key' seed)"
proof -
  let ?old = "List.map_filter (hsm_get (mpc_hsm s) (mk_id key)) (mk_nodes key)"
  from assms(1) obtain sd0 shares where *:
    "mk_threshold key \<le> int (length ?old)" "reconstruct ?old = Inr sd0"
    "split_secret sd0 (mk_threshold key) (int (length ns)) rnd = Inr shares"
    "distributeShares (mk_id key) ns shares (delete_shares (mk_id key) (mk_nodes key) (mpc_hsm s))
      = Inr (mpc_hsm s')"
    "mk_id key' = mk_id key" "mk_nodes key' = ns" "mk_status key' = mk_status key"
    "mk_publicKey key' = mk_publicKey key" "mk_threshold key' = mk_threshold key"
    "mpc_keys s' = js_set (mk_id key) key' (mpc_keys s)" "mpc_sessions s' = mpc_sessions s"
    "mpc_registry s' = mpc_registry s"
    unfolding reshare_def
    by (auto simp: Let_def put_key_def collectAllShares_def split: sum.splits option.splits if_splits)
  then show "mk_id key' = mk_id key" "mk_nodes key' = ns" "mk_status key' = mk_status key"
    "mk_publicKey key' = mk_publicKey key" "mk_threshold key' = mk_threshold key"
    "mpc_keys s' = js_set (mk_id key) key' (mpc_keys s)" "mpc_sessions s' = mpc_sessions s"
    "mk_threshold key \<le> int (length ?old)" "mpc_registry s' = mpc_registry s"
    by simp_all
  show "key_dealt c (mpc_hsm s') key' seed \<and> (distinct ns \<longrightarrow> key_custody c (mpc_hsm s') key' seed)"
    if dealt: "key_dealt c (mpc_hsm s) key seed"
  proof -
    have seed: "sd0 = seed" using dealt_recover [OF dealt *(2) order_refl *(1)] .
    obtain pk where pk: "publicKeyFromSeed c seed = Inr pk" "mk_publicKey key' = to_hex pk"
      using dealt *(8) by (auto simp: key_dealt_def)
    have split: "split_secret seed (mk_threshold key') (int (length ns)) rnd = Inr shares"
      using *(3,9) seed by simp
    have "key_dealt c (mpc_hsm s') key' seed"
      by (rule key_dealtI [OF split _ pk]) (use * dealing_dealt [OF *(4) assms(2)] in simp)
    moreover have "key_custody c (mpc_hsm s') key' seed" if "distinct ns"
      using dealing_custody [OF *(3,4) that assms(2)] * seed pk by (simp add: key_custody_def)
    ultimately show ?thesis by blast
  qed
  show "hsm_frame (mk_id key) (mpc_hsm s) (mpc_hsm s')"
    using distributeShares_frame [OF *(4) assms(2)] delete_shares_frame [OF assms(2)]
      hsm_frame_trans by blast
qed

text \<open>A holder that is left out of the new dealing has no share any more.\<close>

lemma reshare_other_share:
  assumes "reshare key ns rnd now s = (Inr key', s')" and "no_colon (mk_id key)"
    and "n \<in> set (mk_nodes key)" and "n \<notin> set ns"
  shows "hsm_entry (mpc_hsm s') (mk_id key) n = None"
proof -
  from assms(1) obtain shares where "length ns = length shares"
    "mpc_hsm s' = fold (\<lambda>(n, sh). hsm_put (mk_id key) n sh) (zip ns shares)
      (delete_shares (mk_id key) (mk_nodes key) (mpc_hsm s))"
    unfolding reshare_def
    by (auto simp: Let_def put_key_def distributeShares_eq split: sum.splits if_splits)
  with assms(2-4) show ?thesis
    by (simp add: hsm.entry_put_all_other hsm.entry_del_all delete_shares_def set_map [symmetric]
        del: set_map)
qed

lemma reshare_Inl: "reshare key ns rnd now s = (Inl e, s') \<Longrightarrow> s' = s"
  unfolding reshare_def
  by (auto simp: Let_def distributeShares_def split: sum.splits option.splits if_splits
      dest!: split_length)

subsection \<open>Keys\<close>

text \<open>
  A revoked key has no share left in the store. The nodes of any other key hold shares of one
  dealing of its seed, all of it when the key names each node once.
\<close>

definition key_wf :: "crypto \<Rightarrow> InMemoryHsm \<Rightarrow> string \<Rightarrow> ManagedKey \<Rightarrow> bool" where
  "key_wf c h k key \<longleftrightarrow> mk_id key = k \<and> no_colon k \<and> 2 \<le> mk_threshold key \<and>
     (if mk_status key = KeyRevoked then \<forall>n. hsm_entry h k n = None
      else \<exists>seed. key_dealt c h key seed \<and> (distinct (mk_nodes key) \<longrightarrow> key_custody c h key seed))"

definition keys_wf :: "crypto \<Rightarrow> mpc \<Rightarrow> bool" where
  "keys_wf c s \<longleftrightarrow> js_all (key_wf c (mpc_hsm s)) (mpc_keys s)"

lemma key_custody_cong:
  assumes "key_custody c h key seed" and "\<And>n. hsm_entry h' (mk_id key) n = hsm_entry h (mk_id key) n"
  shows "key_custody c h' key seed"
  using assms hsm.custody_cong unfolding key_custody_def by blast

lemma key_dealt_cong:
  "key_dealt c h key seed \<Longrightarrow> (\<And>n. hsm_entry h' (mk_id key) n = hsm_entry h (mk_id key) n) \<Longrightarrow>
   key_dealt c h' key seed"
  unfolding key_dealt_def by simp

lemma key_wf_cong:
  assumes "key_wf c h k key" and "\<And>n. no_colon k \<Longrightarrow> hsm_entry h' k n = hsm_entry h k n"
  shows "key_wf c h' k key"
  using assms key_custody_cong [of c h key _ h'] key_dealt_cong [of c h key _ h']
  by (auto simp: key_wf_def split: if_splits)

lemma key_wf_dealt:
  "key_wf c h k key \<Longrightarrow> mk_status key \<noteq> KeyRevoked \<Longrightarrow> \<exists>seed. key_dealt c h key seed"
  by (auto simp: key_wf_def)

lemma key_wf_custody:
  "key_wf c h k key \<Longrightarrow> mk_status key \<noteq> KeyRevoked \<Longrightarrow> distinct (mk_nodes key) \<Longrightarrow>
   \<exists>seed. key_custody c h key seed"
  by (auto simp: key_wf_def)

lemma keys_wf_get: "keys_wf c s \<Longrightarrow> js_get (mpc_keys s) k = Some key \<Longrightarrow> key_wf c (mpc_hsm s) k key"
  unfolding keys_wf_def by (rule js.entries_get)

lemma keys_wf_update:
  assumes "keys_wf c s" and "key_wf c (mpc_hsm s') k key" and "hsm_frame k (mpc_hsm s) (mpc_hsm s')"
    and "mpc_keys s' = js_set k key (mpc_keys s)"
  shows "keys_wf c s'"
  unfolding keys_wf_def entries_sat_def assms(4)
proof (intro allI impI)
  fix k' key'
  assume "js_get (js_set k key (mpc_keys s)) k' = Some key'"
  then consider "k' = k" "key' = key" | "k' \<noteq> k" "js_get (mpc_keys s) k' = Some key'"
    by (auto split: if_splits)
  then show "key_wf c (mpc_hsm s') k' key'"
  proof cases
    case 1
    with assms(2) show ?thesis by simp
  next
    case 2
    with assms(3) show ?thesis
      by (intro key_wf_cong [OF keys_wf_get [OF assms(1) 2(2)]]) (simp add: hsm_frame_def)
  qed
qed

lemma keys_wf_cong:
  "keys_wf c s \<Longrightarrow> mpc_keys s' = mpc_keys s \<Longrightarrow> mpc_hsm s' = mpc_hsm s \<Longrightarrow> keys_wf c s'"
  by (simp add: keys_wf_def)

lemma revoked_cannot_sign:
  assumes "key_wf c h k key" and "mk_status key = KeyRevoked"
  shows "signWithShares c h key payload = Inl (SharesUnavailable 0 (mk_threshold key))"
proof -
  have "hsm_get h k n = None" for n
    using assms by (simp add: key_wf_def hsm.get_entry)
  then have "List.map_filter (hsm_get h k) ns = []" for ns
    by (induction ns) (simp_all add: List.map_filter_simps)
  with assms show ?thesis
    by (simp add: signWithShares_def collectShares_def collect_loop_eq key_wf_def Let_def)
qed

subsection \<open>The transition system\<close>

text \<open>
  \<open>mpc_calls c I P s\<close>: the process can be in state \<open>s\<close> after calls that were made one after the
  other, each awaited before the next begins. \<open>I\<close> holds the identity keys that were registered on
  the way, by node, and \<open>P\<close> the public keys that the managed keys had, by key id.

  With the in-memory backend this is how the HTTP routes run: every \<open>await\<close> inside a handler is on a
  promise that is already settled, so the handler runs to its end, in microtasks, before the next
  request is taken up. A caller inside the process that starts \<open>addMember\<close>, \<open>removeMember\<close> or
  \<open>contribute\<close> and makes other calls before it has settled is not covered, and neither is a backend
  that answers later; \<open>revoke_during_addMember\<close> shows what may go wrong then. Fresh ids come from
  \<open>newId\<close>: a prefix, a UUID and six hexadecimal digits, with no colon.
\<close>

definition mpc_init :: mpc where
  "mpc_init = \<lparr>mpc_keys = [], mpc_ceremonies = [], mpc_sessions = [], mpc_tracker = [],
     mpc_registry = [], mpc_hsm = hsm_empty\<rparr>"

definition key_history :: "mpc_error + ManagedKey \<Rightarrow> (string \<times> string) set" where
  "key_history r = (case r of Inl _ \<Rightarrow> {} | Inr key \<Rightarrow> {(mk_id key, mk_publicKey key)})"

inductive mpc_calls ::
  "crypto \<Rightarrow> (string \<times> byte list) set \<Rightarrow> (string \<times> string) set \<Rightarrow> mpc \<Rightarrow> bool" for c where
  run_init: "mpc_calls c {} {} mpc_init"
| run_register: "mpc_calls c I P s \<Longrightarrow>
    registerNode i key label now (mpc_registry s) = (Inr node, reg) \<Longrightarrow>
    mpc_calls c (insert (i, from_hex (node_identityPublicKey node)) I) P (s\<lparr>mpc_registry := reg\<rparr>)"
| run_unregister: "mpc_calls c I P s \<Longrightarrow>
    mpc_calls c I P (s\<lparr>mpc_registry := snd (unregisterNode i (mpc_registry s))\<rparr>)"
| run_setNodeStatus: "mpc_calls c I P s \<Longrightarrow>
    mpc_calls c I P (s\<lparr>mpc_registry := snd (setNodeStatus i st now (mpc_registry s))\<rparr>)"
| run_heartbeat: "mpc_calls c I P s \<Longrightarrow>
    mpc_calls c I P (s\<lparr>mpc_registry := snd (heartbeat i now (mpc_registry s))\<rparr>)"
| run_available: "mpc_calls c I P s \<Longrightarrow>
    mpc_calls c I P (s\<lparr>mpc_hsm := hsm_setNodeAvailable n b (mpc_hsm s)\<rparr>)"
| run_ceremony: "mpc_calls c I P s \<Longrightarrow> no_colon k \<Longrightarrow> js_get (mpc_keys s) k = None \<Longrightarrow>
    runCeremony c t nodes label notes seed rnd k cid now s = (r, s') \<Longrightarrow>
    mpc_calls c I (key_history (map_sum id fst r) \<union> P) s'"
| run_start: "mpc_calls c I P s \<Longrightarrow> js_get (mpc_sessions s) sid = None \<Longrightarrow>
    startSigningSession c k payload req timeout sid now s = (r1, s') \<Longrightarrow> mpc_calls c I P s'"
| run_contribute: "mpc_calls c I P s \<Longrightarrow> contribute c sid nid sig now s = (r2, s') \<Longrightarrow> mpc_calls c I P s'"
| run_getSession: "mpc_calls c I P s \<Longrightarrow> getSigningSession sid now s = (r3, s') \<Longrightarrow> mpc_calls c I P s'"
| run_rotate: "mpc_calls c I P s \<Longrightarrow>
    rotateKey c k nodes' t' seed rnd now s = (r4, s') \<Longrightarrow>
    mpc_calls c I (key_history r4 \<union> P) s'"
| run_add: "mpc_calls c I P s \<Longrightarrow> addMember k nid rnd now s = (r4, s') \<Longrightarrow> mpc_calls c I P s'"
| run_remove: "mpc_calls c I P s \<Longrightarrow> removeMember k nid rnd now s = (r4, s') \<Longrightarrow> mpc_calls c I P s'"
| run_revoke: "mpc_calls c I P s \<Longrightarrow> revokeKey k s = (r5, s') \<Longrightarrow> mpc_calls c I P s'"
| run_reset: "mpc_calls c I P s \<Longrightarrow> mpc_calls c I P (mpc_reset s)"

subsection \<open>Sessions\<close>

definition approval_wf ::
  "crypto \<Rightarrow> (string \<times> byte list) set \<Rightarrow> SigningSession \<Rightarrow> Contribution \<Rightarrow> bool" where
  "approval_wf c I session x \<longleftrightarrow> con_nodeId x \<in> set (ses_quorum session) \<and>
     (\<exists>pk. (con_nodeId x, pk) \<in> I \<and>
        ed_verify c pk (messageDigest c (ses_id session) (from_hex (ses_payloadHex session)))
          (from_hex (con_approvalSignature x)) = Inr True)"

definition signature_wf :: "crypto \<Rightarrow> (string \<times> string) set \<Rightarrow> SigningSession \<Rightarrow> bool" where
  "signature_wf c P session \<longleftrightarrow> 2 \<le> length (ses_contributions session) \<and>
     (\<exists>pk sig. (ses_keyId session, to_hex pk) \<in> P \<and> ses_signatureHex session = Some (to_hex sig) \<and>
        ed_verify c pk (from_hex (ses_payloadHex session)) sig = Inr True)"

definition session_wf ::
  "crypto \<Rightarrow> (string \<times> byte list) set \<Rightarrow> (string \<times> string) set \<Rightarrow> string \<Rightarrow> SigningSession \<Rightarrow> bool" where
  "session_wf c I P k session \<longleftrightarrow> ses_id session = k \<and>
     distinct (map con_nodeId (ses_contributions session)) \<and>
     (\<forall>x\<in>set (ses_contributions session). approval_wf c I session x) \<and>
     (ses_status session = SesSigned \<longrightarrow> signature_wf c P session)"

lemma session_wf_mono:
  "session_wf c I P k session \<Longrightarrow> I \<subseteq> I' \<Longrightarrow> P \<subseteq> P' \<Longrightarrow> session_wf c I' P' k session"
  unfolding session_wf_def approval_wf_def signature_wf_def by blast

lemma session_wf_status:
  assumes "session_wf c I P k session" and "st \<noteq> SesSigned"
  shows "session_wf c I P k (session\<lparr>ses_status := st, ses_failureReason := r\<rparr>)"
  using assms by (auto simp: session_wf_def approval_wf_def)

lemma session_wf_maybeExpire: "session_wf c I P k session \<Longrightarrow> session_wf c I P k (maybeExpire now session)"
  by (simp add: maybeExpire_def session_wf_status)

lemma session_wf_add:
  assumes "session_wf c I P k session" and "ses_status session = SesPending"
    and "n \<in> set (ses_quorum session)" and "(n, pk) \<in> I"
    and "ed_verify c pk (messageDigest c (ses_id session) (from_hex (ses_payloadHex session)))
      (from_hex sig) = Inr True"
  shows "session_wf c I P k (add_contribution n sig now session)"
  using assms by (auto simp: session_wf_def approval_wf_def add_contribution_def)

lemma add_contribution_fields [simp]:
  "ses_id (add_contribution n sig now session) = ses_id session"
  "ses_keyId (add_contribution n sig now session) = ses_keyId session"
  "ses_status (add_contribution n sig now session) = ses_status session"
  "ses_payloadHex (add_contribution n sig now session) = ses_payloadHex session"
  "ses_quorum (add_contribution n sig now session) = ses_quorum session"
  "n \<in> con_nodeId ` set (ses_contributions (add_contribution n sig now session))"
  by (auto simp: add_contribution_def)

lemma maybeExpire_fields [simp]:
  "ses_id (maybeExpire now session) = ses_id session"
  "ses_keyId (maybeExpire now session) = ses_keyId session"
  "ses_payloadHex (maybeExpire now session) = ses_payloadHex session"
  "ses_quorum (maybeExpire now session) = ses_quorum session"
  "ses_contributions (maybeExpire now session) = ses_contributions session"
  by (simp_all add: maybeExpire_def)

lemma put_session_fields [simp]:
  "mpc_keys (put_session session s) = mpc_keys s" "mpc_hsm (put_session session s) = mpc_hsm s"
  "mpc_registry (put_session session s) = mpc_registry s"
  "mpc_sessions (put_session session s) = js_set (ses_id session) session (mpc_sessions s)"
  by (simp_all add: put_session_def)

subsection \<open>The invariant\<close>

definition node_known :: "(string \<times> byte list) set \<Rightarrow> string \<Rightarrow> MpcNode \<Rightarrow> bool" where
  "node_known I i node \<longleftrightarrow> node_id node = i \<and> (i, from_hex (node_identityPublicKey node)) \<in> I"

definition key_known :: "(string \<times> string) set \<Rightarrow> string \<Rightarrow> ManagedKey \<Rightarrow> bool" where
  "key_known P k key \<longleftrightarrow> (k, mk_publicKey key) \<in> P"

definition mpc_inv :: "crypto \<Rightarrow> (string \<times> byte list) set \<Rightarrow> (string \<times> string) set \<Rightarrow> mpc \<Rightarrow> bool" where
  "mpc_inv c I P s \<longleftrightarrow> keys_wf c s \<and> js_all (key_known P) (mpc_keys s) \<and>
     js_all (node_known I) (mpc_registry s) \<and> js_all (session_wf c I P) (mpc_sessions s)"

lemma mpc_inv_mono: "mpc_inv c I P s \<Longrightarrow> I \<subseteq> I' \<Longrightarrow> P \<subseteq> P' \<Longrightarrow> mpc_inv c I' P' s"
  unfolding mpc_inv_def key_known_def node_known_def entries_sat_def
  by (blast intro: session_wf_mono)

lemma mpc_inv_put_session:
  "mpc_inv c I P s \<Longrightarrow> session_wf c I P (ses_id session) session \<Longrightarrow> mpc_inv c I P (put_session session s)"
  by (auto simp: mpc_inv_def keys_wf_def intro: js.entries_put)

lemma mpc_inv_tracker: "mpc_inv c I P s \<Longrightarrow> mpc_inv c I P (s\<lparr>mpc_tracker := tr\<rparr>)"
  by (simp add: mpc_inv_def keys_wf_def)

lemma mpc_inv_registry:
  "mpc_inv c I P s \<Longrightarrow> js_all (node_known I) reg \<Longrightarrow> mpc_inv c I P (s\<lparr>mpc_registry := reg\<rparr>)"
  by (simp add: mpc_inv_def keys_wf_def)

lemma mpc_inv_session: "mpc_inv c I P s \<Longrightarrow> js_get (mpc_sessions s) i = Some x \<Longrightarrow> session_wf c I P i x"
  unfolding mpc_inv_def by (blast dest: js.entries_get)

lemma mpc_inv_key:
  "mpc_inv c I P s \<Longrightarrow> js_get (mpc_keys s) i = Some key \<Longrightarrow>
   key_wf c (mpc_hsm s) i key \<and> (i, mk_publicKey key) \<in> P"
  unfolding mpc_inv_def by (auto dest: keys_wf_get js.entries_get simp: key_known_def)

lemma mpc_inv_node:
  "mpc_inv c I P s \<Longrightarrow> getNode (mpc_registry s) i = Some node \<Longrightarrow>
   node_id node = i \<and> (i, from_hex (node_identityPublicKey node)) \<in> I"
  unfolding mpc_inv_def getNode_def by (auto dest: js.entries_get simp: node_known_def)

text \<open>A key update: the store changes only at the key, the sessions and nodes not at all.\<close>

lemma mpc_inv_update_key:
  assumes "mpc_inv c I P s" and "key_wf c (mpc_hsm s') k key" and "(k, mk_publicKey key) \<in> P"
    and "hsm_frame k (mpc_hsm s) (mpc_hsm s')" and "mpc_keys s' = js_set k key (mpc_keys s)"
    and "mpc_sessions s' = mpc_sessions s" and "mpc_registry s' = mpc_registry s"
  shows "mpc_inv c I P s'"
  using assms keys_wf_update [OF _ assms(2,4,5)]
  by (auto simp: mpc_inv_def key_known_def intro!: js.entries_put)

subsection \<open>The invariant under signing\<close>

lemma finaliseSession_Inr:
  assumes "ed25519_sound c" and "key_wf c h k key" and "finaliseSession c h session key = Inr session'"
  shows "\<exists>pk sig. mk_publicKey key = to_hex pk \<and>
    session' = session\<lparr>ses_signatureHex := Some (to_hex sig), ses_status := SesSigned\<rparr> \<and>
    ed_verify c pk (from_hex (ses_payloadHex session)) sig = Inr True \<and> mk_status key \<noteq> KeyRevoked"
proof -
  let ?m = "from_hex (ses_payloadHex session)"
  obtain sig where sig: "signWithShares c h key ?m = Inr sig"
    and s': "session' = session\<lparr>ses_signatureHex := Some (to_hex sig), ses_status := SesSigned\<rparr>"
    using assms(3) by (auto simp: finaliseSession_def split: sum.splits)
  have act: "mk_status key \<noteq> KeyRevoked"
    using revoked_cannot_sign [OF assms(2), of ?m] sig by auto
  then obtain seed where dealt: "key_dealt c h key seed"
    using key_wf_dealt [OF assms(2)] by blast
  then obtain pk where pk: "publicKeyFromSeed c seed = Inr pk" "mk_publicKey key = to_hex pk"
    by (auto simp: key_dealt_def)
  from signWithShares_dealt [OF dealt sig] have "ed_sign c seed ?m = Inr sig" .
  with publicKey_verifies [OF assms(1) pk(1)] pk(2) s' act show ?thesis by blast
qed

lemma contribute_accepted_inv:
  assumes "ed25519_sound c" and inv: "mpc_inv c I P s"
    and wf: "session_wf c I P (ses_id session) session" and pend: "ses_status session = SesPending"
  shows "mpc_inv c I P (snd (contribute_accepted c now session s))"
proof (cases "getKeyOrThrow s (ses_keyId session)")
  case (Inl e)
  with inv wf show ?thesis by (simp add: contribute_accepted_def mpc_inv_put_session)
next
  case (Inr key)
  then have "js_get (mpc_keys s) (ses_keyId session) = Some key"
    by (simp add: getKeyOrThrow_def split: option.splits)
  from mpc_inv_key [OF inv this] have key: "key_wf c (mpc_hsm s) (ses_keyId session) key"
    and P: "(ses_keyId session, mk_publicKey key) \<in> P" by auto
  consider "\<not> mk_threshold key \<le> int (length (ses_contributions session))"
    | e where "mk_threshold key \<le> int (length (ses_contributions session))"
        "finaliseSession c (mpc_hsm s) session key = Inl e"
    | x where "mk_threshold key \<le> int (length (ses_contributions session))"
        "finaliseSession c (mpc_hsm s) session key = Inr x"
    by (cases "finaliseSession c (mpc_hsm s) session key") auto
  then show ?thesis
  proof cases
    case 1
    with inv wf Inr show ?thesis
      by (simp add: contribute_accepted_def mpc_inv_put_session session_wf_maybeExpire)
  next
    case 2
    with inv wf Inr pend show ?thesis
      by (simp add: contribute_accepted_def mpc_inv_put_session session_wf_status)
  next
    case 3
    obtain pk sig where *: "mk_publicKey key = to_hex pk"
      "x = session\<lparr>ses_signatureHex := Some (to_hex sig), ses_status := SesSigned\<rparr>"
      "ed_verify c pk (from_hex (ses_payloadHex session)) sig = Inr True"
      using finaliseSession_Inr [OF assms(1) key 3(2)] by blast
    have "2 \<le> length (ses_contributions session)"
      using 3(1) key by (simp add: key_wf_def)
    with * P wf have "session_wf c I P (ses_id session) x"
      by (auto simp: session_wf_def signature_wf_def approval_wf_def)
    with 3 inv Inr pend *(2) show ?thesis
      by (simp add: contribute_accepted_def mpc_inv_put_session session_wf_maybeExpire)
  qed
qed

lemma contribute_inv:
  assumes "ed25519_sound c" and inv: "mpc_inv c I P s"
  shows "mpc_inv c I P (snd (contribute c sid nid sig now s))"
proof (cases "js_get (mpc_sessions s) sid")
  case None
  with inv show ?thesis by (simp add: contribute_def getSessionOrThrow_def)
next
  case (Some session0)
  define session where "session = maybeExpire now session0"
  have wf: "session_wf c I P sid session"
    unfolding session_def by (rule session_wf_maybeExpire) (rule mpc_inv_session [OF inv Some])
  then have id: "ses_id session = sid" by (simp add: session_wf_def)
  have inv1: "mpc_inv c I P (put_session session s)"
    using inv wf id by (simp add: mpc_inv_put_session)
  show ?thesis
  proof (cases "ses_status session = SesPending \<and> nid \<in> set (ses_quorum session)")
    case False
    with Some inv1 show ?thesis
      by (auto simp: contribute_def getSessionOrThrow_def session_def [symmetric] Let_def)
  next
    case pend: True
    show ?thesis
    proof (cases "getNode (mpc_registry s) nid")
      case None
      with Some inv1 pend show ?thesis
        by (simp add: contribute_def getSessionOrThrow_def session_def [symmetric] Let_def)
    next
      case node: (Some node)
      define digest where "digest = messageDigest c sid (from_hex (ses_payloadHex session))"
      obtain r tr where rec: "recordApproval c sid (node_id node) (from_hex (node_identityPublicKey node))
          digest sig (mpc_tracker s) = (r, tr)" by fastforce
      define s1 where "s1 = (put_session session s)\<lparr>mpc_tracker := tr\<rparr>"
      have inv2: "mpc_inv c I P s1" unfolding s1_def by (rule mpc_inv_tracker [OF inv1])
      have tr: "mpc_tracker (put_session session s) = mpc_tracker s"
        by (simp add: put_session_def)
      have eq: "contribute c sid nid sig now s = (case r of
          Inl e \<Rightarrow> (Inl (EdError e), s1)
        | Inr BadSignature \<Rightarrow> (Inl (InvalidApproval nid),
            put_session (session\<lparr>ses_status := SesRejected, ses_failureReason := Some FailBadSignature\<rparr>) s1)
        | Inr Equivocation \<Rightarrow> (Inl (Equivocated nid sid),
            put_session (session\<lparr>ses_status := SesRejected, ses_failureReason := Some FailEquivocation\<rparr>) s1)
        | Inr ApprovalOk \<Rightarrow> contribute_accepted c now (add_contribution nid sig now session) s1)"
        using Some pend node id rec tr
        by (auto simp: contribute_def getSessionOrThrow_def session_def [symmetric] Let_def
            digest_def s1_def split: sum.splits approval.splits)
      have rej: "mpc_inv c I P (put_session (session\<lparr>ses_status := SesRejected, ses_failureReason := f\<rparr>) s1)"
        for f using inv2 wf id by (simp add: mpc_inv_put_session session_wf_status)
      have "mpc_inv c I P (snd (contribute_accepted c now (add_contribution nid sig now session) s1))"
        if "r = Inr ApprovalOk"
      proof (rule contribute_accepted_inv [OF assms(1) inv2])
        have "ed_verify c (from_hex (node_identityPublicKey node)) digest (from_hex sig) = Inr True"
          using recordApproval_ok(1) [OF rec [unfolded that]] .
        then show "session_wf c I P (ses_id (add_contribution nid sig now session))
            (add_contribution nid sig now session)"
          using wf pend id mpc_inv_node [OF inv node]
          by (auto simp: digest_def intro!: session_wf_add)
      qed (use pend in simp)
      with inv2 rej show ?thesis unfolding eq
        by (auto split: sum.splits approval.splits)
    qed
  qed
qed

subsection \<open>The invariant under the other handlers\<close>

lemma startSigningSession_inv:
  assumes "mpc_inv c I P s"
  shows "mpc_inv c I P (snd (startSigningSession c k payload req timeout sid now s))"
  using assms unfolding mpc_inv_def
  by (auto simp: startSigningSession_def Let_def keys_wf_def session_wf_def split: sum.splits
      intro!: js.entries_put)

lemma getSigningSession_inv:
  assumes "mpc_inv c I P s"
  shows "mpc_inv c I P (snd (getSigningSession sid now s))"
proof (cases "js_get (mpc_sessions s) sid")
  case (Some session)
  have "session_wf c I P sid (maybeExpire now session)"
    by (rule session_wf_maybeExpire) (rule mpc_inv_session [OF assms Some])
  then have "session_wf c I P (ses_id (maybeExpire now session)) (maybeExpire now session)"
    by (simp add: session_wf_def)
  with assms Some show ?thesis by (simp add: getSigningSession_def mpc_inv_put_session)
qed (use assms in \<open>simp add: getSigningSession_def\<close>)

lemma custody_distinct: "key_custody c h key seed \<Longrightarrow> distinct (mk_nodes key)"
  by (auto simp: key_custody_def in_custody_def)

lemma key_custody_threshold:
  "key_custody c h key seed \<Longrightarrow> mk_threshold key \<le> int (length (mk_nodes key))"
  by (auto simp: key_custody_def in_custody_def split_Inr)

lemma custody_not_revoked:
  "key_custody c h key seed \<Longrightarrow> mk_id key = k \<Longrightarrow> no_colon k \<Longrightarrow> 2 \<le> mk_threshold key \<Longrightarrow>
   mk_status key \<noteq> KeyRevoked \<Longrightarrow> key_wf c h k key"
  using custody_dealt [of c h key seed] by (auto simp: key_wf_def)

lemma runCeremony_inv:
  assumes inv: "mpc_inv c I P s" and "no_colon k"
    and eq: "runCeremony c t nodes label notes seed rnd k cid now s = (r, s')"
  shows "mpc_inv c I (key_history (map_sum id fst r) \<union> P) s'"
proof (cases r)
  case (Inl e)
  with eq runCeremony_Inl inv show ?thesis by (fastforce simp: key_history_def)
next
  case (Inr kc)
  obtain key cer where kc: "kc = (key, cer)" by (cases kc)
  note * = runCeremony_Inr [OF eq [unfolded Inr kc] assms(2)]
  have "mpc_inv c I (key_history (map_sum id fst r) \<union> P) s"
    by (rule mpc_inv_mono [OF inv]) auto
  then show ?thesis
  proof (rule mpc_inv_update_key)
    show "key_wf c (mpc_hsm s') k key"
      using *(1-4,6) assms(2) by (intro custody_not_revoked) auto
  qed (use * Inr kc in \<open>auto simp: key_history_def\<close>)
qed

lemma rotateKey_inv:
  assumes inv: "mpc_inv c I P s"
    and eq: "rotateKey c k nodes' t seed rnd now s = (r, s')"
  shows "mpc_inv c I (key_history r \<union> P) s'"
proof (cases r)
  case (Inl e)
  with eq rotateKey_Inl inv show ?thesis by (fastforce simp: key_history_def)
next
  case (Inr key')
  obtain key where key: "js_get (mpc_keys s) k = Some key"
    using eq Inr by (auto simp: rotateKey_def getKeyOrThrow_def split: option.splits)
  have wf: "key_wf c (mpc_hsm s) k key" using mpc_inv_key [OF inv key] by simp
  then have id: "mk_id key = k" "no_colon k" by (auto simp: key_wf_def)
  note * = rotateKey_Inr [OF eq [unfolded Inr] key id]
  have "mpc_inv c I (key_history r \<union> P) s"
    by (rule mpc_inv_mono [OF inv]) auto
  then show ?thesis
  proof (rule mpc_inv_update_key)
    show "key_wf c (mpc_hsm s') k key'"
      using *(1-3,4,5,7) id by (auto simp: key_wf_def)
  qed (use * Inr in \<open>auto simp: key_history_def\<close>)
qed

lemma reshare_inv:
  assumes inv: "mpc_inv c I P s" and key: "js_get (mpc_keys s) k = Some key"
    and eq: "reshare key ns rnd now s = (r, s')"
  shows "mpc_inv c I P s'"
proof (cases r)
  case (Inl e)
  with eq reshare_Inl inv show ?thesis by blast
next
  case (Inr key')
  have wf: "key_wf c (mpc_hsm s) k key" and P: "(k, mk_publicKey key) \<in> P"
    using mpc_inv_key [OF inv key] by auto
  then have id: "mk_id key = k" "no_colon (mk_id key)" by (auto simp: key_wf_def)
  note * = reshare_Inr [OF eq [unfolded Inr] id(2)]
  have act: "mk_status key \<noteq> KeyRevoked"
  proof
    assume "mk_status key = KeyRevoked"
    then have "hsm_get (mpc_hsm s) k n = None" for n
      using wf by (simp add: key_wf_def hsm.get_entry)
    then have "List.map_filter (hsm_get (mpc_hsm s) k) xs = []" for xs
      by (induction xs) (simp_all add: List.map_filter_simps)
    with *(6) wf id show False by (simp add: key_wf_def)
  qed
  then obtain seed where "key_dealt c (mpc_hsm s) key seed"
    using key_wf_dealt [OF wf] by blast
  note new = *(11) [OF this]
  from inv show ?thesis
  proof (rule mpc_inv_update_key)
    show "key_wf c (mpc_hsm s') k key'"
      using new *(1-3,5) id wf act by (auto simp: key_wf_def)
  qed (use * P id in auto)
qed

lemma addMember_inv:
  assumes inv: "mpc_inv c I P s" and eq: "addMember k nid rnd now s = (r, s')"
  shows "mpc_inv c I P s'"
  using inv eq
  by (auto simp: addMember_def getKeyOrThrow_def split: if_splits option.splits
      elim!: reshare_inv [OF inv])

lemma removeMember_inv:
  assumes inv: "mpc_inv c I P s" and eq: "removeMember k nid rnd now s = (r, s')"
  shows "mpc_inv c I P s'"
  using inv eq
  by (auto simp: removeMember_def getKeyOrThrow_def Let_def split: if_splits option.splits
      elim!: reshare_inv [OF inv])

lemma revokeKey_inv:
  assumes inv: "mpc_inv c I P s" and eq: "revokeKey k s = (r, s')"
  shows "mpc_inv c I P s'"
proof (cases "js_get (mpc_keys s) k")
  case (Some key)
  have wf: "key_wf c (mpc_hsm s) k key" and P: "(k, mk_publicKey key) \<in> P"
    using mpc_inv_key [OF inv Some] by auto
  then have k: "no_colon k" by (simp add: key_wf_def)
  have s': "s' = s\<lparr>mpc_keys := js_set k (key\<lparr>mk_status := KeyRevoked\<rparr>) (mpc_keys s),
      mpc_hsm := hsm_deleteKey k (mpc_hsm s)\<rparr>"
    using eq Some by (simp add: revokeKey_def Let_def)
  from inv show ?thesis
  proof (rule mpc_inv_update_key)
    show "key_wf c (mpc_hsm s') k (key\<lparr>mk_status := KeyRevoked\<rparr>)"
      using wf k s' by (simp add: key_wf_def hsm.entry_del_key)
  qed (use P s' deleteKey_frame [OF k] in auto)
qed (use inv eq in \<open>auto simp: revokeKey_def\<close>)

lemma setNodeAvailable_inv:
  "mpc_inv c I P s \<Longrightarrow> mpc_inv c I P (s\<lparr>mpc_hsm := hsm_setNodeAvailable n b (mpc_hsm s)\<rparr>)"
  unfolding mpc_inv_def keys_wf_def
  by (auto elim!: js.entries_mono key_wf_cong simp: hsm_setNodeAvailable_def hsm_entry_def)

lemmas registry_ops = registerNode_def unregisterNode_def setNodeStatus_def heartbeat_def

lemma registry_known:
  assumes "js_all (node_known I) reg"
  shows "registerNode i key label now reg = (Inr node, reg') \<Longrightarrow>
      js_all (node_known (insert (i, from_hex (node_identityPublicKey node)) I)) reg'"
    and "js_all (node_known I) (snd (unregisterNode i reg))"
    and "js_all (node_known I) (snd (setNodeStatus i st now reg))"
    and "js_all (node_known I) (snd (heartbeat i now reg))"
  using assms js.entries_get [OF assms, of i]
  by (auto simp: registry_ops node_known_def Let_def split: if_splits option.splits
      intro!: js.entries_put js.entries_del elim!: js.entries_mono)

lemma registry_ops_inv:
  assumes "mpc_inv c I P s"
  shows "mpc_inv c I P (s\<lparr>mpc_registry := snd (unregisterNode i (mpc_registry s))\<rparr>)"
    and "mpc_inv c I P (s\<lparr>mpc_registry := snd (setNodeStatus i st now (mpc_registry s))\<rparr>)"
    and "mpc_inv c I P (s\<lparr>mpc_registry := snd (heartbeat i now (mpc_registry s))\<rparr>)"
  using assms by (auto intro!: mpc_inv_registry registry_known(2-4) simp: mpc_inv_def keys_wf_def)

theorem mpc_calls_inv:
  assumes "mpc_calls c I P s" and "ed25519_sound c"
  shows "mpc_inv c I P s"
  using assms(1)
proof induction
  case run_init
  show ?case by (simp add: mpc_inv_def mpc_init_def keys_wf_def js.entries_empty)
next
  case (run_register I P s i key label now node reg)
  have "mpc_inv c (insert (i, from_hex (node_identityPublicKey node)) I) P s"
    by (rule mpc_inv_mono [OF run_register.IH]) auto
  then show ?case
    by (rule mpc_inv_registry)
      (rule registry_known(1) [OF _ run_register.hyps(2)], use run_register.IH in \<open>simp add: mpc_inv_def\<close>)
next
  case (run_contribute I P s sid nid sig now r s')
  then show ?case using contribute_inv [OF assms(2), of I P s sid nid sig now] by simp
next
  case (run_start I P s sid k payload req timeout now r s')
  then show ?case using startSigningSession_inv [of c I P s k payload req timeout sid now] by simp
next
  case (run_getSession I P s sid now r s')
  then show ?case using getSigningSession_inv [of c I P s sid now] by simp
next
  case (run_reset I P s)
  then show ?case by (simp add: mpc_inv_def mpc_reset_def keys_wf_def js.entries_empty)
qed (auto intro: runCeremony_inv rotateKey_inv addMember_inv removeMember_inv revokeKey_inv
    setNodeAvailable_inv registry_ops_inv)

end
