(* ===== verification/MpcProps.thy ===== *)
theory MpcProps
  imports MpcSafety
begin

text \<open>
  The properties of the threshold-signing service of \<open>backend/src/services/mpc\<close>, over the
  reachable states of \<open>MpcSafety\<close>, and a run of it with three nodes and a 2-of-3 key on which
  the properties are instantiated.
\<close>

subsection \<open>A run\<close>

definition demo_node :: "string \<Rightarrow> MpcNode" where
  "demo_node i = \<lparr>node_id = i, node_label = None, node_status = Active, node_registeredAt = 0,
     node_lastSeenAt = 0, node_identityPublicKey = to_hex (replicate 32 0)\<rparr>"

definition demo_nodes :: "string list" where "demo_nodes = [''n1'', ''n2'', ''n3'']"

definition demo_registry :: registry where
  "demo_registry = map (\<lambda>i. (i, demo_node i)) demo_nodes"

definition demo_ids :: "(string \<times> byte list) set" where
  "demo_ids = (\<lambda>i. (i, replicate 32 0)) ` set demo_nodes"

lemma demo_sound: "ed25519_sound demo_crypto"
  by (auto simp: ed25519_sound_def publicKeyFromSeed_def privateKeyFromSeed_def ed_sign_def
      ed_verify_def publicKeyFromBytes_def demo_crypto_def Let_def SEED_BYTES_def
      PUBLIC_KEY_BYTES_def SIGNATURE_BYTES_def split: if_splits)

lemma demo_register:
  "i \<noteq> [] \<Longrightarrow> js_trim i \<noteq> [] \<Longrightarrow> js_get reg i = None \<Longrightarrow>
   registerNode i (to_hex (replicate 32 0)) None 0 reg = (Inr (demo_node i), js_set i (demo_node i) reg)"
  by (simp add: registerNode_def demo_node_def Let_def)

lemma demo_trim: "js_trim ''n1'' \<noteq> []" "js_trim ''n2'' \<noteq> []" "js_trim ''n3'' \<noteq> []"
  by code_simp+

lemma demo_run_nodes:
  "mpc_calls demo_crypto demo_ids {} (mpc_init\<lparr>mpc_registry := demo_registry\<rparr>)"
proof -
  have reg: "registerNode i (to_hex (replicate 32 0)) None 0 reg = (Inr (demo_node i), js_set i (demo_node i) reg)"
    if "i \<in> set demo_nodes" "js_get reg i = None" for i reg
    using that demo_trim by (intro demo_register) (auto simp: demo_nodes_def)
  note step = run_register [OF _ reg]
  have "mpc_calls demo_crypto
      (insert (''n3'', replicate 32 0) (insert (''n2'', replicate 32 0) (insert (''n1'', replicate 32 0) {}))) {}
      (mpc_init\<lparr>mpc_registry := [(''n1'', demo_node ''n1'')]\<rparr>
        \<lparr>mpc_registry := [(''n1'', demo_node ''n1''), (''n2'', demo_node ''n2'')]\<rparr>
        \<lparr>mpc_registry := demo_registry\<rparr>)"
    using step [OF step [OF step [OF run_init [of demo_crypto], of "''n1''"], of "''n2''"], of "''n3''"]
    by (simp add: mpc_init_def demo_nodes_def demo_registry_def demo_node_def)
  then show ?thesis
    by (simp add: demo_ids_def demo_nodes_def insert_commute)
qed

subsection \<open>Creating a key\<close>

lemma assertAllNodesActive_None:
  "assertAllNodesActive reg ids = None \<longleftrightarrow>
   (\<forall>i\<in>set ids. \<exists>node. getNode reg i = Some node \<and> node_status node = Active)"
  by (induction ids) (auto split: option.splits)

lemma runCeremony_total:
  assumes "2 \<le> t" "t \<le> int (length nodes)" "length nodes \<le> 254" "distinct nodes"
    and "length seed = SEED_BYTES"
    and "\<forall>i\<in>set nodes. \<exists>node. getNode (mpc_registry s) i = Some node \<and> node_status node = Active"
  shows "\<exists>key cer s'. runCeremony c t nodes label notes seed rnd k cid now s = (Inr (key, cer), s')"
proof -
  obtain env where env: "assertByzantineCompatible t (int (length nodes)) = Inr env"
    using assms(1,2) by (cases "assertByzantineCompatible t (int (length nodes))")
      (auto simp: assertByzantineCompatible_Inl)
  have "seed \<noteq> []" using assms(5) by (auto simp: SEED_BYTES_def)
  then obtain shares where sh: "split_secret seed t (int (length nodes)) rnd = Inr shares"
    using assms(1-3) by (force simp: split_Inr)
  then have "length shares = length nodes" by (auto dest: split_length)
  then obtain h where "distributeShares k nodes shares (mpc_hsm s) = Inr h"
    by (simp add: distributeShares_def)
  moreover obtain pk where "publicKeyFromSeed c seed = Inr pk"
    using assms(5) by (simp add: publicKeyFromSeed_def privateKeyFromSeed_def Let_def)
  ultimately show ?thesis
    using env sh assms(4,6) assertAllNodesActive_None [of "mpc_registry s" nodes]
    by (simp add: runCeremony_def distinct_card Let_def)
qed

text \<open>
  C15: a ceremony whose threshold is between two and the number of nodes, for at most 254 distinct
  active nodes, succeeds whatever the random source draws, and the key it stores is usable at
  once: any payload is signed, and the signature verifies under the key's public half, as long as
  a threshold of its nodes can be reached.
\<close>

theorem ceremony_creates_usable_key:
  assumes "ed25519_sound c" and "no_colon k" and "length seed = SEED_BYTES"
    and "2 \<le> t" "t \<le> int (length nodes)" "length nodes \<le> 254" "distinct nodes"
    and "\<forall>i\<in>set nodes. \<exists>node. getNode (mpc_registry s) i = Some node \<and> node_status node = Active"
  shows "\<exists>key cer s' pk. runCeremony c t nodes label notes seed rnd k cid now s = (Inr (key, cer), s') \<and>
    js_get (mpc_keys s') k = Some key \<and> mk_publicKey key = to_hex pk \<and>
    (t \<le> int (length (filter (hsm_isAvailable (mpc_hsm s')) nodes)) \<longrightarrow>
      (\<exists>sig. signWithShares c (mpc_hsm s') key payload = Inr sig \<and>
        ed_verify c pk payload sig = Inr True))"
proof -
  obtain key cer s' where run: "runCeremony c t nodes label notes seed rnd k cid now s = (Inr (key, cer), s')"
    using runCeremony_total [OF assms(4-7,3,8)] by blast
  note * = runCeremony_Inr [OF run assms(2)]
  obtain pk where pk: "publicKeyFromSeed c seed = Inr pk" "mk_publicKey key = to_hex pk"
    using *(1) by (auto simp: key_custody_def)
  have "\<exists>sig. signWithShares c (mpc_hsm s') key payload = Inr sig \<and> ed_verify c pk payload sig = Inr True"
    if "t \<le> int (length (filter (hsm_isAvailable (mpc_hsm s')) nodes))"
    using signWithShares_custody [OF *(1), of payload] that *(4,5) publicKey_verifies [OF assms(1) pk(1)]
    by (auto split: sum.splits)
  with run pk *(8) show ?thesis by auto
qed

definition demo_state :: mpc where
  "demo_state = snd (runCeremony demo_crypto 2 demo_nodes None None (replicate 32 1) demo_rnd
     ''k1'' ''c1'' 0 (mpc_init\<lparr>mpc_registry := demo_registry\<rparr>))"

lemma demo_nodes_active:
  "\<forall>i\<in>set demo_nodes. \<exists>node. getNode demo_registry i = Some node \<and> node_status node = Active"
  by (simp add: demo_registry_def demo_nodes_def getNode_def demo_node_def)

theorem ceremony_creates_usable_key_witness:
  "\<exists>key cer s' pk. runCeremony demo_crypto 2 demo_nodes None None (replicate 32 1) demo_rnd
      ''k1'' ''c1'' 0 (mpc_init\<lparr>mpc_registry := demo_registry\<rparr>) = (Inr (key, cer), s') \<and>
    js_get (mpc_keys s') ''k1'' = Some key \<and> mk_publicKey key = to_hex pk"
  using ceremony_creates_usable_key [OF demo_sound, of "''k1''" "replicate 32 1" 2 demo_nodes
      "mpc_init\<lparr>mpc_registry := demo_registry\<rparr>" None None demo_rnd "''c1''" 0 "[]"]
    demo_nodes_active
  by (auto simp: no_colon_def SEED_BYTES_def demo_nodes_def)

text \<open>The state after that ceremony.\<close>

lemma demo_ceremony:
  "\<exists>key cer pk. runCeremony demo_crypto 2 demo_nodes None None (replicate 32 1) demo_rnd
      ''k1'' ''c1'' 0 (mpc_init\<lparr>mpc_registry := demo_registry\<rparr>) = (Inr (key, cer), demo_state) \<and>
    mpc_calls demo_crypto demo_ids {(''k1'', to_hex pk)} demo_state \<and>
    js_get (mpc_keys demo_state) ''k1'' = Some key \<and> mk_publicKey key = to_hex pk \<and>
    mk_status key = KeyActive \<and> mk_nodes key = demo_nodes \<and> mk_threshold key = 2 \<and> mk_id key = ''k1'' \<and>
    mpc_registry demo_state = demo_registry \<and> mpc_sessions demo_state = [] \<and> mpc_tracker demo_state = [] \<and>
    length (filter (hsm_isAvailable (mpc_hsm demo_state)) demo_nodes) = 3"
proof -
  let ?s = "mpc_init\<lparr>mpc_registry := demo_registry\<rparr>"
  have "\<exists>key cer s'. runCeremony demo_crypto 2 demo_nodes None None (replicate 32 1) demo_rnd
      ''k1'' ''c1'' 0 ?s = (Inr (key, cer), s')"
    using demo_nodes_active by (intro runCeremony_total) (auto simp: demo_nodes_def SEED_BYTES_def)
  then obtain key cer where run: "runCeremony demo_crypto 2 demo_nodes None None (replicate 32 1) demo_rnd
      ''k1'' ''c1'' 0 ?s = (Inr (key, cer), demo_state)"
    by (auto simp: demo_state_def)
  have nc: "no_colon ''k1''" by (simp add: no_colon_def)
  note * = runCeremony_Inr [OF run nc]
  obtain pk where pk: "mk_publicKey key = to_hex pk" using *(1) by (auto simp: key_custody_def)
  have "mpc_calls demo_crypto demo_ids {(''k1'', to_hex pk)} demo_state"
    using run_ceremony [OF demo_run_nodes nc _ run] * pk by (simp add: key_history_def mpc_init_def)
  moreover have "hsm_isAvailable (mpc_hsm demo_state) = hsm_isAvailable hsm_empty"
    using *(11) by (simp add: mpc_init_def)
  ultimately show ?thesis
    using run * pk by (simp add: hsm_isAvailable_def hsm_empty_def mpc_init_def demo_nodes_def)
qed

subsection \<open>Signing\<close>

lemma usable_signs:
  assumes "mpc_inv c I P s" and "ed25519_sound c"
    and "js_get (mpc_keys s) k = Some key" and "mk_status key \<noteq> KeyRevoked"
    and "distinct (mk_nodes key)"
  shows "(case signWithShares c (mpc_hsm s) key payload of
      Inl _ \<Rightarrow> int (length (filter (hsm_isAvailable (mpc_hsm s)) (mk_nodes key))) < mk_threshold key
    | Inr sig \<Rightarrow> mk_threshold key \<le> int (length (filter (hsm_isAvailable (mpc_hsm s)) (mk_nodes key))) \<and>
        (\<exists>pk. mk_publicKey key = to_hex pk \<and> ed_verify c pk payload sig = Inr True))"
proof -
  obtain seed pk where cust: "key_custody c (mpc_hsm s) key seed"
    and pk: "publicKeyFromSeed c seed = Inr pk" "mk_publicKey key = to_hex pk"
    using key_wf_custody [OF _ assms(4,5)] mpc_inv_key [OF assms(1,3)]
    unfolding key_custody_def by blast
  from signWithShares_custody [OF cust, of payload] publicKey_verifies [OF assms(2) pk(1)] pk(2)
  show ?thesis by (auto split: sum.splits)
qed

text \<open>
  in every state the service can reach, a key that is not revoked and names each of its nodes
  once can sign any payload exactly
  while at least its threshold of its nodes is reachable, and the signature verifies under the
  key's public half.
\<close>

lemma usable_key_signs:
  assumes "mpc_calls c I P s" and "ed25519_sound c"
    and "js_get (mpc_keys s) k = Some key" and "mk_status key \<noteq> KeyRevoked"
    and "distinct (mk_nodes key)"
  shows "(case signWithShares c (mpc_hsm s) key payload of
      Inl _ \<Rightarrow> int (length (filter (hsm_isAvailable (mpc_hsm s)) (mk_nodes key))) < mk_threshold key
    | Inr sig \<Rightarrow> mk_threshold key \<le> int (length (filter (hsm_isAvailable (mpc_hsm s)) (mk_nodes key))) \<and>
        (\<exists>pk. mk_publicKey key = to_hex pk \<and> ed_verify c pk payload sig = Inr True))"
  using usable_signs [OF mpc_calls_inv [OF assms(1,2)] assms(2-5)] .

lemma usable_key_signs_witness:
  "\<exists>key sig pk. js_get (mpc_keys demo_state) ''k1'' = Some key \<and>
     signWithShares demo_crypto (mpc_hsm demo_state) key [1, 2, 3] = Inr sig \<and>
     mk_publicKey key = to_hex pk \<and> ed_verify demo_crypto pk [1, 2, 3] sig = Inr True"
proof -
  obtain key pk where demo: "mpc_calls demo_crypto demo_ids {(''k1'', to_hex pk)} demo_state"
    "js_get (mpc_keys demo_state) ''k1'' = Some key" "mk_status key = KeyActive"
    "mk_nodes key = demo_nodes" "mk_threshold key = 2"
    "length (filter (hsm_isAvailable (mpc_hsm demo_state)) demo_nodes) = 3"
    using demo_ceremony by blast
  then show ?thesis
    using usable_key_signs [OF demo(1) demo_sound demo(2), of "[1, 2, 3]"]
    by (auto simp: demo_nodes_def split: sum.splits)
qed

text \<open>
  C6: revoking a key is final for its shares: in every state reached by calls that are awaited one
  after the other (registrations, ceremonies, sessions, approvals, rotations to any list of nodes,
  repeated ones too, membership changes, revocations, resets), a revoked key has no share left in
  the store and no payload can be signed with it. A revocation that falls between the two halves
  of an \<open>addMember\<close> that is not awaited is the exception (\<open>revoke_during_addMember\<close>).
\<close>

theorem revoked_key_never_signs:
  assumes "mpc_calls c I P s" and "ed25519_sound c"
    and "js_get (mpc_keys s) k = Some key" and "mk_status key = KeyRevoked"
  shows "hsm_entry (mpc_hsm s) k n = None \<and>
    signWithShares c (mpc_hsm s) key payload = Inl (SharesUnavailable 0 (mk_threshold key))"
proof -
  have "key_wf c (mpc_hsm s) k key"
    using mpc_inv_key [OF mpc_calls_inv [OF assms(1,2)] assms(3)] by simp
  then show ?thesis using revoked_cannot_sign assms(4) by (auto simp: key_wf_def)
qed

theorem revoked_key_never_signs_witness:
  "\<exists>key. js_get (mpc_keys (snd (revokeKey ''k1'' demo_state))) ''k1'' = Some key \<and>
     signWithShares demo_crypto (mpc_hsm (snd (revokeKey ''k1'' demo_state))) key [1] =
       Inl (SharesUnavailable 0 2)"
proof -
  obtain key pk where demo: "mpc_calls demo_crypto demo_ids {(''k1'', to_hex pk)} demo_state"
    "js_get (mpc_keys demo_state) ''k1'' = Some key" "mk_threshold key = 2"
    using demo_ceremony by blast
  obtain r s' where eq: "revokeKey ''k1'' demo_state = (r, s')" by fastforce
  then have "js_get (mpc_keys s') ''k1'' = Some (key\<lparr>mk_status := KeyRevoked\<rparr>)"
    using demo(2) by (auto simp: revokeKey_def Let_def)
  with revoked_key_never_signs [OF run_revoke [OF demo(1) eq] demo_sound this] eq demo(3)
  show ?thesis by simp
qed

text \<open>
  C14: in every state reached by calls that are awaited one after the other, rotations that name a
  node twice included, a session marked signed carries a signature over its payload that verifies
  under a public key its key had, and approvals of at least two different nodes of its quorum, each
  verified over the session's digest under an identity key registered for that node. (Shares that
  are collected while the key is dealt anew by another call could stem from two dealings.)
\<close>

theorem signed_session_valid:
  assumes "mpc_calls c I P s" and "ed25519_sound c"
    and "js_get (mpc_sessions s) sid = Some session" and "ses_status session = SesSigned"
  shows "(\<exists>pk sig. (ses_keyId session, to_hex pk) \<in> P \<and>
      ses_signatureHex session = Some (to_hex sig) \<and>
      ed_verify c pk (from_hex (ses_payloadHex session)) sig = Inr True) \<and>
    2 \<le> card (con_nodeId ` set (ses_contributions session)) \<and>
    (\<forall>x\<in>set (ses_contributions session). con_nodeId x \<in> set (ses_quorum session) \<and>
      (\<exists>pk. (con_nodeId x, pk) \<in> I \<and>
        ed_verify c pk (messageDigest c sid (from_hex (ses_payloadHex session)))
          (from_hex (con_approvalSignature x)) = Inr True))"
proof -
  have wf: "session_wf c I P sid session"
    by (rule mpc_inv_session [OF mpc_calls_inv [OF assms(1,2)] assms(3)])
  then have "card (con_nodeId ` set (ses_contributions session)) = length (ses_contributions session)"
    using distinct_card [of "map con_nodeId (ses_contributions session)"] by (simp add: session_wf_def)
  with wf assms(4) show ?thesis
    by (auto simp: session_wf_def signature_wf_def approval_wf_def)
qed

text \<open>The number of approvals is the number of nodes that approved.\<close>

lemma contributors_card:
  assumes "session_wf c I P k session"
  shows "length (ses_contributions (add_contribution n sig now session)) =
    card (insert n (con_nodeId ` set (ses_contributions session)))"
proof -
  have len: "length (ses_contributions session) = card (con_nodeId ` set (ses_contributions session))"
    using assms distinct_card [of "map con_nodeId (ses_contributions session)"]
    by (simp add: session_wf_def)
  show ?thesis
  proof (cases "n \<in> con_nodeId ` set (ses_contributions session)")
    case True
    with len show ?thesis by (auto simp: add_contribution_def insert_absorb)
  next
    case False
    with len show ?thesis by (auto simp: add_contribution_def image_iff)
  qed
qed

lemma contribute_outcome:
  assumes "mpc_calls c I P s" and "ed25519_sound c"
    and "js_get (mpc_sessions s) sid = Some session" and "ses_status session = SesPending"
    and "now < ses_expiresAt session" and "nid \<in> set (ses_quorum session)"
    and "getNode (mpc_registry s) nid = Some node"
    and "ed_verify c (from_hex (node_identityPublicKey node))
      (messageDigest c sid (from_hex (ses_payloadHex session))) (from_hex sig) = Inr True"
    and "js_get (mpc_tracker s) (trackerKey sid nid) \<in> {None, Some (to_lower sig)}"
    and "js_get (mpc_keys s) (ses_keyId session) = Some key" and "mk_status key \<noteq> KeyRevoked"
    and "distinct (mk_nodes key)"
  shows "(let approvals = int (card (insert nid (con_nodeId ` set (ses_contributions session))));
      reachable = int (length (filter (hsm_isAvailable (mpc_hsm s)) (mk_nodes key)))
    in if approvals < mk_threshold key
       then \<exists>session' s'. contribute c sid nid sig now s = (Inr (session', False), s') \<and>
         ses_status session' = SesPending \<and> js_get (mpc_sessions s') sid = Some session' \<and>
         int (length (ses_contributions session')) = approvals
       else if mk_threshold key \<le> reachable
       then \<exists>session' s' pk sg. contribute c sid nid sig now s = (Inr (session', True), s') \<and>
         ses_status session' = SesSigned \<and> js_get (mpc_sessions s') sid = Some session' \<and>
         ses_signatureHex session' = Some (to_hex sg) \<and> mk_publicKey key = to_hex pk \<and>
         ed_verify c pk (from_hex (ses_payloadHex session)) sg = Inr True
       else \<exists>e session' s'. contribute c sid nid sig now s = (Inl e, s') \<and>
         js_get (mpc_sessions s') sid = Some session' \<and> ses_status session' = SesRejected)"
proof -
  have inv: "mpc_inv c I P s" by (rule mpc_calls_inv [OF assms(1,2)])
  have wf: "session_wf c I P sid session" by (rule mpc_inv_session [OF inv assms(3)])
  then have id: "ses_id session = sid" by (simp add: session_wf_def)
  have node: "node_id node = nid" using mpc_inv_node [OF inv assms(7)] by simp
  have same: "maybeExpire now session = session"
    using assms(5) by (simp add: maybeExpire_def bft_isExpired_def)
  define ses where "ses = add_contribution nid sig now session"
  have len: "length (ses_contributions ses) = card (insert nid (con_nodeId ` set (ses_contributions session)))"
    unfolding ses_def by (rule contributors_card [OF wf])
  have pend: "ses_status ses = SesPending" "ses_expiresAt ses = ses_expiresAt session"
    "ses_keyId ses = ses_keyId session" "ses_id ses = sid" "ses_payloadHex ses = ses_payloadHex session"
    using assms(4) id by (simp_all add: ses_def add_contribution_def)
  then have keep: "maybeExpire now ses = ses"
    using assms(5) by (simp add: maybeExpire_def bft_isExpired_def)
  obtain tr where rec: "recordApproval c sid nid (from_hex (node_identityPublicKey node))
      (messageDigest c sid (from_hex (ses_payloadHex session))) sig (mpc_tracker s) = (Inr ApprovalOk, tr)"
    using assms(8,9) by (auto simp: recordApproval_def Let_def)
  have eq: "contribute c sid nid sig now s =
      contribute_accepted c now ses ((put_session session s)\<lparr>mpc_tracker := tr\<rparr>)"
    using assms(3,4,6,7) same id node rec
    by (simp add: contribute_def getSessionOrThrow_def ses_def put_session_def)
  have signs: "(case signWithShares c (mpc_hsm s) key (from_hex (ses_payloadHex session)) of
      Inl _ \<Rightarrow> int (length (filter (hsm_isAvailable (mpc_hsm s)) (mk_nodes key))) < mk_threshold key
    | Inr sig \<Rightarrow> mk_threshold key \<le> int (length (filter (hsm_isAvailable (mpc_hsm s)) (mk_nodes key))) \<and>
        (\<exists>pk. mk_publicKey key = to_hex pk \<and> ed_verify c pk (from_hex (ses_payloadHex session)) sig = Inr True))"
    using usable_signs [OF inv assms(2,10-12)] .
  show ?thesis
  proof (cases "signWithShares c (mpc_hsm s) key (from_hex (ses_payloadHex session))")
    case (Inl e)
    with signs show ?thesis
      unfolding eq using assms(10) len pend keep
      by (auto simp: contribute_accepted_def getKeyOrThrow_def Let_def finaliseSession_def)
  next
    case (Inr sg)
    with signs show ?thesis
      unfolding eq using assms(10) len pend keep
      by (auto simp: contribute_accepted_def getKeyOrThrow_def Let_def finaliseSession_def maybeExpire_def)
  qed
qed

text \<open>The same key after its third node was removed.\<close>

lemma demo_pair:
  "\<exists>key s. mpc_calls demo_crypto demo_ids {(''k1'', mk_publicKey key)} s \<and>
    js_get (mpc_keys s) ''k1'' = Some key \<and> mk_status key = KeyActive \<and>
    mk_nodes key = [''n1'', ''n2''] \<and> mk_threshold key = 2 \<and> mpc_registry s = demo_registry \<and>
    length (filter (hsm_isAvailable (mpc_hsm s)) (mk_nodes key)) = 2"
proof -
  let ?ns = "[''n1'', ''n2'']" and ?s = "mpc_init\<lparr>mpc_registry := demo_registry\<rparr>"
  have "\<exists>key cer s'. runCeremony demo_crypto 2 ?ns None None (replicate 32 1) demo_rnd
      ''k1'' ''c1'' 0 ?s = (Inr (key, cer), s')"
    using demo_nodes_active by (intro runCeremony_total) (auto simp: demo_nodes_def SEED_BYTES_def)
  then obtain key cer s' where run: "runCeremony demo_crypto 2 ?ns None None (replicate 32 1) demo_rnd
      ''k1'' ''c1'' 0 ?s = (Inr (key, cer), s')" by blast
  have nc: "no_colon ''k1''" by (simp add: no_colon_def)
  note * = runCeremony_Inr [OF run nc]
  have "mpc_calls demo_crypto demo_ids {(''k1'', mk_publicKey key)} s'"
    using run_ceremony [OF demo_run_nodes nc _ run] * by (simp add: key_history_def mpc_init_def)
  with * show ?thesis
    by (intro exI [of _ key] exI [of _ s']) (simp add: hsm_isAvailable_def hsm_empty_def mpc_init_def)
qed

text \<open>A session of the demo key, signed by the approvals of two nodes.\<close>

definition demo_session :: SigningSession where
  "demo_session = \<lparr>ses_id = ''s1'', ses_keyId = ''k1'', ses_payloadHex = to_hex [1, 2],
     ses_payloadDigest = to_hex (cr_sha256 demo_crypto [1, 2]), ses_requestedBy = ''ops'',
     ses_createdAt = 0, ses_expiresAt = 300000, ses_status = SesPending, ses_quorum = demo_nodes,
     ses_contributions = [], ses_signatureHex = None, ses_failureReason = None\<rparr>"

definition demo_pending :: mpc where
  "demo_pending = demo_state\<lparr>mpc_sessions := [(''s1'', demo_session)]\<rparr>"

lemma demo_pending_run:
  "\<exists>key pk. mpc_calls demo_crypto demo_ids {(''k1'', to_hex pk)} demo_pending \<and>
    js_get (mpc_keys demo_pending) ''k1'' = Some key \<and> mk_publicKey key = to_hex pk \<and>
    mk_status key = KeyActive \<and> mk_nodes key = demo_nodes \<and> mk_threshold key = 2 \<and>
    mpc_registry demo_pending = demo_registry \<and> mpc_tracker demo_pending = [] \<and>
    js_get (mpc_sessions demo_pending) ''s1'' = Some demo_session \<and>
    length (filter (hsm_isAvailable (mpc_hsm demo_pending)) demo_nodes) = 3"
proof -
  obtain key pk where demo: "mpc_calls demo_crypto demo_ids {(''k1'', to_hex pk)} demo_state"
    "js_get (mpc_keys demo_state) ''k1'' = Some key" "mk_publicKey key = to_hex pk"
    "mk_status key = KeyActive" "mk_nodes key = demo_nodes" "mk_threshold key = 2" "mk_id key = ''k1''"
    "mpc_registry demo_state = demo_registry" "mpc_sessions demo_state = []"
    "mpc_tracker demo_state = []"
    "length (filter (hsm_isAvailable (mpc_hsm demo_state)) demo_nodes) = 3"
    using demo_ceremony by blast
  have "startSigningSession demo_crypto ''k1'' [1, 2] ''ops'' None ''s1'' 0 demo_state =
      (Inr demo_session, demo_pending)"
    using demo by (simp add: startSigningSession_def getKeyOrThrow_def Let_def demo_session_def
        demo_pending_def DEFAULT_SIGNING_TIMEOUT_MS_def)
  with demo have "mpc_calls demo_crypto demo_ids {(''k1'', to_hex pk)} demo_pending"
    by (intro run_start [OF demo(1)]) auto
  with demo show ?thesis by (auto simp: demo_pending_def)
qed

lemma demo_verify: "ed_verify demo_crypto (replicate 32 0) m (replicate 64 1) = Inr True"
  by (simp add: ed_verify_def publicKeyFromBytes_def demo_crypto_def SIGNATURE_BYTES_def
      PUBLIC_KEY_BYTES_def)

definition demo_sig :: string where
  "demo_sig = to_hex (replicate 64 1)"

definition demo_half :: mpc where
  "demo_half = (put_session (add_contribution ''n1'' demo_sig 5 demo_session) demo_pending)
     \<lparr>mpc_tracker := [(trackerKey ''s1'' ''n1'', demo_sig)]\<rparr>"

lemma demo_first:
  assumes "js_get (mpc_keys demo_pending) ''k1'' = Some key" "mk_threshold key = 2"
    and "mpc_registry demo_pending = demo_registry" "mpc_tracker demo_pending = []"
    and "js_get (mpc_sessions demo_pending) ''s1'' = Some demo_session"
  shows "contribute demo_crypto ''s1'' ''n1'' demo_sig 5 demo_pending =
    (Inr (add_contribution ''n1'' demo_sig 5 demo_session, False), demo_half)"
proof -
  have node: "getNode demo_registry ''n1'' = Some (demo_node ''n1'')"
    by (simp add: getNode_def demo_registry_def demo_nodes_def)
  have rec: "recordApproval demo_crypto ''s1'' ''n1'' (replicate 32 0) m demo_sig [] =
      (Inr ApprovalOk, [(trackerKey ''s1'' ''n1'', demo_sig)])" for m
    using demo_verify by (simp add: recordApproval_def demo_sig_def)
  have ses: "maybeExpire 5 demo_session = demo_session"
    "maybeExpire 5 (add_contribution ''n1'' demo_sig 5 demo_session) =
      add_contribution ''n1'' demo_sig 5 demo_session"
    "ses_status demo_session = SesPending" "''n1'' \<in> set (ses_quorum demo_session)"
    "ses_id demo_session = ''s1''" "ses_keyId demo_session = ''k1''"
    "length (ses_contributions (add_contribution ''n1'' demo_sig 5 demo_session)) = 1"
    by (simp_all add: demo_session_def maybeExpire_def bft_isExpired_def add_contribution_def demo_nodes_def)
  show ?thesis
    using assms node ses rec
    by (simp add: contribute_def getSessionOrThrow_def Let_def demo_node_def
        contribute_accepted_def getKeyOrThrow_def demo_half_def put_session_def)
qed

abbreviation demo_half_session :: SigningSession where
  "demo_half_session \<equiv> add_contribution ''n1'' demo_sig 5 demo_session"

lemma demo_half_facts:
  "js_get (mpc_sessions demo_half) ''s1'' = Some demo_half_session"
  "ses_status demo_half_session = SesPending" "6 < ses_expiresAt demo_half_session"
  "''n2'' \<in> set (ses_quorum demo_half_session)"
  "getNode (mpc_registry demo_half) ''n2'' = Some (demo_node ''n2'')"
  "ed_verify demo_crypto (from_hex (node_identityPublicKey (demo_node ''n2'')))
    (messageDigest demo_crypto ''s1'' (from_hex (ses_payloadHex demo_half_session))) (from_hex demo_sig) = Inr True"
  "js_get (mpc_tracker demo_half) (trackerKey ''s1'' ''n2'') \<in> {None, Some (to_lower demo_sig)}"
  "ses_keyId demo_half_session = ''k1''"
  "card (insert ''n2'' (con_nodeId ` set (ses_contributions demo_half_session))) = 2"
  using demo_pending_run
  by (auto simp: demo_half_def add_contribution_def demo_session_def getNode_def demo_registry_def
      demo_nodes_def demo_node_def demo_sig_def trackerKey_def demo_verify)

lemma demo_signed:
  "\<exists>pk key session s. mpc_calls demo_crypto demo_ids {(''k1'', to_hex pk)} demo_half \<and>
    js_get (mpc_keys demo_half) ''k1'' = Some key \<and> mk_status key = KeyActive \<and>
    mk_threshold key = 2 \<and> mk_nodes key = demo_nodes \<and>
    length (filter (hsm_isAvailable (mpc_hsm demo_half)) demo_nodes) = 3 \<and>
    contribute demo_crypto ''s1'' ''n2'' demo_sig 6 demo_half = (Inr (session, True), s) \<and>
    mpc_calls demo_crypto demo_ids {(''k1'', to_hex pk)} s \<and>
    js_get (mpc_sessions s) ''s1'' = Some session \<and> ses_status session = SesSigned"
proof -
  obtain key pk where demo: "mpc_calls demo_crypto demo_ids {(''k1'', to_hex pk)} demo_pending"
    "js_get (mpc_keys demo_pending) ''k1'' = Some key" "mk_threshold key = 2"
    "mpc_registry demo_pending = demo_registry" "mpc_tracker demo_pending = []"
    "js_get (mpc_sessions demo_pending) ''s1'' = Some demo_session"
    "mk_status key = KeyActive" "mk_nodes key = demo_nodes"
    "length (filter (hsm_isAvailable (mpc_hsm demo_pending)) demo_nodes) = 3"
    using demo_pending_run by blast
  note first = demo_first [OF demo(2-6)]
  have run: "mpc_calls demo_crypto demo_ids {(''k1'', to_hex pk)} demo_half"
    by (rule run_contribute [OF demo(1) first])
  note half = demo_half_facts
  have hsm: "mpc_hsm demo_half = mpc_hsm demo_pending" and key0: "js_get (mpc_keys demo_half) ''k1'' = Some key"
    using demo(2) by (simp_all add: demo_half_def)
  then have key: "js_get (mpc_keys demo_half) (ses_keyId demo_half_session) = Some key"
    "mk_status key \<noteq> KeyRevoked"
    using demo(7) half(8) by simp_all
  have "\<exists>session' s'. contribute demo_crypto ''s1'' ''n2'' demo_sig 6 demo_half =
      (Inr (session', True), s') \<and> ses_status session' = SesSigned \<and>
      js_get (mpc_sessions s') ''s1'' = Some session'"
    using contribute_outcome [OF run demo_sound half(1-7) key] half(9) demo(3,8,9) hsm
    unfolding Let_def by (auto simp: demo_nodes_def)
  then obtain session s where signed:
    "contribute demo_crypto ''s1'' ''n2'' demo_sig 6 demo_half = (Inr (session, True), s)"
    "ses_status session = SesSigned" "js_get (mpc_sessions s) ''s1'' = Some session" by (elim exE conjE)
  show ?thesis
    using run_contribute [OF run signed(1)] run key0 hsm demo(3,7,8,9) signed
    by (intro exI [of _ pk] exI [of _ key] exI [of _ session] exI [of _ s]) simp
qed

text \<open>
  an approval of a pending, unexpired session by a node of its quorum, with a signature that
  verifies under the node's registered key and does not contradict an earlier one, is counted once
  per node. Below the key's threshold the session stays pending; from the threshold on it is
  signed if a threshold of share holders is reachable, with a signature that verifies under the
  key's public half, and is rejected otherwise.
\<close>

lemma contribute_counts_and_signs:
  assumes "mpc_calls c I P s" and "ed25519_sound c"
    and "js_get (mpc_sessions s) sid = Some session" and "ses_status session = SesPending"
    and "now < ses_expiresAt session" and "nid \<in> set (ses_quorum session)"
    and "getNode (mpc_registry s) nid = Some node"
    and "ed_verify c (from_hex (node_identityPublicKey node))
      (messageDigest c sid (from_hex (ses_payloadHex session))) (from_hex sig) = Inr True"
    and "js_get (mpc_tracker s) (trackerKey sid nid) \<in> {None, Some (to_lower sig)}"
    and "js_get (mpc_keys s) (ses_keyId session) = Some key" and "mk_status key \<noteq> KeyRevoked"
    and "distinct (mk_nodes key)"
  shows "(let approvals = int (card (insert nid (con_nodeId ` set (ses_contributions session))));
      reachable = int (length (filter (hsm_isAvailable (mpc_hsm s)) (mk_nodes key)))
    in if approvals < mk_threshold key
       then \<exists>session' s'. contribute c sid nid sig now s = (Inr (session', False), s') \<and>
         ses_status session' = SesPending \<and> js_get (mpc_sessions s') sid = Some session' \<and>
         int (length (ses_contributions session')) = approvals
       else if mk_threshold key \<le> reachable
       then \<exists>session' s' pk sg. contribute c sid nid sig now s = (Inr (session', True), s') \<and>
         ses_status session' = SesSigned \<and> js_get (mpc_sessions s') sid = Some session' \<and>
         ses_signatureHex session' = Some (to_hex sg) \<and> mk_publicKey key = to_hex pk \<and>
         ed_verify c pk (from_hex (ses_payloadHex session)) sg = Inr True
       else \<exists>e session' s'. contribute c sid nid sig now s = (Inl e, s') \<and>
         js_get (mpc_sessions s') sid = Some session' \<and> ses_status session' = SesRejected)"
  using contribute_outcome [OF assms] .

lemma contribute_counts_and_signs_witness:
  "\<exists>session s. contribute demo_crypto ''s1'' ''n2'' demo_sig 6 demo_half = (Inr (session, True), s) \<and>
     ses_status session = SesSigned"
proof -
  obtain key pk where demo: "mpc_calls demo_crypto demo_ids {(''k1'', to_hex pk)} demo_half"
    "js_get (mpc_keys demo_half) ''k1'' = Some key" "mk_threshold key = 2" "mk_status key = KeyActive"
    "mk_nodes key = demo_nodes" "length (filter (hsm_isAvailable (mpc_hsm demo_half)) demo_nodes) = 3"
    using demo_signed by blast
  note half = demo_half_facts
  have key: "js_get (mpc_keys demo_half) (ses_keyId demo_half_session) = Some key"
    "mk_status key \<noteq> KeyRevoked"
    using demo(2,4) half(8) by simp_all
  show ?thesis
    using contribute_counts_and_signs [OF demo(1) demo_sound half(1-7) key] half(9) demo(3,5,6)
    unfolding Let_def by (auto simp: demo_nodes_def)
qed

theorem signed_session_valid_witness:
  "\<exists>(s :: mpc) session pk sig. js_get (mpc_sessions s) ''s1'' = Some session \<and>
     ses_signatureHex session = Some (to_hex sig) \<and>
     ed_verify demo_crypto pk (from_hex (ses_payloadHex session)) sig = Inr True \<and>
     2 \<le> card (con_nodeId ` set (ses_contributions session))"
proof -
  obtain pk session s where demo: "mpc_calls demo_crypto demo_ids {(''k1'', to_hex pk)} s"
    "js_get (mpc_sessions s) ''s1'' = Some session" "ses_status session = SesSigned"
    using demo_signed by blast
  show ?thesis
    using signed_session_valid [OF demo(1) demo_sound demo(2,3)] demo(2)
    by blast
qed

subsection \<open>Membership\<close>

lemma reshare_total:
  assumes "key_custody c (mpc_hsm s) key seed"
    and "mk_threshold key \<le> int (length (filter (hsm_isAvailable (mpc_hsm s)) (mk_nodes key)))"
    and "mk_threshold key \<le> int (length ns)" and "length ns \<le> 254"
  shows "\<exists>key' s'. reshare key ns rnd now s = (Inr key', s')"
proof -
  let ?all = "List.map_filter (hsm_get (mpc_hsm s) (mk_id key)) (mk_nodes key)"
  have cust: "in_custody split_secret hsm_entry (mpc_hsm s) (mk_id key) (mk_nodes key) (mk_threshold key) seed"
    using assms(1) by (simp add: key_custody_def)
  have len: "mk_threshold key \<le> int (length ?all)"
    using hsm.available_shares_length [OF cust] assms(2) by simp
  then have "reconstruct ?all = Inr seed"
    using hsm.available_shares [OF cust] by (intro hsm.recover_available [OF cust]) auto
  moreover obtain shares where sh: "split_secret seed (mk_threshold key) (int (length ns)) rnd = Inr shares"
    using in_custody_threshold [OF cust] assms(3,4) by (force simp: split_Inr)
  moreover have "length ns = length shares" using split_length [OF sh] by simp
  ultimately show ?thesis
    using len by (simp add: reshare_def collectAllShares_def distributeShares_def Let_def)
qed

text \<open>
  a new node can be brought into a usable key: when the node and all present members are
  active, a threshold of the members is reachable and the key has fewer than 254 members, adding it
  succeeds, keeps the public key and the threshold, raises the version by one, and leaves the same
  secret seed shared out among the larger set of nodes.
\<close>

lemma addMember_keeps_key:
  assumes "mpc_calls c I P s" and "ed25519_sound c"
    and "js_get (mpc_keys s) k = Some key" and "mk_status key \<noteq> KeyRevoked"
    and "distinct (nid # mk_nodes key)" and "length (mk_nodes key) < 254"
    and "\<forall>i\<in>set (nid # mk_nodes key). \<exists>node. getNode (mpc_registry s) i = Some node \<and> node_status node = Active"
    and "mk_threshold key \<le> int (length (filter (hsm_isAvailable (mpc_hsm s)) (mk_nodes key)))"
  shows "\<exists>key' s' seed. addMember k nid rnd now s = (Inr key', s') \<and>
    js_get (mpc_keys s') k = Some key' \<and> mk_nodes key' = mk_nodes key @ [nid] \<and>
    mk_publicKey key' = mk_publicKey key \<and> mk_threshold key' = mk_threshold key \<and>
    key_custody c (mpc_hsm s) key seed \<and> key_custody c (mpc_hsm s') key' seed"
proof -
  have wf: "key_wf c (mpc_hsm s) k key"
    using mpc_inv_key [OF mpc_calls_inv [OF assms(1,2)] assms(3)] by simp
  then obtain seed where cust: "key_custody c (mpc_hsm s) key seed"
    using key_wf_custody [OF wf assms(4)] assms(5) by auto
  have id: "mk_id key = k" "no_colon (mk_id key)" "distinct (mk_nodes key @ [nid])"
    using wf assms(5) by (auto simp: key_wf_def)
  have "mk_threshold key \<le> int (length (mk_nodes key))"
    by (rule key_custody_threshold [OF cust])
  then obtain key' s' where re: "reshare key (mk_nodes key @ [nid]) rnd now s = (Inr key', s')"
    using reshare_total [OF cust assms(8), of "mk_nodes key @ [nid]" rnd now] assms(6) by auto
  note * = reshare_Inr [OF re id(2)]
  have "addMember k nid rnd now s = (Inr key', s')"
    using assms(3,5,7) re assertAllNodesActive_None [of "mpc_registry s" "mk_nodes key @ [nid]"]
    by (simp add: addMember_def getKeyOrThrow_def)
  with * custody_dealt [OF cust] cust id show ?thesis by auto
qed

text \<open>
  a member can be dropped from a usable key as long as a threshold of members remains and a
  threshold can be reached: the public key, the threshold and the shared seed stay, and the share
  of the dropped node is gone from the store.
\<close>

lemma removeMember_keeps_key:
  assumes "mpc_calls c I P s" and "ed25519_sound c"
    and "js_get (mpc_keys s) k = Some key" and "mk_status key \<noteq> KeyRevoked"
    and "nid \<in> set (mk_nodes key)" and "mk_threshold key < int (length (mk_nodes key))"
    and "mk_threshold key \<le> int (length (filter (hsm_isAvailable (mpc_hsm s)) (mk_nodes key)))"
    and "distinct (mk_nodes key)"
  shows "\<exists>key' s' seed. removeMember k nid rnd now s = (Inr key', s') \<and>
    js_get (mpc_keys s') k = Some key' \<and> mk_nodes key' = filter (\<lambda>n. n \<noteq> nid) (mk_nodes key) \<and>
    mk_publicKey key' = mk_publicKey key \<and> mk_threshold key' = mk_threshold key \<and>
    hsm_entry (mpc_hsm s') k nid = None \<and>
    key_custody c (mpc_hsm s) key seed \<and> key_custody c (mpc_hsm s') key' seed"
proof -
  have wf: "key_wf c (mpc_hsm s) k key"
    using mpc_inv_key [OF mpc_calls_inv [OF assms(1,2)] assms(3)] by simp
  then obtain seed where cust: "key_custody c (mpc_hsm s) key seed"
    using key_wf_custody [OF wf assms(4,8)] by blast
  let ?rest = "filter (\<lambda>n. n \<noteq> nid) (mk_nodes key)"
  have id: "mk_id key = k" "no_colon (mk_id key)" "distinct ?rest" "no_colon k" "distinct (mk_nodes key)"
    using wf assms(8) by (auto simp: key_wf_def)
  have len: "length (mk_nodes key) \<le> 254"
    using cust by (auto simp: key_custody_def in_custody_def split_Inr)
  have "length ?rest = length (mk_nodes key) - 1"
    using id(5) assms(5) by (simp add: length_filter_neq)
  then obtain key' s' where re: "reshare key ?rest rnd now s = (Inr key', s')"
    using reshare_total [OF cust assms(7), of ?rest rnd now] assms(6) len by fastforce
  note * = reshare_Inr [OF re id(2)]
  have "removeMember k nid rnd now s = (Inr key', s')"
    using assms(3,5,6) re \<open>length ?rest = length (mk_nodes key) - 1\<close>
    by (auto simp: removeMember_def getKeyOrThrow_def Let_def)
  moreover have "hsm_entry (mpc_hsm s') k nid = None"
    using reshare_other_share [OF re id(2)] assms(5) id(1) by simp
  ultimately show ?thesis using * custody_dealt [OF cust] cust id by auto
qed

lemma addMember_keeps_key_witness:
  "\<exists>s (key :: ManagedKey) key' s'. mk_nodes key = [''n1'', ''n2''] \<and>
     addMember ''k1'' ''n3'' demo_rnd 7 s = (Inr key', s') \<and> mk_nodes key' = demo_nodes \<and>
     mk_publicKey key' = mk_publicKey key"
proof -
  obtain key s where demo: "mpc_calls demo_crypto demo_ids {(''k1'', mk_publicKey key)} s"
    "js_get (mpc_keys s) ''k1'' = Some key" "mk_status key = KeyActive"
    "mk_nodes key = [''n1'', ''n2'']" "mk_threshold key = 2" "mpc_registry s = demo_registry"
    "length (filter (hsm_isAvailable (mpc_hsm s)) (mk_nodes key)) = 2"
    using demo_pair by blast
  have "\<forall>i\<in>set (''n3'' # mk_nodes key). \<exists>node. getNode (mpc_registry s) i = Some node \<and> node_status node = Active"
    using demo_nodes_active demo(4,6) by (simp add: demo_nodes_def)
  from addMember_keeps_key [OF demo(1) demo_sound demo(2) _ _ _ this, of demo_rnd 7] demo(3,4,5,7)
  have "\<exists>key' s'. addMember ''k1'' ''n3'' demo_rnd 7 s = (Inr key', s') \<and> mk_nodes key' = demo_nodes \<and>
     mk_publicKey key' = mk_publicKey key"
    by (auto simp: demo_nodes_def)
  with demo(4) show ?thesis by blast
qed

lemma removeMember_keeps_key_witness:
  "\<exists>key' s'. removeMember ''k1'' ''n2'' demo_rnd 7 demo_state = (Inr key', s') \<and>
     mk_nodes key' = [''n1'', ''n3''] \<and> hsm_entry (mpc_hsm s') ''k1'' ''n2'' = None"
proof -
  obtain key pk where demo: "mpc_calls demo_crypto demo_ids {(''k1'', to_hex pk)} demo_state"
    "js_get (mpc_keys demo_state) ''k1'' = Some key" "mk_status key = KeyActive"
    "mk_nodes key = demo_nodes" "mk_threshold key = 2"
    "length (filter (hsm_isAvailable (mpc_hsm demo_state)) demo_nodes) = 3"
    using demo_ceremony by blast
  have "''n2'' \<in> set (mk_nodes key)" "mk_threshold key < int (length (mk_nodes key))"
    "mk_threshold key \<le> int (length (filter (hsm_isAvailable (mpc_hsm demo_state)) (mk_nodes key)))"
    "mk_status key \<noteq> KeyRevoked" "distinct (mk_nodes key)" using demo by (simp_all add: demo_nodes_def)
  from removeMember_keeps_key [OF demo(1) demo_sound demo(2) this(4,1-3,5), of demo_rnd 7] demo(4)
  show ?thesis by (auto simp: demo_nodes_def)
qed

text \<open>
  What may happen when an \<open>addMember\<close> is not awaited: the key is revoked after the old shares were
  deleted and before the new ones are stored. The revoked key is then dealt out again, and signs.
\<close>

theorem revoke_during_addMember:
  assumes "mpc_calls c I P s" and "ed25519_sound c"
    and "js_get (mpc_keys s) k = Some key" and "mk_status key \<noteq> KeyRevoked"
    and "distinct (nid # mk_nodes key)"
    and "reshare_collect key (mk_nodes key @ [nid]) rnd s = (Inr shares, s1)"
    and "revokeKey k s1 = (Some key1, s2)"
    and "reshare_deal key1 (mk_nodes key @ [nid]) shares now s2 = (Inr key2, s3)"
  shows "\<exists>seed. js_get (mpc_keys s3) k = Some key2 \<and> mk_status key2 = KeyRevoked \<and>
    key_custody c (mpc_hsm s3) key2 seed"
proof -
  have wf: "key_wf c (mpc_hsm s) k key"
    using mpc_inv_key [OF mpc_calls_inv [OF assms(1,2)] assms(3)] by simp
  then have id: "mk_id key = k" "no_colon k" by (auto simp: key_wf_def)
  obtain seed where dealt: "key_dealt c (mpc_hsm s) key seed" using key_wf_dealt [OF wf assms(4)] by blast
  let ?old = "List.map_filter (hsm_get (mpc_hsm s) (mk_id key)) (mk_nodes key)"
  obtain sd where *: "mk_threshold key \<le> int (length ?old)" "reconstruct ?old = Inr sd"
    "mpc_keys s1 = mpc_keys s"
    "split_secret sd (mk_threshold key) (int (length (mk_nodes key @ [nid]))) rnd = Inr shares"
    using assms(6) by (auto simp: reshare_collect_def collectAllShares_def Let_def split: sum.splits if_splits)
  have "sd = seed" by (rule dealt_recover [OF dealt *(2) order_refl *(1)])
  have key1: "key1 = key\<lparr>mk_status := KeyRevoked\<rparr>" and keys: "js_get (mpc_keys s2) k = Some key1"
    using assms(3,7) *(3) by (auto simp: revokeKey_def Let_def split: option.splits)
  have deal: "distributeShares k (mk_nodes key @ [nid]) shares (mpc_hsm s2) = Inr (mpc_hsm s3)"
    and key2: "mk_id key2 = k" "mk_status key2 = KeyRevoked" "mk_nodes key2 = mk_nodes key @ [nid]"
      "mk_threshold key2 = mk_threshold key" "mk_publicKey key2 = mk_publicKey key"
      "js_get (mpc_keys s3) k = Some key2"
    using assms(8) key1 id by (auto simp: reshare_deal_def put_key_def Let_def split: sum.splits)
  have "in_custody split_secret hsm_entry (mpc_hsm s3) k (mk_nodes key @ [nid]) (mk_threshold key) seed"
    using dealing_custody [OF *(4) deal _ id(2)] assms(5) \<open>sd = seed\<close> by simp
  then have "key_custody c (mpc_hsm s3) key2 seed"
    using dealt key2 by (auto simp: key_custody_def key_dealt_def)
  with key2 show ?thesis by blast
qed

theorem revoke_during_addMember_witness:
  "\<exists>key key2 shares s s1 s2 s3. js_get (mpc_keys s) ''k1'' = Some key \<and>
     reshare_collect key demo_nodes demo_rnd s = (Inr shares, s1) \<and>
     snd (revokeKey ''k1'' s1) = s2 \<and> snd (reshare_deal (key\<lparr>mk_status := KeyRevoked\<rparr>) demo_nodes shares 7 s2) = s3 \<and>
     js_get (mpc_keys s3) ''k1'' = Some key2 \<and> mk_status key2 = KeyRevoked \<and>
     (\<exists>seed. key_custody demo_crypto (mpc_hsm s3) key2 seed)"
proof -
  obtain key s where demo: "mpc_calls demo_crypto demo_ids {(''k1'', mk_publicKey key)} s"
    "js_get (mpc_keys s) ''k1'' = Some key" "mk_status key = KeyActive"
    "mk_nodes key = [''n1'', ''n2'']" "mk_threshold key = 2" "mpc_registry s = demo_registry"
    "length (filter (hsm_isAvailable (mpc_hsm s)) (mk_nodes key)) = 2"
    using demo_pair by blast
  have ns: "mk_nodes key @ [''n3''] = demo_nodes" "distinct (''n3'' # mk_nodes key)"
    using demo(4) by (simp_all add: demo_nodes_def)
  have "\<forall>i\<in>set (''n3'' # mk_nodes key). \<exists>node. getNode (mpc_registry s) i = Some node \<and> node_status node = Active"
    using demo_nodes_active demo(4,6) by (simp add: demo_nodes_def)
  from addMember_keeps_key [OF demo(1) demo_sound demo(2) _ ns(2) _ this, of demo_rnd 7] demo(3,4,5,7)
  obtain key' s' where "addMember ''k1'' ''n3'' demo_rnd 7 s = (Inr key', s')" by auto
  then have "reshare key demo_nodes demo_rnd 7 s = (Inr key', s')"
    using demo(2) ns by (auto simp: addMember_def getKeyOrThrow_def split: option.splits if_splits)
  then obtain shares s1 where collect: "reshare_collect key demo_nodes demo_rnd s = (Inr shares, s1)"
    unfolding reshare_halves by (auto split: prod.splits sum.splits)
  then have keys: "mpc_keys s1 = mpc_keys s" and len: "length shares = length demo_nodes"
    by (auto simp: reshare_collect_def dest: split_length split: sum.splits)
  let ?key1 = "key\<lparr>mk_status := KeyRevoked\<rparr>" and ?s2 = "snd (revokeKey ''k1'' s1)"
  have revoke: "revokeKey ''k1'' s1 = (Some ?key1, ?s2)"
    using demo(2) keys by (simp add: revokeKey_def Let_def)
  obtain key2 s3 where deal: "reshare_deal ?key1 demo_nodes shares 7 ?s2 = (Inr key2, s3)"
    using len by (simp add: reshare_deal_def distributeShares_def Let_def)
  have "mk_status key \<noteq> KeyRevoked" using demo(3) by simp
  from revoke_during_addMember [OF demo(1) demo_sound demo(2) this ns(2) collect [folded ns(1)] revoke
      deal [folded ns(1)]]
  obtain seed where new: "js_get (mpc_keys s3) ''k1'' = Some key2" "mk_status key2 = KeyRevoked"
    "key_custody demo_crypto (mpc_hsm s3) key2 seed" by blast
  show ?thesis
    by (rule exI [of _ key], rule exI [of _ key2], rule exI [of _ shares], rule exI [of _ s],
        rule exI [of _ s1], rule exI [of _ ?s2], rule exI [of _ s3])
      (use demo(2) collect deal new in auto)
qed

subsection \<open>Rotation\<close>

text \<open>
  C17: a failed ceremony, rotation, addition or removal leaves the service exactly as it was.
\<close>

theorem failed_operation_changes_nothing:
  "(case runCeremony c t nodes label notes seed rnd k cid now s of (Inl _, s') \<Rightarrow> s' = s | _ \<Rightarrow> True) \<and>
   (case rotateKey c k nodes' t' seed rnd now s of (Inl _, s') \<Rightarrow> s' = s | _ \<Rightarrow> True) \<and>
   (case addMember k nid rnd now s of (Inl _, s') \<Rightarrow> s' = s | _ \<Rightarrow> True) \<and>
   (case removeMember k nid rnd now s of (Inl _, s') \<Rightarrow> s' = s | _ \<Rightarrow> True)"
proof -
  have "s' = s" if "addMember k nid rnd now s = (Inl e, s')" for e s'
    using that by (auto simp: addMember_def dest: reshare_Inl split: sum.splits option.splits if_splits)
  moreover have "s' = s" if "removeMember k nid rnd now s = (Inl e, s')" for e s'
    using that by (auto simp: removeMember_def Let_def dest: reshare_Inl split: sum.splits if_splits)
  ultimately show ?thesis
    using runCeremony_Inl rotateKey_Inl by (fastforce split: sum.splits prod.splits)
qed

lemma rotateKey_eq:
  assumes "js_get (mpc_keys s) k = Some key" and "mk_id key = k" and "length seed = SEED_BYTES"
    and "2 \<le> t" "t \<le> int (length nodes)" "length nodes \<le> 254"
    and "\<forall>i\<in>set nodes. \<exists>node. getNode (mpc_registry s) i = Some node \<and> node_status node = Active"
  shows "\<exists>shares pk h key'. split_secret seed t (int (length nodes)) rnd = Inr shares \<and>
    publicKeyFromSeed c seed = Inr pk \<and>
    distributeShares k nodes shares (delete_shares k (mk_nodes key) (mpc_hsm s)) = Inr h \<and>
    key' = key\<lparr>mk_publicKey := to_hex pk, mk_threshold := t, mk_nodes := nodes,
      mk_version := mk_version key + 1, mk_rotatedAt := Some now, mk_status := KeyActive\<rparr> \<and>
    rotateKey c k (Some nodes) (Some t) seed rnd now s = (Inr key', put_key key' (s\<lparr>mpc_hsm := h\<rparr>))"
proof -
  obtain env where env: "assertByzantineCompatible t (int (length nodes)) = Inr env"
    using assms(4,5) by (cases "assertByzantineCompatible t (int (length nodes))")
      (auto simp: assertByzantineCompatible_Inl)
  have "seed \<noteq> []" using assms(3) by (auto simp: SEED_BYTES_def)
  then obtain shares where sh: "split_secret seed t (int (length nodes)) rnd = Inr shares"
    using assms(4-6) by (force simp: split_Inr)
  then have "length shares = length nodes" by (auto dest: split_length)
  then obtain h where "distributeShares k nodes shares (delete_shares k (mk_nodes key) (mpc_hsm s)) = Inr h"
    by (simp add: distributeShares_def)
  moreover obtain pk where "publicKeyFromSeed c seed = Inr pk"
    using assms(3) by (simp add: publicKeyFromSeed_def privateKeyFromSeed_def Let_def)
  ultimately show ?thesis
    using env sh assms(1,2,7) assertAllNodesActive_None [of "mpc_registry s" nodes]
    by (simp add: rotateKey_def getKeyOrThrow_def Let_def)
qed

text \<open>
  a rotation to distinct active nodes succeeds whatever the status of the key: a revoked key is
  active again afterwards and signs, under a new public key, as soon as a threshold of the new
  nodes is reachable.
\<close>

theorem rotateKey_revives_any_key:
  assumes "mpc_calls c I P s" and "ed25519_sound c" and "js_get (mpc_keys s) k = Some key"
    and "length seed = SEED_BYTES" and "2 \<le> t" "t \<le> int (length nodes)" "length nodes \<le> 254"
    and "distinct nodes"
    and "\<forall>i\<in>set nodes. \<exists>node. getNode (mpc_registry s) i = Some node \<and> node_status node = Active"
  shows "\<exists>key' s' pk. rotateKey c k (Some nodes) (Some t) seed rnd now s = (Inr key', s') \<and>
    js_get (mpc_keys s') k = Some key' \<and> mk_status key' = KeyActive \<and>
    mk_version key' = mk_version key + 1 \<and> mk_publicKey key' = to_hex pk \<and>
    (t \<le> int (length (filter (hsm_isAvailable (mpc_hsm s')) nodes)) \<longrightarrow>
      (\<exists>sig. signWithShares c (mpc_hsm s') key' payload = Inr sig \<and>
        ed_verify c pk payload sig = Inr True))"
proof -
  have wf: "key_wf c (mpc_hsm s) k key"
    using mpc_inv_key [OF mpc_calls_inv [OF assms(1,2)] assms(3)] by simp
  then have id: "mk_id key = k" "no_colon k" by (auto simp: key_wf_def)
  obtain key' s' pk where rot: "rotateKey c k (Some nodes) (Some t) seed rnd now s = (Inr key', s')"
    and pk: "publicKeyFromSeed c seed = Inr pk" "mk_publicKey key' = to_hex pk" "mk_threshold key' = t"
    using rotateKey_eq [OF assms(3) id(1) assms(4-7,9), of rnd c now] by auto
  note * = rotateKey_Inr [OF rot assms(3) id]
  have cust: "key_custody c (mpc_hsm s') key' seed" using *(1) assms(8) by simp
  have "\<exists>sig. signWithShares c (mpc_hsm s') key' payload = Inr sig \<and> ed_verify c pk payload sig = Inr True"
    if "t \<le> int (length (filter (hsm_isAvailable (mpc_hsm s')) nodes))"
    using signWithShares_custody [OF cust, of payload] that *(4) pk publicKey_verifies [OF assms(2) pk(1)]
    by (auto split: sum.splits)
  with rot * pk show ?thesis by auto
qed

theorem rotateKey_revives_any_key_witness:
  "\<exists>key key' s'. js_get (mpc_keys (snd (revokeKey ''k1'' demo_state))) ''k1'' = Some key \<and>
     mk_status key = KeyRevoked \<and>
     rotateKey demo_crypto ''k1'' (Some demo_nodes) (Some 2) (replicate 32 5) demo_rnd 9
       (snd (revokeKey ''k1'' demo_state)) = (Inr key', s') \<and> mk_status key' = KeyActive"
proof -
  obtain key pk where demo: "mpc_calls demo_crypto demo_ids {(''k1'', to_hex pk)} demo_state"
    "js_get (mpc_keys demo_state) ''k1'' = Some key" "mpc_registry demo_state = demo_registry"
    using demo_ceremony by blast
  obtain r s' where eq: "revokeKey ''k1'' demo_state = (r, s')" by fastforce
  then have key: "js_get (mpc_keys s') ''k1'' = Some (key\<lparr>mk_status := KeyRevoked\<rparr>)"
    and reg: "mpc_registry s' = demo_registry"
    using demo(2,3) by (auto simp: revokeKey_def Let_def)
  have prem: "length (replicate 32 5 :: byte list) = SEED_BYTES" "(2 :: int) \<le> 2"
    "2 \<le> int (length demo_nodes)" "length demo_nodes \<le> 254" "distinct demo_nodes"
    by (simp_all add: SEED_BYTES_def demo_nodes_def)
  have "\<exists>key' s''. rotateKey demo_crypto ''k1'' (Some demo_nodes) (Some 2) (replicate 32 5) demo_rnd 9 s' =
      (Inr key', s'') \<and> mk_status key' = KeyActive"
    using rotateKey_revives_any_key [OF run_revoke [OF demo(1) eq] demo_sound key prem
        demo_nodes_active [folded reg], of demo_rnd 9] by blast
  with key eq show ?thesis by simp
qed

text \<open>
  a rotation does not ask for distinct nodes. Rotating to the same active node twice with
  threshold two reports an active key, but its two shares overwrite each other, and signing fails
  even with the node reachable.
\<close>

theorem rotateKey_duplicates_unsignable:
  assumes "js_get (mpc_keys s) k = Some key" and "mk_id key = k" and "no_colon k"
    and "length seed = SEED_BYTES" and "hsm_isAvailable (mpc_hsm s) n"
    and "getNode (mpc_registry s) n = Some node" and "node_status node = Active"
  shows "\<exists>key' s'. rotateKey c k (Some [n, n]) (Some 2) seed rnd now s = (Inr key', s') \<and>
    mk_status key' = KeyActive \<and>
    signWithShares c (mpc_hsm s') key' payload = Inl (ShamirError DuplicateCoordinate)"
proof -
  let ?h = "delete_shares k (mk_nodes key) (mpc_hsm s)"
  obtain shares pk h key' where *: "split_secret seed 2 2 rnd = Inr shares"
    "distributeShares k [n, n] shares ?h = Inr h"
    "mk_status key' = KeyActive" "mk_nodes key' = [n, n]" "mk_threshold key' = 2" "mk_id key' = k"
    "rotateKey c k (Some [n, n]) (Some 2) seed rnd now s = (Inr key', put_key key' (s\<lparr>mpc_hsm := h\<rparr>))"
    using rotateKey_eq [OF assms(1,2,4), of 2 "[n, n]" rnd c now] assms(2,6,7) by auto
  from split_length [OF *(1)] obtain a b where shares: "shares = [a, b]"
    by (auto simp: length_Suc_conv numeral_2_eq_2)
  have h: "h = hsm_put k n b (hsm_put k n a ?h)"
    using *(2) by (simp add: shares distributeShares_eq)
  have "hsm_isAvailable h n"
    using assms(5) by (simp add: h hsm.available_put delete_shares_def hsm.available_del_all)
  then have get: "hsm_get h k n = Some b"
    by (simp add: hsm.get_entry h hsm.entry_put assms(3))
  have "share_x b \<noteq> 0"
    using split_shares(1) [OF *(1)] by (simp add: shares)
  then have "reconstruct [b, b] = Inl DuplicateCoordinate"
    by (simp add: reconstruct_def)
  then have "signWithShares c h key' payload = Inl (ShamirError DuplicateCoordinate)"
    using * get by (simp add: signWithShares_def collectShares_def collect_loop_eq
        List.map_filter_simps Let_def)
  with *(3,7) show ?thesis by (simp add: put_key_def)
qed

theorem rotateKey_duplicates_unsignable_witness:
  "\<exists>key' s'. rotateKey demo_crypto ''k1'' (Some [''n1'', ''n1'']) (Some 2) (replicate 32 5) demo_rnd 9
      demo_state = (Inr key', s') \<and> mk_status key' = KeyActive \<and>
    signWithShares demo_crypto (mpc_hsm s') key' [1] = Inl (ShamirError DuplicateCoordinate)"
proof -
  obtain key where demo: "js_get (mpc_keys demo_state) ''k1'' = Some key" "mk_id key = ''k1''"
    "mpc_registry demo_state = demo_registry"
    "length (filter (hsm_isAvailable (mpc_hsm demo_state)) demo_nodes) = 3"
    using demo_ceremony by blast
  have "hsm_isAvailable (mpc_hsm demo_state) ''n1''"
    using demo(4) by (auto simp: demo_nodes_def split: if_splits)
  moreover have "getNode (mpc_registry demo_state) ''n1'' = Some (demo_node ''n1'')"
    by (simp add: demo(3) getNode_def demo_registry_def demo_nodes_def)
  moreover have "node_status (demo_node ''n1'') = Active" by (simp add: demo_node_def)
  ultimately show ?thesis
    by (intro rotateKey_duplicates_unsignable [OF demo(1,2)]) (simp_all add: no_colon_def SEED_BYTES_def)
qed

end
