(* ===== verification/Multisig.thy ===== *)
theory Multisig
  imports Js
begin

text \<open>
  \<open>backend/src/services/multisig.ts\<close>: multisig groups, payment proposals and signer changes. The
  three maps of the service are the fields of \<open>multisig\<close>. Fresh ids and the clock, read once per
  call, are arguments; time stamps are integers (milliseconds) instead of ISO strings, amounts are
  rationals. A result \<open>undefined\<close> is \<open>None\<close>, an \<open>{ error }\<close> object an \<open>Inl\<close>.
\<close>

subsection \<open>State\<close>

datatype MultisigMode = Onchain | Offchain
datatype MultisigGroupStatus = GroupActive | GroupInactive
datatype MultisigProposalStatus = Pending | Approved | Executed | Rejected | Cancelled | Expired
datatype SignerChangeType = AddSigner | RemoveSigner | ChangeThreshold
datatype VoteAction = VoteApproved | VoteRejected

record MultisigGroup =
  grp_id :: string
  grp_name :: string
  grp_walletAddresses :: "string list"
  grp_threshold :: int
  grp_mode :: MultisigMode
  grp_createdAt :: int
  grp_updatedAt :: int
  grp_status :: MultisigGroupStatus
  grp_timeoutSeconds :: int

record MultisigApproval =
  apr_id :: string
  apr_proposalId :: string
  apr_signer :: string
  apr_signature :: string
  apr_action :: VoteAction
  apr_reason :: "string option"
  apr_timestamp :: int

record MultisigProposal =
  pro_id :: string
  pro_groupId :: string
  pro_amount :: rat
  pro_currency :: string
  pro_description :: "string option"
  pro_recipient :: "string option"
  pro_mode :: MultisigMode
  pro_status :: MultisigProposalStatus
  pro_approvals :: "MultisigApproval list"
  pro_createdAt :: int
  pro_updatedAt :: int
  pro_executedAt :: "int option"
  pro_expiresAt :: "int option"
  pro_metadata :: "(string, string) jsmap"

record SignerChangeProposal =
  scp_id :: string
  scp_groupId :: string
  scp_type :: SignerChangeType
  scp_targetSigner :: "string option"
  scp_newThreshold :: "int option"
  scp_proposerSigner :: string
  scp_approvals :: "MultisigApproval list"
  scp_status :: MultisigProposalStatus
  scp_createdAt :: int
  scp_updatedAt :: int
  scp_expiresAt :: "int option"

record multisig =
  ms_groups :: "(string, MultisigGroup) jsmap"
  ms_proposals :: "(string, MultisigProposal) jsmap"
  ms_changes :: "(string, SignerChangeProposal) jsmap"

datatype ms_error =
    GroupNotFoundOrInactive | ProposerNotSigner | AlreadySigner | AddressNotSigner
  | ThresholdUnreachable | ThresholdExceedsSigners
  | ProposalNotFound | NotPending | ProposalExpired | NotASigner | AlreadyVoted

definition ms_expiresAt :: "int \<Rightarrow> int \<Rightarrow> int option" where
  "ms_expiresAt timeoutSeconds now =
     (if timeoutSeconds = 0 then None else Some (now + timeoutSeconds * 1000))"

definition ms_isExpired :: "int option \<Rightarrow> int \<Rightarrow> bool" where
  "ms_isExpired expiresAt now = (case expiresAt of None \<Rightarrow> False | Some e \<Rightarrow> now > e)"

definition normalize :: "string \<Rightarrow> string" where
  "normalize a = to_lower (js_trim a)"

subsection \<open>Groups\<close>

definition createGroup ::
  "string \<Rightarrow> string \<Rightarrow> string list \<Rightarrow> int \<Rightarrow> MultisigMode option \<Rightarrow> int option \<Rightarrow> int \<Rightarrow>
   multisig \<Rightarrow> MultisigGroup \<times> multisig" where
  "createGroup i name addresses threshold mode timeoutSeconds now s =
     (let normalized = rev (remdups (rev (map normalize addresses)));
          grp = \<lparr>grp_id = i, grp_name = name, grp_walletAddresses = normalized,
            grp_threshold = min threshold (int (length normalized)),
            grp_mode = (case mode of Some m \<Rightarrow> m | None \<Rightarrow> Offchain),
            grp_createdAt = now, grp_updatedAt = now, grp_status = GroupActive,
            grp_timeoutSeconds = (case timeoutSeconds of Some t \<Rightarrow> t | None \<Rightarrow> 0)\<rparr>
      in (grp, s\<lparr>ms_groups := js_set i grp (ms_groups s)\<rparr>))"

definition listGroups :: "multisig \<Rightarrow> MultisigGroup list" where
  "listGroups s = newest_first grp_createdAt (js_values (ms_groups s))"

definition getGroup :: "string \<Rightarrow> multisig \<Rightarrow> MultisigGroup option" where
  "getGroup groupId s = js_get (ms_groups s) groupId"

definition updateGroup ::
  "string \<Rightarrow> string option \<Rightarrow> int option \<Rightarrow> int \<Rightarrow> multisig \<Rightarrow> MultisigGroup option \<times> multisig" where
  "updateGroup groupId name timeoutSeconds now s =
     (case js_get (ms_groups s) groupId of
        None \<Rightarrow> (None, s)
      | Some grp \<Rightarrow>
          let grp = (case name of Some n \<Rightarrow> grp\<lparr>grp_name := n\<rparr> | None \<Rightarrow> grp);
              grp = (case timeoutSeconds of Some t \<Rightarrow> grp\<lparr>grp_timeoutSeconds := t\<rparr> | None \<Rightarrow> grp);
              grp = grp\<lparr>grp_updatedAt := now\<rparr>
          in (Some grp, s\<lparr>ms_groups := js_set groupId grp (ms_groups s)\<rparr>))"

subsection \<open>Signer changes\<close>

definition invalidatePendingProposalsForGroup :: "string \<Rightarrow> int \<Rightarrow> multisig \<Rightarrow> multisig" where
  "invalidatePendingProposalsForGroup groupId now s =
     s\<lparr>ms_proposals := js_sweep (\<lambda>p. pro_groupId p = groupId \<and> pro_status p = Pending) pro_id
         (\<lambda>p. p\<lparr>pro_updatedAt := now\<rparr>) (ms_proposals s)\<rparr>"

text \<open>The group an executed signer change leaves behind.\<close>

definition changed_group :: "SignerChangeProposal \<Rightarrow> MultisigGroup \<Rightarrow> MultisigGroup" where
  "changed_group proposal grp =
     (let target = the (scp_targetSigner proposal)
      in if scp_type proposal = AddSigner \<and> truthy (scp_targetSigner proposal)
         then if target \<notin> set (grp_walletAddresses grp)
              then grp\<lparr>grp_walletAddresses := grp_walletAddresses grp @ [target]\<rparr> else grp
         else if scp_type proposal = RemoveSigner \<and> truthy (scp_targetSigner proposal)
         then
           let addresses = filter (\<lambda>a. a \<noteq> target) (grp_walletAddresses grp)
           in grp\<lparr>grp_walletAddresses := addresses,
                grp_threshold :=
                  (case scp_newThreshold proposal of
                     Some t \<Rightarrow> min t (int (length addresses))
                   | None \<Rightarrow> min (grp_threshold grp) (int (length addresses)))\<rparr>
         else
           case (scp_type proposal, scp_newThreshold proposal) of
             (ChangeThreshold, Some t) \<Rightarrow>
               grp\<lparr>grp_threshold := min t (int (length (grp_walletAddresses grp)))\<rparr>
           | _ \<Rightarrow> grp)"

definition evaluateSignerProposal ::
  "SignerChangeProposal \<Rightarrow> MultisigGroup \<Rightarrow> int \<Rightarrow> multisig \<Rightarrow> SignerChangeProposal \<times> multisig" where
  "evaluateSignerProposal proposal grp now s =
     (if int (length (filter (\<lambda>a. apr_action a = VoteApproved) (scp_approvals proposal)))
         < grp_threshold grp
      then (proposal, s)
      else
        let executed = proposal\<lparr>scp_status := Executed, scp_updatedAt := now\<rparr>;
            s = (if scp_type proposal = RemoveSigner \<and> truthy (scp_targetSigner proposal)
                 then invalidatePendingProposalsForGroup (grp_id grp) now s else s);
            grp = (changed_group proposal grp)\<lparr>grp_updatedAt := now\<rparr>
        in (executed, s\<lparr>ms_groups := js_set (grp_id grp) grp (ms_groups s)\<rparr>))"

definition proposer_error ::
  "MultisigGroup \<Rightarrow> SignerChangeType \<Rightarrow> string option \<Rightarrow> int option \<Rightarrow> ms_error option" where
  "proposer_error grp type targetSigner newThreshold =
     (let target = normalize (the targetSigner)
      in if type = AddSigner \<and> truthy targetSigner \<and> target \<in> set (grp_walletAddresses grp)
         then Some AlreadySigner
         else if type = RemoveSigner \<and> truthy targetSigner \<and> target \<notin> set (grp_walletAddresses grp)
         then Some AddressNotSigner
         else if type = RemoveSigner \<and> truthy targetSigner \<and>
           int (length (grp_walletAddresses grp)) - 1
             < (case newThreshold of Some t \<Rightarrow> t | None \<Rightarrow> grp_threshold grp)
         then Some ThresholdUnreachable
         else if type = ChangeThreshold \<and>
           (\<exists>t\<in>set_option newThreshold. t > int (length (grp_walletAddresses grp)))
         then Some ThresholdExceedsSigners
         else None)"

definition proposeSigner ::
  "string \<Rightarrow> string \<Rightarrow> string \<Rightarrow> SignerChangeType \<Rightarrow> string \<Rightarrow> string \<Rightarrow> string option \<Rightarrow> int option \<Rightarrow>
   int option \<Rightarrow> int \<Rightarrow> (multisig, ms_error, SignerChangeProposal) op" where
  "proposeSigner i approvalId groupId type proposerSigner proposerSignature targetSigner newThreshold
     timeoutSeconds now s =
     (case js_get (ms_groups s) groupId of
        None \<Rightarrow> (Inl GroupNotFoundOrInactive, s)
      | Some grp \<Rightarrow>
          if grp_status grp \<noteq> GroupActive then (Inl GroupNotFoundOrInactive, s)
          else if normalize proposerSigner \<notin> set (grp_walletAddresses grp)
          then (Inl ProposerNotSigner, s)
          else case proposer_error grp type targetSigner newThreshold of
            Some e \<Rightarrow> (Inl e, s)
          | None \<Rightarrow>
              let timeout = (case timeoutSeconds of Some t \<Rightarrow> t | None \<Rightarrow> grp_timeoutSeconds grp);
                  proposal = \<lparr>scp_id = i, scp_groupId = groupId, scp_type = type,
                    scp_targetSigner = map_option normalize targetSigner,
                    scp_newThreshold = newThreshold, scp_proposerSigner = normalize proposerSigner,
                    scp_approvals = [\<lparr>apr_id = approvalId, apr_proposalId = i,
                      apr_signer = normalize proposerSigner, apr_signature = proposerSignature,
                      apr_action = VoteApproved, apr_reason = None, apr_timestamp = now\<rparr>],
                    scp_status = Pending, scp_createdAt = now, scp_updatedAt = now,
                    scp_expiresAt = ms_expiresAt timeout now\<rparr>;
                  (proposal, s) = evaluateSignerProposal proposal grp now s
              in (Inr proposal, s\<lparr>ms_changes := js_set i proposal (ms_changes s)\<rparr>))"

definition approveSignerProposal ::
  "string \<Rightarrow> string \<Rightarrow> string \<Rightarrow> string \<Rightarrow> int \<Rightarrow> (multisig, ms_error, SignerChangeProposal) op" where
  "approveSignerProposal approvalId proposalId signer signature now s =
     (case js_get (ms_changes s) proposalId of
        None \<Rightarrow> (Inl ProposalNotFound, s)
      | Some proposal \<Rightarrow>
          if scp_status proposal \<noteq> Pending then (Inl NotPending, s)
          else case js_get (ms_groups s) (scp_groupId proposal) of
            None \<Rightarrow> (Inl GroupNotFoundOrInactive, s)
          | Some grp \<Rightarrow>
              if grp_status grp \<noteq> GroupActive then (Inl GroupNotFoundOrInactive, s)
              else if ms_isExpired (scp_expiresAt proposal) now
              then (Inl ProposalExpired,
                    s\<lparr>ms_changes := js_set proposalId
                        (proposal\<lparr>scp_status := Expired, scp_updatedAt := now\<rparr>) (ms_changes s)\<rparr>)
              else if normalize signer \<notin> set (grp_walletAddresses grp) then (Inl NotASigner, s)
              else if \<exists>a\<in>set (scp_approvals proposal). apr_signer a = normalize signer
              then (Inl AlreadyVoted, s)
              else
                let proposal = proposal\<lparr>scp_approvals := scp_approvals proposal @
                      [\<lparr>apr_id = approvalId, apr_proposalId = proposalId,
                        apr_signer = normalize signer, apr_signature = signature,
                        apr_action = VoteApproved, apr_reason = None, apr_timestamp = now\<rparr>],
                      scp_updatedAt := now\<rparr>;
                    (proposal, s) = evaluateSignerProposal proposal grp now s
                in (Inr proposal, s\<lparr>ms_changes := js_set proposalId proposal (ms_changes s)\<rparr>))"

definition listSignerChangeProposals :: "string option \<Rightarrow> multisig \<Rightarrow> SignerChangeProposal list" where
  "listSignerChangeProposals groupId s =
     newest_first scp_createdAt
       (filter (\<lambda>p. truthy groupId \<longrightarrow> Some (scp_groupId p) = groupId) (js_values (ms_changes s)))"

subsection \<open>Payment proposals\<close>

definition createProposal ::
  "string \<Rightarrow> string \<Rightarrow> rat \<Rightarrow> string \<Rightarrow> string option \<Rightarrow> string option \<Rightarrow> MultisigMode option \<Rightarrow>
   (string, string) jsmap option \<Rightarrow> int option \<Rightarrow> int \<Rightarrow> multisig \<Rightarrow> MultisigProposal option \<times> multisig" where
  "createProposal i groupId amount currency description recipient mode metadata timeoutSeconds now s =
     (case js_get (ms_groups s) groupId of
        None \<Rightarrow> (None, s)
      | Some grp \<Rightarrow>
          let timeout = (case timeoutSeconds of Some t \<Rightarrow> t | None \<Rightarrow> grp_timeoutSeconds grp);
              proposal = \<lparr>pro_id = i, pro_groupId = groupId, pro_amount = to_fixed2 amount,
                pro_currency = to_upper currency, pro_description = description,
                pro_recipient = recipient,
                pro_mode = (case mode of Some m \<Rightarrow> m | None \<Rightarrow> grp_mode grp),
                pro_status = Pending, pro_approvals = [], pro_createdAt = now, pro_updatedAt = now,
                pro_executedAt = None, pro_expiresAt = ms_expiresAt timeout now,
                pro_metadata = (case metadata of Some d \<Rightarrow> d | None \<Rightarrow> [])\<rparr>
          in (Some proposal, s\<lparr>ms_proposals := js_set i proposal (ms_proposals s)\<rparr>))"

definition listProposals ::
  "string option \<Rightarrow> MultisigProposalStatus option \<Rightarrow> multisig \<Rightarrow> MultisigProposal list" where
  "listProposals groupId status s =
     newest_first pro_createdAt
       (filter (\<lambda>p. status \<noteq> None \<longrightarrow> Some (pro_status p) = status)
         (filter (\<lambda>p. truthy groupId \<longrightarrow> Some (pro_groupId p) = groupId) (js_values (ms_proposals s))))"

definition expire_proposal :: "int \<Rightarrow> MultisigProposal \<Rightarrow> MultisigProposal" where
  "expire_proposal now p = p\<lparr>pro_status := Expired, pro_updatedAt := now\<rparr>"

definition due :: "int \<Rightarrow> MultisigProposal \<Rightarrow> bool" where
  "due now p \<longleftrightarrow> pro_status p = Pending \<and> ms_isExpired (pro_expiresAt p) now"

definition getProposal :: "string \<Rightarrow> int \<Rightarrow> multisig \<Rightarrow> MultisigProposal option \<times> multisig" where
  "getProposal proposalId now s =
     (case js_get (ms_proposals s) proposalId of
        None \<Rightarrow> (None, s)
      | Some proposal \<Rightarrow>
          if due now proposal
          then (Some (expire_proposal now proposal),
                s\<lparr>ms_proposals := js_set proposalId (expire_proposal now proposal) (ms_proposals s)\<rparr>)
          else (Some proposal, s))"

text \<open>Appending a vote, as \<open>approveProposal\<close> and \<open>rejectProposal\<close> do.\<close>

definition add_vote ::
  "string \<Rightarrow> string \<Rightarrow> string \<Rightarrow> VoteAction \<Rightarrow> string option \<Rightarrow> int \<Rightarrow> MultisigProposal \<Rightarrow> MultisigProposal" where
  "add_vote approvalId signer signature action reason now p =
     p\<lparr>pro_approvals := pro_approvals p @
         [\<lparr>apr_id = approvalId, apr_proposalId = pro_id p, apr_signer = signer,
           apr_signature = signature, apr_action = action, apr_reason = reason,
           apr_timestamp = now\<rparr>],
       pro_updatedAt := now\<rparr>"

definition approveProposal ::
  "string \<Rightarrow> string \<Rightarrow> string \<Rightarrow> string \<Rightarrow> int \<Rightarrow> multisig \<Rightarrow> MultisigProposal option \<times> multisig" where
  "approveProposal approvalId proposalId signer signature now s =
     (case js_get (ms_proposals s) proposalId of
        None \<Rightarrow> (None, s)
      | Some proposal \<Rightarrow>
          if due now proposal
          then (None,
                s\<lparr>ms_proposals := js_set proposalId (expire_proposal now proposal) (ms_proposals s)\<rparr>)
          else if pro_status proposal \<noteq> Pending then (None, s)
          else case js_get (ms_groups s) (pro_groupId proposal) of
            None \<Rightarrow> (None, s)
          | Some grp \<Rightarrow>
              if grp_status grp \<noteq> GroupActive then (None, s)
              else if normalize signer \<notin> set (grp_walletAddresses grp) then (None, s)
              else if \<exists>a\<in>set (pro_approvals proposal). apr_signer a = normalize signer
              then (Some proposal, s)
              else
                let proposal = add_vote approvalId (normalize signer) signature VoteApproved None now
                      proposal;
                    approvedSigners = set (map apr_signer
                      (filter (\<lambda>a. apr_action a = VoteApproved) (pro_approvals proposal)));
                    proposal =
                      (if int (card approvedSigners) \<ge> grp_threshold grp
                       then proposal\<lparr>pro_status := Executed, pro_executedAt := Some now\<rparr>
                       else proposal)
                in (Some proposal,
                    s\<lparr>ms_proposals := js_set (pro_id proposal) proposal (ms_proposals s)\<rparr>))"

definition rejectProposal ::
  "string \<Rightarrow> string \<Rightarrow> string \<Rightarrow> string \<Rightarrow> string option \<Rightarrow> int \<Rightarrow> multisig \<Rightarrow>
   MultisigProposal option \<times> multisig" where
  "rejectProposal approvalId proposalId signer signature reason now s =
     (case js_get (ms_proposals s) proposalId of
        None \<Rightarrow> (None, s)
      | Some proposal \<Rightarrow>
          if pro_status proposal \<noteq> Pending then (None, s)
          else case js_get (ms_groups s) (pro_groupId proposal) of
            None \<Rightarrow> (None, s)
          | Some grp \<Rightarrow>
              if grp_status grp \<noteq> GroupActive then (None, s)
              else if normalize signer \<notin> set (grp_walletAddresses grp) then (None, s)
              else if \<exists>a\<in>set (pro_approvals proposal). apr_signer a = normalize signer
              then (Some proposal, s)
              else
                let proposal = add_vote approvalId (normalize signer) signature VoteRejected reason now
                      proposal;
                    rejectedCount = length (filter (\<lambda>a. apr_action a = VoteRejected)
                      (pro_approvals proposal));
                    blockingThreshold =
                      int (length (grp_walletAddresses grp)) - grp_threshold grp + 1;
                    proposal =
                      (if int rejectedCount \<ge> blockingThreshold
                       then proposal\<lparr>pro_status := Rejected\<rparr> else proposal)
                in (Some proposal,
                    s\<lparr>ms_proposals := js_set (pro_id proposal) proposal (ms_proposals s)\<rparr>))"

definition cancelProposal :: "string \<Rightarrow> int \<Rightarrow> multisig \<Rightarrow> MultisigProposal option \<times> multisig" where
  "cancelProposal proposalId now s =
     (case js_get (ms_proposals s) proposalId of
        None \<Rightarrow> (None, s)
      | Some proposal \<Rightarrow>
          if pro_status proposal \<noteq> Pending then (None, s)
          else
            let proposal = proposal\<lparr>pro_status := Cancelled, pro_updatedAt := now\<rparr>
            in (Some proposal,
                s\<lparr>ms_proposals := js_set proposalId proposal (ms_proposals s)\<rparr>))"

definition change_due :: "int \<Rightarrow> SignerChangeProposal \<Rightarrow> bool" where
  "change_due now p \<longleftrightarrow> scp_status p = Pending \<and> ms_isExpired (scp_expiresAt p) now"

definition sweepExpiredProposals :: "int \<Rightarrow> multisig \<Rightarrow> nat \<times> multisig" where
  "sweepExpiredProposals now s =
     (length (filter (due now) (js_values (ms_proposals s))) +
      length (filter (change_due now) (js_values (ms_changes s))),
      s\<lparr>ms_proposals := js_sweep (due now) pro_id (expire_proposal now) (ms_proposals s),
        ms_changes := js_sweep (change_due now) scp_id
          (\<lambda>p. p\<lparr>scp_status := Expired, scp_updatedAt := now\<rparr>) (ms_changes s)\<rparr>)"

end
