(* ===== verification/MultisigProps.thy ===== *)
theory MultisigProps
  imports Multisig
begin

text \<open>
  The multisig service as a transition system, the invariant of its three maps, and its properties:
  settled proposals never change, execution needs a quorum of votes, one vote per signer, and what
  a removed signer's vote still does.
\<close>

subsection \<open>The invariant\<close>

definition approved_signers :: "MultisigProposal \<Rightarrow> string set" where
  "approved_signers p =
     set (map apr_signer (filter (\<lambda>a. apr_action a = VoteApproved) (pro_approvals p)))"

definition grp_wf :: "string \<Rightarrow> MultisigGroup \<Rightarrow> bool" where
  "grp_wf k g \<longleftrightarrow> grp_id g = k \<and> distinct (grp_walletAddresses g) \<and>
     grp_threshold g \<le> int (length (grp_walletAddresses g))"

definition pro_wf :: "string \<Rightarrow> MultisigProposal \<Rightarrow> bool" where
  "pro_wf k p \<longleftrightarrow> pro_id p = k \<and> distinct (map apr_signer (pro_approvals p)) \<and>
     pro_status p \<noteq> Approved \<and> (pro_status p = Executed \<longleftrightarrow> pro_executedAt p \<noteq> None) \<and>
     (pro_status p = Executed \<longrightarrow> pro_approvals p \<noteq> [])"

definition scp_wf :: "string \<Rightarrow> SignerChangeProposal \<Rightarrow> bool" where
  "scp_wf k p \<longleftrightarrow> scp_id p = k \<and> distinct (map apr_signer (scp_approvals p))"

definition ms_inv :: "multisig \<Rightarrow> bool" where
  "ms_inv s \<longleftrightarrow> js_wf (ms_groups s) \<and> js_wf (ms_proposals s) \<and> js_wf (ms_changes s) \<and>
     js_all grp_wf (ms_groups s) \<and> js_all pro_wf (ms_proposals s) \<and> js_all scp_wf (ms_changes s)"

lemma ms_inv_group: "ms_inv s \<Longrightarrow> js_get (ms_groups s) k = Some g \<Longrightarrow> grp_wf k g"
  unfolding ms_inv_def by (blast dest: js.entries_get)

lemma ms_inv_proposal: "ms_inv s \<Longrightarrow> js_get (ms_proposals s) k = Some p \<Longrightarrow> pro_wf k p"
  unfolding ms_inv_def by (blast dest: js.entries_get)

lemma ms_inv_change: "ms_inv s \<Longrightarrow> js_get (ms_changes s) k = Some p \<Longrightarrow> scp_wf k p"
  unfolding ms_inv_def by (blast dest: js.entries_get)

lemma ms_inv_set_group:
  "ms_inv s \<Longrightarrow> grp_wf k g \<Longrightarrow> ms_inv (s\<lparr>ms_groups := js_set k g (ms_groups s)\<rparr>)"
  by (simp add: ms_inv_def js.entries_put)

lemma ms_inv_set_proposal:
  "ms_inv s \<Longrightarrow> pro_wf k p \<Longrightarrow> ms_inv (s\<lparr>ms_proposals := js_set k p (ms_proposals s)\<rparr>)"
  by (simp add: ms_inv_def js.entries_put)

lemma ms_inv_set_change:
  "ms_inv s \<Longrightarrow> scp_wf k p \<Longrightarrow> ms_inv (s\<lparr>ms_changes := js_set k p (ms_changes s)\<rparr>)"
  by (simp add: ms_inv_def js.entries_put)

lemma pro_ids: "ms_inv s \<Longrightarrow> js_all (\<lambda>k p. pro_id p = k) (ms_proposals s)"
  unfolding ms_inv_def by (auto elim!: js.entries_mono simp: pro_wf_def)

lemma scp_ids: "ms_inv s \<Longrightarrow> js_all (\<lambda>k p. scp_id p = k) (ms_changes s)"
  unfolding ms_inv_def by (auto elim!: js.entries_mono simp: scp_wf_def)

lemma proposals_sweep_get:
  "ms_inv s \<Longrightarrow> js_get (js_sweep P pro_id f (ms_proposals s)) k =
     map_option (\<lambda>p. if P p then f p else p) (js_get (ms_proposals s) k)"
  by (rule js_sweep_get) (auto simp: pro_ids ms_inv_def)

lemma ms_inv_sweep_proposals:
  assumes "ms_inv s" and "\<And>k p. pro_wf k p \<Longrightarrow> P p \<Longrightarrow> pro_wf k (f p)"
  shows "ms_inv (s\<lparr>ms_proposals := js_sweep P pro_id f (ms_proposals s)\<rparr>)"
  using assms js_sweep_all [OF _ pro_ids [OF assms(1)], of pro_wf P f]
  by (auto simp: ms_inv_def)

lemma ms_inv_sweep_changes:
  assumes "ms_inv s" and "\<And>k p. scp_wf k p \<Longrightarrow> P p \<Longrightarrow> scp_wf k (f p)"
  shows "ms_inv (s\<lparr>ms_changes := js_sweep P scp_id f (ms_changes s)\<rparr>)"
  using assms js_sweep_all [OF _ scp_ids [OF assms(1)], of scp_wf P f]
  by (auto simp: ms_inv_def)

subsection \<open>What a step may do to the proposals\<close>

text \<open>
  A settled proposal stays as it is; a pending one keeps its votes, and it becomes executed only
  when the signers that approved it are at least the threshold of its group at that moment and the
  vote that tipped it came from a present signer.
\<close>

definition lawful :: "multisig \<Rightarrow> multisig \<Rightarrow> bool" where
  "lawful s s' \<longleftrightarrow> (\<forall>k p. js_get (ms_proposals s) k = Some p \<longrightarrow>
     (\<exists>p'. js_get (ms_proposals s') k = Some p' \<and> prefix (pro_approvals p) (pro_approvals p') \<and>
        (pro_status p \<noteq> Pending \<longrightarrow> p' = p) \<and>
        (pro_status p = Pending \<and> pro_status p' = Executed \<longrightarrow>
           (\<exists>g. js_get (ms_groups s) (pro_groupId p) = Some g \<and>
              grp_threshold g \<le> int (card (approved_signers p')) \<and>
              approved_signers p' - approved_signers p \<subseteq> set (grp_walletAddresses g)))))"

lemma lawfulI:
  assumes "\<And>k p. js_get (ms_proposals s) k = Some p \<Longrightarrow> \<exists>p'. js_get (ms_proposals s') k = Some p' \<and>
    prefix (pro_approvals p) (pro_approvals p') \<and> (pro_status p \<noteq> Pending \<longrightarrow> p' = p) \<and>
    (pro_status p = Pending \<and> pro_status p' = Executed \<longrightarrow>
       (\<exists>g. js_get (ms_groups s) (pro_groupId p) = Some g \<and>
          grp_threshold g \<le> int (card (approved_signers p')) \<and>
          approved_signers p' - approved_signers p \<subseteq> set (grp_walletAddresses g)))"
  shows "lawful s s'"
  using assms unfolding lawful_def by blast

lemma lawful_same: "ms_proposals s' = ms_proposals s \<Longrightarrow> lawful s s'"
  by (auto simp: lawful_def)

lemma lawful_set:
  assumes "js_get (ms_proposals s) k = Some p"
    and "ms_proposals s' = js_set k p' (ms_proposals s)" and "pro_status p = Pending"
    and "prefix (pro_approvals p) (pro_approvals p')"
    and "pro_status p' = Executed \<Longrightarrow> \<exists>g. js_get (ms_groups s) (pro_groupId p) = Some g \<and>
      grp_threshold g \<le> int (card (approved_signers p')) \<and>
      approved_signers p' - approved_signers p \<subseteq> set (grp_walletAddresses g)"
  shows "lawful s s'"
  using assms by (intro lawfulI) auto

lemma lawful_sweep:
  assumes "ms_inv s" and "ms_proposals s' = js_sweep P pro_id f (ms_proposals s)"
    and "\<And>p. P p \<Longrightarrow> pro_status p = Pending"
    and "\<And>p. pro_approvals (f p) = pro_approvals p" and "\<And>p. pro_status p = Pending \<Longrightarrow> pro_status (f p) \<noteq> Executed"
  shows "lawful s s'"
  unfolding lawful_def assms(2) proposals_sweep_get [OF assms(1)] using assms(3-5) by auto

subsection \<open>Every operation keeps the invariant and is lawful\<close>

lemma add_vote_wf:
  assumes "pro_wf k p" and "\<forall>a\<in>set (pro_approvals p). apr_signer a \<noteq> signer"
    and "pro_status p = Pending"
  shows "pro_wf k (add_vote i signer sig act r now p)"
    and "prefix (pro_approvals p) (pro_approvals (add_vote i signer sig act r now p))"
    and "approved_signers (add_vote i signer sig act r now p) =
      (if act = VoteApproved then insert signer (approved_signers p) else approved_signers p)"
  using assms by (auto simp: add_vote_def pro_wf_def approved_signers_def)

lemma add_vote_fields [simp]:
  "pro_id (add_vote i signer sig act r now p) = pro_id p"
  "pro_groupId (add_vote i signer sig act r now p) = pro_groupId p"
  "pro_status (add_vote i signer sig act r now p) = pro_status p"
  "pro_expiresAt (add_vote i signer sig act r now p) = pro_expiresAt p"
  "pro_executedAt (add_vote i signer sig act r now p) = pro_executedAt p"
  "pro_approvals (add_vote i signer sig act r now p) \<noteq> []"
  by (simp_all add: add_vote_def)

lemma expire_wf: "pro_wf k p \<Longrightarrow> due now p \<Longrightarrow> pro_wf k (expire_proposal now p)"
  by (simp add: pro_wf_def due_def expire_proposal_def)

lemma expire_lawful:
  assumes "js_get (ms_proposals s) k = Some p" and "due now p"
  shows "lawful s (s\<lparr>ms_proposals := js_set k (expire_proposal now p) (ms_proposals s)\<rparr>)"
  using assms by (intro lawful_set [OF assms(1)]) (auto simp: due_def expire_proposal_def)

lemma approveProposal_ok:
  assumes inv: "ms_inv s"
  shows "ms_inv (snd (approveProposal i k signer sig now s)) \<and>
    lawful s (snd (approveProposal i k signer sig now s))"
proof (cases "js_get (ms_proposals s) k")
  case (Some p)
  note wf = ms_inv_proposal [OF inv Some]
  show ?thesis
  proof (cases "due now p")
    case True
    then show ?thesis
      using inv wf Some by (simp add: approveProposal_def expire_wf expire_lawful ms_inv_set_proposal)
  next
    case False
    show ?thesis
    proof (cases "\<exists>g. pro_status p = Pending \<and> js_get (ms_groups s) (pro_groupId p) = Some g \<and>
        grp_status g = GroupActive \<and> normalize signer \<in> set (grp_walletAddresses g) \<and>
        (\<forall>a\<in>set (pro_approvals p). apr_signer a \<noteq> normalize signer)")
      case no: False
      have "snd (approveProposal i k signer sig now s) = s"
        using False no Some by (auto simp: approveProposal_def split: option.splits)
      then show ?thesis using inv by (simp add: lawful_same)
    next
      case True
      then obtain g where g: "pro_status p = Pending" "js_get (ms_groups s) (pro_groupId p) = Some g"
        "grp_status g = GroupActive" "normalize signer \<in> set (grp_walletAddresses g)"
        "\<forall>a\<in>set (pro_approvals p). apr_signer a \<noteq> normalize signer" by blast
      define q where "q = add_vote i (normalize signer) sig VoteApproved None now p"
      define p' where "p' = (if int (card (approved_signers q)) \<ge> grp_threshold g
        then q\<lparr>pro_status := Executed, pro_executedAt := Some now\<rparr> else q)"
      have id: "pro_id p = k" using wf by (simp add: pro_wf_def)
      have eq: "snd (approveProposal i k signer sig now s) =
          s\<lparr>ms_proposals := js_set k p' (ms_proposals s)\<rparr>"
        using False Some g id
        by (simp add: approveProposal_def q_def [symmetric] Let_def approved_signers_def p'_def) (simp add: q_def)
      note vote = add_vote_wf [OF wf g(5,1), of i sig VoteApproved None now, folded q_def]
      have "pro_wf k p'"
        using vote(1) by (auto simp: p'_def pro_wf_def q_def)
      moreover have "approved_signers p' = insert (normalize signer) (approved_signers p)"
        using vote(3) by (simp add: p'_def approved_signers_def)
      moreover have "lawful s (s\<lparr>ms_proposals := js_set k p' (ms_proposals s)\<rparr>)"
      proof (rule lawful_set [OF Some _ g(1)])
        show "prefix (pro_approvals p) (pro_approvals p')" using vote(2) by (simp add: p'_def)
        assume "pro_status p' = Executed"
        then have "grp_threshold g \<le> int (card (approved_signers p'))"
          using g(1) by (auto simp: p'_def q_def approved_signers_def split: if_splits)
        then show "\<exists>g. js_get (ms_groups s) (pro_groupId p) = Some g \<and>
            grp_threshold g \<le> int (card (approved_signers p')) \<and>
            approved_signers p' - approved_signers p \<subseteq> set (grp_walletAddresses g)"
          using g calculation(2) by auto
      qed simp
      ultimately show ?thesis unfolding eq using inv by (simp add: ms_inv_set_proposal)
    qed
  qed
qed (use inv in \<open>simp add: approveProposal_def lawful_same\<close>)

lemma rejectProposal_ok:
  assumes inv: "ms_inv s"
  shows "ms_inv (snd (rejectProposal i k signer sig r now s)) \<and>
    lawful s (snd (rejectProposal i k signer sig r now s))"
proof (cases "js_get (ms_proposals s) k")
  case (Some p)
  note wf = ms_inv_proposal [OF inv Some]
  show ?thesis
  proof (cases "\<exists>g. pro_status p = Pending \<and> js_get (ms_groups s) (pro_groupId p) = Some g \<and>
      grp_status g = GroupActive \<and> normalize signer \<in> set (grp_walletAddresses g) \<and>
      (\<forall>a\<in>set (pro_approvals p). apr_signer a \<noteq> normalize signer)")
    case no: False
    have "snd (rejectProposal i k signer sig r now s) = s"
      using no Some by (auto simp: rejectProposal_def split: option.splits)
    then show ?thesis using inv by (simp add: lawful_same)
  next
    case True
    then obtain g where g: "pro_status p = Pending" "js_get (ms_groups s) (pro_groupId p) = Some g"
      "grp_status g = GroupActive" "normalize signer \<in> set (grp_walletAddresses g)"
      "\<forall>a\<in>set (pro_approvals p). apr_signer a \<noteq> normalize signer" by blast
    define q where "q = add_vote i (normalize signer) sig VoteRejected r now p"
    define p' where "p' = (if int (length (filter (\<lambda>a. apr_action a = VoteRejected) (pro_approvals q)))
        \<ge> int (length (grp_walletAddresses g)) - grp_threshold g + 1 then q\<lparr>pro_status := Rejected\<rparr> else q)"
    have id: "pro_id p = k" using wf by (simp add: pro_wf_def)
    have eq: "snd (rejectProposal i k signer sig r now s) =
        s\<lparr>ms_proposals := js_set k p' (ms_proposals s)\<rparr>"
      using Some g id
      by (simp add: rejectProposal_def q_def [symmetric] Let_def p'_def) (simp add: q_def)
    note vote = add_vote_wf [OF wf g(5,1), of i sig VoteRejected r now, folded q_def]
    have "pro_wf k p'" using vote(1) g(1) by (auto simp: p'_def pro_wf_def q_def)
    moreover have "lawful s (s\<lparr>ms_proposals := js_set k p' (ms_proposals s)\<rparr>)"
      by (rule lawful_set [OF Some _ g(1), of _ p']) (use vote(2) g(1) in \<open>auto simp: p'_def q_def\<close>)
    ultimately show ?thesis unfolding eq using inv by (simp add: ms_inv_set_proposal)
  qed
qed (use inv in \<open>simp add: rejectProposal_def lawful_same\<close>)

lemma getProposal_ok:
  assumes inv: "ms_inv s"
  shows "ms_inv (snd (getProposal k now s)) \<and> lawful s (snd (getProposal k now s))"
proof (cases "js_get (ms_proposals s) k")
  case (Some p)
  with inv ms_inv_proposal [OF inv Some] show ?thesis
    by (simp add: getProposal_def expire_wf expire_lawful ms_inv_set_proposal lawful_same)
qed (use inv in \<open>simp add: getProposal_def lawful_same\<close>)

lemma cancelProposal_ok:
  assumes inv: "ms_inv s"
  shows "ms_inv (snd (cancelProposal k now s)) \<and> lawful s (snd (cancelProposal k now s))"
proof (cases "js_get (ms_proposals s) k")
  case (Some p)
  let ?p = "p\<lparr>pro_status := Cancelled, pro_updatedAt := now\<rparr>"
  have "pro_wf k ?p" if "pro_status p = Pending"
    using ms_inv_proposal [OF inv Some] that by (simp add: pro_wf_def)
  moreover have "lawful s (s\<lparr>ms_proposals := js_set k ?p (ms_proposals s)\<rparr>)" if "pro_status p = Pending"
    by (rule lawful_set [OF Some _ that, of _ ?p]) simp_all
  ultimately show ?thesis
    using inv Some by (simp add: cancelProposal_def ms_inv_set_proposal lawful_same Let_def)
qed (use inv in \<open>simp add: cancelProposal_def lawful_same\<close>)

lemma sweepExpiredProposals_ok:
  assumes inv: "ms_inv s"
  shows "ms_inv (snd (sweepExpiredProposals now s)) \<and> lawful s (snd (sweepExpiredProposals now s))"
proof
  have "ms_inv (s\<lparr>ms_proposals := js_sweep (due now) pro_id (expire_proposal now) (ms_proposals s)\<rparr>)"
    by (rule ms_inv_sweep_proposals [OF inv]) (rule expire_wf)
  from ms_inv_sweep_changes [OF this, of "change_due now" "\<lambda>p. p\<lparr>scp_status := Expired, scp_updatedAt := now\<rparr>"]
  show "ms_inv (snd (sweepExpiredProposals now s))"
    by (simp add: sweepExpiredProposals_def scp_wf_def)
  show "lawful s (snd (sweepExpiredProposals now s))"
    by (rule lawful_sweep [OF inv, of _ "due now" "expire_proposal now"])
      (simp_all add: sweepExpiredProposals_def due_def expire_proposal_def)
qed

lemma createProposal_ok:
  assumes inv: "ms_inv s" and "js_get (ms_proposals s) i = None"
  shows "ms_inv (snd (createProposal i g a cur d r m md t now s)) \<and>
    lawful s (snd (createProposal i g a cur d r m md t now s))"
proof (cases "js_get (ms_groups s) g")
  case (Some grp)
  then show ?thesis
    using inv assms(2)
    by (auto simp: createProposal_def Let_def ms_inv_def pro_wf_def js.entries_put intro!: lawfulI)
qed (use inv in \<open>simp add: createProposal_def lawful_same\<close>)

lemma createGroup_ok:
  assumes inv: "ms_inv s"
  shows "ms_inv (snd (createGroup i n as t m ts now s)) \<and> lawful s (snd (createGroup i n as t m ts now s))"
  using inv by (auto simp: createGroup_def Let_def grp_wf_def intro!: ms_inv_set_group lawful_same)

lemma updateGroup_ok:
  assumes inv: "ms_inv s"
  shows "ms_inv (snd (updateGroup k n t now s)) \<and> lawful s (snd (updateGroup k n t now s))"
proof (cases "js_get (ms_groups s) k")
  case (Some g)
  have "grp_wf k g" by (rule ms_inv_group [OF inv Some])
  with inv Some show ?thesis
    by (auto simp: updateGroup_def Let_def grp_wf_def intro!: ms_inv_set_group lawful_same split: option.splits)
qed (use inv in \<open>simp add: updateGroup_def lawful_same\<close>)

text \<open>Executing a signer change: the group keeps a reachable threshold.\<close>

lemma invalidate_ok:
  assumes inv: "ms_inv s"
  shows "ms_inv (invalidatePendingProposalsForGroup g now s) \<and>
    lawful s (invalidatePendingProposalsForGroup g now s)"
proof
  show "ms_inv (invalidatePendingProposalsForGroup g now s)"
    unfolding invalidatePendingProposalsForGroup_def
    by (rule ms_inv_sweep_proposals [OF inv]) (auto simp: pro_wf_def)
  show "lawful s (invalidatePendingProposalsForGroup g now s)"
    unfolding invalidatePendingProposalsForGroup_def
    by (rule lawful_sweep [OF inv, where f = "\<lambda>p. p\<lparr>pro_updatedAt := now\<rparr>"
          and P = "\<lambda>p. pro_groupId p = g \<and> pro_status p = Pending"]) auto
qed

lemma lawful_cong:
  "lawful s s' \<Longrightarrow> ms_proposals t' = ms_proposals s' \<Longrightarrow> lawful s t'"
  by (simp add: lawful_def)

lemma changed_group_wf: "grp_wf k g \<Longrightarrow> grp_wf k (changed_group p g)"
  by (auto simp: changed_group_def grp_wf_def Let_def
      split: option.split SignerChangeType.split)

lemma evaluateSignerProposal_ok:
  assumes inv: "ms_inv s" and wf: "grp_wf k g"
  shows "ms_inv (snd (evaluateSignerProposal p g now s)) \<and>
    lawful s (snd (evaluateSignerProposal p g now s))"
proof (cases "int (length (filter (\<lambda>a. apr_action a = VoteApproved) (scp_approvals p))) < grp_threshold g")
  case True
  with inv show ?thesis by (simp add: evaluateSignerProposal_def lawful_same)
next
  case False
  define s1 where "s1 = (if scp_type p = RemoveSigner \<and> truthy (scp_targetSigner p)
    then invalidatePendingProposalsForGroup (grp_id g) now s else s)"
  let ?g = "(changed_group p g)\<lparr>grp_updatedAt := now\<rparr>"
  have g: "grp_wf k ?g" using changed_group_wf [OF wf, of p] by (simp add: grp_wf_def)
  have "ms_inv s1" "lawful s s1"
    using invalidate_ok [OF inv] inv by (simp_all add: lawful_same s1_def)
  then have "ms_inv (s1\<lparr>ms_groups := js_set k ?g (ms_groups s1)\<rparr>)"
    and "lawful s (s1\<lparr>ms_groups := js_set k ?g (ms_groups s1)\<rparr>)"
    using ms_inv_set_group [OF _ g] by (auto elim!: lawful_cong)
  moreover have "snd (evaluateSignerProposal p g now s) = s1\<lparr>ms_groups := js_set k ?g (ms_groups s1)\<rparr>"
    using False g by (simp add: evaluateSignerProposal_def Let_def grp_wf_def s1_def [symmetric])
  ultimately show ?thesis by simp
qed

lemma evaluateSignerProposal_fields [simp]:
  "scp_id (fst (evaluateSignerProposal p g now s)) = scp_id p"
  "scp_approvals (fst (evaluateSignerProposal p g now s)) = scp_approvals p"
  "ms_changes (snd (evaluateSignerProposal p g now s)) = ms_changes s"
  by (simp_all add: evaluateSignerProposal_def Let_def invalidatePendingProposalsForGroup_def)

lemma proposeSigner_ok:
  assumes inv: "ms_inv s"
  shows "ms_inv (snd (proposeSigner i ai g ty ps sg ts nt to now s)) \<and>
    lawful s (snd (proposeSigner i ai g ty ps sg ts nt to now s))"
proof (cases "js_get (ms_groups s) g")
  case (Some grp)
  define p where "p = \<lparr>scp_id = i, scp_groupId = g, scp_type = ty,
    scp_targetSigner = map_option normalize ts, scp_newThreshold = nt,
    scp_proposerSigner = normalize ps,
    scp_approvals = [\<lparr>apr_id = ai, apr_proposalId = i, apr_signer = normalize ps,
      apr_signature = sg, apr_action = VoteApproved, apr_reason = None, apr_timestamp = now\<rparr>],
    scp_status = Pending, scp_createdAt = now, scp_updatedAt = now,
    scp_expiresAt = ms_expiresAt (case to of Some t \<Rightarrow> t | None \<Rightarrow> grp_timeoutSeconds grp) now\<rparr>"
  obtain q t where eval: "evaluateSignerProposal p grp now s = (q, t)" by fastforce
  have "scp_wf i q"
    using evaluateSignerProposal_fields(1,2) [of p grp now s, unfolded eval fst_conv]
    by (simp add: scp_wf_def p_def)
  moreover have "ms_inv t" "lawful s t"
    using evaluateSignerProposal_ok [OF inv ms_inv_group [OF inv Some], of p now] eval by simp_all
  ultimately have "ms_inv (t\<lparr>ms_changes := js_set i q (ms_changes t)\<rparr>) \<and>
      lawful s (t\<lparr>ms_changes := js_set i q (ms_changes t)\<rparr>)"
    by (auto intro: ms_inv_set_change elim: lawful_cong)
  then show ?thesis
    using inv Some eval
    by (simp add: proposeSigner_def p_def [symmetric] lawful_same split: option.split)
qed (use inv in \<open>simp add: proposeSigner_def lawful_same\<close>)

lemma approveSignerProposal_ok:
  assumes inv: "ms_inv s"
  shows "ms_inv (snd (approveSignerProposal ai k signer sg now s)) \<and>
    lawful s (snd (approveSignerProposal ai k signer sg now s))"
proof (cases "\<exists>p grp. js_get (ms_changes s) k = Some p \<and> scp_status p = Pending \<and>
    js_get (ms_groups s) (scp_groupId p) = Some grp \<and> grp_status grp = GroupActive")
  case True
  then obtain p grp where p: "js_get (ms_changes s) k = Some p" "scp_status p = Pending"
    "js_get (ms_groups s) (scp_groupId p) = Some grp" "grp_status grp = GroupActive" by blast
  have wf: "scp_wf k p" by (rule ms_inv_change [OF inv p(1)])
  define p' where "p' = p\<lparr>scp_approvals := scp_approvals p @
    [\<lparr>apr_id = ai, apr_proposalId = k, apr_signer = normalize signer, apr_signature = sg,
      apr_action = VoteApproved, apr_reason = None, apr_timestamp = now\<rparr>], scp_updatedAt := now\<rparr>"
  obtain q t where eval: "evaluateSignerProposal p' grp now s = (q, t)" by fastforce
  have ok: "ms_inv (t\<lparr>ms_changes := js_set k q (ms_changes t)\<rparr>) \<and>
      lawful s (t\<lparr>ms_changes := js_set k q (ms_changes t)\<rparr>)"
    if "\<forall>a\<in>set (scp_approvals p). apr_signer a \<noteq> normalize signer"
  proof -
    have "scp_wf k q"
      using evaluateSignerProposal_fields(1,2) [of p' grp now s, unfolded eval fst_conv] wf that
      by (auto simp: scp_wf_def p'_def)
    moreover have "ms_inv t" "lawful s t"
      using evaluateSignerProposal_ok [OF inv ms_inv_group [OF inv p(3)], of p' now] eval by simp_all
    ultimately show ?thesis by (auto intro: ms_inv_set_change elim: lawful_cong)
  qed
  have "scp_wf k (p\<lparr>scp_status := Expired, scp_updatedAt := now\<rparr>)"
    using wf by (simp add: scp_wf_def)
  then show ?thesis
    using inv p ok eval
    by (auto simp: approveSignerProposal_def p'_def [symmetric] lawful_same ms_inv_set_change)
next
  case False
  then have "snd (approveSignerProposal ai k signer sg now s) = s"
    by (auto simp: approveSignerProposal_def split: option.splits)
  with inv show ?thesis by (simp add: lawful_same)
qed

subsection \<open>The transition system\<close>

definition ms_init :: multisig where
  "ms_init = \<lparr>ms_groups = [], ms_proposals = [], ms_changes = []\<rparr>"

inductive ms_step :: "multisig \<Rightarrow> multisig \<Rightarrow> bool" where
  step_createGroup: "ms_step s (snd (createGroup i n as t m ts now s))"
| step_updateGroup: "ms_step s (snd (updateGroup k name ts now s))"
| step_proposeSigner: "ms_step s (snd (proposeSigner i ai g ty ps sg tgt nt ts now s))"
| step_approveSignerProposal: "ms_step s (snd (approveSignerProposal ai k signer sg now s))"
| step_createProposal: "js_get (ms_proposals s) i = None \<Longrightarrow>
    ms_step s (snd (createProposal i g a cur d r mode md ts now s))"
| step_getProposal: "ms_step s (snd (getProposal k now s))"
| step_approveProposal: "ms_step s (snd (approveProposal ai k signer sg now s))"
| step_rejectProposal: "ms_step s (snd (rejectProposal ai k signer sg r now s))"
| step_cancelProposal: "ms_step s (snd (cancelProposal k now s))"
| step_sweep: "ms_step s (snd (sweepExpiredProposals now s))"

lemmas ms_ops_ok = createGroup_ok updateGroup_ok proposeSigner_ok approveSignerProposal_ok
  createProposal_ok getProposal_ok approveProposal_ok rejectProposal_ok cancelProposal_ok
  sweepExpiredProposals_ok

lemma ms_step_ok: "ms_step s s' \<Longrightarrow> ms_inv s \<Longrightarrow> ms_inv s' \<and> lawful s s'"
  by (induction rule: ms_step.induct) (rule ms_ops_ok; assumption)+

lemma ms_reachable_inv: "ms_step\<^sup>*\<^sup>* ms_init s \<Longrightarrow> ms_inv s"
proof (induction rule: rtranclp_induct)
  case base
  show ?case by (simp add: ms_inv_def ms_init_def js.entries_empty)
qed (use ms_step_ok in blast)

subsection \<open>Properties\<close>

lemma lawful_settled:
  "lawful s s' \<Longrightarrow> js_get (ms_proposals s) k = Some p \<Longrightarrow> pro_status p \<noteq> Pending \<Longrightarrow>
   js_get (ms_proposals s') k = Some p"
  unfolding lawful_def by metis

lemma settled_steps:
  assumes "ms_step\<^sup>*\<^sup>* s s'" and "ms_inv s" and "js_get (ms_proposals s) k = Some p"
    and "pro_status p \<noteq> Pending"
  shows "ms_inv s' \<and> js_get (ms_proposals s') k = Some p"
  using assms(1)
proof (induction rule: rtranclp_induct)
  case (step t u)
  with ms_step_ok [OF step.hyps(2)] lawful_settled [OF _ _ assms(4)] show ?case by blast
qed (use assms in simp)

text \<open>
  C16: a payment proposal that is no longer pending (executed, rejected, cancelled or expired) is
  never changed again, field by field, by any sequence of calls of the service.
\<close>

theorem settled_proposal_is_final:
  assumes "ms_step\<^sup>*\<^sup>* ms_init s" and "ms_step\<^sup>*\<^sup>* s s'"
    and "js_get (ms_proposals s) k = Some p" and "pro_status p \<noteq> Pending"
  shows "js_get (ms_proposals s') k = Some p"
  using settled_steps [OF assms(2) ms_reachable_inv [OF assms(1)] assms(3,4)] by blast

text \<open>
  C7: in one step of the service a pending proposal can become executed only if the distinct
  signers that approved it are at least the group's threshold at that moment, and every approval
  that was added in this step is of a present signer of the group.
\<close>

theorem execution_needs_quorum:
  assumes "ms_step\<^sup>*\<^sup>* ms_init s" and "ms_step s s'"
    and "js_get (ms_proposals s) k = Some p" and "pro_status p = Pending"
    and "js_get (ms_proposals s') k = Some p'" and "pro_status p' = Executed"
  shows "\<exists>g. js_get (ms_groups s) (pro_groupId p) = Some g \<and>
    grp_threshold g \<le> int (card (approved_signers p')) \<and>
    approved_signers p' - approved_signers p \<subseteq> set (grp_walletAddresses g)"
  using ms_step_ok [OF assms(2) ms_reachable_inv [OF assms(1)]] assms(3-6)
  unfolding lawful_def by fastforce

text \<open>
  in every reachable state each signer has at most one vote on a proposal, a proposal has an
  execution time exactly when it is executed, and the threshold of a group never exceeds the number
  of its signers, none of which is listed twice.
\<close>

lemma multisig_invariant:
  assumes "ms_step\<^sup>*\<^sup>* ms_init s"
  shows "js_all (\<lambda>k p. distinct (map apr_signer (pro_approvals p)) \<and>
      (pro_status p = Executed) = (pro_executedAt p \<noteq> None)) (ms_proposals s) \<and>
    js_all (\<lambda>k g. distinct (grp_walletAddresses g) \<and>
      grp_threshold g \<le> int (length (grp_walletAddresses g))) (ms_groups s) \<and>
    js_all (\<lambda>k p. distinct (map apr_signer (scp_approvals p))) (ms_changes s)"
  using ms_reachable_inv [OF assms] unfolding ms_inv_def
  by (auto elim!: js.entries_mono simp: pro_wf_def grp_wf_def scp_wf_def)

text \<open>Several signers approving one proposal, one after the other.\<close>

definition approve_all :: "string \<Rightarrow> int \<Rightarrow> (string \<times> string \<times> string) list \<Rightarrow> multisig \<Rightarrow> multisig" where
  "approve_all k now votes s =
     fold (\<lambda>(i, signer, sig) s. snd (approveProposal i k signer sig now s)) votes s"

lemma approve_step:
  assumes "js_get (ms_proposals s) k = Some p" and "pro_id p = k" and "pro_status p = Pending"
    and "\<not> ms_isExpired (pro_expiresAt p) now"
    and "js_get (ms_groups s) (pro_groupId p) = Some g" and "grp_status g = GroupActive"
    and "normalize signer \<in> set (grp_walletAddresses g)"
    and "\<forall>a\<in>set (pro_approvals p). apr_signer a \<noteq> normalize signer"
  shows "\<exists>p' s'. approveProposal i k signer sig now s = (Some p', s') \<and>
    js_get (ms_proposals s') k = Some p' \<and> ms_groups s' = ms_groups s \<and> pro_id p' = k \<and>
    pro_groupId p' = pro_groupId p \<and> pro_expiresAt p' = pro_expiresAt p \<and>
    approved_signers p' = insert (normalize signer) (approved_signers p) \<and>
    apr_signer ` set (pro_approvals p') = insert (normalize signer) (apr_signer ` set (pro_approvals p)) \<and>
    normalize signer \<notin> approved_signers p \<and>
    pro_status p' = (if grp_threshold g \<le> int (card (approved_signers p')) then Executed else Pending)"
proof -
  define q where "q = add_vote i (normalize signer) sig VoteApproved None now p"
  have q: "approved_signers q = insert (normalize signer) (approved_signers p)"
    "apr_signer ` set (pro_approvals q) = insert (normalize signer) (apr_signer ` set (pro_approvals p))"
    "normalize signer \<notin> approved_signers p" "pro_status q = Pending"
    "pro_id q = k" "pro_groupId q = pro_groupId p" "pro_expiresAt q = pro_expiresAt p"
    using assms(2,3,8) by (auto simp: q_def add_vote_def approved_signers_def)
  define p' where "p' = (if grp_threshold g \<le> int (card (approved_signers q))
    then q\<lparr>pro_status := Executed, pro_executedAt := Some now\<rparr> else q)"
  have "approveProposal i k signer sig now s =
      (Some p', s\<lparr>ms_proposals := js_set k p' (ms_proposals s)\<rparr>)"
    using assms q(5) by (simp add: approveProposal_def due_def q_def [symmetric] p'_def
        approved_signers_def Let_def)
  moreover have "approved_signers p' = approved_signers q" by (simp add: p'_def approved_signers_def)
  ultimately show ?thesis using q by (simp add: p'_def)
qed

lemma approve_all_outcome:
  assumes "js_get (ms_proposals s) k = Some p" and "pro_id p = k" and "pro_status p = Pending"
    and "\<not> ms_isExpired (pro_expiresAt p) now"
    and "js_get (ms_groups s) (pro_groupId p) = Some g" and "grp_status g = GroupActive"
    and "distinct (map (\<lambda>(_, signer, _). normalize signer) votes)"
    and "(\<lambda>(_, signer, _). normalize signer) ` set votes \<subseteq> set (grp_walletAddresses g) - apr_signer ` set (pro_approvals p)"
    and "int (card (approved_signers p)) < grp_threshold g"
    and "int (card (approved_signers p) + length votes) \<le> grp_threshold g"
  shows "\<exists>p'. js_get (ms_proposals (approve_all k now votes s)) k = Some p' \<and>
    card (approved_signers p') = card (approved_signers p) + length votes \<and>
    pro_status p' = (if int (card (approved_signers p) + length votes) = grp_threshold g
      then Executed else Pending)"
  using assms
proof (induction votes arbitrary: s p)
  case (Cons v votes)
  obtain i signer sig where v: "v = (i, signer, sig)" by (cases v)
  have mem: "normalize signer \<in> set (grp_walletAddresses g)"
    "\<forall>a\<in>set (pro_approvals p). apr_signer a \<noteq> normalize signer"
    using Cons.prems(8) by (auto simp: v dest: rev_image_eqI [where f = apr_signer])
  obtain p' s' where step: "approveProposal i k signer sig now s = (Some p', s')"
    "js_get (ms_proposals s') k = Some p'" "ms_groups s' = ms_groups s" "pro_id p' = k"
    "pro_groupId p' = pro_groupId p" "pro_expiresAt p' = pro_expiresAt p"
    "approved_signers p' = insert (normalize signer) (approved_signers p)"
    "apr_signer ` set (pro_approvals p') = insert (normalize signer) (apr_signer ` set (pro_approvals p))"
    "normalize signer \<notin> approved_signers p"
    "pro_status p' = (if grp_threshold g \<le> int (card (approved_signers p')) then Executed else Pending)"
    using approve_step [OF Cons.prems(1-6) mem, of i sig] by blast
  have all: "approve_all k now (v # votes) s = approve_all k now votes s'"
    using step(1) by (simp add: approve_all_def v)
  have card: "card (approved_signers p') = Suc (card (approved_signers p))"
    using step(7,9) by (simp add: approved_signers_def)
  show ?case
  proof (cases "grp_threshold g \<le> int (card (approved_signers p'))")
    case True
    then have "length votes = 0" "int (card (approved_signers p')) = grp_threshold g"
      using Cons.prems(10) unfolding card list.size by linarith+
    with True show ?thesis unfolding all using step(2,10) card by (simp add: approve_all_def)
  next
    case False
    have "\<exists>q. js_get (ms_proposals (approve_all k now votes s')) k = Some q \<and>
        card (approved_signers q) = card (approved_signers p') + length votes \<and>
        pro_status q = (if int (card (approved_signers p') + length votes) = grp_threshold g
          then Executed else Pending)"
    proof (rule Cons.IH [OF step(2,4)])
      show "(\<lambda>(_, signer, _). normalize signer) ` set votes \<subseteq>
          set (grp_walletAddresses g) - apr_signer ` set (pro_approvals p')"
        unfolding step(8) using Cons.prems(7,8) unfolding v by (simp add: subset_iff) force
      show "pro_status p' = Pending" using False step(10) by simp
      show "int (card (approved_signers p') + length votes) \<le> grp_threshold g"
        using Cons.prems(10) card by simp
    qed (use Cons.prems step False v in auto)
    then show ?thesis unfolding all using card by simp
  qed
qed (use assms in \<open>auto simp: approve_all_def\<close>)

text \<open>
  a pending, unexpired proposal without votes is executed by exactly threshold many approvals:
  when distinct signers of its active group approve one after the other, it is pending after every
  vote but the last, and executed after the vote that makes their number the threshold.
\<close>

lemma threshold_approvals_execute:
  assumes "ms_step\<^sup>*\<^sup>* ms_init s" and "js_get (ms_proposals s) k = Some p" and "pro_status p = Pending"
    and "\<not> ms_isExpired (pro_expiresAt p) now" and "pro_approvals p = []"
    and "js_get (ms_groups s) (pro_groupId p) = Some g" and "grp_status g = GroupActive"
    and "distinct (map (\<lambda>(_, signer, _). normalize signer) votes)"
    and "(\<lambda>(_, signer, _). normalize signer) ` set votes \<subseteq> set (grp_walletAddresses g)"
    and "1 \<le> grp_threshold g" and "int (length votes) \<le> grp_threshold g"
  shows "\<exists>p'. js_get (ms_proposals (approve_all k now votes s)) k = Some p' \<and>
    card (approved_signers p') = length votes \<and>
    pro_status p' = (if int (length votes) = grp_threshold g then Executed else Pending)"
proof -
  have "pro_id p = k"
    using ms_inv_proposal [OF ms_reachable_inv [OF assms(1)] assms(2)] by (simp add: pro_wf_def)
  moreover have "card (approved_signers p) = 0" using assms(5) by (simp add: approved_signers_def)
  ultimately show ?thesis
    using approve_all_outcome [OF assms(2) _ assms(3,4,6,7,8)] assms(5,9-11) by simp
qed

definition rejected_signers :: "MultisigProposal \<Rightarrow> string set" where
  "rejected_signers p =
     set (map apr_signer (filter (\<lambda>a. apr_action a = VoteRejected) (pro_approvals p)))"

text \<open>
  a rejection is only declared when execution has become impossible: once \<open>rejectProposal\<close>
  marks a proposal rejected, the present signers that have not rejected it are fewer than the
  threshold (as long as the rejecting votes are of present signers).
\<close>

lemma rejection_is_definitive:
  assumes "ms_step\<^sup>*\<^sup>* ms_init s" and "rejectProposal i k signer sig r now s = (Some p, s')"
    and "pro_status p = Rejected" and "js_get (ms_groups s) (pro_groupId p) = Some g"
    and "rejected_signers p \<subseteq> set (grp_walletAddresses g)"
  shows "int (card (set (grp_walletAddresses g) - rejected_signers p)) < grp_threshold g"
proof -
  have inv: "ms_inv s" by (rule ms_reachable_inv [OF assms(1)])
  obtain q where q: "js_get (ms_proposals s) k = Some q" "pro_status q = Pending"
    using assms(2) by (auto simp: rejectProposal_def split: option.splits if_splits)
  have "ms_inv s'" using rejectProposal_ok [OF inv, of i k signer sig r now] assms(2) by simp
  moreover have "js_get (ms_proposals s') k = Some p"
    using assms(2,3) q ms_inv_proposal [OF inv q(1)]
    by (auto simp: rejectProposal_def Let_def pro_wf_def split: option.splits if_splits)
  ultimately have wf: "pro_wf k p" by (rule ms_inv_proposal)
  have blocked: "int (length (grp_walletAddresses g)) - grp_threshold g + 1
      \<le> int (length (filter (\<lambda>a. apr_action a = VoteRejected) (pro_approvals p)))"
    using assms(2,3,4) q by (auto simp: rejectProposal_def Let_def split: option.splits if_splits)
  have "distinct (map apr_signer (filter (\<lambda>a. apr_action a = VoteRejected) (pro_approvals p)))"
    using wf by (simp add: pro_wf_def distinct_map_filter)
  then have "card (rejected_signers p) = length (filter (\<lambda>a. apr_action a = VoteRejected) (pro_approvals p))"
    unfolding rejected_signers_def by (metis distinct_card length_map)
  moreover have "card (set (grp_walletAddresses g)) = length (grp_walletAddresses g)"
    using ms_inv_group [OF inv assms(4)] by (simp add: grp_wf_def distinct_card)
  moreover have "card (set (grp_walletAddresses g) - rejected_signers p) =
      card (set (grp_walletAddresses g)) - card (rejected_signers p)"
    using assms(5) by (intro card_Diff_subset) (simp_all add: rejected_signers_def)
  moreover have "card (rejected_signers p) \<le> card (set (grp_walletAddresses g))"
    using assms(5) by (intro card_mono) simp_all
  ultimately show ?thesis using blocked by linarith
qed

text \<open>
  a sweep expires exactly the pending payment proposals and signer changes whose time has
  passed, leaves every other one as it is, and reports how many it expired.
\<close>

theorem sweep_expires_exactly_the_due:
  assumes "ms_step\<^sup>*\<^sup>* ms_init s" and "sweepExpiredProposals now s = (n, s')"
  shows "js_get (ms_proposals s') k =
      map_option (\<lambda>p. if due now p then expire_proposal now p else p) (js_get (ms_proposals s) k) \<and>
    js_get (ms_changes s') k = map_option (\<lambda>p. if change_due now p
      then p\<lparr>scp_status := Expired, scp_updatedAt := now\<rparr> else p) (js_get (ms_changes s) k) \<and>
    ms_groups s' = ms_groups s \<and>
    n = length (filter (due now) (js_values (ms_proposals s))) +
      length (filter (change_due now) (js_values (ms_changes s)))"
proof -
  have inv: "ms_inv s" by (rule ms_reachable_inv [OF assms(1)])
  then have "js_wf (ms_changes s)" by (simp add: ms_inv_def)
  with assms(2) inv show ?thesis
    by (auto simp: sweepExpiredProposals_def proposals_sweep_get js_sweep_get [OF _ scp_ids])
qed

subsection \<open>A run\<close>

definition demo_ms1 :: multisig where
  "demo_ms1 = snd (createProposal ''p'' ''g'' 100 ''usd'' None None None None (Some 60) 1
     (snd (createGroup ''g'' ''Team'' [''a'', ''b'', ''c'', '' A''] 2 None None 0 ms_init)))"

lemma demo_ms1_reachable: "ms_step\<^sup>*\<^sup>* ms_init demo_ms1"
proof -
  let ?s = "snd (createGroup ''g'' ''Team'' [''a'', ''b'', ''c'', '' A''] 2 None None 0 ms_init)"
  have "ms_step ms_init ?s" by (rule step_createGroup)
  moreover have "ms_step ?s demo_ms1"
    unfolding demo_ms1_def by (rule step_createProposal) (simp add: createGroup_def ms_init_def Let_def)
  ultimately show ?thesis by simp
qed

lemma demo_normalize: "normalize ''a'' = ''a''" "normalize ''b'' = ''b''" "normalize ''c'' = ''c''"
  "normalize '' A'' = ''a''"
  by code_simp+

definition demo_group :: MultisigGroup where
  "demo_group = \<lparr>grp_id = ''g'', grp_name = ''Team'', grp_walletAddresses = [''a'', ''b'', ''c''],
     grp_threshold = 2, grp_mode = Offchain, grp_createdAt = 0, grp_updatedAt = 0,
     grp_status = GroupActive, grp_timeoutSeconds = 0\<rparr>"

definition demo_payment :: MultisigProposal where
  "demo_payment = \<lparr>pro_id = ''p'', pro_groupId = ''g'', pro_amount = to_fixed2 100,
     pro_currency = to_upper ''usd'', pro_description = None, pro_recipient = None,
     pro_mode = Offchain, pro_status = Pending, pro_approvals = [], pro_createdAt = 1,
     pro_updatedAt = 1, pro_executedAt = None, pro_expiresAt = Some 60001, pro_metadata = []\<rparr>"

lemma demo_ms1_eq:
  "demo_ms1 = \<lparr>ms_groups = [(''g'', demo_group)], ms_proposals = [(''p'', demo_payment)], ms_changes = []\<rparr>"
  by (simp add: demo_ms1_def createGroup_def createProposal_def ms_init_def demo_normalize
      demo_group_def demo_payment_def Let_def ms_expiresAt_def)

lemma threshold_approvals_execute_witness:
  "\<exists>p. js_get (ms_proposals (approve_all ''p'' 2 [(''v1'', ''a'', ''s''), (''v2'', ''b'', ''s'')] demo_ms1)) ''p'' =
     Some p \<and> pro_status p = Executed"
  using threshold_approvals_execute [OF demo_ms1_reachable, of "''p''" demo_payment 2 demo_group
      "[(''v1'', ''a'', ''s''), (''v2'', ''b'', ''s'')]"]
  by (auto simp: demo_ms1_eq demo_payment_def demo_group_def ms_isExpired_def demo_normalize)

lemma multisig_invariant_witness:
  "js_all (\<lambda>k g. distinct (grp_walletAddresses g) \<and>
     grp_threshold g \<le> int (length (grp_walletAddresses g))) (ms_groups demo_ms1)"
  using multisig_invariant [OF demo_ms1_reachable] by blast

theorem sweep_expires_exactly_the_due_witness:
  "js_get (ms_proposals (snd (sweepExpiredProposals 60002 demo_ms1))) ''p'' =
     Some (expire_proposal 60002 demo_payment)"
  using sweep_expires_exactly_the_due [OF demo_ms1_reachable, of 60002
      "fst (sweepExpiredProposals 60002 demo_ms1)" "snd (sweepExpiredProposals 60002 demo_ms1)" "''p''"]
  by (simp add: demo_ms1_eq due_def demo_payment_def ms_isExpired_def)

definition demo_executed :: multisig where
  "demo_executed = approve_all ''p'' 2 [(''v1'', ''a'', ''s''), (''v2'', ''b'', ''s'')] demo_ms1"

definition demo_half_approved :: multisig where
  "demo_half_approved = approve_all ''p'' 2 [(''v1'', ''a'', ''s'')] demo_ms1"

lemma demo_half_step: "ms_step demo_ms1 demo_half_approved"
  using step_approveProposal [of demo_ms1 "''v1''" "''p''" "''a''" "''s''" 2]
  by (simp add: demo_half_approved_def approve_all_def)

lemma demo_executed_step: "ms_step demo_half_approved demo_executed"
  using step_approveProposal [of demo_half_approved "''v2''" "''p''" "''b''" "''s''" 2]
  by (simp add: demo_executed_def demo_half_approved_def approve_all_def)

lemma demo_half_reachable: "ms_step\<^sup>*\<^sup>* ms_init demo_half_approved"
  and demo_executed_reachable: "ms_step\<^sup>*\<^sup>* ms_init demo_executed"
  using demo_ms1_reachable demo_half_step demo_executed_step by (meson rtranclp.rtrancl_into_rtrancl)+

definition demo_vote_a :: MultisigProposal where
  "demo_vote_a = add_vote ''v1'' ''a'' ''s'' VoteApproved None 2 demo_payment"

definition demo_vote_ab :: MultisigProposal where
  "demo_vote_ab = (add_vote ''v2'' ''b'' ''s'' VoteApproved None 2 demo_vote_a)
     \<lparr>pro_status := Executed, pro_executedAt := Some 2\<rparr>"

lemmas demo_payment_defs = demo_payment_def demo_vote_a_def demo_vote_ab_def add_vote_def

lemma demo_payment_facts:
  "pro_id demo_payment = ''p''" "pro_groupId demo_payment = ''g''" "pro_status demo_payment = Pending"
  "pro_approvals demo_payment = []" "pro_expiresAt demo_payment = Some 60001"
  "pro_id demo_vote_a = ''p''" "pro_groupId demo_vote_a = ''g''" "pro_status demo_vote_a = Pending"
  "map apr_signer (pro_approvals demo_vote_a) = [''a'']" "pro_expiresAt demo_vote_a = Some 60001"
  "map apr_signer (filter (\<lambda>a. apr_action a = VoteApproved) (pro_approvals demo_vote_a)) = [''a'']"
  "pro_status demo_vote_ab = Executed"
  "map apr_signer (filter (\<lambda>a. apr_action a = VoteApproved) (pro_approvals demo_vote_ab)) = [''a'', ''b'']"
  by (simp_all add: demo_payment_defs)

lemma demo_group_facts:
  "grp_id demo_group = ''g''" "grp_status demo_group = GroupActive"
  "grp_walletAddresses demo_group = [''a'', ''b'', ''c'']" "grp_threshold demo_group = 2"
  by (simp_all add: demo_group_def)

lemma add_vote_approved:
  "map apr_signer (filter (\<lambda>a. apr_action a = VoteApproved) (pro_approvals (add_vote i x s VoteApproved r n p))) =
   map apr_signer (filter (\<lambda>a. apr_action a = VoteApproved) (pro_approvals p)) @ [x]"
  by (simp add: add_vote_def)

lemma demo_half_eq:
  "demo_half_approved = \<lparr>ms_groups = [(''g'', demo_group)], ms_proposals = [(''p'', demo_vote_a)], ms_changes = []\<rparr>"
  by (simp add: demo_half_approved_def approve_all_def demo_ms1_eq approveProposal_def due_def
      demo_payment_facts demo_group_facts ms_isExpired_def demo_normalize Let_def add_vote_approved
      demo_vote_a_def del: set_map set_filter)

lemma demo_executed_eq:
  "demo_executed = \<lparr>ms_groups = [(''g'', demo_group)], ms_proposals = [(''p'', demo_vote_ab)], ms_changes = []\<rparr>"
proof -
  have "demo_executed = snd (approveProposal ''v2'' ''p'' ''b'' ''s'' 2 demo_half_approved)"
    by (simp add: demo_executed_def demo_half_approved_def approve_all_def)
  moreover have "\<not> (\<exists>a\<in>set (pro_approvals demo_vote_a). apr_signer a = ''b'')"
    by (simp add: demo_payment_defs)
  ultimately show ?thesis
    by (simp add: demo_half_eq approveProposal_def due_def demo_payment_facts demo_group_facts
        ms_isExpired_def demo_normalize Let_def add_vote_approved demo_vote_ab_def del: set_map set_filter)
qed

lemma demo_votes:
  "\<exists>p q. js_get (ms_proposals demo_half_approved) ''p'' = Some p \<and> pro_status p = Pending \<and>
     js_get (ms_proposals demo_executed) ''p'' = Some q \<and> pro_status q = Executed"
  by (simp add: demo_half_eq demo_executed_eq demo_payment_facts)

theorem settled_proposal_is_final_witness:
  "\<exists>p. js_get (ms_proposals demo_executed) ''p'' = Some p \<and>
     js_get (ms_proposals (snd (cancelProposal ''p'' 9 demo_executed))) ''p'' = Some p"
proof -
  obtain q where q: "js_get (ms_proposals demo_executed) ''p'' = Some q" "pro_status q = Executed"
    using demo_votes by blast
  have "ms_step\<^sup>*\<^sup>* demo_executed (snd (cancelProposal ''p'' 9 demo_executed))"
    using step_cancelProposal by blast
  from settled_proposal_is_final [OF demo_executed_reachable this q(1)] q show ?thesis by simp
qed

theorem execution_needs_quorum_witness:
  "\<exists>p. js_get (ms_proposals demo_executed) ''p'' = Some p \<and> grp_threshold demo_group = 2 \<and>
     grp_threshold demo_group \<le> int (card (approved_signers p))"
proof -
  obtain p q where pq: "js_get (ms_proposals demo_half_approved) ''p'' = Some p" "pro_status p = Pending"
    "js_get (ms_proposals demo_executed) ''p'' = Some q" "pro_status q = Executed"
    using demo_votes by blast
  have "js_get (ms_groups demo_half_approved) (pro_groupId p) = Some demo_group"
    using pq(1) by (auto simp: demo_half_eq demo_payment_facts)
  with execution_needs_quorum [OF demo_half_reachable demo_executed_step pq] pq(3)
  show ?thesis by (auto simp: demo_group_def)
qed

definition demo_rejected :: "MultisigProposal option \<times> multisig" where
  "demo_rejected = rejectProposal ''v2'' ''p'' ''b'' ''s'' None 3
     (snd (rejectProposal ''v1'' ''p'' ''a'' ''s'' None 2 demo_ms1))"

lemma rejection_is_definitive_witness:
  "\<exists>p. fst demo_rejected = Some p \<and> pro_status p = Rejected \<and>
     int (card (set (grp_walletAddresses demo_group) - rejected_signers p)) < grp_threshold demo_group"
proof -
  let ?s = "snd (rejectProposal ''v1'' ''p'' ''a'' ''s'' None 2 demo_ms1)"
  let ?q = "add_vote ''v1'' ''a'' ''s'' VoteRejected None 2 demo_payment"
  let ?p = "(add_vote ''v2'' ''b'' ''s'' VoteRejected None 3 ?q)\<lparr>pro_status := Rejected\<rparr>"
  have reach: "ms_step\<^sup>*\<^sup>* ms_init ?s"
    using demo_ms1_reachable step_rejectProposal by (rule rtranclp.rtrancl_into_rtrancl)
  have s: "?s = \<lparr>ms_groups = [(''g'', demo_group)], ms_proposals = [(''p'', ?q)], ms_changes = []\<rparr>"
    by (simp add: demo_ms1_eq rejectProposal_def demo_payment_facts demo_group_facts demo_normalize
        Let_def) (simp add: demo_payment_facts add_vote_def)
  have q: "\<not> (\<exists>a\<in>set (pro_approvals ?q). apr_signer a = ''b'')"
    "length (filter (\<lambda>a. apr_action a = VoteRejected) (pro_approvals (add_vote ''v2'' ''b'' ''s'' VoteRejected None 3 ?q))) = 2"
    by (simp_all add: demo_payment_defs)
  have rej: "rejectProposal ''v2'' ''p'' ''b'' ''s'' None 3 ?s = (Some ?p, snd demo_rejected)"
    unfolding demo_rejected_def s using q
    by (simp add: rejectProposal_def demo_payment_facts demo_group_facts demo_normalize Let_def)
  have "js_get (ms_groups ?s) (pro_groupId ?p) = Some demo_group"
    by (simp add: s demo_payment_facts)
  moreover have "rejected_signers ?p \<subseteq> set (grp_walletAddresses demo_group)"
    by (simp add: rejected_signers_def demo_payment_defs demo_group_facts)
  moreover have "fst demo_rejected = Some ?p" 
    unfolding demo_rejected_def by (subst rej) simp
  ultimately show ?thesis
    using rejection_is_definitive [OF reach rej] by (intro exI [of _ ?p]) simp
qed

definition demo_removed :: multisig where
  "demo_removed = snd (approveSignerProposal ''v3'' ''x'' ''c'' ''s'' 4
     (snd (proposeSigner ''x'' ''v2'' ''g'' RemoveSigner ''b'' ''s'' (Some ''a'') None None 3
       demo_half_approved)))"

lemma demo_removed_eq:
  "ms_groups demo_removed =
     [(''g'', demo_group\<lparr>grp_walletAddresses := [''b'', ''c''], grp_updatedAt := 4\<rparr>)]"
  "ms_proposals demo_removed = [(''p'', demo_vote_a\<lparr>pro_updatedAt := 4\<rparr>)]"
  by (simp_all add: demo_removed_def demo_half_eq proposeSigner_def approveSignerProposal_def
      demo_normalize demo_group_facts demo_payment_facts proposer_error_def truthy_def
      evaluateSignerProposal_def changed_group_def invalidatePendingProposalsForGroup_def
      js_sweep_def js_values_def ms_expiresAt_def ms_isExpired_def Let_def)
    (simp_all add: demo_group_def)

text \<open>
  a vote outlives the membership of its signer. In a 2-of-3 group, \<open>a\<close> approves a payment, then
  \<open>b\<close> and \<open>c\<close> remove \<open>a\<close> from the group (the threshold stays two), then \<open>b\<close> approves: the payment
  is executed although only one of the two present signers approved it.
\<close>

theorem removed_signer_vote_counts:
  "(case (js_get (ms_groups demo_removed) ''g'',
      fst (approveProposal ''v4'' ''p'' ''b'' ''s'' 5 demo_removed)) of
     (Some g, Some p) \<Rightarrow> grp_walletAddresses g = [''b'', ''c''] \<and> grp_threshold g = 2 \<and>
       pro_status p = Executed \<and> approved_signers p \<inter> set (grp_walletAddresses g) = {''b''}
   | _ \<Rightarrow> False)"
proof -
  have "\<not> (\<exists>a\<in>set (pro_approvals demo_vote_a). apr_signer a = ''b'')"
    by (simp add: demo_payment_defs)
  then show ?thesis
    by (simp add: approveProposal_def demo_removed_eq due_def demo_payment_facts demo_group_facts
        ms_isExpired_def demo_normalize Let_def approved_signers_def add_vote_approved
        del: set_map set_filter)
qed

text \<open>
  \<open>rejectProposal\<close> does not look at the expiry that \<open>approveProposal\<close> and \<open>getProposal\<close> enforce:
  a vote against a pending proposal is recorded after its time has passed.
\<close>

theorem reject_ignores_expiry:
  assumes "js_get (ms_proposals s) k = Some p" and "pro_id p = k" and "due now p"
    and "js_get (ms_groups s) (pro_groupId p) = Some g" and "grp_status g = GroupActive"
    and "normalize signer \<in> set (grp_walletAddresses g)"
    and "\<forall>a\<in>set (pro_approvals p). apr_signer a \<noteq> normalize signer"
  shows "fst (approveProposal i k signer sig now s) = None \<and>
    (\<exists>p' s'. rejectProposal i k signer sig r now s = (Some p', s') \<and>
      rejected_signers p' = insert (normalize signer) (rejected_signers p) \<and>
      pro_status p' \<in> {Pending, Rejected} \<and> js_get (ms_proposals s') k = Some p')"
proof -
  define q where "q = add_vote i (normalize signer) sig VoteRejected r now p"
  have "rejected_signers (q\<lparr>pro_status := st\<rparr>) = insert (normalize signer) (rejected_signers p)"
    "rejected_signers q = insert (normalize signer) (rejected_signers p)" for st
    by (auto simp: q_def rejected_signers_def add_vote_def)
  moreover have "pro_id q = k" "pro_status q = Pending" using assms(2,3) by (simp_all add: q_def due_def)
  ultimately show ?thesis
    using assms by (auto simp: approveProposal_def rejectProposal_def q_def [symmetric] Let_def due_def)
qed

theorem reject_ignores_expiry_witness:
  "fst (approveProposal ''v1'' ''p'' ''a'' ''s'' 60002 demo_ms1) = None \<and>
   (\<exists>p. fst (rejectProposal ''v1'' ''p'' ''a'' ''s'' None 60002 demo_ms1) = Some p \<and>
      rejected_signers p = {''a''})"
proof -
  have "rejected_signers demo_payment = {}" by (simp add: rejected_signers_def demo_payment_def)
  then show ?thesis
    using reject_ignores_expiry [of demo_ms1 "''p''" demo_payment 60002 demo_group "''a''" "''v1''" "''s''" None]
    by (auto simp: demo_ms1_eq demo_payment_def demo_group_def due_def ms_isExpired_def demo_normalize)
qed

end
