(* ===== verification/Refund.thy ===== *)
theory Refund
  imports Js
begin

text \<open>
  \<open>backend/src/services/refund-engine.ts\<close>: refund policies, the evaluation of a request, the
  approval workflow, processing through a payment provider, jobs, queries and metrics. Amounts are
  rationals (the code has doubles), time stamps integers, the identifiers from \<open>randomUUID\<close> and the
  clock arguments. The payment provider is a parameter. \<open>processRefund\<close> suspends while it waits for
  the provider, so it is two steps, \<open>process_start\<close> and \<open>process_finish\<close>, which other handlers may
  interleave; both work on the one object that the map holds. An entry of the audit log is its
  actor, action and resource.
\<close>

subsection \<open>Types\<close>

datatype RefundStatus = RPending | RApproved | RRejected | RProcessing | RCompleted | RFailed | RCancelled
datatype RefundDecision = DecApproved | DecManualReview | DecRejected
datatype PaymentMethod = Card | Crypto | BankTransfer
datatype CustomerTier = Basic | Premium | Enterprise
datatype RuleOperator = OpEq | OpNeq | OpGt | OpGte | OpLt | OpLte | OpIn | OpNotIn | OpContains
datatype RuleOutcome = RuleApprove | RuleReject | RuleManualReview
datatype ApprovalLevel = First | Second | Third
datatype ApprovalStatus = AppPending | AppApproved | AppRejected

text \<open>The values a rule can name: \<open>null\<close> and objects are \<open>JOther\<close>.\<close>

datatype jsval = JNum rat | JStr string | JBool bool | JArr "jsval list" | JOther

record PolicyRule =
  rule_id :: string
  rule_field :: string
  rule_operator :: RuleOperator
  rule_value :: jsval
  rule_outcome :: RuleOutcome
  rule_priority :: rat

record RefundPolicy =
  pol_id :: string
  pol_workspaceId :: string
  pol_name :: string
  pol_fullRefundWindowDays :: rat
  pol_autoApprovalThreshold :: rat
  pol_alwaysRefundUnderAmount :: rat
  pol_maxPartialRefundPct :: rat
  pol_requireReason :: bool
  pol_firstApprovalThreshold :: rat
  pol_secondApprovalThreshold :: rat
  pol_rules :: "PolicyRule list"
  pol_isActive :: bool
  pol_createdAt :: int
  pol_updatedAt :: int

record LineItem =
  li_label :: string
  li_amount :: rat
  li_quantity :: rat
  li_reason :: "string option"

record RefundEvaluationInput =
  inp_workspaceId :: string
  inp_paymentId :: string
  inp_paymentType :: PaymentMethod
  inp_amountPaid :: rat
  inp_requestedAmount :: rat
  inp_currency :: string
  inp_daysSincePayment :: rat
  inp_reason :: "string option"
  inp_hasChargeback :: bool
  inp_hasDispute :: bool
  inp_customerTier :: "CustomerTier option"
  inp_customerTotalSpent :: "rat option"
  inp_previousRefundCount :: "rat option"
  inp_previousRefundAmount :: "rat option"
  inp_lineItems :: "LineItem list option"

record RefundApproval =
  app_level :: ApprovalLevel
  app_approverId :: string
  app_status :: ApprovalStatus
  app_comment :: "string option"
  app_approvedAt :: "int option"

record RefundHistoryEntry =
  his_timestamp :: int
  his_action :: string
  his_actor :: string
  his_fromStatus :: RefundStatus
  his_toStatus :: RefundStatus
  his_comment :: "string option"

datatype decision_reason = RuleMatched PolicyRule | Reason string

record RefundRecord =
  ref_id :: string
  ref_workspaceId :: string
  ref_paymentId :: string
  ref_paymentType :: PaymentMethod
  ref_stripeRefundId :: "string option"
  ref_amount :: rat
  ref_currency :: string
  ref_reason :: "string option"
  ref_status :: RefundStatus
  ref_decision :: "RefundDecision option"
  ref_decisionReasons :: "decision_reason list"
  ref_approvedBy :: "string option"
  ref_processedAt :: "int option"
  ref_completedAt :: "int option"
  ref_cancelledAt :: "int option"
  ref_failureReason :: "string option"
  ref_autoProcessed :: bool
  ref_lineItems :: "LineItem list"
  ref_approvals :: "RefundApproval list"
  ref_history :: "RefundHistoryEntry list"
  ref_matchedRuleId :: "string option"
  ref_createdAt :: int
  ref_updatedAt :: int

record RefundEvent =
  rev_workspaceId :: string
  rev_decision :: RefundDecision
  rev_amount :: rat
  rev_currency :: string
  rev_reason :: "string option"
  rev_customerTier :: "CustomerTier option"
  rev_paymentType :: PaymentMethod
  rev_autoProcessed :: bool
  rev_createdAt :: int

datatype JobType = JobProcess | JobRetry | JobCancel
datatype JobStatus = JobQueued | JobRunning | JobCompleted | JobFailed

record RefundJob =
  job_id :: string
  job_refundId :: string
  job_workspaceId :: string
  job_type :: JobType
  job_status :: JobStatus
  job_attempts :: int
  job_maxAttempts :: int
  job_lastError :: "string option"
  job_createdAt :: int
  job_updatedAt :: int

record refund_state =
  rf_policies :: "(string, RefundPolicy) jsmap"
  rf_refunds :: "(string, RefundRecord) jsmap"
  rf_jobs :: "(string, RefundJob) jsmap"
  rf_events :: "RefundEvent list"
  rf_audit :: "(string \<times> string \<times> string) list"

datatype rf_error =
    ReasonRequired | RefundNotFound | NoApprovalNeeded ApprovalLevel | ApprovalResolved ApprovalLevel
  | RefundNotApproved | AlreadyFinalized RefundStatus | RefundNotFailed | ProviderThrew string

definition log_audit :: "string \<Rightarrow> string \<Rightarrow> string \<Rightarrow> refund_state \<Rightarrow> refund_state" where
  "log_audit actor action resource s = s\<lparr>rf_audit := rf_audit s @ [(actor, action, resource)]\<rparr>"

subsection \<open>Policies\<close>

definition defaultPolicy :: "string \<Rightarrow> int \<Rightarrow> string \<Rightarrow> RefundPolicy" where
  "defaultPolicy i now workspaceId =
     \<lparr>pol_id = i, pol_workspaceId = workspaceId, pol_name = ''default'',
      pol_fullRefundWindowDays = 30, pol_autoApprovalThreshold = 100,
      pol_alwaysRefundUnderAmount = 25, pol_maxPartialRefundPct = 100, pol_requireReason = True,
      pol_firstApprovalThreshold = 500, pol_secondApprovalThreshold = 5000, pol_rules = [],
      pol_isActive = True, pol_createdAt = now, pol_updatedAt = now\<rparr>"

text \<open>The id and the time stamps of the argument \<open>input\<close> are not part of the code's input.\<close>

definition upsertRefundPolicy ::
  "string \<Rightarrow> RefundPolicy \<Rightarrow> int \<Rightarrow> refund_state \<Rightarrow> RefundPolicy \<times> refund_state" where
  "upsertRefundPolicy i input now s =
     (let existing = find (\<lambda>p. pol_workspaceId p = pol_workspaceId input \<and> pol_name p = pol_name input)
            (js_values (rf_policies s));
          policy = (case existing of
              Some p \<Rightarrow> input\<lparr>pol_id := pol_id p, pol_createdAt := pol_createdAt p, pol_updatedAt := now\<rparr>
            | None \<Rightarrow> input\<lparr>pol_id := i, pol_createdAt := now, pol_updatedAt := now\<rparr>)
      in (policy,
          log_audit ''system''
            (if existing = None then ''refund_policy.created'' else ''refund_policy.updated'')
            (''refund_policy:'' @ pol_id policy)
            (s\<lparr>rf_policies := js_set (pol_id policy) policy (rf_policies s)\<rparr>)))"

definition getRefundPolicy ::
  "string \<Rightarrow> int \<Rightarrow> string \<Rightarrow> string option \<Rightarrow> refund_state \<Rightarrow> RefundPolicy" where
  "getRefundPolicy i now workspaceId name s =
     (let policies = filter (\<lambda>p. pol_workspaceId p = workspaceId \<and> pol_isActive p)
            (js_values (rf_policies s))
      in if truthy name
         then (case find (\<lambda>p. Some (pol_name p) = name) policies of
                 Some p \<Rightarrow> p | None \<Rightarrow> defaultPolicy i now workspaceId)
         else (case policies of p # _ \<Rightarrow> p | [] \<Rightarrow> defaultPolicy i now workspaceId))"

definition listRefundPolicies :: "string \<Rightarrow> refund_state \<Rightarrow> RefundPolicy list" where
  "listRefundPolicies workspaceId s =
     filter (\<lambda>p. pol_workspaceId p = workspaceId) (js_values (rf_policies s))"

definition deleteRefundPolicy :: "string \<Rightarrow> int \<Rightarrow> refund_state \<Rightarrow> bool \<times> refund_state" where
  "deleteRefundPolicy policyId now s =
     (case js_get (rf_policies s) policyId of
        None \<Rightarrow> (False, s)
      | Some policy \<Rightarrow>
          (True, log_audit ''system'' ''refund_policy.deleted'' (''refund_policy:'' @ policyId)
             (s\<lparr>rf_policies := js_set policyId
                 (policy\<lparr>pol_isActive := False, pol_updatedAt := now\<rparr>) (rf_policies s)\<rparr>)))"

subsection \<open>Custom rules\<close>

definition method_name :: "PaymentMethod \<Rightarrow> string" where
  "method_name m = (case m of Card \<Rightarrow> ''card'' | Crypto \<Rightarrow> ''crypto'' | BankTransfer \<Rightarrow> ''bank_transfer'')"

definition tier_name :: "CustomerTier \<Rightarrow> string" where
  "tier_name t = (case t of Basic \<Rightarrow> ''basic'' | Premium \<Rightarrow> ''premium'' | Enterprise \<Rightarrow> ''enterprise'')"

definition has_reason :: "RefundEvaluationInput \<Rightarrow> bool" where
  "has_reason input = truthy (map_option js_trim (inp_reason input))"

definition getFieldValue :: "RefundEvaluationInput \<Rightarrow> string \<Rightarrow> jsval option" where
  "getFieldValue input field =
     (if field = ''amount_paid'' then Some (JNum (inp_amountPaid input))
      else if field = ''requested_amount'' then Some (JNum (inp_requestedAmount input))
      else if field = ''days_since_payment'' then Some (JNum (inp_daysSincePayment input))
      else if field = ''payment_type'' then Some (JStr (method_name (inp_paymentType input)))
      else if field = ''customer_tier'' then map_option (JStr \<circ> tier_name) (inp_customerTier input)
      else if field = ''customer_total_spent'' then map_option JNum (inp_customerTotalSpent input)
      else if field = ''previous_refund_count'' then map_option JNum (inp_previousRefundCount input)
      else if field = ''previous_refund_amount'' then map_option JNum (inp_previousRefundAmount input)
      else if field = ''has_chargeback'' then Some (JBool (inp_hasChargeback input))
      else if field = ''has_dispute'' then Some (JBool (inp_hasDispute input))
      else if field = ''has_reason'' then Some (JBool (has_reason input))
      else if field = ''reason'' then map_option JStr (inp_reason input)
      else if field = ''currency'' then Some (JStr (inp_currency input))
      else None)"

text \<open>\<open>===\<close> on a field value, which is a number, a string or a boolean.\<close>

fun strict_eq :: "jsval \<Rightarrow> jsval \<Rightarrow> bool" where
  "strict_eq (JNum a) (JNum b) = (a = b)"
| "strict_eq (JStr a) (JStr b) = (a = b)"
| "strict_eq (JBool a) (JBool b) = (a = b)"
| "strict_eq _ _ = False"

fun evaluateOperator :: "RuleOperator \<Rightarrow> jsval \<Rightarrow> jsval \<Rightarrow> bool" where
  "evaluateOperator OpEq a b = strict_eq a b"
| "evaluateOperator OpNeq a b = (\<not> strict_eq a b)"
| "evaluateOperator OpGt (JNum a) (JNum b) = (a > b)"
| "evaluateOperator OpGte (JNum a) (JNum b) = (a \<ge> b)"
| "evaluateOperator OpLt (JNum a) (JNum b) = (a < b)"
| "evaluateOperator OpLte (JNum a) (JNum b) = (a \<le> b)"
| "evaluateOperator OpIn a (JArr bs) = (\<exists>b\<in>set bs. strict_eq a b)"
| "evaluateOperator OpNotIn a (JArr bs) = (\<not> (\<exists>b\<in>set bs. strict_eq a b))"
| "evaluateOperator OpContains (JStr a) (JStr b) = sublist b a"
| "evaluateOperator _ _ _ = False"

definition outcome_decision :: "RuleOutcome \<Rightarrow> RefundDecision" where
  "outcome_decision out =
     (case out of RuleApprove \<Rightarrow> DecApproved | RuleReject \<Rightarrow> DecRejected | RuleManualReview \<Rightarrow> DecManualReview)"

fun first_matching_rule :: "PolicyRule list \<Rightarrow> RefundEvaluationInput \<Rightarrow> (RefundDecision \<times> PolicyRule) option" where
  "first_matching_rule [] input = None"
| "first_matching_rule (rule # rules) input =
     (case getFieldValue input (rule_field rule) of
        None \<Rightarrow> first_matching_rule rules input
      | Some fieldValue \<Rightarrow>
          if evaluateOperator (rule_operator rule) fieldValue (rule_value rule)
          then Some (outcome_decision (rule_outcome rule), rule)
          else first_matching_rule rules input)"

definition evaluateCustomRules ::
  "PolicyRule list \<Rightarrow> RefundEvaluationInput \<Rightarrow> (RefundDecision \<times> PolicyRule) option" where
  "evaluateCustomRules rules input =
     first_matching_rule (sort_key (\<lambda>r. - rule_priority r) rules) input"

subsection \<open>Evaluating a request\<close>

definition builtin_decision ::
  "RefundPolicy \<Rightarrow> RefundEvaluationInput \<Rightarrow> RefundDecision \<times> string \<times> ApprovalLevel option" where
  "builtin_decision policy input =
     (if inp_hasChargeback input \<or> inp_hasDispute input
      then (DecManualReview, ''Chargeback/dispute requires manual review'', Some First)
      else if inp_requestedAmount input \<le> pol_alwaysRefundUnderAmount policy
      then (DecApproved, ''Requested amount below always-refund threshold'', None)
      else if inp_daysSincePayment input \<le> pol_fullRefundWindowDays policy \<and>
        inp_requestedAmount input \<le> inp_amountPaid input
      then (DecApproved, ''Within full refund window'', None)
      else
        let maxPartialAmount = inp_amountPaid input * pol_maxPartialRefundPct policy / 100
        in if inp_requestedAmount input > maxPartialAmount
           then (DecRejected, ''Requested amount exceeds partial refund policy'', None)
           else if inp_requestedAmount input \<le> pol_autoApprovalThreshold policy
           then (DecApproved, ''Within auto-approval threshold'', None)
           else if inp_requestedAmount input \<le> pol_firstApprovalThreshold policy
           then (DecManualReview, ''Requires first-level approval'', Some First)
           else if inp_requestedAmount input \<le> pol_secondApprovalThreshold policy
           then (DecManualReview, ''Requires second-level approval'', Some Second)
           else (DecManualReview, ''Requires third-level approval'', Some Third))"

definition decision_status :: "RefundDecision \<Rightarrow> RefundStatus" where
  "decision_status d =
     (case d of DecApproved \<Rightarrow> RApproved | DecRejected \<Rightarrow> RRejected | DecManualReview \<Rightarrow> RPending)"

definition decision_action :: "RefundDecision \<Rightarrow> string" where
  "decision_action d =
     (case d of DecApproved \<Rightarrow> ''auto_approved'' | DecRejected \<Rightarrow> ''rejected'' | DecManualReview \<Rightarrow> ''pending_review'')"

definition decision_name :: "RefundDecision \<Rightarrow> string" where
  "decision_name d =
     (case d of DecApproved \<Rightarrow> ''approved'' | DecRejected \<Rightarrow> ''rejected'' | DecManualReview \<Rightarrow> ''manual_review'')"

definition createRefundRecord ::
  "string \<Rightarrow> RefundEvaluationInput \<Rightarrow> RefundDecision \<Rightarrow> decision_reason list \<Rightarrow> ApprovalLevel option \<Rightarrow>
   PolicyRule option \<Rightarrow> int \<Rightarrow> refund_state \<Rightarrow> refund_state" where
  "createRefundRecord i input decision reasons requiredApprovalLevel matchedRule now s =
     (let refund = \<lparr>ref_id = i, ref_workspaceId = inp_workspaceId input,
            ref_paymentId = inp_paymentId input, ref_paymentType = inp_paymentType input,
            ref_stripeRefundId = None, ref_amount = inp_requestedAmount input,
            ref_currency = inp_currency input, ref_reason = inp_reason input,
            ref_status = decision_status decision, ref_decision = Some decision,
            ref_decisionReasons = reasons, ref_approvedBy = None, ref_processedAt = None,
            ref_completedAt = None, ref_cancelledAt = None, ref_failureReason = None,
            ref_autoProcessed = (decision = DecApproved),
            ref_lineItems = (case inp_lineItems input of Some ls \<Rightarrow> ls | None \<Rightarrow> []),
            ref_approvals = (case requiredApprovalLevel of
                Some l \<Rightarrow> [\<lparr>app_level = l, app_approverId = [], app_status = AppPending,
                            app_comment = None, app_approvedAt = None\<rparr>]
              | None \<Rightarrow> []),
            ref_history = [\<lparr>his_timestamp = now, his_action = decision_action decision,
              his_actor = ''system'', his_fromStatus = RPending,
              his_toStatus = decision_status decision,
              his_comment = map_option (\<lambda>r. ''Matched rule: '' @ rule_id r) matchedRule\<rparr>],
            ref_matchedRuleId = map_option rule_id matchedRule,
            ref_createdAt = now, ref_updatedAt = now\<rparr>
      in log_audit ''system'' (''refund.'' @ decision_name decision) (''refund:'' @ i)
           (s\<lparr>rf_refunds := js_set i refund (rf_refunds s)\<rparr>))"

definition trackRefundEvent ::
  "RefundEvaluationInput \<Rightarrow> RefundDecision \<Rightarrow> int \<Rightarrow> refund_state \<Rightarrow> refund_state" where
  "trackRefundEvent input decision now s =
     s\<lparr>rf_events := rf_events s @
         [\<lparr>rev_workspaceId = inp_workspaceId input, rev_decision = decision,
           rev_amount = inp_requestedAmount input, rev_currency = inp_currency input,
           rev_reason = inp_reason input, rev_customerTier = inp_customerTier input,
           rev_paymentType = inp_paymentType input, rev_autoProcessed = (decision = DecApproved),
           rev_createdAt = now\<rparr>]\<rparr>"

record RefundEvaluation =
  ev_decision :: RefundDecision
  ev_reasons :: "decision_reason list"
  ev_policy :: RefundPolicy
  ev_amountApproved :: rat
  ev_requiredApprovalLevel :: "ApprovalLevel option"
  ev_matchedRule :: "PolicyRule option"

text \<open>\<open>i\<close> is the id of the new refund, \<open>pid\<close> the one that \<open>defaultPolicy\<close> draws.\<close>

definition evaluateRefund ::
  "string \<Rightarrow> string \<Rightarrow> RefundEvaluationInput \<Rightarrow> int \<Rightarrow> (refund_state, rf_error, RefundEvaluation) op" where
  "evaluateRefund i pid input now s =
     (let policy = getRefundPolicy pid now (inp_workspaceId input) None s
      in if pol_requireReason policy \<and> \<not> has_reason input then (Inl ReasonRequired, s)
         else
           let (decision, reasons, level, matched) =
             (case evaluateCustomRules (pol_rules policy) input of
                Some (decision, rule) \<Rightarrow>
                  (decision, [RuleMatched rule],
                   if decision = DecManualReview then Some First else None, Some rule)
              | None \<Rightarrow>
                  let (decision, reason, level) = builtin_decision policy input
                  in (decision, [Reason reason], level, None))
           in (Inr \<lparr>ev_decision = decision, ev_reasons = reasons, ev_policy = policy,
                 ev_amountApproved = (if decision = DecApproved then inp_requestedAmount input else 0),
                 ev_requiredApprovalLevel = level, ev_matchedRule = matched\<rparr>,
               trackRefundEvent input decision now
                 (createRefundRecord i input decision reasons level matched now s)))"

subsection \<open>Approval workflow\<close>

definition find_refund :: "refund_state \<Rightarrow> string \<Rightarrow> rf_error + RefundRecord" where
  "find_refund s i =
     (case js_get (rf_refunds s) i of None \<Rightarrow> Inl RefundNotFound | Some r \<Rightarrow> Inr r)"

definition put_refund :: "string \<Rightarrow> RefundRecord \<Rightarrow> refund_state \<Rightarrow> refund_state" where
  "put_refund i r s = s\<lparr>rf_refunds := js_set i r (rf_refunds s)\<rparr>"

definition push_history ::
  "int \<Rightarrow> string \<Rightarrow> string \<Rightarrow> RefundStatus \<Rightarrow> RefundStatus \<Rightarrow> string option \<Rightarrow> RefundRecord \<Rightarrow> RefundRecord" where
  "push_history now action actor fromStatus toStatus comment r =
     r\<lparr>ref_updatedAt := now, ref_history := ref_history r @
         [\<lparr>his_timestamp = now, his_action = action, his_actor = actor,
           his_fromStatus = fromStatus, his_toStatus = toStatus, his_comment = comment\<rparr>]\<rparr>"

definition resolve_approval ::
  "ApprovalLevel \<Rightarrow> ApprovalStatus \<Rightarrow> string \<Rightarrow> string option \<Rightarrow> int \<Rightarrow> RefundRecord \<Rightarrow> RefundRecord" where
  "resolve_approval level st approverId comment now r =
     r\<lparr>ref_approvals := update_first (\<lambda>a. app_level a = level)
         (\<lambda>a. a\<lparr>app_status := st, app_approverId := approverId, app_comment := comment,
                 app_approvedAt := Some now\<rparr>) (ref_approvals r)\<rparr>"

definition approveRefund ::
  "string \<Rightarrow> string \<Rightarrow> ApprovalLevel \<Rightarrow> string option \<Rightarrow> int \<Rightarrow> (refund_state, rf_error, RefundRecord) op" where
  "approveRefund refundId approverId level comment now s =
     (case find_refund s refundId of
        Inl e \<Rightarrow> (Inl e, s)
      | Inr refund \<Rightarrow>
     (case find (\<lambda>a. app_level a = level) (ref_approvals refund) of
        None \<Rightarrow> (Inl (NoApprovalNeeded level), s)
      | Some approval \<Rightarrow>
          if app_status approval \<noteq> AppPending then (Inl (ApprovalResolved level), s)
          else
            let fromStatus = ref_status refund;
                refund = resolve_approval level AppApproved approverId comment now refund;
                allApproved = list_all (\<lambda>a. app_status a = AppApproved) (ref_approvals refund);
                refund = (if allApproved
                  then refund\<lparr>ref_status := RApproved, ref_decision := Some DecApproved,
                         ref_approvedBy := Some approverId\<rparr>
                  else refund);
                refund = push_history now ''approved'' approverId fromStatus (ref_status refund) comment
                  refund
            in (Inr refund,
                log_audit approverId ''refund.approved'' (''refund:'' @ refundId)
                  (put_refund refundId refund s))))"

definition rejectRefund ::
  "string \<Rightarrow> string \<Rightarrow> ApprovalLevel \<Rightarrow> string option \<Rightarrow> int \<Rightarrow> (refund_state, rf_error, RefundRecord) op" where
  "rejectRefund refundId approverId level comment now s =
     (case find_refund s refundId of
        Inl e \<Rightarrow> (Inl e, s)
      | Inr refund \<Rightarrow>
     (case find (\<lambda>a. app_level a = level) (ref_approvals refund) of
        None \<Rightarrow> (Inl (NoApprovalNeeded level), s)
      | Some approval \<Rightarrow>
          let fromStatus = ref_status refund;
              refund = (resolve_approval level AppRejected approverId comment now refund)
                \<lparr>ref_status := RRejected, ref_decision := Some DecRejected\<rparr>;
              refund = push_history now ''rejected'' approverId fromStatus RRejected comment refund
          in (Inr refund,
              log_audit approverId ''refund.rejected'' (''refund:'' @ refundId)
                (put_refund refundId refund s))))"

subsection \<open>Processing\<close>

text \<open>What the provider's promise settles to.\<close>

datatype provider_result = Success "string option" | Failure "string option" | Throws string

definition process_start :: "string \<Rightarrow> int \<Rightarrow> (refund_state, rf_error, RefundRecord) op" where
  "process_start refundId now s =
     (case find_refund s refundId of
        Inl e \<Rightarrow> (Inl e, s)
      | Inr refund \<Rightarrow>
          if ref_status refund \<noteq> RApproved then (Inl RefundNotApproved, s)
          else
            let refund = push_history now ''processing_started'' ''system'' RApproved RProcessing None
                  (refund\<lparr>ref_status := RProcessing, ref_processedAt := Some now\<rparr>)
            in (Inr refund, put_refund refundId refund s))"

text \<open>
  The continuation after the provider's answer. \<open>RefundRecord\<close> objects are never replaced in the
  map, so the object captured before the suspension is the one stored now; \<open>None\<close> cannot occur.
\<close>

definition process_finish ::
  "string \<Rightarrow> provider_result \<Rightarrow> int \<Rightarrow> (refund_state, rf_error, RefundRecord) op" where
  "process_finish refundId result now s =
     (case find_refund s refundId of
        Inl e \<Rightarrow> (Inl e, s)
      | Inr refund \<Rightarrow>
     (case result of
        Throws msg \<Rightarrow>
          let refund = push_history now ''failed'' ''system'' RProcessing RFailed (Some msg)
                (refund\<lparr>ref_status := RFailed, ref_failureReason := Some msg\<rparr>)
          in (Inl (ProviderThrew msg),
              log_audit ''system'' ''refund.failed'' (''refund:'' @ refundId)
                (put_refund refundId refund s))
      | Success txHash \<Rightarrow>
          let refund = refund\<lparr>ref_status := RCompleted, ref_completedAt := Some now,
                ref_stripeRefundId := (if truthy txHash then txHash else ref_stripeRefundId refund)\<rparr>;
              refund = push_history now ''completed'' ''system'' RProcessing RCompleted
                (ref_failureReason refund) refund
          in (Inr refund,
              log_audit ''system'' ''refund.processed.completed'' (''refund:'' @ refundId)
                (put_refund refundId refund s))
      | Failure error \<Rightarrow>
          let refund = refund\<lparr>ref_status := RFailed, ref_failureReason := error\<rparr>;
              refund = push_history now ''failed'' ''system'' RProcessing RFailed
                (ref_failureReason refund) refund
          in (Inr refund,
              log_audit ''system'' ''refund.processed.failed'' (''refund:'' @ refundId)
                (put_refund refundId refund s))))"

text \<open>
  The two halves in one go, with nothing in between. Without a \<open>providerFn\<close> the code completes the
  refund, as for a provider that reports success without a transaction hash.
\<close>

definition processRefund ::
  "string \<Rightarrow> (RefundRecord \<Rightarrow> provider_result) option \<Rightarrow> int \<Rightarrow> (refund_state, rf_error, RefundRecord) op" where
  "processRefund refundId providerFn now s =
     (case process_start refundId now s of
        (Inl e, s) \<Rightarrow> (Inl e, s)
      | (Inr refund, s) \<Rightarrow>
          process_finish refundId
            (case providerFn of Some f \<Rightarrow> f refund | None \<Rightarrow> Success None) now s)"

record batch_result =
  bat_processed :: nat
  bat_failed :: nat
  bat_errors :: "(string \<times> rf_error) list"

fun auto_process_loop ::
  "(RefundRecord \<Rightarrow> provider_result) option \<Rightarrow> int \<Rightarrow> string list \<Rightarrow> batch_result \<Rightarrow> refund_state \<Rightarrow>
   batch_result \<times> refund_state" where
  "auto_process_loop providerFn now [] b s = (b, s)"
| "auto_process_loop providerFn now (i # ids) b s =
     (case processRefund i providerFn now s of
        (Inr _, s) \<Rightarrow> auto_process_loop providerFn now ids (b\<lparr>bat_processed := bat_processed b + 1\<rparr>) s
      | (Inl e, s) \<Rightarrow> auto_process_loop providerFn now ids
          (b\<lparr>bat_failed := bat_failed b + 1, bat_errors := bat_errors b @ [(i, e)]\<rparr>) s)"

definition autoProcessApprovedRefunds ::
  "(RefundRecord \<Rightarrow> provider_result) option \<Rightarrow> int \<Rightarrow> refund_state \<Rightarrow> batch_result \<times> refund_state" where
  "autoProcessApprovedRefunds providerFn now s =
     (let approved = filter (\<lambda>r. ref_status r = RApproved \<and> ref_autoProcessed r)
            (js_values (rf_refunds s));
          (b, s) = auto_process_loop providerFn now (map ref_id approved)
            \<lparr>bat_processed = 0, bat_failed = 0, bat_errors = []\<rparr> s
      in if bat_processed b > 0 \<or> bat_failed b > 0
         then (b, log_audit ''system'' ''refund.auto_process_batch'' ''refund:batch'' s)
         else (b, s))"

definition cancelRefund ::
  "string \<Rightarrow> string \<Rightarrow> string option \<Rightarrow> int \<Rightarrow> (refund_state, rf_error, RefundRecord) op" where
  "cancelRefund refundId actor reason now s =
     (case find_refund s refundId of
        Inl e \<Rightarrow> (Inl e, s)
      | Inr refund \<Rightarrow>
          if ref_status refund = RCompleted \<or> ref_status refund = RCancelled
          then (Inl (AlreadyFinalized (ref_status refund)), s)
          else
            let fromStatus = ref_status refund;
                refund = push_history now ''cancelled'' actor fromStatus RCancelled reason
                  (refund\<lparr>ref_status := RCancelled, ref_cancelledAt := Some now\<rparr>)
            in (Inr refund,
                log_audit actor ''refund.cancelled'' (''refund:'' @ refundId)
                  (put_refund refundId refund s)))"

text \<open>The part of \<open>retryFailedRefund\<close> before it calls \<open>processRefund\<close>.\<close>

definition retry_reset :: "string \<Rightarrow> int \<Rightarrow> (refund_state, rf_error, RefundRecord) op" where
  "retry_reset refundId now s =
     (case find_refund s refundId of
        Inl e \<Rightarrow> (Inl e, s)
      | Inr refund \<Rightarrow>
          if ref_status refund \<noteq> RFailed then (Inl RefundNotFailed, s)
          else
            let refund = push_history now ''retry'' ''system'' RFailed RApproved None
                  (refund\<lparr>ref_status := RApproved, ref_failureReason := None\<rparr>)
            in (Inr refund, put_refund refundId refund s))"

definition retryFailedRefund ::
  "string \<Rightarrow> (RefundRecord \<Rightarrow> provider_result) option \<Rightarrow> int \<Rightarrow> (refund_state, rf_error, RefundRecord) op" where
  "retryFailedRefund refundId providerFn now s =
     (case retry_reset refundId now s of
        (Inl e, s) \<Rightarrow> (Inl e, s)
      | (Inr _, s) \<Rightarrow> processRefund refundId providerFn now s)"

definition processRefundWithProvider ::
  "string \<Rightarrow> (RefundRecord \<Rightarrow> provider_result) \<Rightarrow> int \<Rightarrow> (refund_state, rf_error, RefundRecord) op" where
  "processRefundWithProvider refundId providerFn now s = processRefund refundId (Some providerFn) now s"

subsection \<open>Queries\<close>

definition getRefund :: "string \<Rightarrow> refund_state \<Rightarrow> RefundRecord option" where
  "getRefund refundId s = js_get (rf_refunds s) refundId"

datatype sort_field = SortCreatedAt | SortAmount | SortUpdatedAt

record refund_filters =
  fil_status :: "RefundStatus list option"
  fil_paymentId :: "string option"
  fil_paymentType :: "PaymentMethod option"
  fil_fromDate :: "int option"
  fil_toDate :: "int option"
  fil_limit :: "int option"
  fil_offset :: "int option"
  fil_sortBy :: "sort_field option"
  fil_ascending :: bool

definition sort_value :: "sort_field \<Rightarrow> RefundRecord \<Rightarrow> rat" where
  "sort_value f r =
     (case f of SortCreatedAt \<Rightarrow> of_int (ref_createdAt r) | SortAmount \<Rightarrow> ref_amount r
      | SortUpdatedAt \<Rightarrow> of_int (ref_updatedAt r))"

definition opt_filter :: "'f option \<Rightarrow> ('f \<Rightarrow> 'v \<Rightarrow> bool) \<Rightarrow> 'v list \<Rightarrow> 'v list" where
  "opt_filter f P xs = (case f of None \<Rightarrow> xs | Some y \<Rightarrow> filter (P y) xs)"

definition listRefunds :: "string \<Rightarrow> refund_filters \<Rightarrow> refund_state \<Rightarrow> RefundRecord list \<times> nat" where
  "listRefunds workspaceId filters s =
     (let items = filter (\<lambda>r. ref_workspaceId r = workspaceId) (js_values (rf_refunds s));
          items = opt_filter (fil_status filters) (\<lambda>sts r. ref_status r \<in> set sts) items;
          items = (if truthy (fil_paymentId filters)
                   then filter (\<lambda>r. Some (ref_paymentId r) = fil_paymentId filters) items else items);
          items = opt_filter (fil_paymentType filters) (\<lambda>m r. ref_paymentType r = m) items;
          items = opt_filter (fil_fromDate filters) (\<lambda>d r. d \<le> ref_createdAt r) items;
          items = opt_filter (fil_toDate filters) (\<lambda>d r. ref_createdAt r \<le> d) items;
          sortBy = (case fil_sortBy filters of Some f \<Rightarrow> f | None \<Rightarrow> SortCreatedAt);
          items = sort_key (\<lambda>r. if fil_ascending filters then sort_value sortBy r
                                 else - sort_value sortBy r) items;
          limit = (case fil_limit filters of Some l \<Rightarrow> l | None \<Rightarrow> 50);
          offset = (case fil_offset filters of Some x \<Rightarrow> x | None \<Rightarrow> 0)
      in (js_slice offset (offset + limit) items, length items))"

definition getRefundHistory :: "string \<Rightarrow> refund_state \<Rightarrow> rf_error + RefundHistoryEntry list" where
  "getRefundHistory refundId s =
     (case find_refund s refundId of Inl e \<Rightarrow> Inl e | Inr refund \<Rightarrow> Inr (ref_history refund))"

definition createRefundJob ::
  "string \<Rightarrow> string \<Rightarrow> string \<Rightarrow> JobType \<Rightarrow> int \<Rightarrow> refund_state \<Rightarrow> RefundJob \<times> refund_state" where
  "createRefundJob i refundId workspaceId type now s =
     (let job = \<lparr>job_id = i, job_refundId = refundId, job_workspaceId = workspaceId,
            job_type = type, job_status = JobQueued, job_attempts = 0, job_maxAttempts = 3,
            job_lastError = None, job_createdAt = now, job_updatedAt = now\<rparr>
      in (job, s\<lparr>rf_jobs := js_set i job (rf_jobs s)\<rparr>))"

definition getRefundJob :: "string \<Rightarrow> refund_state \<Rightarrow> RefundJob option" where
  "getRefundJob jobId s = js_get (rf_jobs s) jobId"

definition listRefundJobs :: "string \<Rightarrow> JobStatus option \<Rightarrow> refund_state \<Rightarrow> RefundJob list" where
  "listRefundJobs workspaceId status s =
     newest_first job_createdAt
       (opt_filter status (\<lambda>st j. job_status j = st)
         (filter (\<lambda>j. job_workspaceId j = workspaceId) (js_values (rf_jobs s))))"

record refund_metrics =
  met_totalRefunds :: nat
  met_totalCompleted :: nat
  met_totalPending :: nat
  met_totalFailed :: nat
  met_totalAmount :: rat
  met_completionRate :: rat

definition getRefundMetricsSummary :: "refund_state \<Rightarrow> refund_metrics" where
  "getRefundMetricsSummary s =
     (let all = js_values (rf_refunds s);
          totalRefunds = length all;
          totalCompleted = length (filter (\<lambda>r. ref_status r = RCompleted) all)
      in \<lparr>met_totalRefunds = totalRefunds, met_totalCompleted = totalCompleted,
          met_totalPending = length (filter (\<lambda>r. ref_status r \<in> {RPending, RProcessing, RApproved}) all),
          met_totalFailed = length (filter (\<lambda>r. ref_status r = RFailed) all),
          met_totalAmount = sum_list (map ref_amount (filter (\<lambda>r. ref_status r = RCompleted) all)),
          met_completionRate = (if totalRefunds > 0 then of_nat totalCompleted / of_nat totalRefunds else 0)\<rparr>)"

definition resetForTests :: "refund_state \<Rightarrow> refund_state" where
  "resetForTests s = s\<lparr>rf_policies := [], rf_refunds := [], rf_jobs := [], rf_events := []\<rparr>"

end
