(* ===== verification/RefundProps.thy ===== *)
theory RefundProps
  imports Refund
begin

text \<open>
  Properties of the refund engine: what the evaluation decides, that the provider pays a refund at
  most once however the handlers interleave, that the history of a refund is a chain of its status
  changes when they do not, what a batch leaves behind, and the transitions that the handlers
  allow although the refund is settled.
\<close>

subsection \<open>Reading and writing one refund\<close>

lemma find_refund_Inr [simp]: "find_refund s i = Inr r \<longleftrightarrow> js_get (rf_refunds s) i = Some r"
  by (auto simp: find_refund_def split: option.splits)

lemma find_refund_Inl [simp]: "find_refund s i = Inl e \<longleftrightarrow> js_get (rf_refunds s) i = None \<and> e = RefundNotFound"
  by (auto simp: find_refund_def split: option.splits)

lemma rf_refunds_simps [simp]:
  "rf_refunds (put_refund i r s) = js_set i r (rf_refunds s)"
  "rf_refunds (log_audit a b c s) = rf_refunds s"
  "rf_refunds (trackRefundEvent input d now s) = rf_refunds s"
  by (simp_all add: put_refund_def log_audit_def trackRefundEvent_def)

lemma push_history_fields [simp]:
  "ref_id (push_history now act actor f t c r) = ref_id r"
  "ref_status (push_history now act actor f t c r) = ref_status r"
  "ref_approvals (push_history now act actor f t c r) = ref_approvals r"
  "ref_autoProcessed (push_history now act actor f t c r) = ref_autoProcessed r"
  by (simp_all add: push_history_def)

lemma resolve_approval_fields [simp]:
  "ref_id (resolve_approval l st ap c now r) = ref_id r"
  "ref_status (resolve_approval l st ap c now r) = ref_status r"
  "ref_history (resolve_approval l st ap c now r) = ref_history r"
  by (simp_all add: resolve_approval_def)

definition no_pending :: "RefundRecord \<Rightarrow> bool" where
  "no_pending r \<longleftrightarrow> (\<forall>a\<in>set (ref_approvals r). app_status a \<noteq> AppPending)"

lemma no_pending_simps [simp]:
  "no_pending (push_history now act actor f t c r) = no_pending r"
  "no_pending (r\<lparr>ref_status := st\<rparr>) = no_pending r"
  "no_pending (r\<lparr>ref_decision := d\<rparr>) = no_pending r"
  "no_pending (r\<lparr>ref_approvedBy := b\<rparr>) = no_pending r"
  "no_pending (r\<lparr>ref_processedAt := t1\<rparr>) = no_pending r"
  "no_pending (r\<lparr>ref_completedAt := t2\<rparr>) = no_pending r"
  "no_pending (r\<lparr>ref_cancelledAt := t3\<rparr>) = no_pending r"
  "no_pending (r\<lparr>ref_failureReason := e\<rparr>) = no_pending r"
  "no_pending (r\<lparr>ref_stripeRefundId := h\<rparr>) = no_pending r"
  by (simp_all add: no_pending_def push_history_def)

lemma no_pending_resolve:
  "no_pending r \<Longrightarrow> st \<noteq> AppPending \<Longrightarrow> no_pending (resolve_approval l st ap c now r)"
  by (auto simp: no_pending_def resolve_approval_def dest: update_first_set)

lemma no_pending_all_approved:
  "list_all (\<lambda>a. app_status a = AppApproved) (ref_approvals r) \<Longrightarrow> no_pending r"
  by (auto simp: no_pending_def list_all_iff)

subsection \<open>The provider pays at most once\<close>

definition rf_init :: refund_state where
  "rf_init = \<lparr>rf_policies = [], rf_refunds = [], rf_jobs = [], rf_events = [], rf_audit = []\<rparr>"

text \<open>
  \<open>rf_run F D s\<close>: the process can be in state \<open>s\<close> with a provider call outstanding for each refund
  of \<open>F\<close>, after the provider reported success for the refunds of \<open>D\<close> (each time it did). Any handler
  may run while calls are outstanding.
\<close>

inductive rf_run :: "string list \<Rightarrow> string list \<Rightarrow> refund_state \<Rightarrow> bool" where
  rf_init: "rf_run [] [] rf_init"
| rf_upsert: "rf_run F D s \<Longrightarrow> rf_run F D (snd (upsertRefundPolicy i input now s))"
| rf_deletePolicy: "rf_run F D s \<Longrightarrow> rf_run F D (snd (deleteRefundPolicy i now s))"
| rf_evaluate: "rf_run F D s \<Longrightarrow> js_get (rf_refunds s) i = None \<Longrightarrow>
    rf_run F D (snd (evaluateRefund i pid inp now s))"
| rf_approve: "rf_run F D s \<Longrightarrow> rf_run F D (snd (approveRefund i ap l c now s))"
| rf_reject: "rf_run F D s \<Longrightarrow> rf_run F D (snd (rejectRefund i ap l c now s))"
| rf_cancel: "rf_run F D s \<Longrightarrow> rf_run F D (snd (cancelRefund i actor c now s))"
| rf_job: "rf_run F D s \<Longrightarrow> rf_run F D (snd (createRefundJob j i w ty now s))"
| rf_retry: "rf_run F D s \<Longrightarrow> rf_run F D (snd (retry_reset i now s))"
| rf_start: "rf_run F D s \<Longrightarrow> process_start i now s = (Inr r, s') \<Longrightarrow> rf_run (i # F) D s'"
| rf_finish: "rf_run F D s \<Longrightarrow> i \<in> set F \<Longrightarrow>
    rf_run (remove1 i F) (case res of Success _ \<Rightarrow> i # D | _ \<Rightarrow> D) (snd (process_finish i res now s))"

definition refund_ok :: "string list \<Rightarrow> string list \<Rightarrow> string \<Rightarrow> RefundRecord \<Rightarrow> bool" where
  "refund_ok F D i r \<longleftrightarrow>
     (i \<in> set F \<or> i \<in> set D \<or> ref_status r \<in> {RApproved, RProcessing, RCompleted, RFailed} \<longrightarrow> no_pending r) \<and>
     (i \<in> set D \<longrightarrow> i \<notin> set F \<and> ref_status r \<in> {RCompleted, RRejected, RCancelled}) \<and>
     (i \<in> set F \<longrightarrow> ref_status r \<in> {RProcessing, RRejected, RCancelled})"

definition rf_inv :: "string list \<Rightarrow> string list \<Rightarrow> refund_state \<Rightarrow> bool" where
  "rf_inv F D s \<longleftrightarrow> distinct F \<and> distinct D \<and> js_all (refund_ok F D) (rf_refunds s) \<and>
     (\<forall>i\<in>set F \<union> set D. js_get (rf_refunds s) i \<noteq> None)"

lemma rf_inv_get: "rf_inv F D s \<Longrightarrow> js_get (rf_refunds s) i = Some r \<Longrightarrow> refund_ok F D i r"
  unfolding rf_inv_def by (blast dest: js.entries_get)

lemma rf_inv_cong: "rf_inv F D s \<Longrightarrow> rf_refunds s' = rf_refunds s \<Longrightarrow> rf_inv F D s'"
  by (simp add: rf_inv_def)

lemma rf_inv_set:
  assumes "rf_inv F D s" and "refund_ok F D i r" and "rf_refunds s' = js_set i r (rf_refunds s)"
  shows "rf_inv F D s'"
  using assms by (auto simp: rf_inv_def intro: js.entries_put)

text \<open>A new call or a new payment concerns one refund only.\<close>

lemma rf_inv_set_changed:
  assumes "rf_inv F D s" and "refund_ok F' D' i r" and "rf_refunds s' = js_set i r (rf_refunds s)"
    and "distinct F'" "distinct D'" and "set F' - {i} = set F - {i}" and "set D' - {i} = set D - {i}"
  shows "rf_inv F' D' s'"
proof -
  have "refund_ok F' D' k x" if "js_get (rf_refunds s) k = Some x" "k \<noteq> i" for k x
  proof -
    have "k \<in> set F' \<longleftrightarrow> k \<in> set F" "k \<in> set D' \<longleftrightarrow> k \<in> set D"
      using that(2) assms(6,7) by blast+
    with rf_inv_get [OF assms(1) that(1)] show ?thesis by (simp add: refund_ok_def)
  qed
  then have "js_all (refund_ok F' D') (rf_refunds s')"
    using assms(2) unfolding assms(3) entries_sat_def by auto
  moreover have "js_get (rf_refunds s') k \<noteq> None" if "k \<in> set F' \<union> set D'" for k
  proof (cases "k = i")
    case False
    with that assms(6,7) have "k \<in> set F \<union> set D" by blast
    with assms(1,3) show ?thesis by (auto simp: rf_inv_def)
  qed (simp add: assms(3))
  ultimately show ?thesis using assms(4,5) by (auto simp: rf_inv_def)
qed

lemma builtin_level: "builtin_decision policy input = (d, why, Some l) \<Longrightarrow> d = DecManualReview"
  by (auto simp: builtin_decision_def Let_def split: if_splits)

text \<open>A request that passes leaves one new refund; only a manual review asks for an approval.\<close>

lemma evaluateRefund_cases:
  obtains "snd (evaluateRefund i pid inp now s) = s"
  | d why l m where "l \<noteq> None \<Longrightarrow> d = DecManualReview"
      "snd (evaluateRefund i pid inp now s) =
        trackRefundEvent inp d now (createRefundRecord i inp d why l m now s)"
proof -
  let ?p = "getRefundPolicy pid now (inp_workspaceId inp) None s"
  consider "pol_requireReason ?p \<and> \<not> has_reason inp"
    | d rule where "\<not> (pol_requireReason ?p \<and> \<not> has_reason inp)"
        "evaluateCustomRules (pol_rules ?p) inp = Some (d, rule)"
    | d why l where "\<not> (pol_requireReason ?p \<and> \<not> has_reason inp)"
        "evaluateCustomRules (pol_rules ?p) inp = None" "builtin_decision ?p inp = (d, why, l)"
    by (cases "evaluateCustomRules (pol_rules ?p) inp"; cases "builtin_decision ?p inp") auto
  then show thesis
  proof cases
    case 1
    then show thesis by (intro that(1)) (simp add: evaluateRefund_def Let_def)
  next
    case 2
    then show thesis
      by (intro that(2) [of "if d = DecManualReview then Some First else None" d "[RuleMatched rule]" "Some rule"])
        (auto simp: evaluateRefund_def Let_def split: if_splits)
  next
    case 3
    then show thesis
      by (intro that(2) [of l d "[Reason why]" None]) (auto simp: evaluateRefund_def Let_def dest: builtin_level)
  qed
qed

definition fresh_refund :: "string \<Rightarrow> RefundRecord \<Rightarrow> bool" where
  "fresh_refund i r \<longleftrightarrow> ref_id r = i \<and>
     (ref_status r \<in> {RApproved, RProcessing, RCompleted, RFailed} \<longrightarrow> no_pending r) \<and>
     (\<exists>h. ref_history r = [h] \<and> his_fromStatus h = RPending \<and> his_toStatus h = ref_status r)"

lemma createRefundRecord_fresh:
  assumes "l \<noteq> None \<Longrightarrow> d = DecManualReview"
  shows "\<exists>r. rf_refunds (createRefundRecord i inp d why l m now s) = js_set i r (rf_refunds s) \<and> fresh_refund i r"
  using assms by (cases l)
    (auto simp: createRefundRecord_def Let_def no_pending_def decision_status_def fresh_refund_def)

lemma evaluateRefund_refunds:
  "rf_refunds (snd (evaluateRefund i pid inp now s)) = rf_refunds s \<or>
   (\<exists>r. rf_refunds (snd (evaluateRefund i pid inp now s)) = js_set i r (rf_refunds s) \<and> fresh_refund i r)"
proof (cases rule: evaluateRefund_cases [of i pid inp now s])
  case (2 d why l m)
  then show ?thesis using createRefundRecord_fresh [where l = l and d = d and i = i] by auto
qed simp

lemma rf_inv_known: "rf_inv F D s \<Longrightarrow> i \<in> set F \<union> set D \<Longrightarrow> \<exists>r. js_get (rf_refunds s) i = Some r"
  unfolding rf_inv_def by blast

lemma rf_inv_evaluate:
  assumes "rf_inv F D s" and "js_get (rf_refunds s) i = None"
  shows "rf_inv F D (snd (evaluateRefund i pid inp now s))"
proof -
  have "i \<notin> set F \<union> set D" using rf_inv_known [OF assms(1)] assms(2) by force
  then have "refund_ok F D i r" if "fresh_refund i r" for r
    using that by (simp add: refund_ok_def fresh_refund_def)
  then show ?thesis
    using evaluateRefund_refunds [of i pid inp now s] rf_inv_set [OF assms(1)] rf_inv_cong [OF assms(1)] by blast
qed

lemma approveRefund_Inr:
  assumes "approveRefund i ap l c now s = (Inr r', s')"
  shows "\<exists>r a. js_get (rf_refunds s) i = Some r \<and> rf_refunds s' = js_set i r' (rf_refunds s) \<and>
    find (\<lambda>a. app_level a = l) (ref_approvals r) = Some a \<and> app_status a = AppPending \<and>
    (if list_all (\<lambda>a. app_status a = AppApproved) (ref_approvals (resolve_approval l AppApproved ap c now r))
     then ref_status r' = RApproved \<and> no_pending r' else ref_status r' = ref_status r) \<and>
    (\<exists>h. ref_history r' = ref_history r @ [h] \<and> his_fromStatus h = ref_status r \<and> his_toStatus h = ref_status r') \<and>
    ref_id r' = ref_id r"
proof -
  obtain r where r: "js_get (rf_refunds s) i = Some r"
    using assms by (cases "js_get (rf_refunds s) i") (simp_all add: approveRefund_def find_refund_def)
  obtain a where a: "find (\<lambda>a. app_level a = l) (ref_approvals r) = Some a"
    using assms r by (cases "find (\<lambda>a. app_level a = l) (ref_approvals r)")
      (simp_all add: approveRefund_def find_refund_def)
  have p: "app_status a = AppPending"
    using assms r a by (cases "app_status a = AppPending") (simp_all add: approveRefund_def find_refund_def)
  define q where "q = resolve_approval l AppApproved ap c now r"
  define q' where "q' = (if list_all (\<lambda>a. app_status a = AppApproved) (ref_approvals q)
    then q\<lparr>ref_status := RApproved, ref_decision := Some DecApproved, ref_approvedBy := Some ap\<rparr> else q)"
  have eq: "r' = push_history now ''approved'' ap (ref_status r) (ref_status q') c q'"
    "rf_refunds s' = js_set i r' (rf_refunds s)"
    using assms r a p by (auto simp: approveRefund_def find_refund_def Let_def q_def [symmetric] q'_def [symmetric])
  show ?thesis
    using r a p eq
    by (auto simp: q'_def q_def no_pending_all_approved push_history_def no_pending_def list_all_iff resolve_approval_def)
qed

lemma approveRefund_Inl: "approveRefund i ap l c now s = (Inl e, s') \<Longrightarrow> s' = s"
  unfolding approveRefund_def by (auto simp: Let_def split: sum.splits option.splits if_splits)

lemma rf_inv_approve:
  assumes inv: "rf_inv F D s"
  shows "rf_inv F D (snd (approveRefund i ap l c now s))"
proof (cases "approveRefund i ap l c now s")
  case (Pair res s')
  show ?thesis
  proof (cases res)
    case (Inl e)
    with Pair approveRefund_Inl inv show ?thesis by fastforce
  next
    case (Inr r')
    then obtain r a where r: "js_get (rf_refunds s) i = Some r" "rf_refunds s' = js_set i r' (rf_refunds s)"
      "find (\<lambda>a. app_level a = l) (ref_approvals r) = Some a" "app_status a = AppPending"
      "if list_all (\<lambda>a. app_status a = AppApproved) (ref_approvals (resolve_approval l AppApproved ap c now r))
       then ref_status r' = RApproved \<and> no_pending r' else ref_status r' = ref_status r"
      using approveRefund_Inr [of i ap l c now s r' s'] Pair by auto
    have "\<not> no_pending r" using find_SomeD [OF r(3)] r(4) by (auto simp: no_pending_def)
    with rf_inv_get [OF inv r(1)] r(5) have "refund_ok F D i r'"
      by (auto simp: refund_ok_def split: if_splits)
    then show ?thesis using rf_inv_set [OF inv _ r(2)] Pair by simp
  qed
qed

lemma rf_inv_reject:
  assumes inv: "rf_inv F D s"
  shows "rf_inv F D (snd (rejectRefund i ap l c now s))"
proof (cases "\<exists>r a. js_get (rf_refunds s) i = Some r \<and> find (\<lambda>a. app_level a = l) (ref_approvals r) = Some a")
  case True
  then obtain r a where r: "js_get (rf_refunds s) i = Some r" "find (\<lambda>a. app_level a = l) (ref_approvals r) = Some a"
    by blast
  define r' where "r' = push_history now ''rejected'' ap (ref_status r) RRejected c
    ((resolve_approval l AppRejected ap c now r)\<lparr>ref_status := RRejected, ref_decision := Some DecRejected\<rparr>)"
  have "refund_ok F D i r'"
    using rf_inv_get [OF inv r(1)] no_pending_resolve [of r AppRejected l ap c now]
    by (auto simp: refund_ok_def r'_def)
  moreover have "rf_refunds (snd (rejectRefund i ap l c now s)) = js_set i r' (rf_refunds s)"
    using r by (simp add: rejectRefund_def find_refund_def Let_def r'_def)
  ultimately show ?thesis by (rule rf_inv_set [OF inv])
next
  case False
  then have "snd (rejectRefund i ap l c now s) = s"
    by (auto simp: rejectRefund_def split: sum.splits option.splits)
  with inv show ?thesis by simp
qed

lemma rf_inv_cancel:
  assumes inv: "rf_inv F D s"
  shows "rf_inv F D (snd (cancelRefund i actor c now s))"
proof (cases "js_get (rf_refunds s) i")
  case None
  with inv show ?thesis by (simp add: cancelRefund_def find_refund_def)
next
  case (Some r)
  let ?r = "push_history now ''cancelled'' actor (ref_status r) RCancelled c
    (r\<lparr>ref_status := RCancelled, ref_cancelledAt := Some now\<rparr>)"
  have "refund_ok F D i ?r" using rf_inv_get [OF inv Some] by (auto simp: refund_ok_def)
  from rf_inv_set [OF inv this, of "put_refund i ?r s"]
  show ?thesis
    using Some inv by (auto simp: cancelRefund_def find_refund_def Let_def elim: rf_inv_cong)
qed

lemma rf_inv_retry:
  assumes inv: "rf_inv F D s"
  shows "rf_inv F D (snd (retry_reset i now s))"
proof (cases "js_get (rf_refunds s) i")
  case None
  with inv show ?thesis by (simp add: retry_reset_def find_refund_def)
next
  case (Some r)
  let ?r = "push_history now ''retry'' ''system'' RFailed RApproved None
    (r\<lparr>ref_status := RApproved, ref_failureReason := None\<rparr>)"
  have "refund_ok F D i ?r" if "ref_status r = RFailed"
    using rf_inv_get [OF inv Some] that by (auto simp: refund_ok_def)
  with rf_inv_set [OF inv, of i ?r "put_refund i ?r s"] Some inv show ?thesis
    by (simp add: retry_reset_def find_refund_def Let_def)
qed

lemma process_start_Inr:
  assumes "process_start i now s = (Inr r', s')"
  shows "\<exists>r. js_get (rf_refunds s) i = Some r \<and> ref_status r = RApproved \<and>
    r' = push_history now ''processing_started'' ''system'' RApproved RProcessing None
      (r\<lparr>ref_status := RProcessing, ref_processedAt := Some now\<rparr>) \<and> s' = put_refund i r' s"
  using assms by (auto simp: process_start_def Let_def split: sum.splits if_splits)

lemma rf_inv_start:
  assumes inv: "rf_inv F D s" and "process_start i now s = (Inr r', s')"
  shows "rf_inv (i # F) D s' \<and> i \<notin> set F \<and> i \<notin> set D"
proof -
  obtain r where r: "js_get (rf_refunds s) i = Some r" "ref_status r = RApproved"
    "r' = push_history now ''processing_started'' ''system'' RApproved RProcessing None
      (r\<lparr>ref_status := RProcessing, ref_processedAt := Some now\<rparr>)" "s' = put_refund i r' s"
    using process_start_Inr [OF assms(2)] by blast
  have new: "i \<notin> set F" "i \<notin> set D" "no_pending r"
    using rf_inv_get [OF inv r(1)] r(2) by (auto simp: refund_ok_def)
  have "refund_ok (i # F) D i r'" using new r(3) by (simp add: refund_ok_def)
  then have "rf_inv (i # F) D s'"
    by (rule rf_inv_set_changed [OF inv]) (use new inv r(4) in \<open>auto simp: rf_inv_def\<close>)
  with new show ?thesis by simp
qed

text \<open>The record that the answer of the provider leaves behind.\<close>

lemma process_finish_refunds:
  assumes "js_get (rf_refunds s) i = Some r"
  shows "\<exists>r'. rf_refunds (snd (process_finish i res now s)) = js_set i r' (rf_refunds s) \<and>
    no_pending r' = no_pending r \<and> ref_id r' = ref_id r \<and>
    ref_status r' = (case res of Success _ \<Rightarrow> RCompleted | _ \<Rightarrow> RFailed) \<and>
    ref_approvals r' = ref_approvals r \<and> ref_autoProcessed r' = ref_autoProcessed r \<and>
    (\<exists>act c. ref_history r' = ref_history r @ [\<lparr>his_timestamp = now, his_action = act,
      his_actor = ''system'', his_fromStatus = RProcessing, his_toStatus = ref_status r', his_comment = c\<rparr>])"
  using assms by (cases res) (auto simp: process_finish_def find_refund_def Let_def push_history_def no_pending_def)

lemma rf_inv_finish:
  assumes inv: "rf_inv F D s" and "i \<in> set F"
  shows "rf_inv (remove1 i F) (case res of Success _ \<Rightarrow> i # D | _ \<Rightarrow> D) (snd (process_finish i res now s))"
proof -
  obtain r where r: "js_get (rf_refunds s) i = Some r" using rf_inv_known [OF inv, of i] assms(2) by auto
  obtain r' where r': "rf_refunds (snd (process_finish i res now s)) = js_set i r' (rf_refunds s)"
    "no_pending r' = no_pending r" "ref_status r' = (case res of Success _ \<Rightarrow> RCompleted | _ \<Rightarrow> RFailed)"
    using process_finish_refunds [OF r] by blast
  have ok: "no_pending r" "i \<notin> set D" "distinct F" "distinct D"
    using rf_inv_get [OF inv r] assms by (auto simp: refund_ok_def rf_inv_def)
  then have "i \<notin> set (remove1 i F)" by simp
  with ok r' have "refund_ok (remove1 i F) (case res of Success _ \<Rightarrow> i # D | _ \<Rightarrow> D) i r'"
    by (cases res) (simp_all add: refund_ok_def)
  then show ?thesis
    by (rule rf_inv_set_changed [OF inv _ r'(1)]) (use ok in \<open>auto split: provider_result.splits\<close>)
qed

lemma rf_run_inv: "rf_run F D s \<Longrightarrow> rf_inv F D s"
proof (induction rule: rf_run.induct)
  case rf_init
  show ?case by (simp add: rf_inv_def rf_init_def js.entries_empty)
next
  case (rf_upsert F D s i input now)
  then show ?case by (auto elim: rf_inv_cong simp: upsertRefundPolicy_def Let_def)
next
  case (rf_deletePolicy F D s i now)
  then show ?case by (auto elim: rf_inv_cong simp: deleteRefundPolicy_def split: option.splits)
next
  case (rf_job F D s j i w ty now)
  then show ?case by (auto elim: rf_inv_cong simp: createRefundJob_def Let_def)
qed (blast intro: rf_inv_evaluate rf_inv_approve rf_inv_reject rf_inv_cancel rf_inv_retry rf_inv_finish
    dest: rf_inv_start)+

text \<open>
  C1: however the handlers interleave with outstanding provider calls, no refund has two calls
  outstanding at once, the provider reports success for a refund at most once, and once it has, no
  further call is started for it.
\<close>

theorem refund_paid_at_most_once:
  assumes "rf_run F D s"
  shows "distinct F \<and> distinct D \<and> set F \<inter> set D = {} \<and>
    (\<forall>i\<in>set F \<union> set D. fst (process_start i now s) = Inl RefundNotApproved)"
proof -
  have inv: "rf_inv F D s" by (rule rf_run_inv [OF assms])
  have "fst (process_start i now s) = Inl RefundNotApproved \<and> (i \<in> set D \<longrightarrow> i \<notin> set F)"
    if "i \<in> set F \<union> set D" for i
  proof -
    obtain r where r: "js_get (rf_refunds s) i = Some r"
      using rf_inv_known [OF inv, of i] \<open>i \<in> set F \<union> set D\<close> by auto
    with rf_inv_get [OF inv r] \<open>i \<in> set F \<union> set D\<close> show ?thesis
      by (auto simp: refund_ok_def process_start_def find_refund_def)
  qed
  with inv show ?thesis by (auto simp: rf_inv_def)
qed

subsection \<open>Evaluation\<close>

definition rule_matches :: "RefundEvaluationInput \<Rightarrow> PolicyRule \<Rightarrow> bool" where
  "rule_matches input rule =
     (case getFieldValue input (rule_field rule) of
        None \<Rightarrow> False | Some v \<Rightarrow> evaluateOperator (rule_operator rule) v (rule_value rule))"

lemma first_matching_rule_find:
  "first_matching_rule rules input =
   map_option (\<lambda>r. (outcome_decision (rule_outcome r), r)) (find (rule_matches input) rules)"
  by (induction rules) (auto simp: rule_matches_def split: option.splits)

lemma find_sorted_least:
  "sorted (map f xs) \<Longrightarrow> find P xs = Some x \<Longrightarrow> y \<in> set xs \<Longrightarrow> P y \<Longrightarrow> f x \<le> f y"
  by (induction xs) (auto split: if_splits)

text \<open>
  the custom rule that decides a request is one of the policy's rules that match it, with the
  highest priority among those; no rule decides exactly when none matches.
\<close>

theorem evaluateCustomRules_highest_priority:
  "(case evaluateCustomRules rules input of
      None \<Rightarrow> list_all (\<lambda>r. \<not> rule_matches input r) rules
    | Some (d, rule) \<Rightarrow> rule \<in> set rules \<and> rule_matches input rule \<and>
        d = outcome_decision (rule_outcome rule) \<and>
        list_all (\<lambda>r. rule_priority r \<le> rule_priority rule) (filter (rule_matches input) rules))"
proof -
  let ?s = "sort_key (\<lambda>r. - rule_priority r) rules"
  show ?thesis
  proof (cases "find (rule_matches input) ?s")
    case None
    then have "list_all (\<lambda>r. \<not> rule_matches input r) rules"
      by (auto simp: find_None_iff list_all_iff)
    then show ?thesis by (simp add: evaluateCustomRules_def first_matching_rule_find None del: find_None_iff)
  next
    case (Some rule)
    have "sorted (map (\<lambda>r. - rule_priority r) ?s)" by simp
    from find_sorted_least [OF this Some] find_SomeD [OF Some] Some show ?thesis
      by (auto simp: evaluateCustomRules_def first_matching_rule_find list_all_iff)
  qed
qed

text \<open>
  without custom rules a request that is let through is approved automatically exactly when
  there is neither a chargeback nor a dispute and the amount is within the always-refund limit, or
  within the refund window and the amount paid, or within the partial-refund share and the
  auto-approval limit; it is rejected exactly when none of these holds and it exceeds the share.
  The record stored has that amount and status, and one pending approval exactly for a review.
\<close>

lemma evaluateRefund_builtin:
  assumes "policy = getRefundPolicy pid now (inp_workspaceId inp) None s" and "pol_rules policy = []"
    and "evaluateRefund i pid inp now s = (Inr ev, s')"
  defines "req \<equiv> inp_requestedAmount inp"
  defines "share \<equiv> inp_amountPaid inp * pol_maxPartialRefundPct policy / 100"
  defines "clean \<equiv> \<not> inp_hasChargeback inp \<and> \<not> inp_hasDispute inp"
  defines "small \<equiv> req \<le> pol_alwaysRefundUnderAmount policy"
  defines "in_window \<equiv> inp_daysSincePayment inp \<le> pol_fullRefundWindowDays policy \<and> req \<le> inp_amountPaid inp"
  shows "(ev_decision ev = DecApproved) =
      (clean \<and> (small \<or> in_window \<or> (req \<le> share \<and> req \<le> pol_autoApprovalThreshold policy))) \<and>
    (ev_decision ev = DecRejected) = (clean \<and> \<not> small \<and> \<not> in_window \<and> share < req) \<and>
    ev_amountApproved ev = (if ev_decision ev = DecApproved then req else 0) \<and>
    (\<exists>r. js_get (rf_refunds s') i = Some r \<and> ref_amount r = req \<and>
       ref_status r = decision_status (ev_decision ev) \<and>
       length (filter (\<lambda>a. app_status a = AppPending) (ref_approvals r)) =
         (if ev_decision ev = DecManualReview then 1 else 0))"
proof -
  obtain d why l where b: "builtin_decision policy inp = (d, why, l)" by (cases "builtin_decision policy inp")
  have "evaluateCustomRules (pol_rules policy) inp = None"
    by (simp add: assms(2) evaluateCustomRules_def)
  with assms(3) b have ev: "ev_decision ev = d" "ev_amountApproved ev = (if d = DecApproved then req else 0)"
    and s': "s' = trackRefundEvent inp d now (createRefundRecord i inp d [Reason why] l None now s)"
    unfolding evaluateRefund_def Let_def assms(1) [symmetric] by (auto simp: req_def split: if_splits)
  have dec: "(d = DecApproved) = (clean \<and> (small \<or> in_window \<or> (req \<le> share \<and> req \<le> pol_autoApprovalThreshold policy)))"
    "(d = DecRejected) = (clean \<and> \<not> small \<and> \<not> in_window \<and> share < req)"
    "(l \<noteq> None) = (d = DecManualReview)"
    using b unfolding builtin_decision_def Let_def clean_def small_def in_window_def req_def share_def
    by (auto split: if_splits)
  have "\<exists>r. js_get (rf_refunds s') i = Some r \<and> ref_amount r = req \<and> ref_status r = decision_status d \<and>
       length (filter (\<lambda>a. app_status a = AppPending) (ref_approvals r)) = (if d = DecManualReview then 1 else 0)"
    using dec(3) by (cases l) (auto simp: s' createRefundRecord_def Let_def req_def)
  with dec(1,2) ev show ?thesis by simp
qed

subsection \<open>The history of a refund\<close>

fun chain :: "RefundStatus \<Rightarrow> RefundHistoryEntry list \<Rightarrow> RefundStatus \<Rightarrow> bool" where
  "chain a [] b = (a = b)"
| "chain a (h # hs) b = (his_fromStatus h = a \<and> chain (his_toStatus h) hs b)"

lemma chain_snoc: "chain a (hs @ [h]) b \<longleftrightarrow> chain a hs (his_fromStatus h) \<and> his_toStatus h = b"
  by (induction hs arbitrary: a) auto

definition linked :: "RefundRecord \<Rightarrow> bool" where
  "linked r \<longleftrightarrow> chain RPending (ref_history r) (ref_status r)"

lemma linked_push [simp]:
  "linked (push_history now act actor f t c r) \<longleftrightarrow> chain RPending (ref_history r) f \<and> ref_status r = t"
  by (auto simp: linked_def push_history_def chain_snoc)

definition all_linked :: "refund_state \<Rightarrow> bool" where
  "all_linked s \<longleftrightarrow> js_wf (rf_refunds s) \<and> js_all (\<lambda>i r. linked r \<and> ref_id r = i) (rf_refunds s)"

lemma all_linked_get: "all_linked s \<Longrightarrow> js_get (rf_refunds s) i = Some r \<Longrightarrow> linked r"
  and all_linked_id: "all_linked s \<Longrightarrow> js_get (rf_refunds s) i = Some r \<Longrightarrow> ref_id r = i"
  by (simp_all add: entries_sat_def all_linked_def)

lemma all_linked_set:
  "all_linked s \<Longrightarrow> linked r \<Longrightarrow> ref_id r = i \<Longrightarrow> rf_refunds s' = js_set i r (rf_refunds s) \<Longrightarrow> all_linked s'"
  by (auto simp: all_linked_def intro: js.entries_put)

lemma all_linked_put: "all_linked s \<Longrightarrow> linked r \<Longrightarrow> ref_id r = i \<Longrightarrow> all_linked (put_refund i r s)"
  by (rule all_linked_set [of s r i]) simp_all

lemma all_linked_cong: "rf_refunds s' = rf_refunds s \<Longrightarrow> all_linked s' = all_linked s"
  by (simp add: all_linked_def)

lemma all_linked_simps [simp]:
  "all_linked (log_audit a b c s) = all_linked s"
  "all_linked (trackRefundEvent input d now s) = all_linked s"
  by (simp_all add: all_linked_def)

lemma fresh_linked: "fresh_refund i r \<Longrightarrow> linked r \<and> ref_id r = i"
  by (auto simp: fresh_refund_def linked_def)

lemma linked_approve:
  assumes "all_linked s"
  shows "all_linked (snd (approveRefund i ap l c now s))"
proof (cases "approveRefund i ap l c now s")
  case (Pair res s')
  show ?thesis
  proof (cases res)
    case (Inl e)
    with Pair approveRefund_Inl assms show ?thesis by fastforce
  next
    case (Inr r')
    then obtain r h where r: "js_get (rf_refunds s) i = Some r" "rf_refunds s' = js_set i r' (rf_refunds s)"
      "ref_history r' = ref_history r @ [h]" "his_fromStatus h = ref_status r" "his_toStatus h = ref_status r'"
      "ref_id r' = ref_id r"
      using approveRefund_Inr [of i ap l c now s r' s'] Pair by auto
    have "linked r'" using all_linked_get [OF assms r(1)] r(3-5) by (simp add: linked_def chain_snoc)
    with all_linked_set [OF assms _ _ r(2)] all_linked_id [OF assms r(1)] r(6) Pair show ?thesis by simp
  qed
qed

lemma linked_reject:
  assumes "all_linked s"
  shows "all_linked (snd (rejectRefund i ap l c now s))"
proof (cases "js_get (rf_refunds s) i")
  case (Some r)
  with all_linked_get [OF assms Some] all_linked_id [OF assms Some] assms show ?thesis
    by (auto simp: rejectRefund_def find_refund_def Let_def linked_def [of r] intro: all_linked_put split: option.splits)
qed (use assms in \<open>simp add: rejectRefund_def find_refund_def\<close>)

lemma linked_cancel:
  assumes "all_linked s"
  shows "all_linked (snd (cancelRefund i actor c now s))"
proof (cases "js_get (rf_refunds s) i")
  case (Some r)
  with all_linked_get [OF assms Some] all_linked_id [OF assms Some] assms show ?thesis
    by (auto simp: cancelRefund_def find_refund_def Let_def linked_def [of r] intro: all_linked_put)
qed (use assms in \<open>simp add: cancelRefund_def find_refund_def\<close>)

lemma linked_process:
  assumes "all_linked s"
  shows "all_linked (snd (processRefund i f now s))"
proof (cases "process_start i now s")
  case (Pair res s1)
  show ?thesis
  proof (cases res)
    case (Inl e)
    then have "s1 = s"
      using Pair by (auto simp: process_start_def Let_def split: sum.splits if_splits)
    with Inl Pair assms show ?thesis by (simp add: processRefund_def)
  next
    case (Inr r1)
    obtain r where r: "js_get (rf_refunds s) i = Some r" "ref_status r = RApproved"
      "r1 = push_history now ''processing_started'' ''system'' RApproved RProcessing None
        (r\<lparr>ref_status := RProcessing, ref_processedAt := Some now\<rparr>)" "s1 = put_refund i r1 s"
      using process_start_Inr Pair Inr by blast
    have l1: "linked r1" using all_linked_get [OF assms r(1)] r(2,3) by (simp add: linked_def [of r])
    have id1: "ref_id r1 = i" using all_linked_id [OF assms r(1)] r(3) by simp
    with l1 have all1: "all_linked s1" using assms r(4) by (simp add: all_linked_put)
    have get1: "js_get (rf_refunds s1) i = Some r1" by (simp add: r(4))
    let ?res = "case f of Some f \<Rightarrow> f r1 | None \<Rightarrow> Success None"
    obtain r2 act cm where r2: "rf_refunds (snd (process_finish i ?res now s1)) = js_set i r2 (rf_refunds s1)"
      "ref_history r2 = ref_history r1 @ [\<lparr>his_timestamp = now, his_action = act,
        his_actor = ''system'', his_fromStatus = RProcessing, his_toStatus = ref_status r2, his_comment = cm\<rparr>]"
      "ref_id r2 = ref_id r1"
      using process_finish_refunds [OF get1, of ?res now] by auto
    have "linked r2" using l1 r2(2) r(3) by (simp add: linked_def chain_snoc)
    with all_linked_set [OF all1 _ _ r2(1)] r2(3) id1 Pair Inr show ?thesis by (simp add: processRefund_def)
  qed
qed

lemma linked_retry:
  assumes "all_linked s"
  shows "all_linked (snd (retryFailedRefund i f now s))"
proof -
  have "all_linked (snd (retry_reset i now s))"
  proof (cases "js_get (rf_refunds s) i")
    case (Some r)
    with all_linked_get [OF assms Some] all_linked_id [OF assms Some] assms show ?thesis
      by (auto simp: retry_reset_def find_refund_def Let_def linked_def [of r] intro: all_linked_put)
  qed (use assms in \<open>simp add: retry_reset_def find_refund_def\<close>)
  then show ?thesis
    by (cases "retry_reset i now s") (auto simp: retryFailedRefund_def linked_process split: sum.splits)
qed

lemma linked_loop: "all_linked s \<Longrightarrow> all_linked (snd (auto_process_loop f now ids b s))"
proof (induction ids arbitrary: b s)
  case (Cons i ids)
  from linked_process [OF Cons.prems, of i f now] Cons.IH show ?case
    by (cases "processRefund i f now s") (auto split: sum.splits)
qed simp

lemma linked_evaluate: "all_linked s \<Longrightarrow> all_linked (snd (evaluateRefund i pid inp now s))"
  using evaluateRefund_refunds [of i pid inp now s] all_linked_set [of s _ i] fresh_linked [of i]
    all_linked_cong [of "snd (evaluateRefund i pid inp now s)" s] by metis

text \<open>The states reached when every call runs to its end before the next one begins.\<close>

inductive rf_seq :: "refund_state \<Rightarrow> bool" where
  seq_init: "rf_seq rf_init"
| seq_evaluate: "rf_seq s \<Longrightarrow> rf_seq (snd (evaluateRefund i pid inp now s))"
| seq_approve: "rf_seq s \<Longrightarrow> rf_seq (snd (approveRefund i ap l c now s))"
| seq_reject: "rf_seq s \<Longrightarrow> rf_seq (snd (rejectRefund i ap l c now s))"
| seq_cancel: "rf_seq s \<Longrightarrow> rf_seq (snd (cancelRefund i actor c now s))"
| seq_process: "rf_seq s \<Longrightarrow> rf_seq (snd (processRefund i f now s))"
| seq_retry: "rf_seq s \<Longrightarrow> rf_seq (snd (retryFailedRefund i f now s))"
| seq_auto: "rf_seq s \<Longrightarrow> rf_seq (snd (autoProcessApprovedRefunds f now s))"
| seq_policy: "rf_seq s \<Longrightarrow> rf_seq (snd (upsertRefundPolicy pid pol now s))"
| seq_deletePolicy: "rf_seq s \<Longrightarrow> rf_seq (snd (deleteRefundPolicy pid now s))"
| seq_job: "rf_seq s \<Longrightarrow> rf_seq (snd (createRefundJob j i w ty now s))"

lemma rf_seq_linked: "rf_seq s \<Longrightarrow> all_linked s"
proof (induction rule: rf_seq.induct)
  case seq_init
  show ?case by (simp add: all_linked_def rf_init_def js.entries_empty)
next
  case (seq_auto s f now)
  let ?ids = "map ref_id (filter (\<lambda>r. ref_status r = RApproved \<and> ref_autoProcessed r) (js_values (rf_refunds s)))"
  obtain b t where loop: "auto_process_loop f now ?ids \<lparr>bat_processed = 0, bat_failed = 0, bat_errors = []\<rparr> s = (b, t)"
    by fastforce
  with linked_loop [OF seq_auto.IH, of f now ?ids "\<lparr>bat_processed = 0, bat_failed = 0, bat_errors = []\<rparr>"]
  show ?case by (simp add: autoProcessApprovedRefunds_def Let_def)
next
  case (seq_policy s pid pol now)
  then show ?case by (simp add: upsertRefundPolicy_def Let_def all_linked_def)
next
  case (seq_deletePolicy s pid now)
  then show ?case by (simp add: deleteRefundPolicy_def all_linked_def split: option.splits)
next
  case (seq_job s j i w ty now)
  then show ?case by (simp add: createRefundJob_def Let_def all_linked_def)
qed (auto intro: linked_evaluate linked_approve linked_reject linked_cancel linked_process linked_retry)

text \<open>
  as long as no other call interrupts the processing of a refund, its history is gapless: the
  entries form a chain of status changes from \<open>pending\<close> to the present status.
\<close>

lemma refund_history_is_a_chain:
  assumes "rf_seq s" and "js_get (rf_refunds s) i = Some r"
  shows "chain RPending (ref_history r) (ref_status r)"
  using all_linked_get [OF rf_seq_linked [OF assms(1)] assms(2)] by (simp add: linked_def)

subsection \<open>Batches\<close>

definition settled_as :: "(RefundRecord \<Rightarrow> provider_result) option \<Rightarrow> RefundRecord \<Rightarrow> RefundStatus" where
  "settled_as f r =
     (case (case f of Some f \<Rightarrow> f r | None \<Rightarrow> Success None) of Success _ \<Rightarrow> RCompleted | _ \<Rightarrow> RFailed)"

lemma processRefund_approved:
  assumes "js_get (rf_refunds s) i = Some r" and "ref_status r = RApproved"
  shows "\<exists>r1 r2. rf_refunds (snd (processRefund i f now s)) = js_set i r2 (js_set i r1 (rf_refunds s)) \<and>
    ref_status r2 = settled_as f r1"
proof -
  define r1 where "r1 = push_history now ''processing_started'' ''system'' RApproved RProcessing None
    (r\<lparr>ref_status := RProcessing, ref_processedAt := Some now\<rparr>)"
  have start: "process_start i now s = (Inr r1, put_refund i r1 s)"
    using assms by (simp add: process_start_def find_refund_def r1_def Let_def)
  have get: "js_get (rf_refunds (put_refund i r1 s)) i = Some r1" by simp
  let ?res = "case f of Some f \<Rightarrow> f r1 | None \<Rightarrow> Success None"
  obtain r2 where "rf_refunds (snd (process_finish i ?res now (put_refund i r1 s))) =
      js_set i r2 (rf_refunds (put_refund i r1 s))" "ref_status r2 = settled_as f r1"
    using process_finish_refunds [OF get, of ?res now] by (auto simp: settled_as_def)
  with start show ?thesis by (auto simp: processRefund_def)
qed

lemma auto_process_loop_outcome:
  assumes "distinct ids" and "\<forall>i\<in>set ids. \<exists>r. js_get (rf_refunds s) i = Some r \<and> ref_status r = RApproved"
  shows "bat_processed (fst (auto_process_loop f now ids b s)) + bat_failed (fst (auto_process_loop f now ids b s)) =
      bat_processed b + bat_failed b + length ids \<and>
    (\<forall>i\<in>set ids. \<exists>r1 r2. js_get (rf_refunds (snd (auto_process_loop f now ids b s))) i = Some r2 \<and>
      ref_status r2 = settled_as f r1) \<and>
    (\<forall>i. i \<notin> set ids \<longrightarrow>
      js_get (rf_refunds (snd (auto_process_loop f now ids b s))) i = js_get (rf_refunds s) i)"
  using assms
proof (induction ids arbitrary: b s)
  case (Cons j ids)
  obtain r where r: "js_get (rf_refunds s) j = Some r" "ref_status r = RApproved"
    using Cons.prems(2) by auto
  obtain r1 r2 where p: "rf_refunds (snd (processRefund j f now s)) = js_set j r2 (js_set j r1 (rf_refunds s))"
    "ref_status r2 = settled_as f r1"
    using processRefund_approved [OF r, of f now] by blast
  obtain res s1 where eq: "processRefund j f now s = (res, s1)" by fastforce
  have s1: "js_get (rf_refunds s1) k = (if k = j then Some r2 else js_get (rf_refunds s) k)" for k
    using p(1) eq by simp
  obtain b1 where b1: "auto_process_loop f now (j # ids) b s = auto_process_loop f now ids b1 s1"
    "bat_processed b1 + bat_failed b1 = bat_processed b + bat_failed b + 1"
    using eq by (cases res) (auto simp: algebra_simps)
  have ids: "distinct ids" "j \<notin> set ids" using Cons.prems(1) by auto
  have app: "\<forall>i\<in>set ids. \<exists>r. js_get (rf_refunds s1) i = Some r \<and> ref_status r = RApproved"
    using Cons.prems(2) ids(2) by (auto simp: s1)
  note IH = Cons.IH [OF ids(1) app, of b1]
  have "js_get (rf_refunds (snd (auto_process_loop f now ids b1 s1))) j = Some r2"
    using IH ids(2) s1 by simp
  moreover have "js_get (rf_refunds (snd (auto_process_loop f now ids b1 s1))) i = js_get (rf_refunds s) i"
    if "i \<notin> set (j # ids)" for i using IH that s1 by simp
  ultimately show ?case unfolding b1(1) using IH b1(2) p(2) by auto
qed simp

text \<open>
  a batch settles every refund that was approved automatically and no other: each of them is
  completed or failed as the provider answers, all other refunds stay as they are, and the two
  counters add up to the number of refunds taken.
\<close>

lemma auto_process_settles:
  assumes "rf_seq s" and "autoProcessApprovedRefunds f now s = (b, s')"
  defines "taken \<equiv> {i. \<exists>r. js_get (rf_refunds s) i = Some r \<and> ref_status r = RApproved \<and> ref_autoProcessed r}"
  shows "bat_processed b + bat_failed b = card taken \<and>
    (\<forall>i\<in>taken. \<exists>r1 r2. js_get (rf_refunds s') i = Some r2 \<and> ref_status r2 = settled_as f r1) \<and>
    (\<forall>i. i \<notin> taken \<longrightarrow> js_get (rf_refunds s') i = js_get (rf_refunds s) i)"
proof -
  have all: "all_linked s" by (rule rf_seq_linked [OF assms(1)])
  then have wf: "js_wf (rf_refunds s)" by (simp add: all_linked_def)
  let ?sel = "filter (\<lambda>r. ref_status r = RApproved \<and> ref_autoProcessed r) (js_values (rf_refunds s))"
  let ?ids = "map ref_id ?sel"
  have get: "js_get (rf_refunds s) (ref_id r) = Some r" if "r \<in> set (js_values (rf_refunds s))" for r
    using that all_linked_id [OF all] by (auto simp: in_js_values [OF wf])
  have set: "set ?ids = taken"
    using get all_linked_id [OF all] by (force simp: taken_def in_js_values [OF wf])
  have "distinct (map ref_id (js_values (rf_refunds s)))"
    by (rule js_values_ids_distinct [OF wf]) (use all in \<open>auto simp: all_linked_def elim: js.entries_mono\<close>)
  then have dist: "distinct ?ids" by (rule distinct_map_filter)
  have app: "\<forall>i\<in>set ?ids. \<exists>r. js_get (rf_refunds s) i = Some r \<and> ref_status r = RApproved"
    using get by auto
  obtain b0 t where loop: "auto_process_loop f now ?ids \<lparr>bat_processed = 0, bat_failed = 0, bat_errors = []\<rparr> s = (b0, t)"
    by fastforce
  with assms(2) have "b = b0" "rf_refunds s' = rf_refunds t"
    by (auto simp: autoProcessApprovedRefunds_def Let_def split: if_splits)
  with auto_process_loop_outcome [OF dist app, where f = f and now = now and b = "\<lparr>bat_processed = 0, bat_failed = 0, bat_errors = []\<rparr>"]
    distinct_card [OF dist] loop show ?thesis
    unfolding set by simp
qed

subsection \<open>A request, and what the workflow allows\<close>

definition demo_request :: "rat \<Rightarrow> rat \<Rightarrow> bool \<Rightarrow> RefundEvaluationInput" where
  "demo_request paid requested dispute =
     \<lparr>inp_workspaceId = ''w'', inp_paymentId = ''pay'', inp_paymentType = Card,
      inp_amountPaid = paid, inp_requestedAmount = requested, inp_currency = ''USD'',
      inp_daysSincePayment = 1, inp_reason = Some ''late'', inp_hasChargeback = False,
      inp_hasDispute = dispute, inp_customerTier = None, inp_customerTotalSpent = None,
      inp_previousRefundCount = None, inp_previousRefundAmount = None, inp_lineItems = None\<rparr>"

lemma demo_has_reason [simp]: "has_reason (demo_request paid req dispute)"
proof -
  have "js_trim ''late'' = ''late''" by code_simp
  then show ?thesis by (simp add: has_reason_def demo_request_def truthy_def)
qed

lemma demo_evaluate:
  assumes "rf_policies s = []" and "builtin_decision (defaultPolicy ''d'' now ''w'') (demo_request paid req dispute) = (d, why, l)"
  shows "evaluateRefund i ''d'' (demo_request paid req dispute) now s =
    (Inr \<lparr>ev_decision = d, ev_reasons = [Reason why], ev_policy = defaultPolicy ''d'' now ''w'',
       ev_amountApproved = (if d = DecApproved then req else 0), ev_requiredApprovalLevel = l,
       ev_matchedRule = None\<rparr>,
     trackRefundEvent (demo_request paid req dispute) d now
       (createRefundRecord i (demo_request paid req dispute) d [Reason why] l None now s))"
proof -
  have "getRefundPolicy ''d'' now ''w'' None s = defaultPolicy ''d'' now ''w''"
    by (simp add: getRefundPolicy_def assms(1) js_values_def truthy_def)
  moreover have "inp_workspaceId (demo_request paid req dispute) = ''w''"
    "inp_requestedAmount (demo_request paid req dispute) = req" by (simp_all add: demo_request_def)
  moreover have "pol_rules (defaultPolicy ''d'' now ''w'') = []" by (simp add: defaultPolicy_def)
  ultimately show ?thesis
    using assms(2) by (simp add: evaluateRefund_def evaluateCustomRules_def)
qed

lemma demo_builtin:
  "builtin_decision (defaultPolicy ''d'' now ''w'') (demo_request paid 20 False) =
     (DecApproved, ''Requested amount below always-refund threshold'', None)"
  "\<exists>why. builtin_decision (defaultPolicy ''d'' now ''w'') (demo_request paid paid False) = (DecApproved, why, None)"
  "builtin_decision (defaultPolicy ''d'' now ''w'') (demo_request paid req True) =
     (DecManualReview, ''Chargeback/dispute requires manual review'', Some First)"
  by (auto simp: builtin_decision_def demo_request_def defaultPolicy_def)

definition decided :: "rf_error + RefundEvaluation \<Rightarrow> RefundDecision \<Rightarrow> rat \<Rightarrow> bool" where
  "decided r d amount = (case r of Inl _ \<Rightarrow> False | Inr ev \<Rightarrow> ev_decision ev = d \<and> ev_amountApproved ev = amount)"

text \<open>
  the automatic approval does not bound refunds by what was paid. Under the default policy a
  request of 20 is approved whatever the amount paid, and two requests for the whole amount of one
  payment are both approved.
\<close>

theorem auto_approval_not_bounded_by_payment:
  "decided (fst (evaluateRefund ''r'' ''d'' (demo_request paid 20 False) 0 rf_init)) DecApproved 20 \<and>
   decided (fst (evaluateRefund ''r1'' ''d'' (demo_request paid paid False) 0 rf_init)) DecApproved paid \<and>
   decided (fst (evaluateRefund ''r2'' ''d'' (demo_request paid paid False) 1
     (snd (evaluateRefund ''r1'' ''d'' (demo_request paid paid False) 0 rf_init)))) DecApproved paid"
proof -
  obtain why why' where b: "builtin_decision (defaultPolicy ''d'' 0 ''w'') (demo_request paid paid False) = (DecApproved, why, None)"
    "builtin_decision (defaultPolicy ''d'' 1 ''w'') (demo_request paid paid False) = (DecApproved, why', None)"
    using demo_builtin(2) by blast
  have init: "rf_policies rf_init = []" by (simp add: rf_init_def)
  note e = demo_evaluate [OF init demo_builtin(1)] demo_evaluate [OF init b(1)]
  have "rf_policies (snd (evaluateRefund ''r1'' ''d'' (demo_request paid paid False) 0 rf_init)) = []"
    by (simp add: e(2) trackRefundEvent_def createRefundRecord_def log_audit_def Let_def init)
  from demo_evaluate [OF this b(2)] e show ?thesis by (simp add: decided_def)
qed

definition demo_review :: refund_state where
  "demo_review = snd (evaluateRefund ''r'' ''d'' (demo_request 100 100 True) 0 rf_init)"

definition demo_approved :: refund_state where
  "demo_approved = snd (evaluateRefund ''r'' ''d'' (demo_request 100 100 False) 0 rf_init)"

lemma demo_review_refunds:
  "\<exists>r. rf_refunds demo_review = [(''r'', r)] \<and> ref_status r = RPending \<and>
     ref_approvals r = [\<lparr>app_level = First, app_approverId = [], app_status = AppPending,
       app_comment = None, app_approvedAt = None\<rparr>] \<and> \<not> ref_autoProcessed r"
proof -
  have "rf_policies rf_init = []" by (simp add: rf_init_def)
  from demo_evaluate [OF this demo_builtin(3)] show ?thesis
    by (simp add: demo_review_def createRefundRecord_def Let_def decision_status_def rf_init_def)
qed

lemma demo_approved_refunds:
  "\<exists>r. rf_refunds demo_approved = [(''r'', r)] \<and> ref_status r = RApproved \<and> ref_autoProcessed r"
proof -
  have init: "rf_policies rf_init = []" by (simp add: rf_init_def)
  obtain why where "builtin_decision (defaultPolicy ''d'' 0 ''w'') (demo_request 100 100 False) = (DecApproved, why, None)"
    using demo_builtin(2) by blast
  from demo_evaluate [OF init this] show ?thesis
    by (simp add: demo_approved_def createRefundRecord_def Let_def decision_status_def rf_init_def)
qed

definition status_of :: "string \<Rightarrow> refund_state \<Rightarrow> RefundStatus option" where
  "status_of i s = map_option ref_status (js_get (rf_refunds s) i)"

text \<open>
  settled refunds can be revived and undone by the approval workflow. A refund under review
  that was cancelled is approved by a later approval and then paid; and a refund that was approved
  and paid is turned into a rejected one by a later rejection.
\<close>

theorem workflow_ignores_refund_status:
  "(let s = snd (cancelRefund ''r'' ''ops'' None 1 demo_review);
        s' = snd (approveRefund ''r'' ''boss'' First None 2 s);
        s'' = snd (processRefund ''r'' None 3 s')
    in status_of ''r'' s = Some RCancelled \<and> status_of ''r'' s' = Some RApproved \<and>
       status_of ''r'' s'' = Some RCompleted \<and>
       status_of ''r'' (snd (rejectRefund ''r'' ''boss'' First None 4 s'')) = Some RRejected)"
proof -
  obtain r where r: "rf_refunds demo_review = [(''r'', r)]" "ref_status r = RPending"
    "ref_approvals r = [\<lparr>app_level = First, app_approverId = [], app_status = AppPending,
       app_comment = None, app_approvedAt = None\<rparr>]"
    using demo_review_refunds by blast
  define s1 where "s1 = snd (cancelRefund ''r'' ''ops'' None 1 demo_review)"
  obtain r1 where s1: "rf_refunds s1 = [(''r'', r1)]" "ref_status r1 = RCancelled" "ref_approvals r1 = ref_approvals r"
    using r by (simp add: s1_def cancelRefund_def find_refund_def Let_def)
  define s2 where "s2 = snd (approveRefund ''r'' ''boss'' First None 2 s1)"
  obtain r2 where s2: "rf_refunds s2 = [(''r'', r2)]" "ref_status r2 = RApproved"
    "\<exists>a. ref_approvals r2 = [a] \<and> app_level a = First"
    using s1 r(3) by (simp add: s2_def approveRefund_def find_refund_def Let_def resolve_approval_def)
  define s3 where "s3 = snd (processRefund ''r'' None 3 s2)"
  obtain r3 where s3: "rf_refunds s3 = [(''r'', r3)]" "ref_status r3 = RCompleted" "ref_approvals r3 = ref_approvals r2"
    using s2 by (simp add: s3_def processRefund_def process_start_def process_finish_def find_refund_def Let_def)
  have "status_of ''r'' (snd (rejectRefund ''r'' ''boss'' First None 4 s3)) = Some RRejected"
    using s2(3) s3 by (auto simp: rejectRefund_def find_refund_def Let_def status_of_def)
  with s1 s2 s3 show ?thesis
    unfolding s3_def s2_def s1_def by (simp add: status_of_def Let_def)
qed

text \<open>
  a cancellation that arrives while the provider is at work is accepted and then lost: the
  refund is completed, or failed, when the answer arrives, as if it had not been cancelled.
\<close>

theorem cancel_during_processing_is_lost:
  "(let s = snd (process_start ''r'' 1 demo_approved);
        (r, s') = cancelRefund ''r'' ''ops'' None 2 s
    in (case r of Inr refund \<Rightarrow> ref_status refund = RCancelled | Inl _ \<Rightarrow> False) \<and>
       status_of ''r'' (snd (process_finish ''r'' (Success None) 3 s')) = Some RCompleted \<and>
       status_of ''r'' (snd (process_finish ''r'' (Throws ''timeout'') 3 s')) = Some RFailed)"
proof -
  obtain r where "rf_refunds demo_approved = [(''r'', r)]" "ref_status r = RApproved"
    using demo_approved_refunds by blast
  then show ?thesis
    by (simp add: process_start_def cancelRefund_def process_finish_def find_refund_def Let_def status_of_def)
qed

subsection \<open>Witnesses\<close>

lemma demo_approved_run: "rf_run [] [] demo_approved" "rf_seq demo_approved"
  unfolding demo_approved_def
  by (rule rf_evaluate [OF rf_run.rf_init], simp add: rf_init_def) (rule seq_evaluate [OF seq_init])

theorem refund_paid_at_most_once_witness:
  "\<exists>s. rf_run [] [''r''] s \<and> fst (process_start ''r'' 9 s) = Inl RefundNotApproved"
proof -
  obtain r where "rf_refunds demo_approved = [(''r'', r)]" "ref_status r = RApproved"
    using demo_approved_refunds by blast
  then obtain r1 s1 where start: "process_start ''r'' 1 demo_approved = (Inr r1, s1)"
    by (simp add: process_start_def find_refund_def Let_def)
  have "rf_run [] [''r''] (snd (process_finish ''r'' (Success None) 2 s1))"
    using rf_finish [OF rf_start [OF demo_approved_run(1) start], of "''r''" "Success None" 2] by simp
  with refund_paid_at_most_once [OF this] show ?thesis by auto
qed

lemma evaluateRefund_builtin_witness:
  "\<exists>ev s. evaluateRefund ''r'' ''d'' (demo_request 100 100 True) 0 rf_init = (Inr ev, s) \<and>
     ev_decision ev = DecManualReview \<and>
     (\<exists>r. js_get (rf_refunds s) ''r'' = Some r \<and> ref_amount r = 100 \<and> ref_status r = RPending)"
proof -
  have init: "rf_policies rf_init = []" by (simp add: rf_init_def)
  note e = demo_evaluate [OF init demo_builtin(3), where i = "''r''" and now = 0 and paid = 100 and req = 100]
  have pol: "defaultPolicy ''d'' 0 ''w'' = getRefundPolicy ''d'' 0 (inp_workspaceId (demo_request 100 100 True)) None rf_init"
    by (simp add: getRefundPolicy_def init js_values_def truthy_def demo_request_def)
  have "pol_rules (defaultPolicy ''d'' 0 ''w'') = []" by (simp add: defaultPolicy_def)
  from evaluateRefund_builtin [OF pol this e] e show ?thesis
    by (auto simp: decision_status_def demo_request_def)
qed

lemma refund_history_is_a_chain_witness:
  "\<exists>r. js_get (rf_refunds (snd (processRefund ''r'' None 5 demo_approved))) ''r'' = Some r \<and>
     chain RPending (ref_history r) RCompleted"
proof -
  obtain r where "rf_refunds demo_approved = [(''r'', r)]" "ref_status r = RApproved"
    using demo_approved_refunds by blast
  then obtain r2 where r2: "js_get (rf_refunds (snd (processRefund ''r'' None 5 demo_approved))) ''r'' = Some r2"
    "ref_status r2 = RCompleted"
    by (simp add: processRefund_def process_start_def process_finish_def find_refund_def Let_def)
  from refund_history_is_a_chain [OF seq_process [OF demo_approved_run(2)] r2(1)] r2 show ?thesis by simp
qed

lemma auto_process_settles_witness:
  "\<exists>b s r. autoProcessApprovedRefunds None 5 demo_approved = (b, s) \<and> bat_processed b + bat_failed b = 1 \<and>
     js_get (rf_refunds s) ''r'' = Some r \<and> ref_status r = RCompleted"
proof -
  obtain r where r: "rf_refunds demo_approved = [(''r'', r)]" "ref_status r = RApproved" "ref_autoProcessed r"
    using demo_approved_refunds by blast
  obtain b s where eq: "autoProcessApprovedRefunds None 5 demo_approved = (b, s)" by fastforce
  have "{i. \<exists>r. js_get (rf_refunds demo_approved) i = Some r \<and> ref_status r = RApproved \<and> ref_autoProcessed r} = {''r''}"
    using r by auto
  with auto_process_settles [OF demo_approved_run(2) eq] show ?thesis
    using eq by (auto simp: settled_as_def)
qed

end
