(* ===== verification/BaseService.thy ===== *)
theory BaseService
  imports Js
begin

text \<open>
  \<open>backend/src/services/BaseService.ts\<close>: the errors that the services raise. Each is an \<open>Error\<close>
  object with an HTTP status and a code.
\<close>

record service_error =
  err_message :: string
  err_statusCode :: nat
  err_code :: string

definition validation_error :: "string \<Rightarrow> service_error" where
  "validation_error message =
     \<lparr>err_message = message, err_statusCode = 400, err_code = ''VALIDATION_ERROR''\<rparr>"

text \<open>\<open>validate\<close> throws when the condition does not hold: the error, if any.\<close>

definition validate :: "bool \<Rightarrow> string \<Rightarrow> service_error option" where
  "validate condition message = (if \<not> condition then Some (validation_error message) else None)"

definition validate_code :: "bool \<Rightarrow> string \<Rightarrow> string \<Rightarrow> service_error option" where
  "validate_code condition message code =
     (if \<not> condition
      then Some \<lparr>err_message = message, err_statusCode = 400, err_code = code\<rparr> else None)"

definition notFound :: "string \<Rightarrow> string \<Rightarrow> service_error" where
  "notFound resource i =
     \<lparr>err_message = resource @ '' not found: '' @ i, err_statusCode = 404, err_code = ''NOT_FOUND''\<rparr>"

definition conflict :: "string \<Rightarrow> service_error" where
  "conflict message = \<lparr>err_message = message, err_statusCode = 409, err_code = ''CONFLICT''\<rparr>"

definition forbidden :: "string \<Rightarrow> service_error" where
  "forbidden message = \<lparr>err_message = message, err_statusCode = 403, err_code = ''FORBIDDEN''\<rparr>"

text \<open>The checks at the head of an operation, in order: the first one that throws decides.\<close>

fun first_error :: "service_error option list \<Rightarrow> service_error option" where
  "first_error [] = None"
| "first_error (Some e # cs) = Some e"
| "first_error (None # cs) = first_error cs"

lemma validate_None [simp]: "validate c m = None \<longleftrightarrow> c"
  by (simp add: validate_def)

lemma first_error_None [simp]: "first_error cs = None \<longleftrightarrow> list_all (\<lambda>c. c = None) cs"
  by (induction cs rule: first_error.induct) auto

end
