(* ===== verification/Money.thy ===== *)
theory Money
  imports Complex_Main
begin

text \<open>
  Amounts in major units with two decimals, as rationals: \<open>Math.round\<close>, the rounding to cents that
  several services define for themselves, and the amounts that are whole numbers of cents.
\<close>

definition js_round :: "rat \<Rightarrow> int" where
  "js_round x = \<lfloor>x + 1 / 2\<rfloor>"

text \<open>\<open>Number.EPSILON\<close> is \<open>2^-52\<close>.\<close>

definition round_decimals :: "rat \<Rightarrow> nat \<Rightarrow> rat" where
  "round_decimals n decimals = (let f = 10 ^ decimals in of_int (js_round ((n + 1 / 2 ^ 52) * f)) / f)"

lemma round_mono: "x \<le> y \<Longrightarrow> round_decimals x n \<le> round_decimals y n"
  unfolding round_decimals_def js_round_def Let_def
  by (intro divide_right_mono) (simp_all add: floor_mono mult_right_mono)

text \<open>\<open>Math.round((value + Number.EPSILON) * 100) / 100\<close>\<close>

definition round_cents :: "rat \<Rightarrow> rat" where
  "round_cents v = of_int (js_round ((v + 1 / 2 ^ 52) * 100)) / 100"

lemma round_two: "round_decimals v 2 = round_cents v"
  by (simp add: round_decimals_def round_cents_def)

definition cents :: "rat \<Rightarrow> bool" where
  "cents v \<longleftrightarrow> (\<exists>n. v = of_int n / 100)"

lemma cents_round [simp]: "cents (round_cents v)"
  by (auto simp: cents_def round_cents_def)

lemma cents_0 [simp]: "cents 0"
  by (auto simp: cents_def intro: exI [of _ 0])

lemma cents_diff: "cents a \<Longrightarrow> cents b \<Longrightarrow> cents (a - b)"
  by (auto simp: cents_def diff_divide_distrib [symmetric] simp flip: of_int_diff)

lemma cents_add: "cents a \<Longrightarrow> cents b \<Longrightarrow> cents (a + b)"
  by (auto simp: cents_def add_divide_distrib [symmetric] simp flip: of_int_add)

lemma cents_sum_list: "list_all cents xs \<Longrightarrow> cents (sum_list xs)"
  by (induction xs) (auto intro: cents_add)

lemma round_cents_id: "cents v \<Longrightarrow> round_cents v = v"
proof -
  assume "cents v"
  then obtain n where n: "v = of_int n / 100" by (auto simp: cents_def)
  have "\<lfloor>(v + 1 / 2 ^ 52) * 100 + 1 / 2\<rfloor> = n"
    by (rule floor_unique) (simp_all add: n algebra_simps)
  then show ?thesis by (simp add: round_cents_def js_round_def n)
qed

lemma round_cents_mono: "a \<le> b \<Longrightarrow> round_cents a \<le> round_cents b"
  unfolding round_cents_def js_round_def by (intro divide_right_mono) (auto intro: floor_mono)

lemma round_cents_0 [simp]: "round_cents 0 = 0"
  by (simp add: round_cents_id)

lemma round_cents_nonneg: "0 \<le> v \<Longrightarrow> 0 \<le> round_cents v"
  using round_cents_mono [of 0 v] by simp

lemma round_cents_le: "cents b \<Longrightarrow> a \<le> b \<Longrightarrow> round_cents a \<le> b"
  using round_cents_mono [of a b] by (simp add: round_cents_id)

lemma share_le: "0 \<le> a \<Longrightarrow> 0 \<le> p \<Longrightarrow> p \<le> 100 \<Longrightarrow> 0 \<le> a * p / 100 \<and> a * p / 100 \<le> (a :: rat)"
  using mult_left_mono [of p 100 a] by simp

lemma cents_of_nat [simp]: "cents (numeral n)"
  by (auto simp: cents_def intro: exI [of _ "numeral n * 100"])

lemma round_cents_numeral [simp]: "round_cents (numeral n) = numeral n"
  by (simp add: round_cents_id)

lemma round_cents_1 [simp]: "round_cents 1 = 1"
  using round_cents_id [of 1] by (simp add: cents_def exI [of _ 100])

lemma js_round_of_int [simp]: "js_round (of_int n) = n"
  unfolding js_round_def by (rule floor_unique) simp_all

lemma js_round_0 [simp]: "js_round 0 = 0"
  using js_round_of_int [of 0] by (simp del: js_round_of_int)

lemma cents_of_int [simp]: "cents (of_int n / 100)"
  by (auto simp: cents_def)

lemma round_cents_of_int [simp]: "round_cents (of_int n / 100) = of_int n / 100"
  by (simp add: round_cents_id)

end
