(* ===== verification/Marketplace.thy ===== *)
theory Marketplace
  imports BaseService Money
begin

text \<open>
  \<open>backend/src/services/marketplace-escrow.ts\<close>: orders whose amount is held in escrow until it is
  released to the seller, refunded, or divided by the resolution of a dispute. Amounts are rationals
  (the code has doubles), time stamps are milliseconds, the clock and the identifiers drawn by
  \<open>randomUUID\<close> are arguments. The state is the map of orders; an operation works on the object that
  the map holds, which is here read, changed and stored back.
\<close>

subsection \<open>Types\<close>

datatype MarketplaceOrderStatus =
  MkCreated | MkFunded | MkShipped | MkDelivered | MkReleased | MkPartiallyReleased | MkRefunded
| MkDisputed | MkCancelled

datatype MilestoneStatus = MsPending | MsReleased

record Milestone =
  mil_id :: string
  mil_name :: string
  mil_amount :: rat
  mil_status :: MilestoneStatus
  mil_releasedAt :: "int option"

datatype DisputeResolution = ToBuyer | ToSeller | ToSplit

text \<open>The \<open>details\<close> object of an event, by the operations that write it.\<close>

datatype event_details =
    NoDetails
  | TxHashDetails string
  | TrackingDetails string
  | AutoReleaseAtDetails int
  | ReleaseDetails string rat
  | MilestoneDetails string rat string
  | PayoutDetails rat
  | DisputeDetails string string
  | ResolutionDetails DisputeResolution rat rat
  | RefundDetails string

record OrderEvent =
  oev_type :: string
  oev_at :: int
  oev_details :: event_details

record EscrowDispute =
  edp_raisedBy :: string
  edp_reason :: string
  edp_raisedAt :: int
  edp_resolution :: "DisputeResolution option"
  edp_buyerPercent :: "rat option"
  edp_resolvedAt :: "int option"

record MarketplaceOrder =
  mko_id :: string
  mko_marketplaceId :: string
  mko_externalOrderId :: string
  mko_buyerId :: string
  mko_sellerId :: string
  mko_amount :: rat
  mko_currency :: string
  mko_platformFeePercent :: rat
  mko_platformFee :: rat
  mko_sellerPayout :: rat
  mko_refundedAmount :: rat
  mko_status :: MarketplaceOrderStatus
  mko_milestones :: "Milestone list option"
  mko_inspectionPeriodMs :: int
  mko_fundingTxHash :: "string option"
  mko_trackingInfo :: "string option"
  mko_deliveredAt :: "int option"
  mko_autoReleaseAt :: "int option"
  mko_releasedAt :: "int option"
  mko_refundedAt :: "int option"
  mko_cancelledAt :: "int option"
  mko_dispute :: "EscrowDispute option"
  mko_events :: "OrderEvent list"
  mko_createdAt :: int
  mko_updatedAt :: int

type_synonym marketplace = "(string, MarketplaceOrder) jsmap"

definition DAY_MS :: int where
  "DAY_MS = 24 * 60 * 60 * 1000"

definition DEFAULT_INSPECTION_PERIOD_MS :: int where
  "DEFAULT_INSPECTION_PERIOD_MS = 7 * DAY_MS"

subsection \<open>Shared helpers\<close>

definition status_name :: "MarketplaceOrderStatus \<Rightarrow> string" where
  "status_name st = (case st of
     MkCreated \<Rightarrow> ''created'' | MkFunded \<Rightarrow> ''funded'' | MkShipped \<Rightarrow> ''shipped''
   | MkDelivered \<Rightarrow> ''delivered'' | MkReleased \<Rightarrow> ''released''
   | MkPartiallyReleased \<Rightarrow> ''partially_released'' | MkRefunded \<Rightarrow> ''refunded''
   | MkDisputed \<Rightarrow> ''disputed'' | MkCancelled \<Rightarrow> ''cancelled'')"

definition requireOrder :: "string \<Rightarrow> marketplace \<Rightarrow> service_error + MarketplaceOrder" where
  "requireOrder i s =
     (case js_get s i of None \<Rightarrow> Inl (notFound ''Marketplace order'' i) | Some order \<Rightarrow> Inr order)"

definition assertStatus ::
  "MarketplaceOrder \<Rightarrow> MarketplaceOrderStatus list \<Rightarrow> string \<Rightarrow> service_error option" where
  "assertStatus order allowed action =
     (if mko_status order \<notin> set allowed
      then Some (conflict (''Cannot '' @ action @ '' an order in status '' @ status_name (mko_status order)))
      else None)"

text \<open>The part of \<open>touch\<close> that changes the object; \<open>store_order\<close> is its \<open>orders.set\<close>.\<close>

definition touch :: "int \<Rightarrow> string \<Rightarrow> event_details \<Rightarrow> MarketplaceOrder \<Rightarrow> MarketplaceOrder" where
  "touch now ty details order =
     order\<lparr>mko_events := mko_events order @ [\<lparr>oev_type = ty, oev_at = now, oev_details = details\<rparr>],
           mko_updatedAt := now\<rparr>"

definition store_order :: "MarketplaceOrder \<Rightarrow> (marketplace, service_error, MarketplaceOrder) op" where
  "store_order order s = (Inr order, js_set (mko_id order) order s)"

text \<open>The frame of an operation on an existing order: look it up, check, change, store.\<close>

definition on_order ::
  "string \<Rightarrow> (MarketplaceOrder \<Rightarrow> service_error + MarketplaceOrder) \<Rightarrow>
   (marketplace, service_error, MarketplaceOrder) op" where
  "on_order i f s =
     (case requireOrder i s of
        Inl e \<Rightarrow> (Inl e, s)
      | Inr order \<Rightarrow> (case f order of Inl e \<Rightarrow> (Inl e, s) | Inr order' \<Rightarrow> store_order order' s))"

definition checked :: "service_error option \<Rightarrow> 'a \<Rightarrow> service_error + 'a" where
  "checked e x = (case e of Some e \<Rightarrow> Inl e | None \<Rightarrow> Inr x)"

subsection \<open>Creating an order\<close>

record MilestoneInput =
  mi_id :: "string option"
  mi_name :: string
  mi_amount :: rat

record CreateOrderInput =
  co_marketplaceId :: string
  co_externalOrderId :: string
  co_buyerId :: string
  co_sellerId :: string
  co_amount :: rat
  co_currency :: "string option"
  co_platformFeePercent :: "rat option"
  co_inspectionPeriodMs :: "int option"
  co_milestones :: "MilestoneInput list option"

text \<open>\<open>uuids k\<close> is the identifier drawn for the \<open>k\<close>-th milestone.\<close>

fun mk_milestones ::
  "(nat \<Rightarrow> string) \<Rightarrow> nat \<Rightarrow> MilestoneInput list \<Rightarrow> service_error + Milestone list" where
  "mk_milestones uuids k [] = Inr []"
| "mk_milestones uuids k (mi # ms) =
     (if \<not> mi_amount mi > 0 then Inl (validation_error ''Milestone amount must be greater than 0'')
      else case mk_milestones uuids (Suc k) ms of
          Inl e \<Rightarrow> Inl e
        | Inr rest \<Rightarrow>
            Inr (\<lparr>mil_id = (case mi_id mi of Some i \<Rightarrow> i | None \<Rightarrow> ''ms_'' @ uuids k),
                  mil_name = mi_name mi, mil_amount = round_cents (mi_amount mi),
                  mil_status = MsPending, mil_releasedAt = None\<rparr> # rest))"

definition order_input_error :: "CreateOrderInput \<Rightarrow> rat \<Rightarrow> service_error option" where
  "order_input_error input platformFeePercent = first_error
     [validate (co_marketplaceId input \<noteq> []) ''marketplaceId is required'',
      validate (co_externalOrderId input \<noteq> []) ''externalOrderId is required'',
      validate (co_buyerId input \<noteq> [] \<and> co_sellerId input \<noteq> []) ''buyerId and sellerId are required'',
      validate (co_buyerId input \<noteq> co_sellerId input) ''Buyer and seller must be different'',
      validate (co_amount input > 0) ''Amount must be greater than 0'',
      validate (platformFeePercent \<ge> 0 \<and> platformFeePercent \<le> 100)
        ''platformFeePercent must be between 0 and 100'']"

definition order_milestones ::
  "(nat \<Rightarrow> string) \<Rightarrow> rat \<Rightarrow> CreateOrderInput \<Rightarrow> service_error + Milestone list option" where
  "order_milestones uuids amount input =
     (case co_milestones input of
        None \<Rightarrow> Inr None
      | Some inputs \<Rightarrow>
          (case mk_milestones uuids 0 inputs of
             Inl e \<Rightarrow> Inl e
           | Inr milestones \<Rightarrow>
               checked (first_error
                 [validate (milestones \<noteq> []) ''milestones cannot be empty'',
                  validate (round_cents (sum_list (map mil_amount milestones)) = amount)
                    ''Milestone amounts must sum to the order amount''])
                 (Some milestones)))"

definition createOrder ::
  "string \<Rightarrow> (nat \<Rightarrow> string) \<Rightarrow> CreateOrderInput \<Rightarrow> int \<Rightarrow>
   (marketplace, service_error, MarketplaceOrder) op" where
  "createOrder uuid uuids input now s =
     (let platformFeePercent = (case co_platformFeePercent input of Some p \<Rightarrow> p | None \<Rightarrow> 10);
          amount = round_cents (co_amount input)
      in case order_input_error input platformFeePercent of
           Some e \<Rightarrow> (Inl e, s)
         | None \<Rightarrow>
             (case order_milestones uuids amount input of
                Inl e \<Rightarrow> (Inl e, s)
              | Inr milestones \<Rightarrow>
                  store_order
                    \<lparr>mko_id = ''mko_'' @ uuid, mko_marketplaceId = co_marketplaceId input,
                     mko_externalOrderId = co_externalOrderId input, mko_buyerId = co_buyerId input,
                     mko_sellerId = co_sellerId input, mko_amount = amount,
                     mko_currency = to_upper (case co_currency input of Some c \<Rightarrow> c | None \<Rightarrow> ''USD''),
                     mko_platformFeePercent = platformFeePercent,
                     mko_platformFee = round_cents (amount * platformFeePercent / 100),
                     mko_sellerPayout = 0, mko_refundedAmount = 0, mko_status = MkCreated,
                     mko_milestones = milestones,
                     mko_inspectionPeriodMs = (case co_inspectionPeriodMs input of
                         Some p \<Rightarrow> p | None \<Rightarrow> DEFAULT_INSPECTION_PERIOD_MS),
                     mko_fundingTxHash = None, mko_trackingInfo = None, mko_deliveredAt = None,
                     mko_autoReleaseAt = None, mko_releasedAt = None, mko_refundedAt = None,
                     mko_cancelledAt = None, mko_dispute = None,
                     mko_events = [\<lparr>oev_type = ''order.created'', oev_at = now, oev_details = NoDetails\<rparr>],
                     mko_createdAt = now, mko_updatedAt = now\<rparr> s))"

subsection \<open>Queries\<close>

definition getOrder :: "string \<Rightarrow> marketplace \<Rightarrow> MarketplaceOrder option" where
  "getOrder i s = js_get s i"

record OrderFilter =
  of_marketplaceId :: "string option"
  of_buyerId :: "string option"
  of_sellerId :: "string option"
  of_status :: "MarketplaceOrderStatus option"
  of_limit :: "int option"
  of_offset :: "int option"

text \<open>A filter on a string is skipped when the string is missing or empty.\<close>

definition matches_string :: "string option \<Rightarrow> string \<Rightarrow> bool" where
  "matches_string wanted value \<longleftrightarrow> \<not> truthy wanted \<or> wanted = Some value"

definition listOrders :: "OrderFilter \<Rightarrow> marketplace \<Rightarrow> MarketplaceOrder list \<times> nat" where
  "listOrders flt s =
     (let all = newest_first mko_createdAt
            (filter (\<lambda>order. of_status flt = None \<or> of_status flt = Some (mko_status order))
            (filter (\<lambda>order. matches_string (of_sellerId flt) (mko_sellerId order))
            (filter (\<lambda>order. matches_string (of_buyerId flt) (mko_buyerId order))
            (filter (\<lambda>order. matches_string (of_marketplaceId flt) (mko_marketplaceId order))
            (js_values s)))));
          offset = (case of_offset flt of Some n \<Rightarrow> n | None \<Rightarrow> 0);
          limit = min (case of_limit flt of Some n \<Rightarrow> n | None \<Rightarrow> 50) 100
      in (js_slice offset (offset + limit) all, length all))"

subsection \<open>The lifecycle\<close>

definition fundOrder ::
  "string \<Rightarrow> string \<Rightarrow> int \<Rightarrow> (marketplace, service_error, MarketplaceOrder) op" where
  "fundOrder i txHash now s =
     (case validate (txHash \<noteq> []) ''txHash is required'' of
        Some e \<Rightarrow> (Inl e, s)
      | None \<Rightarrow> on_order i (\<lambda>order.
          checked (assertStatus order [MkCreated] ''fund'')
            (touch now ''order.funded'' (TxHashDetails txHash)
              (order\<lparr>mko_status := MkFunded, mko_fundingTxHash := Some txHash\<rparr>))) s)"

definition markShipped ::
  "string \<Rightarrow> string option \<Rightarrow> int \<Rightarrow> (marketplace, service_error, MarketplaceOrder) op" where
  "markShipped i trackingInfo now = on_order i (\<lambda>order.
     checked (assertStatus order [MkFunded] ''ship'')
       (touch now ''order.shipped''
         (if truthy trackingInfo then TrackingDetails (the trackingInfo) else NoDetails)
         (order\<lparr>mko_status := MkShipped, mko_trackingInfo := trackingInfo\<rparr>)))"

definition markDelivered ::
  "string \<Rightarrow> int \<Rightarrow> (marketplace, service_error, MarketplaceOrder) op" where
  "markDelivered i now = on_order i (\<lambda>order.
     checked (assertStatus order [MkShipped] ''deliver'')
       (touch now ''order.delivered'' (AutoReleaseAtDetails (now + mko_inspectionPeriodMs order))
         (order\<lparr>mko_status := MkDelivered, mko_deliveredAt := Some now,
                mko_autoReleaseAt := Some (now + mko_inspectionPeriodMs order)\<rparr>)))"

definition seller_share :: "MarketplaceOrder \<Rightarrow> rat" where
  "seller_share order = round_cents (mko_amount order - mko_platformFee order)"

definition release_order :: "int \<Rightarrow> string \<Rightarrow> event_details \<Rightarrow> MarketplaceOrder \<Rightarrow> MarketplaceOrder" where
  "release_order now ty details order =
     touch now ty details
       (order\<lparr>mko_status := MkReleased, mko_sellerPayout := seller_share order,
              mko_releasedAt := Some now\<rparr>)"

definition release ::
  "string \<Rightarrow> string \<Rightarrow> int \<Rightarrow> (marketplace, service_error, MarketplaceOrder) op" where
  "release i approvedBy now = on_order i (\<lambda>order.
     checked (assertStatus order [MkFunded, MkShipped, MkDelivered] ''release'')
       (release_order now ''order.released'' (ReleaseDetails approvedBy (seller_share order)) order))"

text \<open>\<open>find\<close> returns the object in the array: the first milestone with the id is changed.\<close>

fun release_first :: "string \<Rightarrow> int \<Rightarrow> Milestone list \<Rightarrow> Milestone list" where
  "release_first i now [] = []"
| "release_first i now (m # ms) =
     (if mil_id m = i then m\<lparr>mil_status := MsReleased, mil_releasedAt := Some now\<rparr> # ms
      else m # release_first i now ms)"

definition milestones_of :: "MarketplaceOrder \<Rightarrow> Milestone list" where
  "milestones_of order = (case mko_milestones order of Some ms \<Rightarrow> ms | None \<Rightarrow> [])"

definition release_milestone_of ::
  "string \<Rightarrow> string \<Rightarrow> int \<Rightarrow> MarketplaceOrder \<Rightarrow> service_error + MarketplaceOrder" where
  "release_milestone_of milestoneId approvedBy now order =
     (case find (\<lambda>m. mil_id m = milestoneId) (milestones_of order) of
        None \<Rightarrow> Inl (notFound ''Milestone'' milestoneId)
      | Some milestone \<Rightarrow>
          if mil_status milestone = MsReleased
          then Inl (conflict ''Milestone has already been released'')
          else
            let order1 = touch now ''order.milestone_released''
                  (MilestoneDetails milestoneId (mil_amount milestone) approvedBy)
                  (order\<lparr>mko_milestones := Some (release_first milestoneId now (milestones_of order))\<rparr>)
            in Inr (if list_all (\<lambda>m. mil_status m = MsReleased) (milestones_of order1)
                    then release_order now ''order.released'' (PayoutDetails (seller_share order1)) order1
                    else order1\<lparr>mko_status := MkPartiallyReleased\<rparr>))"

definition releaseMilestone ::
  "string \<Rightarrow> string \<Rightarrow> string \<Rightarrow> int \<Rightarrow> (marketplace, service_error, MarketplaceOrder) op" where
  "releaseMilestone i milestoneId approvedBy now = on_order i (\<lambda>order.
     case first_error
       [assertStatus order [MkFunded, MkShipped, MkDelivered, MkPartiallyReleased]
          ''release milestones for'',
        validate (milestones_of order \<noteq> []) ''Order has no milestones'',
        validate (mko_dispute order = None) ''Cannot release milestones while a dispute is open''] of
       Some e \<Rightarrow> Inl e
     | None \<Rightarrow> release_milestone_of milestoneId approvedBy now order)"

definition autoRelease ::
  "string \<Rightarrow> int \<Rightarrow> (marketplace, service_error, MarketplaceOrder) op" where
  "autoRelease i now = on_order i (\<lambda>order.
     case assertStatus order [MkDelivered] ''auto-release'' of
       Some e \<Rightarrow> Inl e
     | None \<Rightarrow>
         (case mko_autoReleaseAt order of
            None \<Rightarrow> Inl (conflict ''Order has no auto-release schedule'')
          | Some autoReleaseAt \<Rightarrow>
              checked (validate (now \<ge> autoReleaseAt) ''Inspection window has not elapsed yet'')
                (release_order now ''order.auto_released'' (PayoutDetails (seller_share order)) order)))"

subsection \<open>Buyer protection\<close>

definition raiseDispute ::
  "string \<Rightarrow> string \<Rightarrow> string \<Rightarrow> int \<Rightarrow> (marketplace, service_error, MarketplaceOrder) op" where
  "raiseDispute i raisedBy reason now s =
     (case first_error [validate (raisedBy \<noteq> []) ''raisedBy is required'',
                        validate (reason \<noteq> []) ''reason is required''] of
        Some e \<Rightarrow> (Inl e, s)
      | None \<Rightarrow> on_order i (\<lambda>order.
          checked (first_error
            [assertStatus order [MkFunded, MkShipped, MkDelivered, MkPartiallyReleased] ''dispute'',
             if raisedBy \<notin> {mko_buyerId order, mko_sellerId order}
             then Some (forbidden ''Only the buyer or seller can raise a dispute'') else None])
            (touch now ''order.disputed'' (DisputeDetails raisedBy reason)
              (order\<lparr>mko_status := MkDisputed,
                     mko_dispute := Some \<lparr>edp_raisedBy = raisedBy, edp_reason = reason,
                       edp_raisedAt = now, edp_resolution = None, edp_buyerPercent = None,
                       edp_resolvedAt = None\<rparr>\<rparr>))) s)"

text \<open>The fee, the refund of the buyer and the payout of the seller under a resolution.\<close>

definition dispute_outcome ::
  "MarketplaceOrder \<Rightarrow> DisputeResolution \<Rightarrow> rat option \<Rightarrow> service_error + rat \<times> rat \<times> rat" where
  "dispute_outcome order resolution percent =
     (case resolution of
        ToBuyer \<Rightarrow> Inr (0, mko_amount order, 0)
      | ToSeller \<Rightarrow> Inr (mko_platformFee order, 0, seller_share order)
      | ToSplit \<Rightarrow>
          (let buyerPercent = (case percent of Some p \<Rightarrow> p | None \<Rightarrow> 50);
               distributable = seller_share order;
               buyerRefund = round_cents (distributable * buyerPercent / 100)
           in checked (validate (buyerPercent \<ge> 0 \<and> buyerPercent \<le> 100)
                         ''buyerPercent must be between 0 and 100'')
                (mko_platformFee order, buyerRefund, round_cents (distributable - buyerRefund))))"

text \<open>\<open>dispute\<close> is set whenever the status is disputed; the code asserts it with \<open>order.dispute!\<close>.\<close>

definition resolved_dispute ::
  "DisputeResolution \<Rightarrow> rat option \<Rightarrow> int \<Rightarrow> EscrowDispute \<Rightarrow> EscrowDispute" where
  "resolved_dispute resolution percent now d =
     d\<lparr>edp_resolution := Some resolution,
       edp_buyerPercent := (if resolution = ToSplit
          then Some (case percent of Some p \<Rightarrow> p | None \<Rightarrow> 50) else None),
       edp_resolvedAt := Some now\<rparr>"

definition resolution_status :: "DisputeResolution \<Rightarrow> MarketplaceOrderStatus" where
  "resolution_status r =
     (case r of ToBuyer \<Rightarrow> MkRefunded | ToSplit \<Rightarrow> MkPartiallyReleased | ToSeller \<Rightarrow> MkReleased)"

definition resolveDispute ::
  "string \<Rightarrow> DisputeResolution \<Rightarrow> rat option \<Rightarrow> string \<Rightarrow> int \<Rightarrow>
   (marketplace, service_error, MarketplaceOrder) op" where
  "resolveDispute i resolution percent approvedBy now = on_order i (\<lambda>order.
     case first_error [assertStatus order [MkDisputed] ''resolve'',
                       validate (approvedBy \<noteq> []) ''approvedBy is required''] of
       Some e \<Rightarrow> Inl e
     | None \<Rightarrow>
         (case dispute_outcome order resolution percent of
            Inl e \<Rightarrow> Inl e
          | Inr (platformFee, buyerRefund, sellerPayout) \<Rightarrow>
              Inr (touch now ''order.dispute_resolved''
                (ResolutionDetails resolution buyerRefund sellerPayout)
                (order\<lparr>mko_platformFee := platformFee, mko_refundedAmount := buyerRefund,
                   mko_sellerPayout := sellerPayout,
                   mko_dispute := map_option (resolved_dispute resolution percent now) (mko_dispute order),
                   mko_status := resolution_status resolution,
                   mko_refundedAt := (if resolution = ToBuyer then Some now else mko_refundedAt order),
                   mko_releasedAt := Some now\<rparr>))))"

definition mk_refund ::
  "string \<Rightarrow> string \<Rightarrow> int \<Rightarrow> (marketplace, service_error, MarketplaceOrder) op" where
  "mk_refund i reason now s =
     (case validate (reason \<noteq> []) ''Refund reason is required'' of
        Some e \<Rightarrow> (Inl e, s)
      | None \<Rightarrow> on_order i (\<lambda>order.
          checked (assertStatus order [MkFunded, MkShipped, MkDelivered] ''refund'')
            (touch now ''order.refunded'' (RefundDetails reason)
              (order\<lparr>mko_status := MkRefunded, mko_platformFee := 0, mko_sellerPayout := 0,
                     mko_refundedAmount := mko_amount order, mko_refundedAt := Some now\<rparr>))) s)"

definition cancelOrder ::
  "string \<Rightarrow> int \<Rightarrow> (marketplace, service_error, MarketplaceOrder) op" where
  "cancelOrder i now = on_order i (\<lambda>order.
     checked (assertStatus order [MkCreated] ''cancel'')
       (touch now ''order.cancelled'' NoDetails
         (order\<lparr>mko_status := MkCancelled, mko_cancelledAt := Some now\<rparr>)))"

subsection \<open>Reporting\<close>

record PayoutBreakdown =
  pb_orderId :: string
  pb_amount :: rat
  pb_currency :: string
  pb_platformFee :: rat
  pb_sellerPayout :: rat
  pb_buyerRefund :: rat
  pb_releasedMilestoneAmount :: rat
  pb_status :: MarketplaceOrderStatus

definition getPayoutBreakdown :: "string \<Rightarrow> marketplace \<Rightarrow> service_error + PayoutBreakdown" where
  "getPayoutBreakdown i s =
     (case requireOrder i s of
        Inl e \<Rightarrow> Inl e
      | Inr order \<Rightarrow>
          Inr \<lparr>pb_orderId = mko_id order, pb_amount = mko_amount order,
               pb_currency = mko_currency order, pb_platformFee = mko_platformFee order,
               pb_sellerPayout = mko_sellerPayout order, pb_buyerRefund = mko_refundedAmount order,
               pb_releasedMilestoneAmount = round_cents (sum_list (map mil_amount
                 (filter (\<lambda>m. mil_status m = MsReleased) (milestones_of order)))),
               pb_status = mko_status order\<rparr>)"

record settlement_summary =
  ss_marketplaceId :: string
  ss_orderCount :: nat
  ss_escrowedVolume :: rat
  ss_platformFeesCollected :: rat
  ss_sellerPayouts :: rat
  ss_buyerRefunds :: rat
  ss_currency :: string

definition marketplace_filter :: "string \<Rightarrow> OrderFilter" where
  "marketplace_filter marketplaceId =
     \<lparr>of_marketplaceId = Some marketplaceId, of_buyerId = None, of_sellerId = None,
      of_status = None, of_limit = Some 100, of_offset = None\<rparr>"

definition getSettlementSummary :: "string \<Rightarrow> marketplace \<Rightarrow> settlement_summary" where
  "getSettlementSummary marketplaceId s =
     (let orders = fst (listOrders (marketplace_filter marketplaceId) s);
          settled = filter (\<lambda>order. mko_status order \<in> {MkReleased, MkPartiallyReleased}) orders;
          refunded = filter (\<lambda>order. mko_status order = MkRefunded) orders
      in \<lparr>ss_marketplaceId = marketplaceId, ss_orderCount = length orders,
          ss_escrowedVolume = round_cents (sum_list (map mko_amount settled)),
          ss_platformFeesCollected = round_cents (sum_list (map mko_platformFee settled)),
          ss_sellerPayouts = round_cents (sum_list (map mko_sellerPayout settled)),
          ss_buyerRefunds = round_cents (sum_list (map mko_refundedAmount refunded) +
            sum_list (map mko_refundedAmount settled)),
          ss_currency = (case orders of order # _ \<Rightarrow> mko_currency order | [] \<Rightarrow> ''USD'')\<rparr>)"

definition mk_resetForTests :: "marketplace \<Rightarrow> marketplace" where
  "mk_resetForTests s = []"

end
