(* ===== verification/MarketplaceProps.thy ===== *)
theory MarketplaceProps
  imports Marketplace
begin

text \<open>
  Properties of the marketplace escrow: the money of an order is conserved, an order moves only
  along its life cycle and a settled order never changes, the automatic release waits for the
  inspection window, and two ways in which an order is settled twice or not at all.
\<close>

subsection \<open>The invariant of an order\<close>

definition held :: "MarketplaceOrder \<Rightarrow> bool" where
  "held order \<longleftrightarrow> mko_sellerPayout order = 0 \<and> mko_refundedAmount order = 0"

definition divided :: "MarketplaceOrder \<Rightarrow> bool" where
  "divided order \<longleftrightarrow>
     mko_platformFee order + mko_sellerPayout order + mko_refundedAmount order = mko_amount order"

definition order_ok :: "MarketplaceOrder \<Rightarrow> bool" where
  "order_ok order \<longleftrightarrow>
     cents (mko_amount order) \<and> cents (mko_platformFee order) \<and>
     0 \<le> mko_platformFee order \<and> mko_platformFee order \<le> mko_amount order \<and>
     0 \<le> mko_sellerPayout order \<and> 0 \<le> mko_refundedAmount order \<and>
     (case mko_status order of
        MkReleased \<Rightarrow> divided order \<and> mko_refundedAmount order = 0
      | MkRefunded \<Rightarrow> divided order \<and> mko_refundedAmount order = mko_amount order
      | MkPartiallyReleased \<Rightarrow> if mko_dispute order = None then held order else divided order
      | MkDisputed \<Rightarrow> mko_dispute order \<noteq> None \<and> (held order \<or> divided order)
      | MkDelivered \<Rightarrow> held order \<and> mko_dispute order = None \<and> mko_deliveredAt order \<noteq> None \<and>
          mko_autoReleaseAt order = Some (the (mko_deliveredAt order) + mko_inspectionPeriodMs order)
      | _ \<Rightarrow> held order \<and> mko_dispute order = None)"

text \<open>What can follow a status.\<close>

definition next_statuses :: "MarketplaceOrderStatus \<Rightarrow> MarketplaceOrderStatus list" where
  "next_statuses st = (case st of
     MkCreated \<Rightarrow> [MkFunded, MkCancelled]
   | MkFunded \<Rightarrow> [MkShipped, MkReleased, MkPartiallyReleased, MkDisputed, MkRefunded]
   | MkShipped \<Rightarrow> [MkDelivered, MkReleased, MkPartiallyReleased, MkDisputed, MkRefunded]
   | MkDelivered \<Rightarrow> [MkReleased, MkPartiallyReleased, MkDisputed, MkRefunded]
   | MkPartiallyReleased \<Rightarrow> [MkPartiallyReleased, MkReleased, MkDisputed]
   | MkDisputed \<Rightarrow> [MkRefunded, MkReleased, MkPartiallyReleased]
   | _ \<Rightarrow> [])"

definition same_deal :: "MarketplaceOrder \<Rightarrow> MarketplaceOrder \<Rightarrow> bool" where
  "same_deal a b \<longleftrightarrow>
     mko_id a = mko_id b \<and> mko_buyerId a = mko_buyerId b \<and> mko_sellerId a = mko_sellerId b \<and>
     mko_amount a = mko_amount b \<and> mko_currency a = mko_currency b \<and>
     prefix (mko_events a) (mko_events b)"

text \<open>One successful operation on an order.\<close>

definition order_step :: "MarketplaceOrder \<Rightarrow> MarketplaceOrder \<Rightarrow> bool" where
  "order_step a b \<longleftrightarrow>
     same_deal a b \<and> mko_status b \<in> set (next_statuses (mko_status a)) \<and> (order_ok a \<longrightarrow> order_ok b)"

lemma seller_share_ok:
  "order_ok order \<Longrightarrow> cents (seller_share order) \<and> 0 \<le> seller_share order \<and>
     seller_share order = mko_amount order - mko_platformFee order"
  by (auto simp: order_ok_def seller_share_def round_cents_id cents_diff)

lemma checked_Inr [simp]: "checked e x = Inr y \<longleftrightarrow> e = None \<and> y = x"
  by (auto simp: checked_def split: option.splits)

lemma assertStatus_None [simp]: "assertStatus order sts a = None \<longleftrightarrow> mko_status order \<in> set sts"
  by (simp add: assertStatus_def)

lemma touch_fields [simp]:
  "mko_id (touch now t d order) = mko_id order" "mko_amount (touch now t d order) = mko_amount order"
  "mko_buyerId (touch now t d order) = mko_buyerId order" "mko_sellerId (touch now t d order) = mko_sellerId order"
  "mko_currency (touch now t d order) = mko_currency order" "mko_status (touch now t d order) = mko_status order"
  "mko_platformFee (touch now t d order) = mko_platformFee order"
  "mko_sellerPayout (touch now t d order) = mko_sellerPayout order"
  "mko_refundedAmount (touch now t d order) = mko_refundedAmount order"
  "mko_dispute (touch now t d order) = mko_dispute order"
  "mko_deliveredAt (touch now t d order) = mko_deliveredAt order"
  "mko_autoReleaseAt (touch now t d order) = mko_autoReleaseAt order"
  "mko_inspectionPeriodMs (touch now t d order) = mko_inspectionPeriodMs order"
  "mko_milestones (touch now t d order) = mko_milestones order"
  "mko_events (touch now t d order) = mko_events order @ [\<lparr>oev_type = t, oev_at = now, oev_details = d\<rparr>]"
  by (simp_all add: touch_def)

lemma held_touch [simp]:
  "held (touch now t d order) = held order" "divided (touch now t d order) = divided order"
  by (simp_all add: held_def divided_def)

lemma order_ok_touch [simp]: "order_ok (touch now t d order) = order_ok order"
  unfolding order_ok_def held_touch touch_fields ..

lemma same_deal_touch: "same_deal a b \<Longrightarrow> same_deal a (touch now t d b)"
  by (auto simp: same_deal_def)

lemmas status_splits = MarketplaceOrderStatus.splits if_splits option.splits

text \<open>Releasing everything that is held to the seller.\<close>

lemma release_order_step:
  assumes "same_deal a order" and "order_ok a \<Longrightarrow> order_ok order \<and> mko_refundedAmount order = 0"
    and "MkReleased \<in> set (next_statuses (mko_status a))"
  shows "order_step a (release_order now t d order)"
proof -
  have "same_deal order (order\<lparr>mko_status := MkReleased, mko_sellerPayout := p, mko_releasedAt := r\<rparr>)" for p r
    by (simp add: same_deal_def)
  then have "same_deal a (release_order now t d order)"
    using assms(1) unfolding release_order_def by (auto simp: same_deal_def intro: prefix_order.trans)
  moreover have "order_ok (release_order now t d order)" if "order_ok a"
    using assms(2) [OF that] seller_share_ok [of order] unfolding release_order_def
    by (auto simp: order_ok_def divided_def)
  ultimately show ?thesis using assms(3) by (simp add: order_step_def release_order_def)
qed

lemma release_milestone_step:
  assumes f: "release_milestone_of mid ap now a = Inr b"
    and st: "mko_status a \<in> {MkFunded, MkShipped, MkDelivered, MkPartiallyReleased}"
    and d: "mko_dispute a = None"
  shows "order_step a b"
proof -
  obtain m where m: "find (\<lambda>m. mil_id m = mid) (milestones_of a) = Some m"
    using f by (auto simp: release_milestone_of_def split: option.splits)
  define o1 where "o1 = touch now ''order.milestone_released'' (MilestoneDetails mid (mil_amount m) ap)
      (a\<lparr>mko_milestones := Some (release_first mid now (milestones_of a))\<rparr>)"
  have same: "same_deal a o1" by (simp add: o1_def same_deal_def)
  have o1: "mko_status o1 = mko_status a" "mko_dispute o1 = None" by (simp_all add: o1_def d)
  have ok: "order_ok o1 \<and> held o1" if "order_ok a"
    using that st d by (auto simp: o1_def order_ok_def held_def divided_def)
  have b: "b = (if list_all (\<lambda>m. mil_status m = MsReleased) (milestones_of o1)
      then release_order now ''order.released'' (PayoutDetails (seller_share o1)) o1
      else o1\<lparr>mko_status := MkPartiallyReleased\<rparr>)"
    using f m unfolding release_milestone_of_def Let_def o1_def by (auto split: if_splits)
  have rel: "order_step a (release_order now t d' o1)" for t d'
    by (rule release_order_step) (use same ok st in \<open>auto simp: held_def next_statuses_def\<close>)
  have part: "order_step a (o1\<lparr>mko_status := MkPartiallyReleased\<rparr>)"
    using same ok st o1(2) by (auto simp: order_step_def same_deal_def order_ok_def held_def next_statuses_def)
  show ?thesis using rel part by (simp add: b)
qed

lemma dispute_outcome_ok:
  assumes "dispute_outcome order res pc = Inr (fee, refund, payout)" and "order_ok order"
  shows "0 \<le> fee \<and> fee \<le> mko_amount order \<and> cents fee \<and> 0 \<le> refund \<and> 0 \<le> payout \<and>
    fee + payout + refund = mko_amount order \<and> (res = ToSeller \<longrightarrow> refund = 0) \<and>
    (res = ToBuyer \<longrightarrow> refund = mko_amount order)"
proof (cases res)
  case ToSplit
  define p where "p = (case pc of Some p \<Rightarrow> p | None \<Rightarrow> 50)"
  have p: "0 \<le> p" "p \<le> 100" and eq: "fee = mko_platformFee order"
    "refund = round_cents (seller_share order * p / 100)"
    "payout = round_cents (seller_share order - refund)"
    using assms(1) by (auto simp: ToSplit dispute_outcome_def Let_def p_def)
  note share = seller_share_ok [OF assms(2)]
  have le: "refund \<le> seller_share order" "0 \<le> refund" "cents refund"
    using share share_le [of "seller_share order" p] p
    by (auto simp: eq intro: round_cents_le round_cents_nonneg)
  then have "payout = seller_share order - refund"
    unfolding eq(3) by (intro round_cents_id cents_diff) (use share in blast)+
  then show ?thesis using le share assms(2) by (auto simp: ToSplit eq(1) order_ok_def)
qed (use assms seller_share_ok [OF assms(2)] in \<open>auto simp: dispute_outcome_def order_ok_def\<close>)


subsection \<open>Runs of the service\<close>

text \<open>Every operation that can change the state, with its arguments and the clock.\<close>

datatype mk_command =
    CmdCreate string "nat \<Rightarrow> string" CreateOrderInput
  | CmdFund string string
  | CmdShip string "string option"
  | CmdDeliver string
  | CmdRelease string string
  | CmdMilestone string string string
  | CmdAutoRelease string
  | CmdDispute string string string
  | CmdResolve string DisputeResolution "rat option" string
  | CmdRefund string string
  | CmdCancel string

fun mk_exec :: "mk_command \<Rightarrow> int \<Rightarrow> (marketplace, service_error, MarketplaceOrder) op" where
  "mk_exec (CmdCreate uuid uuids input) now = createOrder uuid uuids input now"
| "mk_exec (CmdFund i tx) now = fundOrder i tx now"
| "mk_exec (CmdShip i tr) now = markShipped i tr now"
| "mk_exec (CmdDeliver i) now = markDelivered i now"
| "mk_exec (CmdRelease i ap) now = release i ap now"
| "mk_exec (CmdMilestone i mid ap) now = releaseMilestone i mid ap now"
| "mk_exec (CmdAutoRelease i) now = autoRelease i now"
| "mk_exec (CmdDispute i by reason) now = raiseDispute i by reason now"
| "mk_exec (CmdResolve i res pc ap) now = resolveDispute i res pc ap now"
| "mk_exec (CmdRefund i reason) now = mk_refund i reason now"
| "mk_exec (CmdCancel i) now = cancelOrder i now"

text \<open>The identifiers drawn for new orders are not in use.\<close>

fun fresh_command :: "mk_command \<Rightarrow> marketplace \<Rightarrow> bool" where
  "fresh_command (CmdCreate uuid uuids input) s = (js_get s (''mko_'' @ uuid) = None)"
| "fresh_command _ s = True"

inductive mk_step :: "marketplace \<Rightarrow> marketplace \<Rightarrow> bool" where
  "fresh_command c s \<Longrightarrow> mk_step s (snd (mk_exec c now s))"

inductive mk_run :: "marketplace \<Rightarrow> bool" where
  mk_init: "mk_run []"
| mk_next: "mk_run s \<Longrightarrow> mk_step s s' \<Longrightarrow> mk_run s'"

definition mk_inv :: "marketplace \<Rightarrow> bool" where
  "mk_inv s \<longleftrightarrow> js_wf s \<and> js_all (\<lambda>i order. mko_id order = i \<and> order_ok order) s"

lemma mk_inv_get: "mk_inv s \<Longrightarrow> js_get s i = Some order \<Longrightarrow> mko_id order = i \<and> order_ok order"
  by (auto simp: mk_inv_def entries_sat_def)

lemma mk_inv_set:
  "mk_inv s \<Longrightarrow> order_ok order \<Longrightarrow> mk_inv (js_set (mko_id order) order s)"
  by (auto simp: mk_inv_def entries_sat_def)

text \<open>What one command does to the map of orders.\<close>

definition mk_effect :: "marketplace \<Rightarrow> marketplace \<Rightarrow> bool" where
  "mk_effect s s' \<longleftrightarrow> s' = s \<or>
     (\<exists>i a b. js_get s i = Some a \<and> order_step a b \<and> s' = js_set (mko_id b) b s) \<or>
     (\<exists>b. js_get s (mko_id b) = None \<and> order_ok b \<and> s' = js_set (mko_id b) b s)"

lemma on_order_effect:
  assumes "\<And>a b. js_get s i = Some a \<Longrightarrow> f a = Inr b \<Longrightarrow> order_step a b"
  shows "mk_effect s (snd (on_order i f s))"
proof (cases "js_get s i")
  case (Some a)
  show ?thesis
  proof (cases "f a")
    case (Inr b)
    with Some assms [OF Some Inr] show ?thesis
      by (auto simp: mk_effect_def on_order_def requireOrder_def store_order_def)
  qed (simp add: Some on_order_def requireOrder_def mk_effect_def)
qed (simp add: on_order_def requireOrder_def mk_effect_def)

lemma step_touch:
  assumes "same_deal a b" and "mko_status b \<in> set (next_statuses (mko_status a))"
    and "order_ok a \<Longrightarrow> order_ok b"
  shows "order_step a (touch now t d b)"
  using assms by (simp add: order_step_def same_deal_touch)

lemma createOrder_effect:
  assumes "js_get s (''mko_'' @ uuid) = None"
  shows "mk_effect s (snd (createOrder uuid uuids input now s))"
proof (cases "\<exists>b. createOrder uuid uuids input now s = store_order b s")
  case True
  define p where "p = (case co_platformFeePercent input of Some p \<Rightarrow> p | None \<Rightarrow> 10)"
  define am where "am = round_cents (co_amount input)"
  show ?thesis
  proof (cases "order_input_error input p")
    case None
    then have p: "0 \<le> p" "p \<le> 100" and am0: "0 \<le> am"
      by (auto simp: order_input_error_def am_def intro: round_cents_nonneg)
    have fee: "0 \<le> round_cents (am * p / 100) \<and> round_cents (am * p / 100) \<le> am"
      using share_le [OF am0 p] by (auto simp: am_def intro: round_cents_le round_cents_nonneg)
    show ?thesis
    proof (cases "order_milestones uuids am input")
      case (Inl e)
      then show ?thesis
        by (simp add: createOrder_def Let_def None p_def [symmetric] am_def [symmetric] mk_effect_def)
    next
      case (Inr ms)
      obtain b where b: "createOrder uuid uuids input now s = store_order b s"
          "mko_id b = ''mko_'' @ uuid" "mko_amount b = am" "mko_platformFee b = round_cents (am * p / 100)"
          "mko_sellerPayout b = 0" "mko_refundedAmount b = 0" "mko_status b = MkCreated" "mko_dispute b = None"
        using Inr by (simp add: createOrder_def Let_def None p_def [symmetric] am_def [symmetric])
      have "order_ok b"
        using b fee am0 by (simp add: order_ok_def held_def am_def)
      then show ?thesis
        using b(1,2) assms unfolding mk_effect_def
        by (intro disjI2 exI [of _ b]) (simp add: store_order_def)
    qed
  qed (simp add: createOrder_def Let_def p_def [symmetric] am_def [symmetric] mk_effect_def)
next
  case False
  then show ?thesis
    by (auto simp: createOrder_def Let_def mk_effect_def split: option.splits sum.splits)
qed

lemma resolve_step:
  assumes out: "dispute_outcome a res pc = Inr (fee, refund, payout)" and st: "mko_status a = MkDisputed"
  shows "order_step a (touch now t d
    (a\<lparr>mko_platformFee := fee, mko_refundedAmount := refund, mko_sellerPayout := payout,
       mko_dispute := map_option g (mko_dispute a), mko_status := resolution_status res,
       mko_refundedAt := r, mko_releasedAt := l\<rparr>))"
proof (rule step_touch)
  assume a: "order_ok a"
  have "mko_dispute a \<noteq> None" using a st by (simp add: order_ok_def)
  with dispute_outcome_ok [OF out a] a
  show "order_ok (a\<lparr>mko_platformFee := fee, mko_refundedAmount := refund, mko_sellerPayout := payout,
       mko_dispute := map_option g (mko_dispute a), mko_status := resolution_status res,
       mko_refundedAt := r, mko_releasedAt := l\<rparr>)"
    by (cases res) (auto simp: order_ok_def divided_def resolution_status_def)
qed (cases res; simp add: st same_deal_def next_statuses_def resolution_status_def)+

lemma mk_exec_effect:
  assumes "fresh_command c s"
  shows "mk_effect s (snd (mk_exec c now s))"
proof (cases c)
  case (CmdCreate uuid uuids input)
  then show ?thesis using assms createOrder_effect by simp
next
  case (CmdFund i tx)
  show ?thesis
    by (auto simp: CmdFund fundOrder_def same_deal_def next_statuses_def order_ok_def held_def
        mk_effect_def [of s s] split: option.splits intro!: on_order_effect step_touch)
next
  case (CmdShip i tr)
  show ?thesis
    by (auto simp: CmdShip markShipped_def same_deal_def next_statuses_def order_ok_def held_def
        intro!: on_order_effect step_touch)
next
  case (CmdDeliver i)
  show ?thesis
    by (auto simp: CmdDeliver markDelivered_def same_deal_def next_statuses_def order_ok_def held_def
        intro!: on_order_effect step_touch)
next
  case (CmdRelease i ap)
  show ?thesis
    by (auto simp: CmdRelease release_def same_deal_def next_statuses_def order_ok_def held_def
        intro!: on_order_effect release_order_step)
next
  case (CmdMilestone i mid ap)
  show ?thesis
    by (auto simp: CmdMilestone releaseMilestone_def
        split: option.splits intro!: on_order_effect elim!: release_milestone_step)
next
  case (CmdAutoRelease i)
  show ?thesis
    by (auto simp: CmdAutoRelease autoRelease_def same_deal_def next_statuses_def order_ok_def held_def
        split: option.splits intro!: on_order_effect release_order_step)
next
  case (CmdDispute i who reason)
  show ?thesis
    by (auto simp: CmdDispute raiseDispute_def same_deal_def next_statuses_def order_ok_def
        held_def divided_def
        mk_effect_def [of s s] split: option.splits if_splits intro!: on_order_effect step_touch)
next
  case (CmdResolve i res pc ap)
  show ?thesis
    unfolding CmdResolve mk_exec.simps resolveDispute_def
    by (rule on_order_effect) (auto intro: resolve_step split: option.splits sum.splits)
next
  case (CmdRefund i reason)
  show ?thesis
    by (auto simp: CmdRefund mk_refund_def same_deal_def next_statuses_def order_ok_def divided_def
        mk_effect_def [of s s] split: option.splits intro!: on_order_effect step_touch)
next
  case (CmdCancel i)
  show ?thesis
    by (auto simp: CmdCancel cancelOrder_def same_deal_def next_statuses_def order_ok_def held_def
        intro!: on_order_effect step_touch)
qed

lemma mk_step_effect: "mk_step s s' \<Longrightarrow> mk_effect s s'"
  by (auto elim!: mk_step.cases intro: mk_exec_effect)

lemma mk_effect_inv: "mk_inv s \<Longrightarrow> mk_effect s s' \<Longrightarrow> mk_inv s'"
  by (auto simp: mk_effect_def order_step_def dest: mk_inv_get intro: mk_inv_set)

lemma mk_run_inv: "mk_run s \<Longrightarrow> mk_inv s"
proof (induction rule: mk_run.induct)
  case mk_init
  then show ?case by (simp add: mk_inv_def js.entries_empty)
next
  case (mk_next s s')
  then show ?case using mk_effect_inv mk_step_effect by blast
qed

text \<open>One step, seen from one order.\<close>

lemma mk_step_order:
  assumes "mk_inv s" and "mk_step s s'" and "js_get s i = Some a"
  shows "\<exists>b. js_get s' i = Some b \<and> (b = a \<or> order_step a b)"
proof -
  from mk_step_effect [OF assms(2)] consider "s' = s"
    | j c b where "js_get s j = Some c" "order_step c b" "s' = js_set (mko_id b) b s"
    | b where "js_get s (mko_id b) = None" "s' = js_set (mko_id b) b s"
    by (auto simp: mk_effect_def)
  then show ?thesis
  proof cases
    case (2 j c b)
    then have "mko_id b = j"
      using mk_inv_get [OF assms(1) 2(1)] by (simp add: order_step_def same_deal_def)
    with 2 assms(3) show ?thesis by auto
  qed (use assms(3) in auto)
qed

definition mk_terminal :: "MarketplaceOrder \<Rightarrow> bool" where
  "mk_terminal order \<longleftrightarrow> mko_status order \<in> {MkReleased, MkRefunded, MkCancelled}"

lemma terminal_no_step: "mk_terminal a \<Longrightarrow> \<not> order_step a b"
  by (auto simp: mk_terminal_def order_step_def next_statuses_def)

subsection \<open>A run to evaluate\<close>

definition demo_input :: CreateOrderInput where
  "demo_input = \<lparr>co_marketplaceId = ''shop'', co_externalOrderId = ''x1'', co_buyerId = ''bob'',
     co_sellerId = ''sue'', co_amount = 100, co_currency = Some ''eur'', co_platformFeePercent = Some 10,
     co_inspectionPeriodMs = Some 500, co_milestones = None\<rparr>"

definition mk_play :: "(mk_command \<times> int) list \<Rightarrow> marketplace" where
  "mk_play cs = fold (\<lambda>(c, now) s. if fresh_command c s then snd (mk_exec c now s) else s) cs []"

lemma mk_play_run: "mk_run (mk_play cs)"
proof -
  have "mk_run s \<Longrightarrow> mk_run (fold (\<lambda>(c, now) s. if fresh_command c s then snd (mk_exec c now s) else s) cs s)" for s
  proof (induction cs arbitrary: s)
    case (Cons e cs)
    then show ?case
      using mk_next [OF Cons.prems mk_step.intros] by (cases e) simp
  qed simp
  then show ?thesis by (simp add: mk_play_def mk_init)
qed

definition mk_delivered_demo :: marketplace where
  "mk_delivered_demo = mk_play [(CmdCreate ''1'' (\<lambda>_. []) demo_input, 10), (CmdFund ''mko_1'' ''0xaa'', 20),
     (CmdShip ''mko_1'' None, 30), (CmdDeliver ''mko_1'', 1000)]"

definition mk_split_demo :: marketplace where
  "mk_split_demo = mk_play [(CmdCreate ''1'' (\<lambda>_. []) demo_input, 10), (CmdFund ''mko_1'' ''0xaa'', 20),
     (CmdDispute ''mko_1'' ''bob'' ''late'', 30), (CmdResolve ''mko_1'' ToSplit None ''ann'', 40)]"

lemmas mk_eval = mk_play_def demo_input_def createOrder_def order_input_error_def validate_def
  order_milestones_def store_order_def Let_def fundOrder_def markShipped_def markDelivered_def
  raiseDispute_def resolveDispute_def on_order_def requireOrder_def checked_def assertStatus_def
  touch_def dispute_outcome_def seller_share_def resolved_dispute_def resolution_status_def

lemma mk_delivered_demo: "\<exists>order. js_get mk_delivered_demo ''mko_1'' = Some order \<and>
    mko_status order = MkDelivered \<and> mko_deliveredAt order = Some 1000 \<and> mko_inspectionPeriodMs order = 500"
  by (simp add: mk_delivered_demo_def mk_eval)

lemma mk_split_demo: "\<exists>order. js_get mk_split_demo ''mko_1'' = Some order \<and>
    mko_status order = MkPartiallyReleased \<and> mko_sellerPayout order = 45 \<and>
    mko_refundedAmount order = 45 \<and> mko_amount order = 100 \<and> mko_buyerId order = ''bob'' \<and>
    mko_dispute order \<noteq> None"
  by (simp add: mk_split_demo_def mk_eval)

subsection \<open>The properties\<close>

text \<open>
  C2: The money of an order is conserved. In every state the service can reach, the fee, the payout
  of the seller and the refund of an order are not negative and together at most its amount; a
  released order pays the seller all but the fee, a refunded one returns the whole amount and takes
  no fee, an order before its settlement has paid nobody.
\<close>
theorem marketplace_money_conserved:
  assumes "mk_run s" and "js_get s i = Some order"
  shows "0 \<le> mko_platformFee order \<and> 0 \<le> mko_sellerPayout order \<and> 0 \<le> mko_refundedAmount order \<and>
    mko_platformFee order + mko_sellerPayout order + mko_refundedAmount order \<le> mko_amount order \<and>
    (case mko_status order of
       MkReleased \<Rightarrow> mko_sellerPayout order = mko_amount order - mko_platformFee order \<and>
         mko_refundedAmount order = 0
     | MkRefunded \<Rightarrow> mko_refundedAmount order = mko_amount order \<and> mko_sellerPayout order = 0 \<and>
         mko_platformFee order = 0
     | MkPartiallyReleased \<Rightarrow>
         if mko_dispute order = None then mko_sellerPayout order = 0 \<and> mko_refundedAmount order = 0
         else mko_platformFee order + mko_sellerPayout order + mko_refundedAmount order = mko_amount order
     | MkDisputed \<Rightarrow> mko_dispute order \<noteq> None
     | _ \<Rightarrow> mko_sellerPayout order = 0 \<and> mko_refundedAmount order = 0)"
  using mk_inv_get [OF mk_run_inv [OF assms(1)] assms(2)]
  by (auto simp: order_ok_def held_def divided_def split: MarketplaceOrderStatus.splits if_splits)

theorem marketplace_money_conserved_witness:
  "case js_get mk_split_demo ''mko_1'' of None \<Rightarrow> False | Some order \<Rightarrow>
     mko_status order = MkPartiallyReleased \<and>
     mko_platformFee order + mko_sellerPayout order + mko_refundedAmount order \<le> mko_amount order"
proof -
  obtain order where "js_get mk_split_demo ''mko_1'' = Some order" "mko_status order = MkPartiallyReleased"
    using mk_split_demo by blast
  moreover have "mk_run mk_split_demo" unfolding mk_split_demo_def by (rule mk_play_run)
  ultimately show ?thesis using marketplace_money_conserved by auto
qed

text \<open>
  The life cycle of an order. Whatever operation runs next, an order is left alone or moves to
  a status that may follow its own, with the same parties, amount and currency and its events
  extended; a released, refunded or cancelled order never changes again.
\<close>
lemma marketplace_lifecycle:
  assumes "mk_run s" and "mk_step s s'" and "js_get s i = Some a"
  shows "\<exists>b. js_get s' i = Some b \<and>
    (b = a \<or>
     mko_status a \<notin> {MkReleased, MkRefunded, MkCancelled} \<and>
     mko_status b \<in> set (next_statuses (mko_status a)) \<and>
     mko_buyerId b = mko_buyerId a \<and> mko_sellerId b = mko_sellerId a \<and>
     mko_amount b = mko_amount a \<and> mko_currency b = mko_currency a \<and>
     prefix (mko_events a) (mko_events b))"
  using mk_step_order [OF mk_run_inv [OF assms(1)] assms(2,3)] terminal_no_step [of a]
  unfolding mk_terminal_def order_step_def same_deal_def by metis

lemma marketplace_lifecycle_witness:
  "\<exists>a b. js_get mk_delivered_demo ''mko_1'' = Some a \<and>
     js_get (snd (autoRelease ''mko_1'' 1500 mk_delivered_demo)) ''mko_1'' = Some b \<and>
     prefix (mko_events a) (mko_events b)"
proof -
  obtain a where a: "js_get mk_delivered_demo ''mko_1'' = Some a" using mk_delivered_demo by blast
  have "mk_step mk_delivered_demo (snd (mk_exec (CmdAutoRelease ''mko_1'') 1500 mk_delivered_demo))"
    by (rule mk_step.intros) simp
  moreover have "mk_run mk_delivered_demo" unfolding mk_delivered_demo_def by (rule mk_play_run)
  ultimately show ?thesis
    using marketplace_lifecycle [OF _ _ a, of "snd (autoRelease ''mko_1'' 1500 mk_delivered_demo)"] a by auto
qed

text \<open>
  The automatic release waits for the inspection window. In a reachable state it succeeds
  exactly for a delivered order once the inspection period has passed since the delivery, and then
  the seller gets the amount less the fee; otherwise it reports the status or the open window and
  changes nothing.
\<close>
lemma autoRelease_waits_for_inspection:
  assumes "mk_run s" and "js_get s i = Some order"
  shows "autoRelease i now s =
    (if mko_status order \<noteq> MkDelivered
     then (Inl (conflict (''Cannot auto-release an order in status '' @ status_name (mko_status order))), s)
     else if now < the (mko_deliveredAt order) + mko_inspectionPeriodMs order
     then (Inl (validation_error ''Inspection window has not elapsed yet''), s)
     else let paid = mko_amount order - mko_platformFee order;
              order' = touch now ''order.auto_released'' (PayoutDetails paid)
                (order\<lparr>mko_status := MkReleased, mko_sellerPayout := paid, mko_releasedAt := Some now\<rparr>)
          in (Inr order', js_set i order' s))"
proof -
  note ok = mk_inv_get [OF mk_run_inv [OF assms(1)] assms(2)]
  have share: "seller_share order = mko_amount order - mko_platformFee order"
    using seller_share_ok ok by blast
  have at: "mko_autoReleaseAt order = Some (the (mko_deliveredAt order) + mko_inspectionPeriodMs order)"
    if "mko_status order = MkDelivered"
    using ok that by (simp add: order_ok_def)
  show ?thesis
    using ok assms(2) at
    by (auto simp: autoRelease_def on_order_def requireOrder_def assertStatus_def checked_def
        validate_def store_order_def release_order_def share Let_def)
qed

lemma autoRelease_waits_for_inspection_witness:
  "fst (autoRelease ''mko_1'' 1499 mk_delivered_demo) =
     Inl (validation_error ''Inspection window has not elapsed yet'') \<and>
   \<not> isl (fst (autoRelease ''mko_1'' 1500 mk_delivered_demo))"
proof -
  obtain order where order: "js_get mk_delivered_demo ''mko_1'' = Some order"
    "mko_status order = MkDelivered" "mko_deliveredAt order = Some 1000" "mko_inspectionPeriodMs order = 500"
    using mk_delivered_demo by blast
  have run: "mk_run mk_delivered_demo" unfolding mk_delivered_demo_def by (rule mk_play_run)
  show ?thesis
    unfolding autoRelease_waits_for_inspection [OF run order(1)]
    by (simp add: order(2-4) Let_def)
qed

text \<open>
  A partially released order can be refunded in full. Whatever has been released by milestones
  or paid out under a split resolution, buyer or seller may raise a (further) dispute, and its
  resolution for the buyer refunds the whole amount, although the milestones stay released and the
  events of the earlier payments stay in the history of the order.
\<close>
theorem partially_released_refunded_in_full:
  assumes "mk_run s" and "js_get s i = Some a" and "mko_status a = MkPartiallyReleased"
    and "who \<in> {mko_buyerId a, mko_sellerId a}" and "who \<noteq> []" and "reason \<noteq> []" and "ap \<noteq> []"
  shows "case js_get (snd (resolveDispute i ToBuyer pc ap t2 (snd (raiseDispute i who reason t1 s)))) i of
      None \<Rightarrow> False
    | Some b \<Rightarrow> mko_status b = MkRefunded \<and> mko_refundedAmount b = mko_amount a \<and>
        mko_milestones b = mko_milestones a \<and> prefix (mko_events a) (mko_events b)"
proof -
  have "mko_id a = i" using mk_inv_get [OF mk_run_inv [OF assms(1)] assms(2)] by simp
  then show ?thesis
    using assms(2-7)
    by (auto simp: resolveDispute_def raiseDispute_def on_order_def requireOrder_def checked_def
        assertStatus_def validate_def store_order_def dispute_outcome_def resolution_status_def)
qed

theorem partially_released_refunded_in_full_witness:
  "case js_get mk_split_demo ''mko_1'' of None \<Rightarrow> False | Some a \<Rightarrow>
     mko_sellerPayout a = 45 \<and> mko_refundedAmount a = 45 \<and>
     (case js_get (snd (resolveDispute ''mko_1'' ToBuyer None ''ann'' 60
          (snd (raiseDispute ''mko_1'' ''bob'' ''again'' 50 mk_split_demo)))) ''mko_1'' of
        None \<Rightarrow> False | Some b \<Rightarrow> mko_refundedAmount b = 100 \<and> prefix (mko_events a) (mko_events b))"
proof -
  obtain a where a: "js_get mk_split_demo ''mko_1'' = Some a" "mko_status a = MkPartiallyReleased"
    "mko_sellerPayout a = 45" "mko_refundedAmount a = 45" "mko_amount a = 100" "mko_buyerId a = ''bob''"
    using mk_split_demo by blast
  have "mk_run mk_split_demo" unfolding mk_split_demo_def by (rule mk_play_run)
  from partially_released_refunded_in_full [OF this a(1,2), of "''bob''" "''again''" "''ann''" None 60 50]
  show ?thesis using a by (auto split: option.splits)
qed

subsection \<open>Further facts on what is reported and released\<close>

text \<open>A resolved split blocks the remaining milestones for good: the resolved dispute counts as open.\<close>

lemma milestones_blocked_after_split:
  assumes "js_get s i = Some order" and "mko_dispute order \<noteq> None"
  shows "\<exists>e. releaseMilestone i mid ap now s = (Inl e, s)"
proof -
  have "first_error
       [assertStatus order [MkFunded, MkShipped, MkDelivered, MkPartiallyReleased]
          ''release milestones for'',
        validate (milestones_of order \<noteq> []) ''Order has no milestones'',
        validate (mko_dispute order = None) ''Cannot release milestones while a dispute is open''] \<noteq> None"
    using assms(2) by simp
  then show ?thesis
    using assms(1) unfolding releaseMilestone_def on_order_def requireOrder_def by fastforce
qed

text \<open>The settlement summary of a marketplace covers its 100 newest orders only.\<close>

lemma settlement_summary_truncated:
  "ss_orderCount (getSettlementSummary m s) = min 100 (snd (listOrders (marketplace_filter m) s))"
proof -
  have slice: "length (js_slice 0 100 xs) = min 100 (length xs)" for xs :: "'v list"
    by (simp add: js_slice_def)
  show ?thesis
    unfolding getSettlementSummary_def listOrders_def Let_def by (simp add: marketplace_filter_def slice)
qed

text \<open>A second milestone with the same id is never released: \<open>find\<close> returns the first one.\<close>

lemma duplicate_milestone_blocked:
  assumes "find (\<lambda>m. mil_id m = mid) (milestones_of order) = Some m" and "mil_status m = MsReleased"
  shows "release_milestone_of mid ap now order = Inl (conflict ''Milestone has already been released'')"
  using assms by (simp add: release_milestone_of_def)

end
