(* ===== verification/CircuitBreaker.thy ===== *)
theory CircuitBreaker
  imports Js
begin

text \<open>
  \<open>backend/src/services/circuitBreaker.ts\<close>: the state machine that guards calls of an external
  service. The clock (\<open>now\<close>) is an argument of each operation. \<open>'e\<close> is the type of the values that a
  call throws. A guarded call suspends between its admission and its outcome, so \<open>protect\<close> is the two
  steps \<open>protect_start\<close> and \<open>protect_finish\<close>, between which other calls may run. Listeners are opaque
  values; that they were called is recorded in \<open>cb_notified\<close>.
\<close>

subsection \<open>Types\<close>

datatype CircuitBreakerState = CbClosed | CbOpen | CbHalfOpen

record 'e CircuitBreakerConfig =
  slidingWindowSize :: int
  minimumCallsToOpen :: int
  failureRateThreshold :: rat
  failureThreshold :: int
  successThreshold :: int
  waitDurationInOpenState :: int
  permittedNumberOfCallsInHalfOpenState :: int
  requestTimeoutMs :: int
  failClosed :: bool
  cfg_recordFailure :: "('e \<Rightarrow> bool) option"
  cfg_ignoreFailures :: "('e \<Rightarrow> bool) option"

record CircuitBreakerMetrics =
  met_calls :: nat
  met_successfulCalls :: nat
  met_failedCalls :: nat
  met_timeoutCalls :: nat
  met_rejectedCalls :: nat
  met_halfOpenAttempts :: nat
  met_openedAt :: "int option"
  met_state :: CircuitBreakerState
  met_failureRate :: int
  met_lastFailureAt :: "int option"
  met_lastSuccessAt :: "int option"

record ('e, 'l) breaker =
  cb_name :: string
  cb_config :: "'e CircuitBreakerConfig"
  cb_state :: CircuitBreakerState
  cb_consecutiveFailures :: int
  cb_consecutiveSuccesses :: int
  cb_permittedCallsInHalfOpen :: int
  cb_reopenedAt :: "int option"
  cb_wokenAt :: "int option"
  cb_openedAt :: "int option"
  cb_outcomes :: "bool list"
  cb_metrics :: CircuitBreakerMetrics
  cb_listeners :: "'l list"
  cb_notified :: "('l \<times> CircuitBreakerState \<times> CircuitBreakerState) list"

definition DEFAULT_CONFIG :: "'e CircuitBreakerConfig" where
  "DEFAULT_CONFIG =
     \<lparr>slidingWindowSize = 20, minimumCallsToOpen = 5, failureRateThreshold = 50, failureThreshold = 5,
      successThreshold = 2, waitDurationInOpenState = 60000, permittedNumberOfCallsInHalfOpenState = 3,
      requestTimeoutMs = 10000, failClosed = False, cfg_recordFailure = None, cfg_ignoreFailures = None\<rparr>"

definition initial_metrics :: CircuitBreakerMetrics where
  "initial_metrics =
     \<lparr>met_calls = 0, met_successfulCalls = 0, met_failedCalls = 0, met_timeoutCalls = 0,
      met_rejectedCalls = 0, met_halfOpenAttempts = 0, met_openedAt = None, met_state = CbClosed,
      met_failureRate = 0, met_lastFailureAt = None, met_lastSuccessAt = None\<rparr>"

text \<open>\<open>config\<close> is the configuration after the merge with the defaults.\<close>

definition new_breaker :: "string \<Rightarrow> 'e CircuitBreakerConfig \<Rightarrow> string + ('e, 'l) breaker" where
  "new_breaker name config =
     (if js_trim name = [] then Inl ''CircuitBreaker requires a non-empty name''
      else if slidingWindowSize config < 1 then Inl ''slidingWindowSize must be >= 1''
      else if failureRateThreshold config < 0 \<or> failureRateThreshold config > 100
      then Inl ''failureRateThreshold must be between 0 and 100''
      else Inr \<lparr>cb_name = name, cb_config = config, cb_state = CbClosed, cb_consecutiveFailures = 0,
        cb_consecutiveSuccesses = 0, cb_permittedCallsInHalfOpen = 0, cb_reopenedAt = None,
        cb_wokenAt = None, cb_openedAt = None, cb_outcomes = [], cb_metrics = initial_metrics,
        cb_listeners = [], cb_notified = []\<rparr>)"

subsection \<open>Transitions\<close>

abbreviation upd_metrics ::
  "(CircuitBreakerMetrics \<Rightarrow> CircuitBreakerMetrics) \<Rightarrow> ('e, 'l) breaker \<Rightarrow> ('e, 'l) breaker" where
  "upd_metrics f \<equiv> cb_metrics_update f"

definition setState :: "CircuitBreakerState \<Rightarrow> ('e, 'l) breaker \<Rightarrow> ('e, 'l) breaker" where
  "setState next b =
     (if cb_state b = next then b
      else b\<lparr>cb_state := next, cb_metrics := (cb_metrics b)\<lparr>met_state := next\<rparr>,
             cb_notified := cb_notified b @ map (\<lambda>l. (l, cb_state b, next)) (cb_listeners b)\<rparr>)"

definition transitionToHalfOpen :: "int \<Rightarrow> ('e, 'l) breaker \<Rightarrow> ('e, 'l) breaker" where
  "transitionToHalfOpen now b =
     (setState CbHalfOpen b)\<lparr>cb_wokenAt := Some now, cb_permittedCallsInHalfOpen := 0,
        cb_consecutiveSuccesses := 0\<rparr>"

definition transitionToOpen :: "int \<Rightarrow> ('e, 'l) breaker \<Rightarrow> ('e, 'l) breaker" where
  "transitionToOpen now b =
     upd_metrics (\<lambda>m. m\<lparr>met_openedAt := Some now\<rparr>)
       ((setState CbOpen b)\<lparr>cb_openedAt := Some now, cb_reopenedAt := Some now,
          cb_consecutiveFailures := 0, cb_consecutiveSuccesses := 0, cb_permittedCallsInHalfOpen := 0\<rparr>)"

definition transitionToClosed :: "('e, 'l) breaker \<Rightarrow> ('e, 'l) breaker" where
  "transitionToClosed b =
     (setState CbClosed b)\<lparr>cb_consecutiveFailures := 0, cb_consecutiveSuccesses := 0,
        cb_permittedCallsInHalfOpen := 0, cb_openedAt := None, cb_wokenAt := None, cb_outcomes := []\<rparr>"

definition onStateChange :: "'l \<Rightarrow> ('e, 'l) breaker \<Rightarrow> ('e, 'l) breaker" where
  "onStateChange listener b = b\<lparr>cb_listeners := cb_listeners b @ [listener]\<rparr>"

text \<open>The function that \<open>onStateChange\<close> returns removes the first occurrence of the listener.\<close>

definition removeListener :: "'l \<Rightarrow> ('e, 'l) breaker \<Rightarrow> ('e, 'l) breaker" where
  "removeListener listener b = b\<lparr>cb_listeners := remove1 listener (cb_listeners b)\<rparr>"

subsection \<open>Admission\<close>

definition permitHalfOpenCall :: "('e, 'l) breaker \<Rightarrow> bool \<times> ('e, 'l) breaker" where
  "permitHalfOpenCall b =
     (if cb_permittedCallsInHalfOpen b < permittedNumberOfCallsInHalfOpenState (cb_config b)
      then (True, upd_metrics (\<lambda>m. m\<lparr>met_halfOpenAttempts := met_halfOpenAttempts m + 1\<rparr>)
              (b\<lparr>cb_permittedCallsInHalfOpen := cb_permittedCallsInHalfOpen b + 1\<rparr>))
      else (False, upd_metrics (\<lambda>m. m\<lparr>met_rejectedCalls := met_rejectedCalls m + 1\<rparr>) b))"

definition isCallPermitted :: "int \<Rightarrow> ('e, 'l) breaker \<Rightarrow> bool \<times> ('e, 'l) breaker" where
  "isCallPermitted now b =
     (case cb_state b of
        CbClosed \<Rightarrow> (True, b)
      | CbOpen \<Rightarrow>
          (let opened = (case cb_openedAt b of Some t \<Rightarrow> t | None \<Rightarrow> now)
           in if now - opened \<ge> waitDurationInOpenState (cb_config b)
              then permitHalfOpenCall (transitionToHalfOpen now b)
              else (False, upd_metrics (\<lambda>m. m\<lparr>met_rejectedCalls := met_rejectedCalls m + 1\<rparr>) b))
      | CbHalfOpen \<Rightarrow> permitHalfOpenCall b)"

subsection \<open>Recording outcomes\<close>

definition failed_outcomes :: "bool list \<Rightarrow> nat" where
  "failed_outcomes outcomes = length (filter (\<lambda>out. \<not> out) outcomes)"

definition recomputeFailureRate :: "('e, 'l) breaker \<Rightarrow> ('e, 'l) breaker" where
  "recomputeFailureRate b =
     (if cb_outcomes b = [] then upd_metrics (\<lambda>m. m\<lparr>met_failureRate := 0\<rparr>) b
      else upd_metrics (\<lambda>m. m\<lparr>met_failureRate :=
        \<lfloor>(of_nat (failed_outcomes (cb_outcomes b)) / of_nat (length (cb_outcomes b))) * 100
          + (1 / 2 :: rat)\<rfloor>\<rparr>) b)"

definition push_outcome :: "int \<Rightarrow> bool \<Rightarrow> bool list \<Rightarrow> bool list" where
  "push_outcome sz success outcomes =
     (let pushed = outcomes @ [success] in if int (length pushed) > sz then tl pushed else pushed)"

definition recordOutcome :: "bool \<Rightarrow> ('e, 'l) breaker \<Rightarrow> ('e, 'l) breaker" where
  "recordOutcome success b = recomputeFailureRate
     (b\<lparr>cb_outcomes := push_outcome (slidingWindowSize (cb_config b)) success (cb_outcomes b)\<rparr>)"

definition shouldTripByFailureRate :: "('e, 'l) breaker \<Rightarrow> bool" where
  "shouldTripByFailureRate b =
     (let window = cb_outcomes b
      in \<not> int (length window) < minimumCallsToOpen (cb_config b) \<and> window \<noteq> [] \<and>
         (of_nat (failed_outcomes window) / of_nat (length window)) * 100
           \<ge> failureRateThreshold (cb_config b))"

definition recordSuccess :: "int \<Rightarrow> ('e, 'l) breaker \<Rightarrow> ('e, 'l) breaker" where
  "recordSuccess now b =
     (let b1 = recordOutcome True (upd_metrics (\<lambda>m. m\<lparr>met_calls := met_calls m + 1,
            met_successfulCalls := met_successfulCalls m + 1, met_lastSuccessAt := Some now\<rparr>) b)
      in case cb_state b1 of
           CbHalfOpen \<Rightarrow>
             (let b2 = b1\<lparr>cb_consecutiveSuccesses := cb_consecutiveSuccesses b1 + 1\<rparr>
              in if cb_consecutiveSuccesses b2 \<ge> successThreshold (cb_config b2)
                 then transitionToClosed b2 else b2)
         | CbClosed \<Rightarrow> b1\<lparr>cb_consecutiveFailures := 0, cb_consecutiveSuccesses := 0\<rparr>
         | CbOpen \<Rightarrow> b1)"

definition count_failure :: "int \<Rightarrow> ('e, 'l) breaker \<Rightarrow> ('e, 'l) breaker" where
  "count_failure now = upd_metrics (\<lambda>m. m\<lparr>met_calls := met_calls m + 1,
     met_failedCalls := met_failedCalls m + 1, met_lastFailureAt := Some now\<rparr>)"

definition ignored :: "'e CircuitBreakerConfig \<Rightarrow> 'e \<Rightarrow> bool" where
  "ignored config err = (case cfg_ignoreFailures config of Some f \<Rightarrow> f err | None \<Rightarrow> False)"

definition not_recorded :: "'e CircuitBreakerConfig \<Rightarrow> 'e \<Rightarrow> bool" where
  "not_recorded config err = (case cfg_recordFailure config of Some f \<Rightarrow> \<not> f err | None \<Rightarrow> False)"

definition recordFailure :: "'e \<Rightarrow> bool \<Rightarrow> int \<Rightarrow> ('e, 'l) breaker \<Rightarrow> ('e, 'l) breaker" where
  "recordFailure err isTimeout now b =
     (if ignored (cb_config b) err then b
      else if not_recorded (cb_config b) err then count_failure now b
      else
        let b1 = recordOutcome False (upd_metrics (\<lambda>m. m\<lparr>met_timeoutCalls :=
               met_timeoutCalls m + (if isTimeout then 1 else 0)\<rparr>) (count_failure now b));
            b2 = b1\<lparr>cb_consecutiveFailures := cb_consecutiveFailures b1 + 1, cb_consecutiveSuccesses := 0\<rparr>
        in case cb_state b2 of
             CbHalfOpen \<Rightarrow> transitionToOpen now b2
           | CbClosed \<Rightarrow>
               if cb_consecutiveFailures b2 \<ge> failureThreshold (cb_config b2) then transitionToOpen now b2
               else if shouldTripByFailureRate b2 then transitionToOpen now b2 else b2
           | CbOpen \<Rightarrow> b2)"

subsection \<open>Guarded calls\<close>

text \<open>
  How the call of \<open>fn\<close> ends: it returns, throws an ordinary error, or throws a \<open>CircuitBreakerError\<close>
  of its own (a nested breaker). With a positive timeout the call races against a timer.
\<close>

datatype ('e, 'a) call_end = Returned 'a | Threw 'e | ThrewBreakerError 'e

datatype ('e, 'a) race_end = Settled "('e, 'a) call_end" | TimedOut

definition breaker_timeout :: "int option \<Rightarrow> ('e, 'l) breaker \<Rightarrow> int" where
  "breaker_timeout override b =
     (case override of Some t \<Rightarrow> t | None \<Rightarrow> requestTimeoutMs (cb_config b))"

text \<open>
  The admission: \<open>None\<close> when the call may run, otherwise the result of the whole call. \<open>fallback\<close> is
  what the fallback returns or throws, if there is one.
\<close>

definition protect_start ::
  "('e + 'a) option \<Rightarrow> 'e \<Rightarrow> int \<Rightarrow> ('e, 'l) breaker \<Rightarrow> ('e + 'a) option \<times> ('e, 'l) breaker" where
  "protect_start fallback open_error now b =
     (case isCallPermitted now b of
        (True, b') \<Rightarrow> (None, b')
      | (False, b') \<Rightarrow> (Some (case fallback of Some r \<Rightarrow> r | None \<Rightarrow> Inl open_error), b'))"

definition runCall_finish ::
  "('e, 'a) call_end \<Rightarrow> ('e + 'a) option \<Rightarrow> int \<Rightarrow> ('e, 'l) breaker \<Rightarrow> ('e + 'a) \<times> ('e, 'l) breaker" where
  "runCall_finish out fallback now b =
     (case out of
        Returned x \<Rightarrow> (Inr x, recordSuccess now b)
      | ThrewBreakerError err \<Rightarrow> (Inl err, b)
      | Threw err \<Rightarrow> (case fallback of Some r \<Rightarrow> r | None \<Rightarrow> Inl err, recordFailure err False now b))"

text \<open>The error of the timer is \<open>timeout_error\<close>.\<close>

definition protect_finish ::
  "('e, 'a) race_end \<Rightarrow> ('e + 'a) option \<Rightarrow> 'e \<Rightarrow> int \<Rightarrow> ('e, 'l) breaker \<Rightarrow>
   ('e + 'a) \<times> ('e, 'l) breaker" where
  "protect_finish out fallback timeout_error now b =
     (case out of
        Settled (Returned x) \<Rightarrow> (Inr x, recordSuccess now b)
      | TimedOut \<Rightarrow> (case fallback of Some r \<Rightarrow> r | None \<Rightarrow> Inl timeout_error,
                    recordFailure timeout_error True now b)
      | Settled (ThrewBreakerError err) \<Rightarrow> (Inl err, b)
      | Settled (Threw err) \<Rightarrow>
          (case fallback of Some r \<Rightarrow> r | None \<Rightarrow> Inl err, recordFailure err False now b))"

subsection \<open>Management\<close>

definition cb_reset :: "('e, 'l) breaker \<Rightarrow> ('e, 'l) breaker" where
  "cb_reset b = upd_metrics (\<lambda>m. m\<lparr>met_calls := 0, met_successfulCalls := 0, met_failedCalls := 0,
      met_timeoutCalls := 0, met_rejectedCalls := 0, met_halfOpenAttempts := 0, met_openedAt := None,
      met_lastFailureAt := None, met_lastSuccessAt := None, met_failureRate := 0\<rparr>)
    (transitionToClosed (b\<lparr>cb_outcomes := []\<rparr>))"

definition resetMetrics :: "('e, 'l) breaker \<Rightarrow> ('e, 'l) breaker" where
  "resetMetrics b =
     (recomputeFailureRate (b\<lparr>cb_outcomes := []\<rparr>))\<lparr>cb_consecutiveFailures := 0,
        cb_consecutiveSuccesses := 0\<rparr>"

record 'e CircuitBreakerSnapshot =
  snap_name :: string
  snap_state :: CircuitBreakerState
  snap_failures :: int
  snap_consecutiveFailures :: int
  snap_consecutiveSuccesses :: int
  snap_permittedCallsInHalfOpen :: int
  snap_config :: "'e CircuitBreakerConfig"
  snap_metrics :: CircuitBreakerMetrics
  snap_wokenAt :: "int option"
  snap_openedAt :: "int option"

definition cb_snapshot :: "('e, 'l) breaker \<Rightarrow> 'e CircuitBreakerSnapshot" where
  "cb_snapshot b =
     \<lparr>snap_name = cb_name b, snap_state = cb_state b, snap_failures = cb_consecutiveFailures b,
      snap_consecutiveFailures = cb_consecutiveFailures b,
      snap_consecutiveSuccesses = cb_consecutiveSuccesses b,
      snap_permittedCallsInHalfOpen =
        permittedNumberOfCallsInHalfOpenState (cb_config b) - cb_permittedCallsInHalfOpen b,
      snap_config = cb_config b, snap_metrics = cb_metrics b,
      snap_wokenAt = cb_wokenAt b, snap_openedAt = cb_openedAt b\<rparr>"

end
