(* ===== verification/CircuitBreakerProps.thy ===== *)
theory CircuitBreakerProps
  imports CircuitBreaker
begin

text \<open>
  Properties of the circuit breaker: the invariant of its state, that enough failures in a row open
  it and that it then rejects every call until the wait is over, that it recovers, and the states
  in which it rejects every call for ever.
\<close>

subsection \<open>What the transitions leave alone\<close>

named_theorems cb_fields

lemma setState_fields [cb_fields]:
  "cb_state (setState st b) = st" "cb_config (setState st b) = cb_config b"
  "cb_consecutiveFailures (setState st b) = cb_consecutiveFailures b"
  "cb_consecutiveSuccesses (setState st b) = cb_consecutiveSuccesses b"
  "cb_permittedCallsInHalfOpen (setState st b) = cb_permittedCallsInHalfOpen b"
  "cb_openedAt (setState st b) = cb_openedAt b" "cb_wokenAt (setState st b) = cb_wokenAt b"
  "cb_outcomes (setState st b) = cb_outcomes b"
  "met_calls (cb_metrics (setState st b)) = met_calls (cb_metrics b)"
  "met_successfulCalls (cb_metrics (setState st b)) = met_successfulCalls (cb_metrics b)"
  "met_failedCalls (cb_metrics (setState st b)) = met_failedCalls (cb_metrics b)"
  "met_timeoutCalls (cb_metrics (setState st b)) = met_timeoutCalls (cb_metrics b)"
  "met_state (cb_metrics b) = cb_state b \<Longrightarrow> met_state (cb_metrics (setState st b)) = st"
  by (simp_all add: setState_def)

lemma recomputeFailureRate_fields [cb_fields]:
  "cb_state (recomputeFailureRate b) = cb_state b" "cb_config (recomputeFailureRate b) = cb_config b"
  "cb_consecutiveFailures (recomputeFailureRate b) = cb_consecutiveFailures b"
  "cb_consecutiveSuccesses (recomputeFailureRate b) = cb_consecutiveSuccesses b"
  "cb_permittedCallsInHalfOpen (recomputeFailureRate b) = cb_permittedCallsInHalfOpen b"
  "cb_openedAt (recomputeFailureRate b) = cb_openedAt b" "cb_wokenAt (recomputeFailureRate b) = cb_wokenAt b"
  "cb_outcomes (recomputeFailureRate b) = cb_outcomes b"
  "met_calls (cb_metrics (recomputeFailureRate b)) = met_calls (cb_metrics b)"
  "met_successfulCalls (cb_metrics (recomputeFailureRate b)) = met_successfulCalls (cb_metrics b)"
  "met_failedCalls (cb_metrics (recomputeFailureRate b)) = met_failedCalls (cb_metrics b)"
  "met_timeoutCalls (cb_metrics (recomputeFailureRate b)) = met_timeoutCalls (cb_metrics b)"
  "met_state (cb_metrics (recomputeFailureRate b)) = met_state (cb_metrics b)"
  by (simp_all add: recomputeFailureRate_def)

lemmas cb_operations = transitionToHalfOpen_def transitionToOpen_def transitionToClosed_def
  recordOutcome_def count_failure_def

subsection \<open>The invariant\<close>

definition thresholds_ok :: "('e, 'l) breaker \<Rightarrow> bool" where
  "thresholds_ok b \<longleftrightarrow>
     (cb_state b = CbClosed \<and> 1 \<le> failureThreshold (cb_config b) \<longrightarrow>
        cb_consecutiveFailures b < failureThreshold (cb_config b)) \<and>
     (cb_state b = CbHalfOpen \<and> 1 \<le> successThreshold (cb_config b) \<longrightarrow>
        cb_consecutiveSuccesses b < successThreshold (cb_config b))"

definition stamps_ok :: "('e, 'l) breaker \<Rightarrow> bool" where
  "stamps_ok b \<longleftrightarrow> (case cb_state b of
     CbClosed \<Rightarrow> cb_openedAt b = None \<and> cb_wokenAt b = None \<and> cb_permittedCallsInHalfOpen b = 0
   | CbOpen \<Rightarrow> cb_openedAt b \<noteq> None \<and> cb_permittedCallsInHalfOpen b = 0
   | CbHalfOpen \<Rightarrow> cb_openedAt b \<noteq> None \<and> cb_wokenAt b \<noteq> None)"

definition cb_inv :: "('e, 'l) breaker \<Rightarrow> bool" where
  "cb_inv b \<longleftrightarrow>
     1 \<le> slidingWindowSize (cb_config b) \<and>
     int (length (cb_outcomes b)) \<le> slidingWindowSize (cb_config b) \<and>
     met_state (cb_metrics b) = cb_state b \<and>
     met_calls (cb_metrics b) = met_successfulCalls (cb_metrics b) + met_failedCalls (cb_metrics b) \<and>
     met_timeoutCalls (cb_metrics b) \<le> met_failedCalls (cb_metrics b) \<and>
     0 \<le> cb_consecutiveFailures b \<and> 0 \<le> cb_consecutiveSuccesses b \<and>
     0 \<le> cb_permittedCallsInHalfOpen b \<and>
     cb_permittedCallsInHalfOpen b \<le> max 0 (permittedNumberOfCallsInHalfOpenState (cb_config b)) \<and>
     stamps_ok b \<and> thresholds_ok b"

lemmas cb_invs = cb_inv_def stamps_ok_def thresholds_ok_def

lemma push_outcome_bound:
  "1 \<le> sz \<Longrightarrow> int (length xs) \<le> sz \<Longrightarrow> int (length (push_outcome sz x xs)) \<le> sz"
  by (auto simp: push_outcome_def Let_def)

lemma new_breaker_inv: "new_breaker name config = Inr b \<Longrightarrow> cb_inv b"
  by (auto simp: new_breaker_def cb_invs initial_metrics_def split: if_splits)

lemma permitHalfOpenCall_inv:
  "cb_inv b \<Longrightarrow> cb_state b = CbHalfOpen \<Longrightarrow> cb_inv (snd (permitHalfOpenCall b))"
  by (auto simp: permitHalfOpenCall_def cb_invs)

lemma transitionToHalfOpen_inv: "cb_inv b \<Longrightarrow> cb_openedAt b \<noteq> None \<Longrightarrow> cb_inv (transitionToHalfOpen now b)"
  by (auto simp: cb_operations cb_invs cb_fields)

lemma transitionToOpen_inv:
  assumes "cb_inv b"
  shows "cb_inv (transitionToOpen now b)"
  using assms by (auto simp: cb_operations cb_invs cb_fields)

lemma isCallPermitted_inv:
  assumes "cb_inv b"
  shows "cb_inv (snd (isCallPermitted now b))"
proof (cases "cb_state b")
  case CbOpen
  with assms have at: "cb_openedAt b \<noteq> None" by (simp add: cb_invs)
  have "cb_state (transitionToHalfOpen now b) = CbHalfOpen" by (simp add: cb_operations cb_fields)
  with permitHalfOpenCall_inv [OF transitionToHalfOpen_inv [OF assms at]] assms show ?thesis
    by (auto simp: isCallPermitted_def CbOpen Let_def cb_invs)
qed (use assms in \<open>auto simp: isCallPermitted_def permitHalfOpenCall_inv\<close>)

lemma recordSuccess_inv: "cb_inv b \<Longrightarrow> cb_inv (recordSuccess now b)"
  by (cases "cb_state b")
    (auto simp: recordSuccess_def Let_def cb_operations cb_fields cb_invs push_outcome_bound)

lemma recordFailure_inv: "cb_inv b \<Longrightarrow> cb_inv (recordFailure err tmo now b)"
  by (cases "cb_state b")
    (auto simp: recordFailure_def Let_def cb_operations cb_fields cb_invs push_outcome_bound)

lemma reset_inv: "cb_inv b \<Longrightarrow> cb_inv (cb_reset b)"
  by (auto simp: cb_reset_def cb_operations cb_fields cb_invs)

lemma resetMetrics_inv: "cb_inv b \<Longrightarrow> cb_inv (resetMetrics b)"
  by (auto simp: resetMetrics_def cb_fields cb_invs split: CircuitBreakerState.splits)

text \<open>Everything that can happen to a breaker.\<close>

inductive cb_run :: "('e, 'l) breaker \<Rightarrow> bool" where
  cb_new: "new_breaker name config = Inr b \<Longrightarrow> cb_run b"
| cb_permit: "cb_run b \<Longrightarrow> cb_run (snd (isCallPermitted now b))"
| cb_success: "cb_run b \<Longrightarrow> cb_run (recordSuccess now b)"
| cb_failure: "cb_run b \<Longrightarrow> cb_run (recordFailure err tmo now b)"
| cb_resetAll: "cb_run b \<Longrightarrow> cb_run (cb_reset b)"
| cb_resetMetrics: "cb_run b \<Longrightarrow> cb_run (resetMetrics b)"
| cb_listen: "cb_run b \<Longrightarrow> cb_run (onStateChange l b)"
| cb_unlisten: "cb_run b \<Longrightarrow> cb_run (removeListener l b)"

lemma cb_run_inv: "cb_run b \<Longrightarrow> cb_inv b"
proof (induction rule: cb_run.induct)
  case (cb_listen b l)
  then show ?case by (simp add: onStateChange_def cb_invs cong: CircuitBreakerState.case_cong)
next
  case (cb_unlisten b l)
  then show ?case by (simp add: removeListener_def cb_invs cong: CircuitBreakerState.case_cong)
qed (simp_all add: new_breaker_inv isCallPermitted_inv recordSuccess_inv recordFailure_inv
      reset_inv resetMetrics_inv)

text \<open>The two steps of a guarded call are such events too.\<close>

lemma protect_start_run: "cb_run b \<Longrightarrow> cb_run (snd (protect_start fallback e now b))"
  using cb_permit [of b now] by (auto simp: protect_start_def split: prod.splits bool.splits)

lemma protect_finish_run: "cb_run b \<Longrightarrow> cb_run (snd (protect_finish out fallback e now b))"
  by (auto simp: protect_finish_def intro: cb_success cb_failure split: race_end.splits call_end.splits)

lemma runCall_finish_run: "cb_run b \<Longrightarrow> cb_run (snd (runCall_finish out fallback now b))"
  by (auto simp: runCall_finish_def intro: cb_success cb_failure split: call_end.splits)

subsection \<open>Opening\<close>

definition counted :: "('e, 'l) breaker \<Rightarrow> 'e \<Rightarrow> bool" where
  "counted b err \<longleftrightarrow> \<not> ignored (cb_config b) err \<and> \<not> not_recorded (cb_config b) err"

abbreviation rejected_once :: "('e, 'l) breaker \<Rightarrow> ('e, 'l) breaker" where
  "rejected_once b \<equiv> upd_metrics (\<lambda>m. m\<lparr>met_rejectedCalls := met_rejectedCalls m + 1\<rparr>) b"

lemma config_recordFailure [cb_fields]: "cb_config (recordFailure err tmo now b) = cb_config b"
  by (simp add: recordFailure_def Let_def cb_operations cb_fields split: CircuitBreakerState.split)

lemma config_recordSuccess [cb_fields]: "cb_config (recordSuccess now b) = cb_config b"
  by (simp add: recordSuccess_def Let_def cb_operations cb_fields split: CircuitBreakerState.split)

lemma counted_cong: "cb_config b = cb_config a \<Longrightarrow> counted b = counted a"
  by (auto simp: counted_def)

lemma failure_when_open:
  "cb_state b = CbOpen \<Longrightarrow> cb_state (recordFailure err tmo now b) = CbOpen \<and>
     cb_openedAt (recordFailure err tmo now b) = cb_openedAt b"
  by (auto simp: recordFailure_def Let_def cb_operations cb_fields)

lemma failure_when_closed:
  assumes "cb_state b = CbClosed" and "counted b err"
  shows "(cb_state (recordFailure err tmo now b) = CbOpen \<and>
       cb_openedAt (recordFailure err tmo now b) = Some now) \<or>
     (cb_state (recordFailure err tmo now b) = CbClosed \<and>
       cb_consecutiveFailures (recordFailure err tmo now b) = cb_consecutiveFailures b + 1 \<and>
       cb_consecutiveFailures b + 1 < failureThreshold (cb_config b))"
  using assms by (auto simp: counted_def recordFailure_def Let_def cb_operations cb_fields)

abbreviation record_failures :: "('e \<times> bool \<times> int) list \<Rightarrow> ('e, 'l) breaker \<Rightarrow> ('e, 'l) breaker" where
  "record_failures \<equiv> fold (\<lambda>(err, tmo, now). recordFailure err tmo now)"

lemma failures_keep_open:
  "cb_state b = CbOpen \<Longrightarrow>
     cb_state (record_failures fs b) = CbOpen \<and> cb_openedAt (record_failures fs b) = cb_openedAt b"
  by (induction fs arbitrary: b) (auto simp: failure_when_open)

lemma failures_open:
  assumes "cb_state b = CbClosed" and "list_all (\<lambda>f. counted b (fst f)) fs" and "fs \<noteq> []"
    and "failureThreshold (cb_config b) \<le> cb_consecutiveFailures b + int (length fs)"
  shows "cb_state (record_failures fs b) = CbOpen \<and>
    (\<exists>f\<in>set fs. cb_openedAt (record_failures fs b) = Some (snd (snd f)))"
  using assms
proof (induction fs arbitrary: b)
  case (Cons f fs)
  obtain err tmo now where f: "f = (err, tmo, now)" by (cases f)
  let ?b = "recordFailure err tmo now b"
  from failure_when_closed [of b err tmo now] Cons.prems(1,2) consider
      "cb_state ?b = CbOpen" "cb_openedAt ?b = Some now"
    | "cb_state ?b = CbClosed" "cb_consecutiveFailures ?b = cb_consecutiveFailures b + 1"
      "cb_consecutiveFailures b + 1 < failureThreshold (cb_config b)"
    by (auto simp: f)
  then show ?case
  proof cases
    case 1
    then show ?thesis using failures_keep_open [of ?b fs] by (simp add: f)
  next
    case 2
    have "list_all (\<lambda>f. counted ?b (fst f)) fs"
      using Cons.prems(2) by (simp add: counted_def cb_fields)
    moreover have "fs \<noteq> []" using 2(3) Cons.prems(4) by auto
    ultimately show ?thesis
      using Cons.IH [of ?b] 2 Cons.prems(4) by (auto simp: f cb_fields)
  qed
qed simp

lemma open_rejects:
  "cb_state b = CbOpen \<Longrightarrow> cb_openedAt b = Some t \<Longrightarrow> now < t + waitDurationInOpenState (cb_config b) \<Longrightarrow>
   isCallPermitted now b = (False, rejected_once b)"
  by (simp add: isCallPermitted_def Let_def)

subsection \<open>Half open\<close>

text \<open>Calls in a row that succeed: whether all were admitted, and the breaker afterwards.\<close>

fun trial_calls :: "int list \<Rightarrow> ('e, 'l) breaker \<Rightarrow> bool \<times> ('e, 'l) breaker" where
  "trial_calls [] b = (True, b)"
| "trial_calls (now # ts) b =
     (let (admitted, b1) = isCallPermitted now b
      in if admitted then trial_calls ts (recordSuccess now b1) else (False, b1))"

lemma half_open_success:
  assumes "cb_state b = CbHalfOpen"
  shows "if cb_consecutiveSuccesses b + 1 \<ge> successThreshold (cb_config b)
    then cb_state (recordSuccess now b) = CbClosed \<and> cb_outcomes (recordSuccess now b) = [] \<and>
      cb_consecutiveFailures (recordSuccess now b) = 0
    else cb_state (recordSuccess now b) = CbHalfOpen \<and>
      cb_consecutiveSuccesses (recordSuccess now b) = cb_consecutiveSuccesses b + 1 \<and>
      cb_permittedCallsInHalfOpen (recordSuccess now b) = cb_permittedCallsInHalfOpen b"
  using assms by (simp add: recordSuccess_def Let_def cb_operations cb_fields)

lemma permit_fields [cb_fields]:
  "cb_state (snd (permitHalfOpenCall b)) = cb_state b"
  "cb_config (snd (permitHalfOpenCall b)) = cb_config b"
  "cb_consecutiveSuccesses (snd (permitHalfOpenCall b)) = cb_consecutiveSuccesses b"
  "fst (permitHalfOpenCall b) \<longleftrightarrow>
     cb_permittedCallsInHalfOpen b < permittedNumberOfCallsInHalfOpenState (cb_config b)"
  "cb_permittedCallsInHalfOpen (snd (permitHalfOpenCall b)) =
     cb_permittedCallsInHalfOpen b + (if fst (permitHalfOpenCall b) then 1 else 0)"
  by (simp_all add: permitHalfOpenCall_def)

lemma trial_calls_close:
  assumes "cb_state b = CbHalfOpen" and "ts \<noteq> []"
    and "cb_consecutiveSuccesses b + int (length ts) = successThreshold (cb_config b)"
    and "cb_permittedCallsInHalfOpen b + int (length ts) \<le> permittedNumberOfCallsInHalfOpenState (cb_config b)"
  shows "fst (trial_calls ts b) \<and> cb_state (snd (trial_calls ts b)) = CbClosed \<and>
    cb_outcomes (snd (trial_calls ts b)) = [] \<and> cb_consecutiveFailures (snd (trial_calls ts b)) = 0"
  using assms
proof (induction ts arbitrary: b)
  case (Cons now ts)
  define b1 where "b1 = snd (permitHalfOpenCall b)"
  have b1: "isCallPermitted now b = (True, b1)"
    using Cons.prems by (simp add: isCallPermitted_def b1_def prod_eq_iff cb_fields)
  have st: "cb_state b1 = CbHalfOpen" "cb_config b1 = cb_config b"
      "cb_consecutiveSuccesses b1 = cb_consecutiveSuccesses b"
      "cb_permittedCallsInHalfOpen b1 = cb_permittedCallsInHalfOpen b + 1"
    using Cons.prems by (simp_all add: b1_def cb_fields)
  show ?case
  proof (cases "ts = []")
    case True
    then show ?thesis
      using half_open_success [OF st(1), of now] st Cons.prems(3) by (simp add: b1)
  next
    case False
    then have "\<not> cb_consecutiveSuccesses b1 + 1 \<ge> successThreshold (cb_config b1)"
      using Cons.prems(3) st by (cases ts) auto
    then have "cb_state (recordSuccess now b1) = CbHalfOpen"
        "cb_consecutiveSuccesses (recordSuccess now b1) = cb_consecutiveSuccesses b + 1"
        "cb_permittedCallsInHalfOpen (recordSuccess now b1) = cb_permittedCallsInHalfOpen b + 1"
      using half_open_success [OF st(1), of now] st by auto
    with Cons.IH [of "recordSuccess now b1"] False Cons.prems(3,4) st(2) show ?thesis
      by (simp add: b1 cb_fields)
  qed
qed simp

text \<open>The first call after the wait.\<close>

lemma wakes_up:
  assumes "cb_state b = CbOpen" and "cb_openedAt b = Some t"
    and "t + waitDurationInOpenState (cb_config b) \<le> now"
  shows "isCallPermitted now b = isCallPermitted now (transitionToHalfOpen now b)"
    and "cb_state (transitionToHalfOpen now b) = CbHalfOpen"
    and "cb_config (transitionToHalfOpen now b) = cb_config b"
    and "cb_permittedCallsInHalfOpen (transitionToHalfOpen now b) = 0"
    and "cb_consecutiveSuccesses (transitionToHalfOpen now b) = 0"
  using assms by (simp_all add: isCallPermitted_def Let_def cb_operations cb_fields)

text \<open>All permits used, the breaker rejects every call and nothing changes but the counter.\<close>

definition exhausted :: "('e, 'l) breaker \<Rightarrow> bool" where
  "exhausted b \<longleftrightarrow> cb_state b = CbHalfOpen \<and>
     \<not> cb_permittedCallsInHalfOpen b < permittedNumberOfCallsInHalfOpenState (cb_config b)"

lemma exhausted_rejects: "exhausted b \<Longrightarrow> isCallPermitted now b = (False, rejected_once b)"
  by (simp add: exhausted_def isCallPermitted_def permitHalfOpenCall_def)

lemma exhausted_forever: "exhausted b \<Longrightarrow> exhausted (fold (\<lambda>now b. snd (isCallPermitted now b)) ts b)"
proof (induction ts arbitrary: b)
  case (Cons now ts)
  moreover have "exhausted (rejected_once b)" using Cons.prems by (simp add: exhausted_def)
  ultimately show ?case by (simp add: exhausted_rejects)
qed simp

text \<open>How a trial call can end without an outcome for the breaker.\<close>

fun no_outcome :: "'e CircuitBreakerConfig \<Rightarrow> ('e, 'a) race_end \<Rightarrow> bool" where
  "no_outcome config (Settled (Threw err)) = ignored config err"
| "no_outcome config (Settled (ThrewBreakerError err)) = True"
| "no_outcome config _ = False"

abbreviation trials :: "'e \<Rightarrow> (int \<times> ('e, 'a) race_end) list \<Rightarrow> ('e, 'l) breaker \<Rightarrow> ('e, 'l) breaker" where
  "trials terr \<equiv> fold (\<lambda>(now, out) b. snd (protect_finish out None terr now (snd (isCallPermitted now b))))"

lemma no_outcome_unchanged:
  "no_outcome (cb_config b) out \<Longrightarrow> snd (protect_finish out None terr now b) = b"
  by (cases "(cb_config b, out)" rule: no_outcome.cases) (auto simp: protect_finish_def recordFailure_def)

lemma trials_exhaust:
  assumes "cb_state b = CbHalfOpen" and "list_all (\<lambda>(now, out). no_outcome (cb_config b) out) outs"
    and "permittedNumberOfCallsInHalfOpenState (cb_config b) \<le> cb_permittedCallsInHalfOpen b + int (length outs)"
  shows "exhausted (trials terr outs b)"
  using assms
proof (induction outs arbitrary: b)
  case Nil
  then show ?case by (simp add: exhausted_def)
next
  case (Cons p outs)
  obtain now out where p: "p = (now, out)" by (cases p)
  let ?b = "snd (permitHalfOpenCall b)"
  have "snd (isCallPermitted now b) = ?b" using Cons.prems(1) by (simp add: isCallPermitted_def)
  moreover have "snd (protect_finish out None terr now ?b) = ?b"
    using Cons.prems(2) by (intro no_outcome_unchanged) (simp add: p cb_fields)
  moreover have "exhausted (trials terr outs ?b)"
    by (rule Cons.IH) (use Cons.prems in \<open>auto simp: cb_fields p\<close>)
  ultimately show ?case by (simp add: p)
qed

subsection \<open>A breaker to evaluate\<close>

definition demo_config :: "string CircuitBreakerConfig" where
  "demo_config = DEFAULT_CONFIG\<lparr>failureThreshold := 2, waitDurationInOpenState := 100,
     permittedNumberOfCallsInHalfOpenState := 2, cfg_ignoreFailures := Some (\<lambda>e. e = ''declined'')\<rparr>"

definition demo_breaker :: "(string, nat) breaker" where
  "demo_breaker = projr (new_breaker ''stripe'' demo_config)"

definition demo_open :: "(string, nat) breaker" where
  "demo_open = record_failures [(''down'', False, 10), (''down'', True, 20)] demo_breaker"

lemma demo_new: "new_breaker ''stripe'' demo_config = Inr demo_breaker"
  by (simp add: demo_breaker_def new_breaker_def demo_config_def DEFAULT_CONFIG_def js_trim_def is_space_def)

lemma demo_breaker_fields: "cb_state demo_breaker = CbClosed" "cb_consecutiveFailures demo_breaker = 0"
    "cb_config demo_breaker = demo_config" "cb_outcomes demo_breaker = []"
  unfolding demo_breaker_def
  by (simp_all add: new_breaker_def demo_config_def DEFAULT_CONFIG_def js_trim_def is_space_def)

lemma demo_run: "cb_run demo_breaker"
  by (rule cb_new [OF demo_new])

lemma demo_config_fields: "failureThreshold demo_config = 2" "successThreshold demo_config = 2"
    "waitDurationInOpenState demo_config = 100" "permittedNumberOfCallsInHalfOpenState demo_config = 2"
    "ignored demo_config e = (e = ''declined'')" "\<not> not_recorded demo_config e" "slidingWindowSize demo_config = 20"
    "minimumCallsToOpen demo_config = 5"
  by (simp_all add: demo_config_def DEFAULT_CONFIG_def ignored_def not_recorded_def)

lemma demo_open: "cb_state demo_open = CbOpen" "cb_openedAt demo_open = Some 20" "cb_config demo_open = demo_config"
  "cb_run demo_open"
proof -
  show "cb_run demo_open" by (simp add: demo_open_def cb_failure demo_run)
  show "cb_state demo_open = CbOpen" "cb_openedAt demo_open = Some 20" "cb_config demo_open = demo_config"
    by (simp_all add: demo_open_def recordFailure_def demo_breaker_fields demo_config_fields cb_fields
        cb_operations shouldTripByFailureRate_def push_outcome_def Let_def)
qed

subsection \<open>The properties\<close>

text \<open>
  The invariant of a circuit breaker. Whatever happens to it, its window is never longer than
  configured, it admits no more trial calls than permitted while it is half open, it counts every
  call as a success or a failure, its time stamps fit its state, and a closed breaker is below its
  failure threshold, a half open one below its success threshold.
\<close>
lemma breaker_invariant:
  assumes "cb_run b"
  shows "int (length (cb_outcomes b)) \<le> slidingWindowSize (cb_config b) \<and>
    0 \<le> cb_permittedCallsInHalfOpen b \<and>
    cb_permittedCallsInHalfOpen b \<le> max 0 (permittedNumberOfCallsInHalfOpenState (cb_config b)) \<and>
    met_calls (cb_metrics b) = met_successfulCalls (cb_metrics b) + met_failedCalls (cb_metrics b) \<and>
    met_timeoutCalls (cb_metrics b) \<le> met_failedCalls (cb_metrics b) \<and>
    met_state (cb_metrics b) = cb_state b \<and>
    (case cb_state b of
       CbClosed \<Rightarrow> cb_openedAt b = None \<and> cb_wokenAt b = None \<and>
         (failureThreshold (cb_config b) < 1 \<or> cb_consecutiveFailures b < failureThreshold (cb_config b))
     | CbOpen \<Rightarrow> cb_openedAt b \<noteq> None \<and> cb_permittedCallsInHalfOpen b = 0
     | CbHalfOpen \<Rightarrow> cb_openedAt b \<noteq> None \<and> cb_wokenAt b \<noteq> None \<and>
         (successThreshold (cb_config b) < 1 \<or> cb_consecutiveSuccesses b < successThreshold (cb_config b)))"
  using cb_run_inv [OF assms] by (auto simp: cb_invs split: CircuitBreakerState.splits)

lemma breaker_invariant_witness:
  "cb_state demo_open = CbOpen \<and> int (length (cb_outcomes demo_open)) \<le> 20 \<and> cb_openedAt demo_open \<noteq> None"
  using breaker_invariant [OF demo_open(4)] by (simp add: demo_open demo_config_fields)

text \<open>
  C13: A circuit opens. When a closed breaker records as many counted failures in a row as its
  threshold, however many it had before and whatever its window holds, it is open, since one of
  them; and then it rejects every call until its wait is over, changing nothing but the counter of
  rejected calls.
\<close>
theorem breaker_opens_and_rejects:
  assumes "cb_run b" and "cb_state b = CbClosed" and "list_all (\<lambda>f. counted b (fst f)) fs"
    and "fs \<noteq> []" and "failureThreshold (cb_config b) \<le> int (length fs)"
  shows "cb_state (record_failures fs b) = CbOpen \<and>
    (case cb_openedAt (record_failures fs b) of
       None \<Rightarrow> False
     | Some t \<Rightarrow> t \<in> set (map (\<lambda>(err, tmo, now). now) fs) \<and>
         (\<forall>now. isCallPermitted now (record_failures fs b) =
            (if now < t + waitDurationInOpenState (cb_config b) then (False, rejected_once (record_failures fs b))
             else permitHalfOpenCall (transitionToHalfOpen now (record_failures fs b)))))"
proof -
  have "0 \<le> cb_consecutiveFailures b" using cb_run_inv [OF assms(1)] by (simp add: cb_inv_def)
  with failures_open [OF assms(2-4)] assms(5) obtain f where f: "f \<in> set fs"
      "cb_state (record_failures fs b) = CbOpen" "cb_openedAt (record_failures fs b) = Some (snd (snd f))"
    by auto
  have "cb_config (record_failures fs b) = cb_config b"
    by (induction fs arbitrary: b) (auto simp: cb_fields)
  moreover have "snd (snd f) \<in> set (map (\<lambda>(err, tmo, now). now) fs)" 
    using imageI [OF f(1), of "\<lambda>(err, tmo, now). now"] by (simp add: split_def)
  ultimately show ?thesis
    by (simp add: f(2,3) isCallPermitted_def Let_def)
qed

theorem breaker_opens_and_rejects_witness:
  "cb_state (record_failures [(''down'', False, 10), (''down'', True, 20)] demo_breaker) = CbOpen"
  using breaker_opens_and_rejects [OF demo_run, of "[(''down'', False, 10), (''down'', True, 20)]"]
  by (simp add: demo_breaker_fields demo_config_fields counted_def)

text \<open>
  A circuit recovers. Once the wait of an open breaker is over, as many successful calls in a
  row as its success threshold are all admitted and leave it closed with an empty history, provided
  the threshold is within the permitted number of trial calls; a counted failure of the first trial
  call opens it again, from that moment on.
\<close>
lemma breaker_recovers:
  assumes "cb_run b" and "cb_state b = CbOpen" and "cb_openedAt b = Some t"
    and "t + waitDurationInOpenState (cb_config b) \<le> now"
    and "1 + int (length ts) = successThreshold (cb_config b)"
    and "successThreshold (cb_config b) \<le> permittedNumberOfCallsInHalfOpenState (cb_config b)"
  shows "fst (trial_calls (now # ts) b) \<and>
    cb_state (snd (trial_calls (now # ts) b)) = CbClosed \<and>
    cb_outcomes (snd (trial_calls (now # ts) b)) = [] \<and>
    cb_consecutiveFailures (snd (trial_calls (now # ts) b)) = 0 \<and>
    (\<forall>err tmo later. \<not> counted b err \<or>
       (let b' = recordFailure err tmo later (snd (isCallPermitted now b))
        in cb_state b' = CbOpen \<and> cb_openedAt b' = Some later))"
proof -
  note wake = wakes_up [OF assms(2-4)]
  let ?h = "transitionToHalfOpen now b"
  have "trial_calls (now # ts) b = trial_calls (now # ts) ?h" by (simp add: wake(1))
  moreover have "fst (trial_calls (now # ts) ?h) \<and> cb_state (snd (trial_calls (now # ts) ?h)) = CbClosed \<and>
    cb_outcomes (snd (trial_calls (now # ts) ?h)) = [] \<and>
    cb_consecutiveFailures (snd (trial_calls (now # ts) ?h)) = 0"
    by (rule trial_calls_close) (use assms(5,6) in \<open>simp_all add: wake(2-)\<close>)
  moreover have "cb_state (snd (isCallPermitted now b)) = CbHalfOpen" "cb_config (snd (isCallPermitted now b)) = cb_config b"
    by (simp_all add: wake(1) isCallPermitted_def [of now ?h] wake(2-) cb_fields)
  then have "cb_state (recordFailure err tmo later (snd (isCallPermitted now b))) = CbOpen \<and>
      cb_openedAt (recordFailure err tmo later (snd (isCallPermitted now b))) = Some later"
    if "counted b err" for err tmo later
    using that by (auto simp: counted_def recordFailure_def Let_def cb_operations cb_fields)
  ultimately show ?thesis by (auto simp: Let_def simp del: trial_calls.simps)
qed

lemma breaker_recovers_witness:
  "fst (trial_calls [120, 130] demo_open) \<and> cb_state (snd (trial_calls [120, 130] demo_open)) = CbClosed"
  using breaker_recovers [OF demo_open(4,1,2), of 120 "[130]"]
  by (simp add: demo_open demo_config_fields del: trial_calls.simps)

text \<open>
  A half open breaker can be stuck for ever. When each of the permitted trial calls ends without
  an outcome that the breaker records, because the error is ignored or comes from a nested breaker,
  their permits are not given back: from then on every call is rejected, at any time and however
  often it is tried, as nothing but the end of an admitted call changes the state.
\<close>
theorem half_open_stuck:
  assumes "cb_run b" and "cb_state b = CbOpen" and "cb_openedAt b = Some t"
    and "t + waitDurationInOpenState (cb_config b) \<le> now"
    and "list_all (\<lambda>(now, out). no_outcome (cb_config b) out) ((now, out) # outs)"
    and "permittedNumberOfCallsInHalfOpenState (cb_config b) \<le> 1 + int (length outs)"
  shows "\<forall>ts later.
    let b' = fold (\<lambda>now b. snd (isCallPermitted now b)) ts (trials terr ((now, out) # outs) b)
    in cb_state b' = CbHalfOpen \<and> \<not> fst (isCallPermitted later b')"
proof -
  note wake = wakes_up [OF assms(2-4)]
  have "trials terr ((now, out) # outs) b = trials terr ((now, out) # outs) (transitionToHalfOpen now b)"
    by (simp add: wake(1))
  moreover have "exhausted (trials terr ((now, out) # outs) (transitionToHalfOpen now b))"
    by (rule trials_exhaust) (use assms(5,6) in \<open>simp_all add: wake(2-)\<close>)
  moreover define b1 where "b1 = trials terr ((now, out) # outs) b"
  ultimately have ex: "exhausted (fold (\<lambda>now b. snd (isCallPermitted now b)) ts b1)" for ts
    by (intro exhausted_forever) simp
  show ?thesis
    unfolding b1_def [symmetric] Let_def
    using ex exhausted_rejects [OF ex] by (simp add: exhausted_def)
qed

theorem half_open_stuck_witness:
  "\<not> fst (isCallPermitted 1000000 (trials ''timeout'' [(120, Settled (Threw ''declined'')),
      (130, Settled (ThrewBreakerError ''bank is open'' :: (string, nat) call_end))] demo_open))"
proof -
  have "\<forall>ts later.
    let b' = fold (\<lambda>now b. snd (isCallPermitted now b)) ts (trials ''timeout''
      [(120, Settled (Threw ''declined'')), (130, Settled (ThrewBreakerError ''bank is open'' :: (string, nat) call_end))] demo_open)
    in cb_state b' = CbHalfOpen \<and> \<not> fst (isCallPermitted later b')"
    by (rule half_open_stuck [OF demo_open(4,1,2)]) (simp_all add: demo_open demo_config_fields)
  from this [rule_format, of "[]" 1000000] show ?thesis
    unfolding Let_def fold_Nil id_apply by blast
qed

subsection \<open>Further facts\<close>

text \<open>Closing empties the window but leaves the reported failure rate as it was.\<close>

lemma closing_keeps_failure_rate:
  "met_failureRate (cb_metrics (transitionToClosed b)) = met_failureRate (cb_metrics b) \<and>
   cb_outcomes (transitionToClosed b) = []"
  by (simp add: transitionToClosed_def setState_def)

text \<open>\<open>resetMetrics\<close> keeps every counter.\<close>

lemma resetMetrics_keeps_counters:
  "met_calls (cb_metrics (resetMetrics b)) = met_calls (cb_metrics b) \<and>
   met_failedCalls (cb_metrics (resetMetrics b)) = met_failedCalls (cb_metrics b)"
  by (simp add: resetMetrics_def recomputeFailureRate_def)

text \<open>A failure rate equal to the threshold trips the breaker.\<close>

lemma rate_at_threshold_trips:
  "shouldTripByFailureRate b =
     (cb_outcomes b \<noteq> [] \<and> minimumCallsToOpen (cb_config b) \<le> int (length (cb_outcomes b)) \<and>
      failureRateThreshold (cb_config b) * of_nat (length (cb_outcomes b))
        \<le> 100 * of_nat (failed_outcomes (cb_outcomes b)))"
  by (auto simp: shouldTripByFailureRate_def Let_def field_simps)

end
