(* ===== verification/SplitPayments.thy ===== *)
theory SplitPayments
  imports Js Money "HOL-Library.List_Lexorder" "HOL-Library.Char_ord" "HOL-Library.Product_Lexorder"
begin

text \<open>
  \<open>backend/src/services/split-payments/\<close>: the allocation of a payment to recipients
  (\<open>allocation.ts\<close>), the service that keeps split plans and executes payments against them
  (\<open>splitPaymentService.ts\<close>) on its in-memory store (\<open>store.ts\<close>), with the types of \<open>types.ts\<close>.
  The inputs have their declared types, so the \<open>typeof\<close> checks have no counterpart, and numbers are
  finite. The store hands out clones: reading and writing it are by value. Metadata is opaque text.
\<close>

subsection \<open>Types\<close>

datatype SplitPlanStatus = PlanActive | PlanArchived

record SplitRecipientInput =
  sri_recipientId :: string
  sri_walletAddress :: string
  sri_percentage :: rat
  sri_minimumAmount :: "rat option"
  sri_label :: "string option"

record SplitRecipient =
  spr_recipientId :: string
  spr_walletAddress :: string
  spr_percentage :: rat
  spr_shareBps :: int
  spr_minimumAmount :: rat
  spr_label :: "string option"

record SplitPlan =
  spp_id :: string
  spp_tenantId :: string
  spp_merchantId :: "string option"
  spp_name :: "string option"
  spp_currency :: string
  spp_platformFeePercentage :: rat
  spp_platformFeeBps :: int
  spp_recipients :: "SplitRecipient list"
  spp_status :: SplitPlanStatus
  spp_metadata :: "string option"
  spp_createdAt :: int
  spp_updatedAt :: int

record CreateSplitPlanInput =
  csp_tenantId :: string
  csp_recipients :: "SplitRecipientInput list"
  csp_platformFeePercentage :: "rat option"
  csp_currency :: "string option"
  csp_merchantId :: "string option"
  csp_name :: "string option"
  csp_metadata :: "string option"

record SplitPlanFilter =
  spf_status :: "SplitPlanStatus option"
  spf_merchantId :: "string option"

record SplitAllocationShare =
  sas_recipientId :: string
  sas_walletAddress :: string
  sas_percentage :: rat
  sas_amount :: rat
  sas_amountMinor :: int
  sas_skipped :: bool
  sas_reason :: "string option"

record SplitAllocation =
  alc_totalAmount :: rat
  alc_totalMinor :: int
  alc_platformFeePercentage :: rat
  alc_platformFeeBps :: int
  alc_platformFeeAmount :: rat
  alc_platformFeeMinor :: int
  alc_shares :: "SplitAllocationShare list"
  alc_allocatedMinor :: int
  alc_unallocatedMinor :: int

record SplitExecution =
  exe_id :: string
  exe_planId :: string
  exe_tenantId :: string
  exe_paymentId :: string
  exe_totalAmount :: rat
  exe_currency :: string
  exe_platformFeeAmount :: rat
  exe_distributions :: "SplitAllocationShare list"
  exe_allocatedMinor :: int
  exe_executedAt :: int

record SplitExecutionSummary =
  ses_planId :: string
  ses_executionCount :: nat
  ses_totalProcessed :: rat
  ses_totalPlatformFees :: rat
  ses_skippedDistributions :: nat

record SplitConfig =
  scf_supportedCurrencies :: "string list"
  scf_defaultCurrency :: string
  scf_maxRecipients :: int

record NormalizedSplitPlan =
  nsp_tenantId :: string
  nsp_currency :: string
  nsp_platformFeePercentage :: rat
  nsp_platformFeeBps :: int
  nsp_recipients :: "SplitRecipient list"
  nsp_merchantId :: "string option"
  nsp_name :: "string option"
  nsp_metadata :: "string option"

text \<open>The published events; the data of an execution are its id, payment, amount and minor units.\<close>

datatype SplitEvent =
    PlanCreated string string int nat
  | PlanArchivedEvent string string int
  | SplitExecuted string string int string string rat int

text \<open>
  The failures by message, with the values the message shows. All are results that the caller gets
  back, except \<open>AllocationThrew\<close>: the \<open>Error\<close> that \<open>allocateSplit\<close> throws, which rejects the promise.
\<close>

datatype split_error =
    TenantIdRequired | RecipientsRequired | TooManyRecipients int | CurrencyNotSupported "string list"
  | PlatformFeeOutOfRange | RecipientIdRequired | DuplicateRecipientId string | WalletRequired string
  | PercentageOutOfRange string | MinimumAmountNegative string | SharesDoNotSumTo100 rat
  | PlanNotFound string | PlanAlreadyArchived | CannotExecuteArchived | PaymentIdRequired
  | TotalNotPositive | CurrencyMismatch string string | AllocationThrew

definition DEFAULT_SPLIT_CONFIG :: SplitConfig where
  "DEFAULT_SPLIT_CONFIG =
     \<lparr>scf_supportedCurrencies = [''USD'', ''EUR'', ''GBP'', ''XLM'', ''USDC''],
      scf_defaultCurrency = ''USD'', scf_maxRecipients = 25\<rparr>"

definition BPS_TOTAL :: int where
  "BPS_TOTAL = 10000"

subsection \<open>Allocation\<close>

definition roundCurrency :: "rat \<Rightarrow> rat" where
  "roundCurrency v = of_int (js_round ((v + 1 / 2 ^ 52) * 100)) / 100"

definition toBasisPoints :: "rat \<Rightarrow> int" where
  "toBasisPoints percentage = js_round (percentage * 100)"

definition fromBasisPoints :: "int \<Rightarrow> rat" where
  "fromBasisPoints bps = of_int bps / 100"

text \<open>The loop that hands out the remaining units, one to each entry.\<close>

fun hand_out :: "nat list \<Rightarrow> int \<Rightarrow> int list \<Rightarrow> int list" where
  "hand_out [] remaining minors = minors"
| "hand_out (i # entries) remaining minors =
     (if remaining \<le> 0 then minors
      else hand_out entries (remaining - 1) (minors[i := minors ! i + 1]))"

text \<open>
  The sort is by descending remainder, then by ascending index, in which order the entries come:
  a stable sort by the remainder.
\<close>

definition allocateMinorUnits :: "int \<Rightarrow> int list \<Rightarrow> int list" where
  "allocateMinorUnits totalMinor weights =
     (let totalWeight = sum_list weights
      in if totalMinor \<le> 0 \<or> totalWeight \<le> 0 then map (\<lambda>_. 0) weights
         else
           let exact = map (\<lambda>weight. of_int (totalMinor * weight) / of_int totalWeight :: rat) weights;
               minors = map floor exact;
               remaining = totalMinor - sum_list minors;
               byRemainder = sort_key (\<lambda>i. - (exact ! i - of_int \<lfloor>exact ! i\<rfloor>)) [0..<length exact]
           in hand_out byRemainder remaining minors)"

fun normalize_recipients ::
  "string list \<Rightarrow> SplitRecipientInput list \<Rightarrow> split_error + SplitRecipient list" where
  "normalize_recipients seen [] = Inr []"
| "normalize_recipients seen (raw # raws) =
     (let percentage = roundCurrency (sri_percentage raw);
          minimumAmount = roundCurrency (case sri_minimumAmount raw of Some a \<Rightarrow> a | None \<Rightarrow> 0)
      in if sri_recipientId raw = [] then Inl RecipientIdRequired
         else if sri_recipientId raw \<in> set seen then Inl (DuplicateRecipientId (sri_recipientId raw))
         else if sri_walletAddress raw = [] then Inl (WalletRequired (sri_recipientId raw))
         else if percentage \<le> 0 \<or> percentage > 100 then Inl (PercentageOutOfRange (sri_recipientId raw))
         else if minimumAmount < 0 then Inl (MinimumAmountNegative (sri_recipientId raw))
         else
           (case normalize_recipients (sri_recipientId raw # seen) raws of
              Inl e \<Rightarrow> Inl e
            | Inr recipients \<Rightarrow>
                Inr (\<lparr>spr_recipientId = sri_recipientId raw, spr_walletAddress = sri_walletAddress raw,
                      spr_percentage = percentage, spr_shareBps = toBasisPoints percentage,
                      spr_minimumAmount = minimumAmount, spr_label = sri_label raw\<rparr> # recipients)))"

definition validateSplitPlan ::
  "SplitConfig \<Rightarrow> CreateSplitPlanInput \<Rightarrow> split_error + NormalizedSplitPlan" where
  "validateSplitPlan config input =
     (let currency = to_upper (case csp_currency input of Some c \<Rightarrow> c | None \<Rightarrow> scf_defaultCurrency config);
          platformFeePercentage =
            roundCurrency (case csp_platformFeePercentage input of Some p \<Rightarrow> p | None \<Rightarrow> 0);
          platformFeeBps = toBasisPoints platformFeePercentage
      in if csp_tenantId input = [] then Inl TenantIdRequired
         else if csp_recipients input = [] then Inl RecipientsRequired
         else if int (length (csp_recipients input)) > scf_maxRecipients config
         then Inl (TooManyRecipients (scf_maxRecipients config))
         else if currency \<notin> set (scf_supportedCurrencies config)
         then Inl (CurrencyNotSupported (scf_supportedCurrencies config))
         else if platformFeePercentage < 0 \<or> platformFeePercentage > 100 then Inl PlatformFeeOutOfRange
         else
           (case normalize_recipients [] (csp_recipients input) of
              Inl e \<Rightarrow> Inl e
            | Inr recipients \<Rightarrow>
                let totalBps = sum_list (map spr_shareBps recipients) + platformFeeBps
                in if totalBps \<noteq> BPS_TOTAL then Inl (SharesDoNotSumTo100 (fromBasisPoints totalBps))
                   else Inr
                     \<lparr>nsp_tenantId = csp_tenantId input, nsp_currency = currency,
                      nsp_platformFeePercentage = platformFeePercentage,
                      nsp_platformFeeBps = platformFeeBps, nsp_recipients = recipients,
                      nsp_merchantId = csp_merchantId input, nsp_name = csp_name input,
                      nsp_metadata = csp_metadata input\<rparr>))"

definition allocation_share :: "int list \<Rightarrow> nat \<Rightarrow> SplitRecipient \<Rightarrow> SplitAllocationShare" where
  "allocation_share minors index recipient =
     (let amountMinor = (if index + 1 < length minors then minors ! (index + 1) else 0);
          amount = roundCurrency (of_int amountMinor / 100);
          skipped = amount < spr_minimumAmount recipient
      in \<lparr>sas_recipientId = spr_recipientId recipient, sas_walletAddress = spr_walletAddress recipient,
          sas_percentage = spr_percentage recipient, sas_amount = amount, sas_amountMinor = amountMinor,
          sas_skipped = skipped, sas_reason = (if skipped then Some ''Below minimum amount'' else None)\<rparr>)"

definition allocateSplit ::
  "rat \<Rightarrow> rat \<Rightarrow> int \<Rightarrow> SplitRecipient list \<Rightarrow> split_error + SplitAllocation" where
  "allocateSplit totalAmount platformFeePercentage platformFeeBps recipients =
     (let totalMinor = js_round (totalAmount * 100)
      in if totalMinor \<le> 0 then Inl AllocationThrew
         else
           let weights = platformFeeBps # map spr_shareBps recipients;
               minors = allocateMinorUnits totalMinor weights;
               platformFeeMinor = (case minors of m # _ \<Rightarrow> m | [] \<Rightarrow> 0);
               shares = map2 (allocation_share minors) [0..<length recipients] recipients;
               allocatedMinor = platformFeeMinor + sum_list (map sas_amountMinor shares)
           in Inr \<lparr>alc_totalAmount = roundCurrency totalAmount, alc_totalMinor = totalMinor,
                alc_platformFeePercentage = platformFeePercentage, alc_platformFeeBps = platformFeeBps,
                alc_platformFeeAmount = roundCurrency (of_int platformFeeMinor / 100),
                alc_platformFeeMinor = platformFeeMinor, alc_shares = shares,
                alc_allocatedMinor = allocatedMinor,
                alc_unallocatedMinor = totalMinor - allocatedMinor\<rparr>)"

subsection \<open>The store\<close>

record split_store =
  sps_plans :: "(string, SplitPlan) jsmap"
  sps_executions :: "(string, SplitExecution list) jsmap"

definition put_plan :: "SplitPlan \<Rightarrow> split_store \<Rightarrow> split_store" where
  "put_plan plan s = s\<lparr>sps_plans := js_set (spp_id plan) plan (sps_plans s)\<rparr>"

definition findById :: "string \<Rightarrow> split_store \<Rightarrow> SplitPlan option" where
  "findById i s = js_get (sps_plans s) i"

interpretation split_plans: repository findById spp_id put_plan
  by unfold_locales (simp add: findById_def put_plan_def js.get_put)

definition store_list :: "string \<Rightarrow> SplitPlanFilter option \<Rightarrow> split_store \<Rightarrow> SplitPlan list" where
  "store_list tenantId flt s =
     sort_key (\<lambda>plan. (spp_createdAt plan, spp_id plan))
       (filter (\<lambda>plan. case flt of None \<Rightarrow> True
            | Some f \<Rightarrow> \<not> truthy (spf_merchantId f) \<or> spp_merchantId plan = spf_merchantId f)
       (filter (\<lambda>plan. case flt of None \<Rightarrow> True
            | Some f \<Rightarrow> (case spf_status f of None \<Rightarrow> True | Some st \<Rightarrow> spp_status plan = st))
       (filter (\<lambda>plan. spp_tenantId plan = tenantId) (js_values (sps_plans s)))))"

definition listByPlan :: "string \<Rightarrow> split_store \<Rightarrow> SplitExecution list" where
  "listByPlan planId s = (case js_get (sps_executions s) planId of Some xs \<Rightarrow> xs | None \<Rightarrow> [])"

definition createExecution :: "SplitExecution \<Rightarrow> split_store \<Rightarrow> split_store" where
  "createExecution execution s =
     s\<lparr>sps_executions := js_set (exe_planId execution)
         (listByPlan (exe_planId execution) s @ [execution]) (sps_executions s)\<rparr>"

subsection \<open>The service\<close>

record split_service =
  sv_store :: split_store
  sv_config :: SplitConfig
  sv_published :: "SplitEvent list"

definition publish_split :: "SplitEvent \<Rightarrow> split_service \<Rightarrow> split_service" where
  "publish_split event s = s\<lparr>sv_published := sv_published s @ [event]\<rparr>"

definition createPlan ::
  "string \<Rightarrow> CreateSplitPlanInput \<Rightarrow> int \<Rightarrow> (split_service, split_error, SplitPlan) op" where
  "createPlan uuid input now s =
     (case validateSplitPlan (sv_config s) input of
        Inl e \<Rightarrow> (Inl e, s)
      | Inr request \<Rightarrow>
          let plan = \<lparr>spp_id = uuid, spp_tenantId = nsp_tenantId request,
                spp_merchantId = nsp_merchantId request, spp_name = nsp_name request,
                spp_currency = nsp_currency request,
                spp_platformFeePercentage = nsp_platformFeePercentage request,
                spp_platformFeeBps = nsp_platformFeeBps request, spp_recipients = nsp_recipients request,
                spp_status = PlanActive, spp_metadata = nsp_metadata request,
                spp_createdAt = now, spp_updatedAt = now\<rparr>
          in (Inr plan, publish_split
                (PlanCreated uuid (nsp_tenantId request) now (length (nsp_recipients request)))
                (s\<lparr>sv_store := put_plan plan (sv_store s)\<rparr>)))"

definition getPlan :: "string \<Rightarrow> string \<Rightarrow> split_service \<Rightarrow> split_error + SplitPlan" where
  "getPlan tenantId planId s =
     (case findById planId (sv_store s) of
        None \<Rightarrow> Inl (PlanNotFound planId)
      | Some plan \<Rightarrow> if spp_tenantId plan \<noteq> tenantId then Inl (PlanNotFound planId) else Inr plan)"

definition listPlans ::
  "string \<Rightarrow> SplitPlanFilter option \<Rightarrow> split_service \<Rightarrow> split_error + SplitPlan list" where
  "listPlans tenantId flt s =
     (if tenantId = [] then Inl TenantIdRequired else Inr (store_list tenantId flt (sv_store s)))"

definition archivePlan ::
  "string \<Rightarrow> string \<Rightarrow> int \<Rightarrow> (split_service, split_error, SplitPlan) op" where
  "archivePlan tenantId planId now s =
     (case getPlan tenantId planId s of
        Inl e \<Rightarrow> (Inl e, s)
      | Inr plan \<Rightarrow>
          if spp_status plan = PlanArchived then (Inl PlanAlreadyArchived, s)
          else
            let plan' = plan\<lparr>spp_status := PlanArchived, spp_updatedAt := now\<rparr>
            in (Inr plan', publish_split (PlanArchivedEvent (spp_id plan') (spp_tenantId plan') now)
                  (s\<lparr>sv_store := put_plan plan' (sv_store s)\<rparr>)))"

definition previewAllocation ::
  "string \<Rightarrow> string \<Rightarrow> rat \<Rightarrow> split_service \<Rightarrow> split_error + SplitAllocation" where
  "previewAllocation tenantId planId totalAmount s =
     (case getPlan tenantId planId s of
        Inl e \<Rightarrow> Inl e
      | Inr plan \<Rightarrow>
          if totalAmount \<le> 0 then Inl TotalNotPositive
          else allocateSplit totalAmount (spp_platformFeePercentage plan) (spp_platformFeeBps plan)
                 (spp_recipients plan))"

record ExecuteSplitInput =
  esi_paymentId :: string
  esi_totalAmount :: rat
  esi_currency :: "string option"

definition execution_error :: "ExecuteSplitInput \<Rightarrow> SplitPlan \<Rightarrow> split_error option" where
  "execution_error input plan =
     (if spp_status plan = PlanArchived then Some CannotExecuteArchived
      else if esi_paymentId input = [] then Some PaymentIdRequired
      else if esi_totalAmount input \<le> 0 then Some TotalNotPositive
      else case esi_currency input of
          None \<Rightarrow> None
        | Some c \<Rightarrow>
            if c \<noteq> [] \<and> to_upper c \<noteq> spp_currency plan
            then Some (CurrencyMismatch (to_upper c) (spp_currency plan)) else None)"

definition executeSplit ::
  "string \<Rightarrow> string \<Rightarrow> string \<Rightarrow> ExecuteSplitInput \<Rightarrow> int \<Rightarrow> (split_service, split_error, SplitExecution) op" where
  "executeSplit uuid tenantId planId input now s =
     (case getPlan tenantId planId s of
        Inl e \<Rightarrow> (Inl e, s)
      | Inr plan \<Rightarrow>
          (case execution_error input plan of
             Some e \<Rightarrow> (Inl e, s)
           | None \<Rightarrow>
               (case allocateSplit (esi_totalAmount input) (spp_platformFeePercentage plan)
                       (spp_platformFeeBps plan) (spp_recipients plan) of
                  Inl e \<Rightarrow> (Inl e, s)
                | Inr allocation \<Rightarrow>
                    let execution = \<lparr>exe_id = uuid, exe_planId = spp_id plan,
                          exe_tenantId = spp_tenantId plan, exe_paymentId = esi_paymentId input,
                          exe_totalAmount = alc_totalAmount allocation, exe_currency = spp_currency plan,
                          exe_platformFeeAmount = alc_platformFeeAmount allocation,
                          exe_distributions = alc_shares allocation,
                          exe_allocatedMinor = alc_allocatedMinor allocation, exe_executedAt = now\<rparr>
                    in (Inr execution, publish_split
                          (SplitExecuted (spp_id plan) (spp_tenantId plan) now uuid (esi_paymentId input)
                             (alc_totalAmount allocation) (alc_allocatedMinor allocation))
                          (s\<lparr>sv_store := createExecution execution (sv_store s)\<rparr>)))))"

definition listExecutions ::
  "string \<Rightarrow> string \<Rightarrow> split_service \<Rightarrow> split_error + SplitExecution list" where
  "listExecutions tenantId planId s =
     (case getPlan tenantId planId s of
        Inl e \<Rightarrow> Inl e | Inr plan \<Rightarrow> Inr (listByPlan planId (sv_store s)))"

definition getExecutionSummary ::
  "string \<Rightarrow> string \<Rightarrow> split_service \<Rightarrow> split_error + SplitExecutionSummary" where
  "getExecutionSummary tenantId planId s =
     (case getPlan tenantId planId s of
        Inl e \<Rightarrow> Inl e
      | Inr plan \<Rightarrow>
          let executions = listByPlan planId (sv_store s)
          in Inr \<lparr>ses_planId = planId, ses_executionCount = length executions,
               ses_totalProcessed = roundCurrency (sum_list (map exe_totalAmount executions)),
               ses_totalPlatformFees = roundCurrency (sum_list (map exe_platformFeeAmount executions)),
               ses_skippedDistributions = sum_list (map (\<lambda>execution.
                 length (filter sas_skipped (exe_distributions execution))) executions)\<rparr>)"

end
