(* ===== verification/SplitProps.thy ===== *)
theory SplitProps
  imports SplitPayments
begin

text \<open>
  Properties of split payments: the largest-remainder allocation is exact and within one unit of
  every recipient's share, and each execution that the service has stored reconciles.
\<close>

lemma roundCurrency_round_cents: "roundCurrency = round_cents"
  by (simp add: roundCurrency_def round_cents_def fun_eq_iff)

lemma toBasisPoints_nonneg: "0 \<le> p \<Longrightarrow> 0 \<le> toBasisPoints p"
  by (simp add: toBasisPoints_def js_round_def)

lemma toBasisPoints_checked: "\<not> p < 0 \<Longrightarrow> 0 \<le> toBasisPoints p" "\<not> p \<le> 0 \<Longrightarrow> 0 \<le> toBasisPoints p"
  by (simp_all add: toBasisPoints_nonneg)

subsection \<open>Handing out the remainder\<close>

lemma sum_list_bump:
  "i < length xs \<Longrightarrow> sum_list (xs[i := xs ! i + 1]) = sum_list xs + (1 :: int)"
  by (induction xs arbitrary: i) (auto split: nat.splits)

lemma length_hand_out [simp]: "length (hand_out es r ms) = length ms"
  by (induction es r ms rule: hand_out.induct) auto

lemma hand_out_sum:
  "0 \<le> r \<Longrightarrow> r \<le> int (length es) \<Longrightarrow> set es \<subseteq> {..<length ms} \<Longrightarrow>
   sum_list (hand_out es r ms) = sum_list ms + r"
  by (induction es r ms rule: hand_out.induct) (auto simp: sum_list_bump)

lemma hand_out_other: "j \<notin> set es \<Longrightarrow> hand_out es r ms ! j = ms ! j"
  by (induction es r ms rule: hand_out.induct) auto

lemma hand_out_at_most_one:
  "distinct es \<Longrightarrow> set es \<subseteq> {..<length ms} \<Longrightarrow>
   ms ! j \<le> hand_out es r ms ! j \<and> hand_out es r ms ! j \<le> ms ! j + 1"
proof (induction es r ms rule: hand_out.induct)
  case (2 i entries remaining minors)
  then show ?case by (cases "i = j") (auto simp: hand_out_other)
qed simp

lemma sum_list_shares:
  "(W :: rat) \<noteq> 0 \<Longrightarrow> sum_list (map (\<lambda>w. of_int (T * w) / W) ws) = of_int T * of_int (sum_list ws) / W"
  by (induction ws) (simp_all add: field_simps)

lemma floor_sum_bounds:
  "of_int (sum_list (map floor xs)) \<le> sum_list xs \<and>
   sum_list xs \<le> of_int (sum_list (map floor xs)) + (of_nat (length xs) :: rat)"
proof (induction xs)
  case (Cons x xs)
  moreover have "of_int \<lfloor>x\<rfloor> \<le> x" "x \<le> of_int \<lfloor>x\<rfloor> + 1"
    using floor_correct [of x] by auto
  ultimately show ?case
    unfolding list.map sum_list.Cons of_int_add list.size of_nat_add of_nat_Suc by linarith
qed simp

lemma allocateMinorUnits_facts:
  assumes "0 < T" and "0 < sum_list ws"
  shows "length (allocateMinorUnits T ws) = length ws"
    and "sum_list (allocateMinorUnits T ws) = T"
    and "\<And>j. j < length ws \<Longrightarrow>
      \<lfloor>of_int (T * ws ! j) / of_int (sum_list ws) :: rat\<rfloor> \<le> allocateMinorUnits T ws ! j \<and>
      allocateMinorUnits T ws ! j \<le> \<lfloor>of_int (T * ws ! j) / of_int (sum_list ws) :: rat\<rfloor> + 1"
proof -
  define exact :: "rat list" where "exact = map (\<lambda>w. of_int (T * w) / of_int (sum_list ws)) ws"
  define minors where "minors = map floor exact"
  define es where "es = sort_key (\<lambda>i. - (exact ! i - of_int \<lfloor>exact ! i\<rfloor>)) [0..<length exact]"
  have out: "allocateMinorUnits T ws = hand_out es (T - sum_list minors) minors"
    using assms unfolding allocateMinorUnits_def Let_def exact_def minors_def es_def by simp
  have es: "distinct es" "set es = {..<length minors}" "length es = length ws" "length minors = length ws"
    by (auto simp: es_def minors_def exact_def)
  have "sum_list exact = of_int T"
    unfolding exact_def using sum_list_shares [of "of_int (sum_list ws)" T ws] assms by simp
  with floor_sum_bounds [of exact] have "of_int (sum_list minors) \<le> (of_int T :: rat)"
      "of_int T \<le> of_int (sum_list minors) + (of_int (int (length ws)) :: rat)"
    by (simp_all add: minors_def exact_def)
  then have rem: "0 \<le> T - sum_list minors" "T - sum_list minors \<le> int (length ws)"
    by (simp_all only: of_int_le_iff of_int_add [symmetric])
  show "length (allocateMinorUnits T ws) = length ws" by (simp add: out es)
  show "sum_list (allocateMinorUnits T ws) = T"
    unfolding out using rem es by (subst hand_out_sum) auto
  show "\<lfloor>of_int (T * ws ! j) / of_int (sum_list ws) :: rat\<rfloor> \<le> allocateMinorUnits T ws ! j \<and>
      allocateMinorUnits T ws ! j \<le> \<lfloor>of_int (T * ws ! j) / of_int (sum_list ws) :: rat\<rfloor> + 1"
    if "j < length ws" for j
  proof -
    have "minors ! j = \<lfloor>of_int (T * ws ! j) / of_int (sum_list ws) :: rat\<rfloor>"
      using that by (simp add: minors_def exact_def)
    with hand_out_at_most_one [of es minors j "T - sum_list minors"] es show ?thesis
      unfolding out by simp
  qed
qed

subsection \<open>The allocation of a payment\<close>

definition recipients_ok :: "int \<Rightarrow> SplitRecipient list \<Rightarrow> bool" where
  "recipients_ok feeBps recipients \<longleftrightarrow>
     0 \<le> feeBps \<and> list_all (\<lambda>r. 0 \<le> spr_shareBps r) recipients \<and>
     feeBps + sum_list (map spr_shareBps recipients) = BPS_TOTAL"

lemma normalize_recipients_ok:
  "normalize_recipients seen raws = Inr recipients \<Longrightarrow>
   list_all (\<lambda>r. 0 \<le> spr_shareBps r) recipients"
  by (induction raws arbitrary: seen recipients)
    (auto simp: Let_def intro: toBasisPoints_checked split: if_splits sum.splits)

lemma validateSplitPlan_ok:
  assumes "validateSplitPlan config input = Inr request"
  shows "recipients_ok (nsp_platformFeeBps request) (nsp_recipients request)"
  using assms normalize_recipients_ok [of "[]" "csp_recipients input"]
  by (auto simp: validateSplitPlan_def Let_def recipients_ok_def
      intro: toBasisPoints_checked split: if_splits sum.splits)

text \<open>What an allocation is: everything is handed out, and every amount is its minor units.\<close>

definition allocation_ok :: "SplitAllocation \<Rightarrow> bool" where
  "allocation_ok a \<longleftrightarrow>
     alc_platformFeeMinor a + sum_list (map sas_amountMinor (alc_shares a)) = alc_totalMinor a \<and>
     alc_allocatedMinor a = alc_totalMinor a \<and> alc_unallocatedMinor a = 0 \<and>
     0 \<le> alc_platformFeeMinor a \<and> alc_platformFeeAmount a = of_int (alc_platformFeeMinor a) / 100 \<and>
     list_all (\<lambda>sh. 0 \<le> sas_amountMinor sh \<and> sas_amount sh = of_int (sas_amountMinor sh) / 100)
       (alc_shares a)"

lemma allocation_share_simps [simp]:
  "index + 1 < length minors \<Longrightarrow> sas_amountMinor (allocation_share minors index r) = minors ! (index + 1)"
  "sas_amount (allocation_share minors index r) = of_int (sas_amountMinor (allocation_share minors index r)) / 100"
  by (simp_all add: allocation_share_def Let_def roundCurrency_round_cents)

lemma allocateSplit_ok:
  assumes "allocateSplit amt feePct feeBps recipients = Inr a" and "recipients_ok feeBps recipients"
  shows "allocation_ok a \<and> alc_totalMinor a = js_round (amt * 100) \<and> alc_totalAmount a = roundCurrency amt"
proof -
  define T where "T = js_round (amt * 100)"
  define ws where "ws = feeBps # map spr_shareBps recipients"
  define ms where "ms = allocateMinorUnits T ws"
  have T: "0 < T" using assms(1) by (auto simp: allocateSplit_def Let_def T_def split: if_splits)
  have W: "sum_list ws = BPS_TOTAL" "0 < sum_list ws"
    using assms(2) by (auto simp: recipients_ok_def ws_def BPS_TOTAL_def)
  note facts = allocateMinorUnits_facts [OF T W(2), folded ms_def]
  have len: "length ms = Suc (length recipients)" using facts(1) by (simp add: ws_def)
  have nonneg: "0 \<le> ms ! j" if "j < length ms" for j
  proof -
    have "0 \<le> ws ! j"
      using that len assms(2)
      by (cases j) (auto simp: ws_def recipients_ok_def list_all_length)
    then have "0 \<le> \<lfloor>of_int (T * ws ! j) / of_int (sum_list ws) :: rat\<rfloor>"
      using T W(2) by simp
    moreover have "j < length ws" using that len by (simp add: ws_def)
    ultimately show ?thesis using facts(3) [of j] by linarith
  qed
  define shares where "shares = map2 (allocation_share ms) [0..<length recipients] recipients"
  have minors: "map sas_amountMinor shares = tl ms"
    using len by (intro nth_equalityI) (simp_all add: shares_def nth_tl)
  have hd: "(case ms of m # _ \<Rightarrow> m | [] \<Rightarrow> 0) = hd ms" using len by (cases ms) auto
  have a: "alc_platformFeeMinor a = hd ms" "alc_shares a = shares" "alc_totalMinor a = T"
      "alc_allocatedMinor a = hd ms + sum_list (map sas_amountMinor shares)"
      "alc_unallocatedMinor a = T - (hd ms + sum_list (map sas_amountMinor shares))"
      "alc_platformFeeAmount a = of_int (hd ms) / 100" "alc_totalAmount a = roundCurrency amt"
    using assms(1) len
    by (auto simp: allocateSplit_def Let_def T_def [symmetric] ws_def [symmetric] ms_def [symmetric]
        shares_def [symmetric] hd roundCurrency_round_cents simp del: map_map split: if_splits)
  have sum: "hd ms + sum_list (tl ms) = T" using facts(2) len by (cases ms) auto
  have "list_all (\<lambda>sh. 0 \<le> sas_amountMinor sh \<and> sas_amount sh = of_int (sas_amountMinor sh) / 100) shares"
    using len by (auto simp: list_all_length shares_def intro: nonneg)
  moreover have "0 \<le> hd ms" using nonneg [of 0] len by (cases ms) auto
  ultimately show ?thesis
    using sum by (auto simp: allocation_ok_def a minors T_def)
qed

subsection \<open>Runs of the service\<close>

definition split_init :: "SplitConfig \<Rightarrow> split_service" where
  "split_init config =
     \<lparr>sv_store = \<lparr>sps_plans = [], sps_executions = []\<rparr>, sv_config = config, sv_published = []\<rparr>"

inductive split_run :: "split_service \<Rightarrow> bool" where
  sr_init: "split_run (split_init config)"
| sr_create: "split_run s \<Longrightarrow> findById uuid (sv_store s) = None \<Longrightarrow> split_run (snd (createPlan uuid input now s))"
| sr_archive: "split_run s \<Longrightarrow> split_run (snd (archivePlan tenant pid now s))"
| sr_execute: "split_run s \<Longrightarrow> split_run (snd (executeSplit uuid tenant pid einput now s))"

definition plan_ok :: "string \<Rightarrow> SplitPlan \<Rightarrow> bool" where
  "plan_ok i plan \<longleftrightarrow> spp_id plan = i \<and> recipients_ok (spp_platformFeeBps plan) (spp_recipients plan)"

text \<open>An execution hands out its whole amount, which is that of the payment up to one cent.\<close>

definition reconciles :: "SplitExecution \<Rightarrow> bool" where
  "reconciles e \<longleftrightarrow>
     exe_platformFeeAmount e + sum_list (map sas_amount (exe_distributions e)) =
       of_int (exe_allocatedMinor e) / 100 \<and>
     0 \<le> exe_platformFeeAmount e \<and> list_all (\<lambda>sh. 0 \<le> sas_amount sh) (exe_distributions e) \<and>
     exe_totalAmount e \<in> {of_int (exe_allocatedMinor e) / 100, of_int (exe_allocatedMinor e + 1) / 100}"

definition split_inv :: "split_service \<Rightarrow> bool" where
  "split_inv s \<longleftrightarrow> js_all plan_ok (sps_plans (sv_store s)) \<and>
     js_all (\<lambda>pid xs. \<forall>e\<in>set xs. reconciles e \<and> exe_planId e = pid \<and>
         (\<exists>plan. findById pid (sv_store s) = Some plan \<and> spp_tenantId plan = exe_tenantId e))
       (sps_executions (sv_store s))"

lemma roundCurrency_js_round:
  "roundCurrency v \<in> {of_int (js_round (v * 100)) / 100, of_int (js_round (v * 100) + 1) / 100}"
proof -
  define d :: rat where "d = 1 / 2 ^ 52 * 100"
  have d: "0 \<le> d" "d \<le> 1" by (simp_all add: d_def)
  have "(v + 1 / 2 ^ 52) * 100 + 1 / 2 = v * 100 + 1 / 2 + d" by (simp add: d_def)
  moreover have "\<lfloor>v * 100 + 1 / 2\<rfloor> \<le> \<lfloor>v * 100 + 1 / 2 + d\<rfloor>"
    using d by (intro floor_mono) simp
  moreover have "\<lfloor>v * 100 + 1 / 2 + d\<rfloor> \<le> \<lfloor>v * 100 + 1 / 2\<rfloor> + 1"
    using d by linarith
  ultimately have "\<lfloor>(v + 1 / 2 ^ 52) * 100 + 1 / 2\<rfloor> \<in> {\<lfloor>v * 100 + 1 / 2\<rfloor>, \<lfloor>v * 100 + 1 / 2\<rfloor> + 1}"
    by (simp only: insert_iff empty_iff) linarith
  then show ?thesis unfolding roundCurrency_def js_round_def by auto
qed

lemma sum_amounts:
  "list_all (\<lambda>sh. sas_amount sh = of_int (sas_amountMinor sh) / 100) shares \<Longrightarrow>
   sum_list (map sas_amount shares) = of_int (sum_list (map sas_amountMinor shares)) / 100"
  by (induction shares) (simp_all add: add_divide_distrib)

lemma executeSplit_cases:
  assumes "split_inv s"
  shows "(\<exists>er. executeSplit uuid tenant pid input now s = (Inl er, s)) \<or>
    (\<exists>e plan. executeSplit uuid tenant pid input now s =
        (Inr e, publish_split (SplitExecuted pid tenant now uuid (esi_paymentId input) (exe_totalAmount e)
            (exe_allocatedMinor e)) (s\<lparr>sv_store := createExecution e (sv_store s)\<rparr>)) \<and>
      reconciles e \<and> exe_planId e = pid \<and> exe_tenantId e = tenant \<and> exe_paymentId e = esi_paymentId input \<and>
      exe_allocatedMinor e = js_round (esi_totalAmount input * 100) \<and>
      exe_totalAmount e = roundCurrency (esi_totalAmount input) \<and>
      findById pid (sv_store s) = Some plan \<and> spp_tenantId plan = tenant \<and> spp_status plan = PlanActive)"
proof (cases "getPlan tenant pid s")
  case (Inr plan)
  then have plan: "findById pid (sv_store s) = Some plan" "spp_tenantId plan = tenant"
    by (auto simp: getPlan_def split: option.splits if_splits)
  then have ok: "plan_ok pid plan" using assms by (auto simp: split_inv_def findById_def dest: js.entries_get)
  show ?thesis
  proof (cases "execution_error input plan")
    case None
    then have active: "spp_status plan = PlanActive"
      by (cases "spp_status plan") (auto simp: execution_error_def)
    show ?thesis
    proof (cases "allocateSplit (esi_totalAmount input) (spp_platformFeePercentage plan)
        (spp_platformFeeBps plan) (spp_recipients plan)")
      case alloc: (Inr a)
      note a = allocateSplit_ok [OF alloc] ok [unfolded plan_ok_def]
      define e where "e = \<lparr>exe_id = uuid, exe_planId = spp_id plan,
          exe_tenantId = spp_tenantId plan, exe_paymentId = esi_paymentId input,
          exe_totalAmount = alc_totalAmount a, exe_currency = spp_currency plan,
          exe_platformFeeAmount = alc_platformFeeAmount a, exe_distributions = alc_shares a,
          exe_allocatedMinor = alc_allocatedMinor a, exe_executedAt = now\<rparr>"
      have "list_all (\<lambda>sh. sas_amount sh = of_int (sas_amountMinor sh) / 100) (alc_shares a)"
        using a by (auto simp: allocation_ok_def list_all_iff)
      moreover have nonneg: "list_all (\<lambda>sh. 0 \<le> sas_amount sh) (alc_shares a)"
        using a by (auto simp: allocation_ok_def list_all_iff)
      ultimately have "reconciles e"
        using a sum_amounts [of "alc_shares a"] roundCurrency_js_round [of "esi_totalAmount input"]
          nonneg
        by (auto simp: reconciles_def e_def allocation_ok_def add_divide_distrib [symmetric]
            simp flip: of_int_add)
      moreover have "executeSplit uuid tenant pid input now s =
          (Inr e, publish_split (SplitExecuted pid tenant now uuid (esi_paymentId input) (exe_totalAmount e)
            (exe_allocatedMinor e)) (s\<lparr>sv_store := createExecution e (sv_store s)\<rparr>))"
        using plan a by (simp add: executeSplit_def Inr None alloc Let_def e_def)
      ultimately show ?thesis
        using plan active a by (intro disjI2 exI [of _ e] exI [of _ plan]) (simp add: e_def allocation_ok_def)
    qed (simp add: executeSplit_def Inr None)
  qed (simp add: executeSplit_def Inr)
qed (simp add: executeSplit_def)

lemma split_store_simps [simp]:
  "sv_store (publish_split ev s) = sv_store s" "sv_config (publish_split ev s) = sv_config s"
  "sps_plans (put_plan plan st) = js_set (spp_id plan) plan (sps_plans st)"
  "sps_executions (put_plan plan st) = sps_executions st"
  "sps_plans (createExecution e st) = sps_plans st"
  "sps_executions (createExecution e st) =
     js_set (exe_planId e) (listByPlan (exe_planId e) st @ [e]) (sps_executions st)"
  by (simp_all add: publish_split_def put_plan_def createExecution_def)

lemma findById_simps [simp]:
  "findById i (createExecution e st) = findById i st"
  "findById i (put_plan plan st) = (if i = spp_id plan then Some plan else findById i st)"
  by (simp add: findById_def, rule split_plans.fetch_save)

lemma listByPlan_inv:
  "split_inv s \<Longrightarrow> e \<in> set (listByPlan pid (sv_store s)) \<Longrightarrow> reconciles e \<and> exe_planId e = pid \<and>
     (\<exists>plan. findById pid (sv_store s) = Some plan \<and> spp_tenantId plan = exe_tenantId e)"
  by (cases "js_get (sps_executions (sv_store s)) pid")
    (auto simp: split_inv_def listByPlan_def entries_sat_def)

lemma createPlan_inv:
  assumes inv: "split_inv s" and fresh: "findById uuid (sv_store s) = None"
  shows "split_inv (snd (createPlan uuid input now s))"
proof (cases "validateSplitPlan (sv_config s) input")
  case (Inr request)
  note ok = validateSplitPlan_ok [OF Inr]
  show ?thesis
    using inv fresh ok unfolding createPlan_def Inr split_inv_def Let_def
    by (fastforce simp: plan_ok_def entries_sat_def)
qed (simp add: createPlan_def inv)

lemma archivePlan_inv:
  assumes inv: "split_inv s"
  shows "split_inv (snd (archivePlan tenant pid now s))"
proof (cases "getPlan tenant pid s")
  case (Inr plan)
  then have plan: "js_get (sps_plans (sv_store s)) pid = Some plan"
    by (auto simp: getPlan_def findById_def split: option.splits if_splits)
  then have "plan_ok pid plan" using inv by (auto simp: split_inv_def entries_sat_def)
  then show ?thesis
    using inv plan unfolding archivePlan_def Inr split_inv_def Let_def
    by (fastforce simp: plan_ok_def entries_sat_def findById_def)
qed (simp add: archivePlan_def inv)

lemma executeSplit_inv:
  assumes inv: "split_inv s"
  shows "split_inv (snd (executeSplit uuid tenant pid input now s))"
  using executeSplit_cases [OF inv, of uuid tenant pid input now]
proof (elim disjE exE conjE)
  fix e plan
  assume eq: "executeSplit uuid tenant pid input now s =
        (Inr e, publish_split (SplitExecuted pid tenant now uuid (esi_paymentId input) (exe_totalAmount e)
            (exe_allocatedMinor e)) (s\<lparr>sv_store := createExecution e (sv_store s)\<rparr>))"
    and e: "reconciles e" "exe_planId e = pid" "exe_tenantId e = tenant"
      "findById pid (sv_store s) = Some plan" "spp_tenantId plan = tenant"
  have "\<forall>e'\<in>set (listByPlan pid (sv_store s) @ [e]). reconciles e' \<and> exe_planId e' = pid \<and>
     (\<exists>plan. findById pid (sv_store s) = Some plan \<and> spp_tenantId plan = exe_tenantId e')"
    using e listByPlan_inv [OF inv, of _ pid] by fastforce
  then show ?thesis
    using inv e(2) unfolding eq split_inv_def by (auto simp: entries_sat_def)
qed (simp add: inv)

lemma split_run_inv: "split_run s \<Longrightarrow> split_inv s"
proof (induction rule: split_run.induct)
  case (sr_init config)
  then show ?case by (simp add: split_inv_def split_init_def js.entries_empty)
qed (simp_all add: createPlan_inv archivePlan_inv executeSplit_inv)

subsection \<open>A plan to evaluate\<close>

definition demo_plan_input :: CreateSplitPlanInput where
  "demo_plan_input = \<lparr>csp_tenantId = ''t'', csp_recipients =
      [\<lparr>sri_recipientId = ''a'', sri_walletAddress = ''wa'', sri_percentage = 60, sri_minimumAmount = None, sri_label = None\<rparr>,
       \<lparr>sri_recipientId = ''b'', sri_walletAddress = ''wb'', sri_percentage = 30, sri_minimumAmount = Some 1, sri_label = None\<rparr>],
     csp_platformFeePercentage = Some 10, csp_currency = Some ''USD'', csp_merchantId = None, csp_name = None,
     csp_metadata = None\<rparr>"

definition split_demo :: split_service where
  "split_demo = snd (createPlan ''p1'' demo_plan_input 5 (split_init DEFAULT_SPLIT_CONFIG))"

lemma split_demo_run: "split_run split_demo"
  unfolding split_demo_def by (rule sr_create [OF sr_init]) (simp add: findById_def split_init_def)

lemma js_round_numeral [simp]: "js_round (numeral n) = numeral n"
  using js_round_of_int [of "numeral n"] by (simp del: js_round_of_int)

lemma split_demo_plan: "\<exists>plan. getPlan ''t'' ''p1'' split_demo = Inr plan \<and> spp_status plan = PlanActive \<and>
    spp_currency plan = ''USD'' \<and> spp_platformFeeBps plan = 1000 \<and> map spr_shareBps (spp_recipients plan) = [6000, 3000]"
  by (simp add: split_demo_def createPlan_def validateSplitPlan_def demo_plan_input_def split_init_def
      DEFAULT_SPLIT_CONFIG_def Let_def roundCurrency_round_cents toBasisPoints_def BPS_TOTAL_def
      to_upper_def upper_char_def getPlan_def)

subsection \<open>The properties\<close>

text \<open>
  C8: No money is created or lost by the allocation. The minor units handed out sum to exactly the
  total, and every recipient gets its exact share rounded down, or one unit more.
\<close>
theorem allocateMinorUnits_exact:
  assumes "0 < totalMinor" and "0 < sum_list weights"
  shows "length (allocateMinorUnits totalMinor weights) = length weights \<and>
    sum_list (allocateMinorUnits totalMinor weights) = totalMinor \<and>
    list_all2 (\<lambda>weight minor.
        \<lfloor>of_int (totalMinor * weight) / of_int (sum_list weights) :: rat\<rfloor> \<le> minor \<and>
        minor \<le> \<lfloor>of_int (totalMinor * weight) / of_int (sum_list weights) :: rat\<rfloor> + 1)
      weights (allocateMinorUnits totalMinor weights)"
  using allocateMinorUnits_facts [OF assms] by (simp add: list_all2_conv_all_nth)

theorem allocateMinorUnits_exact_witness:
  "sum_list (allocateMinorUnits 100 [3333, 3333, 3334]) = 100"
  using allocateMinorUnits_exact [of 100 "[3333, 3333, 3334]"] by simp

text \<open>
  Every stored execution reconciles. Whatever calls the service has handled, an execution listed
  for a plan belongs to that plan and its tenant; its platform fee and the amounts of its
  recipients, none negative, sum to exactly the minor units it reports as allocated, which are the
  amount of the payment up to one cent.
\<close>
lemma split_executions_reconcile:
  assumes "split_run s" and "listExecutions tenant planId s = Inr es"
  shows "list_all (\<lambda>e. exe_planId e = planId \<and> exe_tenantId e = tenant \<and>
      0 \<le> exe_platformFeeAmount e \<and> list_all (\<lambda>sh. 0 \<le> sas_amount sh) (exe_distributions e) \<and>
      exe_platformFeeAmount e + sum_list (map sas_amount (exe_distributions e)) =
        of_int (exe_allocatedMinor e) / 100 \<and>
      \<bar>exe_totalAmount e - of_int (exe_allocatedMinor e) / 100\<bar> \<le> 1 / 100) es"
proof -
  obtain plan where plan: "findById planId (sv_store s) = Some plan" "spp_tenantId plan = tenant"
    and es: "es = listByPlan planId (sv_store s)"
    using assms(2) by (auto simp: listExecutions_def getPlan_def split: option.splits if_splits)
  show ?thesis
    unfolding list_all_iff es
    using listByPlan_inv [OF split_run_inv [OF assms(1)], of _ planId] plan
    by (fastforce simp: reconciles_def list_all_iff add_divide_distrib)
qed

lemma split_executions_reconcile_witness:
  "case listExecutions ''t'' ''p1'' (snd (executeSplit ''e1'' ''t'' ''p1''
      \<lparr>esi_paymentId = ''pay'', esi_totalAmount = 10, esi_currency = None\<rparr> 9 split_demo)) of
     Inl _ \<Rightarrow> False
   | Inr es \<Rightarrow> length es = 1 \<and> list_all (\<lambda>e. exe_platformFeeAmount e +
       sum_list (map sas_amount (exe_distributions e)) = of_int (exe_allocatedMinor e) / 100) es"
proof -
  let ?in = "\<lparr>esi_paymentId = ''pay'', esi_totalAmount = 10, esi_currency = None\<rparr>"
  let ?s = "snd (executeSplit ''e1'' ''t'' ''p1'' ?in 9 split_demo)"
  have none: "listByPlan ''p1'' (sv_store split_demo) = []"
    by (simp add: split_demo_def createPlan_def split_init_def listByPlan_def put_plan_def Let_def split: sum.split)
  obtain plan where plan: "getPlan ''t'' ''p1'' split_demo = Inr plan" "spp_status plan = PlanActive"
    using split_demo_plan by blast
  then obtain a where a: "allocateSplit 10 (spp_platformFeePercentage plan) (spp_platformFeeBps plan)
      (spp_recipients plan) = Inr a"
    by (simp add: allocateSplit_def Let_def)
  have "execution_error ?in plan = None" using plan by (simp add: execution_error_def)
  with plan a have "\<not> isl (fst (executeSplit ''e1'' ''t'' ''p1'' ?in 9 split_demo))"
    by (simp add: executeSplit_def Let_def)
  with executeSplit_cases [OF split_run_inv [OF split_demo_run], of "''e1''" "''t''" "''p1''" ?in 9]
  obtain e p ev where
      "executeSplit ''e1'' ''t'' ''p1'' ?in 9 split_demo =
         (Inr e, publish_split ev (split_demo\<lparr>sv_store := createExecution e (sv_store split_demo)\<rparr>))"
      and e: "exe_planId e = ''p1''" "findById ''p1'' (sv_store split_demo) = Some p" "spp_tenantId p = ''t''"
    by (elim disjE exE conjE) (simp, blast)
  then have "?s = publish_split ev (split_demo\<lparr>sv_store := createExecution e (sv_store split_demo)\<rparr>)"
    by simp
  with e have list: "listExecutions ''t'' ''p1'' ?s = Inr [e]"
    using none by (simp add: listExecutions_def getPlan_def listByPlan_def)
  have "split_run ?s" by (rule sr_execute [OF split_demo_run])
  from split_executions_reconcile [OF this list] show ?thesis by (simp add: list)
qed

subsection \<open>Further facts\<close>

text \<open>A payment in whole cents is distributed completely.\<close>

lemma execute_whole_cents:
  assumes "split_run s" and "executeSplit uuid tenant pid input now s = (Inr e, s')"
    and "cents (esi_totalAmount input)"
  shows "exe_totalAmount e = esi_totalAmount input \<and>
    exe_platformFeeAmount e + sum_list (map sas_amount (exe_distributions e)) = esi_totalAmount input"
proof -
  obtain n where n: "esi_totalAmount input = of_int n / 100" using assms(3) by (auto simp: cents_def)
  have "reconciles e" "exe_allocatedMinor e = js_round (esi_totalAmount input * 100)"
      "exe_totalAmount e = roundCurrency (esi_totalAmount input)"
    using executeSplit_cases [OF split_run_inv [OF assms(1)], of uuid tenant pid input now] assms(2) by auto
  then show ?thesis by (simp add: reconciles_def roundCurrency_round_cents n)
qed

text \<open>An amount just below half a cent is rounded up in the record and down in the distribution.\<close>

lemma sub_cent_amount_disagrees:
  "roundCurrency (201 / 200 - 1 / 2 ^ 60) = 101 / 100 \<and> js_round ((201 / 200 - 1 / 2 ^ 60) * 100) = 100"
proof -
  have "\<lfloor>(201 / 200 - 1 / 2 ^ 60 + 1 / 2 ^ 52) * 100 + 1 / 2 :: rat\<rfloor> = 101"
    by (rule floor_unique) simp_all
  moreover have "\<lfloor>(201 / 200 - 1 / 2 ^ 60) * 100 + 1 / 2 :: rat\<rfloor> = 100"
    by (rule floor_unique) simp_all
  ultimately show ?thesis unfolding roundCurrency_def js_round_def by simp
qed

text \<open>A positive amount below half a cent passes the check and makes the allocation throw.\<close>

lemma tiny_amount_throws:
  assumes "getPlan tenant pid s = Inr plan" and "0 < amt" and "amt < 1 / 200"
  shows "previewAllocation tenant pid amt s = Inl AllocationThrew"
proof -
  have "js_round (amt * 100) = 0"
    unfolding js_round_def by (rule floor_unique) (use assms(2,3) in simp_all)
  then show ?thesis using assms by (simp add: previewAllocation_def allocateSplit_def)
qed

text \<open>The same payment can be executed again.\<close>

lemma payment_executed_twice:
  assumes "split_run s" and "executeSplit u1 tenant pid input now s = (Inr e1, s1)"
  shows "\<exists>e2 s2. executeSplit u2 tenant pid input now' s1 = (Inr e2, s2) \<and>
    exe_paymentId e2 = exe_paymentId e1 \<and> exe_totalAmount e2 = exe_totalAmount e1"
proof -
  obtain plan where s1: "findById pid (sv_store s) = Some plan" "spp_tenantId plan = tenant"
      "findById pid (sv_store s1) = Some plan"
    using executeSplit_cases [OF split_run_inv [OF assms(1)], of u1 tenant pid input now] assms(2) by auto
  then have "getPlan tenant pid s = Inr plan" "getPlan tenant pid s1 = Inr plan"
    by (simp_all add: getPlan_def)
  with assms(2) show ?thesis
    by (auto simp: executeSplit_def Let_def split: option.splits sum.splits)
qed

end
