(* ===== verification/Billing.thy ===== *)
theory Billing
  imports Js Money BaseService
begin

text \<open>
  \<open>backend/src/services/billing/\<close>: the calculations behind subscription billing. Rounding of money
  (\<open>money.ts\<close>), pricing of metered usage (\<open>metered-pricing.ts\<close>), proration of plan changes
  (\<open>proration.ts\<close>), promo codes (\<open>discounts.ts\<close>) and the retry schedule of failed payments
  (\<open>dunning.ts\<close>). Numbers are rationals, so they are finite, and time stamps are milliseconds.
  Inputs have their declared types. A text shown to people is kept as what it is built from.
\<close>

subsection \<open>Money\<close>

definition roundMoney :: "rat \<Rightarrow> nat \<Rightarrow> rat" where
  "roundMoney v decimals = of_int (js_round ((v + 1 / 2 ^ 52) * 10 ^ decimals)) / 10 ^ decimals"

subsection \<open>Metered pricing\<close>

datatype MeterAggregation = AggSum | AggMax | AggLast
datatype MeteredPricingModel = PerUnit | Package | Graduated | Volume

record MeterTier =
  mt_upTo :: "rat option"
  mt_unitPrice :: rat
  mt_flatFee :: "rat option"

record MeteredPrice =
  mp_metric :: string
  mp_displayName :: "string option"
  mp_aggregation :: MeterAggregation
  mp_model :: MeteredPricingModel
  mp_includedUnits :: rat
  mp_unitPrice :: "rat option"
  mp_packageSize :: "rat option"
  mp_packagePrice :: "rat option"
  mp_tiers :: "MeterTier list option"

record MeterReading =
  mr_sum :: rat
  mr_max :: rat
  mr_last :: rat
  mr_count :: nat

record MeterCharge =
  mc_metric :: string
  mc_description :: string
  mc_aggregation :: MeterAggregation
  mc_model :: MeteredPricingModel
  mc_quantity :: rat
  mc_includedUnits :: rat
  mc_billableUnits :: rat
  mc_amount :: rat

definition is_integer :: "rat \<Rightarrow> bool" where
  "is_integer x \<longleftrightarrow> of_int \<lfloor>x\<rfloor> = x"

abbreviation or_zero :: "rat option \<Rightarrow> rat" where
  "or_zero x \<equiv> case x of Some v \<Rightarrow> v | None \<Rightarrow> 0"

text \<open>The loop over the tiers; \<open>previous\<close> is the bound of the tier before.\<close>

fun tiers_error :: "string \<Rightarrow> rat \<Rightarrow> MeterTier list \<Rightarrow> string option" where
  "tiers_error metric previous [] = None"
| "tiers_error metric previous (tier # tiers) =
     (if \<not> mt_unitPrice tier \<ge> 0
      then Some (''Meter '' @ metric @ '': tier unitPrice cannot be negative'')
      else if or_zero (mt_flatFee tier) < 0
      then Some (''Meter '' @ metric @ '': tier flatFee cannot be negative'')
      else case mt_upTo tier of
          None \<Rightarrow>
            if tiers \<noteq> [] then Some (''Meter '' @ metric @ '': only the last tier can be open-ended'')
            else tiers_error metric previous tiers
        | Some upTo \<Rightarrow>
            if tiers = [] then Some (''Meter '' @ metric @ '': the last tier must be open-ended (upTo: null)'')
            else if \<not> upTo > previous
            then Some (''Meter '' @ metric @ '': tiers must be sorted by ascending upTo'')
            else tiers_error metric upTo tiers)"

definition validateTiers :: "string \<Rightarrow> MeterTier list option \<Rightarrow> string option" where
  "validateTiers metric tiers =
     (case tiers of
        None \<Rightarrow> Some (''Meter '' @ metric @ '': tiered pricing requires at least one tier'')
      | Some ts \<Rightarrow>
          if ts = [] then Some (''Meter '' @ metric @ '': tiered pricing requires at least one tier'')
          else tiers_error metric 0 ts)"

definition validateMeteredPrice :: "MeteredPrice \<Rightarrow> string option" where
  "validateMeteredPrice price =
     (if js_trim (mp_metric price) = [] then Some ''Meter metric is required''
      else if \<not> mp_includedUnits price \<ge> 0
      then Some (''Meter '' @ mp_metric price @ '': includedUnits cannot be negative'')
      else case mp_model price of
          PerUnit \<Rightarrow>
            (case mp_unitPrice price of
               None \<Rightarrow> Some (''Meter '' @ mp_metric price @ '': per_unit pricing requires a non-negative unitPrice'')
             | Some p \<Rightarrow> if p \<ge> 0 then None
                 else Some (''Meter '' @ mp_metric price @ '': per_unit pricing requires a non-negative unitPrice''))
        | Package \<Rightarrow>
            if \<not> (case mp_packageSize price of Some n \<Rightarrow> is_integer n \<and> n > 0 | None \<Rightarrow> False)
            then Some (''Meter '' @ mp_metric price @ '': packageSize must be a positive integer'')
            else if \<not> (case mp_packagePrice price of Some p \<Rightarrow> p \<ge> 0 | None \<Rightarrow> False)
            then Some (''Meter '' @ mp_metric price @ '': packagePrice cannot be negative'')
            else None
        | Graduated \<Rightarrow> validateTiers (mp_metric price) (mp_tiers price)
        | Volume \<Rightarrow> validateTiers (mp_metric price) (mp_tiers price))"

definition applyReading :: "MeterReading option \<Rightarrow> rat \<Rightarrow> MeterReading" where
  "applyReading reading quantity =
     (case reading of
        None \<Rightarrow> \<lparr>mr_sum = quantity, mr_max = quantity, mr_last = quantity, mr_count = 1\<rparr>
      | Some r \<Rightarrow> \<lparr>mr_sum = mr_sum r + quantity, mr_max = max (mr_max r) quantity,
                  mr_last = quantity, mr_count = mr_count r + 1\<rparr>)"

definition aggregateReading :: "MeterReading option \<Rightarrow> MeterAggregation \<Rightarrow> rat" where
  "aggregateReading reading aggregation =
     (case reading of
        None \<Rightarrow> 0
      | Some r \<Rightarrow> (case aggregation of AggSum \<Rightarrow> mr_sum r | AggMax \<Rightarrow> mr_max r | AggLast \<Rightarrow> mr_last r))"

text \<open>The loop of \<open>priceGraduated\<close>; an open-ended tier has no ceiling.\<close>

fun graduated_loop :: "rat \<Rightarrow> rat \<Rightarrow> MeterTier list \<Rightarrow> rat" where
  "graduated_loop remaining cursor [] = 0"
| "graduated_loop remaining cursor (tier # tiers) =
     (if remaining \<le> 0 then 0
      else
        let span = (case mt_upTo tier of None \<Rightarrow> remaining | Some upTo \<Rightarrow> min remaining (upTo - cursor))
        in if span \<le> 0 then graduated_loop remaining cursor tiers
           else span * mt_unitPrice tier + or_zero (mt_flatFee tier)
             + graduated_loop (remaining - span) (cursor + span) tiers)"

definition priceGraduated :: "MeterTier list \<Rightarrow> rat \<Rightarrow> rat" where
  "priceGraduated tiers units = graduated_loop units 0 tiers"

text \<open>With no tier at all the code fails on \<open>undefined\<close>; validated volume prices have tiers.\<close>

definition priceVolume :: "MeterTier list \<Rightarrow> rat \<Rightarrow> rat" where
  "priceVolume tiers units =
     (let tier = (case find (\<lambda>t. case mt_upTo t of None \<Rightarrow> True | Some u \<Rightarrow> units \<le> u) tiers of
          Some t \<Rightarrow> t | None \<Rightarrow> last tiers)
      in units * mt_unitPrice tier + or_zero (mt_flatFee tier))"

definition metered_amount :: "MeteredPrice \<Rightarrow> rat \<Rightarrow> rat" where
  "metered_amount price billableUnits =
     (if billableUnits > 0
      then case mp_model price of
          PerUnit \<Rightarrow> billableUnits * or_zero (mp_unitPrice price)
        | Package \<Rightarrow>
            of_int \<lceil>billableUnits / (case mp_packageSize price of Some n \<Rightarrow> n | None \<Rightarrow> 1)\<rceil>
              * or_zero (mp_packagePrice price)
        | Graduated \<Rightarrow> priceGraduated (case mp_tiers price of Some ts \<Rightarrow> ts | None \<Rightarrow> []) billableUnits
        | Volume \<Rightarrow> priceVolume (case mp_tiers price of Some ts \<Rightarrow> ts | None \<Rightarrow> []) billableUnits
      else 0)"

definition priceMeteredUsage :: "MeteredPrice \<Rightarrow> rat \<Rightarrow> MeterCharge" where
  "priceMeteredUsage price quantity =
     (let billableUnits = max 0 (quantity - mp_includedUnits price)
      in \<lparr>mc_metric = mp_metric price,
          mc_description = (case mp_displayName price of Some n \<Rightarrow> n | None \<Rightarrow> mp_metric price),
          mc_aggregation = mp_aggregation price, mc_model = mp_model price, mc_quantity = quantity,
          mc_includedUnits = mp_includedUnits price, mc_billableUnits = billableUnits,
          mc_amount = roundMoney (metered_amount price billableUnits) 2\<rparr>)"

subsection \<open>Proration\<close>

datatype ProrationBehavior = CreateProrations | AlwaysInvoice | NoProration

record PlanSegment =
  seg_planId :: string
  seg_startedAt :: int

record SegmentShare =
  shr_planId :: string
  shr_startedAt :: int
  shr_endedAt :: int
  shr_fraction :: rat

record ProrationQuote =
  quo_fractionElapsed :: rat
  quo_fractionRemaining :: rat
  quo_unusedCredit :: rat
  quo_remainingCharge :: rat
  quo_net :: rat

text \<open>\<open>None\<close> is the \<open>RangeError\<close> for a period without positive length.\<close>

definition remainingFraction :: "int \<Rightarrow> int \<Rightarrow> int \<Rightarrow> rat option" where
  "remainingFraction periodStart periodEnd atTime =
     (if \<not> periodEnd - periodStart > 0 then None
      else let clamped = min (max atTime periodStart) periodEnd
           in Some (of_int (periodEnd - clamped) / of_int (periodEnd - periodStart)))"

definition quoteProration :: "rat \<Rightarrow> rat \<Rightarrow> int \<Rightarrow> int \<Rightarrow> int \<Rightarrow> ProrationQuote option" where
  "quoteProration currentPrice newPrice periodStart periodEnd changeAt =
     map_option (\<lambda>fractionRemaining.
       let unusedCredit = roundMoney (currentPrice * fractionRemaining) 2;
           remainingCharge = roundMoney (newPrice * fractionRemaining) 2
       in \<lparr>quo_fractionElapsed = roundMoney (1 - fractionRemaining) 6,
           quo_fractionRemaining = roundMoney fractionRemaining 6,
           quo_unusedCredit = unusedCredit, quo_remainingCharge = remainingCharge,
           quo_net = roundMoney (remainingCharge - unusedCredit) 2\<rparr>)
       (remainingFraction periodStart periodEnd changeAt)"

definition segment_share :: "int \<Rightarrow> int \<Rightarrow> int \<Rightarrow> PlanSegment \<Rightarrow> int \<Rightarrow> SegmentShare" where
  "segment_share periodStart periodEnd until segment nextStart =
     (let start = max (seg_startedAt segment) periodStart;
          ended = min (min nextStart until) periodEnd
      in \<lparr>shr_planId = seg_planId segment, shr_startedAt = start, shr_endedAt = max ended start,
          shr_fraction = of_int (max 0 (ended - start)) / of_int (periodEnd - periodStart)\<rparr>)"

text \<open>The \<open>map\<close> over the ordered segments, which looks at the start of the next one.\<close>

fun shares_of :: "int \<Rightarrow> int \<Rightarrow> int \<Rightarrow> PlanSegment list \<Rightarrow> SegmentShare list" where
  "shares_of periodStart periodEnd until [] = []"
| "shares_of periodStart periodEnd until (segment # segments) =
     segment_share periodStart periodEnd until segment
       (case segments of next # _ \<Rightarrow> seg_startedAt next | [] \<Rightarrow> until)
     # shares_of periodStart periodEnd until segments"

definition segmentShares :: "PlanSegment list \<Rightarrow> int \<Rightarrow> int \<Rightarrow> int \<Rightarrow> SegmentShare list option" where
  "segmentShares segments periodStart periodEnd until =
     (if \<not> periodEnd - periodStart > 0 then None
      else Some (filter (\<lambda>share. shr_fraction share > 0)
        (shares_of periodStart periodEnd until (sort_key seg_startedAt segments))))"

subsection \<open>Promo codes\<close>

datatype DiscountType = Percent | Fixed
datatype DiscountDuration = Once | Repeating | Forever

record PromoCode =
  pc_id :: string
  pc_code :: string
  pc_description :: "string option"
  pc_merchantId :: "string option"
  pc_discountType :: DiscountType
  pc_percentOff :: "rat option"
  pc_amountOff :: "rat option"
  pc_currency :: "string option"
  pc_duration :: DiscountDuration
  pc_durationInPeriods :: "rat option"
  pc_maxRedemptions :: "rat option"
  pc_perCustomerLimit :: rat
  pc_appliesToPlanIds :: "string list option"
  pc_minimumAmount :: "rat option"
  pc_startsAt :: "int option"
  pc_expiresAt :: "int option"
  pc_active :: bool
  pc_timesRedeemed :: nat
  pc_createdAt :: int

record PromoCodeInput =
  pci_code :: string
  pci_description :: "string option"
  pci_merchantId :: "string option"
  pci_discountType :: DiscountType
  pci_percentOff :: "rat option"
  pci_amountOff :: "rat option"
  pci_currency :: "string option"
  pci_duration :: "DiscountDuration option"
  pci_durationInPeriods :: "rat option"
  pci_maxRedemptions :: "rat option"
  pci_perCustomerLimit :: "rat option"
  pci_appliesToPlanIds :: "string list option"
  pci_minimumAmount :: "rat option"
  pci_startsAt :: "int option"
  pci_expiresAt :: "int option"

record AppliedDiscount =
  ad_promoCodeId :: string
  ad_code :: string
  ad_discountType :: DiscountType
  ad_percentOff :: "rat option"
  ad_amountOff :: "rat option"
  ad_currency :: "string option"
  ad_duration :: DiscountDuration
  ad_remainingPeriods :: "rat option"
  ad_appliedAt :: int

record RedemptionContext =
  rc_now :: int
  rc_merchantId :: string
  rc_planId :: string
  rc_currency :: string
  rc_planPrice :: rat
  rc_customerRedemptions :: nat

text \<open>\<open>/^[A-Z0-9_-]{3,40}$/\<close>\<close>

definition promo_char :: "char \<Rightarrow> bool" where
  "promo_char c =
     (let n = (of_char c :: nat)
      in 65 \<le> n \<and> n \<le> 90 \<or> 48 \<le> n \<and> n \<le> 57 \<or> c = CHR ''_'' \<or> c = CHR ''-'')"

definition promo_pattern :: "string \<Rightarrow> bool" where
  "promo_pattern s \<longleftrightarrow> 3 \<le> length s \<and> length s \<le> 40 \<and> list_all promo_char s"

definition normalizeCode :: "string \<Rightarrow> string" where
  "normalizeCode code = to_upper (js_trim code)"

abbreviation positive_integer :: "rat option \<Rightarrow> bool" where
  "positive_integer x \<equiv> case x of Some n \<Rightarrow> is_integer n \<and> n > 0 | None \<Rightarrow> True"

text \<open>The dates are parsed already: a missing or empty one is \<open>None\<close>.\<close>

definition validatePromoCodeInput :: "PromoCodeInput \<Rightarrow> string option" where
  "validatePromoCodeInput input =
     (let duration = (case pci_duration input of Some d \<Rightarrow> d | None \<Rightarrow> Once)
      in if \<not> promo_pattern (normalizeCode (pci_code input))
         then Some (''code must be 3-40 characters of letters, digits, '' @ [CHR 0x22] @ ''-'' @ [CHR 0x22] @
           '' or '' @ [CHR 0x22] @ ''_'' @ [CHR 0x22])
         else if pci_discountType input = Percent \<and>
           \<not> (case pci_percentOff input of Some p \<Rightarrow> p > 0 \<and> p \<le> 100 | None \<Rightarrow> False)
         then Some ''percentOff must be greater than 0 and at most 100''
         else if pci_discountType input = Percent \<and> pci_amountOff input \<noteq> None
         then Some ''amountOff cannot be combined with a percent discount''
         else if pci_discountType input = Fixed \<and>
           \<not> (case pci_amountOff input of Some a \<Rightarrow> a > 0 | None \<Rightarrow> False)
         then Some ''amountOff must be greater than 0''
         else if pci_discountType input = Fixed \<and> \<not> truthy (pci_currency input)
         then Some ''currency is required for a fixed amount discount''
         else if pci_discountType input = Fixed \<and> pci_percentOff input \<noteq> None
         then Some ''percentOff cannot be combined with a fixed discount''
         else if duration = Repeating \<and>
           \<not> (case pci_durationInPeriods input of Some n \<Rightarrow> is_integer n \<and> n > 0 | None \<Rightarrow> False)
         then Some ''durationInPeriods must be a positive integer for a repeating discount''
         else if duration \<noteq> Repeating \<and> pci_durationInPeriods input \<noteq> None
         then Some ''durationInPeriods is only valid for a repeating discount''
         else if \<not> positive_integer (pci_maxRedemptions input)
         then Some ''maxRedemptions must be a positive integer''
         else if \<not> positive_integer (pci_perCustomerLimit input)
         then Some ''perCustomerLimit must be a positive integer''
         else if (case pci_minimumAmount input of Some a \<Rightarrow> \<not> a \<ge> 0 | None \<Rightarrow> False)
         then Some ''minimumAmount cannot be negative''
         else case (pci_startsAt input, pci_expiresAt input) of
             (Some startsAt, Some expiresAt) \<Rightarrow>
               if expiresAt \<le> startsAt then Some ''expiresAt must be after startsAt'' else None
           | _ \<Rightarrow> None)"

datatype redemption_reason =
    PromoInactive | PromoNotYetValid | PromoExpired | PromoLimitReached | CustomerLimitReached
  | WrongMerchant | WrongPlan | WrongCurrency "string option" string | BelowMinimum rat

definition redemptionError :: "PromoCode \<Rightarrow> RedemptionContext \<Rightarrow> redemption_reason option" where
  "redemptionError promo ctx =
     (if \<not> pc_active promo then Some PromoInactive
      else if (case pc_startsAt promo of Some t \<Rightarrow> rc_now ctx < t | None \<Rightarrow> False) then Some PromoNotYetValid
      else if (case pc_expiresAt promo of Some t \<Rightarrow> rc_now ctx \<ge> t | None \<Rightarrow> False) then Some PromoExpired
      else if (case pc_maxRedemptions promo of Some n \<Rightarrow> of_nat (pc_timesRedeemed promo) \<ge> n | None \<Rightarrow> False)
      then Some PromoLimitReached
      else if of_nat (rc_customerRedemptions ctx) \<ge> pc_perCustomerLimit promo then Some CustomerLimitReached
      else if truthy (pc_merchantId promo) \<and> pc_merchantId promo \<noteq> Some (rc_merchantId ctx)
      then Some WrongMerchant
      else if (case pc_appliesToPlanIds promo of Some ids \<Rightarrow> ids \<noteq> [] \<and> rc_planId ctx \<notin> set ids | None \<Rightarrow> False)
      then Some WrongPlan
      else if pc_discountType promo = Fixed \<and> pc_currency promo \<noteq> Some (rc_currency ctx)
      then Some (WrongCurrency (pc_currency promo) (rc_currency ctx))
      else case pc_minimumAmount promo of
          Some a \<Rightarrow> if rc_planPrice ctx < a then Some (BelowMinimum a) else None
        | None \<Rightarrow> None)"

definition toAppliedDiscount :: "PromoCode \<Rightarrow> int \<Rightarrow> AppliedDiscount" where
  "toAppliedDiscount promo appliedAt =
     \<lparr>ad_promoCodeId = pc_id promo, ad_code = pc_code promo, ad_discountType = pc_discountType promo,
      ad_percentOff = pc_percentOff promo, ad_amountOff = pc_amountOff promo,
      ad_currency = pc_currency promo, ad_duration = pc_duration promo,
      ad_remainingPeriods = (case pc_duration promo of
          Once \<Rightarrow> Some 1 | Repeating \<Rightarrow> pc_durationInPeriods promo | Forever \<Rightarrow> None),
      ad_appliedAt = appliedAt\<rparr>"

text \<open>The three fields of a discount or promo code that the amount depends on.\<close>

definition discountAmount :: "DiscountType \<Rightarrow> rat option \<Rightarrow> rat option \<Rightarrow> rat \<Rightarrow> rat" where
  "discountAmount ty percentOff amountOff subtotal =
     (if subtotal \<le> 0 then 0
      else
        let raw = (case ty of Percent \<Rightarrow> subtotal * (or_zero percentOff / 100) | Fixed \<Rightarrow> or_zero amountOff)
        in roundMoney (min subtotal (max 0 raw)) 2)"

definition isDiscountActive :: "AppliedDiscount option \<Rightarrow> bool" where
  "isDiscountActive discount =
     (case discount of
        None \<Rightarrow> False
      | Some d \<Rightarrow> ad_duration d = Forever \<or> or_zero (ad_remainingPeriods d) > 0)"

subsection \<open>Dunning\<close>

datatype DunningFinalAction = CancelSubscription | MarkUncollectible
datatype DunningStatus = DunRetrying | DunRecovered | DunExhausted | DunStopped

record DunningConfig =
  dc_merchantId :: string
  dc_retryScheduleDays :: "rat list"
  dc_finalAction :: DunningFinalAction
  dc_updatedAt :: "int option"

record DunningAttempt =
  da_attempt :: nat
  da_attemptedAt :: int
  da_success :: bool
  da_failureReason :: "string option"

record DunningState =
  dun_status :: DunningStatus
  dun_startedAt :: int
  dun_retryScheduleDays :: "rat list"
  dun_finalAction :: DunningFinalAction
  dun_retriesAttempted :: nat
  dun_nextRetryAt :: "int option"
  dun_history :: "DunningAttempt list"
  dun_endedAt :: "int option"

definition DEFAULT_RETRY_SCHEDULE_DAYS :: "rat list" where
  "DEFAULT_RETRY_SCHEDULE_DAYS = [1, 3, 5, 7]"

definition DEFAULT_FINAL_ACTION :: DunningFinalAction where
  "DEFAULT_FINAL_ACTION = CancelSubscription"

definition MAX_RETRY_ATTEMPTS :: nat where
  "MAX_RETRY_ATTEMPTS = 10"

definition MAX_RETRY_WINDOW_DAYS :: rat where
  "MAX_RETRY_WINDOW_DAYS = 60"

definition BILLING_DAY_MS :: int where
  "BILLING_DAY_MS = 24 * 60 * 60 * 1000"

fun schedule_error :: "rat \<Rightarrow> rat list \<Rightarrow> string option" where
  "schedule_error previous [] = None"
| "schedule_error previous (day # days) =
     (if \<not> day > 0 then Some ''retryScheduleDays entries must be positive numbers of days''
      else if day \<le> previous then Some ''retryScheduleDays must be strictly ascending''
      else if day > MAX_RETRY_WINDOW_DAYS then Some ''retryScheduleDays cannot extend beyond 60 days''
      else schedule_error day days)"

definition validateRetrySchedule :: "rat list \<Rightarrow> string option" where
  "validateRetrySchedule days =
     (if days = [] then Some ''retryScheduleDays must contain at least one retry''
      else if length days > MAX_RETRY_ATTEMPTS then Some ''retryScheduleDays supports at most 10 retries''
      else schedule_error 0 days)"

text \<open>The time is a number; storing it as a date drops a fraction of a millisecond (\<open>iso_time\<close>).\<close>

definition nextRetryAt :: "int \<Rightarrow> rat list \<Rightarrow> nat \<Rightarrow> rat option" where
  "nextRetryAt startedAt scheduleDays retriesAttempted =
     (if retriesAttempted < length scheduleDays
      then Some (of_int startedAt + scheduleDays ! retriesAttempted * of_int BILLING_DAY_MS)
      else None)"

definition iso_time :: "rat \<Rightarrow> int" where
  "iso_time t = (if t < 0 then \<lceil>t\<rceil> else \<lfloor>t\<rfloor>)"

end
