(* ===== verification/BillingProps.thy ===== *)
theory BillingProps
  imports Billing
begin

text \<open>
  What the calculations of \<open>backend/src/services/billing/\<close> guarantee: rounding to cents, graduated
  prices against a reference that looks at each tier on its own, amounts that are never negative,
  discounts within the subtotal, and segment shares that tile the billed part of a period.
\<close>

subsection \<open>Rounding\<close>

lemma roundMoney_2: "roundMoney v 2 = round_cents v"
  by (simp add: roundMoney_def round_cents_def)

lemma list_all_sum_nonneg: "list_all (\<lambda>x. 0 \<le> x) xs \<Longrightarrow> 0 \<le> sum_list (xs :: rat list)"
  by (induction xs) auto

lemma sum_list_filter_pos:
  "list_all (\<lambda>x. 0 \<le> f x) xs \<Longrightarrow> sum_list (map f (filter (\<lambda>x. 0 < f x) xs)) = sum_list (map f xs :: rat list)"
  by (induction xs) auto

subsection \<open>Graduated prices\<close>

text \<open>
  The reference: a tier that begins at \<open>lower\<close> is charged for the part of the usage between \<open>lower\<close>
  and its bound, with its flat fee as soon as the usage goes beyond \<open>lower\<close>.
\<close>

definition tier_charge :: "rat \<Rightarrow> rat \<Rightarrow> MeterTier \<Rightarrow> rat" where
  "tier_charge units lower tier =
     (let upto = (case mt_upTo tier of None \<Rightarrow> units | Some u \<Rightarrow> min units u)
      in if units > lower then (upto - lower) * mt_unitPrice tier + or_zero (mt_flatFee tier) else 0)"

fun tier_bounds :: "rat \<Rightarrow> MeterTier list \<Rightarrow> rat list" where
  "tier_bounds lower [] = []"
| "tier_bounds lower (tier # tiers) =
     lower # tier_bounds (case mt_upTo tier of Some u \<Rightarrow> u | None \<Rightarrow> lower) tiers"

definition graduated_price :: "MeterTier list \<Rightarrow> rat \<Rightarrow> rat" where
  "graduated_price tiers units = sum_list (map2 (tier_charge units) (tier_bounds 0 tiers) tiers)"

lemma tier_charges_above:
  "tiers_error metric lower tiers = None \<Longrightarrow> units \<le> lower \<Longrightarrow>
   sum_list (map2 (tier_charge units) (tier_bounds lower tiers) tiers) = 0"
proof (induction tiers arbitrary: lower)
  case (Cons tier tiers)
  show ?case
  proof (cases "mt_upTo tier")
    case None
    with Cons.prems have "tiers = []" by (auto split: if_splits)
    with Cons.prems show ?thesis by (simp add: tier_charge_def)
  next
    case (Some u)
    with Cons.prems have "tiers = [] \<or> lower < u \<and> tiers_error metric u tiers = None"
      by (auto split: if_splits)
    with Some Cons.prems Cons.IH [of u] show ?thesis by (auto simp: tier_charge_def)
  qed
qed simp

lemma graduated_loop_charges:
  "tiers_error metric lower tiers = None \<Longrightarrow> lower \<le> units \<Longrightarrow>
   graduated_loop (units - lower) lower tiers =
   sum_list (map2 (tier_charge units) (tier_bounds lower tiers) tiers)"
proof (induction tiers arbitrary: lower)
  case (Cons tier tiers)
  show ?case
  proof (cases "units = lower")
    case True
    then show ?thesis using tier_charges_above [OF Cons.prems(1)] by simp
  next
    case False
    with Cons.prems have less: "lower < units" by simp
    show ?thesis
    proof (cases "mt_upTo tier")
      case None
      with Cons.prems have "tiers = []" by (auto split: if_splits)
      with None less show ?thesis by (simp add: tier_charge_def)
    next
      case (Some u)
      with Cons.prems have rest: "tiers \<noteq> []" "lower < u" "tiers_error metric u tiers = None"
        by (auto split: if_splits)
      show ?thesis
      proof (cases "u \<le> units")
        case True
        with Cons.IH [of u] rest Some less show ?thesis
          by (simp add: tier_charge_def algebra_simps)
      next
        case False
        have "graduated_loop 0 units tiers = 0" by (cases tiers) auto
        moreover have "sum_list (map2 (tier_charge units) (tier_bounds u tiers) tiers) = 0"
          using tier_charges_above [OF rest(3)] False by simp
        ultimately show ?thesis using False rest Some less
          by (simp add: tier_charge_def min_def)
      qed
    qed
  qed
qed simp

text \<open>
  For every list of tiers that passes the validation of a plan and every quantity that is not
  negative, the loop of \<open>priceGraduated\<close> charges what the tiers charge one by one: each for the
  part of the quantity between the bound of the tier before and its own, with the flat fee of every
  tier that is entered.
\<close>

lemma priceGraduated_by_tier:
  assumes "validateTiers metric (Some tiers) = None" and "0 \<le> units"
  shows "priceGraduated tiers units = graduated_price tiers units"
proof -
  have "tiers_error metric 0 tiers = None"
    using assms(1) by (simp add: validateTiers_def split: if_splits)
  from graduated_loop_charges [OF this assms(2)] show ?thesis
    by (simp add: priceGraduated_def graduated_price_def)
qed

text \<open>10 units at 2, the next 90 at 1 with a fee of 5, the rest at 1/2.\<close>

definition demo_tiers :: "MeterTier list" where
  "demo_tiers =
     [\<lparr>mt_upTo = Some 10, mt_unitPrice = 2, mt_flatFee = None\<rparr>,
      \<lparr>mt_upTo = Some 100, mt_unitPrice = 1, mt_flatFee = Some 5\<rparr>,
      \<lparr>mt_upTo = None, mt_unitPrice = 1 / 2, mt_flatFee = None\<rparr>]"

lemma priceGraduated_by_tier_witness:
  "validateTiers ''api'' (Some demo_tiers) = None \<and>
   priceGraduated demo_tiers 104 = graduated_price demo_tiers 104 \<and> priceGraduated demo_tiers 104 = 117"
proof -
  have valid: "validateTiers ''api'' (Some demo_tiers) = None"
    by (simp add: validateTiers_def demo_tiers_def)
  have "priceGraduated demo_tiers 104 = 117"
    by (simp add: priceGraduated_def demo_tiers_def)
  with valid priceGraduated_by_tier [OF valid, of 104] show ?thesis by simp
qed

subsection \<open>Amounts are not negative\<close>

definition fair_tier :: "MeterTier \<Rightarrow> bool" where
  "fair_tier t \<longleftrightarrow> 0 \<le> mt_unitPrice t \<and> 0 \<le> or_zero (mt_flatFee t)"

lemma tiers_error_prices:
  "tiers_error metric lower tiers = None \<Longrightarrow>
   list_all fair_tier tiers"
  by (induction metric lower tiers rule: tiers_error.induct)
    (auto simp: fair_tier_def not_less split: if_splits option.splits)

lemma graduated_loop_nonneg:
  "list_all fair_tier tiers \<Longrightarrow>
   0 \<le> graduated_loop remaining cursor tiers"
  by (induction remaining cursor tiers rule: graduated_loop.induct) (auto simp: Let_def fair_tier_def)

lemma priceVolume_nonneg:
  assumes "list_all fair_tier tiers"
    and "tiers \<noteq> []" and "0 \<le> units"
  shows "0 \<le> priceVolume tiers units"
proof -
  define tier where "tier = (case find (\<lambda>t. case mt_upTo t of None \<Rightarrow> True | Some u \<Rightarrow> units \<le> u) tiers of
      Some t \<Rightarrow> t | None \<Rightarrow> last tiers)"
  have "tier \<in> set tiers"
  proof (cases "find (\<lambda>t. case mt_upTo t of None \<Rightarrow> True | Some u \<Rightarrow> units \<le> u) tiers")
    case None
    then show ?thesis using assms(2) by (simp add: tier_def)
  next
    case (Some t)
    then show ?thesis using find_SomeD [OF Some] by (simp add: tier_def)
  qed
  with assms(1) have "0 \<le> mt_unitPrice tier" "0 \<le> or_zero (mt_flatFee tier)"
    by (auto simp: list_all_iff fair_tier_def)
  with assms(3) have "0 \<le> units * mt_unitPrice tier + or_zero (mt_flatFee tier)" by simp
  then show ?thesis by (simp only: priceVolume_def Let_def tier_def)
qed

lemma validateTiers_prices:
  "validateTiers metric tiers = None \<Longrightarrow>
   \<exists>ts. tiers = Some ts \<and> ts \<noteq> [] \<and>
        list_all fair_tier ts"
  using tiers_error_prices by (auto simp: validateTiers_def split: option.splits if_splits)

lemma metered_amount_nonneg:
  assumes "validateMeteredPrice price = None"
  shows "0 \<le> metered_amount price units"
proof (cases "units > 0")
  case pos: True
  show ?thesis
  proof (cases "mp_model price")
    case PerUnit
    with assms pos show ?thesis
      by (auto simp: metered_amount_def validateMeteredPrice_def split: if_splits option.splits)
  next
    case Package
    with assms have size: "\<exists>n. mp_packageSize price = Some n \<and> 0 < n"
      and fee: "\<exists>p. mp_packagePrice price = Some p \<and> 0 \<le> p"
      by (auto simp: validateMeteredPrice_def split: if_splits option.splits)
    then obtain n p where "mp_packageSize price = Some n" "0 < n" "mp_packagePrice price = Some p" "0 \<le> p"
      by auto
    moreover from this pos have "0 \<le> \<lceil>units / n\<rceil>"
      by (metis ceiling_mono ceiling_zero divide_pos_pos order_less_imp_le)
    ultimately show ?thesis using pos Package by (simp add: metered_amount_def)
  next
    case Graduated
    with assms obtain ts where "mp_tiers price = Some ts"
      "list_all fair_tier ts"
      using validateTiers_prices [of "mp_metric price" "mp_tiers price"]
      by (auto simp: validateMeteredPrice_def split: if_splits)
    with Graduated pos show ?thesis
      by (simp add: metered_amount_def priceGraduated_def graduated_loop_nonneg)
  next
    case Volume
    with assms obtain ts where "mp_tiers price = Some ts" "ts \<noteq> []"
      "list_all fair_tier ts"
      using validateTiers_prices [of "mp_metric price" "mp_tiers price"]
      by (auto simp: validateMeteredPrice_def split: if_splits)
    with Volume pos show ?thesis
      by (simp add: metered_amount_def priceVolume_nonneg)
  qed
qed (simp add: metered_amount_def)

lemma meter_charge_amount:
  "validateMeteredPrice price = None \<Longrightarrow>
   cents (mc_amount (priceMeteredUsage price q)) \<and> 0 \<le> mc_amount (priceMeteredUsage price q)"
  by (simp add: priceMeteredUsage_def Let_def roundMoney_2 round_cents_nonneg metered_amount_nonneg)

lemma discountAmount_bounds:
  "cents subtotal \<Longrightarrow> 0 \<le> subtotal \<Longrightarrow>
   cents (discountAmount ty p a subtotal) \<and> 0 \<le> discountAmount ty p a subtotal \<and>
   discountAmount ty p a subtotal \<le> subtotal"
  by (auto simp: discountAmount_def Let_def roundMoney_2 intro!: round_cents_nonneg round_cents_le)

subsection \<open>Segment shares\<close>

text \<open>
  A list of shares tiles the time from \<open>a\<close> to \<open>b\<close>: each begins where the one before ends, and its
  fraction is its length over the length of the period.
\<close>

fun tiles :: "int \<Rightarrow> int \<Rightarrow> int \<Rightarrow> SegmentShare list \<Rightarrow> bool" where
  "tiles len a b [] \<longleftrightarrow> a = b"
| "tiles len a b (share # shares) \<longleftrightarrow>
     shr_startedAt share = a \<and> shr_startedAt share < shr_endedAt share \<and>
     shr_fraction share = of_int (shr_endedAt share - shr_startedAt share) / of_int len \<and>
     tiles len (shr_endedAt share) b shares"

lemma tiles_sum:
  "len > 0 \<Longrightarrow> tiles len a b shares \<Longrightarrow>
   sum_list (map shr_fraction shares) = of_int (b - a) / of_int len"
  by (induction shares arbitrary: a)
    (auto simp: add_divide_distrib [symmetric] simp flip: of_int_add)

lemma tiles_le: "tiles len a b shares \<Longrightarrow> a \<le> b"
  by (induction shares arbitrary: a) force+

lemma shares_tile:
  assumes "ps < pe" and "sorted (map seg_startedAt (g # gs))"
  shows "if max (seg_startedAt g) ps < min until pe
    then tiles (pe - ps) (max (seg_startedAt g) ps) (min until pe)
           (filter (\<lambda>share. shr_fraction share > 0) (shares_of ps pe until (g # gs)))
    else filter (\<lambda>share. shr_fraction share > 0) (shares_of ps pe until (g # gs)) = []"
  using assms(2)
proof (induction gs arbitrary: g)
  case Nil
  show ?case using assms(1)
    by (auto simp: segment_share_def Let_def zero_less_divide_iff max_def)
next
  case (Cons h hs)
  define share where "share = segment_share ps pe until g (seg_startedAt h)"
  define a b where "a = max (seg_startedAt g) ps" and "b = max (seg_startedAt h) ps"
  define T where "T = min until pe"
  have order: "seg_startedAt g \<le> seg_startedAt h" and len: "0 < pe - ps"
    using Cons.prems assms(1) by auto
  have ended: "min (min (seg_startedAt h) until) pe = min (seg_startedAt h) T"
    by (simp add: T_def min.assoc)
  have fraction: "shr_fraction share = of_int (max 0 (min (seg_startedAt h) T - a)) / of_int (pe - ps)"
    and start: "shr_startedAt share = a" and stop: "shr_endedAt share = max (min (seg_startedAt h) T) a"
    unfolding share_def segment_share_def Let_def ended by (simp_all add: a_def)
  define R where "R = filter (\<lambda>share. shr_fraction share > 0) (shares_of ps pe until (h # hs))"
  have "sorted (map seg_startedAt (h # hs))" using Cons.prems by simp
  note IH = Cons.IH [OF this, folded b_def T_def R_def]
  have step: "filter (\<lambda>share. shr_fraction share > 0) (shares_of ps pe until (g # h # hs)) =
    (if shr_fraction share > 0 then [share] else []) @
R"
    by (simp add: share_def R_def)
  have pos: "shr_fraction share > 0 \<longleftrightarrow> min (seg_startedAt h) T > a"
    using len by (auto simp: fraction zero_less_divide_iff)
  show ?case
  proof (cases "seg_startedAt h > a")
    case True
    then have b: "b = seg_startedAt h" by (auto simp: a_def b_def)
    show ?thesis
      unfolding step using IH True len
      unfolding a_def [symmetric] T_def [symmetric] pos
      by (auto simp: start stop fraction b min_def split: if_splits)
  next
    case False
    then have "b = a" using order by (auto simp: a_def b_def)
    with False show ?thesis
      unfolding step using IH
      unfolding a_def [symmetric] T_def [symmetric] pos by (auto split: if_splits)
  qed
qed

text \<open>
  The shares of the plan segments tile the billed part of a period. From the start of the first
  segment (or of the period, if later) to the moment billed (at most the end of the period) each
  share begins where the one before ends and carries exactly its part of the period, so the
  fractions add up to the time billed: no day is charged twice and none is left out, whatever the
  number and the order of the plan changes.
\<close>

lemma segmentShares_tile:
  assumes "segmentShares segments periodStart periodEnd until = Some shares"
    and "first \<in> set segments" and "\<forall>g\<in>set segments. seg_startedAt first \<le> seg_startedAt g"
    and "max (seg_startedAt first) periodStart \<le> min until periodEnd"
  shows "tiles (periodEnd - periodStart) (max (seg_startedAt first) periodStart) (min until periodEnd) shares
    \<and> sum_list (map shr_fraction shares) =
      of_int (min until periodEnd - max (seg_startedAt first) periodStart) / of_int (periodEnd - periodStart)"
proof -
  have len: "periodStart < periodEnd"
    and shares: "shares = filter (\<lambda>share. shr_fraction share > 0)
        (shares_of periodStart periodEnd until (sort_key seg_startedAt segments))"
    using assms(1) by (auto simp: segmentShares_def split: if_splits)
  have "sort_key seg_startedAt segments \<noteq> []"
    using assms(2) length_sort [of seg_startedAt segments] by force
  then obtain g gs where sorted_segments: "sort_key seg_startedAt segments = g # gs"
    by (meson neq_Nil_conv)
  have "sorted (map seg_startedAt (g # gs))"
    using sorted_sort_key [of seg_startedAt segments] by (simp only: sorted_segments)
  note tile = shares_tile [OF len this, of until]
  have members: "set (g # gs) = set segments"
    using set_sort [of seg_startedAt segments] by (simp only: sorted_segments)
  with assms(2) \<open>sorted (map seg_startedAt (g # gs))\<close> have "seg_startedAt g \<le> seg_startedAt first"
    by (metis list.simps(9) set_ConsD sorted_simps(2) image_eqI set_map order_refl)
  with assms(3) members have first: "seg_startedAt g = seg_startedAt first"
    by (metis list.set_intros(1) order_antisym)
  have tiled: "tiles (periodEnd - periodStart) (max (seg_startedAt first) periodStart) (min until periodEnd) shares"
    using tile assms(4) by (simp only: shares sorted_segments first split: if_splits) auto
  with tiles_sum [OF _ tiled] len show ?thesis by simp
qed

text \<open>A change at half of a period of ten: two shares of one half.\<close>

lemma segmentShares_tile_witness:
  "segmentShares [\<lparr>seg_planId = ''a'', seg_startedAt = 0\<rparr>, \<lparr>seg_planId = ''b'', seg_startedAt = 5\<rparr>] 0 10 10 =
   Some [\<lparr>shr_planId = ''a'', shr_startedAt = 0, shr_endedAt = 5, shr_fraction = 1 / 2\<rparr>,
         \<lparr>shr_planId = ''b'', shr_startedAt = 5, shr_endedAt = 10, shr_fraction = 1 / 2\<rparr>] \<and>
   tiles 10 0 10 [\<lparr>shr_planId = ''a'', shr_startedAt = 0, shr_endedAt = 5, shr_fraction = 1 / 2\<rparr>,
         \<lparr>shr_planId = ''b'', shr_startedAt = 5, shr_endedAt = 10, shr_fraction = 1 / 2\<rparr>]"
proof -
  have run: "segmentShares [\<lparr>seg_planId = ''a'', seg_startedAt = 0\<rparr>, \<lparr>seg_planId = ''b'', seg_startedAt = 5\<rparr>] 0 10 10 =
    Some [\<lparr>shr_planId = ''a'', shr_startedAt = 0, shr_endedAt = 5, shr_fraction = 1 / 2\<rparr>,
          \<lparr>shr_planId = ''b'', shr_startedAt = 5, shr_endedAt = 10, shr_fraction = 1 / 2\<rparr>]"
    by (simp add: segmentShares_def segment_share_def Let_def insort_key.simps)
  show ?thesis
    using segmentShares_tile [OF run, of "\<lparr>seg_planId = ''a'', seg_startedAt = 0\<rparr>"] run by simp
qed

end
