(* ===== verification/Subscriptions.thy ===== *)
theory Subscriptions
  imports Billing
begin

text \<open>
  \<open>backend/src/services/subscription-billing.ts\<close>: plans, subscriptions, metering, invoices, plan
  changes, promo codes and dunning. The clock and the identifiers of \<open>randomUUID\<close> are arguments, an
  operation reads the clock once. The objects are held by the maps; an operation reads one, changes
  it and stores it back. Time stamps are milliseconds (as ISO strings they compare alike). The
  function that collects a payment is a parameter.
\<close>

subsection \<open>Types\<close>

datatype BillingInterval = Monthly | Annual
datatype SubscriptionStatus = SubTrialing | SubActive | SubPastDue | SubCancelled
datatype InvoiceStatus = InvDraft | InvOpen | InvPaid | InvVoid | InvUncollectible
datatype InvoiceKind = PeriodInvoice | PlanChangeInvoice

record PricingTier =
  pt_upTo :: rat
  pt_unitPrice :: rat

record MeteredPriceInput =
  mpi_metric :: string
  mpi_displayName :: "string option"
  mpi_aggregation :: "MeterAggregation option"
  mpi_model :: MeteredPricingModel
  mpi_includedUnits :: "rat option"
  mpi_unitPrice :: "rat option"
  mpi_packageSize :: "rat option"
  mpi_packagePrice :: "rat option"
  mpi_tiers :: "MeterTier list option"

record BillingPlan =
  bp_id :: string
  bp_name :: string
  bp_currency :: string
  bp_basePrice :: rat
  bp_includedUnits :: rat
  bp_overageUnitPrice :: rat
  bp_tiers :: "PricingTier list option"
  bp_meters :: "MeteredPrice list option"
  bp_billingInterval :: BillingInterval
  bp_features :: "string list option"
  bp_createdAt :: int

record Subscription =
  sub_id :: string
  sub_merchantId :: string
  sub_customerId :: string
  sub_planId :: string
  sub_status :: SubscriptionStatus
  sub_currentPeriodStart :: int
  sub_currentPeriodEnd :: int
  sub_trialEndsAt :: "int option"
  sub_cancelAtPeriodEnd :: bool
  sub_canceledAt :: "int option"
  sub_usage :: "(string, rat) jsmap"
  sub_meterReadings :: "(string, MeterReading) jsmap"
  sub_planSegments :: "PlanSegment list"
  sub_discount :: "AppliedDiscount option"
  sub_createdAt :: int
  sub_updatedAt :: int

record UsageEvent =
  usg_id :: string
  usg_subscriptionId :: string
  usg_metric :: string
  usg_quantity :: rat
  usg_idempotencyKey :: "string option"
  usg_recordedAt :: int

text \<open>The description of a line, by what it is built from.\<close>

datatype line_description =
    BasePlanLine string | ProratedPlanLine string rat | OverageLine | MeterLine string | DiscountLine string

record InvoiceLineItem =
  ili_description :: line_description
  ili_quantity :: rat
  ili_unitPrice :: rat
  ili_amount :: rat

record Invoice =
  inv_id :: string
  inv_kind :: InvoiceKind
  inv_subscriptionId :: string
  inv_merchantId :: string
  inv_customerId :: string
  inv_planId :: string
  inv_periodStart :: int
  inv_periodEnd :: int
  inv_currency :: string
  inv_status :: InvoiceStatus
  inv_lineItems :: "InvoiceLineItem list"
  inv_baseAmount :: rat
  inv_usageAmount :: rat
  inv_subtotal :: rat
  inv_discountAmount :: rat
  inv_discountCode :: "string option"
  inv_total :: rat
  inv_dunning :: "DunningState option"
  inv_paidAt :: "int option"
  inv_createdAt :: int

record PromoRedemption =
  red_promoCodeId :: string
  red_customerId :: string
  red_subscriptionId :: string
  red_redeemedAt :: int

record PaymentAttemptResult =
  par_success :: bool
  par_failureReason :: "string option"

record DunningRunResult =
  drr_processed :: nat
  drr_recovered :: "string list"
  drr_failed :: "string list"
  drr_exhausted :: "string list"

record UsageCharges =
  uc_totalUnits :: rat
  uc_includedUnits :: rat
  uc_overageUnits :: rat
  uc_usageAmount :: rat
  uc_meters :: "MeterCharge list option"
  uc_lineItems :: "InvoiceLineItem list"

record billing =
  bl_plans :: "(string, BillingPlan) jsmap"
  bl_subscriptions :: "(string, Subscription) jsmap"
  bl_usageEvents :: "UsageEvent list"
  bl_usageIdempotency :: "(string, string) jsmap"
  bl_invoices :: "(string, Invoice) jsmap"
  bl_promoCodes :: "(string, PromoCode) jsmap"
  bl_promoCodeIds :: "(string, string) jsmap"
  bl_promoRedemptions :: "PromoRedemption list"
  bl_dunningConfigs :: "(string, DunningConfig) jsmap"

text \<open>
  What an operation throws: an error of the base service, a code that cannot be redeemed (with its
  reason, as a \<open>PROMO_CODE_INVALID\<close> error), or the \<open>RangeError\<close> for an empty period or an invalid time.
\<close>

datatype billing_error =
    ServiceErr service_error | PromoInvalid redemption_reason | EmptyPeriod | InvalidTime

abbreviation invalid :: "string \<Rightarrow> billing_error" where
  "invalid message \<equiv> ServiceErr (validation_error message)"

definition interval_days :: "BillingInterval \<Rightarrow> int" where
  "interval_days i = (case i of Monthly \<Rightarrow> 30 | Annual \<Rightarrow> 365)"

definition sub_status_name :: "SubscriptionStatus \<Rightarrow> string" where
  "sub_status_name st = (case st of
     SubTrialing \<Rightarrow> ''trialing'' | SubActive \<Rightarrow> ''active'' | SubPastDue \<Rightarrow> ''past_due''
   | SubCancelled \<Rightarrow> ''cancelled'')"

definition inv_status_name :: "InvoiceStatus \<Rightarrow> string" where
  "inv_status_name st = (case st of
     InvDraft \<Rightarrow> ''draft'' | InvOpen \<Rightarrow> ''open'' | InvPaid \<Rightarrow> ''paid'' | InvVoid \<Rightarrow> ''void''
   | InvUncollectible \<Rightarrow> ''uncollectible'')"

text \<open>Looking up an object that has to exist.\<close>

definition require :: "string \<Rightarrow> ('s \<Rightarrow> (string, 'v) jsmap) \<Rightarrow> string \<Rightarrow> 's \<Rightarrow> billing_error + 'v" where
  "require resource store i s =
     (case js_get (store s) i of None \<Rightarrow> Inl (ServiceErr (notFound resource i)) | Some v \<Rightarrow> Inr v)"

definition put_subscription :: "Subscription \<Rightarrow> billing \<Rightarrow> billing" where
  "put_subscription sub s = s\<lparr>bl_subscriptions := js_set (sub_id sub) sub (bl_subscriptions s)\<rparr>"

definition put_invoice :: "Invoice \<Rightarrow> billing \<Rightarrow> billing" where
  "put_invoice invoice s = s\<lparr>bl_invoices := js_set (inv_id invoice) invoice (bl_invoices s)\<rparr>"

subsection \<open>Plans\<close>

record CreatePlanInput =
  cpi_id :: "string option"
  cpi_name :: string
  cpi_currency :: "string option"
  cpi_basePrice :: rat
  cpi_includedUnits :: "rat option"
  cpi_overageUnitPrice :: "rat option"
  cpi_tiers :: "PricingTier list option"
  cpi_meters :: "MeteredPriceInput list option"
  cpi_billingInterval :: "BillingInterval option"
  cpi_features :: "string list option"

fun plan_tiers_error :: "rat \<Rightarrow> PricingTier list \<Rightarrow> service_error option" where
  "plan_tiers_error previous [] = None"
| "plan_tiers_error previous (tier # tiers) =
     (case first_error
        [validate (pt_upTo tier \<ge> 0) ''Tier upTo must be non-negative'',
         validate (pt_unitPrice tier \<ge> 0) ''Tier unitPrice cannot be negative'',
         validate (pt_upTo tier > previous) ''Tiers must be sorted by ascending upTo''] of
        Some e \<Rightarrow> Some e
      | None \<Rightarrow> plan_tiers_error (pt_upTo tier) tiers)"

definition normal_meter :: "MeteredPriceInput \<Rightarrow> MeteredPrice" where
  "normal_meter meter =
     \<lparr>mp_metric = js_trim (mpi_metric meter), mp_displayName = mpi_displayName meter,
      mp_aggregation = (case mpi_aggregation meter of Some a \<Rightarrow> a | None \<Rightarrow> AggSum),
      mp_model = mpi_model meter, mp_includedUnits = or_zero (mpi_includedUnits meter),
      mp_unitPrice = mpi_unitPrice meter, mp_packageSize = mpi_packageSize meter,
      mp_packagePrice = mpi_packagePrice meter, mp_tiers = mpi_tiers meter\<rparr>"

fun meters_error :: "string list \<Rightarrow> MeteredPrice list \<Rightarrow> service_error option" where
  "meters_error seen [] = None"
| "meters_error seen (meter # meters) =
     (case validateMeteredPrice meter of
        Some e \<Rightarrow> Some (validation_error e)
      | None \<Rightarrow>
          if mp_metric meter \<in> set seen
          then Some (validation_error (''Duplicate meter for metric '' @ mp_metric meter))
          else meters_error (mp_metric meter # seen) meters)"

definition plan_error :: "CreatePlanInput \<Rightarrow> MeteredPrice list option \<Rightarrow> service_error option" where
  "plan_error input meters = first_error
     [validate (js_trim (cpi_name input) \<noteq> []) ''Plan name is required'',
      validate (cpi_basePrice input \<ge> 0) ''basePrice cannot be negative'',
      validate (or_zero (cpi_includedUnits input) \<ge> 0) ''includedUnits cannot be negative'',
      validate (or_zero (cpi_overageUnitPrice input) \<ge> 0) ''overageUnitPrice cannot be negative'',
      (case cpi_tiers input of None \<Rightarrow> None | Some tiers \<Rightarrow>
         first_error [validate (tiers \<noteq> []) ''tiers cannot be empty'', plan_tiers_error (- 1) tiers]),
      (case meters of None \<Rightarrow> None | Some ms \<Rightarrow>
         first_error [validate (ms \<noteq> []) ''meters cannot be empty'', meters_error [] ms])]"

definition createBillingPlan ::
  "string \<Rightarrow> CreatePlanInput \<Rightarrow> int \<Rightarrow> (billing, billing_error, BillingPlan) op" where
  "createBillingPlan uuid input now s =
     (let meters = map_option (map normal_meter) (cpi_meters input)
      in case plan_error input meters of
           Some e \<Rightarrow> (Inl (ServiceErr e), s)
         | None \<Rightarrow>
             let plan = \<lparr>bp_id = (case cpi_id input of Some i \<Rightarrow> i | None \<Rightarrow> ''plan_'' @ uuid),
                   bp_name = js_trim (cpi_name input),
                   bp_currency = to_upper (case cpi_currency input of Some c \<Rightarrow> c | None \<Rightarrow> ''USD''),
                   bp_basePrice = roundMoney (cpi_basePrice input) 2,
                   bp_includedUnits = or_zero (cpi_includedUnits input),
                   bp_overageUnitPrice = or_zero (cpi_overageUnitPrice input),
                   bp_tiers = map_option (sort_key pt_upTo) (cpi_tiers input), bp_meters = meters,
                   bp_billingInterval = (case cpi_billingInterval input of Some i \<Rightarrow> i | None \<Rightarrow> Monthly),
                   bp_features = cpi_features input, bp_createdAt = now\<rparr>
             in (Inr plan, s\<lparr>bl_plans := js_set (bp_id plan) plan (bl_plans s)\<rparr>))"

definition getBillingPlan :: "string \<Rightarrow> billing \<Rightarrow> BillingPlan option" where
  "getBillingPlan i s = js_get (bl_plans s) i"

definition listBillingPlans :: "billing \<Rightarrow> BillingPlan list" where
  "listBillingPlans s = js_values (bl_plans s)"

subsection \<open>Redeeming promo codes\<close>

definition getPromoCode :: "string \<Rightarrow> billing \<Rightarrow> PromoCode option" where
  "getPromoCode idOrCode s =
     (case js_get (bl_promoCodes s) idOrCode of
        Some promo \<Rightarrow> Some promo
      | None \<Rightarrow>
          (case js_get (bl_promoCodeIds s) (normalizeCode idOrCode) of
             None \<Rightarrow> None
           | Some i \<Rightarrow> if i = [] then None else js_get (bl_promoCodes s) i))"

definition redemptionContext ::
  "PromoCode \<Rightarrow> string \<Rightarrow> string \<Rightarrow> BillingPlan \<Rightarrow> int \<Rightarrow> billing \<Rightarrow> RedemptionContext" where
  "redemptionContext promo merchantId customerId plan now s =
     \<lparr>rc_now = now, rc_merchantId = merchantId, rc_planId = bp_id plan, rc_currency = bp_currency plan,
      rc_planPrice = bp_basePrice plan,
      rc_customerRedemptions = length (filter (\<lambda>r. red_promoCodeId r = pc_id promo \<and>
        red_customerId r = customerId) (bl_promoRedemptions s))\<rparr>"

definition requireRedeemable ::
  "string \<Rightarrow> string \<Rightarrow> string \<Rightarrow> BillingPlan \<Rightarrow> int \<Rightarrow> billing \<Rightarrow> billing_error + PromoCode" where
  "requireRedeemable code merchantId customerId plan now s =
     (case getPromoCode code s of
        None \<Rightarrow> Inl (ServiceErr (notFound ''Promo code'' (normalizeCode code)))
      | Some promo \<Rightarrow>
          (case redemptionError promo (redemptionContext promo merchantId customerId plan now s) of
             Some reason \<Rightarrow> Inl (PromoInvalid reason)
           | None \<Rightarrow> Inr promo))"

definition redeem :: "Subscription \<Rightarrow> PromoCode \<Rightarrow> int \<Rightarrow> billing \<Rightarrow> Subscription \<times> billing" where
  "redeem sub promo now s =
     (let sub' = sub\<lparr>sub_discount := Some (toAppliedDiscount promo now), sub_updatedAt := now\<rparr>;
          promo' = promo\<lparr>pc_timesRedeemed := pc_timesRedeemed promo + 1\<rparr>
      in (sub', put_subscription sub'
            (s\<lparr>bl_promoCodes := js_set (pc_id promo) promo' (bl_promoCodes s),
               bl_promoRedemptions := bl_promoRedemptions s @
                 [\<lparr>red_promoCodeId = pc_id promo, red_customerId = sub_customerId sub,
                   red_subscriptionId = sub_id sub, red_redeemedAt = now\<rparr>]\<rparr>)))"

subsection \<open>Subscriptions\<close>

record SubscribeInput =
  sbi_merchantId :: string
  sbi_customerId :: string
  sbi_planId :: string
  sbi_trialDays :: "int option"
  sbi_promoCode :: "string option"

definition new_subscription :: "string \<Rightarrow> SubscribeInput \<Rightarrow> BillingPlan \<Rightarrow> int \<Rightarrow> Subscription" where
  "new_subscription uuid input plan start =
     (let trialDays = (case sbi_trialDays input of Some d \<Rightarrow> d | None \<Rightarrow> 0)
      in \<lparr>sub_id = ''sub_'' @ uuid, sub_merchantId = sbi_merchantId input,
          sub_customerId = sbi_customerId input, sub_planId = bp_id plan,
          sub_status = (if trialDays > 0 then SubTrialing else SubActive),
          sub_currentPeriodStart = start,
          sub_currentPeriodEnd = start + interval_days (bp_billingInterval plan) * BILLING_DAY_MS,
          sub_trialEndsAt = (if trialDays > 0 then Some (start + trialDays * BILLING_DAY_MS) else None),
          sub_cancelAtPeriodEnd = False, sub_canceledAt = None, sub_usage = [], sub_meterReadings = [],
          sub_planSegments = [\<lparr>seg_planId = bp_id plan, seg_startedAt = start\<rparr>], sub_discount = None,
          sub_createdAt = start, sub_updatedAt = start\<rparr>)"

definition subscribe ::
  "string \<Rightarrow> SubscribeInput \<Rightarrow> int \<Rightarrow> (billing, billing_error, Subscription) op" where
  "subscribe uuid input now s =
     (case first_error [validate (sbi_merchantId input \<noteq> []) ''merchantId is required'',
                        validate (sbi_customerId input \<noteq> []) ''customerId is required''] of
        Some e \<Rightarrow> (Inl (ServiceErr e), s)
      | None \<Rightarrow>
          (case require ''Billing plan'' bl_plans (sbi_planId input) s of
             Inl e \<Rightarrow> (Inl e, s)
           | Inr plan \<Rightarrow>
               if (case sbi_trialDays input of Some d \<Rightarrow> d < 0 | None \<Rightarrow> False)
               then (Inl (invalid ''trialDays cannot be negative''), s)
               else
                 let sub = new_subscription uuid input plan now
                 in if truthy (sbi_promoCode input)
                    then (case requireRedeemable (the (sbi_promoCode input)) (sbi_merchantId input)
                             (sbi_customerId input) plan now s of
                            Inl e \<Rightarrow> (Inl e, s)
                          | Inr promo \<Rightarrow>
                              let (sub', s') = redeem sub promo now (put_subscription sub s)
                              in (Inr sub', s'))
                    else (Inr sub, put_subscription sub s)))"

definition getSubscription :: "string \<Rightarrow> billing \<Rightarrow> Subscription option" where
  "getSubscription i s = js_get (bl_subscriptions s) i"

definition falsy_or :: "string option \<Rightarrow> string \<Rightarrow> bool" where
  "falsy_or wanted value \<longleftrightarrow> \<not> truthy wanted \<or> wanted = Some value"

definition listSubscriptions ::
  "string option \<Rightarrow> string option \<Rightarrow> SubscriptionStatus option \<Rightarrow> billing \<Rightarrow> Subscription list" where
  "listSubscriptions merchantId customerId status s =
     filter (\<lambda>sub. falsy_or merchantId (sub_merchantId sub) \<and> falsy_or customerId (sub_customerId sub) \<and>
         (status = None \<or> status = Some (sub_status sub)))
       (js_values (bl_subscriptions s))"

definition cancelSubscription ::
  "string \<Rightarrow> bool \<Rightarrow> int \<Rightarrow> (billing, billing_error, Subscription) op" where
  "cancelSubscription i atPeriodEnd now s =
     (case require ''Subscription'' bl_subscriptions i s of
        Inl e \<Rightarrow> (Inl e, s)
      | Inr sub \<Rightarrow>
          if sub_status sub = SubCancelled
          then (Inl (ServiceErr (conflict ''Subscription is already cancelled'')), s)
          else
            let sub' = (if atPeriodEnd then sub\<lparr>sub_cancelAtPeriodEnd := True, sub_updatedAt := now\<rparr>
                  else sub\<lparr>sub_cancelAtPeriodEnd := False, sub_status := SubCancelled,
                         sub_canceledAt := Some now, sub_updatedAt := now\<rparr>)
            in (Inr sub', put_subscription sub' s))"

subsection \<open>Metering\<close>

definition recordUsage ::
  "string \<Rightarrow> string \<Rightarrow> string \<Rightarrow> rat \<Rightarrow> string option \<Rightarrow> int \<Rightarrow> (billing, billing_error, UsageEvent) op" where
  "recordUsage uuid subscriptionId metric quantity idempotencyKey now s =
     (case first_error [validate (js_trim metric \<noteq> []) ''metric is required'',
                        validate (quantity > 0) ''quantity must be greater than 0''] of
        Some e \<Rightarrow> (Inl (ServiceErr e), s)
      | None \<Rightarrow>
          (case require ''Subscription'' bl_subscriptions subscriptionId s of
             Inl e \<Rightarrow> (Inl e, s)
           | Inr sub \<Rightarrow>
               if sub_status sub = SubCancelled
               then (Inl (invalid (''Cannot meter usage for a '' @ sub_status_name (sub_status sub) @ '' subscription'')), s)
               else
                 let existing = (if truthy idempotencyKey
                       then Option.bind (js_get (bl_usageIdempotency s) (the idempotencyKey))
                              (\<lambda>i. find (\<lambda>event. usg_id event = i) (bl_usageEvents s))
                       else None)
                 in case existing of
                      Some event \<Rightarrow> (Inr event, s)
                    | None \<Rightarrow>
                        if (case Option.bind (js_get (bl_plans s) (sub_planId sub)) bp_meters of
                              Some meters \<Rightarrow> \<not> list_ex (\<lambda>meter. mp_metric meter = metric) meters
                            | None \<Rightarrow> False)
                        then (Inl (invalid (''Metric '' @ metric @ '' is not metered on plan '' @ sub_planId sub)), s)
                        else
                          let event = \<lparr>usg_id = ''usg_'' @ uuid, usg_subscriptionId = sub_id sub,
                                usg_metric = metric, usg_quantity = quantity,
                                usg_idempotencyKey = idempotencyKey, usg_recordedAt = now\<rparr>;
                              sub' = sub\<lparr>
                                sub_usage := js_set metric (or_zero (js_get (sub_usage sub) metric) + quantity)
                                  (sub_usage sub),
                                sub_meterReadings := js_set metric
                                  (applyReading (js_get (sub_meterReadings sub) metric) quantity)
                                  (sub_meterReadings sub),
                                sub_updatedAt := now\<rparr>
                          in (Inr event, put_subscription sub'
                                (s\<lparr>bl_usageEvents := bl_usageEvents s @ [event],
                                   bl_usageIdempotency := (if truthy idempotencyKey
                                     then js_set (the idempotencyKey) (usg_id event) (bl_usageIdempotency s)
                                     else bl_usageIdempotency s)\<rparr>))))"

definition listUsageEvents :: "string \<Rightarrow> billing \<Rightarrow> UsageEvent list" where
  "listUsageEvents subscriptionId s =
     filter (\<lambda>event. usg_subscriptionId event = subscriptionId) (bl_usageEvents s)"

subsection \<open>Usage charges\<close>

fun tier_overage :: "rat \<Rightarrow> rat \<Rightarrow> rat \<Rightarrow> PricingTier list \<Rightarrow> rat" where
  "tier_overage flat remaining cursor [] = (if remaining > 0 then remaining * flat else 0)"
| "tier_overage flat remaining cursor (tier # tiers) =
     (if remaining \<le> 0 then 0
      else if cursor \<ge> pt_upTo tier then tier_overage flat remaining cursor tiers
      else
        let span = min remaining (pt_upTo tier - cursor)
        in span * pt_unitPrice tier + tier_overage flat (remaining - span) (cursor + span) tiers)"

definition priceOverage :: "BillingPlan \<Rightarrow> rat \<Rightarrow> rat" where
  "priceOverage plan overageUnits =
     (if overageUnits \<le> 0 then 0
      else case bp_tiers plan of
          None \<Rightarrow> roundMoney (overageUnits * bp_overageUnitPrice plan) 2
        | Some tiers \<Rightarrow>
            if tiers = [] then roundMoney (overageUnits * bp_overageUnitPrice plan) 2
            else roundMoney (tier_overage (bp_overageUnitPrice plan) overageUnits (bp_includedUnits plan) tiers) 2)"

definition meter_line :: "MeterCharge \<Rightarrow> InvoiceLineItem" where
  "meter_line m =
     \<lparr>ili_description = MeterLine (mc_description m), ili_quantity = mc_billableUnits m,
      ili_unitPrice = roundMoney (mc_amount m / mc_billableUnits m) 6, ili_amount = mc_amount m\<rparr>"

definition computeUsageCharges :: "Subscription \<Rightarrow> BillingPlan \<Rightarrow> UsageCharges" where
  "computeUsageCharges sub plan =
     (case bp_meters plan of
        Some (meter # meters) \<Rightarrow>
          (let charges = map (\<lambda>m. priceMeteredUsage m
                 (aggregateReading (js_get (sub_meterReadings sub) (mp_metric m)) (mp_aggregation m)))
                 (meter # meters)
           in \<lparr>uc_totalUnits = sum_list (map mc_quantity charges),
               uc_includedUnits = sum_list (map mc_includedUnits charges),
               uc_overageUnits = sum_list (map mc_billableUnits charges),
               uc_usageAmount = roundMoney (sum_list (map mc_amount charges)) 2,
               uc_meters = Some charges,
               uc_lineItems = map meter_line (filter (\<lambda>m. mc_amount m > 0) charges)\<rparr>)
      | _ \<Rightarrow>
          (let totalUnits = sum_list (js_values (sub_usage sub));
               overageUnits = max 0 (totalUnits - bp_includedUnits plan);
               usageAmount = priceOverage plan overageUnits
           in \<lparr>uc_totalUnits = totalUnits, uc_includedUnits = bp_includedUnits plan,
               uc_overageUnits = overageUnits, uc_usageAmount = usageAmount, uc_meters = None,
               uc_lineItems = (if overageUnits > 0
                 then [\<lparr>ili_description = OverageLine, ili_quantity = overageUnits,
                         ili_unitPrice = roundMoney (usageAmount / overageUnits) 6,
                         ili_amount = usageAmount\<rparr>]
                 else [])\<rparr>))"

record UsageSummary =
  us_subscriptionId :: string
  us_metrics :: "(string, rat) jsmap"
  us_totalUnits :: rat
  us_includedUnits :: rat
  us_overageUnits :: rat
  us_usageAmount :: rat
  us_meters :: "MeterCharge list option"
  us_currency :: string
  us_periodStart :: int
  us_periodEnd :: int

definition getUsage :: "string \<Rightarrow> billing \<Rightarrow> billing_error + UsageSummary" where
  "getUsage subscriptionId s =
     (case require ''Subscription'' bl_subscriptions subscriptionId s of
        Inl e \<Rightarrow> Inl e
      | Inr sub \<Rightarrow>
          (case require ''Billing plan'' bl_plans (sub_planId sub) s of
             Inl e \<Rightarrow> Inl e
           | Inr plan \<Rightarrow>
               let charges = computeUsageCharges sub plan
               in Inr \<lparr>us_subscriptionId = sub_id sub, us_metrics = sub_usage sub,
                    us_totalUnits = uc_totalUnits charges, us_includedUnits = uc_includedUnits charges,
                    us_overageUnits = uc_overageUnits charges, us_usageAmount = uc_usageAmount charges,
                    us_meters = uc_meters charges, us_currency = bp_currency plan,
                    us_periodStart = sub_currentPeriodStart sub, us_periodEnd = sub_currentPeriodEnd sub\<rparr>))"

subsection \<open>Invoices\<close>

definition base_line :: "BillingPlan \<Rightarrow> rat \<Rightarrow> InvoiceLineItem" where
  "base_line plan fraction =
     (if fraction \<ge> 1
      then \<lparr>ili_description = BasePlanLine (bp_name plan), ili_quantity = 1,
            ili_unitPrice = bp_basePrice plan, ili_amount = bp_basePrice plan\<rparr>
      else \<lparr>ili_description = ProratedPlanLine (bp_name plan) (roundMoney (fraction * 100) 2),
            ili_quantity = roundMoney fraction 6, ili_unitPrice = bp_basePrice plan,
            ili_amount = roundMoney (bp_basePrice plan * fraction) 2\<rparr>)"

text \<open>The loop over the shares: the lines of the base price, or the plan that is missing.\<close>

fun base_lines :: "SegmentShare list \<Rightarrow> billing \<Rightarrow> billing_error + InvoiceLineItem list" where
  "base_lines [] s = Inr []"
| "base_lines (share # shares) s =
     (case require ''Billing plan'' bl_plans (shr_planId share) s of
        Inl e \<Rightarrow> Inl e
      | Inr plan \<Rightarrow>
          (case base_lines shares s of
             Inl e \<Rightarrow> Inl e
           | Inr lines \<Rightarrow> Inr (base_line plan (shr_fraction share) # lines)))"

definition discount_of :: "Subscription \<Rightarrow> rat \<Rightarrow> rat" where
  "discount_of sub subtotal =
     (case sub_discount sub of
        Some d \<Rightarrow>
          if isDiscountActive (sub_discount sub)
          then discountAmount (ad_discountType d) (ad_percentOff d) (ad_amountOff d) subtotal else 0
      | None \<Rightarrow> 0)"

definition discount_lines :: "Subscription \<Rightarrow> rat \<Rightarrow> InvoiceLineItem list" where
  "discount_lines sub discount =
     (case sub_discount sub of
        Some d \<Rightarrow>
          if discount > 0
          then [\<lparr>ili_description = DiscountLine (ad_code d), ili_quantity = 1,
                  ili_unitPrice = - discount, ili_amount = - discount\<rparr>]
          else []
      | None \<Rightarrow> [])"

definition createInvoice ::
  "string \<Rightarrow> Subscription \<Rightarrow> BillingPlan \<Rightarrow> InvoiceKind \<Rightarrow> int option \<Rightarrow> int \<Rightarrow>
   (billing, billing_error, Invoice) op" where
  "createInvoice uuid sub usagePlan kind until now s =
     (let periodEnd = sub_currentPeriodEnd sub;
          invoiceEnd = min (case until of Some t \<Rightarrow> t | None \<Rightarrow> periodEnd) periodEnd
      in case segmentShares (sub_planSegments sub) (sub_currentPeriodStart sub) periodEnd invoiceEnd of
           None \<Rightarrow> (Inl EmptyPeriod, s)
         | Some shares \<Rightarrow>
             (case base_lines shares s of
                Inl e \<Rightarrow> (Inl e, s)
              | Inr baseLines \<Rightarrow>
                  let baseAmount = roundMoney (sum_list (map ili_amount baseLines)) 2;
                      usage = computeUsageCharges sub usagePlan;
                      subtotal = roundMoney (baseAmount + uc_usageAmount usage) 2;
                      discount = discount_of sub subtotal;
                      invoice = \<lparr>inv_id = ''inv_'' @ uuid, inv_kind = kind,
                        inv_subscriptionId = sub_id sub, inv_merchantId = sub_merchantId sub,
                        inv_customerId = sub_customerId sub, inv_planId = bp_id usagePlan,
                        inv_periodStart = sub_currentPeriodStart sub, inv_periodEnd = invoiceEnd,
                        inv_currency = bp_currency usagePlan, inv_status = InvOpen,
                        inv_lineItems = baseLines @ uc_lineItems usage @ discount_lines sub discount,
                        inv_baseAmount = baseAmount, inv_usageAmount = uc_usageAmount usage,
                        inv_subtotal = subtotal, inv_discountAmount = discount,
                        inv_discountCode = (if discount > 0 then map_option ad_code (sub_discount sub) else None),
                        inv_total = roundMoney (subtotal - discount) 2, inv_dunning = None,
                        inv_paidAt = None, inv_createdAt = now\<rparr>
                  in (Inr invoice, put_invoice invoice s)))"

definition generateInvoice ::
  "string \<Rightarrow> string \<Rightarrow> int \<Rightarrow> (billing, billing_error, Invoice) op" where
  "generateInvoice uuid subscriptionId now s =
     (case require ''Subscription'' bl_subscriptions subscriptionId s of
        Inl e \<Rightarrow> (Inl e, s)
      | Inr sub \<Rightarrow>
          (case require ''Billing plan'' bl_plans (sub_planId sub) s of
             Inl e \<Rightarrow> (Inl e, s)
           | Inr plan \<Rightarrow> createInvoice uuid sub plan PeriodInvoice None now s))"

definition getInvoice :: "string \<Rightarrow> billing \<Rightarrow> Invoice option" where
  "getInvoice i s = js_get (bl_invoices s) i"

definition listInvoices ::
  "string option \<Rightarrow> string option \<Rightarrow> InvoiceStatus option \<Rightarrow> billing \<Rightarrow> Invoice list" where
  "listInvoices subscriptionId merchantId status s =
     filter (\<lambda>invoice. falsy_or subscriptionId (inv_subscriptionId invoice) \<and>
         falsy_or merchantId (inv_merchantId invoice) \<and>
         (status = None \<or> status = Some (inv_status invoice)))
       (js_values (bl_invoices s))"

text \<open>A past-due subscription becomes active again when none of its invoices is being retried.\<close>

definition retrying :: "Invoice \<Rightarrow> bool" where
  "retrying invoice \<longleftrightarrow> (case inv_dunning invoice of Some d \<Rightarrow> dun_status d = DunRetrying | None \<Rightarrow> False)"

definition reactivateIfSettled :: "string \<Rightarrow> int \<Rightarrow> billing \<Rightarrow> billing" where
  "reactivateIfSettled subscriptionId now s =
     (case js_get (bl_subscriptions s) subscriptionId of
        None \<Rightarrow> s
      | Some sub \<Rightarrow>
          if sub_status sub \<noteq> SubPastDue then s
          else if list_ex (\<lambda>invoice. inv_subscriptionId invoice = subscriptionId \<and> retrying invoice)
              (js_values (bl_invoices s)) then s
          else put_subscription (sub\<lparr>sub_status := SubActive, sub_updatedAt := now\<rparr>) s)"

text \<open>Ending a dunning that is under way.\<close>

definition end_dunning :: "DunningStatus \<Rightarrow> int \<Rightarrow> Invoice \<Rightarrow> Invoice" where
  "end_dunning status now invoice =
     (if retrying invoice
      then invoice\<lparr>inv_dunning := map_option (\<lambda>d. d\<lparr>dun_status := status, dun_nextRetryAt := None,
             dun_endedAt := Some now\<rparr>) (inv_dunning invoice)\<rparr>
      else invoice)"

definition markInvoicePaid :: "string \<Rightarrow> int \<Rightarrow> (billing, billing_error, Invoice) op" where
  "markInvoicePaid i now s =
     (case require ''Invoice'' bl_invoices i s of
        Inl e \<Rightarrow> (Inl e, s)
      | Inr invoice \<Rightarrow>
          (case validate_code (inv_status invoice \<in> {InvOpen, InvUncollectible})
              (''Invoice in status '' @ inv_status_name (inv_status invoice) @ '' cannot be paid'') ''CONFLICT'' of
             Some e \<Rightarrow> (Inl (ServiceErr e), s)
           | None \<Rightarrow>
               let invoice' = end_dunning DunRecovered now
                     (invoice\<lparr>inv_status := InvPaid, inv_paidAt := Some now\<rparr>)
               in (Inr invoice', reactivateIfSettled (inv_subscriptionId invoice) now (put_invoice invoice' s))))"

definition voidInvoice :: "string \<Rightarrow> int \<Rightarrow> (billing, billing_error, Invoice) op" where
  "voidInvoice i now s =
     (case require ''Invoice'' bl_invoices i s of
        Inl e \<Rightarrow> (Inl e, s)
      | Inr invoice \<Rightarrow>
          if inv_status invoice = InvPaid
          then (Inl (ServiceErr (conflict ''A paid invoice cannot be voided'')), s)
          else
            let invoice' = end_dunning DunStopped now (invoice\<lparr>inv_status := InvVoid\<rparr>)
            in (Inr invoice', reactivateIfSettled (inv_subscriptionId invoice) now (put_invoice invoice' s)))"

definition consumeDiscountPeriod :: "Subscription \<Rightarrow> Subscription" where
  "consumeDiscountPeriod sub =
     (case sub_discount sub of
        None \<Rightarrow> sub
      | Some d \<Rightarrow>
          if ad_duration d = Forever then sub
          else
            let left = or_zero (ad_remainingPeriods d) - 1
            in if left \<le> 0 then sub\<lparr>sub_discount := None\<rparr>
               else sub\<lparr>sub_discount := Some (d\<lparr>ad_remainingPeriods := Some left\<rparr>)\<rparr>)"

definition next_period :: "BillingPlan \<Rightarrow> Invoice \<Rightarrow> int \<Rightarrow> Subscription \<Rightarrow> Subscription" where
  "next_period plan invoice now sub =
     (let periodStart = sub_currentPeriodEnd sub;
          rolled = consumeDiscountPeriod (sub\<lparr>sub_currentPeriodStart := periodStart,
            sub_currentPeriodEnd := periodStart + interval_days (bp_billingInterval plan) * BILLING_DAY_MS,
            sub_usage := [], sub_meterReadings := [],
            sub_planSegments := [\<lparr>seg_planId = bp_id plan, seg_startedAt = periodStart\<rparr>],
            sub_updatedAt := now\<rparr>);
          started = (if sub_status rolled = SubTrialing \<and>
              (case sub_trialEndsAt rolled of Some t \<Rightarrow> t \<le> inv_periodEnd invoice | None \<Rightarrow> False)
            then rolled\<lparr>sub_status := SubActive\<rparr> else rolled)
      in if sub_cancelAtPeriodEnd started
         then started\<lparr>sub_status := SubCancelled, sub_canceledAt := Some now\<rparr> else started)"

definition closeBillingPeriod ::
  "string \<Rightarrow> string \<Rightarrow> int \<Rightarrow> (billing, billing_error, Invoice \<times> Subscription) op" where
  "closeBillingPeriod uuid subscriptionId now s =
     (case require ''Subscription'' bl_subscriptions subscriptionId s of
        Inl e \<Rightarrow> (Inl e, s)
      | Inr sub \<Rightarrow>
          (case require ''Billing plan'' bl_plans (sub_planId sub) s of
             Inl e \<Rightarrow> (Inl e, s)
           | Inr plan \<Rightarrow>
               (case generateInvoice uuid subscriptionId now s of
                  (Inl e, s1) \<Rightarrow> (Inl e, s1)
                | (Inr invoice, s1) \<Rightarrow>
                    let sub' = next_period plan invoice now sub
                    in (Inr (invoice, sub'), put_subscription sub' s1))))"

subsection \<open>Plan changes\<close>

record PlanChangePreview =
  pcv_subscriptionId :: string
  pcv_currentPlanId :: string
  pcv_newPlanId :: string
  pcv_currency :: string
  pcv_changeAt :: int
  pcv_intervalChange :: bool
  pcv_quote :: ProrationQuote

record PlanChangeResult =
  pcr_subscription :: Subscription
  pcr_proration :: "PlanChangePreview option"
  pcr_invoice :: "Invoice option"

definition resolvePlanChange ::
  "string \<Rightarrow> string \<Rightarrow> billing \<Rightarrow> billing_error + Subscription \<times> BillingPlan \<times> BillingPlan" where
  "resolvePlanChange subscriptionId planId s =
     (case require ''Subscription'' bl_subscriptions subscriptionId s of
        Inl e \<Rightarrow> Inl e
      | Inr sub \<Rightarrow>
          if sub_status sub = SubCancelled
          then Inl (ServiceErr (conflict ''Cannot change the plan of a cancelled subscription''))
          else (case require ''Billing plan'' bl_plans (sub_planId sub) s of
              Inl e \<Rightarrow> Inl e
            | Inr currentPlan \<Rightarrow>
                (case require ''Billing plan'' bl_plans planId s of
                   Inl e \<Rightarrow> Inl e
                 | Inr newPlan \<Rightarrow>
                     if bp_id newPlan = bp_id currentPlan
                     then Inl (ServiceErr (conflict ''Subscription is already on this plan''))
                     else if bp_currency newPlan \<noteq> bp_currency currentPlan
                     then Inl (invalid (''Cannot change from a '' @ bp_currency currentPlan @
                            '' plan to a '' @ bp_currency newPlan @ '' plan''))
                     else Inr (sub, currentPlan, newPlan))))"

definition buildPlanChangePreview ::
  "Subscription \<Rightarrow> BillingPlan \<Rightarrow> BillingPlan \<Rightarrow> int \<Rightarrow> billing_error + PlanChangePreview" where
  "buildPlanChangePreview sub currentPlan newPlan now =
     (case quoteProration (bp_basePrice currentPlan) (bp_basePrice newPlan) (sub_currentPeriodStart sub)
         (sub_currentPeriodEnd sub) now of
        None \<Rightarrow> Inl EmptyPeriod
      | Some quote \<Rightarrow>
          Inr \<lparr>pcv_subscriptionId = sub_id sub, pcv_currentPlanId = bp_id currentPlan,
               pcv_newPlanId = bp_id newPlan, pcv_currency = bp_currency currentPlan, pcv_changeAt = now,
               pcv_intervalChange = (bp_billingInterval currentPlan \<noteq> bp_billingInterval newPlan),
               pcv_quote = quote\<rparr>)"

definition previewPlanChange ::
  "string \<Rightarrow> string \<Rightarrow> int \<Rightarrow> billing \<Rightarrow> billing_error + PlanChangePreview" where
  "previewPlanChange subscriptionId planId now s =
     (case resolvePlanChange subscriptionId planId s of
        Inl e \<Rightarrow> Inl e
      | Inr (sub, currentPlan, newPlan) \<Rightarrow> buildPlanChangePreview sub currentPlan newPlan now)"

text \<open>The three ways in which the subscription is changed.\<close>

definition change_in_trial :: "BillingPlan \<Rightarrow> bool \<Rightarrow> int \<Rightarrow> Subscription \<Rightarrow> Subscription" where
  "change_in_trial newPlan intervalChange now sub =
     sub\<lparr>sub_planId := bp_id newPlan,
         sub_planSegments := [\<lparr>seg_planId = bp_id newPlan, seg_startedAt = sub_currentPeriodStart sub\<rparr>],
         sub_currentPeriodEnd := (if intervalChange
           then sub_currentPeriodStart sub + interval_days (bp_billingInterval newPlan) * BILLING_DAY_MS
           else sub_currentPeriodEnd sub),
         sub_updatedAt := now\<rparr>"

definition change_invoiced :: "BillingPlan \<Rightarrow> bool \<Rightarrow> int \<Rightarrow> Subscription \<Rightarrow> Subscription" where
  "change_invoiced newPlan intervalChange now sub =
     (let cleared = sub\<lparr>sub_usage := [], sub_meterReadings := []\<rparr>;
          moved = (if intervalChange
            then consumeDiscountPeriod (cleared\<lparr>sub_currentPeriodStart := now,
              sub_currentPeriodEnd := now + interval_days (bp_billingInterval newPlan) * BILLING_DAY_MS\<rparr>)
            else cleared)
      in moved\<lparr>sub_planSegments := [\<lparr>seg_planId = bp_id newPlan, seg_startedAt = now\<rparr>],
               sub_planId := bp_id newPlan, sub_updatedAt := now\<rparr>)"

definition change_uninvoiced :: "BillingPlan \<Rightarrow> ProrationBehavior \<Rightarrow> int \<Rightarrow> Subscription \<Rightarrow> Subscription" where
  "change_uninvoiced newPlan behavior now sub =
     sub\<lparr>sub_planSegments := (if behavior = CreateProrations
           then sub_planSegments sub @ [\<lparr>seg_planId = bp_id newPlan, seg_startedAt = now\<rparr>]
           else [\<lparr>seg_planId = bp_id newPlan, seg_startedAt = sub_currentPeriodStart sub\<rparr>]),
         sub_planId := bp_id newPlan, sub_updatedAt := now\<rparr>"

definition changePlan ::
  "string \<Rightarrow> string \<Rightarrow> string \<Rightarrow> ProrationBehavior option \<Rightarrow> int \<Rightarrow>
   (billing, billing_error, PlanChangeResult) op" where
  "changePlan uuid subscriptionId planId behavior' now s =
     (let behavior = (case behavior' of Some b \<Rightarrow> b | None \<Rightarrow> CreateProrations)
      in case resolvePlanChange subscriptionId planId s of
           Inl e \<Rightarrow> (Inl e, s)
         | Inr (sub, currentPlan, newPlan) \<Rightarrow>
             let intervalChange = (bp_billingInterval currentPlan \<noteq> bp_billingInterval newPlan)
             in if sub_status sub = SubTrialing
                then let sub' = change_in_trial newPlan intervalChange now sub
                     in (Inr \<lparr>pcr_subscription = sub', pcr_proration = None, pcr_invoice = None\<rparr>,
                         put_subscription sub' s)
                else if intervalChange \<and> behavior = NoProration
                then (Inl (invalid ''Changing billing interval requires proration (create_prorations or always_invoice)''), s)
                else
                  (case (if behavior = NoProration then Inr None
                         else map_sum id Some (buildPlanChangePreview sub currentPlan newPlan now)) of
                     Inl e \<Rightarrow> (Inl e, s)
                   | Inr proration \<Rightarrow>
                       if intervalChange \<or> behavior = AlwaysInvoice
                       then (case createInvoice uuid sub currentPlan PlanChangeInvoice (Some now) now s of
                               (Inl e, s1) \<Rightarrow> (Inl e, s1)
                             | (Inr invoice, s1) \<Rightarrow>
                                 let sub' = change_invoiced newPlan intervalChange now sub
                                 in (Inr \<lparr>pcr_subscription = sub', pcr_proration = proration,
                                          pcr_invoice = Some invoice\<rparr>,
                                     put_subscription sub' s1))
                       else let sub' = change_uninvoiced newPlan behavior now sub
                            in (Inr \<lparr>pcr_subscription = sub', pcr_proration = proration, pcr_invoice = None\<rparr>,
                                put_subscription sub' s)))"

subsection \<open>Promo codes\<close>

datatype validation_reason = PromoUnknown | NotRedeemable redemption_reason

record PromoCodeValidation =
  pval_valid :: bool
  pval_reason :: "validation_reason option"
  pval_promoCode :: "PromoCode option"
  pval_estimatedDiscount :: "rat option"

definition new_promo :: "string \<Rightarrow> PromoCodeInput \<Rightarrow> int \<Rightarrow> PromoCode" where
  "new_promo uuid input now =
     \<lparr>pc_id = ''promo_'' @ uuid, pc_code = normalizeCode (pci_code input),
      pc_description = pci_description input, pc_merchantId = pci_merchantId input,
      pc_discountType = pci_discountType input, pc_percentOff = pci_percentOff input,
      pc_amountOff = map_option (\<lambda>a. roundMoney a 2) (pci_amountOff input),
      pc_currency = map_option to_upper (pci_currency input),
      pc_duration = (case pci_duration input of Some d \<Rightarrow> d | None \<Rightarrow> Once),
      pc_durationInPeriods = pci_durationInPeriods input,
      pc_maxRedemptions = pci_maxRedemptions input,
      pc_perCustomerLimit = (case pci_perCustomerLimit input of Some n \<Rightarrow> n | None \<Rightarrow> 1),
      pc_appliesToPlanIds = pci_appliesToPlanIds input, pc_minimumAmount = pci_minimumAmount input,
      pc_startsAt = pci_startsAt input, pc_expiresAt = pci_expiresAt input, pc_active = True,
      pc_timesRedeemed = 0, pc_createdAt = now\<rparr>"

definition createPromoCode ::
  "string \<Rightarrow> PromoCodeInput \<Rightarrow> int \<Rightarrow> (billing, billing_error, PromoCode) op" where
  "createPromoCode uuid input now s =
     (case validatePromoCodeInput input of
        Some e \<Rightarrow> (Inl (invalid e), s)
      | None \<Rightarrow>
          if js_get (bl_promoCodeIds s) (normalizeCode (pci_code input)) \<noteq> None
          then (Inl (ServiceErr (conflict
                  (''Promo code '' @ normalizeCode (pci_code input) @ '' already exists''))), s)
          else
            (case find (\<lambda>planId. js_get (bl_plans s) planId = None)
                (case pci_appliesToPlanIds input of Some ids \<Rightarrow> ids | None \<Rightarrow> []) of
               Some planId \<Rightarrow> (Inl (ServiceErr (notFound ''Billing plan'' planId)), s)
             | None \<Rightarrow>
                 let promo = new_promo uuid input now
                 in (Inr promo,
                     s\<lparr>bl_promoCodes := js_set (pc_id promo) promo (bl_promoCodes s),
                       bl_promoCodeIds := js_set (pc_code promo) (pc_id promo) (bl_promoCodeIds s)\<rparr>)))"

definition listPromoCodes :: "string option \<Rightarrow> bool option \<Rightarrow> billing \<Rightarrow> PromoCode list" where
  "listPromoCodes merchantId active s =
     filter (\<lambda>promo. (\<not> truthy merchantId \<or> pc_merchantId promo = merchantId) \<and>
         (active = None \<or> active = Some (pc_active promo)))
       (js_values (bl_promoCodes s))"

definition deactivatePromoCode :: "string \<Rightarrow> (billing, billing_error, PromoCode) op" where
  "deactivatePromoCode idOrCode s =
     (case getPromoCode idOrCode s of
        None \<Rightarrow> (Inl (ServiceErr (notFound ''Promo code'' idOrCode)), s)
      | Some promo \<Rightarrow>
          let promo' = promo\<lparr>pc_active := False\<rparr>
          in (Inr promo', s\<lparr>bl_promoCodes := js_set (pc_id promo) promo' (bl_promoCodes s)\<rparr>))"

definition validatePromoCode ::
  "string \<Rightarrow> string \<Rightarrow> string \<Rightarrow> string \<Rightarrow> int \<Rightarrow> billing \<Rightarrow> billing_error + PromoCodeValidation" where
  "validatePromoCode code merchantId customerId planId now s =
     (case require ''Billing plan'' bl_plans planId s of
        Inl e \<Rightarrow> Inl e
      | Inr plan \<Rightarrow>
          (case getPromoCode code s of
             None \<Rightarrow> Inr \<lparr>pval_valid = False, pval_reason = Some PromoUnknown, pval_promoCode = None,
                        pval_estimatedDiscount = None\<rparr>
           | Some promo \<Rightarrow>
               (case redemptionError promo (redemptionContext promo merchantId customerId plan now s) of
                  Some reason \<Rightarrow> Inr \<lparr>pval_valid = False, pval_reason = Some (NotRedeemable reason),
                                  pval_promoCode = Some promo, pval_estimatedDiscount = None\<rparr>
                | None \<Rightarrow> Inr \<lparr>pval_valid = True, pval_reason = None, pval_promoCode = Some promo,
                            pval_estimatedDiscount = Some (discountAmount (pc_discountType promo)
                              (pc_percentOff promo) (pc_amountOff promo) (bp_basePrice plan))\<rparr>)))"

definition applyPromoCode :: "string \<Rightarrow> string \<Rightarrow> int \<Rightarrow> (billing, billing_error, Subscription) op" where
  "applyPromoCode subscriptionId code now s =
     (case require ''Subscription'' bl_subscriptions subscriptionId s of
        Inl e \<Rightarrow> (Inl e, s)
      | Inr sub \<Rightarrow>
          if sub_status sub = SubCancelled
          then (Inl (ServiceErr (conflict ''Cannot apply a promo code to a cancelled subscription'')), s)
          else if isDiscountActive (sub_discount sub)
          then (Inl (ServiceErr (conflict ''Subscription already has an active discount; remove it first'')), s)
          else
            (case require ''Billing plan'' bl_plans (sub_planId sub) s of
               Inl e \<Rightarrow> (Inl e, s)
             | Inr plan \<Rightarrow>
                 (case requireRedeemable code (sub_merchantId sub) (sub_customerId sub) plan now s of
                    Inl e \<Rightarrow> (Inl e, s)
                  | Inr promo \<Rightarrow> let (sub', s') = redeem sub promo now s in (Inr sub', s'))))"

definition removeDiscount :: "string \<Rightarrow> int \<Rightarrow> (billing, billing_error, Subscription) op" where
  "removeDiscount subscriptionId now s =
     (case require ''Subscription'' bl_subscriptions subscriptionId s of
        Inl e \<Rightarrow> (Inl e, s)
      | Inr sub \<Rightarrow>
          if sub_discount sub = None
          then (Inl (ServiceErr (notFound ''Discount on subscription'' subscriptionId)), s)
          else let sub' = sub\<lparr>sub_discount := None, sub_updatedAt := now\<rparr>
               in (Inr sub', put_subscription sub' s))"

definition listPromoRedemptions :: "string \<Rightarrow> billing \<Rightarrow> PromoRedemption list" where
  "listPromoRedemptions promoCodeId s =
     filter (\<lambda>r. red_promoCodeId r = promoCodeId) (bl_promoRedemptions s)"

subsection \<open>Dunning\<close>

definition getDunningConfig :: "string \<Rightarrow> billing \<Rightarrow> DunningConfig" where
  "getDunningConfig merchantId s =
     (case js_get (bl_dunningConfigs s) merchantId of
        Some config \<Rightarrow> config
      | None \<Rightarrow> \<lparr>dc_merchantId = merchantId, dc_retryScheduleDays = DEFAULT_RETRY_SCHEDULE_DAYS,
                 dc_finalAction = DEFAULT_FINAL_ACTION, dc_updatedAt = None\<rparr>)"

definition configureDunning ::
  "string \<Rightarrow> rat list option \<Rightarrow> DunningFinalAction option \<Rightarrow> int \<Rightarrow>
   (billing, billing_error, DunningConfig) op" where
  "configureDunning merchantId retryScheduleDays finalAction now s =
     (if merchantId = [] then (Inl (invalid ''merchantId is required''), s)
      else
        let current = getDunningConfig merchantId s;
            days = (case retryScheduleDays of Some ds \<Rightarrow> ds | None \<Rightarrow> dc_retryScheduleDays current)
        in case validateRetrySchedule days of
             Some e \<Rightarrow> (Inl (invalid e), s)
           | None \<Rightarrow>
               let config = \<lparr>dc_merchantId = merchantId, dc_retryScheduleDays = days,
                     dc_finalAction = (case finalAction of Some a \<Rightarrow> a | None \<Rightarrow> dc_finalAction current),
                     dc_updatedAt = Some now\<rparr>
               in (Inr config, s\<lparr>bl_dunningConfigs := js_set merchantId config (bl_dunningConfigs s)\<rparr>))"

text \<open>A further attempt in the history of a dunning.\<close>

definition count_attempt :: "PaymentAttemptResult \<Rightarrow> int \<Rightarrow> DunningState \<Rightarrow> DunningState" where
  "count_attempt result now d =
     d\<lparr>dun_retriesAttempted := dun_retriesAttempted d + 1,
       dun_history := dun_history d @
         [\<lparr>da_attempt = dun_retriesAttempted d + 1, da_attemptedAt = now, da_success = par_success result,
           da_failureReason = (if par_success result then None else par_failureReason result)\<rparr>]\<rparr>"

definition start_dunning :: "DunningConfig \<Rightarrow> PaymentAttemptResult \<Rightarrow> int \<Rightarrow> rat \<Rightarrow> DunningState" where
  "start_dunning config result now next =
     \<lparr>dun_status = DunRetrying, dun_startedAt = now,
      dun_retryScheduleDays = dc_retryScheduleDays config, dun_finalAction = dc_finalAction config,
      dun_retriesAttempted = 0, dun_nextRetryAt = Some (iso_time next),
      dun_history = [\<lparr>da_attempt = 0, da_attemptedAt = now, da_success = False,
        da_failureReason = par_failureReason result\<rparr>],
      dun_endedAt = None\<rparr>"

text \<open>The subscription of a first failure, and that of an exhausted dunning.\<close>

definition fall_past_due :: "string \<Rightarrow> int \<Rightarrow> billing \<Rightarrow> billing" where
  "fall_past_due subscriptionId now s =
     (case js_get (bl_subscriptions s) subscriptionId of
        None \<Rightarrow> s
      | Some sub \<Rightarrow>
          if sub_status sub = SubActive \<or> sub_status sub = SubTrialing
          then put_subscription (sub\<lparr>sub_status := SubPastDue, sub_updatedAt := now\<rparr>) s else s)"

definition final_action :: "DunningFinalAction \<Rightarrow> string \<Rightarrow> int \<Rightarrow> billing \<Rightarrow> billing" where
  "final_action action subscriptionId now s =
     (case js_get (bl_subscriptions s) subscriptionId of
        None \<Rightarrow> s
      | Some sub \<Rightarrow>
          if action = CancelSubscription \<and> sub_status sub \<noteq> SubCancelled
          then put_subscription (sub\<lparr>sub_status := SubCancelled, sub_canceledAt := Some now,
                 sub_updatedAt := now\<rparr>) s
          else s)"

definition recordPaymentAttempt ::
  "string \<Rightarrow> PaymentAttemptResult \<Rightarrow> int \<Rightarrow> (billing, billing_error, Invoice) op" where
  "recordPaymentAttempt i result now s =
     (case require ''Invoice'' bl_invoices i s of
        Inl e \<Rightarrow> (Inl e, s)
      | Inr invoice \<Rightarrow>
          if inv_status invoice \<noteq> InvOpen
          then (Inl (ServiceErr (conflict (''Cannot record a payment attempt for a '' @
                  inv_status_name (inv_status invoice) @ '' invoice''))), s)
          else
            let dunning = (if retrying invoice then inv_dunning invoice else None)
            in if par_success result
               then markInvoicePaid i now
                 (case dunning of
                    None \<Rightarrow> s
                  | Some d \<Rightarrow> put_invoice (invoice\<lparr>inv_dunning := Some (count_attempt result now d)\<rparr>) s)
               else
                 (case dunning of
                    None \<Rightarrow>
                      (let config = getDunningConfig (inv_merchantId invoice) s
                       in case nextRetryAt now (dc_retryScheduleDays config) 0 of
                            None \<Rightarrow> (Inl InvalidTime, s)
                          | Some next \<Rightarrow>
                              let invoice' = invoice\<lparr>inv_dunning := Some (start_dunning config result now next)\<rparr>
                              in (Inr invoice',
                                  fall_past_due (inv_subscriptionId invoice) now (put_invoice invoice' s)))
                  | Some d \<Rightarrow>
                      (let d' = count_attempt result now d
                       in case nextRetryAt (dun_startedAt d) (dun_retryScheduleDays d) (dun_retriesAttempted d') of
                            Some next \<Rightarrow>
                              let invoice' = invoice\<lparr>inv_dunning :=
                                    Some (d'\<lparr>dun_nextRetryAt := Some (iso_time next)\<rparr>)\<rparr>
                              in (Inr invoice', put_invoice invoice' s)
                          | None \<Rightarrow>
                              let invoice' = invoice\<lparr>inv_status := InvUncollectible, inv_dunning :=
                                    Some (d'\<lparr>dun_status := DunExhausted, dun_nextRetryAt := None,
                                            dun_endedAt := Some now\<rparr>)\<rparr>
                              in (Inr invoice',
                                  final_action (dun_finalAction d) (inv_subscriptionId invoice) now
                                    (put_invoice invoice' s)))))"

definition listDunningInvoices :: "string option \<Rightarrow> DunningStatus option \<Rightarrow> billing \<Rightarrow> Invoice list" where
  "listDunningInvoices merchantId status s =
     filter (\<lambda>invoice. case inv_dunning invoice of
           None \<Rightarrow> False
         | Some d \<Rightarrow> falsy_or merchantId (inv_merchantId invoice) \<and>
             (status = None \<or> status = Some (dun_status d)))
       (js_values (bl_invoices s))"

text \<open>
  \<open>processDunning\<close> awaits the attempter for each due invoice. The parameter \<open>attempter\<close> gives its
  outcome, the state in which the run goes on (other operations may have run in between) and the
  time then. A rejection with something that is not an \<open>Error\<close> has no message.
\<close>

datatype attempt_outcome = Resolved PaymentAttemptResult | Rejected "string option"

definition attempt_result :: "attempt_outcome \<Rightarrow> PaymentAttemptResult" where
  "attempt_result out =
     (case out of
        Resolved r \<Rightarrow> r
      | Rejected m \<Rightarrow> \<lparr>par_success = False,
          par_failureReason = Some (case m of Some msg \<Rightarrow> msg | None \<Rightarrow> ''Payment attempt failed'')\<rparr>)"

definition due_invoice :: "int \<Rightarrow> Invoice \<Rightarrow> bool" where
  "due_invoice now invoice \<longleftrightarrow> inv_status invoice = InvOpen \<and>
     (case Option.bind (inv_dunning invoice) dun_nextRetryAt of Some t \<Rightarrow> t \<le> now | None \<Rightarrow> False)"

definition tally_attempt :: "Invoice \<Rightarrow> DunningRunResult \<Rightarrow> DunningRunResult" where
  "tally_attempt updated result =
     (let counted = result\<lparr>drr_processed := drr_processed result + 1\<rparr>
      in if inv_status updated = InvPaid
         then counted\<lparr>drr_recovered := drr_recovered counted @ [inv_id updated]\<rparr>
         else if (case inv_dunning updated of Some d \<Rightarrow> dun_status d = DunExhausted | None \<Rightarrow> False)
         then counted\<lparr>drr_exhausted := drr_exhausted counted @ [inv_id updated]\<rparr>
         else counted\<lparr>drr_failed := drr_failed counted @ [inv_id updated]\<rparr>)"

fun dunning_run ::
  "(Invoice \<Rightarrow> billing \<Rightarrow> attempt_outcome \<times> billing \<times> int) \<Rightarrow> Invoice list \<Rightarrow> DunningRunResult \<Rightarrow>
   (billing, billing_error, DunningRunResult) op" where
  "dunning_run attempter [] result s = (Inr result, s)"
| "dunning_run attempter (invoice # invoices) result s =
     (let live = (case js_get (bl_invoices s) (inv_id invoice) of Some v \<Rightarrow> v | None \<Rightarrow> invoice);
          (outcome, s1, now1) = attempter live s
      in case recordPaymentAttempt (inv_id invoice) (attempt_result outcome) now1 s1 of
           (Inl e, s2) \<Rightarrow> (Inl e, s2)
         | (Inr updated, s2) \<Rightarrow> dunning_run attempter invoices (tally_attempt updated result) s2)"

definition processDunning ::
  "(Invoice \<Rightarrow> billing \<Rightarrow> attempt_outcome \<times> billing \<times> int) option \<Rightarrow> int \<Rightarrow>
   (billing, billing_error, DunningRunResult) op" where
  "processDunning attempter now s =
     (case attempter of
        None \<Rightarrow> (Inl (ServiceErr (conflict ''No payment attempter is configured for dunning retries'')), s)
      | Some f \<Rightarrow>
          dunning_run f (filter (due_invoice now) (listDunningInvoices None (Some DunRetrying) s))
            \<lparr>drr_processed = 0, drr_recovered = [], drr_failed = [], drr_exhausted = []\<rparr> s)"

definition new_billing :: billing where
  "new_billing = \<lparr>bl_plans = [], bl_subscriptions = [], bl_usageEvents = [], bl_usageIdempotency = [],
     bl_invoices = [], bl_promoCodes = [], bl_promoCodeIds = [], bl_promoRedemptions = [],
     bl_dunningConfigs = []\<rparr>"

definition reset_billing :: "billing \<Rightarrow> billing" where
  "reset_billing s = new_billing"

end
