(* ===== verification/BillingSteps.thy ===== *)
theory BillingSteps
  imports Subscriptions BillingProps
begin

text \<open>
  The operations of subscription billing as a step relation, what each of them leaves alone, and
  case rules for the larger ones: the few ways in which a call can change the state.
\<close>

subsection \<open>The states that can be reached\<close>

text \<open>
  One step is one call, whether it succeeds or throws. The identifiers that \<open>randomUUID\<close> returns are
  not in use yet. A run of \<open>processDunning\<close> is a sequence of such steps (\<open>dunning_run_steps\<close>).
\<close>

definition fresh_in :: "(string, 'v) jsmap \<Rightarrow> string \<Rightarrow> bool" where
  "fresh_in m i \<longleftrightarrow> js_get m i = None"

inductive billing_step :: "billing \<Rightarrow> billing \<Rightarrow> bool" where
  do_createPlan: "billing_step s (snd (createBillingPlan uuid plan_input now s))"
| do_subscribe: "fresh_in (bl_subscriptions s) (''sub_'' @ uuid) \<Longrightarrow>
    billing_step s (snd (subscribe uuid sub_input now s))"
| do_cancelSubscription: "billing_step s (snd (cancelSubscription i atPeriodEnd now s))"
| do_changePlan: "fresh_in (bl_invoices s) (''inv_'' @ uuid) \<Longrightarrow>
    billing_step s (snd (changePlan uuid i planId behavior now s))"
| do_recordUsage: "billing_step s (snd (recordUsage uuid i metric quantity key now s))"
| do_generateInvoice: "fresh_in (bl_invoices s) (''inv_'' @ uuid) \<Longrightarrow>
    billing_step s (snd (generateInvoice uuid i now s))"
| do_closeBillingPeriod: "fresh_in (bl_invoices s) (''inv_'' @ uuid) \<Longrightarrow>
    billing_step s (snd (closeBillingPeriod uuid i now s))"
| do_markInvoicePaid: "billing_step s (snd (markInvoicePaid i now s))"
| do_voidInvoice: "billing_step s (snd (voidInvoice i now s))"
| do_createPromoCode: "fresh_in (bl_promoCodes s) (''promo_'' @ uuid) \<Longrightarrow>
    billing_step s (snd (createPromoCode uuid promo_input now s))"
| do_deactivatePromoCode: "billing_step s (snd (deactivatePromoCode i s))"
| do_applyPromoCode: "billing_step s (snd (applyPromoCode i code now s))"
| do_removeDiscount: "billing_step s (snd (removeDiscount i now s))"
| do_configureDunning: "billing_step s (snd (configureDunning m days action now s))"
| do_recordPaymentAttempt: "billing_step s (snd (recordPaymentAttempt i attempt now s))"

inductive billing_reachable :: "billing \<Rightarrow> bool" where
  billing_start: "billing_reachable new_billing"
| billing_next: "billing_reachable s \<Longrightarrow> billing_step s s' \<Longrightarrow> billing_reachable s'"

lemma dunning_run_steps:
  assumes "\<And>invoice s. billing_step\<^sup>*\<^sup>* s (fst (snd (attempter invoice s)))"
  shows "billing_step\<^sup>*\<^sup>* s (snd (dunning_run attempter invoices result s))"
proof (induction invoices arbitrary: result s)
  case (Cons invoice invoices)
  obtain outcome s1 now1 where call:
    "attempter (case js_get (bl_invoices s) (inv_id invoice) of Some v \<Rightarrow> v | None \<Rightarrow> invoice) s = (outcome, s1, now1)"
    by (metis prod_cases3)
  have first: "billing_step\<^sup>*\<^sup>* s s1"
    using assms [of s "case js_get (bl_invoices s) (inv_id invoice) of Some v \<Rightarrow> v | None \<Rightarrow> invoice"] call by simp
  obtain r s2 where rec: "recordPaymentAttempt (inv_id invoice) (attempt_result outcome) now1 s1 = (r, s2)"
    by (cases "recordPaymentAttempt (inv_id invoice) (attempt_result outcome) now1 s1")
  have "billing_step s1 s2"
    using do_recordPaymentAttempt [of s1 "inv_id invoice" "attempt_result outcome" now1] rec by simp
  with first have "billing_step\<^sup>*\<^sup>* s s2" by simp
  moreover have "snd (dunning_run attempter (invoice # invoices) result s) =
    (case r of Inl e \<Rightarrow> s2 | Inr updated \<Rightarrow> snd (dunning_run attempter invoices (tally_attempt updated result) s2))"
    using call rec by (cases r) simp_all
  ultimately show ?case using Cons.IH by (cases r) (auto intro: rtranclp_trans)
qed simp

subsection \<open>What each operation leaves alone\<close>

lemmas op_splits = sum.splits option.splits prod.splits if_splits

lemmas put_defs = put_subscription_def put_invoice_def

lemma require_Inr [simp]: "require resource store i s = Inr v \<longleftrightarrow> js_get (store s) i = Some v"
  by (simp add: require_def split: option.splits)

lemma createPlan_frame [simp]:
  "bl_subscriptions (snd (createBillingPlan uuid input now s)) = bl_subscriptions s"
  "bl_invoices (snd (createBillingPlan uuid input now s)) = bl_invoices s"
  "bl_usageEvents (snd (createBillingPlan uuid input now s)) = bl_usageEvents s"
  "bl_promoCodes (snd (createBillingPlan uuid input now s)) = bl_promoCodes s"
  "bl_promoCodeIds (snd (createBillingPlan uuid input now s)) = bl_promoCodeIds s"
  "bl_promoRedemptions (snd (createBillingPlan uuid input now s)) = bl_promoRedemptions s"
  "bl_dunningConfigs (snd (createBillingPlan uuid input now s)) = bl_dunningConfigs s"
  by (simp_all add: createBillingPlan_def Let_def split: option.splits)

lemma put_subscription_frame [simp]:
  "bl_plans (put_subscription sub s) = bl_plans s"
  "bl_invoices (put_subscription sub s) = bl_invoices s"
  "bl_usageEvents (put_subscription sub s) = bl_usageEvents s"
  "bl_promoCodes (put_subscription sub s) = bl_promoCodes s"
  "bl_promoCodeIds (put_subscription sub s) = bl_promoCodeIds s"
  "bl_promoRedemptions (put_subscription sub s) = bl_promoRedemptions s"
  "bl_dunningConfigs (put_subscription sub s) = bl_dunningConfigs s"
  "bl_subscriptions (put_subscription sub s) = js_set (sub_id sub) sub (bl_subscriptions s)"
  by (simp_all add: put_subscription_def)

lemma put_invoice_frame [simp]:
  "bl_plans (put_invoice invoice s) = bl_plans s"
  "bl_subscriptions (put_invoice invoice s) = bl_subscriptions s"
  "bl_usageEvents (put_invoice invoice s) = bl_usageEvents s"
  "bl_promoCodes (put_invoice invoice s) = bl_promoCodes s"
  "bl_promoCodeIds (put_invoice invoice s) = bl_promoCodeIds s"
  "bl_promoRedemptions (put_invoice invoice s) = bl_promoRedemptions s"
  "bl_dunningConfigs (put_invoice invoice s) = bl_dunningConfigs s"
  "bl_invoices (put_invoice invoice s) = js_set (inv_id invoice) invoice (bl_invoices s)"
  by (simp_all add: put_invoice_def)

text \<open>Only what concerns invoices and subscriptions changes when a payment is recorded.\<close>

definition same_rest :: "billing \<Rightarrow> billing \<Rightarrow> bool" where
  "same_rest s s' \<longleftrightarrow> bl_plans s' = bl_plans s \<and> bl_usageEvents s' = bl_usageEvents s \<and>
     bl_promoCodes s' = bl_promoCodes s \<and> bl_promoCodeIds s' = bl_promoCodeIds s \<and>
     bl_promoRedemptions s' = bl_promoRedemptions s \<and> bl_dunningConfigs s' = bl_dunningConfigs s"

lemma same_rest_puts [simp]:
  "same_rest s s" "same_rest s (put_subscription sub s') = same_rest s s'"
  "same_rest s (put_invoice invoice s') = same_rest s s'"
  by (simp_all add: same_rest_def)

lemma settle_rest [simp]:
  "same_rest s (reactivateIfSettled i now s') = same_rest s s'"
  "same_rest s (fall_past_due i now s') = same_rest s s'"
  "same_rest s (final_action a i now s') = same_rest s s'"
  by (simp_all add: reactivateIfSettled_def fall_past_due_def final_action_def split: option.splits)

lemma createInvoice_rest [simp]: "same_rest s (snd (createInvoice uuid sub plan kind until now s))"
  by (simp add: createInvoice_def Let_def split: op_splits)

lemma generateInvoice_rest [simp]: "same_rest s (snd (generateInvoice uuid i now s))"
  by (simp add: generateInvoice_def split: op_splits)

lemma closeBillingPeriod_rest [simp]: "same_rest s (snd (closeBillingPeriod uuid i now s))"
proof -
  have "same_rest s s1" if "generateInvoice uuid i now s = (r, s1)" for r s1
    using generateInvoice_rest [of s uuid i now] that by simp
  then show ?thesis
    by (auto simp: closeBillingPeriod_def Let_def split: op_splits)
qed

lemma createInvoice_cases:
  assumes "createInvoice uuid sub plan kind until now s = (r, s')"
  obtains (failed) e where "r = Inl e" "s' = s"
    | (made) v where "r = Inr v" "s' = put_invoice v s"
  using assms by (auto simp: createInvoice_def Let_def split: option.splits sum.splits)

text \<open>A plan change fails and leaves everything as it is, or changes the subscription in one of three ways.\<close>

lemma changePlan_cases:
  obtains (failed) "snd (changePlan uuid i planId behavior now s) = s"
  | (uninvoiced) sub cur new sub' b where "js_get (bl_subscriptions s) i = Some sub" "sub_status sub \<noteq> SubCancelled"
      "sub' = change_in_trial new b now sub \<or> sub' = change_uninvoiced new (case behavior of Some x \<Rightarrow> x | None \<Rightarrow> CreateProrations) now sub"
      "snd (changePlan uuid i planId behavior now s) = put_subscription sub' s"
  | (invoiced) sub cur new b v where "js_get (bl_subscriptions s) i = Some sub" "sub_status sub \<noteq> SubCancelled"
      "js_get (bl_plans s) (sub_planId sub) = Some cur"
      "createInvoice uuid sub cur PlanChangeInvoice (Some now) now s = (Inr v, put_invoice v s)"
      "snd (changePlan uuid i planId behavior now s) =
        put_subscription (change_invoiced new b now sub) (put_invoice v s)"
proof (cases "resolvePlanChange i planId s")
  case (Inl e)
  then have "snd (changePlan uuid i planId behavior now s) = s" by (simp add: changePlan_def)
  then show ?thesis by (rule failed)
next
  case (Inr found)
  then obtain sub cur new where found: "resolvePlanChange i planId s = Inr (sub, cur, new)" by (cases found) simp
  then have sub: "js_get (bl_subscriptions s) i = Some sub" "sub_status sub \<noteq> SubCancelled"
    and cur: "js_get (bl_plans s) (sub_planId sub) = Some cur"
    by (auto simp: resolvePlanChange_def split: sum.splits if_splits)
  define b where "b = (bp_billingInterval cur \<noteq> bp_billingInterval new)"
  define beh where "beh = (case behavior of Some x \<Rightarrow> x | None \<Rightarrow> CreateProrations)"
  define quote where "quote = (if beh = NoProration then Inr None
      else map_sum id Some (buildPlanChangePreview sub cur new now))"
  note unfolded = changePlan_def [of uuid i planId behavior now s, folded beh_def, unfolded found Let_def sum.case
      prod.case, folded b_def quote_def]
  consider (trial) "sub_status sub = SubTrialing"
    | (rejected) "sub_status sub \<noteq> SubTrialing" "b \<and> beh = NoProration"
    | (unquoted) e where "sub_status sub \<noteq> SubTrialing" "\<not> (b \<and> beh = NoProration)" "quote = Inl e"
    | (later) q where "sub_status sub \<noteq> SubTrialing" "\<not> (b \<and> beh = NoProration)" "quote = Inr q"
        "\<not> (b \<or> beh = AlwaysInvoice)"
    | (now) q where "sub_status sub \<noteq> SubTrialing" "\<not> (b \<and> beh = NoProration)" "quote = Inr q"
        "b \<or> beh = AlwaysInvoice"
    by (cases quote) blast+
  then show ?thesis
  proof cases
    case trial
    then have "snd (changePlan uuid i planId behavior now s) = put_subscription (change_in_trial new b now sub) s"
      unfolding unfolded by simp
    with sub show ?thesis by (intro uninvoiced) auto
  next
    case later
    then have "snd (changePlan uuid i planId behavior now s) = put_subscription (change_uninvoiced new beh now sub) s"
      unfolding unfolded by (simp only: if_False if_True sum.case snd_conv)
    with sub show ?thesis by (intro uninvoiced) (auto simp: beh_def)
  next
    case (now q)
    obtain r s1 where inv: "createInvoice uuid sub cur PlanChangeInvoice (Some now) now s = (r, s1)" by fastforce
    then show ?thesis
    proof (cases rule: createInvoice_cases)
      case (failed e)
      with now inv have "snd (changePlan uuid i planId behavior now s) = s"
        unfolding unfolded by (simp only: if_False if_True sum.case prod.case snd_conv)
      then show ?thesis by (rule that(1))
    next
      case (made v)
      with now inv have "snd (changePlan uuid i planId behavior now s) =
          put_subscription (change_invoiced new b now sub) (put_invoice v s)"
        unfolding unfolded by (simp only: if_False if_True sum.case prod.case snd_conv)
      with made inv sub cur show ?thesis by (intro invoiced) auto
    qed
  qed (rule failed; unfold unfolded; simp)+
qed

text \<open>A call of \<open>recordUsage\<close> changes nothing, or it appends one event and counts it.\<close>

definition metered :: "string \<Rightarrow> rat \<Rightarrow> int \<Rightarrow> Subscription \<Rightarrow> Subscription" where
  "metered metric quantity now sub = sub\<lparr>
     sub_usage := js_set metric (or_zero (js_get (sub_usage sub) metric) + quantity) (sub_usage sub),
     sub_meterReadings := js_set metric (applyReading (js_get (sub_meterReadings sub) metric) quantity)
       (sub_meterReadings sub),
     sub_updatedAt := now\<rparr>"

definition usage_event :: "string \<Rightarrow> Subscription \<Rightarrow> string \<Rightarrow> rat \<Rightarrow> string option \<Rightarrow> int \<Rightarrow> UsageEvent" where
  "usage_event uuid sub metric quantity key now =
     \<lparr>usg_id = ''usg_'' @ uuid, usg_subscriptionId = sub_id sub, usg_metric = metric,
      usg_quantity = quantity, usg_idempotencyKey = key, usg_recordedAt = now\<rparr>"

lemma recordUsage_cases:
  obtains (unchanged) "snd (recordUsage uuid i metric quantity key now s) = s"
  | (counted) sub m where "js_get (bl_subscriptions s) i = Some sub" "sub_status sub \<noteq> SubCancelled"
      "quantity > 0"
      "snd (recordUsage uuid i metric quantity key now s) =
        put_subscription (metered metric quantity now sub)
          (s\<lparr>bl_usageEvents := bl_usageEvents s @ [usage_event uuid sub metric quantity key now],
             bl_usageIdempotency := m\<rparr>)"
proof (cases "first_error [validate (js_trim metric \<noteq> []) ''metric is required'',
    validate (quantity > 0) ''quantity must be greater than 0'']")
  case (Some e)
  then have "snd (recordUsage uuid i metric quantity key now s) = s"
    unfolding recordUsage_def by (simp only: option.case snd_conv)
  then show ?thesis by (rule unchanged)
next
  case None
  note checked = recordUsage_def [of uuid i metric quantity key now s, unfolded None option.case]
  from None have quantity: "quantity > 0" by simp
  show ?thesis
  proof (cases "js_get (bl_subscriptions s) i")
    case None
    then have "snd (recordUsage uuid i metric quantity key now s) = s"
      unfolding checked by (simp add: require_def)
    then show ?thesis by (rule unchanged)
  next
    case (Some sub)
    define existing where "existing = (if truthy key
        then Option.bind (js_get (bl_usageIdempotency s) (the key)) (\<lambda>i. find (\<lambda>event. usg_id event = i) (bl_usageEvents s))
        else None)"
    define wrong where "wrong = (case Option.bind (js_get (bl_plans s) (sub_planId sub)) bp_meters of
        Some meters \<Rightarrow> \<not> list_ex (\<lambda>meter. mp_metric meter = metric) meters | None \<Rightarrow> False)"
    have found: "require ''Subscription'' bl_subscriptions i s = Inr sub" using Some by simp
    note unfolded = checked [unfolded found sum.case, folded existing_def wrong_def]
    show ?thesis
    proof (cases "sub_status sub = SubCancelled \<or> existing \<noteq> None \<or> wrong")
      case True
      then have "snd (recordUsage uuid i metric quantity key now s) = s"
        unfolding unfolded Let_def existing_def [symmetric] wrong_def [symmetric]
        by (auto split: option.splits)
      then show ?thesis by (rule unchanged)
    next
      case False
      then have "snd (recordUsage uuid i metric quantity key now s) =
        put_subscription (metered metric quantity now sub)
          (s\<lparr>bl_usageEvents := bl_usageEvents s @ [usage_event uuid sub metric quantity key now],
             bl_usageIdempotency := (if truthy key
               then js_set (the key) (''usg_'' @ uuid) (bl_usageIdempotency s) else bl_usageIdempotency s)\<rparr>)"
        unfolding unfolded Let_def existing_def [symmetric] wrong_def [symmetric]
        by (simp add: metered_def usage_event_def)
      with Some False quantity show ?thesis by (intro counted) auto
    qed
  qed
qed

lemma changePlan_rest [simp]: "same_rest s (snd (changePlan uuid i planId behavior now s))"
  by (cases rule: changePlan_cases [of uuid i planId behavior now s]) simp_all

lemma markInvoicePaid_rest [simp]: "same_rest s (snd (markInvoicePaid i now s))"
  by (simp add: markInvoicePaid_def Let_def split: op_splits)

lemma voidInvoice_rest [simp]: "same_rest s (snd (voidInvoice i now s))"
  by (simp add: voidInvoice_def Let_def split: op_splits)

lemma same_rest_trans: "same_rest s s' \<Longrightarrow> same_rest s' s'' \<Longrightarrow> same_rest s s''"
  by (simp add: same_rest_def)

lemma recordPaymentAttempt_rest [simp]: "same_rest s (snd (recordPaymentAttempt i result now s))"
  using same_rest_trans [OF _ markInvoicePaid_rest]
  by (auto simp: recordPaymentAttempt_def Let_def split: op_splits)

lemma cancelSubscription_rest [simp]: "same_rest s (snd (cancelSubscription i atPeriodEnd now s))"
  by (simp add: cancelSubscription_def Let_def split: op_splits)

lemma removeDiscount_rest [simp]: "same_rest s (snd (removeDiscount i now s))"
  by (simp add: removeDiscount_def Let_def split: op_splits)

lemma configureDunning_frame [simp]:
  "bl_plans (snd (configureDunning m days action now s)) = bl_plans s"
  "bl_subscriptions (snd (configureDunning m days action now s)) = bl_subscriptions s"
  "bl_invoices (snd (configureDunning m days action now s)) = bl_invoices s"
  "bl_usageEvents (snd (configureDunning m days action now s)) = bl_usageEvents s"
  "bl_promoCodes (snd (configureDunning m days action now s)) = bl_promoCodes s"
  "bl_promoRedemptions (snd (configureDunning m days action now s)) = bl_promoRedemptions s"
  by (simp_all add: configureDunning_def Let_def split: option.split)

text \<open>Redeeming a code changes the subscription, the count of the code and the list of redemptions.\<close>

definition redeemed :: "Subscription \<Rightarrow> PromoCode \<Rightarrow> int \<Rightarrow> billing \<Rightarrow> billing" where
  "redeemed sub promo now s = snd (redeem sub promo now s)"

lemma redeemed_frame [simp]:
  "bl_plans (redeemed sub promo now s) = bl_plans s"
  "bl_invoices (redeemed sub promo now s) = bl_invoices s"
  "bl_usageEvents (redeemed sub promo now s) = bl_usageEvents s"
  "bl_promoCodeIds (redeemed sub promo now s) = bl_promoCodeIds s"
  "bl_dunningConfigs (redeemed sub promo now s) = bl_dunningConfigs s"
  "bl_subscriptions (redeemed sub promo now s) =
    js_set (sub_id sub) (sub\<lparr>sub_discount := Some (toAppliedDiscount promo now), sub_updatedAt := now\<rparr>)
      (bl_subscriptions s)"
  "bl_promoCodes (redeemed sub promo now s) =
    js_set (pc_id promo) (promo\<lparr>pc_timesRedeemed := pc_timesRedeemed promo + 1\<rparr>) (bl_promoCodes s)"
  "bl_promoRedemptions (redeemed sub promo now s) = bl_promoRedemptions s @
    [\<lparr>red_promoCodeId = pc_id promo, red_customerId = sub_customerId sub,
      red_subscriptionId = sub_id sub, red_redeemedAt = now\<rparr>]"
  by (simp_all add: redeemed_def redeem_def Let_def)

lemma getPromoCode_stored: "getPromoCode code s = Some promo \<Longrightarrow> \<exists>k. js_get (bl_promoCodes s) k = Some promo"
  by (auto simp: getPromoCode_def split: option.splits if_splits)

lemma requireRedeemable_Inr:
  assumes "requireRedeemable code merchantId customerId plan now s = Inr promo"
  shows "\<exists>k. js_get (bl_promoCodes s) k = Some promo"
    and "redemptionError promo (redemptionContext promo merchantId customerId plan now s) = None"
  using assms getPromoCode_stored [of code s promo]
  by (auto simp: requireRedeemable_def split: option.splits)

lemma new_subscription_fields [simp]:
  "sub_id (new_subscription uuid input plan now) = ''sub_'' @ uuid"
  "sub_customerId (new_subscription uuid input plan now) = sbi_customerId input"
  "sub_meterReadings (new_subscription uuid input plan now) = []"
  "sub_usage (new_subscription uuid input plan now) = []"
  by (simp_all add: new_subscription_def Let_def)

lemma subscribe_cases:
  obtains (failed) "snd (subscribe uuid input now s) = s"
  | (plain) plan where "js_get (bl_plans s) (sbi_planId input) = Some plan"
      "snd (subscribe uuid input now s) = put_subscription (new_subscription uuid input plan now) s"
  | (promo) plan promo code where "js_get (bl_plans s) (sbi_planId input) = Some plan"
      "requireRedeemable code (sbi_merchantId input) (sbi_customerId input) plan now s = Inr promo"
      "snd (subscribe uuid input now s) = redeemed (new_subscription uuid input plan now) promo now
        (put_subscription (new_subscription uuid input plan now) s)"
proof (cases "first_error [validate (sbi_merchantId input \<noteq> []) ''merchantId is required'',
    validate (sbi_customerId input \<noteq> []) ''customerId is required'']")
  case (Some e)
  then have "snd (subscribe uuid input now s) = s"
    unfolding subscribe_def by (simp only: option.case snd_conv)
  then show ?thesis by (rule failed)
next
  case None
  note checked = subscribe_def [of uuid input now s, unfolded None option.case]
  show ?thesis
  proof (cases "js_get (bl_plans s) (sbi_planId input)")
    case None
    then have "snd (subscribe uuid input now s) = s" unfolding checked by (simp add: require_def)
    then show ?thesis by (rule failed)
  next
    case (Some plan)
    then have found: "require ''Billing plan'' bl_plans (sbi_planId input) s = Inr plan" by simp
    note unfolded = checked [unfolded found sum.case Let_def]
    define early where "early = (case sbi_trialDays input of Some d \<Rightarrow> d < 0 | None \<Rightarrow> False)"
    define redeemable where "redeemable = requireRedeemable (the (sbi_promoCode input)) (sbi_merchantId input)
        (sbi_customerId input) plan now s"
    consider "early" | "\<not> early" "\<not> truthy (sbi_promoCode input)"
      | e where "\<not> early" "truthy (sbi_promoCode input)" "redeemable = Inl e"
      | p where "\<not> early" "truthy (sbi_promoCode input)" "redeemable = Inr p"
      by (cases redeemable) blast+
    then show ?thesis
    proof cases
      case 2
      then have "snd (subscribe uuid input now s) = put_subscription (new_subscription uuid input plan now) s"
        unfolding unfolded early_def [symmetric] by simp
      with Some show ?thesis by (rule plain)
    next
      case (4 p)
      then have "snd (subscribe uuid input now s) = redeemed (new_subscription uuid input plan now) p now
        (put_subscription (new_subscription uuid input plan now) s)"
        unfolding unfolded early_def [symmetric] redeemable_def [symmetric]
        by (simp add: redeemed_def split: prod.split)
      with Some 4(3) show ?thesis unfolding redeemable_def by (rule promo)
    qed (rule failed; unfold unfolded early_def [symmetric] redeemable_def [symmetric]; simp)+
  qed
qed

lemma applyPromoCode_cases:
  obtains (failed) "snd (applyPromoCode i code now s) = s"
  | (applied) sub plan promo where "js_get (bl_subscriptions s) i = Some sub"
      "sub_status sub \<noteq> SubCancelled" "\<not> isDiscountActive (sub_discount sub)"
      "requireRedeemable code (sub_merchantId sub) (sub_customerId sub) plan now s = Inr promo"
      "snd (applyPromoCode i code now s) = redeemed sub promo now s"
proof (cases "js_get (bl_subscriptions s) i")
  case None
  then have "snd (applyPromoCode i code now s) = s" by (simp add: applyPromoCode_def require_def)
  then show ?thesis by (rule failed)
next
  case (Some sub)
  then have found: "require ''Subscription'' bl_subscriptions i s = Inr sub" by simp
  note unfolded = applyPromoCode_def [of i code now s, unfolded found sum.case Let_def]
  show ?thesis
  proof (cases "sub_status sub = SubCancelled \<or> isDiscountActive (sub_discount sub) \<or>
      js_get (bl_plans s) (sub_planId sub) = None")
    case True
    then have "snd (applyPromoCode i code now s) = s" unfolding unfolded by (auto simp: require_def)
    then show ?thesis by (rule failed)
  next
    case False
    then obtain plan where plan: "require ''Billing plan'' bl_plans (sub_planId sub) s = Inr plan" by auto
    note opened = unfolded [unfolded plan sum.case]
    show ?thesis
    proof (cases "requireRedeemable code (sub_merchantId sub) (sub_customerId sub) plan now s")
      case (Inl e)
      with False have "snd (applyPromoCode i code now s) = s" unfolding opened by simp
      then show ?thesis by (rule failed)
    next
      case (Inr promo)
      with False have "snd (applyPromoCode i code now s) = redeemed sub promo now s"
        unfolding opened by (simp add: redeemed_def split: prod.split)
      with Some False Inr show ?thesis by (intro applied) auto
    qed
  qed
qed

lemma createPromoCode_cases:
  obtains (failed) "snd (createPromoCode uuid input now s) = s"
  | (created) "validatePromoCodeInput input = None"
      "js_get (bl_promoCodeIds s) (normalizeCode (pci_code input)) = None"
      "snd (createPromoCode uuid input now s) =
        s\<lparr>bl_promoCodes := js_set (''promo_'' @ uuid) (new_promo uuid input now) (bl_promoCodes s),
          bl_promoCodeIds := js_set (normalizeCode (pci_code input)) (''promo_'' @ uuid) (bl_promoCodeIds s)\<rparr>"
proof (cases "validatePromoCodeInput input = None \<and>
    js_get (bl_promoCodeIds s) (normalizeCode (pci_code input)) = None \<and>
    find (\<lambda>planId. js_get (bl_plans s) planId = None)
      (case pci_appliesToPlanIds input of Some ids \<Rightarrow> ids | None \<Rightarrow> []) = None")
  case True
  then show ?thesis by (intro created) (simp_all add: createPromoCode_def Let_def new_promo_def)
next
  case False
  then have "snd (createPromoCode uuid input now s) = s" by (auto simp: createPromoCode_def split: option.splits)
  then show ?thesis by (rule failed)
qed

lemma deactivatePromoCode_cases:
  obtains (failed) "snd (deactivatePromoCode i s) = s"
  | (found) k promo where "js_get (bl_promoCodes s) k = Some promo"
      "snd (deactivatePromoCode i s) =
        s\<lparr>bl_promoCodes := js_set (pc_id promo) (promo\<lparr>pc_active := False\<rparr>) (bl_promoCodes s)\<rparr>"
proof (cases "getPromoCode i s")
  case None
  then show ?thesis by (intro failed) (simp add: deactivatePromoCode_def)
next
  case (Some promo)
  with getPromoCode_stored obtain k where "js_get (bl_promoCodes s) k = Some promo" by blast
  with Some show ?thesis by (intro found) (simp_all add: deactivatePromoCode_def Let_def)
qed

lemma closeBillingPeriod_cases:
  obtains (failed) "snd (closeBillingPeriod uuid i now s) = s"
  | (closed) sub plan v where "js_get (bl_subscriptions s) i = Some sub"
      "js_get (bl_plans s) (sub_planId sub) = Some plan"
      "snd (closeBillingPeriod uuid i now s) = put_subscription (next_period plan v now sub) (put_invoice v s)"
proof (cases "\<exists>sub plan. js_get (bl_subscriptions s) i = Some sub \<and> js_get (bl_plans s) (sub_planId sub) = Some plan")
  case False
  then have "snd (closeBillingPeriod uuid i now s) = s"
    by (auto simp: closeBillingPeriod_def require_def split: option.splits)
  then show ?thesis by (rule failed)
next
  case True
  then obtain sub plan where sub: "js_get (bl_subscriptions s) i = Some sub"
    and plan: "js_get (bl_plans s) (sub_planId sub) = Some plan" by auto
  obtain r s1 where inv: "createInvoice uuid sub plan PeriodInvoice None now s = (r, s1)" by fastforce
  then have gen: "generateInvoice uuid i now s = (r, s1)"
    using sub plan by (simp add: generateInvoice_def require_def)
  from inv show ?thesis
  proof (cases rule: createInvoice_cases)
    case (failed e)
    with gen sub plan have "snd (closeBillingPeriod uuid i now s) = s"
      by (simp add: closeBillingPeriod_def require_def)
    then show ?thesis by (rule that(1))
  next
    case (made v)
    with gen sub plan have "snd (closeBillingPeriod uuid i now s) =
        put_subscription (next_period plan v now sub) (put_invoice v s)"
      by (simp add: closeBillingPeriod_def require_def Let_def)
    with sub plan show ?thesis by (rule closed)
  qed
qed

subsection \<open>How a subscription evolves\<close>

text \<open>
  What one call, other than \<open>recordUsage\<close>, may do to a subscription: its readings are kept or
  cleared, and once it is cancelled it keeps its status and plan and gets no discount.
\<close>

definition evolves :: "Subscription \<Rightarrow> Subscription \<Rightarrow> bool" where
  "evolves sub sub' \<longleftrightarrow> sub_id sub' = sub_id sub \<and>
     (sub_meterReadings sub' = sub_meterReadings sub \<and> sub_usage sub' = sub_usage sub \<or>
      sub_meterReadings sub' = [] \<and> sub_usage sub' = []) \<and>
     (sub_status sub = SubCancelled \<longrightarrow> sub_status sub' = SubCancelled \<and> sub_planId sub' = sub_planId sub \<and>
       (sub_discount sub = None \<longrightarrow> sub_discount sub' = None))"

definition unmetered :: "string \<Rightarrow> Subscription \<Rightarrow> bool" where
  "unmetered k sub \<longleftrightarrow> sub_id sub = k \<and> sub_meterReadings sub = [] \<and> sub_usage sub = []"

definition subs_evolve :: "billing \<Rightarrow> billing \<Rightarrow> bool" where
  "subs_evolve s s' \<longleftrightarrow> (\<forall>k. case js_get (bl_subscriptions s) k of
       Some sub \<Rightarrow> \<exists>sub'. js_get (bl_subscriptions s') k = Some sub' \<and> evolves sub sub'
     | None \<Rightarrow> \<forall>sub'. js_get (bl_subscriptions s') k = Some sub' \<longrightarrow> unmetered k sub')"

definition subs_keyed :: "billing \<Rightarrow> bool" where
  "subs_keyed s \<longleftrightarrow> js_all (\<lambda>k sub. sub_id sub = k) (bl_subscriptions s)"

lemma evolves_refl [simp]: "evolves sub sub"
  by (simp add: evolves_def)

lemma evolves_trans: "evolves a b \<Longrightarrow> evolves b c \<Longrightarrow> evolves a c"
  by (auto simp: evolves_def)

lemma subs_evolve_same: "bl_subscriptions s' = bl_subscriptions s \<Longrightarrow> subs_evolve s s'"
  by (simp add: subs_evolve_def split: option.split)

lemma subs_evolve_trans: "subs_evolve s s' \<Longrightarrow> subs_evolve s' s'' \<Longrightarrow> subs_evolve s s''"
  unfolding subs_evolve_def
proof (rule allI)
  fix k
  assume a: "\<forall>k. case js_get (bl_subscriptions s) k of
       Some sub \<Rightarrow> \<exists>sub'. js_get (bl_subscriptions s') k = Some sub' \<and> evolves sub sub'
     | None \<Rightarrow> \<forall>sub'. js_get (bl_subscriptions s') k = Some sub' \<longrightarrow> unmetered k sub'"
    and b: "\<forall>k. case js_get (bl_subscriptions s') k of
       Some sub \<Rightarrow> \<exists>sub'. js_get (bl_subscriptions s'') k = Some sub' \<and> evolves sub sub'
     | None \<Rightarrow> \<forall>sub'. js_get (bl_subscriptions s'') k = Some sub' \<longrightarrow> unmetered k sub'"
  from a [THEN spec, of k] b [THEN spec, of k]
  show "case js_get (bl_subscriptions s) k of
       Some sub \<Rightarrow> \<exists>sub'. js_get (bl_subscriptions s'') k = Some sub' \<and> evolves sub sub'
     | None \<Rightarrow> \<forall>sub'. js_get (bl_subscriptions s'') k = Some sub' \<longrightarrow> unmetered k sub'"
    by (cases "js_get (bl_subscriptions s) k"; cases "js_get (bl_subscriptions s') k")
      (auto simp: unmetered_def evolves_def)
qed

lemma subs_evolve_put:
  assumes "subs_keyed s" and "js_get (bl_subscriptions s) i = Some sub" and "evolves sub sub'"
    and "bl_subscriptions t = bl_subscriptions s"
  shows "subs_evolve s (put_subscription sub' t)"
proof -
  have "sub_id sub' = i" using assms(1-3) by (auto simp: subs_keyed_def evolves_def dest: js.entries_get)
  with assms show ?thesis by (simp add: subs_evolve_def split: option.split)
qed

lemma subs_evolve_new:
  assumes "fresh_in (bl_subscriptions s) k" and "unmetered k sub" and "bl_subscriptions t = js_set k sub m"
    and "m = bl_subscriptions s \<or> m = js_set k old (bl_subscriptions s)"
  shows "subs_evolve s t"
  using assms by (auto simp: subs_evolve_def fresh_in_def split: option.split)

lemma subs_evolveD:
  assumes "subs_evolve s s'"
  shows "js_get (bl_subscriptions s) k = Some sub \<Longrightarrow> \<exists>sub'. js_get (bl_subscriptions s') k = Some sub' \<and> evolves sub sub'"
    and "js_get (bl_subscriptions s') k = Some sub' \<Longrightarrow>
      unmetered k sub' \<or> (\<exists>sub. js_get (bl_subscriptions s) k = Some sub \<and> evolves sub sub')"
proof -
  note at_k = assms [unfolded subs_evolve_def, THEN spec, of k]
  show "js_get (bl_subscriptions s) k = Some sub \<Longrightarrow> \<exists>sub'. js_get (bl_subscriptions s') k = Some sub' \<and> evolves sub sub'"
    using at_k by simp
  show "js_get (bl_subscriptions s') k = Some sub' \<Longrightarrow>
      unmetered k sub' \<or> (\<exists>sub. js_get (bl_subscriptions s) k = Some sub \<and> evolves sub sub')"
    using at_k by (cases "js_get (bl_subscriptions s) k") auto
qed

lemma subs_evolve_keyed: "subs_evolve s s' \<Longrightarrow> subs_keyed s \<Longrightarrow> subs_keyed s'"
  unfolding subs_keyed_def entries_sat_def
  by (auto dest!: subs_evolveD(2) simp: evolves_def unmetered_def)

lemma settle_evolve:
  assumes "subs_keyed s" and "bl_subscriptions t = bl_subscriptions s"
  shows "subs_evolve s (reactivateIfSettled i now t)" and "subs_evolve s (fall_past_due i now t)"
    and "subs_evolve s (final_action a i now t)"
proof -
  have cases: "subs_evolve s (case js_get (bl_subscriptions t) i of None \<Rightarrow> t
      | Some sub \<Rightarrow> if P sub then put_subscription (f sub) t else t)"
    if "\<And>sub. P sub \<Longrightarrow> evolves sub (f sub)" for P f
    using subs_evolve_put [OF assms(1) _ that assms(2)] subs_evolve_same [OF assms(2)]
    by (auto simp: assms(2) split: option.split)
  show "subs_evolve s (fall_past_due i now t)" "subs_evolve s (final_action a i now t)"
    unfolding fall_past_due_def final_action_def by (rule cases; auto simp: evolves_def)+
  have "reactivateIfSettled i now t = (case js_get (bl_subscriptions t) i of None \<Rightarrow> t
    | Some sub \<Rightarrow> if sub_status sub = SubPastDue \<and> \<not> list_ex (\<lambda>invoice. inv_subscriptionId invoice = i \<and> retrying invoice)
        (js_values (bl_invoices t)) then put_subscription (sub\<lparr>sub_status := SubActive, sub_updatedAt := now\<rparr>) t else t)"
    by (simp add: reactivateIfSettled_def split: option.split)
  then show "subs_evolve s (reactivateIfSettled i now t)"
    by (simp only:) (rule cases; auto simp: evolves_def)
qed

lemma markInvoicePaid_evolve: "subs_keyed s \<Longrightarrow> subs_evolve s (snd (markInvoicePaid i now s))"
  by (auto simp: markInvoicePaid_def Let_def subs_evolve_same settle_evolve split: op_splits)

lemma consumeDiscountPeriod_fields [simp]:
  "sub_id (consumeDiscountPeriod sub) = sub_id sub" "sub_status (consumeDiscountPeriod sub) = sub_status sub"
  "sub_planId (consumeDiscountPeriod sub) = sub_planId sub" "sub_usage (consumeDiscountPeriod sub) = sub_usage sub"
  "sub_meterReadings (consumeDiscountPeriod sub) = sub_meterReadings sub"
  "sub_discount sub = None \<Longrightarrow> sub_discount (consumeDiscountPeriod sub) = None"
  by (simp_all add: consumeDiscountPeriod_def Let_def split: option.split)

lemma next_period_evolves: "evolves sub (next_period plan v now sub)"
  by (auto simp: evolves_def next_period_def Let_def)

lemma change_evolves:
  "sub_status sub \<noteq> SubCancelled \<Longrightarrow> evolves sub (change_in_trial new b now sub)"
  "sub_status sub \<noteq> SubCancelled \<Longrightarrow> evolves sub (change_uninvoiced new behavior now sub)"
  "sub_status sub \<noteq> SubCancelled \<Longrightarrow> evolves sub (change_invoiced new b now sub)"
  by (simp_all add: evolves_def change_in_trial_def change_uninvoiced_def change_invoiced_def Let_def)

text \<open>Every step but the counting of usage lets the subscriptions evolve in this way.\<close>

lemma billing_step_evolve:
  assumes "billing_step s s'" and keyed: "subs_keyed s"
  obtains (evolved) "subs_evolve s s'" "bl_usageEvents s' = bl_usageEvents s"
  | (counted) i sub uuid metric quantity key now m where "js_get (bl_subscriptions s) i = Some sub"
      "sub_status sub \<noteq> SubCancelled" "quantity > 0"
      "s' = put_subscription (metered metric quantity now sub)
          (s\<lparr>bl_usageEvents := bl_usageEvents s @ [usage_event uuid sub metric quantity key now],
             bl_usageIdempotency := m\<rparr>)"
  using assms(1)
proof (cases rule: billing_step.cases)
  case (do_recordUsage uuid i metric quantity key now)
  show ?thesis
  proof (cases rule: recordUsage_cases [of uuid i metric quantity key now s])
    case unchanged
    then show ?thesis by (intro evolved) (simp_all add: do_recordUsage subs_evolve_same)
  next
    case (counted sub m)
    then show ?thesis by (intro that(2)) (auto simp: do_recordUsage)
  qed
next
  case (do_createPlan uuid plan_input now)
  then show ?thesis by (intro evolved) (simp_all add: subs_evolve_same)
next
  case (do_subscribe uuid sub_input now)
  show ?thesis
  proof (cases rule: subscribe_cases [of uuid sub_input now s])
    case failed
    then show ?thesis by (intro evolved) (simp_all add: do_subscribe subs_evolve_same)
  next
    case (plain plan)
    have "subs_evolve s s'"
      by (rule subs_evolve_new [OF do_subscribe(2), where sub = "new_subscription uuid sub_input plan now"])
        (auto simp: unmetered_def do_subscribe plain)
    then show ?thesis by (intro evolved) (simp_all add: do_subscribe plain)
  next
    case (promo plan promo code)
    have "subs_evolve s s'"
      by (rule subs_evolve_new [OF do_subscribe(2), where sub = "new_subscription uuid sub_input plan now
          \<lparr>sub_discount := Some (toAppliedDiscount promo now), sub_updatedAt := now\<rparr>"])
        (auto simp: unmetered_def do_subscribe promo)
    then show ?thesis by (intro evolved) (simp_all add: do_subscribe promo)
  qed
next
  case (do_cancelSubscription i atPeriodEnd now)
  have "subs_evolve s s'"
    using subs_evolve_same [of s s] subs_evolve_put [OF keyed, of i]
    by (auto simp: do_cancelSubscription cancelSubscription_def Let_def evolves_def split: op_splits)
  then show ?thesis
    using cancelSubscription_rest [of s i atPeriodEnd now]
    by (intro evolved) (simp_all add: do_cancelSubscription same_rest_def)
next
  case (do_changePlan uuid i planId behavior now)
  have "subs_evolve s s'"
    by (cases rule: changePlan_cases [of uuid i planId behavior now s])
      (auto simp: do_changePlan subs_evolve_same intro!: subs_evolve_put [OF keyed] change_evolves)
  then show ?thesis
    using changePlan_rest [of s uuid i planId behavior now]
    by (intro evolved) (simp_all add: do_changePlan same_rest_def)
next
  case (do_generateInvoice uuid i now)
  have "bl_subscriptions s' = bl_subscriptions s"
    by (auto simp: do_generateInvoice generateInvoice_def createInvoice_def Let_def split: op_splits)
  then show ?thesis
    using generateInvoice_rest [of s uuid i now]
    by (intro evolved) (simp_all add: do_generateInvoice same_rest_def subs_evolve_same)
next
  case (do_closeBillingPeriod uuid i now)
  have "subs_evolve s s'"
    by (cases rule: closeBillingPeriod_cases [of uuid i now s])
      (auto simp: do_closeBillingPeriod subs_evolve_same intro!: subs_evolve_put [OF keyed] next_period_evolves)
  then show ?thesis
    using closeBillingPeriod_rest [of s uuid i now]
    by (intro evolved) (simp_all add: do_closeBillingPeriod same_rest_def)
next
  case (do_markInvoicePaid i now)
  then show ?thesis
    using markInvoicePaid_rest [of s i now] markInvoicePaid_evolve [OF keyed]
    by (intro evolved) (simp_all add: same_rest_def)
next
  case (do_voidInvoice i now)
  have "subs_evolve s s'"
    using settle_evolve [OF keyed]
    by (auto simp: do_voidInvoice voidInvoice_def Let_def subs_evolve_same split: op_splits)
  then show ?thesis
    using voidInvoice_rest [of s i now] by (intro evolved) (simp_all add: do_voidInvoice same_rest_def)
next
  case (do_createPromoCode uuid promo_input now)
  have "bl_subscriptions s' = bl_subscriptions s \<and> bl_usageEvents s' = bl_usageEvents s"
    by (cases rule: createPromoCode_cases [of uuid promo_input now s]) (simp_all add: do_createPromoCode)
  then show ?thesis by (intro evolved) (simp_all add: subs_evolve_same)
next
  case (do_deactivatePromoCode i)
  have "bl_subscriptions s' = bl_subscriptions s \<and> bl_usageEvents s' = bl_usageEvents s"
    by (cases rule: deactivatePromoCode_cases [of i s]) (simp_all add: do_deactivatePromoCode)
  then show ?thesis by (intro evolved) (simp_all add: subs_evolve_same)
next
  case (do_applyPromoCode i code now)
  have "subs_evolve s s' \<and> bl_usageEvents s' = bl_usageEvents s"
  proof (cases rule: applyPromoCode_cases [of i code now s])
    case (applied sub plan promo)
    define sub' where "sub' = sub\<lparr>sub_discount := Some (toAppliedDiscount promo now), sub_updatedAt := now\<rparr>"
    have "evolves sub sub'" using applied(2) by (simp add: sub'_def evolves_def)
    from subs_evolve_put [OF keyed applied(1) this refl] have put: "subs_evolve s (put_subscription sub' s)" .
    have same: "bl_subscriptions (redeemed sub promo now s) = bl_subscriptions (put_subscription sub' s)"
      by (simp add: sub'_def)
    have "subs_evolve s (redeemed sub promo now s)"
      using put unfolding subs_evolve_def same .
    then show ?thesis by (simp add: do_applyPromoCode applied)
  qed (simp add: do_applyPromoCode subs_evolve_same)
  then show ?thesis by (intro evolved) simp_all
next
  case (do_removeDiscount i now)
  have "subs_evolve s s'"
    using subs_evolve_same [of s s] subs_evolve_put [OF keyed, of i]
    by (auto simp: do_removeDiscount removeDiscount_def Let_def evolves_def split: op_splits)
  then show ?thesis
    using removeDiscount_rest [of s i now] by (intro evolved) (simp_all add: do_removeDiscount same_rest_def)
next
  case (do_configureDunning m days action now)
  then show ?thesis by (intro evolved) (simp_all add: subs_evolve_same)
next
  case (do_recordPaymentAttempt i attempt now)
  have paid: "subs_evolve s (snd (markInvoicePaid j now t))" if "bl_subscriptions t = bl_subscriptions s" for j t
    using subs_evolve_trans [OF subs_evolve_same [OF that] markInvoicePaid_evolve [of t j now]] keyed that
    by (simp add: subs_keyed_def)
  have "subs_evolve s s'"
    by (auto simp: do_recordPaymentAttempt recordPaymentAttempt_def Let_def subs_evolve_same
        settle_evolve [OF keyed] split: op_splits intro!: paid)
  then show ?thesis
    using recordPaymentAttempt_rest [of s i attempt now]
    by (intro evolved) (simp_all add: do_recordPaymentAttempt same_rest_def)
qed

end
