(* ===== verification/SubscriptionInv.thy ===== *)
theory SubscriptionInv
  imports BillingSteps
begin

text \<open>
  The invariants of subscription billing, each proved for every step: plans are valid and invoices
  add up, promo codes stay within their limits, retry schedules are valid, and the readings of a
  subscription summarise the event log.
\<close>

subsection \<open>Plans that passed their validation\<close>

definition plan_ok :: "BillingPlan \<Rightarrow> bool" where
  "plan_ok p \<longleftrightarrow> cents (bp_basePrice p) \<and> 0 \<le> bp_basePrice p \<and> 0 \<le> bp_overageUnitPrice p \<and>
     (\<forall>tiers. bp_tiers p = Some tiers \<longrightarrow> list_all (\<lambda>t. 0 \<le> pt_unitPrice t) tiers) \<and>
     (\<forall>meters. bp_meters p = Some meters \<longrightarrow> list_all (\<lambda>m. validateMeteredPrice m = None) meters)"

lemma plan_tiers_error_prices:
  "plan_tiers_error previous tiers = None \<Longrightarrow> list_all (\<lambda>t. 0 \<le> pt_unitPrice t) tiers"
  by (induction tiers arbitrary: previous) (auto split: option.splits if_splits)

lemma meters_error_valid:
  "meters_error seen meters = None \<Longrightarrow> list_all (\<lambda>m. validateMeteredPrice m = None) meters"
  by (induction meters arbitrary: seen) (auto split: option.splits if_splits)

lemma createPlan_ok:
  assumes "js_all (\<lambda>k. plan_ok) (bl_plans s)"
  shows "js_all (\<lambda>k. plan_ok) (bl_plans (snd (createBillingPlan uuid input now s)))"
proof (cases "plan_error input (map_option (map normal_meter) (cpi_meters input))")
  case None
  define meters where "meters = map_option (map normal_meter) (cpi_meters input)"
  have valid: "plan_error input meters = None" using None by (simp add: meters_def)
  then have "0 \<le> cpi_basePrice input" "0 \<le> or_zero (cpi_overageUnitPrice input)"
    and tiers: "\<And>ts. cpi_tiers input = Some ts \<Longrightarrow> list_all (\<lambda>t. 0 \<le> pt_unitPrice t) ts"
    and ms: "\<And>ms. meters = Some ms \<Longrightarrow> list_all (\<lambda>m. validateMeteredPrice m = None) ms"
    by (auto simp: plan_error_def dest: plan_tiers_error_prices meters_error_valid)
  moreover have "list_all (\<lambda>t. 0 \<le> pt_unitPrice t) (sort_key pt_upTo ts)" if "cpi_tiers input = Some ts" for ts
    using tiers [OF that] by (simp add: list_all_iff)
  ultimately show ?thesis
    using None assms unfolding createBillingPlan_def meters_def [symmetric]
    by (auto simp: Let_def meters_def [symmetric] intro!: js.entries_put)
      (auto simp: plan_ok_def roundMoney_2 round_cents_nonneg)
qed (simp add: createBillingPlan_def assms)

subsection \<open>The arithmetic of an invoice\<close>

definition invoice_ok :: "Invoice \<Rightarrow> bool" where
  "invoice_ok v \<longleftrightarrow>
     sum_list (map ili_amount (inv_lineItems v)) = inv_total v \<and>
     inv_subtotal v = inv_baseAmount v + inv_usageAmount v \<and>
     inv_total v = inv_subtotal v - inv_discountAmount v \<and>
     0 \<le> inv_baseAmount v \<and> 0 \<le> inv_usageAmount v \<and>
     0 \<le> inv_discountAmount v \<and> inv_discountAmount v \<le> inv_subtotal v \<and> cents (inv_total v)"

lemma base_line_amount:
  "plan_ok p \<Longrightarrow> 0 \<le> f \<Longrightarrow> cents (ili_amount (base_line p f)) \<and> 0 \<le> ili_amount (base_line p f)"
  by (simp add: base_line_def plan_ok_def roundMoney_2 round_cents_nonneg)

lemma base_lines_amounts:
  assumes "js_all (\<lambda>k. plan_ok) (bl_plans s)"
  shows "base_lines shares s = Inr ls \<Longrightarrow> list_all (\<lambda>f. 0 < shr_fraction f) shares \<Longrightarrow>
    list_all cents (map ili_amount ls) \<and> list_all (\<lambda>x. 0 \<le> x) (map ili_amount ls)"
proof (induction shares arbitrary: ls)
  case (Cons share shares)
  then obtain p rest where "js_get (bl_plans s) (shr_planId share) = Some p"
    "base_lines shares s = Inr rest" "ls = base_line p (shr_fraction share) # rest"
    by (auto split: sum.splits)
  with Cons show ?case
    using base_line_amount [of p "shr_fraction share"] js.entries_get [OF assms] by simp
qed simp

lemma tier_overage_nonneg:
  "0 \<le> flat \<Longrightarrow> list_all (\<lambda>t. 0 \<le> pt_unitPrice t) tiers \<Longrightarrow> 0 \<le> tier_overage flat remaining cursor tiers"
  by (induction flat remaining cursor tiers rule: tier_overage.induct) (auto simp: Let_def)

lemma priceOverage_amount:
  "plan_ok p \<Longrightarrow> cents (priceOverage p units) \<and> 0 \<le> priceOverage p units"
  by (auto simp: priceOverage_def plan_ok_def roundMoney_2 split: option.splits
      intro!: round_cents_nonneg tier_overage_nonneg)

lemma usage_charges:
  assumes "plan_ok p"
  shows "cents (uc_usageAmount (computeUsageCharges sub p)) \<and> 0 \<le> uc_usageAmount (computeUsageCharges sub p) \<and>
    sum_list (map ili_amount (uc_lineItems (computeUsageCharges sub p))) = uc_usageAmount (computeUsageCharges sub p)"
proof (cases "bp_meters p = None \<or> bp_meters p = Some []")
  case True
  have "priceOverage p u = 0" if "u \<le> 0" for u using that by (simp add: priceOverage_def)
  with True priceOverage_amount [OF assms] show ?thesis
    by (auto simp: computeUsageCharges_def Let_def)
next
  case False
  then obtain m ms where meters: "bp_meters p = Some (m # ms)" by (cases "bp_meters p") (auto simp: neq_Nil_conv)
  define charges where "charges = map (\<lambda>m. priceMeteredUsage m
      (aggregateReading (js_get (sub_meterReadings sub) (mp_metric m)) (mp_aggregation m))) (m # ms)"
  have "list_all (\<lambda>m. validateMeteredPrice m = None) (m # ms)"
    using assms meters by (simp add: plan_ok_def)
  then have amounts: "list_all (\<lambda>c. cents (mc_amount c) \<and> 0 \<le> mc_amount c) charges"
    unfolding charges_def by (auto simp: list_all_iff meter_charge_amount)
  have "cents (sum_list (map mc_amount charges))"
    using amounts by (intro cents_sum_list) (simp add: list_all_iff)
  moreover have "0 \<le> sum_list (map mc_amount charges)"
    using amounts by (intro list_all_sum_nonneg) (simp add: list_all_iff)
  moreover have "sum_list (map ili_amount (map meter_line (filter (\<lambda>c. mc_amount c > 0) charges))) =
      sum_list (map mc_amount charges)"
    using sum_list_filter_pos [of mc_amount charges] amounts
    by (simp add: meter_line_def o_def list_all_iff)
  moreover have "uc_usageAmount (computeUsageCharges sub p) = roundMoney (sum_list (map mc_amount charges)) 2"
    and "uc_lineItems (computeUsageCharges sub p) = map meter_line (filter (\<lambda>c. mc_amount c > 0) charges)"
    by (simp_all only: computeUsageCharges_def meters option.case list.case Let_def charges_def UsageCharges.simps)
  ultimately show ?thesis by (simp add: roundMoney_2 round_cents_id)
qed

lemma createInvoice_ok:
  assumes "createInvoice uuid sub plan kind until now s = (Inr v, s')"
    and "js_all (\<lambda>k. plan_ok) (bl_plans s)" and "plan_ok plan"
  shows "invoice_ok v"
proof -
  define stop where "stop = min (case until of Some t \<Rightarrow> t | None \<Rightarrow> sub_currentPeriodEnd sub) (sub_currentPeriodEnd sub)"
  obtain shares ls where
    shares: "segmentShares (sub_planSegments sub) (sub_currentPeriodStart sub) (sub_currentPeriodEnd sub) stop = Some shares"
    and ls: "base_lines shares s = Inr ls"
    using assms(1) by (auto simp: createInvoice_def Let_def stop_def split: option.splits sum.splits)
  define base usage where "base = roundMoney (sum_list (map ili_amount ls)) 2" and "usage = computeUsageCharges sub plan"
  define subtotal where "subtotal = roundMoney (base + uc_usageAmount usage) 2"
  define discount where "discount = discount_of sub subtotal"
  have fields: "inv_lineItems v = ls @ uc_lineItems usage @ discount_lines sub discount"
    "inv_baseAmount v = base" "inv_usageAmount v = uc_usageAmount usage" "inv_subtotal v = subtotal"
    "inv_discountAmount v = discount" "inv_total v = roundMoney (subtotal - discount) 2"
    using assms(1) shares ls
    by (auto simp: createInvoice_def Let_def stop_def base_def usage_def subtotal_def discount_def)
  have "list_all (\<lambda>f. 0 < shr_fraction f) shares"
    using shares by (auto simp: segmentShares_def list_all_iff split: if_splits)
  from base_lines_amounts [OF assms(2) ls this]
  have sum: "cents (sum_list (map ili_amount ls))" "0 \<le> sum_list (map ili_amount ls)"
    by (auto intro: cents_sum_list list_all_sum_nonneg)
  then have base: "base = sum_list (map ili_amount ls)" "cents base" "0 \<le> base"
    by (auto simp: base_def roundMoney_2 round_cents_id)
  note usage = usage_charges [OF assms(3), of sub, folded usage_def]
  have subtotal: "subtotal = base + uc_usageAmount usage" "cents subtotal" "0 \<le> subtotal"
    using base usage by (auto simp: subtotal_def roundMoney_2 round_cents_id cents_add)
  have discount: "cents discount \<and> 0 \<le> discount \<and> discount \<le> subtotal"
    using discountAmount_bounds [OF subtotal(2,3)] subtotal
    by (simp add: discount_def discount_of_def split: option.split)
  have lines: "sum_list (map ili_amount (discount_lines sub discount)) = - discount"
    using discount by (auto simp: discount_lines_def discount_def discount_of_def split: option.splits)
  have "cents (subtotal - discount)" using subtotal discount by (simp add: cents_diff)
  then show ?thesis
    using base usage subtotal discount lines
    by (simp add: invoice_ok_def fields roundMoney_2 round_cents_id)
qed

text \<open>Nothing but the creation of an invoice sets its amounts.\<close>

lemma invoice_ok_cong [simp]:
  "invoice_ok (v\<lparr>inv_status := st\<rparr>) = invoice_ok v" "invoice_ok (v\<lparr>inv_paidAt := t\<rparr>) = invoice_ok v"
  "invoice_ok (v\<lparr>inv_dunning := d\<rparr>) = invoice_ok v" "invoice_ok (end_dunning ds now v) = invoice_ok v"
  by (simp_all add: invoice_ok_def end_dunning_def)

lemma settle_invoices [simp]:
  "bl_invoices (reactivateIfSettled i now s) = bl_invoices s"
  "bl_invoices (fall_past_due i now s) = bl_invoices s"
  "bl_invoices (final_action a i now s) = bl_invoices s"
  by (simp_all add: reactivateIfSettled_def fall_past_due_def final_action_def split: option.splits)

definition invoices_ok :: "billing \<Rightarrow> bool" where
  "invoices_ok s \<longleftrightarrow> js_all (\<lambda>k. plan_ok) (bl_plans s) \<and> js_wf (bl_invoices s) \<and>
     js_all (\<lambda>k v. inv_id v = k \<and> invoice_ok v) (bl_invoices s)"

lemma invoices_ok_plan: "invoices_ok s \<Longrightarrow> js_get (bl_plans s) k = Some p \<Longrightarrow> plan_ok p"
  unfolding invoices_ok_def by (auto dest: js.entries_get)

lemma invoices_ok_get: "invoices_ok s \<Longrightarrow> js_get (bl_invoices s) k = Some v \<Longrightarrow> invoice_ok v"
  unfolding invoices_ok_def by (auto dest: js.entries_get)

lemma invoices_ok_puts:
  "invoices_ok (put_subscription sub s) \<longleftrightarrow> invoices_ok s"
  "invoices_ok s \<Longrightarrow> invoice_ok v \<Longrightarrow> invoices_ok (put_invoice v s)"
  by (auto simp: invoices_ok_def intro: js.entries_put)

lemma invoices_ok_settle:
  "invoices_ok (reactivateIfSettled i now s) \<longleftrightarrow> invoices_ok s"
  "invoices_ok (fall_past_due i now s) \<longleftrightarrow> invoices_ok s"
  "invoices_ok (final_action a i now s) \<longleftrightarrow> invoices_ok s"
  by (simp_all add: reactivateIfSettled_def fall_past_due_def final_action_def invoices_ok_puts
      split: option.splits)

lemma invoices_ok_unchanged:
  "invoices_ok s \<Longrightarrow> bl_plans s' = bl_plans s \<Longrightarrow> bl_invoices s' = bl_invoices s \<Longrightarrow> invoices_ok s'"
  by (simp add: invoices_ok_def)

lemma createInvoice_invoices_ok:
  assumes "createInvoice uuid sub plan kind until now s = (r, s')" and "invoices_ok s" and "plan_ok plan"
  shows "invoices_ok s'"
proof (cases r)
  case (Inl e)
  with assms show ?thesis by (auto simp: createInvoice_def Let_def split: op_splits)
next
  case (Inr v)
  with assms(1) have "s' = put_invoice v s"
    by (auto simp: createInvoice_def Let_def split: option.splits sum.splits)
  with createInvoice_ok [of uuid sub plan kind until now s v s'] assms Inr show ?thesis
    by (auto simp: invoices_ok_puts invoices_ok_def intro: js.entries_put)
qed

lemma generateInvoice_invoices_ok:
  assumes "generateInvoice uuid i now s = (r, s')" and "invoices_ok s"
  shows "invoices_ok s'"
  using assms createInvoice_invoices_ok invoices_ok_plan
  by (auto simp: generateInvoice_def split: sum.splits)

lemma billing_step_invoices_ok:
  assumes "billing_step s s'" and "invoices_ok s"
  shows "invoices_ok s'"
  using assms
proof (cases rule: billing_step.cases)
  case (do_createPlan uuid plan_input now)
  with assms(2) show ?thesis by (simp add: invoices_ok_def createPlan_ok)
next
  case (do_subscribe uuid sub_input now)
  with assms(2) show ?thesis
    by (cases rule: subscribe_cases [of uuid sub_input now s]) (simp_all add: invoices_ok_def)
next
  case (do_cancelSubscription i atPeriodEnd now)
  with assms(2) show ?thesis
    by (auto simp: cancelSubscription_def Let_def invoices_ok_puts split: op_splits)
next
  case (do_changePlan uuid i planId behavior now)
  show ?thesis
  proof (cases rule: changePlan_cases [of uuid i planId behavior now s])
    case (invoiced sub cur new b v)
    from createInvoice_invoices_ok [OF invoiced(4) assms(2)] invoices_ok_plan [OF assms(2) invoiced(3)]
    show ?thesis by (simp add: do_changePlan invoiced(5) invoices_ok_puts)
  qed (use assms(2) in \<open>simp_all add: do_changePlan invoices_ok_puts\<close>)
next
  case (do_recordUsage uuid i metric quantity key now)
  with assms(2) show ?thesis
    by (cases rule: recordUsage_cases [of uuid i metric quantity key now s])
      (simp_all add: invoices_ok_puts invoices_ok_def)
next
  case (do_generateInvoice uuid i now)
  with assms(2) generateInvoice_invoices_ok [of uuid i now s] show ?thesis by (cases "generateInvoice uuid i now s") simp
next
  case (do_closeBillingPeriod uuid i now)
  with assms(2) generateInvoice_invoices_ok [of uuid i now s] show ?thesis
    by (auto simp: closeBillingPeriod_def Let_def invoices_ok_puts split: op_splits)
next
  case (do_markInvoicePaid i now)
  with assms(2) invoices_ok_get [of s] show ?thesis
    by (auto simp: markInvoicePaid_def Let_def invoices_ok_puts invoices_ok_settle split: op_splits)
next
  case (do_voidInvoice i now)
  with assms(2) invoices_ok_get [of s] show ?thesis
    by (auto simp: voidInvoice_def Let_def invoices_ok_puts invoices_ok_settle split: op_splits)
next
  case (do_createPromoCode uuid promo_input now)
  with assms(2) show ?thesis
    by (cases rule: createPromoCode_cases [of uuid promo_input now s]) (simp_all add: invoices_ok_def)
next
  case (do_deactivatePromoCode i)
  with assms(2) show ?thesis
    by (cases rule: deactivatePromoCode_cases [of i s]) (simp_all add: invoices_ok_def)
next
  case (do_applyPromoCode i code now)
  with assms(2) show ?thesis
    by (cases rule: applyPromoCode_cases [of i code now s]) (simp_all add: invoices_ok_def)
next
  case (do_removeDiscount i now)
  with assms(2) show ?thesis by (auto simp: removeDiscount_def Let_def invoices_ok_puts split: op_splits)
next
  case (do_configureDunning m days action now)
  with assms(2) show ?thesis by (simp add: invoices_ok_def)
next
  case (do_recordPaymentAttempt i attempt now)
  have paid: "invoices_ok (snd (markInvoicePaid i now s1))" if "invoices_ok s1" for s1
    using that invoices_ok_get [of s1]
    by (auto simp: markInvoicePaid_def Let_def invoices_ok_puts invoices_ok_settle split: op_splits)
  with do_recordPaymentAttempt assms(2) invoices_ok_get [of s] show ?thesis
    by (auto simp: recordPaymentAttempt_def Let_def invoices_ok_puts invoices_ok_settle
        split: op_splits intro!: paid)
qed

lemma billing_reachable_invoices_ok: "billing_reachable s \<Longrightarrow> invoices_ok s"
proof (induction rule: billing_reachable.induct)
  case billing_start
  then show ?case by (simp add: invoices_ok_def new_billing_def js.entries_empty)
qed (rule billing_step_invoices_ok)

subsection \<open>Promo codes\<close>

definition redemptions_of :: "string \<Rightarrow> billing \<Rightarrow> nat" where
  "redemptions_of i s = length (filter (\<lambda>r. red_promoCodeId r = i) (bl_promoRedemptions s))"

definition customer_redemptions :: "string \<Rightarrow> string \<Rightarrow> billing \<Rightarrow> nat" where
  "customer_redemptions i c s =
     length (filter (\<lambda>r. red_promoCodeId r = i \<and> red_customerId r = c) (bl_promoRedemptions s))"

definition promo_ok :: "billing \<Rightarrow> string \<Rightarrow> PromoCode \<Rightarrow> bool" where
  "promo_ok s k p \<longleftrightarrow> pc_id p = k \<and> pc_timesRedeemed p = redemptions_of k s \<and>
     (\<forall>n. pc_maxRedemptions p = Some n \<longrightarrow> is_integer n \<and> 0 < n \<and> of_nat (redemptions_of k s) \<le> n) \<and>
     is_integer (pc_perCustomerLimit p) \<and> 0 < pc_perCustomerLimit p \<and>
     (\<forall>c. of_nat (customer_redemptions k c s) \<le> pc_perCustomerLimit p)"

definition promos_ok :: "billing \<Rightarrow> bool" where
  "promos_ok s \<longleftrightarrow> js_all (promo_ok s) (bl_promoCodes s) \<and>
     list_all (\<lambda>r. js_get (bl_promoCodes s) (red_promoCodeId r) \<noteq> None) (bl_promoRedemptions s)"

lemma integer_room: "is_integer n \<Longrightarrow> \<not> of_nat k \<ge> n \<Longrightarrow> of_nat (k + 1) \<le> (n :: rat)"
proof -
  assume n: "is_integer n" and room: "\<not> of_nat k \<ge> n"
  have whole: "of_int \<lfloor>n\<rfloor> = n" using n by (simp only: is_integer_def)
  have "(of_int (int k) :: rat) < of_int \<lfloor>n\<rfloor>" using room unfolding whole by simp
  then have "int k < \<lfloor>n\<rfloor>" by (simp only: of_int_less_iff)
  then have "int (k + 1) \<le> \<lfloor>n\<rfloor>" by simp
  then have "(of_int (int (k + 1)) :: rat) \<le> of_int \<lfloor>n\<rfloor>" by (simp only: of_int_le_iff)
  then show ?thesis unfolding whole by simp
qed

lemma promos_ok_rest: "same_rest s s' \<Longrightarrow> promos_ok s \<Longrightarrow> promos_ok s'"
  unfolding promos_ok_def promo_ok_def [abs_def] redemptions_of_def customer_redemptions_def same_rest_def by simp

lemma promos_ok_redeem:
  assumes "promos_ok s" and "js_get (bl_promoCodes s) k = Some promo"
    and "redemptionError promo (redemptionContext promo m (sub_customerId sub) plan now s) = None"
    and "bl_promoCodes s' = bl_promoCodes s" and "bl_promoRedemptions s' = bl_promoRedemptions s"
  shows "promos_ok (redeemed sub promo now s')"
proof -
  define t where "t = redeemed sub promo now s'"
  have ok: "promo_ok s k promo" using assms(1,2) by (auto simp: promos_ok_def dest: js.entries_get)
  then have k: "pc_id promo = k" by (simp add: promo_ok_def)
  have codes: "bl_promoCodes t = js_set k (promo\<lparr>pc_timesRedeemed := pc_timesRedeemed promo + 1\<rparr>) (bl_promoCodes s)"
    by (simp add: t_def assms(4) k)
  have total_count: "redemptions_of j t = (if j = k then redemptions_of j s + 1 else redemptions_of j s)" for j
    by (auto simp: t_def redemptions_of_def assms(5) k)
  have per_customer: "customer_redemptions j c t =
      (if j = k \<and> c = sub_customerId sub then customer_redemptions j c s + 1 else customer_redemptions j c s)" for j c
    by (auto simp: t_def customer_redemptions_def assms(5) k)
  have limits: "\<And>n. pc_maxRedemptions promo = Some n \<Longrightarrow> \<not> of_nat (redemptions_of k s) \<ge> n"
    "\<not> of_nat (customer_redemptions k (sub_customerId sub) s) \<ge> pc_perCustomerLimit promo"
    using assms(3) ok
    by (auto simp: redemptionError_def redemptionContext_def promo_ok_def customer_redemptions_def k
        split: if_splits)
  have "promo_ok t k (promo\<lparr>pc_timesRedeemed := pc_timesRedeemed promo + 1\<rparr>)"
    using ok integer_room [OF _ limits(1)] integer_room [OF _ limits(2)]
    unfolding promo_ok_def total_count per_customer by auto
  moreover have "promo_ok t j p" if "promo_ok s j p" "j \<noteq> k" for j p
    using that unfolding promo_ok_def total_count per_customer by simp
  moreover have "js_all (promo_ok s) (bl_promoCodes s)" using assms(1) by (simp add: promos_ok_def)
  ultimately have "js_all (promo_ok t) (bl_promoCodes t)"
    unfolding codes entries_sat_def by auto
  moreover have "list_all (\<lambda>r. js_get (bl_promoCodes t) (red_promoCodeId r) \<noteq> None) (bl_promoRedemptions t)"
    using assms(1) unfolding codes by (auto simp: t_def assms(5) k promos_ok_def list_all_iff)
  ultimately show ?thesis by (simp add: promos_ok_def t_def)
qed

lemma validatePromoCodeInput_limits:
  assumes "validatePromoCodeInput input = None"
  shows "positive_integer (pci_maxRedemptions input)" and "positive_integer (pci_perCustomerLimit input)"
  using assms unfolding validatePromoCodeInput_def Let_def by (simp_all only: option.distinct split: if_split_asm)

lemma is_integer_1: "is_integer 1"
  by (simp add: is_integer_def)

lemma promos_ok_create:
  assumes "promos_ok s" and "fresh_in (bl_promoCodes s) (''promo_'' @ uuid)"
  shows "promos_ok (snd (createPromoCode uuid input now s))"
proof (cases rule: createPromoCode_cases [of uuid input now s])
  case created
  define s' where "s' = snd (createPromoCode uuid input now s)"
  define promo where "promo = new_promo uuid input now"
  have none: "r \<in> set (bl_promoRedemptions s) \<Longrightarrow> red_promoCodeId r \<noteq> ''promo_'' @ uuid" for r
    using assms by (auto simp: promos_ok_def list_all_iff fresh_in_def)
  have same: "redemptions_of j s' = redemptions_of j s" "customer_redemptions j c s' = customer_redemptions j c s" for j c
    by (simp_all add: s'_def created redemptions_of_def customer_redemptions_def)
  have "redemptions_of (''promo_'' @ uuid) s = 0" "customer_redemptions (''promo_'' @ uuid) c s = 0" for c
    using none by (auto simp: redemptions_of_def customer_redemptions_def filter_empty_conv)
  moreover have "\<And>n. pc_maxRedemptions promo = Some n \<Longrightarrow> is_integer n \<and> 0 < n"
    "is_integer (pc_perCustomerLimit promo) \<and> 0 < pc_perCustomerLimit promo"
    using validatePromoCodeInput_limits [OF created(1)] is_integer_1
    by (auto simp: promo_def new_promo_def split: option.splits)
  ultimately have "promo_ok s' (''promo_'' @ uuid) promo"
    unfolding promo_ok_def same by (auto simp: promo_def new_promo_def)
  moreover have "promo_ok s' = promo_ok s" unfolding promo_ok_def [abs_def] same by simp
  ultimately have "promos_ok s'"
    using assms(1) unfolding promos_ok_def
    by (auto simp: s'_def created promo_def list_all_iff intro!: js.entries_put)
  then show ?thesis by (simp add: s'_def)
qed (simp add: assms(1))

lemma billing_step_promos_ok:
  assumes "billing_step s s'" and "promos_ok s"
  shows "promos_ok s'"
  using assms(1)
proof (cases rule: billing_step.cases)
  case (do_subscribe uuid sub_input now)
  show ?thesis
  proof (cases rule: subscribe_cases [of uuid sub_input now s])
    case (promo plan promo code)
    from requireRedeemable_Inr [OF promo(2)] obtain k where "js_get (bl_promoCodes s) k = Some promo"
      and "redemptionError promo (redemptionContext promo (sbi_merchantId sub_input)
        (sub_customerId (new_subscription uuid sub_input plan now)) plan now s) = None" by auto
    from promos_ok_redeem [OF assms(2) this] show ?thesis by (simp add: do_subscribe promo(3))
  qed (use assms(2) in \<open>simp_all add: do_subscribe promos_ok_rest [of s]\<close>)
next
  case (do_recordUsage uuid i metric quantity key now)
  with assms(2) show ?thesis
    by (cases rule: recordUsage_cases [of uuid i metric quantity key now s])
      (auto simp: promos_ok_def promo_ok_def redemptions_of_def customer_redemptions_def entries_sat_def)
next
  case (do_createPlan uuid plan_input now)
  with assms(2) show ?thesis
    by (auto simp: promos_ok_def promo_ok_def redemptions_of_def customer_redemptions_def entries_sat_def)
next
  case (do_configureDunning m days action now)
  with assms(2) show ?thesis
    by (auto simp: promos_ok_def promo_ok_def redemptions_of_def customer_redemptions_def entries_sat_def)
next
  case (do_createPromoCode uuid promo_input now)
  with assms(2) show ?thesis by (simp add: promos_ok_create)
next
  case (do_deactivatePromoCode i)
  show ?thesis
  proof (cases rule: deactivatePromoCode_cases [of i s])
    case (found k promo)
    from found(1) assms(2) have ok: "promo_ok s k promo" by (auto simp: promos_ok_def dest: js.entries_get)
    then have k: "pc_id promo = k" by (simp add: promo_ok_def)
    have "promo_ok s' = promo_ok s"
      by (simp add: promo_ok_def [abs_def] redemptions_of_def customer_redemptions_def do_deactivatePromoCode found)
    moreover from ok have "promo_ok s k (promo\<lparr>pc_active := False\<rparr>)" by (simp add: promo_ok_def)
    ultimately show ?thesis
      using assms(2) by (auto simp: do_deactivatePromoCode found k promos_ok_def list_all_iff intro!: js.entries_put)
  qed (simp add: do_deactivatePromoCode assms(2))
next
  case (do_applyPromoCode i code now)
  show ?thesis
  proof (cases rule: applyPromoCode_cases [of i code now s])
    case (applied sub plan promo)
    from requireRedeemable_Inr [OF applied(4)] obtain k where "js_get (bl_promoCodes s) k = Some promo" by auto
    from promos_ok_redeem [OF assms(2) this requireRedeemable_Inr(2) [OF applied(4)]]
    show ?thesis by (simp add: do_applyPromoCode applied(5))
  qed (simp add: do_applyPromoCode assms(2))
qed (use assms(2) in \<open>auto intro: promos_ok_rest [of s]\<close>)

lemma billing_reachable_promos_ok: "billing_reachable s \<Longrightarrow> promos_ok s"
proof (induction rule: billing_reachable.induct)
  case billing_start
  then show ?case by (simp add: promos_ok_def new_billing_def js.entries_empty)
qed (rule billing_step_promos_ok)

subsection \<open>Retry schedules\<close>

definition configs_ok :: "billing \<Rightarrow> bool" where
  "configs_ok s \<longleftrightarrow> js_all (\<lambda>k c. validateRetrySchedule (dc_retryScheduleDays c) = None) (bl_dunningConfigs s)"

lemma default_schedule_valid: "validateRetrySchedule DEFAULT_RETRY_SCHEDULE_DAYS = None"
  by (simp add: validateRetrySchedule_def DEFAULT_RETRY_SCHEDULE_DAYS_def MAX_RETRY_ATTEMPTS_def
      MAX_RETRY_WINDOW_DAYS_def)

lemma getDunningConfig_valid:
  "configs_ok s \<Longrightarrow> validateRetrySchedule (dc_retryScheduleDays (getDunningConfig m s)) = None"
  unfolding configs_ok_def
  by (auto simp: getDunningConfig_def default_schedule_valid split: option.split dest: js.entries_get)

lemma billing_step_configs_ok:
  assumes "billing_step s s'" and "configs_ok s"
  shows "configs_ok s'"
proof -
  have rest: "configs_ok t" if "same_rest s t" for t
    using that assms(2) by (simp add: configs_ok_def same_rest_def)
  show ?thesis
    using assms(1)
  proof (cases rule: billing_step.cases)
    case (do_createPlan uuid plan_input now)
    with assms(2) show ?thesis by (simp add: configs_ok_def)
  next
    case (do_subscribe uuid sub_input now)
    with assms(2) show ?thesis
      by (cases rule: subscribe_cases [of uuid sub_input now s]) (simp_all add: configs_ok_def)
  next
    case (do_recordUsage uuid i metric quantity key now)
    with assms(2) show ?thesis
      by (cases rule: recordUsage_cases [of uuid i metric quantity key now s]) (simp_all add: configs_ok_def)
  next
    case (do_createPromoCode uuid promo_input now)
    with assms(2) show ?thesis
      by (cases rule: createPromoCode_cases [of uuid promo_input now s]) (simp_all add: configs_ok_def)
  next
    case (do_deactivatePromoCode i)
    with assms(2) show ?thesis
      by (cases rule: deactivatePromoCode_cases [of i s]) (simp_all add: configs_ok_def)
  next
    case (do_applyPromoCode i code now)
    with assms(2) show ?thesis
      by (cases rule: applyPromoCode_cases [of i code now s]) (simp_all add: configs_ok_def)
  next
    case (do_configureDunning m days action now)
    with assms(2) show ?thesis
      by (auto simp: configureDunning_def Let_def configs_ok_def intro: js.entries_put split: option.splits)
  qed (use rest in simp_all)
qed

lemma billing_reachable_configs_ok: "billing_reachable s \<Longrightarrow> configs_ok s"
proof (induction rule: billing_reachable.induct)
  case billing_start
  then show ?case by (simp add: configs_ok_def new_billing_def js.entries_empty)
qed (rule billing_step_configs_ok)

subsection \<open>Metering\<close>

text \<open>
  The abstract reading of a meter: what a list of quantities amounts to. The state keeps only the
  summary; the specification looks at the quantities themselves.
\<close>

definition summary :: "rat list \<Rightarrow> MeterReading option" where
  "summary qs = (if qs = [] then None
     else Some \<lparr>mr_sum = sum_list qs, mr_max = Max (set qs), mr_last = last qs, mr_count = length qs\<rparr>)"

definition period_quantities :: "string \<Rightarrow> string \<Rightarrow> nat \<Rightarrow> billing \<Rightarrow> rat list" where
  "period_quantities i metric n s = map usg_quantity
     (filter (\<lambda>e. usg_subscriptionId e = i \<and> usg_metric e = metric) (drop n (bl_usageEvents s)))"

lemma summary_snoc: "summary (qs @ [q]) = Some (applyReading (summary qs) q)"
  by (cases "qs = []") (auto simp: summary_def applyReading_def Max_insert max.commute)

definition metered_ok :: "billing \<Rightarrow> string \<Rightarrow> Subscription \<Rightarrow> bool" where
  "metered_ok s k sub \<longleftrightarrow> (\<exists>n \<le> length (bl_usageEvents s). \<forall>metric.
     js_get (sub_meterReadings sub) metric = summary (period_quantities k metric n s) \<and>
     js_get (sub_usage sub) metric = map_option mr_sum (summary (period_quantities k metric n s)))"

lemma metered_ok_cleared:
  "sub_meterReadings sub = [] \<Longrightarrow> sub_usage sub = [] \<Longrightarrow> metered_ok s k sub"
  by (auto simp: metered_ok_def period_quantities_def summary_def intro!: exI [of _ "length (bl_usageEvents s)"])

lemma metered_ok_cong:
  "bl_usageEvents s' = bl_usageEvents s \<Longrightarrow> metered_ok s' k sub = metered_ok s k sub"
  by (simp add: metered_ok_def period_quantities_def)

lemma metered_ok_event:
  assumes "metered_ok s k sub" and "bl_usageEvents s' = bl_usageEvents s @ [e]"
  shows "usg_subscriptionId e \<noteq> k \<Longrightarrow> metered_ok s' k sub"
    and "usg_subscriptionId e = k \<Longrightarrow> metered_ok s' k (metered (usg_metric e) (usg_quantity e) now sub)"
proof -
  obtain n where n: "n \<le> length (bl_usageEvents s)"
    and old: "\<And>metric. js_get (sub_meterReadings sub) metric = summary (period_quantities k metric n s)"
      "\<And>metric. js_get (sub_usage sub) metric = map_option mr_sum (summary (period_quantities k metric n s))"
    using assms(1) by (auto simp: metered_ok_def)
  have quantities: "period_quantities k metric n s' = period_quantities k metric n s @
      (if usg_subscriptionId e = k \<and> usg_metric e = metric then [usg_quantity e] else [])" for metric
    using n by (simp add: period_quantities_def assms(2))
  have len: "n \<le> length (bl_usageEvents s')" using n by (simp add: assms(2))
  show "metered_ok s' k sub" if "usg_subscriptionId e \<noteq> k"
    unfolding metered_ok_def using len that by (intro exI [of _ n]) (simp add: quantities old)
  show "metered_ok s' k (metered (usg_metric e) (usg_quantity e) now sub)" if k: "usg_subscriptionId e = k"
  proof -
    have "or_zero (map_option mr_sum (summary qs)) + q = mr_sum (applyReading (summary qs) q)" for qs and q :: rat
      by (simp add: applyReading_def split: option.split)
    then show ?thesis
      unfolding metered_ok_def using len k
      by (intro exI [of _ n]) (simp add: quantities old metered_def summary_snoc)
  qed
qed

definition metering_ok :: "billing \<Rightarrow> bool" where
  "metering_ok s \<longleftrightarrow> subs_keyed s \<and> js_all (metered_ok s) (bl_subscriptions s)"

lemma billing_step_metering_ok:
  assumes "billing_step s s'" and "metering_ok s"
  shows "metering_ok s'"
proof -
  have keyed: "subs_keyed s" using assms(2) by (simp add: metering_ok_def)
  from assms(1) keyed show ?thesis
  proof (cases rule: billing_step_evolve)
    case evolved
    have "metered_ok s' k sub'" if sub': "js_get (bl_subscriptions s') k = Some sub'" for k sub'
      using subs_evolveD(2) [OF evolved(1) sub']
    proof (elim disjE exE conjE)
      assume "unmetered k sub'"
      then show ?thesis by (simp add: unmetered_def metered_ok_cleared)
    next
      fix sub assume sub: "js_get (bl_subscriptions s) k = Some sub" and step: "evolves sub sub'"
      have "metered_ok s k sub" using assms(2) sub by (auto simp: metering_ok_def dest: js.entries_get)
      then have "metered_ok s' k sub" by (simp add: metered_ok_cong [OF evolved(2)])
      with step show ?thesis
        by (auto simp: evolves_def metered_ok_def intro: metered_ok_cleared [unfolded metered_ok_def])
    qed
    then show ?thesis
      using subs_evolve_keyed [OF evolved(1) keyed] by (simp add: metering_ok_def entries_sat_def)
  next
    case (counted i sub uuid metric quantity key now m)
    define e where "e = usage_event uuid sub metric quantity key now"
    have i: "sub_id sub = i" using keyed counted(1) by (auto simp: subs_keyed_def dest: js.entries_get)
    have log: "bl_usageEvents s' = bl_usageEvents s @ [e]" by (simp add: counted(4) e_def)
    have e: "usg_subscriptionId e = i" "usg_metric e = metric" "usg_quantity e = quantity"
      by (simp_all add: e_def usage_event_def i)
    have old: "\<And>k sub. js_get (bl_subscriptions s) k = Some sub \<Longrightarrow> metered_ok s k sub"
      using assms(2) by (auto simp: metering_ok_def dest: js.entries_get)
    have "js_all (metered_ok s') (bl_subscriptions s')"
      using metered_ok_event [OF old log] counted(1)
      by (auto simp: counted(4) metered_def [of _ _ _ sub, THEN arg_cong, of sub_id] entries_sat_def i e)
    moreover have "subs_keyed s'"
      using keyed by (auto simp: subs_keyed_def counted(4) intro: js.entries_put)
    ultimately show ?thesis by (simp add: metering_ok_def)
  qed
qed

lemma billing_reachable_metering_ok: "billing_reachable s \<Longrightarrow> metering_ok s"
proof (induction rule: billing_reachable.induct)
  case billing_start
  then show ?case by (simp add: metering_ok_def subs_keyed_def new_billing_def js.entries_empty)
qed (rule billing_step_metering_ok)

end
