(* ===== verification/SubscriptionProps.thy ===== *)
theory SubscriptionProps
  imports SubscriptionInv
begin

text \<open>
  What subscription billing guarantees in every state its operations can reach: the arithmetic of
  invoices, the limits of promo codes, meter readings that summarise the event log, cancelled
  subscriptions that stay cancelled, and dunning that comes to an end.
\<close>

subsection \<open>A concrete run\<close>

text \<open>
  A plan at 20 with a meter at 2 a unit beyond 5, a code for 25 percent, a subscription with it, 8
  units of usage and an invoice: 20 for the plan, 6 for the usage, less 6.50, makes 19.50.
\<close>

definition demo_plan :: CreatePlanInput where
  "demo_plan = \<lparr>cpi_id = Some ''P'', cpi_name = ''BASIC'', cpi_currency = Some ''USD'', cpi_basePrice = 20,
     cpi_includedUnits = None, cpi_overageUnitPrice = None, cpi_tiers = None,
     cpi_meters = Some [\<lparr>mpi_metric = ''API'', mpi_displayName = None, mpi_aggregation = None,
       mpi_model = PerUnit, mpi_includedUnits = Some 5, mpi_unitPrice = Some 2, mpi_packageSize = None,
       mpi_packagePrice = None, mpi_tiers = None\<rparr>],
     cpi_billingInterval = None, cpi_features = None\<rparr>"

definition demo_promo :: PromoCodeInput where
  "demo_promo = \<lparr>pci_code = ''SAVE'', pci_description = None, pci_merchantId = None,
     pci_discountType = Percent, pci_percentOff = Some 25, pci_amountOff = None, pci_currency = None,
     pci_duration = None, pci_durationInPeriods = None, pci_maxRedemptions = Some 10,
     pci_perCustomerLimit = None, pci_appliesToPlanIds = None, pci_minimumAmount = None,
     pci_startsAt = None, pci_expiresAt = None\<rparr>"

definition demo_subscribe :: SubscribeInput where
  "demo_subscribe = \<lparr>sbi_merchantId = ''M'', sbi_customerId = ''C'', sbi_planId = ''P'', sbi_trialDays = None,
     sbi_promoCode = Some ''SAVE''\<rparr>"

definition demo_1 :: billing where "demo_1 = snd (createBillingPlan ''1'' demo_plan 0 new_billing)"
definition demo_2 :: billing where "demo_2 = snd (createPromoCode ''1'' demo_promo 0 demo_1)"
definition demo_3 :: billing where "demo_3 = snd (subscribe ''1'' demo_subscribe 0 demo_2)"
definition demo_4 :: billing where "demo_4 = snd (recordUsage ''1'' ''sub_1'' ''API'' 8 None 10 demo_3)"
definition demo_5 :: billing where "demo_5 = snd (generateInvoice ''1'' ''sub_1'' 20 demo_4)"


lemma demo_reachable: "billing_reachable demo_1" "billing_reachable demo_2" "billing_reachable demo_3"
  "billing_reachable demo_4" "billing_reachable demo_5"
proof -
  show 1: "billing_reachable demo_1"
    unfolding demo_1_def by (rule billing_next [OF billing_start do_createPlan])
  have "fresh_in (bl_promoCodes demo_1) (''promo_'' @ ''1'')" by code_simp
  from billing_next [OF 1 do_createPromoCode [OF this]] show 2: "billing_reachable demo_2"
    unfolding demo_2_def .
  have "fresh_in (bl_subscriptions demo_2) (''sub_'' @ ''1'')" by code_simp
  from billing_next [OF 2 do_subscribe [OF this]] show 3: "billing_reachable demo_3"
    unfolding demo_3_def .
  show 4: "billing_reachable demo_4"
    unfolding demo_4_def by (rule billing_next [OF 3 do_recordUsage])
  have "fresh_in (bl_invoices demo_4) (''inv_'' @ ''1'')" by code_simp
  from billing_next [OF 4 do_generateInvoice [OF this]] show "billing_reachable demo_5"
    unfolding demo_5_def .
qed

subsection \<open>Invoices\<close>

text \<open>
  C3: In every reachable state each stored invoice adds up: its lines (the plan, the usage and the
  discount) sum to its total exactly, the subtotal is the base plus the usage, the total is the
  subtotal less the discount, neither part is negative, the discount never exceeds the subtotal, and
  the total is a whole number of cents that is not negative.
\<close>

theorem invoice_arithmetic:
  assumes "billing_reachable s" and "getInvoice i s = Some v"
  shows "sum_list (map ili_amount (inv_lineItems v)) = inv_total v \<and>
    inv_subtotal v = inv_baseAmount v + inv_usageAmount v \<and>
    inv_total v = inv_subtotal v - inv_discountAmount v \<and>
    0 \<le> inv_baseAmount v \<and> 0 \<le> inv_usageAmount v \<and>
    0 \<le> inv_discountAmount v \<and> inv_discountAmount v \<le> inv_subtotal v \<and>
    0 \<le> inv_total v \<and> cents (inv_total v)"
proof -
  have "invoice_ok v"
    using invoices_ok_get [OF billing_reachable_invoices_ok [OF assms(1)]] assms(2) by (simp add: getInvoice_def)
  moreover from this have "0 \<le> inv_total v" by (simp add: invoice_ok_def)
  ultimately show ?thesis unfolding invoice_ok_def by blast
qed

theorem invoice_arithmetic_witness:
  "\<exists>v. getInvoice ''inv_1'' demo_5 = Some v \<and> inv_discountAmount v = 13 / 2 \<and>
     sum_list (map ili_amount (inv_lineItems v)) = 39 / 2"
proof -
  have "case getInvoice ''inv_1'' demo_5 of None \<Rightarrow> False
    | Some v \<Rightarrow> inv_discountAmount v = 13 / 2 \<and> inv_total v = 39 / 2" by code_simp
  then obtain v where "getInvoice ''inv_1'' demo_5 = Some v" "inv_discountAmount v = 13 / 2" "inv_total v = 39 / 2"
    by (auto split: option.splits)
  with invoice_arithmetic [OF demo_reachable(5) this(1)] show ?thesis by auto
qed

subsection \<open>Promo codes\<close>

text \<open>
  In every reachable state, whatever was subscribed, applied, removed and deactivated before, a
  promo code counts exactly the redemptions listed for it; they never exceed its limit, and no
  customer has redeemed it more often than the limit per customer.
\<close>

lemma promo_limits_hold:
  assumes "billing_reachable s" and "js_get (bl_promoCodes s) i = Some promo"
  shows "pc_timesRedeemed promo = length (listPromoRedemptions i s) \<and>
    (\<forall>n. pc_maxRedemptions promo = Some n \<longrightarrow> of_nat (length (listPromoRedemptions i s)) \<le> n) \<and>
    (\<forall>c. of_nat (length (filter (\<lambda>r. red_customerId r = c) (listPromoRedemptions i s))) \<le>
       pc_perCustomerLimit promo)"
proof -
  have "promo_ok s i promo"
    using billing_reachable_promos_ok [OF assms(1)] assms(2)
    by (auto simp: promos_ok_def dest: js.entries_get)
  then show ?thesis
    by (simp add: promo_ok_def redemptions_of_def customer_redemptions_def listPromoRedemptions_def conj_commute)
qed

text \<open>One redemption used up the limit of one per customer; a second subscription with the code fails.\<close>

lemma promo_limits_hold_witness:
  "\<exists>promo. js_get (bl_promoCodes demo_3) ''promo_1'' = Some promo \<and> pc_timesRedeemed promo = 1 \<and>
     length (listPromoRedemptions ''promo_1'' demo_3) = 1 \<and>
     fst (subscribe ''2'' demo_subscribe 5 demo_3) = Inl (PromoInvalid CustomerLimitReached)"
proof -
  have "case js_get (bl_promoCodes demo_3) ''promo_1'' of None \<Rightarrow> False | Some p \<Rightarrow> pc_timesRedeemed p = 1"
    by code_simp
  then obtain promo where promo: "js_get (bl_promoCodes demo_3) ''promo_1'' = Some promo" "pc_timesRedeemed promo = 1"
    by (auto split: option.splits)
  have "case fst (subscribe ''2'' demo_subscribe 5 demo_3) of Inl (PromoInvalid CustomerLimitReached) \<Rightarrow> True | _ \<Rightarrow> False"
    by code_simp
  then have "fst (subscribe ''2'' demo_subscribe 5 demo_3) = Inl (PromoInvalid CustomerLimitReached)"
    by (auto split: sum.splits billing_error.splits redemption_reason.splits)
  with promo promo_limits_hold [OF demo_reachable(3) promo(1)] show ?thesis by auto
qed

subsection \<open>Metering\<close>



subsection \<open>Cancelled subscriptions\<close>

lemma billing_step_cancelled:
  assumes "billing_step s s'" and keyed: "subs_keyed s"
    and sub: "js_get (bl_subscriptions s) i = Some sub" "sub_status sub = SubCancelled"
  shows "\<exists>sub'. js_get (bl_subscriptions s') i = Some sub' \<and> sub_status sub' = SubCancelled \<and>
    sub_planId sub' = sub_planId sub \<and> (sub_discount sub = None \<longrightarrow> sub_discount sub' = None) \<and>
    listUsageEvents i s' = listUsageEvents i s"
  using assms(1,2)
proof (cases rule: billing_step_evolve)
  case evolved
  with subs_evolveD(1) [OF evolved(1) sub(1)] sub(2) show ?thesis
    by (auto simp: evolves_def listUsageEvents_def)
next
  case (counted j other uuid metric quantity key now m)
  have "sub_id other = j" using keyed counted(1) by (auto simp: subs_keyed_def dest: js.entries_get)
  moreover have "j \<noteq> i" using counted(1,2) sub by auto
  ultimately show ?thesis
    using sub by (auto simp: counted(4) metered_def listUsageEvents_def usage_event_def)
qed

lemma billing_step_keyed: "billing_step s s' \<Longrightarrow> metering_ok s \<Longrightarrow> subs_keyed s'"
  using billing_step_metering_ok by (auto simp: metering_ok_def)

text \<open>
  Cancelled is final. Once a subscription is cancelled in a reachable state, no sequence of
  operations, payments of its open invoices and ends of its billing periods included, brings it
  back: it stays cancelled on the same plan, gets no discount that it did not have, and no usage
  event is ever recorded for it again.
\<close>

lemma cancelled_subscription_final:
  assumes "billing_reachable s" and "billing_step\<^sup>*\<^sup>* s s'"
    and "getSubscription i s = Some sub" and "sub_status sub = SubCancelled"
  shows "\<exists>sub'. getSubscription i s' = Some sub' \<and> sub_status sub' = SubCancelled \<and>
    sub_planId sub' = sub_planId sub \<and> (sub_discount sub = None \<longrightarrow> sub_discount sub' = None) \<and>
    listUsageEvents i s' = listUsageEvents i s"
proof -
  have "metering_ok s' \<and> (\<exists>sub'. js_get (bl_subscriptions s') i = Some sub' \<and> sub_status sub' = SubCancelled \<and>
    sub_planId sub' = sub_planId sub \<and> (sub_discount sub = None \<longrightarrow> sub_discount sub' = None) \<and>
    listUsageEvents i s' = listUsageEvents i s)"
    using assms(2)
  proof (induction rule: rtranclp_induct)
    case base
    with assms show ?case by (simp add: billing_reachable_metering_ok getSubscription_def)
  next
    case (step t t')
    from step.IH obtain sub' where sub': "js_get (bl_subscriptions t) i = Some sub'" "sub_status sub' = SubCancelled"
      and rest: "sub_planId sub' = sub_planId sub" "sub_discount sub = None \<longrightarrow> sub_discount sub' = None"
        "listUsageEvents i t = listUsageEvents i s"
      by (elim conjE exE) (rule that)
    have ok: "metering_ok t" using step.IH by (rule conjunct1)
    from ok have "subs_keyed t" by (simp add: metering_ok_def)
    from billing_step_cancelled [OF step.hyps(2) this sub'] rest billing_step_metering_ok [OF step.hyps(2) ok]
    show ?case by auto
  qed
  then show ?thesis by (simp add: getSubscription_def)
qed

lemma cancelled_subscription_final_witness:
  "\<exists>sub. getSubscription ''sub_1''
     (snd (closeBillingPeriod ''2'' ''sub_1'' 40 (snd (cancelSubscription ''sub_1'' False 30 demo_5)))) = Some sub \<and>
     sub_status sub = SubCancelled"
proof -
  define s where "s = snd (cancelSubscription ''sub_1'' False 30 demo_5)"
  have reach: "billing_reachable s"
    unfolding s_def by (rule billing_next [OF demo_reachable(5) do_cancelSubscription])
  have "fresh_in (bl_invoices s) (''inv_'' @ ''2'')" unfolding s_def by code_simp
  then have run: "billing_step\<^sup>*\<^sup>* s (snd (closeBillingPeriod ''2'' ''sub_1'' 40 s))"
    by (intro r_into_rtranclp do_closeBillingPeriod)
  have "case getSubscription ''sub_1'' s of None \<Rightarrow> False
    | Some sub \<Rightarrow> sub_status sub = SubCancelled" unfolding s_def by code_simp
  then obtain sub where "getSubscription ''sub_1'' s = Some sub" "sub_status sub = SubCancelled"
    by (auto split: option.splits)
  from cancelled_subscription_final [OF reach run this] show ?thesis by (auto simp: s_def)
qed

end
