(* ===== verification/DunningProps.thy ===== *)
theory DunningProps
  imports SubscriptionProps
begin

text \<open>
  Dunning (\<open>recordPaymentAttempt\<close> and \<open>processDunning\<close> of
  \<open>backend/src/services/subscription-billing.ts\<close>): failing attempts follow the retry schedule and
  come to an end, and a run over the due invoices accounts for each of them.
\<close>

subsection \<open>Single attempts\<close>

abbreviation failure :: "string option \<Rightarrow> PaymentAttemptResult" where
  "failure reason \<equiv> \<lparr>par_success = False, par_failureReason = reason\<rparr>"

lemma first_failure:
  assumes "js_get (bl_invoices s) i = Some v" and "inv_status v = InvOpen" and "\<not> retrying v"
    and "dc_retryScheduleDays (getDunningConfig (inv_merchantId v) s) = day # days"
  shows "snd (recordPaymentAttempt i (failure reason) now s) =
    fall_past_due (inv_subscriptionId v) now (put_invoice (v\<lparr>inv_dunning := Some (start_dunning
      (getDunningConfig (inv_merchantId v) s) (failure reason) now
      (of_int now + day * of_int BILLING_DAY_MS))\<rparr>) s)"
  using assms by (simp add: recordPaymentAttempt_def require_def Let_def nextRetryAt_def)

lemma later_failure:
  assumes "js_get (bl_invoices s) i = Some v" and "inv_status v = InvOpen"
    and "inv_dunning v = Some d" and "dun_status d = DunRetrying" and "\<not> par_success result"
  shows "recordPaymentAttempt i result now s =
    (let d' = count_attempt result now d
     in if dun_retriesAttempted d + 1 < length (dun_retryScheduleDays d)
        then (let v' = v\<lparr>inv_dunning := Some (d'\<lparr>dun_nextRetryAt := Some (iso_time (of_int (dun_startedAt d) +
                dun_retryScheduleDays d ! (dun_retriesAttempted d + 1) * of_int BILLING_DAY_MS))\<rparr>)\<rparr>
              in (Inr v', put_invoice v' s))
        else (let v' = v\<lparr>inv_status := InvUncollectible, inv_dunning := Some (d'\<lparr>dun_status := DunExhausted,
                dun_nextRetryAt := None, dun_endedAt := Some now\<rparr>)\<rparr>
              in (Inr v', final_action (dun_finalAction d) (inv_subscriptionId v) now (put_invoice v' s))))"
  using assms
  by (simp add: recordPaymentAttempt_def require_def Let_def nextRetryAt_def retrying_def count_attempt_def)

lemma not_open_conflict:
  "js_get (bl_invoices s) i = Some v \<Longrightarrow> inv_status v \<noteq> InvOpen \<Longrightarrow>
   recordPaymentAttempt i result now s =
     (Inl (ServiceErr (conflict (''Cannot record a payment attempt for a '' @ inv_status_name (inv_status v) @
        '' invoice''))), s)"
  by (simp add: recordPaymentAttempt_def require_def)

subsection \<open>A sequence of failing attempts\<close>

definition fail_all :: "string \<Rightarrow> (int \<times> string option) list \<Rightarrow> billing \<Rightarrow> billing" where
  "fail_all i attempts s =
     fold (\<lambda>a s. snd (recordPaymentAttempt i (failure (snd a)) (fst a) s)) attempts s"

definition in_dunning :: "string \<Rightarrow> string \<Rightarrow> rat list \<Rightarrow> DunningFinalAction \<Rightarrow> int \<Rightarrow> nat \<Rightarrow> billing \<Rightarrow> bool" where
  "in_dunning i sub days action start k s \<longleftrightarrow> (\<exists>v d. js_get (bl_invoices s) i = Some v \<and>
     inv_status v = InvOpen \<and> inv_subscriptionId v = sub \<and> inv_dunning v = Some d \<and>
     dun_status d = DunRetrying \<and> dun_startedAt d = start \<and> dun_retryScheduleDays d = days \<and>
     dun_finalAction d = action \<and> dun_retriesAttempted d = k \<and>
     dun_nextRetryAt d = Some (iso_time (of_int start + days ! k * of_int BILLING_DAY_MS)))"

definition given_up :: "string \<Rightarrow> string \<Rightarrow> DunningFinalAction \<Rightarrow> nat \<Rightarrow> billing \<Rightarrow> bool" where
  "given_up i sub action k s \<longleftrightarrow> (\<exists>v d. js_get (bl_invoices s) i = Some v \<and>
     inv_status v = InvUncollectible \<and> inv_dunning v = Some d \<and> dun_status d = DunExhausted \<and>
     dun_retriesAttempted d = k \<and> dun_nextRetryAt d = None) \<and>
     (action = CancelSubscription \<longrightarrow>
       (\<forall>u. js_get (bl_subscriptions s) sub = Some u \<longrightarrow> sub_status u = SubCancelled))"

lemma invoice_key: "billing_reachable s \<Longrightarrow> js_get (bl_invoices s) i = Some v \<Longrightarrow> inv_id v = i"
  using billing_reachable_invoices_ok by (auto simp: invoices_ok_def dest: js.entries_get)

lemma final_action_cancels:
  assumes "subs_keyed s" and "js_get (bl_subscriptions (final_action CancelSubscription i now s)) i = Some u"
  shows "sub_status u = SubCancelled"
proof (cases "js_get (bl_subscriptions s) i")
  case (Some sub)
  then have "sub_id sub = i" using assms(1) by (auto simp: subs_keyed_def dest: js.entries_get)
  with assms(2) Some show ?thesis by (auto simp: final_action_def split: if_splits)
qed (use assms(2) in \<open>simp add: final_action_def\<close>)

lemma in_dunning_step:
  fixes t :: int and reason :: "string option"
  assumes reach: "billing_reachable s" and now: "in_dunning i sub days action start k s"
  defines "s' \<equiv> snd (recordPaymentAttempt i (failure reason) t s)"
  shows "if k + 1 < length days then in_dunning i sub days action start (k + 1) s'
    else given_up i sub action (k + 1) s'"
proof -
  obtain v d where v: "js_get (bl_invoices s) i = Some v" "inv_status v = InvOpen" "inv_dunning v = Some d"
    "dun_status d = DunRetrying" and fields: "inv_subscriptionId v = sub" "dun_startedAt d = start"
    "dun_retryScheduleDays d = days" "dun_finalAction d = action" "dun_retriesAttempted d = k"
    using now by (auto simp: in_dunning_def)
  have id: "inv_id v = i" using reach v(1) by (rule invoice_key)
  note attempt = later_failure [OF v, of "failure reason" t]
  show ?thesis
  proof (cases "k + 1 < length days")
    case True
    then have "in_dunning i sub days action start (k + 1) s'"
      using v id unfolding s'_def attempt [simplified]
      by (simp add: in_dunning_def Let_def fields count_attempt_def)
    with True show ?thesis by simp
  next
    case False
    have "subs_keyed s" using billing_reachable_metering_ok [OF reach] by (simp add: metering_ok_def)
    then have keyed: "subs_keyed (put_invoice w s)" for w by (simp add: subs_keyed_def)
    from False have "given_up i sub action (k + 1) s'"
      using v id unfolding s'_def attempt [simplified]
      by (auto simp: given_up_def Let_def fields count_attempt_def dest: final_action_cancels [OF keyed])
    with False show ?thesis by simp
  qed
qed

lemma fail_all_reachable: "billing_reachable s \<Longrightarrow> billing_reachable (fail_all i attempts s)"
  unfolding fail_all_def
  by (induction attempts arbitrary: s) (auto intro: billing_next do_recordPaymentAttempt)

lemma in_dunning_run:
  "billing_reachable s \<Longrightarrow> in_dunning i sub days action start k s \<Longrightarrow> k + length attempts \<le> length days \<Longrightarrow>
   if k + length attempts < length days
   then in_dunning i sub days action start (k + length attempts) (fail_all i attempts s)
   else attempts \<noteq> [] \<longrightarrow> given_up i sub action (k + length attempts) (fail_all i attempts s)"
proof (induction attempts arbitrary: k s)
  case Nil
  then show ?case by (simp add: fail_all_def)
next
  case (Cons a attempts)
  define s' where "s' = snd (recordPaymentAttempt i (failure (snd a)) (fst a) s)"
  have run: "fail_all i (a # attempts) s = fail_all i attempts s'" by (simp add: fail_all_def s'_def)
  have reach: "billing_reachable s'"
    unfolding s'_def by (rule billing_next [OF Cons.prems(1) do_recordPaymentAttempt])
  note step = in_dunning_step [OF Cons.prems(1,2), of "snd a" "fst a", folded s'_def]
  show ?case
  proof (cases "k + 1 < length days")
    case True
    with step have "in_dunning i sub days action start (k + 1) s'" by simp
    from Cons.IH [OF reach this] Cons.prems(3) True show ?thesis
      unfolding run by (cases attempts) auto
  next
    case False
    with Cons.prems(3) have "attempts = []" by (cases attempts) simp_all
    with False step show ?thesis unfolding run by (simp add: fail_all_def)
  qed
qed

text \<open>
  C9: Dunning comes to an end. When every attempt to collect an open invoice fails, at whatever
  times and for whatever reasons, each failure up to the length of the retry schedule of the
  merchant leaves the invoice open with its next retry at the scheduled day after the first
  failure; the failure after the last scheduled retry makes the invoice uncollectible, cancels the
  subscription when that is the final action, and any further attempt is a conflict.
\<close>

theorem dunning_comes_to_an_end:
  assumes reach: "billing_reachable s" and v: "getInvoice i s = Some v" "inv_status v = InvOpen" "\<not> retrying v"
    and few: "length later \<le> length (dc_retryScheduleDays (getDunningConfig (inv_merchantId v) s))"
  shows "(let config = getDunningConfig (inv_merchantId v) s;
              days = dc_retryScheduleDays config;
              s' = fail_all i ((t0, reason) # later) s
          in \<exists>v' d. getInvoice i s' = Some v' \<and> inv_dunning v' = Some d \<and>
               dun_retriesAttempted d = length later \<and>
               (if length later < length days
                then inv_status v' = InvOpen \<and> dun_status d = DunRetrying \<and> dun_nextRetryAt d =
                    Some (iso_time (of_int t0 + days ! length later * of_int BILLING_DAY_MS))
                else inv_status v' = InvUncollectible \<and> dun_status d = DunExhausted \<and>
                  dun_nextRetryAt d = None \<and>
                  (\<forall>result t. \<exists>message. recordPaymentAttempt i result t s' =
                    (Inl (ServiceErr (conflict message)), s')) \<and>
                  (dc_finalAction config = CancelSubscription \<longrightarrow>
                    (\<forall>u. getSubscription (inv_subscriptionId v) s' = Some u \<longrightarrow> sub_status u = SubCancelled))))"
proof -
  define config where "config = getDunningConfig (inv_merchantId v) s"
  define days where "days = dc_retryScheduleDays config"
  define s1 where "s1 = snd (recordPaymentAttempt i (failure reason) t0 s)"
  define s' where "s' = fail_all i ((t0, reason) # later) s"
  have run: "s' = fail_all i later s1" by (simp add: s'_def s1_def fail_all_def)
  have "days \<noteq> []"
    using getDunningConfig_valid [OF billing_reachable_configs_ok [OF reach], of "inv_merchantId v"]
    by (auto simp: days_def config_def validateRetrySchedule_def)
  then obtain day rest where days: "days = day # rest" by (cases days) auto
  have stored: "js_get (bl_invoices s) i = Some v" using v(1) by (simp add: getInvoice_def)
  have id: "inv_id v = i" using reach stored by (rule invoice_key)
  note first = first_failure [OF stored v(2,3), of day rest reason t0, folded config_def days_def s1_def]
  have start: "in_dunning i (inv_subscriptionId v) days (dc_finalAction config) t0 0 s1"
    using first days id v(2) by (simp add: in_dunning_def start_dunning_def days_def)
  have reach1: "billing_reachable s1"
    unfolding s1_def by (rule billing_next [OF reach do_recordPaymentAttempt])
  have few': "length later \<le> length days" using few by (simp add: days_def config_def)
  note result = in_dunning_run [OF reach1 start, of later, folded run]
  show ?thesis
  proof (cases "length later < length days")
    case True
    with result show ?thesis
      unfolding Let_def config_def [symmetric] days_def [symmetric] s'_def [symmetric]
      by (auto simp: in_dunning_def getInvoice_def)
  next
    case False
    with few' days have "later \<noteq> []" "length later = length days" by auto
    with result have "given_up i (inv_subscriptionId v) (dc_finalAction config) (length later) s'" by simp
    with False not_open_conflict [of s' i] show ?thesis
      unfolding Let_def config_def [symmetric] days_def [symmetric] s'_def [symmetric]
      by (auto simp: given_up_def getInvoice_def getSubscription_def)
  qed
qed

text \<open>Five failures with the default schedule of four retries: the invoice is given up.\<close>

theorem dunning_comes_to_an_end_witness:
  "\<exists>v' d. getInvoice ''inv_1'' (fail_all ''inv_1''
       ((20, None) # [(30, None), (40, Some ''CARD''), (50, None), (60, None)]) demo_5) = Some v' \<and>
     inv_status v' = InvUncollectible \<and> inv_dunning v' = Some d \<and> dun_retriesAttempted d = 4"
proof -
  have "case getInvoice ''inv_1'' demo_5 of None \<Rightarrow> False | Some v \<Rightarrow> inv_status v = InvOpen \<and>
      \<not> retrying v \<and> length (dc_retryScheduleDays (getDunningConfig (inv_merchantId v) demo_5)) = 4"
    by code_simp
  then obtain v where v: "getInvoice ''inv_1'' demo_5 = Some v" "inv_status v = InvOpen" "\<not> retrying v"
    and days: "length (dc_retryScheduleDays (getDunningConfig (inv_merchantId v) demo_5)) = 4"
    by (auto split: option.splits)
  from dunning_comes_to_an_end [OF demo_reachable(5) v, of "[(30, None), (40, Some ''CARD''), (50, None), (60, None)]"
    20 None] days
  show ?thesis by (auto simp: Let_def)
qed

subsection \<open>A run over the due invoices\<close>

definition last_retry :: "Invoice \<Rightarrow> bool" where
  "last_retry v \<longleftrightarrow> (case inv_dunning v of
     Some d \<Rightarrow> length (dun_retryScheduleDays d) \<le> dun_retriesAttempted d + 1 | None \<Rightarrow> False)"

definition collected :: "(Invoice \<Rightarrow> attempt_outcome) \<Rightarrow> Invoice \<Rightarrow> bool" where
  "collected out v \<longleftrightarrow> par_success (attempt_result (out v))"

lemma attempt_retrying:
  assumes "js_get (bl_invoices s) (inv_id v) = Some v" and "inv_status v = InvOpen" and "retrying v"
  obtains v' s' where "recordPaymentAttempt (inv_id v) result now s = (Inr v', s')"
    and "\<And>k. k \<noteq> inv_id v \<Longrightarrow> js_get (bl_invoices s') k = js_get (bl_invoices s) k"
    and "tally_attempt v' r = r\<lparr>drr_processed := drr_processed r + 1,
      drr_recovered := drr_recovered r @ (if par_success result then [inv_id v] else []),
      drr_failed := drr_failed r @ (if \<not> par_success result \<and> \<not> last_retry v then [inv_id v] else []),
      drr_exhausted := drr_exhausted r @ (if \<not> par_success result \<and> last_retry v then [inv_id v] else [])\<rparr>"
proof -
  obtain d where d: "inv_dunning v = Some d" "dun_status d = DunRetrying"
    using assms(3) by (auto simp: retrying_def split: option.splits)
  show ?thesis
  proof (cases "par_success result")
    case True
    define w where "w = v\<lparr>inv_dunning := Some (count_attempt result now d)\<rparr>"
    have "recordPaymentAttempt (inv_id v) result now s = markInvoicePaid (inv_id v) now (put_invoice w s)"
      using assms True d by (simp add: recordPaymentAttempt_def require_def Let_def w_def)
    also have "\<dots> = (Inr w', s')" if "w' = end_dunning DunRecovered now (w\<lparr>inv_status := InvPaid, inv_paidAt := Some now\<rparr>)"
        "s' = reactivateIfSettled (inv_subscriptionId w) now (put_invoice w' (put_invoice w s))" for w' s'
      using assms(2) that by (simp add: markInvoicePaid_def require_def w_def validate_code_def Let_def)
    finally show ?thesis
      using that True by (cases r) (simp add: tally_attempt_def end_dunning_def w_def)
  next
    case False
    note attempt = later_failure [OF assms(1,2) d False, of now]
    show ?thesis
    proof (cases "dun_retriesAttempted d + 1 < length (dun_retryScheduleDays d)")
      case True
      then have "\<not> last_retry v" by (simp add: last_retry_def d)
      with that attempt True False assms(2) d show ?thesis
        by (cases r) (simp add: Let_def tally_attempt_def count_attempt_def)
    next
      case exhausted: False
      then have "last_retry v" by (simp add: last_retry_def d)
      with that attempt exhausted False show ?thesis
        by (cases r) (simp add: Let_def tally_attempt_def)
    qed
  qed
qed

lemma dunning_run_accounts:
  "distinct (map inv_id vs) \<Longrightarrow>
   list_all (\<lambda>v. js_get (bl_invoices s) (inv_id v) = Some v \<and> inv_status v = InvOpen \<and> retrying v) vs \<Longrightarrow>
   fst (dunning_run (\<lambda>v t. (out v, t, clock v)) vs r s) = Inr (r\<lparr>drr_processed := drr_processed r + length vs,
     drr_recovered := drr_recovered r @ map inv_id (filter (collected out) vs),
     drr_failed := drr_failed r @ map inv_id (filter (\<lambda>v. \<not> collected out v \<and> \<not> last_retry v) vs),
     drr_exhausted := drr_exhausted r @ map inv_id (filter (\<lambda>v. \<not> collected out v \<and> last_retry v) vs)\<rparr>)"
proof (induction vs arbitrary: r s)
  case (Cons v vs)
  from Cons.prems(2) have v: "js_get (bl_invoices s) (inv_id v) = Some v" "inv_status v = InvOpen" "retrying v"
    by simp_all
  obtain v' s' where attempt: "recordPaymentAttempt (inv_id v) (attempt_result (out v)) (clock v) s = (Inr v', s')"
    and others: "\<And>k. k \<noteq> inv_id v \<Longrightarrow> js_get (bl_invoices s') k = js_get (bl_invoices s) k"
    and tally: "tally_attempt v' r = r\<lparr>drr_processed := drr_processed r + 1,
      drr_recovered := drr_recovered r @ (if par_success (attempt_result (out v)) then [inv_id v] else []),
      drr_failed := drr_failed r @ (if \<not> par_success (attempt_result (out v)) \<and> \<not> last_retry v then [inv_id v] else []),
      drr_exhausted := drr_exhausted r @ (if \<not> par_success (attempt_result (out v)) \<and> last_retry v then [inv_id v] else [])\<rparr>"
    by (rule attempt_retrying [OF v, of "attempt_result (out v)" "clock v" r]) (rule that)
  have "list_all (\<lambda>v. js_get (bl_invoices s') (inv_id v) = Some v \<and> inv_status v = InvOpen \<and> retrying v) vs"
    unfolding list_all_iff
  proof
    fix u assume u: "u \<in> set vs"
    then have "inv_id u \<noteq> inv_id v" using Cons.prems(1) by (auto simp: image_iff)
    with u Cons.prems(2) show "js_get (bl_invoices s') (inv_id u) = Some u \<and> inv_status u = InvOpen \<and> retrying u"
      by (simp add: others list_all_iff)
  qed
  with Cons.IH [of s' "tally_attempt v' r"] Cons.prems(1) show ?case
    by (simp add: v attempt tally collected_def)
qed simp

lemma due_invoices:
  fixes now :: int
  assumes "billing_reachable s"
  defines "due \<equiv> filter (due_invoice now) (listDunningInvoices None (Some DunRetrying) s)"
  shows "distinct (map inv_id due)"
    and "list_all (\<lambda>v. js_get (bl_invoices s) (inv_id v) = Some v \<and> inv_status v = InvOpen \<and> retrying v) due"
proof -
  have wf: "js_wf (bl_invoices s)" and keys: "js_all (\<lambda>k v. inv_id v = k) (bl_invoices s)"
    using billing_reachable_invoices_ok [OF assms(1)]
    by (auto simp: invoices_ok_def elim: js.entries_mono)
  show "distinct (map inv_id due)"
    unfolding due_def listDunningInvoices_def
    by (intro distinct_map_filter js_values_ids_distinct [OF wf keys])
  show "list_all (\<lambda>v. js_get (bl_invoices s) (inv_id v) = Some v \<and> inv_status v = InvOpen \<and> retrying v) due"
    using keys
    by (auto simp: due_def listDunningInvoices_def list_all_iff in_js_values [OF wf] due_invoice_def retrying_def
        entries_sat_def split: option.splits)
qed

text \<open>
  A run of dunning accounts for every due invoice. With an attempter that answers for each
  invoice, by a result or by throwing, and nothing else running meanwhile, \<open>processDunning\<close> succeeds
  and processes each open invoice whose retry is due exactly once, in order: those it collects are
  reported as recovered, those whose last scheduled retry failed as exhausted, all others as failed.
\<close>

lemma processDunning_accounts:
  assumes "billing_reachable s"
  shows "(let due = filter (due_invoice now) (listDunningInvoices None (Some DunRetrying) s)
          in fst (processDunning (Some (\<lambda>v t. (out v, t, clock v))) now s) = Inr \<lparr>drr_processed = length due,
               drr_recovered = map inv_id (filter (collected out) due),
               drr_failed = map inv_id (filter (\<lambda>v. \<not> collected out v \<and> \<not> last_retry v) due),
               drr_exhausted = map inv_id (filter (\<lambda>v. \<not> collected out v \<and> last_retry v) due)\<rparr>)"
  using dunning_run_accounts [OF due_invoices [OF assms], where out = out and clock = clock and
      r = "\<lparr>drr_processed = 0, drr_recovered = [], drr_failed = [], drr_exhausted = []\<rparr>"]
  by (simp add: processDunning_def Let_def)

lemma processDunning_accounts_witness:
  "fst (processDunning (Some (\<lambda>v t. (Rejected None, t, 172800000))) 172800000
     (fail_all ''inv_1'' [(20, None)] demo_5)) =
   Inr \<lparr>drr_processed = 1, drr_recovered = [], drr_failed = [''inv_1''], drr_exhausted = []\<rparr>"
proof -
  define s where "s = fail_all ''inv_1'' [(20, None)] demo_5"
  define due where "due = filter (due_invoice 172800000) (listDunningInvoices None (Some DunRetrying) s)"
  have reach: "billing_reachable s" unfolding s_def by (rule fail_all_reachable [OF demo_reachable(5)])
  have "map inv_id due = [''inv_1''] \<and> list_all (\<lambda>v. \<not> last_retry v) due" unfolding due_def s_def by code_simp
  then obtain v where "due = [v]" "inv_id v = ''inv_1''" "\<not> last_retry v" by (cases due) auto
  with processDunning_accounts [OF reach, where now = 172800000 and out = "\<lambda>v. Rejected None"
      and clock = "\<lambda>v. 172800000"] show ?thesis
    unfolding s_def [symmetric] by (simp add: Let_def due_def [symmetric] collected_def attempt_result_def)
qed

text \<open>
  An operation that runs while the attempter is awaited can end a run: when the invoice is paid in
  between, \<open>recordPaymentAttempt\<close> throws, and the due invoices after it are not tried.
\<close>

lemma processDunning_aborted:
  assumes "attempter v s = (outcome, s1, now)"
    and "js_get (bl_invoices s) (inv_id v) = Some v"
    and "js_get (bl_invoices s1) (inv_id v) = Some v1" and "inv_status v1 = InvPaid"
  shows "\<exists>e. dunning_run attempter (v # vs) r s = (Inl (ServiceErr (conflict e)), s1)"
  using assms not_open_conflict [OF assms(3), of "attempt_result outcome" now] by auto

end
