(* ===== verification/JsDate.thy ===== *)
theory JsDate
  imports Js
begin

text \<open>
  The calendar behind JavaScript's \<open>Date\<close>, as the language standard defines it: a time is a number
  of milliseconds since 1970-01-01 UTC, its day is the floor of the quotient, and year, month and
  day of month are read off the day number. \<open>setUTCDate\<close> and \<open>setUTCMonth\<close> compute a new day number
  from fields that may be out of range. The bound of the standard on times (8.64e15) is left out.
\<close>

definition MS_PER_DAY :: int where
  "MS_PER_DAY = 86400000"

definition js_day :: "int \<Rightarrow> int" where
  "js_day t = t div MS_PER_DAY"

definition time_in_day :: "int \<Rightarrow> int" where
  "time_in_day t = t mod MS_PER_DAY"

definition make_time :: "int \<Rightarrow> int \<Rightarrow> int" where
  "make_time day rest = day * MS_PER_DAY + rest"

lemma time_split: "make_time (js_day t) (time_in_day t) = t"
  by (simp add: make_time_def js_day_def time_in_day_def)

lemma time_in_day_bounds [simp]: "0 \<le> time_in_day t" "time_in_day t < MS_PER_DAY"
  by (simp_all add: time_in_day_def MS_PER_DAY_def)

lemma make_time_fields [simp]:
  assumes "0 \<le> r" "r < MS_PER_DAY"
  shows "js_day (make_time d r) = d" "time_in_day (make_time d r) = r"
  using assms by (simp_all add: make_time_def js_day_def time_in_day_def MS_PER_DAY_def)

lemma make_time_less:
  assumes "d < d'" "0 \<le> r" "r < MS_PER_DAY" "0 \<le> r'"
  shows "make_time d r < make_time d' r'"
proof -
  have "(d + 1) * MS_PER_DAY \<le> d' * MS_PER_DAY"
    using assms(1) by (intro mult_right_mono) (simp_all add: MS_PER_DAY_def)
  with assms show ?thesis by (simp add: make_time_def algebra_simps)
qed

subsection \<open>Years\<close>

definition leap_year :: "int \<Rightarrow> bool" where
  "leap_year y \<longleftrightarrow> 4 dvd y \<and> (\<not> 100 dvd y \<or> 400 dvd y)"

definition day_from_year :: "int \<Rightarrow> int" where
  "day_from_year y = 365 * (y - 1970) + (y - 1969) div 4 - (y - 1901) div 100 + (y - 1601) div 400"

definition year_from_day :: "int \<Rightarrow> int" where
  "year_from_day d =
     (let y = 1970 + (400 * d) div 146097
      in if d < day_from_year y then y - 1 else if day_from_year (y + 1) \<le> d then y + 1 else y)"

lemma div_succ: "0 < k \<Longrightarrow> (x + 1) div k = x div k + (if k dvd x + 1 then 1 else 0)" for x k :: int
proof -
  assume k: "0 < k"
  have x: "x = k * (x div k) + x mod k" by simp
  have m: "0 \<le> x mod k" "x mod k < k" using k by simp_all
  show ?thesis
  proof (cases "x mod k = k - 1")
    case True
    then have e: "x + 1 = k * (x div k + 1)" using x by (simp only: distrib_left mult_1_right)
    then show ?thesis using k by (metis dvd_triv_left nonzero_mult_div_cancel_left less_irrefl)
  next
    case False
    then have m': "0 \<le> x mod k + 1" "x mod k + 1 < k" using m by simp_all
    have e: "x + 1 = k * (x div k) + (x mod k + 1)" using x by linarith
    have "(x + 1) div k = x div k" by (rule int_div_pos_eq [OF e m'])
    moreover have "(x + 1) mod k = x mod k + 1" by (rule int_mod_pos_eq [OF e m'])
    then have "\<not> k dvd x + 1" using m by (simp add: dvd_eq_mod_eq_0)
    ultimately show ?thesis by simp
  qed
qed

lemma dvd_shift: "k dvd c \<Longrightarrow> k dvd y - c \<longleftrightarrow> k dvd y" for k c y :: int
  by (metis dvd_diff dvd_add diff_add_cancel)

lemma day_from_year_Suc: "day_from_year (y + 1) = day_from_year y + (if leap_year y then 366 else 365)"
proof -
  have a: "(y + 1 - 1969) div 4 = (y - 1969) div 4 + (if 4 dvd y then 1 else 0)"
    using div_succ [of 4 "y - 1969"] dvd_shift [of 4 1968 y] by (simp add: algebra_simps)
  have b: "(y + 1 - 1901) div 100 = (y - 1901) div 100 + (if 100 dvd y then 1 else 0)"
    using div_succ [of 100 "y - 1901"] dvd_shift [of 100 1900 y] by (simp add: algebra_simps)
  have c: "(y + 1 - 1601) div 400 = (y - 1601) div 400 + (if 400 dvd y then 1 else 0)"
    using div_succ [of 400 "y - 1601"] dvd_shift [of 400 1600 y] by (simp add: algebra_simps)
  have "400 dvd y \<Longrightarrow> 100 dvd y" "100 dvd y \<Longrightarrow> 4 dvd y"
    using dvd_trans [of 100 400 y] dvd_trans [of 4 100 y] by simp_all
  then show ?thesis
    unfolding day_from_year_def a b c leap_year_def
    by (cases "4 dvd y"; cases "100 dvd y"; cases "400 dvd y") simp_all
qed

lemma day_from_year_mono: "y \<le> y' \<Longrightarrow> day_from_year y \<le> day_from_year y'"
proof (induction y' rule: int_ge_induct)
  case (step i)
  then show ?case by (simp add: day_from_year_Suc)
qed simp

lemma div_bounds: "0 < k \<Longrightarrow> k * (x div k) \<le> x" "0 < k \<Longrightarrow> x < k * (x div k) + k" for x k :: int
  using mult_div_mod_eq [of k x] pos_mod_bound [of k x] pos_mod_sign [of k x] by linarith+

lemma day_from_year_bounds:
  "400 * day_from_year y \<le> 146097 * (y - 1970) + 800 \<and> 146097 * (y - 1970) - 800 \<le> 400 * day_from_year y"
proof -
  define a b c where "a = (y - 1969) div 4" and "b = (y - 1901) div 100" and "c = (y - 1601) div 400"
  have "4 * a \<le> y - 1969" "y - 1969 < 4 * a + 4" "100 * b \<le> y - 1901" "y - 1901 < 100 * b + 100"
    "400 * c \<le> y - 1601" "y - 1601 < 400 * c + 400"
    unfolding a_def b_def c_def by (rule div_bounds; simp)+
  then show ?thesis
    unfolding day_from_year_def a_def [symmetric] b_def [symmetric] c_def [symmetric]
    by (simp add: algebra_simps)
qed

lemma year_from_day: "day_from_year (year_from_day d) \<le> d" "d < day_from_year (year_from_day d + 1)"
proof -
  define q where "q = (400 * d) div 146097"
  define y where "y = 1970 + q"
  have q: "146097 * q \<le> 400 * d" "400 * d < 146097 * q + 146097"
    unfolding q_def by (rule div_bounds; simp)+
  have "400 * day_from_year (y - 1) \<le> 400 * d"
    using day_from_year_bounds [of "y - 1"] q unfolding y_def by (simp add: algebra_simps)
  moreover have "400 * d < 400 * day_from_year (y + 2)"
    using day_from_year_bounds [of "y + 2"] q unfolding y_def by (simp add: algebra_simps)
  ultimately have "day_from_year (y - 1) \<le> d" "d < day_from_year (y + 1 + 1)"
    by (simp_all add: add.assoc)
  then show "day_from_year (year_from_day d) \<le> d" "d < day_from_year (year_from_day d + 1)"
    by (simp_all add: year_from_day_def Let_def not_less flip: q_def y_def)
qed

lemma year_from_day_eq: "day_from_year y \<le> d \<Longrightarrow> d < day_from_year (y + 1) \<Longrightarrow> year_from_day d = y"
  using year_from_day [of d] day_from_year_mono [of "y + 1" "year_from_day d"]
    day_from_year_mono [of "year_from_day d + 1" y] by linarith

subsection \<open>Months\<close>

definition days_before :: "bool \<Rightarrow> nat \<Rightarrow> int" where
  "days_before leap m =
     [0, 31, 59, 90, 120, 151, 181, 212, 243, 273, 304, 334, 365] ! m + (if leap \<and> 2 \<le> m then 1 else 0)"

definition month_of :: "bool \<Rightarrow> int \<Rightarrow> nat" where
  "month_of leap doy = length 
     (filter (\<lambda>m. days_before leap m \<le> doy) [1, 2, 3, 4, 5, 6, 7, 8, 9, 10, 11])"

definition month_length :: "int \<Rightarrow> nat \<Rightarrow> int" where
  "month_length y m = days_before (leap_year y) (m + 1) - days_before (leap_year y) m"

definition utc_year :: "int \<Rightarrow> int" where
  "utc_year d = year_from_day d"

definition utc_month :: "int \<Rightarrow> nat" where
  "utc_month d = month_of (leap_year (utc_year d)) (d - day_from_year (utc_year d))"

definition utc_date :: "int \<Rightarrow> int" where
  "utc_date d = d - day_from_year (utc_year d) - days_before (leap_year (utc_year d)) (utc_month d) + 1"

definition make_day :: "int \<Rightarrow> int \<Rightarrow> int \<Rightarrow> int" where
  "make_day y m date =
     (let ym = y + m div 12 in day_from_year ym + days_before (leap_year ym) (nat (m mod 12)) + date - 1)"

text \<open>
  The methods of \<open>Date\<close> that replace one field, and the day that \<open>Date.UTC\<close> gives for three fields
  (years from 0 to 99 stand for the twentieth century).
\<close>

definition set_utc_date :: "int \<Rightarrow> int \<Rightarrow> int" where
  "set_utc_date date t =
     make_time (make_day (utc_year (js_day t)) (int (utc_month (js_day t))) date) (time_in_day t)"

definition set_utc_month :: "int \<Rightarrow> int \<Rightarrow> int" where
  "set_utc_month month t =
     make_time (make_day (utc_year (js_day t)) month (utc_date (js_day t))) (time_in_day t)"

definition date_utc_day :: "int \<Rightarrow> int \<Rightarrow> int \<Rightarrow> int" where
  "date_utc_day y m date = make_day (if 0 \<le> y \<and> y \<le> 99 then 1900 + y else y) m date"

lemma month_cases: "m < (12 :: nat) \<Longrightarrow> m \<in> {0, 1, 2, 3, 4, 5, 6, 7, 8, 9, 10, 11}"
  by simp presburger

lemma length_filter_mono: "(\<And>x. P x \<Longrightarrow> Q x) \<Longrightarrow> length (filter P xs) \<le> length (filter Q xs)"
  by (induction xs) auto

lemma month_of_mono: "doy \<le> doy' \<Longrightarrow> month_of leap doy \<le> month_of leap doy'"
  unfolding month_of_def by (rule length_filter_mono) simp

lemma month_of_eq:
  "m < 12 \<Longrightarrow> days_before leap m \<le> doy \<Longrightarrow> doy < days_before leap (m + 1) \<Longrightarrow> month_of leap doy = m"
  by (drule month_cases, elim insertE; cases leap)
    (simp_all add: month_of_def days_before_def)

lemma month_of_bounds:
  assumes "0 \<le> doy" "doy < (if leap then 366 else 365)"
  shows "month_of leap doy < 12" "days_before leap (month_of leap doy) \<le> doy"
    "doy < days_before leap (month_of leap doy + 1)"
proof -
  have "\<exists>m < 12. days_before leap m \<le> doy \<and> doy < days_before leap (m + 1)"
  proof (rule ccontr)
    assume no: "\<not> ?thesis"
    have "days_before leap m \<le> doy" if "m \<le> 12" for m
      using that
    proof (induction m)
      case (Suc m)
      then show ?case using no by (auto simp: not_less)
    qed (use assms in \<open>simp add: days_before_def\<close>)
    from this [of 12] assms show False by (simp add: days_before_def split: if_splits)
  qed
  then obtain m where m: "m < 12" "days_before leap m \<le> doy" "doy < days_before leap (m + 1)" by blast
  then have "month_of leap doy = m" by (rule month_of_eq)
  with m show "month_of leap doy < 12" "days_before leap (month_of leap doy) \<le> doy"
    "doy < days_before leap (month_of leap doy + 1)" by simp_all
qed

lemma month_length_pos: "m < 12 \<Longrightarrow> 28 \<le> month_length y m \<and> month_length y m \<le> 31"
  by (drule month_cases, elim insertE) (simp_all add: month_length_def days_before_def)

lemma days_before_bounds:
  "m < 12 \<Longrightarrow> 0 \<le> days_before leap m \<and> days_before leap (m + 1) \<le> (if leap then 366 else 365)"
  by (drule month_cases, elim insertE) (simp_all add: days_before_def)

lemma utc_fields:
  "utc_month d < 12" "1 \<le> utc_date d" "utc_date d \<le> month_length (utc_year d) (utc_month d)"
  "make_day (utc_year d) (int (utc_month d)) (utc_date d) = d"
proof -
  have y: "day_from_year (utc_year d) \<le> d" "d < day_from_year (utc_year d + 1)"
    using year_from_day [of d] by (simp_all add: utc_year_def)
  have doy: "0 \<le> d - day_from_year (utc_year d)"
    "d - day_from_year (utc_year d) < (if leap_year (utc_year d) then 366 else 365)"
    using y by (simp_all add: day_from_year_Suc)
  note m = month_of_bounds [OF doy, folded utc_month_def]
  show "utc_month d < 12" "1 \<le> utc_date d" "utc_date d \<le> month_length (utc_year d) (utc_month d)"
    using m by (simp_all add: utc_date_def month_length_def)
  show "make_day (utc_year d) (int (utc_month d)) (utc_date d) = d"
    using m(1) by (simp add: make_day_def utc_date_def Let_def)
qed

lemma make_day_fields:
  assumes "m < 12" "1 \<le> date" "date \<le> month_length y m"
  shows "utc_year (make_day y (int m) date) = y" "utc_month (make_day y (int m) date) = m"
    "utc_date (make_day y (int m) date) = date"
proof -
  let ?d = "make_day y (int m) date"
  have d: "?d = day_from_year y + days_before (leap_year y) m + date - 1"
    using assms(1) by (simp add: make_day_def Let_def)
  have len: "days_before (leap_year y) m + date \<le> days_before (leap_year y) (m + 1)"
    using assms(3) by (simp add: month_length_def)
  have "day_from_year y \<le> ?d" "?d < day_from_year (y + 1)"
    using days_before_bounds [OF assms(1), of "leap_year y"] assms(2) len d
    by (simp_all add: day_from_year_Suc)
  then show y: "utc_year ?d = y" unfolding utc_year_def by (rule year_from_day_eq)
  show m: "utc_month ?d = m"
    unfolding utc_month_def y by (rule month_of_eq) (use assms len d in simp_all)
  show "utc_date ?d = date" by (simp add: utc_date_def y m) (simp add: d)
qed

text \<open>The number of a month, counted from the year 0.\<close>

definition month_index :: "int \<Rightarrow> int" where
  "month_index d = 12 * utc_year d + int (utc_month d)"

lemma make_day_shift: "make_day y m date = make_day (y + m div 12) (m mod 12) date"
  by (simp add: make_day_def Let_def)

lemma make_day_index:
  assumes "1 \<le> date" "date \<le> month_length (y + m div 12) (nat (m mod 12))"
  shows "month_index (make_day y m date) = 12 * y + m" "utc_date (make_day y m date) = date"
    "utc_year (make_day y m date) = y + m div 12" "utc_month (make_day y m date) = nat (m mod 12)"
proof -
  have m: "nat (m mod 12) < 12" "int (nat (m mod 12)) = m mod 12" by simp_all
  note * = make_day_fields [OF m(1) assms, unfolded m(2), folded make_day_shift]
  then show "utc_date (make_day y m date) = date"
    "utc_year (make_day y m date) = y + m div 12" "utc_month (make_day y m date) = nat (m mod 12)"
    by simp_all
  then show "month_index (make_day y m date) = 12 * y + m"
    by (simp add: month_index_def algebra_simps)
qed

lemma make_day_same: "make_day y m a - make_day y m b = a - b"
  by (simp add: make_day_def Let_def)

lemma month_index_less: "month_index a < month_index b \<Longrightarrow> a < b"
proof (rule ccontr)
  assume less: "month_index a < month_index b" and "\<not> a < b"
  then have ba: "b \<le> a" by simp
  note fa = year_from_day [of a, folded utc_year_def] and fb = year_from_day [of b, folded utc_year_def]
  have "utc_year b \<le> utc_year a"
    using day_from_year_mono [of "utc_year a + 1" "utc_year b"] fa fb ba by linarith
  moreover have "utc_year b \<noteq> utc_year a"
  proof
    assume eq: "utc_year b = utc_year a"
    then have lt: "utc_month a < utc_month b" using less by (simp add: month_index_def)
    have "utc_month b \<le> utc_month a"
      unfolding utc_month_def eq by (rule month_of_mono) (use ba in simp)
    with lt show False by simp
  qed
  ultimately have "utc_year b < utc_year a" by simp
  with less utc_fields(1) [of a] utc_fields(1) [of b] show False by (simp add: month_index_def)
qed

end
