(* ===== verification/Doubles.thy ===== *)
theory Doubles
  imports Money "HOL-Library.Log_Nat"
begin

text \<open>
  The arithmetic of JavaScript numbers where it decides about a cent. A finite double is the rational
  it stands for, and \<open>+\<close>, \<open>-\<close>, \<open>*\<close>, \<open>/\<close> return the double nearest to the exact result, ties to even
  (IEEE 754 binary64, 53 bits): \<open>fl\<close> below, applied after every operation. The exponent is not
  bounded; amounts of money neither overflow nor come near the subnormal numbers.
\<close>

subsection \<open>Rounding to 53 bits\<close>

text \<open>The exponent of the leading bit of a positive number.\<close>

definition exponent :: "rat \<Rightarrow> int" where
  "exponent x =
     (case quotient_of x of (p, q) \<Rightarrow>
        let e = int (floorlog 2 (nat p)) - int (floorlog 2 (nat q))
        in if x < 2 powi e then e - 1 else e)"

definition round_even :: "rat \<Rightarrow> int" where
  "round_even x =
     (let below = \<lfloor>x\<rfloor>; rest = x - of_int below
      in if rest < 1 / 2 \<or> (rest = 1 / 2 \<and> even below) then below else below + 1)"

definition fl :: "rat \<Rightarrow> rat" where
  "fl x =
     (if x = 0 then 0
      else let unit = 2 powi (exponent \<bar>x\<bar> - 52) in of_int (round_even (x / unit)) * unit)"

lemma fl_0 [simp]: "fl 0 = 0"
  by (simp add: fl_def)

lemma exponent_le:
  assumes "0 < x"
  shows "2 powi exponent x \<le> x"
proof -
  obtain p q where pq: "quotient_of x = (p, q)" by fastforce
  then have q: "0 < q" and x: "x = of_int p / of_int q"
    by (rule quotient_of_denom_pos, rule quotient_of_div)
  then have p: "0 < p" using assms by (simp add: zero_less_divide_iff)
  define a b where "a = floorlog 2 (nat p)" and "b = floorlog 2 (nat q)"
  have "2 ^ (a - 1) \<le> nat p" "nat q < 2 ^ b" "0 < a"
    using floorlog_bounds [of "nat p" 2] floorlog_bounds [of "nat q" 2] p q
      floorlog_eq_zero_iff [of 2 "nat p"]
    by (auto simp: a_def b_def)
  then have a: "(2 :: int) ^ (a - 1) \<le> p" and b: "q < (2 :: int) ^ b" and a0: "0 < a"
    using p q by (simp_all add: le_nat_iff nat_less_iff)
  have "(2 :: rat) powi (int a - int b - 1) = 2 ^ (a - 1) / 2 ^ b"
    using a0 by (simp add: power_int_diff power_diff)
  also have "\<dots> \<le> of_int p / of_int q"
  proof (rule frac_le)
    show "(2 :: rat) ^ (a - 1) \<le> of_int p" using a by (metis of_int_le_iff of_int_numeral of_int_power)
    show "of_int q \<le> (2 :: rat) ^ b"
      using b by (metis less_imp_le of_int_le_iff of_int_numeral of_int_power)
  qed (use p q in simp_all)
  finally have "2 powi (int a - int b - 1) \<le> x" by (simp add: x)
  then show ?thesis by (auto simp: exponent_def pq Let_def a_def b_def)
qed

lemma exponent_less:
  assumes "0 < x"
  shows "x < 2 powi (exponent x + 1)"
proof -
  obtain p q where pq: "quotient_of x = (p, q)" by fastforce
  then have q: "0 < q" and x: "x = of_int p / of_int q"
    by (rule quotient_of_denom_pos, rule quotient_of_div)
  then have p: "0 < p" using assms by (simp add: zero_less_divide_iff)
  define a b where "a = floorlog 2 (nat p)" and "b = floorlog 2 (nat q)"
  have "nat p < 2 ^ a" "2 ^ (b - 1) \<le> nat q" "0 < b"
    using floorlog_bounds [of "nat p" 2] floorlog_bounds [of "nat q" 2] p q
      floorlog_eq_zero_iff [of 2 "nat q"]
    by (auto simp: a_def b_def)
  then have a: "p < (2 :: int) ^ a" and b: "(2 :: int) ^ (b - 1) \<le> q" and b0: "0 < b"
    using p q by (simp_all add: le_nat_iff nat_less_iff)
  have "of_int p / of_int q < (2 :: rat) ^ a / 2 ^ (b - 1)"
  proof (rule frac_less)
    show "of_int p < (2 :: rat) ^ a" using a by (metis of_int_less_iff of_int_numeral of_int_power)
    show "(2 :: rat) ^ (b - 1) \<le> of_int q" using b by (metis of_int_le_iff of_int_numeral of_int_power)
  qed (use p q in simp_all)
  also have "\<dots> = 2 powi (int a - int b + 1)"
    using b0 by (simp add: power_int_diff power_int_add power_diff)
  finally have "x < 2 powi (int a - int b + 1)" by (simp add: x)
  then show ?thesis by (auto simp: exponent_def pq Let_def a_def b_def)
qed

lemma exponent_unique:
  assumes "0 < x" "2 powi e \<le> x" "x < 2 powi (e + 1)"
  shows "exponent x = e"
proof (rule ccontr)
  assume "exponent x \<noteq> e"
  then consider "exponent x + 1 \<le> e" | "e + 1 \<le> exponent x" by linarith
  then show False
  proof cases
    case 1
    then have "(2 :: rat) powi (exponent x + 1) \<le> 2 powi e" by (rule power_int_increasing) simp_all
    with exponent_less [OF assms(1)] assms(2) show False by simp
  next
    case 2
    then have "(2 :: rat) powi (e + 1) \<le> 2 powi exponent x" by (rule power_int_increasing) simp_all
    with exponent_le [OF assms(1)] assms(3) show False by simp
  qed
qed

lemma round_even_eq:
  assumes "\<bar>x - of_int m\<bar> < 1 / 2"
  shows "round_even x = m"
proof (cases "of_int m \<le> x")
  case True
  with assms have "\<lfloor>x\<rfloor> = m" "x - of_int m < 1 / 2" by linarith+
  then show ?thesis by (simp add: round_even_def Let_def)
next
  case False
  with assms have "\<lfloor>x\<rfloor> = m - 1" "\<not> (x - of_int (m - 1) < 1 / 2 \<or> x - of_int (m - 1) = 1 / 2 \<and> even (m - 1))"
    by linarith+
  then show ?thesis unfolding round_even_def Let_def by simp
qed

text \<open>To find the value of an operation it is enough to name it.\<close>

lemma fl_eqI:
  assumes "2 powi e \<le> x" "x < 2 powi (e + 1)" and "u = 2 powi (e - 52)"
    and "\<bar>x - of_int m * u\<bar> < u / 2"
  shows "fl x = of_int m * u"
proof -
  have pos: "0 < x" using assms(1) by (rule less_le_trans [rotated]) simp
  then have e: "exponent \<bar>x\<bar> = e" using assms(1,2) by (simp add: exponent_unique)
  have u: "0 < u" by (simp add: assms(3))
  then have "\<bar>x / u - of_int m\<bar> * u = \<bar>x - of_int m * u\<bar>"
    by (simp add: abs_mult_pos left_diff_distrib)
  with assms(4) have "\<bar>x / u - of_int m\<bar> * u < 1 / 2 * u" by simp
  with u have "round_even (x / u) = m" by (intro round_even_eq) (simp only: mult_less_cancel_right_pos)
  with pos e show ?thesis by (simp add: fl_def assms(3) [symmetric] Let_def)
qed

lemma fl_of_int:
  assumes "\<bar>n\<bar> < 2 ^ 53"
  shows "fl (of_int n) = of_int n"
proof (cases "n = 0")
  case False
  define e where "e = exponent \<bar>of_int n\<bar>"
  have "(2 :: rat) powi e \<le> \<bar>of_int n\<bar>" unfolding e_def by (rule exponent_le) (simp add: False)
  also have "\<dots> < of_int (2 ^ 53)" using assms by (simp only: of_int_abs [symmetric] of_int_less_iff)
  finally have "(2 :: rat) powi e < 2 powi 53" by simp
  then have "e < 53" by (metis not_less one_le_numeral power_int_increasing)
  then have "(2 :: rat) powi (e - 52) = inverse (2 ^ nat (52 - e))"
    using power_int_minus [of "2 :: rat" "int (nat (52 - e))"]
    by (simp only: power_int_of_nat) (simp add: nat_0_le)
  then have "of_int n / (2 :: rat) powi (e - 52) = of_int (n * 2 ^ nat (52 - e))"
    by (simp add: field_simps)
  then have "round_even (of_int n / 2 powi (e - 52)) = n * 2 ^ nat (52 - e)"
    using round_even_eq [of "of_int n / 2 powi (e - 52)" "n * 2 ^ nat (52 - e)"] by simp
  with False show ?thesis
    by (simp add: fl_def e_def [symmetric] Let_def \<open>(2 :: rat) powi (e - 52) = inverse (2 ^ nat (52 - e))\<close>)
qed simp

lemma fl_numeral [simp]: "(numeral n :: int) < 2 ^ 53 \<Longrightarrow> fl (numeral n) = numeral n"
  using fl_of_int [of "numeral n"] by simp

lemma fl_1 [simp]: "fl 1 = 1"
  using fl_of_int [of 1] by simp

lemma round_even_error: "\<bar>of_int (round_even x) - x\<bar> \<le> 1 / 2"
proof -
  have "of_int \<lfloor>x\<rfloor> \<le> x" "x < of_int \<lfloor>x\<rfloor> + 1" by linarith+
  then show ?thesis by (auto simp: round_even_def Let_def abs_le_iff)
qed

text \<open>One operation is off by at most half a unit in the last place.\<close>

lemma fl_error: "\<bar>fl x - x\<bar> \<le> \<bar>x\<bar> / 2 ^ 53"
proof (cases "x = 0")
  case False
  define u :: rat where "u = 2 powi (exponent \<bar>x\<bar> - 52)"
  have u: "0 < u" by (simp add: u_def)
  have "u * 2 ^ 52 = 2 powi exponent \<bar>x\<bar>" by (simp add: u_def power_int_diff)
  then have size: "u * 2 ^ 52 \<le> \<bar>x\<bar>" using exponent_le [of "\<bar>x\<bar>"] False by simp
  have "fl x - x = (of_int (round_even (x / u)) - x / u) * u"
    using False u by (simp add: fl_def u_def [symmetric] Let_def left_diff_distrib)
  then have "\<bar>fl x - x\<bar> = \<bar>of_int (round_even (x / u)) - x / u\<bar> * u"
    using u by (simp add: abs_mult)
  also have "\<dots> \<le> 1 / 2 * u" using round_even_error u by (intro mult_right_mono) simp_all
  also have "\<dots> \<le> \<bar>x\<bar> / 2 ^ 53" using size by simp
  finally show ?thesis .
qed simp

lemma fl_near: "\<bar>x\<bar> \<le> M \<Longrightarrow> \<bar>fl x - x\<bar> \<le> M / 9007199254740992"
  using fl_error [of x] divide_right_mono [of "\<bar>x\<bar>" M 9007199254740992] by simp

lemma fl_scaled:
  assumes "0 \<le> k" "\<bar>k * x\<bar> \<le> M"
  shows "\<bar>k * fl x - k * x\<bar> \<le> M / 9007199254740992"
proof -
  have "\<bar>k * fl x - k * x\<bar> = k * \<bar>fl x - x\<bar>"
    using assms(1) by (simp add: abs_mult flip: right_diff_distrib)
  also have "\<dots> \<le> k * (\<bar>x\<bar> / 2 ^ 53)" using assms(1) fl_error by (intro mult_left_mono)
  also have "\<dots> = \<bar>k * x\<bar> / 9007199254740992" using assms(1) by (simp add: abs_mult)
  also have "\<dots> \<le> M / 9007199254740992" using assms(2) by (intro divide_right_mono) simp_all
  finally show ?thesis .
qed

lemma fl_nonneg:
  assumes "0 \<le> x"
  shows "0 \<le> fl x"
proof -
  have "x - fl x \<le> x / 2 ^ 53" using fl_error [of x] assms unfolding abs_le_iff by simp
  moreover have "x / 2 ^ 53 \<le> x" using assms by simp
  ultimately show ?thesis by linarith
qed

lemma fl_pos:
  assumes "0 < x"
  shows "0 < fl x"
proof -
  have "x - fl x \<le> x / 2 ^ 53" using fl_error [of x] assms unfolding abs_le_iff by simp
  moreover have "x / 2 ^ 53 < x" using assms by simp
  ultimately show ?thesis by linarith
qed

subsection \<open>Amounts in cents\<close>

text \<open>
  The double that stands for so many cents, the value of the literal \<open>c/100\<close>, and
  \<open>Math.round((value + Number.EPSILON) * 100) / 100\<close> in double arithmetic. \<open>Math.round\<close> itself is exact.
\<close>

definition cur :: "int \<Rightarrow> rat" where
  "cur c = fl (of_int c / 100)"

definition round_cur :: "rat \<Rightarrow> rat" where
  "round_cur value = fl (of_int (js_round (fl (fl (value + 1 / 2 ^ 52) * 100))) / 100)"

text \<open>\<open>reduce((sum, x) => sum + x, 0)\<close>\<close>

definition sum_fl :: "rat list \<Rightarrow> rat" where
  "sum_fl xs = foldl (\<lambda>sum x. fl (sum + x)) 0 xs"

definition cents_of :: "rat \<Rightarrow> int" where
  "cents_of value = js_round (fl (fl (value + 1 / 2 ^ 52) * 100))"

lemma round_cur_cents: "round_cur value = cur (cents_of value)"
  by (simp add: round_cur_def cur_def cents_of_def)

lemma cur_0 [simp]: "cur 0 = 0"
  by (simp add: cur_def)

text \<open>Up to ten billion units, \<open>10^12\<close> cents, the errors are far below a cent.\<close>

definition MAX_CENTS :: int where
  "MAX_CENTS = 10 ^ 12"

lemma max_cents: "\<bar>c\<bar> \<le> MAX_CENTS \<Longrightarrow> \<bar>of_int c :: rat\<bar> \<le> 1000000000000"
    "\<bar>c\<bar> \<le> 2 * MAX_CENTS \<Longrightarrow> \<bar>of_int c :: rat\<bar> \<le> 2000000000000"
proof -
  have "\<bar>of_int c :: rat\<bar> \<le> of_int m" if "\<bar>c\<bar> \<le> m" for m
    using that by (simp only: of_int_abs [symmetric] of_int_le_iff)
  from this [of MAX_CENTS] this [of "2 * MAX_CENTS"]
  show "\<bar>c\<bar> \<le> MAX_CENTS \<Longrightarrow> \<bar>of_int c :: rat\<bar> \<le> 1000000000000"
    "\<bar>c\<bar> \<le> 2 * MAX_CENTS \<Longrightarrow> \<bar>of_int c :: rat\<bar> \<le> 2000000000000"
    by (simp_all add: MAX_CENTS_def)
qed

lemma js_round_eq: "\<bar>x - of_int c\<bar> < 1 / 2 \<Longrightarrow> js_round x = c"
  unfolding js_round_def by linarith

lemma js_round_error: "\<bar>of_int (js_round x) - x\<bar> \<le> 1 / 2"
  unfolding js_round_def by linarith

lemma cur_error:
  assumes "\<bar>c\<bar> \<le> 2 * MAX_CENTS"
  shows "\<bar>cur c - of_int c / 100\<bar> \<le> 1 / 400000"
proof -
  have "\<bar>of_int c / 100 :: rat\<bar> \<le> 20000000000" using max_cents(2) [OF assms] by linarith
  from fl_near [OF this] show ?thesis unfolding cur_def by linarith
qed

lemma scaled_error:
  fixes v :: rat
  assumes "\<bar>v\<bar> \<le> 100000000000"
  shows "\<bar>fl (fl (v + 1 / 2 ^ 52) * 100) - 100 * v\<bar> \<le> 1 / 200"
proof -
  define eps :: rat where "eps = 1 / 2 ^ 52"
  have eps: "0 \<le> eps" "eps \<le> 1 / 1000000" by (simp_all add: eps_def)
  then have "\<bar>v + eps\<bar> \<le> 100000000001" using assms by linarith
  from fl_near [OF this] have 1: "\<bar>fl (v + eps) - (v + eps)\<bar> \<le> 1 / 80000" by linarith
  then have "\<bar>fl (v + eps) * 100\<bar> \<le> 10000000000200" using assms eps by linarith
  from fl_near [OF this]
  have "\<bar>fl (fl (v + eps) * 100) - fl (v + eps) * 100\<bar> \<le> 1 / 800" by linarith
  with 1 eps show ?thesis unfolding eps_def [symmetric] by linarith
qed

lemma cents_of_error:
  assumes "\<bar>v\<bar> \<le> 100000000000"
  shows "\<bar>of_int (cents_of v) - 100 * v\<bar> \<le> 1 / 2 + 1 / 200"
  using scaled_error [OF assms] js_round_error [of "fl (fl (v + 1 / 2 ^ 52) * 100)"]
  unfolding cents_of_def by linarith

lemma cents_of_near:
  assumes "\<bar>v - of_int c / 100\<bar> \<le> 1 / 400" "\<bar>c\<bar> \<le> 2 * MAX_CENTS"
  shows "cents_of v = c"
proof -
  have "\<bar>v\<bar> \<le> 100000000000" using assms(1) max_cents(2) [OF assms(2)] by linarith
  from scaled_error [OF this] assms(1) show ?thesis
    unfolding cents_of_def by (intro js_round_eq) linarith
qed

lemma round_near:
  "\<bar>v - of_int c / 100\<bar> \<le> 1 / 400 \<Longrightarrow> \<bar>c\<bar> \<le> 2 * MAX_CENTS \<Longrightarrow> round_cur v = cur c"
  by (simp only: round_cur_cents cents_of_near)

lemma round_cur_cur: "\<bar>c\<bar> \<le> 2 * MAX_CENTS \<Longrightarrow> round_cur (cur c) = cur c"
  using cur_error [of c] by (intro round_near) linarith+

text \<open>Different numbers of cents are different doubles, in the same order.\<close>

lemma cur_less:
  assumes "c < d" "\<bar>c\<bar> \<le> 2 * MAX_CENTS" "\<bar>d\<bar> \<le> 2 * MAX_CENTS"
  shows "cur c < cur d"
proof -
  have "(of_int c :: rat) + 1 \<le> of_int d" using assms(1) by (metis of_int_1 of_int_add of_int_le_iff zless_imp_add1_zle)
  then show ?thesis using cur_error [OF assms(2)] cur_error [OF assms(3)] by linarith
qed

lemma cur_nonneg: "0 \<le> c \<Longrightarrow> 0 \<le> cur c"
  by (simp add: cur_def fl_nonneg)

lemma cur_nonneg_iff: "0 \<le> cur c \<longleftrightarrow> 0 \<le> c"
proof
  assume "0 \<le> cur c"
  show "0 \<le> c"
  proof (rule ccontr)
    assume "\<not> 0 \<le> c"
    then have neg: "of_int c / 100 < (0 :: rat)" by simp
    have "cur c - of_int c / 100 \<le> - (of_int c / 100) / 2 ^ 53"
      using fl_error [of "of_int c / 100"] neg unfolding cur_def abs_le_iff by simp
    then show False using neg \<open>0 \<le> cur c\<close> by simp
  qed
qed (rule cur_nonneg)

text \<open>A sum and a difference of amounts, rounded, is the sum and the difference in cents.\<close>

lemma round_diff:
  assumes "\<bar>a\<bar> \<le> MAX_CENTS" "\<bar>b\<bar> \<le> MAX_CENTS"
  shows "round_cur (fl (cur a - cur b)) = cur (a - b)"
proof (rule round_near)
  have near: "\<bar>cur a - of_int a / 100\<bar> \<le> 1 / 400000" "\<bar>cur b - of_int b / 100\<bar> \<le> 1 / 400000"
    using assms by (simp_all only: cur_error MAX_CENTS_def)
  then have "\<bar>cur a - cur b\<bar> \<le> 20000000001"
    using max_cents(1) [OF assms(1)] max_cents(1) [OF assms(2)] by linarith
  from fl_near [OF this] near
  have "\<bar>fl (cur a - cur b) - (of_int a / 100 - of_int b / 100)\<bar> \<le> 1 / 400" by linarith
  then show "\<bar>fl (cur a - cur b) - of_int (a - b) / 100\<bar> \<le> 1 / 400"
    by (simp only: of_int_diff diff_divide_distrib)
  show "\<bar>a - b\<bar> \<le> 2 * MAX_CENTS" using assms by linarith
qed

lemma round_add:
  assumes "\<bar>a\<bar> \<le> MAX_CENTS" "\<bar>b\<bar> \<le> MAX_CENTS"
  shows "round_cur (fl (cur a + cur b)) = cur (a + b)"
proof (rule round_near)
  have near: "\<bar>cur a - of_int a / 100\<bar> \<le> 1 / 400000" "\<bar>cur b - of_int b / 100\<bar> \<le> 1 / 400000"
    using assms by (simp_all only: cur_error MAX_CENTS_def)
  then have "\<bar>cur a + cur b\<bar> \<le> 20000000001"
    using max_cents(1) [OF assms(1)] max_cents(1) [OF assms(2)] by linarith
  from fl_near [OF this] near
  have "\<bar>fl (cur a + cur b) - (of_int a / 100 + of_int b / 100)\<bar> \<le> 1 / 400" by linarith
  then show "\<bar>fl (cur a + cur b) - of_int (a + b) / 100\<bar> \<le> 1 / 400"
    by (simp only: of_int_add add_divide_distrib)
  show "\<bar>a + b\<bar> \<le> 2 * MAX_CENTS" using assms by linarith
qed

lemma round_times:
  assumes "0 \<le> n" "\<bar>n * b\<bar> \<le> MAX_CENTS"
  shows "round_cur (fl (cur b * of_int n)) = cur (n * b)"
proof (rule round_near)
  have *: "(of_int n :: rat) * (of_int b / 100) = of_int (n * b) / 100" by simp
  have size: "\<bar>of_int (n * b) / 100 :: rat\<bar> \<le> 10000000000" using max_cents(1) [OF assms(2)] by linarith
  have "\<bar>of_int n * cur b - of_int (n * b) / 100\<bar> \<le> 10000000000 / 9007199254740992"
    using fl_scaled [of "of_int n" "of_int b / 100", unfolded *, OF _ size] assms(1)
    by (simp add: cur_def)
  then have near: "\<bar>cur b * of_int n - of_int (n * b) / 100\<bar> \<le> 1 / 400000"
    by (simp add: mult.commute [of "cur b"])
  then have "\<bar>cur b * of_int n\<bar> \<le> 20000000000" using size by linarith
  from fl_near [OF this] near show "\<bar>fl (cur b * of_int n) - of_int (n * b) / 100\<bar> \<le> 1 / 400"
    by linarith
  show "\<bar>n * b\<bar> \<le> 2 * MAX_CENTS" using assms(2) by linarith
qed

text \<open>
  The floored share: the quotient in whole cents, or one cent less when the division is exact and
  the double quotient came out just below it.
\<close>

lemma floor_share:
  assumes "0 < n" "0 \<le> F" "F \<le> MAX_CENTS"
  defines "B \<equiv> \<lfloor>fl (fl (cur F / of_int n) * 100)\<rfloor>"
  shows "0 \<le> B" "n * B \<le> F" "B = F div n \<or> n dvd F \<and> B = F div n - 1"
proof -
  let ?n = "of_int n :: rat" and ?q = "fl (cur F / of_int n)"
  define r where "r = fl (?q * 100)"
  have n: "0 \<le> ?n" "?n \<noteq> 0" using assms(1) by simp_all
  have F: "\<bar>F\<bar> \<le> MAX_CENTS" using assms by simp
  then have X: "\<bar>cur F - of_int F / 100\<bar> \<le> 1 / 400000" by (intro cur_error) simp
  then have "\<bar>cur F\<bar> \<le> 20000000000" using max_cents(1) [OF F] by linarith
  then have "\<bar>?n * (cur F / ?n)\<bar> \<le> 20000000000" using n(2) by simp
  from fl_scaled [OF n(1) this] have q: "\<bar>?n * ?q - cur F\<bar> \<le> 1 / 400000" using n(2) by simp
  then have "\<bar>?n * (?q * 100)\<bar> \<le> 2000000000000" using X max_cents(1) [OF F] by linarith
  from fl_scaled [OF n(1) this] have "\<bar>?n * r - ?n * (?q * 100)\<bar> \<le> 1 / 4000" unfolding r_def by linarith
  then have r: "\<bar>?n * r - of_int F\<bar> \<le> 1 / 1000" using q X by linarith
  have "0 \<le> r" using cur_nonneg [OF assms(2)] n(1) by (simp add: r_def fl_nonneg)
  then show "0 \<le> B" by (simp add: B_def r_def)
  have "of_int B \<le> r" "r \<le> of_int B + 1" unfolding B_def r_def by linarith+
  then have "?n * of_int B \<le> ?n * r" "?n * r \<le> ?n * (of_int B + 1)" using n(1) by (simp_all add: mult_left_mono)
  with r have "?n * of_int B < of_int F + 1" "of_int F < ?n * (of_int B + 1) + 1" by linarith+
  then have "of_int (n * B) < (of_int (F + 1) :: rat)" "of_int F < (of_int (n * B + n + 1) :: rat)"
    by (simp_all add: distrib_left)
  then have nB: "n * B \<le> F" "F \<le> n * B + n" by (simp_all only: of_int_less_iff)
  show "n * B \<le> F" by (rule nB)
  show "B = F div n \<or> n dvd F \<and> B = F div n - 1"
  proof (cases "F = n * B + n")
    case True
    then have "F = n * (B + 1)" by (simp add: distrib_left)
    with assms(1) show ?thesis by simp
  next
    case False
    with nB have "F div n = B" by (intro int_div_pos_eq [of _ _ _ "F - n * B"]) simp_all
    then show ?thesis by simp
  qed
qed

text \<open>Each addition of a running sum adds less than a thousandth of a cent to the error.\<close>

lemma sum_fl_near:
  assumes "list_all (\<lambda>c. 0 \<le> c) cs" "0 \<le> S" "S + sum_list cs \<le> MAX_CENTS"
    and "\<bar>s - of_int S / 100\<bar> \<le> err" "err + of_nat (length cs) / 200000 \<le> 1"
  shows "\<bar>foldl (\<lambda>sum x. fl (sum + x)) s (map cur cs) - of_int (S + sum_list cs) / 100\<bar>
    \<le> err + of_nat (length cs) / 200000"
  using assms
proof (induction cs arbitrary: s S err)
  case (Cons c cs)
  have "0 \<le> sum_list cs" using Cons.prems(1) by (auto simp: list_all_iff intro: sum_list_nonneg)
  then have c: "0 \<le> c" "\<bar>c\<bar> \<le> MAX_CENTS" "\<bar>S + c\<bar> \<le> MAX_CENTS" using Cons.prems by auto
  then have near: "\<bar>cur c - of_int c / 100\<bar> \<le> 1 / 400000" by (intro cur_error) simp
  have sum: "\<bar>of_int S + of_int c :: rat\<bar> \<le> 1000000000000"
    using max_cents(1) [OF c(3)] by (simp only: of_int_add)
  have len: "of_nat (length (c # cs)) / 200000 = 1 / 200000 + of_nat (length cs) / (200000 :: rat)"
    "0 \<le> of_nat (length cs) / (200000 :: rat)" by (simp_all add: add_divide_distrib)
  have "\<bar>s + cur c\<bar> \<le> 20000000000" using near sum Cons.prems(4,5) len by linarith
  from fl_near [OF this] have "\<bar>fl (s + cur c) - (s + cur c)\<bar> \<le> 1 / 400000" by linarith
  then have "\<bar>fl (s + cur c) - (of_int S / 100 + of_int c / 100)\<bar> \<le> err + 1 / 200000"
    using near Cons.prems(4) by linarith
  then have step: "\<bar>fl (s + cur c) - of_int (S + c) / 100\<bar> \<le> err + 1 / 200000"
    by (simp only: of_int_add add_divide_distrib)
  have "\<bar>foldl (\<lambda>sum x. fl (sum + x)) (fl (s + cur c)) (map cur cs) - of_int (S + c + sum_list cs) / 100\<bar>
      \<le> err + 1 / 200000 + of_nat (length cs) / 200000"
    by (rule Cons.IH [OF _ _ _ step]) (use Cons.prems c in \<open>simp_all add: add.assoc add_divide_distrib\<close>)
  then show ?case by (simp only: len list.map foldl_Cons sum_list.Cons add.assoc)
qed simp

lemma round_sum:
  assumes "list_all (\<lambda>c. 0 \<le> c) cs" "sum_list cs \<le> MAX_CENTS" "length cs \<le> 100"
  shows "round_cur (sum_fl (map cur cs)) = cur (sum_list cs)"
proof (rule round_near)
  have "(of_nat (length cs) :: rat) \<le> of_nat 100" using assms(3) by (simp only: of_nat_le_iff)
  then have len: "of_nat (length cs) / 200000 \<le> (1 / 2000 :: rat)" by simp
  have "\<bar>sum_fl (map cur cs) - of_int (0 + sum_list cs) / 100\<bar> \<le> 0 + of_nat (length cs) / 200000"
    unfolding sum_fl_def by (rule sum_fl_near) (use assms len in simp_all)
  with len show "\<bar>sum_fl (map cur cs) - of_int (sum_list cs) / 100\<bar> \<le> 1 / 400" by simp
  have "0 \<le> sum_list cs" using assms(1) by (auto simp: list_all_iff intro: sum_list_nonneg)
  then show "\<bar>sum_list cs\<bar> \<le> 2 * MAX_CENTS" using assms(2) by simp
qed

lemma cur_numeral: "cur (100 * n) = fl (of_int n)"
  by (simp add: cur_def)

lemma round_cur_whole:
  assumes "\<bar>n\<bar> \<le> 10 ^ 10"
  shows "round_cur (of_int n) = of_int n"
proof -
  have "round_cur (of_int n) = cur (100 * n)"
    by (rule round_near) (use assms in \<open>simp_all add: MAX_CENTS_def\<close>)
  also have "\<dots> = of_int n" unfolding cur_numeral by (rule fl_of_int) (use assms in simp)
  finally show ?thesis .
qed

lemma round_cur_numeral [simp]: "(numeral n :: int) \<le> 10 ^ 10 \<Longrightarrow> round_cur (numeral n) = numeral n"
  using round_cur_whole [of "numeral n"] by simp

lemma cents_of_bounds:
  assumes "0 \<le> v" "v \<le> 10 ^ 10"
  shows "0 \<le> cents_of v" "cents_of v \<le> MAX_CENTS"
proof -
  have v: "\<bar>v\<bar> \<le> 100000000000" "100 * v \<le> 1000000000000" using assms by simp_all
  then have "- 1 < (of_int (cents_of v) :: rat)" "of_int (cents_of v) < (1000000000001 :: rat)"
    using cents_of_error [OF v(1)] assms(1) by linarith+
  then have "of_int (- 1) < (of_int (cents_of v) :: rat)" "of_int (cents_of v) < (of_int (MAX_CENTS + 1) :: rat)"
    by (simp_all add: MAX_CENTS_def)
  then show "0 \<le> cents_of v" "cents_of v \<le> MAX_CENTS" by (simp_all only: of_int_less_iff)
qed

lemma cents_of_nonneg:
  assumes "0 \<le> v"
  shows "0 \<le> cents_of v"
proof -
  have "0 \<le> v + 1 / 2 ^ 52" using assms by simp
  then have "0 \<le> fl (fl (v + 1 / 2 ^ 52) * 100)" by (simp only: fl_nonneg mult_nonneg_nonneg zero_le_numeral)
  then show ?thesis by (simp add: cents_of_def js_round_def)
qed

lemma fl_half:
  assumes "0 \<le> x"
  shows "x / 2 \<le> fl x"
  using fl_near [of x x] assms by linarith

lemma cur_le_max:
  assumes "cur c \<le> 10 ^ 10"
  shows "c \<le> MAX_CENTS"
proof (rule ccontr)
  assume "\<not> c \<le> MAX_CENTS"
  then have "(of_int (MAX_CENTS + 1) :: rat) \<le> of_int c" by (simp only: of_int_le_iff)
  then have big: "1000000000001 / 100 \<le> of_int c / (100 :: rat)" by (simp add: MAX_CENTS_def)
  show False
  proof (cases "c \<le> 2 * MAX_CENTS")
    case True
    then have "\<bar>cur c - of_int c / 100\<bar> \<le> 1 / 400000"
      using \<open>\<not> c \<le> MAX_CENTS\<close> by (intro cur_error) (simp add: MAX_CENTS_def)
    with big assms show False by simp
  next
    case False
    then have "(of_int (2 * MAX_CENTS + 1) :: rat) \<le> of_int c" by (simp only: of_int_le_iff)
    then have "20000000000 < of_int c / (100 :: rat)" by (simp add: MAX_CENTS_def)
    moreover have "of_int c / 100 / 2 \<le> cur c" unfolding cur_def by (rule fl_half) (use big in simp)
    ultimately show False using assms by simp
  qed
qed

text \<open>
  A total and what is left of it after a part in whole cents, each rounded on its own: the cents of
  part and rest are those of the total, or one more or less.
\<close>

lemma cents_of_rest:
  assumes "0 \<le> D" "cur D \<le> a" "round_cur a \<le> 10 ^ 10"
  shows "\<bar>cents_of a - (D + cents_of (fl (a - cur D)))\<bar> \<le> 1"
proof -
  define eps :: rat where "eps = 1 / 2 ^ 52"
  have eps: "0 \<le> eps" by (simp add: eps_def)
  have D: "0 \<le> of_int D / (100 :: rat)" using assms(1) by simp
  have a0: "0 \<le> a" using assms(2) cur_nonneg [OF assms(1)] by linarith
  have "50 * fl (a + eps) \<le> fl (fl (a + eps) * 100)"
    using fl_half [of "fl (a + eps) * 100"] fl_nonneg [of "a + eps"] a0 eps by simp
  moreover have "a + eps \<le> 2 * fl (a + eps)" using fl_half [of "a + eps"] a0 eps by simp
  ultimately have "25 * a - 1 \<le> of_int (cents_of a)"
    using eps js_round_error [of "fl (fl (a + eps) * 100)"]
    unfolding cents_of_def eps_def [symmetric] by linarith
  moreover have "of_int (cents_of a) \<le> (2000000000000 :: rat)"
  proof (rule ccontr)
    assume big: "\<not> ?thesis"
    then have "10000000000 < of_int (cents_of a) / 100 / (2 :: rat)" by simp
    also have "\<dots> \<le> round_cur a"
      unfolding round_cur_cents cur_def using big by (intro fl_half) simp
    finally show False using assms(3) by simp
  qed
  ultimately have a: "\<bar>a\<bar> \<le> 90000000000" using a0 by linarith
  have "of_int D / 100 / 2 \<le> cur D" unfolding cur_def by (rule fl_half) (rule D)
  then have "\<bar>of_int D / 100 :: rat\<bar> \<le> 200000000000" using D assms(2) a by linarith
  from fl_near [OF this] have d: "\<bar>cur D - of_int D / 100\<bar> \<le> 1 / 40000" unfolding cur_def by linarith
  have "\<bar>a - cur D\<bar> \<le> 90000000000" using assms(2) a cur_nonneg [OF assms(1)] by linarith
  from fl_near [OF this] have w: "\<bar>fl (a - cur D) - (a - cur D)\<bar> \<le> 1 / 40000" by linarith
  have size: "\<bar>a\<bar> \<le> 100000000000" "\<bar>fl (a - cur D)\<bar> \<le> 100000000000"
    using a w \<open>\<bar>a - cur D\<bar> \<le> 90000000000\<close> by linarith+
  have "\<bar>of_int (cents_of a) - (of_int D + of_int (cents_of (fl (a - cur D))))\<bar> < (2 :: rat)"
    using cents_of_error [OF size(1)] cents_of_error [OF size(2)] d w by linarith
  then have "\<bar>of_int (cents_of a - (D + cents_of (fl (a - cur D))))\<bar> < (of_int 2 :: rat)"
    by (simp only: of_int_diff of_int_add of_int_numeral)
  then have "\<bar>cents_of a - (D + cents_of (fl (a - cur D)))\<bar> < 2"
    by (simp only: of_int_abs [symmetric] of_int_less_iff)
  then show ?thesis by simp
qed

end
