(* ===== verification/Installments.thy ===== *)
theory Installments
  imports JsDate Doubles "HOL-Library.List_Lexorder" "HOL-Library.Char_ord" "HOL-Library.Product_Lexorder"
begin

text \<open>
  \<open>backend/src/services/payments/installments/\<close>: buy now, pay later. The repayment schedule and the
  checks of a request (\<open>planner.ts\<close>), the service that keeps instalment plans (\<open>bnplService.ts\<close>) on
  its in-memory store (\<open>store.ts\<close>), with the types of \<open>types.ts\<close>. Times are milliseconds, metadata
  is opaque text. Amounts are doubles, each the rational it stands for, and every arithmetic
  operation on them rounds (\<open>fl\<close>, theory \<open>Doubles\<close>). An operation first gets a copy of the plan from the store and
  writes it back at its end; what it computes on the copy is a function of its own, so that two
  calls may also be interleaved between the reading and the writing.
\<close>

subsection \<open>Types\<close>

datatype InstallmentFrequency = Weekly | Biweekly | EveryMonth

datatype InstallmentStatus = InsScheduled | InsDue | InsPaid | InsFailed | InsCancelled

datatype InstallmentPlanStatus = IplActive | IplCompleted | IplCancelled | IplDefaulted

record Installment =
  ins_index :: int
  ins_amount :: rat
  ins_dueAt :: int
  ins_status :: InstallmentStatus
  ins_paidAt :: "int option"
  ins_paymentId :: "string option"
  ins_failureReason :: "string option"

record InstallmentPlan =
  ipl_id :: string
  ipl_tenantId :: string
  ipl_customerId :: "string option"
  ipl_merchantId :: "string option"
  ipl_currency :: string
  ipl_principal :: rat
  ipl_downPayment :: rat
  ipl_financedAmount :: rat
  ipl_installmentCount :: int
  ipl_frequency :: InstallmentFrequency
  ipl_status :: InstallmentPlanStatus
  ipl_installments :: "Installment list"
  ipl_metadata :: "string option"
  ipl_createdAt :: int
  ipl_updatedAt :: int

text \<open>A date of the input may be invalid: \<open>None\<close> is the invalid date.\<close>

record CreateInstallmentPlanInput =
  cip_tenantId :: string
  cip_amount :: rat
  cip_currency :: "string option"
  cip_installmentCount :: rat
  cip_frequency :: "InstallmentFrequency option"
  cip_downPayment :: "rat option"
  cip_customerId :: "string option"
  cip_merchantId :: "string option"
  cip_startDate :: "int option option"
  cip_metadata :: "string option"

record InstallmentScheduleEntry =
  ise_index :: int
  ise_amount :: rat
  ise_dueAt :: int

record BNPLConfig =
  bnc_minInstallments :: int
  bnc_maxInstallments :: int
  bnc_minFinancedAmount :: rat
  bnc_maxFinancedAmount :: rat
  bnc_supportedCurrencies :: "string list"
  bnc_supportedFrequencies :: "InstallmentFrequency list"
  bnc_defaultFrequency :: InstallmentFrequency

record NormalizedPlanRequest =
  npr_tenantId :: string
  npr_amount :: rat
  npr_currency :: string
  npr_installmentCount :: int
  npr_frequency :: InstallmentFrequency
  npr_downPayment :: rat
  npr_financedAmount :: rat
  npr_startDate :: int
  npr_customerId :: "string option"
  npr_merchantId :: "string option"
  npr_metadata :: "string option"

record InstallmentPlanSummary =
  ips_planId :: string
  ips_status :: InstallmentPlanStatus
  ips_currency :: string
  ips_totalAmount :: rat
  ips_paidAmount :: rat
  ips_remainingAmount :: rat
  ips_paidCount :: nat
  ips_outstandingCount :: nat
  ips_nextDueAt :: "int option"
  ips_progressPercent :: rat

record RecordInstallmentPaymentInput =
  rip_installmentIndex :: int
  rip_paymentId :: "string option"
  rip_paidAt :: "int option option"

record InstallmentPlanListFilter =
  ipf_status :: "InstallmentPlanStatus option"
  ipf_customerId :: "string option"
  ipf_merchantId :: "string option"

datatype InstallmentPlanEventType =
    IpeCreated rat int
  | IpeCancelled "string option"
  | IpeCompleted
  | IpePaid rat "string option"
  | IpeFailed string
  | IpeOverdue "int option"

record InstallmentPlanEvent =
  ipe_type :: InstallmentPlanEventType
  ipe_planId :: string
  ipe_tenantId :: string
  ipe_occurredAt :: int
  ipe_installmentIndex :: "int option"

text \<open>
  The failures by message, with the values that the message shows. \<open>CountNotPositive\<close> is the
  \<open>Error\<close> that \<open>buildInstallmentSchedule\<close> throws; the others are results.
\<close>

datatype bnpl_error =
    BnplTenantRequired | AmountNotPositive | CountNotInteger | CountOutOfRange int int
  | FrequencyNotSupported | BnplCurrencyNotSupported | DownPaymentNegative | DownPaymentTooHigh
  | FinancedTooSmall rat string | FinancedTooLarge rat string | StartDateInvalid
  | CountNotPositive | DoesNotReconcile rat rat | InstallmentPlanNotFound string
  | PlanIsCancelled | PlanFullyPaid | NoInstallmentAt int | InstallmentAlreadyPaid int
  | InstallmentIsCancelled int | PaidAtInvalid | CannotFailOn InstallmentPlanStatus
  | CannotCancelCompleted | AlreadyCancelled | SweepTimestampInvalid

subsection \<open>The planner\<close>

definition DEFAULT_BNPL_CONFIG :: BNPLConfig where
  "DEFAULT_BNPL_CONFIG =
     \<lparr>bnc_minInstallments = 2, bnc_maxInstallments = 12, bnc_minFinancedAmount = 10,
      bnc_maxFinancedAmount = 100000,
      bnc_supportedCurrencies = [''USD'', ''EUR'', ''GBP'', ''XLM'', ''USDC''],
      bnc_supportedFrequencies = [Weekly, Biweekly, EveryMonth],
      bnc_defaultFrequency = EveryMonth\<rparr>"

fun FREQUENCY_DAYS :: "InstallmentFrequency \<Rightarrow> int" where
  "FREQUENCY_DAYS Weekly = 7"
| "FREQUENCY_DAYS Biweekly = 14"
| "FREQUENCY_DAYS EveryMonth = 0"

definition round_bnpl :: "rat \<Rightarrow> rat" where
  "round_bnpl = round_cur"

definition addPeriod :: "int \<Rightarrow> InstallmentFrequency \<Rightarrow> int \<Rightarrow> int" where
  "addPeriod base frequency periods =
     (if frequency = EveryMonth
      then
        let dayOfMonth = utc_date (js_day base);
            date = set_utc_date 1 base;
            date = set_utc_month (int (utc_month (js_day date)) + periods) date;
            lastDayOfMonth =
              utc_date (date_utc_day (utc_year (js_day date)) (int (utc_month (js_day date)) + 1) 0)
        in set_utc_date (min dayOfMonth lastDayOfMonth) date
      else set_utc_date (utc_date (js_day base) + FREQUENCY_DAYS frequency * periods) base)"

definition buildInstallmentSchedule ::
  "rat \<Rightarrow> int \<Rightarrow> InstallmentFrequency \<Rightarrow> int \<Rightarrow> bnpl_error + InstallmentScheduleEntry list" where
  "buildInstallmentSchedule financedAmount installmentCount frequency startDate =
     (if installmentCount \<le> 0 then Inl CountNotPositive
      else
        let financed = round_bnpl financedAmount;
            baseShare = fl (of_int \<lfloor>fl (fl (financed / of_int installmentCount) * 100)\<rfloor> / 100);
            remainder = round_bnpl (fl (financed - round_bnpl (fl (baseShare * of_int installmentCount))))
        in Inr (map (\<lambda>index.
             \<lparr>ise_index = index,
              ise_amount = (if index = installmentCount then round_bnpl (fl (baseShare + remainder))
                else baseShare),
              ise_dueAt = addPeriod startDate frequency (index - 1)\<rparr>) [1..installmentCount]))"

text \<open>\<open>clock\<close> is the \<open>new Date()\<close> that stands for a missing start date.\<close>

definition validateInstallmentRequest ::
  "BNPLConfig \<Rightarrow> CreateInstallmentPlanInput \<Rightarrow> int \<Rightarrow> bnpl_error + NormalizedPlanRequest" where
  "validateInstallmentRequest config input clock =
     (let amount = cip_amount input;
          count = \<lfloor>cip_installmentCount input\<rfloor>;
          frequency = (case cip_frequency input of Some f \<Rightarrow> f | None \<Rightarrow> bnc_defaultFrequency config);
          currency = to_upper (case cip_currency input of Some c \<Rightarrow> c | None \<Rightarrow> ''USD'');
          downPayment = (case cip_downPayment input of None \<Rightarrow> 0 | Some d \<Rightarrow> round_bnpl d);
          financedAmount = round_bnpl (fl (amount - downPayment))
      in if cip_tenantId input = [] then Inl BnplTenantRequired
         else if amount \<le> 0 then Inl AmountNotPositive
         else if of_int count \<noteq> cip_installmentCount input then Inl CountNotInteger
         else if count < bnc_minInstallments config \<or> bnc_maxInstallments config < count
         then Inl (CountOutOfRange (bnc_minInstallments config) (bnc_maxInstallments config))
         else if frequency \<notin> set (bnc_supportedFrequencies config) then Inl FrequencyNotSupported
         else if currency \<notin> set (bnc_supportedCurrencies config) then Inl BnplCurrencyNotSupported
         else if downPayment < 0 then Inl DownPaymentNegative
         else if amount \<le> downPayment then Inl DownPaymentTooHigh
         else if financedAmount < bnc_minFinancedAmount config
         then Inl (FinancedTooSmall (bnc_minFinancedAmount config) currency)
         else if bnc_maxFinancedAmount config < financedAmount
         then Inl (FinancedTooLarge (bnc_maxFinancedAmount config) currency)
         else
           (case (case cip_startDate input of None \<Rightarrow> Some clock | Some d \<Rightarrow> d) of
              None \<Rightarrow> Inl StartDateInvalid
            | Some startDate \<Rightarrow>
                Inr \<lparr>npr_tenantId = cip_tenantId input, npr_amount = round_bnpl amount,
                     npr_currency = currency, npr_installmentCount = count, npr_frequency = frequency,
                     npr_downPayment = downPayment, npr_financedAmount = financedAmount,
                     npr_startDate = startDate, npr_customerId = cip_customerId input,
                     npr_merchantId = cip_merchantId input, npr_metadata = cip_metadata input\<rparr>))"

definition OUTSTANDING_STATUSES :: "InstallmentStatus list" where
  "OUTSTANDING_STATUSES = [InsScheduled, InsDue]"

definition outstanding :: "Installment \<Rightarrow> bool" where
  "outstanding i \<longleftrightarrow> ins_status i \<in> set OUTSTANDING_STATUSES"

definition nextActionableInstallment :: "InstallmentPlan \<Rightarrow> Installment option" where
  "nextActionableInstallment plan = find outstanding (ipl_installments plan)"

definition summarizePlan :: "InstallmentPlan \<Rightarrow> InstallmentPlanSummary" where
  "summarizePlan plan =
     (let paid = filter (\<lambda>i. ins_status i = InsPaid) (ipl_installments plan);
          outs = filter outstanding (ipl_installments plan);
          paidAmount = round_bnpl (sum_fl (map ins_amount paid));
          totalAmount = round_bnpl (sum_fl (map ins_amount (ipl_installments plan)))
      in \<lparr>ips_planId = ipl_id plan, ips_status = ipl_status plan, ips_currency = ipl_currency plan,
          ips_totalAmount = totalAmount, ips_paidAmount = paidAmount,
          ips_remainingAmount = round_bnpl (fl (totalAmount - paidAmount)),
          ips_paidCount = length paid, ips_outstandingCount = length outs,
          ips_nextDueAt = map_option ins_dueAt (nextActionableInstallment plan),
          ips_progressPercent =
            (if ipl_installments plan = [] then 0
             else round_bnpl (fl (fl (of_nat (length paid) / of_nat (length (ipl_installments plan))) * 100)))\<rparr>)"

definition isPlanOverdue :: "InstallmentPlan \<Rightarrow> int \<Rightarrow> bool" where
  "isPlanOverdue plan now = list_ex (\<lambda>i. outstanding i \<and> ins_dueAt i < now) (ipl_installments plan)"

subsection \<open>The store\<close>

type_synonym bnpl_store = "(string, InstallmentPlan) jsmap"

definition bnpl_put :: "InstallmentPlan \<Rightarrow> bnpl_store \<Rightarrow> bnpl_store" where
  "bnpl_put plan plans = js_set (ipl_id plan) plan plans"

definition bnpl_findById :: "string \<Rightarrow> bnpl_store \<Rightarrow> InstallmentPlan option" where
  "bnpl_findById i plans = js_get plans i"

interpretation bnpl: repository bnpl_findById ipl_id bnpl_put
  by unfold_locales (simp add: bnpl_findById_def bnpl_put_def js.get_put)

definition bnpl_list :: "string \<Rightarrow> InstallmentPlanListFilter option \<Rightarrow> bnpl_store \<Rightarrow> InstallmentPlan list" where
  "bnpl_list tenantId flt plans =
     sort_key ipl_createdAt
       (filter (\<lambda>plan. case flt of None \<Rightarrow> True
            | Some f \<Rightarrow> \<not> truthy (ipf_merchantId f) \<or> ipl_merchantId plan = ipf_merchantId f)
       (filter (\<lambda>plan. case flt of None \<Rightarrow> True
            | Some f \<Rightarrow> \<not> truthy (ipf_customerId f) \<or> ipl_customerId plan = ipf_customerId f)
       (filter (\<lambda>plan. case flt of None \<Rightarrow> True
            | Some f \<Rightarrow> (case ipf_status f of None \<Rightarrow> True | Some st \<Rightarrow> ipl_status plan = st))
       (filter (\<lambda>plan. ipl_tenantId plan = tenantId) (js_values plans)))))"

definition findWithOverdueInstallments :: "string \<Rightarrow> int \<Rightarrow> bnpl_store \<Rightarrow> InstallmentPlan list" where
  "findWithOverdueInstallments tenantId before plans =
     filter (\<lambda>plan. list_ex (\<lambda>i. (ins_status i = InsScheduled \<or> ins_status i = InsDue) \<and> ins_dueAt i < before)
         (ipl_installments plan))
       (filter (\<lambda>plan. ipl_tenantId plan = tenantId \<and> ipl_status plan = IplActive) (js_values plans))"

subsection \<open>The service\<close>

record bnpl_service =
  bns_plans :: bnpl_store
  bns_config :: BNPLConfig
  bns_published :: "InstallmentPlanEvent list"

definition bnpl_event ::
  "InstallmentPlanEventType \<Rightarrow> InstallmentPlan \<Rightarrow> int \<Rightarrow> int option \<Rightarrow> InstallmentPlanEvent" where
  "bnpl_event ty plan occurredAt index =
     \<lparr>ipe_type = ty, ipe_planId = ipl_id plan, ipe_tenantId = ipl_tenantId plan,
      ipe_occurredAt = occurredAt, ipe_installmentIndex = index\<rparr>"

text \<open>The plan is written to the store, then the events are published.\<close>

definition bnpl_save ::
  "InstallmentPlan \<Rightarrow> InstallmentPlanEvent list \<Rightarrow> bnpl_service \<Rightarrow> bnpl_service" where
  "bnpl_save plan events s =
     s\<lparr>bns_plans := bnpl_put plan (bns_plans s), bns_published := bns_published s @ events\<rparr>"

definition entry_installment :: "InstallmentScheduleEntry \<Rightarrow> Installment" where
  "entry_installment entry =
     \<lparr>ins_index = ise_index entry, ins_amount = ise_amount entry, ins_dueAt = ise_dueAt entry,
      ins_status = InsScheduled, ins_paidAt = None, ins_paymentId = None, ins_failureReason = None\<rparr>"

definition bnpl_createPlan ::
  "string \<Rightarrow> CreateInstallmentPlanInput \<Rightarrow> int \<Rightarrow> int \<Rightarrow> (bnpl_service, bnpl_error, InstallmentPlan) op" where
  "bnpl_createPlan uuid input clock now s =
     (case validateInstallmentRequest (bns_config s) input clock of
        Inl e \<Rightarrow> (Inl e, s)
      | Inr request \<Rightarrow>
          (case buildInstallmentSchedule (npr_financedAmount request) (npr_installmentCount request)
                  (npr_frequency request) (npr_startDate request) of
             Inl e \<Rightarrow> (Inl e, s)
           | Inr schedule \<Rightarrow>
               let installments = map entry_installment schedule;
                   plan = \<lparr>ipl_id = uuid, ipl_tenantId = npr_tenantId request,
                     ipl_customerId = npr_customerId request, ipl_merchantId = npr_merchantId request,
                     ipl_currency = npr_currency request, ipl_principal = npr_amount request,
                     ipl_downPayment = npr_downPayment request,
                     ipl_financedAmount = npr_financedAmount request,
                     ipl_installmentCount = npr_installmentCount request,
                     ipl_frequency = npr_frequency request, ipl_status = IplActive,
                     ipl_installments = installments, ipl_metadata = npr_metadata request,
                     ipl_createdAt = now, ipl_updatedAt = now\<rparr>;
                   scheduledTotal = round_bnpl (sum_fl (map ins_amount installments))
               in if scheduledTotal \<noteq> npr_financedAmount request
                  then (Inl (DoesNotReconcile (npr_financedAmount request) scheduledTotal), s)
                  else (Inr plan, bnpl_save plan
                    [bnpl_event (IpeCreated (ipl_financedAmount plan) (ipl_installmentCount plan)) plan now None] s)))"

definition bnpl_getPlan :: "string \<Rightarrow> string \<Rightarrow> bnpl_service \<Rightarrow> bnpl_error + InstallmentPlan" where
  "bnpl_getPlan tenantId planId s =
     (case bnpl_findById planId (bns_plans s) of
        None \<Rightarrow> Inl (InstallmentPlanNotFound planId)
      | Some plan \<Rightarrow> if ipl_tenantId plan \<noteq> tenantId then Inl (InstallmentPlanNotFound planId) else Inr plan)"

definition bnpl_listPlans ::
  "string \<Rightarrow> InstallmentPlanListFilter option \<Rightarrow> bnpl_service \<Rightarrow> bnpl_error + InstallmentPlan list" where
  "bnpl_listPlans tenantId flt s =
     (if tenantId = [] then Inl BnplTenantRequired else Inr (bnpl_list tenantId flt (bns_plans s)))"

definition bnpl_getSummary :: "string \<Rightarrow> string \<Rightarrow> bnpl_service \<Rightarrow> bnpl_error + InstallmentPlanSummary" where
  "bnpl_getSummary tenantId planId s = map_sum id summarizePlan (bnpl_getPlan tenantId planId s)"

text \<open>
  What an operation does with its copy of the plan: an error, or the plan to be saved and the events.
\<close>

type_synonym plan_change = "bnpl_error + InstallmentPlan \<times> InstallmentPlanEvent list"

definition settle_installment :: "RecordInstallmentPaymentInput \<Rightarrow> int \<Rightarrow> Installment \<Rightarrow> Installment" where
  "settle_installment input paidAt target =
     target\<lparr>ins_status := InsPaid, ins_paidAt := Some paidAt, ins_paymentId := rip_paymentId input,
       ins_failureReason := None\<rparr>"

definition settled_plan ::
  "RecordInstallmentPaymentInput \<Rightarrow> int \<Rightarrow> int \<Rightarrow> Installment \<Rightarrow> InstallmentPlan \<Rightarrow> InstallmentPlan" where
  "settled_plan input paidAt now target plan =
     (let installments = update_first (\<lambda>i. ins_index i = rip_installmentIndex input)
            (\<lambda>_. settle_installment input paidAt target) (ipl_installments plan);
          allPaid = list_all (\<lambda>i. ins_status i = InsPaid) installments
      in plan\<lparr>ipl_installments := installments,
           ipl_status := (if allPaid then IplCompleted else ipl_status plan), ipl_updatedAt := now\<rparr>)"

definition pay_on_plan ::
  "RecordInstallmentPaymentInput \<Rightarrow> int \<Rightarrow> InstallmentPlan \<Rightarrow> plan_change" where
  "pay_on_plan input now plan =
     (if ipl_status plan = IplCancelled then Inl PlanIsCancelled
      else if ipl_status plan = IplCompleted then Inl PlanFullyPaid
      else case find (\<lambda>i. ins_index i = rip_installmentIndex input) (ipl_installments plan) of
        None \<Rightarrow> Inl (NoInstallmentAt (rip_installmentIndex input))
      | Some target \<Rightarrow>
          if ins_status target = InsPaid then Inl (InstallmentAlreadyPaid (rip_installmentIndex input))
          else if ins_status target = InsCancelled
          then Inl (InstallmentIsCancelled (rip_installmentIndex input))
          else case (case rip_paidAt input of None \<Rightarrow> Some now | Some d \<Rightarrow> d) of
            None \<Rightarrow> Inl PaidAtInvalid
          | Some paidAt \<Rightarrow>
              let plan' = settled_plan input paidAt now target plan
              in Inr (plan',
                   bnpl_event (IpePaid (ins_amount target) (rip_paymentId input)) plan' now (Some (ins_index target))
                   # (if ipl_status plan' = IplCompleted then [bnpl_event IpeCompleted plan' now None] else [])))"

definition fail_on_plan :: "int \<Rightarrow> string \<Rightarrow> int \<Rightarrow> InstallmentPlan \<Rightarrow> plan_change" where
  "fail_on_plan index reason now plan =
     (let here = (\<lambda>i. ins_index i = index)
      in if ipl_status plan = IplCancelled \<or> ipl_status plan = IplCompleted
         then Inl (CannotFailOn (ipl_status plan))
         else case find here (ipl_installments plan) of
           None \<Rightarrow> Inl (NoInstallmentAt index)
         | Some target \<Rightarrow>
             if ins_status target = InsPaid then Inl (InstallmentAlreadyPaid index)
             else
               let failed = target\<lparr>ins_status := InsFailed, ins_failureReason := Some reason\<rparr>;
                   plan' = plan\<lparr>ipl_installments := update_first here (\<lambda>_. failed) (ipl_installments plan),
                     ipl_updatedAt := now\<rparr>
               in Inr (plan', [bnpl_event (IpeFailed reason) plan' now (Some (ins_index failed))]))"

definition void_installment :: "Installment \<Rightarrow> Installment" where
  "void_installment i =
     (if ins_status i = InsScheduled \<or> ins_status i = InsDue \<or> ins_status i = InsFailed
      then i\<lparr>ins_status := InsCancelled\<rparr> else i)"

definition cancel_on_plan :: "string option \<Rightarrow> int \<Rightarrow> InstallmentPlan \<Rightarrow> plan_change" where
  "cancel_on_plan reason now plan =
     (if ipl_status plan = IplCompleted then Inl CannotCancelCompleted
      else if ipl_status plan = IplCancelled then Inl AlreadyCancelled
      else
        let plan' = plan\<lparr>ipl_installments := map void_installment (ipl_installments plan),
              ipl_status := IplCancelled, ipl_updatedAt := now\<rparr>
        in Inr (plan', [bnpl_event (IpeCancelled reason) plan' now None]))"

definition on_plan ::
  "string \<Rightarrow> string \<Rightarrow> (InstallmentPlan \<Rightarrow> plan_change) \<Rightarrow> (bnpl_service, bnpl_error, InstallmentPlan) op" where
  "on_plan tenantId planId change s =
     (case bnpl_getPlan tenantId planId s of
        Inl e \<Rightarrow> (Inl e, s)
      | Inr plan \<Rightarrow>
          (case change plan of Inl e \<Rightarrow> (Inl e, s) | Inr (plan', events) \<Rightarrow> (Inr plan', bnpl_save plan' events s)))"

definition payInstallment ::
  "string \<Rightarrow> string \<Rightarrow> RecordInstallmentPaymentInput \<Rightarrow> int \<Rightarrow> (bnpl_service, bnpl_error, InstallmentPlan) op" where
  "payInstallment tenantId planId input now = on_plan tenantId planId (pay_on_plan input now)"

definition markInstallmentFailed ::
  "string \<Rightarrow> string \<Rightarrow> int \<Rightarrow> string \<Rightarrow> int \<Rightarrow> (bnpl_service, bnpl_error, InstallmentPlan) op" where
  "markInstallmentFailed tenantId planId index reason now =
     on_plan tenantId planId (fail_on_plan index reason now)"

definition cancelPlan ::
  "string \<Rightarrow> string \<Rightarrow> string option \<Rightarrow> int \<Rightarrow> (bnpl_service, bnpl_error, InstallmentPlan) op" where
  "cancelPlan tenantId planId reason now = on_plan tenantId planId (cancel_on_plan reason now)"

definition falls_due :: "int \<Rightarrow> Installment \<Rightarrow> bool" where
  "falls_due reference i \<longleftrightarrow> ins_status i = InsScheduled \<and> ins_dueAt i < reference"

definition flag_due :: "int \<Rightarrow> int \<Rightarrow> InstallmentPlan \<Rightarrow> InstallmentPlan" where
  "flag_due reference now plan =
     plan\<lparr>ipl_installments := map (\<lambda>i. if falls_due reference i then i\<lparr>ins_status := InsDue\<rparr> else i)
            (ipl_installments plan), ipl_updatedAt := now\<rparr>"

fun sweep_plans :: "int \<Rightarrow> int \<Rightarrow> InstallmentPlan list \<Rightarrow> nat \<Rightarrow> bnpl_service \<Rightarrow> nat \<times> bnpl_service" where
  "sweep_plans reference now [] flagged s = (flagged, s)"
| "sweep_plans reference now (plan # plans) flagged s =
     (let here = length (filter (falls_due reference) (ipl_installments plan));
          plan' = flag_due reference now plan;
          next = nextActionableInstallment plan'
      in if here = 0 then sweep_plans reference now plans flagged s
         else sweep_plans reference now plans (flagged + here)
                (bnpl_save plan'
                   [bnpl_event (IpeOverdue (map_option ins_dueAt next)) plan' now (map_option ins_index next)] s))"

definition sweepOverdue ::
  "string \<Rightarrow> int option \<Rightarrow> int \<Rightarrow> (bnpl_service, bnpl_error, nat \<times> nat) op" where
  "sweepOverdue tenantId reference now s =
     (case reference of
        None \<Rightarrow> (Inl SweepTimestampInvalid, s)
      | Some r \<Rightarrow>
          let plans = findWithOverdueInstallments tenantId r (bns_plans s);
              (flagged, s') = sweep_plans r now plans 0 s
          in (Inr (length plans, flagged), s'))"

end
