(* ===== verification/InstallmentProps.thy ===== *)
theory InstallmentProps
  imports Installments
begin

text \<open>
  Properties of instalment plans: due dates move on by whole periods and keep their day of the
  month, the schedule adds up to the financed amount in whole cents whatever the double arithmetic
  does on the way, the plans of the service stay consistent, and what has been paid stays paid.
\<close>

text \<open>An amount of money is the double \<open>cur c\<close> of a number \<open>c\<close> of cents.\<close>

lemma round_bnpl_cur [simp]: "round_bnpl = round_cur"
  by (simp add: round_bnpl_def round_cur_def fun_eq_iff)

subsection \<open>Due dates\<close>

lemma last_day_of_month:
  assumes "m < 12"
  shows "make_day y (int m + 1) 0 = make_day y (int m) (month_length y m)"
proof (cases "m = 11")
  case True
  then show ?thesis
    by (simp add: make_day_def Let_def month_length_def days_before_def day_from_year_Suc)
next
  case False
  with assms have "(int m + 1) div 12 = 0" "(int m + 1) mod 12 = int m + 1" "nat (int m + 1) = m + 1"
    by (simp_all add: div_pos_pos_trivial mod_pos_pos_trivial)
  with assms show ?thesis by (simp add: make_day_def Let_def month_length_def)
qed

lemma last_day_utc:
  assumes "m < 12"
  shows "28 \<le> utc_date (date_utc_day y (int m + 1) 0)"
    "utc_date (date_utc_day y (int m + 1) 0) \<le> month_length y m"
    "\<not> (0 \<le> y \<and> y \<le> 99) \<Longrightarrow> utc_date (date_utc_day y (int m + 1) 0) = month_length y m"
proof -
  have *: "utc_date (make_day z (int m + 1) 0) = month_length z m" for z
    unfolding last_day_of_month [OF assms]
    using make_day_fields [OF assms, of "month_length z m" z] month_length_pos [OF assms, of z] by simp
  have "leap_year (1900 + y) \<Longrightarrow> leap_year y" if "0 \<le> y" "y \<le> 99"
  proof (cases "y = 0")
    case False
    then have "\<not> 100 dvd y" using that by (auto dest: zdvd_imp_le)
    then show "leap_year (1900 + y) \<Longrightarrow> leap_year y"
      using dvd_add_right_iff [of 4 1900 y] by (simp add: leap_year_def)
  qed (simp add: leap_year_def)
  then have "month_length (1900 + y) m \<le> month_length y m" if "0 \<le> y" "y \<le> 99"
    using that month_cases [OF assms] by (auto simp: month_length_def days_before_def)
  then show "28 \<le> utc_date (date_utc_day y (int m + 1) 0)"
    "utc_date (date_utc_day y (int m + 1) 0) \<le> month_length y m"
    "\<not> (0 \<le> y \<and> y \<le> 99) \<Longrightarrow> utc_date (date_utc_day y (int m + 1) 0) = month_length y m"
    using month_length_pos [OF assms] by (auto simp: date_utc_day_def * not_le)
qed

lemma addPeriod_monthly_facts:
  fixes base periods :: int
  defines "d0 \<equiv> js_day base"
  defines "Y \<equiv> utc_year d0 + (int (utc_month d0) + periods) div 12"
  defines "M \<equiv> nat ((int (utc_month d0) + periods) mod 12)"
  defines "t \<equiv> addPeriod base EveryMonth periods"
  shows "month_index (js_day t) = month_index d0 + periods" "time_in_day t = time_in_day base"
    "utc_year (js_day t) = Y" "utc_month (js_day t) = M"
    "utc_date (js_day t) = min (utc_date d0) (utc_date (date_utc_day Y (int M + 1) 0))"
proof -
  let ?last = "utc_date (date_utc_day Y (int M + 1) 0)"
  have M: "M < 12" by (simp add: M_def)
  note f0 = utc_fields [of d0]
  have one: "1 \<le> month_length y m" if "m < 12" for y m using month_length_pos [OF that, of y] by simp
  have d1: "js_day (set_utc_date 1 base) = make_day (utc_year d0) (int (utc_month d0)) 1"
    "time_in_day (set_utc_date 1 base) = time_in_day base"
    by (simp_all add: set_utc_date_def d0_def)
  note g1 = make_day_fields [OF f0(1) order_refl one [OF f0(1), of "utc_year d0"]]
  define t2 where "t2 = set_utc_month (int (utc_month d0) + periods) (set_utc_date 1 base)"
  have d2: "js_day t2 = make_day (utc_year d0) (int (utc_month d0) + periods) 1"
    "time_in_day t2 = time_in_day base"
    by (simp_all add: t2_def set_utc_month_def d1 g1)
  have "1 \<le> month_length (utc_year d0 + (int (utc_month d0) + periods) div 12)
      (nat ((int (utc_month d0) + periods) mod 12))"
    using one [OF M, of Y] by (simp add: Y_def M_def)
  note g2 = make_day_index [OF order_refl this, folded d2 Y_def M_def]
  have t: "t = set_utc_date (min (utc_date d0) ?last) t2"
    by (simp add: t_def addPeriod_def Let_def d0_def [symmetric] d1 g1 g2 t2_def [symmetric])
  have min: "1 \<le> min (utc_date d0) ?last" "min (utc_date d0) ?last \<le> month_length Y M"
    using f0(2) last_day_utc [OF M, of Y] by auto
  note g3 = make_day_fields [OF M min]
  have t3: "js_day t = make_day Y (int M) (min (utc_date d0) ?last)" "time_in_day t = time_in_day base"
    by (simp_all add: t set_utc_date_def g2 d2(2))
  show "utc_year (js_day t) = Y" "utc_month (js_day t) = M"
    "utc_date (js_day t) = min (utc_date d0) ?last" "time_in_day t = time_in_day base"
    by (simp_all add: t3 g3)
  have "month_index (js_day t) = 12 * Y + int M" by (simp add: month_index_def t3 g3)
  then show "month_index (js_day t) = month_index d0 + periods"
    by (simp add: month_index_def Y_def M_def algebra_simps)
qed

lemma addPeriod_days:
  "f \<noteq> EveryMonth \<Longrightarrow> addPeriod base f periods = base + FREQUENCY_DAYS f * periods * MS_PER_DAY"
  using make_day_same [of "utc_year (js_day base)" "int (utc_month (js_day base))"
      "utc_date (js_day base) + FREQUENCY_DAYS f * periods" "utc_date (js_day base)"]
    utc_fields(4) [of "js_day base"] time_split [of base]
  by (simp add: addPeriod_def set_utc_date_def make_time_def algebra_simps)

lemma addPeriod_less: "i < j \<Longrightarrow> addPeriod base f i < addPeriod base f j"
proof (cases "f = EveryMonth")
  case True
  assume "i < j"
  let ?t = "addPeriod base f"
  have "js_day (?t i) < js_day (?t j)"
    by (rule month_index_less) (use \<open>i < j\<close> True in \<open>simp add: addPeriod_monthly_facts(1)\<close>)
  then have "make_time (js_day (?t i)) (time_in_day (?t i)) < make_time (js_day (?t j)) (time_in_day (?t j))"
    by (rule make_time_less) simp_all
  then show ?thesis by (simp add: time_split)
next
  case False
  assume "i < j"
  then have "FREQUENCY_DAYS f * i * MS_PER_DAY < FREQUENCY_DAYS f * j * MS_PER_DAY"
    using False by (cases f) (simp_all add: MS_PER_DAY_def)
  with False show ?thesis by (simp add: addPeriod_days)
qed

text \<open>
  A monthly due date lies the given number of calendar months after the first one, at the same
  time of day and on the same day of the month, or on the last day of a shorter month; a weekly or
  biweekly one lies so many days later. Later instalments fall due strictly later.
\<close>

lemma addPeriod_calendar:
  assumes "100 \<le> utc_year (js_day base)" "0 \<le> i" "i < j"
  shows "(let d = js_day (addPeriod base EveryMonth i) in
        month_index d = month_index (js_day base) + i \<and>
        utc_date d = min (utc_date (js_day base)) (month_length (utc_year d) (utc_month d)) \<and>
        time_in_day (addPeriod base EveryMonth i) = time_in_day base) \<and>
      addPeriod base Weekly i = base + 7 * i * MS_PER_DAY \<and>
      addPeriod base Biweekly i = base + 14 * i * MS_PER_DAY \<and>
      addPeriod base f i < addPeriod base f j"
proof -
  let ?d = "js_day (addPeriod base EveryMonth i)"
  let ?M = "nat ((int (utc_month (js_day base)) + i) mod 12)"
  note f = addPeriod_monthly_facts [of base i]
  have "0 \<le> (int (utc_month (js_day base)) + i) div 12" using assms(2) by (simp add: pos_imp_zdiv_nonneg_iff)
  then have "100 \<le> utc_year ?d" using assms(1) f(3) by simp
  moreover have "?M < 12" by simp
  ultimately have "utc_date (date_utc_day (utc_year ?d) (int (utc_month ?d) + 1) 0) =
      month_length (utc_year ?d) (utc_month ?d)"
    using last_day_utc(3) [of ?M "utc_year ?d"] f(4) by simp
  with f show ?thesis
    using assms(3) by (simp add: Let_def addPeriod_days addPeriod_less)
qed

text \<open>2024-01-31 12:00 UTC, one month and thirteen months later.\<close>

lemma addPeriod_calendar_witness:
  "utc_date (js_day (addPeriod 1706702400000 EveryMonth 1)) = 29 \<and>
   addPeriod 1706702400000 EveryMonth 1 < addPeriod 1706702400000 EveryMonth 13"
proof -
  have "100 \<le> utc_year (js_day 1706702400000)" by code_simp
  note * = addPeriod_calendar [OF this, of 1 13 EveryMonth]
  have "month_length (utc_year (js_day (addPeriod 1706702400000 EveryMonth 1)))
      (utc_month (js_day (addPeriod 1706702400000 EveryMonth 1))) = 29"
    "utc_date (js_day 1706702400000) = 31" by code_simp+
  with * show ?thesis by (simp add: Let_def)
qed

subsection \<open>The schedule\<close>

text \<open>The cents of the instalments: the share \<open>B\<close>, and on the last one what is left as well.\<close>

definition schedule_cents :: "int \<Rightarrow> int \<Rightarrow> int \<Rightarrow> int list" where
  "schedule_cents F n B = map (\<lambda>i. B + (if i = n then F - n * B else 0)) [1..n]"

lemma schedule_entries:
  assumes "0 < n" "round_cur fin = cur F" "0 \<le> F" "F \<le> MAX_CENTS"
  defines "B \<equiv> \<lfloor>fl (fl (cur F / of_int n) * 100)\<rfloor>"
  shows "buildInstallmentSchedule fin n f start =
      Inr (map (\<lambda>i. \<lparr>ise_index = i, ise_amount = cur (B + (if i = n then F - n * B else 0)),
        ise_dueAt = addPeriod start f (i - 1)\<rparr>) [1..n])"
proof -
  note B = floor_share [OF assms(1,3,4), folded B_def]
  have "B * 1 \<le> B * n" using B(1) assms(1) by (intro mult_left_mono) simp_all
  then have sizes: "\<bar>F\<bar> \<le> MAX_CENTS" "\<bar>n * B\<bar> \<le> MAX_CENTS" "\<bar>F - n * B\<bar> \<le> MAX_CENTS" "\<bar>B\<bar> \<le> MAX_CENTS"
    using B(1,2) assms(1,3,4) by (simp_all add: mult.commute)
  have total: "round_cur (fl (cur B * of_int n)) = cur (n * B)"
    by (rule round_times) (use sizes assms(1) in simp_all)
  have rest: "round_cur (fl (cur F - cur (n * B))) = cur (F - n * B)"
    by (rule round_diff) (use sizes in simp_all)
  have last: "round_cur (fl (cur B + cur (F - n * B))) = cur (B + (F - n * B))"
    by (rule round_add) (use sizes in simp_all)
  have share: "fl (of_int B / 100) = cur B" by (simp add: cur_def)
  have "buildInstallmentSchedule fin n f start =
      Inr (map (\<lambda>i. \<lparr>ise_index = i, ise_amount = (if i = n then cur (B + (F - n * B)) else cur B),
        ise_dueAt = addPeriod start f (i - 1)\<rparr>) [1..n])"
    unfolding buildInstallmentSchedule_def Let_def round_bnpl_cur assms(2) B_def [symmetric] share total rest last
    using assms(1) by simp
  also have "\<dots> = Inr (map (\<lambda>i. \<lparr>ise_index = i, ise_amount = cur (B + (if i = n then F - n * B else 0)),
        ise_dueAt = addPeriod start f (i - 1)\<rparr>) [1..n])"
    by simp
  finally show ?thesis .
qed

lemma sum_list_last_extra: "0 < n \<Longrightarrow> sum_list (map (\<lambda>i. b + (if i = n then r else 0)) [1..n]) = n * b + (r :: int)"
proof -
  assume n: "0 < n"
  have "sum_list (map (\<lambda>i. b + (if i = n then r else 0)) [1..m]) = m * b" if "0 \<le> m" "m < n" for m
    using that
  proof (induction m rule: int_ge_induct)
    case (step i)
    then show ?case using upto_rec2 [of 1 "i + 1"] by (simp add: algebra_simps)
  qed simp
  from this [of "n - 1"] show ?thesis using n upto_rec2 [of 1 n] by (simp add: algebra_simps)
qed

lemma sorted_dues: "sorted_wrt (<) (map (\<lambda>i. addPeriod start f (i - 1)) [a..b])"
proof -
  have "sorted_wrt (<) (map (\<lambda>i. addPeriod start f (i - 1)) is)" if "sorted_wrt (<) is" for "is" :: "int list"
    using that by (induction "is") (auto intro: addPeriod_less)
  then show ?thesis by simp
qed

lemma schedule_cents_sum: "0 < n \<Longrightarrow> sum_list (schedule_cents F n B) = F"
  by (simp only: schedule_cents_def sum_list_last_extra)

lemma schedule_cents_nonneg: "0 \<le> B \<Longrightarrow> n * B \<le> F \<Longrightarrow> list_all (\<lambda>c. 0 \<le> c) (schedule_cents F n B)"
  by (simp add: schedule_cents_def list_all_iff)

text \<open>
  C18: The repayment schedule in double arithmetic: for an amount of up to ten billion, which rounds to
  \<open>F\<close> cents, every instalment is a whole number of cents, all but the last the share \<open>F div n\<close>, or one
  cent less than that if the division is exact and the double quotient falls below it; the last one
  takes the rest, so that the cents add up to \<open>F\<close> exactly, and with up to a hundred instalments the
  rounded floating sum is the rounded amount again. The due dates increase.
\<close>

theorem schedule_is_exact:
  assumes "0 < n" "0 \<le> fin" "fin \<le> 10 ^ 10"
  defines "F \<equiv> cents_of fin"
  shows "\<exists>B schedule. buildInstallmentSchedule fin n f start = Inr schedule \<and>
     round_bnpl fin = cur F \<and> \<bar>of_int F - 100 * fin\<bar> \<le> 1 / 2 + 1 / 200 \<and>
     0 \<le> B \<and> n * B \<le> F \<and> (B = F div n \<or> n dvd F \<and> B = F div n - 1) \<and>
     map ise_index schedule = [1..n] \<and>
     map ise_amount schedule = map cur (schedule_cents F n B) \<and> sum_list (schedule_cents F n B) = F \<and>
     (n \<le> 100 \<longrightarrow> round_bnpl (sum_fl (map ise_amount schedule)) = round_bnpl fin) \<and>
     sorted_wrt (<) (map ise_dueAt schedule)"
proof -
  note F = cents_of_bounds [OF assms(2,3), folded F_def]
  have cur: "round_cur fin = cur F" by (simp add: round_cur_cents F_def)
  define B where "B = \<lfloor>fl (fl (cur F / of_int n) * 100)\<rfloor>"
  note B = floor_share [OF assms(1) F, folded B_def]
  have built: "buildInstallmentSchedule fin n f start =
      Inr (map (\<lambda>i. \<lparr>ise_index = i, ise_amount = cur (B + (if i = n then F - n * B else 0)),
        ise_dueAt = addPeriod start f (i - 1)\<rparr>) [1..n])" (is "_ = Inr ?schedule")
    unfolding B_def by (rule schedule_entries [OF assms(1) cur F])
  have amounts: "map ise_amount ?schedule = map cur (schedule_cents F n B)"
    by (simp add: schedule_cents_def comp_def)
  have "n \<le> 100 \<longrightarrow> round_cur (sum_fl (map cur (schedule_cents F n B))) = cur F"
    using round_sum [OF schedule_cents_nonneg [OF B(1,2)]] F(2) schedule_cents_sum [OF assms(1), of F B]
    by (simp add: schedule_cents_def)
  moreover have "\<bar>of_int F - 100 * fin\<bar> \<le> 1 / 2 + 1 / 200"
    unfolding F_def by (rule cents_of_error) (use assms(2,3) in simp)
  moreover have "map ise_dueAt ?schedule = map (\<lambda>i. addPeriod start f (i - 1)) [1..n]"
    "map ise_index ?schedule = [1..n]" by (simp_all add: comp_def)
  ultimately show ?thesis
    using built B amounts cur schedule_cents_sum [OF assms(1), of F B]
    by (intro exI [of _ B] exI [of _ ?schedule]) (simp only: sorted_dues round_bnpl_cur simp_thms)
qed

theorem schedule_is_exact_witness:
  "\<exists>B schedule. buildInstallmentSchedule 100 3 Weekly 0 = Inr schedule \<and>
     map ise_amount schedule = map cur (schedule_cents (cents_of 100) 3 B) \<and>
     sum_list (schedule_cents (cents_of 100) 3 B) = cents_of 100"
  using schedule_is_exact [of 3 100 Weekly 0] by auto

text \<open>
  10.04 in two instalments: half of the double 10.04 times a hundred is just below 502, so the shares
  are 5.01 and 5.03. The rest of the cents is not the smallest possible.
\<close>

lemma share_may_lose_a_cent:
  "\<exists>schedule. buildInstallmentSchedule (cur 1004) 2 Weekly 0 = Inr schedule \<and>
     map ise_amount schedule = [cur 501, cur 503] \<and> 1004 div 2 = (502 :: int)"
proof -
  have c: "cur 1004 = of_int 5652017532349972 * (1 / 2 ^ 49)"
    unfolding cur_def by (rule fl_eqI [of 3]) (simp_all add: power_int_def power_divide)
  have q: "fl (cur 1004 / 2) = of_int 5652017532349972 * (1 / 2 ^ 50)"
    unfolding c by (rule fl_eqI [of 2]) (simp_all add: power_int_def power_divide)
  have "fl (fl (cur 1004 / 2) * 100) = of_int 8831277394296831 * (1 / 2 ^ 44)"
    unfolding q by (rule fl_eqI [of 8]) (simp_all add: power_int_def power_divide)
  then have share: "\<lfloor>fl (fl (cur 1004 / of_int 2) * 100)\<rfloor> = 501" by (simp add: floor_eq_iff)
  have "round_cur (cur 1004) = cur 1004" by (rule round_cur_cur) (simp add: MAX_CENTS_def)
  from schedule_entries [OF _ this, of 2 Weekly 0, unfolded share] show ?thesis
    by (simp add: MAX_CENTS_def upto_rec1)
qed

subsection \<open>The plans of the service\<close>

definition installment_ok :: "InstallmentPlanStatus \<Rightarrow> Installment \<Rightarrow> bool" where
  "installment_ok st i \<longleftrightarrow>
     (ins_status i = InsPaid \<longleftrightarrow> ins_paidAt i \<noteq> None) \<and>
     (st = IplActive \<longrightarrow> ins_status i \<noteq> InsCancelled) \<and>
     (st = IplCompleted \<longrightarrow> ins_status i = InsPaid) \<and>
     (st = IplCancelled \<longrightarrow> ins_status i = InsPaid \<or> ins_status i = InsCancelled)"

text \<open>
  The cents behind the amounts of a plan: \<open>cs\<close> of the instalments, which add up to the financed amount,
  \<open>D\<close> of the down payment and \<open>P\<close> of the principal, rounded on its own.
\<close>

definition plan_cents :: "InstallmentPlan \<Rightarrow> int list \<Rightarrow> int \<Rightarrow> int \<Rightarrow> bool" where
  "plan_cents p cs D P \<longleftrightarrow>
     map ins_amount (ipl_installments p) = map cur cs \<and> list_all (\<lambda>c. 0 \<le> c) cs \<and>
     ipl_financedAmount p = cur (sum_list cs) \<and> sum_list cs \<le> MAX_CENTS \<and> length cs \<le> 100 \<and>
     ipl_downPayment p = cur D \<and> 0 \<le> D \<and> ipl_principal p = cur P \<and>
     (ipl_principal p \<le> 10 ^ 10 \<longrightarrow> \<bar>P - (D + sum_list cs)\<bar> \<le> 1)"

definition plan_consistent :: "InstallmentPlan \<Rightarrow> bool" where
  "plan_consistent p \<longleftrightarrow>
     map ins_index (ipl_installments p) = [1..ipl_installmentCount p] \<and> 0 < ipl_installmentCount p \<and>
     (\<exists>cs D P. plan_cents p cs D P) \<and>
     (\<forall>i\<in>set (ipl_installments p). installment_ok (ipl_status p) i) \<and>
     (ipl_status p \<noteq> IplCompleted \<longrightarrow> (\<exists>i\<in>set (ipl_installments p). ins_status i \<noteq> InsPaid)) \<and>
     ipl_status p \<noteq> IplDefaulted"

definition installment_evolves :: "Installment \<Rightarrow> Installment \<Rightarrow> bool" where
  "installment_evolves i i' \<longleftrightarrow>
     ins_index i' = ins_index i \<and> ins_amount i' = ins_amount i \<and> ins_dueAt i' = ins_dueAt i \<and>
     (ins_status i = InsPaid \<longrightarrow> i' = i)"

definition plan_evolves :: "InstallmentPlan \<Rightarrow> InstallmentPlan \<Rightarrow> bool" where
  "plan_evolves p p' \<longleftrightarrow>
     ipl_id p' = ipl_id p \<and> ipl_tenantId p' = ipl_tenantId p \<and> ipl_currency p' = ipl_currency p \<and>
     ipl_principal p' = ipl_principal p \<and> ipl_downPayment p' = ipl_downPayment p \<and>
     ipl_financedAmount p' = ipl_financedAmount p \<and> ipl_installmentCount p' = ipl_installmentCount p \<and>
     list_all2 installment_evolves (ipl_installments p) (ipl_installments p') \<and>
     (ipl_status p = IplCompleted \<or> ipl_status p = IplCancelled \<longrightarrow> p' = p)"

lemma installment_evolves_refl [simp]: "installment_evolves i i"
  by (simp add: installment_evolves_def)

lemma installments_evolve_refl [simp]: "list_all2 installment_evolves is is"
  by (simp add: list.rel_refl)

lemma plan_evolves_refl [simp]: "plan_evolves p p"
  by (simp add: plan_evolves_def)

lemma installment_evolves_trans:
  "installment_evolves a b \<Longrightarrow> installment_evolves b c \<Longrightarrow> installment_evolves a c"
  by (auto simp: installment_evolves_def)

lemma installments_evolve_trans:
  "list_all2 installment_evolves as bs \<Longrightarrow> list_all2 installment_evolves bs cs \<Longrightarrow>
   list_all2 installment_evolves as cs"
  by (rule list_all2_trans [OF installment_evolves_trans])

lemma plan_evolves_trans: "plan_evolves a b \<Longrightarrow> plan_evolves b c \<Longrightarrow> plan_evolves a c"
  unfolding plan_evolves_def
  by (auto intro: installments_evolve_trans)

lemma evolves_index_amount:
  "list_all2 installment_evolves is is' \<Longrightarrow>
   map ins_index is' = map ins_index is \<and> map ins_amount is' = map ins_amount is"
  by (induction rule: list_all2_induct) (auto simp: installment_evolves_def)

lemma update_first_evolves:
  "(\<And>i. P i \<Longrightarrow> find P is = Some i \<Longrightarrow> installment_evolves i (f i)) \<Longrightarrow>
   list_all2 installment_evolves is (update_first P f is)"
  by (induction "is") auto

lemma map_evolves:
  "(\<And>i. i \<in> set xs \<Longrightarrow> installment_evolves i (f i)) \<Longrightarrow> list_all2 installment_evolves xs (map f xs)"
  by (induction xs) auto

text \<open>What every change of an active plan has to show of its new instalments and status.\<close>

lemma plan_change_ok:
  assumes p: "plan_consistent p" "ipl_status p = IplActive"
    and evs: "list_all2 installment_evolves (ipl_installments p) xs"
    and ok: "\<And>i. i \<in> set xs \<Longrightarrow> installment_ok st i"
    and unpaid: "st \<noteq> IplCompleted \<Longrightarrow> \<exists>i\<in>set xs. ins_status i \<noteq> InsPaid" and st: "st \<noteq> IplDefaulted"
    and p': "p' = p\<lparr>ipl_installments := xs, ipl_status := st, ipl_updatedAt := now\<rparr>"
  shows "plan_consistent p' \<and> plan_evolves p p'"
  using p evs ok unpaid st evolves_index_amount [OF evs]
  by (simp add: p' plan_consistent_def plan_cents_def plan_evolves_def)

lemma plan_same_status: "p\<lparr>ipl_installments := xs, ipl_updatedAt := now\<rparr> =
    p\<lparr>ipl_installments := xs, ipl_status := ipl_status p, ipl_updatedAt := now\<rparr>"
  by simp

lemma active_unpaid:
  "plan_consistent p \<Longrightarrow> ipl_status p = IplActive \<Longrightarrow> \<exists>i\<in>set (ipl_installments p). ins_status i \<noteq> InsPaid"
  by (simp add: plan_consistent_def)

lemma active_installment:
  "plan_consistent p \<Longrightarrow> ipl_status p = IplActive \<Longrightarrow> i \<in> set (ipl_installments p) \<Longrightarrow> installment_ok IplActive i"
  by (simp add: plan_consistent_def)

lemma installment_completed: "installment_ok IplActive i \<Longrightarrow> ins_status i = InsPaid \<Longrightarrow> installment_ok IplCompleted i"
  by (simp add: installment_ok_def)

lemma update_first_ok:
  assumes "plan_consistent p" "ipl_status p = IplActive" "find P (ipl_installments p) = Some t"
    and "installment_ok IplActive (f t)" "i \<in> set (update_first P f (ipl_installments p))"
  shows "installment_ok IplActive i"
  using set_update_first [of P f "ipl_installments p"] assms active_installment [OF assms(1,2)] by auto

lemma pay_on_plan_ok:
  assumes p: "plan_consistent p" and pay: "pay_on_plan input now p = Inr (p', events)"
  shows "plan_consistent p' \<and> plan_evolves p p'"
proof -
  let ?here = "\<lambda>i. ins_index i = rip_installmentIndex input"
  obtain target paidAt where active: "ipl_status p = IplActive"
    and target: "find ?here (ipl_installments p) = Some target" "ins_status target \<noteq> InsPaid"
    and p': "p' = settled_plan input paidAt now target p"
    using assms
    by (cases "ipl_status p")
      (auto simp: pay_on_plan_def plan_consistent_def Let_def split: option.splits if_splits)
  define paid where "paid = settle_installment input paidAt target"
  define xs where "xs = update_first ?here (\<lambda>_. paid) (ipl_installments p)"
  define st where "st = (if list_all (\<lambda>i. ins_status i = InsPaid) xs then IplCompleted else IplActive)"
  have "installment_ok IplActive target"
    using active_installment [OF p active] find_SomeD [OF target(1)] by simp
  then have ok: "installment_ok IplActive i" if "i \<in> set xs" for i
    using that unfolding xs_def
    by (rule_tac update_first_ok [OF p active target(1)]) (simp_all add: paid_def settle_installment_def installment_ok_def)
  show ?thesis
  proof (rule plan_change_ok [OF p active])
    show "list_all2 installment_evolves (ipl_installments p) xs"
      unfolding xs_def
      by (rule update_first_evolves) (use target in \<open>simp add: installment_evolves_def paid_def settle_installment_def\<close>)
    show "installment_ok st i" if "i \<in> set xs" for i
      using ok [OF that] that by (auto simp: st_def list_all_iff intro: installment_completed)
    show "st \<noteq> IplCompleted \<Longrightarrow> \<exists>i\<in>set xs. ins_status i \<noteq> InsPaid"
      by (auto simp: st_def list_all_iff split: if_splits)
    show "p' = p\<lparr>ipl_installments := xs, ipl_status := st, ipl_updatedAt := now\<rparr>"
      by (simp add: p' settled_plan_def Let_def paid_def [symmetric] xs_def [symmetric] st_def active)
  qed (simp add: st_def)
qed

lemma fail_on_plan_ok:
  assumes p: "plan_consistent p" and fails: "fail_on_plan index reason now p = Inr (p', events)"
  shows "plan_consistent p' \<and> plan_evolves p p'"
proof -
  let ?here = "\<lambda>i. ins_index i = index"
  let ?fail = "ins_failureReason_update (\<lambda>_. Some reason) \<circ> ins_status_update (\<lambda>_. InsFailed)"
  obtain target where active: "ipl_status p = IplActive"
    and target: "find ?here (ipl_installments p) = Some target" "ins_status target \<noteq> InsPaid"
    and p': "p' = p\<lparr>ipl_installments := update_first ?here (\<lambda>_. ?fail target) (ipl_installments p),
          ipl_updatedAt := now\<rparr>"
    using assms
    by (cases "ipl_status p")
      (auto simp: fail_on_plan_def plan_consistent_def Let_def split: option.splits if_splits)
  have tok: "installment_ok IplActive target"
    using active_installment [OF p active] find_SomeD [OF target(1)] by simp
  show ?thesis
    unfolding p' plan_same_status
  proof (rule plan_change_ok [OF p active _ _ _ _ refl])
    show "list_all2 installment_evolves (ipl_installments p)
        (update_first ?here (\<lambda>_. ?fail target) (ipl_installments p))"
      by (rule update_first_evolves) (use target in \<open>simp add: installment_evolves_def\<close>)
    show "installment_ok (ipl_status p) i"
      if "i \<in> set (update_first ?here (\<lambda>_. ?fail target) (ipl_installments p))" for i
      using that tok target(2) unfolding active
      by (rule_tac update_first_ok [OF p active target(1)]) (simp_all add: installment_ok_def)
    show "\<exists>i\<in>set (update_first ?here (\<lambda>_. ?fail target) (ipl_installments p)). ins_status i \<noteq> InsPaid"
      using update_first_in [OF target(1), of "\<lambda>_. ?fail target"] by (rule bexI [rotated]) simp
  qed (simp add: active)
qed

lemma cancel_on_plan_ok:
  assumes p: "plan_consistent p" and cancel: "cancel_on_plan reason now p = Inr (p', events)"
  shows "plan_consistent p' \<and> plan_evolves p p'"
proof -
  have active: "ipl_status p = IplActive"
    and p': "p' = p\<lparr>ipl_installments := map void_installment (ipl_installments p),
          ipl_status := IplCancelled, ipl_updatedAt := now\<rparr>"
    using assms by (cases "ipl_status p"; auto simp: cancel_on_plan_def plan_consistent_def Let_def)+
  show ?thesis
  proof (rule plan_change_ok [OF p active _ _ _ _ p'])
    show "list_all2 installment_evolves (ipl_installments p) (map void_installment (ipl_installments p))"
      by (rule map_evolves) (auto simp: void_installment_def installment_evolves_def)
    show "installment_ok IplCancelled i" if i: "i \<in> set (map void_installment (ipl_installments p))" for i
    proof -
      obtain j where "i = void_installment j" "installment_ok IplActive j"
        using i active_installment [OF p active] by auto
      then show ?thesis by (cases "ins_status j") (auto simp: installment_ok_def void_installment_def)
    qed
    show "\<exists>i\<in>set (map void_installment (ipl_installments p)). ins_status i \<noteq> InsPaid"
    proof -
      obtain i where "i \<in> set (ipl_installments p)" "ins_status i \<noteq> InsPaid"
        using active_unpaid [OF p active] by blast
      then have "void_installment i \<in> set (map void_installment (ipl_installments p))"
        "ins_status (void_installment i) \<noteq> InsPaid" by (simp_all add: void_installment_def)
      then show ?thesis by blast
    qed
  qed simp
qed

lemma flag_due_ok:
  assumes p: "plan_consistent p" and active: "ipl_status p = IplActive"
  shows "plan_consistent (flag_due r now p) \<and> plan_evolves p (flag_due r now p)"
proof -
  let ?f = "\<lambda>i. if falls_due r i then i\<lparr>ins_status := InsDue\<rparr> else i"
  show ?thesis
    unfolding flag_due_def plan_same_status
  proof (rule plan_change_ok [OF p active _ _ _ _ refl])
    show "list_all2 installment_evolves (ipl_installments p) (map ?f (ipl_installments p))"
      by (rule map_evolves) (auto simp: falls_due_def installment_evolves_def)
    show "installment_ok (ipl_status p) i" if "i \<in> set (map ?f (ipl_installments p))" for i
      using that active_installment [OF p active] unfolding active
      by (fastforce simp: installment_ok_def falls_due_def)
    show "\<exists>i\<in>set (map ?f (ipl_installments p)). ins_status i \<noteq> InsPaid"
    proof -
      obtain i where "i \<in> set (ipl_installments p)" "ins_status i \<noteq> InsPaid"
        using active_unpaid [OF p active] by blast
      then have "?f i \<in> set (map ?f (ipl_installments p))" "ins_status (?f i) \<noteq> InsPaid" by simp_all
      then show ?thesis by blast
    qed
  qed (simp add: active)
qed

text \<open>
  The bounds on the configuration under which the rounding errors stay below half a cent; the default
  configuration is far inside.
\<close>

definition config_bounded :: "BNPLConfig \<Rightarrow> bool" where
  "config_bounded config \<longleftrightarrow> bnc_maxFinancedAmount config \<le> 10 ^ 10 \<and> bnc_maxInstallments config \<le> 100"

lemma validated_request:
  assumes "validateInstallmentRequest config input clock = Inr r" "config_bounded config"
  shows "\<exists>F D P. npr_financedAmount r = cur F \<and> 0 \<le> F \<and> F \<le> MAX_CENTS \<and>
    npr_downPayment r = cur D \<and> 0 \<le> D \<and> npr_amount r = cur P \<and>
    (npr_amount r \<le> 10 ^ 10 \<longrightarrow> \<bar>P - (D + F)\<bar> \<le> 1) \<and> npr_installmentCount r \<le> 100"
proof -
  define down where "down = (case cip_downPayment input of None \<Rightarrow> 0 | Some d \<Rightarrow> round_cur d)"
  define rest where "rest = fl (cip_amount input - down)"
  obtain D where D: "down = cur D"
    by (cases "cip_downPayment input") (auto simp: down_def round_cur_cents simp flip: cur_0)
  have r: "npr_financedAmount r = round_cur rest" "npr_downPayment r = down"
    "npr_amount r = round_cur (cip_amount input)" "down \<le> cip_amount input" "0 \<le> down"
    "round_cur rest \<le> bnc_maxFinancedAmount config"
    "npr_installmentCount r \<le> bnc_maxInstallments config"
    using assms(1)
    unfolding validateInstallmentRequest_def Let_def round_bnpl_cur down_def [symmetric] rest_def [symmetric]
    by (auto split: if_splits option.splits)
  have D0: "0 \<le> D" using r(5) by (simp add: D cur_nonneg_iff)
  have rest: "0 \<le> rest" using r(4) by (simp add: rest_def fl_nonneg)
  have F0: "0 \<le> cents_of rest" by (rule cents_of_nonneg [OF rest])
  have "cur (cents_of rest) \<le> 10 ^ 10"
    using r(6) assms(2) by (simp add: config_bounded_def round_cur_cents)
  then have "cents_of rest \<le> MAX_CENTS" by (rule cur_le_max)
  moreover have "\<bar>cents_of (cip_amount input) - (D + cents_of rest)\<bar> \<le> 1" if "npr_amount r \<le> 10 ^ 10"
    using cents_of_rest [OF D0, of "cip_amount input"] r(3,4) that by (simp add: D rest_def)
  moreover have "npr_installmentCount r \<le> 100" using r(7) assms(2) by (simp add: config_bounded_def)
  ultimately show ?thesis
    using r(1-3) D D0 F0
    by (intro exI [of _ "cents_of rest"] exI [of _ D] exI [of _ "cents_of (cip_amount input)"])
      (simp add: round_cur_cents)
qed

lemma bnpl_createPlan_cases:
  assumes "config_bounded (bns_config s)"
  shows "(\<exists>e. bnpl_createPlan uuid input clock now s = (Inl e, s) \<and> (\<forall>a b. e \<noteq> DoesNotReconcile a b)) \<or>
   (\<exists>plan events. bnpl_createPlan uuid input clock now s = (Inr plan, bnpl_save plan events s) \<and>
      plan_consistent plan \<and> ipl_id plan = uuid)"
proof (cases "validateInstallmentRequest (bns_config s) input clock")
  case (Inl e)
  moreover have "e \<noteq> DoesNotReconcile a b" for a b
    using Inl by (auto simp: validateInstallmentRequest_def Let_def split: if_splits option.splits)
  ultimately show ?thesis by (simp add: bnpl_createPlan_def)
next
  case (Inr r)
  obtain F D P where r: "npr_financedAmount r = cur F" "0 \<le> F" "F \<le> MAX_CENTS"
    "npr_downPayment r = cur D" "0 \<le> D" "npr_amount r = cur P"
    "npr_amount r \<le> 10 ^ 10 \<longrightarrow> \<bar>P - (D + F)\<bar> \<le> 1" "npr_installmentCount r \<le> 100"
    using validated_request [OF Inr assms] by blast
  show ?thesis
  proof (cases "0 < npr_installmentCount r")
    case False
    then show ?thesis by (simp add: bnpl_createPlan_def Inr buildInstallmentSchedule_def)
  next
    case n: True
    let ?n = "npr_installmentCount r"
    have round: "round_cur (npr_financedAmount r) = cur F"
      unfolding r(1) by (rule round_cur_cur) (use r(2,3) in simp)
    define B where "B = \<lfloor>fl (fl (cur F / of_int ?n) * 100)\<rfloor>"
    note B = floor_share [OF n r(2,3), folded B_def]
    note built = schedule_entries [OF n round r(2,3), of "npr_frequency r" "npr_startDate r", folded B_def]
    define cs where "cs = schedule_cents F ?n B"
    define sch where "sch = map (\<lambda>i. \<lparr>ise_index = i, ise_amount = cur (B + (if i = ?n then F - ?n * B else 0)),
        ise_dueAt = addPeriod (npr_startDate r) (npr_frequency r) (i - 1)\<rparr>) [1..?n]"
    define es where "es = map entry_installment sch"
    have amounts: "map ins_amount es = map cur cs"
      by (simp add: es_def sch_def entry_installment_def comp_def cs_def schedule_cents_def)
    have cs: "list_all (\<lambda>c. 0 \<le> c) cs" "sum_list cs = F" "length cs \<le> 100"
      using schedule_cents_nonneg [OF B(1,2)] schedule_cents_sum [OF n] r(8)
      by (simp_all add: cs_def schedule_cents_def)
    define plan where "plan = \<lparr>ipl_id = uuid, ipl_tenantId = npr_tenantId r,
      ipl_customerId = npr_customerId r, ipl_merchantId = npr_merchantId r,
      ipl_currency = npr_currency r, ipl_principal = npr_amount r,
      ipl_downPayment = npr_downPayment r, ipl_financedAmount = npr_financedAmount r,
      ipl_installmentCount = ?n, ipl_frequency = npr_frequency r, ipl_status = IplActive,
      ipl_installments = es, ipl_metadata = npr_metadata r, ipl_createdAt = now, ipl_updatedAt = now\<rparr>"
    have "round_cur (sum_fl (map ins_amount es)) = npr_financedAmount r"
      using round_sum [OF cs(1) _ cs(3)] r(1,3) by (simp add: amounts cs(2))
    then have "bnpl_createPlan uuid input clock now s = (Inr plan, bnpl_save plan
        [bnpl_event (IpeCreated (ipl_financedAmount plan) (ipl_installmentCount plan)) plan now None] s)"
      unfolding bnpl_createPlan_def Inr sum.case built sch_def [symmetric] Let_def es_def [symmetric]
        plan_def [symmetric] round_bnpl_cur by simp
    moreover have "plan_cents plan cs D P"
      using r cs amounts by (simp add: plan_cents_def plan_def)
    then have "plan_consistent plan"
      using n unfolding plan_consistent_def
      by (auto simp: plan_def es_def sch_def entry_installment_def comp_def installment_ok_def
          intro!: bexI [of _ 1])
    ultimately show ?thesis by (auto simp: plan_def)
  qed
qed

lemma bns_plans_save [simp]:
  "bns_plans (bnpl_save plan events s) = bnpl_put plan (bns_plans s)"
  "bns_config (bnpl_save plan events s) = bns_config s"
  by (simp_all add: bnpl_save_def)

definition bnpl_init :: "BNPLConfig \<Rightarrow> bnpl_service" where
  "bnpl_init config = \<lparr>bns_plans = [], bns_config = config, bns_published = []\<rparr>"

text \<open>One call of the service; the identifier of a new plan is fresh.\<close>

inductive bnpl_step :: "bnpl_service \<Rightarrow> bnpl_service \<Rightarrow> bool" where
  bs_create: "bnpl_findById uuid (bns_plans s) = None \<Longrightarrow>
     bnpl_step s (snd (bnpl_createPlan uuid input clock now s))"
| bs_pay: "bnpl_step s (snd (payInstallment tenant pid pinput now s))"
| bs_fail: "bnpl_step s (snd (markInstallmentFailed tenant pid index reason now s))"
| bs_cancel: "bnpl_step s (snd (cancelPlan tenant pid creason now s))"
| bs_sweep: "bnpl_step s (snd (sweepOverdue tenant r now s))"

definition bnpl_reachable :: "BNPLConfig \<Rightarrow> bnpl_service \<Rightarrow> bool" where
  "bnpl_reachable config s \<longleftrightarrow> bnpl_step\<^sup>*\<^sup>* (bnpl_init config) s"

abbreviation bnpl_inv :: "bnpl_service \<Rightarrow> bool" where
  "bnpl_inv s \<equiv> filed bnpl_findById ipl_id plan_consistent (bns_plans s) \<and> js_wf (bns_plans s) \<and>
     config_bounded (bns_config s)"

definition plans_evolve :: "bnpl_store \<Rightarrow> bnpl_store \<Rightarrow> bool" where
  "plans_evolve m m' \<longleftrightarrow> (\<forall>k p. bnpl_findById k m = Some p \<longrightarrow>
     (\<exists>p'. bnpl_findById k m' = Some p' \<and> plan_evolves p p'))"

lemma plans_evolve_refl [simp]: "plans_evolve m m"
  by (simp add: plans_evolve_def)

lemma plans_evolve_trans: "plans_evolve a b \<Longrightarrow> plans_evolve b c \<Longrightarrow> plans_evolve a c"
  unfolding plans_evolve_def by (meson plan_evolves_trans)

lemma js_wf_bnpl_put [simp]: "js_wf m \<Longrightarrow> js_wf (bnpl_put p m)"
  by (simp add: bnpl_put_def)

text \<open>Saving the successor of the plan that is stored.\<close>

lemma save_successor:
  assumes inv: "bnpl_inv s" and p: "bnpl_findById k (bns_plans s) = Some p"
    and ok: "plan_consistent p' \<and> plan_evolves p p'"
  shows "bnpl_inv (bnpl_save p' events s) \<and> plans_evolve (bns_plans s) (bns_plans (bnpl_save p' events s))"
proof -
  have "ipl_id p = k" using bnpl.filed_get inv p by blast
  then have "ipl_id p' = k" using ok by (simp add: plan_evolves_def)
  then show ?thesis
    using inv p ok bnpl.filed_save [of plan_consistent "bns_plans s" p']
    by (auto simp: plans_evolve_def bnpl.fetch_save)
qed

lemma on_plan_step:
  assumes inv: "bnpl_inv s"
    and change: "\<And>p p' events. plan_consistent p \<Longrightarrow> change p = Inr (p', events) \<Longrightarrow>
      plan_consistent p' \<and> plan_evolves p p'"
  shows "bnpl_inv (snd (on_plan tenant pid change s)) \<and>
    plans_evolve (bns_plans s) (bns_plans (snd (on_plan tenant pid change s)))"
proof (cases "bnpl_getPlan tenant pid s")
  case (Inr p)
  then have p: "bnpl_findById pid (bns_plans s) = Some p"
    by (auto simp: bnpl_getPlan_def split: option.splits if_splits)
  then have "plan_consistent p" using bnpl.filed_get inv by blast
  then show ?thesis
    using inv change [of p] save_successor [OF inv p]
    by (auto simp: on_plan_def Inr split: sum.split)
qed (simp add: on_plan_def inv)

lemma sweep_plans_step:
  assumes "bnpl_inv s" "distinct (map ipl_id plans)"
    and "\<And>p. p \<in> set plans \<Longrightarrow> bnpl_findById (ipl_id p) (bns_plans s) = Some p \<and> ipl_status p = IplActive"
  shows "bnpl_inv (snd (sweep_plans r now plans n s)) \<and>
    plans_evolve (bns_plans s) (bns_plans (snd (sweep_plans r now plans n s)))"
  using assms
proof (induction plans arbitrary: n s)
  case (Cons p plans)
  let ?q = "flag_due r now p"
  have p: "bnpl_findById (ipl_id p) (bns_plans s) = Some p" "ipl_status p = IplActive"
    using Cons.prems(3) by simp_all
  have ok: "plan_consistent ?q \<and> plan_evolves p ?q"
    using flag_due_ok p(2) bnpl.filed_get Cons.prems(1) p(1) by blast
  note saved = save_successor [OF Cons.prems(1) p(1) ok]
  have id: "ipl_id ?q = ipl_id p" by (simp add: flag_due_def)
  have later: "bnpl_findById (ipl_id p') (bns_plans (bnpl_save ?q ev s)) = Some p' \<and> ipl_status p' = IplActive"
    if "p' \<in> set plans" for p' ev
  proof -
    have "ipl_id p' \<noteq> ipl_id p" using Cons.prems(2) imageI [OF that, of ipl_id] by auto
    then show ?thesis using Cons.prems(3) [of p'] that by (simp add: bnpl.fetch_save id)
  qed
  show ?case
  proof (cases "filter (falls_due r) (ipl_installments p) = []")
    case True
    then show ?thesis using Cons by (simp add: Let_def)
  next
    case False
    then show ?thesis
      using Cons.IH [OF conjunct1 [OF saved] _ later] Cons.prems(2) saved
      by (auto simp: Let_def intro: plans_evolve_trans)
  qed
qed simp

lemma overdue_plans:
  assumes "bnpl_inv s"
  shows "distinct (map ipl_id (findWithOverdueInstallments tenant r (bns_plans s)))"
    "p \<in> set (findWithOverdueInstallments tenant r (bns_plans s)) \<Longrightarrow>
     bnpl_findById (ipl_id p) (bns_plans s) = Some p \<and> ipl_status p = IplActive"
proof -
  have ids: "js_all (\<lambda>k p. ipl_id p = k) (bns_plans s)"
    using assms by (simp add: filed_def entries_sat_def bnpl_findById_def)
  show "distinct (map ipl_id (findWithOverdueInstallments tenant r (bns_plans s)))"
    using js_values_ids_distinct [OF _ ids] assms
    by (simp add: findWithOverdueInstallments_def distinct_map_filter)
  show "p \<in> set (findWithOverdueInstallments tenant r (bns_plans s)) \<Longrightarrow>
     bnpl_findById (ipl_id p) (bns_plans s) = Some p \<and> ipl_status p = IplActive"
    using assms ids by (auto simp: findWithOverdueInstallments_def in_js_values bnpl_findById_def entries_sat_def)
qed

lemma bnpl_step_ok: "bnpl_step s s' \<Longrightarrow> bnpl_inv s \<Longrightarrow> bnpl_inv s' \<and> plans_evolve (bns_plans s) (bns_plans s')"
proof (induction rule: bnpl_step.induct)
  case (bs_create uuid s input clock now)
  then show ?case
    using bnpl_createPlan_cases [of s uuid input clock now] bnpl.filed_save [of plan_consistent "bns_plans s"]
    by (auto simp: plans_evolve_def bnpl.fetch_save)
next
  case (bs_pay s tenant pid pinput now)
  then show ?case unfolding payInstallment_def by (rule on_plan_step) (rule pay_on_plan_ok)
next
  case (bs_fail s tenant pid index reason now)
  then show ?case unfolding markInstallmentFailed_def by (rule on_plan_step) (rule fail_on_plan_ok)
next
  case (bs_cancel s tenant pid creason now)
  then show ?case unfolding cancelPlan_def by (rule on_plan_step) (rule cancel_on_plan_ok)
next
  case (bs_sweep s tenant r now)
  show ?case
  proof (cases r)
    case (Some t)
    have "bnpl_inv s'' \<and> plans_evolve (bns_plans s) (bns_plans s'')"
      if "sweep_plans t now (findWithOverdueInstallments tenant t (bns_plans s)) 0 s = (n, s'')" for n s''
      using sweep_plans_step [OF bs_sweep overdue_plans(1) [OF bs_sweep, of tenant t], of t now 0]
        overdue_plans(2) [OF bs_sweep, of _ tenant t] that by simp
    then show ?thesis by (auto simp: sweepOverdue_def Some Let_def split: prod.split)
  qed (simp add: sweepOverdue_def bs_sweep)
qed

lemma bnpl_run_ok:
  "bnpl_step\<^sup>*\<^sup>* s s' \<Longrightarrow> bnpl_inv s \<Longrightarrow> bnpl_inv s' \<and> plans_evolve (bns_plans s) (bns_plans s')"
proof (induction rule: rtranclp_induct)
  case (step s1 s2)
  then have "bnpl_inv s1" "plans_evolve (bns_plans s) (bns_plans s1)" by simp_all
  with bnpl_step_ok [OF step.hyps(2)] show ?case by (auto intro: plans_evolve_trans)
qed simp

lemma bnpl_reachable_inv: "bnpl_reachable config s \<Longrightarrow> config_bounded config \<Longrightarrow> bnpl_inv s"
  unfolding bnpl_reachable_def
  by (drule bnpl_run_ok) (simp_all add: bnpl_init_def filed_def bnpl_findById_def)

text \<open>The summary divides the cents of the plan into those of the paid instalments and the others.\<close>

lemma paid_cents:
  assumes "map ins_amount xs = map cur cs" "list_all (\<lambda>c. 0 \<le> c) cs"
  shows "\<exists>ps. map ins_amount (filter (\<lambda>i. ins_status i = InsPaid) xs) = map cur ps \<and>
    list_all (\<lambda>c. 0 \<le> c) ps \<and> sum_list ps \<le> sum_list cs \<and> length ps \<le> length cs \<and>
    ((\<forall>i\<in>set xs. ins_status i = InsPaid) \<longrightarrow> ps = cs)"
  using assms
proof (induction xs arbitrary: cs)
  case (Cons x xs)
  then obtain c cs' where cs: "cs = c # cs'" "ins_amount x = cur c" "0 \<le> c"
    "map ins_amount xs = map cur cs'" "list_all (\<lambda>c. 0 \<le> c) cs'" by (cases cs) auto
  from Cons.IH [OF cs(4,5)] obtain ps where
    ps: "map ins_amount (filter (\<lambda>i. ins_status i = InsPaid) xs) = map cur ps"
    "list_all (\<lambda>c. 0 \<le> c) ps" "sum_list ps \<le> sum_list cs'" "length ps \<le> length cs'"
    "(\<forall>i\<in>set xs. ins_status i = InsPaid) \<longrightarrow> ps = cs'" by blast
  show ?case
  proof (cases "ins_status x = InsPaid")
    case True
    then show ?thesis using ps cs by (intro exI [of _ "c # ps"]) auto
  next
    case False
    then show ?thesis using ps cs by (intro exI [of _ ps]) auto
  qed
qed simp

lemma summarizePlan_ok:
  assumes "plan_cents p cs D P"
  shows "\<exists>A. 0 \<le> A \<and> A \<le> sum_list cs \<and> ips_totalAmount (summarizePlan p) = ipl_financedAmount p \<and>
    ips_paidAmount (summarizePlan p) = cur A \<and>
    ips_remainingAmount (summarizePlan p) = cur (sum_list cs - A) \<and>
    ((\<forall>i\<in>set (ipl_installments p). ins_status i = InsPaid) \<longrightarrow> A = sum_list cs)"
proof -
  have p: "map ins_amount (ipl_installments p) = map cur cs" "list_all (\<lambda>c. 0 \<le> c) cs"
    "ipl_financedAmount p = cur (sum_list cs)" "sum_list cs \<le> MAX_CENTS" "length cs \<le> 100"
    using assms by (simp_all add: plan_cents_def)
  obtain ps where ps: "map ins_amount (filter (\<lambda>i. ins_status i = InsPaid) (ipl_installments p)) = map cur ps"
    "list_all (\<lambda>c. 0 \<le> c) ps" "sum_list ps \<le> sum_list cs" "length ps \<le> length cs"
    "(\<forall>i\<in>set (ipl_installments p). ins_status i = InsPaid) \<longrightarrow> ps = cs"
    using paid_cents [OF p(1,2)] by blast
  have pos: "0 \<le> sum_list ps" using ps(2) by (auto simp: list_all_iff intro: sum_list_nonneg)
  have paid: "round_cur (sum_fl (map cur ps)) = cur (sum_list ps)"
    by (rule round_sum) (use ps p in simp_all)
  have total: "round_cur (sum_fl (map cur cs)) = cur (sum_list cs)" by (rule round_sum) (use p in simp_all)
  have "round_cur (fl (cur (sum_list cs) - cur (sum_list ps))) = cur (sum_list cs - sum_list ps)"
    by (rule round_diff) (use ps p pos in simp_all)
  with ps(3,5) pos show ?thesis
    by (intro exI [of _ "sum_list ps"]) (simp add: summarizePlan_def Let_def p(1,3) ps(1) paid total)
qed

subsection \<open>Properties\<close>

text \<open>A plan over 100 in four weekly instalments, and the payment of the first one.\<close>

definition bnpl_demo_input :: CreateInstallmentPlanInput where
  "bnpl_demo_input = \<lparr>cip_tenantId = ''t'', cip_amount = 120, cip_currency = None,
     cip_installmentCount = 4, cip_frequency = Some Weekly, cip_downPayment = Some 20,
     cip_customerId = None, cip_merchantId = None, cip_startDate = Some (Some 0), cip_metadata = None\<rparr>"

definition bnpl_demo_pay :: "int \<Rightarrow> RecordInstallmentPaymentInput" where
  "bnpl_demo_pay i = \<lparr>rip_installmentIndex = i, rip_paymentId = Some ''x'', rip_paidAt = None\<rparr>"

definition bnpl_demo0 :: bnpl_service where
  "bnpl_demo0 = snd (bnpl_createPlan ''p'' bnpl_demo_input 0 1 (bnpl_init DEFAULT_BNPL_CONFIG))"

definition bnpl_demo1 :: bnpl_service where
  "bnpl_demo1 = snd (payInstallment ''t'' ''p'' (bnpl_demo_pay 1) 2 bnpl_demo0)"

definition bnpl_demo_paid :: InstallmentPlan where
  "bnpl_demo_paid = (case bnpl_getPlan ''t'' ''p'' bnpl_demo1 of Inr p \<Rightarrow> p | Inl _ \<Rightarrow> undefined)"

text \<open>The state after the creation, as evaluation starts from it.\<close>

definition bnpl_demo_installment :: "int \<Rightarrow> rat \<Rightarrow> int \<Rightarrow> Installment" where
  "bnpl_demo_installment index amount dueAt = \<lparr>ins_index = index, ins_amount = amount, ins_dueAt = dueAt,
     ins_status = InsScheduled, ins_paidAt = None, ins_paymentId = None, ins_failureReason = None\<rparr>"

lemma bnpl_demo_request:
  "validateInstallmentRequest DEFAULT_BNPL_CONFIG bnpl_demo_input 0 =
     Inr \<lparr>npr_tenantId = ''t'', npr_amount = 120, npr_currency = ''USD'', npr_installmentCount = 4,
       npr_frequency = Weekly, npr_downPayment = 20, npr_financedAmount = 100, npr_startDate = 0,
       npr_customerId = None, npr_merchantId = None, npr_metadata = None\<rparr>"
proof -
  have "to_upper ''USD'' = ''USD''" by code_simp
  then show ?thesis
    by (simp add: validateInstallmentRequest_def bnpl_demo_input_def DEFAULT_BNPL_CONFIG_def Let_def)
qed

lemma bnpl_demo_schedule:
  "buildInstallmentSchedule 100 4 Weekly 0 =
     Inr [\<lparr>ise_index = 1, ise_amount = 25, ise_dueAt = 0\<rparr>, \<lparr>ise_index = 2, ise_amount = 25, ise_dueAt = 604800000\<rparr>,
       \<lparr>ise_index = 3, ise_amount = 25, ise_dueAt = 1209600000\<rparr>, \<lparr>ise_index = 4, ise_amount = 25, ise_dueAt = 1814400000\<rparr>]"
proof -
  have "addPeriod 0 Weekly 0 = 0" "addPeriod 0 Weekly 1 = 604800000" "addPeriod 0 Weekly 2 = 1209600000"
    "addPeriod 0 Weekly 3 = 1814400000" by code_simp+
  moreover have "round_cur 0 = 0" using round_cur_whole [of 0] by simp
  ultimately show ?thesis by (simp add: buildInstallmentSchedule_def Let_def upto_rec1)
qed

lemma bnpl_demo0_eq:
  "bnpl_demo0 = \<lparr>bns_plans = [(''p'',
     \<lparr>ipl_id = ''p'', ipl_tenantId = ''t'', ipl_customerId = None, ipl_merchantId = None,
      ipl_currency = ''USD'', ipl_principal = 120, ipl_downPayment = 20, ipl_financedAmount = 100,
      ipl_installmentCount = 4, ipl_frequency = Weekly, ipl_status = IplActive,
      ipl_installments = [bnpl_demo_installment 1 25 0, bnpl_demo_installment 2 25 604800000,
        bnpl_demo_installment 3 25 1209600000, bnpl_demo_installment 4 25 1814400000],
      ipl_metadata = None, ipl_createdAt = 1, ipl_updatedAt = 1\<rparr>)],
     bns_config = DEFAULT_BNPL_CONFIG,
     bns_published = [\<lparr>ipe_type = IpeCreated 100 4, ipe_planId = ''p'', ipe_tenantId = ''t'',
       ipe_occurredAt = 1, ipe_installmentIndex = None\<rparr>]\<rparr>"
  by (simp add: bnpl_demo0_def bnpl_createPlan_def bnpl_init_def bnpl_demo_request bnpl_demo_schedule Let_def
      entry_installment_def sum_fl_def bnpl_save_def bnpl_put_def bnpl_event_def bnpl_demo_installment_def)

declare bnpl_demo0_eq [code]

lemma bnpl_demo0_reachable: "bnpl_reachable DEFAULT_BNPL_CONFIG bnpl_demo0"
  unfolding bnpl_reachable_def bnpl_demo0_def
  by (rule r_into_rtranclp, rule bs_create) (simp add: bnpl_init_def bnpl_findById_def)

lemma default_config_bounded: "config_bounded DEFAULT_BNPL_CONFIG"
  by (simp add: config_bounded_def DEFAULT_BNPL_CONFIG_def)

lemma bnpl_demo1_reachable: "bnpl_reachable DEFAULT_BNPL_CONFIG bnpl_demo1"
  using bnpl_demo0_reachable bs_pay [of bnpl_demo0]
  unfolding bnpl_reachable_def bnpl_demo1_def by (meson rtranclp.rtrancl_into_rtrancl)

text \<open>
  C19: In every state that the service reaches from a configuration with at most a hundred instalments
  and ten billion financed, a plan that it returns is consistent: its instalments are numbered from
  one, are whole, non-negative cents and add up to the cents of the financed amount; a plan is
  completed exactly when every instalment is paid, and a cancelled one has nothing outstanding. Its
  summary divides the cents of the financed amount into what is paid and what remains. The principal,
  up to ten billion, is the down payment and the financed amount up to one cent: each is rounded on
  its own.
\<close>

theorem bnpl_plans_consistent:
  assumes "bnpl_reachable config s" and "config_bounded config" and "bnpl_getPlan tenant pid s = Inr p"
  shows "\<exists>cs D P A.
     map ins_index (ipl_installments p) = [1..ipl_installmentCount p] \<and>
     map ins_amount (ipl_installments p) = map cur cs \<and> list_all (\<lambda>c. 0 \<le> c) cs \<and>
     ipl_financedAmount p = cur (sum_list cs) \<and>
     ipl_downPayment p = cur D \<and> 0 \<le> D \<and> ipl_principal p = cur P \<and>
     (ipl_principal p \<le> 10 ^ 10 \<longrightarrow> \<bar>P - (D + sum_list cs)\<bar> \<le> 1) \<and>
     (ipl_status p = IplCompleted \<longleftrightarrow> (\<forall>i\<in>set (ipl_installments p). ins_status i = InsPaid)) \<and>
     (ipl_status p = IplCancelled \<longrightarrow> list_all (\<lambda>i. \<not> outstanding i) (ipl_installments p)) \<and>
     0 \<le> A \<and> A \<le> sum_list cs \<and>
     ips_totalAmount (summarizePlan p) = ipl_financedAmount p \<and>
     ips_paidAmount (summarizePlan p) = cur A \<and>
     ips_remainingAmount (summarizePlan p) = cur (sum_list cs - A) \<and>
     (ipl_status p = IplCompleted \<longrightarrow> A = sum_list cs)"
proof -
  have "bnpl_findById pid (bns_plans s) = Some p"
    using assms(3) by (auto simp: bnpl_getPlan_def split: option.splits if_splits)
  then have p: "plan_consistent p"
    using bnpl_reachable_inv [OF assms(1,2)] bnpl.filed_get by blast
  then obtain cs D P where cents: "plan_cents p cs D P" by (auto simp: plan_consistent_def)
  obtain A where A: "0 \<le> A" "A \<le> sum_list cs" "ips_totalAmount (summarizePlan p) = ipl_financedAmount p"
    "ips_paidAmount (summarizePlan p) = cur A" "ips_remainingAmount (summarizePlan p) = cur (sum_list cs - A)"
    "(\<forall>i\<in>set (ipl_installments p). ins_status i = InsPaid) \<longrightarrow> A = sum_list cs"
    using summarizePlan_ok [OF cents] by blast
  have status: "ipl_status p = IplCompleted \<longleftrightarrow> (\<forall>i\<in>set (ipl_installments p). ins_status i = InsPaid)"
    using p by (auto simp: plan_consistent_def installment_ok_def)
  have "ipl_status p = IplCancelled \<longrightarrow> list_all (\<lambda>i. \<not> outstanding i) (ipl_installments p)"
    using p by (auto simp: plan_consistent_def installment_ok_def list_all_iff outstanding_def OUTSTANDING_STATUSES_def)
  moreover have "map ins_index (ipl_installments p) = [1..ipl_installmentCount p]"
    using p by (simp only: plan_consistent_def)
  ultimately show ?thesis
    using cents A status unfolding plan_cents_def
    by (rule_tac exI [of _ cs], rule_tac exI [of _ D], rule_tac exI [of _ P], rule_tac exI [of _ A])
      (simp only: simp_thms)
qed

theorem bnpl_plans_consistent_witness:
  "\<exists>cs A. map ins_amount (ipl_installments bnpl_demo_paid) = map cur cs \<and> cur (sum_list cs) = 100 \<and>
     ips_paidAmount (summarizePlan bnpl_demo_paid) = cur A \<and>
     ips_remainingAmount (summarizePlan bnpl_demo_paid) = cur (sum_list cs - A)"
proof -
  have "bnpl_getPlan ''t'' ''p'' bnpl_demo1 = Inr bnpl_demo_paid" by code_simp
  moreover have "ipl_financedAmount bnpl_demo_paid = 100" by code_simp
  ultimately show ?thesis
    using bnpl_plans_consistent [OF bnpl_demo1_reachable default_config_bounded] by metis
qed

text \<open>
  The gap of a cent: 20.005 with a down payment of 0.01 has the principal 20.01, of which 19.99 is
  financed.
\<close>

lemma principal_gap:
  "cents_of (fl (20005 / 1000)) = 2001 \<and> cents_of (fl (fl (20005 / 1000) - cur 1)) = 1999"
proof -
  note val = power_int_def power_divide
  have a: "fl (20005 / 1000) = of_int 5630906909096673 * (1 / 2 ^ 48)"
    by (rule fl_eqI [of 4]) (simp_all add: val)
  have a1: "fl (fl (20005 / 1000) + 1 / 2 ^ 52) = of_int 5630906909096673 * (1 / 2 ^ 48)"
    unfolding a by (rule fl_eqI [of 4]) (simp_all add: val)
  have a2: "fl (of_int 5630906909096673 * (1 / 2 ^ 48) * 100) = of_int 8798292045463552 * (1 / 2 ^ 42)"
    by (rule fl_eqI [of 10]) (simp_all add: val)
  have d: "cur 1 = of_int 5764607523034235 * (1 / 2 ^ 59)"
    unfolding cur_def by (rule fl_eqI [of "-7"]) (simp_all add: val)
  have w: "fl (fl (20005 / 1000) - cur 1) = of_int 5628092159329566 * (1 / 2 ^ 48)"
    unfolding a d by (rule fl_eqI [of 4]) (simp_all add: val)
  have w1: "fl (of_int 5628092159329566 * (1 / 2 ^ 48) + 1 / 2 ^ 52) = of_int 5628092159329566 * (1 / 2 ^ 48)"
    by (rule fl_eqI [of 4]) (simp_all add: val)
  have w2: "fl (of_int 5628092159329566 * (1 / 2 ^ 48) * 100) = of_int 8793893998952447 * (1 / 2 ^ 42)"
    by (rule fl_eqI [of 10]) (simp_all add: val)
  show ?thesis
    unfolding cents_of_def a1 a2 w w1 w2 js_round_def by (simp add: floor_eq_iff)
qed

text \<open>
  Whatever calls follow, a stored plan keeps its parties, amounts and due dates, an instalment
  once paid is never touched again, and a completed or cancelled plan never changes.
\<close>

lemma paid_installments_final:
  assumes "bnpl_reachable config s" and "config_bounded config" and "bnpl_step\<^sup>*\<^sup>* s s'" and "bnpl_findById pid (bns_plans s) = Some p"
  shows "\<exists>p'. bnpl_findById pid (bns_plans s') = Some p' \<and>
     ipl_tenantId p' = ipl_tenantId p \<and> ipl_financedAmount p' = ipl_financedAmount p \<and>
     list_all2 (\<lambda>i i'. ins_index i' = ins_index i \<and> ins_amount i' = ins_amount i \<and>
         ins_dueAt i' = ins_dueAt i \<and> (ins_status i = InsPaid \<longrightarrow> i' = i))
       (ipl_installments p) (ipl_installments p') \<and>
     (ipl_status p = IplCompleted \<or> ipl_status p = IplCancelled \<longrightarrow> p' = p)"
proof -
  have "plans_evolve (bns_plans s) (bns_plans s')"
    using bnpl_run_ok [OF assms(3) bnpl_reachable_inv [OF assms(1,2)]] by simp
  then show ?thesis
    using assms(4) unfolding plans_evolve_def plan_evolves_def installment_evolves_def by fastforce
qed

lemma paid_installments_final_witness:
  "\<exists>p'. bnpl_findById ''p'' (bns_plans (snd (cancelPlan ''t'' ''p'' None 3 bnpl_demo1))) = Some p' \<and>
     hd (ipl_installments p') = hd (ipl_installments bnpl_demo_paid)"
proof -
  have p: "bnpl_findById ''p'' (bns_plans bnpl_demo1) = Some bnpl_demo_paid" by code_simp
  have cancel: "bnpl_step\<^sup>*\<^sup>* bnpl_demo1 (snd (cancelPlan ''t'' ''p'' None 3 bnpl_demo1))"
    by (rule r_into_rtranclp, rule bs_cancel)
  have "ipl_installments bnpl_demo_paid \<noteq> []" "ins_status (hd (ipl_installments bnpl_demo_paid)) = InsPaid"
    by code_simp+
  then obtain i xs where "ipl_installments bnpl_demo_paid = i # xs" "ins_status i = InsPaid"
    by (cases "ipl_installments bnpl_demo_paid") auto
  then show ?thesis
    using paid_installments_final [OF bnpl_demo1_reachable default_config_bounded cancel p] by (auto simp: list_all2_Cons1)
qed

text \<open>
  Two payments that overlap: both read the plan before either writes it back, both succeed, and the
  first one is lost.
\<close>

lemma overlapping_payments_lose_one:
  "\<exists>p p1 p2 ev1 ev2. bnpl_getPlan ''t'' ''p'' bnpl_demo0 = Inr p \<and>
     pay_on_plan (bnpl_demo_pay 1) 2 p = Inr (p1, ev1) \<and> pay_on_plan (bnpl_demo_pay 2) 2 p = Inr (p2, ev2) \<and>
     map_option (\<lambda>q. map ins_status (ipl_installments q))
       (bnpl_findById ''p'' (bns_plans (bnpl_save p2 ev2 (bnpl_save p1 ev1 bnpl_demo0)))) =
     Some [InsScheduled, InsPaid, InsScheduled, InsScheduled]"
proof -
  define p where "p = (case bnpl_getPlan ''t'' ''p'' bnpl_demo0 of Inr p \<Rightarrow> p | Inl _ \<Rightarrow> undefined)"
  define r where "r i = projr (pay_on_plan (bnpl_demo_pay i) 2 p)" for i
  have "bnpl_getPlan ''t'' ''p'' bnpl_demo0 = Inr p" "pay_on_plan (bnpl_demo_pay 1) 2 p = Inr (r 1)"
    "pay_on_plan (bnpl_demo_pay 2) 2 p = Inr (r 2)"
    "map_option (\<lambda>q. map ins_status (ipl_installments q))
       (bnpl_findById ''p'' (bns_plans (bnpl_save (fst (r 2)) (snd (r 2))
         (bnpl_save (fst (r 1)) (snd (r 1)) bnpl_demo0)))) =
     Some [InsScheduled, InsPaid, InsScheduled, InsScheduled]"
    unfolding r_def p_def by code_simp+
  then show ?thesis by (cases "r 1"; cases "r 2") auto
qed

text \<open>A failed instalment is no longer outstanding: the summary offers nothing more to collect for it.\<close>

lemma failed_installment_not_collected:
  "let s = snd (markInstallmentFailed ''t'' ''p'' 1 ''declined'' 2 bnpl_demo0) in
   map_sum id (\<lambda>sm. (ips_outstandingCount sm, ips_remainingAmount sm)) (bnpl_getSummary ''t'' ''p'' s) = Inr (3, 100) \<and>
   fst (sweepOverdue ''t'' (Some 1) 3 s) = Inr (0, 0)"
proof -
  define s where "s = snd (markInstallmentFailed ''t'' ''p'' 1 ''declined'' 2 bnpl_demo0)"
  obtain p where p: "bnpl_getPlan ''t'' ''p'' s = Inr p"
    "map ins_status (ipl_installments p) = [InsFailed, InsScheduled, InsScheduled, InsScheduled]"
    "map ins_amount (ipl_installments p) = [25, 25, 25, 25]"
  proof
    show "bnpl_getPlan ''t'' ''p'' s = Inr (projr (bnpl_getPlan ''t'' ''p'' s))"
      "map ins_status (ipl_installments (projr (bnpl_getPlan ''t'' ''p'' s))) =
        [InsFailed, InsScheduled, InsScheduled, InsScheduled]"
      "map ins_amount (ipl_installments (projr (bnpl_getPlan ''t'' ''p'' s))) = [25, 25, 25, 25]"
      unfolding s_def by code_simp+
  qed
  moreover have "fst (sweepOverdue ''t'' (Some 1) 3 s) = Inr (0, 0)" unfolding s_def by code_simp
  moreover have "round_cur 0 = 0" using round_cur_whole [of 0] by simp
  ultimately show ?thesis
    by (auto simp: s_def [symmetric] bnpl_getSummary_def summarizePlan_def sum_fl_def Let_def map_eq_Cons_conv
        outstanding_def OUTSTANDING_STATUSES_def)
qed

end
