(* ===== verification/Recurring.thy ===== *)
theory Recurring
  imports BaseService Money "HOL-Library.List_Lexorder" "HOL-Library.Char_ord" "HOL-Library.Product_Lexorder"
begin

text \<open>
  \<open>backend/src/services/recurring-billing/\<close>: schedules that bill a customer on a cron cadence
  (\<open>recurringBillingService.ts\<close>), the checks of a request (\<open>schedule.ts\<close>) and the in-memory store
  (\<open>store.ts\<close>), with the types of \<open>types.ts\<close>. The cron expressions are evaluated by the package
  \<open>cron-parser\<close> and the time zones by \<open>Intl\<close>, which are arguments here: \<open>cron_lib\<close>. Times are
  milliseconds, amounts rationals, metadata is opaque text. The store hands out copies; what
  \<open>runDue\<close> does with each copy is a function of its own.
\<close>

subsection \<open>Types\<close>

datatype BillingPreset = Hourly | Daily | WeeklyPreset | MonthlyPreset | Yearly

datatype RecurringScheduleStatus = RsActive | RsPaused | RsCancelled | RsCompleted

datatype RecurringInvoiceStatus = RiPending | RiPaid | RiFailed | RiVoid

record RecurringSchedule =
  rs_id :: string
  rs_tenantId :: string
  rs_customerId :: string
  rs_merchantId :: "string option"
  rs_name :: "string option"
  rs_cronExpression :: string
  rs_timezone :: string
  rs_amount :: rat
  rs_currency :: string
  rs_status :: RecurringScheduleStatus
  rs_startAt :: int
  rs_endAt :: "int option"
  rs_maxRuns :: "int option"
  rs_runCount :: int
  rs_lastRunAt :: "int option"
  rs_nextRunAt :: "int option"
  rs_metadata :: "string option"
  rs_createdAt :: int
  rs_updatedAt :: int

text \<open>A date of the input may be invalid: \<open>None\<close> is the invalid date.\<close>

record CreateRecurringScheduleInput =
  crs_tenantId :: string
  crs_customerId :: string
  crs_amount :: rat
  crs_currency :: "string option"
  crs_cronExpression :: "string option"
  crs_preset :: "BillingPreset option"
  crs_timezone :: "string option"
  crs_startAt :: "int option option"
  crs_endAt :: "int option option"
  crs_maxRuns :: "rat option"
  crs_merchantId :: "string option"
  crs_name :: "string option"
  crs_metadata :: "string option"

record NormalizedRecurringSchedule =
  nrs_tenantId :: string
  nrs_customerId :: string
  nrs_amount :: rat
  nrs_currency :: string
  nrs_cronExpression :: string
  nrs_timezone :: string
  nrs_startAt :: int
  nrs_endAt :: "int option"
  nrs_maxRuns :: "int option"
  nrs_merchantId :: "string option"
  nrs_name :: "string option"
  nrs_metadata :: "string option"

record RecurringInvoice =
  rin_id :: string
  rin_scheduleId :: string
  rin_tenantId :: string
  rin_amount :: rat
  rin_currency :: string
  rin_status :: RecurringInvoiceStatus
  rin_periodStart :: int
  rin_dueAt :: int
  rin_createdAt :: int

record RecurringScheduleFilter =
  rsf_status :: "RecurringScheduleStatus option"
  rsf_customerId :: "string option"
  rsf_merchantId :: "string option"

record RunDueResult =
  rdr_processed :: nat
  rdr_invoices :: "RecurringInvoice list"
  rdr_completedScheduleIds :: "string list"

record RecurringBillingConfig =
  rbc_supportedCurrencies :: "string list"
  rbc_minAmount :: rat
  rbc_maxAmount :: rat
  rbc_defaultCurrency :: string
  rbc_defaultTimezone :: string
  rbc_defaultPreset :: BillingPreset
  rbc_maxUpcomingPreview :: int

datatype RecurringBillingEventType =
    RbeCreated string "int option" | RbePaused | RbeResumed "int option" | RbeCancelled "string option"
  | RbeCompleted int | RbeRescheduled string "int option" | RbeInvoiceGenerated string int int
  | RbeInvoiceFailed int string

record RecurringBillingEvent =
  rbe_type :: RecurringBillingEventType
  rbe_scheduleId :: string
  rbe_tenantId :: string
  rbe_occurredAt :: int

record RescheduleInput =
  rsi_cronExpression :: "string option"
  rsi_preset :: "BillingPreset option"
  rsi_timezone :: "string option"

datatype recurring_error =
    RecTenantRequired | RecCustomerRequired | RecAmountNotPositive | RecAmountTooSmall rat
  | RecAmountTooLarge rat | RecCurrencyNotSupported | TimezoneInvalid string | CronInvalid string
  | StartAtInvalid | EndAtInvalid | EndBeforeStart | MaxRunsInvalid
  | ScheduleNotFound string | CannotPause RecurringScheduleStatus | CannotResume RecurringScheduleStatus
  | AlreadyCancelledSchedule | CannotCancelCompletedSchedule | CannotRescheduleCancelled
  | RunDueTimestampInvalid

text \<open>
  What the service needs of \<open>cron-parser\<close> and \<open>Intl\<close>: whether an expression parses in a zone, the
  next occurrence after a time (\<open>None\<close> when the package throws), and whether a zone is known.
\<close>

record cron_lib =
  cl_parses :: "string \<Rightarrow> string \<Rightarrow> bool"
  cl_next :: "string \<Rightarrow> string \<Rightarrow> int \<Rightarrow> int option"
  cl_zone :: "string \<Rightarrow> bool"

subsection \<open>Schedules\<close>

definition DEFAULT_RECURRING_BILLING_CONFIG :: RecurringBillingConfig where
  "DEFAULT_RECURRING_BILLING_CONFIG =
     \<lparr>rbc_supportedCurrencies = [''USD'', ''EUR'', ''GBP'', ''XLM'', ''USDC''], rbc_minAmount = 1 / 100,
      rbc_maxAmount = 1000000, rbc_defaultCurrency = ''USD'', rbc_defaultTimezone = ''UTC'',
      rbc_defaultPreset = MonthlyPreset, rbc_maxUpcomingPreview = 50\<rparr>"

fun PRESET_CRONS :: "BillingPreset \<Rightarrow> string" where
  "PRESET_CRONS Hourly = ''0 * * * *''"
| "PRESET_CRONS Daily = ''0 0 * * *''"
| "PRESET_CRONS WeeklyPreset = ''0 0 * * 0''"
| "PRESET_CRONS MonthlyPreset = ''0 0 1 * *''"
| "PRESET_CRONS Yearly = ''0 0 1 1 *''"

definition round_recurring :: "rat \<Rightarrow> rat" where
  "round_recurring v = of_int (js_round ((v + 1 / 2 ^ 52) * 100)) / 100"

definition isValidCronExpression :: "cron_lib \<Rightarrow> string \<Rightarrow> string \<Rightarrow> bool" where
  "isValidCronExpression lib expression timezone \<longleftrightarrow> expression \<noteq> [] \<and> cl_parses lib expression timezone"

definition isValidTimezone :: "cron_lib \<Rightarrow> string \<Rightarrow> bool" where
  "isValidTimezone lib timezone \<longleftrightarrow> timezone \<noteq> [] \<and> cl_zone lib timezone"

definition nextRunAfter :: "cron_lib \<Rightarrow> string \<Rightarrow> string \<Rightarrow> int \<Rightarrow> int option" where
  "nextRunAfter lib cronExpression timezone after = cl_next lib cronExpression timezone after"

text \<open>The \<open>count\<close> next occurrences; none at all when the package throws on the way.\<close>

fun next_runs :: "cron_lib \<Rightarrow> string \<Rightarrow> string \<Rightarrow> nat \<Rightarrow> int \<Rightarrow> int list option" where
  "next_runs lib cronExpression timezone 0 after = Some []"
| "next_runs lib cronExpression timezone (Suc count) after =
     (case cl_next lib cronExpression timezone after of
        None \<Rightarrow> None
      | Some t \<Rightarrow> map_option (Cons t) (next_runs lib cronExpression timezone count t))"

definition upcomingRuns :: "cron_lib \<Rightarrow> string \<Rightarrow> string \<Rightarrow> int \<Rightarrow> int \<Rightarrow> int list" where
  "upcomingRuns lib cronExpression timezone count after =
     (if count \<le> 0 then []
      else case next_runs lib cronExpression timezone (nat count) after of None \<Rightarrow> [] | Some runs \<Rightarrow> runs)"

definition resolveCronExpression ::
  "RecurringBillingConfig \<Rightarrow> string option \<Rightarrow> BillingPreset option \<Rightarrow> string" where
  "resolveCronExpression config cronExpression preset =
     (if truthy cronExpression then js_trim (the cronExpression)
      else PRESET_CRONS (case preset of Some p \<Rightarrow> p | None \<Rightarrow> rbc_defaultPreset config))"

text \<open>\<open>clock\<close> is the \<open>new Date()\<close> that stands for a missing start.\<close>

definition validateRecurringSchedule ::
  "cron_lib \<Rightarrow> RecurringBillingConfig \<Rightarrow> CreateRecurringScheduleInput \<Rightarrow> int \<Rightarrow>
   recurring_error + NormalizedRecurringSchedule" where
  "validateRecurringSchedule lib config input clock =
     (let amount = round_recurring (crs_amount input);
          currency = to_upper (case crs_currency input of Some c \<Rightarrow> c | None \<Rightarrow> rbc_defaultCurrency config);
          cronExpression = resolveCronExpression config (crs_cronExpression input) (crs_preset input);
          timezone = (case crs_timezone input of Some z \<Rightarrow> z | None \<Rightarrow> rbc_defaultTimezone config)
      in if crs_tenantId input = [] then Inl RecTenantRequired
         else if crs_customerId input = [] then Inl RecCustomerRequired
         else if amount \<le> 0 then Inl RecAmountNotPositive
         else if amount < rbc_minAmount config then Inl (RecAmountTooSmall (rbc_minAmount config))
         else if rbc_maxAmount config < amount then Inl (RecAmountTooLarge (rbc_maxAmount config))
         else if currency \<notin> set (rbc_supportedCurrencies config) then Inl RecCurrencyNotSupported
         else if \<not> isValidTimezone lib timezone then Inl (TimezoneInvalid timezone)
         else if \<not> isValidCronExpression lib cronExpression timezone then Inl (CronInvalid cronExpression)
         else
           (case (case crs_startAt input of None \<Rightarrow> Some clock | Some d \<Rightarrow> d) of
              None \<Rightarrow> Inl StartAtInvalid
            | Some startAt \<Rightarrow>
                if crs_endAt input = Some None then Inl EndAtInvalid
                else
                  let endAt = (case crs_endAt input of None \<Rightarrow> None | Some e \<Rightarrow> e)
                  in if (case endAt of None \<Rightarrow> False | Some e \<Rightarrow> e < startAt) then Inl EndBeforeStart
                     else if (case crs_maxRuns input of None \<Rightarrow> False
                         | Some n \<Rightarrow> of_int \<lfloor>n\<rfloor> \<noteq> n \<or> n < 1) then Inl MaxRunsInvalid
                     else Inr
                       \<lparr>nrs_tenantId = crs_tenantId input, nrs_customerId = crs_customerId input,
                        nrs_amount = amount, nrs_currency = currency, nrs_cronExpression = cronExpression,
                        nrs_timezone = timezone, nrs_startAt = startAt, nrs_endAt = endAt,
                        nrs_maxRuns = map_option floor (crs_maxRuns input),
                        nrs_merchantId = crs_merchantId input, nrs_name = crs_name input,
                        nrs_metadata = crs_metadata input\<rparr>))"

subsection \<open>The store\<close>

record recurring_store =
  rst_schedules :: "(string, RecurringSchedule) jsmap"
  rst_invoices :: "(string, RecurringInvoice list) jsmap"

definition rec_create :: "RecurringSchedule \<Rightarrow> recurring_store \<Rightarrow> recurring_store" where
  "rec_create schedule s =
     s\<lparr>rst_schedules := js_set (rs_id schedule) schedule (rst_schedules s),
       rst_invoices := (if js_get (rst_invoices s) (rs_id schedule) = None
         then js_set (rs_id schedule) [] (rst_invoices s) else rst_invoices s)\<rparr>"

definition rec_findById :: "string \<Rightarrow> recurring_store \<Rightarrow> RecurringSchedule option" where
  "rec_findById i s = js_get (rst_schedules s) i"

definition rec_update :: "RecurringSchedule \<Rightarrow> recurring_store \<Rightarrow> recurring_store" where
  "rec_update schedule s = s\<lparr>rst_schedules := js_set (rs_id schedule) schedule (rst_schedules s)\<rparr>"

interpretation rec_created: repository rec_findById rs_id rec_create
  by unfold_locales (simp add: rec_findById_def rec_create_def js.get_put)

interpretation rec_updated: repository rec_findById rs_id rec_update
  by unfold_locales (simp add: rec_findById_def rec_update_def js.get_put)

definition rec_list :: "string \<Rightarrow> RecurringScheduleFilter option \<Rightarrow> recurring_store \<Rightarrow> RecurringSchedule list" where
  "rec_list tenantId flt s =
     sort_key (\<lambda>schedule. (rs_createdAt schedule, rs_id schedule))
       (filter (\<lambda>schedule. case flt of None \<Rightarrow> True
            | Some f \<Rightarrow> \<not> truthy (rsf_merchantId f) \<or> rs_merchantId schedule = rsf_merchantId f)
       (filter (\<lambda>schedule. case flt of None \<Rightarrow> True
            | Some f \<Rightarrow> \<not> truthy (rsf_customerId f) \<or> Some (rs_customerId schedule) = rsf_customerId f)
       (filter (\<lambda>schedule. case flt of None \<Rightarrow> True
            | Some f \<Rightarrow> (case rsf_status f of None \<Rightarrow> True | Some st \<Rightarrow> rs_status schedule = st))
       (filter (\<lambda>schedule. rs_tenantId schedule = tenantId) (js_values (rst_schedules s))))))"

definition is_due :: "int \<Rightarrow> RecurringSchedule \<Rightarrow> bool" where
  "is_due cutoff schedule \<longleftrightarrow> rs_status schedule = RsActive \<and>
     (case rs_nextRunAt schedule of None \<Rightarrow> False | Some t \<Rightarrow> t \<le> cutoff)"

definition findDue :: "string option \<Rightarrow> int \<Rightarrow> recurring_store \<Rightarrow> RecurringSchedule list" where
  "findDue tenantId before s =
     sort_key (\<lambda>schedule. (case rs_nextRunAt schedule of Some t \<Rightarrow> t | None \<Rightarrow> 0, rs_id schedule))
       (filter (is_due before)
       (filter (\<lambda>schedule. \<not> truthy tenantId \<or> Some (rs_tenantId schedule) = tenantId)
         (js_values (rst_schedules s))))"

definition listBySchedule :: "string \<Rightarrow> recurring_store \<Rightarrow> RecurringInvoice list" where
  "listBySchedule scheduleId s =
     (case js_get (rst_invoices s) scheduleId of Some xs \<Rightarrow> xs | None \<Rightarrow> [])"

definition createRecurringInvoice :: "RecurringInvoice \<Rightarrow> recurring_store \<Rightarrow> recurring_store" where
  "createRecurringInvoice invoice s =
     s\<lparr>rst_invoices := js_set (rin_scheduleId invoice)
         (listBySchedule (rin_scheduleId invoice) s @ [invoice]) (rst_invoices s)\<rparr>"

definition allInvoices :: "recurring_store \<Rightarrow> RecurringInvoice list" where
  "allInvoices s = concat (js_values (rst_invoices s))"

subsection \<open>The service\<close>

record recurring_service =
  rsv_store :: recurring_store
  rsv_config :: RecurringBillingConfig
  rsv_published :: "RecurringBillingEvent list"

definition rec_event :: "RecurringBillingEventType \<Rightarrow> RecurringSchedule \<Rightarrow> int \<Rightarrow> RecurringBillingEvent" where
  "rec_event ty schedule occurredAt =
     \<lparr>rbe_type = ty, rbe_scheduleId = rs_id schedule, rbe_tenantId = rs_tenantId schedule,
      rbe_occurredAt = occurredAt\<rparr>"

definition rec_publish :: "RecurringBillingEvent list \<Rightarrow> recurring_service \<Rightarrow> recurring_service" where
  "rec_publish events s = s\<lparr>rsv_published := rsv_published s @ events\<rparr>"

definition rec_save ::
  "RecurringSchedule \<Rightarrow> RecurringBillingEvent list \<Rightarrow> recurring_service \<Rightarrow> recurring_service" where
  "rec_save schedule events s = rec_publish events (s\<lparr>rsv_store := rec_update schedule (rsv_store s)\<rparr>)"

text \<open>An occurrence after the end of the schedule does not count.\<close>

definition within_end :: "int option \<Rightarrow> int option \<Rightarrow> int option" where
  "within_end endAt next =
     (case next of None \<Rightarrow> None
      | Some t \<Rightarrow> (case endAt of None \<Rightarrow> Some t | Some e \<Rightarrow> if t \<le> e then Some t else None))"

definition createSchedule ::
  "cron_lib \<Rightarrow> string \<Rightarrow> CreateRecurringScheduleInput \<Rightarrow> int \<Rightarrow> int \<Rightarrow>
   (recurring_service, recurring_error, RecurringSchedule) op" where
  "createSchedule lib uuid input clock now s =
     (case validateRecurringSchedule lib (rsv_config s) input clock of
        Inl e \<Rightarrow> (Inl e, s)
      | Inr request \<Rightarrow>
          let effectiveFrom = (if now < nrs_startAt request then nrs_startAt request else now);
              first = nextRunAfter lib (nrs_cronExpression request) (nrs_timezone request) (effectiveFrom - 1);
              nextRunAt = within_end (nrs_endAt request) first;
              schedule = \<lparr>rs_id = uuid, rs_tenantId = nrs_tenantId request,
                rs_customerId = nrs_customerId request, rs_merchantId = nrs_merchantId request,
                rs_name = nrs_name request, rs_cronExpression = nrs_cronExpression request,
                rs_timezone = nrs_timezone request, rs_amount = nrs_amount request,
                rs_currency = nrs_currency request,
                rs_status = (if nextRunAt \<noteq> None then RsActive else RsCompleted),
                rs_startAt = nrs_startAt request, rs_endAt = nrs_endAt request,
                rs_maxRuns = nrs_maxRuns request, rs_runCount = 0, rs_lastRunAt = None,
                rs_nextRunAt = nextRunAt, rs_metadata = nrs_metadata request,
                rs_createdAt = now, rs_updatedAt = now\<rparr>
          in (Inr schedule, rec_publish [rec_event (RbeCreated (rs_cronExpression schedule) nextRunAt) schedule now]
                (s\<lparr>rsv_store := rec_create schedule (rsv_store s)\<rparr>)))"

definition getSchedule :: "string \<Rightarrow> string \<Rightarrow> recurring_service \<Rightarrow> recurring_error + RecurringSchedule" where
  "getSchedule tenantId scheduleId s =
     (case rec_findById scheduleId (rsv_store s) of
        None \<Rightarrow> Inl (ScheduleNotFound scheduleId)
      | Some schedule \<Rightarrow>
          if rs_tenantId schedule \<noteq> tenantId then Inl (ScheduleNotFound scheduleId) else Inr schedule)"

definition listSchedules ::
  "string \<Rightarrow> RecurringScheduleFilter option \<Rightarrow> recurring_service \<Rightarrow> recurring_error + RecurringSchedule list" where
  "listSchedules tenantId flt s =
     (if tenantId = [] then Inl RecTenantRequired else Inr (rec_list tenantId flt (rsv_store s)))"

definition previewUpcoming ::
  "cron_lib \<Rightarrow> string \<Rightarrow> string \<Rightarrow> int \<Rightarrow> int \<Rightarrow> recurring_service \<Rightarrow> recurring_error + int list" where
  "previewUpcoming lib tenantId scheduleId count now s =
     (case getSchedule tenantId scheduleId s of
        Inl e \<Rightarrow> Inl e
      | Inr schedule \<Rightarrow>
          let bounded = min (max 1 count) (rbc_maxUpcomingPreview (rsv_config s));
              start = (case rs_nextRunAt schedule of Some t \<Rightarrow> t - 1 | None \<Rightarrow> now)
          in Inr (upcomingRuns lib (rs_cronExpression schedule) (rs_timezone schedule) bounded start))"

text \<open>What an operation does with its copy of the schedule: an error, or the schedule to save and the event.\<close>

type_synonym schedule_change = "recurring_error + RecurringSchedule \<times> RecurringBillingEvent"

definition on_schedule ::
  "string \<Rightarrow> string \<Rightarrow> (RecurringSchedule \<Rightarrow> schedule_change) \<Rightarrow>
   (recurring_service, recurring_error, RecurringSchedule) op" where
  "on_schedule tenantId scheduleId change s =
     (case getSchedule tenantId scheduleId s of
        Inl e \<Rightarrow> (Inl e, s)
      | Inr schedule \<Rightarrow>
          (case change schedule of
             Inl e \<Rightarrow> (Inl e, s)
           | Inr (schedule', event) \<Rightarrow> (Inr schedule', rec_save schedule' [event] s)))"

definition pause_change :: "int \<Rightarrow> RecurringSchedule \<Rightarrow> schedule_change" where
  "pause_change now schedule =
     (if rs_status schedule \<noteq> RsActive then Inl (CannotPause (rs_status schedule))
      else Inr (schedule\<lparr>rs_status := RsPaused, rs_updatedAt := now\<rparr>, rec_event RbePaused schedule now))"

definition pauseSchedule ::
  "string \<Rightarrow> string \<Rightarrow> int \<Rightarrow> (recurring_service, recurring_error, RecurringSchedule) op" where
  "pauseSchedule tenantId scheduleId now = on_schedule tenantId scheduleId (pause_change now)"

definition runs_exhausted :: "RecurringSchedule \<Rightarrow> bool" where
  "runs_exhausted schedule \<longleftrightarrow> (case rs_maxRuns schedule of None \<Rightarrow> False | Some n \<Rightarrow> n \<le> rs_runCount schedule)"

text \<open>The status and the next run that resuming and rescheduling set.\<close>

definition restart :: "int option \<Rightarrow> int \<Rightarrow> RecurringSchedule \<Rightarrow> RecurringSchedule" where
  "restart next now schedule =
     (let active = within_end (rs_endAt schedule) next \<noteq> None \<and> \<not> runs_exhausted schedule
      in schedule\<lparr>rs_status := (if active then RsActive else RsCompleted),
           rs_nextRunAt := (if active then next else None), rs_updatedAt := now\<rparr>)"

definition resume_change :: "cron_lib \<Rightarrow> int \<Rightarrow> RecurringSchedule \<Rightarrow> schedule_change" where
  "resume_change lib now schedule =
     (if rs_status schedule \<noteq> RsPaused then Inl (CannotResume (rs_status schedule))
      else
        let next = nextRunAfter lib (rs_cronExpression schedule) (rs_timezone schedule) now;
            schedule' = restart next now schedule
        in Inr (schedule', rec_event (RbeResumed (rs_nextRunAt schedule')) schedule' now))"

definition resumeSchedule ::
  "cron_lib \<Rightarrow> string \<Rightarrow> string \<Rightarrow> int \<Rightarrow> (recurring_service, recurring_error, RecurringSchedule) op" where
  "resumeSchedule lib tenantId scheduleId now = on_schedule tenantId scheduleId (resume_change lib now)"

definition cancel_change :: "string option \<Rightarrow> int \<Rightarrow> RecurringSchedule \<Rightarrow> schedule_change" where
  "cancel_change reason now schedule =
     (if rs_status schedule = RsCancelled then Inl AlreadyCancelledSchedule
      else if rs_status schedule = RsCompleted then Inl CannotCancelCompletedSchedule
      else Inr (schedule\<lparr>rs_status := RsCancelled, rs_nextRunAt := None, rs_updatedAt := now\<rparr>,
             rec_event (RbeCancelled reason) schedule now))"

definition cancelSchedule ::
  "string \<Rightarrow> string \<Rightarrow> string option \<Rightarrow> int \<Rightarrow> (recurring_service, recurring_error, RecurringSchedule) op" where
  "cancelSchedule tenantId scheduleId reason now = on_schedule tenantId scheduleId (cancel_change reason now)"

definition reschedule_input :: "RescheduleInput \<Rightarrow> RecurringSchedule \<Rightarrow> CreateRecurringScheduleInput" where
  "reschedule_input input schedule =
     \<lparr>crs_tenantId = rs_tenantId schedule, crs_customerId = rs_customerId schedule,
      crs_amount = rs_amount schedule, crs_currency = Some (rs_currency schedule),
      crs_cronExpression = Some (case rsi_cronExpression input of Some c \<Rightarrow> c
        | None \<Rightarrow> (case rsi_preset input of Some p \<Rightarrow> PRESET_CRONS p | None \<Rightarrow> rs_cronExpression schedule)),
      crs_preset = None,
      crs_timezone = Some (case rsi_timezone input of Some z \<Rightarrow> z | None \<Rightarrow> rs_timezone schedule),
      crs_startAt = Some (Some (rs_startAt schedule)), crs_endAt = map_option Some (rs_endAt schedule),
      crs_maxRuns = map_option of_int (rs_maxRuns schedule), crs_merchantId = rs_merchantId schedule,
      crs_name = rs_name schedule, crs_metadata = rs_metadata schedule\<rparr>"

definition reschedule_change ::
  "cron_lib \<Rightarrow> RecurringBillingConfig \<Rightarrow> RescheduleInput \<Rightarrow> int \<Rightarrow> int \<Rightarrow> RecurringSchedule \<Rightarrow> schedule_change" where
  "reschedule_change lib config input clock now schedule =
     (if rs_status schedule = RsCancelled then Inl CannotRescheduleCancelled
      else case validateRecurringSchedule lib config (reschedule_input input schedule) clock of
        Inl e \<Rightarrow> Inl e
      | Inr request \<Rightarrow>
          let next = nextRunAfter lib (nrs_cronExpression request) (nrs_timezone request) now;
              schedule' = restart next now (schedule\<lparr>rs_cronExpression := nrs_cronExpression request,
                rs_timezone := nrs_timezone request\<rparr>)
          in Inr (schedule', rec_event (RbeRescheduled (rs_cronExpression schedule') (rs_nextRunAt schedule'))
               schedule' now))"

definition reschedule ::
  "cron_lib \<Rightarrow> string \<Rightarrow> string \<Rightarrow> RescheduleInput \<Rightarrow> int \<Rightarrow> int \<Rightarrow>
   (recurring_service, recurring_error, RecurringSchedule) op" where
  "reschedule lib tenantId scheduleId input clock now s =
     on_schedule tenantId scheduleId (reschedule_change lib (rsv_config s) input clock now) s"

text \<open>One round of the loop of \<open>runDue\<close>: the invoice, and the schedule after it.\<close>

definition run_invoice :: "string \<Rightarrow> int \<Rightarrow> int \<Rightarrow> RecurringSchedule \<Rightarrow> RecurringInvoice" where
  "run_invoice uuid now dueAt schedule =
     \<lparr>rin_id = uuid, rin_scheduleId = rs_id schedule, rin_tenantId = rs_tenantId schedule,
      rin_amount = rs_amount schedule, rin_currency = rs_currency schedule, rin_status = RiPending,
      rin_periodStart = (case rs_lastRunAt schedule of Some t \<Rightarrow> t | None \<Rightarrow> rs_createdAt schedule),
      rin_dueAt = dueAt, rin_createdAt = now\<rparr>"

definition billed :: "cron_lib \<Rightarrow> int \<Rightarrow> int \<Rightarrow> RecurringSchedule \<Rightarrow> RecurringSchedule" where
  "billed lib now dueAt schedule =
     (let counted = schedule\<lparr>rs_runCount := rs_runCount schedule + 1, rs_lastRunAt := Some dueAt\<rparr>;
          next = nextRunAfter lib (rs_cronExpression schedule) (rs_timezone schedule) dueAt;
          pastEnd = (within_end (rs_endAt schedule) next = None)
      in if runs_exhausted counted \<or> pastEnd
         then counted\<lparr>rs_status := RsCompleted, rs_nextRunAt := None, rs_updatedAt := now\<rparr>
         else counted\<lparr>rs_nextRunAt := next, rs_updatedAt := now\<rparr>)"

definition bill_schedule ::
  "cron_lib \<Rightarrow> string \<Rightarrow> int \<Rightarrow> RecurringSchedule \<Rightarrow> recurring_service \<Rightarrow> recurring_service" where
  "bill_schedule lib uuid now schedule s =
     (case rs_nextRunAt schedule of
        None \<Rightarrow> s
      | Some dueAt \<Rightarrow>
          let invoice = run_invoice uuid now dueAt schedule;
              schedule' = billed lib now dueAt schedule
          in rec_save schedule'
               (rec_event (RbeInvoiceGenerated uuid dueAt (rs_runCount schedule')) schedule' now #
                (if rs_status schedule' = RsCompleted
                 then [rec_event (RbeCompleted (rs_runCount schedule')) schedule' now] else []))
               (s\<lparr>rsv_store := createRecurringInvoice invoice (rsv_store s)\<rparr>))"

text \<open>\<open>ids\<close> are the identifiers of the invoices, in the order of the loop.\<close>

fun bill_all ::
  "cron_lib \<Rightarrow> (nat \<Rightarrow> string) \<Rightarrow> int \<Rightarrow> nat \<Rightarrow> RecurringSchedule list \<Rightarrow> recurring_service \<Rightarrow> recurring_service" where
  "bill_all lib ids now i [] s = s"
| "bill_all lib ids now i (schedule # due) s =
     bill_all lib ids now (Suc i) due (bill_schedule lib (ids i) now schedule s)"

definition run_result ::
  "cron_lib \<Rightarrow> (nat \<Rightarrow> string) \<Rightarrow> int \<Rightarrow> RecurringSchedule list \<Rightarrow> RunDueResult" where
  "run_result lib ids now due =
     \<lparr>rdr_processed = length due,
      rdr_invoices = map2 (\<lambda>i schedule. run_invoice (ids i) now (the (rs_nextRunAt schedule)) schedule)
        [0..<length due] due,
      rdr_completedScheduleIds = map rs_id (filter (\<lambda>schedule.
        rs_status (billed lib now (the (rs_nextRunAt schedule)) schedule) = RsCompleted) due)\<rparr>"

definition runDue ::
  "cron_lib \<Rightarrow> (nat \<Rightarrow> string) \<Rightarrow> int option \<Rightarrow> (recurring_service, recurring_error, RunDueResult) op" where
  "runDue lib ids at_time s =
     (case at_time of
        None \<Rightarrow> (Inl RunDueTimestampInvalid, s)
      | Some now \<Rightarrow>
          let due = findDue None now (rsv_store s)
          in (Inr (run_result lib ids now due), bill_all lib ids now 0 due s))"

definition listScheduleInvoices ::
  "string \<Rightarrow> string \<Rightarrow> recurring_service \<Rightarrow> recurring_error + RecurringInvoice list" where
  "listScheduleInvoices tenantId scheduleId s =
     (case getSchedule tenantId scheduleId s of
        Inl e \<Rightarrow> Inl e | Inr schedule \<Rightarrow> Inr (listBySchedule scheduleId (rsv_store s)))"

end
