(* ===== verification/RecurringProps.thy ===== *)
theory RecurringProps
  imports Recurring
begin

text \<open>
  Properties of recurring billing: the invoices of a schedule form a gapless chain of periods within
  the limits of the schedule, a sweep bills exactly the schedules that are due, once each, and
  repeated sweeps catch up.
\<close>

text \<open>The occurrence that \<open>cron-parser\<close> returns lies strictly after the given date.\<close>

definition cron_strict :: "cron_lib \<Rightarrow> bool" where
  "cron_strict lib \<longleftrightarrow> (\<forall>e z a u. cl_next lib e z a = Some u \<longrightarrow> a < u)"

definition rec_init :: "RecurringBillingConfig \<Rightarrow> recurring_service" where
  "rec_init config = \<lparr>rsv_store = \<lparr>rst_schedules = [], rst_invoices = []\<rparr>, rsv_config = config, rsv_published = []\<rparr>"

text \<open>
  The states that the service can be in at a time of its clock. A sweep may be run for an earlier
  time than now, not for a later one.
\<close>

inductive rec_run :: "cron_lib \<Rightarrow> int \<Rightarrow> recurring_service \<Rightarrow> bool" for lib where
  rr_init: "rec_run lib t (rec_init config)"
| rr_wait: "rec_run lib t s \<Longrightarrow> t \<le> t' \<Longrightarrow> rec_run lib t' s"
| rr_create: "rec_run lib t s \<Longrightarrow> rec_findById uuid (rsv_store s) = None \<Longrightarrow>
     rec_run lib t (snd (createSchedule lib uuid input clock t s))"
| rr_pause: "rec_run lib t s \<Longrightarrow> rec_run lib t (snd (pauseSchedule tenant sid t s))"
| rr_resume: "rec_run lib t s \<Longrightarrow> rec_run lib t (snd (resumeSchedule lib tenant sid t s))"
| rr_cancel: "rec_run lib t s \<Longrightarrow> rec_run lib t (snd (cancelSchedule tenant sid reason t s))"
| rr_reschedule: "rec_run lib t s \<Longrightarrow> rec_run lib t (snd (reschedule lib tenant sid rinput clock t s))"
| rr_due: "rec_run lib t s \<Longrightarrow> now \<le> t \<Longrightarrow> rec_run lib t (snd (runDue lib ids (Some now) s))"

subsection \<open>Schedules and their invoices\<close>

definition billed_until :: "RecurringSchedule \<Rightarrow> int" where
  "billed_until sc = (case rs_lastRunAt sc of Some l \<Rightarrow> l | None \<Rightarrow> rs_createdAt sc)"

definition sched_ok :: "int \<Rightarrow> RecurringSchedule \<Rightarrow> bool" where
  "sched_ok t sc \<longleftrightarrow>
     (rs_nextRunAt sc = None \<longleftrightarrow> rs_status sc = RsCompleted \<or> rs_status sc = RsCancelled) \<and>
     0 \<le> rs_runCount sc \<and> (rs_lastRunAt sc = None \<longleftrightarrow> rs_runCount sc = 0) \<and>
     (\<forall>n. rs_maxRuns sc = Some n \<longrightarrow> rs_runCount sc \<le> n) \<and>
     (rs_nextRunAt sc \<noteq> None \<longrightarrow> \<not> runs_exhausted sc) \<and>
     billed_until sc \<le> t \<and> rs_createdAt sc \<le> billed_until sc \<and>
     (\<forall>n. rs_nextRunAt sc = Some n \<longrightarrow> billed_until sc \<le> n \<and>
        (\<forall>l. rs_lastRunAt sc = Some l \<longrightarrow> l < n) \<and> (\<forall>e. rs_endAt sc = Some e \<longrightarrow> n \<le> e))"

definition run_invoice_ok :: "RecurringSchedule \<Rightarrow> RecurringInvoice \<Rightarrow> bool" where
  "run_invoice_ok sc iv \<longleftrightarrow>
     rin_scheduleId iv = rs_id sc \<and> rin_tenantId iv = rs_tenantId sc \<and>
     rin_amount iv = rs_amount sc \<and> rin_currency iv = rs_currency sc \<and>
     rin_dueAt iv \<le> rin_createdAt iv \<and>
     (\<forall>e. rs_endAt sc = Some e \<longrightarrow> rin_dueAt iv \<le> e)"

definition run_invoices_ok :: "RecurringSchedule \<Rightarrow> RecurringInvoice list \<Rightarrow> bool" where
  "run_invoices_ok sc xs \<longleftrightarrow>
     int (length xs) = rs_runCount sc \<and>
     map rin_periodStart xs @ [billed_until sc] = rs_createdAt sc # map rin_dueAt xs \<and>
     sorted_wrt (<) (map rin_dueAt xs) \<and> (\<forall>iv\<in>set xs. run_invoice_ok sc iv)"

text \<open>What the changes of a schedule leave alone.\<close>

definition same_terms :: "RecurringSchedule \<Rightarrow> RecurringSchedule \<Rightarrow> bool" where
  "same_terms sc sc' \<longleftrightarrow>
     rs_id sc' = rs_id sc \<and> rs_tenantId sc' = rs_tenantId sc \<and> rs_amount sc' = rs_amount sc \<and>
     rs_currency sc' = rs_currency sc \<and> rs_endAt sc' = rs_endAt sc \<and> rs_maxRuns sc' = rs_maxRuns sc \<and>
     rs_createdAt sc' = rs_createdAt sc"

definition same_runs :: "RecurringSchedule \<Rightarrow> RecurringSchedule \<Rightarrow> bool" where
  "same_runs sc sc' \<longleftrightarrow> same_terms sc sc' \<and> rs_runCount sc' = rs_runCount sc \<and> rs_lastRunAt sc' = rs_lastRunAt sc"

lemma same_runs_billed_until: "same_runs sc sc' \<Longrightarrow> billed_until sc' = billed_until sc"
  by (simp add: same_runs_def same_terms_def billed_until_def split: option.split)

lemma same_terms_invoice: "same_terms sc sc' \<Longrightarrow> run_invoice_ok sc' iv = run_invoice_ok sc iv"
  by (simp add: same_terms_def run_invoice_ok_def)

lemma same_runs_invoices: "same_runs sc sc' \<Longrightarrow> run_invoices_ok sc' xs = run_invoices_ok sc xs"
  unfolding run_invoices_ok_def using same_runs_billed_until [of sc sc'] same_terms_invoice [of sc sc']
  by (simp add: same_runs_def same_terms_def)

lemma sched_ok_mono: "sched_ok t sc \<Longrightarrow> t \<le> t' \<Longrightarrow> sched_ok t' sc"
  unfolding sched_ok_def by (elim conjE, intro conjI) (assumption | simp)+

lemma within_end_eq: "within_end e n \<noteq> None \<Longrightarrow> within_end e n = n"
  by (auto simp: within_end_def split: option.splits if_splits)

lemma within_end_le: "within_end e n = Some u \<Longrightarrow> n = Some u \<and> (case e of None \<Rightarrow> True | Some b \<Rightarrow> u \<le> b)"
  by (auto simp: within_end_def split: option.splits if_splits)

lemma restart_ok:
  assumes "cron_strict lib" "sched_ok t sc"
  shows "sched_ok t (restart (cl_next lib e z t) t sc) \<and> same_runs sc (restart (cl_next lib e z t) t sc)"
proof -
  have "t < u" if "cl_next lib e z t = Some u" for u using assms(1) that by (simp add: cron_strict_def)
  then show ?thesis
    using assms(2)
    by (auto simp: restart_def Let_def sched_ok_def same_runs_def same_terms_def billed_until_def
        runs_exhausted_def within_end_def split: option.splits if_splits)
qed

lemma pause_ok: "sched_ok t sc \<Longrightarrow> pause_change now sc = Inr (sc', ev) \<Longrightarrow> sched_ok t sc' \<and> same_runs sc sc'"
  by (auto simp: pause_change_def sched_ok_def same_runs_def same_terms_def billed_until_def runs_exhausted_def
      split: if_splits option.splits)

lemma cancel_ok: "sched_ok t sc \<Longrightarrow> cancel_change r now sc = Inr (sc', ev) \<Longrightarrow> sched_ok t sc' \<and> same_runs sc sc'"
  by (auto simp: cancel_change_def sched_ok_def same_runs_def same_terms_def billed_until_def runs_exhausted_def
      split: if_splits option.splits)

lemma resume_ok:
  "cron_strict lib \<Longrightarrow> sched_ok t sc \<Longrightarrow> resume_change lib t sc = Inr (sc', ev) \<Longrightarrow> sched_ok t sc' \<and> same_runs sc sc'"
  using restart_ok [of lib t sc "rs_cronExpression sc" "rs_timezone sc"]
  by (auto simp: resume_change_def Let_def nextRunAfter_def split: if_splits)

lemma reschedule_ok:
  assumes "cron_strict lib" "sched_ok t sc" "reschedule_change lib config input clock t sc = Inr (sc', ev)"
  shows "sched_ok t sc' \<and> same_runs sc sc'"
proof -
  have "sched_ok t (sc\<lparr>rs_cronExpression := c, rs_timezone := z\<rparr>)" for c z
    using assms(2) unfolding sched_ok_def billed_until_def runs_exhausted_def
    by (auto split: option.splits)
  note restart_ok [OF assms(1) this]
  moreover have "same_runs (sc\<lparr>rs_cronExpression := c, rs_timezone := z\<rparr>) u = same_runs sc u" for c z u
    by (simp add: same_runs_def same_terms_def)
  ultimately show ?thesis
    using assms(3) by (auto simp: reschedule_change_def Let_def nextRunAfter_def split: if_splits sum.splits)
qed

lemma billed_ok:
  assumes "cron_strict lib" "sched_ok t sc" "rs_nextRunAt sc = Some n" "n \<le> now" "now \<le> t"
    and "rs_status sc = RsActive"
  shows "sched_ok t (billed lib now n sc) \<and> same_terms sc (billed lib now n sc) \<and>
    billed_until (billed lib now n sc) = n \<and> rs_runCount (billed lib now n sc) = rs_runCount sc + 1"
proof -
  have "n < u \<and> n \<le> u" if "cl_next lib e z n = Some u" for e z u
    using assms(1) that by (fastforce simp: cron_strict_def)
  moreover have "rs_createdAt sc \<le> n" using assms by (auto simp: sched_ok_def billed_until_def split: option.splits)
  ultimately show ?thesis
    using assms(2-)
    by (auto simp: billed_def Let_def nextRunAfter_def sched_ok_def same_terms_def billed_until_def
        runs_exhausted_def within_end_def split: option.splits if_splits)
qed

lemma billed_invoices_ok:
  assumes "cron_strict lib" "sched_ok t sc" "rs_nextRunAt sc = Some n" "n \<le> now" "now \<le> t"
    and "rs_status sc = RsActive" and xs: "run_invoices_ok sc xs"
  shows "run_invoices_ok (billed lib now n sc) (xs @ [run_invoice uuid now n sc])"
proof -
  note b = billed_ok [OF assms(1-6)]
  have dues: "map rin_periodStart xs @ [billed_until sc] = rs_createdAt sc # map rin_dueAt xs"
    "sorted_wrt (<) (map rin_dueAt xs)" using xs by (simp_all add: run_invoices_ok_def)
  have start: "rin_periodStart (run_invoice uuid now n sc) = billed_until sc"
    by (simp add: run_invoice_def billed_until_def)
  have "rin_dueAt iv < n" if "iv \<in> set xs" for iv
  proof -
    have ne: "xs \<noteq> []" using that by auto
    have "last (map rin_periodStart xs @ [billed_until sc]) = last (map rin_dueAt xs)"
      unfolding dues(1) using ne by simp
    then have last: "billed_until sc = last (map rin_dueAt xs)" by simp
    have "rs_runCount sc \<noteq> 0" using xs ne by (auto simp: run_invoices_ok_def)
    have l: "rin_dueAt iv \<le> billed_until sc"
      using that dues(2) unfolding last
      by (induction xs) (auto split: if_splits intro: less_imp_le simp: last_map)
    obtain r where "rs_lastRunAt sc = Some r" "r < n" "billed_until sc = r"
      using assms(2,3) \<open>rs_runCount sc \<noteq> 0\<close> by (auto simp: sched_ok_def billed_until_def split: option.splits)
    with l show ?thesis by simp
  qed
  moreover have "run_invoice_ok sc (run_invoice uuid now n sc)"
    using assms(2-4) by (auto simp: run_invoice_ok_def run_invoice_def sched_ok_def)
  moreover have "rs_createdAt (billed lib now n sc) = rs_createdAt sc" using b by (simp add: same_terms_def)
  moreover have "rin_dueAt (run_invoice uuid now n sc) = n" by (simp add: run_invoice_def)
  ultimately show ?thesis
    using xs b start by (auto simp: run_invoices_ok_def same_terms_invoice sorted_wrt_append)
qed

subsection \<open>The service\<close>

lemma rec_save_simps [simp]:
  "rsv_store (rec_save sc events s) = rec_update sc (rsv_store s)"
  "rsv_store (rec_publish events s) = rsv_store s"
  by (simp_all add: rec_save_def rec_publish_def)

lemma listBySchedule_simps [simp]:
  "listBySchedule k (rec_update sc st) = listBySchedule k st"
  "listBySchedule k (createRecurringInvoice iv st) =
     (if k = rin_scheduleId iv then listBySchedule k st @ [iv] else listBySchedule k st)"
  "listBySchedule k (rec_create sc st) = listBySchedule k st"
  by (auto simp: listBySchedule_def rec_update_def createRecurringInvoice_def rec_create_def split: option.split)

lemma rec_findById_createRecurringInvoice [simp]: "rec_findById k (createRecurringInvoice iv st) = rec_findById k st"
  by (simp add: rec_findById_def createRecurringInvoice_def)

lemma rec_wf_simps [simp]:
  "js_wf (rst_schedules st) \<Longrightarrow> js_wf (rst_schedules (rec_update sc st))"
  "js_wf (rst_schedules st) \<Longrightarrow> js_wf (rst_schedules (rec_create sc st))"
  "rst_schedules (createRecurringInvoice iv st) = rst_schedules st"
  by (simp_all add: rec_update_def rec_create_def createRecurringInvoice_def)

definition rec_inv :: "int \<Rightarrow> recurring_store \<Rightarrow> bool" where
  "rec_inv t st \<longleftrightarrow> js_wf (rst_schedules st) \<and>
     (\<forall>k sc. rec_findById k st = Some sc \<longrightarrow> rs_id sc = k \<and> sched_ok t sc \<and> run_invoices_ok sc (listBySchedule k st)) \<and>
     (\<forall>k. rec_findById k st = None \<longrightarrow> listBySchedule k st = [])"

lemma rec_invD:
  "rec_inv t st \<Longrightarrow> rec_findById k st = Some sc \<Longrightarrow>
   rs_id sc = k \<and> sched_ok t sc \<and> run_invoices_ok sc (listBySchedule k st)"
  by (simp add: rec_inv_def)

lemma rec_inv_update:
  assumes "rec_inv t st" "rec_findById k st = Some sc" "sched_ok t sc' \<and> same_runs sc sc'"
  shows "rec_inv t (rec_update sc' st)"
proof -
  have "rs_id sc = k" "run_invoices_ok sc (listBySchedule k st)" using rec_invD [OF assms(1,2)] by simp_all
  moreover have "rs_id sc' = rs_id sc" using assms(3) by (simp add: same_runs_def same_terms_def)
  moreover have "run_invoices_ok sc' (listBySchedule k st)"
    using assms(3) calculation(2) same_runs_invoices [of sc sc'] by blast
  ultimately show ?thesis
    using assms by (auto simp: rec_inv_def rec_updated.fetch_save split: if_splits)
qed

lemma rec_inv_on_schedule:
  assumes "rec_inv t (rsv_store s)"
    and "\<And>sc sc' ev. sched_ok t sc \<Longrightarrow> change sc = Inr (sc', ev) \<Longrightarrow> sched_ok t sc' \<and> same_runs sc sc'"
  shows "rec_inv t (rsv_store (snd (on_schedule tenant sid change s)))"
proof (cases "getSchedule tenant sid s")
  case (Inr sc)
  then have sc: "rec_findById sid (rsv_store s) = Some sc"
    by (auto simp: getSchedule_def split: option.splits if_splits)
  then have "sched_ok t sc" using rec_invD [OF assms(1)] by blast
  then show ?thesis
    using assms(2) [of sc] rec_inv_update [OF assms(1) sc] assms(1)
    by (auto simp: on_schedule_def Inr split: sum.split)
qed (simp add: on_schedule_def assms(1))

lemma createSchedule_inv:
  assumes strict: "cron_strict lib" and inv0: "rec_inv t (rsv_store s)"
    and fresh: "rec_findById uuid (rsv_store s) = None"
  shows "rec_inv t (rsv_store (snd (createSchedule lib uuid input clock t s)))"
proof (cases "validateRecurringSchedule lib (rsv_config s) input clock")
  case (Inr r)
  define from' where "from' = (if t < nrs_startAt r then nrs_startAt r else t)"
  define next' where "next' = within_end (nrs_endAt r)
      (nextRunAfter lib (nrs_cronExpression r) (nrs_timezone r) (from' - 1))"
  have maxRuns: "\<forall>n. nrs_maxRuns r = Some n \<longrightarrow> 1 \<le> n"
    using Inr by (auto simp: validateRecurringSchedule_def Let_def split: if_splits option.splits)
  have "t \<le> u \<and> (\<forall>e. nrs_endAt r = Some e \<longrightarrow> u \<le> e)" if "next' = Some u" for u
  proof -
    have "from' - 1 < u"
      using strict within_end_le [OF that [unfolded next'_def]] by (auto simp: nextRunAfter_def cron_strict_def)
    then show ?thesis using within_end_le [OF that [unfolded next'_def]] by (auto simp: from'_def split: if_splits)
  qed
  then have "rec_inv t (rsv_store (rec_publish ev (s\<lparr>rsv_store := rec_create sc (rsv_store s)\<rparr>)))"
    if "rs_id sc = uuid" "rs_status sc = (if next' \<noteq> None then RsActive else RsCompleted)" "rs_endAt sc = nrs_endAt r"
      "rs_maxRuns sc = nrs_maxRuns r" "rs_runCount sc = 0" "rs_lastRunAt sc = None" "rs_nextRunAt sc = next'"
      "rs_createdAt sc = t" for sc ev
    using that maxRuns inv0 fresh
    by (fastforce simp: rec_inv_def rec_created.fetch_save sched_ok_def run_invoices_ok_def billed_until_def
        runs_exhausted_def split: option.splits)
  then show ?thesis
    by (simp add: createSchedule_def Inr Let_def from'_def [symmetric] next'_def [symmetric])
qed (simp add: createSchedule_def inv0)

text \<open>Billing the schedule that is stored.\<close>

lemma bill_schedule_effect:
  assumes "rec_findById k (rsv_store s) = Some sc" "rs_id sc = k" "is_due now sc"
  shows "rec_findById j (rsv_store (bill_schedule lib uuid now sc s)) =
      (if j = k then Some (billed lib now (the (rs_nextRunAt sc)) sc) else rec_findById j (rsv_store s))"
    and "listBySchedule j (rsv_store (bill_schedule lib uuid now sc s)) =
      listBySchedule j (rsv_store s) @
        (if j = k then [run_invoice uuid now (the (rs_nextRunAt sc)) sc] else [])"
    and "js_wf (rst_schedules (rsv_store s)) \<Longrightarrow>
      js_wf (rst_schedules (rsv_store (bill_schedule lib uuid now sc s)))"
proof -
  obtain n where n: "rs_nextRunAt sc = Some n" using assms(3) by (auto simp: is_due_def split: option.splits)
  have "rs_id (billed lib now n sc) = k" using assms(2) by (simp add: billed_def Let_def)
  moreover have "rin_scheduleId (run_invoice uuid now n sc) = k" using assms(2) by (simp add: run_invoice_def)
  ultimately show "rec_findById j (rsv_store (bill_schedule lib uuid now sc s)) =
      (if j = k then Some (billed lib now (the (rs_nextRunAt sc)) sc) else rec_findById j (rsv_store s))"
    "listBySchedule j (rsv_store (bill_schedule lib uuid now sc s)) =
      listBySchedule j (rsv_store s) @ (if j = k then [run_invoice uuid now (the (rs_nextRunAt sc)) sc] else [])"
    "js_wf (rst_schedules (rsv_store s)) \<Longrightarrow> js_wf (rst_schedules (rsv_store (bill_schedule lib uuid now sc s)))"
    by (simp_all add: bill_schedule_def n Let_def rec_updated.fetch_save)
qed

lemma bill_schedule_inv:
  assumes "cron_strict lib" "rec_inv t (rsv_store s)" "now \<le> t"
    and "rec_findById k (rsv_store s) = Some sc" "is_due now sc"
  shows "rec_inv t (rsv_store (bill_schedule lib uuid now sc s))"
proof -
  note ok = rec_invD [OF assms(2,4)]
  obtain n where n: "rs_nextRunAt sc = Some n" "n \<le> now" "rs_status sc = RsActive"
    using assms(5) by (auto simp: is_due_def split: option.splits)
  note eff = bill_schedule_effect [OF assms(4) conjunct1 [OF ok] assms(5)]
  have "rs_id (billed lib now n sc) = k" using ok by (simp add: billed_def Let_def)
  moreover have "sched_ok t (billed lib now n sc)" using billed_ok assms(1,3) ok n by blast
  moreover have "run_invoices_ok (billed lib now n sc) (listBySchedule k (rsv_store s) @ [run_invoice uuid now n sc])"
    using billed_invoices_ok assms(1,3) ok n by blast
  ultimately show ?thesis
    using assms(2,4) n(1) eff by (auto simp: rec_inv_def)
qed

text \<open>The loop over the due schedules, each of which is still as it was read.\<close>

lemma bill_all_effect:
  assumes "distinct (map rs_id due)"
    and "\<And>sc. sc \<in> set due \<Longrightarrow> rec_findById (rs_id sc) (rsv_store s) = Some sc \<and> is_due now sc"
  shows "(sc \<in> set due \<longrightarrow> (\<exists>j. rec_findById (rs_id sc) (rsv_store (bill_all lib ids now i due s)) =
        Some (billed lib now (the (rs_nextRunAt sc)) sc) \<and>
      listBySchedule (rs_id sc) (rsv_store (bill_all lib ids now i due s)) =
        listBySchedule (rs_id sc) (rsv_store s) @ [run_invoice (ids j) now (the (rs_nextRunAt sc)) sc])) \<and>
    (k \<notin> rs_id ` set due \<longrightarrow> rec_findById k (rsv_store (bill_all lib ids now i due s)) = rec_findById k (rsv_store s) \<and>
      listBySchedule k (rsv_store (bill_all lib ids now i due s)) = listBySchedule k (rsv_store s))"
  using assms
proof (induction due arbitrary: i s sc k)
  case (Cons a due)
  let ?s1 = "bill_schedule lib (ids i) now a s"
  have a: "rec_findById (rs_id a) (rsv_store s) = Some a" "is_due now a" using Cons.prems(2) by simp_all
  note eff = bill_schedule_effect [OF a(1) refl a(2), where lib = lib and uuid = "ids i"]
  have na: "rs_id sc' \<noteq> rs_id a" if "sc' \<in> set due" for sc'
    using Cons.prems(1) imageI [OF that, of rs_id] by auto
  have later: "rec_findById (rs_id sc') (rsv_store ?s1) = Some sc' \<and> is_due now sc'" if "sc' \<in> set due" for sc'
    using Cons.prems(2) [of sc'] that na [OF that] by (simp add: eff)
  note IH = Cons.IH [OF _ later, of _ "Suc i"]
  have dist: "distinct (map rs_id due)" and notin: "rs_id a \<notin> rs_id ` set due" using Cons.prems(1) by simp_all
  show ?case
    using IH [OF dist, of sc k] IH [OF dist, of a "rs_id a"] notin na
    by (auto simp: eff)
qed simp

lemma bill_all_inv:
  assumes "cron_strict lib" "now \<le> t" "rec_inv t (rsv_store s)" "distinct (map rs_id due)"
    and "\<And>sc. sc \<in> set due \<Longrightarrow> rec_findById (rs_id sc) (rsv_store s) = Some sc \<and> is_due now sc"
  shows "rec_inv t (rsv_store (bill_all lib ids now i due s))"
  using assms(3-)
proof (induction due arbitrary: i s)
  case (Cons a due)
  let ?s1 = "bill_schedule lib (ids i) now a s"
  have a: "rec_findById (rs_id a) (rsv_store s) = Some a" "is_due now a" using Cons.prems(3) by simp_all
  note eff = bill_schedule_effect [OF a(1) refl a(2), where lib = lib and uuid = "ids i"]
  have later: "rec_findById (rs_id sc') (rsv_store ?s1) = Some sc' \<and> is_due now sc'" if "sc' \<in> set due" for sc'
  proof -
    have "rs_id sc' \<noteq> rs_id a" using Cons.prems(2) imageI [OF that, of rs_id] by auto
    then show ?thesis using Cons.prems(3) [of sc'] that by (simp add: eff)
  qed
  have "rec_inv t (rsv_store ?s1)"
    by (rule bill_schedule_inv [OF assms(1) Cons.prems(1) assms(2) a])
  then show ?case using Cons.IH [OF _ _ later] Cons.prems(2) by simp
qed simp

lemma findDue_stored:
  assumes "rec_inv t st"
  shows "distinct (map rs_id (findDue None now st))"
    "sc \<in> set (findDue None now st) \<longleftrightarrow> rec_findById (rs_id sc) st = Some sc \<and> is_due now sc"
proof -
  have ids: "js_all (\<lambda>k sc. rs_id sc = k) (rst_schedules st)" and wf: "js_wf (rst_schedules st)"
    using assms by (auto simp: rec_inv_def rec_findById_def entries_sat_def)
  have "distinct (map rs_id (js_values (rst_schedules st)))"
    by (rule js_values_ids_distinct [OF wf ids])
  then have "distinct (map rs_id (filter (is_due now) (js_values (rst_schedules st))))"
    by (simp add: distinct_map_filter)
  moreover have "distinct (map rs_id (sort_key f xs))" if "distinct (map rs_id xs)" for f :: "_ \<Rightarrow> int \<times> string" and xs
    using that by (simp add: distinct_map)
  ultimately show "distinct (map rs_id (findDue None now st))" by (simp add: findDue_def truthy_def)
  show "sc \<in> set (findDue None now st) \<longleftrightarrow> rec_findById (rs_id sc) st = Some sc \<and> is_due now sc"
    using ids by (auto simp: findDue_def truthy_def in_js_values [OF wf] rec_findById_def entries_sat_def)
qed

lemma rec_run_inv: "rec_run lib t s \<Longrightarrow> cron_strict lib \<Longrightarrow> rec_inv t (rsv_store s)"
proof (induction rule: rec_run.induct)
  case (rr_init t config)
  then show ?case by (simp add: rec_inv_def rec_init_def rec_findById_def listBySchedule_def)
next
  case (rr_wait t s t')
  then show ?case using sched_ok_mono [of t _ t'] by (fastforce simp: rec_inv_def)
next
  case (rr_create t s uuid input clock)
  then show ?case by (intro createSchedule_inv) simp_all
next
  case (rr_pause t s tenant sid)
  then show ?case unfolding pauseSchedule_def by (intro rec_inv_on_schedule) (auto dest: pause_ok)
next
  case (rr_resume t s tenant sid)
  then show ?case unfolding resumeSchedule_def by (intro rec_inv_on_schedule) (auto dest: resume_ok)
next
  case (rr_cancel t s tenant sid reason)
  then show ?case unfolding cancelSchedule_def by (intro rec_inv_on_schedule) (auto dest: cancel_ok)
next
  case (rr_reschedule t s tenant sid rinput clock)
  then show ?case unfolding reschedule_def by (intro rec_inv_on_schedule) (auto dest: reschedule_ok)
next
  case (rr_due t s now ids)
  then have inv0: "rec_inv t (rsv_store s)" by simp
  show ?case
    using bill_all_inv [OF rr_due.prems rr_due.hyps(2) inv0 findDue_stored(1) [OF inv0]] findDue_stored(2) [OF inv0]
    by (simp add: runDue_def Let_def)
qed

lemma runDue_effect:
  assumes "rec_run lib t s" "cron_strict lib" "rec_findById k (rsv_store s) = Some sc"
  shows "let s' = snd (runDue lib ids (Some now) s) in
    if is_due now sc
    then \<exists>j. rec_findById k (rsv_store s') = Some (billed lib now (the (rs_nextRunAt sc)) sc) \<and>
      listBySchedule k (rsv_store s') =
        listBySchedule k (rsv_store s) @ [run_invoice (ids j) now (the (rs_nextRunAt sc)) sc]
    else rec_findById k (rsv_store s') = Some sc \<and> listBySchedule k (rsv_store s') = listBySchedule k (rsv_store s)"
proof -
  have inv0: "rec_inv t (rsv_store s)" by (rule rec_run_inv [OF assms(1,2)])
  have id: "rs_id sc = k" using rec_invD [OF inv0 assms(3)] by simp
  have due: "sc \<in> set (findDue None now (rsv_store s)) \<longleftrightarrow> is_due now sc"
    using findDue_stored(2) [OF inv0] assms(3) id by simp
  have "k \<notin> rs_id ` set (findDue None now (rsv_store s))" if "\<not> is_due now sc"
    using findDue_stored(2) [OF inv0] assms(3) that by auto
  then show ?thesis
    using bill_all_effect [OF findDue_stored(1) [OF inv0], of now s now sc lib ids 0 k]
      findDue_stored(2) [OF inv0] due id assms(3)
    by (auto simp: runDue_def Let_def)
qed

lemma runDue_new:
  assumes "rec_run lib t s" "cron_strict lib" "rec_findById k (rsv_store s) = None"
  shows "rec_findById k (rsv_store (snd (runDue lib ids (Some now) s))) = None"
proof -
  have inv0: "rec_inv t (rsv_store s)" by (rule rec_run_inv [OF assms(1,2)])
  have "k \<notin> rs_id ` set (findDue None now (rsv_store s))"
    using findDue_stored(2) [OF inv0] assms(3) by auto
  then show ?thesis
    using bill_all_effect [OF findDue_stored(1) [OF inv0], of now s now undefined lib ids 0 k]
      findDue_stored(2) [OF inv0] assms(3)
    by (simp add: runDue_def Let_def)
qed

subsection \<open>Properties\<close>

text \<open>A cadence of ten milliseconds, a schedule on it from time 5 on with two runs, and a sweep at 12.\<close>

definition every_ten :: cron_lib where
  "every_ten = \<lparr>cl_parses = (\<lambda>_ _. True), cl_next = (\<lambda>_ _ a. Some (a + 10)), cl_zone = (\<lambda>_. True)\<rparr>"

lemma every_ten_strict: "cron_strict every_ten"
  by (simp add: cron_strict_def every_ten_def)

definition rec_demo_input :: "int \<Rightarrow> CreateRecurringScheduleInput" where
  "rec_demo_input start = \<lparr>crs_tenantId = ''t'', crs_customerId = ''c'', crs_amount = 5, crs_currency = None,
     crs_cronExpression = None, crs_preset = None, crs_timezone = None, crs_startAt = Some (Some start),
     crs_endAt = None, crs_maxRuns = Some 2, crs_merchantId = None, crs_name = None, crs_metadata = None\<rparr>"

definition rec_demo0 :: "int \<Rightarrow> recurring_service" where
  "rec_demo0 start =
     snd (createSchedule every_ten ''s'' (rec_demo_input start) 0 0 (rec_init DEFAULT_RECURRING_BILLING_CONFIG))"

definition rec_demo1 :: recurring_service where
  "rec_demo1 = snd (runDue every_ten (\<lambda>_. ''i'') (Some 12) (rec_demo0 0))"

definition rec_demo_schedule :: RecurringSchedule where
  "rec_demo_schedule = (case getSchedule ''t'' ''s'' rec_demo1 of Inr sc \<Rightarrow> sc | Inl _ \<Rightarrow> undefined)"

lemma rec_demo0_run: "rec_run every_ten 0 (rec_demo0 start)"
  unfolding rec_demo0_def
  by (rule rr_create, rule rr_init) (simp add: rec_init_def rec_findById_def)

lemma rec_demo1_run: "rec_run every_ten 12 rec_demo1"
  unfolding rec_demo1_def by (rule rr_due, rule rr_wait, rule rec_demo0_run) simp_all



text \<open>
  A sweep bills exactly the schedules that are due: each gets one new invoice, due at its next
  run, and moves on to its next run or is completed; every other schedule and its invoices are left
  alone.
\<close>

lemma sweep_bills_due_once:
  assumes "cron_strict lib" and "rec_run lib t s" and "rec_findById k (rsv_store s) = Some sc"
  shows "\<exists>sc' new. rec_findById k (rsv_store (snd (runDue lib ids (Some now) s))) = Some sc' \<and>
     listBySchedule k (rsv_store (snd (runDue lib ids (Some now) s))) = listBySchedule k (rsv_store s) @ new \<and>
     (if rs_status sc = RsActive \<and> (\<exists>n. rs_nextRunAt sc = Some n \<and> n \<le> now)
      then map rin_dueAt new = [the (rs_nextRunAt sc)] \<and> map rin_amount new = [rs_amount sc] \<and>
        rs_runCount sc' = rs_runCount sc + 1 \<and> rs_lastRunAt sc' = rs_nextRunAt sc \<and>
        (rs_status sc' = RsCompleted \<and> rs_nextRunAt sc' = None \<or>
         rs_status sc' = RsActive \<and> rs_nextRunAt sc' =
           cl_next lib (rs_cronExpression sc) (rs_timezone sc) (the (rs_nextRunAt sc)))
      else new = [] \<and> sc' = sc)"
proof -
  have due: "is_due now sc \<longleftrightarrow> rs_status sc = RsActive \<and> (\<exists>n. rs_nextRunAt sc = Some n \<and> n \<le> now)"
    by (auto simp: is_due_def split: option.splits)
  show ?thesis
  proof (cases "is_due now sc")
    case True
    obtain j where "rec_findById k (rsv_store (snd (runDue lib ids (Some now) s))) =
        Some (billed lib now (the (rs_nextRunAt sc)) sc)"
      "listBySchedule k (rsv_store (snd (runDue lib ids (Some now) s))) =
        listBySchedule k (rsv_store s) @ [run_invoice (ids j) now (the (rs_nextRunAt sc)) sc]"
      using runDue_effect [OF assms(2,1,3), of ids now] True by (auto simp: Let_def)
    then show ?thesis
      using True unfolding due [symmetric]
      by (auto simp: billed_def run_invoice_def Let_def nextRunAfter_def is_due_def split: option.splits)
  next
    case False
    then show ?thesis
      using runDue_effect [OF assms(2,1,3), of ids now] unfolding due [symmetric] by (simp add: Let_def)
  qed
qed

lemma sweep_bills_due_once_witness:
  "\<exists>sc'. rec_findById ''s'' (rsv_store (snd (runDue every_ten (\<lambda>_. ''j'') (Some 19) rec_demo1))) = Some sc' \<and>
     rs_runCount sc' = 2"
proof -
  have "rec_findById ''s'' (rsv_store rec_demo1) = Some rec_demo_schedule" by code_simp
  note * = sweep_bills_due_once [OF every_ten_strict rec_demo1_run this, of "\<lambda>_. ''j''" 19]
  have "rs_status rec_demo_schedule = RsActive" "rs_nextRunAt rec_demo_schedule = Some 19"
    "rs_runCount rec_demo_schedule = 1" by code_simp+
  with * show ?thesis by auto
qed

text \<open>With every sweep the runs that are still due have moved on by at least a millisecond.\<close>

abbreviation after_sweeps :: "cron_lib \<Rightarrow> (nat \<Rightarrow> string) \<Rightarrow> int \<Rightarrow> nat \<Rightarrow> recurring_service \<Rightarrow> recurring_service" where
  "after_sweeps lib ids t m \<equiv> ((\<lambda>s. snd (runDue lib ids (Some t) s)) ^^ m)"

lemma after_sweeps_run: "rec_run lib t s \<Longrightarrow> rec_run lib t (after_sweeps lib ids t m s)"
  by (induction m) (auto intro: rr_due)

lemma next_runs_bounded: "\<exists>lo. \<forall>sc\<in>set xs. \<forall>n. rs_nextRunAt sc = Some n \<longrightarrow> lo \<le> n"
proof (induction xs)
  case (Cons sc xs)
  then obtain lo where "\<forall>sc\<in>set xs. \<forall>n. rs_nextRunAt sc = Some n \<longrightarrow> lo \<le> n" by blast
  then show ?case
    by (intro exI [of _ "min lo (case rs_nextRunAt sc of Some n \<Rightarrow> n | None \<Rightarrow> lo)"]) fastforce
qed simp

lemma due_moves_on:
  assumes lib: "cron_strict lib" and run: "rec_run lib t s"
    and lo: "\<forall>sc\<in>set (js_values (rst_schedules (rsv_store s))). \<forall>n. rs_nextRunAt sc = Some n \<longrightarrow> lo \<le> n"
    and "rec_findById k (rsv_store (after_sweeps lib ids t m s)) = Some sc" "is_due t sc" "rs_nextRunAt sc = Some n"
  shows "lo + int m \<le> n"
  using assms(4-6)
proof (induction m arbitrary: k sc n)
  case 0
  have "js_wf (rst_schedules (rsv_store s))" using rec_run_inv [OF run lib] by (simp add: rec_inv_def)
  then show ?case using lo 0 by (auto simp: in_js_values rec_findById_def)
next
  case (Suc m)
  note run' = after_sweeps_run [OF run, where ids = ids and m = m]
  obtain sc0 where sc0: "rec_findById k (rsv_store (after_sweeps lib ids t m s)) = Some sc0"
    using runDue_new [OF run' lib, of k ids t] Suc.prems(1)
    by (cases "rec_findById k (rsv_store (after_sweeps lib ids t m s))") auto
  note eff = runDue_effect [OF run' lib sc0, of ids t]
  have d0: "is_due t sc0" using eff Suc.prems by (auto simp: Let_def split: if_splits)
  then obtain n0 where n0: "rs_nextRunAt sc0 = Some n0" by (auto simp: is_due_def split: option.splits)
  have "sc = billed lib t n0 sc0" using eff d0 Suc.prems(1) n0 by (auto simp: Let_def)
  then have "cl_next lib (rs_cronExpression sc0) (rs_timezone sc0) n0 = Some n"
    using Suc.prems(3) by (auto simp: billed_def Let_def nextRunAfter_def split: if_splits)
  then have "n0 < n" using lib by (simp add: cron_strict_def)
  moreover have "lo + int m \<le> n0" by (rule Suc.IH [OF sc0 d0 n0])
  ultimately show ?case by simp
qed

text \<open>
  C21: Sweeps that are repeated for one time catch up: after finitely many of them no schedule is due.
\<close>

theorem sweeps_catch_up:
  assumes "cron_strict lib" and "rec_run lib t s"
  shows "\<exists>m. findDue None t (rsv_store (((\<lambda>s. snd (runDue lib ids (Some t) s)) ^^ m) s)) = []"
proof -
  obtain lo where lo: "\<forall>sc\<in>set (js_values (rst_schedules (rsv_store s))).
      \<forall>n. rs_nextRunAt sc = Some n \<longrightarrow> lo \<le> n" using next_runs_bounded by blast
  let ?m = "nat (t - lo) + 1"
  have "sc \<notin> set (findDue None t (rsv_store (after_sweeps lib ids t ?m s)))" for sc
  proof
    assume "sc \<in> set (findDue None t (rsv_store (after_sweeps lib ids t ?m s)))"
    then have sc: "rec_findById (rs_id sc) (rsv_store (after_sweeps lib ids t ?m s)) = Some sc" "is_due t sc"
      using findDue_stored(2) [OF rec_run_inv [OF after_sweeps_run [OF assms(2)] assms(1)]] by blast+
    then obtain n where n: "rs_nextRunAt sc = Some n" "n \<le> t"
      by (auto simp: is_due_def split: option.splits)
    show False using due_moves_on [OF assms lo sc n(1)] n(2) by (simp split: if_splits)
  qed
  then have "findDue None t (rsv_store (after_sweeps lib ids t ?m s)) = []" by (metis hd_in_set)
  then show ?thesis by blast
qed

theorem sweeps_catch_up_witness:
  "\<exists>m. findDue None 12 (rsv_store (((\<lambda>s. snd (runDue every_ten (\<lambda>_. ''i'') (Some 12) s)) ^^ m) rec_demo1)) = []"
  by (rule sweeps_catch_up [OF every_ten_strict rec_demo1_run])

text \<open>
  A sweep reads the due schedules once and writes each copy back later: a cancellation in between is
  undone, and two sweeps that overlap bill one run twice.
\<close>

lemma overlapping_sweeps_misbill:
  "let sc = hd (findDue None 12 (rsv_store (rec_demo0 0)));
       cancelled = snd (cancelSchedule ''t'' ''s'' None 12 (rec_demo0 0));
       after = bill_schedule every_ten ''i'' 12 sc cancelled;
       twice = bill_schedule every_ten ''j'' 12 sc (bill_schedule every_ten ''i'' 12 sc (rec_demo0 0))
   in map_option rs_status (rec_findById ''s'' (rsv_store cancelled)) = Some RsCancelled \<and>
      map_option rs_status (rec_findById ''s'' (rsv_store after)) = Some RsActive \<and>
      map rin_dueAt (listBySchedule ''s'' (rsv_store twice)) = [9, 9] \<and>
      map_option rs_runCount (rec_findById ''s'' (rsv_store twice)) = Some 1"
  by code_simp

text \<open>A schedule that starts at 1000 bills from 12 on after it was paused and resumed.\<close>

lemma resume_forgets_start:
  "let s = snd (resumeSchedule every_ten ''t'' ''s'' 2 (snd (pauseSchedule ''t'' ''s'' 1 (rec_demo0 1000))))
   in map_option (\<lambda>sc. (rs_startAt sc, rs_nextRunAt sc, rs_status sc)) (rec_findById ''s'' (rsv_store s)) =
      Some (1000, Some 12, RsActive)"
  by code_simp

text \<open>Changing the cadence of a paused schedule resumes it.\<close>

lemma reschedule_resumes:
  "let s = snd (reschedule every_ten ''t'' ''s'' \<lparr>rsi_cronExpression = None, rsi_preset = Some Daily, rsi_timezone = None\<rparr>
        2 2 (snd (pauseSchedule ''t'' ''s'' 1 (rec_demo0 0))))
   in map_option rs_status (rec_findById ''s'' (rsv_store s)) = Some RsActive"
  by code_simp

end
