(* ===== verification/JobQueue.thy ===== *)
theory JobQueue
  imports Js "HOL-Library.List_Lexorder" "HOL-Library.Char_ord" "HOL-Library.Product_Lexorder"
begin

text \<open>
  \<open>backend/src/services/job-queue/\<close>: a background job queue with retries (\<open>jobQueue.ts\<close>), the delays
  between them (\<open>backoff.ts\<close>) and the types (\<open>types.ts\<close>). Job handlers are code of the caller: the
  queue keeps them by name, and \<open>outcome\<close> says whether an attempt of a handler resolves (\<open>None\<close>) or
  rejects with a message. An attempt is two steps, up to the \<open>await\<close> of the handler and from it on.
  \<open>times\<close> are the readings of the clock at the two ends of an attempt and \<open>random\<close> the random number
  of its jitter, by job and attempt. The timer of \<open>start\<close> and \<open>stop\<close> only calls \<open>drain\<close>.
\<close>

subsection \<open>Types\<close>

datatype JobState = JobPending | JobProcessing | JobCompleted | JobFailed | JobDead

record RetryPolicy =
  rp_maxAttempts :: int
  rp_initialDelayMs :: rat
  rp_maxDelayMs :: rat
  rp_multiplier :: rat
  rp_jitter :: bool

record JobContext =
  jc_jobId :: string
  jc_name :: string
  jc_attempt :: int

record 'p JobRecord =
  jr_id :: string
  jr_name :: string
  jr_payload :: 'p
  jr_state :: JobState
  jr_attempts :: int
  jr_maxAttempts :: int
  jr_createdAt :: int
  jr_updatedAt :: int
  jr_startedAt :: "int option"
  jr_finishedAt :: "int option"
  jr_lastError :: "string option"
  jr_nextAttemptAt :: "int option"

record 'p DeadLetterEntry =
  dl_job :: "'p JobRecord"
  dl_failedAt :: int
  dl_reason :: string

record JobQueueMetrics =
  jm_pending :: nat
  jm_processing :: nat
  jm_completed :: nat
  jm_failed :: nat
  jm_dead :: nat
  jm_totalEnqueued :: nat
  jm_totalCompleted :: nat
  jm_totalDeadLettered :: nat

datatype JobQueueEventType =
  JobEnqueuedEvent | JobStartedEvent | JobCompletedEvent | JobFailedEvent | JobRetryingEvent | JobDeadLetteredEvent

record JobQueueEvent =
  je_type :: JobQueueEventType
  je_jobId :: string
  je_name :: string
  je_attempt :: int
  je_occurredAt :: int
  je_error :: "string option"

record JobQueueSummary =
  js_processed :: nat
  js_completed :: nat
  js_retried :: nat
  js_deadLettered :: nat

record JobFilter =
  jf_state :: "JobState option"
  jf_name :: "string option"

text \<open>The errors that are thrown.\<close>

datatype job_error =
    JobNameRequired | UnknownJob string
  | FailedAttemptTooSmall | MaxAttemptsTooSmall | BackoffNegative | MultiplierTooSmall

subsection \<open>Backoff\<close>

definition DEFAULT_RETRY_POLICY :: RetryPolicy where
  "DEFAULT_RETRY_POLICY =
     \<lparr>rp_maxAttempts = 3, rp_initialDelayMs = 1000, rp_maxDelayMs = 60000, rp_multiplier = 2, rp_jitter = False\<rparr>"

definition computeBackoffDelayMs :: "int \<Rightarrow> RetryPolicy \<Rightarrow> rat \<Rightarrow> job_error + int" where
  "computeBackoffDelayMs failedAttempt policy random =
     (if failedAttempt < 1 then Inl FailedAttemptTooSmall
      else if rp_maxAttempts policy < 1 then Inl MaxAttemptsTooSmall
      else if rp_initialDelayMs policy < 0 \<or> rp_maxDelayMs policy < 0 then Inl BackoffNegative
      else if rp_multiplier policy < 1 then Inl MultiplierTooSmall
      else
        let exponential = rp_initialDelayMs policy * rp_multiplier policy ^ nat (failedAttempt - 1);
            capped = min exponential (rp_maxDelayMs policy);
            delay = (if rp_jitter policy then capped * random else capped)
        in Inr (max 0 \<lfloor>delay + 1 / 2\<rfloor>))"

definition canRetry :: "int \<Rightarrow> RetryPolicy \<Rightarrow> bool" where
  "canRetry attempts policy \<longleftrightarrow> attempts < rp_maxAttempts policy"

subsection \<open>The queue\<close>

record ('p, 'h) job_queue =
  jq_handlers :: "(string, 'h) jsmap"
  jq_jobs :: "(string, 'p JobRecord) jsmap"
  jq_deadLetters :: "'p DeadLetterEntry list"
  jq_retry :: RetryPolicy
  jq_totalEnqueued :: nat
  jq_totalCompleted :: nat
  jq_totalFailedAttempts :: nat
  jq_totalDeadLettered :: nat
  jq_events :: "JobQueueEvent list"

definition new_job_queue :: "RetryPolicy \<Rightarrow> ('p, 'h) job_queue" where
  "new_job_queue retry =
     \<lparr>jq_handlers = [], jq_jobs = [], jq_deadLetters = [], jq_retry = retry, jq_totalEnqueued = 0,
      jq_totalCompleted = 0, jq_totalFailedAttempts = 0, jq_totalDeadLettered = 0, jq_events = []\<rparr>"

definition emit_job ::
  "JobQueueEventType \<Rightarrow> 'p JobRecord \<Rightarrow> int \<Rightarrow> string option \<Rightarrow> ('p, 'h) job_queue \<Rightarrow> ('p, 'h) job_queue" where
  "emit_job ty job attempt error q =
     q\<lparr>jq_events := jq_events q @ [\<lparr>je_type = ty, je_jobId = jr_id job, je_name = jr_name job,
         je_attempt = attempt, je_occurredAt = jr_updatedAt job, je_error = error\<rparr>]\<rparr>"

text \<open>Assignments to the fields of a job, which the map holds by reference.\<close>

definition set_job :: "'p JobRecord \<Rightarrow> ('p, 'h) job_queue \<Rightarrow> ('p, 'h) job_queue" where
  "set_job job q = q\<lparr>jq_jobs := js_set (jr_id job) job (jq_jobs q)\<rparr>"

definition registerHandler :: "string \<Rightarrow> 'h \<Rightarrow> (('p, 'h) job_queue, job_error, unit) op" where
  "registerHandler name handler q =
     (if name = [] then (Inl JobNameRequired, q)
      else (Inr (), q\<lparr>jq_handlers := js_set name handler (jq_handlers q)\<rparr>))"

definition hasHandler :: "string \<Rightarrow> ('p, 'h) job_queue \<Rightarrow> bool" where
  "hasHandler name q \<longleftrightarrow> js_get (jq_handlers q) name \<noteq> None"

definition enqueue ::
  "string \<Rightarrow> string \<Rightarrow> 'p \<Rightarrow> int \<Rightarrow> (('p, 'h) job_queue, job_error, 'p JobRecord) op" where
  "enqueue uuid name payload now q =
     (if js_get (jq_handlers q) name = None then (Inl (UnknownJob name), q)
      else
        let job = \<lparr>jr_id = uuid, jr_name = name, jr_payload = payload, jr_state = JobPending,
              jr_attempts = 0, jr_maxAttempts = rp_maxAttempts (jq_retry q), jr_createdAt = now,
              jr_updatedAt = now, jr_startedAt = None, jr_finishedAt = None, jr_lastError = None,
              jr_nextAttemptAt = None\<rparr>
        in (Inr job, emit_job JobEnqueuedEvent job 0 None
              ((set_job job q)\<lparr>jq_totalEnqueued := jq_totalEnqueued q + 1\<rparr>)))"

definition getJob :: "string \<Rightarrow> ('p, 'h) job_queue \<Rightarrow> 'p JobRecord option" where
  "getJob i q = js_get (jq_jobs q) i"

definition listJobs :: "JobFilter \<Rightarrow> ('p, 'h) job_queue \<Rightarrow> 'p JobRecord list" where
  "listJobs flt q =
     sort_key (\<lambda>job. (jr_createdAt job, jr_id job))
       (filter (\<lambda>job. \<not> truthy (jf_name flt) \<or> Some (jr_name job) = jf_name flt)
       (filter (\<lambda>job. case jf_state flt of None \<Rightarrow> True | Some st \<Rightarrow> jr_state job = st)
         (js_values (jq_jobs q))))"

definition getDeadLetters :: "('p, 'h) job_queue \<Rightarrow> 'p DeadLetterEntry list" where
  "getDeadLetters q = jq_deadLetters q"

text \<open>\<open>splice(findIndex(...), 1)\<close>\<close>

fun remove_first :: "('a \<Rightarrow> bool) \<Rightarrow> 'a list \<Rightarrow> 'a list" where
  "remove_first P [] = []"
| "remove_first P (x # xs) = (if P x then xs else x # remove_first P xs)"

definition requeueDeadLetter ::
  "string \<Rightarrow> int \<Rightarrow> ('p, 'h) job_queue \<Rightarrow> 'p JobRecord option \<times> ('p, 'h) job_queue" where
  "requeueDeadLetter jobId now q =
     (let here = (\<lambda>e. jr_id (dl_job e) = jobId)
      in case find here (jq_deadLetters q) of
        None \<Rightarrow> (None, q)
      | Some entry \<Rightarrow>
          let q = q\<lparr>jq_deadLetters := remove_first here (jq_deadLetters q)\<rparr>
          in case js_get (jq_jobs q) jobId of
            None \<Rightarrow> (None, q)
          | Some job \<Rightarrow>
              let job = job\<lparr>jr_state := JobPending, jr_attempts := 0, jr_nextAttemptAt := None,
                    jr_lastError := None, jr_finishedAt := None, jr_updatedAt := now\<rparr>
              in (Some job, emit_job JobEnqueuedEvent job 0 None (set_job job q)))"

definition count_state :: "JobState \<Rightarrow> ('p, 'h) job_queue \<Rightarrow> nat" where
  "count_state st q = length (filter (\<lambda>job. jr_state job = st) (js_values (jq_jobs q)))"

definition job_metrics :: "('p, 'h) job_queue \<Rightarrow> JobQueueMetrics" where
  "job_metrics q =
     \<lparr>jm_pending = count_state JobPending q, jm_processing = count_state JobProcessing q,
      jm_completed = count_state JobCompleted q, jm_failed = jq_totalFailedAttempts q,
      jm_dead = count_state JobDead q, jm_totalEnqueued = jq_totalEnqueued q,
      jm_totalCompleted = jq_totalCompleted q, jm_totalDeadLettered = jq_totalDeadLettered q\<rparr>"

definition eligible :: "int \<Rightarrow> string list \<Rightarrow> 'p JobRecord \<Rightarrow> bool" where
  "eligible now exclude job \<longleftrightarrow>
     jr_state job = JobPending \<and> jr_id job \<notin> set exclude \<and>
     (case jr_nextAttemptAt job of None \<Rightarrow> True | Some t \<Rightarrow> t \<le> now)"

definition nextEligible :: "int \<Rightarrow> string list \<Rightarrow> ('p, 'h) job_queue \<Rightarrow> 'p JobRecord option" where
  "nextEligible now exclude q = find (eligible now exclude) (js_values (jq_jobs q))"

definition deadLetter ::
  "'p JobRecord \<Rightarrow> int \<Rightarrow> string \<Rightarrow> int \<Rightarrow> ('p, 'h) job_queue \<Rightarrow> ('p, 'h) job_queue" where
  "deadLetter job now reason clock q =
     (let job = job\<lparr>jr_state := JobDead, jr_lastError := Some reason, jr_finishedAt := Some clock,
            jr_updatedAt := clock, jr_nextAttemptAt := None\<rparr>
      in emit_job JobDeadLetteredEvent job (jr_attempts job) (Some reason)
           ((set_job job q)\<lparr>jq_totalDeadLettered := jq_totalDeadLettered q + 1,
             jq_deadLetters := jq_deadLetters q @ [\<lparr>dl_job = job, dl_failedAt = now, dl_reason = reason\<rparr>]\<rparr>))"

text \<open>An attempt up to the call of the handler: without one, the job is dead at once.\<close>

definition begin_attempt :: "'p JobRecord \<Rightarrow> int \<Rightarrow> 'p JobRecord" where
  "begin_attempt job clock =
     job\<lparr>jr_state := JobProcessing, jr_attempts := jr_attempts job + 1, jr_startedAt := Some clock,
       jr_updatedAt := clock\<rparr>"

definition start_attempt ::
  "'p JobRecord \<Rightarrow> int \<Rightarrow> int \<Rightarrow> ('p, 'h) job_queue \<Rightarrow> 'p JobRecord option \<times> ('p, 'h) job_queue" where
  "start_attempt job now clock q =
     (case js_get (jq_handlers q) (jr_name job) of
        None \<Rightarrow> (None, deadLetter job now (''No handler registered for \"'' @ jr_name job @ ''\"'') clock q)
      | Some handler \<Rightarrow>
          let job = begin_attempt job clock
          in (Some job, emit_job JobStartedEvent job (jr_attempts job) None (set_job job q)))"

text \<open>The attempt after the handler has resolved, or rejected with a message.\<close>

definition attempt_resolved :: "'p JobRecord \<Rightarrow> int \<Rightarrow> ('p, 'h) job_queue \<Rightarrow> ('p, 'h) job_queue" where
  "attempt_resolved job clock q =
     (let job = job\<lparr>jr_state := JobCompleted, jr_finishedAt := Some clock, jr_updatedAt := clock,
            jr_lastError := None, jr_nextAttemptAt := None\<rparr>
      in emit_job JobCompletedEvent job (jr_attempts job) None
           ((set_job job q)\<lparr>jq_totalCompleted := jq_totalCompleted q + 1\<rparr>))"

definition attempt_rejected ::
  "'p JobRecord \<Rightarrow> int \<Rightarrow> string \<Rightarrow> int \<Rightarrow> rat \<Rightarrow> (('p, 'h) job_queue, job_error, unit) op" where
  "attempt_rejected job now message clock random q =
     (let job = job\<lparr>jr_lastError := Some message, jr_updatedAt := clock\<rparr>;
          q = emit_job JobFailedEvent job (jr_attempts job) (Some message)
                ((set_job job q)\<lparr>jq_totalFailedAttempts := jq_totalFailedAttempts q + 1\<rparr>)
      in if canRetry (jr_attempts job) (jq_retry q)
         then
           (case computeBackoffDelayMs (jr_attempts job) (jq_retry q) random of
              Inl e \<Rightarrow> (Inl e, q)
            | Inr delay \<Rightarrow>
                let job = job\<lparr>jr_state := JobPending, jr_nextAttemptAt := Some (now + delay)\<rparr>
                in (Inr (), emit_job JobRetryingEvent job (jr_attempts job) (Some message) (set_job job q)))
         else (Inr (), deadLetter job now message clock q))"

definition finish_attempt ::
  "'p JobRecord \<Rightarrow> int \<Rightarrow> string option \<Rightarrow> int \<Rightarrow> rat \<Rightarrow> (('p, 'h) job_queue, job_error, unit) op" where
  "finish_attempt job now result clock random q =
     (case result of
        None \<Rightarrow> (Inr (), attempt_resolved job clock q)
      | Some message \<Rightarrow> attempt_rejected job now message clock random q)"

text \<open>What the environment of the queue does in an attempt of a job.\<close>

record ('p, 'h) job_world =
  jw_outcome :: "'h \<Rightarrow> 'p \<Rightarrow> JobContext \<Rightarrow> string option"
  jw_start :: "string \<Rightarrow> int \<Rightarrow> int"
  jw_end :: "string \<Rightarrow> int \<Rightarrow> int"
  jw_random :: "string \<Rightarrow> int \<Rightarrow> rat"

definition runAttempt ::
  "('p, 'h) job_world \<Rightarrow> 'p JobRecord \<Rightarrow> int \<Rightarrow> (('p, 'h) job_queue, job_error, unit) op" where
  "runAttempt w job now q =
     (let attempt = jr_attempts job + 1
      in case start_attempt job now (jw_start w (jr_id job) attempt) q of
        (None, q') \<Rightarrow> (Inr (), q')
      | (Some job', q') \<Rightarrow>
          let context = \<lparr>jc_jobId = jr_id job, jc_name = jr_name job, jc_attempt = attempt\<rparr>;
              result = jw_outcome w (the (js_get (jq_handlers q) (jr_name job))) (jr_payload job) context
          in finish_attempt job' now result (jw_end w (jr_id job) attempt) (jw_random w (jr_id job) attempt) q')"

subsection \<open>Draining\<close>

lemma set_job_keeps_fields [simp]:
  "jq_handlers (set_job job q) = jq_handlers q" "jq_retry (set_job job q) = jq_retry q"
  "jq_deadLetters (set_job job q) = jq_deadLetters q" "jq_totalEnqueued (set_job job q) = jq_totalEnqueued q"
  "jq_totalCompleted (set_job job q) = jq_totalCompleted q"
  "jq_totalFailedAttempts (set_job job q) = jq_totalFailedAttempts q"
  "jq_totalDeadLettered (set_job job q) = jq_totalDeadLettered q"
  "jq_jobs (set_job job q) = js_set (jr_id job) job (jq_jobs q)"
  by (simp_all add: set_job_def)

lemma emit_job_keeps_fields [simp]:
  "jq_handlers (emit_job ty job n e q) = jq_handlers q" "jq_retry (emit_job ty job n e q) = jq_retry q"
  "jq_deadLetters (emit_job ty job n e q) = jq_deadLetters q"
  "jq_totalEnqueued (emit_job ty job n e q) = jq_totalEnqueued q"
  "jq_totalCompleted (emit_job ty job n e q) = jq_totalCompleted q"
  "jq_totalFailedAttempts (emit_job ty job n e q) = jq_totalFailedAttempts q"
  "jq_totalDeadLettered (emit_job ty job n e q) = jq_totalDeadLettered q"
  "jq_jobs (emit_job ty job n e q) = jq_jobs q"
  by (simp_all add: emit_job_def)

text \<open>Of the jobs, an attempt only writes the one attempted, under its own identifier.\<close>

lemma runAttempt_jobs:
  "\<exists>job'. jq_jobs (snd (runAttempt w job now q)) = js_set (jr_id job) job' (jq_jobs q) \<and> jr_id job' = jr_id job"
  by (auto simp: runAttempt_def start_attempt_def finish_attempt_def attempt_resolved_def attempt_rejected_def
      deadLetter_def begin_attempt_def Let_def split: option.split sum.split if_split)

lemma count_values_set:
  "\<not> P v \<Longrightarrow> length (filter P (js_values (js_set k v m))) \<le> length (filter P (js_values m))"
  unfolding js_values_def by (induction m) auto

lemma length_filter_strict:
  "(\<And>x. P x \<Longrightarrow> Q x) \<Longrightarrow> x \<in> set xs \<Longrightarrow> Q x \<Longrightarrow> \<not> P x \<Longrightarrow> length (filter P xs) < length (filter Q xs)"
proof (induction xs)
  case (Cons y xs)
  have "length (filter P xs) \<le> length (filter Q xs)" using Cons.prems(1) by (induction xs) auto
  with Cons show ?case by (cases "x = y") (auto simp: less_Suc_eq_le intro: less_SucI)
qed simp

lemma nextEligibleD: "nextEligible now exclude q = Some job \<Longrightarrow> job \<in> set (js_values (jq_jobs q)) \<and> eligible now exclude job"
  by (auto simp: nextEligible_def dest: find_SomeD)

text \<open>Every round takes a job that has not been seen in this pass.\<close>

definition unseen :: "string list \<Rightarrow> ('p, 'h) job_queue \<Rightarrow> nat" where
  "unseen seen q = length (filter (\<lambda>job. jr_id job \<notin> set seen) (js_values (jq_jobs q)))"

lemma runAttempt_unseen:
  assumes next_job: "nextEligible now seen q = Some job" and ran: "(r, q') = runAttempt w job now q"
  shows "unseen (jr_id job # seen) q' < unseen seen q"
proof -
  let ?P = "\<lambda>job'. jr_id job' \<notin> set (jr_id job # seen)"
  obtain job' where job': "jq_jobs q' = js_set (jr_id job) job' (jq_jobs q)" "jr_id job' = jr_id job"
    using runAttempt_jobs [of w job now q] ran by (metis snd_conv)
  have "length (filter ?P (js_values (jq_jobs q'))) \<le> length (filter ?P (js_values (jq_jobs q)))"
    unfolding job'(1) by (rule count_values_set) (simp add: job'(2))
  also have "\<dots> < length (filter (\<lambda>job. jr_id job \<notin> set seen) (js_values (jq_jobs q)))"
    using nextEligibleD [OF next_job]
    by (intro length_filter_strict [where x = job]) (auto simp: eligible_def)
  finally show ?thesis by (simp add: unseen_def)
qed

function drain_loop ::
  "('p, 'h) job_world \<Rightarrow> int \<Rightarrow> int option \<Rightarrow> string list \<Rightarrow> JobQueueSummary \<Rightarrow> ('p, 'h) job_queue \<Rightarrow>
   (job_error + JobQueueSummary) \<times> ('p, 'h) job_queue" where
  "drain_loop w now maxJobs seen sm q =
     (if (case maxJobs of None \<Rightarrow> False | Some n \<Rightarrow> n \<le> int (js_processed sm)) then (Inr sm, q)
      else case nextEligible now seen q of
        None \<Rightarrow> (Inr sm, q)
      | Some job \<Rightarrow>
          (case runAttempt w job now q of
             (Inl e, q') \<Rightarrow> (Inl e, q')
           | (Inr _, q') \<Rightarrow>
               let st = map_option jr_state (getJob (jr_id job) q');
                   sm' = sm\<lparr>js_processed := js_processed sm + 1,
                     js_completed := js_completed sm + (if st = Some JobCompleted then 1 else 0),
                     js_deadLettered := js_deadLettered sm + (if st = Some JobDead then 1 else 0),
                     js_retried := js_retried sm +
                       (if st = Some JobCompleted \<or> st = Some JobDead then 0 else 1)\<rparr>
               in drain_loop w now maxJobs (jr_id job # seen) sm' q'))"
  by pat_completeness auto

termination
proof (relation "measure (\<lambda>(w, now, maxJobs, seen, sm, q). unseen seen q)", goal_cases)
  case (2 w now maxJobs seen sm q job r q')
  show ?case unfolding in_measure split using 2(2,3) by (rule runAttempt_unseen)
qed simp

declare drain_loop.simps [simp del]

definition empty_summary :: JobQueueSummary where
  "empty_summary = \<lparr>js_processed = 0, js_completed = 0, js_retried = 0, js_deadLettered = 0\<rparr>"

definition drain ::
  "('p, 'h) job_world \<Rightarrow> int \<Rightarrow> int option \<Rightarrow> (('p, 'h) job_queue, job_error, JobQueueSummary) op" where
  "drain w now maxJobs q = drain_loop w now maxJobs [] empty_summary q"

definition processNext :: "('p, 'h) job_world \<Rightarrow> int \<Rightarrow> (('p, 'h) job_queue, job_error, bool) op" where
  "processNext w now q =
     (case nextEligible now [] q of
        None \<Rightarrow> (Inr False, q)
      | Some job \<Rightarrow> (case runAttempt w job now q of (Inl e, q') \<Rightarrow> (Inl e, q') | (Inr _, q') \<Rightarrow> (Inr True, q')))"

end
