(* ===== verification/JobQueueProps.thy ===== *)
theory JobQueueProps
  imports JobQueue
begin

text \<open>
  Properties of the job queue: no job is lost, whatever the order of enqueueing, attempts and
  requeueing; a drain attempts every job that is due, once; delays are bounded and do not shrink.
\<close>

subsection \<open>Steps of the queue\<close>

text \<open>
  The callers and the handlers in any order: an attempt begins and ends in two steps, with other
  steps in between. The identifiers handed out are fresh.
\<close>

inductive job_step :: "('p, 'h) job_queue \<Rightarrow> ('p, 'h) job_queue \<Rightarrow> bool" where
  register: "job_step q (snd (registerHandler name h q))"
| enqueue: "getJob uuid q = None \<Longrightarrow> job_step q (snd (enqueue uuid name payload now q))"
| requeue: "job_step q (snd (requeueDeadLetter jobId now q))"
| begin_job: "nextEligible now seen q = Some job \<Longrightarrow> job_step q (snd (start_attempt job now clock q))"
| finish_job: "getJob i q = Some job \<Longrightarrow> jr_state job = JobProcessing \<Longrightarrow>
    job_step q (snd (finish_attempt job now result clock random q))"

abbreviation job_run :: "('p, 'h) job_queue \<Rightarrow> ('p, 'h) job_queue \<Rightarrow> bool" where
  "job_run \<equiv> job_step\<^sup>*\<^sup>*"

subsection \<open>The invariant\<close>

definition dead_letter_of :: "('p, 'h) job_queue \<Rightarrow> 'p DeadLetterEntry \<Rightarrow> bool" where
  "dead_letter_of q e \<longleftrightarrow>
     getJob (jr_id (dl_job e)) q = Some (dl_job e) \<and> jr_state (dl_job e) = JobDead \<and>
     jr_lastError (dl_job e) = Some (dl_reason e)"

definition attempts_bound :: "RetryPolicy \<Rightarrow> 'p JobRecord \<Rightarrow> bool" where
  "attempts_bound retry job \<longleftrightarrow>
     0 \<le> jr_attempts job \<and> jr_attempts job \<le> max 1 (rp_maxAttempts retry) \<and>
     (jr_state job = JobPending \<longrightarrow> jr_attempts job < max 1 (rp_maxAttempts retry)) \<and>
     (jr_state job = JobProcessing \<or> jr_state job = JobCompleted \<longrightarrow> 1 \<le> jr_attempts job)"

definition job_ok :: "('p, 'h) job_queue \<Rightarrow> string \<Rightarrow> 'p JobRecord \<Rightarrow> bool" where
  "job_ok q k job \<longleftrightarrow>
     jr_id job = k \<and> jr_state job \<noteq> JobFailed \<and> attempts_bound (jq_retry q) job \<and>
     (jr_state job = JobDead \<longrightarrow> k \<in> (jr_id \<circ> dl_job) ` set (jq_deadLetters q))"

definition queue_ok :: "('p, 'h) job_queue \<Rightarrow> bool" where
  "queue_ok q \<longleftrightarrow>
     js_wf (jq_jobs q) \<and> js_all (job_ok q) (jq_jobs q) \<and>
     distinct (map (jr_id \<circ> dl_job) (jq_deadLetters q)) \<and>
     (\<forall>e\<in>set (jq_deadLetters q). dead_letter_of q e) \<and>
     jq_totalEnqueued q = length (jq_jobs q) \<and>
     jq_totalCompleted q = count_state JobCompleted q \<and>
     length (jq_deadLetters q) \<le> jq_totalDeadLettered q"

subsection \<open>Counting\<close>

definition cnt :: "('v \<Rightarrow> bool) \<Rightarrow> (string, 'v) jsmap \<Rightarrow> nat" where
  "cnt P m = length (filter P (js_values m))"

lemma cnt_set:
  "js_wf m \<Longrightarrow> cnt P (js_set k v m) + (case js_get m k of None \<Rightarrow> 0 | Some u \<Rightarrow> if P u then 1 else 0) =
     cnt P m + (if P v then 1 else 0)"
  by (induction m) (auto simp: cnt_def js_values_def js_wf_def js_keys_def map_of_eq_None_iff split: option.split)

lemma cnt_set_new: "js_wf m \<Longrightarrow> js_get m k = None \<Longrightarrow> cnt P (js_set k v m) = cnt P m + (if P v then 1 else 0)"
  using cnt_set [of m P k v] by simp

lemma cnt_set_same:
  "js_wf m \<Longrightarrow> js_get m k = Some u \<Longrightarrow> P u = P v \<Longrightarrow> cnt P (js_set k v m) = cnt P m"
  using cnt_set [of m P k v] by simp

lemma cnt_set_in:
  "js_wf m \<Longrightarrow> js_get m k = Some u \<Longrightarrow> \<not> P u \<Longrightarrow> P v \<Longrightarrow> cnt P (js_set k v m) = cnt P m + 1"
  using cnt_set [of m P k v] by simp

lemma length_js_set: "length (js_set k v m) = length m + (if js_get m k = None then 1 else 0)"
  by (induction m) auto

lemma count_state_cnt: "count_state st q = cnt (\<lambda>job. jr_state job = st) (jq_jobs q)"
  by (simp add: count_state_def cnt_def)

lemma states_add_up:
  assumes "\<And>job. job \<in> set (js_values m) \<Longrightarrow> jr_state job \<noteq> JobFailed"
  shows "length m = cnt (\<lambda>j. jr_state j = JobPending) m + cnt (\<lambda>j. jr_state j = JobProcessing) m +
     cnt (\<lambda>j. jr_state j = JobCompleted) m + cnt (\<lambda>j. jr_state j = JobDead) m"
  using assms
proof (induction m)
  case (Cons e m)
  then show ?case by (cases "jr_state (snd e)") (auto simp: cnt_def js_values_def)
qed (simp add: cnt_def js_values_def)

subsection \<open>Every step keeps the invariant\<close>

lemma queue_ok_get: "queue_ok q \<Longrightarrow> getJob i q = Some job \<Longrightarrow> job_ok q i job"
  by (auto simp: queue_ok_def getJob_def entries_sat_def)

lemma queue_ok_values:
  "queue_ok q \<Longrightarrow> job \<in> set (js_values (jq_jobs q)) \<Longrightarrow> getJob (jr_id job) q = Some job"
  by (auto simp: queue_ok_def getJob_def in_js_values entries_sat_def job_ok_def)

lemma dead_in_letters:
  "queue_ok q \<Longrightarrow> e \<in> set (jq_deadLetters q) \<Longrightarrow> getJob (jr_id (dl_job e)) q = Some (dl_job e) \<and>
     jr_state (dl_job e) = JobDead \<and> jr_lastError (dl_job e) = Some (dl_reason e)"
  by (auto simp: queue_ok_def dead_letter_of_def)

text \<open>A job that is not dead is written back in a state that is not dead, or is new.\<close>

lemma write_live:
  assumes ok: "queue_ok q"
    and jobs: "jq_jobs q' = js_set (jr_id job) job (jq_jobs q)"
    and same: "jq_retry q' = jq_retry q" "jq_deadLetters q' = jq_deadLetters q"
      "jq_totalDeadLettered q' = jq_totalDeadLettered q"
    and old: "case getJob (jr_id job) q of
        None \<Rightarrow> jq_totalEnqueued q' = jq_totalEnqueued q + 1
      | Some u \<Rightarrow> jr_state u \<noteq> JobDead \<and> jr_state u \<noteq> JobCompleted \<and> jq_totalEnqueued q' = jq_totalEnqueued q"
    and new: "attempts_bound (jq_retry q) job" "jr_state job \<noteq> JobDead" "jr_state job \<noteq> JobFailed"
    and completed: "jq_totalCompleted q' = jq_totalCompleted q + (if jr_state job = JobCompleted then 1 else 0)"
  shows "queue_ok q'"
proof -
  have wf: "js_wf (jq_jobs q)" using ok by (simp add: queue_ok_def)
  have alive: "jr_id (dl_job e) \<noteq> jr_id job" if "e \<in> set (jq_deadLetters q)" for e
    using dead_in_letters [OF ok that] old by (auto split: option.splits)
  have letters: "dead_letter_of q' e" if "e \<in> set (jq_deadLetters q')" for e
    using that alive [of e] dead_in_letters [OF ok, of e]
    by (simp add: dead_letter_of_def getJob_def jobs same)
  have entries: "js_all (job_ok q') (jq_jobs q')"
    unfolding jobs using ok new by (intro js.entries_put) (auto simp: queue_ok_def entries_sat_def job_ok_def same)
  have count: "jq_totalCompleted q' = count_state JobCompleted q'"
    using ok old cnt_set [OF wf, of "\<lambda>j. jr_state j = JobCompleted" "jr_id job" job]
    by (auto simp: queue_ok_def count_state_cnt jobs completed getJob_def split: option.splits)
  show ?thesis
    using ok letters entries count wf old
    by (auto simp: queue_ok_def jobs same length_js_set getJob_def split: option.splits)
qed

lemma write_dead:
  assumes ok: "queue_ok q"
    and job: "getJob (jr_id job) q = Some u" "jr_state u = JobPending \<or> jr_state u = JobProcessing"
      "attempts_bound (jq_retry q) job"
  shows "queue_ok (deadLetter job now reason clock q)"
proof -
  define job' where "job' = job\<lparr>jr_state := JobDead, jr_lastError := Some reason, jr_finishedAt := Some clock,
      jr_updatedAt := clock, jr_nextAttemptAt := None\<rparr>"
  define q' where "q' = deadLetter job now reason clock q"
  have f: "jq_jobs q' = js_set (jr_id job) job' (jq_jobs q)" "jq_retry q' = jq_retry q"
    "jq_deadLetters q' = jq_deadLetters q @ [\<lparr>dl_job = job', dl_failedAt = now, dl_reason = reason\<rparr>]"
    "jq_totalDeadLettered q' = jq_totalDeadLettered q + 1" "jq_totalEnqueued q' = jq_totalEnqueued q"
    "jq_totalCompleted q' = jq_totalCompleted q"
    by (simp_all add: q'_def deadLetter_def Let_def job'_def)
  have j: "jr_id job' = jr_id job" "jr_state job' = JobDead" "jr_lastError job' = Some reason"
    "attempts_bound (jq_retry q) job'"
    using job(3) by (auto simp: job'_def attempts_bound_def)
  have wf: "js_wf (jq_jobs q)" using ok by (simp add: queue_ok_def)
  have alive: "jr_id (dl_job e) \<noteq> jr_id job" if "e \<in> set (jq_deadLetters q)" for e
    using dead_in_letters [OF ok that] job(1,2) by auto
  have letters: "dead_letter_of q' e" if "e \<in> set (jq_deadLetters q')" for e
    using that alive [of e] dead_in_letters [OF ok, of e] j
    by (auto simp: dead_letter_of_def getJob_def f)
  have entries: "js_all (job_ok q') (jq_jobs q')"
    unfolding f using ok j by (intro js.entries_put) (auto simp: queue_ok_def entries_sat_def job_ok_def f)
  have count: "count_state JobCompleted q' = count_state JobCompleted q"
    unfolding count_state_cnt f
    by (rule cnt_set_same [OF wf, of _ u]) (use job j in \<open>auto simp: getJob_def\<close>)
  have "distinct (map (jr_id \<circ> dl_job) (jq_deadLetters q'))"
    using ok alive by (fastforce simp: queue_ok_def f j)
  with letters entries count ok wf job show ?thesis
    unfolding q'_def [symmetric] by (auto simp: queue_ok_def f length_js_set getJob_def)
qed

lemma remove_first_filter:
  "distinct (map g xs) \<Longrightarrow> remove_first (\<lambda>x. g x = k) xs = filter (\<lambda>x. g x \<noteq> k) xs"
proof (induction xs)
  case (Cons x xs)
  have "filter (\<lambda>y. g y \<noteq> k) xs = xs" if "g x = k"
    using Cons.prems that by (intro filter_True) (auto simp: image_iff)
  with Cons show ?case by auto
qed simp

lemma requeue_ok:
  assumes ok: "queue_ok q"
  shows "queue_ok (snd (requeueDeadLetter i now q))"
proof (cases "find (\<lambda>e. jr_id (dl_job e) = i) (jq_deadLetters q)")
  case None
  with ok show ?thesis by (simp add: requeueDeadLetter_def)
next
  case (Some e)
  then have e: "e \<in> set (jq_deadLetters q)" "jr_id (dl_job e) = i"
    using find_SomeD by fastforce+
  note d = dead_in_letters [OF ok e(1), unfolded e(2)]
  let ?ls = "filter (\<lambda>e. jr_id (dl_job e) \<noteq> i) (jq_deadLetters q)"
  define job where "job = (dl_job e)\<lparr>jr_state := JobPending, jr_attempts := 0, jr_nextAttemptAt := None,
      jr_lastError := None, jr_finishedAt := None, jr_updatedAt := now\<rparr>"
  define q' where "q' = snd (requeueDeadLetter i now q)"
  have wf: "js_wf (jq_jobs q)" and dist: "distinct (map (jr_id \<circ> dl_job) (jq_deadLetters q))"
    using ok by (simp_all add: queue_ok_def)
  have "remove_first (\<lambda>e. jr_id (dl_job e) = i) (jq_deadLetters q) = ?ls"
    using remove_first_filter [OF dist] by (simp add: comp_def)
  then have f: "jq_jobs q' = js_set i job (jq_jobs q)" "jq_deadLetters q' = ?ls" "jq_retry q' = jq_retry q"
    "jq_totalEnqueued q' = jq_totalEnqueued q" "jq_totalCompleted q' = jq_totalCompleted q"
    "jq_totalDeadLettered q' = jq_totalDeadLettered q"
    using Some d e(2) by (simp_all add: q'_def requeueDeadLetter_def Let_def job_def getJob_def set_job_def emit_job_def)
  have j: "jr_id job = i" "jr_state job = JobPending" "attempts_bound (jq_retry q) job"
    using e(2) by (auto simp: job_def attempts_bound_def)
  have letters: "dead_letter_of q' x" if "x \<in> set ?ls" for x
    using that dead_in_letters [OF ok, of x] by (simp add: dead_letter_of_def getJob_def f)
  have entries: "js_all (job_ok q') (jq_jobs q')"
  proof -
    have stays: "k \<in> (jr_id \<circ> dl_job) ` set ?ls"
      if "k \<in> (jr_id \<circ> dl_job) ` set (jq_deadLetters q)" "k \<noteq> i" for k
      using that by auto
    have "job_ok q' k v" if "js_get (jq_jobs q) k = Some v" "k \<noteq> i" for k v
      using queue_ok_get [OF ok, of k v] that stays [of k] by (simp add: job_ok_def getJob_def f)
    with j show ?thesis by (simp add: entries_sat_def f(1)) (simp add: job_ok_def f)
  qed
  have count: "count_state JobCompleted q' = count_state JobCompleted q"
    unfolding count_state_cnt f
    by (rule cnt_set_same [OF wf, of _ "dl_job e"]) (use d j in \<open>auto simp: getJob_def\<close>)
  have "length ?ls \<le> jq_totalDeadLettered q"
    using ok by (auto simp: queue_ok_def intro: order_trans [OF length_filter_le])
  moreover have "distinct (map (jr_id \<circ> dl_job) ?ls)" using dist by (rule distinct_map_filter)
  moreover have "js_get (jq_jobs q) i \<noteq> None" using d by (simp add: getJob_def)
  ultimately show ?thesis
    using letters entries count ok wf unfolding q'_def [symmetric]
    by (simp add: queue_ok_def f length_js_set)
qed

lemma start_ok:
  assumes ok: "queue_ok q" and next_job: "nextEligible now seen q = Some job"
  shows "queue_ok (snd (start_attempt job t clock q))"
proof -
  have job: "getJob (jr_id job) q = Some job" "jr_state job = JobPending"
    using nextEligibleD [OF next_job] queue_ok_values [OF ok] by (auto simp: eligible_def)
  have bound: "attempts_bound (jq_retry q) job"
    using queue_ok_get [OF ok job(1)] by (simp add: job_ok_def)
  show ?thesis
  proof (cases "js_get (jq_handlers q) (jr_name job)")
    case None
    then show ?thesis using job bound by (simp add: start_attempt_def write_dead [OF ok])
  next
    case (Some h)
    have "queue_ok (emit_job JobStartedEvent (begin_attempt job clock) n None (set_job (begin_attempt job clock) q))" for n
      by (rule write_live [OF ok, where job = "begin_attempt job clock"])
        (use job bound in \<open>auto simp: begin_attempt_def attempts_bound_def\<close>)
    with Some show ?thesis by (simp add: start_attempt_def Let_def)
  qed
qed

lemma resolved_ok:
  assumes ok: "queue_ok q" and job: "getJob (jr_id job) q = Some job" "jr_state job = JobProcessing"
  shows "queue_ok (attempt_resolved job clock q)"
proof -
  have bound: "attempts_bound (jq_retry q) job"
    using queue_ok_get [OF ok job(1)] by (simp add: job_ok_def)
  show ?thesis
    unfolding attempt_resolved_def Let_def
    by (rule write_live [OF ok, where job = "job\<lparr>jr_state := JobCompleted, jr_finishedAt := Some clock,
          jr_updatedAt := clock, jr_lastError := None, jr_nextAttemptAt := None\<rparr>"])
      (use job bound in \<open>auto simp: attempts_bound_def set_job_def emit_job_def\<close>)
qed

lemma rejected_ok:
  assumes ok: "queue_ok q" and job: "getJob (jr_id job) q = Some job" "jr_state job = JobProcessing"
  shows "queue_ok (snd (attempt_rejected job now message clock random q))"
proof -
  define job1 where "job1 = job\<lparr>jr_lastError := Some message, jr_updatedAt := clock\<rparr>"
  define q1 where "q1 = emit_job JobFailedEvent job1 (jr_attempts job1) (Some message)
      ((set_job job1 q)\<lparr>jq_totalFailedAttempts := jq_totalFailedAttempts q + 1\<rparr>)"
  have bound: "attempts_bound (jq_retry q) job"
    using queue_ok_get [OF ok job(1)] by (simp add: job_ok_def)
  then have bound1: "attempts_bound (jq_retry q) job1" "jr_state job1 = JobProcessing" "jr_id job1 = jr_id job"
    using job by (auto simp: attempts_bound_def job1_def)
  have ok1: "queue_ok q1"
    by (rule write_live [OF ok, where job = job1])
      (use job bound1 in \<open>auto simp: q1_def job1_def emit_job_def set_job_def\<close>)
  have f: "jq_retry q1 = jq_retry q" "getJob (jr_id job1) q1 = Some job1"
    by (simp_all add: q1_def getJob_def emit_job_def set_job_def)
  have dead: "queue_ok (deadLetter job1 now message clock q1)"
    using write_dead [OF ok1 f(2)] bound1 f by simp
  have again: "queue_ok (emit_job JobRetryingEvent job2 n (Some message) (set_job job2 q1))"
    if "canRetry (jr_attempts job1) (jq_retry q)" and "job2 = job1\<lparr>jr_state := JobPending, jr_nextAttemptAt := nxt\<rparr>"
    for job2 n nxt
    by (rule write_live [OF ok1, where job = job2])
      (use that f bound1 in \<open>auto simp: attempts_bound_def canRetry_def\<close>)
  show ?thesis
    using ok1 dead again unfolding attempt_rejected_def Let_def job1_def [symmetric] q1_def [symmetric] f(1)
    by (auto split: sum.split)
qed

lemma finish_ok:
  assumes "queue_ok q" "getJob i q = Some job" "jr_state job = JobProcessing"
  shows "queue_ok (snd (finish_attempt job now result clock random q))"
  using assms queue_ok_get [OF assms(1,2)]
  by (auto simp: finish_attempt_def job_ok_def resolved_ok rejected_ok split: option.split)

lemma enqueue_ok:
  assumes ok: "queue_ok q" and fresh: "getJob uuid q = None"
  shows "queue_ok (snd (enqueue uuid name payload now q))"
proof (cases "js_get (jq_handlers q) name")
  case None
  with ok show ?thesis by (simp add: enqueue_def)
next
  case (Some h)
  define job where "job = \<lparr>jr_id = uuid, jr_name = name, jr_payload = payload, jr_state = JobPending,
      jr_attempts = 0, jr_maxAttempts = rp_maxAttempts (jq_retry q), jr_createdAt = now,
      jr_updatedAt = now, jr_startedAt = None, jr_finishedAt = None, jr_lastError = None,
      jr_nextAttemptAt = None\<rparr>"
  have "queue_ok (emit_job JobEnqueuedEvent job 0 None
      ((set_job job q)\<lparr>jq_totalEnqueued := jq_totalEnqueued q + 1\<rparr>))"
    by (rule write_live [OF ok, where job = job])
      (use fresh in \<open>auto simp: job_def attempts_bound_def emit_job_def set_job_def\<close>)
  with Some show ?thesis by (simp add: enqueue_def Let_def job_def)
qed

lemma register_ok: "queue_ok q \<Longrightarrow> queue_ok (snd (registerHandler name h q))"
  by (simp add: registerHandler_def queue_ok_def entries_sat_def job_ok_def dead_letter_of_def getJob_def count_state_def)

lemma job_step_ok: "job_step q q' \<Longrightarrow> queue_ok q \<Longrightarrow> queue_ok q'"
  by (induction rule: job_step.induct) (simp_all add: register_ok enqueue_ok requeue_ok start_ok finish_ok)

lemma job_run_ok: "job_run q q' \<Longrightarrow> queue_ok q \<Longrightarrow> queue_ok q'"
  by (induction rule: rtranclp_induct) (auto dest: job_step_ok)

lemma queue_ok_new: "queue_ok (new_job_queue retry)"
  by (simp add: queue_ok_def new_job_queue_def entries_sat_def count_state_def js_values_def)

lemma retry_constant: "job_step q q' \<Longrightarrow> jq_retry q' = jq_retry q"
  by (induction rule: job_step.induct)
    (auto simp: registerHandler_def enqueue_def requeueDeadLetter_def start_attempt_def finish_attempt_def
      attempt_resolved_def attempt_rejected_def deadLetter_def Let_def split: option.split sum.split)

lemma job_run_retry: "job_run q q' \<Longrightarrow> jq_retry q' = jq_retry q"
  by (induction rule: rtranclp_induct) (simp_all add: retry_constant)

text \<open>The dead jobs are those of the dead letter queue.\<close>

lemma dead_iff_letter:
  assumes ok: "queue_ok q" and job: "getJob i q = Some job"
  shows "jr_state job = JobDead \<longleftrightarrow>
    (\<exists>e\<in>set (jq_deadLetters q). dl_job e = job \<and> jr_lastError job = Some (dl_reason e))"
proof
  assume "jr_state job = JobDead"
  then obtain e where e: "e \<in> set (jq_deadLetters q)" "jr_id (dl_job e) = i"
    using queue_ok_get [OF ok job] by (auto simp: job_ok_def)
  with dead_in_letters [OF ok e(1)] job
  show "\<exists>e\<in>set (jq_deadLetters q). dl_job e = job \<and> jr_lastError job = Some (dl_reason e)" by auto
qed (use dead_in_letters [OF ok] in auto)

lemma count_dead:
  assumes ok: "queue_ok q"
  shows "count_state JobDead q = length (jq_deadLetters q)"
proof -
  let ?dead = "filter (\<lambda>job. jr_state job = JobDead) (js_values (jq_jobs q))"
  have wf: "js_wf (jq_jobs q)" and dist: "distinct (map (jr_id \<circ> dl_job) (jq_deadLetters q))"
    using ok by (simp_all add: queue_ok_def)
  have "distinct ?dead"
    using js_values_ids_distinct [OF wf, of jr_id] ok
    by (auto simp: queue_ok_def entries_sat_def job_ok_def distinct_map)
  moreover have "distinct (map dl_job (jq_deadLetters q))"
    using dist by (simp add: distinct_map comp_def inj_on_def)
  moreover have "set ?dead = set (map dl_job (jq_deadLetters q))"
  proof (intro set_eqI iffI)
    fix job
    assume "job \<in> set ?dead"
    then show "job \<in> set (map dl_job (jq_deadLetters q))"
      using dead_iff_letter [OF ok, of "jr_id job" job] queue_ok_values [OF ok, of job] by auto
  next
    fix job
    assume "job \<in> set (map dl_job (jq_deadLetters q))"
    then show "job \<in> set ?dead"
      using dead_in_letters [OF ok] wf by (auto simp: in_js_values getJob_def)
  qed
  ultimately have "length ?dead = length (map dl_job (jq_deadLetters q))" by (metis distinct_card)
  then show ?thesis by (simp add: count_state_def)
qed

text \<open>
  C22: Whatever is enqueued, attempted, finished and requeued, in any order, no job is lost: the jobs
  that were enqueued are the pending, the processing, the completed and the dead ones; each dead
  job has exactly one entry of the dead letter queue, with the reason of its failure, and each entry
  is of a dead job; no job is attempted more often than the policy allows, and a completed one was
  attempted.
\<close>

theorem no_job_is_lost:
  assumes "job_run (new_job_queue retry) q"
  shows "let m = job_metrics q in
      jm_totalEnqueued m = jm_pending m + jm_processing m + jm_completed m + jm_dead m \<and>
      jm_completed m = jm_totalCompleted m \<and> jm_dead m = length (getDeadLetters q) \<and>
      jm_dead m \<le> jm_totalDeadLettered m \<and>
      distinct (map (jr_id \<circ> dl_job) (getDeadLetters q)) \<and>
      (\<forall>i job. getJob i q = Some job \<longrightarrow>
         jr_attempts job \<le> max 1 (rp_maxAttempts retry) \<and>
         (jr_state job = JobCompleted \<longrightarrow> 1 \<le> jr_attempts job) \<and>
         (jr_state job = JobDead \<longleftrightarrow>
            (\<exists>e\<in>set (getDeadLetters q). dl_job e = job \<and> jr_lastError job = Some (dl_reason e))))"
proof -
  have ok: "queue_ok q" using job_run_ok [OF assms queue_ok_new] .
  have retry: "jq_retry q = retry" using job_run_retry [OF assms] by (simp add: new_job_queue_def)
  have "job_ok q (jr_id job) job" if "job \<in> set (js_values (jq_jobs q))" for job
    using queue_ok_get [OF ok queue_ok_values [OF ok that]] .
  then have "length (jq_jobs q) = cnt (\<lambda>j. jr_state j = JobPending) (jq_jobs q) +
      cnt (\<lambda>j. jr_state j = JobProcessing) (jq_jobs q) + cnt (\<lambda>j. jr_state j = JobCompleted) (jq_jobs q) +
      cnt (\<lambda>j. jr_state j = JobDead) (jq_jobs q)"
    by (intro states_add_up) (auto simp: job_ok_def)
  with count_dead [OF ok] dead_iff_letter [OF ok] show ?thesis
    using ok queue_ok_get [OF ok] unfolding Let_def
    by (simp add: job_metrics_def getDeadLetters_def queue_ok_def count_state_cnt job_ok_def attempts_bound_def retry)
qed

definition demo_handler :: "string \<Rightarrow> nat \<Rightarrow> JobContext \<Rightarrow> string option" where
  "demo_handler h payload context = (if int payload \<le> jc_attempt context then None else Some ''boom'')"

definition demo_jobs :: "(nat, string) job_world" where
  "demo_jobs = \<lparr>jw_outcome = demo_handler, jw_start = \<lambda>i n. 10 * n, jw_end = \<lambda>i n. 10 * n + 1,
     jw_random = \<lambda>i n. 1 / 2\<rparr>"

definition demo_queue :: "(nat, string) job_queue" where
  "demo_queue = snd (enqueue ''b'' ''mail'' 5 2 (snd (enqueue ''a'' ''mail'' 1 1
     (snd (registerHandler ''mail'' ''h'' (new_job_queue DEFAULT_RETRY_POLICY))))))"

lemma demo_queue_run: "job_run (new_job_queue DEFAULT_RETRY_POLICY) demo_queue"
proof -
  have "job_step (new_job_queue DEFAULT_RETRY_POLICY)
      (snd (registerHandler ''mail'' ''h'' (new_job_queue DEFAULT_RETRY_POLICY)))"
    by (rule job_step.register)
  moreover have "job_step (snd (registerHandler ''mail'' ''h'' (new_job_queue DEFAULT_RETRY_POLICY)))
      (snd (enqueue ''a'' ''mail'' 1 1 (snd (registerHandler ''mail'' ''h'' (new_job_queue DEFAULT_RETRY_POLICY)))))"
    by (rule job_step.enqueue) (simp add: getJob_def registerHandler_def new_job_queue_def)
  moreover have "job_step (snd (enqueue ''a'' ''mail'' 1 1 (snd (registerHandler ''mail'' ''h'' (new_job_queue DEFAULT_RETRY_POLICY)))))
      demo_queue"
    unfolding demo_queue_def
    by (rule job_step.enqueue) (simp add: getJob_def registerHandler_def new_job_queue_def enqueue_def Let_def)
  ultimately show ?thesis by (meson converse_rtranclp_into_rtranclp rtranclp.rtrancl_refl)
qed

theorem no_job_is_lost_witness:
  "job_run (new_job_queue DEFAULT_RETRY_POLICY) demo_queue \<and>
   jm_pending (job_metrics demo_queue) = 2 \<and> jm_totalEnqueued (job_metrics demo_queue) = 2 \<and>
   getDeadLetters demo_queue = []"
proof -
  have "jm_pending (job_metrics demo_queue) = 2" "getDeadLetters demo_queue = []" by code_simp+
  moreover have "jm_processing (job_metrics demo_queue) = 0" "jm_completed (job_metrics demo_queue) = 0"
    "jm_dead (job_metrics demo_queue) = 0" by code_simp+
  ultimately show ?thesis
    using no_job_is_lost [OF demo_queue_run, unfolded Let_def] demo_queue_run by simp
qed

subsection \<open>Delays\<close>

definition valid_policy :: "RetryPolicy \<Rightarrow> bool" where
  "valid_policy p \<longleftrightarrow> 1 \<le> rp_maxAttempts p \<and> 0 \<le> rp_initialDelayMs p \<and> 0 \<le> rp_maxDelayMs p \<and> 1 \<le> rp_multiplier p"

lemma backoff_valid:
  "valid_policy p \<Longrightarrow> 1 \<le> n \<Longrightarrow> computeBackoffDelayMs n p random =
     Inr (max 0 \<lfloor>(if rp_jitter p then min (rp_initialDelayMs p * rp_multiplier p ^ nat (n - 1)) (rp_maxDelayMs p) * random
       else min (rp_initialDelayMs p * rp_multiplier p ^ nat (n - 1)) (rp_maxDelayMs p)) + 1 / 2\<rfloor>)"
  by (auto simp: computeBackoffDelayMs_def valid_policy_def Let_def)

lemma backoff_range:
  assumes "valid_policy p" "1 \<le> n" "0 \<le> r" "r \<le> 1"
  obtains d where "computeBackoffDelayMs n p r = Inr d" "d \<le> \<lfloor>rp_maxDelayMs p + 1 / 2\<rfloor>"
proof -
  let ?cap = "min (rp_initialDelayMs p * rp_multiplier p ^ nat (n - 1)) (rp_maxDelayMs p)"
  have cap: "0 \<le> ?cap" using assms(1) by (simp add: valid_policy_def)
  have "?cap * r \<le> ?cap" using cap assms(3,4) by (intro mult_left_le) auto
  then have "(if rp_jitter p then ?cap * r else ?cap) \<le> rp_maxDelayMs p" by (auto intro: order_trans)
  moreover have "0 \<le> \<lfloor>rp_maxDelayMs p + 1 / 2\<rfloor>" using assms(1) by (simp add: valid_policy_def)
  ultimately show ?thesis
    using that backoff_valid [OF assms(1,2), of r] by (simp add: floor_mono del: min_le_iff_disj)
qed

text \<open>
  The delay before a retry is only undefined for an invalid policy. It never exceeds the maximal
  delay (rounded), with or without jitter; without jitter it grows, or stays, from one failed
  attempt to the next, and is the initial delay times the power of the multiplier up to the maximum.
\<close>

lemma backoff_bounded_and_monotone:
  assumes "1 \<le> n" "n \<le> k" "0 \<le> r" "r \<le> 1"
  shows "if valid_policy p
    then \<exists>d d'. computeBackoffDelayMs n p r = Inr d \<and> computeBackoffDelayMs k p r = Inr d' \<and>
      0 \<le> d \<and> d \<le> \<lfloor>rp_maxDelayMs p + 1 / 2\<rfloor> \<and>
      (\<not> rp_jitter p \<longrightarrow> d \<le> d' \<and>
        d = min \<lfloor>rp_initialDelayMs p * rp_multiplier p ^ nat (n - 1) + 1 / 2\<rfloor> \<lfloor>rp_maxDelayMs p + 1 / 2\<rfloor>)
    else \<exists>e. computeBackoffDelayMs n p r = Inl e"
proof (cases "valid_policy p")
  case True
  let ?raw = "\<lambda>n. rp_initialDelayMs p * rp_multiplier p ^ nat (n - 1)"
  let ?cap = "\<lambda>n. min (?raw n) (rp_maxDelayMs p)"
  let ?delay = "\<lambda>n. if rp_jitter p then ?cap n * r else ?cap n"
  have nonneg: "0 \<le> ?raw m" for m using True by (simp add: valid_policy_def)
  have cap: "0 \<le> ?cap m" "?cap m \<le> rp_maxDelayMs p" for m
    using nonneg True by (simp_all add: valid_policy_def)
  have scaled: "x * r \<le> x" "0 \<le> x * r" if "0 \<le> x" for x
    using that assms(3,4) by (simp_all add: mult_left_le)
  have delay: "0 \<le> ?delay m" "?delay m \<le> rp_maxDelayMs p" for m
    using cap [of m] scaled [OF cap(1) [of m]] by (simp_all del: min_le_iff_disj)
  have "?raw n \<le> ?raw k"
    using assms(2) True by (intro mult_left_mono power_increasing) (auto simp: valid_policy_def nat_mono)
  then have mono: "?cap n \<le> ?cap k" by (simp add: min_le_iff_disj)
  have floor: "0 \<le> \<lfloor>?delay m + 1 / 2\<rfloor>" "\<lfloor>?delay m + 1 / 2\<rfloor> \<le> \<lfloor>rp_maxDelayMs p + 1 / 2\<rfloor>" for m
    using delay [of m] by (simp_all add: floor_mono)
  have "\<lfloor>?cap n + 1 / 2\<rfloor> \<le> \<lfloor>?cap k + 1 / 2\<rfloor>" using mono by (simp add: floor_mono)
  moreover have "\<lfloor>?cap n + 1 / 2\<rfloor> = min \<lfloor>?raw n + 1 / 2\<rfloor> \<lfloor>rp_maxDelayMs p + 1 / 2\<rfloor>"
    by (auto simp: min_def floor_mono intro: order_antisym)
  moreover have "computeBackoffDelayMs n p r = Inr \<lfloor>?delay n + 1 / 2\<rfloor>"
    "computeBackoffDelayMs k p r = Inr \<lfloor>?delay k + 1 / 2\<rfloor>"
    using backoff_valid [OF True] floor(1) [of n] floor(1) [of k] assms(1,2) by (simp_all add: max_def)
  ultimately show ?thesis using True floor [of n] by auto
qed (use assms in \<open>auto simp: computeBackoffDelayMs_def valid_policy_def\<close>)

lemma backoff_bounded_and_monotone_witness:
  "computeBackoffDelayMs 3 DEFAULT_RETRY_POLICY (1 / 2) = Inr 4000 \<and>
   computeBackoffDelayMs 9 DEFAULT_RETRY_POLICY (1 / 2) = Inr 60000"
proof -
  have "valid_policy DEFAULT_RETRY_POLICY" by (simp add: valid_policy_def DEFAULT_RETRY_POLICY_def)
  moreover have "\<lfloor>8001 / 2 :: rat\<rfloor> = 4000" "\<lfloor>120001 / 2 :: rat\<rfloor> = 60000" "\<lfloor>512001 / 2 :: rat\<rfloor> = 256000"
    by (simp_all add: floor_eq_iff)
  ultimately show ?thesis
    using backoff_bounded_and_monotone [of 3 9 "1 / 2" DEFAULT_RETRY_POLICY]
      backoff_bounded_and_monotone [of 9 9 "1 / 2" DEFAULT_RETRY_POLICY]
    by (auto simp: DEFAULT_RETRY_POLICY_def)
qed

subsection \<open>Draining\<close>

text \<open>An attempt depends on the handlers and the policy only, and with a valid policy never throws.\<close>

lemma runAttempt_local:
  assumes "jq_handlers p = jq_handlers q" "jq_retry p = jq_retry q"
  shows "getJob (jr_id job) (snd (runAttempt w job now p)) = getJob (jr_id job) (snd (runAttempt w job now q))"
  using assms
  by (auto simp: runAttempt_def start_attempt_def finish_attempt_def attempt_resolved_def attempt_rejected_def
      deadLetter_def begin_attempt_def getJob_def Let_def split: option.split sum.split)

lemma runAttempt_keeps:
  "jq_handlers (snd (runAttempt w job now q)) = jq_handlers q" "jq_retry (snd (runAttempt w job now q)) = jq_retry q"
  by (auto simp: runAttempt_def start_attempt_def finish_attempt_def attempt_resolved_def attempt_rejected_def
      deadLetter_def Let_def split: option.split sum.split)

lemma runAttempt_returns:
  assumes "valid_policy (jq_retry q)" "0 \<le> jr_attempts job"
  shows "fst (runAttempt w job now q) = Inr ()"
proof -
  have "computeBackoffDelayMs (jr_attempts job + 1) (jq_retry q) r \<noteq> Inl e" for r e
    using backoff_valid [OF assms(1), of "jr_attempts job + 1" r] assms(2) by auto
  then show ?thesis
    by (auto simp: runAttempt_def start_attempt_def finish_attempt_def attempt_rejected_def begin_attempt_def
        Let_def split: option.split sum.split)
qed

text \<open>The summary counts what an attempt adds to the counters of the queue.\<close>

definition outcome_counts ::
  "JobQueueSummary \<Rightarrow> ('p, 'h) job_queue \<Rightarrow> JobQueueSummary \<Rightarrow> ('p, 'h) job_queue \<Rightarrow> bool" where
  "outcome_counts sm q sm' q' \<longleftrightarrow>
     js_processed sm' + js_completed sm + js_retried sm + js_deadLettered sm =
       js_processed sm + js_completed sm' + js_retried sm' + js_deadLettered sm' \<and>
     jq_totalCompleted q' + js_completed sm = jq_totalCompleted q + js_completed sm' \<and>
     jq_totalDeadLettered q' + js_deadLettered sm = jq_totalDeadLettered q + js_deadLettered sm'"

definition tally_job :: "JobState option \<Rightarrow> JobQueueSummary \<Rightarrow> JobQueueSummary" where
  "tally_job st sm = sm\<lparr>js_processed := js_processed sm + 1,
     js_completed := js_completed sm + (if st = Some JobCompleted then 1 else 0),
     js_deadLettered := js_deadLettered sm + (if st = Some JobDead then 1 else 0),
     js_retried := js_retried sm + (if st = Some JobCompleted \<or> st = Some JobDead then 0 else 1)\<rparr>"

text \<open>Where an attempt left the job, and what it added to the counters.\<close>

definition gained :: "string \<Rightarrow> ('p, 'h) job_queue \<Rightarrow> ('p, 'h) job_queue \<Rightarrow> bool" where
  "gained i q q' \<longleftrightarrow>
     (case getJob i q' of None \<Rightarrow> False
      | Some job \<Rightarrow>
          jq_totalCompleted q' = jq_totalCompleted q + (if jr_state job = JobCompleted then 1 else 0) \<and>
          jq_totalDeadLettered q' = jq_totalDeadLettered q + (if jr_state job = JobDead then 1 else 0))"

lemma gained_resolved: "gained (jr_id job) q (attempt_resolved job clock q)"
  by (simp add: gained_def attempt_resolved_def getJob_def Let_def)

lemma gained_dead: "gained (jr_id job) q (deadLetter job now reason clock q)"
  by (simp add: gained_def deadLetter_def getJob_def Let_def)

lemma gained_rejected:
  assumes "jr_state job = JobProcessing"
  shows "gained (jr_id job) q (snd (attempt_rejected job now message clock r q))"
proof (cases "canRetry (jr_attempts job) (jq_retry q)")
  case True
  with assms show ?thesis
    by (cases "computeBackoffDelayMs (jr_attempts job) (jq_retry q) r")
      (simp_all add: gained_def attempt_rejected_def getJob_def Let_def)
next
  case False
  then show ?thesis
    by (simp add: gained_def attempt_rejected_def deadLetter_def getJob_def Let_def)
qed

text \<open>With a handler, an attempt is a start and a finish.\<close>

lemma runAttempt_finish:
  fixes w :: "('p, 'h) job_world"
  assumes "js_get (jq_handlers q) (jr_name job) = Some h"
  defines "c \<equiv> jw_start w (jr_id job) (jr_attempts job + 1)"
  shows "snd (runAttempt w job now q) = snd (finish_attempt (begin_attempt job c) now
      (jw_outcome w h (jr_payload job) \<lparr>jc_jobId = jr_id job, jc_name = jr_name job, jc_attempt = jr_attempts job + 1\<rparr>)
      (jw_end w (jr_id job) (jr_attempts job + 1)) (jw_random w (jr_id job) (jr_attempts job + 1))
      (snd (start_attempt job now c q)))"
  using assms(1) unfolding c_def runAttempt_def start_attempt_def Let_def by simp

lemma gained_from:
  "gained i p q' \<Longrightarrow> jq_totalCompleted p = jq_totalCompleted q \<Longrightarrow>
   jq_totalDeadLettered p = jq_totalDeadLettered q \<Longrightarrow> gained i q q'"
  by (cases "getJob i q'") (simp_all add: gained_def)

lemma runAttempt_gained:
  assumes "jr_state job = JobPending"
  shows "gained (jr_id job) q (snd (runAttempt w job now q))"
proof (cases "js_get (jq_handlers q) (jr_name job)")
  case None
  then show ?thesis by (simp add: runAttempt_def start_attempt_def gained_dead)
next
  case (Some h)
  define q1 where "q1 = snd (start_attempt job now (jw_start w (jr_id job) (jr_attempts job + 1)) q)"
  let ?job = "begin_attempt job (jw_start w (jr_id job) (jr_attempts job + 1))"
  have j: "jr_id ?job = jr_id job" "jr_state ?job = JobProcessing" by (simp_all add: begin_attempt_def)
  have "gained (jr_id job) q1 (snd (finish_attempt ?job now result clock random q1))" for result clock random
    using gained_resolved [of ?job q1] gained_rejected [OF j(2)] j(1)
    by (cases result) (simp_all add: finish_attempt_def)
  moreover have "jq_totalCompleted q1 = jq_totalCompleted q" "jq_totalDeadLettered q1 = jq_totalDeadLettered q"
    using Some by (simp_all add: q1_def start_attempt_def Let_def)
  ultimately show ?thesis
    unfolding runAttempt_finish [OF Some] q1_def [symmetric] by (blast intro: gained_from)
qed

lemma gained_counts:
  assumes "gained i q q'"
  shows "outcome_counts sm q (tally_job (map_option jr_state (getJob i q')) sm) q'"
  using assms by (auto simp: gained_def outcome_counts_def tally_job_def split: option.splits)

lemma outcome_counts_trans:
  "outcome_counts sm q sm1 q1 \<Longrightarrow> outcome_counts sm1 q1 sm2 q2 \<Longrightarrow> outcome_counts sm q sm2 q2"
  by (simp add: outcome_counts_def)

definition drained ::
  "('p, 'h) job_world \<Rightarrow> int \<Rightarrow> string list \<Rightarrow> ('p, 'h) job_queue \<Rightarrow> ('p, 'h) job_queue \<Rightarrow> bool" where
  "drained w now seen q q' \<longleftrightarrow>
     jq_handlers q' = jq_handlers q \<and> jq_retry q' = jq_retry q \<and>
     (\<forall>i. getJob i q' = Option.bind (getJob i q)
        (\<lambda>job. if eligible now seen job then getJob i (snd (runAttempt w job now q)) else Some job))"

lemma cnt_eligible_seen:
  assumes "distinct (map jr_id (js_values m))" "job \<in> set (js_values m)" "eligible now seen job"
  shows "cnt (eligible now seen) m = cnt (eligible now (jr_id job # seen)) m + 1"
proof -
  let ?xs = "filter (eligible now seen) (js_values m)"
  have inj: "inj_on jr_id (set (js_values m))" and d: "distinct (js_values m)"
    using assms(1) by (simp_all add: distinct_map)
  have "filter (eligible now (jr_id job # seen)) (js_values m) = filter (\<lambda>j. j \<noteq> job) ?xs"
    using inj assms(2) by (auto simp: eligible_def inj_on_def intro!: filter_cong)
  moreover have "job \<in> set ?xs" using assms by simp
  moreover have "distinct ?xs" using d by simp
  ultimately show ?thesis
    using length_filter_neq [of ?xs job] by (cases ?xs) (auto simp: cnt_def)
qed

lemma job_ids: "queue_ok q \<Longrightarrow> distinct (map jr_id (js_values (jq_jobs q)))"
  by (rule js_values_ids_distinct) (auto simp: queue_ok_def entries_sat_def job_ok_def)

text \<open>An attempt is two steps of the queue.\<close>

lemma runAttempt_run:
  assumes "nextEligible now seen q = Some job"
  shows "job_run q (snd (runAttempt w job now q))"
proof (cases "js_get (jq_handlers q) (jr_name job)")
  case None
  with job_step.begin_job [OF assms, of "jw_start w (jr_id job) (jr_attempts job + 1)"]
  show ?thesis by (simp add: runAttempt_def start_attempt_def)
next
  case (Some h)
  define c where "c = jw_start w (jr_id job) (jr_attempts job + 1)"
  define q1 where "q1 = snd (start_attempt job now c q)"
  have 1: "job_step q q1" unfolding q1_def using assms by (rule job_step.begin_job)
  have "getJob (jr_id job) q1 = Some (begin_attempt job c)"
    using Some by (simp add: q1_def start_attempt_def Let_def getJob_def begin_attempt_def)
  then have "job_step q1 (snd (finish_attempt (begin_attempt job c) now result clock random q1))" for result clock random
    by (rule job_step.finish_job) (simp add: begin_attempt_def)
  with 1 show ?thesis
    unfolding runAttempt_finish [OF Some] c_def [symmetric] q1_def [symmetric]
    by (meson converse_rtranclp_into_rtranclp r_into_rtranclp)
qed

lemma drained_step:
  assumes ok: "queue_ok q" and next_job: "nextEligible now seen q = Some job"
    and rest: "drained w now (jr_id job # seen) (snd (runAttempt w job now q)) q'"
  shows "drained w now seen q q'"
proof -
  let ?q1 = "snd (runAttempt w job now q)"
  have job: "getJob (jr_id job) q = Some job" "eligible now seen job"
    using nextEligibleD [OF next_job] queue_ok_values [OF ok] by auto
  obtain job' where job': "jq_jobs ?q1 = js_set (jr_id job) job' (jq_jobs q)" "jr_id job' = jr_id job"
    using runAttempt_jobs by blast
  have other: "getJob i ?q1 = getJob i q" if "i \<noteq> jr_id job" for i
    using that by (simp add: getJob_def job'(1))
  have "getJob i q' = Option.bind (getJob i q)
      (\<lambda>j. if eligible now seen j then getJob i (snd (runAttempt w j now q)) else Some j)" for i
  proof (cases "i = jr_id job")
    case True
    have "getJob i q' = getJob i ?q1"
      using rest job' True by (simp add: drained_def getJob_def eligible_def)
    with True job show ?thesis by simp
  next
    case False
    show ?thesis
    proof (cases "getJob i q")
      case (Some j)
      then have i: "jr_id j = i" using queue_ok_get [OF ok] by (simp add: job_ok_def)
      have "getJob i (snd (runAttempt w j now ?q1)) = getJob i (snd (runAttempt w j now q))"
        using runAttempt_local [of ?q1 q j w now] i by (simp add: runAttempt_keeps)
      with rest False i Some show ?thesis by (simp add: drained_def other eligible_def)
    qed (use rest False in \<open>simp add: drained_def other\<close>)
  qed
  with rest show ?thesis by (simp add: drained_def runAttempt_keeps)
qed

lemma drain_loop_spec:
  assumes "queue_ok q" "valid_policy (jq_retry q)"
  shows "\<exists>sm' q'. drain_loop w now None seen sm q = (Inr sm', q') \<and> drained w now seen q q' \<and> job_run q q' \<and>
     outcome_counts sm q sm' q' \<and> js_processed sm' = js_processed sm + cnt (eligible now seen) (jq_jobs q)"
  using assms
proof (induction "unseen seen q" arbitrary: seen sm q rule: less_induct)
  case less
  show ?case
  proof (cases "nextEligible now seen q")
    case None
    then have "cnt (eligible now seen) (jq_jobs q) = 0"
      by (auto simp: nextEligible_def find_None_iff cnt_def filter_empty_conv)
    moreover have "\<not> eligible now seen job" if "getJob i q = Some job" for i job
      using None that less.prems(1)
      by (auto simp: nextEligible_def find_None_iff getJob_def queue_ok_def in_js_values)
    then have "drained w now seen q q"
      by (auto simp: drained_def bind_eq_Some_conv intro!: option.expand split: bind_splits)
    ultimately show ?thesis
      using None less.prems by (subst drain_loop.simps) (simp add: outcome_counts_def)
  next
    case (Some job)
    define q1 where "q1 = snd (runAttempt w job now q)"
    define sm1 where "sm1 = tally_job (map_option jr_state (getJob (jr_id job) q1)) sm"
    have run1: "job_run q q1" unfolding q1_def using Some by (rule runAttempt_run)
    then have ok1: "queue_ok q1" using less.prems(1) by (rule job_run_ok)
    have job: "job \<in> set (js_values (jq_jobs q))" "eligible now seen job"
      using nextEligibleD [OF Some] by auto
    note stored = queue_ok_values [OF less.prems(1) job(1)]
    have "0 \<le> jr_attempts job"
      using queue_ok_get [OF less.prems(1) stored] by (simp add: job_ok_def attempts_bound_def)
    then have ran: "runAttempt w job now q = (Inr (), q1)"
      using runAttempt_returns [OF less.prems(2), of job w now] by (simp add: q1_def prod_eq_iff)
    have loop: "drain_loop w now None seen sm q = drain_loop w now None (jr_id job # seen) sm1 q1"
      using Some ran by (subst drain_loop.simps) (simp add: Let_def sm1_def tally_job_def)
    have counts: "outcome_counts sm q sm1 q1"
      unfolding sm1_def q1_def using job(2) by (intro gained_counts runAttempt_gained) (simp add: eligible_def)
    obtain job' where job': "jq_jobs q1 = js_set (jr_id job) job' (jq_jobs q)" "jr_id job' = jr_id job"
      using runAttempt_jobs unfolding q1_def by blast
    have "cnt (eligible now (jr_id job # seen)) (jq_jobs q1) = cnt (eligible now (jr_id job # seen)) (jq_jobs q)"
      unfolding job'(1) using less.prems(1) stored job'(2)
      by (intro cnt_set_same [where u = job]) (auto simp: queue_ok_def getJob_def eligible_def)
    then have count: "cnt (eligible now seen) (jq_jobs q) = cnt (eligible now (jr_id job # seen)) (jq_jobs q1) + 1"
      using cnt_eligible_seen [OF job_ids [OF less.prems(1)] job] by simp
    have "unseen (jr_id job # seen) q1 < unseen seen q"
      using runAttempt_unseen [OF Some ran [symmetric]] .
    then obtain sm2 q2 where "drain_loop w now None (jr_id job # seen) sm1 q1 = (Inr sm2, q2)"
      "drained w now (jr_id job # seen) q1 q2" "job_run q1 q2" "outcome_counts sm1 q1 sm2 q2"
      "js_processed sm2 = js_processed sm1 + cnt (eligible now (jr_id job # seen)) (jq_jobs q1)"
      using less.hyps [OF _ ok1, of "jr_id job # seen" sm1] less.prems(2) by (auto simp: q1_def runAttempt_keeps)
    moreover have "js_processed sm1 = js_processed sm + 1" by (simp add: sm1_def tally_job_def)
    ultimately show ?thesis
      using loop count run1 outcome_counts_trans [OF counts] drained_step [OF less.prems(1) Some, of w q2]
      by (auto simp: q1_def)
  qed
qed

text \<open>
  A drain with a valid policy returns. It attempts every job that is due exactly once: each due job
  ends as a single attempt of it would leave it, every other job is as it was. The summary counts the
  due jobs, and of them what the counters of the queue gained.
\<close>

lemma drain_attempts_due_once:
  assumes "queue_ok q" "valid_policy (jq_retry q)"
  shows "\<exists>sm q'. drain w now None q = (Inr sm, q') \<and> job_run q q' \<and>
     (\<forall>i. getJob i q' = Option.bind (getJob i q)
        (\<lambda>job. if eligible now [] job then getJob i (snd (runAttempt w job now q)) else Some job)) \<and>
     js_processed sm = length (filter (eligible now []) (js_values (jq_jobs q))) \<and>
     js_processed sm = js_completed sm + js_retried sm + js_deadLettered sm \<and>
     jq_totalCompleted q' = jq_totalCompleted q + js_completed sm \<and>
     jq_totalDeadLettered q' = jq_totalDeadLettered q + js_deadLettered sm"
  using drain_loop_spec [OF assms, of w now "[]" empty_summary]
  by (auto simp: drain_def drained_def outcome_counts_def empty_summary_def cnt_def)

lemma drain_attempts_due_once_witness:
  "\<exists>sm q'. drain demo_jobs 2 None demo_queue = (Inr sm, q') \<and> js_processed sm = 2 \<and> js_completed sm = 1 \<and>
     js_retried sm = 1"
proof -
  have "queue_ok demo_queue" using job_run_ok [OF demo_queue_run queue_ok_new] .
  moreover have "valid_policy (jq_retry demo_queue)" by code_simp
  ultimately obtain sm q' where d: "drain demo_jobs 2 None demo_queue = (Inr sm, q')"
    "js_processed sm = length (filter (eligible 2 []) (js_values (jq_jobs demo_queue)))"
    "jq_totalCompleted q' = jq_totalCompleted demo_queue + js_completed sm"
    "js_processed sm = js_completed sm + js_retried sm + js_deadLettered sm"
    "jq_totalDeadLettered q' = jq_totalDeadLettered demo_queue + js_deadLettered sm"
    using drain_attempts_due_once [of demo_queue demo_jobs 2] by blast
  have "length (filter (eligible 2 []) (js_values (jq_jobs demo_queue))) = 2" by code_simp
  moreover have "jq_totalCompleted (snd (drain demo_jobs 2 None demo_queue)) = 1 \<and>
      jq_totalDeadLettered (snd (drain demo_jobs 2 None demo_queue)) = 0" by code_simp
  moreover have "jq_totalCompleted demo_queue = 0" "jq_totalDeadLettered demo_queue = 0" by code_simp+
  ultimately show ?thesis using d by auto
qed

subsection \<open>Every job comes to an end\<close>

definition longest_delay :: "RetryPolicy \<Rightarrow> int" where
  "longest_delay p = \<lfloor>rp_maxDelayMs p + 1 / 2\<rfloor>"

lemma rejected_pending:
  assumes valid: "valid_policy (jq_retry q)" and pos: "1 \<le> jr_attempts job" and r: "0 \<le> r" "r \<le> 1"
    and j': "getJob (jr_id job) (snd (attempt_rejected job now message clock r q)) = Some j'" "jr_state j' = JobPending"
  shows "jr_attempts j' = jr_attempts job \<and>
    (\<exists>t. jr_nextAttemptAt j' = Some t \<and> t \<le> now + longest_delay (jq_retry q))"
proof (cases "canRetry (jr_attempts job) (jq_retry q)")
  case True
  obtain d where d: "computeBackoffDelayMs (jr_attempts job) (jq_retry q) r = Inr d" "d \<le> longest_delay (jq_retry q)"
    using backoff_range [OF valid pos r] by (auto simp: longest_delay_def)
  with True j' show ?thesis by (auto simp: attempt_rejected_def getJob_def Let_def)
next
  case False
  with j' show ?thesis by (simp add: attempt_rejected_def deadLetter_def getJob_def Let_def) auto
qed

lemma runAttempt_pending:
  assumes valid: "valid_policy (jq_retry q)" and pos: "0 \<le> jr_attempts job"
    and r: "\<And>i n. 0 \<le> jw_random w i n \<and> jw_random w i n \<le> 1"
    and j': "getJob (jr_id job) (snd (runAttempt w job now q)) = Some j'" "jr_state j' = JobPending"
  shows "jr_attempts j' = jr_attempts job + 1 \<and>
    (\<exists>t. jr_nextAttemptAt j' = Some t \<and> t \<le> now + longest_delay (jq_retry q))"
proof (cases "js_get (jq_handlers q) (jr_name job)")
  case None
  with j' show ?thesis by (simp add: runAttempt_def start_attempt_def deadLetter_def getJob_def Let_def) auto
next
  case (Some h)
  define c where "c = jw_start w (jr_id job) (jr_attempts job + 1)"
  define q1 where "q1 = snd (start_attempt job now c q)"
  have f: "jr_id (begin_attempt job c) = jr_id job" "jr_attempts (begin_attempt job c) = jr_attempts job + 1"
    "jq_retry q1 = jq_retry q"
    using Some by (simp_all add: begin_attempt_def q1_def start_attempt_def Let_def)
  obtain result clock n where fin: "getJob (jr_id job)
      (snd (finish_attempt (begin_attempt job c) now result clock (jw_random w (jr_id job) n) q1)) = Some j'"
    using j'(1) unfolding runAttempt_finish [OF Some] c_def [symmetric] q1_def [symmetric] by blast
  show ?thesis
  proof (cases result)
    case None
    with fin j'(2) f(1) show ?thesis by (auto simp: finish_attempt_def attempt_resolved_def getJob_def Let_def)
  next
    case (Some message)
    with fin rejected_pending [of q1 "begin_attempt job c" "jw_random w (jr_id job) n" now message clock j']
      valid pos r j'(2) f
    show ?thesis by (simp add: finish_attempt_def)
  qed
qed

definition drains :: "('p, 'h) job_world \<Rightarrow> int list \<Rightarrow> ('p, 'h) job_queue \<Rightarrow> ('p, 'h) job_queue" where
  "drains w ts q = fold (\<lambda>now q. snd (drain w now None q)) ts q"

text \<open>Every pending job has been attempted so often, and is due by then.\<close>

definition due_by :: "int \<Rightarrow> int \<Rightarrow> ('p, 'h) job_queue \<Rightarrow> bool" where
  "due_by n t q \<longleftrightarrow> (\<forall>i job. getJob i q = Some job \<longrightarrow> jr_state job = JobPending \<longrightarrow>
     n \<le> jr_attempts job \<and> (\<forall>u. jr_nextAttemptAt job = Some u \<longrightarrow> u \<le> t))"

lemma drain_due_by:
  assumes ok: "queue_ok q" "valid_policy (jq_retry q)" and r: "\<And>i n. 0 \<le> jw_random w i n \<and> jw_random w i n \<le> 1"
    and due: "due_by n now q"
  shows "due_by (n + 1) (now + longest_delay (jq_retry q)) (snd (drain w now None q)) \<and>
    queue_ok (snd (drain w now None q)) \<and> jq_retry (snd (drain w now None q)) = jq_retry q"
proof -
  obtain sm q' where d: "drain w now None q = (Inr sm, q')" "job_run q q'" "drained w now [] q q'"
    using drain_loop_spec [OF ok, of w now "[]" empty_summary] by (auto simp: drain_def)
  have "n + 1 \<le> jr_attempts j' \<and> (\<forall>u. jr_nextAttemptAt j' = Some u \<longrightarrow> u \<le> now + longest_delay (jq_retry q))"
    if j': "getJob i q' = Some j'" "jr_state j' = JobPending" for i j'
  proof -
    obtain job where job: "getJob i q = Some job"
      "(if eligible now [] job then getJob i (snd (runAttempt w job now q)) else Some job) = Some j'"
      using d(3) j'(1) by (auto simp: drained_def bind_eq_Some_conv)
    have i: "jr_id job = i" "0 \<le> jr_attempts job"
      using queue_ok_get [OF ok(1) job(1)] by (auto simp: job_ok_def attempts_bound_def)
    have "eligible now [] job"
      using job j'(2) due by (auto simp: eligible_def due_by_def split: if_splits option.splits)
    then have "jr_state job = JobPending" "getJob i (snd (runAttempt w job now q)) = Some j'"
      using job(2) by (simp_all add: eligible_def)
    then show ?thesis
      using runAttempt_pending [OF ok(2) i(2) r, of now j'] i(1) j'(2) due job(1) by (fastforce simp: due_by_def)
  qed
  then show ?thesis using d job_run_ok [OF d(2) ok(1)] by (simp add: due_by_def drained_def)
qed

text \<open>Reference times of the drains: each at least the longest delay after the one before.\<close>

fun spaced :: "int \<Rightarrow> int list \<Rightarrow> bool" where
  "spaced d (s # t # ts) = (s + d \<le> t \<and> spaced d (t # ts))"
| "spaced d _ = True"

lemma drains_due_by:
  assumes "queue_ok q" "valid_policy (jq_retry q)" and r: "\<And>i n. 0 \<le> jw_random w i n \<and> jw_random w i n \<le> 1"
    and "due_by n t q" "spaced (longest_delay (jq_retry q)) (t # ts)"
  shows "\<exists>u. due_by (n + int (length (t # ts))) u (drains w (t # ts) q) \<and> queue_ok (drains w (t # ts) q) \<and>
     jq_retry (drains w (t # ts) q) = jq_retry q"
  using assms(1,2,4,5)
proof (induction ts arbitrary: q n t)
  case Nil
  with drain_due_by [OF Nil(1,2) r Nil(3)] show ?case by (auto simp: drains_def)
next
  case (Cons s ts)
  let ?q = "snd (drain w t None q)"
  note d = drain_due_by [OF Cons.prems(1,2) r Cons.prems(3)]
  have "due_by (n + 1) s ?q" using d Cons.prems(4) by (force simp: due_by_def)
  with Cons.IH [of ?q "n + 1" s] d Cons.prems(2,4) show ?case by (simp add: drains_def add.assoc)
qed

text \<open>
  Every job comes to an end: of the jobs in a queue whose pending jobs are due, none is pending any
  more after as many drains as a job has attempts, when each drain comes at least the longest delay
  after the one before: each was completed or is dead, and with a reason in the dead letter queue.
\<close>

lemma drains_end_every_job:
  assumes "queue_ok q" "valid_policy (jq_retry q)"
    and "\<And>i n. 0 \<le> jw_random w i n \<and> jw_random w i n \<le> 1"
    and "due_by 0 t q" "spaced (longest_delay (jq_retry q)) (t # ts)"
    and "rp_maxAttempts (jq_retry q) \<le> int (length (t # ts))"
    and "getJob i (drains w (t # ts) q) = Some job" "jr_state job \<noteq> JobProcessing"
  shows "jr_state job = JobCompleted \<or>
     jr_state job = JobDead \<and> (\<exists>e\<in>set (jq_deadLetters (drains w (t # ts) q)). dl_job e = job \<and>
       jr_lastError job = Some (dl_reason e))"
proof -
  let ?q = "drains w (t # ts) q"
  obtain u where u: "due_by (int (length (t # ts))) u ?q" "queue_ok ?q" "jq_retry ?q = jq_retry q"
    using drains_due_by [OF assms(1-5)] by auto
  note ok = queue_ok_get [OF u(2) assms(7)]
  have "jr_attempts job < rp_maxAttempts (jq_retry q)" if "jr_state job = JobPending"
    using ok that assms(2) by (auto simp: job_ok_def attempts_bound_def u(3) valid_policy_def)
  then have "jr_state job \<noteq> JobPending"
    using u(1) assms(6,7) by (fastforce simp: due_by_def)
  moreover have "jr_state job \<noteq> JobFailed" using ok by (simp add: job_ok_def)
  moreover have "\<exists>e\<in>set (jq_deadLetters ?q). dl_job e = job \<and> jr_lastError job = Some (dl_reason e)"
    if dead: "jr_state job = JobDead"
  proof -
    obtain e where e: "e \<in> set (jq_deadLetters ?q)" "jr_id (dl_job e) = i"
      using ok dead by (auto simp: job_ok_def)
    with dead_in_letters [OF u(2) e(1)] assms(7) show ?thesis by auto
  qed
  ultimately show ?thesis using assms(8) by (cases "jr_state job") auto
qed

lemma drains_end_every_job_witness:
  "map (\<lambda>i. map_option jr_state (getJob i (drains demo_jobs [2, 100000, 200000] demo_queue))) [''a'', ''b''] =
     [Some JobCompleted, Some JobDead] \<and>
   (\<exists>job. getJob ''b'' (drains demo_jobs [2, 100000, 200000] demo_queue) = Some job \<and>
     (\<exists>e\<in>set (jq_deadLetters (drains demo_jobs [2, 100000, 200000] demo_queue)). dl_job e = job \<and>
       jr_lastError job = Some (dl_reason e)))"
proof -
  have states: "map (\<lambda>i. map_option jr_state (getJob i (drains demo_jobs [2, 100000, 200000] demo_queue))) [''a'', ''b''] =
     [Some JobCompleted, Some JobDead]" by code_simp
  then obtain job where job: "getJob ''b'' (drains demo_jobs [2, 100000, 200000] demo_queue) = Some job"
    "jr_state job = JobDead" by auto
  have retry: "jq_retry demo_queue = DEFAULT_RETRY_POLICY" by code_simp
  have due: "due_by 0 2 demo_queue"
    by (simp add: due_by_def getJob_def demo_queue_def enqueue_def registerHandler_def new_job_queue_def Let_def)
  have long: "longest_delay DEFAULT_RETRY_POLICY = 60000"
    by (simp add: longest_delay_def DEFAULT_RETRY_POLICY_def floor_eq_iff)
  have valid: "valid_policy DEFAULT_RETRY_POLICY" and tries: "rp_maxAttempts DEFAULT_RETRY_POLICY = 3"
    and random: "jw_random demo_jobs k n = 1 / 2" for k n
    by (simp_all add: valid_policy_def DEFAULT_RETRY_POLICY_def demo_jobs_def)
  have "jr_state job = JobCompleted \<or> jr_state job = JobDead \<and>
      (\<exists>e\<in>set (jq_deadLetters (drains demo_jobs [2, 100000, 200000] demo_queue)). dl_job e = job \<and>
        jr_lastError job = Some (dl_reason e))"
    by (rule drains_end_every_job [OF _ _ _ due _ _ job(1)])
      (use job job_run_ok [OF demo_queue_run queue_ok_new] in
        \<open>simp_all add: retry long valid tries random\<close>)
  with job(2) have "\<exists>e\<in>set (jq_deadLetters (drains demo_jobs [2, 100000, 200000] demo_queue)). dl_job e = job \<and>
      jr_lastError job = Some (dl_reason e)" by simp
  with states job(1) show ?thesis by blast
qed

text \<open>
  An invalid policy, which the constructor accepts, makes the delay throw while an attempt is being
  rejected: \<open>drain\<close> rejects, and the job stays in \<open>processing\<close>, from where no drain takes it.
\<close>

definition bad_policy :: RetryPolicy where
  "bad_policy = DEFAULT_RETRY_POLICY\<lparr>rp_multiplier := 1 / 2\<rparr>"

definition bad_queue :: "(nat, string) job_queue" where
  "bad_queue = snd (enqueue ''b'' ''mail'' 5 2 (snd (registerHandler ''mail'' ''h'' (new_job_queue bad_policy))))"

lemma processing_is_never_taken:
  "jr_state job = JobProcessing \<Longrightarrow> \<not> eligible now seen job"
  by (simp add: eligible_def)

lemma invalid_policy_loses_job:
  "fst (drain demo_jobs 2 None bad_queue) = Inl MultiplierTooSmall \<and>
   map_option jr_state (getJob ''b'' (snd (drain demo_jobs 2 None bad_queue))) = Some JobProcessing \<and>
   getDeadLetters (snd (drain demo_jobs 2 None bad_queue)) = []"
proof -
  have "fst (drain demo_jobs 2 None bad_queue) = Inl MultiplierTooSmall" by code_simp
  moreover have "map_option jr_state (getJob ''b'' (snd (drain demo_jobs 2 None bad_queue))) = Some JobProcessing"
    by code_simp
  moreover have "getDeadLetters (snd (drain demo_jobs 2 None bad_queue)) = []" by code_simp
  ultimately show ?thesis by simp
qed

end
