(* ===== verification/Disputes.thy ===== *)
theory Disputes
  imports BaseService Money
begin

text \<open>
  \<open>backend/src/services/dispute-resolution/\<close>: the state machine of a payment dispute
  (\<open>workflow-engine.ts\<close>) and the service that runs disputes on it (\<open>dispute-resolution-service.ts\<close>),
  with evidence, messages, resolutions, the timeline and the notifications. Times are milliseconds
  and the readings of the clock within one call are equal. Every record has an identifier of its own:
  the identifiers come from a supply, whose next position is part of the state. A call changes the
  dispute before its first \<open>await\<close>; the notifications follow, and other calls may come in between.
\<close>

subsection \<open>The state machine\<close>

datatype DisputeStatus =
  DsPending | DsAwaitingResponse | DsUnderReview | DsResolved | DsEscalated | DsDismissed

datatype DisputeReason =
  ServiceNotDelivered | PartialDelivery | QualityIssue | UnauthorizedCharge | DuplicateCharge | OtherReason

datatype ResolutionOutcome = FullRefund | PartialRefund | ReleaseToPayee | OutcomeDismissed | OutcomePending

datatype DisputeEvent = Submit | Respond | AddEvidence | Escalate | AssignArbitrator | Resolve | Dismiss

definition RESPONSE_SLA_HOURS :: int where
  "RESPONSE_SLA_HOURS = 72"

definition ESCALATION_SLA_HOURS :: int where
  "ESCALATION_SLA_HOURS = 168"

fun TRANSITIONS :: "DisputeStatus \<Rightarrow> DisputeEvent \<Rightarrow> DisputeStatus option" where
  "TRANSITIONS DsPending Submit = Some DsAwaitingResponse"
| "TRANSITIONS DsPending Dismiss = Some DsDismissed"
| "TRANSITIONS DsAwaitingResponse Respond = Some DsUnderReview"
| "TRANSITIONS DsAwaitingResponse AddEvidence = Some DsAwaitingResponse"
| "TRANSITIONS DsAwaitingResponse Escalate = Some DsEscalated"
| "TRANSITIONS DsAwaitingResponse Dismiss = Some DsDismissed"
| "TRANSITIONS DsUnderReview AddEvidence = Some DsUnderReview"
| "TRANSITIONS DsUnderReview AssignArbitrator = Some DsUnderReview"
| "TRANSITIONS DsUnderReview Escalate = Some DsEscalated"
| "TRANSITIONS DsUnderReview Resolve = Some DsResolved"
| "TRANSITIONS DsUnderReview Dismiss = Some DsDismissed"
| "TRANSITIONS DsEscalated AddEvidence = Some DsEscalated"
| "TRANSITIONS DsEscalated AssignArbitrator = Some DsUnderReview"
| "TRANSITIONS DsEscalated Resolve = Some DsResolved"
| "TRANSITIONS DsEscalated Dismiss = Some DsDismissed"
| "TRANSITIONS _ _ = None"

definition canTransition :: "DisputeStatus \<Rightarrow> DisputeEvent \<Rightarrow> bool" where
  "canTransition before event \<longleftrightarrow> TRANSITIONS before event \<noteq> None"

text \<open>\<open>nextStatus\<close> throws on an illegal transition: every call of it is guarded by \<open>canTransition\<close>.\<close>

definition nextStatus :: "DisputeStatus \<Rightarrow> DisputeEvent \<Rightarrow> DisputeStatus option" where
  "nextStatus before event = TRANSITIONS before event"

definition isTerminal :: "DisputeStatus \<Rightarrow> bool" where
  "isTerminal status \<longleftrightarrow> status = DsResolved \<or> status = DsDismissed"

definition statusForOutcome :: "ResolutionOutcome \<Rightarrow> DisputeStatus" where
  "statusForOutcome outcome = (if outcome = OutcomeDismissed then DsDismissed else DsResolved)"

definition addHoursIso :: "int \<Rightarrow> int \<Rightarrow> int" where
  "addHoursIso before hours = before + hours * 3600000"

record dispute_deadlines =
  dd_responseDeadline :: int
  dd_escalationDeadline :: int

definition computeDeadlines :: "int \<Rightarrow> dispute_deadlines" where
  "computeDeadlines openedAt =
     \<lparr>dd_responseDeadline = addHoursIso openedAt RESPONSE_SLA_HOURS,
      dd_escalationDeadline = addHoursIso openedAt ESCALATION_SLA_HOURS\<rparr>"

definition shouldAutoEscalate :: "DisputeStatus \<Rightarrow> int \<Rightarrow> int \<Rightarrow> int \<Rightarrow> bool" where
  "shouldAutoEscalate status responseDeadline escalationDeadline now =
     (if isTerminal status \<or> status = DsEscalated then False
      else if status = DsAwaitingResponse \<and> responseDeadline < now then True
      else if (status = DsUnderReview \<or> status = DsPending) \<and> escalationDeadline < now then True
      else False)"

definition VALID_REASONS :: "DisputeReason list" where
  "VALID_REASONS =
     [ServiceNotDelivered, PartialDelivery, QualityIssue, UnauthorizedCharge, DuplicateCharge, OtherReason]"

definition VALID_OUTCOMES :: "ResolutionOutcome list" where
  "VALID_OUTCOMES = [FullRefund, PartialRefund, ReleaseToPayee, OutcomeDismissed, OutcomePending]"

definition ALL_STATUSES :: "DisputeStatus list" where
  "ALL_STATUSES = [DsPending, DsAwaitingResponse, DsUnderReview, DsResolved, DsEscalated, DsDismissed]"

text \<open>The strings of the unions, where they are part of a message.\<close>

primrec status_text :: "DisputeStatus \<Rightarrow> string" where
  "status_text DsPending = ''pending''"
| "status_text DsAwaitingResponse = ''awaiting_response''"
| "status_text DsUnderReview = ''under_review''"
| "status_text DsResolved = ''resolved''"
| "status_text DsEscalated = ''escalated''"
| "status_text DsDismissed = ''dismissed''"

primrec reason_text :: "DisputeReason \<Rightarrow> string" where
  "reason_text ServiceNotDelivered = ''service_not_delivered''"
| "reason_text PartialDelivery = ''partial_delivery''"
| "reason_text QualityIssue = ''quality_issue''"
| "reason_text UnauthorizedCharge = ''unauthorized_charge''"
| "reason_text DuplicateCharge = ''duplicate_charge''"
| "reason_text OtherReason = ''other''"

primrec outcome_text :: "ResolutionOutcome \<Rightarrow> string" where
  "outcome_text FullRefund = ''full_refund''"
| "outcome_text PartialRefund = ''partial_refund''"
| "outcome_text ReleaseToPayee = ''release_to_payee''"
| "outcome_text OutcomeDismissed = ''dismissed''"
| "outcome_text OutcomePending = ''pending''"

subsection \<open>Records\<close>

datatype sender_role = RolePayer | RolePayee | RoleArbitrator | RoleSystem

datatype resolver_role = ByArbitrator | BySystem | ByAdmin

datatype timeline_event = Workflow DisputeEvent | Created | Notified | EvidenceRemoved

datatype notification_channel = ChEmail | ChPush | ChInApp | ChWebhook

record EvidenceDTO =
  ev_id :: string
  ev_disputeId :: string
  ev_submittedBy :: string
  ev_fileUrl :: string
  ev_fileName :: string
  ev_fileType :: string
  ev_fileSize :: rat
  ev_description :: string
  ev_timestamp :: int
  ev_hash :: string

record DisputeMessageDTO =
  dm_id :: string
  dm_disputeId :: string
  dm_senderId :: string
  dm_senderRole :: sender_role
  dm_content :: string
  dm_timestamp :: int

record ResolutionRecordDTO =
  rr_id :: string
  rr_disputeId :: string
  rr_outcome :: ResolutionOutcome
  rr_resolutionNote :: string
  rr_refundAmount :: "rat option"
  rr_resolvedBy :: string
  rr_resolvedByRole :: resolver_role
  rr_createdAt :: int

record TimelineEventDTO =
  tl_id :: string
  tl_disputeId :: string
  tl_event :: timeline_event
  tl_actorId :: string
  tl_detail :: string
  tl_fromStatus :: "DisputeStatus option"
  tl_toStatus :: "DisputeStatus option"
  tl_createdAt :: int

record DisputeNotificationDTO =
  dn_id :: string
  dn_disputeId :: string
  dn_recipientId :: string
  dn_channel :: notification_channel
  dn_templateId :: string
  dn_subject :: string
  dn_body :: string
  dn_createdAt :: int
  dn_delivered :: bool

record DisputeDTO =
  di_id :: string
  di_tenantId :: string
  di_paymentId :: string
  di_projectId :: "string option"
  di_invoiceId :: "string option"
  di_filedBy :: string
  di_respondentId :: string
  di_arbitratorId :: "string option"
  di_status :: DisputeStatus
  di_reason :: DisputeReason
  di_amount :: rat
  di_currency :: string
  di_description :: string
  di_resolution :: "ResolutionOutcome option"
  di_resolutionNote :: "string option"
  di_refundAmount :: "rat option"
  di_responseDeadline :: int
  di_escalationDeadline :: int
  di_createdAt :: int
  di_updatedAt :: int
  di_resolvedAt :: "int option"

record DisputeDetail =
  det_dispute :: DisputeDTO
  det_evidence :: "EvidenceDTO list"
  det_messages :: "DisputeMessageDTO list"
  det_resolutions :: "ResolutionRecordDTO list"
  det_timeline :: "TimelineEventDTO list"
  det_notifications :: "DisputeNotificationDTO list"

record CreateDisputeInput =
  cdi_tenantId :: string
  cdi_paymentId :: string
  cdi_filedBy :: string
  cdi_respondentId :: string
  cdi_reason :: DisputeReason
  cdi_amount :: rat
  cdi_currency :: string
  cdi_description :: string
  cdi_projectId :: "string option"
  cdi_invoiceId :: "string option"

record RespondInput =
  rsi_senderId :: string
  rsi_senderRole :: sender_role
  rsi_content :: string

record AddEvidenceInput =
  aei_submittedBy :: string
  aei_fileUrl :: string
  aei_fileName :: string
  aei_fileType :: string
  aei_fileSize :: rat
  aei_description :: string
  aei_contentBytes :: "string option"

record ResolveInput =
  ri_outcome :: ResolutionOutcome
  ri_resolutionNote :: string
  ri_resolvedBy :: string
  ri_resolvedByRole :: "resolver_role option"
  ri_refundAmount :: "rat option"

record ListDisputesParams =
  ldp_tenantId :: "string option"
  ldp_status :: "DisputeStatus option"
  ldp_filedBy :: "string option"
  ldp_respondentId :: "string option"
  ldp_arbitratorId :: "string option"
  ldp_paymentId :: "string option"

record DisputeAnalytics =
  da_tenantId :: "string option"
  da_total :: nat
  da_openCount :: nat
  da_resolvedCount :: nat
  da_dismissedCount :: nat
  da_escalatedCount :: nat
  da_byStatus :: "(DisputeStatus, nat) jsmap"
  da_byReason :: "(DisputeReason, nat) jsmap"
  da_byOutcome :: "(ResolutionOutcome, nat) jsmap"
  da_averageResolutionHours :: "rat option"
  da_escalationRatePct :: rat
  da_totalRefunded :: rat
  da_evidenceCount :: nat
  da_notificationCount :: nat
  da_slaBreachCount :: nat
  da_generatedAt :: int

subsection \<open>The service\<close>

text \<open>
  What the service takes from the runtime: the supply of \<open>randomUUID\<close>, SHA-256 as hexadecimal text,
  and the texts of numbers and of times.
\<close>

record dispute_env =
  de_uuid :: "nat \<Rightarrow> string"
  de_sha256 :: "string \<Rightarrow> string"
  de_number :: "rat \<Rightarrow> string"
  de_iso :: "int \<Rightarrow> string"

record dispute_service =
  ds_disputes :: "(string, DisputeDTO) jsmap"
  ds_evidence :: "(string, EvidenceDTO) jsmap"
  ds_messages :: "(string, DisputeMessageDTO) jsmap"
  ds_resolutions :: "(string, ResolutionRecordDTO) jsmap"
  ds_timeline :: "(string, TimelineEventDTO) jsmap"
  ds_notifications :: "(string, DisputeNotificationDTO) jsmap"
  ds_uuids :: nat

definition new_dispute_service :: dispute_service where
  "new_dispute_service = \<lparr>ds_disputes = [], ds_evidence = [], ds_messages = [], ds_resolutions = [],
     ds_timeline = [], ds_notifications = [], ds_uuids = 0\<rparr>"

type_synonym 'a dispute_op = "(dispute_service, service_error, 'a) op"

definition commas :: "string list \<Rightarrow> string" where
  "commas xs = concat (case xs of [] \<Rightarrow> [] | y # ys \<Rightarrow> y # map (\<lambda>x. '', '' @ x) ys)"

definition fail_transition :: "string \<Rightarrow> service_error" where
  "fail_transition message = \<lparr>err_message = message, err_statusCode = 409, err_code = ''INVALID_TRANSITION''\<rparr>"

definition hashEvidence :: "dispute_env \<Rightarrow> string \<Rightarrow> string" where
  "hashEvidence env payload = de_sha256 env payload"

definition next_uuid :: "dispute_env \<Rightarrow> dispute_service \<Rightarrow> string" where
  "next_uuid env s = de_uuid env (ds_uuids s)"

definition put_dispute :: "DisputeDTO \<Rightarrow> dispute_service \<Rightarrow> dispute_service" where
  "put_dispute d s = s\<lparr>ds_disputes := js_set (di_id d) d (ds_disputes s)\<rparr>"

definition pushTimeline ::
  "dispute_env \<Rightarrow> string \<Rightarrow> timeline_event \<Rightarrow> string \<Rightarrow> string \<Rightarrow> DisputeStatus option \<Rightarrow> DisputeStatus option \<Rightarrow>
   int \<Rightarrow> dispute_service \<Rightarrow> dispute_service" where
  "pushTimeline env disputeId event actorId detail fromStatus toStatus now s =
     (let row = \<lparr>tl_id = next_uuid env s, tl_disputeId = disputeId, tl_event = event, tl_actorId = actorId,
            tl_detail = detail, tl_fromStatus = fromStatus, tl_toStatus = toStatus, tl_createdAt = now\<rparr>
      in s\<lparr>ds_timeline := js_set (tl_id row) row (ds_timeline s), ds_uuids := ds_uuids s + 1\<rparr>)"

definition push_notification ::
  "dispute_env \<Rightarrow> string \<Rightarrow> string \<Rightarrow> string \<Rightarrow> string \<Rightarrow> string \<Rightarrow> int \<Rightarrow> notification_channel \<Rightarrow>
   dispute_service \<Rightarrow> dispute_service" where
  "push_notification env disputeId recipientId templateId subject body now channel s =
     (let n = \<lparr>dn_id = next_uuid env s, dn_disputeId = disputeId, dn_recipientId = recipientId,
            dn_channel = channel, dn_templateId = templateId, dn_subject = subject, dn_body = body,
            dn_createdAt = now, dn_delivered = True\<rparr>
      in s\<lparr>ds_notifications := js_set (dn_id n) n (ds_notifications s), ds_uuids := ds_uuids s + 1\<rparr>)"

text \<open>The arrow of the detail in UTF-8.\<close>

definition arrow :: string where
  "arrow = [CHR 0xE2, CHR 0x86, CHR 0x92]"

text \<open>The dispute is passed by reference: its status is that of the moment.\<close>

definition notify ::
  "dispute_env \<Rightarrow> string \<Rightarrow> string \<Rightarrow> string \<Rightarrow> string \<Rightarrow> string \<Rightarrow> int \<Rightarrow> dispute_service \<Rightarrow> dispute_service" where
  "notify env disputeId recipientId templateId subject body now s =
     (let s = fold (push_notification env disputeId recipientId templateId subject body now)
                [ChEmail, ChPush, ChInApp] s;
          status = map_option di_status (js_get (ds_disputes s) disputeId)
      in pushTimeline env disputeId Notified ''system'' (templateId @ '' '' @ arrow @ '' '' @ recipientId)
           status status now s)"

subsection \<open>Reading\<close>

definition by_time :: "('v \<Rightarrow> int) \<Rightarrow> 'v list \<Rightarrow> 'v list" where
  "by_time = sort_key"

definition toDetail :: "DisputeDTO \<Rightarrow> dispute_service \<Rightarrow> DisputeDetail" where
  "toDetail dispute s =
     \<lparr>det_dispute = dispute,
      det_evidence = by_time ev_timestamp (filter (\<lambda>e. ev_disputeId e = di_id dispute) (js_values (ds_evidence s))),
      det_messages = by_time dm_timestamp (filter (\<lambda>m. dm_disputeId m = di_id dispute) (js_values (ds_messages s))),
      det_resolutions = by_time rr_createdAt (filter (\<lambda>r. rr_disputeId r = di_id dispute) (js_values (ds_resolutions s))),
      det_timeline = by_time tl_createdAt (filter (\<lambda>t. tl_disputeId t = di_id dispute) (js_values (ds_timeline s))),
      det_notifications = by_time dn_createdAt (filter (\<lambda>n. dn_disputeId n = di_id dispute) (js_values (ds_notifications s)))\<rparr>"

definition getDispute :: "string \<Rightarrow> dispute_service \<Rightarrow> service_error + DisputeDetail" where
  "getDispute i s =
     (case js_get (ds_disputes s) i of
        None \<Rightarrow> Inl (notFound ''Dispute'' i)
      | Some dispute \<Rightarrow> Inr (toDetail dispute s))"

definition listDisputes :: "ListDisputesParams \<Rightarrow> dispute_service \<Rightarrow> DisputeDTO list" where
  "listDisputes params s =
     newest_first di_createdAt
       (filter (\<lambda>d. \<not> truthy (ldp_paymentId params) \<or> Some (di_paymentId d) = ldp_paymentId params)
       (filter (\<lambda>d. \<not> truthy (ldp_arbitratorId params) \<or> di_arbitratorId d = ldp_arbitratorId params)
       (filter (\<lambda>d. \<not> truthy (ldp_respondentId params) \<or> Some (di_respondentId d) = ldp_respondentId params)
       (filter (\<lambda>d. \<not> truthy (ldp_filedBy params) \<or> Some (di_filedBy d) = ldp_filedBy params)
       (filter (\<lambda>d. case ldp_status params of None \<Rightarrow> True | Some st \<Rightarrow> di_status d = st)
       (filter (\<lambda>d. \<not> truthy (ldp_tenantId params) \<or> Some (di_tenantId d) = ldp_tenantId params)
         (js_values (ds_disputes s))))))))"

definition require_dispute :: "string \<Rightarrow> dispute_service \<Rightarrow> 'a \<Rightarrow> service_error + 'a" where
  "require_dispute disputeId s v =
     (if js_get (ds_disputes s) disputeId = None then Inl (notFound ''Dispute'' disputeId) else Inr v)"

definition listEvidence :: "string \<Rightarrow> dispute_service \<Rightarrow> service_error + EvidenceDTO list" where
  "listEvidence disputeId s = require_dispute disputeId s
     (by_time ev_timestamp (filter (\<lambda>e. ev_disputeId e = disputeId) (js_values (ds_evidence s))))"

definition getTimeline :: "string \<Rightarrow> dispute_service \<Rightarrow> service_error + TimelineEventDTO list" where
  "getTimeline i s = require_dispute i s
     (by_time tl_createdAt (filter (\<lambda>e. tl_disputeId e = i) (js_values (ds_timeline s))))"

definition getResolutions :: "string \<Rightarrow> dispute_service \<Rightarrow> service_error + ResolutionRecordDTO list" where
  "getResolutions i s = require_dispute i s
     (by_time rr_createdAt (filter (\<lambda>r. rr_disputeId r = i) (js_values (ds_resolutions s))))"

definition listNotifications :: "string option \<Rightarrow> dispute_service \<Rightarrow> DisputeNotificationDTO list" where
  "listNotifications disputeId s =
     by_time dn_createdAt (filter (\<lambda>n. \<not> truthy disputeId \<or> Some (dn_disputeId n) = disputeId)
       (js_values (ds_notifications s)))"

subsection \<open>Opening a dispute\<close>

definition create_error :: "CreateDisputeInput \<Rightarrow> service_error option" where
  "create_error input = first_error
     [validate (js_trim (cdi_tenantId input) \<noteq> []) ''tenantId is required'',
      validate (js_trim (cdi_paymentId input) \<noteq> []) ''paymentId is required'',
      validate (js_trim (cdi_filedBy input) \<noteq> []) ''filedBy is required'',
      validate (js_trim (cdi_respondentId input) \<noteq> []) ''respondentId is required'',
      validate (cdi_filedBy input \<noteq> cdi_respondentId input) ''filedBy and respondentId must differ'',
      validate (cdi_reason input \<in> set VALID_REASONS)
        (''reason must be one of '' @ commas (map reason_text VALID_REASONS)),
      validate (0 < cdi_amount input) ''amount must be a positive number'',
      validate (js_trim (cdi_currency input) \<noteq> []) ''currency is required'',
      validate (20 \<le> length (js_trim (cdi_description input))) ''description must be at least 20 characters'']"

definition active_for :: "string \<Rightarrow> DisputeDTO \<Rightarrow> bool" where
  "active_for paymentId d \<longleftrightarrow>
     di_paymentId d = paymentId \<and> \<not> isTerminal (di_status d) \<and> di_status d \<noteq> DsDismissed"

definition new_dispute :: "string \<Rightarrow> CreateDisputeInput \<Rightarrow> int \<Rightarrow> DisputeDTO" where
  "new_dispute i input now =
     (let deadlines = computeDeadlines now
      in \<lparr>di_id = i, di_tenantId = cdi_tenantId input, di_paymentId = cdi_paymentId input,
          di_projectId = cdi_projectId input, di_invoiceId = cdi_invoiceId input,
          di_filedBy = cdi_filedBy input, di_respondentId = cdi_respondentId input,
          di_arbitratorId = None, di_status = DsAwaitingResponse, di_reason = cdi_reason input,
          di_amount = cdi_amount input, di_currency = to_upper (cdi_currency input),
          di_description = js_trim (cdi_description input), di_resolution = None,
          di_resolutionNote = None, di_refundAmount = None,
          di_responseDeadline = dd_responseDeadline deadlines,
          di_escalationDeadline = dd_escalationDeadline deadlines, di_createdAt = now,
          di_updatedAt = now, di_resolvedAt = None\<rparr>)"

text \<open>Each operation up to its first \<open>await\<close>, and as a whole.\<close>

definition open_dispute :: "dispute_env \<Rightarrow> CreateDisputeInput \<Rightarrow> int \<Rightarrow> string dispute_op" where
  "open_dispute env input now s =
     (case create_error input of
        Some e \<Rightarrow> (Inl e, s)
      | None \<Rightarrow>
          if \<exists>d\<in>set (js_values (ds_disputes s)). active_for (cdi_paymentId input) d
          then (Inl (conflict (''Active dispute already exists for payment '' @ cdi_paymentId input)), s)
          else
            let i = next_uuid env s;
                s = put_dispute (new_dispute i input now) (s\<lparr>ds_uuids := ds_uuids s + 1\<rparr>)
            in (Inr i, pushTimeline env i Created (cdi_filedBy input) ''Dispute opened'' None
                  (Some DsAwaitingResponse) now s))"

definition with_detail :: "string \<Rightarrow> dispute_service \<Rightarrow> (service_error + DisputeDetail) \<times> dispute_service" where
  "with_detail i s = (getDispute i s, s)"

definition createDispute :: "dispute_env \<Rightarrow> CreateDisputeInput \<Rightarrow> int \<Rightarrow> DisputeDetail dispute_op" where
  "createDispute env input now s =
     (case open_dispute env input now s of
        (Inl e, s) \<Rightarrow> (Inl e, s)
      | (Inr i, s) \<Rightarrow>
          let s = notify env i (cdi_respondentId input) ''dispute_opened'' ''New payment dispute filed''
                (''A dispute was filed on payment '' @ cdi_paymentId input @ '': '' @ reason_text (cdi_reason input)) now s;
              s = notify env i (cdi_filedBy input) ''dispute_opened_ack'' ''Dispute submitted''
                (''Your dispute '' @ i @ '' is awaiting a response (deadline '' @
                 de_iso env (dd_responseDeadline (computeDeadlines now)) @ '').'') now s
          in with_detail i s)"

subsection \<open>The workflow\<close>

definition on_dispute ::
  "string \<Rightarrow> (DisputeDTO \<Rightarrow> 'a dispute_op) \<Rightarrow> 'a dispute_op" where
  "on_dispute i f s =
     (case js_get (ds_disputes s) i of
        None \<Rightarrow> (Inl (notFound ''Dispute'' i), s)
      | Some dispute \<Rightarrow> f dispute s)"

text \<open>The status moves along an event: the dispute is written, and the timeline gets its entry.\<close>

definition respond_core :: "dispute_env \<Rightarrow> string \<Rightarrow> RespondInput \<Rightarrow> int \<Rightarrow> DisputeDTO dispute_op" where
  "respond_core env i input now = on_dispute i (\<lambda>dispute s.
     (case first_error [validate (5 \<le> length (js_trim (rsi_content input))) ''content must be at least 5 characters''] of
        Some e \<Rightarrow> (Inl e, s)
      | None \<Rightarrow>
          (case nextStatus (di_status dispute) Respond of
             None \<Rightarrow> (Inl (fail_transition (''Cannot respond while dispute is '' @ status_text (di_status dispute))), s)
           | Some to \<Rightarrow>
               let s = put_dispute (dispute\<lparr>di_status := to, di_updatedAt := now\<rparr>) s;
                   message = \<lparr>dm_id = next_uuid env s, dm_disputeId = i, dm_senderId = rsi_senderId input,
                     dm_senderRole = rsi_senderRole input, dm_content = js_trim (rsi_content input), dm_timestamp = now\<rparr>;
                   s = s\<lparr>ds_messages := js_set (dm_id message) message (ds_messages s), ds_uuids := ds_uuids s + 1\<rparr>
               in (Inr dispute, pushTimeline env i (Workflow Respond) (rsi_senderId input) ''Party response recorded''
                     (Some (di_status dispute)) (Some to) now s))))"

definition respond :: "dispute_env \<Rightarrow> string \<Rightarrow> RespondInput \<Rightarrow> int \<Rightarrow> DisputeDetail dispute_op" where
  "respond env i input now s =
     (case respond_core env i input now s of
        (Inl e, s) \<Rightarrow> (Inl e, s)
      | (Inr dispute, s) \<Rightarrow>
          let notifyTarget = (if rsi_senderId input = di_filedBy dispute then di_respondentId dispute else di_filedBy dispute)
          in with_detail i (notify env i notifyTarget ''dispute_response'' ''Dispute response received''
               (''A response was posted on dispute '' @ i @ ''.'') now s))"

definition evidence_error :: "AddEvidenceInput \<Rightarrow> service_error option" where
  "evidence_error input = first_error
     [validate (js_trim (aei_fileUrl input) \<noteq> []) ''fileUrl is required'',
      validate (js_trim (aei_fileName input) \<noteq> []) ''fileName is required'',
      validate (js_trim (aei_fileType input) \<noteq> []) ''fileType is required'',
      validate (0 \<le> aei_fileSize input) ''fileSize must be a non-negative number'',
      validate (js_trim (aei_submittedBy input) \<noteq> []) ''submittedBy is required'']"

definition hashSource :: "dispute_env \<Rightarrow> AddEvidenceInput \<Rightarrow> int \<Rightarrow> string" where
  "hashSource env input now =
     (case aei_contentBytes input of
        Some bytes \<Rightarrow> bytes
      | None \<Rightarrow> aei_fileUrl input @ ''|'' @ aei_fileName input @ ''|'' @ de_number env (aei_fileSize input) @ ''|'' @
          aei_submittedBy input @ ''|'' @ de_number env (of_int now))"

text \<open>The ellipsis of the detail in UTF-8.\<close>

definition ellipsis :: string where
  "ellipsis = [CHR 0xE2, CHR 0x80, CHR 0xA6]"

definition evidence_core ::
  "dispute_env \<Rightarrow> string \<Rightarrow> AddEvidenceInput \<Rightarrow> int \<Rightarrow> (DisputeDTO \<times> EvidenceDTO) dispute_op" where
  "evidence_core env i input now = on_dispute i (\<lambda>dispute s.
     (case nextStatus (di_status dispute) AddEvidence of
        None \<Rightarrow> (Inl (fail_transition (''Cannot add evidence while dispute is '' @ status_text (di_status dispute))), s)
      | Some to \<Rightarrow>
          (case evidence_error input of
             Some e \<Rightarrow> (Inl e, s)
           | None \<Rightarrow>
               let evidence = \<lparr>ev_id = next_uuid env s, ev_disputeId = i, ev_submittedBy = aei_submittedBy input,
                     ev_fileUrl = aei_fileUrl input, ev_fileName = aei_fileName input, ev_fileType = aei_fileType input,
                     ev_fileSize = aei_fileSize input, ev_description = js_trim (aei_description input),
                     ev_timestamp = now, ev_hash = hashEvidence env (hashSource env input now)\<rparr>;
                   s = s\<lparr>ds_evidence := js_set (ev_id evidence) evidence (ds_evidence s), ds_uuids := ds_uuids s + 1\<rparr>;
                   s = put_dispute (dispute\<lparr>di_status := to, di_updatedAt := now\<rparr>) s
               in (Inr (dispute, evidence),
                   pushTimeline env i (Workflow AddEvidence) (aei_submittedBy input)
                     (''Evidence uploaded: '' @ ev_fileName evidence @ '' ('' @ take 12 (ev_hash evidence) @ ellipsis @ '')'')
                     (Some (di_status dispute)) (Some to) now s))))"

definition addEvidence :: "dispute_env \<Rightarrow> string \<Rightarrow> AddEvidenceInput \<Rightarrow> int \<Rightarrow> EvidenceDTO dispute_op" where
  "addEvidence env i input now s =
     (case evidence_core env i input now s of
        (Inl e, s) \<Rightarrow> (Inl e, s)
      | (Inr (dispute, evidence), s) \<Rightarrow>
          let peers = filter (\<lambda>uid. uid \<noteq> [] \<and> uid \<noteq> aei_submittedBy input)
                ([di_filedBy dispute, di_respondentId dispute] @ (case di_arbitratorId dispute of None \<Rightarrow> [] | Some a \<Rightarrow> [a]))
          in (Inr evidence, fold (\<lambda>recipientId. notify env i recipientId ''dispute_evidence'' ''New dispute evidence''
                (''Evidence \"'' @ ev_fileName evidence @ ''\" was added to dispute '' @ i @ ''.'') now) peers s))"

definition removeEvidence ::
  "dispute_env \<Rightarrow> string \<Rightarrow> string \<Rightarrow> string \<Rightarrow> int \<Rightarrow> DisputeDetail dispute_op" where
  "removeEvidence env disputeId evidenceId actorId now = on_dispute disputeId (\<lambda>dispute s.
     (if isTerminal (di_status dispute)
      then (Inl (fail_transition ''Cannot remove evidence from a closed dispute''), s)
      else
        (case js_get (ds_evidence s) evidenceId of
           None \<Rightarrow> (Inl (notFound ''Evidence'' evidenceId), s)
         | Some evidence \<Rightarrow>
             if ev_disputeId evidence \<noteq> disputeId then (Inl (notFound ''Evidence'' evidenceId), s)
             else
               let s = s\<lparr>ds_evidence := js_del evidenceId (ds_evidence s)\<rparr>;
                   s = put_dispute (dispute\<lparr>di_updatedAt := now\<rparr>) s;
                   s = pushTimeline env disputeId EvidenceRemoved actorId (''Evidence removed: '' @ ev_fileName evidence)
                     (Some (di_status dispute)) (Some (di_status dispute)) now s
               in with_detail disputeId s)))"

definition assign_core :: "dispute_env \<Rightarrow> string \<Rightarrow> string \<Rightarrow> string \<Rightarrow> int \<Rightarrow> unit dispute_op" where
  "assign_core env i arbitratorId actorId now = on_dispute i (\<lambda>dispute s.
     (case first_error [validate (js_trim arbitratorId \<noteq> []) ''arbitratorId is required''] of
        Some e \<Rightarrow> (Inl e, s)
      | None \<Rightarrow>
          (case nextStatus (di_status dispute) AssignArbitrator of
             None \<Rightarrow> (Inl (fail_transition (''Cannot assign arbitrator while dispute is '' @ status_text (di_status dispute))), s)
           | Some to \<Rightarrow>
               let s = put_dispute (dispute\<lparr>di_arbitratorId := Some arbitratorId, di_status := to, di_updatedAt := now\<rparr>) s
               in (Inr (), pushTimeline env i (Workflow AssignArbitrator) actorId
                     (''Arbitrator '' @ arbitratorId @ '' assigned'') (Some (di_status dispute)) (Some to) now s))))"

definition assignArbitrator :: "dispute_env \<Rightarrow> string \<Rightarrow> string \<Rightarrow> string \<Rightarrow> int \<Rightarrow> DisputeDetail dispute_op" where
  "assignArbitrator env i arbitratorId actorId now s =
     (case assign_core env i arbitratorId actorId now s of
        (Inl e, s) \<Rightarrow> (Inl e, s)
      | (Inr _, s) \<Rightarrow>
          with_detail i (notify env i arbitratorId ''dispute_assigned'' ''Dispute assigned to you''
            (''You were assigned as arbitrator on dispute '' @ i @ ''.'') now s))"

definition escalate_core :: "dispute_env \<Rightarrow> string \<Rightarrow> string \<Rightarrow> string \<Rightarrow> int \<Rightarrow> DisputeDTO dispute_op" where
  "escalate_core env i actorId note now = on_dispute i (\<lambda>dispute s.
     (case nextStatus (di_status dispute) Escalate of
        None \<Rightarrow> (Inl (fail_transition (''Cannot escalate while dispute is '' @ status_text (di_status dispute))), s)
      | Some to \<Rightarrow>
          let s = put_dispute (dispute\<lparr>di_status := to, di_updatedAt := now\<rparr>) s
          in (Inr dispute, pushTimeline env i (Workflow Escalate) actorId note (Some (di_status dispute)) (Some to) now s)))"

text \<open>Both parties are notified.\<close>

definition notify_parties ::
  "dispute_env \<Rightarrow> DisputeDTO \<Rightarrow> string \<Rightarrow> string \<Rightarrow> string \<Rightarrow> int \<Rightarrow> dispute_service \<Rightarrow> dispute_service" where
  "notify_parties env dispute templateId subject body now s =
     fold (\<lambda>recipientId. notify env (di_id dispute) recipientId templateId subject body now)
       [di_filedBy dispute, di_respondentId dispute] s"

definition escalate_dispute :: "dispute_env \<Rightarrow> string \<Rightarrow> string \<Rightarrow> string \<Rightarrow> int \<Rightarrow> DisputeDetail dispute_op" where
  "escalate_dispute env i actorId note now s =
     (case escalate_core env i actorId note now s of
        (Inl e, s) \<Rightarrow> (Inl e, s)
      | (Inr dispute, s) \<Rightarrow>
          with_detail i (notify_parties env dispute ''dispute_escalated'' ''Dispute escalated''
            (''Dispute '' @ i @ '' was escalated: '' @ note) now s))"

subsection \<open>Resolution\<close>

text \<open>A full refund writes the amount of the dispute into the input.\<close>

definition refund_of :: "DisputeDTO \<Rightarrow> ResolveInput \<Rightarrow> rat option" where
  "refund_of dispute input =
     (if ri_outcome input = FullRefund then Some (di_amount dispute) else ri_refundAmount input)"

definition resolve_error :: "DisputeDTO \<Rightarrow> ResolveInput \<Rightarrow> service_error option" where
  "resolve_error dispute input = first_error
     [validate (ri_outcome input \<in> set VALID_OUTCOMES)
        (''outcome must be one of '' @ commas (map outcome_text VALID_OUTCOMES)),
      validate (5 \<le> length (js_trim (ri_resolutionNote input))) ''resolutionNote must be at least 5 characters'',
      validate (js_trim (ri_resolvedBy input) \<noteq> []) ''resolvedBy is required'',
      validate (ri_outcome input = PartialRefund \<longrightarrow>
          (case ri_refundAmount input of None \<Rightarrow> False | Some a \<Rightarrow> 0 < a \<and> a \<le> di_amount dispute))
        ''partial_refund requires refundAmount in (0, dispute.amount]'']"

definition resolve_event :: "ResolutionOutcome \<Rightarrow> DisputeEvent" where
  "resolve_event outcome = (if outcome = OutcomeDismissed then Dismiss else Resolve)"

definition closed_by :: "DisputeDTO \<Rightarrow> ResolveInput \<Rightarrow> int \<Rightarrow> DisputeDTO" where
  "closed_by dispute input now =
     dispute\<lparr>di_status := statusForOutcome (ri_outcome input), di_resolution := Some (ri_outcome input),
       di_resolutionNote := Some (js_trim (ri_resolutionNote input)), di_refundAmount := refund_of dispute input,
       di_resolvedAt := Some now, di_updatedAt := now\<rparr>"

definition resolve_core :: "dispute_env \<Rightarrow> string \<Rightarrow> ResolveInput \<Rightarrow> int \<Rightarrow> DisputeDTO dispute_op" where
  "resolve_core env i input now = on_dispute i (\<lambda>dispute s.
     (case resolve_error dispute input of
        Some e \<Rightarrow> (Inl e, s)
      | None \<Rightarrow>
          if \<not> canTransition (di_status dispute) (resolve_event (ri_outcome input))
          then (Inl (fail_transition (''Cannot resolve while dispute is '' @ status_text (di_status dispute))), s)
          else
            let s = put_dispute (closed_by dispute input now) s;
                resolution = \<lparr>rr_id = next_uuid env s, rr_disputeId = i, rr_outcome = ri_outcome input,
                  rr_resolutionNote = js_trim (ri_resolutionNote input), rr_refundAmount = refund_of dispute input,
                  rr_resolvedBy = ri_resolvedBy input,
                  rr_resolvedByRole = (case ri_resolvedByRole input of None \<Rightarrow> ByArbitrator | Some r \<Rightarrow> r),
                  rr_createdAt = now\<rparr>;
                s = s\<lparr>ds_resolutions := js_set (rr_id resolution) resolution (ds_resolutions s),
                      ds_uuids := ds_uuids s + 1\<rparr>
            in (Inr dispute, pushTimeline env i (Workflow (resolve_event (ri_outcome input))) (ri_resolvedBy input)
                  (''Resolved: '' @ outcome_text (ri_outcome input)) (Some (di_status dispute))
                  (Some (statusForOutcome (ri_outcome input))) now s)))"

definition resolve_dispute :: "dispute_env \<Rightarrow> string \<Rightarrow> ResolveInput \<Rightarrow> int \<Rightarrow> DisputeDetail dispute_op" where
  "resolve_dispute env i input now s =
     (case resolve_core env i input now s of
        (Inl e, s) \<Rightarrow> (Inl e, s)
      | (Inr dispute, s) \<Rightarrow>
          with_detail i (notify_parties env dispute ''dispute_resolved'' ''Dispute resolved''
            (''Dispute '' @ i @ '' resolved with outcome '' @ outcome_text (ri_outcome input) @ ''.'') now s))"

subsection \<open>The escalation sweep\<close>

definition overdue :: "int \<Rightarrow> DisputeDTO \<Rightarrow> bool" where
  "overdue now d \<longleftrightarrow> shouldAutoEscalate (di_status d) (di_responseDeadline d) (di_escalationDeadline d) now"

text \<open>Over the disputes of the map, each as it is when its turn comes.\<close>

fun escalation_loop ::
  "dispute_env \<Rightarrow> int \<Rightarrow> int \<Rightarrow> string list \<Rightarrow> string list \<Rightarrow> dispute_service \<Rightarrow> string list \<times> dispute_service" where
  "escalation_loop env now clock [] ids s = (ids, s)"
| "escalation_loop env now clock (i # is) ids s =
     (case js_get (ds_disputes s) i of
        None \<Rightarrow> escalation_loop env now clock is ids s
      | Some d \<Rightarrow>
          if overdue now d
          then (case escalate_dispute env i ''system'' ''Auto-escalated past SLA deadline'' clock s of
                  (Inl _, s) \<Rightarrow> escalation_loop env now clock is ids s
                | (Inr _, s) \<Rightarrow> escalation_loop env now clock is (ids @ [i]) s)
          else escalation_loop env now clock is ids s)"

definition processEscalations :: "dispute_env \<Rightarrow> int \<Rightarrow> int \<Rightarrow> dispute_service \<Rightarrow> string list \<times> dispute_service" where
  "processEscalations env now clock s = escalation_loop env now clock (js_keys (ds_disputes s)) [] s"

subsection \<open>Analytics\<close>

definition bump :: "'k \<Rightarrow> ('k, nat) jsmap \<Rightarrow> ('k, nat) jsmap" where
  "bump k m = js_set k ((case js_get m k of None \<Rightarrow> 0 | Some n \<Rightarrow> n) + 1) m"

definition emptyStatusCounts :: "(DisputeStatus, nat) jsmap" where
  "emptyStatusCounts = map (\<lambda>s. (s, 0)) ALL_STATUSES"

definition emptyReasonCounts :: "(DisputeReason, nat) jsmap" where
  "emptyReasonCounts = map (\<lambda>r. (r, 0)) VALID_REASONS"

definition countOf :: "(DisputeStatus, nat) jsmap \<Rightarrow> DisputeStatus \<Rightarrow> nat" where
  "countOf m st = (case js_get m st of None \<Rightarrow> 0 | Some n \<Rightarrow> n)"

definition sla_breach :: "int \<Rightarrow> DisputeDTO \<Rightarrow> bool" where
  "sla_breach now d \<longleftrightarrow>
     \<not> isTerminal (di_status d) \<and> (di_responseDeadline d < now \<or> di_escalationDeadline d < now)"

definition resolution_hours :: "DisputeDTO list \<Rightarrow> rat list" where
  "resolution_hours rows =
     List.map_filter (\<lambda>d. map_option (\<lambda>ended. of_int (ended - di_createdAt d) / 3600000) (di_resolvedAt d)) rows"

definition getAnalytics :: "string option \<Rightarrow> int \<Rightarrow> dispute_service \<Rightarrow> DisputeAnalytics" where
  "getAnalytics tenantId now s =
     (let rows = filter (\<lambda>d. \<not> truthy tenantId \<or> Some (di_tenantId d) = tenantId) (js_values (ds_disputes s));
          byStatus = fold (\<lambda>d. bump (di_status d)) rows emptyStatusCounts;
          byReason = fold (\<lambda>d. bump (di_reason d)) rows emptyReasonCounts;
          byOutcome = fold (\<lambda>d. case di_resolution d of None \<Rightarrow> (\<lambda>m. m) | Some outcome \<Rightarrow> bump outcome) rows [];
          refunded = fold (\<lambda>d t. case di_refundAmount d of None \<Rightarrow> t | Some a \<Rightarrow> t + a) rows 0;
          hours = resolution_hours rows;
          of_rows = (\<lambda>i. \<exists>d\<in>set rows. di_id d = i);
          escalated = length (remdups (map tl_disputeId
            (filter (\<lambda>t. tl_event t = Workflow Escalate \<and> of_rows (tl_disputeId t)) (js_values (ds_timeline s)))))
      in \<lparr>da_tenantId = tenantId, da_total = length rows,
          da_openCount = length (filter (\<lambda>d. \<not> isTerminal (di_status d)) rows),
          da_resolvedCount = countOf byStatus DsResolved, da_dismissedCount = countOf byStatus DsDismissed,
          da_escalatedCount = countOf byStatus DsEscalated, da_byStatus = byStatus, da_byReason = byReason,
          da_byOutcome = byOutcome,
          da_averageResolutionHours =
            (if hours = [] then None else Some (round_cents (fold (\<lambda>b a. a + b) hours 0 / of_nat (length hours)))),
          da_escalationRatePct =
            (if rows = [] then 0
             else of_int (js_round (of_nat escalated / of_nat (length rows) * 10000)) / 100),
          da_totalRefunded = round_cents refunded,
          da_evidenceCount = length (filter (\<lambda>e. of_rows (ev_disputeId e)) (js_values (ds_evidence s))),
          da_notificationCount = length (filter (\<lambda>n. of_rows (dn_disputeId n)) (js_values (ds_notifications s))),
          da_slaBreachCount = length (filter (sla_breach now) rows), da_generatedAt = now\<rparr>)"

end
