(* ===== verification/DisputeProps.thy ===== *)
theory DisputeProps
  imports Disputes
begin

text \<open>
  Properties of disputes, for every interleaving of the calls and their notifications: the timeline
  of a dispute is a gapless path of the state machine, a closed dispute and what belongs to it never
  change again, the records of a dispute agree, a payment has one active dispute at most; and what
  the escalation sweep does.
\<close>

subsection \<open>Steps\<close>

text \<open>The clock does not go back behind the timeline.\<close>

definition clock_ok :: "int \<Rightarrow> dispute_service \<Rightarrow> bool" where
  "clock_ok now s \<longleftrightarrow> (\<forall>t\<in>set (js_values (ds_timeline s)). tl_createdAt t \<le> now)"

inductive dispute_step :: "dispute_env \<Rightarrow> dispute_service \<Rightarrow> dispute_service \<Rightarrow> bool" for env where
  step_open: "clock_ok now s \<Longrightarrow> dispute_step env s (snd (open_dispute env input now s))"
| step_respond: "clock_ok now s \<Longrightarrow> dispute_step env s (snd (respond_core env i rinput now s))"
| step_evidence: "clock_ok now s \<Longrightarrow> dispute_step env s (snd (evidence_core env i einput now s))"
| step_remove: "clock_ok now s \<Longrightarrow> dispute_step env s (snd (removeEvidence env i evidenceId actorId now s))"
| step_assign: "clock_ok now s \<Longrightarrow> dispute_step env s (snd (assign_core env i arbitratorId actorId now s))"
| step_escalate: "clock_ok now s \<Longrightarrow> dispute_step env s (snd (escalate_core env i actorId note now s))"
| step_resolve: "clock_ok now s \<Longrightarrow> dispute_step env s (snd (resolve_core env i vinput now s))"
| step_notify: "clock_ok now s \<Longrightarrow> js_get (ds_disputes s) i \<noteq> None \<Longrightarrow>
    dispute_step env s (notify env i recipientId templateId subject body now s)"

abbreviation dispute_run :: "dispute_env \<Rightarrow> dispute_service \<Rightarrow> dispute_service \<Rightarrow> bool" where
  "dispute_run env \<equiv> (dispute_step env)\<^sup>*\<^sup>*"

subsection \<open>Identifiers\<close>

definition minted :: "dispute_env \<Rightarrow> nat \<Rightarrow> (string, 'v) jsmap \<Rightarrow> bool" where
  "minted env n m \<longleftrightarrow> js_wf m \<and> (\<forall>k. js_get m k \<noteq> None \<longrightarrow> k \<in> de_uuid env ` {..<n})"

lemma minted_mono: "minted env n m \<Longrightarrow> n \<le> k \<Longrightarrow> minted env k m"
  by (force simp: minted_def)

lemma minted_set: "minted env n m \<Longrightarrow> minted env (n + 1) (js_set (de_uuid env n) v m)"
  by (force simp: minted_def)

lemma minted_put: "minted env n m \<Longrightarrow> js_get m k \<noteq> None \<Longrightarrow> minted env n (js_set k v m)"
  by (auto simp: minted_def)

lemma minted_del: "minted env n m \<Longrightarrow> minted env n (js_del k m)"
  by (auto simp: minted_def)

lemma js_set_fresh: "js_get m k = None \<Longrightarrow> js_set k v m = m @ [(k, v)]"
  by (induction m) auto

lemma minted_fresh:
  assumes "inj (de_uuid env)" "minted env n m"
  shows "js_get m (de_uuid env n) = None"
  using assms by (fastforce simp: minted_def inj_eq)

lemma values_fresh:
  assumes "inj (de_uuid env)" "minted env n m"
  shows "js_values (js_set (de_uuid env n) v m) = js_values m @ [v]"
  using js_set_fresh [OF minted_fresh [OF assms]] by (simp add: js_values_def)

subsection \<open>The timeline as a path\<close>

definition entry_step :: "DisputeStatus option \<Rightarrow> TimelineEventDTO \<Rightarrow> bool" where
  "entry_step st t \<longleftrightarrow> tl_fromStatus t = st \<and>
     (case tl_event t of
        Created \<Rightarrow> st = None \<and> tl_toStatus t = Some DsAwaitingResponse
      | Workflow e \<Rightarrow> (\<exists>a. st = Some a \<and> TRANSITIONS a e \<noteq> None \<and> tl_toStatus t = TRANSITIONS a e)
      | _ \<Rightarrow> st \<noteq> None \<and> tl_toStatus t = st)"

fun path :: "DisputeStatus option \<Rightarrow> TimelineEventDTO list \<Rightarrow> DisputeStatus option \<Rightarrow> bool" where
  "path a [] b \<longleftrightarrow> a = b"
| "path a (t # ts) b \<longleftrightarrow> entry_step a t \<and> path (tl_toStatus t) ts b"

lemma path_snoc: "path a (ts @ [t]) b \<longleftrightarrow> (\<exists>c. path a ts c \<and> entry_step c t \<and> tl_toStatus t = b)"
  by (induction ts arbitrary: a) auto

definition entries_of :: "string \<Rightarrow> dispute_service \<Rightarrow> TimelineEventDTO list" where
  "entries_of i s = filter (\<lambda>t. tl_disputeId t = i) (js_values (ds_timeline s))"

definition status_of_dispute :: "string \<Rightarrow> dispute_service \<Rightarrow> DisputeStatus option" where
  "status_of_dispute i s = map_option di_status (js_get (ds_disputes s) i)"

subsection \<open>The records of a dispute\<close>

definition records_of :: "string \<Rightarrow> dispute_service \<Rightarrow> ResolutionRecordDTO list" where
  "records_of i s = filter (\<lambda>r. rr_disputeId r = i) (js_values (ds_resolutions s))"

definition evidence_of :: "string \<Rightarrow> dispute_service \<Rightarrow> EvidenceDTO list" where
  "evidence_of i s = filter (\<lambda>e. ev_disputeId e = i) (js_values (ds_evidence s))"

definition record_fits :: "DisputeDTO \<Rightarrow> ResolutionRecordDTO \<Rightarrow> bool" where
  "record_fits d r \<longleftrightarrow>
     di_status d = statusForOutcome (rr_outcome r) \<and> di_resolution d = Some (rr_outcome r) \<and>
     di_resolutionNote d = Some (rr_resolutionNote r) \<and> di_refundAmount d = rr_refundAmount r \<and>
     di_resolvedAt d = Some (rr_createdAt r) \<and>
     (rr_outcome r = FullRefund \<longrightarrow> rr_refundAmount r = Some (di_amount d)) \<and>
     (rr_outcome r = PartialRefund \<longrightarrow> (\<exists>a. rr_refundAmount r = Some a \<and> 0 < a \<and> a \<le> di_amount d))"

definition dispute_wf :: "DisputeDTO \<Rightarrow> ResolutionRecordDTO list \<Rightarrow> bool" where
  "dispute_wf d rs \<longleftrightarrow>
     0 < di_amount d \<and> di_filedBy d \<noteq> di_respondentId d \<and>
     (if isTerminal (di_status d) then \<exists>r. rs = [r] \<and> record_fits d r
      else rs = [] \<and> di_resolution d = None \<and> di_refundAmount d = None \<and> di_resolvedAt d = None)"

definition active :: "DisputeDTO \<Rightarrow> bool" where
  "active d \<longleftrightarrow> \<not> isTerminal (di_status d)"

definition dispute_inv :: "dispute_env \<Rightarrow> dispute_service \<Rightarrow> bool" where
  "dispute_inv env s \<longleftrightarrow>
     minted env (ds_uuids s) (ds_disputes s) \<and> minted env (ds_uuids s) (ds_timeline s) \<and>
     minted env (ds_uuids s) (ds_resolutions s) \<and> minted env (ds_uuids s) (ds_evidence s) \<and>
     sorted (map tl_createdAt (js_values (ds_timeline s))) \<and>
     (\<forall>i. path None (entries_of i s) (status_of_dispute i s)) \<and>
     (\<forall>i. js_get (ds_disputes s) i = None \<longrightarrow> records_of i s = []) \<and>
     js_all (\<lambda>k d. di_id d = k \<and> dispute_wf d (records_of k s)) (ds_disputes s) \<and>
     (\<forall>i j d e. js_get (ds_disputes s) i = Some d \<longrightarrow> js_get (ds_disputes s) j = Some e \<longrightarrow>
        active d \<longrightarrow> active e \<longrightarrow> di_paymentId d = di_paymentId e \<longrightarrow> i = j)"

subsection \<open>What a step does\<close>

text \<open>Dispute \<open>i\<close> becomes \<open>d\<close>, with one entry of the timeline.\<close>

definition moved :: "dispute_env \<Rightarrow> string \<Rightarrow> DisputeDTO \<Rightarrow> TimelineEventDTO \<Rightarrow> dispute_service \<Rightarrow> dispute_service \<Rightarrow> bool" where
  "moved env i d t s s' \<longleftrightarrow>
     minted env (ds_uuids s') (ds_disputes s') \<and> minted env (ds_uuids s') (ds_timeline s') \<and>
     minted env (ds_uuids s') (ds_resolutions s') \<and> minted env (ds_uuids s') (ds_evidence s') \<and>
     (\<forall>j. js_get (ds_disputes s') j = (if j = i then Some d else js_get (ds_disputes s) j)) \<and>
     js_values (ds_timeline s') = js_values (ds_timeline s) @ [t] \<and> tl_disputeId t = i \<and>
     entry_step (status_of_dispute i s) t \<and> tl_toStatus t = Some (di_status d) \<and> clock_ok (tl_createdAt t) s \<and>
     di_id d = i \<and> dispute_wf d (records_of i s') \<and> (\<forall>j. j \<noteq> i \<longrightarrow> records_of j s' = records_of j s) \<and>
     (active d \<longrightarrow> (\<forall>j e. js_get (ds_disputes s) j = Some e \<longrightarrow> active e \<longrightarrow>
        di_paymentId d = di_paymentId e \<longrightarrow> i = j))"

lemma moved_inv:
  assumes inv: "dispute_inv env s" and moved: "moved env i d t s s'"
  shows "dispute_inv env s'"
proof -
  have tl: "js_values (ds_timeline s') = js_values (ds_timeline s) @ [t]" and ti: "tl_disputeId t = i"
    and get: "\<And>j. js_get (ds_disputes s') j = (if j = i then Some d else js_get (ds_disputes s) j)"
    and records: "\<And>j. j \<noteq> i \<Longrightarrow> records_of j s' = records_of j s"
    using moved by (simp_all add: moved_def)
  have "path None (entries_of j s') (status_of_dispute j s')" for j
  proof (cases "j = i")
    case True
    with inv moved show ?thesis
      by (auto simp: dispute_inv_def moved_def entries_of_def status_of_dispute_def tl path_snoc)
  next
    case False
    with inv show ?thesis by (simp add: dispute_inv_def entries_of_def status_of_dispute_def tl ti get)
  qed
  then have paths: "\<forall>j. path None (entries_of j s') (status_of_dispute j s')" by blast
  have sorted: "sorted (map tl_createdAt (js_values (ds_timeline s')))"
    using inv moved by (auto simp: dispute_inv_def moved_def tl sorted_append clock_ok_def)
  have none: "\<forall>j. js_get (ds_disputes s') j = None \<longrightarrow> records_of j s' = []"
    using inv records by (auto simp: dispute_inv_def get)
  have wf: "js_all (\<lambda>k d. di_id d = k \<and> dispute_wf d (records_of k s')) (ds_disputes s')"
    using inv moved by (auto simp: dispute_inv_def entries_sat_def get moved_def split: if_splits)
  have "j = k" if "js_get (ds_disputes s') j = Some e" "js_get (ds_disputes s') k = Some f"
    "active e" "active f" "di_paymentId e = di_paymentId f" for j k e f
    using inv moved that by (auto simp: dispute_inv_def moved_def get split: if_splits)
  then have one: "\<forall>j k d e. js_get (ds_disputes s') j = Some d \<longrightarrow> js_get (ds_disputes s') k = Some e \<longrightarrow>
      active d \<longrightarrow> active e \<longrightarrow> di_paymentId d = di_paymentId e \<longrightarrow> j = k" by blast
  have "minted env (ds_uuids s') (ds_disputes s')" "minted env (ds_uuids s') (ds_timeline s')"
    "minted env (ds_uuids s') (ds_resolutions s')" "minted env (ds_uuids s') (ds_evidence s')"
    using moved by (simp_all add: moved_def)
  with paths sorted none wf one show ?thesis unfolding dispute_inv_def by (intro conjI)
qed

lemma pushTimeline_fields [simp]:
  "ds_disputes (pushTimeline env i ev a x f u now s) = ds_disputes s"
  "ds_evidence (pushTimeline env i ev a x f u now s) = ds_evidence s"
  "ds_resolutions (pushTimeline env i ev a x f u now s) = ds_resolutions s"
  "ds_uuids (pushTimeline env i ev a x f u now s) = ds_uuids s + 1"
  by (simp_all add: pushTimeline_def Let_def)

lemma put_dispute_fields [simp]:
  "ds_disputes (put_dispute d s) = js_set (di_id d) d (ds_disputes s)"
  "ds_evidence (put_dispute d s) = ds_evidence s" "ds_resolutions (put_dispute d s) = ds_resolutions s"
  "ds_timeline (put_dispute d s) = ds_timeline s" "ds_uuids (put_dispute d s) = ds_uuids s"
  "next_uuid env (put_dispute d s) = next_uuid env s"
  by (simp_all add: put_dispute_def next_uuid_def)

lemma push_notification_fields [simp]:
  "ds_disputes (push_notification env i r tm sb b now c s) = ds_disputes s"
  "ds_evidence (push_notification env i r tm sb b now c s) = ds_evidence s"
  "ds_resolutions (push_notification env i r tm sb b now c s) = ds_resolutions s"
  "ds_timeline (push_notification env i r tm sb b now c s) = ds_timeline s"
  "ds_uuids (push_notification env i r tm sb b now c s) = ds_uuids s + 1"
  by (simp_all add: push_notification_def Let_def)

lemma pushTimeline_minted:
  "minted env n (ds_timeline s) \<Longrightarrow> n \<le> ds_uuids s \<Longrightarrow>
   minted env (ds_uuids s + 1) (ds_timeline (pushTimeline env i ev a x f u now s))"
  using minted_set [OF minted_mono] by (simp add: pushTimeline_def Let_def next_uuid_def)

lemma pushTimeline_values:
  "inj (de_uuid env) \<Longrightarrow> minted env n (ds_timeline s) \<Longrightarrow> n \<le> ds_uuids s \<Longrightarrow>
   js_values (ds_timeline (pushTimeline env i ev a x f u now s)) = js_values (ds_timeline s) @
     [\<lparr>tl_id = next_uuid env s, tl_disputeId = i, tl_event = ev, tl_actorId = a, tl_detail = x,
       tl_fromStatus = f, tl_toStatus = u, tl_createdAt = now\<rparr>]"
  using values_fresh [OF _ minted_mono] by (simp add: pushTimeline_def Let_def next_uuid_def)

lemma dispute_get:
  assumes "dispute_inv env s" "js_get (ds_disputes s) i = Some d"
  shows "di_id d = i" "dispute_wf d (records_of i s)"
  using assms by (auto simp: dispute_inv_def entries_sat_def)

text \<open>
  Most steps write a dispute back with an entry of the timeline, and leave the resolutions alone:
  \<open>p\<close> is the state in between, where an identifier or two were used up.
\<close>

lemma update_moved:
  assumes inj: "inj (de_uuid env)" and inv: "dispute_inv env s" and clock: "clock_ok now s"
    and d: "js_get (ds_disputes s) i = Some d"
    and d': "di_id d' = i" "di_paymentId d' = di_paymentId d" "di_amount d' = di_amount d"
      "di_filedBy d' = di_filedBy d" "di_respondentId d' = di_respondentId d" "di_resolution d' = di_resolution d"
      "di_refundAmount d' = di_refundAmount d" "di_resolvedAt d' = di_resolvedAt d"
    and live: "d' = d \<or> active d \<and> active d'"
    and p: "\<And>j. js_get (ds_disputes p) j = (if j = i then Some d' else js_get (ds_disputes s) j)"
      "js_wf (ds_disputes p)" "ds_timeline p = ds_timeline s" "ds_resolutions p = ds_resolutions s"
      "minted env (ds_uuids p) (ds_evidence p)" "ds_uuids s \<le> ds_uuids p"
    and entry: "case ev of Created \<Rightarrow> False
       | Workflow e \<Rightarrow> TRANSITIONS (di_status d) e = Some (di_status d')
       | _ \<Rightarrow> di_status d' = di_status d"
  shows "\<exists>t. moved env i d' t s (pushTimeline env i ev a x (Some (di_status d)) (Some (di_status d')) now p)"
proof -
  define t where "t = \<lparr>tl_id = next_uuid env p, tl_disputeId = i, tl_event = ev, tl_actorId = a, tl_detail = x,
       tl_fromStatus = Some (di_status d), tl_toStatus = Some (di_status d'), tl_createdAt = now\<rparr>"
  define s' where "s' = pushTimeline env i ev a x (Some (di_status d)) (Some (di_status d')) now p"
  have m: "minted env (ds_uuids s) (ds_timeline s)" "minted env (ds_uuids s) (ds_disputes s)"
    "minted env (ds_uuids s) (ds_resolutions s)"
    using inv by (simp_all add: dispute_inv_def)
  have f: "ds_disputes s' = ds_disputes p" "ds_evidence s' = ds_evidence p" "ds_resolutions s' = ds_resolutions s"
    "ds_uuids s' = ds_uuids p + 1"
    by (simp_all add: s'_def p(4))
  have tl: "js_values (ds_timeline s') = js_values (ds_timeline s) @ [t]"
    "minted env (ds_uuids s') (ds_timeline s')"
    using pushTimeline_values [OF inj, of "ds_uuids s" p] pushTimeline_minted [of env "ds_uuids s" p] m(1) p(3,6)
    by (simp_all add: s'_def t_def)
  have "minted env (ds_uuids s) (ds_disputes p)"
    using m(2) d p(1,2) by (auto simp: minted_def)
  moreover have records: "records_of j s' = records_of j s" for j by (simp add: records_of_def f)
  moreover have "dispute_wf d' (records_of i s)"
    using dispute_get(2) [OF inv d] live d' by (auto simp: dispute_wf_def active_def)
  moreover have "entry_step (status_of_dispute i s) t"
    using entry d by (auto simp: entry_step_def t_def status_of_dispute_def split: timeline_event.splits)
  moreover have "i = j" if "active d'" "js_get (ds_disputes s) j = Some e" "active e" "di_paymentId d' = di_paymentId e" for j e
    using inv that d live d'(2) by (auto simp: dispute_inv_def)
  moreover have "minted env (ds_uuids s') (ds_disputes s')" "minted env (ds_uuids s') (ds_resolutions s')"
    "minted env (ds_uuids s') (ds_evidence s')"
    using calculation(1) m(3) p(5,6) by (auto simp: f elim: minted_mono)
  ultimately have "moved env i d' t s s'"
    using tl clock d'(1) unfolding moved_def by (simp add: f(1) p(1)) (simp add: t_def)
  then show ?thesis unfolding s'_def by blast
qed

text \<open>Every step leaves the state as it was, or moves one dispute as far as its life cycle goes.\<close>

definition moves :: "dispute_env \<Rightarrow> dispute_service \<Rightarrow> dispute_service \<Rightarrow> bool" where
  "moves env s s' \<longleftrightarrow> s' = s \<or>
     (\<exists>i d t. moved env i d t s s' \<and>
        (\<forall>u. js_get (ds_disputes s) i = Some u \<longrightarrow> 
           d = u \<and> evidence_of i s' = evidence_of i s \<and> records_of i s' = records_of i s \<or> active u) \<and>
        (\<forall>j. j \<noteq> i \<longrightarrow> evidence_of j s' = evidence_of j s))"

lemma TRANSITIONS_open: "TRANSITIONS a e \<noteq> None \<Longrightarrow> \<not> isTerminal a"
  by (cases a; cases e) (auto simp: isTerminal_def)

lemma TRANSITIONS_target: "TRANSITIONS a e = Some b \<Longrightarrow> e \<noteq> Resolve \<Longrightarrow> e \<noteq> Dismiss \<Longrightarrow> \<not> isTerminal b"
  by (cases a; cases e) (auto simp: isTerminal_def)

lemma moves_update:
  assumes "inj (de_uuid env)" "dispute_inv env s" "clock_ok now s" "js_get (ds_disputes s) i = Some d"
    and "di_id d' = i" "di_paymentId d' = di_paymentId d" "di_amount d' = di_amount d"
      "di_filedBy d' = di_filedBy d" "di_respondentId d' = di_respondentId d" "di_resolution d' = di_resolution d"
      "di_refundAmount d' = di_refundAmount d" "di_resolvedAt d' = di_resolvedAt d"
    and "TRANSITIONS (di_status d) e = Some (di_status d')" "e \<noteq> Resolve" "e \<noteq> Dismiss"
    and "ds_disputes p = js_set i d' (ds_disputes s)" "ds_timeline p = ds_timeline s"
      "ds_resolutions p = ds_resolutions s" "ds_uuids s \<le> ds_uuids p"
      "minted env (ds_uuids p) (ds_evidence p)" "\<And>j. j \<noteq> i \<Longrightarrow> evidence_of j p = evidence_of j s"
  shows "moves env s (pushTimeline env i (Workflow e) a x (Some (di_status d)) (Some (di_status d')) now p)"
proof -
  have live: "active d" "active d'"
    using TRANSITIONS_open [of "di_status d" e] TRANSITIONS_target [of "di_status d" e] assms(13-15)
    by (auto simp: active_def)
  have "js_wf (ds_disputes p)" using assms(2,16) by (simp add: dispute_inv_def minted_def)
  then obtain t where
    "moved env i d' t s (pushTimeline env i (Workflow e) a x (Some (di_status d)) (Some (di_status d')) now p)"
    using update_moved [OF assms(1-12), of p "Workflow e" a x] live assms(13-20) by auto
  moreover have "evidence_of j (pushTimeline env i (Workflow e) a x (Some (di_status d)) (Some (di_status d')) now p) =
      evidence_of j p" for j
    by (simp add: evidence_of_def)
  ultimately show ?thesis
    using live assms(4,21) unfolding moves_def by (intro disjI2 exI [of _ i] exI [of _ d'] exI [of _ t]) simp
qed

lemma minted_uuid_evidence: "dispute_inv env s \<Longrightarrow> minted env (ds_uuids s) (ds_evidence s)"
  by (simp add: dispute_inv_def)

lemma respond_moves:
  assumes "inj (de_uuid env)" "dispute_inv env s" "clock_ok now s"
  shows "moves env s (snd (respond_core env i input now s))"
proof (cases "js_get (ds_disputes s) i")
  case (Some d)
  note id = dispute_get(1) [OF assms(2) Some]
  show ?thesis
  proof (cases "TRANSITIONS (di_status d) Respond")
    case None
    with Some show ?thesis
      by (simp add: respond_core_def on_dispute_def nextStatus_def moves_def split: option.split)
  next
    case t: (Some to)
    have "moves env s (pushTimeline env i (Workflow Respond) a x (Some (di_status d))
        (Some (di_status (d\<lparr>di_status := to, di_updatedAt := now\<rparr>))) now
        ((put_dispute (d\<lparr>di_status := to, di_updatedAt := now\<rparr>) s)\<lparr>ds_messages := ms, ds_uuids := ds_uuids s + 1\<rparr>))" for a x ms
      by (rule moves_update [OF assms Some, where d' = "d\<lparr>di_status := to, di_updatedAt := now\<rparr>"])
        (use id t minted_mono [OF minted_uuid_evidence [OF assms(2)]] in \<open>auto simp: evidence_of_def\<close>)
    with Some t show ?thesis
      by (auto simp: respond_core_def on_dispute_def nextStatus_def Let_def moves_def split: option.split)
  qed
qed (simp add: respond_core_def on_dispute_def moves_def)

lemma assign_moves:
  assumes "inj (de_uuid env)" "dispute_inv env s" "clock_ok now s"
  shows "moves env s (snd (assign_core env i arbitratorId actorId now s))"
proof (cases "js_get (ds_disputes s) i")
  case (Some d)
  note id = dispute_get(1) [OF assms(2) Some]
  show ?thesis
  proof (cases "TRANSITIONS (di_status d) AssignArbitrator")
    case None
    with Some show ?thesis
      by (simp add: assign_core_def on_dispute_def nextStatus_def moves_def split: option.split)
  next
    case t: (Some to)
    have "moves env s (pushTimeline env i (Workflow AssignArbitrator) actorId x (Some (di_status d))
        (Some (di_status (d\<lparr>di_arbitratorId := Some arbitratorId, di_status := to, di_updatedAt := now\<rparr>))) now
        (put_dispute (d\<lparr>di_arbitratorId := Some arbitratorId, di_status := to, di_updatedAt := now\<rparr>) s))" for x
      by (rule moves_update [OF assms Some])
        (use id t minted_uuid_evidence [OF assms(2)] in \<open>auto simp: evidence_of_def\<close>)
    with Some t show ?thesis
      by (auto simp: assign_core_def on_dispute_def nextStatus_def Let_def moves_def split: option.split)
  qed
qed (simp add: assign_core_def on_dispute_def moves_def)

lemma escalate_moves:
  assumes "inj (de_uuid env)" "dispute_inv env s" "clock_ok now s"
  shows "moves env s (snd (escalate_core env i actorId note now s))"
proof (cases "js_get (ds_disputes s) i")
  case (Some d)
  note id = dispute_get(1) [OF assms(2) Some]
  show ?thesis
  proof (cases "TRANSITIONS (di_status d) Escalate")
    case None
    with Some show ?thesis
      by (simp add: escalate_core_def on_dispute_def nextStatus_def moves_def)
  next
    case t: (Some to)
    have "moves env s (pushTimeline env i (Workflow Escalate) actorId note (Some (di_status d))
        (Some (di_status (d\<lparr>di_status := to, di_updatedAt := now\<rparr>))) now
        (put_dispute (d\<lparr>di_status := to, di_updatedAt := now\<rparr>) s))"
      by (rule moves_update [OF assms Some])
        (use id t minted_uuid_evidence [OF assms(2)] in \<open>auto simp: evidence_of_def\<close>)
    with Some t show ?thesis
      by (auto simp: escalate_core_def on_dispute_def nextStatus_def Let_def)
  qed
qed (simp add: escalate_core_def on_dispute_def moves_def)

lemma evidence_fresh:
  assumes "inj (de_uuid env)" "dispute_inv env s"
  shows "js_values (js_set (next_uuid env s) e (ds_evidence s)) = js_values (ds_evidence s) @ [e]"
  using values_fresh [OF assms(1) minted_uuid_evidence [OF assms(2)]] by (simp add: next_uuid_def)

lemma evidence_moves:
  assumes "inj (de_uuid env)" "dispute_inv env s" "clock_ok now s"
  shows "moves env s (snd (evidence_core env i input now s))"
proof (cases "js_get (ds_disputes s) i")
  case (Some d)
  note id = dispute_get(1) [OF assms(2) Some]
  show ?thesis
  proof (cases "TRANSITIONS (di_status d) AddEvidence")
    case None
    with Some show ?thesis by (simp add: evidence_core_def on_dispute_def nextStatus_def moves_def)
  next
    case t: (Some to)
    have "moves env s (pushTimeline env i (Workflow AddEvidence) a x (Some (di_status d))
        (Some (di_status (d\<lparr>di_status := to, di_updatedAt := now\<rparr>))) now
        (put_dispute (d\<lparr>di_status := to, di_updatedAt := now\<rparr>)
          (s\<lparr>ds_evidence := js_set (next_uuid env s) e (ds_evidence s), ds_uuids := ds_uuids s + 1\<rparr>)))"
      if "ev_disputeId e = i" for a x e
      by (rule moves_update [OF assms Some])
        (use id t that minted_set [OF minted_uuid_evidence [OF assms(2)]] evidence_fresh [OF assms(1,2)] in
          \<open>auto simp: evidence_of_def next_uuid_def\<close>)
    with Some t show ?thesis
      by (auto simp: evidence_core_def on_dispute_def nextStatus_def Let_def moves_def split: option.split)
  qed
qed (simp add: evidence_core_def on_dispute_def moves_def)

lemma evidence_del:
  assumes "js_wf m" "js_get m k = Some e" "ev_disputeId e \<noteq> j"
  shows "filter (\<lambda>e. ev_disputeId e = j) (js_values (js_del k m)) = filter (\<lambda>e. ev_disputeId e = j) (js_values m)"
  using assms by (induction m) (auto simp: js_values_def js_wf_def js_keys_def)

lemma remove_moves:
  assumes "inj (de_uuid env)" "dispute_inv env s" "clock_ok now s"
  shows "moves env s (snd (removeEvidence env i evidenceId actorId now s))"
proof (cases "js_get (ds_disputes s) i")
  case (Some d)
  note id = dispute_get(1) [OF assms(2) Some]
  show ?thesis
  proof (cases "isTerminal (di_status d)")
    case True
    with Some show ?thesis by (simp add: removeEvidence_def on_dispute_def moves_def)
  next
    case open_: False
    show ?thesis
    proof (cases "\<exists>e. js_get (ds_evidence s) evidenceId = Some e \<and> ev_disputeId e = i")
      case False
      with Some open_ show ?thesis
        by (auto simp: removeEvidence_def on_dispute_def moves_def split: option.split)
    next
      case True
      then obtain e where e: "js_get (ds_evidence s) evidenceId = Some e" "ev_disputeId e = i" by blast
      define p where "p = put_dispute (d\<lparr>di_updatedAt := now\<rparr>) (s\<lparr>ds_evidence := js_del evidenceId (ds_evidence s)\<rparr>)"
      define s' where "s' = pushTimeline env i EvidenceRemoved actorId (''Evidence removed: '' @ ev_fileName e)
          (Some (di_status d)) (Some (di_status d)) now p"
      have wf: "js_wf (ds_disputes s)" "js_wf (ds_evidence s)" using assms(2) by (simp_all add: dispute_inv_def minted_def)
      have "minted env (ds_uuids s) (js_del evidenceId (ds_evidence s))"
        by (rule minted_del [OF minted_uuid_evidence [OF assms(2)]])
      then have "\<exists>t. moved env i (d\<lparr>di_updatedAt := now\<rparr>) t s (pushTimeline env i EvidenceRemoved actorId
          (''Evidence removed: '' @ ev_fileName e) (Some (di_status d))
          (Some (di_status (d\<lparr>di_updatedAt := now\<rparr>))) now p)"
        using id open_ wf by (intro update_moved [OF assms Some]) (simp_all add: p_def active_def)
      then have "\<exists>t. moved env i (d\<lparr>di_updatedAt := now\<rparr>) t s s'" by (simp add: s'_def)
      then obtain t where "moved env i (d\<lparr>di_updatedAt := now\<rparr>) t s s'" by blast
      moreover have "evidence_of j s' = evidence_of j s" if "j \<noteq> i" for j
        using evidence_del [OF wf(2) e(1), of j] e(2) that by (simp add: s'_def p_def evidence_of_def)
      ultimately have "moves env s s'"
        using Some open_ unfolding moves_def by (intro disjI2 exI [of _ i] exI [of _ "d\<lparr>di_updatedAt := now\<rparr>"] exI [of _ t])
          (simp add: active_def)
      with Some open_ e show ?thesis
        by (simp add: removeEvidence_def on_dispute_def with_detail_def Let_def s'_def p_def)
    qed
  qed
qed (simp add: removeEvidence_def on_dispute_def moves_def)

lemma notify_moves:
  assumes "inj (de_uuid env)" "dispute_inv env s" "clock_ok now s" "js_get (ds_disputes s) i = Some d"
  shows "moves env s (notify env i recipientId templateId subject body now s)"
proof -
  define p where "p = fold (push_notification env i recipientId templateId subject body now) [ChEmail, ChPush, ChInApp] s"
  have p: "ds_disputes p = ds_disputes s" "ds_timeline p = ds_timeline s" "ds_resolutions p = ds_resolutions s"
    "ds_evidence p = ds_evidence s" "ds_uuids p = ds_uuids s + 3"
    by (simp_all add: p_def)
  have "js_wf (ds_disputes s)" using assms(2) by (simp add: dispute_inv_def minted_def)
  moreover have "js_get (ds_disputes s) j = (if j = i then Some d else js_get (ds_disputes s) j)" for j
    by (simp add: assms(4))
  ultimately have "\<exists>t. moved env i d t s (pushTimeline env i Notified ''system'' (templateId @ '' '' @ arrow @ '' '' @ recipientId)
      (Some (di_status d)) (Some (di_status d)) now p)"
    using p minted_mono [OF minted_uuid_evidence [OF assms(2)]] dispute_get(1) [OF assms(2,4)]
    by (intro update_moved [OF assms]) simp_all
  then obtain t where t: "moved env i d t s (pushTimeline env i Notified ''system'' (templateId @ '' '' @ arrow @ '' '' @ recipientId)
      (Some (di_status d)) (Some (di_status d)) now p)" by blast
  then show ?thesis
    unfolding notify_def p_def [symmetric] Let_def using assms(4) p
    unfolding moves_def by (intro disjI2 exI [of _ i] exI [of _ d] exI [of _ t]) (simp add: evidence_of_def records_of_def)
qed

lemma resolve_error_None:
  "resolve_error d input = None \<Longrightarrow>
   ri_outcome input = PartialRefund \<Longrightarrow> \<exists>a. ri_refundAmount input = Some a \<and> 0 < a \<and> a \<le> di_amount d"
  by (auto simp: resolve_error_def split: option.splits)

lemma resolve_transition:
  "canTransition a (resolve_event outcome) \<Longrightarrow>
   TRANSITIONS a (resolve_event outcome) = Some (statusForOutcome outcome) \<and> \<not> isTerminal a \<and>
   isTerminal (statusForOutcome outcome)"
  by (cases a; cases outcome) (auto simp: canTransition_def resolve_event_def statusForOutcome_def isTerminal_def)

lemma resolve_moves:
  assumes inj: "inj (de_uuid env)" and inv: "dispute_inv env s" and clock: "clock_ok now s"
  shows "moves env s (snd (resolve_core env i input now s))"
proof (cases "\<exists>d. js_get (ds_disputes s) i = Some d \<and> resolve_error d input = None \<and>
    canTransition (di_status d) (resolve_event (ri_outcome input))")
  case False
  then show ?thesis by (auto simp: resolve_core_def on_dispute_def moves_def split: option.split)
next
  case True
  then obtain d where d: "js_get (ds_disputes s) i = Some d" "resolve_error d input = None"
    "canTransition (di_status d) (resolve_event (ri_outcome input))" by blast
  note id = dispute_get [OF inv d(1)] and tr = resolve_transition [OF d(3)]
  define d' where "d' = closed_by d input now"
  define r where "r = \<lparr>rr_id = next_uuid env s, rr_disputeId = i, rr_outcome = ri_outcome input,
      rr_resolutionNote = js_trim (ri_resolutionNote input), rr_refundAmount = refund_of d input,
      rr_resolvedBy = ri_resolvedBy input,
      rr_resolvedByRole = (case ri_resolvedByRole input of None \<Rightarrow> ByArbitrator | Some r \<Rightarrow> r), rr_createdAt = now\<rparr>"
  define p where "p = (put_dispute d' s)\<lparr>ds_resolutions := js_set (next_uuid env s) r (ds_resolutions s),
      ds_uuids := ds_uuids s + 1\<rparr>"
  define t where "t = \<lparr>tl_id = next_uuid env p, tl_disputeId = i, tl_event = Workflow (resolve_event (ri_outcome input)),
      tl_actorId = ri_resolvedBy input, tl_detail = ''Resolved: '' @ outcome_text (ri_outcome input),
      tl_fromStatus = Some (di_status d), tl_toStatus = Some (statusForOutcome (ri_outcome input)), tl_createdAt = now\<rparr>"
  define s' where "s' = pushTimeline env i (Workflow (resolve_event (ri_outcome input))) (ri_resolvedBy input)
      (''Resolved: '' @ outcome_text (ri_outcome input)) (Some (di_status d))
      (Some (statusForOutcome (ri_outcome input))) now p"
  have m: "minted env (ds_uuids s) (ds_disputes s)" "minted env (ds_uuids s) (ds_timeline s)"
    "minted env (ds_uuids s) (ds_resolutions s)" "minted env (ds_uuids s) (ds_evidence s)"
    using inv by (simp_all add: dispute_inv_def)
  have d': "di_id d' = i" "di_status d' = statusForOutcome (ri_outcome input)" "di_amount d' = di_amount d"
    "di_filedBy d' = di_filedBy d" "di_respondentId d' = di_respondentId d" "\<not> active d'"
    using id tr by (simp_all add: d'_def closed_by_def active_def)
  have f: "ds_disputes s' = js_set i d' (ds_disputes s)" "ds_evidence s' = ds_evidence s"
    "ds_resolutions s' = js_set (next_uuid env s) r (ds_resolutions s)" "ds_uuids s' = ds_uuids s + 2"
    by (simp_all add: s'_def p_def d')
  have tl: "js_values (ds_timeline s') = js_values (ds_timeline s) @ [t]" "minted env (ds_uuids s') (ds_timeline s')"
    using pushTimeline_values [OF inj, of "ds_uuids s" p] pushTimeline_minted [of env "ds_uuids s" p] m(2)
    by (simp_all add: s'_def t_def p_def)
  have minted: "minted env (ds_uuids s') (ds_disputes s')" "minted env (ds_uuids s') (ds_resolutions s')"
    "minted env (ds_uuids s') (ds_evidence s')"
    using minted_mono [OF minted_put [OF m(1), of i d']] minted_mono [OF minted_set [OF m(3), of r]]
      minted_mono [OF m(4)] d(1) by (simp_all add: f next_uuid_def)
  have records: "records_of j s' = records_of j s @ (if j = i then [r] else [])" for j
    using values_fresh [OF inj m(3)] by (simp add: records_of_def f next_uuid_def r_def)
  have "records_of i s = []" using id(2) tr by (simp add: dispute_wf_def)
  moreover have "record_fits d' r"
    using resolve_error_None [OF d(2)] by (auto simp: record_fits_def d'_def closed_by_def r_def refund_of_def)
  ultimately have "dispute_wf d' (records_of i s')"
    using id(2) d' tr by (simp add: dispute_wf_def records)
  moreover have "entry_step (status_of_dispute i s) t"
    using d(1) tr by (simp add: entry_step_def t_def status_of_dispute_def)
  ultimately have "moved env i d' t s s'"
    unfolding moved_def using minted tl d' clock records by (simp add: f(1)) (simp add: t_def)
  then have "moves env s s'"
    unfolding moves_def using d(1) tr
    by (intro disjI2 exI [of _ i] exI [of _ d'] exI [of _ t]) (simp add: active_def evidence_of_def f)
  with d show ?thesis
    by (simp add: resolve_core_def on_dispute_def Let_def s'_def p_def d'_def r_def)
qed

lemma open_moves:
  assumes inj: "inj (de_uuid env)" and inv: "dispute_inv env s" and clock: "clock_ok now s"
  shows "moves env s (snd (open_dispute env input now s))"
proof (cases "create_error input = None \<and> (\<forall>d\<in>set (js_values (ds_disputes s)). \<not> active_for (cdi_paymentId input) d)")
  case False
  then show ?thesis by (auto simp: open_dispute_def moves_def split: option.split)
next
  case True
  define i where "i = next_uuid env s"
  define d where "d = new_dispute i input now"
  define p where "p = put_dispute d (s\<lparr>ds_uuids := ds_uuids s + 1\<rparr>)"
  define t where "t = \<lparr>tl_id = next_uuid env p, tl_disputeId = i, tl_event = Created, tl_actorId = cdi_filedBy input,
      tl_detail = ''Dispute opened'', tl_fromStatus = None, tl_toStatus = Some DsAwaitingResponse, tl_createdAt = now\<rparr>"
  define s' where "s' = pushTimeline env i Created (cdi_filedBy input) ''Dispute opened'' None (Some DsAwaitingResponse) now p"
  have m: "minted env (ds_uuids s) (ds_disputes s)" "minted env (ds_uuids s) (ds_timeline s)"
    "minted env (ds_uuids s) (ds_resolutions s)" "minted env (ds_uuids s) (ds_evidence s)"
    using inv by (simp_all add: dispute_inv_def)
  have fresh: "js_get (ds_disputes s) i = None"
    using minted_fresh [OF inj m(1)] by (simp add: i_def next_uuid_def)
  have d: "di_id d = i" "di_status d = DsAwaitingResponse" "di_paymentId d = cdi_paymentId input"
    by (simp_all add: d_def new_dispute_def Let_def)
  have f: "ds_disputes s' = js_set i d (ds_disputes s)" "ds_evidence s' = ds_evidence s"
    "ds_resolutions s' = ds_resolutions s" "ds_uuids s' = ds_uuids s + 2"
    by (simp_all add: s'_def p_def d)
  have tl: "js_values (ds_timeline s') = js_values (ds_timeline s) @ [t]" "minted env (ds_uuids s') (ds_timeline s')"
    using pushTimeline_values [OF inj, of "ds_uuids s" p] pushTimeline_minted [of env "ds_uuids s" p] m(2)
    by (simp_all add: s'_def t_def p_def)
  have minted: "minted env (ds_uuids s') (ds_disputes s')" "minted env (ds_uuids s') (ds_resolutions s')"
    "minted env (ds_uuids s') (ds_evidence s')"
    using minted_mono [OF minted_set [OF m(1), of d]] minted_mono [OF m(3)] minted_mono [OF m(4)]
    by (simp_all add: f i_def next_uuid_def)
  have records: "records_of j s' = records_of j s" for j by (simp add: records_of_def f)
  have "records_of i s = []" using inv fresh by (simp add: dispute_inv_def)
  then have "dispute_wf d (records_of i s')"
    using True by (simp add: records dispute_wf_def d_def new_dispute_def Let_def create_error_def isTerminal_def)
  moreover have "j = i" if "js_get (ds_disputes s) j = Some e" "active e" "di_paymentId d = di_paymentId e" for j e
  proof -
    have "e \<in> set (js_values (ds_disputes s))"
      using that(1) m(1) by (auto simp: minted_def in_js_values)
    with True that d show ?thesis by (auto simp: active_for_def active_def isTerminal_def)
  qed
  moreover have "entry_step (status_of_dispute i s) t" using fresh by (simp add: entry_step_def t_def status_of_dispute_def)
  ultimately have "moved env i d t s s'"
    unfolding moved_def using minted tl d clock records by (simp add: f(1)) (auto simp: t_def)
  then have "moves env s s'"
    unfolding moves_def using fresh
    by (intro disjI2 exI [of _ i] exI [of _ d] exI [of _ t]) (simp add: evidence_of_def f)
  with True show ?thesis
    by (auto simp: open_dispute_def Let_def s'_def p_def d_def i_def)
qed

lemma dispute_step_moves:
  assumes "inj (de_uuid env)" "dispute_inv env s" "dispute_step env s s'"
  shows "moves env s s'"
  using assms(3,2)
proof (induction rule: dispute_step.induct)
  case (step_notify now s i recipientId templateId subject body)
  then show ?case using notify_moves [OF assms(1)] by blast
qed (simp_all add: assms(1) open_moves respond_moves evidence_moves remove_moves assign_moves escalate_moves resolve_moves)

lemma moves_inv: "dispute_inv env s \<Longrightarrow> moves env s s' \<Longrightarrow> dispute_inv env s'"
  by (auto simp: moves_def dest: moved_inv)

lemma dispute_run_inv:
  assumes "inj (de_uuid env)" "dispute_inv env s" "dispute_run env s s'"
  shows "dispute_inv env s'"
  using assms(3,2) by (induction rule: rtranclp_induct) (auto intro: moves_inv dispute_step_moves [OF assms(1)])

lemma new_dispute_inv: "dispute_inv env new_dispute_service"
  by (simp add: dispute_inv_def new_dispute_service_def minted_def entries_of_def status_of_dispute_def records_of_def
      js_values_def entries_sat_def)

lemma moves_closed:
  assumes "moves env s s'" "js_get (ds_disputes s) i = Some d" "\<not> active d"
  shows "js_get (ds_disputes s') i = Some d \<and> evidence_of i s' = evidence_of i s \<and> records_of i s' = records_of i s"
  using assms(1) unfolding moves_def
proof (elim disjE exE conjE)
  fix k e t
  assume moved: "moved env k e t s s'"
    and same: "\<forall>u. js_get (ds_disputes s) k = Some u \<longrightarrow>
        e = u \<and> evidence_of k s' = evidence_of k s \<and> records_of k s' = records_of k s \<or> active u"
    and others: "\<forall>j. j \<noteq> k \<longrightarrow> evidence_of j s' = evidence_of j s"
  show ?thesis
  proof (cases "k = i")
    case True
    then have "e = d \<and> evidence_of i s' = evidence_of i s \<and> records_of i s' = records_of i s"
      using same assms(2,3) by blast
    then show ?thesis using moved True by (simp add: moved_def)
  next
    case False
    then show ?thesis using moved others assms(2) by (simp add: moved_def)
  qed
qed (use assms(2) in simp)

lemma run_closed:
  assumes "inj (de_uuid env)" "dispute_inv env s" "dispute_run env s s'"
    and "js_get (ds_disputes s) i = Some d" "\<not> active d"
  shows "js_get (ds_disputes s') i = Some d \<and> evidence_of i s' = evidence_of i s \<and> records_of i s' = records_of i s"
  using assms(3)
proof (induction rule: rtranclp_induct)
  case (step t u)
  have "dispute_inv env t" using dispute_run_inv [OF assms(1,2) step(1)] .
  then have "moves env t u" using dispute_step_moves [OF assms(1) _ step(2)] by blast
  with step(3) assms(5) show ?case using moves_closed by metis
qed (use assms(4) in simp)

subsection \<open>The timeline\<close>

text \<open>
  C23: However calls and notifications interleave, the timeline of a dispute is a path of its state
  machine without a gap: it begins with the opening, every entry starts from the status that the
  one before led to, along a legal transition, and the last one led to the status of the dispute.
\<close>

theorem timeline_is_a_path:
  assumes "inj (de_uuid env)" "dispute_run env new_dispute_service s" "getTimeline i s = Inr ts"
  shows "\<exists>d. getDispute i s = Inr (toDetail d s) \<and> ts \<noteq> [] \<and> path None ts (Some (di_status d))"
proof -
  have inv: "dispute_inv env s" using dispute_run_inv [OF assms(1) new_dispute_inv assms(2)] .
  obtain d where d: "js_get (ds_disputes s) i = Some d"
    and ts: "ts = by_time tl_createdAt (entries_of i s)"
    using assms(3) by (auto simp: getTimeline_def require_dispute_def entries_of_def split: if_splits)
  have "sorted (map tl_createdAt (js_values (ds_timeline s)))" using inv by (simp add: dispute_inv_def)
  then have "sorted (map tl_createdAt (entries_of i s))" unfolding entries_of_def by (rule sorted_filter)
  then have "ts = entries_of i s" by (simp add: ts by_time_def sort_key_id_if_sorted)
  moreover have "path None (entries_of i s) (Some (di_status d))"
    using inv d by (metis dispute_inv_def status_of_dispute_def option.map(2))
  ultimately show ?thesis using d by (auto simp: getDispute_def)
qed

subsection \<open>Closed disputes\<close>

text \<open>
  C24: A dispute that is resolved or dismissed is final: no further calls change it, its evidence or
  its resolutions, and each call on it other than reading fails.
\<close>

theorem closed_dispute_is_final:
  assumes "inj (de_uuid env)" "dispute_run env new_dispute_service s" "dispute_run env s s'"
    and "js_get (ds_disputes s) i = Some d" "isTerminal (di_status d)"
  shows "js_get (ds_disputes s') i = Some d \<and> listEvidence i s' = listEvidence i s \<and>
     getResolutions i s' = getResolutions i s \<and>
     (\<forall>now. (\<forall>input. isl (fst (respond env i input now s'))) \<and> (\<forall>input. isl (fst (addEvidence env i input now s'))) \<and>
       (\<forall>e a. isl (fst (removeEvidence env i e a now s'))) \<and> (\<forall>a b. isl (fst (assignArbitrator env i a b now s'))) \<and>
       (\<forall>a n. isl (fst (escalate_dispute env i a n now s'))) \<and> (\<forall>input. isl (fst (resolve_dispute env i input now s'))))"
proof -
  have inv: "dispute_inv env s" using dispute_run_inv [OF assms(1) new_dispute_inv assms(2)] .
  have same: "js_get (ds_disputes s') i = Some d" "evidence_of i s' = evidence_of i s" "records_of i s' = records_of i s"
    using run_closed [OF assms(1) inv assms(3,4)] assms(5) by (simp_all add: active_def)
  have stuck: "TRANSITIONS (di_status d) e = None" for e
    using assms(5) TRANSITIONS_open by blast
  show ?thesis
    using same assms(4,5) stuck
    by (auto simp: listEvidence_def getResolutions_def require_dispute_def evidence_of_def records_of_def
        respond_def respond_core_def addEvidence_def evidence_core_def removeEvidence_def assignArbitrator_def
        assign_core_def escalate_dispute_def escalate_core_def resolve_dispute_def resolve_core_def on_dispute_def
        nextStatus_def canTransition_def split: option.split)
qed

text \<open>
  The records of a dispute agree in every reachable state: a closed dispute has exactly one
  resolution record, with the outcome, note, refund and time of the dispute, an open one has none; a
  full refund is the amount of the dispute, a partial one is positive and at most the amount; and a
  payment has at most one open dispute.
\<close>

lemma dispute_records_agree:
  assumes "inj (de_uuid env)" "dispute_run env new_dispute_service s" "js_get (ds_disputes s) i = Some d"
  shows "di_id d = i \<and>
     (if isTerminal (di_status d)
      then \<exists>r. getResolutions i s = Inr [r] \<and> di_status d = statusForOutcome (rr_outcome r) \<and>
        di_resolution d = Some (rr_outcome r) \<and> di_resolutionNote d = Some (rr_resolutionNote r) \<and>
        di_refundAmount d = rr_refundAmount r \<and> di_resolvedAt d = Some (rr_createdAt r) \<and>
        (rr_outcome r = FullRefund \<longrightarrow> di_refundAmount d = Some (di_amount d)) \<and>
        (rr_outcome r = PartialRefund \<longrightarrow> (\<exists>a. di_refundAmount d = Some a \<and> 0 < a \<and> a \<le> di_amount d))
      else getResolutions i s = Inr [] \<and> di_resolution d = None \<and> di_refundAmount d = None \<and> di_resolvedAt d = None) \<and>
     (\<forall>j e. js_get (ds_disputes s) j = Some e \<longrightarrow> di_paymentId e = di_paymentId d \<longrightarrow> \<not> isTerminal (di_status d) \<longrightarrow>
        \<not> isTerminal (di_status e) \<longrightarrow> j = i)"
proof -
  have inv: "dispute_inv env s" using dispute_run_inv [OF assms(1) new_dispute_inv assms(2)] .
  have "getResolutions i s = Inr (by_time rr_createdAt (records_of i s))"
    using assms(3) by (simp add: getResolutions_def require_dispute_def records_of_def)
  moreover have "j = i" if "js_get (ds_disputes s) j = Some e" "active e" "active d" "di_paymentId e = di_paymentId d" for j e
    using inv that assms(3) by (auto simp: dispute_inv_def)
  ultimately show ?thesis
    using dispute_get [OF inv assms(3)]
    by (auto simp: dispute_wf_def record_fits_def by_time_def active_def)
qed

subsection \<open>The escalation sweep\<close>

lemma entry_not_pending: "entry_step a t \<Longrightarrow> a \<noteq> Some DsPending \<Longrightarrow> tl_toStatus t \<noteq> Some DsPending"
proof -
  have "TRANSITIONS x e \<noteq> Some DsPending" for x e by (cases x; cases e) auto
  then show "entry_step a t \<Longrightarrow> a \<noteq> Some DsPending \<Longrightarrow> tl_toStatus t \<noteq> Some DsPending"
    by (auto simp: entry_step_def split: timeline_event.splits)
qed

lemma path_not_pending: "path a ts b \<Longrightarrow> a \<noteq> Some DsPending \<Longrightarrow> b \<noteq> Some DsPending"
  by (induction ts arbitrary: a) (auto dest: entry_not_pending)

lemma status_path: "dispute_inv env s \<Longrightarrow> js_get (ds_disputes s) i = Some d \<Longrightarrow> path None (entries_of i s) (Some (di_status d))"
  by (metis dispute_inv_def status_of_dispute_def option.map(2))

lemma never_pending: "dispute_inv env s \<Longrightarrow> js_get (ds_disputes s) i = Some d \<Longrightarrow> di_status d \<noteq> DsPending"
  using path_not_pending [OF status_path] by fastforce

lemma notify_disputes [simp]: "ds_disputes (notify env i r tm sb b now s) = ds_disputes s"
  by (simp add: notify_def Let_def)

lemma notify_parties_disputes [simp]: "ds_disputes (notify_parties env d tm sb b now s) = ds_disputes s"
  by (simp add: notify_parties_def)

definition escalated :: "int \<Rightarrow> DisputeDTO \<Rightarrow> DisputeDTO" where
  "escalated clock d = d\<lparr>di_status := DsEscalated, di_updatedAt := clock\<rparr>"

lemma overdue_escalates: "overdue now d \<Longrightarrow> di_status d \<noteq> DsPending \<Longrightarrow> TRANSITIONS (di_status d) Escalate = Some DsEscalated"
  by (cases "di_status d") (auto simp: overdue_def shouldAutoEscalate_def isTerminal_def)

lemma escalate_overdue:
  assumes "js_get (ds_disputes s) i = Some d" "di_id d = i" "overdue now d" "di_status d \<noteq> DsPending"
  obtains r s' where "escalate_dispute env i a n clock s = (Inr r, s')"
    "ds_disputes s' = js_set i (escalated clock d) (ds_disputes s)"
proof -
  have "\<exists>r s'. escalate_dispute env i a n clock s = (Inr r, s') \<and>
      ds_disputes s' = js_set i (escalated clock d) (ds_disputes s)"
    using overdue_escalates [OF assms(3,4)] assms(1,2)
    by (simp add: escalate_dispute_def escalate_core_def on_dispute_def nextStatus_def Let_def with_detail_def
        getDispute_def escalated_def)
  with that show ?thesis by blast
qed

lemma escalation_loop_effect:
  assumes "\<And>i d. js_get (ds_disputes s) i = Some d \<Longrightarrow> di_id d = i \<and> di_status d \<noteq> DsPending"
    and "distinct xs" "set xs \<subseteq> dom (js_get (ds_disputes s))"
  shows "fst (escalation_loop env now clock xs ids s) =
      ids @ filter (\<lambda>i. overdue now (the (js_get (ds_disputes s) i))) xs \<and>
    (\<forall>j. js_get (ds_disputes (snd (escalation_loop env now clock xs ids s))) j =
      (if j \<in> set xs then map_option (\<lambda>d. if overdue now d then escalated clock d else d) (js_get (ds_disputes s) j)
       else js_get (ds_disputes s) j))"
  using assms
proof (induction xs arbitrary: ids s)
  case (Cons i xs)
  obtain d where d: "js_get (ds_disputes s) i = Some d" using Cons.prems(3) by auto
  note id = Cons.prems(1) [OF d]
  show ?case
  proof (cases "overdue now d")
    case True
    obtain r s1 where s1: "escalate_dispute env i ''system'' ''Auto-escalated past SLA deadline'' clock s = (Inr r, s1)"
      "ds_disputes s1 = js_set i (escalated clock d) (ds_disputes s)"
      using escalate_overdue [OF d _ True] id by blast
    have stored: "di_id e = j \<and> di_status e \<noteq> DsPending" if "js_get (ds_disputes s1) j = Some e" for j e
      using that Cons.prems(1) id by (auto simp: s1(2) escalated_def split: if_splits)
    have known: "set xs \<subseteq> dom (js_get (ds_disputes s1))" using Cons.prems(3) by (auto simp: s1(2))
    have same: "filter (\<lambda>j. overdue now (the (js_get (ds_disputes s1) j))) xs =
        filter (\<lambda>j. overdue now (the (js_get (ds_disputes s) j))) xs"
      using Cons.prems(2) by (intro filter_cong) (auto simp: s1(2))
    have rest: "escalation_loop env now clock (i # xs) ids s = escalation_loop env now clock xs (ids @ [i]) s1"
      by (simp add: d True s1(1))
    show ?thesis
      unfolding rest using Cons.IH [OF stored _ known, of "ids @ [i]"] Cons.prems(2) True d same
      by (auto simp: s1(2))
  next
    case False
    then show ?thesis using Cons.IH [of s ids] Cons.prems d by auto
  qed
qed simp

text \<open>
  A sweep, undisturbed by other calls, escalates exactly the disputes that are past their deadline
  and returns their identifiers in the order of their opening; every other dispute stays as it was, and
  a second sweep for the same time finds nothing.
\<close>

lemma sweep_escalates_overdue:
  assumes "inj (de_uuid env)" "dispute_run env new_dispute_service s"
    and "processEscalations env now clock s = (ids, s')"
  shows "ids = map fst (filter (\<lambda>(i, d). overdue now d) (ds_disputes s)) \<and>
     (\<forall>i. js_get (ds_disputes s') i =
        map_option (\<lambda>d. if overdue now d then d\<lparr>di_status := DsEscalated, di_updatedAt := clock\<rparr> else d)
          (js_get (ds_disputes s) i)) \<and>
     fst (processEscalations env now clock' s') = []"
proof -
  have inv: "dispute_inv env s" using dispute_run_inv [OF assms(1) new_dispute_inv assms(2)] .
  have wf: "js_wf (ds_disputes s)" using inv by (simp add: dispute_inv_def minted_def)
  have keys: "distinct (js_keys (ds_disputes s))" "set (js_keys (ds_disputes s)) \<subseteq> dom (js_get (ds_disputes s))"
    using wf by (auto simp: js_wf_def)
  have ok: "di_id d = i \<and> di_status d \<noteq> DsPending" if "js_get (ds_disputes s) i = Some d" for i d
    using dispute_get [OF inv that] never_pending [OF inv that] by blast
  note effect = escalation_loop_effect [OF ok keys, of env now clock "[]", simplified]
  have ids: "ids = map fst (filter (\<lambda>(i, d). overdue now d) (ds_disputes s))"
  proof -
    have "js_get (ds_disputes s) i = Some d" if "(i, d) \<in> set (ds_disputes s)" for i d
      using wf that by (simp add: js_wf_def js_keys_def)
    then have "filter (\<lambda>i. overdue now (the (js_get (ds_disputes s) i))) (map fst m) = map fst (filter (\<lambda>(i, d). overdue now d) m)"
      if "set m \<subseteq> set (ds_disputes s)" for m
      using that by (induction m) auto
    then show ?thesis using effect assms(3) by (simp add: processEscalations_def js_keys_def)
  qed
  have get: "js_get (ds_disputes s') i = map_option (\<lambda>d. if overdue now d then escalated clock d else d) (js_get (ds_disputes s) i)" for i
    using effect assms(3) by (cases "js_get (ds_disputes s) i") (auto simp: processEscalations_def)
  have calm: "\<not> overdue now d" if "js_get (ds_disputes s') i = Some d" for i d
    using that by (auto simp: get overdue_def escalated_def shouldAutoEscalate_def isTerminal_def split: if_splits)
  have "fst (escalation_loop env now clock' xs [] s') = []" for xs
    by (induction xs) (auto simp: calm split: option.split)
  then show ?thesis using ids get unfolding escalated_def by (simp add: processEscalations_def)
qed

subsection \<open>What the checks let through\<close>

text \<open>
  A refund amount is only checked for partial refunds: a resolution in favour of the payee records any
  amount, and the analytics count it as refunded. The outcome \<open>pending\<close> closes the dispute for good.
\<close>

lemma unchecked_refund_recorded:
  assumes "js_get (ds_disputes s) i = Some d" "di_id d = i" "di_status d = DsUnderReview \<or> di_status d = DsEscalated"
    and "ri_outcome input = ReleaseToPayee \<or> ri_outcome input = OutcomePending" "ri_refundAmount input = Some r"
    and "5 \<le> length (js_trim (ri_resolutionNote input))" "js_trim (ri_resolvedBy input) \<noteq> []"
  shows "\<exists>d'. js_get (ds_disputes (snd (resolve_core env i input now s))) i = Some d' \<and>
     di_status d' = DsResolved \<and> di_refundAmount d' = Some r"
proof -
  have "resolve_error d input = None"
    using assms(4,6,7) by (auto simp: resolve_error_def VALID_OUTCOMES_def)
  moreover have "canTransition (di_status d) (resolve_event (ri_outcome input))"
    using assms(3,4) by (auto simp: canTransition_def resolve_event_def)
  ultimately show ?thesis
    using assms by (auto simp: resolve_core_def on_dispute_def Let_def closed_by_def refund_of_def statusForOutcome_def)
qed

text \<open>
  Once its escalation deadline has passed, a dispute that gets an arbitrator is under review, and so
  overdue: the next sweep escalates it again.
\<close>

lemma assignment_is_undone:
  assumes "js_get (ds_disputes s) i = Some d" "di_id d = i" "di_status d = DsEscalated" "di_escalationDeadline d < now"
    and "js_trim a \<noteq> []"
  shows "\<exists>d'. js_get (ds_disputes (snd (assign_core env i a actor now s))) i = Some d' \<and>
     di_status d' = DsUnderReview \<and> overdue now d'"
  using assms by (simp add: assign_core_def on_dispute_def nextStatus_def Let_def overdue_def shouldAutoEscalate_def
      isTerminal_def validate_def)

text \<open>The party that filed a dispute can respond to it, which stops the deadline of the respondent.\<close>

lemma filer_can_respond:
  assumes "js_get (ds_disputes s) i = Some d" "di_id d = i" "di_status d = DsAwaitingResponse"
    and "rsi_senderId input = di_filedBy d" "5 \<le> length (js_trim (rsi_content input))"
  shows "\<exists>d'. js_get (ds_disputes (snd (respond_core env i input now s))) i = Some d' \<and> di_status d' = DsUnderReview"
  using assms by (simp add: respond_core_def on_dispute_def nextStatus_def Let_def validate_def)

subsection \<open>A dispute from opening to resolution\<close>

definition dispute_demo_env :: dispute_env where
  "dispute_demo_env = \<lparr>de_uuid = \<lambda>n. replicate n (CHR ''u''), de_sha256 = \<lambda>x. x, de_number = \<lambda>x. ''0'', de_iso = \<lambda>t. ''t''\<rparr>"

lemma dispute_demo_inj: "inj (de_uuid dispute_demo_env)"
  by (auto simp: dispute_demo_env_def inj_def)

definition dispute_demo_input :: CreateDisputeInput where
  "dispute_demo_input = \<lparr>cdi_tenantId = ''t'', cdi_paymentId = ''p'', cdi_filedBy = ''alice'', cdi_respondentId = ''bob'',
     cdi_reason = QualityIssue, cdi_amount = 100, cdi_currency = ''usd'', cdi_description = ''the goods were broken on arrival'',
     cdi_projectId = None, cdi_invoiceId = None\<rparr>"

definition dispute_demo0 :: dispute_service where
  "dispute_demo0 = snd (open_dispute dispute_demo_env dispute_demo_input 0 new_dispute_service)"

definition dispute_demo1 :: dispute_service where
  "dispute_demo1 = snd (respond_core dispute_demo_env [] \<lparr>rsi_senderId = ''bob'', rsi_senderRole = RolePayee,
     rsi_content = ''not true''\<rparr> 1 dispute_demo0)"

definition dispute_demo2 :: dispute_service where
  "dispute_demo2 = snd (resolve_core dispute_demo_env [] \<lparr>ri_outcome = PartialRefund, ri_resolutionNote = ''half each'',
     ri_resolvedBy = ''carol'', ri_resolvedByRole = None, ri_refundAmount = Some 50\<rparr> 2 dispute_demo1)"

lemma dispute_demo_clock: "clock_ok 0 new_dispute_service" "clock_ok 1 dispute_demo0" "clock_ok 2 dispute_demo1"
  by (simp add: clock_ok_def new_dispute_service_def js_values_def, code_simp, code_simp)

lemma dispute_demo_runs:
  "dispute_run dispute_demo_env new_dispute_service dispute_demo1"
  "dispute_run dispute_demo_env new_dispute_service dispute_demo2"
proof -
  have "dispute_step dispute_demo_env new_dispute_service dispute_demo0"
    unfolding dispute_demo0_def using dispute_demo_clock(1) by (rule step_open)
  moreover have "dispute_step dispute_demo_env dispute_demo0 dispute_demo1"
    unfolding dispute_demo1_def using dispute_demo_clock(2) by (rule step_respond)
  moreover have "dispute_step dispute_demo_env dispute_demo1 dispute_demo2"
    unfolding dispute_demo2_def using dispute_demo_clock(3) by (rule step_resolve)
  ultimately show "dispute_run dispute_demo_env new_dispute_service dispute_demo1"
    "dispute_run dispute_demo_env new_dispute_service dispute_demo2"
    by (meson converse_rtranclp_into_rtranclp rtranclp.rtrancl_refl)+
qed

lemma dispute_demo_state:
  "map_option di_status (js_get (ds_disputes dispute_demo1) []) = Some DsUnderReview"
  "map_option di_status (js_get (ds_disputes dispute_demo2) []) = Some DsResolved"
  "map_option di_refundAmount (js_get (ds_disputes dispute_demo2) []) = Some (Some 50)"
  "map_option di_escalationDeadline (js_get (ds_disputes dispute_demo1) []) = Some 604800000"
  "map fst (ds_disputes dispute_demo1) = [[]]"
  by code_simp+

theorem timeline_is_a_path_witness:
  "\<exists>ts. getTimeline [] dispute_demo2 = Inr ts \<and> path None ts (Some DsResolved)"
proof -
  obtain d where d: "js_get (ds_disputes dispute_demo2) [] = Some d" "di_status d = DsResolved"
    using dispute_demo_state(2) by auto
  then obtain ts where "getTimeline [] dispute_demo2 = Inr ts"
    by (simp add: getTimeline_def require_dispute_def)
  with timeline_is_a_path [OF dispute_demo_inj dispute_demo_runs(2) this] d show ?thesis
    by (auto simp: getDispute_def toDetail_def)
qed

theorem closed_dispute_is_final_witness:
  "isl (fst (respond dispute_demo_env [] \<lparr>rsi_senderId = ''bob'', rsi_senderRole = RolePayee, rsi_content = ''once more''\<rparr> 9
     dispute_demo2))"
proof -
  obtain d where "js_get (ds_disputes dispute_demo2) [] = Some d" "isTerminal (di_status d)"
    using dispute_demo_state(2) by (auto simp: isTerminal_def)
  then show ?thesis
    using closed_dispute_is_final [OF dispute_demo_inj dispute_demo_runs(2) rtranclp.rtrancl_refl] by blast
qed

lemma dispute_records_agree_witness:
  "\<exists>r. getResolutions [] dispute_demo2 = Inr [r] \<and> rr_refundAmount r = Some 50"
proof -
  obtain d where "js_get (ds_disputes dispute_demo2) [] = Some d" "di_status d = DsResolved" "di_refundAmount d = Some 50"
    using dispute_demo_state(2,3) by auto
  then show ?thesis
    using dispute_records_agree [OF dispute_demo_inj dispute_demo_runs(2), of "[]" d] by (auto simp: isTerminal_def)
qed

lemma sweep_escalates_overdue_witness:
  "fst (processEscalations dispute_demo_env 604800001 604800002 dispute_demo1) = [[]]"
proof -
  obtain d where d: "ds_disputes dispute_demo1 = [([], d)]" "di_status d = DsUnderReview" "di_escalationDeadline d = 604800000"
    using dispute_demo_state(1,4,5) by (auto simp: map_eq_Cons_conv)
  have "fst (processEscalations dispute_demo_env 604800001 604800002 dispute_demo1) =
      map fst (filter (\<lambda>(i, d). overdue 604800001 d) (ds_disputes dispute_demo1))"
    using sweep_escalates_overdue [OF dispute_demo_inj dispute_demo_runs(1) prod.collapse [symmetric]] by blast
  also have "\<dots> = [[]]" using d by (simp add: overdue_def shouldAutoEscalate_def isTerminal_def)
  finally show ?thesis .
qed

end
