(* ===== verification/DecimalMoney.thy ===== *)
theory DecimalMoney
  imports Js
begin

text \<open>
  \<open>backend/src/services/money.ts\<close>: decimal money. An amount is parsed from its decimal text into an
  integer number of minor units, rounding half away from zero, and written back with a fixed number
  of places. A number is parsed from its text \<open>String(value)\<close>: the text is an argument here, and \<open>Number\<close>
  of a text is the rational it denotes. \<open>BigInt\<close> is \<open>int\<close>.
\<close>

subsection \<open>Digits\<close>

definition is_digit :: "char \<Rightarrow> bool" where
  "is_digit c \<longleftrightarrow> 48 \<le> (of_char c :: nat) \<and> (of_char c :: nat) \<le> 57"

definition digit_val :: "char \<Rightarrow> nat" where
  "digit_val c = of_char c - 48"

definition digit_char :: "nat \<Rightarrow> char" where
  "digit_char n = char_of (48 + n)"

text \<open>\<open>BigInt(digits)\<close>, and the text of a natural number.\<close>

definition digits_value :: "string \<Rightarrow> nat" where
  "digits_value = foldl (\<lambda>v c. 10 * v + digit_val c) 0"

fun nat_text :: "nat \<Rightarrow> string" where
  "nat_text n = (if n < 10 then [digit_char n] else nat_text (n div 10) @ [digit_char (n mod 10)])"

declare nat_text.simps [simp del]

definition int_text :: "int \<Rightarrow> string" where
  "int_text i = (if i < 0 then ''-'' @ nat_text (nat (- i)) else nat_text (nat i))"

subsection \<open>The pattern\<close>

definition split_sign :: "string \<Rightarrow> string \<times> string" where
  "split_sign s =
     (case s of c # cs \<Rightarrow> if c = CHR ''+'' \<or> c = CHR ''-'' then ([c], cs) else ([], s) | [] \<Rightarrow> ([], []))"

record decimal_match =
  dm_sign :: string
  dm_integerPart :: string
  dm_fractionPart :: string
  dm_exponentPart :: "string option"

text \<open>\<open>[eE]([+-]?\d+)\<close> up to the end, or nothing.\<close>

definition match_exponent :: "string \<Rightarrow> string option option" where
  "match_exponent s =
     (case s of
        [] \<Rightarrow> Some None
      | c # r \<Rightarrow>
          let (sg, ds) = split_sign r
          in if (c = CHR ''e'' \<or> c = CHR ''E'') \<and> ds \<noteq> [] \<and> list_all is_digit ds then Some (Some (sg @ ds)) else None)"

text \<open>Each part of the pattern ends before a character that cannot continue it: there is one match at most.\<close>

definition DECIMAL_PATTERN :: "string \<Rightarrow> decimal_match option" where
  "DECIMAL_PATTERN text =
     (let (sign, s) = split_sign text;
          integerPart = takeWhile is_digit s;
          r = dropWhile is_digit s;
          (fractionPart, e) = (case r of
             c # cs \<Rightarrow> if c = CHR ''.'' then (takeWhile is_digit cs, dropWhile is_digit cs) else ([], r)
           | [] \<Rightarrow> ([], []))
      in map_option (\<lambda>ep. \<lparr>dm_sign = sign, dm_integerPart = integerPart, dm_fractionPart = fractionPart,
           dm_exponentPart = ep\<rparr>) (match_exponent e))"

subsection \<open>The operations\<close>

datatype money_error = InvalidAmount

definition RATE_DECIMALS :: int where
  "RATE_DECIMALS = 12"

definition FIAT_DECIMALS :: int where
  "FIAT_DECIMALS = 2"

definition CRYPTO_DECIMALS :: int where
  "CRYPTO_DECIMALS = 7"

definition MAX_SCALE_SHIFT :: int where
  "MAX_SCALE_SHIFT = 120"

definition assertDecimals :: "int \<Rightarrow> bool" where
  "assertDecimals decimals \<longleftrightarrow> 0 \<le> decimals \<and> decimals \<le> 18"

definition divRoundHalfUp :: "int \<Rightarrow> int \<Rightarrow> money_error + int" where
  "divRoundHalfUp numerator divisor =
     (if divisor \<le> 0 then Inl InvalidAmount
      else
        let abs = (if numerator < 0 then - numerator else numerator);
            quotient = abs div divisor;
            remainder = abs mod divisor;
            rounded = (if divisor \<le> remainder * 2 then quotient + 1 else quotient)
        in Inr (if numerator < 0 then - rounded else rounded))"

text \<open>\<open>replace(/^0+(?=\d)/, '')\<close>\<close>

fun strip_zeros :: "string \<Rightarrow> string" where
  "strip_zeros (c # d # cs) = (if c = CHR ''0'' \<and> is_digit d then strip_zeros (d # cs) else c # d # cs)"
| "strip_zeros cs = cs"

text \<open>\<open>Number(exponentPart ?? '0')\<close>\<close>

definition exponent_value :: "string option \<Rightarrow> int" where
  "exponent_value e =
     (case e of
        None \<Rightarrow> 0
      | Some s \<Rightarrow> let (sg, ds) = split_sign s in if sg = ''-'' then - int (digits_value ds) else int (digits_value ds))"

definition minor_units :: "decimal_match \<Rightarrow> int \<Rightarrow> money_error + int" where
  "minor_units mt decimals =
     (if dm_integerPart mt = [] \<and> dm_fractionPart mt = [] then Inl InvalidAmount
      else
        let digits = strip_zeros (dm_integerPart mt @ dm_fractionPart mt);
            scale = int (length (dm_fractionPart mt)) - exponent_value (dm_exponentPart mt);
            unsigned = (if digits = [] then 0 else int (digits_value digits));
            shift = decimals - scale
        in if MAX_SCALE_SHIFT < shift \<or> shift < - MAX_SCALE_SHIFT then Inl InvalidAmount
           else
             (case (if 0 \<le> shift then Inr (unsigned * 10 ^ nat shift) else divRoundHalfUp unsigned (10 ^ nat (- shift))) of
                Inl e \<Rightarrow> Inl e
              | Inr minor \<Rightarrow> Inr (if dm_sign mt = ''-'' then - minor else minor)))"

text \<open>Of a text, which is trimmed; the text of a number is not, but has no blanks.\<close>

definition parseDecimalToMinor :: "string \<Rightarrow> int \<Rightarrow> money_error + int" where
  "parseDecimalToMinor value decimals =
     (if \<not> assertDecimals decimals then Inl InvalidAmount
      else
        (case DECIMAL_PATTERN (js_trim value) of
           None \<Rightarrow> Inl InvalidAmount
         | Some mt \<Rightarrow> minor_units mt decimals))"

definition padStart :: "nat \<Rightarrow> string \<Rightarrow> string" where
  "padStart n s = replicate (n - length s) (CHR ''0'') @ s"

definition formatMinor :: "int \<Rightarrow> int \<Rightarrow> money_error + string" where
  "formatMinor minor decimals =
     (if \<not> assertDecimals decimals then Inl InvalidAmount
      else
        let negative = minor < 0;
            abs = nat (if negative then - minor else minor);
            sign = (if negative then ''-'' else [])
        in if decimals = 0 then Inr (sign @ nat_text abs)
           else
             let base = 10 ^ nat decimals
             in Inr (sign @ nat_text (abs div base) @ ''.'' @ padStart (nat decimals) (nat_text (abs mod base))))"

definition addMinor :: "int \<Rightarrow> int \<Rightarrow> int" where
  "addMinor a b = a + b"

definition compareMinor :: "int \<Rightarrow> int \<Rightarrow> int" where
  "compareMinor a b = (if a < b then - 1 else if b < a then 1 else 0)"

text \<open>The rational a decimal text denotes: \<open>Number(text)\<close> without the error of binary fractions.\<close>

definition match_value :: "decimal_match \<Rightarrow> rat" where
  "match_value mt =
     (if dm_sign mt = ''-'' then - 1 else 1) * of_nat (digits_value (dm_integerPart mt @ dm_fractionPart mt)) *
     10 powi (exponent_value (dm_exponentPart mt) - int (length (dm_fractionPart mt)))"

definition text_value :: "string \<Rightarrow> rat option" where
  "text_value s =
     (case DECIMAL_PATTERN (js_trim s) of
        None \<Rightarrow> None
      | Some mt \<Rightarrow> if dm_integerPart mt = [] \<and> dm_fractionPart mt = [] then None else Some (match_value mt))"

definition fromMinorToNumber :: "int \<Rightarrow> int \<Rightarrow> money_error + rat option" where
  "fromMinorToNumber minor decimals =
     (case formatMinor minor decimals of Inl e \<Rightarrow> Inl e | Inr s \<Rightarrow> Inr (text_value s))"

definition multiplyByRate :: "int \<Rightarrow> rat \<Rightarrow> string \<Rightarrow> int \<Rightarrow> money_error + int" where
  "multiplyByRate amountMinor rate rate_text decimals =
     (if \<not> assertDecimals decimals then Inl InvalidAmount
      else if rate < 0 then Inl InvalidAmount
      else if amountMinor = 0 then Inr 0
      else
        (case parseDecimalToMinor rate_text RATE_DECIMALS of
           Inl e \<Rightarrow> Inl e
         | Inr rateMinor \<Rightarrow> divRoundHalfUp (amountMinor * rateMinor) (10 ^ nat RATE_DECIMALS)))"

text \<open>Of the text of a number.\<close>

definition quantizeNumber :: "string \<Rightarrow> int \<Rightarrow> money_error + rat option" where
  "quantizeNumber value_text decimals =
     (case parseDecimalToMinor value_text decimals of
        Inl e \<Rightarrow> Inl e
      | Inr minor \<Rightarrow> fromMinorToNumber minor decimals)"

fun sum_minor :: "string list \<Rightarrow> int \<Rightarrow> int \<Rightarrow> money_error + int" where
  "sum_minor [] decimals running = Inr running"
| "sum_minor (v # vs) decimals running =
     (case parseDecimalToMinor v decimals of
        Inl e \<Rightarrow> Inl e
      | Inr minor \<Rightarrow> sum_minor vs decimals (running + minor))"

definition sumAmounts :: "string list \<Rightarrow> int \<Rightarrow> money_error + string" where
  "sumAmounts vs decimals =
     (case sum_minor vs decimals 0 of
        Inl e \<Rightarrow> Inl e
      | Inr minor \<Rightarrow> formatMinor minor decimals)"

end
