(* ===== verification/DecimalProps.thy ===== *)
theory DecimalProps
  imports DecimalMoney
begin

text \<open>
  Properties of decimal money: parsing a text gives the rational that it denotes in minor units, rounded
  half away from zero; formatting and parsing are inverse; sums are exact.
\<close>

subsection \<open>Digits\<close>

lemma digit_char [simp]: "n < 10 \<Longrightarrow> is_digit (digit_char n)" "n < 10 \<Longrightarrow> digit_val (digit_char n) = n"
  by (simp_all add: is_digit_def digit_val_def digit_char_def)

lemma digits_value_Nil [simp]: "digits_value [] = 0"
  by (simp add: digits_value_def)

lemma digits_value_snoc [simp]: "digits_value (s @ [c]) = 10 * digits_value s + digit_val c"
  by (simp add: digits_value_def)

lemma digits_value_append: "digits_value (a @ b) = digits_value a * 10 ^ length b + digits_value b"
proof (induction b rule: rev_induct)
  case (snoc c b)
  have "digits_value (a @ b @ [c]) = 10 * digits_value (a @ b) + digit_val c"
    using digits_value_snoc [of "a @ b"] by simp
  with snoc show ?case by (simp add: algebra_simps)
qed simp

lemma digits_value_single [simp]: "digits_value [c] = digit_val c"
  by (simp add: digits_value_def)

lemma digits_value_Cons: "digits_value (c # s) = digit_val c * 10 ^ length s + digits_value s"
  using digits_value_append [of "[c]" s] by simp

lemma zero_digit [simp]: "digit_val (CHR ''0'') = 0" "is_digit (CHR ''0'')"
  by (simp_all add: digit_val_def is_digit_def)

lemma digits_value_zeros [simp]: "digits_value (replicate n (CHR ''0'') @ s) = digits_value s"
  by (induction n) (simp_all add: digits_value_Cons)

lemma strip_zeros_value [simp]: "digits_value (strip_zeros s) = digits_value s"
proof (induction s rule: strip_zeros.induct)
  case (1 c d cs)
  then show ?case by (auto simp: digits_value_Cons)
qed simp_all

lemma strip_zeros_Nil [simp]: "strip_zeros s = [] \<longleftrightarrow> s = []"
  by (induction s rule: strip_zeros.induct) auto

lemma nat_text_value [simp]: "digits_value (nat_text n) = n"
proof (induction n rule: nat_text.induct)
  case (1 n)
  then show ?case by (subst nat_text.simps) auto
qed

lemma nat_text_digits: "c \<in> set (nat_text n) \<Longrightarrow> is_digit c"
proof (induction n rule: nat_text.induct)
  case (1 n)
  then show ?case by (subst (asm) (2) nat_text.simps) (auto split: if_splits)
qed

lemma nat_text_Nil [simp]: "nat_text n \<noteq> []"
  by (subst nat_text.simps) simp

lemma nat_text_inject [simp]: "nat_text m = nat_text n \<longleftrightarrow> m = n"
  by (metis nat_text_value)

lemma nat_text_length: "n < 10 ^ k \<Longrightarrow> 0 < k \<Longrightarrow> length (nat_text n) \<le> k"
proof (induction n arbitrary: k rule: nat_text.induct)
  case (1 n)
  show ?case
  proof (cases "n < 10")
    case True
    then show ?thesis using "1.prems" by (subst nat_text.simps) simp
  next
    case False
    obtain j where j: "k = Suc j" using "1.prems"(2) by (cases k) auto
    have "j \<noteq> 0"
    proof
      assume "j = 0"
      with "1.prems"(1) j False show False by simp
    qed
    with j have k: "k = Suc j" "0 < j" by simp_all
    then have "n div 10 < 10 ^ j" using "1.prems" by (simp add: less_mult_imp_div_less mult.commute)
    with "1.IH" [OF False this k(2)] False k show ?thesis by (subst nat_text.simps) simp
  qed
qed

subsection \<open>Rounding\<close>

text \<open>To the nearest integer, ties away from zero.\<close>

definition half_away :: "rat \<Rightarrow> int" where
  "half_away x = (if x < 0 then - \<lfloor>- x + 1 / 2\<rfloor> else \<lfloor>x + 1 / 2\<rfloor>)"

lemma half_away_uminus: "half_away (- x) = - half_away x"
proof -
  have "\<lfloor>1 / 2 :: rat\<rfloor> = 0" by (simp add: floor_eq_iff)
  then show ?thesis by (cases "x = 0") (auto simp: half_away_def)
qed

lemma half_away_of_int [simp]: "half_away (of_int n) = n"
proof -
  have "\<lfloor>of_int m + 1 / 2 :: rat\<rfloor> = m" for m by (simp add: floor_eq_iff)
  from this [of n] this [of "- n"] show ?thesis by (simp add: half_away_def)
qed

lemma half_away_close: "\<bar>of_int (half_away x) - x\<bar> \<le> 1 / 2"
proof -
  have near: "\<bar>of_int \<lfloor>y + 1 / 2\<rfloor> - y\<bar> \<le> 1 / 2" for y :: rat by linarith
  show ?thesis
  proof (cases "x < 0")
    case True
    then have "of_int (half_away x) - x = - (of_int \<lfloor>- x + 1 / 2\<rfloor> - (- x))" by (simp add: half_away_def)
    with near [of "- x"] show ?thesis by (simp only: abs_minus_cancel)
  qed (use near [of x] in \<open>simp add: half_away_def\<close>)
qed

lemma floor_half: "0 \<le> x \<Longrightarrow> x < 1 \<Longrightarrow> c \<longleftrightarrow> 1 / 2 \<le> x \<Longrightarrow> \<lfloor>of_int q + x + 1 / 2\<rfloor> = q + (if c then 1 else 0)"
  for x :: rat
  by (auto simp: floor_eq_iff)

lemma div_round: "0 < d \<Longrightarrow> divRoundHalfUp n d = Inr (half_away (of_int n / of_int d))"
proof -
  assume d: "0 < d"
  have pos: "\<lfloor>of_int m / of_int d + 1 / 2 :: rat\<rfloor> = m div d + (if d \<le> m mod d * 2 then 1 else 0)" for m
  proof -
    have "m = m div d * d + m mod d" by simp
    then have "(of_int m :: rat) = of_int (m div d) * of_int d + of_int (m mod d)"
      by (metis of_int_add of_int_mult)
    then have split: "(of_int m / of_int d :: rat) = of_int (m div d) + of_int (m mod d) / of_int d"
      using d by (simp add: field_simps)
    have "0 \<le> m mod d" "m mod d < d" using d by simp_all
    then have "0 \<le> (of_int (m mod d) / of_int d :: rat)" "(of_int (m mod d) / of_int d :: rat) < 1"
      using d by (simp_all add: divide_simps)
    moreover have "d \<le> m mod d * 2 \<longleftrightarrow> 1 / 2 \<le> (of_int (m mod d) / of_int d :: rat)"
    proof -
      have "1 / 2 \<le> (of_int (m mod d) / of_int d :: rat) \<longleftrightarrow> (of_int d :: rat) \<le> of_int (m mod d * 2)"
        using d by (simp add: field_simps)
      then show ?thesis by (simp only: of_int_le_iff)
    qed
    ultimately show ?thesis unfolding split by (rule floor_half)
  qed
  show ?thesis
  proof (cases "n < 0")
    case True
    then have "(of_int n / of_int d :: rat) < 0" "- (of_int n / of_int d :: rat) = of_int (- n) / of_int d"
      using d by (simp_all add: divide_neg_pos)
    then have "half_away (of_int n / of_int d) = - \<lfloor>of_int (- n) / of_int d + 1 / 2 :: rat\<rfloor>"
      by (simp add: half_away_def)
    then show ?thesis unfolding pos using True d by (simp add: divRoundHalfUp_def Let_def)
  next
    case False
    then have "\<not> (of_int n / of_int d :: rat) < 0" using d by (simp add: divide_less_0_iff)
    then have "half_away (of_int n / of_int d) = \<lfloor>of_int n / of_int d + 1 / 2 :: rat\<rfloor>"
      by (simp add: half_away_def)
    then show ?thesis unfolding pos using False d by (simp add: divRoundHalfUp_def Let_def)
  qed
qed

subsection \<open>Parsing\<close>

lemma unsigned_value: "(if strip_zeros ds = [] then 0 else int (digits_value (strip_zeros ds))) = int (digits_value ds)"
  by simp

text \<open>Scaling by a power of ten, up or down.\<close>

lemma scaled_minor:
  "(if 0 \<le> shift then Inr (n * 10 ^ nat shift) else divRoundHalfUp n (10 ^ nat (- shift))) =
   Inr (half_away (of_int n * 10 powi shift))"
proof (cases "0 \<le> shift")
  case True
  then have "(of_int n * 10 powi shift :: rat) = of_int (n * 10 ^ nat shift)" by (simp add: power_int_def)
  with True show ?thesis by (simp only: half_away_of_int if_True)
next
  case False
  then have "(of_int n * 10 powi shift :: rat) = of_int n / of_int (10 ^ nat (- shift))"
    by (simp add: power_int_def field_simps)
  with False div_round [of "10 ^ nat (- shift)" n] show ?thesis by simp
qed

definition match_shift :: "decimal_match \<Rightarrow> int" where
  "match_shift mt = exponent_value (dm_exponentPart mt) - int (length (dm_fractionPart mt))"

lemma minor_units_value:
  "minor_units mt decimals =
     (if dm_integerPart mt = [] \<and> dm_fractionPart mt = [] \<or> 120 < \<bar>decimals + match_shift mt\<bar> then Inl InvalidAmount
      else Inr (half_away (match_value mt * 10 powi decimals)))"
proof -
  define n where "n = int (digits_value (dm_integerPart mt @ dm_fractionPart mt))"
  define shift where "shift = decimals - (int (length (dm_fractionPart mt)) - exponent_value (dm_exponentPart mt))"
  define sg :: int where "sg = (if dm_sign mt = ''-'' then - 1 else 1)"
  have "match_value mt * 10 powi decimals = of_int sg * of_int n *
      (10 powi (exponent_value (dm_exponentPart mt) - int (length (dm_fractionPart mt))) * 10 powi decimals)"
    by (simp add: match_value_def n_def sg_def)
  also have "\<dots> = of_int (sg * n) * 10 powi shift"
    by (subst power_int_add [symmetric]) (simp_all add: shift_def algebra_simps)
  finally have "half_away (match_value mt * 10 powi decimals) = half_away (of_int (sg * n) * 10 powi shift)" by simp
  also have "\<dots> = sg * half_away (of_int n * 10 powi shift)"
    using half_away_uminus [of "of_int n * 10 powi shift"] by (simp add: sg_def)
  finally have rounded: "half_away (match_value mt * 10 powi decimals) = sg * half_away (of_int n * 10 powi shift)" .
  have "minor_units mt decimals =
      (if dm_integerPart mt = [] \<and> dm_fractionPart mt = [] then Inl InvalidAmount
       else if 120 < shift \<or> shift < - 120 then Inl InvalidAmount
       else Inr (sg * half_away (of_int n * 10 powi shift)))"
    unfolding minor_units_def Let_def unsigned_value n_def [symmetric] shift_def [symmetric] scaled_minor
    by (simp add: sg_def MAX_SCALE_SHIFT_def)
  moreover have "120 < \<bar>decimals + match_shift mt\<bar> \<longleftrightarrow> 120 < shift \<or> shift < - 120"
    by (auto simp: shift_def match_shift_def)
  ultimately show ?thesis unfolding rounded by simp
qed

text \<open>
  C25: Parsing a decimal text that denotes a rational gives its minor units, rounded half away from zero,
  unless the scale of the text is more than 120 places away; any other text is an invalid amount.
\<close>

theorem parsing_rounds_the_value:
  assumes "0 \<le> decimals" "decimals \<le> 18"
  shows "case DECIMAL_PATTERN (js_trim text) of
      None \<Rightarrow> parseDecimalToMinor text decimals = Inl InvalidAmount \<and> text_value text = None
    | Some mt \<Rightarrow>
        if dm_integerPart mt = [] \<and> dm_fractionPart mt = [] then
          parseDecimalToMinor text decimals = Inl InvalidAmount \<and> text_value text = None
        else if \<bar>decimals - int (length (dm_fractionPart mt)) + exponent_value (dm_exponentPart mt)\<bar> \<le> 120 then
          \<exists>x. text_value text = Some x \<and> parseDecimalToMinor text decimals = Inr (half_away (x * 10 powi decimals))
        else parseDecimalToMinor text decimals = Inl InvalidAmount"
  using assms
  by (cases "DECIMAL_PATTERN (js_trim text)")
    (auto simp: parseDecimalToMinor_def text_value_def assertDecimals_def minor_units_value match_shift_def algebra_simps)

theorem parsing_rounds_the_value_witness:
  "\<exists>x. text_value '' -1.0005e1'' = Some x \<and> parseDecimalToMinor '' -1.0005e1'' 2 = Inr (half_away (x * 10 powi 2))"
proof -
  have "DECIMAL_PATTERN (js_trim '' -1.0005e1'') =
      Some \<lparr>dm_sign = ''-'', dm_integerPart = ''1'', dm_fractionPart = ''0005'', dm_exponentPart = Some ''1''\<rparr>"
    by code_simp
  moreover have "exponent_value (Some ''1'') = 1" by code_simp
  ultimately show ?thesis using parsing_rounds_the_value [of 2 "'' -1.0005e1''"] by simp
qed

lemma parsing_rounds_example: "parseDecimalToMinor '' -1.0005e1'' 2 = Inr (- 1001)"
  by code_simp

subsection \<open>Formatting\<close>

lemma trim_plain: "list_all (\<lambda>c. \<not> is_space c) s \<Longrightarrow> js_trim s = s"
proof -
  have *: "list_all (\<lambda>c. \<not> is_space c) t \<Longrightarrow> dropWhile is_space t = t" for t by (cases t) auto
  show "list_all (\<lambda>c. \<not> is_space c) s \<Longrightarrow> js_trim s = s"
    using * [of s] * [of "rev s"] by (simp add: js_trim_def list_all_rev)
qed

lemma digit_plain: "is_digit c \<Longrightarrow> \<not> is_space c \<and> c \<noteq> CHR ''+'' \<and> c \<noteq> CHR ''-'' \<and> c \<noteq> CHR ''.''"
  by (auto simp: is_digit_def is_space_def)

lemma plain_digits: "(\<And>c. c \<in> set ds \<Longrightarrow> is_digit c) \<Longrightarrow> list_all (\<lambda>c. \<not> is_space c) ds"
  using digit_plain by (auto simp: list_all_iff)

lemma split_sign_digits: "(\<And>c. c \<in> set ds \<Longrightarrow> is_digit c) \<Longrightarrow> ds \<noteq> [] \<Longrightarrow> split_sign (ds @ r) = ([], ds @ r)"
  using digit_plain [of "hd ds"] by (cases ds) (auto simp: split_sign_def)

lemma takeWhile_digits:
  "(\<And>c. c \<in> set ds \<Longrightarrow> is_digit c) \<Longrightarrow> r = [] \<or> \<not> is_digit (hd r) \<Longrightarrow>
   takeWhile is_digit (ds @ r) = ds \<and> dropWhile is_digit (ds @ r) = r"
  by (cases r) (auto simp: takeWhile_append2 dropWhile_append2)

definition sign_text :: "int \<Rightarrow> string" where
  "sign_text m = (if m < 0 then ''-'' else [])"

lemma int_text_sign: "int_text i = sign_text i @ nat_text (nat \<bar>i\<bar>)"
  by (simp add: int_text_def sign_text_def)

lemma trim_int_text: "js_trim (int_text i) = int_text i"
proof -
  have "list_all (\<lambda>c. \<not> is_space c) (nat_text (nat \<bar>i\<bar>))" by (rule plain_digits) (rule nat_text_digits)
  then show ?thesis by (intro trim_plain) (simp add: int_text_sign sign_text_def is_space_def)
qed

text \<open>A text of digits, with a point or without, is matched as it is written.\<close>

lemma match_plain:
  assumes "\<And>c. c \<in> set i \<Longrightarrow> is_digit c" "\<And>c. c \<in> set f \<Longrightarrow> is_digit c" "i \<noteq> []"
  shows "DECIMAL_PATTERN (sign_text m @ i @ (if f = [] then [] else ''.'' @ f)) =
    Some \<lparr>dm_sign = sign_text m, dm_integerPart = i, dm_fractionPart = f, dm_exponentPart = None\<rparr>"
proof -
  let ?r = "if f = [] then [] else ''.'' @ f"
  have point: "\<not> is_digit (CHR ''.'')" by (simp add: is_digit_def)
  have "split_sign (sign_text m @ i @ ?r) = (sign_text m, i @ ?r)"
    using split_sign_digits [of i ?r] assms(1,3) by (simp add: sign_text_def) (simp add: split_sign_def)
  moreover have "takeWhile is_digit (i @ ?r) = i \<and> dropWhile is_digit (i @ ?r) = ?r"
    using assms(1) point by (intro takeWhile_digits) auto
  moreover have "takeWhile is_digit f = f \<and> dropWhile is_digit f = []"
    using takeWhile_digits [of f "[]"] assms(2) by simp
  ultimately show ?thesis
    by (simp add: DECIMAL_PATTERN_def match_exponent_def del: dropWhile_eq_Nil_conv takeWhile_eq_all_conv)
qed

lemma pad_digits: "c \<in> set (padStart n (nat_text k)) \<Longrightarrow> is_digit c"
  using nat_text_digits [of c k] by (auto simp: padStart_def)

lemma pad_length: "k < 10 ^ n \<Longrightarrow> 0 < n \<Longrightarrow> length (padStart n (nat_text k)) = n"
  using nat_text_length [of k n] by (simp add: padStart_def)

lemma format_shape:
  assumes "0 \<le> d" "d \<le> 18"
  obtains i f where "formatMinor m d = Inr (sign_text m @ i @ (if f = [] then [] else ''.'' @ f))"
    "\<And>c. c \<in> set i \<Longrightarrow> is_digit c" "\<And>c. c \<in> set f \<Longrightarrow> is_digit c" "i \<noteq> []" "length f = nat d"
    "int (digits_value (i @ f)) = \<bar>m\<bar>"
proof -
  define a where "a = nat \<bar>m\<bar>"
  have abs: "nat (if m < 0 then - m else m) = a" by (simp add: a_def)
  show ?thesis
  proof (cases "d = 0")
    case True
    show ?thesis
      by (rule that [of "nat_text a" "[]"])
        (use True abs nat_text_digits in \<open>auto simp: formatMinor_def assertDecimals_def Let_def sign_text_def a_def\<close>)
  next
    case False
    let ?b = "10 ^ nat d :: nat"
    let ?f = "padStart (nat d) (nat_text (a mod ?b))"
    have len: "length ?f = nat d" using False assms(1) by (intro pad_length) simp_all
    have "digits_value (nat_text (a div ?b) @ ?f) = a div ?b * ?b + a mod ?b"
      unfolding digits_value_append len by (simp add: padStart_def)
    then have v: "int (digits_value (nat_text (a div ?b) @ ?f)) = \<bar>m\<bar>"
      by (simp only: div_mult_mod_eq) (simp add: a_def)
    have "?f \<noteq> []" using len False assms(1) by auto
    moreover have "formatMinor m d = Inr (sign_text m @ nat_text (a div ?b) @ ''.'' @ ?f)"
      unfolding formatMinor_def Let_def abs using False assms
      by (simp only: assertDecimals_def sign_text_def if_False not_True_eq_False simp_thms)
    ultimately have "formatMinor m d = Inr (sign_text m @ nat_text (a div ?b) @ (if ?f = [] then [] else ''.'' @ ?f))"
      by simp
    then show ?thesis
      by (rule that [of "nat_text (a div ?b)" ?f]) (fact nat_text_digits pad_digits nat_text_Nil len v)+
  qed
qed

lemma match_format:
  assumes "0 \<le> d" "d \<le> 18" "formatMinor m d = Inr s"
  obtains i f where "DECIMAL_PATTERN (js_trim s) =
      Some \<lparr>dm_sign = sign_text m, dm_integerPart = i, dm_fractionPart = f, dm_exponentPart = None\<rparr>"
    "i \<noteq> []" "length f = nat d" "int (digits_value (i @ f)) = \<bar>m\<bar>"
proof -
  obtain i f where s: "s = sign_text m @ i @ (if f = [] then [] else ''.'' @ f)"
    and ds: "\<And>c. c \<in> set i \<Longrightarrow> is_digit c" "\<And>c. c \<in> set f \<Longrightarrow> is_digit c" "i \<noteq> []" "length f = nat d"
    and v: "int (digits_value (i @ f)) = \<bar>m\<bar>"
    using format_shape [OF assms(1,2), of m] assms(3) by (metis sum.inject(2))
  have "list_all (\<lambda>c. \<not> is_space c) s"
    using plain_digits [of i] plain_digits [of f] ds(1,2) by (auto simp: s sign_text_def is_space_def)
  then have trim: "js_trim s = s" by (rule trim_plain)
  have "DECIMAL_PATTERN (js_trim s) =
      Some \<lparr>dm_sign = sign_text m, dm_integerPart = i, dm_fractionPart = f, dm_exponentPart = None\<rparr>"
    unfolding trim unfolding s using ds by (intro match_plain) auto
  then show ?thesis using ds(3,4) v by (rule that)
qed

lemma parse_format:
  assumes "0 \<le> d" "d \<le> 18" "formatMinor m d = Inr s"
  shows "parseDecimalToMinor s d = Inr m" "text_value s = Some (of_int m / 10 ^ nat d)"
proof -
  obtain i f where mt: "DECIMAL_PATTERN (js_trim s) =
      Some \<lparr>dm_sign = sign_text m, dm_integerPart = i, dm_fractionPart = f, dm_exponentPart = None\<rparr>"
    and i: "i \<noteq> []" and f: "length f = nat d" and v: "int (digits_value (i @ f)) = \<bar>m\<bar>"
    using match_format [OF assms] .
  have sign: "sign_text m = ''-'' \<longleftrightarrow> m < 0" by (simp add: sign_text_def)
  have unsigned: "(if strip_zeros (i @ f) = [] then 0 else int (digits_value (strip_zeros (i @ f)))) = \<bar>m\<bar>"
    using v i by simp
  show "parseDecimalToMinor s d = Inr m"
    using assms(1,2) i f unsigned
    by (simp add: parseDecimalToMinor_def mt assertDecimals_def minor_units_def exponent_value_def sign
        MAX_SCALE_SHIFT_def Let_def del: strip_zeros_Nil strip_zeros_value)
  have "(of_nat (digits_value (i @ f)) :: rat) = of_int \<bar>m\<bar>" using v by (metis of_int_of_nat_eq)
  then show "text_value s = Some (of_int m / 10 ^ nat d)"
    using i f assms(1)
    by (simp add: text_value_def mt match_value_def sign exponent_value_def power_int_def field_simps)
qed



lemma sum_minor_outcome:
  "sum_minor vs d run = (if \<forall>v\<in>set vs. \<not> isl (parseDecimalToMinor v d)
     then Inr (run + sum_list (map (\<lambda>v. projr (parseDecimalToMinor v d)) vs)) else Inl InvalidAmount)"
proof (induction vs arbitrary: run)
  case (Cons v vs)
  show ?case
  proof (cases "parseDecimalToMinor v d")
    case (Inl e)
    then show ?thesis by (cases e) simp
  qed (use Cons in simp)
qed simp

text \<open>
  The sum of amounts is exact: when every amount parses, the sum is the text of exactly the sum of
  their minor units, which parses back to it and denotes the sum; otherwise the sum is an error.
\<close>

lemma sums_are_exact:
  assumes "0 \<le> d" "d \<le> 18"
  shows "(\<forall>vs. (\<exists>v\<in>set vs. isl (parseDecimalToMinor v d)) \<longrightarrow> sumAmounts vs d = Inl InvalidAmount) \<and>
     (\<forall>ms vs. map (\<lambda>v. parseDecimalToMinor v d) vs = map Inr ms \<longrightarrow>
        (\<exists>s. sumAmounts vs d = Inr s \<and> parseDecimalToMinor s d = Inr (sum_list ms) \<and>
           text_value s = Some (sum_list (map (\<lambda>m. of_int m / 10 ^ nat d) ms))))"
proof (intro conjI allI impI)
  fix ms vs
  assume ms: "map (\<lambda>v. parseDecimalToMinor v d) vs = map Inr ms"
  obtain s where s: "formatMinor (sum_list ms) d = Inr s" using format_shape [OF assms] by metis
  have "sum_minor vs d run = Inr (run + sum_list ms)" for run
    using ms by (induction vs arbitrary: ms run) (auto simp: Cons_eq_map_conv algebra_simps)
  moreover have "sum_list (map (\<lambda>m. of_int m / 10 ^ nat d :: rat) ms) = of_int (sum_list ms) / 10 ^ nat d"
    by (induction ms) (simp_all add: add_divide_distrib)
  ultimately show "\<exists>s. sumAmounts vs d = Inr s \<and> parseDecimalToMinor s d = Inr (sum_list ms) \<and>
      text_value s = Some (sum_list (map (\<lambda>m. of_int m / 10 ^ nat d) ms))"
    using s parse_format [OF assms s] by (simp add: sumAmounts_def)
qed (auto simp: sumAmounts_def sum_minor_outcome)

lemma sums_are_exact_witness:
  "\<exists>s. sumAmounts [''0.1'', ''0.2''] 2 = Inr s \<and> parseDecimalToMinor s 2 = Inr 30"
proof -
  have "parseDecimalToMinor ''0.1'' 2 = Inr 10" "parseDecimalToMinor ''0.2'' 2 = Inr 20" by code_simp+
  then have "map (\<lambda>v. parseDecimalToMinor v 2) [''0.1'', ''0.2''] = map Inr [10, 20]" by simp
  then have two: "map (\<lambda>v. parseDecimalToMinor v 2) [''0.1'', ''0.2''] = map Inr [10, 20]" by blast
  have "0 \<le> (2 :: int)" "2 \<le> (18 :: int)" by simp_all
  from conjunct2 [OF sums_are_exact [OF this], rule_format, OF two] show ?thesis by auto
qed

text \<open>
  Conversion at a rate: within half a minor unit of the product with the rate as it is quantized, which
  is within half of \<open>10^-12\<close> of the rate itself.
\<close>

lemma conversion_close:
  assumes "0 \<le> d" "d \<le> 18" "0 \<le> rate" "parseDecimalToMinor rt RATE_DECIMALS = Inr (half_away (rate * 10 ^ 12))"
    and "multiplyByRate a rate rt d = Inr c"
  shows "\<bar>of_int c - of_int a * rate\<bar> \<le> 1 / 2 + \<bar>of_int a\<bar> / (2 * 10 ^ 12)"
proof (cases "a = 0")
  case True
  with assms show ?thesis by (simp add: multiplyByRate_def assertDecimals_def)
next
  case False
  define q where "q = half_away (rate * 10 ^ 12)"
  have "c = half_away (of_int (a * q) / of_int (10 ^ 12))"
    using assms False div_round [of "10 ^ 12" "a * q"]
    by (simp add: multiplyByRate_def assertDecimals_def RATE_DECIMALS_def q_def)
  then have 1: "\<bar>of_int c - of_int a * of_int q / 10 ^ 12\<bar> \<le> 1 / (2 :: rat)"
    using half_away_close [of "of_int (a * q) / of_int (10 ^ 12)"] by simp
  have "\<bar>of_int q - rate * 10 ^ 12\<bar> \<le> 1 / 2" unfolding q_def by (rule half_away_close)
  then have "\<bar>of_int a\<bar> * \<bar>of_int q - rate * 10 ^ 12\<bar> \<le> \<bar>of_int a :: rat\<bar> * (1 / 2)" by (intro mult_left_mono) auto
  then have 2: "\<bar>of_int a * of_int q / 10 ^ 12 - of_int a * rate\<bar> \<le> \<bar>of_int a\<bar> / (2 * 10 ^ 12 :: rat)"
    by (simp add: abs_mult [symmetric] field_simps)
  have "\<bar>of_int c - of_int a * rate\<bar> \<le> \<bar>of_int c - of_int a * of_int q / 10 ^ 12\<bar> +
      \<bar>of_int a * of_int q / 10 ^ 12 - of_int a * rate\<bar>" by linarith
  with 1 2 show ?thesis by linarith
qed

end
