(* ===== verification/Payouts.thy ===== *)
theory Payouts
  imports DecimalMoney Money
begin

text \<open>
  \<open>backend/src/services/payouts/payout-engine.ts\<close>: merchants are paid what they are owed in batches, on a
  calendar or from a threshold on, after review when the amount is large, with retries when the
  settlement rail fails. Amounts are quantized with \<open>services/money.ts\<close>. Times are milliseconds; the
  readings of the clock between two \<open>await\<close>s are equal. A batch is an object that every part of the
  engine changes in place: here it is found by its identifier in the list of batches. The call of
  the executor splits a settlement into two steps.
\<close>

subsection \<open>Configuration\<close>

definition DEFAULT_PAYOUT_APPROVAL_THRESHOLD :: rat where
  "DEFAULT_PAYOUT_APPROVAL_THRESHOLD = 10000"

definition DEFAULT_PAYOUT_MAX_ATTEMPTS :: rat where
  "DEFAULT_PAYOUT_MAX_ATTEMPTS = 5"

definition PAYOUT_RETRY_BASE_MS :: rat where
  "PAYOUT_RETRY_BASE_MS = 30000"

definition PAYOUT_RETRY_MAX_MS :: rat where
  "PAYOUT_RETRY_MAX_MS = 60 * 60 * 1000"

definition PAYOUT_RETRY_JITTER_RATIO :: rat where
  "PAYOUT_RETRY_JITTER_RATIO = 1 / 4"

definition SUPPORTED_PAYOUT_ASSETS :: "string list" where
  "SUPPORTED_PAYOUT_ASSETS = [''USDC'', ''USDT'', ''XLM'', ''EURC'']"

definition PAYOUT_ASSET_DECIMALS :: "(string, int) jsmap" where
  "PAYOUT_ASSET_DECIMALS = [(''USDC'', 6), (''USDT'', 6), (''XLM'', 7), (''EURC'', 6)]"

definition DEFAULT_PAYOUT_ASSET_DECIMALS :: int where
  "DEFAULT_PAYOUT_ASSET_DECIMALS = 6"

definition DEFAULT_PAYOUT_MAX_BATCH_AMOUNT :: rat where
  "DEFAULT_PAYOUT_MAX_BATCH_AMOUNT = 1000000"

definition APPROVER_ROLES :: "string list" where
  "APPROVER_ROLES = [''finance_approver'', ''admin'']"

definition MAX_ID_LENGTH :: nat where
  "MAX_ID_LENGTH = 128"

record PayoutApprover =
  pa_id :: string
  pa_role :: string

datatype PayoutScheduleType = PayDaily | PayWeekly | PayMonthly | PayThreshold

definition SCHEDULE_PERIOD_MS :: "PayoutScheduleType \<Rightarrow> int option" where
  "SCHEDULE_PERIOD_MS ty =
     (case ty of
        PayDaily \<Rightarrow> Some (24 * 60 * 60 * 1000)
      | PayWeekly \<Rightarrow> Some (7 * 24 * 60 * 60 * 1000)
      | PayMonthly \<Rightarrow> Some (30 * 24 * 60 * 60 * 1000)
      | PayThreshold \<Rightarrow> None)"

primrec schedule_type_text :: "PayoutScheduleType \<Rightarrow> string" where
  "schedule_type_text PayDaily = ''daily''"
| "schedule_type_text PayWeekly = ''weekly''"
| "schedule_type_text PayMonthly = ''monthly''"
| "schedule_type_text PayThreshold = ''threshold''"

record PayoutSchedule =
  psc_id :: string
  psc_merchantId :: string
  psc_scheduleType :: PayoutScheduleType
  psc_thresholdAmount :: "rat option"
  psc_preferredAsset :: string
  psc_autoApproveLimit :: rat

datatype PayoutStatus = PayoutPending | PayoutExecuting | PayoutCompleted | PayoutFailed

primrec payout_status_text :: "PayoutStatus \<Rightarrow> string" where
  "payout_status_text PayoutPending = ''pending''"
| "payout_status_text PayoutExecuting = ''executing''"
| "payout_status_text PayoutCompleted = ''completed''"
| "payout_status_text PayoutFailed = ''failed''"

record PayoutBatch =
  pb_id :: string
  pb_idempotencyKey :: string
  pb_merchantId :: string
  pb_scheduleId :: string
  pb_cycleKey :: string
  pb_status :: PayoutStatus
  pb_amount :: rat
  pb_asset :: string
  pb_transactionsCount :: nat
  pb_errorMessage :: "string option"
  pb_errorCode :: "string option"
  pb_rejectedBy :: "string option"
  pb_attempts :: int
  pb_maxAttempts :: int
  pb_requiresApproval :: bool
  pb_nextAttemptAt :: "int option"
  pb_settledAt :: "int option"
  pb_transactionHash :: "string option"
  pb_fundsReleased :: bool
  pb_createdAt :: int
  pb_updatedAt :: int

datatype payout_action =
  ActCreated | ActApproved | ActRejected | ActRetried | ActExecuting | ActSettled | ActFailed | ActReleased

record PayoutAuditEntry =
  pau_batchId :: string
  pau_action :: payout_action
  pau_actorId :: string
  pau_timestamp :: int
  pau_details :: "string option"

datatype PayoutEventType = EvCreated | EvPendingReview | EvExecuting | EvCompleted | EvFailed | EvDelayed

record PayoutEvent =
  pev_type :: PayoutEventType
  pev_batchId :: string
  pev_merchantId :: string
  pev_amount :: rat
  pev_asset :: string
  pev_attempt :: int
  pev_at :: int
  pev_detail :: "string option"

record PayoutExecutionRequest =
  per_batchId :: string
  per_idempotencyKey :: string
  per_merchantId :: string
  per_asset :: string
  per_amount :: rat
  per_attempt :: int

text \<open>The executor rejects with a message, or resolves; a missing hash is the empty one.\<close>

datatype PayoutExecutionResult = ExecRejected string | ExecResolved string "int option"

record PayoutEngineOptions =
  peo_approvalThreshold :: "rat option"
  peo_maxAttempts :: "rat option"
  peo_retryBaseMs :: "rat option"
  peo_retryMaxMs :: "rat option"
  peo_maxBatchAmount :: "rat option"
  peo_allowedAssets :: "string list option"

record payout_config =
  pc_approvalThreshold :: rat
  pc_maxAttempts :: int
  pc_maxBatchAmount :: rat
  pc_allowedAssets :: "string list"
  pc_retryBaseMs :: rat
  pc_retryMaxMs :: rat

text \<open>An error is its message. The threshold of the environment is \<open>None\<close> when it is not a number.\<close>

definition resolveApprovalThreshold :: "rat option \<Rightarrow> rat option \<Rightarrow> string + rat" where
  "resolveApprovalThreshold explicit from_env =
     (let threshold = (case explicit of
            Some x \<Rightarrow> x
          | None \<Rightarrow> (case from_env of
              Some e \<Rightarrow> if 0 < e then e else DEFAULT_PAYOUT_APPROVAL_THRESHOLD
            | None \<Rightarrow> DEFAULT_PAYOUT_APPROVAL_THRESHOLD))
      in if threshold \<le> 0 then Inl ''INVALID_PAYOUT_APPROVAL_THRESHOLD'' else Inr threshold)"

definition resolvePositiveLimit :: "rat option \<Rightarrow> rat \<Rightarrow> string \<Rightarrow> string + rat" where
  "resolvePositiveLimit value fallback code =
     (case value of None \<Rightarrow> Inr fallback | Some v \<Rightarrow> if v \<le> 0 then Inl code else Inr v)"

definition assetDecimals :: "string \<Rightarrow> int" where
  "assetDecimals asset =
     (case js_get PAYOUT_ASSET_DECIMALS asset of None \<Rightarrow> DEFAULT_PAYOUT_ASSET_DECIMALS | Some d \<Rightarrow> d)"

definition construct_engine :: "PayoutEngineOptions \<Rightarrow> rat option \<Rightarrow> string + payout_config" where
  "construct_engine options from_env =
     (case resolveApprovalThreshold (peo_approvalThreshold options) from_env of Inl e \<Rightarrow> Inl e | Inr threshold \<Rightarrow>
      case resolvePositiveLimit (peo_maxAttempts options) DEFAULT_PAYOUT_MAX_ATTEMPTS ''INVALID_PAYOUT_MAX_ATTEMPTS'' of
        Inl e \<Rightarrow> Inl e | Inr attempts \<Rightarrow>
      case resolvePositiveLimit (peo_maxBatchAmount options) DEFAULT_PAYOUT_MAX_BATCH_AMOUNT ''INVALID_PAYOUT_MAX_BATCH_AMOUNT'' of
        Inl e \<Rightarrow> Inl e | Inr batch \<Rightarrow>
      case resolvePositiveLimit (peo_retryBaseMs options) PAYOUT_RETRY_BASE_MS ''INVALID_PAYOUT_RETRY_BASE_MS'' of
        Inl e \<Rightarrow> Inl e | Inr base \<Rightarrow>
      case resolvePositiveLimit (peo_retryMaxMs options) PAYOUT_RETRY_MAX_MS ''INVALID_PAYOUT_RETRY_MAX_MS'' of
        Inl e \<Rightarrow> Inl e | Inr retry_max \<Rightarrow>
      let assets = (case peo_allowedAssets options of None \<Rightarrow> SUPPORTED_PAYOUT_ASSETS | Some xs \<Rightarrow> xs)
      in if assets = [] then Inl ''INVALID_PAYOUT_ALLOWED_ASSETS''
         else Inr \<lparr>pc_approvalThreshold = threshold, pc_maxAttempts = max 1 \<lfloor>attempts\<rfloor>, pc_maxBatchAmount = batch,
                pc_allowedAssets = assets, pc_retryBaseMs = base, pc_retryMaxMs = max base retry_max\<rparr>)"

subsection \<open>The engine\<close>

text \<open>
  The runtime: \<open>randomUUID\<close>, the text of a number and of a time; then, for a batch and an attempt, the
  answer of the executor, the clock at its end and the random number of the retry delay.
\<close>

record payout_env =
  pe_uuid :: "nat \<Rightarrow> string"
  pe_number :: "rat \<Rightarrow> string"
  pe_iso :: "int \<Rightarrow> string"
  pe_execute :: "PayoutExecutionRequest \<Rightarrow> PayoutExecutionResult"
  pe_end :: "string \<Rightarrow> int \<Rightarrow> int"
  pe_random :: "string \<Rightarrow> int \<Rightarrow> rat"

record payout_engine =
  po_config :: payout_config
  po_schedules :: "PayoutSchedule list"
  po_batches :: "PayoutBatch list"
  po_auditTrail :: "PayoutAuditEntry list"
  po_pendingAmounts :: "(string, rat) jsmap"
  po_lastMaterialisedAt :: "(string, int) jsmap"
  po_materialisedCycles :: "(string, string) jsmap"
  po_evaluationInFlight :: bool
  po_sequence :: nat
  po_events :: "PayoutEvent list"
  po_uuids :: nat

definition new_payout_engine :: "payout_config \<Rightarrow> payout_engine" where
  "new_payout_engine c =
     \<lparr>po_config = c, po_schedules = [], po_batches = [], po_auditTrail = [], po_pendingAmounts = [],
      po_lastMaterialisedAt = [], po_materialisedCycles = [], po_evaluationInFlight = False, po_sequence = 0,
      po_events = [], po_uuids = 0\<rparr>"

type_synonym 'a payout_op = "(payout_engine, string, 'a) op"

definition record_audit ::
  "string \<Rightarrow> payout_action \<Rightarrow> string \<Rightarrow> string option \<Rightarrow> int \<Rightarrow> payout_engine \<Rightarrow> payout_engine" where
  "record_audit batchId action actorId details now e =
     e\<lparr>po_auditTrail := po_auditTrail e @ [\<lparr>pau_batchId = batchId, pau_action = action, pau_actorId = actorId,
         pau_timestamp = now, pau_details = details\<rparr>]\<rparr>"

definition emit_payout ::
  "PayoutEventType \<Rightarrow> PayoutBatch \<Rightarrow> string option \<Rightarrow> int \<Rightarrow> payout_engine \<Rightarrow> payout_engine" where
  "emit_payout ty batch detail now e =
     e\<lparr>po_events := po_events e @ [\<lparr>pev_type = ty, pev_batchId = pb_id batch, pev_merchantId = pb_merchantId batch,
         pev_amount = pb_amount batch, pev_asset = pb_asset batch, pev_attempt = pb_attempts batch, pev_at = now,
         pev_detail = detail\<rparr>]\<rparr>"

definition find_batch :: "string \<Rightarrow> payout_engine \<Rightarrow> PayoutBatch option" where
  "find_batch batchId e = find (\<lambda>b. pb_id b = batchId) (po_batches e)"

text \<open>The object is changed in place.\<close>

definition write_batch :: "PayoutBatch \<Rightarrow> payout_engine \<Rightarrow> payout_engine" where
  "write_batch b e = e\<lparr>po_batches := update_first (\<lambda>c. pb_id c = pb_id b) (\<lambda>_. b) (po_batches e)\<rparr>"

fun ALLOWED_TRANSITIONS :: "PayoutStatus \<Rightarrow> PayoutStatus list" where
  "ALLOWED_TRANSITIONS PayoutPending = [PayoutExecuting, PayoutCompleted, PayoutFailed]"
| "ALLOWED_TRANSITIONS PayoutExecuting = [PayoutCompleted, PayoutFailed]"
| "ALLOWED_TRANSITIONS PayoutCompleted = []"
| "ALLOWED_TRANSITIONS PayoutFailed = [PayoutPending]"

definition payout_transition :: "PayoutStatus \<Rightarrow> int \<Rightarrow> PayoutBatch \<Rightarrow> string + PayoutBatch" where
  "payout_transition next now batch =
     (if next \<notin> set (ALLOWED_TRANSITIONS (pb_status batch))
      then Inl (''INVALID_PAYOUT_TRANSITION:'' @ payout_status_text (pb_status batch) @ ''->'' @ payout_status_text next)
      else Inr (batch\<lparr>pb_status := next, pb_updatedAt := now\<rparr>))"

definition assertApprover :: "PayoutApprover \<Rightarrow> string option" where
  "assertApprover approver =
     (if pa_id approver = [] \<or> pa_role approver \<notin> set APPROVER_ROLES then Some ''PAYOUT_APPROVER_FORBIDDEN'' else None)"

text \<open>The executor of an engine that is given none.\<close>

definition defaultExecutor :: "PayoutExecutionRequest \<Rightarrow> PayoutExecutionResult" where
  "defaultExecutor request = ExecResolved (''po_exec_'' @ per_idempotencyKey request) None"

text \<open>Clears the engine, for tests: nothing is said of a settlement that is under way across a reset.\<close>

definition reset_payouts :: "payout_engine \<Rightarrow> payout_engine" where
  "reset_payouts e =
     e\<lparr>po_schedules := [], po_batches := [], po_auditTrail := [], po_pendingAmounts := [],
       po_lastMaterialisedAt := [], po_materialisedCycles := [], po_sequence := 0\<rparr>"

subsection \<open>Balances and schedules\<close>

definition setPendingAmount :: "string \<Rightarrow> rat \<Rightarrow> unit payout_op" where
  "setPendingAmount merchantId amount e =
     (if amount < 0 then (Inl ''INVALID_PENDING_PAYOUT_AMOUNT'', e)
      else (Inr (), e\<lparr>po_pendingAmounts := js_set merchantId amount (po_pendingAmounts e)\<rparr>))"

definition getPendingAmount :: "string \<Rightarrow> payout_engine \<Rightarrow> rat" where
  "getPendingAmount merchantId e = (case js_get (po_pendingAmounts e) merchantId of None \<Rightarrow> 0 | Some a \<Rightarrow> a)"

definition assertValidSchedule :: "PayoutSchedule \<Rightarrow> payout_engine \<Rightarrow> string option" where
  "assertValidSchedule schedule e =
     (if psc_id schedule = [] \<or> MAX_ID_LENGTH < length (psc_id schedule) then Some ''INVALID_PAYOUT_SCHEDULE_ID''
      else if psc_merchantId schedule = [] \<or> MAX_ID_LENGTH < length (psc_merchantId schedule)
        then Some ''INVALID_PAYOUT_MERCHANT_ID''
      else if psc_preferredAsset schedule \<notin> set (pc_allowedAssets (po_config e)) then Some ''UNSUPPORTED_PAYOUT_ASSET''
      else if psc_autoApproveLimit schedule < 0 then Some ''INVALID_PAYOUT_AUTO_APPROVE_LIMIT''
      else if psc_scheduleType schedule = PayThreshold \<and>
          (case psc_thresholdAmount schedule of None \<Rightarrow> True | Some t \<Rightarrow> t \<le> 0)
        then Some ''INVALID_PAYOUT_THRESHOLD_AMOUNT''
      else None)"

definition configureSchedule :: "PayoutSchedule \<Rightarrow> unit payout_op" where
  "configureSchedule schedule e =
     (case assertValidSchedule schedule e of
        Some err \<Rightarrow> (Inl err, e)
      | None \<Rightarrow> (Inr (), e\<lparr>po_schedules :=
          filter (\<lambda>s. psc_merchantId s \<noteq> psc_merchantId schedule) (po_schedules e) @ [schedule]\<rparr>))"

definition removeSchedule :: "string \<Rightarrow> payout_engine \<Rightarrow> bool \<times> payout_engine" where
  "removeSchedule merchantId e =
     (case find (\<lambda>s. psc_merchantId s = merchantId) (po_schedules e) of
        None \<Rightarrow> (False, e)
      | Some removed \<Rightarrow>
          (True, e\<lparr>po_schedules := filter (\<lambda>s. psc_merchantId s \<noteq> merchantId) (po_schedules e),
             po_lastMaterialisedAt := js_del (psc_id removed) (po_lastMaterialisedAt e)\<rparr>))"

definition isTriggerMet :: "PayoutSchedule \<Rightarrow> rat \<Rightarrow> bool" where
  "isTriggerMet schedule pending =
     (if pending \<le> 0 then False
      else if psc_scheduleType schedule = PayThreshold
        then (case psc_thresholdAmount schedule of None \<Rightarrow> False | Some t \<Rightarrow> t \<le> pending)
      else 0 < pending)"

definition isCalendarSchedule :: "PayoutSchedule \<Rightarrow> bool" where
  "isCalendarSchedule schedule \<longleftrightarrow> SCHEDULE_PERIOD_MS (psc_scheduleType schedule) \<noteq> None"

definition isScheduleDue :: "PayoutSchedule \<Rightarrow> int \<Rightarrow> payout_engine \<Rightarrow> bool" where
  "isScheduleDue schedule now e =
     (case SCHEDULE_PERIOD_MS (psc_scheduleType schedule) of
        None \<Rightarrow> True
      | Some period \<Rightarrow>
          (case js_get (po_lastMaterialisedAt e) (psc_id schedule) of
             None \<Rightarrow> True
           | Some lastRun \<Rightarrow> period \<le> now - lastRun))"

definition cycleKeyFor :: "PayoutSchedule \<Rightarrow> int \<Rightarrow> payout_engine \<Rightarrow> string \<times> payout_engine" where
  "cycleKeyFor schedule now e =
     (let base = psc_id schedule @ '':'' @ psc_merchantId schedule @ '':'' @ schedule_type_text (psc_scheduleType schedule)
      in case SCHEDULE_PERIOD_MS (psc_scheduleType schedule) of
        None \<Rightarrow> let e = e\<lparr>po_sequence := po_sequence e + 1\<rparr> in (base @ '':seq-'' @ nat_text (po_sequence e), e)
      | Some period \<Rightarrow> (base @ '':'' @ int_text (now div period), e))"

subsection \<open>Batches\<close>

definition needs_approval :: "PayoutSchedule \<Rightarrow> rat \<Rightarrow> payout_engine \<Rightarrow> bool" where
  "needs_approval schedule amount e \<longleftrightarrow>
     psc_autoApproveLimit schedule < amount \<or> pc_approvalThreshold (po_config e) \<le> amount"

text \<open>\<open>quantizeNumber(amount, decimals)\<close>: its error message, or a number.\<close>

definition quantized :: "payout_env \<Rightarrow> rat \<Rightarrow> string \<Rightarrow> string + rat" where
  "quantized env amount asset =
     (case quantizeNumber (pe_number env amount) (assetDecimals asset) of
        Inl _ \<Rightarrow> Inl (''INVALID_AMOUNT: '' @ pe_number env amount @ '' is not a valid decimal amount'')
      | Inr None \<Rightarrow> Inl ''NaN''
      | Inr (Some a) \<Rightarrow> Inr a)"

definition new_batch :: "payout_env \<Rightarrow> PayoutSchedule \<Rightarrow> rat \<Rightarrow> bool \<Rightarrow> string \<Rightarrow> int \<Rightarrow> payout_engine \<Rightarrow> PayoutBatch" where
  "new_batch env schedule amount requiresApproval cycleKey now e =
     \<lparr>pb_id = ''po_'' @ pe_uuid env (po_uuids e), pb_idempotencyKey = ''po_'' @ pe_uuid env (po_uuids e + 1),
      pb_merchantId = psc_merchantId schedule, pb_scheduleId = psc_id schedule, pb_cycleKey = cycleKey,
      pb_status = PayoutPending, pb_amount = amount, pb_asset = psc_preferredAsset schedule,
      pb_transactionsCount = 1, pb_errorMessage = None, pb_errorCode = None, pb_rejectedBy = None,
      pb_attempts = 0, pb_maxAttempts = pc_maxAttempts (po_config e), pb_requiresApproval = requiresApproval,
      pb_nextAttemptAt = None, pb_settledAt = None, pb_transactionHash = None, pb_fundsReleased = False,
      pb_createdAt = now, pb_updatedAt = now\<rparr>"

definition createBatch ::
  "payout_env \<Rightarrow> PayoutSchedule \<Rightarrow> rat \<Rightarrow> string \<Rightarrow> int \<Rightarrow> (PayoutBatch \<times> bool) payout_op" where
  "createBatch env schedule amount cycleKey now e =
     (if pc_maxBatchAmount (po_config e) < amount then (Inl ''PAYOUT_AMOUNT_EXCEEDED'', e)
      else
        (case quantized env amount (psc_preferredAsset schedule) of
           Inl err \<Rightarrow> (Inl err, e\<lparr>po_uuids := po_uuids e + 2\<rparr>)
         | Inr a \<Rightarrow>
             let requiresApproval = needs_approval schedule amount e;
                 batch = new_batch env schedule a requiresApproval cycleKey now e;
                 e = e\<lparr>po_pendingAmounts := js_set (psc_merchantId schedule) 0 (po_pendingAmounts e),
                       po_batches := po_batches e @ [batch], po_uuids := po_uuids e + 2\<rparr>;
                 e = (if requiresApproval then e
                      else emit_payout EvCreated batch (Some ''Auto-approved'') now
                             (record_audit (pb_id batch) ActCreated ''system'' (Some ''Auto-approved'') now e))
             in (Inr (batch, requiresApproval), e)))"

subsection \<open>Settlement\<close>

definition execution_request :: "PayoutBatch \<Rightarrow> PayoutExecutionRequest" where
  "execution_request b =
     \<lparr>per_batchId = pb_id b, per_idempotencyKey = pb_idempotencyKey b, per_merchantId = pb_merchantId b,
      per_asset = pb_asset b, per_amount = pb_amount b, per_attempt = pb_attempts b\<rparr>"

text \<open>Up to the call of the executor, which is made when a request is returned.\<close>

definition settle_start :: "string \<Rightarrow> string \<Rightarrow> int \<Rightarrow> PayoutExecutionRequest option payout_op" where
  "settle_start batchId actorId now e =
     (case find_batch batchId e of
        None \<Rightarrow> (Inr None, e)
      | Some b \<Rightarrow>
          if pb_status b \<noteq> PayoutPending then (Inr None, e)
          else
            let b = b\<lparr>pb_attempts := pb_attempts b + 1\<rparr>
            in case payout_transition PayoutExecuting now b of
              Inl err \<Rightarrow> (Inl err, write_batch b e)
            | Inr b \<Rightarrow>
                (Inr (Some (execution_request b)),
                 emit_payout EvExecuting b None now
                   (record_audit batchId ActExecuting actorId
                     (Some (''Attempt '' @ int_text (pb_attempts b) @ '' of '' @ int_text (pb_maxAttempts b))) now
                     (write_batch b e))))"

definition backoffMs :: "payout_config \<Rightarrow> int \<Rightarrow> rat \<Rightarrow> int" where
  "backoffMs c attempts random =
     (let uncapped = pc_retryBaseMs c * 2 ^ nat (max 0 (attempts - 1));
          capped = min uncapped (pc_retryMaxMs c);
          jitter = capped * PAYOUT_RETRY_JITTER_RATIO;
          offset = (random * 2 - 1) * jitter
      in max 1 (js_round (capped + offset)))"

text \<open>What the answer of the executor makes of the batch, or the message of an error.\<close>

definition executed :: "PayoutExecutionResult \<Rightarrow> int \<Rightarrow> PayoutBatch \<Rightarrow> string + PayoutBatch" where
  "executed result now b =
     (case result of
        ExecRejected message \<Rightarrow> Inl message
      | ExecResolved hash settled \<Rightarrow>
          if hash = [] then Inl ''EMPTY_PAYOUT_TRANSACTION_HASH''
          else
            (case payout_transition PayoutCompleted now b of
               Inl err \<Rightarrow> Inl err
             | Inr b \<Rightarrow> Inr (b\<lparr>pb_transactionHash := Some hash,
                 pb_settledAt := Some (case settled of None \<Rightarrow> now | Some t \<Rightarrow> t), pb_nextAttemptAt := None\<rparr>)))"

definition execution_failed ::
  "payout_env \<Rightarrow> PayoutBatch \<Rightarrow> string \<Rightarrow> string \<Rightarrow> int \<Rightarrow> rat \<Rightarrow> unit payout_op" where
  "execution_failed env b actorId detail now random e =
     (case payout_transition PayoutFailed now b of
        Inl err \<Rightarrow> (Inl err, e)
      | Inr b \<Rightarrow>
          let b = b\<lparr>pb_errorMessage := Some detail, pb_errorCode := Some ''PAYOUT_EXECUTION_FAILED''\<rparr>
          in if pb_maxAttempts b \<le> pb_attempts b
             then
               let b = b\<lparr>pb_errorCode := Some ''PAYOUT_ATTEMPTS_EXHAUSTED''\<rparr>
               in (Inr (), emit_payout EvFailed b (Some detail) now
                     (record_audit (pb_id b) ActFailed actorId (Some detail) now (write_batch b e)))
             else
               let retry_at = now + backoffMs (po_config e) (pb_attempts b) random;
                   b = b\<lparr>pb_nextAttemptAt := Some retry_at\<rparr>
               in (Inr (), emit_payout EvDelayed b
                     (Some (''Retry '' @ int_text (pb_attempts b + 1) @ '' at '' @ pe_iso env retry_at)) now
                     (record_audit (pb_id b) ActFailed actorId (Some detail) now (write_batch b e))))"

definition settle_finish ::
  "payout_env \<Rightarrow> string \<Rightarrow> string \<Rightarrow> PayoutExecutionResult \<Rightarrow> int \<Rightarrow> rat \<Rightarrow> unit payout_op" where
  "settle_finish env batchId actorId result now random e =
     (case find_batch batchId e of
        None \<Rightarrow> (Inr (), e)
      | Some b \<Rightarrow>
          (case executed result now b of
             Inr b \<Rightarrow>
               (Inr (), emit_payout EvCompleted b (pb_transactionHash b) now
                  (record_audit batchId ActSettled actorId (pb_transactionHash b) now (write_batch b e)))
           | Inl detail \<Rightarrow> execution_failed env b actorId detail now random e))"

definition settle :: "payout_env \<Rightarrow> string \<Rightarrow> string \<Rightarrow> int \<Rightarrow> unit payout_op" where
  "settle env batchId actorId now e =
     (case settle_start batchId actorId now e of
        (Inl err, e) \<Rightarrow> (Inl err, e)
      | (Inr None, e) \<Rightarrow> (Inr (), e)
      | (Inr (Some request), e) \<Rightarrow>
          settle_finish env batchId actorId (pe_execute env request) (pe_end env batchId (per_attempt request))
            (pe_random env batchId (per_attempt request)) e)"

subsection \<open>The payout pass\<close>

text \<open>
  A schedule that is due makes a batch: the batch and whether it is to be settled at once, up to the
  settlement, and then with it.
\<close>

definition materialise_start ::
  "payout_env \<Rightarrow> PayoutSchedule \<Rightarrow> int \<Rightarrow> (PayoutBatch \<times> bool) option payout_op" where
  "materialise_start env schedule now e =
     (if \<not> isScheduleDue schedule now e then (Inr None, e)
      else
        let pending = getPendingAmount (psc_merchantId schedule) e
        in if \<not> isTriggerMet schedule pending then (Inr None, e)
           else
             let (cycleKey, e) = cycleKeyFor schedule now e
             in if isCalendarSchedule schedule \<and> js_get (po_materialisedCycles e) cycleKey \<noteq> None then (Inr None, e)
                else
                  (case createBatch env schedule pending cycleKey now e of
                     (Inl err, e) \<Rightarrow> (Inl err, e)
                   | (Inr (batch, requiresApproval), e) \<Rightarrow>
                       let e = e\<lparr>po_materialisedCycles := js_set cycleKey (pb_id batch) (po_materialisedCycles e),
                             po_lastMaterialisedAt := js_set (psc_id schedule) now (po_lastMaterialisedAt e)\<rparr>;
                           e = (if requiresApproval
                             then emit_payout EvPendingReview batch (Some ''Awaiting approval'') now
                                    (record_audit (pb_id batch) ActCreated ''system'' (Some ''Awaiting approval'') now e)
                             else e)
                       in (Inr (Some (batch, \<not> requiresApproval)), e)))"

definition materialiseBatch ::
  "payout_env \<Rightarrow> PayoutSchedule \<Rightarrow> int \<Rightarrow> PayoutBatch option payout_op" where
  "materialiseBatch env schedule now e =
     (case materialise_start env schedule now e of
        (Inl err, e) \<Rightarrow> (Inl err, e)
      | (Inr None, e) \<Rightarrow> (Inr None, e)
      | (Inr (Some (batch, at_once)), e) \<Rightarrow>
          if at_once
          then (case settle env (pb_id batch) ''system'' now e of
                  (Inl err, e) \<Rightarrow> (Inl err, e)
                | (Inr _, e) \<Rightarrow> (Inr (find_batch (pb_id batch) e), e))
          else (Inr (find_batch (pb_id batch) e), e))"

text \<open>Over the schedules as they were at the start of the pass: a failing one is recorded and skipped.\<close>

fun evaluate_loop ::
  "payout_env \<Rightarrow> int \<Rightarrow> PayoutSchedule list \<Rightarrow> PayoutBatch list \<Rightarrow> payout_engine \<Rightarrow> PayoutBatch list \<times> payout_engine" where
  "evaluate_loop env now [] done_batches e = (done_batches, e)"
| "evaluate_loop env now (schedule # ss) done_batches e =
     (case materialiseBatch env schedule now e of
        (Inl detail, e) \<Rightarrow> evaluate_loop env now ss done_batches
          (record_audit (psc_id schedule) ActFailed ''system'' (Some detail) now e)
      | (Inr None, e) \<Rightarrow> evaluate_loop env now ss done_batches e
      | (Inr (Some created), e) \<Rightarrow> evaluate_loop env now ss (done_batches @ [created]) e)"

definition evaluatePayouts :: "payout_env \<Rightarrow> int \<Rightarrow> payout_engine \<Rightarrow> PayoutBatch list \<times> payout_engine" where
  "evaluatePayouts env now e =
     (if po_evaluationInFlight e then ([], e)
      else
        let (done_batches, e) = evaluate_loop env now (po_schedules e) [] (e\<lparr>po_evaluationInFlight := True\<rparr>)
        in (done_batches, e\<lparr>po_evaluationInFlight := False\<rparr>))"

subsection \<open>Retries\<close>

definition retry_due :: "int \<Rightarrow> PayoutBatch \<Rightarrow> bool" where
  "retry_due now batch \<longleftrightarrow>
     pb_status batch = PayoutFailed \<and> \<not> truthy (pb_rejectedBy batch) \<and> pb_attempts batch < pb_maxAttempts batch \<and>
     (case pb_nextAttemptAt batch of None \<Rightarrow> False | Some t \<Rightarrow> t \<le> now)"

text \<open>A batch of the list of due ones, up to its settlement: whether it is to be settled.\<close>

definition retry_start :: "string \<Rightarrow> int \<Rightarrow> bool payout_op" where
  "retry_start batchId now e =
     (case find_batch batchId e of
        None \<Rightarrow> (Inr False, e)
      | Some b \<Rightarrow>
          let b = b\<lparr>pb_nextAttemptAt := None, pb_errorCode := None, pb_errorMessage := None\<rparr>
          in case payout_transition PayoutPending now b of
            Inl err \<Rightarrow> (Inl err, write_batch b e)
          | Inr b \<Rightarrow>
              let e = record_audit batchId ActRetried ''system'' (Some ''Retry after backoff elapsed'') now (write_batch b e)
              in if pb_requiresApproval b
                 then (Inr False, emit_payout EvPendingReview b (Some ''Awaiting re-approval after failure'') now e)
                 else (Inr True, e))"

fun retry_loop ::
  "payout_env \<Rightarrow> int \<Rightarrow> string list \<Rightarrow> PayoutBatch list \<Rightarrow> (payout_engine, string, PayoutBatch list) op" where
  "retry_loop env now [] retried e = (Inr retried, e)"
| "retry_loop env now (i # is) retried e =
     (case retry_start i now e of
        (Inl err, e) \<Rightarrow> (Inl err, e)
      | (Inr again, e) \<Rightarrow>
          (case (if again then settle env i ''system'' now e else (Inr (), e)) of
             (Inl err, e) \<Rightarrow> (Inl err, e)
           | (Inr _, e) \<Rightarrow> retry_loop env now is (retried @ (case find_batch i e of None \<Rightarrow> [] | Some b \<Rightarrow> [b])) e))"

definition retryDueBatches :: "payout_env \<Rightarrow> int \<Rightarrow> PayoutBatch list payout_op" where
  "retryDueBatches env now e = retry_loop env now (map pb_id (filter (retry_due now) (po_batches e))) [] e"

subsection \<open>Decisions of an approver\<close>

definition approve_start :: "string \<Rightarrow> PayoutApprover \<Rightarrow> int \<Rightarrow> bool payout_op" where
  "approve_start batchId approver now e =
     (case assertApprover approver of
        Some err \<Rightarrow> (Inl err, e)
      | None \<Rightarrow>
          (case find_batch batchId e of
             None \<Rightarrow> (Inr False, e)
           | Some b \<Rightarrow>
               if pb_status b \<noteq> PayoutPending then (Inr False, e)
               else (Inr True, record_audit batchId ActApproved (pa_id approver) None now e)))"

definition approveManualPayout :: "payout_env \<Rightarrow> string \<Rightarrow> PayoutApprover \<Rightarrow> int \<Rightarrow> bool payout_op" where
  "approveManualPayout env batchId approver now e =
     (case approve_start batchId approver now e of
        (Inl err, e) \<Rightarrow> (Inl err, e)
      | (Inr False, e) \<Rightarrow> (Inr False, e)
      | (Inr True, e) \<Rightarrow>
          (case settle env batchId (pa_id approver) now e of
             (Inl err, e) \<Rightarrow> (Inl err, e)
           | (Inr _, e) \<Rightarrow> (Inr True, e)))"

text \<open>The sum is quantized, which may throw after the batch was marked.\<close>

definition releaseFunds :: "payout_env \<Rightarrow> string \<Rightarrow> int \<Rightarrow> unit payout_op" where
  "releaseFunds env batchId now e =
     (case find_batch batchId e of
        None \<Rightarrow> (Inr (), e)
      | Some b \<Rightarrow>
          if pb_fundsReleased b then (Inr (), e)
          else
            let e = write_batch (b\<lparr>pb_fundsReleased := True\<rparr>) e
            in case quantized env (getPendingAmount (pb_merchantId b) e + pb_amount b) (pb_asset b) of
              Inl err \<Rightarrow> (Inl err, e)
            | Inr amount \<Rightarrow>
                (Inr (), record_audit batchId ActReleased ''system''
                   (Some (''Returned '' @ pe_number env (pb_amount b) @ '' '' @ pb_asset b @ '' to pending balance'')) now
                   (e\<lparr>po_pendingAmounts := js_set (pb_merchantId b) amount (po_pendingAmounts e)\<rparr>)))"

definition rejectManualPayout :: "payout_env \<Rightarrow> string \<Rightarrow> PayoutApprover \<Rightarrow> int \<Rightarrow> bool payout_op" where
  "rejectManualPayout env batchId approver now e =
     (case assertApprover approver of
        Some err \<Rightarrow> (Inl err, e)
      | None \<Rightarrow>
          (case find_batch batchId e of
             None \<Rightarrow> (Inr False, e)
           | Some b \<Rightarrow>
               if pb_status b \<noteq> PayoutPending then (Inr False, e)
               else
                 (case payout_transition PayoutFailed now b of
                    Inl err \<Rightarrow> (Inl err, e)
                  | Inr b \<Rightarrow>
                      let b = b\<lparr>pb_errorMessage := Some ''Rejected by manual review'', pb_rejectedBy := Some (pa_id approver)\<rparr>
                      in case releaseFunds env batchId now (write_batch b e) of
                        (Inl err, e) \<Rightarrow> (Inl err, e)
                      | (Inr _, e) \<Rightarrow>
                          (Inr True, emit_payout EvFailed b (pb_errorMessage b) now
                             (record_audit batchId ActRejected (pa_id approver) (pb_errorMessage b) now e)))))"

definition retryFailedBatch :: "string \<Rightarrow> PayoutApprover \<Rightarrow> int \<Rightarrow> bool payout_op" where
  "retryFailedBatch batchId approver now e =
     (case assertApprover approver of
        Some err \<Rightarrow> (Inl err, e)
      | None \<Rightarrow>
          (case find_batch batchId e of
             None \<Rightarrow> (Inr False, e)
           | Some b \<Rightarrow>
               if pb_status b \<noteq> PayoutFailed \<or> truthy (pb_rejectedBy b) then (Inr False, e)
               else if pb_maxAttempts b \<le> pb_attempts b then (Inr False, e)
               else
                 (case payout_transition PayoutPending now b of
                    Inl err \<Rightarrow> (Inl err, e)
                  | Inr b \<Rightarrow>
                      let b = b\<lparr>pb_errorMessage := None, pb_errorCode := None, pb_nextAttemptAt := None\<rparr>
                      in (Inr True, record_audit batchId ActRetried (pa_id approver) (Some ''Returned to approval queue'') now
                            (write_batch b e)))))"

definition releaseReservedFunds :: "payout_env \<Rightarrow> string \<Rightarrow> PayoutApprover \<Rightarrow> int \<Rightarrow> bool payout_op" where
  "releaseReservedFunds env batchId approver now e =
     (case assertApprover approver of
        Some err \<Rightarrow> (Inl err, e)
      | None \<Rightarrow>
          (case find_batch batchId e of
             None \<Rightarrow> (Inr False, e)
           | Some b \<Rightarrow>
               if pb_status b \<noteq> PayoutFailed \<or> pb_fundsReleased b then (Inr False, e)
               else
                 (case releaseFunds env batchId now e of
                    (Inl err, e) \<Rightarrow> (Inl err, e)
                  | (Inr _, e) \<Rightarrow>
                      (Inr True, record_audit batchId ActReleased (pa_id approver)
                         (Some (''Released '' @ pe_number env (pb_amount b) @ '' '' @ pb_asset b @ '' reservation'')) now e))))"

subsection \<open>Reading\<close>

definition getPayoutHistory :: "string option \<Rightarrow> payout_engine \<Rightarrow> PayoutBatch list" where
  "getPayoutHistory merchantId e =
     (if truthy merchantId then filter (\<lambda>b. Some (pb_merchantId b) = merchantId) (po_batches e) else po_batches e)"

definition getBatch :: "string \<Rightarrow> payout_engine \<Rightarrow> PayoutBatch option" where
  "getBatch batchId e = find_batch batchId e"

definition getAuditTrail :: "string option \<Rightarrow> payout_engine \<Rightarrow> PayoutAuditEntry list" where
  "getAuditTrail batchId e =
     (if truthy batchId then filter (\<lambda>a. Some (pau_batchId a) = batchId) (po_auditTrail e) else po_auditTrail e)"

record payout_stats =
  pst_pending :: nat
  pst_executing :: nat
  pst_completed :: nat
  pst_failed :: nat
  pst_total :: nat
  pst_awaitingSettlement :: rat
  pst_reservedAmount :: rat

definition holds_reserve :: "PayoutBatch \<Rightarrow> bool" where
  "holds_reserve b \<longleftrightarrow> pb_status b \<noteq> PayoutCompleted \<and> \<not> pb_fundsReleased b"

definition getStats :: "payout_engine \<Rightarrow> payout_stats" where
  "getStats e =
     (let counted = (\<lambda>st. length (filter (\<lambda>b. pb_status b = st) (po_batches e)))
      in \<lparr>pst_pending = counted PayoutPending, pst_executing = counted PayoutExecuting,
          pst_completed = counted PayoutCompleted, pst_failed = counted PayoutFailed,
          pst_total = length (po_batches e), pst_awaitingSettlement = sum_list (js_values (po_pendingAmounts e)),
          pst_reservedAmount = sum_list (map pb_amount (filter holds_reserve (po_batches e)))\<rparr>)"

end
