(* ===== verification/PayoutProps.thy ===== *)
theory PayoutProps
  imports Payouts DecimalProps "HOL-Library.Code_Target_Nat"
begin

text \<open>
  Properties of payouts, for every interleaving of the passes, the settlements and the decisions: no
  money is lost or made, a batch that needs approval is never executed without one, an attempt is
  recorded and counted, a payout cycle makes one batch, and the delays of retries are bounded.
\<close>

subsection \<open>Amounts\<close>

text \<open>Amounts have six decimal places at most, which every supported asset has.\<close>

definition micro :: "rat \<Rightarrow> bool" where
  "micro x \<longleftrightarrow> (\<exists>m. x = of_int m / 10 ^ 6)"

lemma micro_0 [simp]: "micro 0"
  unfolding micro_def by (intro exI [of _ 0]) simp

lemma micro_add: "micro x \<Longrightarrow> micro y \<Longrightarrow> micro (x + y)"
  unfolding micro_def by (metis add_divide_distrib of_int_add)

text \<open>
  Of the runtime: identifiers are fresh, and \<open>String(x)\<close> is a text that denotes the number, with no more
  than a hundred decimal places.
\<close>

definition runtime_ok :: "payout_env \<Rightarrow> bool" where
  "runtime_ok env \<longleftrightarrow> inj (pe_uuid env) \<and>
     (\<forall>x. micro x \<longrightarrow> text_value (pe_number env x) = Some x \<and>
        (case DECIMAL_PATTERN (js_trim (pe_number env x)) of None \<Rightarrow> True | Some mt \<Rightarrow> \<bar>match_shift mt\<bar> \<le> 100))"

lemma assetDecimals_range: "assetDecimals asset = 6 \<or> assetDecimals asset = 7"
  by (simp add: assetDecimals_def PAYOUT_ASSET_DECIMALS_def DEFAULT_PAYOUT_ASSET_DECIMALS_def)

lemma micro_scaled:
  assumes "micro x" "d = 6 \<or> d = 7"
  obtains k where "x * 10 powi d = of_int k" "x = of_int k / 10 ^ nat d"
proof -
  obtain m where m: "x = of_int m / 10 ^ 6" using assms(1) by (auto simp: micro_def)
  show ?thesis
    using assms(2)
  proof
    assume "d = 6"
    with m that [of m] show ?thesis by (simp add: power_int_def)
  next
    assume "d = 7"
    with m that [of "m * 10"] show ?thesis by (simp add: power_int_def)
  qed
qed

lemma quantized_exact:
  assumes "runtime_ok env" "micro x"
  shows "quantized env x asset = Inr x"
proof -
  define d where "d = assetDecimals asset"
  have d: "d = 6 \<or> d = 7" unfolding d_def by (rule assetDecimals_range)
  obtain k where k: "x * 10 powi d = of_int k" "x = of_int k / 10 ^ nat d" using micro_scaled [OF assms(2) d] .
  have t: "text_value (pe_number env x) = Some x" using assms by (simp add: runtime_ok_def)
  then obtain mt where mt: "DECIMAL_PATTERN (js_trim (pe_number env x)) = Some mt"
    by (auto simp: text_value_def split: option.splits)
  with t have x: "\<not> (dm_integerPart mt = [] \<and> dm_fractionPart mt = [])" "match_value mt = x"
    by (auto simp: text_value_def split: if_splits)
  have "\<bar>match_shift mt\<bar> \<le> 100" using assms mt by (auto simp: runtime_ok_def)
  then have "\<not> 120 < \<bar>d + match_shift mt\<bar>" using d by auto
  with x k(1) have "minor_units mt d = Inr k" unfolding minor_units_value by auto
  with mt d have parsed: "parseDecimalToMinor (pe_number env x) d = Inr k"
    by (auto simp: parseDecimalToMinor_def assertDecimals_def)
  obtain s where s: "formatMinor k d = Inr s" using format_shape [of d k] d by fastforce
  have "text_value s = Some x" using parse_format(2) [OF _ _ s] d k(2) by auto
  with parsed s show ?thesis unfolding quantized_def d_def [symmetric] by (simp add: quantizeNumber_def fromMinorToNumber_def)
qed

subsection \<open>Batches in their list\<close>

lemma sum_update_first:
  "find P xs = Some x \<Longrightarrow> sum_list (map f (update_first P (\<lambda>_. y) xs)) = sum_list (map f xs) - f x + f y"
  for f :: "'a \<Rightarrow> rat"
  by (induction xs) (auto split: if_splits)

lemma map_update_first:
  "find P xs = Some x \<Longrightarrow> g y = g x \<Longrightarrow> map g (update_first P (\<lambda>_. y) xs) = map g xs"
  by (induction xs) (auto split: if_splits)

lemma in_update_first:
  "distinct (map g xs) \<Longrightarrow> find (\<lambda>c. g c = i) xs = Some x \<Longrightarrow> z \<in> set (update_first (\<lambda>c. g c = i) (\<lambda>_. y) xs) \<Longrightarrow>
   z = y \<or> z \<in> set xs \<and> g z \<noteq> i"
proof (induction xs)
  case (Cons a xs)
  then show ?case by (cases "g a = i") (auto simp: image_iff)
qed simp

lemma find_distinct: "distinct (map g xs) \<Longrightarrow> x \<in> set xs \<Longrightarrow> find (\<lambda>c. g c = g x) xs = Some x"
  by (induction xs) (auto simp: image_iff)

lemma sum_js_set:
  "js_wf m \<Longrightarrow> sum_list (js_values (js_set k v m)) =
     sum_list (js_values m) - (case js_get m k of None \<Rightarrow> 0 | Some a \<Rightarrow> a) + v" for v :: rat
proof (induction m)
  case (Cons p m)
  then show ?case by (cases p) (auto simp: js_wf_def js_keys_def js_values_def)
qed (simp add: js_values_def)

lemma find_batch_SomeD: "find_batch i e = Some b \<Longrightarrow> b \<in> set (po_batches e) \<and> pb_id b = i"
  unfolding find_batch_def by (drule find_SomeD) simp

definition awaiting :: "payout_engine \<Rightarrow> rat" where
  "awaiting e = sum_list (js_values (po_pendingAmounts e))"

text \<open>What a batch still holds or has paid out.\<close>

definition batch_worth :: "PayoutBatch \<Rightarrow> rat" where
  "batch_worth b = (if pb_fundsReleased b then 0 else pb_amount b)"

definition money :: "payout_engine \<Rightarrow> rat" where
  "money e = awaiting e + sum_list (map batch_worth (po_batches e))"

definition paid_out :: "payout_engine \<Rightarrow> rat" where
  "paid_out e = sum_list (map pb_amount (filter (\<lambda>b. pb_status b = PayoutCompleted) (po_batches e)))"

definition entries :: "payout_action \<Rightarrow> string \<Rightarrow> payout_engine \<Rightarrow> nat" where
  "entries a i e = length (filter (\<lambda>x. pau_action x = a \<and> pau_batchId x = i) (po_auditTrail e))"

lemma no_entries:
  "j \<notin> I \<Longrightarrow> \<forall>x\<in>set (po_auditTrail e). pau_action x = a \<longrightarrow> pau_batchId x \<in> I \<Longrightarrow> entries a j e = 0"
  by (auto simp: entries_def filter_empty_conv)

lemma entries_simps [simp]:
  "entries a j (record_audit i act actor details now e) = entries a j e + (if a = act \<and> j = i then 1 else 0)"
  "entries a j (emit_payout ty b detail now e) = entries a j e"
  "entries a j (write_batch b e) = entries a j e"
  "entries a j (e\<lparr>po_pendingAmounts := pa\<rparr>) = entries a j e"
  by (simp_all add: entries_def record_audit_def emit_payout_def write_batch_def)

lemmas engine_defs = record_audit_def emit_payout_def write_batch_def

subsection \<open>The invariant\<close>

definition batch_ok :: "payout_engine \<Rightarrow> PayoutBatch \<Rightarrow> bool" where
  "batch_ok e b \<longleftrightarrow>
     micro (pb_amount b) \<and>
     pb_attempts b = int (entries ActExecuting (pb_id b) e) \<and> pb_attempts b \<le> pb_maxAttempts b \<and>
     (pb_requiresApproval b \<longrightarrow> entries ActApproved (pb_id b) e = entries ActExecuting (pb_id b) e) \<and>
     entries ActSettled (pb_id b) e = (if pb_status b = PayoutCompleted then 1 else 0) \<and>
     (pb_status b = PayoutPending \<longrightarrow> pb_attempts b < pb_maxAttempts b) \<and>
     (pb_status b = PayoutCompleted \<longrightarrow> truthy (pb_transactionHash b)) \<and>
     (truthy (pb_rejectedBy b) \<longrightarrow> pb_status b = PayoutFailed) \<and>
     (pb_fundsReleased b \<longrightarrow>
        pb_status b = PayoutFailed \<and> (truthy (pb_rejectedBy b) \<or> pb_maxAttempts b \<le> pb_attempts b))"

definition issued :: "payout_env \<Rightarrow> nat \<Rightarrow> string \<Rightarrow> bool" where
  "issued env n k \<longleftrightarrow> (\<exists>j<n. k = ''po_'' @ pe_uuid env j)"

lemma issued_mono: "issued env n k \<Longrightarrow> n \<le> m \<Longrightarrow> issued env m k"
  by (force simp: issued_def)

lemma issued_new: "n < m \<Longrightarrow> issued env m (''po_'' @ pe_uuid env n)"
  by (auto simp: issued_def)

lemma issued_fresh: "runtime_ok env \<Longrightarrow> n \<le> j \<Longrightarrow> \<not> issued env n (''po_'' @ pe_uuid env j)"
  by (auto simp: issued_def runtime_ok_def inj_eq)

definition threshold_key :: "nat \<Rightarrow> string \<Rightarrow> bool" where
  "threshold_key n k \<longleftrightarrow> (\<exists>base j. j \<le> n \<and> k = base @ '':seq-'' @ nat_text j)"

lemma threshold_key_mono: "threshold_key n k \<Longrightarrow> n \<le> m \<Longrightarrow> threshold_key m k"
  unfolding threshold_key_def using order_trans by blast

definition calendar_key :: "string \<Rightarrow> bool" where
  "calendar_key k \<longleftrightarrow> (\<exists>base z. k = base @ '':'' @ int_text z)"

definition payout_inv :: "payout_env \<Rightarrow> payout_engine \<Rightarrow> bool" where
  "payout_inv env e \<longleftrightarrow>
     1 \<le> pc_maxAttempts (po_config e) \<and> js_wf (po_pendingAmounts e) \<and>
     (\<forall>v\<in>set (js_values (po_pendingAmounts e)). micro v) \<and>
     (\<forall>b\<in>set (po_batches e). batch_ok e b \<and> issued env (po_uuids e) (pb_id b) \<and>
        issued env (po_uuids e) (pb_idempotencyKey b) \<and> js_get (po_materialisedCycles e) (pb_cycleKey b) \<noteq> None) \<and>
     distinct (map pb_id (po_batches e)) \<and> distinct (map pb_idempotencyKey (po_batches e)) \<and>
     distinct (map pb_cycleKey (po_batches e)) \<and>
     (\<forall>k. js_get (po_materialisedCycles e) k \<noteq> None \<longrightarrow> calendar_key k \<or> threshold_key (po_sequence e) k) \<and>
     (\<forall>x\<in>set (po_auditTrail e). pau_action x \<in> {ActExecuting, ActApproved, ActSettled} \<longrightarrow>
        pau_batchId x \<in> pb_id ` set (po_batches e))"

subsection \<open>A change of one batch\<close>

definition touched :: "string \<Rightarrow> PayoutBatch \<Rightarrow> PayoutBatch \<Rightarrow> payout_engine \<Rightarrow> payout_engine \<Rightarrow> bool" where
  "touched i b b' e e' \<longleftrightarrow>
     find_batch i e = Some b \<and> pb_id b' = i \<and> pb_idempotencyKey b' = pb_idempotencyKey b \<and>
     pb_cycleKey b' = pb_cycleKey b \<and> pb_amount b' = pb_amount b \<and>
     po_batches e' = update_first (\<lambda>c. pb_id c = i) (\<lambda>_. b') (po_batches e) \<and>
     po_config e' = po_config e \<and> po_uuids e' = po_uuids e \<and> po_sequence e' = po_sequence e \<and>
     po_materialisedCycles e' = po_materialisedCycles e \<and>
     (\<exists>xs. po_auditTrail e' = po_auditTrail e @ xs \<and> (\<forall>x\<in>set xs. pau_batchId x = i))"

lemma touched_entries: "touched i b b' e e' \<Longrightarrow> j \<noteq> i \<Longrightarrow> entries a j e' = entries a j e"
  by (auto simp: touched_def entries_def filter_empty_conv)

lemma batch_ok_cong: "(\<And>a. entries a (pb_id b) e' = entries a (pb_id b) e) \<Longrightarrow> batch_ok e' b = batch_ok e b"
  by (simp add: batch_ok_def)

lemma touched_inv:
  assumes inv: "payout_inv env e" and t: "touched i b b' e e'" and ok: "batch_ok e' b'"
    and pending: "js_wf (po_pendingAmounts e')" "\<forall>v\<in>set (js_values (po_pendingAmounts e')). micro v"
  shows "payout_inv env e'"
proof -
  have find: "find (\<lambda>c. pb_id c = i) (po_batches e) = Some b" and bs: "po_batches e' = update_first (\<lambda>c. pb_id c = i) (\<lambda>_. b') (po_batches e)"
    and same: "pb_id b' = i" "pb_idempotencyKey b' = pb_idempotencyKey b" "pb_cycleKey b' = pb_cycleKey b"
    and state: "po_config e' = po_config e" "po_uuids e' = po_uuids e" "po_sequence e' = po_sequence e"
      "po_materialisedCycles e' = po_materialisedCycles e"
    using t by (simp_all add: touched_def find_batch_def)
  obtain xs where xs: "po_auditTrail e' = po_auditTrail e @ xs" "\<forall>x\<in>set xs. pau_batchId x = i"
    using t by (auto simp: touched_def)
  have b: "b \<in> set (po_batches e)" "pb_id b = i" using find_SomeD [OF find] by simp_all
  have maps: "map pb_id (po_batches e') = map pb_id (po_batches e)"
    "map pb_idempotencyKey (po_batches e') = map pb_idempotencyKey (po_batches e)"
    "map pb_cycleKey (po_batches e') = map pb_cycleKey (po_batches e)"
    unfolding bs using same b by (simp_all add: map_update_first [OF find])
  have d: "distinct (map pb_id (po_batches e))" using inv by (simp add: payout_inv_def)
  have "batch_ok e' c \<and> issued env (po_uuids e') (pb_id c) \<and> issued env (po_uuids e') (pb_idempotencyKey c) \<and>
      js_get (po_materialisedCycles e') (pb_cycleKey c) \<noteq> None" if "c \<in> set (po_batches e')" for c
  proof -
    have "c = b' \<or> c \<in> set (po_batches e) \<and> pb_id c \<noteq> i"
      using that unfolding bs by (rule in_update_first [OF d find])
    moreover have "batch_ok e' c" if "c \<in> set (po_batches e)" "pb_id c \<noteq> i"
      using that inv touched_entries [OF t that(2)] batch_ok_cong [of c e' e] by (simp add: payout_inv_def)
    ultimately show ?thesis using inv ok b same state by (auto simp: payout_inv_def)
  qed
  moreover have ids: "pb_id ` set (po_batches e') = pb_id ` set (po_batches e)" using maps(1) by (metis set_map)
  moreover have "i \<in> pb_id ` set (po_batches e)" using b by blast
  ultimately show ?thesis
    using inv xs pending unfolding payout_inv_def maps ids state by auto
qed

lemma touched_money:
  assumes "touched i b b' e e'"
  shows "money e' = money e + (awaiting e' - awaiting e) - batch_worth b + batch_worth b'"
  using assms sum_update_first [of "\<lambda>c. pb_id c = i" "po_batches e" b batch_worth b']
  by (simp add: touched_def money_def find_batch_def)

text \<open>A change that leaves the balances and the reserve as they are.\<close>

lemma touched_keeps:
  assumes "payout_inv env e" "touched i b b' e e'" "po_pendingAmounts e' = po_pendingAmounts e"
    "pb_fundsReleased b' = pb_fundsReleased b" "batch_ok e' b'"
  shows "payout_inv env e' \<and> money e' = money e"
proof -
  have "payout_inv env e'" using assms by (intro touched_inv [of env e i b b' e']) (auto simp: payout_inv_def)
  moreover have "money e' = money e"
    using touched_money [OF assms(2)] assms(2-4) by (simp add: awaiting_def batch_worth_def touched_def)
  ultimately show ?thesis ..
qed

subsection \<open>What the operations do to a batch\<close>

lemma batch_of_inv: "payout_inv env e \<Longrightarrow> find_batch i e = Some b \<Longrightarrow> batch_ok e b \<and> pb_id b = i"
  using find_batch_SomeD [of i e b] by (auto simp: payout_inv_def)

lemma find_update_first: "find P xs = Some x \<Longrightarrow> P y \<Longrightarrow> find P (update_first P (\<lambda>_. y) xs) = Some y"
  by (induction xs) (auto split: if_splits)

lemma update_first_twice: "P y \<Longrightarrow> update_first P (\<lambda>_. z) (update_first P (\<lambda>_. y) xs) = update_first P (\<lambda>_. z) xs"
  by (induction xs) auto

lemma update_first_same: "find P xs = Some x \<Longrightarrow> update_first P (\<lambda>_. x) xs = xs"
  by (induction xs) (auto split: if_splits)

definition same_batch :: "PayoutBatch \<Rightarrow> PayoutBatch \<Rightarrow> bool" where
  "same_batch b b' \<longleftrightarrow> pb_id b' = pb_id b \<and> pb_idempotencyKey b' = pb_idempotencyKey b \<and>
     pb_cycleKey b' = pb_cycleKey b \<and> pb_amount b' = pb_amount b"

lemma touched_write: "find_batch i e = Some b \<Longrightarrow> same_batch b b' \<Longrightarrow> touched i b b' e (write_batch b' e)"
  using find_batch_SomeD [of i e b] by (auto simp: touched_def same_batch_def write_batch_def)

lemma touched_again:
  "touched i b b' e e' \<Longrightarrow> same_batch b b'' \<Longrightarrow> pb_id b = i \<Longrightarrow> touched i b b'' e (write_batch b'' e')"
  by (auto simp: touched_def same_batch_def write_batch_def update_first_twice)

lemma touched_record: "touched i b b' e e' \<Longrightarrow> touched i b b' e (record_audit i a actor details now e')"
  by (auto simp: touched_def record_audit_def)

lemma touched_emit: "touched i b b' e e' \<Longrightarrow> touched i b b' e (emit_payout ty c detail now e')"
  by (auto simp: touched_def emit_payout_def)

lemma touched_pending: "touched i b b' e e' \<Longrightarrow> touched i b b' e (e'\<lparr>po_pendingAmounts := pa\<rparr>)"
  by (auto simp: touched_def)

lemma touched_find: "touched i b b' e e' \<Longrightarrow> find_batch i e' = Some b'"
  unfolding touched_def find_batch_def by (metis (mono_tags, lifting) find_update_first)

lemma write_record: "write_batch b (record_audit i a actor details now e) = record_audit i a actor details now (write_batch b e)"
  by (simp add: engine_defs)

lemmas touched_intros = touched_emit touched_record touched_pending

lemma engine_simps [simp]:
  "find_batch j (record_audit i a actor details now e) = find_batch j e"
  "find_batch j (emit_payout ty c detail now e) = find_batch j e"
  "find_batch j (e\<lparr>po_pendingAmounts := pa\<rparr>) = find_batch j e"
  "po_pendingAmounts (record_audit i a actor details now e) = po_pendingAmounts e"
  "po_pendingAmounts (emit_payout ty c detail now e) = po_pendingAmounts e"
  "po_pendingAmounts (write_batch c e) = po_pendingAmounts e"
  "getPendingAmount m (write_batch c e) = getPendingAmount m e"
  by (simp_all add: engine_defs find_batch_def getPendingAmount_def)

lemma settle_start_result:
  assumes "find_batch i e = Some b" "pb_status b = PayoutPending"
  obtains b' details where
    "settle_start i actor now e = (Inr (Some (execution_request b')),
       emit_payout EvExecuting b' None now (record_audit i ActExecuting actor details now (write_batch b' e)))"
    "b' = b\<lparr>pb_attempts := pb_attempts b + 1, pb_status := PayoutExecuting, pb_updatedAt := now\<rparr>"
  using assms that by (simp add: settle_start_def payout_transition_def Let_def)

text \<open>The start of an attempt, after any changes of the batch that leave it pending.\<close>

lemma attempt_starts:
  assumes inv: "payout_inv env e" and t: "touched i b c e e'" and same: "same_batch b c" and pending: "pb_status c = PayoutPending"
    and counts: "pb_attempts c = int (entries ActExecuting i e')" "pb_attempts c < pb_maxAttempts c"
      "pb_requiresApproval c \<longrightarrow> entries ActApproved i e' = Suc (entries ActExecuting i e')"
      "entries ActSettled i e' = 0"
    and flags: "\<not> pb_fundsReleased c" "\<not> pb_fundsReleased b" "\<not> truthy (pb_rejectedBy c)" "po_pendingAmounts e' = po_pendingAmounts e"
  shows "payout_inv env (snd (settle_start i actor now e')) \<and> money (snd (settle_start i actor now e')) = money e"
proof -
  obtain b' details where
    r: "settle_start i actor now e' = (Inr (Some (execution_request b')),
       emit_payout EvExecuting b' None now (record_audit i ActExecuting actor details now (write_batch b' e')))"
    and b': "b' = c\<lparr>pb_attempts := pb_attempts c + 1, pb_status := PayoutExecuting, pb_updatedAt := now\<rparr>"
    using settle_start_result [OF touched_find [OF t] pending] .
  have i: "pb_id b = i" "micro (pb_amount b)"
    using t batch_of_inv [OF inv, of i b] by (auto simp: touched_def batch_ok_def)
  have "same_batch b b'" using same by (simp add: same_batch_def b')
  then have "touched i b b' e (snd (settle_start i actor now e'))"
    unfolding r snd_conv by (intro touched_intros touched_again [OF t]) (simp_all add: i)
  moreover have "batch_ok (snd (settle_start i actor now e')) b'"
    using same i counts flags unfolding r by (simp add: batch_ok_def b' same_batch_def)
  ultimately show ?thesis
    using flags by (intro touched_keeps [OF inv, of i b b']) (simp_all add: r b')
qed

lemma approve_keeps:
  assumes "payout_inv env e" "approve_start i approver now e = (Inr True, e1)"
  shows "payout_inv env (snd (settle_start i (pa_id approver) now e1)) \<and>
    money (snd (settle_start i (pa_id approver) now e1)) = money e"
proof -
  obtain b where b: "find_batch i e = Some b" "pb_status b = PayoutPending" and e1: "e1 = record_audit i ActApproved (pa_id approver) None now e"
    using assms(2) by (auto simp: approve_start_def split: option.splits if_splits)
  have found: "find_batch i e1 = Some b" by (simp add: e1 b(1))
  obtain b' details where
    r: "settle_start i (pa_id approver) now e1 = (Inr (Some (execution_request b')),
       emit_payout EvExecuting b' None now (record_audit i ActExecuting (pa_id approver) details now (write_batch b' e1)))"
    and b': "b' = b\<lparr>pb_attempts := pb_attempts b + 1, pb_status := PayoutExecuting, pb_updatedAt := now\<rparr>"
    using settle_start_result [OF found b(2)] .
  have ok: "batch_ok e b" "pb_id b = i" using batch_of_inv [OF assms(1) b(1)] by simp_all
  have "touched i b b' e (snd (settle_start i (pa_id approver) now e1))"
    unfolding r snd_conv unfolding e1 write_record by (intro touched_intros touched_write [OF b(1)]) (simp add: same_batch_def b')
  moreover have "batch_ok (snd (settle_start i (pa_id approver) now e1)) b'"
    using ok b(2) unfolding r snd_conv unfolding e1 by (auto simp: batch_ok_def b')
  ultimately show ?thesis
    by (intro touched_keeps [OF assms(1), of i b b']) (simp_all add: r b', simp add: e1)
qed

lemma retry_start_result:
  assumes "find_batch i e = Some b" "pb_status b = PayoutFailed"
  obtains c where "c = b\<lparr>pb_nextAttemptAt := None, pb_errorCode := None, pb_errorMessage := None,
      pb_status := PayoutPending, pb_updatedAt := now\<rparr>"
    "retry_start i now e = (let e = record_audit i ActRetried ''system'' (Some ''Retry after backoff elapsed'') now (write_batch c e)
       in if pb_requiresApproval c
          then (Inr False, emit_payout EvPendingReview c (Some ''Awaiting re-approval after failure'') now e)
          else (Inr True, e))"
  using assms that by (simp add: retry_start_def payout_transition_def Let_def)

lemma retry_keeps:
  assumes inv: "payout_inv env e" and b: "find_batch i e = Some b" "retry_due now b"
  shows "retry_start i now e = (Inr False, e1) \<Longrightarrow> payout_inv env e1 \<and> money e1 = money e"
    and "retry_start i now e = (Inr True, e1) \<Longrightarrow>
      payout_inv env (snd (settle_start i ''system'' now' e1)) \<and> money (snd (settle_start i ''system'' now' e1)) = money e"
proof -
  have ok: "batch_ok e b" "pb_id b = i" using batch_of_inv [OF inv b(1)] by simp_all
  have due: "pb_status b = PayoutFailed" "\<not> truthy (pb_rejectedBy b)" "pb_attempts b < pb_maxAttempts b" "\<not> pb_fundsReleased b"
    using b(2) ok by (auto simp: retry_due_def batch_ok_def)
  obtain c where c: "c = b\<lparr>pb_nextAttemptAt := None, pb_errorCode := None, pb_errorMessage := None,
      pb_status := PayoutPending, pb_updatedAt := now\<rparr>"
    and r: "retry_start i now e = (let e = record_audit i ActRetried ''system'' (Some ''Retry after backoff elapsed'') now (write_batch c e)
       in if pb_requiresApproval c
          then (Inr False, emit_payout EvPendingReview c (Some ''Awaiting re-approval after failure'') now e)
          else (Inr True, e))"
    using retry_start_result [OF b(1) due(1)] .
  have same: "same_batch b c" by (simp add: same_batch_def c)
  have t: "touched i b c e (record_audit i ActRetried ''system'' (Some ''Retry after backoff elapsed'') now (write_batch c e))"
    by (intro touched_intros touched_write [OF b(1) same])
  show "payout_inv env e1 \<and> money e1 = money e" if "retry_start i now e = (Inr False, e1)"
  proof (rule touched_keeps [OF inv])
    show "touched i b c e e1" using that touched_emit [OF t] by (auto simp: r Let_def split: if_splits)
    show "batch_ok e1 c" using that ok due by (auto simp: r Let_def batch_ok_def c split: if_splits)
  qed (use that in \<open>auto simp: r Let_def c split: if_splits\<close>)
  show "payout_inv env (snd (settle_start i ''system'' now' e1)) \<and> money (snd (settle_start i ''system'' now' e1)) = money e"
    if "retry_start i now e = (Inr True, e1)"
  proof (rule attempt_starts [OF inv _ same])
    show "touched i b c e e1" using that t by (simp add: r Let_def split: if_splits)
  qed (use that ok due in \<open>auto simp: r Let_def c batch_ok_def split: if_splits\<close>)
qed

text \<open>The end of an attempt: an executing batch completes or fails.\<close>

lemma settle_finish_result:
  assumes "find_batch i e = Some b" "pb_status b = PayoutExecuting"
  obtains (completed) b' h t where "truthy (Some h)"
      "b' = b\<lparr>pb_status := PayoutCompleted, pb_updatedAt := now, pb_transactionHash := Some h, pb_settledAt := Some t, pb_nextAttemptAt := None\<rparr>"
      "settle_finish env i actor result now random e =
         (Inr (), emit_payout EvCompleted b' (Some h) now (record_audit i ActSettled actor (Some h) now (write_batch b' e)))"
    | (failed) b' ty m d where "pb_status b' = PayoutFailed" "pb_attempts b' = pb_attempts b" "same_batch b b'"
      "pb_maxAttempts b' = pb_maxAttempts b" "pb_requiresApproval b' = pb_requiresApproval b"
      "pb_fundsReleased b' = pb_fundsReleased b"
      "settle_finish env i actor result now random e =
         (Inr (), emit_payout ty b' (Some d) now (record_audit i ActFailed actor (Some m) now (write_batch b' e)))"
proof (cases "executed result now b")
  case (Inl detail)
  have "pb_id b = i" using find_batch_SomeD [OF assms(1)] ..
  note id = this
  let ?b = "b\<lparr>pb_status := PayoutFailed, pb_updatedAt := now, pb_errorMessage := Some detail\<rparr>"
  show ?thesis
  proof (cases "pb_maxAttempts b \<le> pb_attempts b")
    case True
    show ?thesis
      by (rule failed [of "?b\<lparr>pb_errorCode := Some ''PAYOUT_ATTEMPTS_EXHAUSTED''\<rparr>" EvFailed detail detail])
        (use True Inl assms id in \<open>simp_all add: settle_finish_def execution_failed_def payout_transition_def same_batch_def Let_def\<close>)
  next
    case False
    let ?t = "now + backoffMs (po_config e) (pb_attempts b) random"
    show ?thesis
      by (rule failed [of "?b\<lparr>pb_errorCode := Some ''PAYOUT_EXECUTION_FAILED'', pb_nextAttemptAt := Some ?t\<rparr>" EvDelayed
            "''Retry '' @ int_text (pb_attempts b + 1) @ '' at '' @ pe_iso env ?t" detail])
        (use False Inl assms id in \<open>simp_all add: settle_finish_def execution_failed_def payout_transition_def same_batch_def Let_def\<close>)
  qed
next
  case (Inr c)
  with assms show ?thesis
    by (auto simp: settle_finish_def executed_def payout_transition_def truthy_def
        split: PayoutExecutionResult.splits if_splits option.splits intro!: completed)
qed

lemma finish_keeps:
  assumes inv: "payout_inv env e" and b: "find_batch i e = Some b" "pb_status b = PayoutExecuting"
  shows "payout_inv env (snd (settle_finish env i actor result now random e)) \<and>
    money (snd (settle_finish env i actor result now random e)) = money e"
proof -
  have ok: "batch_ok e b" "pb_id b = i" using batch_of_inv [OF inv b(1)] by simp_all
  from b show ?thesis
  proof (cases rule: settle_finish_result [where env = env and actor = actor and result = result and now = now and random = random])
    case (completed b' h t)
    have "same_batch b b'" by (simp add: completed same_batch_def)
    then have "touched i b b' e (snd (settle_finish env i actor result now random e))"
      unfolding completed(3) snd_conv by (intro touched_intros touched_write [OF b(1)])
    moreover have "batch_ok (snd (settle_finish env i actor result now random e)) b'"
      using ok b(2) completed(1,2) unfolding completed(3) by (auto simp: batch_ok_def)
    ultimately show ?thesis by (intro touched_keeps [OF inv, of i b b']) (simp_all add: completed)
  next
    case (failed b' ty m d)
    have "touched i b b' e (snd (settle_finish env i actor result now random e))"
      unfolding failed(7) snd_conv by (intro touched_intros touched_write [OF b(1)] failed)
    moreover have "batch_ok (snd (settle_finish env i actor result now random e)) b'"
      using ok b(2) failed(1-6) unfolding failed(7) by (auto simp: batch_ok_def same_batch_def)
    ultimately show ?thesis by (intro touched_keeps [OF inv, of i b b']) (simp_all add: failed)
  qed
qed

subsection \<open>Decisions\<close>

lemma pending_micro:
  assumes "payout_inv env e"
  shows "micro (getPendingAmount m e)"
proof (cases "js_get (po_pendingAmounts e) m")
  case (Some a)
  then have "a \<in> set (js_values (po_pendingAmounts e))" using assms by (auto simp: in_js_values payout_inv_def)
  with Some assms show ?thesis by (simp add: getPendingAmount_def payout_inv_def)
qed (simp add: getPendingAmount_def)

lemma pending_set:
  assumes "js_wf m" "\<forall>v\<in>set (js_values m). micro v" "micro a"
  shows "js_wf (js_set k a m) \<and> (\<forall>v\<in>set (js_values (js_set k a m)). micro v)"
  using assms by (auto simp: in_js_values split: if_splits)

lemma awaiting_set:
  "js_wf (po_pendingAmounts e) \<Longrightarrow> po_pendingAmounts e' = js_set m a (po_pendingAmounts e) \<Longrightarrow>
   awaiting e' = awaiting e - getPendingAmount m e + a"
  by (simp add: awaiting_def sum_js_set getPendingAmount_def)

lemma release_result:
  assumes "runtime_ok env" "payout_inv env e" "find_batch i e = Some b" "find_batch i e' = Some c" "same_batch b c"
    "pb_merchantId c = pb_merchantId b" "\<not> pb_fundsReleased c" "po_pendingAmounts e' = po_pendingAmounts e"
  obtains details where
    "releaseFunds env i now e' =
       (Inr (), record_audit i ActReleased ''system'' details now
          ((write_batch (c\<lparr>pb_fundsReleased := True\<rparr>) e')\<lparr>po_pendingAmounts :=
             js_set (pb_merchantId b) (getPendingAmount (pb_merchantId b) e + pb_amount b) (po_pendingAmounts e)\<rparr>))"
proof -
  have b: "micro (pb_amount b)" using batch_of_inv [OF assms(2,3)] by (simp add: batch_ok_def)
  have "micro (getPendingAmount (pb_merchantId b) e + pb_amount b)"
    by (intro micro_add pending_micro [OF assms(2)] b)
  from quantized_exact [OF assms(1) this] assms(4-8) show ?thesis
    by (intro that) (auto simp: releaseFunds_def Let_def same_batch_def getPendingAmount_def write_batch_def)
qed

text \<open>A batch that gives its amount back.\<close>

lemma released_keeps:
  assumes inv: "payout_inv env e" and t: "touched i b b' e e'" and ok: "batch_ok e' b'"
    and flags: "\<not> pb_fundsReleased b" "pb_fundsReleased b'"
    and pa: "po_pendingAmounts e' = js_set m (getPendingAmount m e + pb_amount b) (po_pendingAmounts e)"
  shows "payout_inv env e' \<and> money e' = money e"
proof -
  have wf: "js_wf (po_pendingAmounts e)" "\<forall>v\<in>set (js_values (po_pendingAmounts e)). micro v"
    using inv by (simp_all add: payout_inv_def)
  have "micro (pb_amount b)" using t batch_of_inv [OF inv, of i b] by (auto simp: touched_def batch_ok_def)
  then have "micro (getPendingAmount m e + pb_amount b)" by (intro micro_add pending_micro [OF inv])
  from pending_set [OF wf this] have "payout_inv env e'" by (intro touched_inv [OF inv t ok]) (simp_all add: pa)
  moreover have "money e' = money e"
    using touched_money [OF t] awaiting_set [OF wf(1) pa] flags by (simp add: batch_worth_def)
  ultimately show ?thesis ..
qed

lemma reject_keeps:
  assumes env: "runtime_ok env" and inv: "payout_inv env e" and r: "rejectManualPayout env i approver now e = (r, e')"
  shows "payout_inv env e' \<and> money e' = money e"
proof (cases "assertApprover approver = None \<and> (\<exists>b. find_batch i e = Some b \<and> pb_status b = PayoutPending)")
  case False
  then have "e' = e" using r by (auto simp: rejectManualPayout_def split: option.splits if_splits)
  with inv show ?thesis by simp
next
  case True
  then obtain b where b: "find_batch i e = Some b" "pb_status b = PayoutPending" and a: "assertApprover approver = None" by blast
  have ok: "batch_ok e b" "pb_id b = i" using batch_of_inv [OF inv b(1)] by simp_all
  let ?c = "b\<lparr>pb_status := PayoutFailed, pb_updatedAt := now, pb_errorMessage := Some ''Rejected by manual review'', pb_rejectedBy := Some (pa_id approver)\<rparr>"
  have same: "same_batch b ?c" by (simp add: same_batch_def)
  have t: "touched i b ?c e (write_batch ?c e)" by (intro touched_write [OF b(1) same])
  have unreleased: "\<not> pb_fundsReleased b" using ok b by (auto simp: batch_ok_def)
  obtain details where release: "releaseFunds env i now (write_batch ?c e) =
       (Inr (), record_audit i ActReleased ''system'' details now
          ((write_batch (?c\<lparr>pb_fundsReleased := True\<rparr>) (write_batch ?c e))\<lparr>po_pendingAmounts :=
             js_set (pb_merchantId b) (getPendingAmount (pb_merchantId b) e + pb_amount b) (po_pendingAmounts e)\<rparr>))"
    using release_result [OF env inv b(1) touched_find [OF t] same] unreleased by auto
  let ?d = "?c\<lparr>pb_fundsReleased := True\<rparr>"
  obtain ty x y z where e': "e' = emit_payout ty x y now (record_audit i ActRejected (pa_id approver) z now
      (record_audit i ActReleased ''system'' details now ((write_batch ?d (write_batch ?c e))\<lparr>po_pendingAmounts :=
             js_set (pb_merchantId b) (getPendingAmount (pb_merchantId b) e + pb_amount b) (po_pendingAmounts e)\<rparr>)))"
    using r a b release by (auto simp: rejectManualPayout_def payout_transition_def Let_def)
  have "touched i b ?d e e'"
    unfolding e' using ok by (intro touched_intros touched_again [OF t]) (simp_all add: same_batch_def)
  moreover have "truthy (Some (pa_id approver))" using a by (simp add: assertApprover_def truthy_def split: if_splits)
  then have "batch_ok e' ?d" using ok b unfolding e' by (simp add: batch_ok_def)
  ultimately show ?thesis
    using unreleased by (intro released_keeps [OF inv, of i b ?d e' "pb_merchantId b"]) (simp_all add: e')
qed

lemma manual_retry_keeps:
  assumes inv: "payout_inv env e" and r: "retryFailedBatch i approver now e = (r, e')"
  shows "payout_inv env e' \<and> money e' = money e"
proof (cases "assertApprover approver = None \<and> (\<exists>b. find_batch i e = Some b \<and> pb_status b = PayoutFailed \<and>
    \<not> truthy (pb_rejectedBy b) \<and> pb_attempts b < pb_maxAttempts b)")
  case False
  then have "e' = e" using r by (auto simp: retryFailedBatch_def not_less split: option.splits if_splits)
  with inv show ?thesis by simp
next
  case True
  then obtain b where b: "find_batch i e = Some b" "pb_status b = PayoutFailed" "\<not> truthy (pb_rejectedBy b)"
      "pb_attempts b < pb_maxAttempts b" and a: "assertApprover approver = None" by blast
  have ok: "batch_ok e b" "pb_id b = i" using batch_of_inv [OF inv b(1)] by simp_all
  let ?c = "b\<lparr>pb_status := PayoutPending, pb_updatedAt := now, pb_errorMessage := None, pb_errorCode := None, pb_nextAttemptAt := None\<rparr>"
  obtain d where e': "e' = record_audit i ActRetried (pa_id approver) d now (write_batch ?c e)"
    using r a b by (auto simp: retryFailedBatch_def payout_transition_def Let_def)
  have "touched i b ?c e e'" unfolding e' by (intro touched_intros touched_write [OF b(1)]) (simp add: same_batch_def)
  moreover have "batch_ok e' ?c" using ok b unfolding e' by (auto simp: batch_ok_def)
  ultimately show ?thesis by (intro touched_keeps [OF inv, of i b ?c]) (simp_all add: e')
qed

text \<open>A batch whose attempts are exhausted, as the comment on \<open>releaseReservedFunds\<close> asks for.\<close>

definition attempts_spent :: "string \<Rightarrow> payout_engine \<Rightarrow> bool" where
  "attempts_spent i e \<longleftrightarrow> (\<forall>b. find_batch i e = Some b \<longrightarrow> pb_maxAttempts b \<le> pb_attempts b)"

lemma release_keeps:
  assumes env: "runtime_ok env" and inv: "payout_inv env e" and ex: "attempts_spent i e"
    and r: "releaseReservedFunds env i approver now e = (r, e')"
  shows "payout_inv env e' \<and> money e' = money e"
proof (cases "assertApprover approver = None \<and> (\<exists>b. find_batch i e = Some b \<and> pb_status b = PayoutFailed \<and> \<not> pb_fundsReleased b)")
  case False
  then have "e' = e" using r by (auto simp: releaseReservedFunds_def split: option.splits if_splits)
  with inv show ?thesis by simp
next
  case True
  then obtain b where b: "find_batch i e = Some b" "pb_status b = PayoutFailed" "\<not> pb_fundsReleased b"
    and a: "assertApprover approver = None" by blast
  have ok: "batch_ok e b" "pb_id b = i" using batch_of_inv [OF inv b(1)] by simp_all
  let ?d = "b\<lparr>pb_fundsReleased := True\<rparr>"
  obtain details where release: "releaseFunds env i now e =
       (Inr (), record_audit i ActReleased ''system'' details now
          ((write_batch ?d e)\<lparr>po_pendingAmounts :=
             js_set (pb_merchantId b) (getPendingAmount (pb_merchantId b) e + pb_amount b) (po_pendingAmounts e)\<rparr>))"
    using release_result [OF env inv b(1) b(1)] b(3) by (auto simp: same_batch_def)
  obtain z where e': "e' = record_audit i ActReleased (pa_id approver) z now
      (record_audit i ActReleased ''system'' details now ((write_batch ?d e)\<lparr>po_pendingAmounts :=
             js_set (pb_merchantId b) (getPendingAmount (pb_merchantId b) e + pb_amount b) (po_pendingAmounts e)\<rparr>))"
    using r a b release by (auto simp: releaseReservedFunds_def)
  have "touched i b ?d e e'"
    unfolding e' by (intro touched_intros touched_write [OF b(1)]) (simp add: same_batch_def)
  moreover have "batch_ok e' ?d" using ok b ex unfolding e' by (auto simp: batch_ok_def attempts_spent_def)
  ultimately show ?thesis
    using b(3) by (intro released_keeps [OF inv, of i b ?d e' "pb_merchantId b"]) (simp_all add: e')
qed

subsection \<open>Credits and new batches\<close>

lemma credit_keeps:
  assumes inv: "payout_inv env e" and a: "micro a" "0 \<le> a"
  shows "payout_inv env (snd (setPendingAmount m a e)) \<and>
    money (snd (setPendingAmount m a e)) = money e + (a - getPendingAmount m e)"
proof -
  let ?e = "e\<lparr>po_pendingAmounts := js_set m a (po_pendingAmounts e)\<rparr>"
  have wf: "js_wf (po_pendingAmounts e)" "\<forall>v\<in>set (js_values (po_pendingAmounts e)). micro v"
    using inv by (simp_all add: payout_inv_def)
  have "batch_ok ?e = batch_ok e" by (simp add: batch_ok_def fun_eq_iff)
  then have "payout_inv env ?e" using inv pending_set [OF wf a(1)] by (simp add: payout_inv_def)
  moreover have "money ?e = money e + (a - getPendingAmount m e)"
    using awaiting_set [OF wf(1), of ?e m a] by (simp add: money_def)
  ultimately show ?thesis using a(2) by (simp add: setPendingAmount_def)
qed

text \<open>Steps that change neither balances nor batches.\<close>

definition same_books :: "payout_engine \<Rightarrow> payout_engine \<Rightarrow> bool" where
  "same_books e e' \<longleftrightarrow>
     po_config e' = po_config e \<and> po_batches e' = po_batches e \<and> po_pendingAmounts e' = po_pendingAmounts e \<and>
     po_materialisedCycles e' = po_materialisedCycles e \<and> po_uuids e \<le> po_uuids e' \<and> po_sequence e \<le> po_sequence e' \<and>
     (\<exists>xs. po_auditTrail e' = po_auditTrail e @ xs \<and> (\<forall>x\<in>set xs. pau_action x = ActFailed))"

lemma same_books_keeps:
  assumes inv: "payout_inv env e" and s: "same_books e e'"
  shows "payout_inv env e' \<and> money e' = money e"
proof -
  obtain xs where xs: "po_auditTrail e' = po_auditTrail e @ xs" "\<forall>x\<in>set xs. pau_action x = ActFailed"
    using s by (auto simp: same_books_def)
  have "entries a j e' = entries a j e" if "a \<noteq> ActFailed" for a j
    using xs that by (auto simp: entries_def filter_empty_conv)
  then have ok: "batch_ok e' = batch_ok e" by (simp add: batch_ok_def fun_eq_iff)
  have "payout_inv env e'"
    using inv s xs unfolding payout_inv_def ok same_books_def by (auto intro: issued_mono threshold_key_mono)
  moreover have "money e' = money e" using s by (simp add: money_def awaiting_def same_books_def)
  ultimately show ?thesis ..
qed

text \<open>The number at the end of a cycle key, and what stands before it, read backwards.\<close>

lemma key_end:
  assumes "r = [] \<or> \<not> is_digit (hd r)"
  shows "takeWhile is_digit (rev (nat_text n) @ r) = rev (nat_text n)" "dropWhile is_digit (rev (nat_text n) @ r) = r"
  using takeWhile_digits [of "rev (nat_text n)" r] nat_text_digits assms by auto

lemma fresh_threshold_key:
  assumes "calendar_key k \<or> threshold_key n k"
  shows "k \<noteq> base @ '':seq-'' @ nat_text (Suc n)"
proof
  let ?r = "rev '':seq-'' @ rev base"
  assume k: "k = base @ '':seq-'' @ nat_text (Suc n)"
  have nd: "\<not> is_digit (CHR ''-'')" "\<not> is_digit (CHR '':'')" by (simp_all add: is_digit_def)
  have "rev k = rev (nat_text (Suc n)) @ ?r" by (simp add: k)
  then have ends: "takeWhile is_digit (rev k) = rev (nat_text (Suc n))" "dropWhile is_digit (rev k) = ?r"
    using key_end [of ?r "Suc n"] nd by simp_all
  from assms show False
  proof
    assume "calendar_key k"
    then obtain b z where "k = b @ '':'' @ int_text z" by (auto simp: calendar_key_def)
    then have "rev k = rev (nat_text (nat \<bar>z\<bar>)) @ (if z < 0 then ''-'' else []) @ '':'' @ rev b"
      by (simp add: int_text_def)
    then have "dropWhile is_digit (rev k) = (if z < 0 then ''-'' else []) @ '':'' @ rev b"
      using key_end [of "(if z < 0 then ''-'' else []) @ '':'' @ rev b" "nat \<bar>z\<bar>"] nd by simp
    with ends show False by (simp split: if_splits)
  next
    assume "threshold_key n k"
    then obtain b j where j: "j \<le> n" "k = b @ '':seq-'' @ nat_text j" by (auto simp: threshold_key_def)
    then have "rev k = rev (nat_text j) @ rev '':seq-'' @ rev b" by simp
    then have "takeWhile is_digit (rev k) = rev (nat_text j)"
      using key_end [of "rev '':seq-'' @ rev b" j] nd by simp
    with ends j show False by simp
  qed
qed

text \<open>A new batch, with the pending amount of its merchant.\<close>

definition adds :: "payout_env \<Rightarrow> PayoutBatch \<Rightarrow> payout_engine \<Rightarrow> payout_engine \<Rightarrow> bool" where
  "adds env b e e' \<longleftrightarrow>
     po_batches e' = po_batches e @ [b] \<and> po_pendingAmounts e' = js_set (pb_merchantId b) 0 (po_pendingAmounts e) \<and>
     pb_amount b = getPendingAmount (pb_merchantId b) e \<and> po_config e' = po_config e \<and> po_uuids e' = po_uuids e + 2 \<and>
     pb_id b = ''po_'' @ pe_uuid env (po_uuids e) \<and> pb_idempotencyKey b = ''po_'' @ pe_uuid env (po_uuids e + 1) \<and>
     (\<exists>v. po_materialisedCycles e' = js_set (pb_cycleKey b) v (po_materialisedCycles e)) \<and> po_sequence e \<le> po_sequence e' \<and>
     (calendar_key (pb_cycleKey b) \<and> js_get (po_materialisedCycles e) (pb_cycleKey b) = None \<or>
      (\<exists>base. pb_cycleKey b = base @ '':seq-'' @ nat_text (Suc (po_sequence e)) \<and> po_sequence e' = Suc (po_sequence e))) \<and>
     (\<exists>xs. po_auditTrail e' = po_auditTrail e @ xs \<and> (\<forall>x\<in>set xs. pau_action x = ActCreated)) \<and>
     pb_status b = PayoutPending \<and> pb_attempts b = 0 \<and> pb_maxAttempts b = pc_maxAttempts (po_config e) \<and>
     pb_rejectedBy b = None \<and> \<not> pb_fundsReleased b"

lemma adds_keeps:
  assumes env: "runtime_ok env" and inv: "payout_inv env e" and a: "adds env b e e'"
  shows "payout_inv env e' \<and> money e' = money e \<and> batch_ok e' b"
proof -
  have wf: "js_wf (po_pendingAmounts e)" "\<forall>v\<in>set (js_values (po_pendingAmounts e)). micro v"
    using inv by (simp_all add: payout_inv_def)
  obtain xs where xs: "po_auditTrail e' = po_auditTrail e @ xs" "\<forall>x\<in>set xs. pau_action x = ActCreated"
    using a by (auto simp: adds_def)
  have same: "entries act j e' = entries act j e" if "act \<noteq> ActCreated" for act j
    using xs that by (auto simp: entries_def filter_empty_conv)
  then have ok: "batch_ok e' = batch_ok e" by (simp add: batch_ok_def fun_eq_iff)
  have fresh: "\<not> issued env (po_uuids e) (pb_id b)" "\<not> issued env (po_uuids e) (pb_idempotencyKey b)"
    using a issued_fresh [OF env, of "po_uuids e"] by (simp_all add: adds_def)
  then have "pb_id b \<notin> pb_id ` set (po_batches e)" using inv by (auto simp: payout_inv_def)
  then have "entries act (pb_id b) e = 0" if "act \<in> {ActExecuting, ActApproved, ActSettled}" for act
    using inv that by (intro no_entries) (auto simp: payout_inv_def)
  then have b: "batch_ok e b"
    using a inv pending_micro [OF inv, of "pb_merchantId b"] by (simp add: batch_ok_def adds_def payout_inv_def truthy_def)
  have new_issued: "issued env (po_uuids e') (pb_id b)" "issued env (po_uuids e') (pb_idempotencyKey b)"
    using a issued_new [of "po_uuids e" "po_uuids e'" env] issued_new [of "po_uuids e + 1" "po_uuids e'" env] by (simp_all add: adds_def)
  have cycle: "js_get (po_materialisedCycles e) (pb_cycleKey b) = None"
  proof (rule ccontr)
    assume known: "js_get (po_materialisedCycles e) (pb_cycleKey b) \<noteq> None"
    with inv have "calendar_key (pb_cycleKey b) \<or> threshold_key (po_sequence e) (pb_cycleKey b)"
      unfolding payout_inv_def by blast
    then have "pb_cycleKey b \<noteq> base @ '':seq-'' @ nat_text (Suc (po_sequence e))" for base by (rule fresh_threshold_key)
    moreover have "\<exists>base. pb_cycleKey b = base @ '':seq-'' @ nat_text (Suc (po_sequence e))"
      using known a unfolding adds_def by metis
    ultimately show False by metis
  qed
  have key: "calendar_key (pb_cycleKey b) \<or> threshold_key (po_sequence e') (pb_cycleKey b)"
  proof (cases "calendar_key (pb_cycleKey b)")
    case False
    then obtain base where "pb_cycleKey b = base @ '':seq-'' @ nat_text (Suc (po_sequence e))" "po_sequence e' = Suc (po_sequence e)"
      using a unfolding adds_def by metis
    then show ?thesis unfolding threshold_key_def by (metis order_refl)
  qed simp
  have "distinct (map f (po_batches e @ [b]))" if "distinct (map f (po_batches e))" "\<forall>c\<in>set (po_batches e). f c \<noteq> f b" for f :: "PayoutBatch \<Rightarrow> string"
    using that by auto
  moreover have "\<forall>c\<in>set (po_batches e). pb_id c \<noteq> pb_id b \<and> pb_idempotencyKey c \<noteq> pb_idempotencyKey b \<and> pb_cycleKey c \<noteq> pb_cycleKey b"
    using inv fresh cycle by (auto simp: payout_inv_def)
  ultimately have d: "distinct (map pb_id (po_batches e @ [b]))" "distinct (map pb_idempotencyKey (po_batches e @ [b]))"
      "distinct (map pb_cycleKey (po_batches e @ [b]))"
    using inv by (simp_all add: payout_inv_def)
  have state: "po_batches e' = po_batches e @ [b]" "po_pendingAmounts e' = js_set (pb_merchantId b) 0 (po_pendingAmounts e)"
      "po_config e' = po_config e" "po_uuids e \<le> po_uuids e'" "po_sequence e \<le> po_sequence e'"
    using a by (simp_all add: adds_def)
  obtain v where cycles: "po_materialisedCycles e' = js_set (pb_cycleKey b) v (po_materialisedCycles e)"
    using a unfolding adds_def by blast
  have "\<forall>c\<in>set (po_batches e'). batch_ok e' c \<and> issued env (po_uuids e') (pb_id c) \<and>
      issued env (po_uuids e') (pb_idempotencyKey c) \<and> js_get (po_materialisedCycles e') (pb_cycleKey c) \<noteq> None"
    using inv b new_issued issued_mono [OF _ state(4)] unfolding payout_inv_def state(1) ok cycles by auto
  moreover have "\<forall>k. js_get (po_materialisedCycles e') k \<noteq> None \<longrightarrow> calendar_key k \<or> threshold_key (po_sequence e') k"
    using inv key threshold_key_mono [OF _ state(5)] unfolding payout_inv_def cycles by auto
  moreover have "\<forall>x\<in>set (po_auditTrail e'). pau_action x \<in> {ActExecuting, ActApproved, ActSettled} \<longrightarrow>
        pau_batchId x \<in> pb_id ` set (po_batches e')"
    using inv xs unfolding payout_inv_def state(1) by auto
  ultimately have "payout_inv env e'"
    using inv pending_set [OF wf micro_0, of "pb_merchantId b"] d unfolding payout_inv_def state by simp
  moreover have "money e' = money e"
    using a awaiting_set [OF wf(1), of e' "pb_merchantId b" 0] by (simp add: money_def adds_def batch_worth_def)
  ultimately show ?thesis using b ok by simp
qed

lemma cycleKey_result:
  assumes "cycleKeyFor schedule now e = (key, e')"
  obtains (calendar) "isCalendarSchedule schedule" "e' = e" "calendar_key key"
    | (threshold) base where "\<not> isCalendarSchedule schedule" "e' = e\<lparr>po_sequence := Suc (po_sequence e)\<rparr>"
        "key = base @ '':seq-'' @ nat_text (Suc (po_sequence e))"
proof (cases "SCHEDULE_PERIOD_MS (psc_scheduleType schedule)")
  case None
  with assms show ?thesis
    by (intro threshold [of "psc_id schedule @ '':'' @ psc_merchantId schedule @ '':'' @ schedule_type_text (psc_scheduleType schedule)"])
      (auto simp: cycleKeyFor_def isCalendarSchedule_def Let_def)
next
  case (Some period)
  let ?base = "psc_id schedule @ '':'' @ psc_merchantId schedule @ '':'' @ schedule_type_text (psc_scheduleType schedule)"
  have "key = ?base @ '':'' @ int_text (now div period)" using Some assms by (auto simp: cycleKeyFor_def Let_def)
  then have "calendar_key key" unfolding calendar_key_def by blast
  with Some assms show ?thesis
    by (intro calendar) (auto simp: cycleKeyFor_def isCalendarSchedule_def Let_def)
qed

lemma materialise_result:
  assumes env: "runtime_ok env" and inv: "payout_inv env e" and r: "materialise_start env schedule now e = (r, e')"
  shows "case r of Inr (Some (b, at_once)) \<Rightarrow> adds env b e e' \<and> at_once = (\<not> pb_requiresApproval b) | _ \<Rightarrow> same_books e e'"
proof (cases "isScheduleDue schedule now e \<and> isTriggerMet schedule (getPendingAmount (psc_merchantId schedule) e)")
  case False
  then show ?thesis using r by (auto simp: materialise_start_def same_books_def Let_def split: if_splits)
next
  case True
  let ?p = "getPendingAmount (psc_merchantId schedule) e"
  obtain key e1 where key: "cycleKeyFor schedule now e = (key, e1)" by (cases "cycleKeyFor schedule now e")
  have q: "quantized env ?p asset = Inr ?p" for asset by (rule quantized_exact [OF env pending_micro [OF inv]])
  have e1: "po_config e1 = po_config e" "po_pendingAmounts e1 = po_pendingAmounts e" "po_batches e1 = po_batches e"
      "po_auditTrail e1 = po_auditTrail e" "po_uuids e1 = po_uuids e" "po_materialisedCycles e1 = po_materialisedCycles e"
    and seq: "po_sequence e \<le> po_sequence e1"
    using key by (cases rule: cycleKey_result; simp)+
  show ?thesis
  proof (cases "isCalendarSchedule schedule \<and> js_get (po_materialisedCycles e) key \<noteq> None \<or> pc_maxBatchAmount (po_config e) < ?p")
    case stays: True
    then show ?thesis
      using True r e1 seq by (auto simp: materialise_start_def key createBatch_def same_books_def Let_def split: if_splits)
  next
    case False
    let ?b = "new_batch env schedule ?p (needs_approval schedule ?p e1) key now e1"
    have "calendar_key key \<and> js_get (po_materialisedCycles e) key = None \<or>
        (\<exists>base. key = base @ '':seq-'' @ nat_text (Suc (po_sequence e)) \<and> po_sequence e1 = Suc (po_sequence e))"
      using key by (cases rule: cycleKey_result) (use False in auto)
    moreover have "r = Inr (Some (?b, \<not> needs_approval schedule ?p e1))" "po_batches e' = po_batches e @ [?b]"
      "po_pendingAmounts e' = js_set (psc_merchantId schedule) 0 (po_pendingAmounts e)" "po_config e' = po_config e"
      "po_uuids e' = po_uuids e + 2" "po_materialisedCycles e' = js_set key (pb_id ?b) (po_materialisedCycles e)"
      "po_sequence e' = po_sequence e1" "\<exists>xs. po_auditTrail e' = po_auditTrail e @ xs \<and> (\<forall>x\<in>set xs. pau_action x = ActCreated)"
      using True False r e1 q by (auto simp: materialise_start_def key createBatch_def engine_defs Let_def split: if_splits)
    moreover from this(6) have "\<exists>v. po_materialisedCycles e' = js_set key v (po_materialisedCycles e)" by blast
    ultimately show ?thesis using e1 seq by (simp add: adds_def new_batch_def)
  qed
qed

subsection \<open>Steps\<close>

text \<open>
  A step changes the pending balances from outside by the first number. A settlement is two steps, its
  start up to the call of the executor and its end. The guard of a retry is read at its turn, and an
  operator releases the funds of an exhausted batch only: what happens otherwise is shown below.
\<close>

inductive payout_step :: "payout_env \<Rightarrow> payout_engine \<Rightarrow> rat \<Rightarrow> payout_engine \<Rightarrow> bool" for env where
  ps_credit: "micro a \<Longrightarrow> 0 \<le> a \<Longrightarrow>
    payout_step env e (a - getPendingAmount m e) (snd (setPendingAmount m a e))"
| ps_configure: "payout_step env e 0 (snd (configureSchedule schedule e))"
| ps_remove: "payout_step env e 0 (snd (removeSchedule m e))"
| ps_flight: "payout_step env e 0 (e\<lparr>po_evaluationInFlight := flag\<rparr>)"
| ps_skip: "payout_step env e 0 (record_audit scheduleId ActFailed ''system'' details now e)"
| ps_create: "materialise_start env schedule now e = (r, e') \<Longrightarrow> \<forall>b. r \<noteq> Inr (Some (b, True)) \<Longrightarrow> payout_step env e 0 e'"
| ps_create_settle: "materialise_start env schedule now e = (Inr (Some (b, True)), e') \<Longrightarrow>
    payout_step env e 0 (snd (settle_start (pb_id b) ''system'' now e'))"
| ps_approve: "approve_start i approver now e = (Inr True, e') \<Longrightarrow>
    payout_step env e 0 (snd (settle_start i (pa_id approver) now e'))"
| ps_retry: "find_batch i e = Some b \<Longrightarrow> retry_due now b \<Longrightarrow> retry_start i now e = (Inr False, e') \<Longrightarrow> payout_step env e 0 e'"
| ps_retry_settle: "find_batch i e = Some b \<Longrightarrow> retry_due now b \<Longrightarrow> retry_start i now e = (Inr True, e') \<Longrightarrow>
    payout_step env e 0 (snd (settle_start i ''system'' now' e'))"
| ps_finish: "find_batch i e = Some b \<Longrightarrow> pb_status b = PayoutExecuting \<Longrightarrow>
    payout_step env e 0 (snd (settle_finish env i actor result now random e))"
| ps_reject: "payout_step env e 0 (snd (rejectManualPayout env i approver now e))"
| ps_manual_retry: "payout_step env e 0 (snd (retryFailedBatch i approver now e))"
| ps_release: "attempts_spent i e \<Longrightarrow> payout_step env e 0 (snd (releaseReservedFunds env i approver now e))"

text \<open>A run, with all that it was credited.\<close>

inductive payout_run :: "payout_env \<Rightarrow> payout_engine \<Rightarrow> rat \<Rightarrow> payout_engine \<Rightarrow> bool" for env where
  run_start: "payout_run env e 0 e"
| run_step: "payout_run env e c e' \<Longrightarrow> payout_step env e' d e'' \<Longrightarrow> payout_run env e (c + d) e''"

lemma created_settles:
  assumes env: "runtime_ok env" and inv: "payout_inv env e" and r: "materialise_start env schedule now e = (Inr (Some (b, True)), e')"
  shows "payout_inv env (snd (settle_start (pb_id b) ''system'' now e')) \<and>
    money (snd (settle_start (pb_id b) ''system'' now e')) = money e"
proof -
  have a: "adds env b e e'" "\<not> pb_requiresApproval b" using materialise_result [OF env inv r] by simp_all
  have k: "payout_inv env e'" "money e' = money e" "batch_ok e' b" using adds_keeps [OF env inv a(1)] by simp_all
  have b: "find_batch (pb_id b) e' = Some b"
    unfolding find_batch_def by (rule find_distinct) (use a k(1) in \<open>simp_all add: adds_def payout_inv_def\<close>)
  then have "touched (pb_id b) b b e' e'"
    using find_update_first [of "\<lambda>c. pb_id c = pb_id b"] by (auto simp: touched_def find_batch_def update_first_same)
  from attempt_starts [OF k(1) this, of "''system''" now] a k(3) show ?thesis
    by (simp add: k(2) same_batch_def adds_def batch_ok_def truthy_def)
qed

lemma payout_step_keeps:
  assumes "runtime_ok env" "payout_step env e d e'" "payout_inv env e"
  shows "payout_inv env e' \<and> money e' = money e + d"
  using assms(2)
proof (cases rule: payout_step.cases)
  case (ps_create schedule now r)
  then show ?thesis
    using materialise_result [OF assms(1,3) ps_create(2)] adds_keeps [OF assms(1,3)] same_books_keeps [OF assms(3)]
    by (auto split: sum.splits option.splits)
qed (use assms(3) credit_keeps same_books_keeps [OF assms(3), of e'] created_settles [OF assms(1,3)] approve_keeps [OF assms(3)]
    retry_keeps [OF assms(3)] finish_keeps [OF assms(3)] reject_keeps [OF assms(1,3) surjective_pairing]
    manual_retry_keeps [OF assms(3) surjective_pairing] release_keeps [OF assms(1,3) _ surjective_pairing] in
    \<open>auto simp: configureSchedule_def removeSchedule_def same_books_def record_audit_def split: option.splits\<close>)

lemma new_engine_inv: "1 \<le> pc_maxAttempts c \<Longrightarrow> payout_inv env (new_payout_engine c) \<and> money (new_payout_engine c) = 0"
  by (simp add: payout_inv_def new_payout_engine_def money_def awaiting_def js_values_def)

lemma construct_max: "construct_engine options from_env = Inr c \<Longrightarrow> 1 \<le> pc_maxAttempts c"
  by (auto simp: construct_engine_def Let_def split: sum.splits if_splits)

lemma payout_run_inv:
  assumes "runtime_ok env" "construct_engine options from_env = Inr c" "payout_run env (new_payout_engine c) x e"
  shows "payout_inv env e \<and> money e = x"
  using assms(3)
proof (induction "new_payout_engine c" x e)
  case run_start
  then show ?case using new_engine_inv construct_max assms(2) by blast
next
  case (run_step x e d e')
  then show ?case using payout_step_keeps [OF assms(1)] by blast
qed

subsection \<open>The operations as runs\<close>

lemma payout_run_trans: "payout_run env e' y e'' \<Longrightarrow> payout_run env e x e' \<Longrightarrow> payout_run env e (x + y) e''"
proof (induction rule: payout_run.induct)
  case (run_step e c e' d e'')
  then show ?case using payout_run.run_step by (metis add.assoc)
qed simp

lemma one_step: "payout_step env e 0 e' \<Longrightarrow> payout_run env e 0 e'"
  using payout_run.run_step [OF payout_run.run_start, of env e 0 e'] by simp

lemma two_steps: "payout_step env e 0 e' \<Longrightarrow> payout_step env e' 0 e'' \<Longrightarrow> payout_run env e 0 e''"
  using payout_run.run_step [OF one_step, of env e e' 0 e''] by simp

text \<open>A settlement that starts is finished by the answer of the executor.\<close>

lemma settle_runs:
  assumes "payout_step env e0 0 (snd (settle_start i actor now e))" "find_batch i e = Some b" "pb_status b = PayoutPending" "pb_id b = i"
  shows "payout_run env e0 0 (snd (settle env i actor now e))"
proof -
  obtain b' details where
    r: "settle_start i actor now e = (Inr (Some (execution_request b')),
       emit_payout EvExecuting b' None now (record_audit i ActExecuting actor details now (write_batch b' e)))"
    and b': "b' = b\<lparr>pb_attempts := pb_attempts b + 1, pb_status := PayoutExecuting, pb_updatedAt := now\<rparr>"
    using settle_start_result [OF assms(2,3)] .
  have "touched i b b' e (write_batch b' e)" by (intro touched_write [OF assms(2)]) (simp add: same_batch_def b')
  then have "find_batch i (snd (settle_start i actor now e)) = Some b'" unfolding r by (simp add: touched_find)
  moreover have "pb_status b' = PayoutExecuting" by (simp add: b')
  ultimately show ?thesis
    using two_steps [OF assms(1) ps_finish] by (simp add: settle_def r)
qed

lemma materialiseBatch_runs:
  assumes env: "runtime_ok env" and inv: "payout_inv env e"
  shows "payout_run env e 0 (snd (materialiseBatch env schedule now e))"
proof -
  obtain r e' where r: "materialise_start env schedule now e = (r, e')" by (cases "materialise_start env schedule now e")
  show ?thesis
  proof (cases "\<exists>b. r = Inr (Some (b, True))")
    case True
    then obtain b where b: "r = Inr (Some (b, True))" ..
    have a: "adds env b e e'" using materialise_result [OF env inv r] by (simp add: b)
    have found: "find_batch (pb_id b) e' = Some b"
      unfolding find_batch_def by (rule find_distinct) (use a adds_keeps [OF env inv a] in \<open>simp_all add: adds_def payout_inv_def\<close>)
    have "pb_status b = PayoutPending" using a by (simp add: adds_def)
    then have "payout_run env e 0 (snd (settle env (pb_id b) ''system'' now e'))"
      by (intro settle_runs [OF ps_create_settle [OF r [unfolded b]] found]) simp_all
    then show ?thesis by (auto simp: materialiseBatch_def r b split: prod.splits sum.splits)
  next
    case False
    then have "payout_step env e 0 e'" using r by (intro ps_create) auto
    then show ?thesis using one_step False by (auto simp: materialiseBatch_def r split: sum.splits option.splits)
  qed
qed

lemma payout_run_keeps: "payout_run env e x e' \<Longrightarrow> runtime_ok env \<Longrightarrow> payout_inv env e \<Longrightarrow> payout_inv env e' \<and> money e' = money e + x"
  by (induction rule: payout_run.induct) (use payout_step_keeps in \<open>auto simp: add.assoc\<close>)

lemma evaluate_loop_runs:
  "runtime_ok env \<Longrightarrow> payout_inv env e \<Longrightarrow> payout_run env e 0 (snd (evaluate_loop env now ss bs e))"
proof (induction env now ss bs e rule: evaluate_loop.induct)
  case (1 env now bs e)
  show ?case by (simp add: payout_run.run_start)
next
  case (2 env now schedule ss bs e)
  obtain r e' where r: "materialiseBatch env schedule now e = (r, e')" by (cases "materialiseBatch env schedule now e")
  have run: "payout_run env e 0 e'" using materialiseBatch_runs [OF 2(4,5), of schedule now] by (simp add: r)
  have inv: "payout_inv env e'" using payout_run_keeps [OF run 2(4,5)] ..
  show ?case
  proof (cases r)
    case (Inl detail)
    let ?e = "record_audit (psc_id schedule) ActFailed ''system'' (Some detail) now e'"
    have "payout_run env e' 0 ?e" by (intro one_step ps_skip)
    from payout_run_trans [OF this run] have run': "payout_run env e 0 ?e" by simp
    moreover have "payout_inv env ?e" using payout_run_keeps [OF run' 2(4,5)] ..
    ultimately show ?thesis using 2(1) [OF r [symmetric] Inl] 2(4) payout_run_trans by (fastforce simp: r Inl)
  next
    case (Inr x)
    show ?thesis
    proof (cases x)
      case None
      from payout_run_trans [OF 2(2) [OF r [symmetric] Inr None 2(4) inv] run] show ?thesis by (simp add: r Inr None)
    next
      case (Some b)
      from payout_run_trans [OF 2(3) [OF r [symmetric] Inr Some 2(4) inv] run] show ?thesis by (simp add: r Inr Some)
    qed
  qed
qed

lemma evaluatePayouts_runs:
  assumes env: "runtime_ok env" and inv: "payout_inv env e"
  shows "payout_run env e 0 (snd (evaluatePayouts env now e))"
proof (cases "po_evaluationInFlight e")
  case True
  then show ?thesis by (simp add: evaluatePayouts_def payout_run.run_start)
next
  case False
  let ?e = "e\<lparr>po_evaluationInFlight := True\<rparr>"
  have start: "payout_run env e 0 ?e" by (intro one_step ps_flight)
  then have "payout_inv env ?e" using payout_run_keeps [OF _ env inv] by blast
  from evaluate_loop_runs [OF env this] have "payout_run env ?e 0 (snd (evaluate_loop env now (po_schedules e) [] ?e))" .
  from payout_run_trans [OF this start]
  have "payout_run env e 0 (snd (evaluate_loop env now (po_schedules e) [] ?e))" by simp
  from payout_run_trans [OF one_step [OF ps_flight] this] show ?thesis
    using False by (simp add: evaluatePayouts_def case_prod_beta)
qed

lemma approve_runs:
  assumes "payout_inv env e"
  shows "payout_run env e 0 (snd (approveManualPayout env i approver now e))"
proof -
  obtain r e' where r: "approve_start i approver now e = (r, e')" by (cases "approve_start i approver now e")
  show ?thesis
  proof (cases "r = Inr True")
    case True
    then obtain b where b: "find_batch i e' = Some b" "pb_status b = PayoutPending" "find_batch i e = Some b"
      using r by (auto simp: approve_start_def split: option.splits if_splits)
    have "pb_id b = i" using batch_of_inv [OF assms b(3)] ..
    then have "payout_run env e 0 (snd (settle env i (pa_id approver) now e'))"
      by (intro settle_runs [OF ps_approve [OF r [unfolded True]] b(1,2)])
    then show ?thesis by (auto simp: approveManualPayout_def r True split: prod.splits sum.splits)
  next
    case False
    then have "e' = e" using r by (auto simp: approve_start_def split: option.splits if_splits)
    with False show ?thesis
      by (auto simp: approveManualPayout_def r payout_run.run_start split: sum.splits bool.splits)
  qed
qed

subsection \<open>A runtime\<close>

text \<open>Identifiers of growing length, exact texts of numbers, and a rail that refuses the first attempt for one merchant.\<close>

definition payday_env :: payout_env where
  "payday_env = \<lparr>pe_uuid = (\<lambda>n. replicate n (CHR ''a'')), pe_number = (\<lambda>x. projr (formatMinor \<lfloor>x * 10 ^ 6\<rfloor> 6)),
     pe_iso = (\<lambda>_. []),
     pe_execute = (\<lambda>r. if per_attempt r = 1 \<and> per_merchantId r = ''slow'' then ExecRejected ''down'' else ExecResolved ''0xab'' None),
     pe_end = (\<lambda>_ _. 10), pe_random = (\<lambda>_ _. 1 / 2)\<rparr>"

lemma payday_runtime: "runtime_ok payday_env"
proof -
  have "text_value (pe_number payday_env x) = Some x \<and>
      (case DECIMAL_PATTERN (js_trim (pe_number payday_env x)) of None \<Rightarrow> True | Some mt \<Rightarrow> \<bar>match_shift mt\<bar> \<le> 100)"
    if x: "micro x" for x
  proof -
    obtain m where m: "x = of_int m / 10 ^ 6" using x by (auto simp: micro_def)
    then have floor: "\<lfloor>x * 10 ^ 6\<rfloor> = m" by simp
    have d: "0 \<le> (6 :: int)" "(6 :: int) \<le> 18" by simp_all
    obtain t where t: "formatMinor m 6 = Inr t" using format_shape [OF d] by metis
    then have n: "pe_number payday_env x = t" by (simp only: payday_env_def payout_env.simps floor sum.sel)
    obtain i f where "DECIMAL_PATTERN (js_trim t) =
        Some \<lparr>dm_sign = sign_text m, dm_integerPart = i, dm_fractionPart = f, dm_exponentPart = None\<rparr>" "length f = nat 6"
      using match_format [OF d t] by metis
    with parse_format(2) [OF d t] show ?thesis unfolding n by (simp add: m match_shift_def exponent_value_def)
  qed
  moreover have "inj (pe_uuid payday_env)" by (rule injI) (simp add: payday_env_def)
  ultimately show ?thesis by (simp add: runtime_ok_def)
qed

definition payday_options :: PayoutEngineOptions where
  "payday_options = \<lparr>peo_approvalThreshold = None, peo_maxAttempts = None, peo_retryBaseMs = None, peo_retryMaxMs = None,
     peo_maxBatchAmount = None, peo_allowedAssets = None\<rparr>"

definition payday_config :: payout_config where
  "payday_config = projr (construct_engine payday_options None)"

lemma payday_constructed: "construct_engine payday_options None = Inr payday_config"
  by code_simp

definition payday_schedule :: "string \<Rightarrow> string \<Rightarrow> PayoutSchedule" where
  "payday_schedule i m = \<lparr>psc_id = i, psc_merchantId = m, psc_scheduleType = PayDaily, psc_thresholdAmount = None,
     psc_preferredAsset = ''USDC'', psc_autoApproveLimit = 500\<rparr>"

text \<open>An engine that is constructed, given a schedule and credited with 100.\<close>

definition payday_start :: "string \<Rightarrow> payout_engine" where
  "payday_start m = snd (setPendingAmount m 100 (snd (configureSchedule (payday_schedule ''s'' m) (new_payout_engine payday_config))))"

definition payday_paid :: payout_engine where
  "payday_paid = snd (evaluatePayouts payday_env 5 (payday_start ''m''))"

lemma payday_run: "payout_run payday_env (new_payout_engine payday_config) 100 payday_paid"
proof -
  let ?n = "new_payout_engine payday_config"
  have micro: "micro 100" unfolding micro_def by (intro exI [of _ "100 * 10 ^ 6"]) simp
  have "payout_run payday_env ?n 0 (snd (configureSchedule (payday_schedule ''s'' ''m'') ?n))" by (intro one_step ps_configure)
  from payout_run.run_step [OF this ps_credit [OF micro, where m = "''m''"]]
  have "payout_run payday_env ?n (100 - getPendingAmount ''m'' (snd (configureSchedule (payday_schedule ''s'' ''m'') ?n))) (payday_start ''m'')"
    by (simp add: payday_start_def)
  moreover have "getPendingAmount ''m'' (snd (configureSchedule (payday_schedule ''s'' ''m'') ?n)) = 0" by code_simp
  ultimately have start: "payout_run payday_env ?n 100 (payday_start ''m'')" by simp
  then have "payout_inv payday_env (payday_start ''m'')"
    using payout_run_inv [OF payday_runtime payday_constructed] by blast
  from payout_run_trans [OF evaluatePayouts_runs [OF payday_runtime this] start] show ?thesis by (simp add: payday_paid_def)
qed

subsection \<open>Properties\<close>






text \<open>
  A payout cycle makes one batch at most, and no two batches share an identifier or the key by which
  the executor recognises a repeated request.
\<close>

lemma one_batch_per_cycle:
  assumes "runtime_ok env" "construct_engine options from_env = Inr c" "payout_run env (new_payout_engine c) credited e"
  shows "distinct (map pb_cycleKey (po_batches e)) \<and> distinct (map pb_id (po_batches e)) \<and>
     distinct (map pb_idempotencyKey (po_batches e))"
  using payout_run_inv [OF assms] by (simp add: payout_inv_def)

lemma one_batch_per_cycle_witness:
  "distinct (map pb_cycleKey (po_batches payday_paid)) \<and> length (po_batches payday_paid) = 1"
proof
  show "length (po_batches payday_paid) = 1" by code_simp
qed (use one_batch_per_cycle [OF payday_runtime payday_constructed payday_run] in blast)

text \<open>The delay of a retry: within a quarter of the doubled base delay, which is capped.\<close>

lemma backoff_within:
  assumes "0 \<le> random" "random \<le> 1" "0 < pc_retryBaseMs c" "pc_retryBaseMs c \<le> pc_retryMaxMs c" "1 \<le> attempts"
  shows "1 \<le> backoffMs c attempts random"
    and "of_int (backoffMs c attempts random) \<le>
      max 1 (min (pc_retryBaseMs c * 2 ^ nat (attempts - 1)) (pc_retryMaxMs c) * (5 / 4) + 1 / 2)"
proof -
  let ?cap = "min (pc_retryBaseMs c * 2 ^ nat (attempts - 1)) (pc_retryMaxMs c)"
  show "1 \<le> backoffMs c attempts random" by (simp add: backoffMs_def Let_def)
  have cap: "0 \<le> ?cap" using assms by simp
  have "(random * 2 - 1) * (?cap * (1 / 4)) \<le> 1 * (?cap * (1 / 4))" using assms cap by (intro mult_right_mono) simp_all
  then have "of_int (js_round (?cap + (random * 2 - 1) * (?cap * (1 / 4)))) \<le> ?cap * (5 / 4) + 1 / 2"
    unfolding js_round_def by linarith
  moreover have "backoffMs c attempts random = max 1 (js_round (?cap + (random * 2 - 1) * (?cap * (1 / 4))))"
    using assms(5) by (simp add: backoffMs_def Let_def PAYOUT_RETRY_JITTER_RATIO_def max_def)
  ultimately show "of_int (backoffMs c attempts random) \<le> max 1 (?cap * (5 / 4) + 1 / 2)"
    by (simp add: max_def)
qed

subsection \<open>What the guards leave out\<close>

text \<open>
  \<open>releaseReservedFunds\<close> accepts a failed batch that has attempts left: the batch is still retried, so the
  amount is paid and is back on the balance, from which it is paid again.
\<close>

definition payday_admin :: PayoutApprover where
  "payday_admin = \<lparr>pa_id = ''ada'', pa_role = ''admin''\<rparr>"

text \<open>The engine after a pass whose settlement failed, without its events.\<close>

definition payday_failed :: payout_engine where
  "payday_failed =
     (let b = new_batch payday_env (payday_schedule ''s'' ''slow'') 100 False ''s:slow:daily:0'' 5 (payday_start ''slow'')
      in (payday_start ''slow'')
        \<lparr>po_batches := [b\<lparr>pb_status := PayoutFailed, pb_attempts := 1, pb_errorMessage := Some ''down'',
              pb_errorCode := Some ''PAYOUT_EXECUTION_FAILED'', pb_nextAttemptAt := Some 30010, pb_updatedAt := 10\<rparr>],
          po_auditTrail :=
            [\<lparr>pau_batchId = ''po_'', pau_action = ActCreated, pau_actorId = ''system'', pau_timestamp = 5, pau_details = Some ''Auto-approved''\<rparr>,
             \<lparr>pau_batchId = ''po_'', pau_action = ActExecuting, pau_actorId = ''system'', pau_timestamp = 5, pau_details = Some ''Attempt 1 of 5''\<rparr>,
             \<lparr>pau_batchId = ''po_'', pau_action = ActFailed, pau_actorId = ''system'', pau_timestamp = 10, pau_details = Some ''down''\<rparr>],
          po_pendingAmounts := [(''slow'', 0)], po_lastMaterialisedAt := [(''s'', 5)],
          po_materialisedCycles := [(''s:slow:daily:0'', ''po_'')], po_uuids := 2\<rparr>)"

lemma payday_failed: "(snd (evaluatePayouts payday_env 5 (payday_start ''slow'')))\<lparr>po_events := []\<rparr> = payday_failed"
  by code_simp

definition payday_released :: payout_engine where
  "payday_released = snd (releaseReservedFunds payday_env ''po_'' payday_admin 20 payday_failed)"

lemma released_batch_is_paid:
  "let e = snd (retryDueBatches payday_env 100000 payday_released)
   in paid_out e = 100 \<and> awaiting e = 100"
  by code_simp

text \<open>
  \<open>retryDueBatches\<close> works through a list that was read before the first of its awaits. A batch of the
  list that a reviewer rejects meanwhile is settled all the same, with its amount given back.
\<close>

definition payday_rejected :: payout_engine where
  "payday_rejected = snd (rejectManualPayout payday_env ''po_'' payday_admin 70000
     (snd (retryFailedBatch ''po_'' payday_admin 60000 payday_failed)))"

lemma rejected_batch_is_paid:
  "let due = map pb_id (filter (retry_due 50000) (po_batches payday_failed));
       e = snd (retry_loop payday_env 80000 due [] payday_rejected)
   in map pb_rejectedBy (po_batches payday_rejected) = [Some ''ada''] \<and> paid_out e = 100 \<and> awaiting e = 100"
  by code_simp

text \<open>The parts of a cycle key are joined with colons, which identifiers may contain.\<close>

lemma cycle_keys_collide:
  "fst (cycleKeyFor (payday_schedule ''a:b'' ''c'') now e) = fst (cycleKeyFor (payday_schedule ''a'' ''b:c'') now e')"
  by (simp add: cycleKeyFor_def payday_schedule_def SCHEDULE_PERIOD_MS_def)

end
