(* ===== verification/Matching.thy ===== *)
theory Matching
  imports Js Money "HOL-Library.Product_Lexorder"
begin

text \<open>
  \<open>backend/src/services/payment-reconciliation/matching-engine.ts\<close>: the records of the own ledger are
  matched with those of a bank statement, a provider or a chain, first by reference, then by amount and
  time, then by closeness. Times are milliseconds, amounts rational. The two pools are \<open>Map\<close>s from the
  identifiers of the records that are not claimed yet.
\<close>

subsection \<open>Records\<close>

datatype ReconciliationSource = RsInternal | RsBankStatement | RsPspSettlement | RsOnchain

text \<open>The engine does not make manual matches.\<close>

datatype MatchType = ExactMatch | FuzzyMatch | ManualMatch

record MatchCandidate =
  mc_id :: string
  mc_source :: ReconciliationSource
  mc_externalRef :: "string option"
  mc_paymentId :: "string option"
  mc_amount :: rat
  mc_currency :: string
  mc_occurredAt :: int

record MatchResult =
  mr_internalId :: string
  mr_externalId :: string
  mr_matchType :: MatchType
  mr_confidence :: rat
  mr_amountDelta :: rat

record MatchingOptions =
  mo_amountTolerancePct :: "rat option"
  mo_exactDateWindowMs :: "int option"
  mo_fuzzyDateWindowMs :: "int option"
  mo_minFuzzyConfidence :: "rat option"

record matching_settings =
  ms_amountTolerancePct :: rat
  ms_exactDateWindowMs :: int
  ms_fuzzyDateWindowMs :: int
  ms_minFuzzyConfidence :: rat

record MatchingOutcome =
  mx_matches :: "MatchResult list"
  mx_unmatchedInternal :: "MatchCandidate list"
  mx_unmatchedExternal :: "MatchCandidate list"

definition DEFAULT_MATCHING_OPTIONS :: matching_settings where
  "DEFAULT_MATCHING_OPTIONS =
     \<lparr>ms_amountTolerancePct = 2 / 100, ms_exactDateWindowMs = 5 * 60 * 1000,
      ms_fuzzyDateWindowMs = 3 * 24 * 60 * 60 * 1000, ms_minFuzzyConfidence = 3 / 10\<rparr>"

text \<open>\<open>{ ...DEFAULT_MATCHING_OPTIONS, ...options }\<close>\<close>

definition matching_options :: "MatchingOptions \<Rightarrow> matching_settings" where
  "matching_options options =
     \<lparr>ms_amountTolerancePct = js_or (mo_amountTolerancePct options) (ms_amountTolerancePct DEFAULT_MATCHING_OPTIONS),
      ms_exactDateWindowMs = js_or (mo_exactDateWindowMs options) (ms_exactDateWindowMs DEFAULT_MATCHING_OPTIONS),
      ms_fuzzyDateWindowMs = js_or (mo_fuzzyDateWindowMs options) (ms_fuzzyDateWindowMs DEFAULT_MATCHING_OPTIONS),
      ms_minFuzzyConfidence = js_or (mo_minFuzzyConfidence options) (ms_minFuzzyConfidence DEFAULT_MATCHING_OPTIONS)\<rparr>"

subsection \<open>Scores\<close>

definition AMOUNT_EPSILON :: rat where
  "AMOUNT_EPSILON = 1 / 10 ^ 8"

definition amountsEqual :: "rat \<Rightarrow> rat \<Rightarrow> bool" where
  "amountsEqual a b \<longleftrightarrow> \<bar>a - b\<bar> < AMOUNT_EPSILON"

definition clamp :: "rat \<Rightarrow> rat \<Rightarrow> rat \<Rightarrow> rat" where
  "clamp n low high = min high (max low n)"

definition amountScoreFor :: "rat \<Rightarrow> rat \<Rightarrow> rat" where
  "amountScoreFor deltaPct tolerancePct =
     (if deltaPct \<le> 0 then 1 else if tolerancePct \<le> 0 then 0 else clamp (1 - deltaPct / tolerancePct) 0 1)"

definition dateScoreFor :: "int \<Rightarrow> int \<Rightarrow> rat" where
  "dateScoreFor deltaMs windowMs =
     (if deltaMs \<le> 0 then 1 else if windowMs \<le> 0 then 0 else clamp (1 - of_int deltaMs / of_int windowMs) 0 1)"

definition makeMatch :: "MatchCandidate \<Rightarrow> MatchCandidate \<Rightarrow> MatchType \<Rightarrow> rat \<Rightarrow> MatchResult" where
  "makeMatch internal external matchType confidence =
     \<lparr>mr_internalId = mc_id internal, mr_externalId = mc_id external, mr_matchType = matchType,
      mr_confidence = round_decimals confidence 4, mr_amountDelta = round_decimals (mc_amount external - mc_amount internal) 8\<rparr>"

definition date_delta :: "MatchCandidate \<Rightarrow> MatchCandidate \<Rightarrow> int" where
  "date_delta ext int_rec = \<bar>mc_occurredAt ext - mc_occurredAt int_rec\<bar>"

subsection \<open>The passes\<close>

record matching_state =
  mst_matches :: "MatchResult list"
  mst_internal :: "(string, MatchCandidate) jsmap"
  mst_external :: "(string, MatchCandidate) jsmap"

definition by_ident :: "MatchCandidate list \<Rightarrow> (string, MatchCandidate) jsmap" where
  "by_ident rs = fold (\<lambda>r m. js_set (mc_id r) r m) rs []"

definition claim :: "MatchCandidate \<Rightarrow> MatchCandidate \<Rightarrow> MatchType \<Rightarrow> rat \<Rightarrow> matching_state \<Rightarrow> matching_state" where
  "claim int_rec ext matchType confidence st =
     st\<lparr>mst_matches := mst_matches st @ [makeMatch int_rec ext matchType confidence],
        mst_internal := js_del (mc_id int_rec) (mst_internal st),
        mst_external := js_del (mc_id ext) (mst_external st)\<rparr>"

definition same_reference :: "MatchCandidate \<Rightarrow> MatchCandidate \<Rightarrow> bool" where
  "same_reference int_rec ext \<longleftrightarrow>
     mc_currency ext = mc_currency int_rec \<and> truthy (mc_externalRef ext) \<and> mc_externalRef ext = mc_externalRef int_rec \<and>
     amountsEqual (mc_amount ext) (mc_amount int_rec)"

definition reference_step :: "MatchCandidate \<Rightarrow> matching_state \<Rightarrow> matching_state" where
  "reference_step int_rec st =
     (if js_get (mst_internal st) (mc_id int_rec) = None \<or> \<not> truthy (mc_externalRef int_rec) then st
      else
        (case find (same_reference int_rec) (js_values (mst_external st)) of
           None \<Rightarrow> st
         | Some candidate \<Rightarrow> claim int_rec candidate ExactMatch 1 st))"

definition same_amount :: "matching_settings \<Rightarrow> MatchCandidate \<Rightarrow> MatchCandidate \<Rightarrow> bool" where
  "same_amount opts int_rec ext \<longleftrightarrow>
     mc_currency ext = mc_currency int_rec \<and> amountsEqual (mc_amount ext) (mc_amount int_rec) \<and>
     date_delta ext int_rec \<le> ms_exactDateWindowMs opts"

definition amount_step :: "matching_settings \<Rightarrow> MatchCandidate \<Rightarrow> matching_state \<Rightarrow> matching_state" where
  "amount_step opts int_rec st =
     (if js_get (mst_internal st) (mc_id int_rec) = None then st
      else
        (case sort_key (\<lambda>ext. date_delta ext int_rec) (filter (same_amount opts int_rec) (js_values (mst_external st))) of
           [] \<Rightarrow> st
         | candidate # _ \<Rightarrow> claim int_rec candidate ExactMatch 1 st))"

text \<open>The share by which the amounts differ; \<open>None\<close> is \<open>Infinity\<close>.\<close>

definition amount_delta_pct :: "MatchCandidate \<Rightarrow> MatchCandidate \<Rightarrow> rat option" where
  "amount_delta_pct int_rec ext =
     (if mc_amount int_rec = 0 then (if mc_amount ext = 0 then Some 0 else None)
      else Some (\<bar>mc_amount ext - mc_amount int_rec\<bar> / \<bar>mc_amount int_rec\<bar>))"

text \<open>The confidence of a pair that can be matched.\<close>

definition pair_confidence :: "matching_settings \<Rightarrow> MatchCandidate \<Rightarrow> MatchCandidate \<Rightarrow> rat option" where
  "pair_confidence opts int_rec ext =
     (if mc_currency ext \<noteq> mc_currency int_rec then None
      else
        (case amount_delta_pct int_rec ext of
           None \<Rightarrow> None
         | Some pct \<Rightarrow>
             if ms_amountTolerancePct opts < pct then None
             else if ms_fuzzyDateWindowMs opts < date_delta ext int_rec then None
             else
               let confidence = amountScoreFor pct (ms_amountTolerancePct opts) * (7 / 10) +
                     dateScoreFor (date_delta ext int_rec) (ms_fuzzyDateWindowMs opts) * (3 / 10)
               in if confidence < ms_minFuzzyConfidence opts then None else Some confidence))"

record match_pair =
  mp_internal :: MatchCandidate
  mp_external :: MatchCandidate
  mp_confidence :: rat

definition viable_pairs :: "matching_settings \<Rightarrow> matching_state \<Rightarrow> match_pair list" where
  "viable_pairs opts st =
     concat (map (\<lambda>int_rec.
       concat (map (\<lambda>ext. case pair_confidence opts int_rec ext of
            None \<Rightarrow> []
          | Some c \<Rightarrow> [\<lparr>mp_internal = int_rec, mp_external = ext, mp_confidence = c\<rparr>])
         (js_values (mst_external st))))
       (js_values (mst_internal st)))"

text \<open>Stable, by confidence downwards and then by the distance in time.\<close>

definition best_first :: "match_pair list \<Rightarrow> match_pair list" where
  "best_first = sort_key (\<lambda>p. (- mp_confidence p, date_delta (mp_external p) (mp_internal p)))"

definition pair_step :: "match_pair \<Rightarrow> matching_state \<Rightarrow> matching_state" where
  "pair_step p st =
     (if js_get (mst_internal st) (mc_id (mp_internal p)) = None \<or> js_get (mst_external st) (mc_id (mp_external p)) = None
      then st
      else claim (mp_internal p) (mp_external p) FuzzyMatch (mp_confidence p) st)"

definition reference_pass :: "matching_state \<Rightarrow> matching_state" where
  "reference_pass st = fold reference_step (js_values (mst_internal st)) st"

definition amount_pass :: "matching_settings \<Rightarrow> matching_state \<Rightarrow> matching_state" where
  "amount_pass opts st = fold (amount_step opts) (js_values (mst_internal st)) st"

definition fuzzy_pass :: "matching_settings \<Rightarrow> matching_state \<Rightarrow> matching_state" where
  "fuzzy_pass opts st = fold pair_step (best_first (viable_pairs opts st)) st"

definition initial_matching :: "MatchCandidate list \<Rightarrow> MatchCandidate list \<Rightarrow> matching_state" where
  "initial_matching internal external =
     \<lparr>mst_matches = [], mst_internal = by_ident internal, mst_external = by_ident external\<rparr>"

definition runMatchingEngine ::
  "MatchCandidate list \<Rightarrow> MatchCandidate list \<Rightarrow> MatchingOptions \<Rightarrow> MatchingOutcome" where
  "runMatchingEngine internal external options =
     (let opts = matching_options options;
          st = fuzzy_pass opts (amount_pass opts (reference_pass (initial_matching internal external)))
      in \<lparr>mx_matches = mst_matches st, mx_unmatchedInternal = js_values (mst_internal st),
          mx_unmatchedExternal = js_values (mst_external st)\<rparr>)"

end
