(* ===== verification/MatchingProps.thy ===== *)
theory MatchingProps
  imports Matching "HOL-Library.Multiset"
begin

text \<open>
  Properties of the matching engine: every record is claimed once or left over, every match is one that
  its kind allows, and no two records are left that would rather be matched with each other.
\<close>

subsection \<open>The pools\<close>

definition pool :: "(string, MatchCandidate) jsmap \<Rightarrow> bool" where
  "pool m \<longleftrightarrow> js_wf m \<and> js_all (\<lambda>k r. mc_id r = k) m"

lemma pool_get: "pool m \<Longrightarrow> r \<in> set (js_values m) \<longleftrightarrow> js_get m (mc_id r) = Some r"
  by (auto simp: pool_def in_js_values entries_sat_def)

lemma pool_del: "pool m \<Longrightarrow> pool (js_del k m)"
  by (auto simp: pool_def entries_sat_def split: if_splits)

lemma pool_ids: "pool m \<Longrightarrow> map mc_id (js_values m) = js_keys m"
  by (force simp: pool_def js_values_def js_keys_def entries_sat_def js_wf_def map_of_eq_Some_iff)

lemma keys_del: "js_wf m \<Longrightarrow> js_get m k \<noteq> None \<Longrightarrow> mset (js_keys m) = add_mset k (mset (js_keys (js_del k m)))"
proof -
  assume m: "js_wf m" "js_get m k \<noteq> None"
  then have "js_keys (js_del k m) = remove1 k (js_keys m)"
    by (simp add: js_keys_def delete_keys js_wf_def distinct_remove1_removeAll)
  moreover have "k \<in> set (js_keys m)" using m(2) by simp
  ultimately show ?thesis by (simp add: js_keys_def)
qed

lemma pool_gone:
  assumes "pool m" "set (js_values m) \<subseteq> set rs" "r \<in> set rs" "distinct (map mc_id rs)" "r \<notin> set (js_values m)"
  shows "mc_id r \<notin> set (js_keys m)"
proof
  assume "mc_id r \<in> set (js_keys m)"
  then have "mc_id r \<in> mc_id ` set (js_values m)" by (simp only: pool_ids [OF assms(1), symmetric] set_map)
  then obtain v where v: "v \<in> set (js_values m)" "mc_id r = mc_id v" by blast
  have "inj_on mc_id (set rs)" using assms(4) by (simp add: distinct_map)
  from inj_onD [OF this v(2) assms(3)] v(1) assms(2,5) show False by blast
qed

lemma by_ident_distinct: "distinct (map mc_id rs) \<Longrightarrow> by_ident rs = map (\<lambda>r. (mc_id r, r)) rs"
proof (induction rs rule: rev_induct)
  case (snoc r rs)
  have fresh: "k \<notin> fst ` set m \<Longrightarrow> AList.update k v m = m @ [(k, v)]" for k :: string and v :: MatchCandidate and m
    by (induction m) auto
  from snoc show ?case by (auto simp: by_ident_def image_image intro!: fresh)
qed (simp add: by_ident_def)

lemma by_ident_pool:
  assumes "distinct (map mc_id rs)"
  shows "pool (by_ident rs)" "js_values (by_ident rs) = rs" "js_keys (by_ident rs) = map mc_id rs"
proof -
  show "js_values (by_ident rs) = rs" "js_keys (by_ident rs) = map mc_id rs"
    by (simp_all add: by_ident_distinct [OF assms] js_values_def js_keys_def comp_def)
  show "pool (by_ident rs)"
    using assms by (auto simp: by_ident_distinct [OF assms] pool_def js_wf_def js_keys_def comp_def entries_sat_def dest: map_of_SomeD)
qed

subsection \<open>Confidence\<close>

lemma clamp_range: "0 \<le> clamp x 0 1" "clamp x 0 1 \<le> 1"
  by (simp_all add: clamp_def)

lemma score_range: "0 \<le> amountScoreFor d t" "amountScoreFor d t \<le> 1" "0 \<le> dateScoreFor n w" "dateScoreFor n w \<le> 1"
  using clamp_range by (simp_all add: amountScoreFor_def dateScoreFor_def)

lemma confidence_range:
  assumes "pair_confidence opts i e = Some c"
  shows "0 \<le> c" "c \<le> 1"
proof -
  obtain d t n w where c: "c = amountScoreFor d t * (7 / 10) + dateScoreFor n w * (3 / 10)"
    using assms by (auto simp: pair_confidence_def Let_def split: if_splits option.splits)
  show "0 \<le> c" "c \<le> 1" unfolding c using score_range(1,2) [of d t] score_range(3,4) [of n w] by linarith+
qed

lemma round_unit: "round_decimals 0 4 = 0" "round_decimals 1 4 = 1"
  by code_simp+

text \<open>What a match of each kind must be.\<close>

definition justified :: "matching_settings \<Rightarrow> MatchCandidate \<Rightarrow> MatchCandidate \<Rightarrow> MatchResult \<Rightarrow> bool" where
  "justified opts i e r \<longleftrightarrow>
     mr_internalId r = mc_id i \<and> mr_externalId r = mc_id e \<and> mc_currency e = mc_currency i \<and>
     mr_amountDelta r = round_decimals (mc_amount e - mc_amount i) 8 \<and>
     (case mr_matchType r of
        ExactMatch \<Rightarrow> mr_confidence r = 1 \<and> \<bar>mc_amount e - mc_amount i\<bar> < 1 / 10 ^ 8 \<and>
          (truthy (mc_externalRef i) \<and> mc_externalRef e = mc_externalRef i \<or>
           \<bar>mc_occurredAt e - mc_occurredAt i\<bar> \<le> ms_exactDateWindowMs opts)
      | FuzzyMatch \<Rightarrow> 0 \<le> mr_confidence r \<and> mr_confidence r \<le> 1 \<and>
          round_decimals (ms_minFuzzyConfidence opts) 4 \<le> mr_confidence r \<and>
          \<bar>mc_amount e - mc_amount i\<bar> \<le> ms_amountTolerancePct opts * \<bar>mc_amount i\<bar> \<and>
          \<bar>mc_occurredAt e - mc_occurredAt i\<bar> \<le> ms_fuzzyDateWindowMs opts
      | ManualMatch \<Rightarrow> False)"

lemma fuzzy_justified:
  assumes "pair_confidence opts i e = Some c"
  shows "justified opts i e (makeMatch i e FuzzyMatch c)"
proof -
  obtain pct where pct: "amount_delta_pct i e = Some pct" "pct \<le> ms_amountTolerancePct opts"
    "mc_currency e = mc_currency i" "date_delta e i \<le> ms_fuzzyDateWindowMs opts" "ms_minFuzzyConfidence opts \<le> c"
    using assms by (auto simp: pair_confidence_def Let_def split: if_splits option.splits)
  have "\<bar>mc_amount e - mc_amount i\<bar> = pct * \<bar>mc_amount i\<bar>"
    using pct(1) by (auto simp: amount_delta_pct_def split: if_splits)
  also have "\<dots> \<le> ms_amountTolerancePct opts * \<bar>mc_amount i\<bar>" using pct(2) by (intro mult_right_mono) simp_all
  finally have "\<bar>mc_amount e - mc_amount i\<bar> \<le> ms_amountTolerancePct opts * \<bar>mc_amount i\<bar>" .
  moreover have "0 \<le> round_decimals c 4" "round_decimals c 4 \<le> 1"
    using round_mono [of 0 c 4] round_mono [of c 1 4] confidence_range [OF assms] round_unit by simp_all
  ultimately show ?thesis
    using pct round_mono [OF pct(5), of 4] by (simp add: justified_def makeMatch_def date_delta_def)
qed

lemma exact_justified:
  "truthy (mc_externalRef i) \<and> same_reference i e \<or> same_amount opts i e \<Longrightarrow> justified opts i e (makeMatch i e ExactMatch 1)"
  by (auto simp: justified_def makeMatch_def same_reference_def same_amount_def amountsEqual_def AMOUNT_EPSILON_def
      date_delta_def round_unit)

subsection \<open>The invariant of the passes\<close>

definition matching_inv ::
  "matching_settings \<Rightarrow> (string, MatchCandidate) jsmap \<Rightarrow> (string, MatchCandidate) jsmap \<Rightarrow> matching_state \<Rightarrow> bool" where
  "matching_inv opts I E st \<longleftrightarrow>
     pool I \<and> pool E \<and> pool (mst_internal st) \<and> pool (mst_external st) \<and>
     set (js_values (mst_internal st)) \<subseteq> set (js_values I) \<and> set (js_values (mst_external st)) \<subseteq> set (js_values E) \<and>
     mset (map mr_internalId (mst_matches st)) + mset (js_keys (mst_internal st)) = mset (js_keys I) \<and>
     mset (map mr_externalId (mst_matches st)) + mset (js_keys (mst_external st)) = mset (js_keys E) \<and>
     (\<forall>r\<in>set (mst_matches st). \<exists>i\<in>set (js_values I). \<exists>e\<in>set (js_values E). justified opts i e r)"

lemma values_del: "pool m \<Longrightarrow> set (js_values (js_del k m)) = {r \<in> set (js_values m). mc_id r \<noteq> k}"
  by (auto simp: pool_get pool_del split: if_splits)

lemma claim_inv:
  assumes inv: "matching_inv opts I E st" and i: "i \<in> set (js_values (mst_internal st))" and e: "e \<in> set (js_values (mst_external st))"
    and j: "justified opts i e (makeMatch i e ty c)"
  shows "matching_inv opts I E (claim i e ty c st)"
proof -
  have "js_get (mst_internal st) (mc_id i) \<noteq> None" "js_get (mst_external st) (mc_id e) \<noteq> None"
    using inv i e by (simp_all add: matching_inv_def pool_get)
  then have "mset (js_keys (mst_internal st)) = add_mset (mc_id i) (mset (js_keys (js_del (mc_id i) (mst_internal st))))"
    "mset (js_keys (mst_external st)) = add_mset (mc_id e) (mset (js_keys (js_del (mc_id e) (mst_external st))))"
    using inv by (auto simp: matching_inv_def pool_def intro!: keys_del)
  then show ?thesis
    using inv i e j by (auto simp: matching_inv_def claim_def pool_del values_del makeMatch_def)
qed

text \<open>An exact pass claims, for each record in turn, one of the partners that are left, if there is any.\<close>

locale exact_pass =
  fixes R :: "MatchCandidate \<Rightarrow> MatchCandidate \<Rightarrow> bool"
    and step :: "MatchCandidate \<Rightarrow> matching_state \<Rightarrow> matching_state"
  assumes stays: "js_get (mst_internal st) (mc_id i) = None \<or> (\<forall>e\<in>set (js_values (mst_external st)). \<not> R i e) \<Longrightarrow> step i st = st"
    and claims: "js_get (mst_internal st) (mc_id i) \<noteq> None \<Longrightarrow> e \<in> set (js_values (mst_external st)) \<Longrightarrow> R i e \<Longrightarrow>
      \<exists>e'\<in>set (js_values (mst_external st)). R i e' \<and> step i st = claim i e' ExactMatch 1 st"
begin

lemma step_cases:
  obtains "step i st = st" "js_get (mst_internal st) (mc_id i) = None \<or> (\<forall>e\<in>set (js_values (mst_external st)). \<not> R i e)"
  | e where "js_get (mst_internal st) (mc_id i) \<noteq> None" "e \<in> set (js_values (mst_external st))" "R i e"
      "step i st = claim i e ExactMatch 1 st"
  using stays claims by metis

text \<open>The pass keeps the invariant, and no record it went through is left with a partner that is left.\<close>

lemma pass_keeps:
  assumes "\<And>i e. R i e \<Longrightarrow> justified opts i e (makeMatch i e ExactMatch 1)"
  shows "matching_inv opts I E st \<Longrightarrow> set is \<subseteq> set (js_values I) \<Longrightarrow>
     matching_inv opts I E (fold step is st) \<and>
     set (js_values (mst_internal (fold step is st))) \<subseteq> set (js_values (mst_internal st)) \<and>
     set (js_values (mst_external (fold step is st))) \<subseteq> set (js_values (mst_external st)) \<and>
     set (mst_matches st) \<subseteq> set (mst_matches (fold step is st)) \<and>
     (\<forall>r\<in>set (mst_matches (fold step is st)). r \<in> set (mst_matches st) \<or> mr_confidence r = 1) \<and>
     (\<forall>i\<in>set is. \<forall>e\<in>set (js_values (mst_external (fold step is st))).
        i \<in> set (js_values (mst_internal (fold step is st))) \<longrightarrow> \<not> R i e)"
proof (induction "is" arbitrary: st)
  case (Cons i "is")
  note inv = Cons.prems(1)
  have pools: "pool I" "pool (mst_internal st)" "pool (mst_external st)" "set (js_values (mst_internal st)) \<subseteq> set (js_values I)"
    using inv by (simp_all add: matching_inv_def)
  have known: "js_get I (mc_id i) = Some i" using Cons.prems(2) pools(1) by (simp add: pool_get)
  have present: "i \<in> set (js_values (mst_internal st))" if "js_get (mst_internal st) (mc_id i) \<noteq> None"
  proof -
    from that obtain v where v: "js_get (mst_internal st) (mc_id i) = Some v" by blast
    then have "mc_id v = mc_id i" "v \<in> set (js_values (mst_internal st))"
      using pools(2) by (auto simp: pool_def entries_sat_def in_js_values)
    then show ?thesis using v known pools by (metis option.sel pool_get subsetD)
  qed
  show ?case
  proof (cases rule: step_cases [of i st])
    case 1
    then show ?thesis using Cons.IH [OF inv] Cons.prems(2) pools(2) by (auto simp: pool_get)
  next
    case (2 e)
    have "matching_inv opts I E (step i st)"
      unfolding 2(4) by (intro claim_inv [OF inv present [OF 2(1)] 2(2)] assms 2(3))
    moreover have "set (js_values (mst_internal (step i st))) = {r \<in> set (js_values (mst_internal st)). mc_id r \<noteq> mc_id i}"
      "set (js_values (mst_external (step i st))) \<subseteq> set (js_values (mst_external st))"
      "set (mst_matches st) \<subseteq> set (mst_matches (step i st))"
      "\<forall>r\<in>set (mst_matches (step i st)). r \<in> set (mst_matches st) \<or> mr_confidence r = 1"
      using pools by (auto simp: 2(4) claim_def values_del makeMatch_def round_unit)
    ultimately show ?thesis using Cons.IH [of "step i st"] Cons.prems(2) by fastforce
  qed
qed simp

end

interpretation by_reference: exact_pass "\<lambda>i e. truthy (mc_externalRef i) \<and> same_reference i e" reference_step
proof
  fix st i e
  show "reference_step i st = st" if "js_get (mst_internal st) (mc_id i) = None \<or>
      (\<forall>e\<in>set (js_values (mst_external st)). \<not> (truthy (mc_externalRef i) \<and> same_reference i e))"
    using that by (auto simp: reference_step_def dest: find_SomeD split: option.splits)
  show "\<exists>e'\<in>set (js_values (mst_external st)). (truthy (mc_externalRef i) \<and> same_reference i e') \<and>
      reference_step i st = claim i e' ExactMatch 1 st"
    if a: "js_get (mst_internal st) (mc_id i) \<noteq> None" "e \<in> set (js_values (mst_external st))" "truthy (mc_externalRef i) \<and> same_reference i e"
  proof -
    obtain c where "find (same_reference i) (js_values (mst_external st)) = Some c"
      using a by (cases "find (same_reference i) (js_values (mst_external st))") (auto simp: find_None_iff)
    then show ?thesis using a(1,3) by (auto simp: reference_step_def dest: find_SomeD)
  qed
qed

interpretation by_amount: exact_pass "same_amount opts" "amount_step opts" for opts
proof
  fix st i e
  show "amount_step opts i st = st" if "js_get (mst_internal st) (mc_id i) = None \<or>
      (\<forall>e\<in>set (js_values (mst_external st)). \<not> same_amount opts i e)"
    using that by (auto simp: amount_step_def filter_empty_conv filter_False)
  show "\<exists>e'\<in>set (js_values (mst_external st)). same_amount opts i e' \<and> amount_step opts i st = claim i e' ExactMatch 1 st"
    if a: "js_get (mst_internal st) (mc_id i) \<noteq> None" "e \<in> set (js_values (mst_external st))" "same_amount opts i e"
  proof -
    let ?xs = "sort_key (\<lambda>ext. date_delta ext i) (filter (same_amount opts i) (js_values (mst_external st)))"
    have set: "set ?xs = {e \<in> set (js_values (mst_external st)). same_amount opts i e}" by simp
    then obtain c cs where xs: "?xs = c # cs" using a(2,3) by (cases ?xs) auto
    then have "c \<in> set ?xs" by simp
    then show ?thesis using a(1) xs unfolding set by (auto simp: amount_step_def)
  qed
qed

subsection \<open>The fuzzy pass\<close>

lemma viable_pair:
  "p \<in> set (viable_pairs opts st) \<longleftrightarrow>
     mp_internal p \<in> set (js_values (mst_internal st)) \<and> mp_external p \<in> set (js_values (mst_external st)) \<and>
     pair_confidence opts (mp_internal p) (mp_external p) = Some (mp_confidence p)"
  by (cases p) (auto simp: viable_pairs_def split: option.splits)

text \<open>A pair of a list is claimed.\<close>

definition claimed :: "match_pair \<Rightarrow> matching_state \<Rightarrow> bool" where
  "claimed p st \<longleftrightarrow> makeMatch (mp_internal p) (mp_external p) FuzzyMatch (mp_confidence p) \<in> set (mst_matches st)"

lemma pair_step_cases:
  obtains "pair_step p st = st"
      "js_get (mst_internal st) (mc_id (mp_internal p)) = None \<or> js_get (mst_external st) (mc_id (mp_external p)) = None"
    | "js_get (mst_internal st) (mc_id (mp_internal p)) \<noteq> None" "js_get (mst_external st) (mc_id (mp_external p)) \<noteq> None"
      "pair_step p st = claim (mp_internal p) (mp_external p) FuzzyMatch (mp_confidence p) st"
  unfolding pair_step_def
  by (cases "js_get (mst_internal st) (mc_id (mp_internal p)) = None \<or> js_get (mst_external st) (mc_id (mp_external p)) = None") auto

text \<open>
  After the pairs of a list were tried in order, every one of them is claimed, or shares a record with an
  earlier one that is.
\<close>

lemma pairs_tried:
  assumes "matching_inv opts I E st" "\<forall>p\<in>set ps. p \<in> set (viable_pairs opts st)"
  defines "st' \<equiv> fold pair_step ps st"
  shows "matching_inv opts I E st' \<and> set (mst_matches st) \<subseteq> set (mst_matches st') \<and>
     set (js_values (mst_internal st')) \<subseteq> set (js_values (mst_internal st)) \<and>
     set (js_values (mst_external st')) \<subseteq> set (js_values (mst_external st)) \<and>
     (\<forall>i\<in>set (js_values (mst_internal st)) - set (js_values (mst_internal st')). \<exists>q\<in>set ps. claimed q st' \<and> mc_id (mp_internal q) = mc_id i) \<and>
     (\<forall>e\<in>set (js_values (mst_external st)) - set (js_values (mst_external st')). \<exists>q\<in>set ps. claimed q st' \<and> mc_id (mp_external q) = mc_id e)"
  using assms(2) unfolding st'_def
proof (induction ps rule: rev_induct)
  case Nil
  with assms(1) show ?case by simp
next
  case (snoc p ps)
  let ?t = "fold pair_step ps st"
  have IH: "matching_inv opts I E ?t" "set (mst_matches st) \<subseteq> set (mst_matches ?t)"
    "set (js_values (mst_internal ?t)) \<subseteq> set (js_values (mst_internal st))"
    "set (js_values (mst_external ?t)) \<subseteq> set (js_values (mst_external st))"
    "\<forall>i\<in>set (js_values (mst_internal st)) - set (js_values (mst_internal ?t)). \<exists>q\<in>set ps. claimed q ?t \<and> mc_id (mp_internal q) = mc_id i"
    "\<forall>e\<in>set (js_values (mst_external st)) - set (js_values (mst_external ?t)). \<exists>q\<in>set ps. claimed q ?t \<and> mc_id (mp_external q) = mc_id e"
    using snoc by simp_all
  have pools: "pool (mst_internal st)" "pool (mst_external st)" "pool (mst_internal ?t)" "pool (mst_external ?t)"
    using assms(1) IH(1) by (simp_all add: matching_inv_def)
  have p: "mp_internal p \<in> set (js_values (mst_internal st))" "mp_external p \<in> set (js_values (mst_external st))"
    "pair_confidence opts (mp_internal p) (mp_external p) = Some (mp_confidence p)"
    using snoc.prems by (simp_all add: viable_pair)
  show ?case
  proof (cases rule: pair_step_cases [of p ?t])
    case 1
    then show ?thesis using IH by auto
  next
    case 2
    have there: "r \<in> set (js_values m)" if "pool m" "pool n" "set (js_values m) \<subseteq> set (js_values n)" "r \<in> set (js_values n)"
      "js_get m (mc_id r) \<noteq> None" for r m n
    proof -
      from that(5) obtain v where v: "js_get m (mc_id r) = Some v" by blast
      with that(1) have "mc_id v = mc_id r" by (auto simp: pool_def entries_sat_def)
      moreover from this v that(1) have "v \<in> set (js_values m)" by (simp add: pool_get)
      ultimately show ?thesis using that by (metis option.sel pool_get subsetD)
    qed
    have ends: "mp_internal p \<in> set (js_values (mst_internal ?t))" "mp_external p \<in> set (js_values (mst_external ?t))"
      using there [OF pools(3,1) IH(3) p(1) 2(1)] there [OF pools(4,2) IH(4) p(2) 2(2)] .
    have inv: "matching_inv opts I E (pair_step p ?t)"
      unfolding 2(3) by (intro claim_inv [OF IH(1) ends] fuzzy_justified p(3))
    have new: "claimed p (pair_step p ?t)" and old: "\<And>q. claimed q ?t \<Longrightarrow> claimed q (pair_step p ?t)"
      by (simp_all add: claimed_def 2(3) claim_def)
    have left: "set (js_values (mst_internal (pair_step p ?t))) = {r \<in> set (js_values (mst_internal ?t)). mc_id r \<noteq> mc_id (mp_internal p)}"
      "set (js_values (mst_external (pair_step p ?t))) = {r \<in> set (js_values (mst_external ?t)). mc_id r \<noteq> mc_id (mp_external p)}"
      and more: "set (mst_matches ?t) \<subseteq> set (mst_matches (pair_step p ?t))"
      using pools by (auto simp: 2(3) claim_def values_del)
    have "\<exists>q\<in>set (ps @ [p]). claimed q (pair_step p ?t) \<and> mc_id (mp_internal q) = mc_id i"
      if "i \<in> set (js_values (mst_internal st)) - set (js_values (mst_internal (pair_step p ?t)))" for i
      using that IH(5) new old unfolding left by (cases "mc_id i = mc_id (mp_internal p)") force+
    moreover have "\<exists>q\<in>set (ps @ [p]). claimed q (pair_step p ?t) \<and> mc_id (mp_external q) = mc_id e"
      if "e \<in> set (js_values (mst_external st)) - set (js_values (mst_external (pair_step p ?t)))" for e
      using that IH(6) new old unfolding left by (cases "mc_id e = mc_id (mp_external p)") force+
    moreover have "set (js_values (mst_internal (pair_step p ?t))) \<subseteq> set (js_values (mst_internal st))"
      "set (js_values (mst_external (pair_step p ?t))) \<subseteq> set (js_values (mst_external st))"
      using IH(3,4) unfolding left by blast+
    moreover have "fold pair_step (ps @ [p]) st = pair_step p ?t" by simp
    ultimately show ?thesis using IH(2) more inv by (simp only: ) blast
  qed
qed

lemma pair_step_grows: "set (mst_matches st) \<subseteq> set (mst_matches (fold pair_step ps st))"
  by (induction ps arbitrary: st) (fastforce simp: pair_step_def claim_def)+

text \<open>A pair that can be matched is matched, or one of its records is in a match at least as good.\<close>

lemma best_first_stable:
  assumes inv: "matching_inv opts I E st" and p: "p \<in> set (viable_pairs opts st)"
  shows "\<exists>q. claimed q (fuzzy_pass opts st) \<and> mp_confidence p \<le> mp_confidence q \<and>
     (mc_id (mp_internal q) = mc_id (mp_internal p) \<or> mc_id (mp_external q) = mc_id (mp_external p))"
proof -
  let ?ps = "best_first (viable_pairs opts st)"
  have "p \<in> set ?ps" using p by (simp add: best_first_def)
  then obtain as bs where split: "?ps = as @ p # bs" by (meson split_list)
  let ?t = "fold pair_step as st" and ?u = "fold pair_step (as @ [p]) st"
  have viable: "\<forall>q\<in>set ?ps. q \<in> set (viable_pairs opts st)" by (simp add: best_first_def)
  have "sorted (map (\<lambda>p. (- mp_confidence p, date_delta (mp_external p) (mp_internal p))) ?ps)" by (simp add: best_first_def)
  then have better: "mp_confidence p \<le> mp_confidence q" if "q \<in> set (as @ [p])" for q
    using that unfolding split by (auto simp: sorted_append less_eq_prod_simp)
  have "\<forall>q\<in>set (as @ [p]). q \<in> set (viable_pairs opts st)" using viable unfolding split by simp
  note tried = pairs_tried [OF inv this]
  have pools: "pool (mst_internal ?u)" "pool (mst_external ?u)" using tried by (auto simp: matching_inv_def)
  have ends: "mp_internal p \<in> set (js_values (mst_internal st))" "mp_external p \<in> set (js_values (mst_external st))"
    using p by (simp_all add: viable_pair)
  have "mp_internal p \<notin> set (js_values (mst_internal ?u)) \<or> mp_external p \<notin> set (js_values (mst_external ?u))"
  proof (cases rule: pair_step_cases [of p ?t])
    case 1
    then show ?thesis using pools by (auto simp: pool_get)
  next
    case 2
    then have "js_get (mst_internal ?u) (mc_id (mp_internal p)) = None" by (simp add: claim_def)
    then show ?thesis using pools by (simp add: pool_get)
  qed
  then obtain q where q: "q \<in> set (as @ [p])" "claimed q ?u"
    "mc_id (mp_internal q) = mc_id (mp_internal p) \<or> mc_id (mp_external q) = mc_id (mp_external p)"
    using tried ends by (metis DiffI)
  have "fuzzy_pass opts st = fold pair_step bs ?u" by (simp add: fuzzy_pass_def split)
  then have "claimed q (fuzzy_pass opts st)" using q(2) pair_step_grows [of ?u bs] by (auto simp: claimed_def)
  then show ?thesis using better [OF q(1)] q(3) by blast
qed

subsection \<open>The engine\<close>

definition after_exact :: "MatchCandidate list \<Rightarrow> MatchCandidate list \<Rightarrow> MatchingOptions \<Rightarrow> matching_state" where
  "after_exact internal external options =
     amount_pass (matching_options options) (reference_pass (initial_matching internal external))"

lemma after_exact_inv:
  fixes options :: MatchingOptions
  assumes d: "distinct (map mc_id internal)" "distinct (map mc_id external)"
  defines "st \<equiv> after_exact internal external options" and "opts \<equiv> matching_options options"
  shows "matching_inv opts (by_ident internal) (by_ident external) st"
    and "\<forall>r\<in>set (mst_matches st). mr_confidence r = 1"
    and "\<forall>i\<in>set (js_values (mst_internal st)). \<forall>e\<in>set (js_values (mst_external st)).
       \<not> (truthy (mc_externalRef i) \<and> same_reference i e) \<and> \<not> same_amount opts i e"
proof -
  let ?I = "by_ident internal" and ?E = "by_ident external"
  let ?s0 = "initial_matching internal external"
  let ?s1 = "reference_pass ?s0"
  have s0: "matching_inv opts ?I ?E ?s0"
    using by_ident_pool [OF d(1)] by_ident_pool [OF d(2)] by (simp add: matching_inv_def initial_matching_def)
  note r = by_reference.pass_keeps [OF exact_justified [OF disjI1], OF _ s0, of "js_values (mst_internal ?s0)", folded reference_pass_def]
  have s1: "matching_inv opts ?I ?E ?s1" "\<forall>r\<in>set (mst_matches ?s1). mr_confidence r = 1"
    "\<forall>i\<in>set (js_values (mst_internal ?s1)). \<forall>e\<in>set (js_values (mst_external ?s1)). \<not> (truthy (mc_externalRef i) \<and> same_reference i e)"
    using r by (auto simp: initial_matching_def)
  note a = by_amount.pass_keeps [OF exact_justified [OF disjI2], OF _ s1(1), of opts "js_values (mst_internal ?s1)", folded amount_pass_def]
  have sub: "set (js_values (mst_internal ?s1)) \<subseteq> set (js_values ?I)" using s1(1) by (simp add: matching_inv_def)
  have st: "st = amount_pass opts ?s1" by (simp add: st_def after_exact_def opts_def)
  show "matching_inv opts ?I ?E st" "\<forall>r\<in>set (mst_matches st). mr_confidence r = 1"
    unfolding st using a sub s1(2) by auto
  show "\<forall>i\<in>set (js_values (mst_internal st)). \<forall>e\<in>set (js_values (mst_external st)).
       \<not> (truthy (mc_externalRef i) \<and> same_reference i e) \<and> \<not> same_amount opts i e"
    unfolding st using a sub s1(3) by blast
qed

lemma engine_result:
  fixes options :: MatchingOptions
  assumes d: "distinct (map mc_id internal)" "distinct (map mc_id external)"
  defines "opts \<equiv> matching_options options" and "st \<equiv> after_exact internal external options"
  shows "runMatchingEngine internal external options =
      \<lparr>mx_matches = mst_matches (fuzzy_pass opts st), mx_unmatchedInternal = js_values (mst_internal (fuzzy_pass opts st)),
       mx_unmatchedExternal = js_values (mst_external (fuzzy_pass opts st))\<rparr>"
    and "matching_inv opts (by_ident internal) (by_ident external) (fuzzy_pass opts st)"
    and "set (mst_matches st) \<subseteq> set (mst_matches (fuzzy_pass opts st))"
    and "set (js_values (mst_internal (fuzzy_pass opts st))) \<subseteq> set (js_values (mst_internal st))"
    and "set (js_values (mst_external (fuzzy_pass opts st))) \<subseteq> set (js_values (mst_external st))"
proof -
  have inv: "matching_inv opts (by_ident internal) (by_ident external) st"
    unfolding opts_def st_def by (rule after_exact_inv(1) [OF d])
  have "\<forall>p\<in>set (best_first (viable_pairs opts st)). p \<in> set (viable_pairs opts st)" by (simp add: best_first_def)
  from pairs_tried [OF inv this, folded fuzzy_pass_def]
  show "matching_inv opts (by_ident internal) (by_ident external) (fuzzy_pass opts st)"
    "set (mst_matches st) \<subseteq> set (mst_matches (fuzzy_pass opts st))"
    "set (js_values (mst_internal (fuzzy_pass opts st))) \<subseteq> set (js_values (mst_internal st))"
    "set (js_values (mst_external (fuzzy_pass opts st))) \<subseteq> set (js_values (mst_external st))" by simp_all
qed (simp add: runMatchingEngine_def after_exact_def opts_def st_def Let_def)

subsection \<open>Properties\<close>

text \<open>Two pools for the witnesses.\<close>

definition ledger_record :: "string \<Rightarrow> ReconciliationSource \<Rightarrow> string option \<Rightarrow> rat \<Rightarrow> int \<Rightarrow> MatchCandidate" where
  "ledger_record i source ref amount t =
     \<lparr>mc_id = i, mc_source = source, mc_externalRef = ref, mc_paymentId = None, mc_amount = amount, mc_currency = ''USD'',
      mc_occurredAt = t\<rparr>"

definition ledger_internal :: "MatchCandidate list" where
  "ledger_internal = [ledger_record ''a'' RsInternal (Some ''x1'') 10 0, ledger_record ''b'' RsInternal None 100 0,
     ledger_record ''c'' RsInternal None 50 0]"

definition ledger_external :: "MatchCandidate list" where
  "ledger_external = [ledger_record ''p'' RsBankStatement None 101 1000, ledger_record ''q'' RsBankStatement None (1001 / 10) 2000,
     ledger_record ''r'' RsBankStatement (Some ''x1'') 10 9000000]"

definition ledger_options :: MatchingOptions where
  "ledger_options = \<lparr>mo_amountTolerancePct = None, mo_exactDateWindowMs = None, mo_fuzzyDateWindowMs = None, mo_minFuzzyConfidence = None\<rparr>"

lemma ledger_distinct: "distinct (map mc_id ledger_internal)" "distinct (map mc_id ledger_external)"
  by code_simp+

text \<open>
  C29: Matching claims every record of either side at most once and loses none: the claimed and the
  unmatched identifiers together are those of the pool, each once.
\<close>

theorem matching_partitions_records:
  assumes "distinct (map mc_id internal)" "distinct (map mc_id external)"
  shows "let out = runMatchingEngine internal external options
    in mset (map mr_internalId (mx_matches out) @ map mc_id (mx_unmatchedInternal out)) = mset (map mc_id internal) \<and>
       mset (map mr_externalId (mx_matches out) @ map mc_id (mx_unmatchedExternal out)) = mset (map mc_id external) \<and>
       set (mx_unmatchedInternal out) \<subseteq> set internal \<and> set (mx_unmatchedExternal out) \<subseteq> set external"
  using engine_result(2) [OF assms, of options] by_ident_pool [OF assms(1)] by_ident_pool [OF assms(2)] pool_ids
  unfolding engine_result(1) [OF assms] Let_def matching_inv_def by simp

theorem matching_partitions_records_witness:
  "mset (map mr_internalId (mx_matches (runMatchingEngine ledger_internal ledger_external ledger_options)) @
     map mc_id (mx_unmatchedInternal (runMatchingEngine ledger_internal ledger_external ledger_options))) = {#''a'', ''b'', ''c''#}"
  using matching_partitions_records [OF ledger_distinct, of ledger_options] by (simp add: Let_def ledger_internal_def ledger_record_def)

text \<open>
  Every match joins a record of each side in the same currency: an exact one has confidence 1, equal
  amounts and the same reference or close times; a fuzzy one stays within the tolerance, the window and
  the least confidence.
\<close>

lemma matches_are_justified:
  assumes "distinct (map mc_id internal)" "distinct (map mc_id external)"
  shows "\<forall>r\<in>set (mx_matches (runMatchingEngine internal external options)).
    \<exists>i\<in>set internal. \<exists>e\<in>set external. justified (matching_options options) i e r"
  using engine_result(2) [OF assms, of options] by_ident_pool [OF assms(1)] by_ident_pool [OF assms(2)]
  unfolding engine_result(1) [OF assms] matching_inv_def by simp

lemma matches_are_justified_witness:
  "\<exists>r. r \<in> set (mx_matches (runMatchingEngine ledger_internal ledger_external ledger_options)) \<and>
     (\<exists>i\<in>set ledger_internal. \<exists>e\<in>set ledger_external. justified (matching_options ledger_options) i e r)"
proof -
  have "map mr_internalId (mx_matches (runMatchingEngine ledger_internal ledger_external ledger_options)) = [''a'', ''b'']" by code_simp
  then obtain r where "r \<in> set (mx_matches (runMatchingEngine ledger_internal ledger_external ledger_options))" by fastforce
  with matches_are_justified [OF ledger_distinct, of ledger_options] show ?thesis by blast
qed

text \<open>
  No pair is left over or blocked: records that are both unmatched have neither a common reference nor
  equal amounts at close times, and of every pair that could be matched with some confidence one record
  is in a match with at least that confidence.
\<close>

lemma matching_is_stable:
  assumes d: "distinct (map mc_id internal)" "distinct (map mc_id external)" and i: "i \<in> set internal" and e: "e \<in> set external"
  shows "let out = runMatchingEngine internal external options
    in (i \<in> set (mx_unmatchedInternal out) \<and> e \<in> set (mx_unmatchedExternal out) \<longrightarrow>
          \<not> (truthy (mc_externalRef i) \<and> same_reference i e) \<and> \<not> same_amount (matching_options options) i e) \<and>
       (\<forall>c. pair_confidence (matching_options options) i e = Some c \<longrightarrow>
          (\<exists>r\<in>set (mx_matches out). (mr_internalId r = mc_id i \<or> mr_externalId r = mc_id e) \<and>
             round_decimals c 4 \<le> mr_confidence r))"
proof -
  let ?opts = "matching_options options" and ?st = "after_exact internal external options"
  note inv = after_exact_inv [OF d, of options] and res = engine_result [OF d, of options]
  have pools: "pool (mst_internal ?st)" "pool (mst_external ?st)" using inv(1) by (simp_all add: matching_inv_def)
  have ids: "mset (map mr_internalId (mst_matches ?st)) + mset (js_keys (mst_internal ?st)) = mset (map mc_id internal)"
    "mset (map mr_externalId (mst_matches ?st)) + mset (js_keys (mst_external ?st)) = mset (map mc_id external)"
    "set (js_values (mst_internal ?st)) \<subseteq> set internal" "set (js_values (mst_external ?st)) \<subseteq> set external"
    using inv(1) by_ident_pool [OF d(1)] by_ident_pool [OF d(2)] by (simp_all add: matching_inv_def)
  have "\<exists>r\<in>set (mst_matches (fuzzy_pass ?opts ?st)). (mr_internalId r = mc_id i \<or> mr_externalId r = mc_id e) \<and>
      round_decimals c 4 \<le> mr_confidence r" if c: "pair_confidence ?opts i e = Some c" for c
  proof (cases "i \<in> set (js_values (mst_internal ?st)) \<and> e \<in> set (js_values (mst_external ?st))")
    case True
    let ?p = "\<lparr>mp_internal = i, mp_external = e, mp_confidence = c\<rparr>"
    have "?p \<in> set (viable_pairs ?opts ?st)" using True c by (simp add: viable_pair)
    from best_first_stable [OF inv(1) this] obtain q where q: "claimed q (fuzzy_pass ?opts ?st)" "c \<le> mp_confidence q"
      "mc_id (mp_internal q) = mc_id i \<or> mc_id (mp_external q) = mc_id e" by auto
    show ?thesis
      using q(3) round_mono [OF q(2), of 4] by (intro bexI [OF _ q(1) [unfolded claimed_def]]) (simp add: makeMatch_def)
  next
    case False
    have "set (map mr_internalId (mst_matches ?st)) \<union> set (js_keys (mst_internal ?st)) = set (map mc_id internal)"
      "set (map mr_externalId (mst_matches ?st)) \<union> set (js_keys (mst_external ?st)) = set (map mc_id external)"
      using arg_cong [OF ids(1), of set_mset] arg_cong [OF ids(2), of set_mset]
      by (simp_all only: set_mset_union set_mset_mset)
    moreover have "mc_id i \<in> set (map mc_id internal)" "mc_id e \<in> set (map mc_id external)" using i e by simp_all
    ultimately have "mc_id i \<in> set (map mr_internalId (mst_matches ?st)) \<or> mc_id e \<in> set (map mr_externalId (mst_matches ?st))"
      using False pool_gone [OF pools(1) ids(3) i d(1)] pool_gone [OF pools(2) ids(4) e d(2)] by blast
    moreover have "round_decimals c 4 \<le> 1" using round_mono [of c 1 4] confidence_range [OF c] round_unit by simp
    ultimately show ?thesis using inv(2) res(3) by fastforce
  qed
  then show ?thesis using inv(3) res(4,5) unfolding res(1) Let_def MatchingOutcome.simps by blast
qed

lemma matching_is_stable_witness:
  "\<exists>r\<in>set (mx_matches (runMatchingEngine ledger_internal ledger_external ledger_options)).
     mr_internalId r = ''b'' \<or> mr_externalId r = ''p''"
proof -
  let ?i = "ledger_record ''b'' RsInternal None 100 0" and ?e = "ledger_record ''p'' RsBankStatement None 101 1000"
  have "?i \<in> set ledger_internal" "?e \<in> set ledger_external" by (simp_all add: ledger_internal_def ledger_external_def)
  note stable = matching_is_stable [OF ledger_distinct this, of ledger_options]
  have "pair_confidence (matching_options ledger_options) ?i ?e \<noteq> None" by code_simp
  then obtain c where "pair_confidence (matching_options ledger_options) ?i ?e = Some c" by blast
  with stable have "\<exists>r\<in>set (mx_matches (runMatchingEngine ledger_internal ledger_external ledger_options)).
      mr_internalId r = mc_id ?i \<or> mr_externalId r = mc_id ?e" unfolding Let_def by blast
  then show ?thesis by (simp add: ledger_record_def)
qed

end
