(* ===== verification/Withdrawals.thy ===== *)
theory Withdrawals
  imports DecimalMoney
begin

text \<open>
  \<open>backend/src/services/withdrawal-allowlist.ts\<close>: withdrawals of a wallet go to addresses of its allow-list,
  or wait for approvers, and are limited in number and amount. The module keeps two \<open>Map\<close>s, of the
  configurations and of the requests. Amounts and limits are rational, times milliseconds; the texts of
  numbers and \<open>randomUUID\<close> are arguments, and so is the clock, which is read once for a call.
\<close>

record AllowlistEntry =
  al_address :: string
  al_label :: "string option"
  al_addedAt :: int
  al_addedBy :: string

record VelocityLimits =
  vl_maxAmountPerDay :: rat
  vl_maxAmountPerHour :: rat
  vl_maxCountPerHour :: rat

definition DEFAULT_VELOCITY_LIMITS :: VelocityLimits where
  "DEFAULT_VELOCITY_LIMITS = \<lparr>vl_maxAmountPerDay = 50000, vl_maxAmountPerHour = 10000, vl_maxCountPerHour = 5\<rparr>"

record WalletWithdrawalConfig =
  wc_walletId :: string
  wc_allowlist :: "AllowlistEntry list"
  wc_approvalThreshold :: rat
  wc_approvers :: "string list"
  wc_velocityLimits :: VelocityLimits

datatype WithdrawalStatus = WdPendingApproval | WdApproved | WdExecuted | WdRejected | WdBlockedVelocity

primrec withdrawal_status_text :: "WithdrawalStatus \<Rightarrow> string" where
  "withdrawal_status_text WdPendingApproval = ''pending_approval''"
| "withdrawal_status_text WdApproved = ''approved''"
| "withdrawal_status_text WdExecuted = ''executed''"
| "withdrawal_status_text WdRejected = ''rejected''"
| "withdrawal_status_text WdBlockedVelocity = ''blocked_velocity''"

record WithdrawalRequest =
  wr_id :: string
  wr_walletId :: string
  wr_toAddress :: string
  wr_amount :: rat
  wr_currency :: string
  wr_requestedBy :: string
  wr_status :: WithdrawalStatus
  wr_isAllowlisted :: bool
  wr_approvals :: "string list"
  wr_rejections :: "string list"
  wr_createdAt :: int
  wr_updatedAt :: int
  wr_executedTxHash :: "string option"
  wr_blockReason :: "string option"

record withdrawal_store =
  wd_configs :: "(string, WalletWithdrawalConfig) jsmap"
  wd_requests :: "(string, WithdrawalRequest) jsmap"
  wd_uuids :: nat

definition resetWithdrawalAllowlistStore :: "withdrawal_store \<Rightarrow> withdrawal_store" where
  "resetWithdrawalAllowlistStore s = s\<lparr>wd_configs := [], wd_requests := []\<rparr>"

definition new_withdrawal_store :: withdrawal_store where
  "new_withdrawal_store = \<lparr>wd_configs = [], wd_requests = [], wd_uuids = 0\<rparr>"

text \<open>\<open>randomUUID\<close> and the text of a number.\<close>

record withdrawal_env =
  we_uuid :: "nat \<Rightarrow> string"
  we_number :: "rat \<Rightarrow> string"

type_synonym WithdrawalApprovalError = string

type_synonym 'a withdrawal_op = "(withdrawal_store, WithdrawalApprovalError, 'a) op"

subsection \<open>Configuration\<close>

definition fresh_config :: "string \<Rightarrow> WalletWithdrawalConfig" where
  "fresh_config walletId =
     \<lparr>wc_walletId = walletId, wc_allowlist = [], wc_approvalThreshold = 1, wc_approvers = [],
      wc_velocityLimits = DEFAULT_VELOCITY_LIMITS\<rparr>"

definition getOrCreateConfig :: "string \<Rightarrow> withdrawal_store \<Rightarrow> WalletWithdrawalConfig \<times> withdrawal_store" where
  "getOrCreateConfig walletId s =
     (case js_get (wd_configs s) walletId of
        Some cfg \<Rightarrow> (cfg, s)
      | None \<Rightarrow> (fresh_config walletId, s\<lparr>wd_configs := js_set walletId (fresh_config walletId) (wd_configs s)\<rparr>))"

text \<open>\<open>Partial<VelocityLimits>\<close>\<close>

record velocity_update =
  vu_maxAmountPerDay :: "rat option"
  vu_maxAmountPerHour :: "rat option"
  vu_maxCountPerHour :: "rat option"

definition update_limits :: "velocity_update \<Rightarrow> VelocityLimits \<Rightarrow> VelocityLimits" where
  "update_limits u v =
     \<lparr>vl_maxAmountPerDay = js_or (vu_maxAmountPerDay u) (vl_maxAmountPerDay v),
      vl_maxAmountPerHour = js_or (vu_maxAmountPerHour u) (vl_maxAmountPerHour v),
      vl_maxCountPerHour = js_or (vu_maxCountPerHour u) (vl_maxCountPerHour v)\<rparr>"

record wallet_params =
  wp_approvalThreshold :: "rat option"
  wp_approvers :: "string list option"
  wp_velocityLimits :: "velocity_update option"

definition configureWallet ::
  "string \<Rightarrow> wallet_params \<Rightarrow> withdrawal_store \<Rightarrow> WalletWithdrawalConfig \<times> withdrawal_store" where
  "configureWallet walletId params s =
     (let (cfg, s) = getOrCreateConfig walletId s;
          cfg = cfg\<lparr>wc_approvalThreshold := js_or (wp_approvalThreshold params) (wc_approvalThreshold cfg),
                wc_approvers := js_or (wp_approvers params) (wc_approvers cfg),
                wc_velocityLimits := (case wp_velocityLimits params of None \<Rightarrow> wc_velocityLimits cfg
                  | Some u \<Rightarrow> update_limits u (wc_velocityLimits cfg))\<rparr>
      in (cfg, s\<lparr>wd_configs := js_set walletId cfg (wd_configs s)\<rparr>))"

definition getWalletConfig :: "string \<Rightarrow> withdrawal_store \<Rightarrow> WalletWithdrawalConfig \<times> withdrawal_store" where
  "getWalletConfig = getOrCreateConfig"

definition same_address :: "string \<Rightarrow> AllowlistEntry \<Rightarrow> bool" where
  "same_address address e \<longleftrightarrow> to_lower (al_address e) = to_lower address"

definition addToAllowlist ::
  "string \<Rightarrow> string \<Rightarrow> string \<Rightarrow> string option \<Rightarrow> int \<Rightarrow> withdrawal_store \<Rightarrow> AllowlistEntry \<times> withdrawal_store" where
  "addToAllowlist walletId address addedBy label now s =
     (let (cfg, s) = getOrCreateConfig walletId s
      in case find (same_address address) (wc_allowlist cfg) of
        Some existing \<Rightarrow> (existing, s)
      | None \<Rightarrow>
          let entry = \<lparr>al_address = address, al_label = label, al_addedAt = now, al_addedBy = addedBy\<rparr>
          in (entry, s\<lparr>wd_configs := js_set walletId (cfg\<lparr>wc_allowlist := wc_allowlist cfg @ [entry]\<rparr>) (wd_configs s)\<rparr>))"

definition removeFromAllowlist :: "string \<Rightarrow> string \<Rightarrow> withdrawal_store \<Rightarrow> bool \<times> withdrawal_store" where
  "removeFromAllowlist walletId address s =
     (let (cfg, s) = getOrCreateConfig walletId s;
          kept = filter (\<lambda>e. \<not> same_address address e) (wc_allowlist cfg)
      in (length kept < length (wc_allowlist cfg),
          s\<lparr>wd_configs := js_set walletId (cfg\<lparr>wc_allowlist := kept\<rparr>) (wd_configs s)\<rparr>))"

definition isAllowlisted :: "string \<Rightarrow> string \<Rightarrow> withdrawal_store \<Rightarrow> bool \<times> withdrawal_store" where
  "isAllowlisted walletId address s =
     (let (cfg, s) = getOrCreateConfig walletId s in (list_ex (same_address address) (wc_allowlist cfg), s))"

subsection \<open>Velocity\<close>

definition HOUR_MS :: int where
  "HOUR_MS = 60 * 60 * 1000"

definition DAY_MS_velocity :: int where
  "DAY_MS_velocity = 24 * HOUR_MS"

definition executedWithdrawalsSince :: "string \<Rightarrow> int \<Rightarrow> withdrawal_store \<Rightarrow> WithdrawalRequest list" where
  "executedWithdrawalsSince walletId sinceMs s =
     filter (\<lambda>w. wr_walletId w = walletId \<and> wr_status w = WdExecuted \<and> sinceMs \<le> wr_createdAt w) (js_values (wd_requests s))"

text \<open>The reason when the withdrawal is not allowed.\<close>

definition velocity_reason :: "withdrawal_env \<Rightarrow> VelocityLimits \<Rightarrow> string \<Rightarrow> rat \<Rightarrow> int \<Rightarrow> withdrawal_store \<Rightarrow> string option" where
  "velocity_reason env limits walletId amount now s =
     (let lastHour = executedWithdrawalsSince walletId (now - HOUR_MS) s;
          lastDay = executedWithdrawalsSince walletId (now - DAY_MS_velocity) s;
          hourAmount = sum_list (map wr_amount lastHour) + amount;
          dayAmount = sum_list (map wr_amount lastDay) + amount
      in if vl_maxCountPerHour limits < of_nat (length lastHour + 1)
         then Some (''Exceeds max '' @ we_number env (vl_maxCountPerHour limits) @ '' withdrawals per hour'')
         else if vl_maxAmountPerHour limits < hourAmount
         then Some (''Exceeds hourly withdrawal limit of '' @ we_number env (vl_maxAmountPerHour limits))
         else if vl_maxAmountPerDay limits < dayAmount
         then Some (''Exceeds daily withdrawal limit of '' @ we_number env (vl_maxAmountPerDay limits))
         else None)"

record VelocityCheckResult =
  vc_allowed :: bool
  vc_reason :: "string option"

definition checkVelocity ::
  "withdrawal_env \<Rightarrow> string \<Rightarrow> rat \<Rightarrow> int \<Rightarrow> withdrawal_store \<Rightarrow> VelocityCheckResult \<times> withdrawal_store" where
  "checkVelocity env walletId amount now s =
     (let (cfg, s) = getOrCreateConfig walletId s;
          reason = velocity_reason env (wc_velocityLimits cfg) walletId amount now s
      in (\<lparr>vc_allowed = (reason = None), vc_reason = reason\<rparr>, s))"

subsection \<open>Requests\<close>

record withdrawal_params =
  wi_walletId :: string
  wi_toAddress :: string
  wi_amount :: rat
  wi_currency :: string
  wi_requestedBy :: string

definition put_request :: "WithdrawalRequest \<Rightarrow> withdrawal_store \<Rightarrow> withdrawal_store" where
  "put_request r s = s\<lparr>wd_requests := js_set (wr_id r) r (wd_requests s)\<rparr>"

definition createWithdrawalRequest ::
  "withdrawal_env \<Rightarrow> withdrawal_params \<Rightarrow> int \<Rightarrow> withdrawal_store \<Rightarrow> WithdrawalRequest \<times> withdrawal_store" where
  "createWithdrawalRequest env params now s =
     (let (cfg, s) = getOrCreateConfig (wi_walletId params) s;
          (allowlisted, s) = isAllowlisted (wi_walletId params) (wi_toAddress params) s;
          (velocity, s) = checkVelocity env (wi_walletId params) (wi_amount params) now s;
          request = \<lparr>wr_id = we_uuid env (wd_uuids s), wr_walletId = wi_walletId params, wr_toAddress = wi_toAddress params,
            wr_amount = wi_amount params, wr_currency = wi_currency params, wr_requestedBy = wi_requestedBy params,
            wr_status = WdPendingApproval, wr_isAllowlisted = allowlisted, wr_approvals = [], wr_rejections = [],
            wr_createdAt = now, wr_updatedAt = now, wr_executedTxHash = None, wr_blockReason = None\<rparr>;
          s = s\<lparr>wd_uuids := wd_uuids s + 1\<rparr>;
          request = (if \<not> vc_allowed velocity then request\<lparr>wr_status := WdBlockedVelocity, wr_blockReason := vc_reason velocity\<rparr>
            else if allowlisted \<and> wc_approvalThreshold cfg \<le> 1 then request\<lparr>wr_status := WdApproved\<rparr>
            else request)
      in (request, put_request request s))"

definition getWithdrawalRequest :: "string \<Rightarrow> withdrawal_store \<Rightarrow> WithdrawalRequest option" where
  "getWithdrawalRequest i s = js_get (wd_requests s) i"

definition listWithdrawalRequests :: "string option \<Rightarrow> withdrawal_store \<Rightarrow> WithdrawalRequest list" where
  "listWithdrawalRequests walletId s =
     (if truthy walletId then filter (\<lambda>w. Some (wr_walletId w) = walletId) (js_values (wd_requests s))
      else js_values (wd_requests s))"

definition assertAuthorizedApprover :: "WalletWithdrawalConfig \<Rightarrow> string \<Rightarrow> WithdrawalApprovalError option" where
  "assertAuthorizedApprover config approver =
     (if wc_approvers config = [] then Some ''No approvers are configured for this wallet''
      else if approver \<notin> set (wc_approvers config)
        then Some ([CHR 0x27] @ approver @ [CHR 0x27] @ '' is not an authorized approver for this wallet'')
      else None)"

text \<open>The request in a status, or the error of the operation \<open>verb\<close>.\<close>

definition request_in :: "WithdrawalStatus \<Rightarrow> string \<Rightarrow> string \<Rightarrow> withdrawal_store \<Rightarrow> WithdrawalApprovalError + WithdrawalRequest" where
  "request_in status verb i s =
     (case js_get (wd_requests s) i of
        None \<Rightarrow> Inl ''Withdrawal request not found''
      | Some request \<Rightarrow>
          if wr_status request \<noteq> status
          then Inl (''Cannot '' @ verb @ '' a request in status '' @ [CHR 0x27] @ withdrawal_status_text (wr_status request) @ [CHR 0x27])
          else Inr request)"

definition approveWithdrawal :: "string \<Rightarrow> string \<Rightarrow> int \<Rightarrow> WithdrawalRequest withdrawal_op" where
  "approveWithdrawal i approver now s =
     (case request_in WdPendingApproval ''approve'' i s of
        Inl err \<Rightarrow> (Inl err, s)
      | Inr request \<Rightarrow>
          let (cfg, s) = getOrCreateConfig (wr_walletId request) s
          in case assertAuthorizedApprover cfg approver of
            Some err \<Rightarrow> (Inl err, s)
          | None \<Rightarrow>
              let request = (if approver \<in> set (wr_approvals request) then request
                    else request\<lparr>wr_approvals := wr_approvals request @ [approver]\<rparr>);
                  request = (if wc_approvalThreshold cfg \<le> of_nat (length (wr_approvals request))
                    then request\<lparr>wr_status := WdApproved\<rparr> else request);
                  request = request\<lparr>wr_updatedAt := now\<rparr>
              in (Inr request, put_request request s))"

definition rejectWithdrawal :: "string \<Rightarrow> string \<Rightarrow> int \<Rightarrow> WithdrawalRequest withdrawal_op" where
  "rejectWithdrawal i approver now s =
     (case request_in WdPendingApproval ''reject'' i s of
        Inl err \<Rightarrow> (Inl err, s)
      | Inr request \<Rightarrow>
          let (cfg, s) = getOrCreateConfig (wr_walletId request) s
          in case assertAuthorizedApprover cfg approver of
            Some err \<Rightarrow> (Inl err, s)
          | None \<Rightarrow>
              let request = request\<lparr>wr_rejections := wr_rejections request @ [approver], wr_status := WdRejected, wr_updatedAt := now\<rparr>
              in (Inr request, put_request request s))"

definition markExecuted :: "string \<Rightarrow> string \<Rightarrow> int \<Rightarrow> WithdrawalRequest withdrawal_op" where
  "markExecuted i txHash now s =
     (case request_in WdApproved ''execute'' i s of
        Inl err \<Rightarrow> (Inl err, s)
      | Inr request \<Rightarrow>
          let request = request\<lparr>wr_status := WdExecuted, wr_executedTxHash := Some txHash, wr_updatedAt := now\<rparr>
          in (Inr request, put_request request s))"

end
