(* ===== verification/WithdrawalProps.thy ===== *)
theory WithdrawalProps
  imports Withdrawals
begin

text \<open>
  Properties of withdrawals in every sequence of calls: a request only moves along its life cycle, what
  is approved was on the allow-list or has its quorum of approvers, and withdrawals that are made one
  after the other stay within the limits of every hour and day.
\<close>

subsection \<open>Steps\<close>

inductive wd_step :: "withdrawal_env \<Rightarrow> withdrawal_store \<Rightarrow> withdrawal_store \<Rightarrow> bool" for env where
  wd_configure: "wd_step env s (snd (configureWallet walletId params s))"
| wd_config: "wd_step env s (snd (getWalletConfig walletId s))"
| wd_add: "wd_step env s (snd (addToAllowlist walletId address addedBy label now s))"
| wd_remove: "wd_step env s (snd (removeFromAllowlist walletId address s))"
| wd_listed: "wd_step env s (snd (isAllowlisted walletId address s))"
| wd_check: "wd_step env s (snd (checkVelocity env walletId amount now s))"
| wd_create: "wd_step env s (snd (createWithdrawalRequest env rparams now s))"
| wd_approve: "wd_step env s (snd (approveWithdrawal i approver now s))"
| wd_reject: "wd_step env s (snd (rejectWithdrawal i approver now s))"
| wd_execute: "wd_step env s (snd (markExecuted i txHash now s))"

abbreviation wd_run :: "withdrawal_env \<Rightarrow> withdrawal_store \<Rightarrow> withdrawal_store \<Rightarrow> bool" where
  "wd_run env \<equiv> (wd_step env)\<^sup>*\<^sup>*"

lemma requests_config [simp]:
  "wd_requests (snd (getOrCreateConfig w s)) = wd_requests s" "wd_uuids (snd (getOrCreateConfig w s)) = wd_uuids s"
  by (simp_all add: getOrCreateConfig_def split: option.splits)

lemma config_result:
  obtains s1 cfg where "getOrCreateConfig w s = (cfg, s1)" "wd_requests s1 = wd_requests s" "wd_uuids s1 = wd_uuids s"
    "getOrCreateConfig w s1 = (cfg, s1)" "js_get (wd_configs s1) w = Some cfg"
    "js_get (wd_configs s) w = Some cfg \<and> s1 = s \<or> js_get (wd_configs s) w = None \<and> cfg = fresh_config w"
  by (cases "js_get (wd_configs s) w") (auto simp: getOrCreateConfig_def)

text \<open>The limits of a wallet.\<close>

definition limits_of :: "string \<Rightarrow> withdrawal_store \<Rightarrow> VelocityLimits" where
  "limits_of w s = (case js_get (wd_configs s) w of None \<Rightarrow> DEFAULT_VELOCITY_LIMITS | Some cfg \<Rightarrow> wc_velocityLimits cfg)"

definition authorised :: "string \<Rightarrow> string \<Rightarrow> withdrawal_store \<Rightarrow> bool" where
  "authorised w a s \<longleftrightarrow> (\<exists>cfg. js_get (wd_configs s) w = Some cfg \<and> a \<in> set (wc_approvers cfg))"

text \<open>The destination is listed, and one approval would do.\<close>

definition listed :: "WithdrawalRequest \<Rightarrow> withdrawal_store \<Rightarrow> bool" where
  "listed r s \<longleftrightarrow> (\<exists>cfg. js_get (wd_configs s) (wr_walletId r) = Some cfg \<and> wc_approvalThreshold cfg \<le> 1 \<and>
     list_ex (same_address (wr_toAddress r)) (wc_allowlist cfg))"

definition quorum :: "WithdrawalRequest \<Rightarrow> withdrawal_store \<Rightarrow> bool" where
  "quorum r s \<longleftrightarrow> (\<exists>cfg. js_get (wd_configs s) (wr_walletId r) = Some cfg \<and> wr_approvals r \<noteq> [] \<and>
     wc_approvalThreshold cfg \<le> of_nat (length (wr_approvals r)))"

definition terms_kept :: "WithdrawalRequest \<Rightarrow> WithdrawalRequest \<Rightarrow> bool" where
  "terms_kept r r' \<longleftrightarrow> wr_id r' = wr_id r \<and> wr_walletId r' = wr_walletId r \<and> wr_toAddress r' = wr_toAddress r \<and>
     wr_amount r' = wr_amount r \<and> wr_currency r' = wr_currency r \<and> wr_requestedBy r' = wr_requestedBy r \<and>
     wr_isAllowlisted r' = wr_isAllowlisted r \<and> wr_createdAt r' = wr_createdAt r \<and> wr_blockReason r' = wr_blockReason r"

text \<open>The edges of the life cycle of a request, in a store that is left.\<close>

definition life_cycle :: "withdrawal_store \<Rightarrow> WithdrawalRequest \<Rightarrow> WithdrawalRequest \<Rightarrow> bool" where
  "life_cycle s r r' \<longleftrightarrow> terms_kept r r' \<and>
     (wr_status r = WdPendingApproval \<and> wr_executedTxHash r' = wr_executedTxHash r \<and>
        (\<exists>a. authorised (wr_walletId r) a s \<and>
          (wr_status r' = WdRejected \<and> wr_approvals r' = wr_approvals r \<and> wr_rejections r' = wr_rejections r @ [a] \<or>
           wr_approvals r' = (if a \<in> set (wr_approvals r) then wr_approvals r else wr_approvals r @ [a]) \<and>
           wr_rejections r' = wr_rejections r \<and> wr_status r' = (if quorum r' s then WdApproved else WdPendingApproval))) \<or>
      wr_status r = WdApproved \<and> wr_status r' = WdExecuted \<and> wr_executedTxHash r' \<noteq> None \<and>
        wr_approvals r' = wr_approvals r \<and> wr_rejections r' = wr_rejections r)"

text \<open>A new request.\<close>

definition requested :: "withdrawal_env \<Rightarrow> withdrawal_store \<Rightarrow> WithdrawalRequest \<Rightarrow> bool" where
  "requested env s r \<longleftrightarrow> wr_id r = we_uuid env (wd_uuids s) \<and> wr_approvals r = [] \<and> wr_rejections r = [] \<and>
     wr_executedTxHash r = None \<and>
     (if velocity_reason env (limits_of (wr_walletId r) s) (wr_walletId r) (wr_amount r) (wr_createdAt r) s \<noteq> None
      then wr_status r = WdBlockedVelocity
      else wr_status r = (if listed r s then WdApproved else WdPendingApproval))"

text \<open>What a step does to the requests.\<close>

inductive request_effect :: "withdrawal_env \<Rightarrow> withdrawal_store \<Rightarrow> withdrawal_store \<Rightarrow> bool" for env s s' where
  no_effect: "wd_requests s' = wd_requests s \<Longrightarrow> wd_uuids s' = wd_uuids s \<Longrightarrow> request_effect env s s'"
| creates: "wd_requests s' = js_set (wr_id r) r (wd_requests s) \<Longrightarrow> requested env s r \<Longrightarrow> wd_uuids s' = Suc (wd_uuids s) \<Longrightarrow>
    request_effect env s s'"
| moves: "js_get (wd_requests s) k = Some r \<Longrightarrow> wd_requests s' = js_set (wr_id r') r' (wd_requests s) \<Longrightarrow> life_cycle s r r' \<Longrightarrow>
    wd_uuids s' = wd_uuids s \<Longrightarrow> request_effect env s s'"

lemma velocity_requests: "wd_requests s1 = wd_requests s \<Longrightarrow> velocity_reason env l w a now s1 = velocity_reason env l w a now s"
  by (simp add: velocity_reason_def executedWithdrawalsSince_def)

lemma create_effect: "request_effect env s (snd (createWithdrawalRequest env p now s))"
proof -
  obtain s1 cfg where c: "getOrCreateConfig (wi_walletId p) s = (cfg, s1)" "wd_requests s1 = wd_requests s" "wd_uuids s1 = wd_uuids s"
    "getOrCreateConfig (wi_walletId p) s1 = (cfg, s1)"
    and cfg: "js_get (wd_configs s) (wi_walletId p) = Some cfg \<and> s1 = s \<or>
      js_get (wd_configs s) (wi_walletId p) = None \<and> cfg = fresh_config (wi_walletId p)"
    by (rule config_result)
  have limits: "wc_velocityLimits cfg = limits_of (wi_walletId p) s"
    using cfg by (auto simp: limits_of_def fresh_config_def)
  define v where "v = velocity_reason env (limits_of (wi_walletId p) s) (wi_walletId p) (wi_amount p) now s"
  have v1: "velocity_reason env (limits_of (wi_walletId p) s) (wi_walletId p) (wi_amount p) now s1 = v"
    unfolding v_def by (rule velocity_requests) (rule c(2))
  let ?l = "list_ex (same_address (wi_toAddress p)) (wc_allowlist cfg)"
  obtain r where r: "snd (createWithdrawalRequest env p now s) = put_request r (s1\<lparr>wd_uuids := wd_uuids s + 1\<rparr>)"
    "wr_id r = we_uuid env (wd_uuids s)" "wr_walletId r = wi_walletId p" "wr_toAddress r = wi_toAddress p"
    "wr_amount r = wi_amount p" "wr_createdAt r = now" "wr_approvals r = []" "wr_rejections r = []" "wr_executedTxHash r = None"
    "wr_status r = (if v \<noteq> None then WdBlockedVelocity else if ?l \<and> wc_approvalThreshold cfg \<le> 1 then WdApproved else WdPendingApproval)"
    by (simp add: createWithdrawalRequest_def c isAllowlisted_def checkVelocity_def limits v1 Let_def)
  have "listed r s \<longleftrightarrow> ?l \<and> wc_approvalThreshold cfg \<le> 1" using cfg r(3,4) by (auto simp: listed_def fresh_config_def)
  then have "requested env s r" using r(2-10) by (simp add: requested_def v_def)
  moreover have "wd_requests (snd (createWithdrawalRequest env p now s)) = js_set (wr_id r) r (wd_requests s)"
    "wd_uuids (snd (createWithdrawalRequest env p now s)) = Suc (wd_uuids s)" by (simp_all add: r(1) put_request_def c)
  ultimately show ?thesis by (intro creates)
qed

lemma request_in_result: "request_in st verb i s = Inr r \<longleftrightarrow> js_get (wd_requests s) i = Some r \<and> wr_status r = st"
  by (auto simp: request_in_def split: option.splits)

lemma approve_effect: "request_effect env s (snd (approveWithdrawal i approver now s))"
proof (cases "request_in WdPendingApproval ''approve'' i s")
  case (Inl err)
  then show ?thesis by (intro no_effect) (simp_all add: approveWithdrawal_def)
next
  case (Inr r)
  then have r: "js_get (wd_requests s) i = Some r" "wr_status r = WdPendingApproval" by (simp_all add: request_in_result)
  obtain s1 cfg where c: "getOrCreateConfig (wr_walletId r) s = (cfg, s1)" "wd_requests s1 = wd_requests s" "wd_uuids s1 = wd_uuids s"
    and cfg: "js_get (wd_configs s) (wr_walletId r) = Some cfg \<and> s1 = s \<or>
      js_get (wd_configs s) (wr_walletId r) = None \<and> cfg = fresh_config (wr_walletId r)"
    by (rule config_result)
  show ?thesis
  proof (cases "assertAuthorizedApprover cfg approver")
    case (Some err)
    then show ?thesis by (intro no_effect) (simp_all add: approveWithdrawal_def Inr c)
  next
    case None
    then have a: "approver \<in> set (wc_approvers cfg)" by (simp add: assertAuthorizedApprover_def split: if_splits)
    then have found: "js_get (wd_configs s) (wr_walletId r) = Some cfg" using cfg by (auto simp: fresh_config_def)
    let ?as = "if approver \<in> set (wr_approvals r) then wr_approvals r else wr_approvals r @ [approver]"
    let ?q = "r\<lparr>wr_approvals := ?as\<rparr>"
    let ?r = "(if wc_approvalThreshold cfg \<le> of_nat (length ?as) then ?q\<lparr>wr_status := WdApproved\<rparr> else ?q)\<lparr>wr_updatedAt := now\<rparr>"
    have s': "snd (approveWithdrawal i approver now s) = put_request ?r s1"
      using r by (auto simp: approveWithdrawal_def Inr c None Let_def)
    have "life_cycle s r ?r"
      using r a found by (auto simp: life_cycle_def terms_kept_def authorised_def quorum_def)
    then show ?thesis by (intro moves [of s i r _ ?r] r) (simp_all add: s' put_request_def c)
  qed
qed

lemma reject_effect: "request_effect env s (snd (rejectWithdrawal i approver now s))"
proof (cases "request_in WdPendingApproval ''reject'' i s")
  case (Inl err)
  then show ?thesis by (intro no_effect) (simp_all add: rejectWithdrawal_def)
next
  case (Inr r)
  then have r: "js_get (wd_requests s) i = Some r" "wr_status r = WdPendingApproval" by (simp_all add: request_in_result)
  obtain s1 cfg where c: "getOrCreateConfig (wr_walletId r) s = (cfg, s1)" "wd_requests s1 = wd_requests s" "wd_uuids s1 = wd_uuids s"
    and cfg: "js_get (wd_configs s) (wr_walletId r) = Some cfg \<and> s1 = s \<or>
      js_get (wd_configs s) (wr_walletId r) = None \<and> cfg = fresh_config (wr_walletId r)"
    by (rule config_result)
  show ?thesis
  proof (cases "assertAuthorizedApprover cfg approver")
    case (Some err)
    then show ?thesis by (intro no_effect) (simp_all add: rejectWithdrawal_def Inr c)
  next
    case None
    then have "approver \<in> set (wc_approvers cfg)" by (simp add: assertAuthorizedApprover_def split: if_splits)
    then have "authorised (wr_walletId r) approver s" using cfg by (auto simp: fresh_config_def authorised_def)
    then have "life_cycle s r (r\<lparr>wr_rejections := wr_rejections r @ [approver], wr_status := WdRejected, wr_updatedAt := now\<rparr>)"
      using r by (auto simp: life_cycle_def terms_kept_def)
    then show ?thesis
      by (intro moves [OF r(1)]) (simp_all add: rejectWithdrawal_def Inr c None Let_def put_request_def)
  qed
qed

lemma execute_effect: "request_effect env s (snd (markExecuted i txHash now s))"
proof (cases "request_in WdApproved ''execute'' i s")
  case (Inl err)
  then show ?thesis by (intro no_effect) (simp_all add: markExecuted_def)
next
  case (Inr r)
  then have r: "js_get (wd_requests s) i = Some r" "wr_status r = WdApproved" by (simp_all add: request_in_result)
  then have "life_cycle s r (r\<lparr>wr_status := WdExecuted, wr_executedTxHash := Some txHash, wr_updatedAt := now\<rparr>)"
    by (simp add: life_cycle_def terms_kept_def)
  then show ?thesis by (intro moves [OF r(1)]) (simp_all add: markExecuted_def Inr put_request_def Let_def)
qed

lemma wd_step_effect: "wd_step env s s' \<Longrightarrow> request_effect env s s'"
  by (induction rule: wd_step.induct)
    (auto simp: create_effect approve_effect reject_effect execute_effect configureWallet_def getWalletConfig_def addToAllowlist_def
      removeFromAllowlist_def isAllowlisted_def checkVelocity_def Let_def case_prod_beta intro!: no_effect split: option.splits)

subsection \<open>The stored requests\<close>

definition wd_wf :: "withdrawal_env \<Rightarrow> withdrawal_store \<Rightarrow> bool" where
  "wd_wf env s \<longleftrightarrow> js_wf (wd_requests s) \<and>
     (\<forall>k r. js_get (wd_requests s) k = Some r \<longrightarrow> wr_id r = k \<and> k \<in> we_uuid env ` {..<wd_uuids s})"

lemma wd_wf_step:
  assumes wf: "wd_wf env s" and step: "wd_step env s s'"
  shows "wd_wf env s'"
  using wd_step_effect [OF step]
proof cases
  case (moves k r r')
  have "wr_id r' = k" using wf moves by (auto simp: wd_wf_def life_cycle_def terms_kept_def)
  with wf moves show ?thesis by (auto simp: wd_wf_def)
qed (use wf in \<open>auto simp: wd_wf_def requested_def lessThan_Suc\<close>)

lemma wd_wf_new: "wd_wf env new_withdrawal_store"
  by (simp add: wd_wf_def new_withdrawal_store_def)

lemma wd_wf_run: "wd_run env new_withdrawal_store s \<Longrightarrow> wd_wf env s"
  by (induction rule: rtranclp_induct) (fact wd_wf_new, rule wd_wf_step)

lemma wd_fresh:
  assumes "inj (we_uuid env)" "wd_wf env s"
  shows "js_get (wd_requests s) (we_uuid env (wd_uuids s)) = None"
proof (rule ccontr)
  assume "js_get (wd_requests s) (we_uuid env (wd_uuids s)) \<noteq> None"
  then have "we_uuid env (wd_uuids s) \<in> we_uuid env ` {..<wd_uuids s}" using assms(2) by (auto simp: wd_wf_def)
  with assms(1) show False by (auto simp: inj_eq)
qed

text \<open>Something held on the way.\<close>

definition earlier :: "withdrawal_env \<Rightarrow> withdrawal_store \<Rightarrow> (withdrawal_store \<Rightarrow> bool) \<Rightarrow> bool" where
  "earlier env s P \<longleftrightarrow> (\<exists>s0. wd_run env new_withdrawal_store s0 \<and> wd_run env s0 s \<and> P s0)"

lemma earlier_step: "earlier env s P \<Longrightarrow> wd_step env s s' \<Longrightarrow> earlier env s' P"
  unfolding earlier_def by (meson rtranclp.rtrancl_into_rtrancl)

lemma earlier_now: "wd_run env new_withdrawal_store s \<Longrightarrow> wd_step env s s' \<Longrightarrow> P s \<Longrightarrow> earlier env s' P"
  unfolding earlier_def by (meson r_into_rtranclp)

definition backed :: "withdrawal_env \<Rightarrow> withdrawal_store \<Rightarrow> WithdrawalRequest \<Rightarrow> bool" where
  "backed env s r \<longleftrightarrow> distinct (wr_approvals r) \<and> (\<forall>a\<in>set (wr_approvals r). earlier env s (authorised (wr_walletId r) a)) \<and>
     (wr_executedTxHash r \<noteq> None \<longleftrightarrow> wr_status r = WdExecuted) \<and>
     (wr_status r \<in> {WdApproved, WdExecuted} \<longrightarrow> wr_approvals r = [] \<and> earlier env s (listed r) \<or> earlier env s (quorum r))"

lemma backed_step: "backed env s r \<Longrightarrow> wd_step env s s' \<Longrightarrow> backed env s' r"
  by (auto simp: backed_def intro: earlier_step)

lemma terms_kept_cong: "terms_kept r r' \<Longrightarrow> listed r' = listed r" "terms_kept r r' \<Longrightarrow> wr_approvals r' = wr_approvals r \<Longrightarrow> quorum r' = quorum r"
  by (auto simp: terms_kept_def listed_def quorum_def fun_eq_iff)

lemma life_cycle_backed:
  assumes run: "wd_run env new_withdrawal_store s" "wd_step env s s'" and b: "backed env s r" and l: "life_cycle s r r'"
  shows "backed env s' r'"
proof -
  have terms: "terms_kept r r'" "wr_walletId r' = wr_walletId r" using l by (simp_all add: life_cycle_def terms_kept_def)
  have old: "\<forall>a\<in>set (wr_approvals r). earlier env s' (authorised (wr_walletId r) a)"
    using b earlier_step [OF _ run(2)] by (simp add: backed_def)
  consider (rejected) "wr_status r = WdPendingApproval" "wr_executedTxHash r' = wr_executedTxHash r"
      "wr_status r' = WdRejected" "wr_approvals r' = wr_approvals r"
    | (approved) a where "wr_status r = WdPendingApproval" "wr_executedTxHash r' = wr_executedTxHash r" "authorised (wr_walletId r) a s"
      "wr_approvals r' = (if a \<in> set (wr_approvals r) then wr_approvals r else wr_approvals r @ [a])"
      "wr_status r' = (if quorum r' s then WdApproved else WdPendingApproval)"
    | (executed) "wr_status r = WdApproved" "wr_status r' = WdExecuted" "wr_executedTxHash r' \<noteq> None" "wr_approvals r' = wr_approvals r"
    using l unfolding life_cycle_def by blast
  then show ?thesis
  proof cases
    case rejected
    then show ?thesis using b old terms by (simp add: backed_def)
  next
    case approved
    have "earlier env s' (authorised (wr_walletId r) a)" using earlier_now [OF run] approved(3) .
    moreover have "quorum r' s \<Longrightarrow> earlier env s' (quorum r')" using earlier_now [OF run] .
    ultimately show ?thesis using b old approved terms by (auto simp: backed_def)
  next
    case executed
    then show ?thesis
      using b old terms terms_kept_cong [OF terms(1)] earlier_step [OF _ run(2)] by (auto simp: backed_def)
  qed
qed

lemma requested_backed:
  assumes run: "wd_run env new_withdrawal_store s" "wd_step env s s'" and r: "requested env s r"
  shows "backed env s' r"
  using r earlier_now [OF run, of "listed r"] by (auto simp: requested_def backed_def split: if_splits)

lemma wd_run_backed:
  "wd_run env new_withdrawal_store s \<Longrightarrow> js_get (wd_requests s) k = Some r \<Longrightarrow> backed env s r"
proof (induction arbitrary: k r rule: rtranclp_induct)
  case base
  then show ?case by (simp add: new_withdrawal_store_def)
next
  case (step s s')
  from wd_step_effect [OF step(2)] show ?case
  proof cases
    case no_effect
    then show ?thesis using step backed_step by fastforce
  next
    case (creates q)
    then show ?thesis
      using step(3,4) backed_step [OF _ step(2)] requested_backed [OF step(1,2) creates(2)] by (auto split: if_splits)
  next
    case (moves j q q')
    then show ?thesis
      using step(3,4) backed_step [OF _ step(2)] life_cycle_backed [OF step(1,2) _ moves(3)] by (auto split: if_splits)
  qed
qed

subsection \<open>Limits\<close>

definition live :: "WithdrawalRequest \<Rightarrow> bool" where
  "live r \<longleftrightarrow> wr_status r \<in> {WdPendingApproval, WdApproved, WdExecuted}"

definition awaiting_execution :: "WithdrawalRequest \<Rightarrow> bool" where
  "awaiting_execution r \<longleftrightarrow> wr_status r \<in> {WdPendingApproval, WdApproved}"

definition requests_of :: "string \<Rightarrow> withdrawal_store \<Rightarrow> WithdrawalRequest list" where
  "requests_of w s = filter (\<lambda>r. wr_walletId r = w) (js_values (wd_requests s))"

definition executed_in :: "int \<Rightarrow> int \<Rightarrow> WithdrawalRequest list \<Rightarrow> WithdrawalRequest list" where
  "executed_in a b rs = filter (\<lambda>r. wr_status r = WdExecuted \<and> a \<le> wr_createdAt r \<and> wr_createdAt r \<le> b) rs"

definition executed_from :: "int \<Rightarrow> WithdrawalRequest list \<Rightarrow> WithdrawalRequest list" where
  "executed_from a rs = filter (\<lambda>r. wr_status r = WdExecuted \<and> a \<le> wr_createdAt r) rs"

text \<open>Withdrawals one after the other, with constant limits and no negative amount.\<close>

inductive one_by_one :: "withdrawal_env \<Rightarrow> string \<Rightarrow> VelocityLimits \<Rightarrow> withdrawal_store \<Rightarrow> bool" for env w v where
  obo_start: "wd_run env new_withdrawal_store s \<Longrightarrow> requests_of w s = [] \<Longrightarrow> limits_of w s = v \<Longrightarrow> one_by_one env w v s"
| obo_step: "one_by_one env w v s \<Longrightarrow> wd_step env s s' \<Longrightarrow> limits_of w s' = v \<Longrightarrow>
    \<forall>r\<in>set (requests_of w s'). 0 \<le> wr_amount r \<Longrightarrow>
    wd_uuids s' = wd_uuids s \<or> (\<forall>r\<in>set (requests_of w s). \<not> awaiting_execution r) \<Longrightarrow> one_by_one env w v s'"

text \<open>A request fits the limits, given those before it.\<close>

definition fits :: "VelocityLimits \<Rightarrow> WithdrawalRequest list \<Rightarrow> WithdrawalRequest \<Rightarrow> bool" where
  "fits v rs r \<longleftrightarrow>
     (let hour = executed_from (wr_createdAt r - HOUR_MS) rs; day = executed_from (wr_createdAt r - DAY_MS_velocity) rs
      in of_nat (length hour + 1) \<le> vl_maxCountPerHour v \<and> sum_list (map wr_amount hour) + wr_amount r \<le> vl_maxAmountPerHour v \<and>
         sum_list (map wr_amount day) + wr_amount r \<le> vl_maxAmountPerDay v)"

text \<open>Newest first: only the newest may wait for its execution, and every live one fits.\<close>

fun tidy :: "VelocityLimits \<Rightarrow> WithdrawalRequest list \<Rightarrow> bool" where
  "tidy v [] \<longleftrightarrow> True"
| "tidy v (r # rs) \<longleftrightarrow> (\<forall>q\<in>set rs. \<not> awaiting_execution q) \<and> (live r \<longrightarrow> fits v rs r) \<and> tidy v rs"

lemma tidy_outstanding: "tidy v (as @ r # bs) \<Longrightarrow> awaiting_execution r \<Longrightarrow> as = []"
  by (cases as) auto

lemma fits_rev: "fits v (rev rs) r = fits v rs r"
  by (simp add: fits_def executed_from_def rev_filter [symmetric] rev_map [symmetric] Let_def)

lemma velocity_fits:
  "velocity_reason env v (wr_walletId r) (wr_amount r) (wr_createdAt r) s = None \<longleftrightarrow> fits v (requests_of (wr_walletId r) s) r"
proof -
  have "executedWithdrawalsSince w a s = executed_from a (requests_of w s)" for w a
    by (simp add: executedWithdrawalsSince_def executed_from_def requests_of_def conj_ac)
  then show ?thesis by (auto simp: velocity_reason_def fits_def Let_def)
qed

lemma life_cycle_fits:
  assumes "life_cycle s r r'" "live r \<longrightarrow> fits v rs r"
  shows "live r' \<longrightarrow> fits v rs r'"
proof -
  have "live r" using assms(1) by (auto simp: life_cycle_def live_def)
  moreover have "fits v rs r' = fits v rs r" using assms(1) by (simp add: fits_def life_cycle_def terms_kept_def)
  ultimately show ?thesis using assms(2) by simp
qed

lemma one_by_one_tidy:
  assumes "inj (we_uuid env)"
  shows "one_by_one env w v s \<Longrightarrow> wd_wf env s \<and> limits_of w s = v \<and> tidy v (rev (requests_of w s)) \<and>
     (\<forall>r\<in>set (requests_of w s). 0 \<le> wr_amount r)"
proof (induction rule: one_by_one.induct)
  case (obo_start s)
  then show ?case using wd_wf_run by simp
next
  case (obo_step s s')
  have wf: "wd_wf env s" and v: "limits_of w s = v" and tidy: "tidy v (rev (requests_of w s))" using obo_step.IH by simp_all
  have "tidy v (rev (requests_of w s'))"
    using wd_step_effect [OF obo_step.hyps(2)]
  proof cases
    case no_effect
    then show ?thesis using tidy by (simp add: requests_of_def)
  next
    case (creates r)
    have settled: "\<forall>r\<in>set (requests_of w s). \<not> awaiting_execution r" using obo_step.hyps(5) creates by simp
    have "wr_id r = we_uuid env (wd_uuids s)" using creates by (simp add: requested_def)
    then have "js_get (wd_requests s) (wr_id r) = None" using wd_fresh [OF assms wf] by simp
    then have "js_set (wr_id r) r (wd_requests s) = wd_requests s @ [(wr_id r, r)]" by (rule js_set_new)
    then have rs: "requests_of w s' = requests_of w s @ (if wr_walletId r = w then [r] else [])"
      by (simp add: requests_of_def creates js_values_def)
    have "live r \<longrightarrow> fits v (requests_of w s) r" if "wr_walletId r = w"
      using creates(2) that v velocity_fits [of env v r s] by (auto simp: requested_def live_def split: if_splits)
    then show ?thesis using tidy settled by (simp add: rs fits_rev)
  next
    case (moves k r r')
    have same: "wr_id r' = k" "wr_walletId r' = wr_walletId r" "awaiting_execution r"
      using moves wf by (auto simp: wd_wf_def life_cycle_def terms_kept_def awaiting_execution_def)
    obtain as bs where as: "js_values (wd_requests s) = as @ r # bs" "\<And>u. js_values (js_set k u (wd_requests s)) = as @ u # bs"
      by (rule js_set_split [OF moves(1)], rule that) assumption+
    let ?f = "filter (\<lambda>r. wr_walletId r = w)"
    show ?thesis
    proof (cases "wr_walletId r = w")
      case False
      then show ?thesis using tidy same by (simp add: requests_of_def as moves)
    next
      case True
      then have old: "rev (requests_of w s) = rev (?f bs) @ r # rev (?f as)" by (simp add: requests_of_def as)
      then have "rev (?f bs) = []" using tidy_outstanding tidy same(3) by metis
      then have "rev (requests_of w s) = r # rev (?f as)" "rev (requests_of w s') = r' # rev (?f as)"
        using old True same by (simp_all add: requests_of_def as moves)
      then show ?thesis using tidy life_cycle_fits [OF moves(3)] by simp
    qed
  qed
  then show ?case using wd_wf_step [OF wf obo_step.hyps(2)] obo_step.hyps by simp
qed

text \<open>The newest execution in a window had all the others in its sight.\<close>

lemma executed_in_from:
  assumes "wr_createdAt r \<le> b"
  shows "executed_in (b - d) b rs = filter (\<lambda>q. wr_createdAt q \<le> b \<and> b - d \<le> wr_createdAt q) (executed_from (wr_createdAt r - d) rs)"
  using assms by (induction rs) (auto simp: executed_in_def executed_from_def)

lemma newest_in_window:
  assumes "tidy v rs" "\<forall>q\<in>set rs. 0 \<le> wr_amount q" "executed_in (b - d) b rs \<noteq> []"
  shows "\<exists>r qs. fits v qs r \<and> length (executed_in (b - d) b rs) \<le> length (executed_from (wr_createdAt r - d) qs) + 1 \<and>
     sum_list (map wr_amount (executed_in (b - d) b rs)) \<le> sum_list (map wr_amount (executed_from (wr_createdAt r - d) qs)) + wr_amount r"
  using assms
proof (induction rs)
  case (Cons r rs)
  show ?case
  proof (cases "executed_in (b - d) b [r] = []")
    case True
    then have "executed_in (b - d) b (r # rs) = executed_in (b - d) b rs" by (simp add: executed_in_def split: if_splits)
    then show ?thesis using Cons by simp
  next
    case False
    then have r: "wr_status r = WdExecuted" "wr_createdAt r \<le> b" "executed_in (b - d) b (r # rs) = r # executed_in (b - d) b rs"
      by (auto simp: executed_in_def split: if_splits)
    let ?from = "executed_from (wr_createdAt r - d) rs"
    have "\<forall>q\<in>set ?from. 0 \<le> wr_amount q" using Cons.prems(2) by (simp add: executed_from_def)
    then have "sum_list (map wr_amount (executed_in (b - d) b rs)) \<le> sum_list (map wr_amount ?from)"
      unfolding executed_in_from [OF r(2)] by (rule sum_filter_le)
    moreover have "length (executed_in (b - d) b rs) \<le> length ?from"
      unfolding executed_in_from [OF r(2)] by (rule length_filter_le)
    moreover have "fits v rs r" using r Cons.prems(1) by (simp add: live_def)
    ultimately show ?thesis unfolding r(3) by (intro exI [of _ r] exI [of _ rs]) simp
  qed
qed (simp add: executed_in_def)

subsection \<open>A wallet for the witnesses\<close>

definition vault_env :: withdrawal_env where
  "vault_env = \<lparr>we_uuid = (\<lambda>n. replicate n (CHR ''a'')), we_number = (\<lambda>x. int_text \<lfloor>x\<rfloor>)\<rparr>"

lemma vault_uuids: "inj (we_uuid vault_env)"
  by (rule injI) (simp add: vault_env_def)

text \<open>Two approvers of which both are needed; then a request, their approvals and the execution.\<close>

definition vault_params :: wallet_params where
  "vault_params = \<lparr>wp_approvalThreshold = Some 2, wp_approvers = Some [''x'', ''y''], wp_velocityLimits = None\<rparr>"

definition vault_request :: "rat \<Rightarrow> withdrawal_params" where
  "vault_request amount = \<lparr>wi_walletId = ''w'', wi_toAddress = ''0xA'', wi_amount = amount, wi_currency = ''USDC'', wi_requestedBy = ''z''\<rparr>"

definition vault0 :: withdrawal_store where
  "vault0 = snd (configureWallet ''w'' vault_params new_withdrawal_store)"

definition vault1 :: withdrawal_store where
  "vault1 = snd (createWithdrawalRequest vault_env (vault_request 100) 10 vault0)"

definition vault2 :: withdrawal_store where
  "vault2 = snd (approveWithdrawal [] ''x'' 20 vault1)"

definition vault3 :: withdrawal_store where
  "vault3 = snd (approveWithdrawal [] ''y'' 30 vault2)"

definition vault4 :: withdrawal_store where
  "vault4 = snd (markExecuted [] ''0xh'' 40 vault3)"

lemma vault_steps: "wd_step vault_env new_withdrawal_store vault0" "wd_step vault_env vault0 vault1" "wd_step vault_env vault1 vault2"
    "wd_step vault_env vault2 vault3" "wd_step vault_env vault3 vault4"
  unfolding vault0_def vault1_def vault2_def vault3_def vault4_def by (rule wd_step.intros)+

lemma vault_runs: "wd_run vault_env new_withdrawal_store vault0" "wd_run vault_env new_withdrawal_store vault2"
    "wd_run vault_env new_withdrawal_store vault4"
  using vault_steps by (meson r_into_rtranclp rtranclp.rtrancl_into_rtrancl)+

lemma vault_one_by_one: "one_by_one vault_env ''w'' DEFAULT_VELOCITY_LIMITS vault4"
proof -
  have 0: "one_by_one vault_env ''w'' DEFAULT_VELOCITY_LIMITS vault0"
    by (rule obo_start [OF vault_runs(1)]) code_simp+
  have 1: "one_by_one vault_env ''w'' DEFAULT_VELOCITY_LIMITS vault1"
    by (rule obo_step [OF 0 vault_steps(2)]) code_simp+
  have 2: "one_by_one vault_env ''w'' DEFAULT_VELOCITY_LIMITS vault2"
    by (rule obo_step [OF 1 vault_steps(3)]) code_simp+
  have 3: "one_by_one vault_env ''w'' DEFAULT_VELOCITY_LIMITS vault3"
    by (rule obo_step [OF 2 vault_steps(4)]) code_simp+
  show ?thesis by (rule obo_step [OF 3 vault_steps(5)]) code_simp+
qed

subsection \<open>Properties\<close>

text \<open>
  C30: A request is never lost, and a call changes it along its life cycle only: a pending one by an
  approver of its wallet, who rejects it or adds one approval, which approves it exactly when the
  threshold is met; an approved one by being executed. What was asked for never changes.
\<close>

theorem request_life_cycle:
  assumes "inj (we_uuid env)" "wd_run env new_withdrawal_store s" "wd_step env s s'" "js_get (wd_requests s) k = Some r"
  shows "\<exists>r'. js_get (wd_requests s') k = Some r' \<and> (r' = r \<or> life_cycle s r r')"
proof -
  have wf: "wd_wf env s" using wd_wf_run [OF assms(2)] .
  from wd_step_effect [OF assms(3)] show ?thesis
  proof cases
    case no_effect
    then show ?thesis using assms(4) by simp
  next
    case (creates q)
    then have "wr_id q \<noteq> k" using wd_fresh [OF assms(1) wf] assms(4) by (auto simp: requested_def)
    then show ?thesis using creates assms(4) by simp
  next
    case (moves j q q')
    have "wr_id q' = j" using moves wf by (auto simp: wd_wf_def life_cycle_def terms_kept_def)
    then show ?thesis using moves assms(4) by auto
  qed
qed

theorem request_life_cycle_witness:
  "\<exists>r r'. js_get (wd_requests vault2) [] = Some r \<and> js_get (wd_requests vault3) [] = Some r' \<and> wr_status r' = WdApproved \<and>
     (r' = r \<or> life_cycle vault2 r r')"
proof -
  have "map_option wr_status (js_get (wd_requests vault2) []) = Some WdPendingApproval" by code_simp
  then obtain r where r: "js_get (wd_requests vault2) [] = Some r" by auto
  have "map_option wr_status (js_get (wd_requests vault3) []) = Some WdApproved" by code_simp
  with request_life_cycle [OF vault_uuids vault_runs(2) vault_steps(4) r] r show ?thesis by auto
qed

text \<open>
  C31: A withdrawal that is approved or executed was asked for while its destination was on the allow-list
  and one approval would do, or met the threshold of its wallet with approvals of distinct people, each
  of whom was an approver of the wallet at some time before.
\<close>

theorem approved_withdrawals_are_backed:
  assumes "wd_run env new_withdrawal_store s" "js_get (wd_requests s) k = Some r" "wr_status r \<in> {WdApproved, WdExecuted}"
  shows "(wr_approvals r = [] \<and> earlier env s (listed r) \<or> earlier env s (quorum r)) \<and> distinct (wr_approvals r) \<and>
     (\<forall>a\<in>set (wr_approvals r). earlier env s (authorised (wr_walletId r) a))"
  using wd_run_backed [OF assms(1,2)] assms(3) by (auto simp: backed_def)

theorem approved_withdrawals_are_backed_witness:
  "\<exists>r. js_get (wd_requests vault4) [] = Some r \<and> (wr_approvals r = [] \<and> earlier vault_env vault4 (listed r) \<or> earlier vault_env vault4 (quorum r))"
proof -
  have "map_option wr_status (js_get (wd_requests vault4) []) = Some WdExecuted" by code_simp
  then obtain r where r: "js_get (wd_requests vault4) [] = Some r" "wr_status r = WdExecuted" by auto
  then show ?thesis using approved_withdrawals_are_backed [OF vault_runs(3) r(1)] by auto
qed

text \<open>
  C32: When the withdrawals of a wallet are made one after the other, with constant limits and no negative
  amounts, those executed of any hour respect the number and the amount per hour, and those of any day
  the amount per day.
\<close>

theorem sequential_withdrawals_within_limits:
  assumes "inj (we_uuid env)" "one_by_one env w v s"
  shows "(let hour = executed_in (t - HOUR_MS) t (requests_of w s)
     in hour = [] \<or> of_nat (length hour) \<le> vl_maxCountPerHour v \<and> sum_list (map wr_amount hour) \<le> vl_maxAmountPerHour v) \<and>
    (let day = executed_in (t - DAY_MS_velocity) t (requests_of w s)
     in day = [] \<or> sum_list (map wr_amount day) \<le> vl_maxAmountPerDay v)"
proof -
  let ?rs = "rev (requests_of w s)"
  have rev: "executed_in a b ?rs = rev (executed_in a b (requests_of w s))" for a b by (simp add: executed_in_def rev_filter)
  have tidy: "tidy v ?rs" "\<forall>q\<in>set ?rs. 0 \<le> wr_amount q" using one_by_one_tidy [OF assms] by simp_all
  note newest = newest_in_window [OF tidy, of t, unfolded rev rev_map [symmetric] sum_list_rev length_rev rev_is_Nil_conv]
  have "of_nat (length (executed_in (t - HOUR_MS) t (requests_of w s))) \<le> vl_maxCountPerHour v \<and>
      sum_list (map wr_amount (executed_in (t - HOUR_MS) t (requests_of w s))) \<le> vl_maxAmountPerHour v"
    if hour: "executed_in (t - HOUR_MS) t (requests_of w s) \<noteq> []"
  proof -
    obtain r qs where q: "fits v qs r"
      "length (executed_in (t - HOUR_MS) t (requests_of w s)) \<le> length (executed_from (wr_createdAt r - HOUR_MS) qs) + 1"
      "sum_list (map wr_amount (executed_in (t - HOUR_MS) t (requests_of w s))) \<le>
        sum_list (map wr_amount (executed_from (wr_createdAt r - HOUR_MS) qs)) + wr_amount r"
      using newest [OF hour] by blast
    have "(of_nat (length (executed_in (t - HOUR_MS) t (requests_of w s))) :: rat) \<le>
        of_nat (length (executed_from (wr_createdAt r - HOUR_MS) qs) + 1)" using q(2) by (simp only: of_nat_le_iff)
    with q(1,3) show ?thesis by (auto simp: fits_def Let_def)
  qed
  moreover have "sum_list (map wr_amount (executed_in (t - DAY_MS_velocity) t (requests_of w s))) \<le> vl_maxAmountPerDay v"
    if day: "executed_in (t - DAY_MS_velocity) t (requests_of w s) \<noteq> []"
    using newest [OF day] by (auto simp: fits_def Let_def)
  ultimately show ?thesis unfolding Let_def by blast
qed

theorem sequential_withdrawals_within_limits_witness:
  "length (executed_in (3600010 - HOUR_MS) 3600010 (requests_of ''w'' vault4)) = 1 \<and>
   sum_list (map wr_amount (executed_in (3600010 - HOUR_MS) 3600010 (requests_of ''w'' vault4))) \<le> vl_maxAmountPerHour DEFAULT_VELOCITY_LIMITS"
proof
  show one: "length (executed_in (3600010 - HOUR_MS) 3600010 (requests_of ''w'' vault4)) = 1" by code_simp
  then have "executed_in (3600010 - HOUR_MS) 3600010 (requests_of ''w'' vault4) \<noteq> []" by auto
  then show "sum_list (map wr_amount (executed_in (3600010 - HOUR_MS) 3600010 (requests_of ''w'' vault4))) \<le>
      vl_maxAmountPerHour DEFAULT_VELOCITY_LIMITS"
    using sequential_withdrawals_within_limits [OF vault_uuids vault_one_by_one, of 3600010] unfolding Let_def by blast
qed

subsection \<open>What the limits do not see\<close>

definition listed_vault :: withdrawal_store where
  "listed_vault = snd (addToAllowlist ''w'' ''0xA'' ''x'' None 5 new_withdrawal_store)"

text \<open>
  The limits are checked when a request is made, against what is executed then: requests made before the
  first is executed each fit, and together exceed the limit of an hour.
\<close>

lemma parallel_requests_exceed_limit:
  "let s = snd (createWithdrawalRequest vault_env (vault_request 8000) 10 listed_vault);
       s = snd (createWithdrawalRequest vault_env (vault_request 8000) 11 s);
       s = snd (markExecuted ''a'' ''h2'' 13 (snd (markExecuted [] ''h1'' 12 s)))
   in sum_list (map wr_amount (executed_in 0 20 (requests_of ''w'' s))) = 16000 \<and>
      vl_maxAmountPerHour (limits_of ''w'' s) = 10000"
  by code_simp

text \<open>An executed negative amount makes room for one above the limit.\<close>

lemma negative_amount_makes_room:
  "let s = snd (markExecuted [] ''h1'' 11 (snd (createWithdrawalRequest vault_env (vault_request (- 10000)) 10 listed_vault)));
       s = snd (markExecuted ''a'' ''h2'' 13 (snd (createWithdrawalRequest vault_env (vault_request 20000) 12 s)))
   in map wr_amount (executed_in 0 20 (requests_of ''w'' s)) = [- 10000, 20000] \<and> vl_maxAmountPerHour (limits_of ''w'' s) = 10000"
  by code_simp

text \<open>With the threshold a wallet starts with, one approver alone approves a destination that is not listed.\<close>

lemma one_approver_is_enough:
  "let s = snd (configureWallet ''w'' \<lparr>wp_approvalThreshold = None, wp_approvers = Some [''x''], wp_velocityLimits = None\<rparr> new_withdrawal_store);
       s = snd (createWithdrawalRequest vault_env (vault_request 100) 10 s)
   in map_option (\<lambda>r. (wr_isAllowlisted r, wr_status r)) (js_get (wd_requests (snd (approveWithdrawal [] ''x'' 20 s))) []) =
        Some (False, WdApproved)"
  by code_simp

end
