(* ===== verification/Transfers.thy ===== *)
theory Transfers
  imports BaseService Money
begin

text \<open>
  \<open>backend/src/services/transfers.ts\<close>: transfers between accounts, with quotes that lock a price, an
  idempotency key for each transfer, scheduled settlement, cancellation and reversal. Amounts are
  rational, times milliseconds; a time that the caller sends as a text is an argument as it parses.
  \<open>randomUUID\<close> and the texts of numbers are arguments, and so is the clock, which is read once for a call.
\<close>

datatype TransferStatus = TrPending | TrProcessing | TrCompleted | TrFailed | TrCancelled | TrReversed

primrec transfer_status_text :: "TransferStatus \<Rightarrow> string" where
  "transfer_status_text TrPending = ''pending''"
| "transfer_status_text TrProcessing = ''processing''"
| "transfer_status_text TrCompleted = ''completed''"
| "transfer_status_text TrFailed = ''failed''"
| "transfer_status_text TrCancelled = ''cancelled''"
| "transfer_status_text TrReversed = ''reversed''"

datatype TransferRail = InstantRail | StandardRail

datatype AccountStatus = AccountActive | AccountFrozen | AccountClosed

record Account =
  ac_id :: string
  ac_currency :: string
  ac_status :: AccountStatus
  ac_holderName :: "string option"
  ac_createdAt :: int

record TransferQuote =
  tq_id :: string
  tq_sourceAccountId :: string
  tq_destinationAccountId :: string
  tq_amount :: rat
  tq_currency :: string
  tq_destinationCurrency :: string
  tq_destinationAmount :: rat
  tq_fee :: rat
  tq_totalDebit :: rat
  tq_fxRate :: rat
  tq_rail :: TransferRail
  tq_expiresAt :: int
  tq_createdAt :: int

record Transfer =
  tf_id :: string
  tf_quoteId :: "string option"
  tf_idempotencyKey :: string
  tf_sourceAccountId :: string
  tf_destinationAccountId :: string
  tf_amount :: rat
  tf_fee :: rat
  tf_totalDebit :: rat
  tf_currency :: string
  tf_destinationCurrency :: string
  tf_destinationAmount :: rat
  tf_fxRate :: rat
  tf_rail :: TransferRail
  tf_status :: TransferStatus
  tf_scheduledFor :: "int option"
  tf_completedAt :: "int option"
  tf_failedAt :: "int option"
  tf_failureReason :: "string option"
  tf_cancelledAt :: "int option"
  tf_reversedAt :: "int option"
  tf_reversalReason :: "string option"
  tf_metadata :: "(string, string) jsmap option"
  tf_createdAt :: int
  tf_updatedAt :: int

text \<open>\<open>scheduledFor\<close> is the text as it parses: \<open>Some None\<close> for one that is not a date.\<close>

record CreateTransferInput =
  ti_quoteId :: "string option"
  ti_sourceAccountId :: string
  ti_destinationAccountId :: string
  ti_amount :: rat
  ti_currency :: string
  ti_destinationCurrency :: "string option"
  ti_idempotencyKey :: string
  ti_scheduledFor :: "int option option"
  ti_metadata :: "(string, string) jsmap option"

definition INSTANT_CURRENCIES :: "string list" where
  "INSTANT_CURRENCIES = [''USD'', ''EUR'', ''GBP'', ''USDC'']"

definition FX_RATES :: "(string, rat) jsmap" where
  "FX_RATES = [(''USD'', 1), (''USDC'', 1), (''EUR'', 92 / 100), (''GBP'', 79 / 100), (''NGN'', 1550), (''INR'', 832 / 10),
     (''BRL'', 505 / 100)]"

record TransferLimits =
  li_perTransfer :: rat
  li_daily :: rat
  li_reversalWindowMs :: int
  li_quoteTtlMs :: int

definition DEFAULT_TRANSFER_LIMITS :: TransferLimits where
  "DEFAULT_TRANSFER_LIMITS =
     \<lparr>li_perTransfer = 25000, li_daily = 100000, li_reversalWindowMs = 24 * 60 * 60 * 1000, li_quoteTtlMs = 60000\<rparr>"

record transfer_env =
  te_uuid :: "nat \<Rightarrow> string"
  te_number :: "rat \<Rightarrow> string"

record transfer_service =
  ts_limits :: TransferLimits
  ts_accounts :: "(string, Account) jsmap"
  ts_quotes :: "(string, TransferQuote) jsmap"
  ts_transfers :: "(string, Transfer) jsmap"
  ts_idempotencyIndex :: "(string, string) jsmap"
  ts_uuids :: nat

definition new_transfer_service :: "TransferLimits \<Rightarrow> transfer_service" where
  "new_transfer_service limits =
     \<lparr>ts_limits = limits, ts_accounts = [], ts_quotes = [], ts_transfers = [], ts_idempotencyIndex = [], ts_uuids = 0\<rparr>"

type_synonym 'a transfer_op = "(transfer_service, service_error, 'a) op"

subsection \<open>Accounts\<close>

record account_params =
  ap_id :: "string option"
  ap_currency :: string
  ap_status :: "AccountStatus option"
  ap_holderName :: "string option"

definition registerAccount :: "transfer_env \<Rightarrow> account_params \<Rightarrow> int \<Rightarrow> Account transfer_op" where
  "registerAccount env params now s =
     (let currency = to_upper (ap_currency params)
      in case first_error [validate (length currency = 3) ''Currency must be a 3-letter ISO code'',
             validate (js_get FX_RATES currency \<noteq> None) (''Unsupported currency: '' @ currency)] of
        Some err \<Rightarrow> (Inl err, s)
      | None \<Rightarrow>
          let (i, s) = (case ap_id params of
                Some i \<Rightarrow> (i, s)
              | None \<Rightarrow> (''acct_'' @ te_uuid env (ts_uuids s), s\<lparr>ts_uuids := ts_uuids s + 1\<rparr>));
              account = \<lparr>ac_id = i, ac_currency = currency, ac_status = js_or (ap_status params) AccountActive,
                ac_holderName = ap_holderName params, ac_createdAt = now\<rparr>
          in (Inr account, s\<lparr>ts_accounts := js_set i account (ts_accounts s)\<rparr>))"

definition getAccount :: "string \<Rightarrow> transfer_service \<Rightarrow> Account option" where
  "getAccount i s = js_get (ts_accounts s) i"

subsection \<open>Pricing\<close>

record transfer_context =
  tc_source :: Account
  tc_destination :: Account
  tc_amount :: rat
  tc_currency :: string
  tc_destinationCurrency :: string
  tc_rail :: TransferRail

definition resolveTransferContext ::
  "transfer_env \<Rightarrow> string \<Rightarrow> string \<Rightarrow> rat \<Rightarrow> string option \<Rightarrow> transfer_service \<Rightarrow> service_error + transfer_context" where
  "resolveTransferContext env sourceId destinationId amount destCurrency s =
     (case first_error [validate (0 < amount) ''Amount must be greater than 0'',
          validate (sourceId \<noteq> destinationId) ''Source and destination accounts must be different''] of
        Some err \<Rightarrow> Inl err
      | None \<Rightarrow>
     (case js_get (ts_accounts s) sourceId of None \<Rightarrow> Inl (notFound ''Source account'' sourceId) | Some source \<Rightarrow>
     (case js_get (ts_accounts s) destinationId of None \<Rightarrow> Inl (notFound ''Destination account'' destinationId) | Some destination \<Rightarrow>
        if ac_status source \<noteq> AccountActive then Inl (forbidden ''Source account is not active'')
        else if ac_status destination \<noteq> AccountActive then Inl (forbidden ''Destination account is not active'')
        else
          (case validate (amount \<le> li_perTransfer (ts_limits s))
             (''Amount exceeds the per-transfer limit of '' @ te_number env (li_perTransfer (ts_limits s)) @ '' '' @ ac_currency source) of
             Some err \<Rightarrow> Inl err
           | None \<Rightarrow>
               let destinationCurrency = to_upper (js_or destCurrency (ac_currency destination));
                   rail = (if ac_currency source \<in> set INSTANT_CURRENCIES \<and> destinationCurrency \<in> set INSTANT_CURRENCIES
                     then InstantRail else StandardRail)
               in Inr \<lparr>tc_source = source, tc_destination = destination, tc_amount = amount, tc_currency = ac_currency source,
                    tc_destinationCurrency = destinationCurrency, tc_rail = rail\<rparr>))))"

record transfer_price =
  tp_fee :: rat
  tp_fxRate :: rat
  tp_destinationAmount :: rat

definition transfer_fee :: "rat \<Rightarrow> rat" where
  "transfer_fee amount = round_cents (min (max (amount * (5 / 1000)) (1 / 2)) 25)"

definition priceTransfer :: "rat \<Rightarrow> string \<Rightarrow> string \<Rightarrow> service_error + transfer_price" where
  "priceTransfer amount currency destinationCurrency =
     (case js_get FX_RATES currency of
        None \<Rightarrow> Inl (validation_error (''Unsupported source currency: '' @ currency))
      | Some sourceRate \<Rightarrow>
          (case js_get FX_RATES destinationCurrency of
             None \<Rightarrow> Inl (validation_error (''Unsupported destination currency: '' @ destinationCurrency))
           | Some destinationRate \<Rightarrow>
               let fxRate = round_decimals (destinationRate / sourceRate) 6
               in Inr \<lparr>tp_fee = transfer_fee amount, tp_fxRate = fxRate, tp_destinationAmount = round_cents (amount * fxRate)\<rparr>))"

subsection \<open>Quotes\<close>

definition createQuote ::
  "transfer_env \<Rightarrow> string \<Rightarrow> string \<Rightarrow> rat \<Rightarrow> string option \<Rightarrow> int \<Rightarrow> TransferQuote transfer_op" where
  "createQuote env sourceId destinationId amount destCurrency now s =
     (case resolveTransferContext env sourceId destinationId amount destCurrency s of
        Inl err \<Rightarrow> (Inl err, s)
      | Inr c \<Rightarrow>
          (case priceTransfer (tc_amount c) (tc_currency c) (tc_destinationCurrency c) of
             Inl err \<Rightarrow> (Inl err, s)
           | Inr price \<Rightarrow>
               let quote = \<lparr>tq_id = ''qt_'' @ te_uuid env (ts_uuids s), tq_sourceAccountId = ac_id (tc_source c),
                     tq_destinationAccountId = ac_id (tc_destination c), tq_amount = round_cents (tc_amount c),
                     tq_currency = tc_currency c, tq_destinationCurrency = tc_destinationCurrency c,
                     tq_destinationAmount = tp_destinationAmount price, tq_fee = tp_fee price,
                     tq_totalDebit = round_cents (tc_amount c + tp_fee price), tq_fxRate = tp_fxRate price, tq_rail = tc_rail c,
                     tq_expiresAt = now + li_quoteTtlMs (ts_limits s), tq_createdAt = now\<rparr>
               in (Inr quote, s\<lparr>ts_quotes := js_set (tq_id quote) quote (ts_quotes s), ts_uuids := ts_uuids s + 1\<rparr>)))"

definition getQuote :: "string \<Rightarrow> transfer_service \<Rightarrow> TransferQuote option" where
  "getQuote i s = js_get (ts_quotes s) i"

subsection \<open>Settlement\<close>

definition put_transfer :: "string \<Rightarrow> Transfer \<Rightarrow> transfer_service \<Rightarrow> transfer_service" where
  "put_transfer i t s = s\<lparr>ts_transfers := js_set i t (ts_transfers s)\<rparr>"

definition settleTransfer :: "string \<Rightarrow> int \<Rightarrow> Transfer transfer_op" where
  "settleTransfer i now s =
     (case js_get (ts_transfers s) i of
        None \<Rightarrow> (Inl (notFound ''Transfer'' i), s)
      | Some transfer \<Rightarrow>
          if tf_status transfer \<noteq> TrPending \<and> tf_status transfer \<noteq> TrProcessing
          then (Inl (conflict (''Transfer cannot be settled from status '' @ transfer_status_text (tf_status transfer))), s)
          else
            let transfer = transfer\<lparr>tf_status := TrCompleted, tf_completedAt := Some now, tf_updatedAt := now\<rparr>
            in (Inr transfer, put_transfer i transfer s))"

subsection \<open>Transfers\<close>

definition DAY_WINDOW_MS :: int where
  "DAY_WINDOW_MS = 24 * 60 * 60 * 1000"

definition counted_status :: "TransferStatus \<Rightarrow> bool" where
  "counted_status st \<longleftrightarrow> st \<in> {TrPending, TrProcessing, TrCompleted}"

definition getDailyVolume :: "string \<Rightarrow> int \<Rightarrow> transfer_service \<Rightarrow> rat" where
  "getDailyVolume accountId now s =
     (let since = now - DAY_WINDOW_MS
      in round_cents (sum_list (map tf_amount (filter (\<lambda>t. since \<le> tf_createdAt t)
           (filter (\<lambda>t. counted_status (tf_status t)) (filter (\<lambda>t. tf_sourceAccountId t = accountId) (js_values (ts_transfers s))))))))"

definition assertVelocityLimit :: "transfer_env \<Rightarrow> string \<Rightarrow> string \<Rightarrow> rat \<Rightarrow> int \<Rightarrow> transfer_service \<Rightarrow> service_error option" where
  "assertVelocityLimit env accountId currency amount now s =
     (let projected = getDailyVolume accountId now s + amount
      in validate (projected \<le> li_daily (ts_limits s))
           (''Daily transfer limit of '' @ te_number env (li_daily (ts_limits s)) @ '' '' @ currency @ '' would be exceeded''))"

text \<open>The price that a quote locked, or the error of a quote that does not apply.\<close>

definition quoted_price ::
  "string \<Rightarrow> transfer_context \<Rightarrow> rat \<Rightarrow> int \<Rightarrow> transfer_service \<Rightarrow> service_error + transfer_price \<times> string option" where
  "quoted_price quoteId c amount now s =
     (case js_get (ts_quotes s) quoteId of
        None \<Rightarrow> Inl (notFound ''Transfer quote'' quoteId)
      | Some quote \<Rightarrow>
          (case first_error [validate (now < tq_expiresAt quote) ''Transfer quote has expired'',
               validate (tq_sourceAccountId quote = ac_id (tc_source c) \<and> tq_destinationAccountId quote = ac_id (tc_destination c))
                 ''Transfer quote does not match the source/destination accounts'',
               validate (round_cents (tq_amount quote) = round_cents amount) ''Transfer amount does not match the quote''] of
             Some err \<Rightarrow> Inl err
           | None \<Rightarrow> Inr (\<lparr>tp_fee = tq_fee quote, tp_fxRate = tq_fxRate quote, tp_destinationAmount = tq_destinationAmount quote\<rparr>,
               Some (tq_id quote))))"

definition transfer_price_for ::
  "CreateTransferInput \<Rightarrow> transfer_context \<Rightarrow> int \<Rightarrow> transfer_service \<Rightarrow> service_error + transfer_price \<times> string option" where
  "transfer_price_for input c now s =
     (if truthy (ti_quoteId input) then quoted_price (the (ti_quoteId input)) c (ti_amount input) now s
      else
        (case priceTransfer (ti_amount input) (tc_currency c) (tc_destinationCurrency c) of
           Inl err \<Rightarrow> Inl err
         | Inr price \<Rightarrow> Inr (price, None)))"

definition new_transfer ::
  "transfer_env \<Rightarrow> CreateTransferInput \<Rightarrow> transfer_context \<Rightarrow> transfer_price \<Rightarrow> string option \<Rightarrow> bool \<Rightarrow> int option \<Rightarrow> int \<Rightarrow>
   transfer_service \<Rightarrow> Transfer" where
  "new_transfer env input c price quoteId isFutureDated scheduledFor now s =
     \<lparr>tf_id = ''tr_'' @ te_uuid env (ts_uuids s), tf_quoteId = quoteId, tf_idempotencyKey = ti_idempotencyKey input,
      tf_sourceAccountId = ac_id (tc_source c), tf_destinationAccountId = ac_id (tc_destination c),
      tf_amount = round_cents (ti_amount input), tf_fee = tp_fee price, tf_totalDebit = round_cents (ti_amount input + tp_fee price),
      tf_currency = tc_currency c, tf_destinationCurrency = tc_destinationCurrency c,
      tf_destinationAmount = tp_destinationAmount price, tf_fxRate = tp_fxRate price,
      tf_rail = (if isFutureDated then StandardRail else tc_rail c),
      tf_status = (if isFutureDated then TrPending else TrProcessing), tf_scheduledFor = scheduledFor, tf_completedAt = None,
      tf_failedAt = None, tf_failureReason = None, tf_cancelledAt = None, tf_reversedAt = None, tf_reversalReason = None,
      tf_metadata = ti_metadata input, tf_createdAt = now, tf_updatedAt = now\<rparr>"

text \<open>The transfer that a key already has.\<close>

definition known_transfer :: "string \<Rightarrow> transfer_service \<Rightarrow> Transfer option" where
  "known_transfer key s =
     (case js_get (ts_idempotencyIndex s) key of
        None \<Rightarrow> None
      | Some i \<Rightarrow> if i = [] then None else js_get (ts_transfers s) i)"

text \<open>The time that a transfer is scheduled for, and whether that is ahead.\<close>

definition scheduled_date :: "CreateTransferInput \<Rightarrow> service_error + int option" where
  "scheduled_date input =
     (case ti_scheduledFor input of
        None \<Rightarrow> Inr None
      | Some None \<Rightarrow> Inl (validation_error ''scheduledFor must be a valid ISO date'')
      | Some (Some t) \<Rightarrow> Inr (Some t))"

definition future_dated :: "int option \<Rightarrow> int \<Rightarrow> bool" where
  "future_dated scheduledFor now = (case scheduledFor of None \<Rightarrow> False | Some t \<Rightarrow> now < t)"

text \<open>The record of a new transfer, and its settlement unless it is dated ahead.\<close>

definition record_transfer ::
  "transfer_env \<Rightarrow> CreateTransferInput \<Rightarrow> transfer_context \<Rightarrow> transfer_price \<Rightarrow> string option \<Rightarrow> int option \<Rightarrow> int \<Rightarrow> Transfer transfer_op" where
  "record_transfer env input c price quoteId scheduledFor now s =
     (let isFutureDated = future_dated scheduledFor now;
          transfer = new_transfer env input c price quoteId isFutureDated scheduledFor now s;
          s = put_transfer (tf_id transfer) transfer (s\<lparr>ts_uuids := ts_uuids s + 1\<rparr>);
          s = s\<lparr>ts_idempotencyIndex := js_set (tf_idempotencyKey transfer) (tf_id transfer) (ts_idempotencyIndex s)\<rparr>
      in if isFutureDated then (Inr transfer, s) else settleTransfer (tf_id transfer) now s)"

text \<open>A new transfer: checks, date, price, limit, record.\<close>

definition place_transfer :: "transfer_env \<Rightarrow> CreateTransferInput \<Rightarrow> int \<Rightarrow> Transfer transfer_op" where
  "place_transfer env input now s =
     (case resolveTransferContext env (ti_sourceAccountId input) (ti_destinationAccountId input) (ti_amount input)
        (ti_destinationCurrency input) s of
        Inl err \<Rightarrow> (Inl err, s)
      | Inr c \<Rightarrow>
     (case scheduled_date input of
        Inl err \<Rightarrow> (Inl err, s)
      | Inr scheduledFor \<Rightarrow>
     (case transfer_price_for input c now s of
        Inl err \<Rightarrow> (Inl err, s)
      | Inr (price, quoteId) \<Rightarrow>
     (case assertVelocityLimit env (ac_id (tc_source c)) (tc_currency c) (ti_amount input) now s of
        Some err \<Rightarrow> (Inl err, s)
      | None \<Rightarrow> record_transfer env input c price quoteId scheduledFor now s))))"

definition initiateTransfer :: "transfer_env \<Rightarrow> CreateTransferInput \<Rightarrow> int \<Rightarrow> (Transfer \<times> bool) transfer_op" where
  "initiateTransfer env input now s =
     (case validate (ti_idempotencyKey input \<noteq> []) ''idempotencyKey is required'' of
        Some err \<Rightarrow> (Inl err, s)
      | None \<Rightarrow>
          (case known_transfer (ti_idempotencyKey input) s of
             Some existing \<Rightarrow> (Inr (existing, True), s)
           | None \<Rightarrow>
               (case place_transfer env input now s of
                  (Inl err, s) \<Rightarrow> (Inl err, s)
                | (Inr transfer, s) \<Rightarrow> (Inr (transfer, False), s))))"

definition getTransfer :: "string \<Rightarrow> transfer_service \<Rightarrow> Transfer option" where
  "getTransfer i s = js_get (ts_transfers s) i"

record transfer_filter =
  fl_accountId :: "string option"
  fl_status :: "TransferStatus option"
  fl_limit :: "int option"
  fl_offset :: "int option"

definition listTransfers :: "transfer_filter \<Rightarrow> transfer_service \<Rightarrow> Transfer list \<times> nat" where
  "listTransfers fl s =
     (let found = newest_first tf_createdAt
            (filter (\<lambda>t. case fl_status fl of None \<Rightarrow> True | Some st \<Rightarrow> tf_status t = st)
              (filter (\<lambda>t. if truthy (fl_accountId fl)
                  then Some (tf_sourceAccountId t) = fl_accountId fl \<or> Some (tf_destinationAccountId t) = fl_accountId fl else True)
                (js_values (ts_transfers s))));
          offset = js_or (fl_offset fl) 0;
          limit = min (js_or (fl_limit fl) 50) 100
      in (js_slice offset (offset + limit) found, length found))"

definition conflictIfSettled :: "Transfer \<Rightarrow> string \<Rightarrow> service_error option" where
  "conflictIfSettled transfer action =
     (if tf_status transfer \<noteq> TrPending
      then Some (conflict (''Transfer in status '' @ transfer_status_text (tf_status transfer) @ '' cannot be '' @ action @ ''led''))
      else None)"

definition cancelTransfer :: "string \<Rightarrow> int \<Rightarrow> Transfer transfer_op" where
  "cancelTransfer i now s =
     (case js_get (ts_transfers s) i of
        None \<Rightarrow> (Inl (notFound ''Transfer'' i), s)
      | Some transfer \<Rightarrow>
          (case conflictIfSettled transfer ''cancel'' of
             Some err \<Rightarrow> (Inl err, s)
           | None \<Rightarrow>
               let transfer = transfer\<lparr>tf_status := TrCancelled, tf_cancelledAt := Some now, tf_updatedAt := now\<rparr>
               in (Inr transfer, put_transfer i transfer s)))"

definition reverseTransfer :: "string \<Rightarrow> string \<Rightarrow> int \<Rightarrow> Transfer transfer_op" where
  "reverseTransfer i reason now s =
     (case validate (reason \<noteq> []) ''Reversal reason is required'' of
        Some err \<Rightarrow> (Inl err, s)
      | None \<Rightarrow>
     (case js_get (ts_transfers s) i of
        None \<Rightarrow> (Inl (notFound ''Transfer'' i), s)
      | Some transfer \<Rightarrow>
          if tf_status transfer \<noteq> TrCompleted then (Inl (conflict ''Only completed transfers can be reversed''), s)
          else if li_reversalWindowMs (ts_limits s) < now - js_or (tf_completedAt transfer) 0
          then (Inl (conflict ''Transfer is outside the reversal window''), s)
          else
            let transfer = transfer\<lparr>tf_status := TrReversed, tf_reversedAt := Some now, tf_reversalReason := Some reason, tf_updatedAt := now\<rparr>
            in (Inr transfer, put_transfer i transfer s)))"

definition resetTransfers :: "transfer_service \<Rightarrow> transfer_service" where
  "resetTransfers s = s\<lparr>ts_accounts := [], ts_quotes := [], ts_transfers := [], ts_idempotencyIndex := []\<rparr>"

end
