(* ===== verification/TransferProps.thy ===== *)
theory TransferProps
  imports Transfers
begin

text \<open>
  Properties of transfers in every sequence of calls: a key never moves money twice, the volume of an
  account stays within its daily limit, and a transfer only moves along its life cycle.
\<close>

subsection \<open>Steps\<close>

inductive tr_step :: "transfer_env \<Rightarrow> transfer_service \<Rightarrow> transfer_service \<Rightarrow> bool" for env where
  tr_register: "tr_step env s (snd (registerAccount env params now s))"
| tr_quote: "tr_step env s (snd (createQuote env sourceId destinationId amount destCurrency now s))"
| tr_initiate: "tr_step env s (snd (initiateTransfer env input now s))"
| tr_settle: "tr_step env s (snd (settleTransfer i now s))"
| tr_cancel: "tr_step env s (snd (cancelTransfer i now s))"
| tr_reverse: "tr_step env s (snd (reverseTransfer i reason now s))"

abbreviation tr_run :: "transfer_env \<Rightarrow> transfer_service \<Rightarrow> transfer_service \<Rightarrow> bool" where
  "tr_run env \<equiv> (tr_step env)\<^sup>*\<^sup>*"

definition terms_fixed :: "Transfer \<Rightarrow> Transfer \<Rightarrow> bool" where
  "terms_fixed t t' \<longleftrightarrow> tf_id t' = tf_id t \<and> tf_quoteId t' = tf_quoteId t \<and> tf_idempotencyKey t' = tf_idempotencyKey t \<and>
     tf_sourceAccountId t' = tf_sourceAccountId t \<and> tf_destinationAccountId t' = tf_destinationAccountId t \<and>
     tf_amount t' = tf_amount t \<and> tf_fee t' = tf_fee t \<and> tf_totalDebit t' = tf_totalDebit t \<and> tf_currency t' = tf_currency t \<and>
     tf_destinationCurrency t' = tf_destinationCurrency t \<and> tf_destinationAmount t' = tf_destinationAmount t \<and>
     tf_fxRate t' = tf_fxRate t \<and> tf_rail t' = tf_rail t \<and> tf_metadata t' = tf_metadata t \<and> tf_createdAt t' = tf_createdAt t \<and> tf_scheduledFor t' = tf_scheduledFor t"

text \<open>The edges of the life cycle of a transfer, under a reversal window.\<close>

definition transfer_cycle :: "int \<Rightarrow> Transfer \<Rightarrow> Transfer \<Rightarrow> bool" where
  "transfer_cycle window t t' \<longleftrightarrow> terms_fixed t t' \<and>
     (tf_status t \<in> {TrPending, TrProcessing} \<and> tf_status t' = TrCompleted \<and> tf_completedAt t' \<noteq> None \<or>
      tf_status t = TrPending \<and> tf_status t' = TrCancelled \<and> tf_cancelledAt t' \<noteq> None \<or>
      tf_status t = TrCompleted \<and> tf_status t' = TrReversed \<and> tf_completedAt t' = tf_completedAt t \<and>
        (\<exists>n. tf_reversedAt t' = Some n \<and> n - js_or (tf_completedAt t) 0 \<le> window))"

text \<open>A new transfer: its own id and key, whole cents, and the limit of the day at the time.\<close>

definition volume_since :: "string \<Rightarrow> int \<Rightarrow> Transfer list \<Rightarrow> rat" where
  "volume_since account t ts =
     sum_list (map tf_amount (filter (\<lambda>q. tf_sourceAccountId q = account \<and> counted_status (tf_status q) \<and> t \<le> tf_createdAt q) ts))"

definition initiated :: "transfer_env \<Rightarrow> transfer_service \<Rightarrow> Transfer \<Rightarrow> bool" where
  "initiated env s t \<longleftrightarrow> tf_id t = ''tr_'' @ te_uuid env (ts_uuids s) \<and> known_transfer (tf_idempotencyKey t) s = None \<and>
     (tf_status t = TrPending \<or> tf_status t = TrCompleted \<and> tf_completedAt t \<noteq> None) \<and>
     (\<exists>a>0. tf_amount t = round_cents a \<and>
        round_cents (volume_since (tf_sourceAccountId t) (tf_createdAt t - DAY_WINDOW_MS) (js_values (ts_transfers s))) + a \<le> li_daily (ts_limits s))"

inductive transfer_effect :: "transfer_env \<Rightarrow> transfer_service \<Rightarrow> transfer_service \<Rightarrow> bool" for env s s' where
  no_transfer: "ts_transfers s' = ts_transfers s \<Longrightarrow> ts_idempotencyIndex s' = ts_idempotencyIndex s \<Longrightarrow> ts_uuids s \<le> ts_uuids s' \<Longrightarrow>
    transfer_effect env s s'"
| new_one: "ts_transfers s' = js_set (tf_id t) t (ts_transfers s) \<Longrightarrow> initiated env s t \<Longrightarrow>
    ts_idempotencyIndex s' = js_set (tf_idempotencyKey t) (tf_id t) (ts_idempotencyIndex s) \<Longrightarrow> ts_uuids s' = Suc (ts_uuids s) \<Longrightarrow>
    transfer_effect env s s'"
| moved: "js_get (ts_transfers s) k = Some t \<Longrightarrow> ts_transfers s' = js_set k t' (ts_transfers s) \<Longrightarrow>
    transfer_cycle (li_reversalWindowMs (ts_limits s)) t t' \<Longrightarrow> ts_idempotencyIndex s' = ts_idempotencyIndex s \<Longrightarrow> ts_uuids s' = ts_uuids s \<Longrightarrow>
    transfer_effect env s s'"

lemma register_effect: "transfer_effect env s (snd (registerAccount env params now s))"
  by (rule no_transfer) (auto simp: registerAccount_def Let_def split: option.splits)

lemma quote_effect: "transfer_effect env s (snd (createQuote env i j amount c now s))"
  by (rule no_transfer) (auto simp: createQuote_def Let_def split: sum.splits)

lemma settle_effect: "transfer_effect env s (snd (settleTransfer i now s))"
proof (cases "js_get (ts_transfers s) i")
  case (Some t)
  show ?thesis
  proof (cases "tf_status t \<noteq> TrPending \<and> tf_status t \<noteq> TrProcessing")
    case False
    then have "transfer_cycle (li_reversalWindowMs (ts_limits s)) t (t\<lparr>tf_status := TrCompleted, tf_completedAt := Some now, tf_updatedAt := now\<rparr>)"
      by (auto simp: transfer_cycle_def terms_fixed_def)
    then show ?thesis by (intro moved [OF Some]) (insert False, auto simp: settleTransfer_def Some put_transfer_def Let_def)
  qed (simp add: settleTransfer_def Some no_transfer)
qed (simp add: settleTransfer_def no_transfer)

lemma cancel_effect: "transfer_effect env s (snd (cancelTransfer i now s))"
proof (cases "js_get (ts_transfers s) i")
  case (Some t)
  show ?thesis
  proof (cases "tf_status t = TrPending")
    case True
    then have "transfer_cycle (li_reversalWindowMs (ts_limits s)) t (t\<lparr>tf_status := TrCancelled, tf_cancelledAt := Some now, tf_updatedAt := now\<rparr>)"
      by (auto simp: transfer_cycle_def terms_fixed_def)
    then show ?thesis
      using True by (intro moved [OF Some]) (simp_all add: cancelTransfer_def conflictIfSettled_def Some put_transfer_def Let_def)
  qed (simp add: cancelTransfer_def conflictIfSettled_def Some no_transfer)
qed (simp add: cancelTransfer_def no_transfer)

lemma reverse_effect: "transfer_effect env s (snd (reverseTransfer i reason now s))"
proof (cases "js_get (ts_transfers s) i")
  case (Some t)
  show ?thesis
  proof (cases "reason = [] \<or> tf_status t \<noteq> TrCompleted \<or> li_reversalWindowMs (ts_limits s) < now - js_or (tf_completedAt t) 0")
    case False
    then have "transfer_cycle (li_reversalWindowMs (ts_limits s)) t
        (t\<lparr>tf_status := TrReversed, tf_reversedAt := Some now, tf_reversalReason := Some reason, tf_updatedAt := now\<rparr>)"
      by (auto simp: transfer_cycle_def terms_fixed_def)
    then show ?thesis
      using False by (intro moved [OF Some]) (simp_all add: reverseTransfer_def validate_def Some put_transfer_def Let_def)
  next
    case True
    then show ?thesis by (intro no_transfer) (auto simp: reverseTransfer_def validate_def Some)
  qed
qed (auto simp: reverseTransfer_def validate_def no_transfer)

text \<open>The record of a new transfer, settled when it is not dated ahead.\<close>

lemma record_result:
  obtains t where "record_transfer env input c price quoteId sched now s = (Inr t, s\<lparr>ts_uuids := ts_uuids s + 1,
      ts_transfers := js_set (tf_id t) t (ts_transfers s),
      ts_idempotencyIndex := js_set (tf_idempotencyKey t) (tf_id t) (ts_idempotencyIndex s)\<rparr>)"
    "tf_id t = ''tr_'' @ te_uuid env (ts_uuids s)" "tf_idempotencyKey t = ti_idempotencyKey input"
    "tf_amount t = round_cents (ti_amount input)" "tf_sourceAccountId t = ac_id (tc_source c)" "tf_createdAt t = now"
    "tf_status t = TrPending \<or> tf_status t = TrCompleted \<and> tf_completedAt t \<noteq> None"
    "tf_quoteId t = quoteId" "tf_fxRate t = tp_fxRate price"
proof (cases "future_dated sched now")
  case True
  show ?thesis
    by (rule that [of "new_transfer env input c price quoteId True sched now s"])
      (simp_all add: record_transfer_def True put_transfer_def Let_def new_transfer_def)
next
  case False
  show ?thesis
    by (rule that [of "(new_transfer env input c price quoteId False sched now s)\<lparr>tf_status := TrCompleted, tf_completedAt := Some now, tf_updatedAt := now\<rparr>"])
      (simp_all add: record_transfer_def False put_transfer_def Let_def new_transfer_def settleTransfer_def js_set_twice)
qed

text \<open>What is placed has passed every check.\<close>

lemma place_cases:
  obtains err where "place_transfer env input now s = (Inl err, s)"
  | c sched price quoteId where "place_transfer env input now s = record_transfer env input c price quoteId sched now s"
    "resolveTransferContext env (ti_sourceAccountId input) (ti_destinationAccountId input) (ti_amount input) (ti_destinationCurrency input) s = Inr c"
    "transfer_price_for input c now s = Inr (price, quoteId)"
    "assertVelocityLimit env (ac_id (tc_source c)) (tc_currency c) (ti_amount input) now s = None"
proof (cases "resolveTransferContext env (ti_sourceAccountId input) (ti_destinationAccountId input) (ti_amount input) (ti_destinationCurrency input) s")
  case (Inr c)
  note c = this
  show ?thesis
  proof (cases "scheduled_date input")
    case (Inr sched)
    note sched = this
    show ?thesis
    proof (cases "transfer_price_for input c now s")
      case (Inr r)
      then show ?thesis using that c sched
        by (cases "assertVelocityLimit env (ac_id (tc_source c)) (tc_currency c) (ti_amount input) now s") (cases r; simp add: place_transfer_def)+
    qed (use that(1) c sched in \<open>simp add: place_transfer_def\<close>)
  qed (use that(1) c in \<open>simp add: place_transfer_def\<close>)
qed (use that(1) in \<open>simp add: place_transfer_def\<close>)

lemma velocity_limit:
  "assertVelocityLimit env account currency amount now s = None \<longleftrightarrow>
     round_cents (volume_since account (now - DAY_WINDOW_MS) (js_values (ts_transfers s))) + amount \<le> li_daily (ts_limits s)"
  by (simp add: assertVelocityLimit_def getDailyVolume_def volume_since_def Let_def conj_commute conj_left_commute)

lemma context_amount: "resolveTransferContext env i j amount d s = Inr c \<Longrightarrow> 0 < amount"
  by (auto simp: resolveTransferContext_def validate_def split: if_splits)

lemma initiate_effect: "transfer_effect env s (snd (initiateTransfer env input now s))"
proof (cases "ti_idempotencyKey input = [] \<or> known_transfer (ti_idempotencyKey input) s \<noteq> None")
  case True
  then show ?thesis by (intro no_transfer) (auto simp: initiateTransfer_def validate_def)
next
  case False
  then have placed: "initiateTransfer env input now s =
      (case place_transfer env input now s of (Inl err, s) \<Rightarrow> (Inl err, s) | (Inr transfer, s) \<Rightarrow> (Inr (transfer, False), s))"
    by (simp add: initiateTransfer_def validate_def)
  show ?thesis
  proof (rule place_cases [of env input now s])
    fix err assume "place_transfer env input now s = (Inl err, s)"
    then show ?thesis by (intro no_transfer) (simp_all add: placed)
  next
    fix c sched price quoteId
    assume p: "place_transfer env input now s = record_transfer env input c price quoteId sched now s"
      "resolveTransferContext env (ti_sourceAccountId input) (ti_destinationAccountId input) (ti_amount input) (ti_destinationCurrency input) s = Inr c"
      "assertVelocityLimit env (ac_id (tc_source c)) (tc_currency c) (ti_amount input) now s = None"
    obtain t where t: "record_transfer env input c price quoteId sched now s = (Inr t, s\<lparr>ts_uuids := ts_uuids s + 1,
        ts_transfers := js_set (tf_id t) t (ts_transfers s),
        ts_idempotencyIndex := js_set (tf_idempotencyKey t) (tf_id t) (ts_idempotencyIndex s)\<rparr>)"
      and new: "tf_id t = ''tr_'' @ te_uuid env (ts_uuids s)" "tf_idempotencyKey t = ti_idempotencyKey input"
      "tf_amount t = round_cents (ti_amount input)" "tf_sourceAccountId t = ac_id (tc_source c)" "tf_createdAt t = now"
      "tf_status t = TrPending \<or> tf_status t = TrCompleted \<and> tf_completedAt t \<noteq> None"
      by (rule record_result)
    have "initiated env s t"
      using new False context_amount [OF p(2)] p(3) [unfolded velocity_limit] unfolding initiated_def by auto
    then show ?thesis by (intro new_one [of _ t]) (simp_all add: placed p(1) t)
  qed
qed

lemma tr_step_effect: "tr_step env s s' \<Longrightarrow> transfer_effect env s s'"
  by (induction rule: tr_step.induct)
    (simp_all add: register_effect quote_effect initiate_effect settle_effect cancel_effect reverse_effect)

lemma initiate_limits: "ts_limits (snd (initiateTransfer env input now s)) = ts_limits s"
proof (rule place_cases [of env input now s])
  fix c sched price quoteId
  assume p: "place_transfer env input now s = record_transfer env input c price quoteId sched now s"
  show ?thesis
    by (rule record_result [of env input c price quoteId sched now s])
      (auto simp: initiateTransfer_def validate_def p split: option.splits)
qed (auto simp: initiateTransfer_def validate_def split: option.splits)

lemma tr_step_limits: "tr_step env s s' \<Longrightarrow> ts_limits s' = ts_limits s"
  by (induction rule: tr_step.induct)
    (auto simp: registerAccount_def createQuote_def initiate_limits settleTransfer_def cancelTransfer_def reverseTransfer_def
      put_transfer_def Let_def split: option.splits sum.splits)

lemma tr_run_limits: "tr_run env (new_transfer_service l) s \<Longrightarrow> ts_limits s = l"
  by (induction rule: rtranclp_induct) (simp_all add: new_transfer_service_def tr_step_limits)

subsection \<open>The stored transfers\<close>

text \<open>The transfer was within the limit of the day, counting what came before it.\<close>

definition within_day :: "rat \<Rightarrow> Transfer list \<Rightarrow> Transfer \<Rightarrow> bool" where
  "within_day limit ts t \<longleftrightarrow> (counted_status (tf_status t) \<longrightarrow>
     volume_since (tf_sourceAccountId t) (tf_createdAt t - DAY_WINDOW_MS) ts + tf_amount t \<le> limit)"

primrec daily_ok :: "rat \<Rightarrow> Transfer list \<Rightarrow> bool" where
  "daily_ok limit [] = True"
| "daily_ok limit (t # ts) \<longleftrightarrow> within_day limit ts t \<and> daily_ok limit ts"

definition less_counted :: "Transfer \<Rightarrow> Transfer \<Rightarrow> bool" where
  "less_counted t t' \<longleftrightarrow> tf_sourceAccountId t' = tf_sourceAccountId t \<and> tf_amount t' = tf_amount t \<and> tf_createdAt t' = tf_createdAt t \<and>
     (counted_status (tf_status t') \<longrightarrow> counted_status (tf_status t))"

lemma cycle_less_counted: "transfer_cycle w t t' \<Longrightarrow> less_counted t t'"
  by (auto simp: transfer_cycle_def terms_fixed_def less_counted_def counted_status_def)

lemma volume_simps [simp]:
  "volume_since a m [] = 0"
  "volume_since a m (t # ts) = (if tf_sourceAccountId t = a \<and> counted_status (tf_status t) \<and> m \<le> tf_createdAt t then tf_amount t else 0) + volume_since a m ts"
  "volume_since a m (ts @ us) = volume_since a m ts + volume_since a m us"
  "volume_since a m (rev ts) = volume_since a m ts"
  by (simp_all add: volume_since_def rev_map [symmetric] rev_filter [symmetric] sum_list_rev)

lemma volume_less: "less_counted t t' \<Longrightarrow> 0 \<le> tf_amount t \<Longrightarrow> volume_since a m (as @ t' # bs) \<le> volume_since a m (as @ t # bs)"
  by (auto simp: less_counted_def)

lemma daily_ok_less:
  assumes "less_counted t t'" "0 \<le> tf_amount t"
  shows "daily_ok l (as @ t # bs) \<Longrightarrow> daily_ok l (as @ t' # bs)"
proof (induction as)
  case Nil
  then show ?case using assms(1) by (auto simp: within_day_def less_counted_def)
next
  case (Cons q as)
  then show ?case
    using volume_less [OF assms, of "tf_sourceAccountId q" "tf_createdAt q - DAY_WINDOW_MS" as bs] by (auto simp: within_day_def)
qed

lemma daily_ok_volume:
  assumes "daily_ok limit ts" "0 \<le> limit" "\<forall>t\<in>set ts. 0 \<le> tf_amount t"
  shows "sum_list (map tf_amount (filter (\<lambda>t. tf_sourceAccountId t = a \<and> counted_status (tf_status t) \<and> m - DAY_WINDOW_MS \<le> tf_createdAt t \<and> tf_createdAt t \<le> m) ts)) \<le> limit"
  using assms
proof (induction ts)
  case (Cons t ts)
  let ?in = "\<lambda>t. tf_sourceAccountId t = a \<and> counted_status (tf_status t) \<and> m - DAY_WINDOW_MS \<le> tf_createdAt t \<and> tf_createdAt t \<le> m"
  show ?case
  proof (cases "?in t")
    case True
    let ?seen = "filter (\<lambda>q. tf_sourceAccountId q = a \<and> counted_status (tf_status q) \<and> tf_createdAt t - DAY_WINDOW_MS \<le> tf_createdAt q) ts"
    have "filter ?in ts = filter ?in ?seen"
      using True by (induction ts) auto
    moreover have "\<forall>q\<in>set ?seen. 0 \<le> tf_amount q" using Cons.prems(3) by simp
    then have "sum_list (map tf_amount (filter ?in ?seen)) \<le> sum_list (map tf_amount ?seen)"
      by (rule sum_filter_le)
    ultimately have "sum_list (map tf_amount (filter ?in ts)) \<le> volume_since a (tf_createdAt t - DAY_WINDOW_MS) ts"
      by (simp add: volume_since_def)
    then show ?thesis using True Cons.prems(1) by (simp add: within_day_def)
  qed (use Cons in auto)
qed simp

definition tr_wf :: "transfer_env \<Rightarrow> transfer_service \<Rightarrow> bool" where
  "tr_wf env s \<longleftrightarrow> js_wf (ts_transfers s) \<and>
     (\<forall>k t. js_get (ts_transfers s) k = Some t \<longrightarrow> tf_id t = k \<and> k \<in> (\<lambda>n. ''tr_'' @ te_uuid env n) ` {..<ts_uuids s} \<and>
        js_get (ts_idempotencyIndex s) (tf_idempotencyKey t) = Some k \<and> 0 \<le> tf_amount t \<and> cents (tf_amount t)) \<and>
     (\<forall>key i. js_get (ts_idempotencyIndex s) key = Some i \<longrightarrow> (\<exists>t. js_get (ts_transfers s) i = Some t \<and> tf_idempotencyKey t = key))"

lemma tr_wf_new: "tr_wf env (new_transfer_service l)"
  by (simp add: tr_wf_def new_transfer_service_def)

lemma tr_fresh:
  assumes "inj (te_uuid env)" "tr_wf env s"
  shows "js_get (ts_transfers s) (''tr_'' @ te_uuid env (ts_uuids s)) = None"
proof (rule ccontr)
  assume "js_get (ts_transfers s) (''tr_'' @ te_uuid env (ts_uuids s)) \<noteq> None"
  then have "''tr_'' @ te_uuid env (ts_uuids s) \<in> (\<lambda>n. ''tr_'' @ te_uuid env n) ` {..<ts_uuids s}" using assms(2) by (auto simp: tr_wf_def)
  with assms(1) show False by (auto simp: inj_eq)
qed

lemma indexed: "tr_wf env s \<Longrightarrow> js_get (ts_idempotencyIndex s) key = Some i \<Longrightarrow>
    \<exists>t. js_get (ts_transfers s) i = Some t \<and> tf_idempotencyKey t = key"
  unfolding tr_wf_def by blast

text \<open>In such a store a key is known exactly when it is in the index.\<close>

lemma known_wf:
  assumes "tr_wf env s"
  shows "known_transfer key s = (case js_get (ts_idempotencyIndex s) key of None \<Rightarrow> None | Some i \<Rightarrow> js_get (ts_transfers s) i)"
proof (cases "js_get (ts_idempotencyIndex s) key")
  case (Some i)
  then obtain t where "js_get (ts_transfers s) i = Some t" using assms unfolding tr_wf_def by blast
  then have "i \<in> (\<lambda>n. ''tr_'' @ te_uuid env n) ` {..<ts_uuids s}" using assms unfolding tr_wf_def by blast
  then have "i \<noteq> []" by auto
  then show ?thesis by (simp add: known_transfer_def Some)
qed (simp add: known_transfer_def)

lemma tr_wf_step:
  assumes inj: "inj (te_uuid env)" and wf: "tr_wf env s" and step: "tr_step env s s'"
  shows "tr_wf env s'"
  using tr_step_effect [OF step]
proof cases
  case no_transfer
  then have "(\<lambda>n. ''tr_'' @ te_uuid env n) ` {..<ts_uuids s} \<subseteq> (\<lambda>n. ''tr_'' @ te_uuid env n) ` {..<ts_uuids s'}" by auto
  then show ?thesis using wf unfolding tr_wf_def no_transfer(1,2) by blast
next
  case (new_one t)
  have key: "js_get (ts_idempotencyIndex s) (tf_idempotencyKey t) = None"
    using new_one(2) indexed [OF wf] unfolding initiated_def known_wf [OF wf] by (force split: option.splits)
  have i: "tf_id t = ''tr_'' @ te_uuid env (ts_uuids s)" "js_get (ts_transfers s) (tf_id t) = None"
    using new_one(2) tr_fresh [OF inj wf] by (auto simp: initiated_def)
  have other: "tf_idempotencyKey q \<noteq> tf_idempotencyKey t" if "js_get (ts_transfers s) k = Some q" for k q
    using wf that key unfolding tr_wf_def by fastforce
  have gone: "js_get (ts_idempotencyIndex s) k \<noteq> Some (tf_id t)" for k
    using indexed [OF wf] i(2) by fastforce
  have a: "0 \<le> tf_amount t" "cents (tf_amount t)"
    using new_one(2) by (auto simp: initiated_def round_cents_nonneg)
  show ?thesis
    using wf i a other gone unfolding tr_wf_def new_one(1,3,4) by (auto simp: lessThan_Suc)
next
  case (moved k t t')
  have t: "tf_id t' = k" "tf_idempotencyKey t' = tf_idempotencyKey t" "tf_amount t' = tf_amount t"
    using moved(1,3) wf by (auto simp: tr_wf_def transfer_cycle_def terms_fixed_def)
  have same: "tf_idempotencyKey t = key" if "js_get (ts_idempotencyIndex s) key = Some k" for key
    using indexed [OF wf that] moved(1) by auto
  show ?thesis
    using wf moved(1) t same unfolding tr_wf_def moved(2,4,5) by auto
qed

lemma tr_wf_run: "inj (te_uuid env) \<Longrightarrow> tr_run env (new_transfer_service l) s \<Longrightarrow> tr_wf env s"
  by (rotate_tac, induction rule: rtranclp_induct) (simp add: tr_wf_new, rule tr_wf_step)

text \<open>The volume of the stored transfers is in whole cents.\<close>

lemma volume_cents: "tr_wf env s \<Longrightarrow> cents (volume_since a m (js_values (ts_transfers s)))"
proof -
  assume wf: "tr_wf env s"
  have "cents (tf_amount t)" if "t \<in> set (js_values (ts_transfers s))" for t
  proof -
    have "js_wf (ts_transfers s)" using wf by (simp add: tr_wf_def)
    with that obtain k where "js_get (ts_transfers s) k = Some t" by (auto simp: in_js_values)
    then show ?thesis using wf by (auto simp: tr_wf_def)
  qed
  then show ?thesis unfolding volume_since_def by (intro cents_sum_list) (auto simp: list_all_iff)
qed

lemma daily_ok_step:
  assumes inj: "inj (te_uuid env)" and wf: "tr_wf env s" and step: "tr_step env s s'"
    and l: "cents (li_daily (ts_limits s))" and ok: "daily_ok (li_daily (ts_limits s)) (rev (js_values (ts_transfers s)))"
  shows "daily_ok (li_daily (ts_limits s)) (rev (js_values (ts_transfers s')))"
  using tr_step_effect [OF step]
proof cases
  case no_transfer
  with ok show ?thesis by simp
next
  case (new_one t)
  have "js_get (ts_transfers s) (tf_id t) = None" using new_one(2) tr_fresh [OF inj wf] by (simp add: initiated_def)
  then have vs: "js_values (ts_transfers s') = js_values (ts_transfers s) @ [t]" by (simp add: new_one(1) js_values_new)
  define v where "v = volume_since (tf_sourceAccountId t) (tf_createdAt t - DAY_WINDOW_MS) (js_values (ts_transfers s))"
  have v: "cents v" unfolding v_def by (rule volume_cents [OF wf])
  obtain a where a: "tf_amount t = round_cents a" "round_cents v + a \<le> li_daily (ts_limits s)"
    using new_one(2) unfolding initiated_def v_def by blast
  then have "round_cents a \<le> li_daily (ts_limits s) - v" using v l by (intro round_cents_le) (auto simp: cents_diff round_cents_id)
  then have "within_day (li_daily (ts_limits s)) (rev (js_values (ts_transfers s))) t" using a(1) by (simp add: within_day_def v_def)
  with ok show ?thesis by (simp add: vs)
next
  case (moved k t t')
  obtain as bs where as: "js_values (ts_transfers s) = as @ t # bs" "\<And>u. js_values (js_set k u (ts_transfers s)) = as @ u # bs"
    by (rule js_set_split [OF moved(1)], rule that) assumption+
  have "0 \<le> tf_amount t" using moved(1) wf by (auto simp: tr_wf_def)
  then show ?thesis
    using daily_ok_less [OF cycle_less_counted [OF moved(3)], of _ "rev bs" "rev as"] ok by (simp add: as moved(2))
qed

lemma daily_ok_run:
  assumes "inj (te_uuid env)" "cents (li_daily l)" "tr_run env (new_transfer_service l) s"
  shows "daily_ok (li_daily l) (rev (js_values (ts_transfers s)))"
  using assms(3)
proof (induction rule: rtranclp_induct)
  case base
  then show ?case by (simp add: new_transfer_service_def js_values_def)
next
  case (step s s')
  then show ?case using daily_ok_step [OF assms(1) tr_wf_run [OF assms(1) step(1)] step(2)] assms(2) tr_run_limits [OF step(1)] by simp
qed

text \<open>What a step does to one transfer that is there.\<close>

lemma tr_step_moves:
  assumes inj: "inj (te_uuid env)" and wf: "tr_wf env s" and step: "tr_step env s s'" and t: "js_get (ts_transfers s) k = Some t"
  shows "\<exists>t'. js_get (ts_transfers s') k = Some t' \<and> (t' = t \<or> transfer_cycle (li_reversalWindowMs (ts_limits s)) t t')"
  using tr_step_effect [OF step]
proof cases
  case no_transfer
  then show ?thesis using t by simp
next
  case (new_one q)
  then have "tf_id q \<noteq> k" using tr_fresh [OF inj wf] t by (auto simp: initiated_def)
  then show ?thesis using new_one t by simp
next
  case (moved j q q')
  then show ?thesis using t by auto
qed

lemma tr_run_keeps_key:
  assumes "inj (te_uuid env)" "tr_wf env s" "tr_run env s s'" "js_get (ts_transfers s) k = Some t"
  shows "tr_wf env s' \<and> (\<exists>t'. js_get (ts_transfers s') k = Some t' \<and> terms_fixed t t')"
  using assms(3)
proof (induction rule: rtranclp_induct)
  case base
  then show ?case using assms by (simp add: terms_fixed_def)
next
  case (step s1 s2)
  then obtain t1 where t1: "tr_wf env s1" "js_get (ts_transfers s1) k = Some t1" "terms_fixed t t1" by blast
  obtain t2 where "js_get (ts_transfers s2) k = Some t2" "t2 = t1 \<or> terms_fixed t1 t2"
    using tr_step_moves [OF assms(1) t1(1) step(2) t1(2)] by (auto simp: transfer_cycle_def)
  then show ?case using t1(3) tr_wf_step [OF assms(1) t1(1) step(2)] by (auto simp: terms_fixed_def)
qed

subsection \<open>A run for the witnesses\<close>

definition bank_env :: transfer_env where
  "bank_env = \<lparr>te_uuid = (\<lambda>n. replicate n (CHR ''a'')), te_number = (\<lambda>x. if x = 25000 then ''25000'' else ''100000'')\<rparr>"

lemma bank_uuids: "inj (te_uuid bank_env)"
  by (rule injI) (simp add: bank_env_def)

definition bank_account :: "string \<Rightarrow> string \<Rightarrow> account_params" where
  "bank_account i currency = \<lparr>ap_id = Some i, ap_currency = currency, ap_status = None, ap_holderName = None\<rparr>"

definition bank_input :: "string \<Rightarrow> rat \<Rightarrow> string option \<Rightarrow> int option option \<Rightarrow> string option \<Rightarrow> CreateTransferInput" where
  "bank_input key amount quoteId sched destination = \<lparr>ti_quoteId = quoteId, ti_sourceAccountId = ''A'', ti_destinationAccountId = ''B'',
     ti_amount = amount, ti_currency = ''USD'', ti_destinationCurrency = destination, ti_idempotencyKey = key, ti_scheduledFor = sched,
     ti_metadata = None\<rparr>"

definition bank0 :: transfer_service where
  "bank0 = snd (registerAccount bank_env (bank_account ''B'' ''EUR'') 0
     (snd (registerAccount bank_env (bank_account ''A'' ''usd'') 0 (new_transfer_service DEFAULT_TRANSFER_LIMITS))))"

text \<open>A transfer that settles at once, one dated ahead, and the reversal of the first.\<close>

definition bank1 :: transfer_service where
  "bank1 = snd (initiateTransfer bank_env (bank_input ''k1'' 100 None None None) 10 bank0)"

definition bank2 :: transfer_service where
  "bank2 = snd (initiateTransfer bank_env (bank_input ''k2'' 200 None (Some (Some 50)) None) 20 bank1)"

definition bank3 :: transfer_service where
  "bank3 = snd (reverseTransfer ''tr_'' ''fraud'' 30 bank2)"

lemma bank_steps: "tr_run bank_env (new_transfer_service DEFAULT_TRANSFER_LIMITS) bank0" "tr_step bank_env bank0 bank1"
    "tr_step bank_env bank1 bank2" "tr_step bank_env bank2 bank3"
proof -
  show "tr_run bank_env (new_transfer_service DEFAULT_TRANSFER_LIMITS) bank0"
    unfolding bank0_def by (rule rtranclp.rtrancl_into_rtrancl, rule rtranclp.rtrancl_into_rtrancl, rule rtranclp.rtrancl_refl, (rule tr_step.intros)+)
qed (unfold bank1_def bank2_def bank3_def, (rule tr_step.intros)+)

lemma bank_runs: "tr_run bank_env (new_transfer_service DEFAULT_TRANSFER_LIMITS) bank1"
    "tr_run bank_env (new_transfer_service DEFAULT_TRANSFER_LIMITS) bank2" "tr_run bank_env bank1 bank3"
  using bank_steps by (meson r_into_rtranclp rtranclp.rtrancl_into_rtrancl)+

subsection \<open>Properties\<close>

text \<open>
  C33: A key never moves money twice: no two transfers have the same key, and once a transfer is there,
  whatever is called since, initiating again under its key answers with that transfer, on the terms it
  was made, and changes nothing.
\<close>

theorem transfer_made_once_per_key:
  assumes "inj (te_uuid env)" "tr_run env (new_transfer_service l) s" "js_get (ts_transfers s) k = Some t"
    and "tr_run env s s'" "ti_idempotencyKey input = tf_idempotencyKey t" "tf_idempotencyKey t \<noteq> []"
  shows "(\<exists>t'. terms_fixed t t' \<and> js_get (ts_transfers s') k = Some t' \<and> initiateTransfer env input now s' = (Inr (t', True), s')) \<and>
     (\<forall>j q. js_get (ts_transfers s') j = Some q \<and> tf_idempotencyKey q = tf_idempotencyKey t \<longrightarrow> j = k)"
proof -
  obtain t' where t': "tr_wf env s'" "js_get (ts_transfers s') k = Some t'" "terms_fixed t t'"
    using tr_run_keeps_key [OF assms(1) tr_wf_run [OF assms(1,2)] assms(4,3)] by blast
  have key: "tf_idempotencyKey t' = tf_idempotencyKey t" using t'(3) by (simp add: terms_fixed_def)
  have index: "js_get (ts_idempotencyIndex s') (tf_idempotencyKey q) = Some j" if "js_get (ts_transfers s') j = Some q" for j q
    using t'(1) that unfolding tr_wf_def by blast
  have "known_transfer (ti_idempotencyKey input) s' = Some t'"
    using index [OF t'(2)] t'(2) key assms(5) by (simp add: known_wf [OF t'(1)])
  then have "initiateTransfer env input now s' = (Inr (t', True), s')"
    using assms(5,6) by (simp add: initiateTransfer_def validate_def)
  with t' show ?thesis using index [OF t'(2)] index key by (metis option.inject)
qed

theorem transfer_made_once_per_key_witness:
  "\<exists>t'. js_get (ts_transfers bank3) ''tr_'' = Some t' \<and> tf_status t' = TrReversed \<and>
     initiateTransfer bank_env (bank_input ''k1'' 100 None None None) 40 bank3 = (Inr (t', True), bank3)"
proof -
  have "map_option tf_idempotencyKey (js_get (ts_transfers bank1) ''tr_'') = Some ''k1''" by code_simp
  then obtain t where t: "js_get (ts_transfers bank1) ''tr_'' = Some t" "tf_idempotencyKey t = ''k1''" by auto
  have "map_option tf_status (js_get (ts_transfers bank3) ''tr_'') = Some TrReversed" by code_simp
  then show ?thesis
    using transfer_made_once_per_key [OF bank_uuids bank_runs(1) t(1) bank_runs(3), of "bank_input ''k1'' 100 None None None" 40] t(2)
    by (auto simp: bank_input_def)
qed

text \<open>
  C34: Of any 24 hours, the transfers from an account that are not cancelled or reversed stay within
  the daily limit together, in every sequence of calls.
\<close>

theorem daily_volume_within_limit:
  assumes "inj (te_uuid env)" "cents (li_daily l)" "0 \<le> li_daily l" "tr_run env (new_transfer_service l) s"
  shows "sum_list (map tf_amount (filter (\<lambda>t. tf_sourceAccountId t = account \<and> counted_status (tf_status t) \<and>
     time - DAY_WINDOW_MS \<le> tf_createdAt t \<and> tf_createdAt t \<le> time) (js_values (ts_transfers s)))) \<le> li_daily l"
proof -
  have wf: "js_wf (ts_transfers s)" "tr_wf env s" using tr_wf_run [OF assms(1,4)] by (simp_all add: tr_wf_def)
  have "0 \<le> tf_amount t" if "t \<in> set (js_values (ts_transfers s))" for t
  proof -
    from wf(1) that obtain k where "js_get (ts_transfers s) k = Some t" by (auto simp: in_js_values)
    then show ?thesis using wf(2) by (auto simp: tr_wf_def)
  qed
  then show ?thesis
    using daily_ok_volume [OF daily_ok_run [OF assms(1,2,4)] assms(3), of account time]
    by (simp add: rev_filter [symmetric] rev_map [symmetric] sum_list_rev)
qed

theorem daily_volume_within_limit_witness:
  "sum_list (map tf_amount (filter (\<lambda>t. tf_sourceAccountId t = ''A'' \<and> counted_status (tf_status t) \<and>
     60 - DAY_WINDOW_MS \<le> tf_createdAt t \<and> tf_createdAt t \<le> 60) (js_values (ts_transfers bank2)))) \<le> 100000 \<and>
   getDailyVolume ''A'' 60 bank2 = 300"
proof
  show "getDailyVolume ''A'' 60 bank2 = 300" by code_simp
  show "sum_list (map tf_amount (filter (\<lambda>t. tf_sourceAccountId t = ''A'' \<and> counted_status (tf_status t) \<and>
     60 - DAY_WINDOW_MS \<le> tf_createdAt t \<and> tf_createdAt t \<le> 60) (js_values (ts_transfers bank2)))) \<le> 100000"
    using daily_volume_within_limit [OF bank_uuids _ _ bank_runs(2), of "''A''" 60] by (simp add: DEFAULT_TRANSFER_LIMITS_def)
qed

text \<open>
  A transfer is never lost, its terms never change, and a call moves it along its life cycle only:
  it settles while pending or processing, is cancelled while pending, and is reversed once completed,
  within the reversal window.
\<close>

lemma transfer_life_cycle:
  assumes "inj (te_uuid env)" "tr_run env (new_transfer_service l) s" "tr_step env s s'" "js_get (ts_transfers s) k = Some t"
  shows "\<exists>t'. js_get (ts_transfers s') k = Some t' \<and> (t' = t \<or> transfer_cycle (li_reversalWindowMs l) t t')"
  using tr_step_moves [OF assms(1) tr_wf_run [OF assms(1,2)] assms(3,4)] tr_run_limits [OF assms(2)] by simp

lemma transfer_life_cycle_witness:
  "\<exists>t t'. js_get (ts_transfers bank2) ''tr_'' = Some t \<and> tf_status t = TrCompleted \<and> js_get (ts_transfers bank3) ''tr_'' = Some t' \<and>
     tf_status t' = TrReversed \<and> transfer_cycle (24 * 60 * 60 * 1000) t t'"
proof -
  have "map_option tf_status (js_get (ts_transfers bank2) ''tr_'') = Some TrCompleted" by code_simp
  then obtain t where t: "js_get (ts_transfers bank2) ''tr_'' = Some t" "tf_status t = TrCompleted" by auto
  have "map_option tf_status (js_get (ts_transfers bank3) ''tr_'') = Some TrReversed" by code_simp
  then show ?thesis
    using transfer_life_cycle [OF bank_uuids bank_runs(2) bank_steps(4) t(1)] t by (auto simp: DEFAULT_TRANSFER_LIMITS_def)
qed

subsection \<open>What a quote does not lock\<close>

text \<open>
  A quote is matched on the accounts and the amount only: the 155000 naira that 100 dollars are quoted
  at are transferred as 155000 dollars when the transfer names that currency.
\<close>

lemma quote_taken_in_another_currency:
  "let (q, s) = createQuote bank_env ''A'' ''B'' 100 (Some ''NGN'') 10 bank0;
       (r, s) = initiateTransfer bank_env (bank_input ''k'' 100 (Some ''qt_'') None (Some ''USD'')) 20 s
   in map_option (\<lambda>t. (tf_destinationAmount t, tf_destinationCurrency t)) (js_get (ts_transfers s) ''tr_a'') = Some (155000, ''USD'')"
  by code_simp

text \<open>A scheduled transfer is settled before its time.\<close>

lemma scheduled_transfer_settles_early:
  "map_option (\<lambda>t. (tf_status t, tf_scheduledFor t, tf_completedAt t)) (js_get (ts_transfers (snd (settleTransfer ''tr_a'' 21 bank2))) ''tr_a'') =
     Some (TrCompleted, Some 50, Some 21)"
  by code_simp

text \<open>Registering an account that is frozen makes it active again.\<close>

lemma frozen_account_registered_again:
  "let s = snd (registerAccount bank_env ((bank_account ''A'' ''USD'')\<lparr>ap_status := Some AccountFrozen\<rparr>) 1 bank0);
       s' = snd (registerAccount bank_env (bank_account ''A'' ''USD'') 2 s)
   in map_option ac_status (getAccount ''A'' s) = Some AccountFrozen \<and> map_option ac_status (getAccount ''A'' s') = Some AccountActive"
  by code_simp

end
