(* ===== verification/GasBudgets.thy ===== *)
theory GasBudgets
  imports DecimalMoney
begin

text \<open>
  \<open>backend/src/services/gsn/budget-manager.ts\<close>: the budgets from which merchants sponsor the gas of
  their users. Amounts of wei are texts that \<open>BigInt\<close> reads and \<open>toString\<close> writes. \<open>randomUUID\<close>, the
  clock (read once for a call) and the texts of numbers are arguments.
\<close>

subsection \<open>Big integers as texts\<close>

text \<open>A digit sequence in a base up to 16.\<close>

definition radix_digits :: "nat \<Rightarrow> string \<Rightarrow> int option" where
  "radix_digits b s =
     (if s \<noteq> [] \<and> list_all (\<lambda>c. case hex_value c of None \<Rightarrow> False | Some d \<Rightarrow> d < b) s
      then Some (int (foldl (\<lambda>n c. b * n + the (hex_value c)) 0 s)) else None)"

text \<open>\<open>BigInt(text)\<close>: nothing where it throws a \<open>SyntaxError\<close>.\<close>

definition js_BigInt :: "string \<Rightarrow> int option" where
  "js_BigInt text =
     (let s = js_trim text; p = to_lower (take 2 s)
      in if s = [] then Some 0
         else if p = ''0x'' then radix_digits 16 (drop 2 s)
         else if p = ''0o'' then radix_digits 8 (drop 2 s)
         else if p = ''0b'' then radix_digits 2 (drop 2 s)
         else
           (let (sg, ds) = split_sign s
            in if ds \<noteq> [] \<and> list_all is_digit ds then Some (if sg = ''-'' then - int (digits_value ds) else int (digits_value ds))
               else None))"

definition bigint_error :: "string \<Rightarrow> string" where
  "bigint_error text = ''Cannot convert '' @ text @ '' to a BigInt''"

text \<open>Division of \<open>BigInt\<close>s truncates.\<close>

definition big_div :: "int \<Rightarrow> int \<Rightarrow> int" where
  "big_div a b = sgn a * sgn b * (\<bar>a\<bar> div \<bar>b\<bar>)"

subsection \<open>Budgets\<close>

record SponsorshipBudget =
  sb_id :: string
  sb_merchantId :: string
  sb_totalDepositedWei :: string
  sb_spentWei :: string
  sb_availableWei :: string
  sb_gasCapPerTx :: rat
  sb_rateLimitPerDay :: rat
  sb_active :: bool
  sb_createdAt :: int
  sb_updatedAt :: int

record SponsorshipTx =
  sx_id :: string
  sx_merchantId :: string
  sx_userWallet :: string
  sx_gasUnits :: int
  sx_gasCostWei :: string
  sx_txHash :: "string option"
  sx_chainId :: "int option"
  sx_billedAt :: int

record BudgetCheckResult =
  bc_allowed :: bool
  bc_reason :: "string option"
  bc_remainingBudgetWei :: "string option"
  bc_walletTxCountToday :: "nat option"

record wallet_usage =
  wu_count :: nat
  wu_windowStart :: int

record gas_env =
  ge_uuid :: "nat \<Rightarrow> string"
  ge_number :: "rat \<Rightarrow> string"

record gas_store =
  gs_budgets :: "(string, SponsorshipBudget) jsmap"
  gs_sponsorshipTxs :: "SponsorshipTx list"
  gs_walletDailyUsage :: "(string, (string, wallet_usage) jsmap) jsmap"
  gs_uuids :: nat

definition new_gas_store :: gas_store where
  "new_gas_store = \<lparr>gs_budgets = [], gs_sponsorshipTxs = [], gs_walletDailyUsage = [], gs_uuids = 0\<rparr>"

type_synonym 'a gas_op = "(gas_store, string, 'a) op"

definition createBudget :: "gas_env \<Rightarrow> string \<Rightarrow> string \<Rightarrow> rat \<Rightarrow> rat \<Rightarrow> int \<Rightarrow> gas_store \<Rightarrow> SponsorshipBudget \<times> gas_store" where
  "createBudget env merchantId depositWei gasCapPerTx rateLimitPerDay now s =
     (let budget = \<lparr>sb_id = ge_uuid env (gs_uuids s), sb_merchantId = merchantId, sb_totalDepositedWei = depositWei, sb_spentWei = ''0'',
            sb_availableWei = depositWei, sb_gasCapPerTx = gasCapPerTx, sb_rateLimitPerDay = rateLimitPerDay, sb_active = True,
            sb_createdAt = now, sb_updatedAt = now\<rparr>
      in (budget, s\<lparr>gs_budgets := js_set merchantId budget (gs_budgets s), gs_uuids := gs_uuids s + 1\<rparr>))"

definition no_budget :: "string \<Rightarrow> string" where
  "no_budget merchantId = ''Budget for merchant '' @ merchantId @ '' not found''"

text \<open>The sum of two texts: the first that is not an integer throws.\<close>

definition add_wei :: "string \<Rightarrow> string \<Rightarrow> string + int" where
  "add_wei a b =
     (case js_BigInt a of None \<Rightarrow> Inl (bigint_error a)
      | Some x \<Rightarrow> (case js_BigInt b of None \<Rightarrow> Inl (bigint_error b) | Some y \<Rightarrow> Inr (x + y)))"

definition topUpBudget :: "string \<Rightarrow> string \<Rightarrow> int \<Rightarrow> SponsorshipBudget gas_op" where
  "topUpBudget merchantId additionalWei now s =
     (case js_get (gs_budgets s) merchantId of
        None \<Rightarrow> (Inl (no_budget merchantId), s)
      | Some budget \<Rightarrow>
     (case add_wei (sb_totalDepositedWei budget) additionalWei of
        Inl err \<Rightarrow> (Inl err, s)
      | Inr totalWei \<Rightarrow>
     (case add_wei (sb_availableWei budget) additionalWei of
        Inl err \<Rightarrow> (Inl err, s)
      | Inr available \<Rightarrow>
          let budget = budget\<lparr>sb_totalDepositedWei := int_text totalWei, sb_availableWei := int_text available, sb_active := True,
                sb_updatedAt := now\<rparr>
          in (Inr budget, s\<lparr>gs_budgets := js_set merchantId budget (gs_budgets s)\<rparr>))))"

definition getBudget :: "string \<Rightarrow> gas_store \<Rightarrow> SponsorshipBudget option" where
  "getBudget merchantId s = js_get (gs_budgets s) merchantId"

definition listBudgets :: "gas_store \<Rightarrow> SponsorshipBudget list" where
  "listBudgets s = js_values (gs_budgets s)"

record policy_update =
  pu_gasCapPerTx :: "rat option"
  pu_rateLimitPerDay :: "rat option"
  pu_active :: "bool option"

definition updateBudgetPolicy :: "string \<Rightarrow> policy_update \<Rightarrow> int \<Rightarrow> SponsorshipBudget gas_op" where
  "updateBudgetPolicy merchantId updates now s =
     (case js_get (gs_budgets s) merchantId of
        None \<Rightarrow> (Inl (no_budget merchantId), s)
      | Some budget \<Rightarrow>
          let budget = budget\<lparr>sb_gasCapPerTx := js_or (pu_gasCapPerTx updates) (sb_gasCapPerTx budget),
                sb_rateLimitPerDay := js_or (pu_rateLimitPerDay updates) (sb_rateLimitPerDay budget),
                sb_active := js_or (pu_active updates) (sb_active budget), sb_updatedAt := now\<rparr>
          in (Inr budget, s\<lparr>gs_budgets := js_set merchantId budget (gs_budgets s)\<rparr>))"

subsection \<open>The use of a wallet in a day\<close>

definition set_usage :: "string \<Rightarrow> string \<Rightarrow> wallet_usage \<Rightarrow> gas_store \<Rightarrow> gas_store" where
  "set_usage merchantId wallet entry s =
     s\<lparr>gs_walletDailyUsage := js_set merchantId (js_set wallet entry (js_or (js_get (gs_walletDailyUsage s) merchantId) [])) (gs_walletDailyUsage s)\<rparr>"

definition getOrCreateWalletUsage :: "string \<Rightarrow> string \<Rightarrow> int \<Rightarrow> gas_store \<Rightarrow> wallet_usage \<times> gas_store" where
  "getOrCreateWalletUsage merchantId wallet now s =
     (let fresh = \<lparr>wu_count = 0, wu_windowStart = now\<rparr>
      in case js_get (js_or (js_get (gs_walletDailyUsage s) merchantId) []) wallet of
        None \<Rightarrow> (fresh, set_usage merchantId wallet fresh s)
      | Some entry \<Rightarrow>
          if 86400000 < now - wu_windowStart entry then (fresh, set_usage merchantId wallet fresh s) else (entry, s))"

subsection \<open>The check before a transaction\<close>

definition refused_budget :: "string \<Rightarrow> BudgetCheckResult" where
  "refused_budget reason = \<lparr>bc_allowed = False, bc_reason = Some reason, bc_remainingBudgetWei = None, bc_walletTxCountToday = None\<rparr>"

definition verifyBudget :: "gas_env \<Rightarrow> string \<Rightarrow> string \<Rightarrow> int \<Rightarrow> int \<Rightarrow> gas_store \<Rightarrow> BudgetCheckResult \<times> gas_store" where
  "verifyBudget env merchantId userWallet gasUnits now s =
     (case js_get (gs_budgets s) merchantId of
        None \<Rightarrow> (refused_budget ''budget_not_found'', s)
      | Some budget \<Rightarrow>
          if \<not> sb_active budget then (refused_budget ''budget_exhausted'', s)
          else if sb_gasCapPerTx budget < of_int gasUnits
          then (refused_budget (''gas_cap_exceeded:cap='' @ ge_number env (sb_gasCapPerTx budget)), s)
          else
            let (usage, s) = getOrCreateWalletUsage merchantId (to_lower userWallet) now s
            in if sb_rateLimitPerDay budget \<le> of_nat (wu_count usage)
               then ((refused_budget ''rate_limit_exceeded'')\<lparr>bc_walletTxCountToday := Some (wu_count usage)\<rparr>, s)
               else (\<lparr>bc_allowed = True, bc_reason = None, bc_remainingBudgetWei = Some (sb_availableWei budget),
                      bc_walletTxCountToday = Some (wu_count usage)\<rparr>, s))"

subsection \<open>Billing\<close>

definition recordGasSpend ::
  "gas_env \<Rightarrow> string \<Rightarrow> string \<Rightarrow> int \<Rightarrow> string \<Rightarrow> string option \<Rightarrow> int option \<Rightarrow> int \<Rightarrow> SponsorshipTx gas_op" where
  "recordGasSpend env merchantId userWallet gasUnits gasCostWei txHash chainId now s =
     (case js_get (gs_budgets s) merchantId of
        None \<Rightarrow> (Inl (no_budget merchantId), s)
      | Some budget \<Rightarrow>
     (case add_wei (sb_spentWei budget) gasCostWei of
        Inl err \<Rightarrow> (Inl err, s)
      | Inr spent \<Rightarrow>
     (case js_BigInt (sb_totalDepositedWei budget) of
        None \<Rightarrow> (Inl (bigint_error (sb_totalDepositedWei budget)), s)
      | Some deposited \<Rightarrow>
          let available = deposited - spent;
              budget = budget\<lparr>sb_spentWei := int_text spent, sb_availableWei := (if 0 < available then int_text available else ''0''),
                sb_active := (if available \<le> 0 then False else sb_active budget), sb_updatedAt := now\<rparr>;
              s = s\<lparr>gs_budgets := js_set merchantId budget (gs_budgets s)\<rparr>;
              (usage, s) = getOrCreateWalletUsage merchantId (to_lower userWallet) now s;
              s = set_usage merchantId (to_lower userWallet) (usage\<lparr>wu_count := wu_count usage + 1\<rparr>) s;
              tx = \<lparr>sx_id = ge_uuid env (gs_uuids s), sx_merchantId = merchantId, sx_userWallet = to_lower userWallet,
                sx_gasUnits = gasUnits, sx_gasCostWei = gasCostWei, sx_txHash = txHash, sx_chainId = chainId, sx_billedAt = now\<rparr>
          in (Inr tx, s\<lparr>gs_sponsorshipTxs := gs_sponsorshipTxs s @ [tx], gs_uuids := gs_uuids s + 1\<rparr>))))"

record BillingSummary =
  bs_merchantId :: string
  bs_totalSpentWei :: string
  bs_totalTxCount :: nat
  bs_availableWei :: string
  bs_utilizationPct :: int
  bs_periodTxs :: "SponsorshipTx list option"

definition getBillingSummary :: "string \<Rightarrow> bool \<Rightarrow> gas_store \<Rightarrow> string + BillingSummary" where
  "getBillingSummary merchantId includeTxs s =
     (case js_get (gs_budgets s) merchantId of
        None \<Rightarrow> Inl (no_budget merchantId)
      | Some budget \<Rightarrow>
          let txs = filter (\<lambda>t. sx_merchantId t = merchantId) (gs_sponsorshipTxs s)
          in case js_BigInt (sb_totalDepositedWei budget) of
            None \<Rightarrow> Inl (bigint_error (sb_totalDepositedWei budget))
          | Some deposited \<Rightarrow>
              (case js_BigInt (sb_spentWei budget) of
                 None \<Rightarrow> Inl (bigint_error (sb_spentWei budget))
               | Some spent \<Rightarrow>
                   Inr \<lparr>bs_merchantId = merchantId, bs_totalSpentWei = sb_spentWei budget, bs_totalTxCount = length txs,
                     bs_availableWei = sb_availableWei budget,
                     bs_utilizationPct = (if 0 < deposited then big_div (spent * 100) deposited else 0),
                     bs_periodTxs = (if includeTxs then Some txs else None)\<rparr>))"

definition listSponsorshipTxs :: "string option \<Rightarrow> gas_store \<Rightarrow> SponsorshipTx list" where
  "listSponsorshipTxs merchantId s =
     (if truthy merchantId then filter (\<lambda>t. Some (sx_merchantId t) = merchantId) (gs_sponsorshipTxs s) else gs_sponsorshipTxs s)"

end
