(* ===== verification/Relay.thy ===== *)
theory Relay
  imports GasBudgets Money
begin

text \<open>
  \<open>backend/src/services/gsn/relay-server.ts\<close>: meta-transactions that a merchant sponsors. A submission is
  checked (format of the signature, deadline, nonce, budget), its nonce is marked, the gas is billed to
  the budget. Nothing is awaited in between, so a submission is one step.
\<close>

record MetaTransactionRequest =
  mr_from :: string
  mr_to :: string
  mr_value :: string
  mr_gas :: string
  mr_nonce :: string
  mr_deadline :: rat
  mr_data :: string
  mr_signature :: string
  mr_chainId :: int
  mr_merchantId :: string

datatype RelayStatus = RelayPending | RelaySubmitted | RelayConfirmed | RelayFailed | RelayRejectedBudget
  | RelayRejectedSignature | RelayRejectedRateLimit

record RelayRecord =
  rr_id :: string
  rr_merchantId :: string
  rr_userWallet :: string
  rr_chainId :: int
  rr_txHash :: "string option"
  rr_status :: RelayStatus
  rr_gasUsed :: "int option"
  rr_effectiveGasPrice :: "string option"
  rr_gasCostWei :: "string option"
  rr_errorMessage :: "string option"
  rr_submittedAt :: "int option"
  rr_confirmedAt :: "int option"
  rr_createdAt :: int
  rr_updatedAt :: int

record GasEstimate =
  ga_baseFeePerGas :: string
  ga_maxPriorityFeePerGas :: string
  ga_maxFeePerGas :: string
  ga_estimatedGasUnits :: int
  ga_estimatedCostWei :: string
  ga_estimatedCostUSD :: "rat option"

record GasEstimationConfig =
  gc_baseFeeWei :: int
  gc_priorityFeeWei :: int
  gc_multiplier :: rat

record relay_store =
  rl_gas :: gas_store
  rl_nonceStore :: "(string, (int, string list) jsmap) jsmap"
  rl_relayRecords :: "(string, RelayRecord) jsmap"

definition new_relay_store :: relay_store where
  "new_relay_store = \<lparr>rl_gas = new_gas_store, rl_nonceStore = [], rl_relayRecords = []\<rparr>"

subsection \<open>Nonces\<close>

definition isNonceUsed :: "string \<Rightarrow> int \<Rightarrow> string \<Rightarrow> relay_store \<Rightarrow> bool" where
  "isNonceUsed wallet chainId nonce s =
     (case js_get (rl_nonceStore s) (to_lower wallet) of
        None \<Rightarrow> False
      | Some byChain \<Rightarrow> (case js_get byChain chainId of None \<Rightarrow> False | Some used \<Rightarrow> nonce \<in> set used))"

definition markNonceUsed :: "string \<Rightarrow> int \<Rightarrow> string \<Rightarrow> relay_store \<Rightarrow> relay_store" where
  "markNonceUsed wallet chainId nonce s =
     (let lower = to_lower wallet;
          byChain = js_or (js_get (rl_nonceStore s) lower) [];
          used = js_or (js_get byChain chainId) []
      in s\<lparr>rl_nonceStore := js_set lower (js_set chainId (List.insert nonce used) byChain) (rl_nonceStore s)\<rparr>)"

subsection \<open>Gas\<close>

fun hex_nat :: "nat \<Rightarrow> string" where
  "hex_nat n = (if n < 16 then [hex_digit n] else hex_nat (n div 16) @ [hex_digit (n mod 16)])"

declare hex_nat.simps [simp del]

text \<open>\<open>x.toString(16)\<close> and \<open>parseInt(s, 16)\<close>.\<close>

definition hex_text :: "int \<Rightarrow> string" where
  "hex_text i = (if i < 0 then ''-'' @ hex_nat (nat (- i)) else hex_nat (nat i))"

definition parse_hex :: "string \<Rightarrow> int option" where
  "parse_hex text =
     (let (sg, s) = split_sign (dropWhile is_space text);
          s = (if to_lower (take 2 s) = ''0x'' then drop 2 s else s);
          ds = takeWhile (\<lambda>c. hex_value c \<noteq> None) s
      in map_option (\<lambda>n. if sg = ''-'' then - n else n) (radix_digits 16 ds))"

definition max_priority_fee :: "GasEstimationConfig \<Rightarrow> int" where
  "max_priority_fee config = \<lceil>of_int (gc_priorityFeeWei config) * gc_multiplier config\<rceil>"

definition estimateEIP1559Gas :: "int \<Rightarrow> GasEstimationConfig \<Rightarrow> rat option \<Rightarrow> GasEstimate" where
  "estimateEIP1559Gas estimatedUnits config ethUsdPrice =
     (let maxPriority = max_priority_fee config;
          maxFee = \<lceil>of_int (gc_baseFeeWei config * 2 + gc_priorityFeeWei config) * gc_multiplier config\<rceil>;
          effectiveGasPrice = gc_baseFeeWei config + maxPriority;
          costWei = effectiveGasPrice * estimatedUnits
      in \<lparr>ga_baseFeePerGas = ''0x'' @ hex_text (gc_baseFeeWei config), ga_maxPriorityFeePerGas = ''0x'' @ hex_text maxPriority,
          ga_maxFeePerGas = ''0x'' @ hex_text maxFee, ga_estimatedGasUnits = estimatedUnits, ga_estimatedCostWei = int_text costWei,
          ga_estimatedCostUSD = map_option (\<lambda>p. of_int costWei / 10 ^ 18 * p) ethUsdPrice\<rparr>)"

definition isValidHexSignature :: "string \<Rightarrow> bool" where
  "isValidHexSignature sig \<longleftrightarrow> take 2 sig = ''0x'' \<and> length sig = 132 \<and> list_all (\<lambda>c. hex_value c \<noteq> None) (drop 2 sig)"

definition isDeadlinePassed :: "rat \<Rightarrow> int \<Rightarrow> bool" where
  "isDeadlinePassed deadline now \<longleftrightarrow> deadline < of_int now / 1000"

definition requested_gas :: "MetaTransactionRequest \<Rightarrow> int" where
  "requested_gas req = (case parse_hex (mr_gas req) of None \<Rightarrow> 100000 | Some n \<Rightarrow> if n = 0 then 100000 else n)"

subsection \<open>Submission\<close>

definition put_record :: "RelayRecord \<Rightarrow> relay_store \<Rightarrow> relay_store" where
  "put_record r s = s\<lparr>rl_relayRecords := js_set (rr_id r) r (rl_relayRecords s)\<rparr>"

text \<open>The next \<open>randomUUID\<close>.\<close>

definition relay_uuid :: "gas_env \<Rightarrow> relay_store \<Rightarrow> string \<times> relay_store" where
  "relay_uuid env s = (ge_uuid env (gs_uuids (rl_gas s)), s\<lparr>rl_gas := (rl_gas s)\<lparr>gs_uuids := gs_uuids (rl_gas s) + 1\<rparr>\<rparr>)"

definition new_relay_record :: "string \<Rightarrow> MetaTransactionRequest \<Rightarrow> int \<Rightarrow> RelayRecord" where
  "new_relay_record i req now =
     \<lparr>rr_id = i, rr_merchantId = mr_merchantId req, rr_userWallet = to_lower (mr_from req), rr_chainId = mr_chainId req, rr_txHash = None,
      rr_status = RelayPending, rr_gasUsed = None, rr_effectiveGasPrice = None, rr_gasCostWei = None, rr_errorMessage = None,
      rr_submittedAt = None, rr_confirmedAt = None, rr_createdAt = now, rr_updatedAt = now\<rparr>"

definition reject_record :: "RelayStatus \<Rightarrow> string option \<Rightarrow> RelayRecord \<Rightarrow> int \<Rightarrow> relay_store \<Rightarrow> (string + RelayRecord) \<times> relay_store" where
  "reject_record st message r now s =
     (let r = r\<lparr>rr_status := st, rr_errorMessage := message, rr_updatedAt := now\<rparr> in (Inr r, put_record r s))"

text \<open>An accepted transaction: the nonce is marked, the record confirmed, the budget debited.\<close>

definition sponsor :: "gas_env \<Rightarrow> MetaTransactionRequest \<Rightarrow> GasEstimate \<Rightarrow> RelayRecord \<Rightarrow> int \<Rightarrow> (relay_store, string, RelayRecord) op" where
  "sponsor env req gasEstimate r now s =
     (let s = markNonceUsed (mr_from req) (mr_chainId req) (mr_nonce req) s;
          (uuid, s) = relay_uuid env s;
          r = r\<lparr>rr_submittedAt := Some now, rr_effectiveGasPrice := Some (ga_maxFeePerGas gasEstimate),
            rr_txHash := Some (''0x'' @ filter (\<lambda>c. c \<noteq> CHR ''-'') uuid @ ''0000''), rr_gasUsed := Some (ga_estimatedGasUnits gasEstimate),
            rr_gasCostWei := Some (ga_estimatedCostWei gasEstimate), rr_status := RelayConfirmed, rr_confirmedAt := Some now,
            rr_updatedAt := now\<rparr>;
          s = put_record r s;
          (billed, gas) = recordGasSpend env (mr_merchantId req) (mr_from req) (ga_estimatedGasUnits gasEstimate)
            (ga_estimatedCostWei gasEstimate) None None now (rl_gas s);
          s = s\<lparr>rl_gas := gas\<rparr>
      in case billed of Inl err \<Rightarrow> (Inl err, s) | Inr _ \<Rightarrow> (Inr r, put_record r s))"

definition submitMetaTransaction ::
  "gas_env \<Rightarrow> MetaTransactionRequest \<Rightarrow> GasEstimationConfig \<Rightarrow> rat option \<Rightarrow> int \<Rightarrow> (relay_store, string, RelayRecord) op" where
  "submitMetaTransaction env req gasConfig ethUsdPrice now s =
     (let (i, s) = relay_uuid env s;
          r = new_relay_record i req now;
          s = put_record r s
      in if \<not> isValidHexSignature (mr_signature req)
         then reject_record RelayRejectedSignature (Some ''Invalid EIP-712 signature format'') r now s
         else if isDeadlinePassed (mr_deadline req) now
         then reject_record RelayRejectedSignature (Some ''Meta-transaction deadline has passed'') r now s
         else if isNonceUsed (mr_from req) (mr_chainId req) (mr_nonce req) s
         then reject_record RelayRejectedSignature (Some ''Nonce already used (replay attempt)'') r now s
         else
           let gasEstimate = estimateEIP1559Gas (requested_gas req) gasConfig ethUsdPrice;
               (budgetCheck, gas) = verifyBudget env (mr_merchantId req) (mr_from req) (ga_estimatedGasUnits gasEstimate) now (rl_gas s);
               s = s\<lparr>rl_gas := gas\<rparr>
           in if \<not> bc_allowed budgetCheck
              then reject_record (if bc_reason budgetCheck = Some ''rate_limit_exceeded'' then RelayRejectedRateLimit else RelayRejectedBudget)
                (bc_reason budgetCheck) r now s
              else sponsor env req gasEstimate r now s)"

definition shouldFallbackToUserGas :: "string \<Rightarrow> relay_store \<Rightarrow> bool" where
  "shouldFallbackToUserGas merchantId s =
     (case getBudget merchantId (rl_gas s) of
        None \<Rightarrow> True
      | Some budget \<Rightarrow> \<not> sb_active budget \<or> sb_availableWei budget = ''0'')"

subsection \<open>Queries\<close>

definition getRelayRecord :: "string \<Rightarrow> relay_store \<Rightarrow> RelayRecord option" where
  "getRelayRecord i s = js_get (rl_relayRecords s) i"

record relay_filter =
  rf_merchantId :: "string option"
  rf_userWallet :: "string option"
  rf_status :: "RelayStatus option"

definition listRelayRecords :: "relay_filter \<Rightarrow> relay_store \<Rightarrow> RelayRecord list" where
  "listRelayRecords filters s =
     filter (\<lambda>r. (truthy (rf_merchantId filters) \<longrightarrow> Some (rr_merchantId r) = rf_merchantId filters) \<and>
       (truthy (rf_userWallet filters) \<longrightarrow> Some (rr_userWallet r) = map_option to_lower (rf_userWallet filters)) \<and>
       (case rf_status filters of None \<Rightarrow> True | Some st \<Rightarrow> rr_status r = st)) (js_values (rl_relayRecords s))"

end
