(* ===== verification/RelayProps.thy ===== *)
theory RelayProps
  imports Relay DecimalProps "HOL-Library.Code_Target_Nat"
begin

text \<open>
  Properties of sponsored gas in every sequence of calls: a nonce is sponsored once, what a budget has
  spent is what is billed to it, and a budget is overdrawn by one transaction at most.
\<close>

subsection \<open>Texts of integers\<close>

lemma int_text_prefix: "to_lower (take 2 (int_text i)) \<noteq> ''0x'' \<and> to_lower (take 2 (int_text i)) \<noteq> ''0o'' \<and> to_lower (take 2 (int_text i)) \<noteq> ''0b''"
proof -
  have "lower_char c = c" if "c \<in> set (int_text i)" for c
    using that nat_text_digits [of c "nat \<bar>i\<bar>"] by (auto simp: int_text_sign sign_text_def lower_char_def is_digit_def Let_def split: if_splits)
  then have low: "to_lower (take 2 (int_text i)) = take 2 (int_text i)"
    unfolding to_lower_def by (intro map_idI) (meson in_set_takeD)
  have "c \<notin> set (int_text i)" if "c \<in> {CHR ''x'', CHR ''o'', CHR ''b''}" for c
    using that nat_text_digits [of c "nat \<bar>i\<bar>"] by (auto simp: int_text_sign sign_text_def is_digit_def split: if_splits)
  then have "CHR ''x'' \<notin> set (take 2 (int_text i))" "CHR ''o'' \<notin> set (take 2 (int_text i))" "CHR ''b'' \<notin> set (take 2 (int_text i))"
    by (meson in_set_takeD insertCI)+
  then show ?thesis unfolding low by auto
qed

lemma BigInt_int_text [simp]: "js_BigInt (int_text i) = Some i"
proof -
  have digits: "list_all is_digit (nat_text n)" for n by (simp add: list_all_iff nat_text_digits)
  have "split_sign (int_text i) = (sign_text i, nat_text (nat \<bar>i\<bar>))"
    using split_sign_digits [of "nat_text (nat \<bar>i\<bar>)" "[]"] nat_text_digits [of _ "nat \<bar>i\<bar>"]
    by (cases "i < 0") (simp_all add: int_text_sign sign_text_def split_sign_def [of "_ # _"])
  moreover have "int_text i \<noteq> []" by (simp add: int_text_sign)
  ultimately have "js_BigInt (int_text i) = Some (if sign_text i = ''-'' then - int (nat \<bar>i\<bar>) else int (nat \<bar>i\<bar>))"
    using int_text_prefix [of i] digits by (simp add: js_BigInt_def trim_int_text Let_def)
  then show ?thesis by (simp add: sign_text_def split: if_splits)
qed

lemma add_wei_text: "add_wei a (int_text y) = (case js_BigInt a of None \<Rightarrow> Inl (bigint_error a) | Some x \<Rightarrow> Inr (x + y))"
  by (simp add: add_wei_def split: option.split)

subsection \<open>Steps\<close>

inductive relay_step :: "gas_env \<Rightarrow> relay_store \<Rightarrow> relay_store \<Rightarrow> bool" for env where
  rl_create: "relay_step env s (s\<lparr>rl_gas := snd (createBudget env merchantId depositWei cap rate now (rl_gas s))\<rparr>)"
| rl_topUp: "relay_step env s (s\<lparr>rl_gas := snd (topUpBudget merchantId wei now (rl_gas s))\<rparr>)"
| rl_policy: "relay_step env s (s\<lparr>rl_gas := snd (updateBudgetPolicy merchantId updates now (rl_gas s))\<rparr>)"
| rl_submit: "relay_step env s (snd (submitMetaTransaction env req config usd now s))"

abbreviation relay_run :: "gas_env \<Rightarrow> relay_store \<Rightarrow> relay_store \<Rightarrow> bool" where
  "relay_run env \<equiv> (relay_step env)\<^sup>*\<^sup>*"

lemma usage_frame [simp]:
  "gs_budgets (snd (getOrCreateWalletUsage m w now s)) = gs_budgets s"
  "gs_sponsorshipTxs (snd (getOrCreateWalletUsage m w now s)) = gs_sponsorshipTxs s"
  "gs_uuids (snd (getOrCreateWalletUsage m w now s)) = gs_uuids s"
  "gs_budgets (set_usage m w u s) = gs_budgets s" "gs_sponsorshipTxs (set_usage m w u s) = gs_sponsorshipTxs s"
  "gs_uuids (set_usage m w u s) = gs_uuids s"
  by (simp_all add: getOrCreateWalletUsage_def set_usage_def Let_def split: option.splits)

lemma verify_frame [simp]:
  "gs_budgets (snd (verifyBudget env m w g now s)) = gs_budgets s"
  "gs_sponsorshipTxs (snd (verifyBudget env m w g now s)) = gs_sponsorshipTxs s"
  by (simp_all add: verifyBudget_def Let_def case_prod_beta split: option.splits)

lemma verify_allowed:
  assumes "bc_allowed (fst (verifyBudget env m w g now s))"
  obtains b where "js_get (gs_budgets s) m = Some b" "sb_active b" "of_int g \<le> sb_gasCapPerTx b"
  using assms by (auto simp: verifyBudget_def refused_budget_def Let_def case_prod_beta not_less split: option.splits if_splits)

text \<open>A budget after a charge.\<close>

definition charged :: "int \<Rightarrow> int \<Rightarrow> int \<Rightarrow> SponsorshipBudget \<Rightarrow> SponsorshipBudget" where
  "charged spent deposited now b =
     b\<lparr>sb_spentWei := int_text spent, sb_availableWei := (if 0 < deposited - spent then int_text (deposited - spent) else ''0''),
       sb_active := (if deposited - spent \<le> 0 then False else sb_active b), sb_updatedAt := now\<rparr>"

lemma record_cases:
  assumes "js_get (gs_budgets s) m = Some b"
  obtains err where "recordGasSpend env m w g (int_text cost) h c now s = (Inl err, s)"
  | tx x d s' where "recordGasSpend env m w g (int_text cost) h c now s = (Inr tx, s')"
    "js_BigInt (sb_spentWei b) = Some x" "js_BigInt (sb_totalDepositedWei b) = Some d"
    "gs_budgets s' = js_set m (charged (x + cost) d now b) (gs_budgets s)" "gs_sponsorshipTxs s' = gs_sponsorshipTxs s @ [tx]"
    "sx_merchantId tx = m" "sx_gasCostWei tx = int_text cost"
proof (cases "js_BigInt (sb_spentWei b)")
  case None
  then show ?thesis using that(1) assms by (simp add: recordGasSpend_def add_wei_text)
next
  case (Some x)
  note x = this
  show ?thesis
  proof (cases "js_BigInt (sb_totalDepositedWei b)")
    case None
    then show ?thesis using that(1) assms x by (simp add: recordGasSpend_def add_wei_text)
  next
    case (Some d)
    have "\<exists>tx s'. recordGasSpend env m w g (int_text cost) h c now s = (Inr tx, s') \<and>
        gs_budgets s' = js_set m (charged (x + cost) d now b) (gs_budgets s) \<and> gs_sponsorshipTxs s' = gs_sponsorshipTxs s @ [tx] \<and>
        sx_merchantId tx = m \<and> sx_gasCostWei tx = int_text cost"
      using assms x Some by (simp add: recordGasSpend_def add_wei_text charged_def Let_def case_prod_beta)
    then show ?thesis using that(2) x Some by blast
  qed
qed

definition gas_price :: "GasEstimationConfig \<Rightarrow> int" where
  "gas_price config = gc_baseFeeWei config + max_priority_fee config"

text \<open>What a submission does.\<close>

inductive relay_effect ::
  "MetaTransactionRequest \<Rightarrow> GasEstimationConfig \<Rightarrow> int \<Rightarrow> relay_store \<Rightarrow> (string + RelayRecord) \<Rightarrow> relay_store \<Rightarrow> bool" for req config now s where
  turned_down: "rr_status r \<notin> {RelaySubmitted, RelayConfirmed} \<Longrightarrow> gs_budgets (rl_gas s') = gs_budgets (rl_gas s) \<Longrightarrow>
    gs_sponsorshipTxs (rl_gas s') = gs_sponsorshipTxs (rl_gas s) \<Longrightarrow> rl_nonceStore s' = rl_nonceStore s \<Longrightarrow> relay_effect req config now s (Inr r) s'"
| not_billed: "js_get (gs_budgets (rl_gas s)) (mr_merchantId req) = Some b \<Longrightarrow> \<not> isNonceUsed (mr_from req) (mr_chainId req) (mr_nonce req) s \<Longrightarrow>
    gs_budgets (rl_gas s') = gs_budgets (rl_gas s) \<Longrightarrow> gs_sponsorshipTxs (rl_gas s') = gs_sponsorshipTxs (rl_gas s) \<Longrightarrow>
    rl_nonceStore s' = rl_nonceStore (markNonceUsed (mr_from req) (mr_chainId req) (mr_nonce req) s) \<Longrightarrow> relay_effect req config now s (Inl err) s'"
| sponsored: "js_get (gs_budgets (rl_gas s)) (mr_merchantId req) = Some b \<Longrightarrow> \<not> isNonceUsed (mr_from req) (mr_chainId req) (mr_nonce req) s \<Longrightarrow>
    sb_active b \<Longrightarrow> of_int (requested_gas req) \<le> sb_gasCapPerTx b \<Longrightarrow>
    js_BigInt (sb_spentWei b) = Some x \<Longrightarrow> js_BigInt (sb_totalDepositedWei b) = Some d \<Longrightarrow>
    gs_budgets (rl_gas s') = js_set (mr_merchantId req) (charged (x + gas_price config * requested_gas req) d now b) (gs_budgets (rl_gas s)) \<Longrightarrow>
    gs_sponsorshipTxs (rl_gas s') = gs_sponsorshipTxs (rl_gas s) @ [tx] \<Longrightarrow> sx_merchantId tx = mr_merchantId req \<Longrightarrow>
    sx_gasCostWei tx = int_text (gas_price config * requested_gas req) \<Longrightarrow> rr_status r = RelayConfirmed \<Longrightarrow>
    rl_nonceStore s' = rl_nonceStore (markNonceUsed (mr_from req) (mr_chainId req) (mr_nonce req) s) \<Longrightarrow> relay_effect req config now s (Inr r) s'"

lemma reject_effect_relay:
  assumes "st \<notin> {RelaySubmitted, RelayConfirmed}" "gs_budgets (rl_gas s1) = gs_budgets (rl_gas s)"
    "gs_sponsorshipTxs (rl_gas s1) = gs_sponsorshipTxs (rl_gas s)" "rl_nonceStore s1 = rl_nonceStore s"
  shows "relay_effect req config now s (fst (reject_record st msg r t s1)) (snd (reject_record st msg r t s1))"
  using assms by (simp add: reject_record_def Let_def put_record_def turned_down)

lemma relay_uuid_frame [simp]:
  "rl_nonceStore (snd (relay_uuid env s)) = rl_nonceStore s" "rl_relayRecords (snd (relay_uuid env s)) = rl_relayRecords s"
  "gs_budgets (rl_gas (snd (relay_uuid env s))) = gs_budgets (rl_gas s)"
  "gs_sponsorshipTxs (rl_gas (snd (relay_uuid env s))) = gs_sponsorshipTxs (rl_gas s)"
  by (simp_all add: relay_uuid_def)

lemma put_record_frame [simp]: "rl_nonceStore (put_record r s) = rl_nonceStore s" "rl_gas (put_record r s) = rl_gas s"
  by (simp_all add: put_record_def)

lemma mark_frame [simp]: "rl_gas (markNonceUsed w c n s) = rl_gas s"
  by (simp add: markNonceUsed_def Let_def)

lemma nonce_cong: "rl_nonceStore s1 = rl_nonceStore s \<Longrightarrow> isNonceUsed w c n s1 = isNonceUsed w c n s"
  "rl_nonceStore s1 = rl_nonceStore s \<Longrightarrow> rl_nonceStore (markNonceUsed w c n s1) = rl_nonceStore (markNonceUsed w c n s)"
  by (simp_all add: isNonceUsed_def markNonceUsed_def Let_def)

lemma sponsor_effect:
  assumes b: "js_get (gs_budgets (rl_gas s)) (mr_merchantId req) = Some b" "sb_active b" "of_int (requested_gas req) \<le> sb_gasCapPerTx b"
    and n: "\<not> isNonceUsed (mr_from req) (mr_chainId req) (mr_nonce req) s"
    and s1: "gs_budgets (rl_gas s1) = gs_budgets (rl_gas s)" "gs_sponsorshipTxs (rl_gas s1) = gs_sponsorshipTxs (rl_gas s)"
      "rl_nonceStore s1 = rl_nonceStore s"
  shows "relay_effect req config now s (fst (sponsor env req (estimateEIP1559Gas (requested_gas req) config usd) r now s1))
    (snd (sponsor env req (estimateEIP1559Gas (requested_gas req) config usd) r now s1))"
proof -
  let ?e = "estimateEIP1559Gas (requested_gas req) config usd"
  have e: "ga_estimatedGasUnits ?e = requested_gas req" "ga_estimatedCostWei ?e = int_text (gas_price config * requested_gas req)"
    by (simp_all add: estimateEIP1559Gas_def gas_price_def Let_def)
  obtain uuid s2 where u: "relay_uuid env (markNonceUsed (mr_from req) (mr_chainId req) (mr_nonce req) s1) = (uuid, s2)" by fastforce
  have s2: "gs_budgets (rl_gas s2) = gs_budgets (rl_gas s)" "gs_sponsorshipTxs (rl_gas s2) = gs_sponsorshipTxs (rl_gas s)"
    "rl_nonceStore s2 = rl_nonceStore (markNonceUsed (mr_from req) (mr_chainId req) (mr_nonce req) s)"
    using relay_uuid_frame [of env "markNonceUsed (mr_from req) (mr_chainId req) (mr_nonce req) s1"] s1
      nonce_cong(2) [OF s1(3), of "mr_from req" "mr_chainId req" "mr_nonce req"] by (simp_all add: u)
  have b2: "js_get (gs_budgets (rl_gas s2)) (mr_merchantId req) = Some b" using b(1) s2(1) by simp
  show ?thesis
  proof (rule record_cases [OF b2, of env "mr_from req" "requested_gas req" "gas_price config * requested_gas req" None None now])
    fix err
    assume r: "recordGasSpend env (mr_merchantId req) (mr_from req) (requested_gas req) (int_text (gas_price config * requested_gas req))
      None None now (rl_gas s2) = (Inl err, rl_gas s2)"
    show ?thesis
      using not_billed [OF b(1) n] s2 by (simp add: sponsor_def u e r Let_def)
  next
    fix tx x d g
    assume res: "recordGasSpend env (mr_merchantId req) (mr_from req) (requested_gas req) (int_text (gas_price config * requested_gas req))
      None None now (rl_gas s2) = (Inr tx, g)"
      and g: "js_BigInt (sb_spentWei b) = Some x" "js_BigInt (sb_totalDepositedWei b) = Some d"
        "gs_budgets g = js_set (mr_merchantId req) (charged (x + gas_price config * requested_gas req) d now b) (gs_budgets (rl_gas s2))"
        "gs_sponsorshipTxs g = gs_sponsorshipTxs (rl_gas s2) @ [tx]" "sx_merchantId tx = mr_merchantId req"
        "sx_gasCostWei tx = int_text (gas_price config * requested_gas req)"
    have "\<exists>r2 s4. sponsor env req ?e r now s1 = (Inr r2, s4) \<and> rr_status r2 = RelayConfirmed \<and> rl_gas s4 = g \<and> rl_nonceStore s4 = rl_nonceStore s2"
      by (simp add: sponsor_def u e res Let_def)
    then obtain r2 s4 where fin: "sponsor env req ?e r now s1 = (Inr r2, s4)" "rr_status r2 = RelayConfirmed" "rl_gas s4 = g"
      "rl_nonceStore s4 = rl_nonceStore s2" by blast
    have "relay_effect req config now s (Inr r2) s4"
      by (rule sponsored [OF b(1) n b(2,3) g(1,2) _ _ g(5,6) fin(2)]) (simp_all add: fin g s2)
    then show ?thesis by (simp add: fin)
  qed
qed

lemma submit_effect:
  "relay_effect req config now s (fst (submitMetaTransaction env req config usd now s)) (snd (submitMetaTransaction env req config usd now s))"
proof -
  obtain i s1 where u: "relay_uuid env s = (i, s1)" by fastforce
  define s2 where "s2 = put_record (new_relay_record i req now) s1"
  have s2: "gs_budgets (rl_gas s2) = gs_budgets (rl_gas s)" "gs_sponsorshipTxs (rl_gas s2) = gs_sponsorshipTxs (rl_gas s)"
    "rl_nonceStore s2 = rl_nonceStore s"
    using relay_uuid_frame [of env s] by (simp_all add: s2_def u)
  let ?units = "requested_gas req"
  obtain check gas where v: "verifyBudget env (mr_merchantId req) (mr_from req) ?units now (rl_gas s2) = (check, gas)" by fastforce
  define s3 where "s3 = s2\<lparr>rl_gas := gas\<rparr>"
  have s3: "gs_budgets (rl_gas s3) = gs_budgets (rl_gas s)" "gs_sponsorshipTxs (rl_gas s3) = gs_sponsorshipTxs (rl_gas s)"
    "rl_nonceStore s3 = rl_nonceStore s"
    using verify_frame [of env "mr_merchantId req" "mr_from req" ?units now "rl_gas s2"] s2 by (simp_all add: s3_def v)
  let ?r = "new_relay_record i req now"
  have units: "ga_estimatedGasUnits (estimateEIP1559Gas ?units config usd) = ?units" by (simp add: estimateEIP1559Gas_def Let_def)
  have sub: "submitMetaTransaction env req config usd now s =
     (if \<not> isValidHexSignature (mr_signature req)
      then reject_record RelayRejectedSignature (Some ''Invalid EIP-712 signature format'') ?r now s2
      else if isDeadlinePassed (mr_deadline req) now
      then reject_record RelayRejectedSignature (Some ''Meta-transaction deadline has passed'') ?r now s2
      else if isNonceUsed (mr_from req) (mr_chainId req) (mr_nonce req) s
      then reject_record RelayRejectedSignature (Some ''Nonce already used (replay attempt)'') ?r now s2
      else if \<not> bc_allowed check
      then reject_record (if bc_reason check = Some ''rate_limit_exceeded'' then RelayRejectedRateLimit else RelayRejectedBudget)
        (bc_reason check) ?r now s3
      else sponsor env req (estimateEIP1559Gas ?units config usd) ?r now s3)"
    by (simp add: submitMetaTransaction_def u s2_def [symmetric] units v s3_def [symmetric] nonce_cong(1) [OF s2(3)] Let_def)
  show ?thesis
  proof (cases "isValidHexSignature (mr_signature req) \<and> \<not> isDeadlinePassed (mr_deadline req) now \<and>
      \<not> isNonceUsed (mr_from req) (mr_chainId req) (mr_nonce req) s \<and> bc_allowed check")
    case True
    then have "bc_allowed (fst (verifyBudget env (mr_merchantId req) (mr_from req) ?units now (rl_gas s2)))" by (simp add: v)
    then obtain b where b: "js_get (gs_budgets (rl_gas s2)) (mr_merchantId req) = Some b" "sb_active b" "of_int ?units \<le> sb_gasCapPerTx b"
      by (rule verify_allowed)
    show ?thesis
      using sponsor_effect [of s req b s3] b True s2 s3 by (simp add: sub)
  next
    case False
    then show ?thesis
      using s2 s3 by (auto simp: sub intro!: reject_effect_relay)
  qed
qed

subsection \<open>Used nonces\<close>

lemma nonce_marked:
  "isNonceUsed w c n (markNonceUsed w' c' n' s) \<longleftrightarrow> isNonceUsed w c n s \<or> to_lower w = to_lower w' \<and> c = c' \<and> n = n'"
  by (auto simp: isNonceUsed_def markNonceUsed_def js_or_def Let_def split: option.splits if_splits)

lemma nonce_kept_step: "relay_step env s s' \<Longrightarrow> isNonceUsed w c n s \<Longrightarrow> isNonceUsed w c n s'"
proof (induction rule: relay_step.induct)
  case (rl_submit s req config usd now)
  from submit_effect [of req config now s env usd] show ?case
    by cases (use rl_submit nonce_marked in \<open>simp_all add: nonce_cong(1) isNonceUsed_def\<close>)
qed (simp_all add: isNonceUsed_def)

lemma nonce_kept: "relay_run env s s' \<Longrightarrow> isNonceUsed w c n s \<Longrightarrow> isNonceUsed w c n s'"
  by (induction rule: rtranclp_induct) (simp_all add: nonce_kept_step)

lemma replay_rejected:
  assumes "isNonceUsed (mr_from req) (mr_chainId req) (mr_nonce req) s"
  shows "\<exists>r. fst (submitMetaTransaction env req config usd now s) = Inr r \<and> rr_status r = RelayRejectedSignature"
proof -
  obtain i s1 where u: "relay_uuid env s = (i, s1)" by fastforce
  have "isNonceUsed (mr_from req) (mr_chainId req) (mr_nonce req) (put_record r s1)" for r
    using assms relay_uuid_frame(1) [of env s] by (simp add: u isNonceUsed_def)
  then show ?thesis by (simp add: submitMetaTransaction_def u reject_record_def Let_def)
qed

subsection \<open>Ledgers\<close>

text \<open>What is billed to a merchant.\<close>

definition billed_wei :: "string \<Rightarrow> relay_store \<Rightarrow> int" where
  "billed_wei m s = sum_list (map (\<lambda>t. the (js_BigInt (sx_gasCostWei t))) (filter (\<lambda>t. sx_merchantId t = m) (gs_sponsorshipTxs (rl_gas s))))"

text \<open>Calls that do not create the budget of a merchant anew.\<close>

inductive kept_step :: "gas_env \<Rightarrow> string \<Rightarrow> relay_store \<Rightarrow> relay_store \<Rightarrow> bool" for env m where
  kp_create: "k \<noteq> m \<Longrightarrow> kept_step env m s (s\<lparr>rl_gas := snd (createBudget env k depositWei cap rate now (rl_gas s))\<rparr>)"
| kp_topUp: "kept_step env m s (s\<lparr>rl_gas := snd (topUpBudget k wei now (rl_gas s))\<rparr>)"
| kp_policy: "kept_step env m s (s\<lparr>rl_gas := snd (updateBudgetPolicy k updates now (rl_gas s))\<rparr>)"
| kp_submit: "kept_step env m s (snd (submitMetaTransaction env req config usd now s))"

text \<open>A budget whose amounts are integers.\<close>

definition books :: "string \<Rightarrow> relay_store \<Rightarrow> int \<Rightarrow> int \<Rightarrow> SponsorshipBudget \<Rightarrow> bool" where
  "books m s x d b \<longleftrightarrow> js_get (gs_budgets (rl_gas s)) m = Some b \<and> js_BigInt (sb_spentWei b) = Some x \<and> js_BigInt (sb_totalDepositedWei b) = Some d"

lemma BigInt_0: "js_BigInt ''0'' = Some 0"
  by code_simp

lemma books_charged: "js_BigInt (sb_totalDepositedWei b) = Some d \<Longrightarrow>
    js_BigInt (sb_spentWei (charged x d now b)) = Some x \<and> js_BigInt (sb_totalDepositedWei (charged x d now b)) = Some d \<and>
    js_BigInt (sb_availableWei (charged x d now b)) = Some (max 0 (d - x)) \<and> sb_gasCapPerTx (charged x d now b) = sb_gasCapPerTx b \<and>
    (sb_active (charged x d now b) \<longleftrightarrow> sb_active b \<and> x < d)"
  by (auto simp: charged_def BigInt_0)

lemma topUp_budgets:
  "(\<exists>b t a. js_get (gs_budgets s) k = Some b \<and> gs_budgets (snd (topUpBudget k wei now s)) =
      js_set k (b\<lparr>sb_totalDepositedWei := int_text t, sb_availableWei := a, sb_active := True, sb_updatedAt := now\<rparr>) (gs_budgets s)) \<or>
   gs_budgets (snd (topUpBudget k wei now s)) = gs_budgets s"
  by (auto simp: topUpBudget_def Let_def split: option.splits sum.splits)

lemma topUp_txs [simp]: "gs_sponsorshipTxs (snd (topUpBudget k wei now s)) = gs_sponsorshipTxs s"
  by (auto simp: topUpBudget_def Let_def split: option.splits sum.splits)

lemma policy_budgets:
  "(\<exists>b b'. js_get (gs_budgets s) k = Some b \<and> gs_budgets (snd (updateBudgetPolicy k u now s)) = js_set k b' (gs_budgets s) \<and>
      sb_spentWei b' = sb_spentWei b \<and> sb_totalDepositedWei b' = sb_totalDepositedWei b) \<or>
   gs_budgets (snd (updateBudgetPolicy k u now s)) = gs_budgets s"
  by (auto simp: updateBudgetPolicy_def Let_def split: option.splits)

lemma policy_txs [simp]: "gs_sponsorshipTxs (snd (updateBudgetPolicy k u now s)) = gs_sponsorshipTxs s"
  by (auto simp: updateBudgetPolicy_def Let_def split: option.splits)

lemma create_frame [simp]:
  "gs_sponsorshipTxs (snd (createBudget env k w c r now s)) = gs_sponsorshipTxs s"
  "k \<noteq> m \<Longrightarrow> js_get (gs_budgets (snd (createBudget env k w c r now s))) m = js_get (gs_budgets s) m"
  by (simp_all add: createBudget_def Let_def)

lemma billed_snoc: "gs_sponsorshipTxs (rl_gas s') = gs_sponsorshipTxs (rl_gas s) @ [tx] \<Longrightarrow>
    billed_wei m s' = billed_wei m s + (if sx_merchantId tx = m then the (js_BigInt (sx_gasCostWei tx)) else 0)"
  by (simp add: billed_wei_def)

lemma kept_step_books:
  assumes "kept_step env m s s'" "books m s x d b"
  shows "\<exists>b' x' d'. books m s' x' d' b' \<and> x' - x = billed_wei m s' - billed_wei m s"
  using assms
proof (induction rule: kept_step.induct)
  case (kp_create k s w c r now)
  then show ?case by (auto simp: books_def billed_wei_def)
next
  case (kp_topUp s k wei now)
  then show ?case using topUp_budgets [of "rl_gas s" k wei now] by (cases "k = m") (auto simp: books_def billed_wei_def)
next
  case (kp_policy s k u now)
  then show ?case using policy_budgets [of "rl_gas s" k u now] by (cases "k = m") (auto simp: books_def billed_wei_def)
next
  case (kp_submit s req config usd now)
  let ?s' = "snd (submitMetaTransaction env req config usd now s)"
  from submit_effect [of req config now s env usd] show ?case
  proof cases
    case (sponsored b1 x1 d1 tx r)
    show ?thesis
    proof (cases "mr_merchantId req = m")
      case True
      then have "b1 = b" "x1 = x" "d1 = d" using kp_submit sponsored by (auto simp: books_def)
      then have "books m ?s' (x + gas_price config * requested_gas req) d (charged (x + gas_price config * requested_gas req) d now b)"
        using sponsored(8) True books_charged [of b d] kp_submit by (simp add: books_def)
      moreover have "billed_wei m ?s' = billed_wei m s + gas_price config * requested_gas req"
        using billed_snoc [OF sponsored(9), of m] sponsored(10,11) True by simp
      ultimately show ?thesis by fastforce
    next
      case False
      then show ?thesis using kp_submit sponsored(8,10) billed_snoc [OF sponsored(9), of m] by (auto simp: books_def)
    qed
  qed (use kp_submit in \<open>auto simp: books_def billed_wei_def\<close>)
qed

subsection \<open>Overdrafts\<close>

text \<open>Submissions at a bounded price of gas.\<close>

inductive submit_step :: "gas_env \<Rightarrow> int \<Rightarrow> relay_store \<Rightarrow> relay_store \<Rightarrow> bool" for env p where
  sb_submit: "0 \<le> gas_price config \<Longrightarrow> gas_price config \<le> p \<Longrightarrow> submit_step env p s (snd (submitMetaTransaction env req config usd now s))"

definition overdraft_ok :: "string \<Rightarrow> rat \<Rightarrow> int \<Rightarrow> relay_store \<Rightarrow> int \<Rightarrow> int \<Rightarrow> SponsorshipBudget \<Rightarrow> bool" where
  "overdraft_ok m cap p s x d b \<longleftrightarrow> books m s x d b \<and> js_BigInt (sb_availableWei b) = Some (max 0 (d - x)) \<and>
     sb_gasCapPerTx b = cap \<and> (sb_active b \<longrightarrow> x < d) \<and> of_int x \<le> of_int d + of_int p * cap"

lemma charge_bounded:
  assumes "0 \<le> q" "q \<le> p" "of_int u \<le> cap" "0 \<le> (cap :: rat)"
  shows "of_int (q * u) \<le> of_int p * cap"
proof (cases "0 \<le> u")
  case True
  then have "of_int q * of_int u \<le> of_int p * (of_int u :: rat)" using assms by (intro mult_right_mono) simp_all
  also have "\<dots> \<le> of_int p * cap" using assms by (intro mult_left_mono) simp_all
  finally show ?thesis by simp
next
  case False
  then have "q * u \<le> 0" using assms by (simp add: mult_nonneg_nonpos)
  then have "(of_int (q * u) :: rat) \<le> 0" by (simp only: of_int_le_0_iff)
  also have "0 \<le> of_int p * cap" using assms by simp
  finally show ?thesis .
qed

lemma submit_overdraft:
  assumes "submit_step env p s s'" "0 \<le> cap" "overdraft_ok m cap p s x d b"
  shows "\<exists>b' x'. overdraft_ok m cap p s' x' d b'"
  using assms(1)
proof cases
  case (sb_submit config req usd now)
  have ok: "books m s x d b" "sb_gasCapPerTx b = cap" "sb_active b \<longrightarrow> x < d" using assms(3) by (simp_all add: overdraft_ok_def)
  from submit_effect [of req config now s env usd] show ?thesis
  proof cases
    case (sponsored b1 x1 d1 tx r)
    show ?thesis
    proof (cases "mr_merchantId req = m")
      case True
      then have same: "b1 = b" "x1 = x" "d1 = d" using ok sponsored by (auto simp: books_def)
      let ?x = "x + gas_price config * requested_gas req"
      have "(of_int (gas_price config * requested_gas req) :: rat) \<le> of_int p * cap"
        using charge_bounded [OF sb_submit(2,3) _ assms(2)] sponsored(5) ok same by simp
      moreover have "x < d" using ok sponsored(4) same by simp
      ultimately have "(of_int ?x :: rat) \<le> of_int d + of_int p * cap" by (simp add: add_mono)
      then have "overdraft_ok m cap p s' ?x d (charged ?x d now b)"
        using sponsored(8) True same ok books_charged [of b d ?x now] unfolding sb_submit(1) by (auto simp: overdraft_ok_def books_def)
      then show ?thesis by blast
    next
      case False
      then show ?thesis using assms(3) sponsored(8) unfolding sb_submit(1) by (auto simp: overdraft_ok_def books_def)
    qed
  qed (use assms(3) sb_submit(1) in \<open>auto simp: overdraft_ok_def books_def\<close>)
qed

subsection \<open>A merchant for the witnesses\<close>

definition shop_env :: gas_env where
  "shop_env = \<lparr>ge_uuid = (\<lambda>n. nat_text n), ge_number = (\<lambda>x. ''1'')\<rparr>"

definition shop_config :: GasEstimationConfig where
  "shop_config = \<lparr>gc_baseFeeWei = 20, gc_priorityFeeWei = 1, gc_multiplier = 12 / 10\<rparr>"

definition shop_request :: "string \<Rightarrow> string \<Rightarrow> MetaTransactionRequest" where
  "shop_request gas nonce = \<lparr>mr_from = ''0xU'', mr_to = ''0xT'', mr_value = ''0x0'', mr_gas = gas, mr_nonce = nonce, mr_deadline = 100,
     mr_data = ''0x'', mr_signature = ''0x'' @ replicate 130 (CHR ''a''), mr_chainId = 1, mr_merchantId = ''m''\<rparr>"

text \<open>A budget of 1000 wei with 50 units a transaction; then one of 40 units, at 22 wei each, and one more.\<close>

definition shop_with :: "string \<Rightarrow> relay_store" where
  "shop_with wei = new_relay_store\<lparr>rl_gas := snd (createBudget shop_env ''m'' wei 50 3 0 new_gas_store)\<rparr>"

definition shop0 :: relay_store where
  "shop0 = shop_with ''1000''"

definition shop1 :: relay_store where
  "shop1 = snd (submitMetaTransaction shop_env (shop_request ''0x28'' ''0x1'') shop_config None 1000 shop0)"

definition shop2 :: relay_store where
  "shop2 = snd (submitMetaTransaction shop_env (shop_request ''0x28'' ''0x2'') shop_config None 2000 shop1)"

lemma shop_price: "gas_price shop_config = 22"
  by code_simp

lemma shop_steps: "kept_step shop_env ''m'' shop0 shop1" "kept_step shop_env ''m'' shop1 shop2"
    "submit_step shop_env 22 shop0 shop1" "submit_step shop_env 22 shop1 shop2" "relay_step shop_env shop1 shop2"
  unfolding shop1_def shop2_def
  by (rule kp_submit, rule kp_submit, rule sb_submit, simp add: shop_price, simp add: shop_price, rule sb_submit, simp add: shop_price,
      simp add: shop_price, rule rl_submit)

lemma shop_budget: "map_option (\<lambda>b. (sb_spentWei b, sb_availableWei b)) (getBudget ''m'' (rl_gas shop2)) = Some (''1760'', ''0'')"
  by code_simp

lemma shop0_budget:
  obtains b where "js_get (gs_budgets (rl_gas shop0)) ''m'' = Some b" "sb_spentWei b = ''0''" "sb_totalDepositedWei b = ''1000''"
    "sb_availableWei b = ''1000''" "sb_gasCapPerTx b = 50"
  by (rule that [of "fst (createBudget shop_env ''m'' ''1000'' 50 3 0 new_gas_store)"])
    (simp_all add: shop0_def shop_with_def createBudget_def Let_def new_relay_store_def)

lemma BigInt_1000: "js_BigInt ''1000'' = Some 1000"
  by code_simp

subsection \<open>Properties\<close>

text \<open>
  C35: A nonce is sponsored once: after a transaction is confirmed, whatever is called since, another
  submission for the same wallet, chain and nonce is rejected, and neither budgets nor bills change.
\<close>

theorem nonce_sponsored_once:
  assumes "fst (submitMetaTransaction env req config usd now s) = Inr r" "rr_status r = RelayConfirmed"
    and "relay_run env (snd (submitMetaTransaction env req config usd now s)) s'"
    and "to_lower (mr_from req') = to_lower (mr_from req)" "mr_chainId req' = mr_chainId req" "mr_nonce req' = mr_nonce req"
  shows "\<exists>r'. fst (submitMetaTransaction env req' config' usd' now' s') = Inr r' \<and> rr_status r' = RelayRejectedSignature \<and>
     gs_budgets (rl_gas (snd (submitMetaTransaction env req' config' usd' now' s'))) = gs_budgets (rl_gas s') \<and>
     gs_sponsorshipTxs (rl_gas (snd (submitMetaTransaction env req' config' usd' now' s'))) = gs_sponsorshipTxs (rl_gas s')"
proof -
  from submit_effect [of req config now s env usd, unfolded assms(1)]
  have "isNonceUsed (mr_from req) (mr_chainId req) (mr_nonce req) (snd (submitMetaTransaction env req config usd now s))"
    using assms(2) nonce_marked by cases (simp_all add: isNonceUsed_def)
  then have "isNonceUsed (mr_from req') (mr_chainId req') (mr_nonce req') s'"
    using nonce_kept [OF assms(3)] assms(4-6) by (simp add: isNonceUsed_def)
  note used = this
  obtain r' where r': "fst (submitMetaTransaction env req' config' usd' now' s') = Inr r'" "rr_status r' = RelayRejectedSignature"
    using replay_rejected [OF used] by blast
  from submit_effect [of req' config' now' s' env usd', unfolded r'(1)] show ?thesis
    by cases (use r' used in auto)
qed

theorem nonce_sponsored_once_witness:
  "\<exists>r'. fst (submitMetaTransaction shop_env ((shop_request ''0x28'' ''0x1'')\<lparr>mr_from := ''0xu''\<rparr>) shop_config None 3000 shop2) = Inr r' \<and>
     rr_status r' = RelayRejectedSignature"
proof -
  let ?t = "submitMetaTransaction shop_env (shop_request ''0x28'' ''0x1'') shop_config None 1000 shop0"
  have "(case fst ?t of Inl _ \<Rightarrow> False | Inr r \<Rightarrow> rr_status r = RelayConfirmed)" by code_simp
  then obtain r where r: "fst ?t = Inr r" "rr_status r = RelayConfirmed" by (auto split: sum.splits)
  have run: "relay_run shop_env (snd ?t) shop2" using shop_steps(5) by (simp add: shop1_def r_into_rtranclp)
  have from_lower: "to_lower (mr_from ((shop_request ''0x28'' ''0x1'')\<lparr>mr_from := ''0xu''\<rparr>)) = to_lower (mr_from (shop_request ''0x28'' ''0x1''))"
    by code_simp
  show ?thesis using nonce_sponsored_once [OF r run from_lower] by fastforce
qed

text \<open>
  C36: Until its budget is created anew, what a merchant's budget says is spent grows by exactly what is
  billed to the merchant in transactions, in every sequence of calls.
\<close>

theorem spent_is_billed:
  assumes "(kept_step env m)\<^sup>*\<^sup>* s s'" "js_get (gs_budgets (rl_gas s)) m = Some b"
    and "js_BigInt (sb_spentWei b) = Some x" "js_BigInt (sb_totalDepositedWei b) = Some d"
  shows "\<exists>b' x'. js_get (gs_budgets (rl_gas s')) m = Some b' \<and> js_BigInt (sb_spentWei b') = Some x' \<and> x' - x = billed_wei m s' - billed_wei m s"
proof -
  from assms(1) have "\<exists>b' x' d'. books m s' x' d' b' \<and> x' - x = billed_wei m s' - billed_wei m s"
  proof (induction rule: rtranclp_induct)
    case base
    then show ?case using assms(2-4) by (auto simp: books_def)
  next
    case (step s1 s2)
    then show ?case using kept_step_books [OF step(2)] by fastforce
  qed
  then show ?thesis by (auto simp: books_def)
qed

theorem spent_is_billed_witness: "\<exists>b' x'. js_get (gs_budgets (rl_gas shop2)) ''m'' = Some b' \<and> js_BigInt (sb_spentWei b') = Some x' \<and> x' = 1760"
proof -
  have run: "(kept_step shop_env ''m'')\<^sup>*\<^sup>* shop0 shop2" using shop_steps by (meson r_into_rtranclp rtranclp.rtrancl_into_rtrancl)
  obtain b where b: "js_get (gs_budgets (rl_gas shop0)) ''m'' = Some b" "sb_spentWei b = ''0''" "sb_totalDepositedWei b = ''1000''"
    by (rule shop0_budget)
  have "billed_wei ''m'' shop2 - billed_wei ''m'' shop0 = 1760" by code_simp
  then show ?thesis using spent_is_billed [OF run b(1), of 0 1000] b by (simp add: BigInt_0 BigInt_1000)
qed

text \<open>
  C37: While users submit transactions, at prices of gas up to \<open>p\<close>, a budget is overdrawn by at most the
  price of one transaction of as much gas as it allows, and its available amount is what is left.
\<close>

theorem overdraft_is_one_transaction:
  assumes "(submit_step env p)\<^sup>*\<^sup>* s s'" "js_get (gs_budgets (rl_gas s)) m = Some b" "0 \<le> p" "0 \<le> sb_gasCapPerTx b"
    and "js_BigInt (sb_spentWei b) = Some x" "js_BigInt (sb_totalDepositedWei b) = Some d" "js_BigInt (sb_availableWei b) = Some (d - x)" "x < d"
  shows "\<exists>b' x'. js_get (gs_budgets (rl_gas s')) m = Some b' \<and> js_BigInt (sb_spentWei b') = Some x' \<and>
     js_BigInt (sb_availableWei b') = Some (max 0 (d - x')) \<and> of_int x' \<le> of_int d + of_int p * sb_gasCapPerTx b"
proof -
  let ?cap = "sb_gasCapPerTx b"
  have "(of_int x :: rat) \<le> of_int d" using assms(8) by simp
  moreover have "0 \<le> of_int p * ?cap" using assms(3,4) by simp
  ultimately have "(of_int x :: rat) \<le> of_int d + of_int p * ?cap" by (rule add_increasing2 [rotated])
  then have "overdraft_ok m ?cap p s x d b" using assms(2,5-8) by (simp add: overdraft_ok_def books_def)
  from assms(1) this have "\<exists>b' x'. overdraft_ok m ?cap p s' x' d b'"
    by (induction rule: rtranclp_induct) (blast, metis submit_overdraft [OF _ assms(4)])
  then show ?thesis by (auto simp: overdraft_ok_def books_def)
qed

theorem overdraft_is_one_transaction_witness:
  "\<exists>b' x'. js_get (gs_budgets (rl_gas shop2)) ''m'' = Some b' \<and> js_BigInt (sb_spentWei b') = Some x' \<and> 1000 < x' \<and> x' \<le> 2100"
proof -
  have run: "(submit_step shop_env 22)\<^sup>*\<^sup>* shop0 shop2" using shop_steps by (meson r_into_rtranclp rtranclp.rtrancl_into_rtrancl)
  obtain b where b: "js_get (gs_budgets (rl_gas shop0)) ''m'' = Some b" "sb_spentWei b = ''0''" "sb_totalDepositedWei b = ''1000''"
    "sb_availableWei b = ''1000''" "sb_gasCapPerTx b = 50" by (rule shop0_budget)
  have "map_option sb_spentWei (js_get (gs_budgets (rl_gas shop2)) ''m'') = Some ''1760''" by code_simp
  then obtain b2 where b2: "js_get (gs_budgets (rl_gas shop2)) ''m'' = Some b2" "sb_spentWei b2 = ''1760''" by auto
  have "js_BigInt ''1760'' = Some 1760" by code_simp
  then show ?thesis
    using overdraft_is_one_transaction [OF run b(1), of 0 1000] b b2 by (simp add: BigInt_0 BigInt_1000)
qed

subsection \<open>What the relay lets through\<close>

text \<open>A negative amount of gas is billed: the budget spends less than nothing, and more is available than was deposited.\<close>

lemma negative_gas_credits:
  "map_option (\<lambda>b. (sb_totalDepositedWei b, sb_spentWei b, sb_availableWei b)) (getBudget ''m'' (rl_gas
     (snd (submitMetaTransaction shop_env (shop_request ''-0x28'' ''0x1'') shop_config None 1000 shop0)))) = Some (''1000'', ''-880'', ''1880'')"
  by code_simp

text \<open>Nonces are compared as texts: the same number written another way is sponsored again.\<close>

lemma nonce_in_another_spelling:
  "(case fst (submitMetaTransaction shop_env (shop_request ''0x28'' ''0x01'') shop_config None 2000 shop1) of
      Inl _ \<Rightarrow> False | Inr r \<Rightarrow> rr_status r = RelayConfirmed)"
  by code_simp

text \<open>After an overdraft a top-up is available in full, although it does not cover what is spent.\<close>

lemma top_up_after_overdraft:
  "map_option (\<lambda>b. (sb_totalDepositedWei b, sb_spentWei b, sb_availableWei b, sb_active b))
     (getBudget ''m'' (snd (topUpBudget ''m'' ''100'' 3000 (rl_gas shop2)))) = Some (''1100'', ''1760'', ''100'', True)"
  by code_simp

text \<open>
  A deposit that is not a number is accepted. A transaction is then confirmed and its nonce used, before
  the debit throws: nothing is ever billed.
\<close>

lemma confirmed_but_not_billed:
  "let (r, s) = submitMetaTransaction shop_env (shop_request ''0x28'' ''0x1'') shop_config None 1000 (shop_with ''1 ether'')
   in (case r of Inl _ \<Rightarrow> True | Inr _ \<Rightarrow> False) \<and> map rr_status (js_values (rl_relayRecords s)) = [RelayConfirmed] \<and>
      gs_sponsorshipTxs (rl_gas s) = []"
  by code_simp

end
