(* ===== verification/WebhookKeys.thy ===== *)
theory WebhookKeys
  imports DecimalMoney
begin

text \<open>
  \<open>backend/src/services/webhookKeys.ts\<close>: the registry of the keys that sign webhooks. A key is active,
  then retiring for an overlap after its rotation, or revoked; signatures are HMACs over the time and the
  body. The HMAC, random secrets and identifiers, \<open>Date.parse\<close>, the texts of numbers and the clock (read
  once for a call) are arguments. A body is the text that is signed, a time to sign whole seconds.
\<close>

datatype WebhookKeyStatus = WkActive | WkRetiring | WkRevoked

primrec webhook_status_text :: "WebhookKeyStatus \<Rightarrow> string" where
  "webhook_status_text WkActive = ''active''"
| "webhook_status_text WkRetiring = ''retiring''"
| "webhook_status_text WkRevoked = ''revoked''"

definition DEFAULT_TOLERANCE_SECONDS :: int where "DEFAULT_TOLERANCE_SECONDS = 300"

definition DEFAULT_OVERLAP_SECONDS :: int where "DEFAULT_OVERLAP_SECONDS = 72 * 60 * 60"

definition DEFAULT_RETENTION_SECONDS :: int where "DEFAULT_RETENTION_SECONDS = 7 * 24 * 60 * 60"

definition MIN_WEBHOOK_KEY_SECRET_LENGTH :: nat where "MIN_WEBHOOK_KEY_SECRET_LENGTH = 32"

record WebhookKeyRecord =
  wk_keyId :: string
  wk_provider :: string
  wk_secret :: string
  wk_status :: WebhookKeyStatus
  wk_createdAt :: int
  wk_retiredAt :: "int option"
  wk_revokedAt :: "int option"
  wk_expiresAt :: "int option"
  wk_lastUsedAt :: "int option"
  wk_label :: "string option"

record WebhookKeyGenerationInput =
  wg_provider :: "string option"
  wg_secret :: "string option"
  wg_keyId :: "string option"
  wg_label :: "string option"
  wg_expiresAt :: "int option"

record SignWebhookPayloadInput =
  ws_provider :: "string option"
  ws_keyId :: "string option"
  ws_body :: string
  ws_timestamp :: "int option"

record SignWebhookResult =
  wsr_signature :: string
  wsr_version :: string
  wsr_timestamp :: string
  wsr_keyId :: string

text \<open>A time is a number or a text.\<close>

datatype webhook_time = NumberTime rat | TextTime string

record VerifyWebhookSignatureInput =
  wv_signature :: string
  wv_time :: webhook_time
  wv_body :: string
  wv_provider :: "string option"
  wv_keyId :: "string option"
  wv_toleranceSeconds :: "int option"

datatype WebhookRejectionReason = MissingSignature | MissingTimestamp | InvalidSignatureFormat | TimestampOutOfTolerance
  | NoKeys | UnknownKey | KeyRevoked | KeyExpired | SignatureMismatch

record VerifyWebhookSignatureResult =
  wo_isValid :: bool
  wo_provider :: "string option"
  wo_keyId :: "string option"
  wo_timestamp :: rat
  wo_ageMs :: rat
  wo_error :: "string option"
  wo_reason :: "WebhookRejectionReason option"

record WebhookKeyError =
  wke_code :: string
  wke_message :: string

record webhook_env =
  wh_hmac :: "string \<Rightarrow> string \<Rightarrow> string"
  wh_secret :: "nat \<Rightarrow> string"
  wh_suffix :: "nat \<Rightarrow> string"
  wh_dateParse :: "string \<Rightarrow> int option"
  wh_number :: "rat \<Rightarrow> string"

record webhook_metrics =
  wm_registered :: nat
  wm_rotated :: nat
  wm_revoked :: nat
  wm_purged :: nat
  wm_signs :: nat
  wm_signErrors :: nat
  wm_verifications :: nat
  wm_verified :: nat
  wm_rejected :: nat
  wm_rejections :: "(WebhookRejectionReason, nat) jsmap"

record webhook_registry =
  wk_overlapSeconds :: int
  wk_retentionSeconds :: int
  wk_toleranceSeconds :: int
  wk_keys :: "(string, WebhookKeyRecord) jsmap"
  wk_metrics :: webhook_metrics
  wk_random :: nat

definition no_metrics :: webhook_metrics where
  "no_metrics = \<lparr>wm_registered = 0, wm_rotated = 0, wm_revoked = 0, wm_purged = 0, wm_signs = 0, wm_signErrors = 0,
     wm_verifications = 0, wm_verified = 0, wm_rejected = 0, wm_rejections = []\<rparr>"

type_synonym 'a webhook_op = "(webhook_registry, WebhookKeyError, 'a) op"

definition wk_error :: "string \<Rightarrow> string \<Rightarrow> WebhookKeyError" where
  "wk_error code message = \<lparr>wke_code = code, wke_message = message\<rparr>"

subsection \<open>Digests and signatures\<close>

definition DIGEST_PREFIXES :: "string list" where
  "DIGEST_PREFIXES = [''v1='', ''sha256='', ''sig-sha256='', ''sha256-'']"

definition hex_digest :: "string \<Rightarrow> bool" where
  "hex_digest s \<longleftrightarrow> length s = 64 \<and> list_all (\<lambda>c. hex_value c \<noteq> None) s"

definition formatId :: "webhook_env \<Rightarrow> string \<Rightarrow> string \<Rightarrow> nat \<Rightarrow> string" where
  "formatId env provider pre n = pre @ (if provider = [] then [] else provider @ ''_'') @ wh_suffix env n"

definition buildWebhookDigest :: "webhook_env \<Rightarrow> string \<Rightarrow> string \<Rightarrow> int \<Rightarrow> string" where
  "buildWebhookDigest env body secret timestampSeconds = wh_hmac env secret (int_text timestampSeconds @ ''.'' @ body)"

definition constantTimeEqualHex :: "string \<Rightarrow> string \<Rightarrow> bool" where
  "constantTimeEqualHex a b \<longleftrightarrow> from_hex a = from_hex b"

text \<open>\<open>lastIndexOf('.')\<close>: what is before and after the last point.\<close>

fun split_last_dot :: "string \<Rightarrow> (string \<times> string) option" where
  "split_last_dot [] = None"
| "split_last_dot (c # s) =
     (case split_last_dot s of
        Some (a, b) \<Rightarrow> Some (c # a, b)
      | None \<Rightarrow> if c = CHR ''.'' then Some ([], s) else None)"

definition strip_prefix :: "string \<Rightarrow> string" where
  "strip_prefix s = (case find (\<lambda>p. prefix p s) DIGEST_PREFIXES of None \<Rightarrow> s | Some p \<Rightarrow> drop (length p) s)"

definition parseWebhookSignature :: "string \<Rightarrow> (string option \<times> string) option" where
  "parseWebhookSignature signature =
     (let v = strip_prefix (js_trim signature)
      in if hex_digest v then Some (None, to_lower v)
         else
           (case split_last_dot v of
              Some (keyId, digest) \<Rightarrow> if keyId \<noteq> [] \<and> digest \<noteq> [] \<and> hex_digest digest then Some (Some keyId, to_lower digest) else None
            | None \<Rightarrow> None))"

definition time_ms :: "rat \<Rightarrow> rat" where
  "time_ms n = (if n \<le> 10 ^ 11 then n * 1000 else n)"

definition integer_text :: "string \<Rightarrow> bool" where
  "integer_text s \<longleftrightarrow> (let ds = (case s of c # r \<Rightarrow> if c = CHR ''-'' then r else s | [] \<Rightarrow> []) in ds \<noteq> [] \<and> list_all is_digit ds)"

definition integer_value :: "string \<Rightarrow> int" where
  "integer_value s = (case s of c # r \<Rightarrow> if c = CHR ''-'' then - int (digits_value r) else int (digits_value s) | [] \<Rightarrow> 0)"

fun normalizeWebhookTimestamp :: "webhook_env \<Rightarrow> webhook_time \<Rightarrow> rat option" where
  "normalizeWebhookTimestamp env (NumberTime n) = Some (time_ms n)"
| "normalizeWebhookTimestamp env (TextTime text) =
     (let s = js_trim text
      in if s = [] then None
         else if integer_text s then Some (time_ms (of_int (integer_value s)))
         else map_option of_int (wh_dateParse env s))"

subsection \<open>Keys\<close>

definition put_webhook_key :: "WebhookKeyRecord \<Rightarrow> webhook_registry \<Rightarrow> webhook_registry" where
  "put_webhook_key k s = s\<lparr>wk_keys := js_set (wk_keyId k) k (wk_keys s)\<rparr>"

definition tally :: "(webhook_metrics \<Rightarrow> webhook_metrics) \<Rightarrow> webhook_registry \<Rightarrow> webhook_registry" where
  "tally f s = s\<lparr>wk_metrics := f (wk_metrics s)\<rparr>"

definition activeKeysFor :: "string option \<Rightarrow> webhook_registry \<Rightarrow> WebhookKeyRecord list" where
  "activeKeysFor provider s =
     newest_first wk_createdAt (filter (\<lambda>k. \<not> truthy provider \<or> Some (wk_provider k) = provider)
       (filter (\<lambda>k. wk_status k = WkActive) (js_values (wk_keys s))))"

text \<open>\<open>xs[0]\<close>\<close>

definition first_of :: "'v list \<Rightarrow> 'v option" where
  "first_of xs = (case xs of [] \<Rightarrow> None | x # _ \<Rightarrow> Some x)"

definition new_key_id :: "webhook_env \<Rightarrow> WebhookKeyGenerationInput \<Rightarrow> nat \<Rightarrow> string" where
  "new_key_id env input n = js_or (wg_keyId input) (formatId env (js_or (wg_provider input) []) ''wvk_'' n)"

definition register_key :: "webhook_env \<Rightarrow> WebhookKeyGenerationInput \<Rightarrow> int \<Rightarrow> WebhookKeyRecord webhook_op" where
  "register_key env input now s =
     (let provider = js_or (wg_provider input) [];
          n = wk_random s;
          s = s\<lparr>wk_random := n + 1\<rparr>;
          secret = js_or (wg_secret input) (wh_secret env n)
      in if length secret < MIN_WEBHOOK_KEY_SECRET_LENGTH
         then (Inl (wk_error ''WEBHOOK_KEY_SECRET_TOO_SHORT''
           (''Secret must be at least '' @ int_text (int MIN_WEBHOOK_KEY_SECRET_LENGTH) @ '' characters'')), s)
         else
           let keyId = new_key_id env input n
           in if js_get (wk_keys s) keyId \<noteq> None
              then (Inl (wk_error ''WEBHOOK_KEY_ID_COLLISION'' (''Key '' @ keyId @ '' already exists'')), s)
              else
                let k = \<lparr>wk_keyId = keyId, wk_provider = provider, wk_secret = secret, wk_status = WkActive, wk_createdAt = now,
                      wk_retiredAt = None, wk_revokedAt = None, wk_expiresAt = wg_expiresAt input, wk_lastUsedAt = None,
                      wk_label = wg_label input\<rparr>
                in (Inr k, tally (\<lambda>m. m\<lparr>wm_registered := wm_registered m + 1\<rparr>) (put_webhook_key k s)))"

text \<open>The constructor: it throws where a configured key cannot be registered.\<close>

fun register_all :: "webhook_env \<Rightarrow> WebhookKeyGenerationInput list \<Rightarrow> int \<Rightarrow> webhook_registry \<Rightarrow> WebhookKeyError + webhook_registry" where
  "register_all env [] now s = Inr s"
| "register_all env (i # rest) now s =
     (case register_key env i now s of (Inl err, _) \<Rightarrow> Inl err | (Inr _, s) \<Rightarrow> register_all env rest now s)"

definition new_registry ::
  "webhook_env \<Rightarrow> int option \<Rightarrow> int option \<Rightarrow> int option \<Rightarrow> WebhookKeyGenerationInput list \<Rightarrow> int \<Rightarrow> WebhookKeyError + webhook_registry" where
  "new_registry env overlapSeconds retentionSeconds toleranceSeconds keys now =
     register_all env keys now \<lparr>wk_overlapSeconds = js_or overlapSeconds DEFAULT_OVERLAP_SECONDS,
       wk_retentionSeconds = js_or retentionSeconds DEFAULT_RETENTION_SECONDS,
       wk_toleranceSeconds = js_or toleranceSeconds DEFAULT_TOLERANCE_SECONDS, wk_keys = [], wk_metrics = no_metrics, wk_random = 0\<rparr>"

record rotate_input =
  ro_provider :: "string option"
  ro_secret :: "string option"
  ro_keyId :: "string option"
  ro_label :: "string option"
  ro_overlapSeconds :: "int option"

text \<open>The current key retires before the new one is registered.\<close>

definition retire :: "string \<Rightarrow> int \<Rightarrow> int \<Rightarrow> webhook_registry \<Rightarrow> WebhookKeyRecord option \<times> webhook_registry" where
  "retire provider overlapMs now s =
     (case first_of (activeKeysFor (Some provider) s) of
        None \<Rightarrow> (None, s)
      | Some current \<Rightarrow>
          let current = current\<lparr>wk_status := WkRetiring, wk_retiredAt := Some now, wk_expiresAt := Some (now + overlapMs)\<rparr>
          in (Some current, put_webhook_key current s))"

definition rotation_input :: "rotate_input \<Rightarrow> WebhookKeyGenerationInput" where
  "rotation_input input = \<lparr>wg_provider = Some (js_or (ro_provider input) []), wg_secret = ro_secret input, wg_keyId = ro_keyId input,
     wg_label = ro_label input, wg_expiresAt = None\<rparr>"

definition rotate_key :: "webhook_env \<Rightarrow> rotate_input \<Rightarrow> int \<Rightarrow> (WebhookKeyRecord option \<times> WebhookKeyRecord) webhook_op" where
  "rotate_key env input now s =
     (let provider = js_or (ro_provider input) [];
          overlapMs = js_or (ro_overlapSeconds input) (wk_overlapSeconds s) * 1000;
          (retired, s) = retire provider overlapMs now s
      in case register_key env (rotation_input input) now s of
           (Inl err, s) \<Rightarrow> (Inl err, s)
         | (Inr active, s) \<Rightarrow> (Inr (retired, active), tally (\<lambda>m. m\<lparr>wm_rotated := wm_rotated m + 1\<rparr>) s))"

definition revoke_key :: "string \<Rightarrow> int \<Rightarrow> bool webhook_op" where
  "revoke_key keyId now s =
     (case js_get (wk_keys s) keyId of
        None \<Rightarrow> (Inr False, s)
      | Some k \<Rightarrow>
          if wk_status k = WkActive \<and> length (activeKeysFor (Some (wk_provider k)) s) = 1
          then (Inl (wk_error ''WEBHOOK_KEY_LAST_ACTIVE''
            (''Cannot revoke the only active key for provider \"'' @ wk_provider k @ ''\"; rotate first'')), s)
          else
            let k = k\<lparr>wk_status := WkRevoked, wk_revokedAt := Some now\<rparr>;
                s = s\<lparr>wk_keys := js_set keyId k (wk_keys s)\<rparr>
            in (Inr True, tally (\<lambda>m. m\<lparr>wm_revoked := wm_revoked m + 1\<rparr>) s))"

subsection \<open>Signing\<close>

text \<open>The key that signs, or the error.\<close>

definition signing_key :: "SignWebhookPayloadInput \<Rightarrow> webhook_registry \<Rightarrow> WebhookKeyError + WebhookKeyRecord" where
  "signing_key input s =
     (case (if truthy (ws_keyId input)
         then (case js_get (wk_keys s) (the (ws_keyId input)) of
             None \<Rightarrow> Inl (wk_error ''WEBHOOK_KEY_NOT_FOUND'' (''Signing key '' @ the (ws_keyId input) @ '' does not exist''))
           | Some k \<Rightarrow> Inr k)
         else (case first_of (activeKeysFor (ws_provider input) s) of
             None \<Rightarrow> Inl (wk_error ''WEBHOOK_KEY_NO_ACTIVE'' (''No active key for provider \"'' @ js_or (ws_provider input) [] @ ''\"''))
           | Some k \<Rightarrow> Inr k)) of
        Inl err \<Rightarrow> Inl err
      | Inr k \<Rightarrow>
          if wk_status k \<noteq> WkActive
          then Inl (wk_error ''WEBHOOK_KEY_NOT_ACTIVE'' (''Key '' @ wk_keyId k @ '' is not active ('' @ webhook_status_text (wk_status k) @ '')''))
          else Inr k)"

definition sign_webhook :: "webhook_env \<Rightarrow> SignWebhookPayloadInput \<Rightarrow> int \<Rightarrow> SignWebhookResult webhook_op" where
  "sign_webhook env input now s =
     (case signing_key input s of
        Inl err \<Rightarrow> (Inl err, tally (\<lambda>m. m\<lparr>wm_signErrors := wm_signErrors m + 1\<rparr>) s)
      | Inr k \<Rightarrow>
          let timestampSeconds = js_or (ws_timestamp input) (now div 1000);
              digest = buildWebhookDigest env (ws_body input) (wk_secret k) timestampSeconds;
              signature = ''v1='' @ (if truthy (ws_keyId input) then wk_keyId k @ ''.'' else []) @ digest;
              s = tally (\<lambda>m. m\<lparr>wm_signs := wm_signs m + 1\<rparr>) s;
              s = put_webhook_key (k\<lparr>wk_lastUsedAt := Some now\<rparr>) s
          in (Inr \<lparr>wsr_signature = signature, wsr_version = ''v1'', wsr_timestamp = int_text timestampSeconds, wsr_keyId = wk_keyId k\<rparr>, s))"

subsection \<open>Verification\<close>

definition expired_key :: "int \<Rightarrow> WebhookKeyRecord \<Rightarrow> bool" where
  "expired_key now k = (case wk_expiresAt k of None \<Rightarrow> False | Some t \<Rightarrow> t \<le> now)"

text \<open>The keys to try, or the reason that there is none.\<close>

definition resolveCandidates ::
  "string option \<Rightarrow> string option \<Rightarrow> int \<Rightarrow> webhook_registry \<Rightarrow> (WebhookRejectionReason \<times> string) + WebhookKeyRecord list" where
  "resolveCandidates keyId provider now s =
     (if truthy keyId then
        (case js_get (wk_keys s) (the keyId) of
           None \<Rightarrow> Inl (UnknownKey, ''Key '' @ the keyId @ '' does not exist'')
         | Some k \<Rightarrow>
             if truthy provider \<and> Some (wk_provider k) \<noteq> provider
             then Inl (UnknownKey, ''Key '' @ the keyId @ '' does not belong to provider \"'' @ the provider @ ''\"'')
             else if wk_status k = WkRevoked then Inl (KeyRevoked, ''Key '' @ the keyId @ '' has been revoked'')
             else if expired_key now k then Inl (KeyExpired, ''Key '' @ the keyId @ '' has expired'')
             else Inr [k])
      else
        Inr (sort_key (\<lambda>k. if wk_status k = WkActive then 0 else (1 :: nat)) (newest_first wk_createdAt
          (filter (\<lambda>k. \<not> (truthy provider \<and> Some (wk_provider k) \<noteq> provider) \<and> wk_status k \<noteq> WkRevoked \<and> \<not> expired_key now k \<and>
             (wk_status k = WkActive \<or> wk_status k = WkRetiring)) (js_values (wk_keys s))))))"

definition reject_webhook ::
  "VerifyWebhookSignatureInput \<Rightarrow> WebhookRejectionReason \<Rightarrow> string \<Rightarrow> rat \<Rightarrow> rat \<Rightarrow> webhook_registry \<Rightarrow>
   VerifyWebhookSignatureResult \<times> webhook_registry" where
  "reject_webhook input reason err timestamp ageMs s =
     (\<lparr>wo_isValid = False, wo_provider = wv_provider input, wo_keyId = None, wo_timestamp = timestamp, wo_ageMs = ageMs,
        wo_error = Some err, wo_reason = Some reason\<rparr>,
      tally (\<lambda>m. m\<lparr>wm_rejected := wm_rejected m + 1,
        wm_rejections := js_set reason (js_or (js_get (wm_rejections m) reason) 0 + 1) (wm_rejections m)\<rparr>) s)"

definition matching_key :: "webhook_env \<Rightarrow> string \<Rightarrow> string \<Rightarrow> int \<Rightarrow> WebhookKeyRecord list \<Rightarrow> WebhookKeyRecord option" where
  "matching_key env digest body timestampSeconds =
     find (\<lambda>k. constantTimeEqualHex digest (buildWebhookDigest env body (wk_secret k) timestampSeconds))"

text \<open>The checks in order: a reason to reject, with the time and its age, or the key that is accepted.\<close>

definition check_webhook ::
  "webhook_env \<Rightarrow> VerifyWebhookSignatureInput \<Rightarrow> int \<Rightarrow> webhook_registry \<Rightarrow>
   (WebhookRejectionReason \<times> string \<times> rat \<times> rat) + rat \<times> rat \<times> WebhookKeyRecord" where
  "check_webhook env input now s =
     (if wv_signature input = [] then Inl (MissingSignature, ''Missing webhook signature'', 0, 0)
      else
     (case parseWebhookSignature (wv_signature input) of
        None \<Rightarrow> Inl (InvalidSignatureFormat, ''Signature is not in a recognized format'', 0, 0)
      | Some (parsedKeyId, digest) \<Rightarrow>
     (case normalizeWebhookTimestamp env (wv_time input) of
        None \<Rightarrow> Inl (MissingTimestamp, ''Missing or unparseable webhook timestamp'', 0, 0)
      | Some timestampMs \<Rightarrow>
          let ageMs = \<bar>of_int now - timestampMs\<bar>;
              toleranceMs = of_int (js_or (wv_toleranceSeconds input) (wk_toleranceSeconds s)) * 1000
          in if toleranceMs < ageMs
             then Inl (TimestampOutOfTolerance, ''Timestamp outside tolerance window ('' @ wh_number env ageMs @ ''ms > '' @
               wh_number env toleranceMs @ ''ms)'', timestampMs, ageMs)
             else
     (case resolveCandidates (case wv_keyId input of Some i \<Rightarrow> Some i | None \<Rightarrow> parsedKeyId) (wv_provider input) now s of
        Inl (reason, err) \<Rightarrow> Inl (reason, err, timestampMs, ageMs)
      | Inr keys \<Rightarrow>
          if keys = [] then Inl (NoKeys, ''No usable key for provider \"'' @ js_or (wv_provider input) [] @ ''\"'', timestampMs, ageMs)
          else
     (case matching_key env digest (wv_body input) \<lfloor>timestampMs / 1000\<rfloor> keys of
        None \<Rightarrow> Inl (SignatureMismatch, ''Signature verification failed'', timestampMs, ageMs)
      | Some k \<Rightarrow> Inr (timestampMs, ageMs, k))))))"

definition verify_webhook ::
  "webhook_env \<Rightarrow> VerifyWebhookSignatureInput \<Rightarrow> int \<Rightarrow> webhook_registry \<Rightarrow> VerifyWebhookSignatureResult \<times> webhook_registry" where
  "verify_webhook env input now s =
     (let s = tally (\<lambda>m. m\<lparr>wm_verifications := wm_verifications m + 1\<rparr>) s
      in case check_webhook env input now s of
        Inl (reason, err, timestampMs, ageMs) \<Rightarrow> reject_webhook input reason err timestampMs ageMs s
      | Inr (timestampMs, ageMs, k) \<Rightarrow>
          (\<lparr>wo_isValid = True, wo_provider = Some (js_or (wv_provider input) (wk_provider k)), wo_keyId = Some (wk_keyId k),
             wo_timestamp = timestampMs, wo_ageMs = ageMs, wo_error = None, wo_reason = None\<rparr>,
           tally (\<lambda>m. m\<lparr>wm_verified := wm_verified m + 1\<rparr>) (put_webhook_key (k\<lparr>wk_lastUsedAt := Some now\<rparr>) s)))"

subsection \<open>Queries and maintenance\<close>

definition getWebhookKey :: "string \<Rightarrow> webhook_registry \<Rightarrow> WebhookKeyRecord option" where
  "getWebhookKey keyId s = js_get (wk_keys s) keyId"

definition getActiveKey :: "string option \<Rightarrow> webhook_registry \<Rightarrow> WebhookKeyRecord option" where
  "getActiveKey provider s = first_of (activeKeysFor provider s)"

definition hasKeysForProvider :: "string option \<Rightarrow> webhook_registry \<Rightarrow> bool" where
  "hasKeysForProvider provider s \<longleftrightarrow>
     list_ex (\<lambda>k. \<not> (truthy provider \<and> Some (wk_provider k) \<noteq> provider) \<and> (wk_status k = WkActive \<or> wk_status k = WkRetiring))
       (js_values (wk_keys s))"

record key_filter =
  kf_provider :: "string option"
  kf_status :: "WebhookKeyStatus option"
  kf_includeRevoked :: bool

definition listWebhookKeys :: "key_filter \<Rightarrow> webhook_registry \<Rightarrow> WebhookKeyRecord list" where
  "listWebhookKeys fl s =
     newest_first wk_createdAt (filter (\<lambda>k. kf_includeRevoked fl \<or> wk_status k \<noteq> WkRevoked)
       (filter (\<lambda>k. case kf_status fl of None \<Rightarrow> True | Some st \<Rightarrow> wk_status k = st)
         (filter (\<lambda>k. \<not> truthy (kf_provider fl) \<or> Some (wk_provider k) = kf_provider fl) (js_values (wk_keys s)))))"

definition long_expired :: "int \<Rightarrow> int \<Rightarrow> WebhookKeyRecord \<Rightarrow> bool" where
  "long_expired retentionMs now k = (case wk_expiresAt k of None \<Rightarrow> False | Some t \<Rightarrow> t \<le> now \<and> retentionMs \<le> now - t)"

definition long_unused :: "int \<Rightarrow> int \<Rightarrow> WebhookKeyRecord \<Rightarrow> bool" where
  "long_unused retentionMs now k \<longleftrightarrow> wk_status k \<noteq> WkActive \<and>
     (case (case wk_retiredAt k of Some t \<Rightarrow> Some t | None \<Rightarrow> (case wk_revokedAt k of Some t \<Rightarrow> Some t | None \<Rightarrow> wk_expiresAt k)) of
        None \<Rightarrow> False | Some t \<Rightarrow> retentionMs \<le> now - t)"

text \<open>Deletes the keys with a property, and counts them as purged.\<close>

definition delete_keys :: "(WebhookKeyRecord \<Rightarrow> bool) \<Rightarrow> webhook_registry \<Rightarrow> nat \<times> webhook_registry" where
  "delete_keys P s =
     (let n = length (filter (\<lambda>(_, k). P k) (wk_keys s))
      in (n, tally (\<lambda>m. m\<lparr>wm_purged := wm_purged m + n\<rparr>) (s\<lparr>wk_keys := filter (\<lambda>(_, k). \<not> P k) (wk_keys s)\<rparr>)))"

definition purgeEntirelyExpired :: "int \<Rightarrow> webhook_registry \<Rightarrow> webhook_registry" where
  "purgeEntirelyExpired now s = snd (delete_keys (long_expired (wk_retentionSeconds s * 1000) now) s)"

definition purgeExpired :: "int \<Rightarrow> webhook_registry \<Rightarrow> nat \<times> webhook_registry" where
  "purgeExpired now s = delete_keys (long_unused (wk_retentionSeconds s * 1000) now) (purgeEntirelyExpired now s)"

definition resetWebhookMetrics :: "webhook_registry \<Rightarrow> webhook_registry" where
  "resetWebhookMetrics s = s\<lparr>wk_metrics := no_metrics\<rparr>"

definition clear_keys :: "webhook_registry \<Rightarrow> webhook_registry" where
  "clear_keys s = s\<lparr>wk_keys := []\<rparr>"

end
