(* ===== verification/WebhookProps.thy ===== *)
theory WebhookProps
  imports WebhookKeys DecimalProps "HOL-Library.Code_Target_Nat"
begin

text \<open>
  Properties of webhook keys: what is signed is verified, also after a rotation; a revoked key is never
  accepted again; and a provider that has an active key keeps one.
\<close>

subsection \<open>Stored keys\<close>

definition keys_ok :: "webhook_registry \<Rightarrow> bool" where
  "keys_ok s \<longleftrightarrow> js_wf (wk_keys s) \<and> (\<forall>i k. js_get (wk_keys s) i = Some k \<longrightarrow> wk_keyId k = i)"

lemma keys_okD: "keys_ok s \<Longrightarrow> js_get (wk_keys s) i = Some k \<Longrightarrow> wk_keyId k = i"
  by (simp add: keys_ok_def)

lemma keys_ok_value: "keys_ok s \<Longrightarrow> k \<in> set (js_values (wk_keys s)) \<longleftrightarrow> js_get (wk_keys s) (wk_keyId k) = Some k"
  by (auto simp: keys_ok_def in_js_values)

lemma keys_ok_put [intro]: "keys_ok s \<Longrightarrow> keys_ok (put_webhook_key k s)"
  by (simp add: keys_ok_def put_webhook_key_def)

lemma tally_keys [simp]: "wk_keys (tally f s) = wk_keys s" "keys_ok (tally f s) = keys_ok s" "wk_random (tally f s) = wk_random s"
    "wk_overlapSeconds (tally f s) = wk_overlapSeconds s" "wk_toleranceSeconds (tally f s) = wk_toleranceSeconds s"
    "wk_retentionSeconds (tally f s) = wk_retentionSeconds s"
  by (simp_all add: tally_def keys_ok_def)

lemma put_webhook_key_simps [simp]: "wk_keys (put_webhook_key k s) = js_set (wk_keyId k) k (wk_keys s)" "wk_random (put_webhook_key k s) = wk_random s"
    "wk_overlapSeconds (put_webhook_key k s) = wk_overlapSeconds s" "wk_toleranceSeconds (put_webhook_key k s) = wk_toleranceSeconds s"
    "wk_retentionSeconds (put_webhook_key k s) = wk_retentionSeconds s"
  by (simp_all add: put_webhook_key_def)

lemma in_activeKeysFor: "k \<in> set (activeKeysFor p s) \<longleftrightarrow> k \<in> set (js_values (wk_keys s)) \<and> wk_status k = WkActive \<and> (truthy p \<longrightarrow> Some (wk_provider k) = p)"
  by (auto simp: activeKeysFor_def newest_first_def)

lemma first_of_in: "first_of xs = Some x \<Longrightarrow> x \<in> set xs"
  by (cases xs) (simp_all add: first_of_def)

lemma first_of_None [simp]: "first_of xs = None \<longleftrightarrow> xs = []"
  by (cases xs) (simp_all add: first_of_def)

lemma js_get_filter: "js_wf m \<Longrightarrow> js_get (filter (\<lambda>(_, v). \<not> P v) m) i = (case js_get m i of None \<Rightarrow> None | Some v \<Rightarrow> if P v then None else Some v)"
proof (induction m)
  case (Cons e m)
  moreover have "js_get m i = None" if "fst e = i" using Cons.prems that by (auto simp: js_wf_def js_keys_def map_of_eq_None_iff)
  moreover have "js_wf m" using Cons.prems by (simp add: js_wf_def js_keys_def)
  ultimately show ?case by (cases e) (auto split: option.splits)
qed simp

lemma js_wf_filter: "js_wf m \<Longrightarrow> js_wf (filter P m)"
  by (simp add: js_wf_def js_keys_def distinct_map_filter)

text \<open>The keys after each operation.\<close>

lemma register_keys:
  "wk_keys (snd (register_key env input now s)) = wk_keys s \<and> (\<exists>err. fst (register_key env input now s) = Inl err) \<or>
   (\<exists>k. wk_keys (snd (register_key env input now s)) = js_set (wk_keyId k) k (wk_keys s) \<and> fst (register_key env input now s) = Inr k \<and>
      js_get (wk_keys s) (wk_keyId k) = None \<and> wk_keyId k = new_key_id env input (wk_random s) \<and> wk_status k = WkActive \<and>
      wk_provider k = js_or (wg_provider input) [] \<and> wk_expiresAt k = wg_expiresAt input)"
  by (auto simp: register_key_def Let_def)

lemma retire_keys:
  assumes "retire p overlapMs now s = (c, s1)"
  shows "wk_keys s1 = wk_keys s \<and> activeKeysFor (Some p) s = [] \<or>
    (\<exists>k. k \<in> set (activeKeysFor (Some p) s) \<and>
       wk_keys s1 = js_set (wk_keyId k) (k\<lparr>wk_status := WkRetiring, wk_retiredAt := Some now, wk_expiresAt := Some (now + overlapMs)\<rparr>) (wk_keys s))"
    and "wk_random s1 = wk_random s" "wk_overlapSeconds s1 = wk_overlapSeconds s" "wk_toleranceSeconds s1 = wk_toleranceSeconds s"
  using assms by (auto simp: retire_def Let_def split: option.splits dest!: first_of_in)

lemma sign_keys:
  "wk_keys (snd (sign_webhook env input now s)) = wk_keys s \<or>
   (\<exists>k. signing_key input s = Inr k \<and> wk_keys (snd (sign_webhook env input now s)) = js_set (wk_keyId k) (k\<lparr>wk_lastUsedAt := Some now\<rparr>) (wk_keys s))"
  by (auto simp: sign_webhook_def Let_def split: sum.splits)

lemma signing_key_active:
  "signing_key input s = Inr k \<Longrightarrow> keys_ok s \<Longrightarrow> js_get (wk_keys s) (wk_keyId k) = Some k \<and> wk_status k = WkActive"
  using first_of_in [of "activeKeysFor (ws_provider input) s" k]
  by (auto simp: signing_key_def keys_ok_value in_activeKeysFor keys_okD split: if_splits option.splits)

lemma candidates_in:
  assumes "resolveCandidates i p now s = Inr ks" "k \<in> set ks" "keys_ok s"
  shows "js_get (wk_keys s) (wk_keyId k) = Some k \<and> wk_status k \<noteq> WkRevoked \<and> \<not> expired_key now k"
  using assms by (auto simp: resolveCandidates_def newest_first_def keys_ok_value keys_okD split: if_splits option.splits)

lemma candidates_cong: "wk_keys s1 = wk_keys s \<Longrightarrow> resolveCandidates i p now s1 = resolveCandidates i p now s"
  by (simp add: resolveCandidates_def)

lemma check_cong:
  assumes "wk_keys s1 = wk_keys s" "wk_toleranceSeconds s1 = wk_toleranceSeconds s"
  shows "check_webhook env input now s1 = check_webhook env input now s"
  unfolding check_webhook_def assms(2) candidates_cong [OF assms(1)] by (rule refl)

text \<open>What is accepted.\<close>

lemma check_accepts:
  assumes "check_webhook env input now s = Inr (ts, age, k)"
  obtains i digest ks where "parseWebhookSignature (wv_signature input) = Some (i, digest)" "normalizeWebhookTimestamp env (wv_time input) = Some ts"
    "age = \<bar>of_int now - ts\<bar>" "age \<le> of_int (js_or (wv_toleranceSeconds input) (wk_toleranceSeconds s)) * 1000"
    "resolveCandidates (case wv_keyId input of Some j \<Rightarrow> Some j | None \<Rightarrow> i) (wv_provider input) now s = Inr ks" "k \<in> set ks"
    "constantTimeEqualHex digest (buildWebhookDigest env (wv_body input) (wk_secret k) \<lfloor>ts / 1000\<rfloor>)"
  using assms unfolding check_webhook_def matching_key_def
  by (fastforce simp: Let_def find_Some_iff not_less split: if_splits option.splits sum.splits prod.splits)

lemma verify_result:
  "(case check_webhook env input now s of
      Inl _ \<Rightarrow> \<not> wo_isValid (fst (verify_webhook env input now s)) \<and> wk_keys (snd (verify_webhook env input now s)) = wk_keys s
    | Inr (_, _, k) \<Rightarrow> wo_isValid (fst (verify_webhook env input now s)) \<and> wo_keyId (fst (verify_webhook env input now s)) = Some (wk_keyId k) \<and>
        wk_keys (snd (verify_webhook env input now s)) = js_set (wk_keyId k) (k\<lparr>wk_lastUsedAt := Some now\<rparr>) (wk_keys s))"
  by (auto simp: verify_webhook_def Let_def reject_webhook_def check_cong [of "tally f s" s for f] split: sum.splits)

subsection \<open>Signatures as texts\<close>

definition hmac_ok :: "webhook_env \<Rightarrow> bool" where
  "hmac_ok env \<longleftrightarrow> (\<forall>secret data. hex_digest (wh_hmac env secret data) \<and> to_lower (wh_hmac env secret data) = wh_hmac env secret data)"

lemma hex_not_space: "hex_value c \<noteq> None \<Longrightarrow> \<not> is_space c \<and> c \<noteq> CHR ''.'' \<and> c \<noteq> CHR ''='' \<and> c \<noteq> CHR ''v'' \<and> c \<noteq> CHR ''s''"
  by (auto simp: hex_value_def is_space_def)

lemma trim_ends: "s \<noteq> [] \<Longrightarrow> \<not> is_space (hd s) \<Longrightarrow> \<not> is_space (last s) \<Longrightarrow> js_trim s = s"
proof -
  have keep: "t \<noteq> [] \<Longrightarrow> \<not> is_space (hd t) \<Longrightarrow> dropWhile is_space t = t" for t by (cases t) auto
  assume "s \<noteq> []" "\<not> is_space (hd s)" "\<not> is_space (last s)"
  then show ?thesis using keep [of s] keep [of "rev s"] by (simp add: js_trim_def hd_rev)
qed

lemma split_last_dot_none: "CHR ''.'' \<notin> set s \<Longrightarrow> split_last_dot s = None"
  by (induction s) auto

lemma split_last_dot_append: "CHR ''.'' \<notin> set b \<Longrightarrow> split_last_dot (a @ CHR ''.'' # b) = Some (a, b)"
  by (induction a) (simp_all add: split_last_dot_none)

lemma parse_signed:
  assumes "hex_digest d" "to_lower d = d" "keyed \<Longrightarrow> i \<noteq> []"
  shows "parseWebhookSignature (''v1='' @ (if keyed then i @ ''.'' else []) @ d) =
    Some (if keyed then Some i else None, d)"
proof -
  have d: "d \<noteq> []" "list_all (\<lambda>c. hex_value c \<noteq> None) d" using assms(1) by (auto simp: hex_digest_def)
  then have "hex_value (last d) \<noteq> None" by (simp add: list_all_iff)
  then have trim: "js_trim (''v1='' @ (if keyed then i @ ''.'' else []) @ d) = ''v1='' @ (if keyed then i @ ''.'' else []) @ d"
    using d hex_not_space by (intro trim_ends) (auto simp: is_space_def)
  have strip: "strip_prefix (''v1='' @ v) = v" for v by (simp add: strip_prefix_def DIGEST_PREFIXES_def)
  have dot: "CHR ''.'' \<notin> set d" using d(2) hex_not_space by (force simp: list_all_iff)
  have no_hex: "\<not> hex_digest (i @ CHR ''.'' # d)" by (auto simp: hex_digest_def hex_value_def)
  show ?thesis
    using assms d no_hex split_last_dot_append [OF dot, of i] unfolding parseWebhookSignature_def trim strip by (auto simp: Let_def)
qed

lemma time_signed:
  assumes "ts \<le> 10 ^ 11"
  shows "normalizeWebhookTimestamp env (TextTime (int_text ts)) = Some (of_int ts * 1000)"
proof -
  have "list_all is_digit (nat_text n)" for n by (simp add: list_all_iff nat_text_digits)
  moreover obtain c r where cr: "nat_text (nat ts) = c # r" by (cases "nat_text (nat ts)") auto
  moreover have "c \<noteq> CHR ''-''" using cr nat_text_digits [of c "nat ts"] digit_plain [of c] by simp
  moreover have "digits_value (c # r) = nat ts" using cr nat_text_value [of "nat ts"] by simp
  moreover have "list_all is_digit (c # r)" unfolding cr [symmetric] by (simp add: list_all_iff nat_text_digits)
  ultimately have "integer_text (int_text ts) \<and> integer_value (int_text ts) = ts"
    by (auto simp: integer_text_def integer_value_def int_text_def Let_def)
  moreover have "(of_int ts :: rat) \<le> 10 ^ 11" using of_int_le_iff [of ts "10 ^ 11", where 'a = rat] assms by simp
  moreover have "int_text ts \<noteq> []" by (simp add: int_text_sign)
  ultimately show ?thesis by (simp add: trim_int_text time_ms_def Let_def)
qed


subsection \<open>Signing and verifying\<close>

text \<open>The request that carries what was signed.\<close>

definition carried :: "SignWebhookPayloadInput \<Rightarrow> SignWebhookResult \<Rightarrow> string option \<Rightarrow> VerifyWebhookSignatureInput" where
  "carried input r provider = \<lparr>wv_signature = wsr_signature r, wv_time = TextTime (wsr_timestamp r), wv_body = ws_body input,
     wv_provider = provider, wv_keyId = None, wv_toleranceSeconds = None\<rparr>"

definition signed_at :: "SignWebhookPayloadInput \<Rightarrow> int \<Rightarrow> int" where
  "signed_at input now = js_or (ws_timestamp input) (now div 1000)"

text \<open>The key is still there, with its secret, and usable.\<close>

definition usable :: "WebhookKeyRecord \<Rightarrow> int \<Rightarrow> webhook_registry \<Rightarrow> bool" where
  "usable k now s \<longleftrightarrow> (\<exists>k'. js_get (wk_keys s) (wk_keyId k) = Some k' \<and> wk_secret k' = wk_secret k \<and> wk_provider k' = wk_provider k \<and>
     wk_status k' \<noteq> WkRevoked \<and> \<not> expired_key now k')"

lemma signed_is_verified:
  assumes "hmac_ok env" and signed: "sign_webhook env input now s = (Inr r, s1)" and k: "signing_key input s = Inr k"
    and ok: "keys_ok s" "keys_ok s'" and use: "usable k now' s'" and p: "truthy p \<Longrightarrow> p = Some (wk_provider k)"
    and time: "signed_at input now \<le> 10 ^ 11" "\<bar>now' - signed_at input now * 1000\<bar> \<le> wk_toleranceSeconds s' * 1000"
  shows "wo_isValid (fst (verify_webhook env (carried input r p) now' s'))"
proof -
  let ?d = "buildWebhookDigest env (ws_body input) (wk_secret k) (signed_at input now)"
  have d: "hex_digest ?d" "to_lower ?d = ?d" using assms(1) by (simp_all add: hmac_ok_def buildWebhookDigest_def)
  have r: "wsr_signature r = ''v1='' @ (if truthy (ws_keyId input) then wk_keyId k @ ''.'' else []) @ ?d"
    "wsr_timestamp r = int_text (signed_at input now)"
    using signed k by (auto simp: sign_webhook_def signed_at_def Let_def)
  have id: "wk_keyId k \<noteq> []" if "truthy (ws_keyId input)"
    using that k keys_okD [OF ok(1)] by (auto simp: signing_key_def truthy_def split: if_splits option.splits)
  have parsed: "parseWebhookSignature (wsr_signature r) = Some (if truthy (ws_keyId input) then Some (wk_keyId k) else None, ?d)"
    unfolding r by (rule parse_signed [OF d id])
  obtain k' where k': "js_get (wk_keys s') (wk_keyId k) = Some k'" "wk_secret k' = wk_secret k" "wk_provider k' = wk_provider k"
    "wk_status k' \<noteq> WkRevoked" "\<not> expired_key now' k'" using use by (auto simp: usable_def)
  have in_values: "k' \<in> set (js_values (wk_keys s'))" using k'(1) keys_ok_value [OF ok(2)] keys_okD [OF ok(2) k'(1)] by simp
  have st: "wk_status k' = WkActive \<or> wk_status k' = WkRetiring" using k'(4) by (cases "wk_status k'") simp_all
  have pok: "\<not> (truthy p \<and> Some (wk_provider k') \<noteq> p)" using p k'(3) by auto
  have "\<exists>ks. resolveCandidates (if truthy (ws_keyId input) then Some (wk_keyId k) else None) p now' s' = Inr ks \<and> k' \<in> set ks"
  proof (cases "truthy (ws_keyId input)")
    case True
    then show ?thesis using id k' pok by (simp add: resolveCandidates_def truthy_def [of "Some (wk_keyId k)"])
  next
    case False
    then show ?thesis using k'(4,5) pok in_values st by (simp add: resolveCandidates_def newest_first_def truthy_def [of None])
  qed
  then obtain ks where ks: "resolveCandidates (if truthy (ws_keyId input) then Some (wk_keyId k) else None) p now' s' = Inr ks" "k' \<in> set ks"
    by blast
  have "matching_key env ?d (ws_body input) (signed_at input now) ks \<noteq> None"
    using ks(2) k'(2) by (auto simp: matching_key_def find_None_iff constantTimeEqualHex_def)
  moreover have "(of_int \<bar>now' - signed_at input now * 1000\<bar> :: rat) \<le> of_int (wk_toleranceSeconds s' * 1000)"
    using time(2) by (simp only: of_int_le_iff)
  ultimately have "\<exists>v. check_webhook env (carried input r p) now' s' = Inr v"
    using ks parsed time_signed [OF time(1), of env]
    by (auto simp: check_webhook_def carried_def r(2) js_or_def Let_def) (auto simp: r(1))
  then show ?thesis using verify_result [of env "carried input r p" now' s'] by (auto split: prod.splits)
qed

subsection \<open>Steps\<close>

text \<open>Calls that do not register any of the identifiers of a set.\<close>

inductive wk_step :: "webhook_env \<Rightarrow> string set \<Rightarrow> webhook_registry \<Rightarrow> webhook_registry \<Rightarrow> bool" for env X where
  wk_register: "new_key_id env input (wk_random s) \<notin> X \<Longrightarrow> wk_step env X s (snd (register_key env input now s))"
| wk_rotate: "new_key_id env (rotation_input rinput) (wk_random s) \<notin> X \<Longrightarrow> wk_step env X s (snd (rotate_key env rinput now s))"
| wk_revoke: "wk_step env X s (snd (revoke_key i now s))"
| wk_sign: "wk_step env X s (snd (sign_webhook env sinput now s))"
| wk_verify: "wk_step env X s (snd (verify_webhook env vinput now s))"
| wk_purge: "wk_step env X s (snd (purgeExpired now s))"
| wk_reset: "wk_step env X s (resetWebhookMetrics s)"
| wk_clear: "wk_step env X s (clear_keys s)"

abbreviation wk_run :: "webhook_env \<Rightarrow> string set \<Rightarrow> webhook_registry \<Rightarrow> webhook_registry \<Rightarrow> bool" where
  "wk_run env X \<equiv> (wk_step env X)\<^sup>*\<^sup>*"

lemma rotate_result:
  obtains c s1 where "retire (js_or (ro_provider input) []) (js_or (ro_overlapSeconds input) (wk_overlapSeconds s) * 1000) now s = (c, s1)"
    "wk_keys (snd (rotate_key env input now s)) = wk_keys (snd (register_key env (rotation_input input) now s1))"
    "(\<exists>v. fst (rotate_key env input now s) = Inr v) \<longleftrightarrow> (\<exists>v. fst (register_key env (rotation_input input) now s1) = Inr v)"
proof -
  obtain c s1 where c: "retire (js_or (ro_provider input) []) (js_or (ro_overlapSeconds input) (wk_overlapSeconds s) * 1000) now s = (c, s1)"
    by fastforce
  obtain v s2 where v: "register_key env (rotation_input input) now s1 = (v, s2)" by fastforce
  show ?thesis by (rule that [OF c]) (cases v; simp add: rotate_key_def c v Let_def)+
qed

lemma rotate_tolerance [simp]: "wk_toleranceSeconds (snd (rotate_key env input now s)) = wk_toleranceSeconds s"
proof -
  have reg: "wk_toleranceSeconds (snd (register_key env i now u)) = wk_toleranceSeconds u" for i u by (simp add: register_key_def Let_def)
  obtain c s1 where c: "retire (js_or (ro_provider input) []) (js_or (ro_overlapSeconds input) (wk_overlapSeconds s) * 1000) now s = (c, s1)"
    by fastforce
  obtain v s2 where v: "register_key env (rotation_input input) now s1 = (v, s2)" by fastforce
  have "wk_toleranceSeconds s2 = wk_toleranceSeconds s" using reg [of "rotation_input input" s1] retire_keys(4) [OF c] v by simp
  then show ?thesis by (cases v) (simp_all add: rotate_key_def c v Let_def)
qed

lemma purge_keys: "wk_keys (snd (purgeExpired now s)) = filter (\<lambda>(_, k). \<not> long_unused (wk_retentionSeconds s * 1000) now k)
    (filter (\<lambda>(_, k). \<not> long_expired (wk_retentionSeconds s * 1000) now k) (wk_keys s))"
  by (simp add: purgeExpired_def purgeEntirelyExpired_def delete_keys_def Let_def)

lemma purge_get:
  assumes "keys_ok s"
  shows "js_get (wk_keys (snd (purgeExpired now s))) i = (case js_get (wk_keys s) i of None \<Rightarrow> None
    | Some k \<Rightarrow> if long_expired (wk_retentionSeconds s * 1000) now k \<or> long_unused (wk_retentionSeconds s * 1000) now k then None else Some k)"
proof -
  have wf: "js_wf (wk_keys s)" using assms by (simp add: keys_ok_def)
  show ?thesis unfolding purge_keys js_get_filter [OF js_wf_filter [OF wf]] js_get_filter [OF wf] by (auto split: option.splits)
qed

text \<open>What a step does to a key that is not registered by it.\<close>

inductive key_move :: "string set \<Rightarrow> webhook_registry \<Rightarrow> webhook_registry \<Rightarrow> bool" for X s s' where
  kept: "wk_keys s' = wk_keys s \<Longrightarrow> key_move X s s'"
| added: "wk_keys s' = js_set (wk_keyId k) k (wk_keys s) \<Longrightarrow> js_get (wk_keys s) (wk_keyId k) = None \<Longrightarrow> wk_keyId k \<notin> X \<Longrightarrow> key_move X s s'"
| changed: "js_get (wk_keys s) (wk_keyId k) = Some k \<Longrightarrow> wk_keys s' = js_set (wk_keyId k) k' (wk_keys s) \<Longrightarrow> wk_keyId k' = wk_keyId k \<Longrightarrow>
    wk_status k \<noteq> WkRevoked \<or> wk_status k' = WkRevoked \<Longrightarrow> key_move X s s'"
| dropped: "js_wf (wk_keys s') \<Longrightarrow> (\<And>i k. js_get (wk_keys s') i = Some k \<Longrightarrow> js_get (wk_keys s) i = Some k) \<Longrightarrow> key_move X s s'"

lemma register_move: "new_key_id env input (wk_random s) \<notin> X \<Longrightarrow> key_move X s (snd (register_key env input now s))"
  using register_keys [of env input now s] by (auto intro: kept added)

lemma retire_move:
  assumes "keys_ok s" "retire p overlapMs now s = (c, s1)"
  shows "key_move X s s1"
  using retire_keys(1) [OF assms(2)]
proof
  assume "\<exists>k. k \<in> set (activeKeysFor (Some p) s) \<and>
       wk_keys s1 = js_set (wk_keyId k) (k\<lparr>wk_status := WkRetiring, wk_retiredAt := Some now, wk_expiresAt := Some (now + overlapMs)\<rparr>) (wk_keys s)"
  then obtain k where "k \<in> set (activeKeysFor (Some p) s)"
    "wk_keys s1 = js_set (wk_keyId k) (k\<lparr>wk_status := WkRetiring, wk_retiredAt := Some now, wk_expiresAt := Some (now + overlapMs)\<rparr>) (wk_keys s)" by blast
  note k = this
  have "js_get (wk_keys s) (wk_keyId k) = Some k" "wk_status k = WkActive" using k(1) assms(1) by (simp_all add: in_activeKeysFor keys_ok_value)
  then show ?thesis by (intro changed [OF _ k(2)]) simp_all
qed (simp add: kept)

lemma move_ok: "key_move X s s' \<Longrightarrow> keys_ok s \<Longrightarrow> keys_ok s'"
proof (erule key_move.cases)
  fix k k'
  assume "keys_ok s" "wk_keys s' = js_set (wk_keyId k) k' (wk_keys s)" "wk_keyId k' = wk_keyId k"
  then show "keys_ok s'" by (auto simp: keys_ok_def)
next
  assume "keys_ok s" "js_wf (wk_keys s')" "\<And>i k. js_get (wk_keys s') i = Some k \<Longrightarrow> js_get (wk_keys s) i = Some k"
  then show "keys_ok s'" unfolding keys_ok_def by blast
qed (auto simp: keys_ok_def)

lemma revoke_move:
  assumes "keys_ok s"
  shows "key_move X s (snd (revoke_key i now s))"
proof (cases "js_get (wk_keys s) i")
  case (Some k)
  then have i: "wk_keyId k = i" by (rule keys_okD [OF assms])
  show ?thesis
  proof (cases "wk_status k = WkActive \<and> length (activeKeysFor (Some (wk_provider k)) s) = 1")
    case True
    then show ?thesis by (intro kept) (simp add: revoke_key_def Some)
  next
    case False
    then show ?thesis
      using Some i by (intro changed [of s k _ "k\<lparr>wk_status := WkRevoked, wk_revokedAt := Some now\<rparr>"]) (auto simp: revoke_key_def Let_def)
  qed
qed (simp add: revoke_key_def kept)

lemma sign_move:
  assumes "keys_ok s"
  shows "key_move X s (snd (sign_webhook env input now s))"
  using sign_keys [of env input now s]
proof
  assume "\<exists>k. signing_key input s = Inr k \<and> wk_keys (snd (sign_webhook env input now s)) = js_set (wk_keyId k) (k\<lparr>wk_lastUsedAt := Some now\<rparr>) (wk_keys s)"
  then obtain k where k: "signing_key input s = Inr k"
    "wk_keys (snd (sign_webhook env input now s)) = js_set (wk_keyId k) (k\<lparr>wk_lastUsedAt := Some now\<rparr>) (wk_keys s)" by blast
  show ?thesis using signing_key_active [OF k(1) assms] by (intro changed [OF _ k(2)]) simp_all
qed (simp add: kept)

lemma verify_accepted:
  assumes "wo_isValid (fst (verify_webhook env input now s))" "keys_ok s"
  obtains k where "js_get (wk_keys s) (wk_keyId k) = Some k" "wk_status k \<noteq> WkRevoked" "\<not> expired_key now k"
    "wo_keyId (fst (verify_webhook env input now s)) = Some (wk_keyId k)"
    "wk_keys (snd (verify_webhook env input now s)) = js_set (wk_keyId k) (k\<lparr>wk_lastUsedAt := Some now\<rparr>) (wk_keys s)"
proof (cases "check_webhook env input now s")
  case (Inl e)
  then show ?thesis using assms(1) verify_result [of env input now s] by simp
next
  case (Inr v)
  obtain ts age k where v: "v = (ts, age, k)" by (cases v)
  then obtain i ks where "resolveCandidates i (wv_provider input) now s = Inr ks" "k \<in> set ks"
    using check_accepts [OF Inr [unfolded v]] by metis
  from candidates_in [OF this assms(2)] show ?thesis
    using that [of k] verify_result [of env input now s] by (simp add: Inr v)
qed

lemma verify_move:
  assumes "keys_ok s"
  shows "key_move X s (snd (verify_webhook env input now s))"
proof (cases "wo_isValid (fst (verify_webhook env input now s))")
  case True
  obtain k where "js_get (wk_keys s) (wk_keyId k) = Some k" "wk_status k \<noteq> WkRevoked"
    and keys: "wk_keys (snd (verify_webhook env input now s)) = js_set (wk_keyId k) (k\<lparr>wk_lastUsedAt := Some now\<rparr>) (wk_keys s)"
    by (rule verify_accepted [OF True assms])
  then show ?thesis by (intro changed [OF _ keys]) simp_all
next
  case False
  then show ?thesis using verify_result [of env input now s] by (intro kept) (auto split: sum.splits)
qed

lemma purge_move: "keys_ok s \<Longrightarrow> key_move X s (snd (purgeExpired now s))"
proof (rule dropped)
  assume ok: "keys_ok s"
  show "js_wf (wk_keys (snd (purgeExpired now s)))" using ok unfolding purge_keys keys_ok_def by (intro js_wf_filter) simp
  show "js_get (wk_keys s) i = Some k" if "js_get (wk_keys (snd (purgeExpired now s))) i = Some k" for i k
    using that purge_get [OF ok] by (auto split: option.splits if_splits)
qed

text \<open>A rotation is two moves; every other step is one.\<close>

lemma wk_step_moves:
  assumes "wk_step env X s s'" "keys_ok s"
  obtains s1 where "key_move X s s1" "keys_ok s1" "key_move X s1 s'" "keys_ok s'"
  using assms
proof (induction rule: wk_step.induct)
  case (wk_rotate rinput s now)
  obtain c s1 where r: "retire (js_or (ro_provider rinput) []) (js_or (ro_overlapSeconds rinput) (wk_overlapSeconds s) * 1000) now s = (c, s1)"
    "wk_keys (snd (rotate_key env rinput now s)) = wk_keys (snd (register_key env (rotation_input rinput) now s1))"
    by (rule rotate_result [of rinput s now env])
  have 1: "key_move X s s1" by (rule retire_move [OF wk_rotate(3) r(1)])
  then have ok: "keys_ok s1" using move_ok wk_rotate(3) by blast
  have "key_move X s1 (snd (register_key env (rotation_input rinput) now s1))"
    using wk_rotate(1) retire_keys(2) [OF r(1)] by (intro register_move) simp
  then have 2: "key_move X s1 (snd (rotate_key env rinput now s))"
    by cases (use r(2) in \<open>auto intro: key_move.intros\<close>)
  show ?case using wk_rotate(2) 1 ok 2 move_ok [OF 2 ok] .
next
  case (wk_register input s now)
  from wk_register(2) [OF kept [OF refl] wk_register(3) register_move [OF wk_register(1)] move_ok [OF register_move [OF wk_register(1)] wk_register(3)]]
  show ?case .
next
  case (wk_revoke s i now)
  from wk_revoke(1) [OF kept [OF refl] wk_revoke(2) revoke_move [OF wk_revoke(2)] move_ok [OF revoke_move [OF wk_revoke(2)] wk_revoke(2)]] show ?case .
next
  case (wk_sign s sinput now)
  from wk_sign(1) [OF kept [OF refl] wk_sign(2) sign_move [OF wk_sign(2)] move_ok [OF sign_move [OF wk_sign(2)] wk_sign(2)]] show ?case .
next
  case (wk_verify s vinput now)
  from wk_verify(1) [OF kept [OF refl] wk_verify(2) verify_move [OF wk_verify(2)] move_ok [OF verify_move [OF wk_verify(2)] wk_verify(2)]] show ?case .
next
  case (wk_purge s now)
  from wk_purge(1) [OF kept [OF refl] wk_purge(2) purge_move [OF wk_purge(2)] move_ok [OF purge_move [OF wk_purge(2)] wk_purge(2)]] show ?case .
next
  case (wk_reset s)
  have "key_move X s (resetWebhookMetrics s)" by (rule kept) (simp add: resetWebhookMetrics_def)
  from wk_reset(1) [OF kept [OF refl] wk_reset(2) this move_ok [OF this wk_reset(2)]] show ?case .
next
  case (wk_clear s)
  have "key_move X s (clear_keys s)" by (rule dropped) (simp_all add: clear_keys_def)
  from wk_clear(1) [OF kept [OF refl] wk_clear(2) this move_ok [OF this wk_clear(2)]] show ?case .
qed

lemma wk_step_ok: "wk_step env X s s' \<Longrightarrow> keys_ok s \<Longrightarrow> keys_ok s'"
  by (rule wk_step_moves)

lemma wk_run_ok: "wk_run env X s s' \<Longrightarrow> keys_ok s \<Longrightarrow> keys_ok s'"
  by (induction rule: rtranclp_induct) (blast intro: wk_step_ok)+

lemma new_registry_ok:
  assumes "new_registry env ov r t inputs now = Inr s"
  shows "keys_ok s"
proof -
  have "register_all env inputs now s0 = Inr s \<Longrightarrow> keys_ok s0 \<Longrightarrow> keys_ok s" for s0
  proof (induction inputs arbitrary: s0)
    case (Cons i inputs)
    then show ?case
      using move_ok [OF register_move [of env i s0 "{}" now]] by (auto split: sum.splits prod.splits)
  qed simp
  from this [OF assms [unfolded new_registry_def]] show ?thesis by (simp add: keys_ok_def)
qed

subsection \<open>Revoked keys\<close>

definition revoked_or_gone :: "string \<Rightarrow> webhook_registry \<Rightarrow> bool" where
  "revoked_or_gone i s \<longleftrightarrow> (case js_get (wk_keys s) i of None \<Rightarrow> True | Some k \<Rightarrow> wk_status k = WkRevoked)"

lemma revoked_move: "key_move {i} s s' \<Longrightarrow> revoked_or_gone i s \<Longrightarrow> revoked_or_gone i s'"
proof (erule key_move.cases)
  assume "revoked_or_gone i s" "\<And>j k. js_get (wk_keys s') j = Some k \<Longrightarrow> js_get (wk_keys s) j = Some k"
  then show "revoked_or_gone i s'" unfolding revoked_or_gone_def by (metis (no_types, lifting) option.case_eq_if option.collapse)
qed (auto simp: revoked_or_gone_def)

lemma revoked_run: "wk_run env {i} s s' \<Longrightarrow> keys_ok s \<Longrightarrow> revoked_or_gone i s \<Longrightarrow> revoked_or_gone i s'"
proof (induction rule: rtranclp_induct)
  case (step s1 s2)
  have ok: "keys_ok s1" using wk_run_ok step by blast
  show ?case by (rule wk_step_moves [OF step(2) ok]) (use step revoked_move in blast)
qed

subsection \<open>Active keys\<close>

definition active_key_for :: "string \<Rightarrow> WebhookKeyRecord \<Rightarrow> bool" where
  "active_key_for p k \<longleftrightarrow> wk_status k = WkActive \<and> wk_provider k = p"

text \<open>A provider has an active key, and none of them expires.\<close>

definition steady :: "string \<Rightarrow> webhook_registry \<Rightarrow> bool" where
  "steady p s \<longleftrightarrow> (\<exists>i k. js_get (wk_keys s) i = Some k \<and> active_key_for p k) \<and>
     (\<forall>i k. js_get (wk_keys s) i = Some k \<and> active_key_for p k \<longrightarrow> wk_expiresAt k = None)"

text \<open>Keys are registered without a time to expire, rotations name their provider and succeed.\<close>

inductive careful_step :: "webhook_env \<Rightarrow> webhook_registry \<Rightarrow> webhook_registry \<Rightarrow> bool" for env where
  cf_register: "wg_expiresAt input = None \<Longrightarrow> careful_step env s (snd (register_key env input now s))"
| cf_rotate: "truthy (ro_provider rinput) \<Longrightarrow> fst (rotate_key env rinput now s) = Inr v \<Longrightarrow> careful_step env s (snd (rotate_key env rinput now s))"
| cf_revoke: "careful_step env s (snd (revoke_key i now s))"
| cf_sign: "careful_step env s (snd (sign_webhook env sinput now s))"
| cf_verify: "careful_step env s (snd (verify_webhook env vinput now s))"
| cf_purge: "careful_step env s (snd (purgeExpired now s))"
| cf_reset: "careful_step env s (resetWebhookMetrics s)"

lemma careful_is_step: "careful_step env s s' \<Longrightarrow> wk_step env {} s s'"
  by (induction rule: careful_step.induct) (auto intro: wk_step.intros)

lemma steady_same: "wk_keys s' = wk_keys s \<Longrightarrow> steady p s' = steady p s"
  by (simp add: steady_def)

lemma steady_put:
  assumes "wk_keys s' = js_set i k' (wk_keys s)"
    and "\<exists>j u. js_get (wk_keys s) j = Some u \<and> active_key_for p u \<and> (j \<noteq> i \<or> active_key_for p k')"
    and "\<And>j u. js_get (wk_keys s) j = Some u \<Longrightarrow> active_key_for p u \<Longrightarrow> wk_expiresAt u = None" "active_key_for p k' \<Longrightarrow> wk_expiresAt k' = None"
  shows "steady p s'"
proof -
  obtain j u where "js_get (wk_keys s) j = Some u" "active_key_for p u" "j \<noteq> i \<or> active_key_for p k'" using assms(2) by blast
  then have "\<exists>j u. js_get (wk_keys s') j = Some u \<and> active_key_for p u"
    by (cases "j = i") (auto simp: assms(1) intro: exI [of _ i] exI [of _ j])
  moreover have "wk_expiresAt u = None" if "js_get (wk_keys s') j = Some u" "active_key_for p u" for j u
    using that assms(3,4) by (auto simp: assms(1) split: if_splits)
  ultimately show ?thesis unfolding steady_def by blast
qed

lemma steady_new: "steady p s \<Longrightarrow> wk_keys s' = js_set i k (wk_keys s) \<Longrightarrow> js_get (wk_keys s) i = None \<Longrightarrow> wk_expiresAt k = None \<Longrightarrow> steady p s'"
  unfolding steady_def [of p s] by (rule steady_put [of s' i k s]) (assumption, metis option.distinct(1), blast+)

lemma steady_touched:
  assumes "steady p s" "js_get (wk_keys s) i = Some k" "wk_keys s' = js_set i k' (wk_keys s)" "active_key_for p k' = active_key_for p k"
    "wk_expiresAt k' = wk_expiresAt k"
  shows "steady p s'"
proof (rule steady_put [OF assms(3)])
  obtain j u where "js_get (wk_keys s) j = Some u" "active_key_for p u" using assms(1) unfolding steady_def by blast
  then show "\<exists>j u. js_get (wk_keys s) j = Some u \<and> active_key_for p u \<and> (j \<noteq> i \<or> active_key_for p k')"
    using assms(2,4) by (metis option.inject)
qed (use assms in \<open>auto simp: steady_def\<close>)

lemma another_in: "x \<in> set xs \<Longrightarrow> distinct xs \<Longrightarrow> length xs \<noteq> 1 \<Longrightarrow> \<exists>y\<in>set xs. y \<noteq> x"
proof -
  assume "x \<in> set xs" "distinct xs" "length xs \<noteq> 1"
  then obtain y z ys where "xs = y # z # ys" by (cases xs; cases "tl xs") auto
  then show ?thesis using \<open>distinct xs\<close> by (cases "y = x") auto
qed

lemma distinct_active: "keys_ok s \<Longrightarrow> distinct (activeKeysFor p s)"
proof -
  assume ok: "keys_ok s"
  then have "distinct (map wk_keyId (js_values (wk_keys s)))"
    by (intro js_values_ids_distinct) (simp_all add: keys_ok_def entries_sat_def)
  then show ?thesis by (simp add: distinct_map activeKeysFor_def newest_first_def)
qed

lemma steady_step:
  assumes "careful_step env s s'" "keys_ok s" "steady p s" "p \<noteq> []"
  shows "steady p s'"
  using assms
proof (induction rule: careful_step.induct)
  case (cf_register input s now)
  from register_keys [of env input now s] show ?case
  proof (elim disjE exE conjE)
    fix k
    assume "wk_keys (snd (register_key env input now s)) = js_set (wk_keyId k) k (wk_keys s)" "js_get (wk_keys s) (wk_keyId k) = None"
      "wk_expiresAt k = wg_expiresAt input"
    then show ?case using cf_register steady_new by simp
  qed (use cf_register steady_same in blast)
next
  case (cf_rotate rinput now s v)
  let ?q = "js_or (ro_provider rinput) []"
  obtain c s1 where r: "retire ?q (js_or (ro_overlapSeconds rinput) (wk_overlapSeconds s) * 1000) now s = (c, s1)"
    "wk_keys (snd (rotate_key env rinput now s)) = wk_keys (snd (register_key env (rotation_input rinput) now s1))"
    "(\<exists>v. fst (rotate_key env rinput now s) = Inr v) \<longleftrightarrow> (\<exists>v. fst (register_key env (rotation_input rinput) now s1) = Inr v)"
    by (rule rotate_result [of rinput s now env])
  obtain k where k: "wk_keys (snd (rotate_key env rinput now s)) = js_set (wk_keyId k) k (wk_keys s1)" "js_get (wk_keys s1) (wk_keyId k) = None"
    "active_key_for ?q k" "wk_expiresAt k = None"
    using register_keys [of env "rotation_input rinput" now s1] r(2,3) cf_rotate(2)
    by (auto simp: rotation_input_def js_or_def active_key_for_def)
  have q: "truthy (Some ?q)" using cf_rotate(1) by (auto simp: truthy_def js_or_def)
  from retire_keys(1) [OF r(1)] show ?case
  proof
    assume "wk_keys s1 = wk_keys s \<and> activeKeysFor (Some ?q) s = []"
    then show ?case using steady_new [OF cf_rotate(4) _ _ k(4)] k(1,2) by simp
  next
    assume "\<exists>c. c \<in> set (activeKeysFor (Some ?q) s) \<and> wk_keys s1 = js_set (wk_keyId c)
      (c\<lparr>wk_status := WkRetiring, wk_retiredAt := Some now,
         wk_expiresAt := Some (now + js_or (ro_overlapSeconds rinput) (wk_overlapSeconds s) * 1000)\<rparr>) (wk_keys s)"
    then obtain c c' where c: "c \<in> set (activeKeysFor (Some ?q) s)" "wk_keys s1 = js_set (wk_keyId c) c' (wk_keys s)"
      "wk_status c' = WkRetiring" by fastforce
    have at: "js_get (wk_keys s) (wk_keyId c) = Some c" "wk_provider c = ?q"
      using c(1) q cf_rotate(3) by (simp_all add: in_activeKeysFor keys_ok_value)
    have others: "wk_expiresAt u = None" if "js_get (wk_keys s1) i = Some u" "active_key_for p u" for i u
      using that cf_rotate(4) c(2,3) unfolding steady_def by (auto simp: active_key_for_def split: if_splits)
    have ex: "\<exists>i u. js_get (wk_keys (snd (rotate_key env rinput now s))) i = Some u \<and> active_key_for p u"
    proof (cases "?q = p")
      case True
      then show ?thesis using k(3) unfolding k(1) by force
    next
      case False
      obtain i u where u: "js_get (wk_keys s) i = Some u" "active_key_for p u" using cf_rotate(4) unfolding steady_def by blast
      then have "i \<noteq> wk_keyId c" using at False by (auto simp: active_key_for_def)
      then have "js_get (wk_keys s1) i = Some u" using u(1) c(2) by simp
      then show ?thesis using u(2) k(2) unfolding k(1) by (intro exI [of _ i] exI [of _ u]) auto
    qed
    then show ?case unfolding steady_def using others k(4) by (auto simp: k(1) split: if_splits)
  qed
next
  case (cf_revoke s i now)
  show ?case
  proof (cases "js_get (wk_keys s) i")
    case None
    then show ?thesis using cf_revoke by (simp add: revoke_key_def)
  next
    case (Some k)
    show ?thesis
    proof (cases "wk_status k = WkActive \<and> length (activeKeysFor (Some (wk_provider k)) s) = 1")
      case True
      then show ?thesis using cf_revoke by (simp add: revoke_key_def Some)
    next
      case False
      have i: "wk_keyId k = i" using keys_okD [OF cf_revoke(1) Some] .
      have keys: "wk_keys (snd (revoke_key i now s)) = js_set i (k\<lparr>wk_status := WkRevoked, wk_revokedAt := Some now\<rparr>) (wk_keys s)"
        using False by (auto simp: revoke_key_def Some Let_def)
      have "\<exists>j u. js_get (wk_keys s) j = Some u \<and> active_key_for p u \<and> j \<noteq> i"
      proof (cases "active_key_for p k")
        case True
        then have "k \<in> set (activeKeysFor (Some p) s)" using Some i cf_revoke(1) by (simp add: in_activeKeysFor keys_ok_value active_key_for_def)
        moreover have "length (activeKeysFor (Some p) s) \<noteq> 1" using True False by (simp add: active_key_for_def)
        ultimately obtain u where u: "u \<in> set (activeKeysFor (Some p) s)" "u \<noteq> k"
          using another_in [OF _ distinct_active [OF cf_revoke(1)]] by metis
        then have "js_get (wk_keys s) (wk_keyId u) = Some u" "active_key_for p u"
          using cf_revoke(1,3) by (simp_all add: in_activeKeysFor keys_ok_value active_key_for_def truthy_def)
        moreover have "wk_keyId u \<noteq> i" using calculation(1) u(2) Some by auto
        ultimately show ?thesis by blast
      next
        case False
        then show ?thesis using cf_revoke(2) Some unfolding steady_def by (metis option.inject)
      qed
      then show ?thesis using cf_revoke(2) unfolding steady_def keys by (auto simp: active_key_for_def split: if_splits)
    qed
  qed
next
  case (cf_sign s input now)
  show ?case
  proof (cases "wk_keys (snd (sign_webhook env input now s)) = wk_keys s")
    case False
    then obtain k where k: "signing_key input s = Inr k"
      "wk_keys (snd (sign_webhook env input now s)) = js_set (wk_keyId k) (k\<lparr>wk_lastUsedAt := Some now\<rparr>) (wk_keys s)"
      using sign_keys [of env input now s] by auto
    then show ?thesis using signing_key_active [OF k(1) cf_sign(1)] by (intro steady_touched [OF cf_sign(2) _ k(2)]) (simp_all add: active_key_for_def)
  qed (use cf_sign steady_same in blast)
next
  case (cf_verify s input now)
  show ?case
  proof (cases "wo_isValid (fst (verify_webhook env input now s))")
    case True
    obtain k where k: "js_get (wk_keys s) (wk_keyId k) = Some k"
      "wk_keys (snd (verify_webhook env input now s)) = js_set (wk_keyId k) (k\<lparr>wk_lastUsedAt := Some now\<rparr>) (wk_keys s)"
      by (rule verify_accepted [OF True cf_verify(1)])
    then show ?thesis by (intro steady_touched [OF cf_verify(2) _ k(2)]) (simp_all add: active_key_for_def)
  next
    case False
    then have "wk_keys (snd (verify_webhook env input now s)) = wk_keys s"
      using verify_result [of env input now s] by (auto split: sum.splits)
    then show ?thesis using cf_verify steady_same by blast
  qed
next
  case (cf_purge s now)
  have same: "js_get (wk_keys (snd (purgeExpired now s))) i = Some k" if "js_get (wk_keys s) i = Some k" "active_key_for p k" for i k
    using that purge_get [OF cf_purge(1), of now i] cf_purge(2) by (auto simp: steady_def long_expired_def long_unused_def active_key_for_def)
  moreover have "js_get (wk_keys s) i = Some k" if "js_get (wk_keys (snd (purgeExpired now s))) i = Some k" for i k
    using that purge_get [OF cf_purge(1), of now i] by (auto split: option.splits if_splits)
  ultimately show ?case using cf_purge(2) unfolding steady_def by blast
next
  case (cf_reset s)
  then show ?case using steady_same [of "resetWebhookMetrics s" s p] by (simp add: resetWebhookMetrics_def)
qed

lemma steady_run: "(careful_step env)\<^sup>*\<^sup>* s s' \<Longrightarrow> keys_ok s \<Longrightarrow> steady p s \<Longrightarrow> p \<noteq> [] \<Longrightarrow> keys_ok s' \<and> steady p s'"
  by (induction rule: rtranclp_induct) (blast, metis steady_step wk_step_ok careful_is_step)

subsection \<open>A registry for the witnesses\<close>

definition hook_env :: webhook_env where
  "hook_env = \<lparr>wh_hmac = (\<lambda>secret data. to_hex (map2 (+) (take 32 (ascii_bytes secret @ replicate 32 0)) (take 32 (ascii_bytes data @ replicate 32 0)))),
     wh_secret = (\<lambda>n. replicate 43 (char_of (97 + n))), wh_suffix = nat_text, wh_dateParse = (\<lambda>_. None), wh_number = (\<lambda>_. ''1'')\<rparr>"

lemma hex_digest_to_hex: "length bs = 32 \<Longrightarrow> hex_digest (to_hex bs)"
proof -
  have "unat b < 256" for b :: byte using unsigned_less [of b, where ?'a = nat] by simp
  then have "unat b div 16 < 16" for b :: byte by (simp add: less_mult_imp_div_less)
  then have "list_all (\<lambda>c. hex_value c \<noteq> None) (to_hex bs)" by (induction bs) (simp_all add: hex_value_digit)
  then show "length bs = 32 \<Longrightarrow> hex_digest (to_hex bs)" by (simp add: hex_digest_def)
qed

lemma hook_hmac: "hmac_ok hook_env"
  by (simp add: hmac_ok_def hook_env_def hex_digest_to_hex)

definition hook_input :: "string \<Rightarrow> string \<Rightarrow> int option \<Rightarrow> WebhookKeyGenerationInput" where
  "hook_input provider keyId expiresAt = \<lparr>wg_provider = Some provider, wg_secret = None, wg_keyId = Some keyId, wg_label = None,
     wg_expiresAt = expiresAt\<rparr>"

definition hook_rotation :: "string option \<Rightarrow> string option \<Rightarrow> string \<Rightarrow> rotate_input" where
  "hook_rotation provider secret keyId = \<lparr>ro_provider = provider, ro_secret = secret, ro_keyId = Some keyId, ro_label = None, ro_overlapSeconds = None\<rparr>"

definition hook_body :: "string option \<Rightarrow> SignWebhookPayloadInput" where
  "hook_body keyId = \<lparr>ws_provider = Some ''p'', ws_keyId = keyId, ws_body = ''{}'', ws_timestamp = None\<rparr>"

definition hooks0 :: webhook_registry where
  "hooks0 = (case new_registry hook_env None None None [hook_input ''p'' ''a'' None] 1000 of Inl _ \<Rightarrow> undefined | Inr s \<Rightarrow> s)"

definition hooks1 :: webhook_registry where
  "hooks1 = snd (sign_webhook hook_env (hook_body None) 5000 hooks0)"

definition hooks2 :: webhook_registry where
  "hooks2 = snd (rotate_key hook_env (hook_rotation (Some ''p'') None ''b'') 6000 hooks1)"

definition hooks3 :: webhook_registry where
  "hooks3 = snd (revoke_key ''a'' 7000 hooks2)"

lemma hooks_start: "new_registry hook_env None None None [hook_input ''p'' ''a'' None] 1000 = Inr hooks0"
  by (simp add: hooks0_def new_registry_def register_key_def hook_input_def hook_env_def js_or_def MIN_WEBHOOK_KEY_SECRET_LENGTH_def Let_def)

lemma hooks_ok: "keys_ok hooks0" "keys_ok hooks1"
  using new_registry_ok [OF hooks_start] wk_step_ok [OF wk_sign] unfolding hooks1_def by blast+

subsection \<open>Properties\<close>

text \<open>
  C38: A webhook signed by a key is verified with the text, time and body that were signed, within the
  tolerance, also when the keys of any provider are rotated in between, whether that succeeds or not, as
  long as the key does not expire by itself and the overlap of the rotation lasts.
\<close>

theorem signed_webhook_survives_rotation:
  assumes "hmac_ok env" "new_registry env ov r t inputs now0 = Inr s0" "wk_run env {} s0 s"
    and "sign_webhook env input now s = (Inr res, s1)" "signing_key input s = Inr k" "\<not> expired_key now2 k"
    and "now2 < now1 + js_or (ro_overlapSeconds rinput) (wk_overlapSeconds s) * 1000"
    and "signed_at input now \<le> 10 ^ 11" "\<bar>now2 - signed_at input now * 1000\<bar> \<le> wk_toleranceSeconds s * 1000"
    and "truthy provider \<Longrightarrow> provider = Some (wk_provider k)"
  shows "wo_isValid (fst (verify_webhook env (carried input res provider) now2 (snd (rotate_key env rinput now1 s1))))"
proof -
  have ok: "keys_ok s" using wk_run_ok [OF assms(3) new_registry_ok [OF assms(2)]] .
  have s1: "wk_keys s1 = js_set (wk_keyId k) (k\<lparr>wk_lastUsedAt := Some now\<rparr>) (wk_keys s)"
    "wk_overlapSeconds s1 = wk_overlapSeconds s" "wk_toleranceSeconds s1 = wk_toleranceSeconds s"
    using assms(4,5) by (auto simp: sign_webhook_def Let_def)
  have st: "wk_status k = WkActive" using signing_key_active [OF assms(5) ok] by simp
  have ok1: "keys_ok s1" using wk_step_ok [OF wk_sign ok, of env input now] assms(4) by simp
  let ?s2 = "snd (rotate_key env rinput now1 s1)"
  obtain c sr where r: "retire (js_or (ro_provider rinput) []) (js_or (ro_overlapSeconds rinput) (wk_overlapSeconds s1) * 1000) now1 s1 = (c, sr)"
    "wk_keys ?s2 = wk_keys (snd (register_key env (rotation_input rinput) now1 sr))" by (rule rotate_result [of rinput s1 now1 env])
  have "wk_step env {} s1 ?s2" by (rule wk_rotate) simp
  then have ok2: "keys_ok ?s2" using wk_step_ok ok1 by blast
  have "usable k now2 sr"
    using retire_keys(1) [OF r(1)]
  proof
    assume "wk_keys sr = wk_keys s1 \<and> activeKeysFor (Some (js_or (ro_provider rinput) [])) s1 = []"
    then show ?thesis using s1 st assms(6) by (simp add: usable_def expired_key_def)
  next
    assume "\<exists>q. q \<in> set (activeKeysFor (Some (js_or (ro_provider rinput) [])) s1) \<and> wk_keys sr = js_set (wk_keyId q)
      (q\<lparr>wk_status := WkRetiring, wk_retiredAt := Some now1,
         wk_expiresAt := Some (now1 + js_or (ro_overlapSeconds rinput) (wk_overlapSeconds s1) * 1000)\<rparr>) (wk_keys s1)"
    then obtain q where q: "q \<in> set (activeKeysFor (Some (js_or (ro_provider rinput) [])) s1)" "wk_keys sr = js_set (wk_keyId q)
      (q\<lparr>wk_status := WkRetiring, wk_retiredAt := Some now1,
         wk_expiresAt := Some (now1 + js_or (ro_overlapSeconds rinput) (wk_overlapSeconds s1) * 1000)\<rparr>) (wk_keys s1)" by blast
    have "js_get (wk_keys s1) (wk_keyId q) = Some q" using q(1) ok1 by (simp add: in_activeKeysFor keys_ok_value)
    then show ?thesis
      using s1 st assms(6,7) q(2) by (cases "wk_keyId q = wk_keyId k") (auto simp: usable_def expired_key_def)
  qed
  then have "usable k now2 ?s2"
    using register_keys [of env "rotation_input rinput" now1 sr] unfolding usable_def r(2) by fastforce
  moreover have "wk_toleranceSeconds ?s2 = wk_toleranceSeconds s" by (simp add: s1(3))
  ultimately show ?thesis
    using signed_is_verified [OF assms(1,4,5) ok ok2 _ assms(10,8)] assms(9) by simp
qed

theorem signed_webhook_survives_rotation_witness:
  "\<exists>res. fst (sign_webhook hook_env (hook_body None) 5000 hooks0) = Inr res \<and>
     wo_isValid (fst (verify_webhook hook_env (carried (hook_body None) res (Some ''p'')) 100000 hooks2))"
proof -
  have "(case sign_webhook hook_env (hook_body None) 5000 hooks0 of (Inl _, _) \<Rightarrow> False | (Inr _, s) \<Rightarrow> True)" by code_simp
  then obtain res s1 where res: "sign_webhook hook_env (hook_body None) 5000 hooks0 = (Inr res, s1)" by (auto split: prod.splits sum.splits)
  have "(case signing_key (hook_body None) hooks0 of Inl _ \<Rightarrow> False | Inr k \<Rightarrow> \<not> expired_key 100000 k \<and> wk_provider k = ''p'')" by code_simp
  then obtain k where k: "signing_key (hook_body None) hooks0 = Inr k" "\<not> expired_key 100000 k" "wk_provider k = ''p''" by (auto split: sum.splits)
  have "100000 < 6000 + js_or (ro_overlapSeconds (hook_rotation (Some ''p'') None ''b'')) (wk_overlapSeconds hooks0) * 1000" by code_simp
  moreover have "signed_at (hook_body None) 5000 \<le> 10 ^ 11" by code_simp
  moreover have "\<bar>100000 - signed_at (hook_body None) 5000 * 1000\<bar> \<le> wk_toleranceSeconds hooks0 * 1000" by code_simp
  ultimately have "wo_isValid (fst (verify_webhook hook_env (carried (hook_body None) res (Some ''p'')) 100000
      (snd (rotate_key hook_env (hook_rotation (Some ''p'') None ''b'') 6000 s1))))"
    using signed_webhook_survives_rotation [OF hook_hmac hooks_start rtranclp.rtrancl_refl res k(1,2)] k(3) by simp
  then show ?thesis using res by (simp add: hooks1_def hooks2_def)
qed

text \<open>
  C39: A key that is revoked never signs again and no signature is accepted in its name, whatever is
  called since, unless a new key is registered under its identifier.
\<close>

theorem revoked_key_never_used:
  assumes "new_registry env ov r t inputs now0 = Inr s0" "wk_run env {} s0 s" "revoke_key i now s = (Inr True, s1)" "wk_run env {i} s1 s2"
  shows "\<not> (wo_isValid (fst (verify_webhook env vinput now2 s2)) \<and> wo_keyId (fst (verify_webhook env vinput now2 s2)) = Some i) \<and>
     (\<forall>res. fst (sign_webhook env sinput now2 s2) = Inr res \<longrightarrow> wsr_keyId res \<noteq> i)"
proof -
  have ok: "keys_ok s" using wk_run_ok [OF assms(2) new_registry_ok [OF assms(1)]] .
  have ok1: "keys_ok s1" using wk_step_ok [OF wk_revoke ok, of i now] assms(3) by simp
  have "revoked_or_gone i s1"
    using assms(3) by (auto simp: revoke_key_def revoked_or_gone_def Let_def split: option.splits if_splits)
  then have gone: "revoked_or_gone i s2" using revoked_run [OF assms(4) ok1] by simp
  have ok2: "keys_ok s2" using wk_run_ok [OF assms(4) ok1] .
  have "wo_keyId (fst (verify_webhook env vinput now2 s2)) \<noteq> Some i" if valid: "wo_isValid (fst (verify_webhook env vinput now2 s2))"
  proof -
    obtain k where "js_get (wk_keys s2) (wk_keyId k) = Some k" "wk_status k \<noteq> WkRevoked"
      "wo_keyId (fst (verify_webhook env vinput now2 s2)) = Some (wk_keyId k)" by (rule verify_accepted [OF valid ok2])
    then show ?thesis using gone by (auto simp: revoked_or_gone_def)
  qed
  moreover have "wsr_keyId res \<noteq> i" if res: "fst (sign_webhook env sinput now2 s2) = Inr res" for res
  proof -
    obtain k where k: "signing_key sinput s2 = Inr k" "wsr_keyId res = wk_keyId k"
      using res by (auto simp: sign_webhook_def Let_def split: sum.splits)
    then show ?thesis using signing_key_active [OF k(1) ok2] gone by (auto simp: revoked_or_gone_def)
  qed
  ultimately show ?thesis by blast
qed

theorem revoked_key_never_used_witness:
  "\<exists>res. fst (sign_webhook hook_env (hook_body None) 5000 hooks0) = Inr res \<and> wsr_keyId res = ''a'' \<and>
     \<not> (wo_isValid (fst (verify_webhook hook_env (carried (hook_body None) res (Some ''p'')) 8000 hooks3)) \<and>
        wo_keyId (fst (verify_webhook hook_env (carried (hook_body None) res (Some ''p'')) 8000 hooks3)) = Some ''a'')"
proof -
  have "wk_step hook_env {} hooks0 hooks1" "wk_step hook_env {} hooks1 hooks2"
    unfolding hooks1_def hooks2_def by (rule wk_sign, rule wk_rotate) simp
  then have run: "wk_run hook_env {} hooks0 hooks2" by (meson r_into_rtranclp rtranclp.rtrancl_into_rtrancl)
  have "(case fst (revoke_key ''a'' 7000 hooks2) of Inl _ \<Rightarrow> False | Inr b \<Rightarrow> b)" by code_simp
  then have "revoke_key ''a'' 7000 hooks2 = (Inr True, hooks3)" by (auto simp: hooks3_def prod_eq_iff split: sum.splits)
  note never = revoked_key_never_used [OF hooks_start run this rtranclp.rtrancl_refl]
  have "(case fst (sign_webhook hook_env (hook_body None) 5000 hooks0) of Inl _ \<Rightarrow> False | Inr res \<Rightarrow> wsr_keyId res = ''a'')" by code_simp
  then obtain res where "fst (sign_webhook hook_env (hook_body None) 5000 hooks0) = Inr res" "wsr_keyId res = ''a''" by (auto split: sum.splits)
  then show ?thesis using never by blast
qed

text \<open>
  C40: A provider that has an active key keeps one, while keys are registered without a time to expire,
  rotations name their provider and succeed, and whatever is revoked, signed, verified or purged.
\<close>

theorem provider_keeps_active_key:
  assumes "new_registry env ov r t inputs now0 = Inr s0" "wk_run env {} s0 s" "steady p s" "p \<noteq> []" "(careful_step env)\<^sup>*\<^sup>* s s'"
  shows "\<exists>k. getActiveKey (Some p) s' = Some k \<and> wk_provider k = p \<and> wk_status k = WkActive"
proof -
  have ok: "keys_ok s" using wk_run_ok [OF assms(2) new_registry_ok [OF assms(1)]] .
  then have s': "keys_ok s'" "steady p s'" using steady_run [OF assms(5) ok assms(3,4)] by simp_all
  then obtain i k where k: "js_get (wk_keys s') i = Some k" "active_key_for p k" unfolding steady_def by blast
  then have "k \<in> set (activeKeysFor (Some p) s')"
    using s'(1) keys_okD [OF s'(1) k(1)] by (simp add: in_activeKeysFor keys_ok_value active_key_for_def)
  then obtain q where q: "getActiveKey (Some p) s' = Some q"
    unfolding getActiveKey_def by (cases "first_of (activeKeysFor (Some p) s')") auto
  then have "q \<in> set (activeKeysFor (Some p) s')" using first_of_in by (simp add: getActiveKey_def)
  then show ?thesis using q assms(4) by (simp add: in_activeKeysFor truthy_def)
qed

theorem provider_keeps_active_key_witness: "\<exists>k. getActiveKey (Some ''p'') hooks2 = Some k \<and> wk_keyId k = ''b'' \<and> wk_provider k = ''p''"
proof -
  have "careful_step hook_env hooks0 hooks1" unfolding hooks1_def by (rule cf_sign)
  moreover obtain v where "fst (rotate_key hook_env (hook_rotation (Some ''p'') None ''b'') 6000 hooks1) = Inr v"
  proof -
    have "(case fst (rotate_key hook_env (hook_rotation (Some ''p'') None ''b'') 6000 hooks1) of Inl _ \<Rightarrow> False | Inr _ \<Rightarrow> True)" by code_simp
    then show ?thesis using that by (auto split: sum.splits)
  qed
  then have "careful_step hook_env hooks1 hooks2" unfolding hooks2_def
    by (intro cf_rotate) (simp_all add: hook_rotation_def truthy_def)
  ultimately have run: "(careful_step hook_env)\<^sup>*\<^sup>* hooks0 hooks2" by (meson r_into_rtranclp rtranclp.rtrancl_into_rtrancl)
  have "list_ex (\<lambda>(_, k). active_key_for ''p'' k) (wk_keys hooks0) \<and> list_all (\<lambda>(_, k). wk_expiresAt k = None) (wk_keys hooks0)" by code_simp
  then have "steady ''p'' hooks0"
    using hooks_ok(1) unfolding steady_def keys_ok_def js_wf_def js_keys_def by (fastforce simp: list_ex_iff list_all_iff map_of_eq_Some_iff dest: map_of_SomeD)
  moreover have "map_option wk_keyId (getActiveKey (Some ''p'') hooks2) = Some ''b''" by code_simp
  ultimately show ?thesis
    using provider_keeps_active_key [OF hooks_start rtranclp.rtrancl_refl _ _ run] by fastforce
qed

subsection \<open>What a rotation can break\<close>

text \<open>A rotation that fails, here for a short secret, has retired the current key: the provider has no active key.\<close>

lemma failed_rotation_leaves_no_key:
  "let (r, s) = rotate_key hook_env (hook_rotation (Some ''p'') (Some ''short'') ''b'') 6000 hooks0
   in (case r of Inl e \<Rightarrow> wke_code e = ''WEBHOOK_KEY_SECRET_TOO_SHORT'' | Inr _ \<Rightarrow> False) \<and> activeKeysFor (Some ''p'') s = []"
  by code_simp

text \<open>A rotation that names no provider retires the newest active key of any provider.\<close>

lemma rotation_of_no_provider:
  "let s = snd (rotate_key hook_env (hook_rotation None None ''b'') 6000 hooks0)
   in map (\<lambda>k. (wk_provider k, wk_status k)) (js_values (wk_keys s)) = [(''p'', WkRetiring), ([], WkActive)] \<and> activeKeysFor (Some ''p'') s = []"
  by code_simp

text \<open>A key that has expired signs, and what it signs is rejected.\<close>

lemma expired_key_signs:
  "let (r, s) = sign_webhook hook_env (hook_body (Some ''x'')) 9000 (snd (register_key hook_env (hook_input ''p'' ''x'' (Some 8000)) 2000 hooks0))
   in (case r of Inl _ \<Rightarrow> False
       | Inr res \<Rightarrow> wo_reason (fst (verify_webhook hook_env (carried (hook_body None) res (Some ''p'')) 9000 s)) = Some KeyExpired)"
  by code_simp

text \<open>
  A retiring key is purged by the time since it retired: with an overlap longer than the retention it is
  deleted while what it signs would still be accepted.
\<close>

lemma purged_within_overlap:
  "let s = snd (rotate_key hook_env ((hook_rotation (Some ''p'') None ''b'')\<lparr>ro_overlapSeconds := Some 1000000\<rparr>) 6000 hooks0);
       s' = snd (purgeExpired 700000000 s)
   in map_option (expired_key 700000000) (getWebhookKey ''a'' s) = Some False \<and> getWebhookKey ''a'' s' = None"
  by code_simp

text \<open>The number that a purge returns leaves out the keys that expired long ago.\<close>

lemma purge_counts_less:
  "let (n, s) = purgeExpired 700000000 (snd (register_key hook_env (hook_input ''p'' ''x'' (Some 8000)) 2000 hooks0))
   in n = 0 \<and> wm_purged (wk_metrics s) = 1"
  by code_simp

end
