(* ===== verification/TokenBucket.thy ===== *)
theory TokenBucket
  imports Js
begin

text \<open>
  \<open>backend/src/middleware/rate-limit.ts\<close> with \<open>backend/src/services/api-key-registry.ts\<close>: the token
  bucket that limits the requests of a client. Numbers are rationals, time is in milliseconds and is
  read once per request. The headers of a request are given by name, the batch header as the number
  it reads as. Redis is a parameter: absent, or an answer (or a failure) for each call of its script.
\<close>

subsection \<open>Requests and API keys\<close>

datatype UserTier = Free | Pro | Enterprise

datatype header_value = OneValue string | ManyValues "string list"

record http_request =
  rq_path :: string
  rq_ip :: "string option"
  rq_headers :: "(string, header_value) jsmap"
  rq_batch :: "rat option"

record ApiKeyRecord =
  akr_key :: string
  akr_tier :: UserTier
  akr_label :: "string option"
  akr_customHourlyLimit :: "rat option"

definition KEY_REGISTRY :: "(string, ApiKeyRecord) jsmap" where
  "KEY_REGISTRY =
     [(''apk_free_demo_key_00000000000000000000000001'',
       \<lparr>akr_key = ''apk_free_demo_key_00000000000000000000000001'', akr_tier = Free,
        akr_label = Some ''demo-free'', akr_customHourlyLimit = None\<rparr>),
      (''apk_pro_demo_key_00000000000000000000000000001'',
       \<lparr>akr_key = ''apk_pro_demo_key_00000000000000000000000000001'', akr_tier = Pro,
        akr_label = Some ''demo-pro'', akr_customHourlyLimit = None\<rparr>),
      (''apk_ent_demo_key_00000000000000000000000000001'',
       \<lparr>akr_key = ''apk_ent_demo_key_00000000000000000000000000001'', akr_tier = Enterprise,
        akr_label = Some ''demo-enterprise'', akr_customHourlyLimit = Some 50000\<rparr>)]"

text \<open>The names that the registry inherits from \<open>Object.prototype\<close> are left out.\<close>

definition lookupApiKey :: "string \<Rightarrow> ApiKeyRecord option" where
  "lookupApiKey rawKey = js_get KEY_REGISTRY (js_trim rawKey)"

text \<open>The masked key; the ellipsis between the two parts is written as three dots.\<close>

definition maskApiKey :: "string \<Rightarrow> string" where
  "maskApiKey key =
     (if length key \<le> 8 then ''***'' else take 4 key @ ''...'' @ drop (length key - 4) key)"

definition single_header :: "string \<Rightarrow> http_request \<Rightarrow> string option" where
  "single_header name req =
     (case js_get (rq_headers req) name of Some (OneValue v) \<Rightarrow> Some v | _ \<Rightarrow> None)"

definition resolveUserTier :: "http_request \<Rightarrow> UserTier" where
  "resolveUserTier req =
     (let apiKey = single_header ''x-api-key'' req
      in case (if truthy apiKey then lookupApiKey (the apiKey) else None) of
           Some record \<Rightarrow> akr_tier record
         | None \<Rightarrow>
             let v = (case js_get (rq_headers req) ''x-user-tier'' of
                   Some (OneValue h) \<Rightarrow> Some (to_lower h)
                 | Some (ManyValues (h # hs)) \<Rightarrow> Some (to_lower h)
                 | _ \<Rightarrow> None)
             in if v = Some ''pro'' then Pro else if v = Some ''enterprise'' then Enterprise else Free)"

definition client_of_auth :: "http_request \<Rightarrow> string" where
  "client_of_auth req =
     (case single_header ''authorization'' req of
        Some auth \<Rightarrow>
          if prefix ''Bearer '' auth then maskApiKey (drop 7 auth)
          else if auth \<noteq> [] then maskApiKey auth
          else (case rq_ip req of Some ip \<Rightarrow> ip | None \<Rightarrow> ''unknown'')
      | None \<Rightarrow> (case rq_ip req of Some ip \<Rightarrow> ip | None \<Rightarrow> ''unknown''))"

definition resolveClientKey :: "http_request \<Rightarrow> string" where
  "resolveClientKey req =
     (case single_header ''x-api-key'' req of
        Some h \<Rightarrow>
          if js_trim h \<noteq> []
          then (case Option.bind (lookupApiKey (js_trim h)) akr_label of
                  Some label \<Rightarrow> label | None \<Rightarrow> maskApiKey (js_trim h))
          else client_of_auth req
      | None \<Rightarrow> client_of_auth req)"

definition resolveCustomHourlyLimit :: "http_request \<Rightarrow> rat option" where
  "resolveCustomHourlyLimit req =
     (case single_header ''x-api-key'' req of
        None \<Rightarrow> None
      | Some h \<Rightarrow> Option.bind (lookupApiKey (js_trim h)) akr_customHourlyLimit)"

subsection \<open>Configuration\<close>

record TokenBucketConfig =
  tbc_capacity :: rat
  tbc_refillRate :: rat
  tbc_burstAllowance :: rat

abbreviation bucket_config :: "rat \<Rightarrow> rat \<Rightarrow> rat \<Rightarrow> TokenBucketConfig" where
  "bucket_config capacity rate burst \<equiv>
     \<lparr>tbc_capacity = capacity, tbc_refillRate = rate, tbc_burstAllowance = burst\<rparr>"

type_synonym EndpointConfig = "UserTier \<Rightarrow> TokenBucketConfig"

definition by_tier :: "'a \<Rightarrow> 'a \<Rightarrow> 'a \<Rightarrow> UserTier \<Rightarrow> 'a" where
  "by_tier free pro enterprise tier =
     (case tier of Free \<Rightarrow> free | Pro \<Rightarrow> pro | Enterprise \<Rightarrow> enterprise)"

definition HOUR_SECONDS :: rat where
  "HOUR_SECONDS = 3600"

definition DEFAULT_TIER_CONFIGS :: EndpointConfig where
  "DEFAULT_TIER_CONFIGS = by_tier
     (bucket_config 1000 (1000 / HOUR_SECONDS) 100)
     (bucket_config 10000 (10000 / HOUR_SECONDS) 1000)
     (bucket_config 50000 (50000 / HOUR_SECONDS) 5000)"

definition SANDBOX_TIER_CONFIGS :: EndpointConfig where
  "SANDBOX_TIER_CONFIGS = by_tier
     (bucket_config 1000 20 200) (bucket_config 5000 100 1000) (bucket_config 20000 400 4000)"

definition ENDPOINT_CONFIGS :: "(string \<times> EndpointConfig) list" where
  "ENDPOINT_CONFIGS =
     [(''/api/v1/invoice'', by_tier
         (bucket_config 10 (1 / 10) 2) (bucket_config 60 1 10) (bucket_config 300 5 50)),
      (''/api/v1/verification'', by_tier
         (bucket_config 20 (3 / 10) 5) (bucket_config 100 2 20) (bucket_config 500 10 80)),
      (''/api/v1/stellar'', by_tier
         (bucket_config 30 (1 / 2) 5) (bucket_config 150 3 25) (bucket_config 600 12 100))]"

definition resolveEndpointConfig :: "string \<Rightarrow> UserTier \<Rightarrow> bool \<Rightarrow> TokenBucketConfig" where
  "resolveEndpointConfig path tier sandboxMode =
     (case find (\<lambda>e. prefix (fst e) path) ENDPOINT_CONFIGS of
        Some (_, cfg) \<Rightarrow>
          if sandboxMode
          then bucket_config (tbc_capacity (cfg tier) * 10) (tbc_refillRate (cfg tier) * 10)
                 (tbc_burstAllowance (cfg tier) * 10)
          else cfg tier
      | None \<Rightarrow> if sandboxMode then SANDBOX_TIER_CONFIGS tier else DEFAULT_TIER_CONFIGS tier)"

definition bucket_label :: "string \<Rightarrow> string" where
  "bucket_label path =
     (case find (\<lambda>e. prefix (fst e) path) ENDPOINT_CONFIGS of Some (p, _) \<Rightarrow> p | None \<Rightarrow> ''global'')"

subsection \<open>State\<close>

record BucketState =
  bks_tokens :: rat
  bks_lastRefillMs :: int
  bks_burstUsed :: bool

record RateLimitEvent =
  rle_ts :: int
  rle_key :: string
  rle_tier :: UserTier
  rle_endpoint :: string
  rle_allowed :: bool
  rle_tokensRemaining :: rat

record rate_limiter =
  rl_buckets :: "(string, BucketState) jsmap"
  rl_events :: "RateLimitEvent list"

definition MAX_ANALYTICS_EVENTS :: nat where
  "MAX_ANALYTICS_EVENTS = 5000"

definition recordAnalyticsEvent :: "RateLimitEvent \<Rightarrow> RateLimitEvent list \<Rightarrow> RateLimitEvent list" where
  "recordAnalyticsEvent event events =
     (let pushed = events @ [event]
      in if length pushed > MAX_ANALYTICS_EVENTS then tl pushed else pushed)"

record group_counts =
  gc_total :: nat
  gc_blocked :: nat

record AnalyticsSummary =
  ans_windowMs :: int
  ans_total :: nat
  ans_blocked :: nat
  ans_allowRate :: rat
  ans_byTier :: "(UserTier, group_counts) jsmap"
  ans_byEndpoint :: "(string, group_counts) jsmap"

definition count_group :: "'k \<Rightarrow> bool \<Rightarrow> ('k, group_counts) jsmap \<Rightarrow> ('k, group_counts) jsmap" where
  "count_group k allowed m =
     (let c = (case js_get m k of Some c \<Rightarrow> c | None \<Rightarrow> \<lparr>gc_total = 0, gc_blocked = 0\<rparr>)
      in js_set k \<lparr>gc_total = gc_total c + 1, gc_blocked = gc_blocked c + (if allowed then 0 else 1)\<rparr> m)"

definition getAnalyticsSummary :: "int \<Rightarrow> int \<Rightarrow> RateLimitEvent list \<Rightarrow> AnalyticsSummary" where
  "getAnalyticsSummary windowMs now events =
     (let recent = filter (\<lambda>e. rle_ts e \<ge> now - windowMs) events;
          blocked = filter (\<lambda>e. \<not> rle_allowed e) recent
      in \<lparr>ans_windowMs = windowMs, ans_total = length recent, ans_blocked = length blocked,
          ans_allowRate = (if length recent = 0 then 1
            else of_nat (length recent - length blocked) / of_nat (length recent)),
          ans_byTier = fold (\<lambda>e. count_group (rle_tier e) (rle_allowed e)) recent [],
          ans_byEndpoint = fold (\<lambda>e. count_group (rle_endpoint e) (rle_allowed e)) recent []\<rparr>)"

subsection \<open>The bucket\<close>

record consume_result =
  cr_allowed :: bool
  cr_tokensAfter :: rat
  cr_retryAfterMs :: rat

definition burst_capacity :: "TokenBucketConfig \<Rightarrow> rat" where
  "burst_capacity cfg = tbc_capacity cfg + tbc_burstAllowance cfg"

definition refill :: "TokenBucketConfig \<Rightarrow> int \<Rightarrow> BucketState \<Rightarrow> rat" where
  "refill cfg nowMs state =
     (let elapsedSec = max 0 (of_int (nowMs - bks_lastRefillMs state) / 1000)
      in min (burst_capacity cfg) (bks_tokens state + elapsedSec * tbc_refillRate cfg))"

definition consumeInMemory ::
  "string \<Rightarrow> TokenBucketConfig \<Rightarrow> int \<Rightarrow> (string, BucketState) jsmap \<Rightarrow> consume_result \<times> (string, BucketState) jsmap" where
  "consumeInMemory key cfg nowMs store =
     (let state = (case js_get store key of Some st \<Rightarrow> st
            | None \<Rightarrow> \<lparr>bks_tokens = burst_capacity cfg, bks_lastRefillMs = nowMs, bks_burstUsed = False\<rparr>);
          tokens = refill cfg nowMs state;
          allowed = (tokens \<ge> 1);
          tokensAfter = (if allowed then tokens - 1 else tokens)
      in (\<lparr>cr_allowed = allowed, cr_tokensAfter = tokensAfter,
           cr_retryAfterMs = (if allowed then 0 else of_int \<lceil>(1 - tokens) / tbc_refillRate cfg * 1000\<rceil>)\<rparr>,
          js_set key (state\<lparr>bks_tokens := tokensAfter, bks_lastRefillMs := nowMs\<rparr>) store))"

text \<open>The batch loop, on the buckets in memory and on the answers of Redis.\<close>

fun consume_batch ::
  "string \<Rightarrow> TokenBucketConfig \<Rightarrow> int \<Rightarrow> nat \<Rightarrow> consume_result \<Rightarrow> (string, BucketState) jsmap \<Rightarrow>
   consume_result \<times> (string, BucketState) jsmap" where
  "consume_batch key cfg nowMs 0 combined store = (combined, store)"
| "consume_batch key cfg nowMs (Suc n) combined store =
     (case consumeInMemory key cfg nowMs store of
        (r, store') \<Rightarrow> if \<not> cr_allowed r then (r, store') else consume_batch key cfg nowMs n r store')"

fun consume_redis_batch :: "consume_result option list \<Rightarrow> nat \<Rightarrow> consume_result \<Rightarrow> consume_result option" where
  "consume_redis_batch answers 0 combined = Some combined"
| "consume_redis_batch (Some r # answers) (Suc n) combined =
     (if \<not> cr_allowed r then Some r else consume_redis_batch answers n r)"
| "consume_redis_batch _ (Suc n) combined = None"

subsection \<open>The middleware\<close>

record RateLimitOptions =
  rlo_keyPrefix :: string
  rlo_endpointConfig :: "EndpointConfig option"
  rlo_sandboxMode :: bool

record rate_headers =
  rh_tier :: UserTier
  rh_limit :: rat
  rh_remaining :: int
  rh_reset :: int
  rh_policy :: TokenBucketConfig
  rh_batchCount :: "rat option"
  rh_sandbox :: bool

datatype rate_decision = RateNext | RateRejected nat string int

definition config_for :: "RateLimitOptions \<Rightarrow> http_request \<Rightarrow> TokenBucketConfig" where
  "config_for opts req =
     (let tier = resolveUserTier req;
          cfg = (case rlo_endpointConfig opts of Some c \<Rightarrow> c tier
            | None \<Rightarrow> resolveEndpointConfig (rq_path req) tier (rlo_sandboxMode opts))
      in case resolveCustomHourlyLimit req of
           Some customHourly \<Rightarrow>
             if customHourly \<noteq> 0 \<and> tier = Enterprise
             then bucket_config customHourly (customHourly / HOUR_SECONDS) (of_int \<lceil>customHourly * (1 / 10)\<rceil>)
             else cfg
         | None \<Rightarrow> cfg)"

definition tier_name :: "UserTier \<Rightarrow> string" where
  "tier_name tier = (case tier of Free \<Rightarrow> ''free'' | Pro \<Rightarrow> ''pro'' | Enterprise \<Rightarrow> ''enterprise'')"

definition bucket_key :: "RateLimitOptions \<Rightarrow> http_request \<Rightarrow> string" where
  "bucket_key opts req = rlo_keyPrefix opts @ '':'' @ tier_name (resolveUserTier req) @ '':'' @
     resolveClientKey req @ '':'' @ bucket_label (rq_path req)"

definition batch_count :: "http_request \<Rightarrow> rat" where
  "batch_count req =
     (let n = (case rq_batch req of Some v \<Rightarrow> if v = 0 then 1 else v | None \<Rightarrow> 1) in max 1 (min n 100))"

definition isSustainedOveruse :: "string \<Rightarrow> int \<Rightarrow> RateLimitEvent list \<Rightarrow> bool" where
  "isSustainedOveruse clientKey now events =
     (let keyEvents = filter (\<lambda>e. rle_key e = clientKey \<and> rle_ts e \<ge> now - 5 * 60 * 1000) events
      in if length keyEvents < 20 then False
         else of_nat (length (filter (\<lambda>e. \<not> rle_allowed e) keyEvents)) / of_nat (length keyEvents) \<ge> (4 / 5 :: rat))"

text \<open>A failure of Redis lets the request pass.\<close>

definition rateLimitMiddleware ::
  "RateLimitOptions \<Rightarrow> consume_result option list option \<Rightarrow> http_request \<Rightarrow> int \<Rightarrow> rate_limiter \<Rightarrow>
   (rate_decision \<times> rate_headers) \<times> rate_limiter" where
  "rateLimitMiddleware opts redis req now s =
     (let tier = resolveUserTier req;
          clientKey = resolveClientKey req;
          cfg = config_for opts req;
          batch = batch_count req;
          open_result = \<lparr>cr_allowed = True, cr_tokensAfter = tbc_capacity cfg, cr_retryAfterMs = 0\<rparr>;
          (result, buckets) = (case redis of
              None \<Rightarrow> consume_batch (bucket_key opts req) cfg now (nat \<lceil>batch\<rceil>) open_result (rl_buckets s)
            | Some answers \<Rightarrow>
                ((case consume_redis_batch answers (nat \<lceil>batch\<rceil>) open_result of
                    Some r \<Rightarrow> r | None \<Rightarrow> open_result), rl_buckets s));
          retrySec = \<lceil>cr_retryAfterMs result / 1000\<rceil>;
          resetSec = (if retrySec \<noteq> 0 then retrySec else \<lceil>tbc_capacity cfg / tbc_refillRate cfg\<rceil>);
          headers = \<lparr>rh_tier = tier, rh_limit = tbc_capacity cfg, rh_remaining = \<lfloor>cr_tokensAfter result\<rfloor>,
            rh_reset = \<lceil>of_int now / (1000 :: rat)\<rceil> + resetSec, rh_policy = cfg,
            rh_batchCount = (if batch > 1 then Some batch else None), rh_sandbox = rlo_sandboxMode opts\<rparr>;
          events = recordAnalyticsEvent \<lparr>rle_ts = now, rle_key = clientKey, rle_tier = tier,
            rle_endpoint = bucket_label (rq_path req), rle_allowed = cr_allowed result,
            rle_tokensRemaining = cr_tokensAfter result\<rparr> (rl_events s);
          sustained = (\<not> rlo_sandboxMode opts \<and> isSustainedOveruse clientKey now events)
      in ((if cr_allowed result then RateNext
           else if sustained then RateRejected 503 ''SUSTAINED_OVERUSE'' retrySec
           else RateRejected 429 ''RATE_LIMIT_EXCEEDED'' retrySec, headers),
          \<lparr>rl_buckets = buckets, rl_events = events\<rparr>))"

definition new_rate_limiter :: rate_limiter where
  "new_rate_limiter = \<lparr>rl_buckets = [], rl_events = []\<rparr>"

end
