(* ===== verification/SlidingWindow.thy ===== *)
theory SlidingWindow
  imports TokenBucket
begin

text \<open>
  \<open>backend/src/middleware/sliding-window-rate-limit.ts\<close>: the sliding window log, its graduated
  penalties and the middleware. Redis is a parameter: absent, an answer of its script, or a failure.
\<close>

subsection \<open>Configuration\<close>

record SlidingWindowConfig =
  swc_windowMs :: int
  swc_limit :: nat

record GraduatedPenaltyConfig =
  gpc_warnAtRatio :: rat
  gpc_throttleAtRatio :: rat
  gpc_blockAfterThrottledWindows :: nat
  gpc_blockDurationMs :: int

record EndpointSlidingWindowConfig =
  esw_window :: SlidingWindowConfig
  esw_penalties :: GraduatedPenaltyConfig

definition DEFAULT_GRADUATED_PENALTIES :: GraduatedPenaltyConfig where
  "DEFAULT_GRADUATED_PENALTIES =
     \<lparr>gpc_warnAtRatio = 7 / 10, gpc_throttleAtRatio = 9 / 10, gpc_blockAfterThrottledWindows = 3,
      gpc_blockDurationMs = 60000\<rparr>"

definition minute_window :: "nat \<Rightarrow> int \<Rightarrow> EndpointSlidingWindowConfig" where
  "minute_window limit blockDurationMs =
     \<lparr>esw_window = \<lparr>swc_windowMs = 60000, swc_limit = limit\<rparr>,
      esw_penalties = DEFAULT_GRADUATED_PENALTIES\<lparr>gpc_blockDurationMs := blockDurationMs\<rparr>\<rparr>"

definition ENDPOINT_SLIDING_WINDOWS :: "(string \<times> (UserTier \<Rightarrow> EndpointSlidingWindowConfig)) list" where
  "ENDPOINT_SLIDING_WINDOWS =
     [(''/api/v1/withdrawals'', by_tier (minute_window 3 300000) (minute_window 10 180000) (minute_window 30 120000)),
      (''/api/v1/auth'', by_tier (minute_window 5 600000) (minute_window 10 300000) (minute_window 20 180000)),
      (''/api/v1/invoice'', by_tier (minute_window 20 60000) (minute_window 100 60000) (minute_window 500 60000))]"

definition DEFAULT_SLIDING_WINDOW :: "UserTier \<Rightarrow> EndpointSlidingWindowConfig" where
  "DEFAULT_SLIDING_WINDOW = by_tier (minute_window 60 60000) (minute_window 600 60000) (minute_window 3000 60000)"

definition resolveEndpointWindow :: "string \<Rightarrow> UserTier \<Rightarrow> EndpointSlidingWindowConfig" where
  "resolveEndpointWindow path tier =
     (case find (\<lambda>e. prefix (fst e) path) ENDPOINT_SLIDING_WINDOWS of
        Some (_, cfg) \<Rightarrow> cfg tier | None \<Rightarrow> DEFAULT_SLIDING_WINDOW tier)"

definition window_label :: "string \<Rightarrow> string" where
  "window_label path =
     (case find (\<lambda>e. prefix (fst e) path) ENDPOINT_SLIDING_WINDOWS of Some (p, _) \<Rightarrow> p | None \<Rightarrow> ''global'')"

subsection \<open>The window\<close>

record WindowState =
  wst_timestamps :: "int list"
  wst_consecutiveThrottledWindows :: nat
  wst_blockedUntilMs :: int

datatype PenaltyLevel = LevelOk | LevelWarning | LevelThrottle | LevelBlock

record SlidingWindowResult =
  swr_level :: PenaltyLevel
  swr_count :: nat
  swr_limit :: nat
  swr_remaining :: nat
  swr_retryAfterMs :: int

definition pruneTimestamps :: "int list \<Rightarrow> int \<Rightarrow> int \<Rightarrow> int list" where
  "pruneTimestamps timestamps nowMs windowMs = dropWhile (\<lambda>t. t < nowMs - windowMs) timestamps"

definition blocked_result :: "nat \<Rightarrow> nat \<Rightarrow> int \<Rightarrow> SlidingWindowResult" where
  "blocked_result count limit retryAfterMs =
     \<lparr>swr_level = LevelBlock, swr_count = count, swr_limit = limit, swr_remaining = 0,
      swr_retryAfterMs = retryAfterMs\<rparr>"

text \<open>The level below the limit, by the share of the limit that is used.\<close>

definition level_below :: "GraduatedPenaltyConfig \<Rightarrow> rat \<Rightarrow> PenaltyLevel" where
  "level_below penalties ratio =
     (if ratio \<ge> gpc_throttleAtRatio penalties then LevelThrottle
      else if ratio \<ge> gpc_warnAtRatio penalties then LevelWarning else LevelOk)"

definition evaluateInMemory ::
  "string \<Rightarrow> EndpointSlidingWindowConfig \<Rightarrow> int \<Rightarrow> (string, WindowState) jsmap \<Rightarrow>
   SlidingWindowResult \<times> (string, WindowState) jsmap" where
  "evaluateInMemory key cfg nowMs store =
     (let window = esw_window cfg; penalties = esw_penalties cfg; limit = swc_limit window;
          state = (case js_get store key of Some st \<Rightarrow> st
            | None \<Rightarrow> \<lparr>wst_timestamps = [], wst_consecutiveThrottledWindows = 0, wst_blockedUntilMs = 0\<rparr>)
      in if wst_blockedUntilMs state > nowMs
         then (blocked_result (length (wst_timestamps state)) limit (wst_blockedUntilMs state - nowMs), store)
         else
           let pruned = pruneTimestamps (wst_timestamps state) nowMs (swc_windowMs window);
               countBefore = length pruned;
               full = (countBefore \<ge> limit);
               throttled = wst_consecutiveThrottledWindows state + 1
           in if full \<and> throttled \<ge> gpc_blockAfterThrottledWindows penalties
              then (blocked_result countBefore limit (gpc_blockDurationMs penalties),
                    js_set key \<lparr>wst_timestamps = pruned, wst_consecutiveThrottledWindows = 0,
                      wst_blockedUntilMs = nowMs + gpc_blockDurationMs penalties\<rparr> store)
              else
                let level = (if full then LevelThrottle
                      else level_below penalties (of_nat countBefore / of_nat limit));
                    consecutive = (if full then throttled
                      else if level = LevelOk then 0 else wst_consecutiveThrottledWindows state);
                    timestamps = (if level \<noteq> LevelThrottle \<or> countBefore < limit
                      then pruned @ [nowMs] else pruned);
                    count = length timestamps;
                    oldest = (case timestamps of x # xs \<Rightarrow> x | [] \<Rightarrow> nowMs)
                in (\<lparr>swr_level = level, swr_count = count, swr_limit = limit, swr_remaining = limit - count,
                     swr_retryAfterMs = (if level = LevelThrottle
                       then max 0 (oldest + swc_windowMs window - nowMs) else 0)\<rparr>,
                    js_set key (state\<lparr>wst_timestamps := timestamps,
                      wst_consecutiveThrottledWindows := consecutive\<rparr>) store))"

subsection \<open>The middleware\<close>

definition resolveIntelligentClientKey :: "http_request \<Rightarrow> string" where
  "resolveIntelligentClientKey req =
     (let identityKey = resolveClientKey req;
          ip = (case rq_ip req of Some ip \<Rightarrow> ip | None \<Rightarrow> ''unknown'')
      in if identityKey \<noteq> ip then identityKey
         else ip @ ''::'' @ (case single_header ''user-agent'' req of
                Some ua \<Rightarrow> take 64 ua | None \<Rightarrow> ''no-ua''))"

definition window_key :: "string \<Rightarrow> http_request \<Rightarrow> string" where
  "window_key keyPrefix req = keyPrefix @ '':'' @ tier_name (resolveUserTier req) @ '':'' @
     resolveIntelligentClientKey req @ '':'' @ window_label (rq_path req)"

datatype redis_window = NoRedis | RedisAnswer SlidingWindowResult | RedisFailure

datatype window_decision = WindowNext | WindowNextWarned | WindowThrottled int int | WindowBlocked int int

definition slidingWindowMiddleware ::
  "string \<Rightarrow> redis_window \<Rightarrow> http_request \<Rightarrow> int \<Rightarrow> (string, WindowState) jsmap \<Rightarrow>
   (window_decision \<times> SlidingWindowResult) \<times> (string, WindowState) jsmap" where
  "slidingWindowMiddleware keyPrefix redis req now store =
     (let cfg = resolveEndpointWindow (rq_path req) (resolveUserTier req);
          limit = swc_limit (esw_window cfg);
          (result, store') = (case redis of
              NoRedis \<Rightarrow> evaluateInMemory (window_key keyPrefix req) cfg now store
            | RedisAnswer r \<Rightarrow> (r, store)
            | RedisFailure \<Rightarrow> (\<lparr>swr_level = LevelOk, swr_count = 0, swr_limit = limit, swr_remaining = limit,
                swr_retryAfterMs = 0\<rparr>, store));
          retryAfter = \<lceil>of_int (swr_retryAfterMs result) / (1000 :: rat)\<rceil>
      in ((case swr_level result of
             LevelOk \<Rightarrow> WindowNext
           | LevelWarning \<Rightarrow> WindowNextWarned
           | LevelThrottle \<Rightarrow> WindowThrottled 429 retryAfter
           | LevelBlock \<Rightarrow> WindowBlocked 403 retryAfter, result), store'))"

end
