(* ===== verification/RateLimitProps.thy ===== *)
theory RateLimitProps
  imports SlidingWindow
begin

text \<open>
  What the two limiters guarantee on their in-memory stores: the token bucket lets at most its burst
  and what is refilled pass in any interval, and the sliding window stays below nine tenths of its
  limit in any window.
\<close>

subsection \<open>One bucket\<close>

text \<open>What a bucket can still give until time \<open>b\<close>.\<close>

definition bucket_worth :: "TokenBucketConfig \<Rightarrow> int \<Rightarrow> BucketState \<Rightarrow> rat" where
  "bucket_worth cfg b st = bks_tokens st + of_int (b - bks_lastRefillMs st) / 1000 * tbc_refillRate cfg"

definition fresh_worth :: "TokenBucketConfig \<Rightarrow> int \<Rightarrow> int \<Rightarrow> rat" where
  "fresh_worth cfg b t = burst_capacity cfg + of_int (b - t) / 1000 * tbc_refillRate cfg"

definition store_worth :: "TokenBucketConfig \<Rightarrow> string \<Rightarrow> int \<Rightarrow> int \<Rightarrow> (string, BucketState) jsmap \<Rightarrow> rat" where
  "store_worth cfg key b t store =
     (case js_get store key of None \<Rightarrow> fresh_worth cfg b t | Some st \<Rightarrow> bucket_worth cfg b st)"

definition bucket_fits :: "string \<Rightarrow> int \<Rightarrow> (string, BucketState) jsmap \<Rightarrow> bool" where
  "bucket_fits key t store \<longleftrightarrow>
     (\<forall>st. js_get store key = Some st \<longrightarrow> 0 \<le> bks_tokens st \<and> bks_lastRefillMs st \<le> t)"

definition fair_config :: "TokenBucketConfig \<Rightarrow> bool" where
  "fair_config cfg \<longleftrightarrow> 0 \<le> tbc_refillRate cfg \<and> 0 \<le> burst_capacity cfg"

lemma fresh_worth_mono: "fair_config cfg \<Longrightarrow> t \<le> t' \<Longrightarrow> fresh_worth cfg b t' \<le> fresh_worth cfg b t"
  by (auto simp: fresh_worth_def fair_config_def intro!: mult_right_mono divide_right_mono)

lemma store_worth_mono: "fair_config cfg \<Longrightarrow> t \<le> t' \<Longrightarrow> store_worth cfg key b t' store \<le> store_worth cfg key b t store"
  by (auto simp: store_worth_def fresh_worth_mono split: option.split)

lemma store_worth_nonneg:
  "fair_config cfg \<Longrightarrow> bucket_fits key t store \<Longrightarrow> t \<le> b \<Longrightarrow> 0 \<le> store_worth cfg key b t store"
  by (auto simp: store_worth_def bucket_fits_def fresh_worth_def bucket_worth_def fair_config_def
      split: option.split intro!: add_nonneg_nonneg mult_nonneg_nonneg)

lemma consume_worth:
  assumes cfg: "fair_config cfg" and fits: "bucket_fits key t store"
    and run: "consumeInMemory key cfg t store = (r, store')"
  shows "store_worth cfg key b t store' + (if cr_allowed r then 1 else 0) \<le>
      min (store_worth cfg key b t store) (fresh_worth cfg b t)"
    and "bucket_fits key t store'"
proof -
  define st where "st = (case js_get store key of Some st \<Rightarrow> st
      | None \<Rightarrow> \<lparr>bks_tokens = burst_capacity cfg, bks_lastRefillMs = t, bks_burstUsed = False\<rparr>)"
  define tokens where "tokens = refill cfg t st"
  have r: "cr_allowed r = (1 \<le> tokens)"
    and store': "store' = js_set key (st\<lparr>bks_tokens := (if 1 \<le> tokens then tokens - 1 else tokens),
      bks_lastRefillMs := t\<rparr>) store"
    using run by (auto simp: consumeInMemory_def Let_def st_def tokens_def)
  have old: "0 \<le> bks_tokens st" "bks_lastRefillMs st \<le> t"
    using fits cfg by (auto simp: st_def bucket_fits_def fair_config_def split: option.split)
  have worth: "store_worth cfg key b t store = bucket_worth cfg b st"
    by (simp add: st_def store_worth_def bucket_worth_def fresh_worth_def split: option.split)
  have rate: "0 \<le> tbc_refillRate cfg" and burst: "0 \<le> burst_capacity cfg" using cfg by (simp_all add: fair_config_def)
  have elapsed: "max 0 (of_int (t - bks_lastRefillMs st) / 1000) = (of_int (t - bks_lastRefillMs st) / 1000 :: rat)"
    using old(2) by (simp add: max_def)
  have tokens: "tokens = min (burst_capacity cfg) (bks_tokens st + of_int (t - bks_lastRefillMs st) / 1000 * tbc_refillRate cfg)"
    unfolding tokens_def refill_def Let_def elapsed ..
  have "0 \<le> of_int (t - bks_lastRefillMs st) / 1000 * tbc_refillRate cfg"
    using old(2) rate by (intro mult_nonneg_nonneg) simp_all
  then have pos: "0 \<le> tokens" using burst old(1) by (simp add: tokens)
  show "bucket_fits key t store'" using pos by (auto simp: store' bucket_fits_def)
  have after: "store_worth cfg key b t store' + (if cr_allowed r then 1 else 0) =
      tokens + of_int (b - t) / 1000 * tbc_refillRate cfg"
    by (simp add: store' store_worth_def bucket_worth_def r)
  have split_time: "of_int (b - bks_lastRefillMs st) / 1000 * tbc_refillRate cfg =
      of_int (t - bks_lastRefillMs st) / 1000 * tbc_refillRate cfg + of_int (b - t) / 1000 * tbc_refillRate cfg"
    by (simp add: diff_divide_distrib algebra_simps)
  show "store_worth cfg key b t store' + (if cr_allowed r then 1 else 0) \<le>
      min (store_worth cfg key b t store) (fresh_worth cfg b t)"
    unfolding after worth bucket_worth_def fresh_worth_def split_time
    by (simp add: tokens)
qed

lemma consume_other: "key' \<noteq> key \<Longrightarrow> js_get (snd (consumeInMemory key cfg t store)) key' = js_get store key'"
  by (simp add: consumeInMemory_def Let_def)

lemma batch_worth:
  assumes cfg: "fair_config cfg"
  shows "bucket_fits key t store \<Longrightarrow> consume_batch key cfg t (Suc n) combined store = (r, store') \<Longrightarrow>
    store_worth cfg key b t store' + (if cr_allowed r then 1 else 0) \<le>
      min (store_worth cfg key b t store) (fresh_worth cfg b t) \<and> bucket_fits key t store'"
proof (induction n arbitrary: combined store)
  case 0
  obtain r1 store1 where "consumeInMemory key cfg t store = (r1, store1)" by fastforce
  with consume_worth(1) [OF cfg 0(1) this, of b] consume_worth(2) [OF cfg 0(1) this] 0(2) show ?case by (auto split: if_splits)
next
  case (Suc n)
  obtain r1 store1 where first: "consumeInMemory key cfg t store = (r1, store1)" by fastforce
  note step = consume_worth(1) [OF cfg Suc.prems(1) first, of b] consume_worth(2) [OF cfg Suc.prems(1) first]
  show ?case
  proof (cases "cr_allowed r1")
    case True
    then have "consume_batch key cfg t (Suc n) r1 store1 = (r, store')" using Suc.prems(2) first by simp
    from Suc.IH [OF step(2) this] step(1) True show ?thesis by auto
  next
    case False
    with Suc.prems(2) first step show ?thesis by simp
  qed
qed

lemma batch_other:
  "key' \<noteq> key \<Longrightarrow> js_get (snd (consume_batch key cfg t n combined store)) key' = js_get store key'"
proof (induction n arbitrary: combined store)
  case (Suc n)
  then show ?case
    using consume_other [of key' key cfg t store] by (cases "consumeInMemory key cfg t store") auto
qed simp

subsection \<open>Runs of the middleware\<close>

fun rl_after :: "RateLimitOptions \<Rightarrow> (http_request \<times> int) list \<Rightarrow> rate_limiter \<Rightarrow> rate_limiter" where
  "rl_after opts [] s = s"
| "rl_after opts ((req, t) # reqs) s = rl_after opts reqs (snd (rateLimitMiddleware opts None req t s))"

text \<open>The number of requests of a bucket that are passed on.\<close>

fun passed :: "RateLimitOptions \<Rightarrow> string \<Rightarrow> (http_request \<times> int) list \<Rightarrow> rate_limiter \<Rightarrow> nat" where
  "passed opts key [] s = 0"
| "passed opts key ((req, t) # reqs) s =
     (if bucket_key opts req = key \<and> fst (fst (rateLimitMiddleware opts None req t s)) = RateNext then 1 else 0)
     + passed opts key reqs (snd (rateLimitMiddleware opts None req t s))"

lemma batch_positive: "nat \<lceil>batch_count req\<rceil> = Suc (nat \<lceil>batch_count req\<rceil> - 1)"
proof -
  have "1 \<le> batch_count req" by (simp add: batch_count_def Let_def)
  then have "1 \<le> \<lceil>batch_count req\<rceil>" by linarith
  then show ?thesis by linarith
qed

lemma middleware_buckets:
  defines "run \<equiv> \<lambda>opts req t s. consume_batch (bucket_key opts req) (config_for opts req) t (nat \<lceil>batch_count req\<rceil>)
      \<lparr>cr_allowed = True, cr_tokensAfter = tbc_capacity (config_for opts req), cr_retryAfterMs = 0\<rparr> (rl_buckets s)"
  shows "rl_buckets (snd (rateLimitMiddleware opts None req t s)) = snd (run opts req t s)"
    and "fst (fst (rateLimitMiddleware opts None req t s)) = RateNext \<longleftrightarrow> cr_allowed (fst (run opts req t s))"
  by (simp_all add: rateLimitMiddleware_def run_def Let_def split: prod.split)

lemma middleware_worth:
  assumes cfg: "fair_config (config_for opts req)" and fits: "bucket_fits (bucket_key opts req) t (rl_buckets s)"
  defines "s' \<equiv> snd (rateLimitMiddleware opts None req t s)"
  shows "store_worth (config_for opts req) (bucket_key opts req) b t (rl_buckets s') +
      (if fst (fst (rateLimitMiddleware opts None req t s)) = RateNext then 1 else 0) \<le>
      min (store_worth (config_for opts req) (bucket_key opts req) b t (rl_buckets s))
        (fresh_worth (config_for opts req) b t)"
    and "bucket_fits (bucket_key opts req) t (rl_buckets s')"
proof -
  obtain r store' where run: "consume_batch (bucket_key opts req) (config_for opts req) t (nat \<lceil>batch_count req\<rceil>)
      \<lparr>cr_allowed = True, cr_tokensAfter = tbc_capacity (config_for opts req), cr_retryAfterMs = 0\<rparr>
      (rl_buckets s) = (r, store')" by fastforce
  have "consume_batch (bucket_key opts req) (config_for opts req) t (Suc (nat \<lceil>batch_count req\<rceil> - 1))
      \<lparr>cr_allowed = True, cr_tokensAfter = tbc_capacity (config_for opts req), cr_retryAfterMs = 0\<rparr>
      (rl_buckets s) = (r, store')"
    by (subst batch_positive [symmetric]) (rule run)
  note worth = batch_worth [OF cfg fits this, of b]
  show "store_worth (config_for opts req) (bucket_key opts req) b t (rl_buckets s') +
      (if fst (fst (rateLimitMiddleware opts None req t s)) = RateNext then 1 else 0) \<le>
      min (store_worth (config_for opts req) (bucket_key opts req) b t (rl_buckets s))
        (fresh_worth (config_for opts req) b t)"
    and "bucket_fits (bucket_key opts req) t (rl_buckets s')"
    using worth unfolding s'_def middleware_buckets run by simp_all
qed

lemma middleware_other:
  "bucket_key opts req \<noteq> key \<Longrightarrow>
   js_get (rl_buckets (snd (rateLimitMiddleware opts None req t s))) key = js_get (rl_buckets s) key"
  by (simp add: middleware_buckets batch_other)

lemma store_worth_cong: "js_get store' key = js_get store key \<Longrightarrow> store_worth cfg key b t store' = store_worth cfg key b t store"
  by (simp add: store_worth_def)

lemma bucket_fits_later: "bucket_fits key t store \<Longrightarrow> t \<le> t' \<Longrightarrow> bucket_fits key t' store"
  by (force simp: bucket_fits_def)

lemma bucket_fits_cong: "js_get store' key = js_get store key \<Longrightarrow> bucket_fits key t store' = bucket_fits key t store"
  by (simp add: bucket_fits_def)

text \<open>Requests in order of time, those of the bucket with one configuration.\<close>

definition uniform :: "RateLimitOptions \<Rightarrow> string \<Rightarrow> TokenBucketConfig \<Rightarrow> (http_request \<times> int) list \<Rightarrow> bool" where
  "uniform opts key cfg reqs \<longleftrightarrow> sorted (map snd reqs) \<and>
     list_all (\<lambda>r. bucket_key opts (fst r) = key \<longrightarrow> config_for opts (fst r) = cfg) reqs"

lemma middleware_fits:
  assumes "fair_config cfg" and "uniform opts key cfg ((req, t) # reqs)" and "bucket_fits key t0 (rl_buckets s)" and "t0 \<le> t"
  shows "bucket_fits key t (rl_buckets (snd (rateLimitMiddleware opts None req t s)))"
proof (cases "bucket_key opts req = key")
  case True
  with assms middleware_worth(2) [of opts req t s] bucket_fits_later [OF assms(3,4)] show ?thesis
    by (simp add: uniform_def)
next
  case False
  from bucket_fits_later [OF assms(3,4)] show ?thesis
    by (simp add: bucket_fits_cong [OF middleware_other [OF False]])
qed

lemma passed_worth:
  "fair_config cfg \<Longrightarrow> uniform opts key cfg reqs \<Longrightarrow> bucket_fits key t0 (rl_buckets s) \<Longrightarrow>
   list_all (\<lambda>r. t0 \<le> snd r \<and> snd r \<le> b) reqs \<Longrightarrow> t0 \<le> b \<Longrightarrow>
   of_nat (passed opts key reqs s) \<le> store_worth cfg key b t0 (rl_buckets s)"
proof (induction reqs arbitrary: t0 s)
  case Nil
  then show ?case by (simp add: store_worth_nonneg)
next
  case (Cons r reqs)
  obtain req t where r: "r = (req, t)" by fastforce
  define s' where "s' = snd (rateLimitMiddleware opts None req t s)"
  from Cons.prems have t: "t0 \<le> t" "t \<le> b" and rest: "uniform opts key cfg reqs"
    "list_all (\<lambda>r. t \<le> snd r \<and> snd r \<le> b) reqs"
    by (auto simp: r uniform_def list_all_iff)
  have fits: "bucket_fits key t (rl_buckets s')"
    using middleware_fits Cons.prems t(1) unfolding r s'_def by blast
  note IH = Cons.IH [OF Cons.prems(1) rest(1) fits rest(2) t(2)]
  have later: "store_worth cfg key b t (rl_buckets s) \<le> store_worth cfg key b t0 (rl_buckets s)"
    by (rule store_worth_mono [OF Cons.prems(1) t(1)])
  show ?case
  proof (cases "bucket_key opts req = key")
    case True
    then have cfg: "config_for opts req = cfg" using Cons.prems(2) by (simp add: uniform_def r)
    from middleware_worth(1) [of opts req t s b] Cons.prems(1) bucket_fits_later [OF Cons.prems(3) t(1)] True cfg
    have "store_worth cfg key b t (rl_buckets s') +
        (if fst (fst (rateLimitMiddleware opts None req t s)) = RateNext then 1 else 0) \<le>
        store_worth cfg key b t (rl_buckets s)" by (simp add: s'_def)
    with IH later True show ?thesis by (auto simp: r s'_def split: if_splits)
  next
    case False
    with IH later show ?thesis by (simp add: r s'_def store_worth_cong [OF middleware_other [OF False]])
  qed
qed

lemma passed_fresh:
  "fair_config cfg \<Longrightarrow> uniform opts key cfg reqs \<Longrightarrow> bucket_fits key a (rl_buckets s) \<Longrightarrow>
   list_all (\<lambda>r. a \<le> snd r \<and> snd r \<le> b) reqs \<Longrightarrow> a \<le> b \<Longrightarrow>
   of_nat (passed opts key reqs s) \<le> fresh_worth cfg b a"
proof (induction reqs arbitrary: s)
  case Nil
  then show ?case using store_worth_nonneg [of cfg key a "[]" b]
    by (simp add: store_worth_def bucket_fits_def)
next
  case (Cons r reqs)
  obtain req t where r: "r = (req, t)" by fastforce
  define s' where "s' = snd (rateLimitMiddleware opts None req t s)"
  from Cons.prems have t: "a \<le> t" "t \<le> b" and rest: "uniform opts key cfg reqs"
    "list_all (\<lambda>r. t \<le> snd r \<and> snd r \<le> b) reqs" "list_all (\<lambda>r. a \<le> snd r \<and> snd r \<le> b) reqs"
    by (auto simp: r uniform_def list_all_iff)
  show ?case
  proof (cases "bucket_key opts req = key")
    case True
    have fits: "bucket_fits key t (rl_buckets s')"
      using middleware_fits Cons.prems t(1) unfolding r s'_def by blast
    have cfg: "config_for opts req = cfg" using True Cons.prems(2) by (simp add: uniform_def r)
    from middleware_worth(1) [of opts req t s b] Cons.prems(1) bucket_fits_later [OF Cons.prems(3) t(1)] True cfg
    have "store_worth cfg key b t (rl_buckets s') +
        (if fst (fst (rateLimitMiddleware opts None req t s)) = RateNext then 1 else 0) \<le> fresh_worth cfg b t"
      by (simp add: s'_def)
    with passed_worth [OF Cons.prems(1) rest(1) fits rest(2) t(2)] fresh_worth_mono [OF Cons.prems(1) t(1), of b] True
    show ?thesis by (auto simp: r s'_def split: if_splits)
  next
    case False
    have "bucket_fits key a (rl_buckets s')"
      using Cons.prems(3) by (simp add: s'_def bucket_fits_cong [OF middleware_other [OF False]])
    from Cons.IH [OF Cons.prems(1) rest(1) this rest(3) Cons.prems(5)] False show ?thesis by (simp add: r s'_def)
  qed
qed

lemma rl_after_fits:
  "fair_config cfg \<Longrightarrow> uniform opts key cfg reqs \<Longrightarrow> bucket_fits key t0 (rl_buckets s) \<Longrightarrow>
   list_all (\<lambda>r. t0 \<le> snd r \<and> snd r \<le> a) reqs \<Longrightarrow> t0 \<le> a \<Longrightarrow>
   bucket_fits key a (rl_buckets (rl_after opts reqs s))"
proof (induction reqs arbitrary: s t0)
  case Nil
  then show ?case by (auto intro: bucket_fits_later)
next
  case (Cons r reqs)
  obtain req t where r: "r = (req, t)" by fastforce
  have fits: "bucket_fits key t (rl_buckets (snd (rateLimitMiddleware opts None req t s)))"
    using middleware_fits Cons.prems unfolding r by (simp add: list_all_iff)
  from Cons.prems have "uniform opts key cfg reqs" "list_all (\<lambda>r. t \<le> snd r \<and> snd r \<le> a) reqs" "t \<le> a"
    by (auto simp: r uniform_def list_all_iff)
  with Cons.IH [OF Cons.prems(1) _ fits] show ?case by (simp add: r)
qed

text \<open>
  C11: The token bucket bounds the rate. Take any requests to the middleware on its in-memory store,
  in order of time, from a start with no buckets, in any mixture of clients, tiers and endpoints.
  In any interval from \<open>a\<close> to \<open>b\<close> the requests of one bucket that pass are at most its capacity and
  burst and what the refill rate gives in that interval, whatever was consumed before and however
  large the batches are.
\<close>

theorem token_bucket_bounds_requests:
  assumes order: "sorted (map snd (before @ during))"
    and cfg: "list_all (\<lambda>r. bucket_key opts (fst r) = key \<longrightarrow> config_for opts (fst r) = cfg) (before @ during)"
    and fair: "0 \<le> tbc_refillRate cfg" "0 \<le> tbc_capacity cfg + tbc_burstAllowance cfg"
    and time: "list_all (\<lambda>r. a \<le> snd r \<and> snd r \<le> b) during" "list_all (\<lambda>r. snd r \<le> a) before" "a \<le> b"
  shows "of_nat (passed opts key during (rl_after opts before new_rate_limiter)) \<le>
    tbc_capacity cfg + tbc_burstAllowance cfg + tbc_refillRate cfg * (of_int (b - a) / 1000)"
proof -
  have fc: "fair_config cfg" using fair by (simp add: fair_config_def burst_capacity_def)
  have u: "uniform opts key cfg before" "uniform opts key cfg during"
    using order cfg by (auto simp: uniform_def sorted_append)
  define t0 where "t0 = (case before of [] \<Rightarrow> a | r # _ \<Rightarrow> snd r)"
  have "list_all (\<lambda>r. t0 \<le> snd r \<and> snd r \<le> a) before" "t0 \<le> a"
    using order time(2) by (fastforce simp: t0_def list_all_iff sorted_append split: list.splits)+
  with rl_after_fits [OF fc u(1), of t0 new_rate_limiter a]
  have "bucket_fits key a (rl_buckets (rl_after opts before new_rate_limiter))"
    by (simp add: bucket_fits_def new_rate_limiter_def)
  from passed_fresh [OF fc u(2) this time(1,3)] show ?thesis
    by (simp add: fresh_worth_def burst_capacity_def mult.commute)
qed

text \<open>A bucket of two tokens, refilled at one a second: of four requests within a second three pass.\<close>

definition demo_options :: RateLimitOptions where
  "demo_options = \<lparr>rlo_keyPrefix = ''rl'', rlo_endpointConfig = Some (\<lambda>tier. bucket_config 1 1 1),
     rlo_sandboxMode = False\<rparr>"

definition demo_request :: http_request where
  "demo_request = \<lparr>rq_path = ''/x'', rq_ip = Some ''ip'', rq_headers = [], rq_batch = None\<rparr>"

theorem token_bucket_bounds_requests_witness:
  "passed demo_options ''rl:free:ip:global''
     [(demo_request, 0), (demo_request, 0), (demo_request, 500), (demo_request, 1000)] new_rate_limiter = 3 \<and>
   (3 :: rat) \<le> 1 + 1 + 1 * (of_int (1000 - 0) / 1000)"
proof -
  define reqs where "reqs = [(demo_request, 0 :: int), (demo_request, 0), (demo_request, 500), (demo_request, 1000)]"
  have three: "passed demo_options ''rl:free:ip:global'' reqs new_rate_limiter = 3"
    unfolding reqs_def by code_simp
  have "config_for demo_options demo_request = bucket_config 1 1 1"
    by (simp add: config_for_def demo_options_def demo_request_def resolveCustomHourlyLimit_def single_header_def)
  then have "list_all (\<lambda>r. bucket_key demo_options (fst r) = ''rl:free:ip:global'' \<longrightarrow>
      config_for demo_options (fst r) = bucket_config 1 1 1) ([] @ reqs)" by (simp add: reqs_def)
  from token_bucket_bounds_requests [OF _ this, of 0 1000] three show ?thesis
    by (simp add: reqs_def)
qed

subsection \<open>The sliding window\<close>

fun window_passed :: "string \<Rightarrow> string \<Rightarrow> int \<Rightarrow> (http_request \<times> int) list \<Rightarrow> (string, WindowState) jsmap \<Rightarrow> nat" where
  "window_passed keyPrefix key a [] store = 0"
| "window_passed keyPrefix key a ((req, t) # reqs) store =
     (case slidingWindowMiddleware keyPrefix NoRedis req t store of
        ((d, r), store') \<Rightarrow>
          (if window_key keyPrefix req = key \<and> a \<le> t \<and> d \<in> {WindowNext, WindowNextWarned} then 1 else 0)
          + window_passed keyPrefix key a reqs store')"

text \<open>The recorded requests of a key from \<open>a\<close> on.\<close>

definition recorded_from :: "int \<Rightarrow> string \<Rightarrow> (string, WindowState) jsmap \<Rightarrow> nat" where
  "recorded_from a key store =
     (case js_get store key of Some st \<Rightarrow> length (filter (\<lambda>x. a \<le> x) (wst_timestamps st)) | None \<Rightarrow> 0)"

lemma prune_recent:
  assumes "now - w \<le> a"
  shows "filter (\<lambda>x. a \<le> x) (pruneTimestamps ts now w) = filter (\<lambda>x. a \<le> x) ts"
  unfolding pruneTimestamps_def using assms by (induction ts) auto

lemma evaluate_other: "key' \<noteq> key \<Longrightarrow> js_get (snd (evaluateInMemory key cfg now store)) key' = js_get store key'"
  by (simp add: evaluateInMemory_def Let_def)

lemma evaluate_records:
  assumes w: "now - swc_windowMs (esw_window cfg) \<le> a"
    and run: "evaluateInMemory key cfg now store = (r, store')"
  defines "pass \<equiv> swr_level r = LevelOk \<or> swr_level r = LevelWarning"
  shows "recorded_from a key store \<le> recorded_from a key store'"
    and "pass \<Longrightarrow> a \<le> now \<Longrightarrow> recorded_from a key store' = recorded_from a key store + 1"
    and "pass \<Longrightarrow> of_nat (recorded_from a key store) <
      gpc_throttleAtRatio (esw_penalties cfg) * of_nat (swc_limit (esw_window cfg))"
proof -
  define st where "st = (case js_get store key of Some st \<Rightarrow> st
      | None \<Rightarrow> \<lparr>wst_timestamps = [], wst_consecutiveThrottledWindows = 0, wst_blockedUntilMs = 0\<rparr>)"
  define pruned where "pruned = pruneTimestamps (wst_timestamps st) now (swc_windowMs (esw_window cfg))"
  define limit where "limit = swc_limit (esw_window cfg)"
  define full where "full \<longleftrightarrow> limit \<le> length pruned"
  define level where "level = (if full then LevelThrottle
      else level_below (esw_penalties cfg) (of_nat (length pruned) / of_nat limit))"
  have old: "recorded_from a key store = length (filter (\<lambda>x. a \<le> x) pruned)"
    unfolding pruned_def prune_recent [OF w] by (simp add: recorded_from_def st_def split: option.split)
  have new: "recorded_from a key (js_set key (x\<lparr>wst_timestamps := ts\<rparr>) store) = length (filter (\<lambda>x. a \<le> x) ts)"
    for x :: WindowState and ts by (simp add: recorded_from_def)
  note run = run [unfolded evaluateInMemory_def Let_def, folded st_def, folded pruned_def limit_def,
      folded full_def, folded level_def]
  have block: "\<not> (swr_level (blocked_result c l m) = LevelOk \<or> swr_level (blocked_result c l m) = LevelWarning)" for c l m
    by (simp add: blocked_result_def)
  consider (blocked) "wst_blockedUntilMs st > now"
    | (blocks) "\<not> wst_blockedUntilMs st > now"
        "full \<and> gpc_blockAfterThrottledWindows (esw_penalties cfg) \<le> wst_consecutiveThrottledWindows st + 1"
    | (counted) "\<not> wst_blockedUntilMs st > now"
        "\<not> (full \<and> gpc_blockAfterThrottledWindows (esw_penalties cfg) \<le> wst_consecutiveThrottledWindows st + 1)"
    by blast
  then have "recorded_from a key store \<le> recorded_from a key store' \<and>
    (pass \<longrightarrow> a \<le> now \<longrightarrow> recorded_from a key store' = recorded_from a key store + 1) \<and>
    (pass \<longrightarrow> of_nat (recorded_from a key store) < gpc_throttleAtRatio (esw_penalties cfg) * (of_nat limit :: rat))"
  proof cases
    case blocked
    with run block show ?thesis by (auto simp: pass_def)
  next
    case blocks
    with run have "r = blocked_result (length pruned) limit (gpc_blockDurationMs (esw_penalties cfg))"
      and "recorded_from a key store' = length (filter (\<lambda>x. a \<le> x) pruned)"
      by (auto simp: recorded_from_def)
    with block old show ?thesis by (simp add: pass_def)
  next
    case counted
    define ts where "ts = (if level \<noteq> LevelThrottle \<or> length pruned < limit then pruned @ [now] else pruned)"
    from counted run have r: "swr_level r = level" and s': "recorded_from a key store' = length (filter (\<lambda>x. a \<le> x) ts)"
      by (auto simp: ts_def recorded_from_def)
    have "of_nat (length pruned) < gpc_throttleAtRatio (esw_penalties cfg) * (of_nat limit :: rat)" if pass
    proof -
      from that have "level \<noteq> LevelThrottle" unfolding pass_def r by auto
      then have below: "\<not> full" "\<not> of_nat (length pruned) / of_nat limit \<ge> gpc_throttleAtRatio (esw_penalties cfg)"
        by (auto simp: level_def level_below_def split: if_splits)
      then have "limit > 0" by (auto simp: full_def)
      with below(2) show ?thesis by (simp add: not_le divide_less_eq)
    qed
    moreover have "(of_nat (recorded_from a key store) :: rat) \<le> of_nat (length pruned)"
      unfolding of_nat_le_iff old by (rule length_filter_le)
    ultimately have "pass \<longrightarrow> of_nat (recorded_from a key store) < gpc_throttleAtRatio (esw_penalties cfg) * (of_nat limit :: rat)"
      by (blast intro: le_less_trans)
    moreover have "recorded_from a key store \<le> recorded_from a key store' \<and>
        (pass \<longrightarrow> a \<le> now \<longrightarrow> recorded_from a key store' = recorded_from a key store + 1)"
      unfolding s' old by (auto simp: ts_def pass_def r)
    ultimately show ?thesis by blast
  qed
  then show "recorded_from a key store \<le> recorded_from a key store'"
    and "pass \<Longrightarrow> a \<le> now \<Longrightarrow> recorded_from a key store' = recorded_from a key store + 1"
    and "pass \<Longrightarrow> of_nat (recorded_from a key store) <
      gpc_throttleAtRatio (esw_penalties cfg) * of_nat (swc_limit (esw_window cfg))"
    by (simp_all add: limit_def)
qed

lemma window_passed_bound:
  assumes cfg: "list_all (\<lambda>r. window_key keyPrefix (fst r) = key \<longrightarrow>
      resolveEndpointWindow (rq_path (fst r)) (resolveUserTier (fst r)) = cfg) reqs"
    and time: "list_all (\<lambda>r. snd r \<le> a + swc_windowMs (esw_window cfg)) reqs"
  shows "window_passed keyPrefix key a reqs store = 0 \<or>
    of_nat (recorded_from a key store + window_passed keyPrefix key a reqs store) <
      gpc_throttleAtRatio (esw_penalties cfg) * of_nat (swc_limit (esw_window cfg)) + (1 :: rat)"
  using assms
proof (induction reqs arbitrary: store)
  case (Cons x reqs)
  obtain req t where x: "x = (req, t)" by fastforce
  obtain d r store' where run: "slidingWindowMiddleware keyPrefix NoRedis req t store = ((d, r), store')"
    by (metis prod.collapse)
  define n where "n = window_passed keyPrefix key a reqs store'"
  have IH: "n = 0 \<or> of_nat (recorded_from a key store' + n) <
      gpc_throttleAtRatio (esw_penalties cfg) * of_nat (swc_limit (esw_window cfg)) + (1 :: rat)"
    using Cons.IH [of store'] Cons.prems by (simp add: n_def)
  obtain r0 where eval: "evaluateInMemory (window_key keyPrefix req)
      (resolveEndpointWindow (rq_path req) (resolveUserTier req)) t store = (r0, store')"
    and d: "d \<in> {WindowNext, WindowNextWarned} \<longleftrightarrow> swr_level r0 = LevelOk \<or> swr_level r0 = LevelWarning"
    using run by (auto simp: slidingWindowMiddleware_def Let_def split: prod.splits PenaltyLevel.splits)
  show ?case
  proof (cases "window_key keyPrefix req = key")
    case False
    then have "recorded_from a key store' = recorded_from a key store"
      using evaluate_other [of key "window_key keyPrefix req"] eval by (metis recorded_from_def snd_conv)
    with IH False run show ?thesis by (simp add: x n_def)
  next
    case True
    then have c: "resolveEndpointWindow (rq_path req) (resolveUserTier req) = cfg"
      and w: "t - swc_windowMs (esw_window cfg) \<le> a"
      using Cons.prems by (simp_all add: x)
    note records = evaluate_records [OF w eval [unfolded True c], folded d]
    show ?thesis
    proof (cases "a \<le> t \<and> d \<in> {WindowNext, WindowNextWarned}")
      case counts: True
      then have count: "window_passed keyPrefix key a (x # reqs) store = 1 + n"
        using run True by (simp add: x n_def)
      from counts records(2,3) have more: "recorded_from a key store' = recorded_from a key store + 1"
        and "of_nat (recorded_from a key store) <
          gpc_throttleAtRatio (esw_penalties cfg) * (of_nat (swc_limit (esw_window cfg)) :: rat)" by auto
      with IH show ?thesis unfolding count more by (auto simp: algebra_simps)
    next
      case False
      then have "window_passed keyPrefix key a (x # reqs) store = n" using run by (auto simp: x n_def)
      moreover have "(of_nat (recorded_from a key store) :: rat) \<le> of_nat (recorded_from a key store')"
        using records(1) by simp
      ultimately show ?thesis using IH by auto
    qed
  qed
qed simp

lemma window_configs:
  "swc_windowMs (esw_window (resolveEndpointWindow path tier)) = 60000"
  "gpc_throttleAtRatio (esw_penalties (resolveEndpointWindow path tier)) = 9 / 10"
proof -
  have "swc_windowMs (esw_window (resolveEndpointWindow path tier)) = 60000 \<and>
    gpc_throttleAtRatio (esw_penalties (resolveEndpointWindow path tier)) = 9 / 10"
    by (cases tier) (simp_all add: resolveEndpointWindow_def ENDPOINT_SLIDING_WINDOWS_def DEFAULT_SLIDING_WINDOW_def
        by_tier_def minute_window_def DEFAULT_GRADUATED_PENALTIES_def)
  then show "swc_windowMs (esw_window (resolveEndpointWindow path tier)) = 60000"
    and "gpc_throttleAtRatio (esw_penalties (resolveEndpointWindow path tier)) = 9 / 10" by auto
qed

text \<open>
  The sliding window is exact: whatever the state of the store and whatever the other clients
  do, in any 60 seconds the requests of one key that pass the middleware number less than nine
  tenths of the limit of their endpoint and tier plus one; so they never exceed the limit, at window
  edges either.
\<close>

lemma sliding_window_bounds_requests:
  assumes limit: "list_all (\<lambda>r. window_key keyPrefix (fst r) = key \<longrightarrow>
      resolveEndpointWindow (rq_path (fst r)) (resolveUserTier (fst r)) = resolveEndpointWindow path tier) reqs"
    and time: "list_all (\<lambda>r. snd r \<le> a + 60000) reqs"
  shows "of_nat (window_passed keyPrefix key a reqs store) <
    9 / 10 * of_nat (swc_limit (esw_window (resolveEndpointWindow path tier))) + (1 :: rat)"
proof -
  have "(0 :: rat) \<le> 9 / 10 * of_nat (swc_limit (esw_window (resolveEndpointWindow path tier)))" by simp
  with window_passed_bound [where keyPrefix = keyPrefix and key = key and reqs = reqs and a = a and store = store
      and cfg = "resolveEndpointWindow path tier"] limit time
  show ?thesis unfolding window_configs by auto
qed

text \<open>Three withdrawals a minute are allowed to a client of the free tier; the fourth is rejected.\<close>

definition demo_withdrawals :: "(http_request \<times> int) list" where
  "demo_withdrawals = map (\<lambda>t. (demo_request\<lparr>rq_path := ''/api/v1/withdrawals/1''\<rparr>, t)) [0, 10, 20, 30]"

lemma sliding_window_bounds_requests_witness:
  "window_passed ''sw'' ''sw:free:ip::no-ua:/api/v1/withdrawals'' 0 demo_withdrawals [] = 3 \<and>
   of_nat (window_passed ''sw'' ''sw:free:ip::no-ua:/api/v1/withdrawals'' 0 demo_withdrawals []) < (9 / 10 * 3 + 1 :: rat)"
proof -
  have three: "window_passed ''sw'' ''sw:free:ip::no-ua:/api/v1/withdrawals'' 0 demo_withdrawals [] = 3"
    by code_simp
  have limit: "swc_limit (esw_window (resolveEndpointWindow ''/api/v1/withdrawals'' Free)) = 3" by code_simp
  have "resolveEndpointWindow (rq_path r) (resolveUserTier r) = resolveEndpointWindow ''/api/v1/withdrawals'' Free"
    if "r = demo_request\<lparr>rq_path := ''/api/v1/withdrawals/1''\<rparr>" for r
    unfolding that by code_simp
  then have "list_all (\<lambda>r. window_key ''sw'' (fst r) = ''sw:free:ip::no-ua:/api/v1/withdrawals'' \<longrightarrow>
      resolveEndpointWindow (rq_path (fst r)) (resolveUserTier (fst r)) =
      resolveEndpointWindow ''/api/v1/withdrawals'' Free) demo_withdrawals"
    by (simp add: demo_withdrawals_def)
  from sliding_window_bounds_requests [OF this, of 0 "[]"]
  have "of_nat (window_passed ''sw'' ''sw:free:ip::no-ua:/api/v1/withdrawals'' 0 demo_withdrawals []) < (9 / 10 * 3 + 1 :: rat)"
    unfolding limit by (simp add: demo_withdrawals_def)
  with three show ?thesis by (rule conjI)
qed

end
