(* ===== verification/AuditChain.thy ===== *)
theory AuditChain
  imports Js
begin

text \<open>
  \<open>backend/src/audit/immutable-logger.ts\<close> and \<open>chain-verifier.ts\<close>: the hash chain of audit entries,
  the logger that extends it and the verifier. SHA-256, \<open>JSON.stringify\<close> and the collation of
  \<open>localeCompare\<close> are parameters. The store of the logger is a parameter too: what it answers to
  \<open>getLatestAuditHash\<close>, and whether \<open>appendAuditEntry\<close> succeeds. The alert of the verifier is output
  only and left out.
\<close>

subsection \<open>Entries and hashes\<close>

datatype json = JNull | JBool bool | JNum rat | JStr string | JArr "json list" | JObj "(string \<times> json) list"

record ImmutableAuditLogEntry =
  aud_id :: string
  aud_timestamp :: string
  aud_actor :: string
  aud_action :: string
  aud_resource :: string
  aud_details :: json
  aud_previousHash :: string
  aud_hash :: string

text \<open>What the code takes from the runtime.\<close>

record runtime =
  rt_sha256 :: "string \<Rightarrow> string"
  rt_stringify :: "json \<Rightarrow> string"
  rt_collate :: "string \<Rightarrow> nat"

definition AUDIT_GENESIS_HASH :: string where
  "AUDIT_GENESIS_HASH = replicate 64 (CHR ''0'')"

primrec sortJson :: "(string \<Rightarrow> nat) \<Rightarrow> json \<Rightarrow> json" where
  "sortJson collate JNull = JNull"
| "sortJson collate (JBool b) = JBool b"
| "sortJson collate (JNum n) = JNum n"
| "sortJson collate (JStr s) = JStr s"
| "sortJson collate (JArr vs) = JArr (map (sortJson collate) vs)"
| "sortJson collate (JObj es) =
     JObj (sort_key (\<lambda>e. collate (fst e)) (map (map_prod id (sortJson collate)) es))"

definition canonicalizeDetails :: "runtime \<Rightarrow> json \<Rightarrow> string" where
  "canonicalizeDetails rt details = rt_stringify rt (sortJson (rt_collate rt) details)"

text \<open>The hasher is fed the fields one after the other, so it digests their concatenation.\<close>

definition audit_preimage :: "runtime \<Rightarrow> string \<Rightarrow> string \<Rightarrow> string \<Rightarrow> string \<Rightarrow> string \<Rightarrow> json \<Rightarrow> string" where
  "audit_preimage rt previousHash timestamp actor action resource details =
     previousHash @ timestamp @ actor @ action @ resource @ canonicalizeDetails rt details"

definition computeAuditHash :: "runtime \<Rightarrow> string \<Rightarrow> string \<Rightarrow> string \<Rightarrow> string \<Rightarrow> string \<Rightarrow> json \<Rightarrow> string" where
  "computeAuditHash rt previousHash timestamp actor action resource details =
     rt_sha256 rt (audit_preimage rt previousHash timestamp actor action resource details)"

subsection \<open>The logger\<close>

text \<open>
  \<open>writeLock\<close> chains the calls, so they run one after the other; when one of them throws, the promise
  stays rejected and no later call runs.
\<close>

record audit_logger =
  lg_inMemoryEntries :: "ImmutableAuditLogEntry list"
  lg_lockRejected :: bool

record audit_input =
  ain_actor :: "string option"
  ain_action :: string
  ain_resource :: string
  ain_details :: "json option"

datatype latest_answer = NoStore | LatestHash "string option" | LatestFails

definition previous_hash :: "latest_answer \<Rightarrow> ImmutableAuditLogEntry list \<Rightarrow> string" where
  "previous_hash latest entries =
     (case latest of
        LatestHash (Some h) \<Rightarrow> h
      | _ \<Rightarrow> if entries = [] then AUDIT_GENESIS_HASH else aud_hash (last entries))"

definition new_entry ::
  "runtime \<Rightarrow> string \<Rightarrow> string \<Rightarrow> string \<Rightarrow> audit_input \<Rightarrow> ImmutableAuditLogEntry" where
  "new_entry rt uuid timestamp previousHash input =
     (let actor = (case ain_actor input of Some a \<Rightarrow> a | None \<Rightarrow> ''system'');
          details = (case ain_details input of Some d \<Rightarrow> d | None \<Rightarrow> JObj [])
      in \<lparr>aud_id = uuid, aud_timestamp = timestamp, aud_actor = actor, aud_action = ain_action input,
          aud_resource = ain_resource input, aud_details = details, aud_previousHash = previousHash,
          aud_hash = computeAuditHash rt previousHash timestamp actor (ain_action input)
            (ain_resource input) details\<rparr>)"

text \<open>The result is \<open>None\<close> when the call rejects. A failed append is logged and otherwise ignored.\<close>

definition log_audit ::
  "runtime \<Rightarrow> latest_answer \<Rightarrow> string \<Rightarrow> string \<Rightarrow> audit_input \<Rightarrow> audit_logger \<Rightarrow>
   ImmutableAuditLogEntry option \<times> audit_logger" where
  "log_audit rt latest uuid timestamp input lg =
     (if lg_lockRejected lg then (None, lg)
      else if latest = LatestFails then (None, lg\<lparr>lg_lockRejected := True\<rparr>)
      else
        let entry = new_entry rt uuid timestamp (previous_hash latest (lg_inMemoryEntries lg)) input
        in (Some entry, lg\<lparr>lg_inMemoryEntries := lg_inMemoryEntries lg @ [entry]\<rparr>))"

definition getInMemoryEntries :: "audit_logger \<Rightarrow> ImmutableAuditLogEntry list" where
  "getInMemoryEntries lg = lg_inMemoryEntries lg"

definition new_audit_logger :: audit_logger where
  "new_audit_logger = \<lparr>lg_inMemoryEntries = [], lg_lockRejected = False\<rparr>"

subsection \<open>The verifier\<close>

record AuditIntegrityResult =
  air_valid :: bool
  air_checked :: nat
  air_brokenAt :: "string option"
  air_expectedPreviousHash :: "string option"
  air_expectedHash :: "string option"
  air_actualHash :: "string option"

definition entry_hash :: "runtime \<Rightarrow> ImmutableAuditLogEntry \<Rightarrow> string" where
  "entry_hash rt e = computeAuditHash rt (aud_previousHash e) (aud_timestamp e) (aud_actor e)
     (aud_action e) (aud_resource e) (aud_details e)"

text \<open>The loop over the entries; \<open>i\<close> is the position of the first one.\<close>

fun verify_from :: "runtime \<Rightarrow> string \<Rightarrow> nat \<Rightarrow> ImmutableAuditLogEntry list \<Rightarrow> AuditIntegrityResult" where
  "verify_from rt previousHash i [] =
     \<lparr>air_valid = True, air_checked = i, air_brokenAt = None, air_expectedPreviousHash = None,
      air_expectedHash = None, air_actualHash = None\<rparr>"
| "verify_from rt previousHash i (entry # entries) =
     (if aud_previousHash entry \<noteq> previousHash
      then \<lparr>air_valid = False, air_checked = i, air_brokenAt = Some (aud_id entry),
            air_expectedPreviousHash = Some previousHash, air_expectedHash = None,
            air_actualHash = Some (aud_previousHash entry)\<rparr>
      else if entry_hash rt entry \<noteq> aud_hash entry
      then \<lparr>air_valid = False, air_checked = i, air_brokenAt = Some (aud_id entry),
            air_expectedPreviousHash = None, air_expectedHash = Some (entry_hash rt entry),
            air_actualHash = Some (aud_hash entry)\<rparr>
      else verify_from rt (aud_hash entry) (i + 1) entries)"

definition verifyAuditChain :: "runtime \<Rightarrow> ImmutableAuditLogEntry list \<Rightarrow> AuditIntegrityResult" where
  "verifyAuditChain rt entries = verify_from rt AUDIT_GENESIS_HASH 0 entries"

subsection \<open>Chains\<close>

text \<open>The last hash of a chain that starts after \<open>h\<close>.\<close>

definition chain_end :: "string \<Rightarrow> ImmutableAuditLogEntry list \<Rightarrow> string" where
  "chain_end h entries = (if entries = [] then h else aud_hash (last entries))"

fun chained :: "runtime \<Rightarrow> string \<Rightarrow> ImmutableAuditLogEntry list \<Rightarrow> bool" where
  "chained rt h [] \<longleftrightarrow> True"
| "chained rt h (e # es) \<longleftrightarrow>
     aud_previousHash e = h \<and> entry_hash rt e = aud_hash e \<and> chained rt (aud_hash e) es"

lemma chain_end_simps [simp]:
  "chain_end h [] = h" "chain_end h (e # es) = chain_end (aud_hash e) es" "chain_end h (es @ [e]) = aud_hash e"
  by (simp_all add: chain_end_def)

lemma verify_from_valid: "air_valid (verify_from rt h i es) \<longleftrightarrow> chained rt h es"
  by (induction es arbitrary: h i) auto

lemma verify_from_checked: "chained rt h es \<Longrightarrow> air_checked (verify_from rt h i es) = i + length es"
  by (induction es arbitrary: h i) auto

lemma chained_append: "chained rt h (es @ [e]) \<longleftrightarrow>
    chained rt h es \<and> aud_previousHash e = chain_end h es \<and> entry_hash rt e = aud_hash e"
  by (induction es arbitrary: h) auto

lemma new_entry_chains [simp]:
  "aud_previousHash (new_entry rt uuid ts h input) = h"
  "entry_hash rt (new_entry rt uuid ts h input) = aud_hash (new_entry rt uuid ts h input)"
  by (simp_all add: new_entry_def entry_hash_def Let_def)

text \<open>
  Runs of a logger with a store that keeps what is appended and answers with the hash of its last
  entry; an append may fail, and then the entry is lost to the store.
\<close>

record audit_call =
  ac_uuid :: string
  ac_timestamp :: string
  ac_input :: audit_input
  ac_persisted :: bool

definition store_latest :: "ImmutableAuditLogEntry list \<Rightarrow> latest_answer" where
  "store_latest stored = LatestHash (if stored = [] then None else Some (aud_hash (last stored)))"

fun log_stored ::
  "runtime \<Rightarrow> audit_call list \<Rightarrow> audit_logger \<times> ImmutableAuditLogEntry list \<Rightarrow>
   audit_logger \<times> ImmutableAuditLogEntry list" where
  "log_stored rt [] (lg, stored) = (lg, stored)"
| "log_stored rt (c # cs) (lg, stored) =
     (case log_audit rt (store_latest stored) (ac_uuid c) (ac_timestamp c) (ac_input c) lg of
        (None, lg') \<Rightarrow> log_stored rt cs (lg', stored)
      | (Some e, lg') \<Rightarrow> log_stored rt cs (lg', if ac_persisted c then stored @ [e] else stored))"

fun log_in_memory :: "runtime \<Rightarrow> audit_call list \<Rightarrow> audit_logger \<Rightarrow> audit_logger" where
  "log_in_memory rt [] lg = lg"
| "log_in_memory rt (c # cs) lg =
     log_in_memory rt cs (snd (log_audit rt NoStore (ac_uuid c) (ac_timestamp c) (ac_input c) lg))"

lemma log_in_memory_chained:
  "chained rt AUDIT_GENESIS_HASH (lg_inMemoryEntries lg) \<Longrightarrow>
   chained rt AUDIT_GENESIS_HASH (lg_inMemoryEntries (log_in_memory rt cs lg))"
  by (induction cs arbitrary: lg)
    (auto simp: log_audit_def Let_def chained_append chain_end_def previous_hash_def)

text \<open>Before the first entry is stored none may have failed: a fresh store leaves the chain to the memory.\<close>

lemma log_stored_chained:
  "chained rt AUDIT_GENESIS_HASH stored \<Longrightarrow> stored = [] \<longrightarrow> lg_inMemoryEntries lg = [] \<and> list_all ac_persisted (take 1 cs) \<Longrightarrow>
   chained rt AUDIT_GENESIS_HASH (snd (log_stored rt cs (lg, stored)))"
proof (induction cs arbitrary: lg stored)
  case (Cons c cs)
  define latest where "latest = store_latest stored"
  show ?case
  proof (cases "lg_lockRejected lg")
    case True
    then have "log_stored rt (c # cs) (lg, stored) = log_stored rt cs (lg, stored)" by (simp add: log_audit_def)
    moreover have "chained rt AUDIT_GENESIS_HASH (snd (log_stored rt cs (lg, stored)))"
      if "lg_lockRejected lg" "chained rt AUDIT_GENESIS_HASH stored"
      using that by (induction cs) (simp_all add: log_audit_def)
    ultimately show ?thesis using True Cons.prems(1) by simp
  next
    case False
    define e where "e = new_entry rt (ac_uuid c) (ac_timestamp c) (previous_hash latest (lg_inMemoryEntries lg)) (ac_input c)"
    define lg' where "lg' = lg\<lparr>lg_inMemoryEntries := lg_inMemoryEntries lg @ [e]\<rparr>"
    define stored' where "stored' = (if ac_persisted c then stored @ [e] else stored)"
    have run: "log_stored rt (c # cs) (lg, stored) = log_stored rt cs (lg', stored')"
      using False by (simp add: log_audit_def Let_def e_def lg'_def stored'_def latest_def store_latest_def)
    have "previous_hash latest (lg_inMemoryEntries lg) = chain_end AUDIT_GENESIS_HASH stored"
      using Cons.prems(2) by (auto simp: latest_def store_latest_def previous_hash_def chain_end_def)
    then have "chained rt AUDIT_GENESIS_HASH stored'"
      using Cons.prems(1) by (simp add: stored'_def chained_append e_def)
    moreover have "stored' \<noteq> []" using Cons.prems(2) by (auto simp: stored'_def)
    ultimately show ?thesis unfolding run by (intro Cons.IH) simp_all
  qed
qed simp

text \<open>
  What the logger writes verifies. For every sequence of calls the verifier accepts the entries
  kept in memory by a logger without a store, all of them, and, when the store took the very first
  entry, it accepts the entries of a store whatever later appends were lost.
\<close>

lemma logged_chain_verifies:
  assumes "list_all ac_persisted (take 1 calls)"
  shows "(let entries = getInMemoryEntries (log_in_memory rt calls new_audit_logger)
          in air_valid (verifyAuditChain rt entries) \<and> air_checked (verifyAuditChain rt entries) = length calls) \<and>
    air_valid (verifyAuditChain rt (snd (log_stored rt calls (new_audit_logger, []))))"
proof -
  have memory: "chained rt AUDIT_GENESIS_HASH (lg_inMemoryEntries (log_in_memory rt calls new_audit_logger))"
    by (rule log_in_memory_chained) (simp add: new_audit_logger_def)
  have "\<not> lg_lockRejected lg \<Longrightarrow>
      length (lg_inMemoryEntries (log_in_memory rt cs lg)) = length (lg_inMemoryEntries lg) + length cs" for cs lg
    by (induction cs arbitrary: lg) (simp_all add: log_audit_def Let_def)
  then have "length (lg_inMemoryEntries (log_in_memory rt calls new_audit_logger)) = length calls"
    by (simp add: new_audit_logger_def)
  moreover have "chained rt AUDIT_GENESIS_HASH (snd (log_stored rt calls (new_audit_logger, [])))"
    by (rule log_stored_chained) (simp_all add: assms [simplified] new_audit_logger_def)
  ultimately show ?thesis
    using memory by (simp add: verifyAuditChain_def verify_from_valid verify_from_checked getInMemoryEntries_def Let_def)
qed

text \<open>A runtime to compute with; its digest keeps the last 64 characters.\<close>

definition demo_runtime :: runtime where
  "demo_runtime = \<lparr>rt_sha256 = (\<lambda>s. take 64 (rev s @ AUDIT_GENESIS_HASH)), rt_stringify = (\<lambda>j. ''JSON''), rt_collate = length\<rparr>"

definition demo_calls :: "audit_call list" where
  "demo_calls = map (\<lambda>(a, p). \<lparr>ac_uuid = a, ac_timestamp = ''T'', ac_input = \<lparr>ain_actor = None, ain_action = a,
     ain_resource = ''R'', ain_details = None\<rparr>, ac_persisted = p\<rparr>) [(''A'', True), (''B'', False), (''C'', True)]"

lemma logged_chain_verifies_witness:
  "air_valid (verifyAuditChain demo_runtime (snd (log_stored demo_runtime demo_calls (new_audit_logger, [])))) \<and>
   length (snd (log_stored demo_runtime demo_calls (new_audit_logger, []))) = 2"
proof -
  have "list_all ac_persisted (take 1 demo_calls)" by (simp add: demo_calls_def)
  note logged = logged_chain_verifies [OF this, of demo_runtime]
  have "length (snd (log_stored demo_runtime demo_calls (new_audit_logger, []))) = 2" by code_simp
  with logged show ?thesis by (simp add: Let_def)
qed

text \<open>When the first append is lost, the second entry refers to it and the stored chain never verifies.\<close>

lemma lost_first_entry_breaks_chain:
  assumes "\<not> ac_persisted c" and "ac_persisted d"
    and "aud_hash (new_entry rt (ac_uuid c) (ac_timestamp c) AUDIT_GENESIS_HASH (ac_input c)) \<noteq> AUDIT_GENESIS_HASH"
  shows "\<not> air_valid (verifyAuditChain rt (snd (log_stored rt [c, d] (new_audit_logger, []))))"
  using assms
  by (simp add: log_audit_def new_audit_logger_def store_latest_def previous_hash_def Let_def verifyAuditChain_def)

text \<open>After one failure of \<open>getLatestAuditHash\<close> no call is ever logged again.\<close>

lemma failed_lookup_ends_logging:
  "fst (log_audit rt latest uuid ts input (snd (log_audit rt LatestFails uuid' ts' input' lg))) = None"
  by (simp add: log_audit_def)

subsection \<open>Tampering\<close>









text \<open>The fields are not delimited: text can move from one field to the next without a trace.\<close>

lemma shifted_fields_same_hash:
  "computeAuditHash rt h ts (actor @ x) action resource details =
   computeAuditHash rt h ts actor (x @ action) resource details"
  by (simp add: computeAuditHash_def audit_preimage_def)

end
