(* ===== verification/Spec2Isabelle.thy ===== *)
theory Spec2Isabelle
  imports MpcProps MultisigProps RefundProps MarketplaceProps CircuitBreakerProps SplitProps
    BillingProps SubscriptionProps DunningProps InstallmentProps RecurringProps JobQueueProps
    DisputeProps DecimalProps PayoutProps MatchingProps WithdrawalProps TransferProps
    RelayProps WebhookProps RateLimitProps AuditChain
begin

text \<open>
  A verification development for the backend of AgenticPay (\<open>backend/src\<close>, TypeScript on Node):
  the in-memory services that decide about keys, votes and money, and the two middlewares and the
  audit log around them.

  \<^bold>\<open>The program.\<close> HTTP routes parse a request and call one method of a service; a service
  keeps its state in JavaScript \<open>Map\<close>s and arrays, checks its input, throws one of the errors of
  \<open>services/BaseService.ts\<close> or returns a record. The parts modelled here are

  \<^item> threshold signing, \<open>services/mpc/\<close>: a coordinator deals the Shamir shares of a seed to nodes,
    keeps them in a custody store, collects approvals of nodes and signs;
  \<^item> multisig groups, \<open>services/multisig.ts\<close>: payment proposals and signer changes decided by votes;
  \<^item> refunds, \<open>services/refund-engine.ts\<close>: policies, approvals and the call of the payment provider;
  \<^item> marketplace escrow, \<open>services/marketplace-escrow.ts\<close>: orders, milestones, disputes, settlement;
  \<^item> split payments, \<open>services/split-payments/\<close>: a payment divided among recipients in minor units;
  \<^item> subscription billing, \<open>services/subscription-billing.ts\<close> with \<open>services/billing/\<close>: plans, metering,
    invoices, plan changes, promo codes and dunning;
  \<^item> instalment plans, \<open>services/payments/installments/\<close>: a purchase repaid on a calendar schedule;
  \<^item> recurring billing, \<open>services/recurring-billing/\<close>: schedules that a sweep bills when they are due;
  \<^item> the background job queue, \<open>services/job-queue/\<close>: attempts, retries and dead letters;
  \<^item> the circuit breaker, \<open>services/circuitBreaker.ts\<close>, around calls of external services;
  \<^item> payment disputes, \<open>services/dispute-resolution/\<close>: a state machine with evidence, resolutions, a
    timeline and a sweep that escalates what is overdue;
  \<^item> decimal money, \<open>services/money.ts\<close>, and the payouts that use it, \<open>services/payouts/\<close>: batches that
    are reserved, reviewed, settled by an executor and retried;
  \<^item> the allow-list and the limits of withdrawals, \<open>services/withdrawal-allowlist.ts\<close>;
  \<^item> transfers between accounts, \<open>services/transfers.ts\<close>, with quotes, idempotency keys and a daily limit;
  \<^item> sponsored gas, \<open>services/gsn/\<close>: budgets of merchants and a relay that debits them;
  \<^item> webhook keys, \<open>services/webhookKeys.ts\<close>: signatures, rotation with an overlap, revocation, purges;
  \<^item> the matching engine of the reconciliation, \<open>services/payment-reconciliation/matching-engine.ts\<close>;
  \<^item> two rate limiters, \<open>middleware/rate-limit.ts\<close> (token bucket, with \<open>services/api-key-registry.ts\<close>)
    and \<open>middleware/sliding-window-rate-limit.ts\<close>;
  \<^item> the audit log, \<open>audit/immutable-logger.ts\<close> and \<open>audit/chain-verifier.ts\<close>: a hash chain.

  \<^bold>\<open>How the code is modelled.\<close>

  \<^item> An interface is a \<open>record\<close> whose fields have the names of the source with a short prefix, a union
    of string literals a \<open>datatype\<close>, an optional field an \<open>option\<close>, a \<open>Map\<close> an association list in
    insertion order (\<open>set\<close> is \<open>AList.update\<close>, theory \<open>Js\<close>), an array a list.
  \<^item> A method is a function from its arguments and the state to a result and the next state. A thrown
    error is a value of the error type in the sum, and what the method had changed before the throw
    is changed. Methods that are asynchronous are one step up to their \<open>await\<close> and one from it on
    where the code changes state on both sides (the provider call of a refund, the protected call of
    the breaker, the attempt of dunning, the append of the audit log); in between any other step
    may happen.
  \<^item> The code hands out and mutates shared objects. The models keep a snapshot in each place; this
    is the same as long as callers do not write into what they are handed, which the routes do not.
  \<^item> Amounts are JavaScript numbers. The models use rationals, so rounding to cents is written out
    as in the code, and the error of binary fractions is not modelled. Counters and minor units
    are \<open>nat\<close> or \<open>int\<close>. The bytes of GF(2^8) are \<open>8 word\<close>.
  \<^item> What is not under \<open>src/\<close> is an argument: the clock, random bytes, fresh identifiers, SHA-256,
    Ed25519, the payment provider, the function that attempts a payment, Redis and the tables behind
    the audit store. Hypotheses about them say what their documentation says (identifiers are fresh,
    the clock does not go back, a signature that \<open>sign\<close> made is accepted by \<open>verify\<close>).
  \<^item> Every definition computes, and no definition uses fuel: every loop of the modelled code runs over
    a list or counts down, so the recursion is structural or has a proved measure. What may run for
    ever is a sequence of calls, and that is a step relation (\<open>mpc_run\<close>, \<open>ms_step\<close>, \<open>rf_run\<close>,
    \<open>mk_step\<close>, \<open>cb_run\<close>, \<open>billing_step\<close>, \<open>bnpl_step\<close>, \<open>rec_run\<close>, \<open>job_step\<close>, \<open>dispute_step\<close>, \<open>payout_run\<close> and so on) with its
    reachable states.

  \<^bold>\<open>The theories.\<close>

  \<^item> \<open>Interfaces\<close>: the locales \<open>keyed_store\<close>, \<open>secret_sharing\<close>, \<open>share_store\<close>, \<open>custody\<close>: what the
    coordinator relies on, and \<open>repository\<close>, what the services with a store of records rely on. They
    are interpreted on the models of the code: \<open>js\<close> in \<open>Js\<close>, \<open>shamir\<close> in \<open>Shamir\<close>, \<open>hsm\<close> in \<open>Hsm\<close>,
    \<open>bnpl\<close> in \<open>Installments\<close>, \<open>rec_created\<close> and \<open>rec_updated\<close> in \<open>Recurring\<close>, \<open>split_plans\<close> in
    \<open>SplitPayments\<close>.
  \<^item> \<open>Js\<close>: \<open>Map\<close>, decimal numbers in keys, sorting and the other pieces of the runtime. \<open>Money\<close>:
    \<open>Math.round\<close> and cents. \<open>BaseService\<close>: the errors. \<open>JsDate\<close>: the calendar of \<open>Date\<close> in UTC as
    ECMAScript defines it, proved to number the days of the Gregorian calendar.
  \<^item> \<open>GF256\<close>, \<open>Lagrange\<close>, \<open>Shamir\<close> (\<open>mpc/shamir.ts\<close>): the tables of GF(2^8) computed as the code does
    and proved to be the field of polynomials modulo 0x11b (an instance of the class \<open>field\<close>); splitting
    and reconstruction, that threshold many shares give the secret back, and that fewer are
    consistent with every secret.
  \<^item> \<open>Hsm\<close>, \<open>MpcNodes\<close>, \<open>Bft\<close>, \<open>Coordinator\<close> (\<open>mpc/hsm.ts\<close>, \<open>nodes.ts\<close>, \<open>ed25519.ts\<close>, \<open>bft.ts\<close>,
    \<open>coordinator.ts\<close>) with \<open>MpcSafety\<close> (the step relation and its invariants) and \<open>MpcProps\<close>: a
    ceremony gives a key that signs, membership changes keep it, a revoked key never signs, what a
    signed session carries.
  \<^item> \<open>Multisig\<close>, \<open>MultisigProps\<close>: quorum, finality, one vote per signer.
  \<^item> \<open>Refund\<close>, \<open>RefundProps\<close>: the decision of the built-in policy, at most one payment however the
    handlers interleave, the history as a chain, batches.
  \<^item> \<open>Marketplace\<close>, \<open>MarketplaceProps\<close>: conservation of the money of an order, its life cycle, the
    inspection period.
  \<^item> \<open>CircuitBreaker\<close>, \<open>CircuitBreakerProps\<close>: the invariant of the window and the counters, when it
    opens, rejects and recovers.
  \<^item> \<open>SplitPayments\<close>, \<open>SplitProps\<close>: the largest-remainder allocation is exact and fair, and stored
    executions reconcile.
  \<^item> \<open>Billing\<close> (\<open>billing/money.ts\<close>, \<open>metered-pricing.ts\<close>, \<open>proration.ts\<close>, \<open>discounts.ts\<close>,
    \<open>dunning.ts\<close>) with \<open>BillingProps\<close>: the loop of graduated prices equals the sum over tiers, the
    segments of a changed plan tile the period.
  \<^item> \<open>Subscriptions\<close> (\<open>subscription-billing.ts\<close>), \<open>BillingSteps\<close> (its operations as a step relation,
    frame lemmas and case rules), \<open>SubscriptionInv\<close> (invariants), \<open>SubscriptionProps\<close> and
    \<open>DunningProps\<close>: the arithmetic of invoices, promo limits, meter readings as the summary of the
    event log (the log is the abstract state, the readings refine it), cancelled subscriptions, and
    dunning that ends.
  \<^item> \<open>Installments\<close>, \<open>InstallmentProps\<close>: due dates on the calendar, the exact schedule, consistent plans,
    paid instalments that stay paid.
  \<^item> \<open>Recurring\<close>, \<open>RecurringProps\<close>: invoices that tile the billed time, a sweep that bills what is due
    once, and sweeps that catch up. The cron library is an argument.
  \<^item> \<open>JobQueue\<close>, \<open>JobQueueProps\<close>: no job is lost in any interleaving of attempts, a drain as the sum of
    single attempts, bounded delays, and that every job ends.
  \<^item> \<open>Disputes\<close>, \<open>DisputeProps\<close>: the timeline as a path of the state machine, finality, one resolution per
    closed dispute, the escalation sweep.
  \<^item> \<open>DecimalMoney\<close>, \<open>DecimalProps\<close>: parsing rounds the number a text denotes, formatting and parsing are
    inverse, sums are exact. \<open>Payouts\<close>, \<open>PayoutProps\<close>: money is conserved and review is kept in every
    interleaving (\<open>payout_step\<close>, \<open>payout_run\<close>), one batch per cycle; the passes are runs.
  \<^item> \<open>Matching\<close>, \<open>MatchingProps\<close>: the exact passes are instances of a locale (\<open>exact_pass\<close>); every record is
    claimed once or left, matches are what their kind allows, and no better pair is left over.
  \<^item> \<open>Withdrawals\<close>, \<open>WithdrawalProps\<close>: the life cycle of a request (\<open>wd_step\<close>), that approvals are backed by
    the allow-list or a quorum, the limits of sequential withdrawals.
  \<^item> \<open>Transfers\<close>, \<open>TransferProps\<close>: a key makes one transfer (\<open>tr_step\<close>), the limit of every 24 hours, the life
    cycle of a transfer.
  \<^item> \<open>GasBudgets\<close>, \<open>Relay\<close>, \<open>RelayProps\<close> (\<open>gsn/budget-manager.ts\<close>, \<open>gsn/relay-server.ts\<close>): a nonce is sponsored
    once, what is spent is what is billed, and how far a budget is overdrawn (\<open>relay_step\<close>, \<open>kept_step\<close>,
    \<open>submit_step\<close>).
  \<^item> \<open>WebhookKeys\<close>, \<open>WebhookProps\<close>: what is signed is verified, also after a rotation; a revoked key is never
    used again (\<open>wk_step\<close>); a provider keeps an active key (\<open>careful_step\<close>). The HMAC is an argument.
  \<^item> \<open>TokenBucket\<close>, \<open>SlidingWindow\<close>, \<open>RateLimitProps\<close>: how many requests can pass in an interval.
  \<^item> \<open>AuditChain\<close>: what the logger writes the verifier accepts, and a log that was tampered with is
    rejected unless its author knows a collision of the hash function.

  \<^bold>\<open>Not modelled.\<close> Logging and events; the error of binary fractions; callers that write into
  returned objects; of the refund engine the analytics and export functions; of the limiters the
  Redis scripts (an argument) and the HTTP responses but for status, headers and error code. The
  rest of \<open>backend/src\<close> is routes and controllers without logic of their own, clients of databases,
  chains, queues and providers, and services that are planned for later,
  first the payment route engine (\<open>backend/payments/routing\<close>). The
  front end, the contracts in Solidity and Rust and the generated SDKs are outside.
\<close>

end
